(* ===== verification/Prelude.thy ===== *)
theory Prelude
  imports Complex_Main
begin

text \<open>
  The vocabulary the component theories share: the JavaScript values and library functions the
  TypeScript sources use (JSON values, \<open>??\<close>, \<open>Math.round\<close>, \<open>startsWith\<close>,
  \<open>encodeURIComponent\<close>), and the generic lemmas on lists and counters their proofs rest on.

  Conventions.
  \<^item> A JavaScript string is a \<open>string\<close> (a list of bytes, its UTF-8 encoding); \<open>null\<close> and
    \<open>undefined\<close> are \<open>None\<close>.
  \<^item> A JavaScript number is a \<open>nat\<close> or an \<open>int\<close> where the code only counts, and an exact
    \<open>rat\<close> where it divides; the rounding of IEEE doubles is not modelled.
  \<^item> A rejected promise or a thrown exception is \<open>Inl\<close>, a fulfilled one \<open>Inr\<close>.
\<close>

named_theorems upd_simps
  \<open>how a counter, a sum or a projection changes when one list element is replaced\<close>

section \<open>JSON values\<close>

datatype json =
    JNull
  | JBool bool
  | JNum rat
  | JStr string
  | JArr "json list"
  | JObj "(string \<times> json) list"

text \<open>
  \<open>JSON.stringify\<close> drops the fields whose value is \<open>undefined\<close>: an object literal is a list
  of fields with an optional value, and \<open>json_object\<close> keeps the defined ones.
\<close>

fun json_fields :: "(string \<times> json option) list \<Rightarrow> (string \<times> json) list" where
  "json_fields [] = []"
| "json_fields ((k, None) # fs) = json_fields fs"
| "json_fields ((k, Some v) # fs) = (k, v) # json_fields fs"

definition json_object :: "(string \<times> json option) list \<Rightarrow> json" where
  "json_object fs = JObj (json_fields fs)"

text \<open>
  Reading a field: \<open>undefined\<close> (\<open>None\<close>) on a value that has none, a \<open>TypeError\<close>
  (\<open>Inl\<close>) on \<open>null\<close>.
\<close>

fun json_get :: "json \<Rightarrow> string \<Rightarrow> unit + json option" where
  "json_get JNull k = Inl ()"
| "json_get (JObj fs) k = Inr (map_of fs k)"
| "json_get _ k = Inr None"

text \<open>The nullish operator \<open>a ?? b\<close> on a field: \<open>null\<close> counts as absent.\<close>

fun nullish :: "json option \<Rightarrow> json \<Rightarrow> json" where
  "nullish None d = d"
| "nullish (Some JNull) d = d"
| "nullish (Some v) d = v"

definition or_else :: "'a option \<Rightarrow> 'a \<Rightarrow> 'a" where
  "or_else x d = (case x of None \<Rightarrow> d | Some v \<Rightarrow> v)"

lemma or_else_simps [simp]: "or_else None d = d" "or_else (Some v) d = v"
  by (simp_all add: or_else_def)

lemma map_of_json_fields:
  "distinct (map fst fs) \<Longrightarrow> map_of (json_fields fs) k = Option.bind (map_of fs k) id"
proof (induction fs rule: json_fields.induct)
  case (2 k' fs)
  then have "map_of fs k' = None" by (simp add: map_of_eq_None_iff)
  with 2 show ?case by simp
qed auto

section \<open>Strings\<close>

definition starts_with :: "string \<Rightarrow> string \<Rightarrow> bool" where
  "starts_with p s \<longleftrightarrow> take (length p) s = p"

text \<open>\<open>s.includes(q)\<close>\<close>

fun has_part :: "string \<Rightarrow> string \<Rightarrow> bool" where
  "has_part q [] = (q = [])"
| "has_part q (c # cs) = (starts_with q (c # cs) \<or> has_part q cs)"

definition is_upper :: "char \<Rightarrow> bool" where
  "is_upper c \<longleftrightarrow> 65 \<le> (of_char c :: nat) \<and> (of_char c :: nat) \<le> 90"

definition is_lower :: "char \<Rightarrow> bool" where
  "is_lower c \<longleftrightarrow> 97 \<le> (of_char c :: nat) \<and> (of_char c :: nat) \<le> 122"

definition is_digit :: "char \<Rightarrow> bool" where
  "is_digit c \<longleftrightarrow> 48 \<le> (of_char c :: nat) \<and> (of_char c :: nat) \<le> 57"

definition is_alnum :: "char \<Rightarrow> bool" where
  "is_alnum c \<longleftrightarrow> is_upper c \<or> is_lower c \<or> is_digit c"

text \<open>An em dash, as the bytes of its UTF-8 encoding.\<close>

definition em_dash :: string where
  "em_dash = [CHR 0xE2, CHR 0x80, CHR 0x94]"

text \<open>ASCII \<open>toLowerCase\<close> and \<open>trim\<close>.\<close>

definition to_lower_char :: "char \<Rightarrow> char" where
  "to_lower_char c = (if is_upper c then char_of ((of_char c :: nat) + 32) else c)"

definition to_lower :: "string \<Rightarrow> string" where
  "to_lower s = map to_lower_char s"

definition is_space :: "char \<Rightarrow> bool" where
  "is_space c \<longleftrightarrow> (of_char c :: nat) \<in> {9, 10, 11, 12, 13, 32}"

definition trim :: "string \<Rightarrow> string" where
  "trim s = rev (dropWhile is_space (rev (dropWhile is_space s)))"

text \<open>\<open>encodeURIComponent\<close>: every byte but the unreserved ones becomes \<open>%XX\<close>.\<close>

definition uri_unreserved :: "char \<Rightarrow> bool" where
  "uri_unreserved c \<longleftrightarrow> is_alnum c \<or>
     c \<in> {CHR ''-'', CHR ''_'', CHR ''.'', CHR ''!'', CHR ''~'', CHR ''*'', CHR 0x27, CHR ''('', CHR '')''}"

definition hex_digit :: "nat \<Rightarrow> char" where
  "hex_digit n = (if n < 10 then char_of (48 + n) else char_of (55 + n))"

definition encode_byte :: "char \<Rightarrow> string" where
  "encode_byte c =
     (if uri_unreserved c then [c]
      else [CHR ''%'', hex_digit (of_char c div 16), hex_digit (of_char c mod 16)])"

definition encodeURIComponent :: "string \<Rightarrow> string" where
  "encodeURIComponent s = concat (map encode_byte s)"

definition hex_value :: "char \<Rightarrow> nat" where
  "hex_value c = (if is_digit c then of_char c - 48 else of_char c - 55)"

fun decodeURIComponent :: "string \<Rightarrow> string" where
  "decodeURIComponent [] = []"
| "decodeURIComponent (c # cs) =
     (if c = CHR ''%'' then
        (case cs of
           h # l # rest \<Rightarrow> char_of (16 * hex_value h + hex_value l) # decodeURIComponent rest
         | _ \<Rightarrow> [])
      else c # decodeURIComponent cs)"

lemma high_nibble: "(of_char c :: nat) div 16 < 16"
proof -
  have "(of_char c :: nat) < 16 * 16" by simp
  then show ?thesis by (rule less_mult_imp_div_less)
qed

lemma hex_value_digit: "n < 16 \<Longrightarrow> hex_value (hex_digit n) = n"
  by (auto simp: hex_value_def hex_digit_def is_digit_def)

lemma hex_digit_alnum: "n < 16 \<Longrightarrow> is_alnum (hex_digit n)"
  by (auto simp: hex_digit_def is_alnum_def is_digit_def is_upper_def)

lemma percent_reserved: "\<not> uri_unreserved CHR ''%''"
  by (simp add: uri_unreserved_def is_alnum_def is_upper_def is_lower_def is_digit_def)

lemma decode_encode_byte:
  "decodeURIComponent (encode_byte c @ s) = c # decodeURIComponent s"
proof (cases "uri_unreserved c")
  case True
  with percent_reserved have "c \<noteq> CHR ''%''" by auto
  with True show ?thesis by (simp add: encode_byte_def)
next
  case False
  have "16 * hex_value (hex_digit (of_char c div 16)) + hex_value (hex_digit (of_char c mod 16))
      = (of_char c :: nat)"
    by (simp add: hex_value_digit high_nibble)
  with False show ?thesis by (simp add: encode_byte_def)
qed

lemma decode_encode: "decodeURIComponent (encodeURIComponent s) = s"
  by (induction s) (simp_all add: encodeURIComponent_def decode_encode_byte)

lemma encode_inj: "encodeURIComponent s = encodeURIComponent t \<Longrightarrow> s = t"
  by (metis decode_encode)

lemma encode_byte_chars: "c \<in> set (encode_byte b) \<Longrightarrow> uri_unreserved c \<or> c = CHR ''%''"
proof -
  assume c: "c \<in> set (encode_byte b)"
  have "is_alnum (hex_digit (of_char b div 16))" "is_alnum (hex_digit (of_char b mod 16))"
    by (simp_all add: hex_digit_alnum high_nibble)
  with c show ?thesis by (auto simp: encode_byte_def uri_unreserved_def split: if_splits)
qed

lemma encode_chars: "c \<in> set (encodeURIComponent s) \<Longrightarrow> uri_unreserved c \<or> c = CHR ''%''"
  by (auto simp: encodeURIComponent_def dest: encode_byte_chars)

section \<open>Numbers\<close>

text \<open>\<open>Math.round\<close> rounds half up.\<close>

definition js_round :: "rat \<Rightarrow> int" where
  "js_round x = \<lfloor>x + 1 / 2\<rfloor>"

lemma js_round_mono: "x \<le> y \<Longrightarrow> js_round x \<le> js_round y"
  by (simp add: js_round_def floor_mono)

lemma js_round_of_int [simp]: "js_round (of_int n) = n"
  by (simp add: js_round_def floor_eq_iff)

lemma js_round_nonneg: "0 \<le> x \<Longrightarrow> 0 \<le> js_round x"
  by (simp add: js_round_def)

section \<open>Counting and summing over a list with one element replaced\<close>

definition count_if :: "('a \<Rightarrow> bool) \<Rightarrow> 'a list \<Rightarrow> nat" where
  "count_if P xs = length (filter P xs)"

lemma count_if_simps [simp]:
  "count_if P [] = 0"
  "count_if P (x # xs) = (if P x then Suc (count_if P xs) else count_if P xs)"
  "count_if P (xs @ ys) = count_if P xs + count_if P ys"
  by (simp_all add: count_if_def)

lemma count_if_le: "count_if P xs \<le> length xs"
  by (simp add: count_if_def)

lemma count_if_all: "\<forall>x \<in> set xs. P x \<Longrightarrow> count_if P xs = length xs"
  by (simp add: count_if_def)

lemma count_if_eq_length: "count_if P xs = length xs \<Longrightarrow> \<forall>x \<in> set xs. P x"
  by (induction xs) (auto split: if_splits, (metis count_if_le Suc_n_not_le_n)+)

lemma count_if_none: "count_if P xs = 0 \<longleftrightarrow> (\<forall>x \<in> set xs. \<not> P x)"
  by (simp add: count_if_def filter_empty_conv)

lemma count_if_split: "count_if P xs + count_if (\<lambda>x. \<not> P x) xs = length xs"
  by (simp add: count_if_def sum_length_filter_compl)

lemma count_if_update [upd_simps]:
  "i < length xs \<Longrightarrow>
     count_if P (xs[i := x]) + (if P (xs ! i) then 1 else 0)
     = count_if P xs + (if P x then 1 else 0)"
proof (induction xs arbitrary: i)
  case (Cons y ys)
  then show ?case by (cases i) (auto split: if_splits)
qed simp

lemma count_if_pos: "i < length xs \<Longrightarrow> P (xs ! i) \<Longrightarrow> 0 < count_if P xs"
  by (auto simp: count_if_def filter_empty_conv)

lemma sum_list_nth_le: "i < length xs \<Longrightarrow> xs ! i \<le> sum_list (xs :: nat list)"
  by (rule member_le_sum_list) (simp_all add: nth_mem)

lemma sum_list_le_pointwise:
  "length xs = length ys \<Longrightarrow> (\<And>i. i < length xs \<Longrightarrow> xs ! i \<le> ys ! i) \<Longrightarrow>
     sum_list xs \<le> (sum_list ys :: nat)"
proof (induction xs ys rule: list_induct2)
  case (Cons x xs y ys)
  have "x \<le> y" using Cons.prems [of 0] by simp
  moreover have "sum_list xs \<le> sum_list ys"
    using Cons.IH Cons.prems by (metis Suc_less_eq length_Cons nth_Cons_Suc)
  ultimately show ?case by simp
qed simp

lemma map_update_same: "f x = f (xs ! i) \<Longrightarrow> i < length xs \<Longrightarrow> map f (xs[i := x]) = map f xs"
  by (simp add: map_update list_update_same_conv)

end
