(* ===== verification/JsNumber.thy ===== *)
theory JsNumber
  imports Prelude
begin

text \<open>
  The number parsing the sources rely on: \<open>Number(s)\<close>, \<open>parseFloat(s)\<close>,
  \<open>parseInt(s, 10)\<close>, and the rendering \<open>String(n)\<close> of a natural number, after the grammar of
  string numeric literals of the language standard. A result is an exact rational, one of the
  infinities, or NaN.
\<close>

datatype jsnum = NaN | PInf | NInf | Fin rat

definition digit_val :: "char \<Rightarrow> nat" where
  "digit_val c = of_char c - 48"

definition digits_val :: "string \<Rightarrow> nat" where
  "digits_val ds = foldl (\<lambda>acc c. 10 * acc + digit_val c) 0 ds"

text \<open>\<open>String(n)\<close>\<close>

fun show_nat :: "nat \<Rightarrow> string" where
  "show_nat n = (if n < 10 then [char_of (48 + n)] else show_nat (n div 10) @ [char_of (48 + n mod 10)])"

declare show_nat.simps [simp del]

text \<open>The exponent part: consumed only where a digit follows the optional sign.\<close>

definition scan_exponent :: "string \<Rightarrow> int \<times> string" where
  "scan_exponent s =
     (case s of
        e # r \<Rightarrow>
          if e = CHR ''e'' \<or> e = CHR ''E'' then
            let (sgn, r') =
                  (case r of
                     c # cs \<Rightarrow> if c = CHR ''-'' then (- 1, cs) else if c = CHR ''+'' then (1, cs) else (1, r)
                   | [] \<Rightarrow> (1, r));
                ds = takeWhile is_digit r'
            in if ds = [] then (0, s) else (sgn * int (digits_val ds), dropWhile is_digit r')
          else (0, s)
      | [] \<Rightarrow> (0, s))"

definition scale10 :: "rat \<Rightarrow> int \<Rightarrow> rat" where
  "scale10 m e = (if 0 \<le> e then m * 10 ^ nat e else m / 10 ^ nat (- e))"

text \<open>An unsigned decimal literal at the start of the string, with what follows it.\<close>

definition scan_unsigned :: "string \<Rightarrow> (rat \<times> string) option" where
  "scan_unsigned s =
     (let ds = takeWhile is_digit s;
          r = dropWhile is_digit s;
          (fs, r') = (case r of
                        c # cs \<Rightarrow> if c = CHR ''.'' then (takeWhile is_digit cs, dropWhile is_digit cs)
                                 else ([], r)
                      | [] \<Rightarrow> ([], r))
      in if ds = [] \<and> fs = [] then None
         else let (e, r'') = scan_exponent r'
              in Some (scale10 (of_nat (digits_val (ds @ fs))) (e - int (length fs)), r''))"

text \<open>A decimal literal or \<open>Infinity\<close> with an optional sign, and the rest of the string.\<close>

definition scan_signed :: "string \<Rightarrow> (jsnum \<times> string) option" where
  "scan_signed s =
     (let (neg, r) = (case s of
                        c # cs \<Rightarrow> if c = CHR ''-'' then (True, cs) else if c = CHR ''+'' then (False, cs)
                                 else (False, s)
                      | [] \<Rightarrow> (False, s))
      in if starts_with ''Infinity'' r then Some (if neg then NInf else PInf, drop 8 r)
         else case scan_unsigned r of
                None \<Rightarrow> None
              | Some (q, rest) \<Rightarrow> Some (Fin (if neg then - q else q), rest))"

text \<open>Hexadecimal, octal and binary literals (without sign).\<close>

definition radix_digit :: "char \<Rightarrow> nat option" where
  "radix_digit c =
     (if is_digit c then Some (of_char c - 48)
      else if is_lower c then Some (of_char c - 87)
      else if is_upper c then Some (of_char c - 55) else None)"

fun radix_val :: "nat \<Rightarrow> nat \<Rightarrow> string \<Rightarrow> nat option" where
  "radix_val b acc [] = Some acc"
| "radix_val b acc (c # cs) =
     (case radix_digit c of
        None \<Rightarrow> None
      | Some d \<Rightarrow> if d < b then radix_val b (b * acc + d) cs else None)"

definition radix_of :: "string \<Rightarrow> nat option" where
  "radix_of s =
     (let p = take 2 s
      in if p = ''0x'' \<or> p = ''0X'' then Some 16
         else if p = ''0o'' \<or> p = ''0O'' then Some 8
         else if p = ''0b'' \<or> p = ''0B'' then Some 2 else None)"

definition js_Number :: "string \<Rightarrow> jsnum" where
  "js_Number s =
     (let t = trim s
      in if t = [] then Fin 0
         else case radix_of t of
                Some b \<Rightarrow> (if drop 2 t = [] then NaN
                           else case radix_val b 0 (drop 2 t) of None \<Rightarrow> NaN | Some n \<Rightarrow> Fin (of_nat n))
              | None \<Rightarrow> (case scan_signed t of
                           Some (x, rest) \<Rightarrow> if rest = [] then x else NaN
                         | None \<Rightarrow> NaN))"

text \<open>\<open>parseFloat\<close> reads the longest decimal prefix and ignores what follows.\<close>

definition parseFloat :: "string \<Rightarrow> jsnum" where
  "parseFloat s = (case scan_signed (dropWhile is_space s) of None \<Rightarrow> NaN | Some (x, _) \<Rightarrow> x)"

text \<open>\<open>parseInt(s, 10)\<close>\<close>

definition parseInt10 :: "string \<Rightarrow> int option" where
  "parseInt10 s =
     (let t = dropWhile is_space s;
          (sgn, r) = (case t of
                        c # cs \<Rightarrow> if c = CHR ''-'' then (- 1, cs) else if c = CHR ''+'' then (1, cs) else (1, t)
                      | [] \<Rightarrow> (1, t));
          ds = takeWhile is_digit r
      in if ds = [] then None else Some (sgn * int (digits_val ds)))"

definition is_finite_num :: "jsnum \<Rightarrow> bool" where
  "is_finite_num x = (case x of Fin _ \<Rightarrow> True | _ \<Rightarrow> False)"

section \<open>Reading back a rendered number\<close>

lemma digits_val_snoc: "digits_val (ds @ [c]) = 10 * digits_val ds + digit_val c"
  by (simp add: digits_val_def)

lemma digit_char: "n < 10 \<Longrightarrow> is_digit (char_of (48 + n))" "n < 10 \<Longrightarrow> digit_val (char_of (48 + n)) = n"
  by (simp_all add: is_digit_def digit_val_def)

lemma show_nat_digits: "\<forall>c \<in> set (show_nat n). is_digit c"
proof (induction n rule: show_nat.induct)
  case (1 n)
  then show ?case by (subst show_nat.simps) (auto simp: digit_char)
qed

lemma show_nat_nonempty: "show_nat n \<noteq> []"
  by (subst show_nat.simps) simp

lemma digits_val_show_nat: "digits_val (show_nat n) = n"
proof (induction n rule: show_nat.induct)
  case (1 n)
  then show ?case
    by (subst show_nat.simps)
       (auto simp: digits_val_snoc digit_char digits_val_def [of "[_]"])
qed

lemma digit_facts:
  "is_digit c \<Longrightarrow> \<not> is_space c" "is_digit c \<Longrightarrow> c \<noteq> CHR ''-''" "is_digit c \<Longrightarrow> c \<noteq> CHR ''+''"
  "is_digit c \<Longrightarrow> c \<noteq> CHR ''I''" "is_digit c \<Longrightarrow> c \<noteq> CHR ''x''" "is_digit c \<Longrightarrow> c \<noteq> CHR ''X''"
  "is_digit c \<Longrightarrow> c \<noteq> CHR ''o''" "is_digit c \<Longrightarrow> c \<noteq> CHR ''O''" "is_digit c \<Longrightarrow> c \<noteq> CHR ''b''"
  "is_digit c \<Longrightarrow> c \<noteq> CHR ''B''"
  by (auto simp: is_digit_def is_space_def)

lemma takeWhile_digits: "\<forall>c \<in> set s. is_digit c \<Longrightarrow> takeWhile is_digit s = s"
  and dropWhile_digits: "\<forall>c \<in> set s. is_digit c \<Longrightarrow> dropWhile is_digit s = []"
  by (simp_all add: takeWhile_eq_all_conv)

lemma trim_digits: "\<forall>c \<in> set s. is_digit c \<Longrightarrow> trim s = s"
proof -
  assume s: "\<forall>c \<in> set s. is_digit c"
  have "dropWhile is_space xs = xs" if "\<forall>c \<in> set xs. is_digit c" for xs
    using that by (cases xs) (auto simp: digit_facts)
  with s show ?thesis by (simp add: trim_def)
qed

lemma radix_of_digits: "\<forall>c \<in> set s. is_digit c \<Longrightarrow> radix_of s = None"
  by (cases s; cases "tl s") (auto simp: radix_of_def digit_facts)

lemma scan_unsigned_digits:
  "\<forall>c \<in> set s. is_digit c \<Longrightarrow> s \<noteq> [] \<Longrightarrow> scan_unsigned s = Some (of_nat (digits_val s), [])"
  by (simp add: scan_unsigned_def takeWhile_digits dropWhile_digits scan_exponent_def scale10_def)

lemma scan_signed_digits:
  assumes "\<forall>c \<in> set s. is_digit c" "s \<noteq> []"
  shows "scan_signed s = Some (Fin (of_nat (digits_val s)), [])"
proof -
  from assms obtain c cs where s: "s = c # cs" "is_digit c" by (cases s) auto
  then have "\<not> starts_with ''Infinity'' s" by (auto simp: starts_with_def digit_facts)
  with s assms show ?thesis
    by (simp add: scan_signed_def digit_facts scan_unsigned_digits)
qed

lemma js_Number_show_nat: "js_Number (show_nat n) = Fin (of_nat n)"
proof -
  note digits = show_nat_digits [of n] show_nat_nonempty [of n]
  show ?thesis
    by (simp add: js_Number_def trim_digits digits radix_of_digits scan_signed_digits
        digits_val_show_nat)
qed

lemma parseInt10_show_nat: "parseInt10 (show_nat n) = Some (int n)"
proof -
  from show_nat_digits [of n] show_nat_nonempty [of n]
  obtain c cs where s: "show_nat n = c # cs" "is_digit c" by (cases "show_nat n") auto
  then have "takeWhile is_digit cs = cs"
    using show_nat_digits [of n] by (intro takeWhile_digits) simp
  note this [simp]
  from s show ?thesis
    using digits_val_show_nat [of n] by (simp add: parseInt10_def digit_facts)
qed

lemma show_nat_inj: "show_nat m = show_nat n \<Longrightarrow> m = n"
  by (metis digits_val_show_nat)

end
