(* ===== verification/ApiClient.thy ===== *)
theory ApiClient
  imports JsNumber
begin

text \<open>
  The HTTP client of the web frontend, \<open>frontend/src/api/client.ts\<close>: the error value every
  call rejects with, the retry of rate-limited (429) requests, and the XHR upload with its stall
  timer.

  The network is a parameter: \<open>fetch k\<close> is what the \<open>k\<close>-th attempt of a request gets
  (\<open>None\<close> when \<open>fetch\<close> itself rejects), and an upload attempt is the list of the XHR events
  it sees, with their times in milliseconds. So are \<open>Date.now\<close>, \<open>Math.random\<close> and the
  engine-defined \<open>Date.parse\<close>. The visible effects of a call (requests sent, delays slept,
  progress reported, the session-expired event) are recorded in order.
\<close>

section \<open>Errors and responses\<close>

text \<open>
  A rejection: an \<open>ApiError\<close> with its status, message, body and \<open>Retry-After\<close> value, a
  \<open>TypeError\<close> (network failure of \<open>fetch\<close>, or a field read on \<open>null\<close>), or the
  \<open>SyntaxError\<close> of an unreadable JSON body.
\<close>

datatype api_exn =
    ApiError (api_status: nat) (api_message: json) (api_body: json) (api_retryAfter: "string option")
  | TypeError
  | SyntaxError

record response =
  status :: nat
  statusText :: string
  retryAfter :: "string option"
  body :: "json option"   \<comment> \<open>\<open>None\<close> when the body is not JSON\<close>

datatype api_effect =
    SendRequest string
  | Sleep rat
  | OnProgress nat nat
  | SessionExpired

record retry_env =
  dateParse :: "string \<Rightarrow> int option"
  dateNow :: "nat \<Rightarrow> int"
  mathRandom :: "nat \<Rightarrow> rat"

definition BASE :: string where
  "BASE = ''/api/v1''"

definition RATE_LIMIT_RETRIES :: nat where
  "RATE_LIMIT_RETRIES = 4"

definition RATE_LIMIT_BASE_DELAY_MS :: rat where
  "RATE_LIMIT_BASE_DELAY_MS = 600"

definition STALL_TIMEOUT_MS :: nat where
  "STALL_TIMEOUT_MS = 600000"

section \<open>The delay before a retry\<close>

definition backoff :: "retry_env \<Rightarrow> nat \<Rightarrow> rat" where
  "backoff env attempt = RATE_LIMIT_BASE_DELAY_MS * 2 ^ attempt + mathRandom env attempt * 250"

definition retryDelayMs :: "retry_env \<Rightarrow> nat \<Rightarrow> string option \<Rightarrow> rat" where
  "retryDelayMs env attempt ra =
     (case ra of
        None \<Rightarrow> backoff env attempt
      | Some h \<Rightarrow>
          if h = [] then backoff env attempt
          else
            let at_date =
              (case dateParse env h of
                 Some t \<Rightarrow> min (max (of_int (t - dateNow env attempt)) 0) 30000
               | None \<Rightarrow> backoff env attempt)
            in case js_Number h of
                 Fin secs \<Rightarrow> if 0 \<le> secs then min (secs * 1000) 30000 else at_date
               | _ \<Rightarrow> at_date)"

section \<open>Requests\<close>

definition response_ok :: "response \<Rightarrow> bool" where
  "response_ok r \<longleftrightarrow> 200 \<le> status r \<and> status r \<le> 299"

text \<open>The attempts of one request, up to the response the loop leaves with.\<close>

function request_loop ::
  "retry_env \<Rightarrow> string \<Rightarrow> (nat \<Rightarrow> response option) \<Rightarrow> nat \<Rightarrow> api_effect list \<times> response option" where
  "request_loop env path fetch attempt =
     (case fetch attempt of
        None \<Rightarrow> ([SendRequest (BASE @ path)], None)
      | Some res \<Rightarrow>
          if status res \<noteq> 429 \<or> attempt \<ge> RATE_LIMIT_RETRIES
          then ([SendRequest (BASE @ path)], Some res)
          else (let (es, r) = request_loop env path fetch (Suc attempt)
                in (SendRequest (BASE @ path) # Sleep (retryDelayMs env attempt (retryAfter res)) # es, r)))"
  by pat_completeness auto
termination
  by (relation "measure (\<lambda>(env, path, fetch, k). RATE_LIMIT_RETRIES - k)") auto

declare request_loop.simps [simp del]

text \<open>What a final response becomes: the effects, then the rejection or the value.\<close>

definition request_result :: "response option \<Rightarrow> api_effect list \<times> (api_exn + json option)" where
  "request_result r =
     (case r of
        None \<Rightarrow> ([], Inl TypeError)
      | Some res \<Rightarrow>
          if \<not> response_ok res then
            let b = or_else (body res) (JObj []) in
            (if status res = 401 then [SessionExpired] else [],
             case json_get b ''error'' of
               Inl _ \<Rightarrow> Inl TypeError
             | Inr e \<Rightarrow> Inl (ApiError (status res) (nullish e (JStr (statusText res))) b None))
          else if status res = 204 then ([], Inr None)
          else ([], case body res of None \<Rightarrow> Inl SyntaxError | Some v \<Rightarrow> Inr (Some v)))"

definition request ::
  "retry_env \<Rightarrow> string \<Rightarrow> (nat \<Rightarrow> response option) \<Rightarrow> api_effect list \<times> (api_exn + json option)" where
  "request env path fetch =
     (let (es, r) = request_loop env path fetch 0; (es', v) = request_result r in (es @ es', v))"

text \<open>The single-shot multipart upload: no retry, and the error keeps no body.\<close>

definition upload ::
  "string \<Rightarrow> response option \<Rightarrow> api_effect list \<times> (api_exn + json)" where
  "upload path r =
     (case r of
        None \<Rightarrow> ([SendRequest (BASE @ path)], Inl TypeError)
      | Some res \<Rightarrow>
          if \<not> response_ok res then
            (SendRequest (BASE @ path) # (if status res = 401 then [SessionExpired] else []),
             case json_get (or_else (body res) (JObj [])) ''error'' of
               Inl _ \<Rightarrow> Inl TypeError
             | Inr e \<Rightarrow> Inl (ApiError (status res) (nullish e (JStr (statusText res))) (JObj []) None))
          else ([SendRequest (BASE @ path)],
                case body res of None \<Rightarrow> Inl SyntaxError | Some v \<Rightarrow> Inr v))"

section \<open>One XHR upload attempt\<close>

datatype xhr_event =
    UploadLoadStart
  | UploadProgress bool nat nat        \<comment> \<open>\<open>lengthComputable\<close>, \<open>loaded\<close>, \<open>total\<close>\<close>
  | UploadLoad
  | Load response                      \<comment> \<open>the response; \<open>body\<close> is the parsed \<open>responseText\<close>\<close>
  | NetError
  | AbortEvent

record xhr_state =
  lastLoaded :: nat
  stallTimer :: "nat option"           \<comment> \<open>the time the pending stall timer fires\<close>
  stalledOut :: bool
  settled :: "(api_exn + json) option"
  xhr_effects :: "api_effect list"

definition xhr_init :: xhr_state where
  "xhr_init = \<lparr>lastLoaded = 0, stallTimer = None, stalledOut = False, settled = None, xhr_effects = []\<rparr>"

definition client_error :: "string \<Rightarrow> api_exn" where
  "client_error m = ApiError 0 (JStr m) (JObj []) None"

text \<open>The stall message; its dash is the three bytes of U+2014.\<close>

definition STALLED :: string where
  "STALLED = ''Upload stalled '' @ [CHR 0xE2, CHR 0x80, CHR 0x94] @ '' no data transferred for 10 minutes''"

definition clearStall :: "xhr_state \<Rightarrow> xhr_state" where
  "clearStall s = s\<lparr>stallTimer := None\<rparr>"

definition resetStall :: "nat \<Rightarrow> xhr_state \<Rightarrow> xhr_state" where
  "resetStall now s = s\<lparr>stallTimer := Some (now + STALL_TIMEOUT_MS)\<rparr>"

text \<open>A promise settles once: later calls of \<open>resolve\<close> and \<open>reject\<close> do nothing.\<close>

definition settle :: "api_exn + json \<Rightarrow> xhr_state \<Rightarrow> xhr_state" where
  "settle v s = (case settled s of None \<Rightarrow> s\<lparr>settled := Some v\<rparr> | Some _ \<Rightarrow> s)"

definition emit :: "api_effect \<Rightarrow> xhr_state \<Rightarrow> xhr_state" where
  "emit e s = s\<lparr>xhr_effects := xhr_effects s @ [e]\<rparr>"

definition on_abort :: "xhr_state \<Rightarrow> xhr_state" where
  "on_abort s =
     (let s' = clearStall s in if stalledOut s' then s' else settle (Inl (client_error ''Cancelled'')) s')"

text \<open>The timer callback: mark, abort (whose event handler runs at once), reject.\<close>

definition fire_stall :: "xhr_state \<Rightarrow> xhr_state" where
  "fire_stall s =
     settle (Inl (client_error STALLED))
       (on_abort (s\<lparr>stalledOut := True\<rparr>))"

definition on_load :: "response \<Rightarrow> xhr_state \<Rightarrow> xhr_state" where
  "on_load r s0 =
     (let s = clearStall s0 in
      if 200 \<le> status r \<and> status r < 300 then
        (case body r of
           Some v \<Rightarrow> settle (Inr v) s
         | None \<Rightarrow> settle (Inl (ApiError (status r) (JStr ''Invalid response'') (JObj []) None)) s)
      else
        let s' = (if status r = 401 then emit SessionExpired s else s);
            plain = ApiError (status r) (JStr (statusText r)) (JObj []) (retryAfter r)
        in case body r of
             None \<Rightarrow> settle (Inl plain) s'
           | Some b \<Rightarrow>
               (case json_get b ''error'' of
                  Inl _ \<Rightarrow> settle (Inl plain) s'
                | Inr e \<Rightarrow> settle (Inl (ApiError (status r) (nullish e (JStr (statusText r))) (JObj [])
                                      (retryAfter r))) s'))"

fun xhr_handle :: "nat \<Rightarrow> xhr_event \<Rightarrow> xhr_state \<Rightarrow> xhr_state" where
  "xhr_handle now UploadLoadStart s = resetStall now s"
| "xhr_handle now (UploadProgress computable loaded tot) s =
     (if computable then
        let s' = (if loaded > lastLoaded s then resetStall now (s\<lparr>lastLoaded := loaded\<rparr>) else s)
        in emit (OnProgress loaded tot) s'
      else s)"
| "xhr_handle now UploadLoad s = clearStall s"
| "xhr_handle now (Load r) s = on_load r s"
| "xhr_handle now NetError s = settle (Inl (client_error ''Network error'')) (clearStall s)"
| "xhr_handle now AbortEvent s = on_abort s"

text \<open>An armed timer whose time has come fires before the next event is handled.\<close>

definition fire_due :: "nat \<Rightarrow> xhr_state \<Rightarrow> xhr_state" where
  "fire_due now s = (case stallTimer s of Some d \<Rightarrow> if d \<le> now then fire_stall s else s | None \<Rightarrow> s)"

fun xhr_run :: "(nat \<times> xhr_event) list \<Rightarrow> xhr_state \<Rightarrow> xhr_state" where
  "xhr_run [] s = s"
| "xhr_run ((now, e) # evs) s = xhr_run evs (xhr_handle now e (fire_due now s))"

text \<open>After the last event only a timer still armed can run.\<close>

definition uploadAttempt :: "(nat \<times> xhr_event) list \<Rightarrow> xhr_state" where
  "uploadAttempt evs =
     (let s = xhr_run evs xhr_init in if stallTimer s = None then s else fire_stall s)"

section \<open>The upload with retries\<close>

definition rate_limited :: "(api_exn + json) option \<Rightarrow> bool" where
  "rate_limited v = (case v of Some (Inl (ApiError c _ _ _)) \<Rightarrow> c = 429 | _ \<Rightarrow> False)"

definition retry_after_of :: "(api_exn + json) option \<Rightarrow> string option" where
  "retry_after_of v = (case v of Some (Inl (ApiError _ _ _ ra)) \<Rightarrow> ra | _ \<Rightarrow> None)"

text \<open>\<open>None\<close> as the final value: the promise never settles.\<close>

function upload_loop ::
  "retry_env \<Rightarrow> string \<Rightarrow> (nat \<Rightarrow> (nat \<times> xhr_event) list) \<Rightarrow> nat
     \<Rightarrow> api_effect list \<times> (api_exn + json) option" where
  "upload_loop env path attempts k =
     (let s = uploadAttempt (attempts k); es = SendRequest (BASE @ path) # xhr_effects s
      in if \<not> rate_limited (settled s) \<or> k \<ge> RATE_LIMIT_RETRIES then (es, settled s)
         else (let (es', v) = upload_loop env path attempts (Suc k)
               in (es @ Sleep (retryDelayMs env k (retry_after_of (settled s))) # es', v)))"
  by pat_completeness auto
termination
  by (relation "measure (\<lambda>(env, path, attempts, k). RATE_LIMIT_RETRIES - k)") auto

declare upload_loop.simps [simp del]

definition uploadWithProgress ::
  "retry_env \<Rightarrow> string \<Rightarrow> (nat \<Rightarrow> (nat \<times> xhr_event) list)
     \<Rightarrow> api_effect list \<times> (api_exn + json) option" where
  "uploadWithProgress env path attempts = upload_loop env path attempts 0"

section \<open>The contract of a retry loop\<close>

text \<open>
  What \<open>request\<close> and \<open>uploadWithProgress\<close> share: attempts are made in turn; a rate-limited
  one is followed by a pause and the next attempt, at most \<open>retries\<close> times; any other outcome
  ends the loop with it.
\<close>

locale retry_loop =
  fixes attempt :: "nat \<Rightarrow> 'r"
    and limited :: "'r \<Rightarrow> bool"
    and sent :: "nat \<Rightarrow> 'e list"
    and pause :: "nat \<Rightarrow> 'e"
    and run :: "nat \<Rightarrow> 'e list \<times> 'r"
    and retries :: nat
  assumes run_retry: "limited (attempt k) \<Longrightarrow> k < retries \<Longrightarrow>
      run k = (sent k @ pause k # fst (run (Suc k)), snd (run (Suc k)))"
    and run_stop: "\<not> (limited (attempt k) \<and> k < retries) \<Longrightarrow> run k = (sent k, attempt k)"
begin

lemma run_outcome:
  "k \<le> retries \<Longrightarrow> \<exists>j. k \<le> j \<and> j \<le> retries \<and> (\<forall>i. k \<le> i \<and> i < j \<longrightarrow> limited (attempt i)) \<and>
     (limited (attempt j) \<longrightarrow> j = retries) \<and>
     run k = (concat (map (\<lambda>i. sent i @ [pause i]) [k..<j]) @ sent j, attempt j)"
proof (induction "retries - k" arbitrary: k)
  case 0
  then show ?case using run_stop [of k] by (intro exI [of _ k]) auto
next
  case (Suc n)
  show ?case
  proof (cases "limited (attempt k)")
    case False
    then show ?thesis using Suc.prems run_stop [of k] by (intro exI [of _ k]) auto
  next
    case True
    from Suc.hyps(2) have k: "k < retries" "n = retries - Suc k" by auto
    then obtain j where j: "Suc k \<le> j" "j \<le> retries" "\<forall>i. Suc k \<le> i \<and> i < j \<longrightarrow> limited (attempt i)"
      "limited (attempt j) \<longrightarrow> j = retries"
      "run (Suc k) = (concat (map (\<lambda>i. sent i @ [pause i]) [Suc k..<j]) @ sent j, attempt j)"
      using Suc.hyps(1) [of "Suc k"] by auto
    have "\<forall>i. k \<le> i \<and> i < j \<longrightarrow> limited (attempt i)"
      using j(3) True by (metis Suc_leI le_neq_implies_less)
    moreover have "[k..<j] = k # [Suc k..<j]" using j(1) by (simp add: upt_conv_Cons)
    ultimately show ?thesis
      using j k run_retry [OF True k(1)] by (intro exI [of _ j]) auto
  qed
qed

lemma run_first_unlimited:
  assumes "j \<le> retries" "\<And>i. i < j \<Longrightarrow> limited (attempt i)" "\<not> limited (attempt j)"
  shows "snd (run 0) = attempt j"
proof -
  obtain m es where m: "m \<le> retries" "\<forall>i. 0 \<le> i \<and> i < m \<longrightarrow> limited (attempt i)"
    "limited (attempt m) \<longrightarrow> m = retries" "run 0 = (es, attempt m)"
    using run_outcome [of 0] by blast
  have "m = j"
  proof (rule linorder_cases)
    assume "m < j" with assms(1,2) m(3) show ?thesis by fastforce
  next
    assume "j < m" with assms(3) m(2) show ?thesis by simp
  qed
  with m(4) show ?thesis by simp
qed

lemma run_count:
  assumes "\<And>i. count_if P (sent i) = 1" "\<And>i. \<not> P (pause i)"
  shows "count_if P (fst (run 0)) \<le> Suc retries" "0 < count_if P (fst (run 0))"
proof -
  have "count_if P (concat (map (\<lambda>i. sent i @ [pause i]) [0..<j])) = j" for j
    by (induction j) (simp_all add: assms)
  then obtain j where "j \<le> retries" "count_if P (fst (run 0)) = Suc j"
    using run_outcome [of 0] assms(1) by fastforce
  then show "count_if P (fst (run 0)) \<le> Suc retries" "0 < count_if P (fst (run 0))" by simp_all
qed

end

definition fetch_limited :: "response option \<Rightarrow> bool" where
  "fetch_limited r = (case r of Some res \<Rightarrow> status res = 429 | None \<Rightarrow> False)"

definition fetch_retry_after :: "response option \<Rightarrow> string option" where
  "fetch_retry_after r = Option.bind r retryAfter"

interpretation req: retry_loop
  fetch fetch_limited "\<lambda>_. [SendRequest (BASE @ path)]"
  "\<lambda>i. Sleep (retryDelayMs env i (fetch_retry_after (fetch i)))"
  "request_loop env path fetch" RATE_LIMIT_RETRIES
  for env path fetch
proof (unfold_locales, goal_cases)
  case (1 k)
  then show ?case
    by (subst request_loop.simps)
       (auto simp: fetch_limited_def fetch_retry_after_def split: option.splits prod.splits)
next
  case (2 k)
  then show ?case
    by (subst request_loop.simps) (auto simp: fetch_limited_def split: option.splits)
qed

interpretation upl: retry_loop
  "\<lambda>i. settled (uploadAttempt (attempts i))" rate_limited
  "\<lambda>i. SendRequest (BASE @ path) # xhr_effects (uploadAttempt (attempts i))"
  "\<lambda>i. Sleep (retryDelayMs env i (retry_after_of (settled (uploadAttempt (attempts i)))))"
  "upload_loop env path attempts" RATE_LIMIT_RETRIES
  for env path attempts
proof (unfold_locales, goal_cases)
  case (1 k)
  then show ?case by (subst upload_loop.simps) (auto simp: Let_def split: prod.splits)
next
  case (2 k)
  then show ?case by (subst upload_loop.simps) (auto simp: Let_def)
qed

section \<open>Properties of the retry\<close>

lemma backoff_bounds:
  assumes "0 \<le> mathRandom env k" "mathRandom env k < 1" "k < RATE_LIMIT_RETRIES"
  shows "600 \<le> backoff env k" "backoff env k < 5050"
proof -
  from assms(3) have "k = 0 \<or> k = 1 \<or> k = 2 \<or> k = 3"
    by (auto simp: RATE_LIMIT_RETRIES_def)
  with assms(1,2) show "600 \<le> backoff env k" "backoff env k < 5050"
    by (auto simp: backoff_def RATE_LIMIT_BASE_DELAY_MS_def)
qed

text \<open>
  C27. The life of a request: it is sent, and sent again after the delay computed from the
  response, exactly as long as the answers are 429 and no more than four retries were made; the
  outcome is that of the last response alone.
\<close>

theorem request_behaviour:
  "\<exists>j \<le> RATE_LIMIT_RETRIES.
     (\<forall>i < j. fetch_limited (fetch i)) \<and> (fetch_limited (fetch j) \<longrightarrow> j = RATE_LIMIT_RETRIES) \<and>
     request env path fetch =
       (concat (map (\<lambda>i. [SendRequest (BASE @ path),
                           Sleep (retryDelayMs env i (fetch_retry_after (fetch i)))]) [0..<j])
          @ SendRequest (BASE @ path) # fst (request_result (fetch j)),
        snd (request_result (fetch j)))"
proof -
  obtain j where "j \<le> RATE_LIMIT_RETRIES" "\<forall>i. 0 \<le> i \<and> i < j \<longrightarrow> fetch_limited (fetch i)"
    "fetch_limited (fetch j) \<longrightarrow> j = RATE_LIMIT_RETRIES"
    "request_loop env path fetch 0 =
      (concat (map (\<lambda>i. [SendRequest (BASE @ path)] @
         [Sleep (retryDelayMs env i (fetch_retry_after (fetch i)))]) [0..<j])
        @ [SendRequest (BASE @ path)], fetch j)"
    using req.run_outcome [where k = 0 and fetch = fetch and path = path and env = env] by auto
  then show ?thesis
    by (intro exI [of _ j]) (simp add: request_def split: prod.split)
qed

text \<open>A server that answers 429 once, and then 200.\<close>

definition calm_env :: retry_env where
  "calm_env = \<lparr>dateParse = \<lambda>_. None, dateNow = \<lambda>_. 0, mathRandom = \<lambda>_. 0\<rparr>"

definition demo_response :: "nat \<Rightarrow> response" where
  "demo_response n = \<lparr>status = n, statusText = [], retryAfter = None, body = Some JNull\<rparr>"

definition limited_once :: "nat \<Rightarrow> response option" where
  "limited_once i = Some (demo_response (if i = 0 then 429 else 200))"

theorem request_behaviour_witness:
  "request calm_env ''/files'' limited_once
     = ([SendRequest ''/api/v1/files'', Sleep 600, SendRequest ''/api/v1/files''], Inr (Some JNull))"
proof -
  obtain j where j: "\<forall>i < j. fetch_limited (limited_once i)"
    "fetch_limited (limited_once j) \<longrightarrow> j = RATE_LIMIT_RETRIES"
    "request calm_env ''/files'' limited_once =
       (concat (map (\<lambda>i. [SendRequest (BASE @ ''/files''),
          Sleep (retryDelayMs calm_env i (fetch_retry_after (limited_once i)))]) [0..<j])
          @ SendRequest (BASE @ ''/files'') # fst (request_result (limited_once j)),
        snd (request_result (limited_once j)))"
    using request_behaviour [of limited_once calm_env "''/files''"] by blast
  have l: "fetch_limited (limited_once i) \<longleftrightarrow> i = 0" for i
    by (simp add: fetch_limited_def limited_once_def demo_response_def)
  from j(1) have "j \<le> 1" using l [of 1] by (metis not_le one_neq_zero)
  with j(2) have "j = 1" by (cases j) (auto simp: l RATE_LIMIT_RETRIES_def)
  with j(3) show ?thesis
    by (simp add: BASE_def retryDelayMs_def backoff_def RATE_LIMIT_BASE_DELAY_MS_def calm_env_def
        fetch_retry_after_def limited_once_def demo_response_def request_result_def response_ok_def)
qed

text \<open>The effects of a result are session-expired events only.\<close>

definition is_send :: "api_effect \<Rightarrow> bool" where
  "is_send e = (case e of SendRequest _ \<Rightarrow> True | _ \<Rightarrow> False)"

definition is_expired :: "api_effect \<Rightarrow> bool" where
  "is_expired e = (case e of SessionExpired \<Rightarrow> True | _ \<Rightarrow> False)"

lemma effect_kinds [simp]:
  "is_send (SendRequest u)" "\<not> is_send (Sleep d)" "\<not> is_send (OnProgress a b)" "\<not> is_send SessionExpired"
  "is_expired SessionExpired" "\<not> is_expired (SendRequest u)" "\<not> is_expired (Sleep d)"
  "\<not> is_expired (OnProgress a b)"
  by (simp_all add: is_send_def is_expired_def)

lemma request_result_effects:
  "fst (request_result r) = (case r of Some res \<Rightarrow> if status res = 401 then [SessionExpired] else [] | None \<Rightarrow> [])"
  by (auto simp: request_result_def response_ok_def Let_def split: option.splits)

lemma request_parts:
  "fst (request env path fetch) =
     fst (request_loop env path fetch 0) @ fst (request_result (snd (request_loop env path fetch 0)))"
  "snd (request env path fetch) = snd (request_result (snd (request_loop env path fetch 0)))"
  by (simp_all add: request_def split_beta)

text \<open>
  A call puts between one and five requests on the wire, whatever the server answers.
\<close>

theorem request_send_bound:
  "0 < count_if is_send (fst (request env path fetch)) \<and>
   count_if is_send (fst (request env path fetch)) \<le> 5"
proof -
  have "count_if is_send (fst (request_result r)) = 0" for r
    by (simp add: request_result_effects split: option.split)
  moreover have "0 < count_if is_send (fst (request_loop env path fetch 0))"
    "count_if is_send (fst (request_loop env path fetch 0)) \<le> 5"
    using req.run_count [where P = is_send and path = path and env = env and fetch = fetch]
    by (simp_all add: RATE_LIMIT_RETRIES_def)
  ultimately show ?thesis by (simp add: request_parts)
qed

text \<open>
  The session-expired event is dispatched exactly when the last response of the call is a
  401, and then once.
\<close>

theorem request_session_expired:
  "count_if is_expired (fst (request env path fetch)) =
     (case snd (request_loop env path fetch 0) of
        Some res \<Rightarrow> if status res = 401 then 1 else 0 | None \<Rightarrow> 0)"
proof -
  obtain j where "request_loop env path fetch 0 =
      (concat (map (\<lambda>i. [SendRequest (BASE @ path)] @
         [Sleep (retryDelayMs env i (fetch_retry_after (fetch i)))]) [0..<j])
        @ [SendRequest (BASE @ path)], fetch j)"
    using req.run_outcome [where k = 0 and fetch = fetch and path = path and env = env] by auto
  moreover have "count_if is_expired (concat (map (\<lambda>i. [SendRequest (BASE @ path)] @
         [Sleep (retryDelayMs env i (fetch_retry_after (fetch i)))]) [0..<j])) = 0"
    by (induction j) simp_all
  ultimately show ?thesis
    by (simp add: request_parts request_result_effects split: option.split)
qed

text \<open>
  Every pause before a retry is between zero and thirty seconds, whatever the
  \<open>Retry-After\<close> header says: a numeric value, a date in the past or far in the future, or
  something unreadable.
\<close>

theorem retryDelayMs_bounds:
  assumes "0 \<le> mathRandom env k" and "mathRandom env k < 1" and "k < RATE_LIMIT_RETRIES"
  shows "0 \<le> retryDelayMs env k ra \<and> retryDelayMs env k ra \<le> 30000"
  using backoff_bounds [OF assms]
  by (auto simp: retryDelayMs_def Let_def split: option.split jsnum.split)

text \<open>
  The literal \<open>Retry-After: n\<close> a server sends is honoured as \<open>n\<close> seconds, capped.
\<close>

lemma retryDelayMs_seconds:
  "retryDelayMs env k (Some (show_nat n)) = min (of_nat n * 1000) 30000"
  by (simp add: retryDelayMs_def show_nat_nonempty js_Number_show_nat)

theorem retryDelayMs_bounds_witness:
  "0 \<le> retryDelayMs \<lparr>dateParse = Map.empty, dateNow = \<lambda>_. 0, mathRandom = \<lambda>_. 1 / 2\<rparr> 3 (Some ''soon'') \<and>
   retryDelayMs \<lparr>dateParse = Map.empty, dateNow = \<lambda>_. 0, mathRandom = \<lambda>_. 1 / 2\<rparr> 3 (Some ''soon'') \<le> 30000"
  by (rule retryDelayMs_bounds) (simp_all add: RATE_LIMIT_RETRIES_def)

section \<open>Properties of an upload attempt\<close>

text \<open>A settled promise keeps its value.\<close>

lemma settle_settled [simp]: "settled s = Some v \<Longrightarrow> settled (settle w s) = Some v"
  by (simp add: settle_def)

lemma xhr_fields [simp]:
  "settled (clearStall s) = settled s" "stallTimer (clearStall s) = None"
  "stalledOut (clearStall s) = stalledOut s" "lastLoaded (clearStall s) = lastLoaded s"
  "settled (resetStall now s) = settled s" "stallTimer (resetStall now s) = Some (now + STALL_TIMEOUT_MS)"
  "stalledOut (resetStall now s) = stalledOut s" "lastLoaded (resetStall now s) = lastLoaded s"
  "settled (emit e s) = settled s" "stallTimer (emit e s) = stallTimer s"
  "stalledOut (emit e s) = stalledOut s" "lastLoaded (emit e s) = lastLoaded s"
  "stallTimer (settle v s) = stallTimer s" "stalledOut (settle v s) = stalledOut s"
  "settled (settle v s) = Some (or_else (settled s) v)"
  by (simp_all add: clearStall_def resetStall_def emit_def settle_def split: option.split)

lemma on_abort_keeps: "settled s = Some v \<Longrightarrow> settled (on_abort s) = Some v"
  by (simp add: on_abort_def Let_def)

lemma on_load_keeps: "settled s = Some v \<Longrightarrow> settled (on_load r s) = Some v"
  by (simp add: on_load_def Let_def split: option.split sum.split)

lemma fire_stall_keeps: "settled s = Some v \<Longrightarrow> settled (fire_stall s) = Some v"
  by (simp add: fire_stall_def on_abort_def Let_def)

lemma xhr_handle_keeps: "settled s = Some v \<Longrightarrow> settled (xhr_handle now e s) = Some v"
  by (cases e) (simp_all add: Let_def on_load_keeps on_abort_keeps)

lemma fire_due_keeps: "settled s = Some v \<Longrightarrow> settled (fire_due now s) = Some v"
  by (simp add: fire_due_def fire_stall_keeps split: option.split)

lemma xhr_run_keeps: "settled s = Some v \<Longrightarrow> settled (xhr_run evs s) = Some v"
  by (induction evs s rule: xhr_run.induct) (simp_all add: xhr_handle_keeps fire_due_keeps)

lemma xhr_run_append: "xhr_run (xs @ ys) s = xhr_run ys (xhr_run xs s)"
  by (induction xs s rule: xhr_run.induct) simp_all

lemma uploadAttempt_keeps:
  "settled (xhr_run evs xhr_init) = Some v \<Longrightarrow> settled (uploadAttempt (evs @ rest)) = Some v"
  by (simp add: uploadAttempt_def Let_def xhr_run_append xhr_run_keeps fire_stall_keeps)

text \<open>Progress that advances in time: bytes grow, and never a whole stall period passes.\<close>

fun steady :: "nat \<Rightarrow> nat \<Rightarrow> (nat \<times> nat) list \<Rightarrow> bool" where
  "steady t l [] \<longleftrightarrow> True"
| "steady t l ((t', l') # ps) \<longleftrightarrow> t' < t + STALL_TIMEOUT_MS \<and> l < l' \<and> steady t' l' ps"

definition progress_events :: "nat \<Rightarrow> (nat \<times> nat) list \<Rightarrow> (nat \<times> xhr_event) list" where
  "progress_events tot ps = map (\<lambda>(t, l). (t, UploadProgress True l tot)) ps"

definition last_time :: "nat \<Rightarrow> (nat \<times> nat) list \<Rightarrow> nat" where
  "last_time t ps = last (t # map fst ps)"

lemma steady_run:
  assumes "steady t l ps" "stallTimer s = Some (t + STALL_TIMEOUT_MS)" "lastLoaded s = l"
    "settled s = None"
  shows "stallTimer (xhr_run (progress_events tot ps) s) = Some (last_time t ps + STALL_TIMEOUT_MS) \<and>
         settled (xhr_run (progress_events tot ps) s) = None \<and>
         xhr_effects (xhr_run (progress_events tot ps) s) =
           xhr_effects s @ map (\<lambda>(t, l). OnProgress l tot) ps"
  using assms
proof (induction t l ps arbitrary: s rule: steady.induct)
  case (1 t l)
  then show ?case by (simp add: progress_events_def last_time_def)
next
  case (2 t l t' l' ps)
  let ?s = "xhr_handle t' (UploadProgress True l' tot) (fire_due t' s)"
  have due: "fire_due t' s = s" using 2 by (simp add: fire_due_def)
  have "stallTimer ?s = Some (t' + STALL_TIMEOUT_MS)" "lastLoaded ?s = l'" "settled ?s = None"
    "xhr_effects ?s = xhr_effects s @ [OnProgress l' tot]"
    using 2 due by (simp_all add: Let_def resetStall_def emit_def)
  with "2.IH" [of ?s] "2.prems"(1) show ?case
    by (simp add: progress_events_def last_time_def)
qed

lemma on_load_timer: "(stallTimer (on_load r s) = None) = True"
  by (simp add: on_load_def Let_def split: option.split sum.split)

lemma on_load_settled: "settled s = settled s' \<Longrightarrow> settled (on_load r s) = settled (on_load r s')"
  by (simp add: on_load_def Let_def split: option.split sum.split)

text \<open>
  A slow but active upload is never killed: as long as some bytes go out in every ten
  minutes until the body is sent, the attempt ends with what the server answers, however long
  the server takes to answer.
\<close>

theorem steady_upload_settles_with_response:
  assumes "steady t0 0 ps" and "td < last_time t0 ps + STALL_TIMEOUT_MS"
  shows "settled (uploadAttempt ((t0, UploadLoadStart) # progress_events tot ps
            @ [(td, UploadLoad), (ta, Load r)])) = settled (on_load r xhr_init)"
proof -
  let ?s0 = "xhr_handle t0 UploadLoadStart (fire_due t0 xhr_init)"
  let ?s1 = "xhr_run (progress_events tot ps) ?s0"
  have "stallTimer ?s0 = Some (t0 + STALL_TIMEOUT_MS)" "lastLoaded ?s0 = 0" "settled ?s0 = None"
    by (simp_all add: fire_due_def xhr_init_def)
  from steady_run [OF assms(1) this, of tot]
  have s1: "stallTimer ?s1 = Some (last_time t0 ps + STALL_TIMEOUT_MS)" "settled ?s1 = None" by auto
  with assms(2) have due: "fire_due td ?s1 = ?s1" by (simp add: fire_due_def)
  let ?s2 = "xhr_handle td UploadLoad ?s1"
  have "fire_due ta ?s2 = ?s2" by (simp add: fire_due_def)
  then have run: "xhr_run ((t0, UploadLoadStart) # progress_events tot ps @ [(td, UploadLoad), (ta, Load r)]) xhr_init
      = xhr_handle ta (Load r) ?s2"
    by (simp only: xhr_run.simps xhr_run_append due)
  have "settled ?s2 = settled xhr_init" using s1 by (simp add: xhr_init_def)
  then show ?thesis
    by (simp only: uploadAttempt_def Let_def run xhr_handle.simps on_load_timer if_True)
       (rule on_load_settled)
qed

theorem steady_upload_settles_with_response_witness:
  "settled (uploadAttempt ((0, UploadLoadStart) # progress_events 30 [(500000, 10), (1000000, 30)]
      @ [(1500000, UploadLoad),
         (9000000, Load \<lparr>status = 200, statusText = ''OK'', retryAfter = None, body = Some JNull\<rparr>)]))
   = Some (Inr JNull)"
  by (subst steady_upload_settles_with_response)
     (simp_all add: STALL_TIMEOUT_MS_def last_time_def on_load_def xhr_init_def)

lemma fire_stall_settled:
  "settled s = None \<Longrightarrow> settled (fire_stall s) = Some (Inl (client_error STALLED))"
  by (simp add: fire_stall_def on_abort_def Let_def settle_def clearStall_def)

text \<open>
  An upload that stalls is given up: once the timer's ten minutes have passed without
  progress, at the next event or with no further event at all, the attempt rejects with the stall
  error, and no later event changes that.
\<close>

theorem stalled_upload_rejects:
  assumes "stallTimer (xhr_run evs xhr_init) = Some d" and "settled (xhr_run evs xhr_init) = None"
    and "d \<le> now"
  shows "settled (uploadAttempt evs) = Some (Inl (client_error STALLED)) \<and>
         settled (uploadAttempt (evs @ (now, e) # rest)) = Some (Inl (client_error STALLED))"
proof
  show "settled (uploadAttempt evs) = Some (Inl (client_error STALLED))"
    using assms by (simp add: uploadAttempt_def Let_def fire_stall_settled)
  have "settled (fire_due now (xhr_run evs xhr_init)) = Some (Inl (client_error STALLED))"
    using assms by (simp add: fire_due_def fire_stall_settled)
  then have "settled (xhr_run (evs @ [(now, e)]) xhr_init) = Some (Inl (client_error STALLED))"
    by (simp add: xhr_run_append xhr_handle_keeps)
  from uploadAttempt_keeps [OF this, of rest]
  show "settled (uploadAttempt (evs @ (now, e) # rest)) = Some (Inl (client_error STALLED))" by simp
qed

theorem stalled_upload_rejects_witness:
  "settled (uploadAttempt ([(5, UploadLoadStart)] @ (600005, UploadProgress True 10 20) # []))
   = Some (Inl (client_error STALLED))"
  by (rule stalled_upload_rejects [where d = 600005, THEN conjunct2])
     (simp_all add: fire_due_def xhr_init_def resetStall_def STALL_TIMEOUT_MS_def)

fun terminal_event :: "xhr_event \<Rightarrow> bool" where
  "terminal_event (Load r) = True"
| "terminal_event NetError = True"
| "terminal_event AbortEvent = True"
| "terminal_event _ = False"

lemma xhr_run_pending: "settled (xhr_run evs s) = None \<Longrightarrow> settled s = None"
  by (cases "settled s") (simp_all add: xhr_run_keeps)

lemma on_load_settles: "(settled (on_load r s) = None) = False"
  by (simp add: on_load_def Let_def split: option.split sum.split)

lemma on_abort_settles: "\<not> stalledOut s \<Longrightarrow> settled (on_abort s) \<noteq> None"
  by (simp add: on_abort_def Let_def)

text \<open>The flag \<open>stalledOut\<close> is only ever set together with a rejection.\<close>

definition xhr_inv :: "xhr_state \<Rightarrow> bool" where
  "xhr_inv s \<longleftrightarrow> (settled s = None \<longrightarrow> \<not> stalledOut s)"

lemma xhr_inv_fire: "xhr_inv s \<Longrightarrow> xhr_inv (fire_due now s)"
  by (simp add: xhr_inv_def fire_due_def fire_stall_def split: option.split)

lemma xhr_inv_handle: "xhr_inv s \<Longrightarrow> xhr_inv (xhr_handle now e s)"
  by (cases e) (auto simp: xhr_inv_def Let_def on_abort_def on_load_settles)

lemma terminal_settles: "xhr_inv s \<Longrightarrow> terminal_event e \<Longrightarrow> settled (xhr_handle now e s) \<noteq> None"
  by (cases e; cases "settled s") (auto simp: xhr_inv_def on_abort_def Let_def on_load_settles)

lemma pending_no_terminal:
  "xhr_inv s \<Longrightarrow> settled (xhr_run evs s) = None \<Longrightarrow> \<forall>(t, e) \<in> set evs. \<not> terminal_event e"
proof (induction evs s rule: xhr_run.induct)
  case (2 now e evs s)
  have inv: "xhr_inv (xhr_handle now e (fire_due now s))"
    using 2 by (simp add: xhr_inv_handle xhr_inv_fire)
  moreover have "\<not> terminal_event e"
    using "2.prems" terminal_settles [of "fire_due now s" e now] xhr_run_keeps
    by (fastforce simp: xhr_inv_fire)
  ultimately show ?case using 2 by simp
qed simp

lemma timer_stays:
  assumes "settled (xhr_handle now e (fire_due now s)) = None" "\<not> terminal_event e" "e \<noteq> UploadLoad"
    "stallTimer s \<noteq> None \<or> e = UploadLoadStart"
  shows "stallTimer (xhr_handle now e (fire_due now s)) \<noteq> None"
proof -
  have "fire_due now s = s"
    using assms(1) xhr_handle_keeps by (fastforce simp: fire_due_def fire_stall_def split: option.splits if_splits)
  with assms show ?thesis by (cases e) (auto simp: Let_def)
qed

lemma timer_run:
  "xhr_inv s \<Longrightarrow> settled (xhr_run evs s) = None \<Longrightarrow> UploadLoad \<notin> snd ` set evs \<Longrightarrow>
   stallTimer s \<noteq> None \<or> UploadLoadStart \<in> snd ` set evs \<Longrightarrow> stallTimer (xhr_run evs s) \<noteq> None"
proof (induction evs s rule: xhr_run.induct)
  case (2 now e evs s)
  let ?s = "xhr_handle now e (fire_due now s)"
  have "settled ?s = None" using "2.prems"(2) xhr_run_pending by simp
  moreover have "\<not> terminal_event e" using pending_no_terminal [OF "2.prems"(1,2)] by simp
  ultimately have "stallTimer s \<noteq> None \<or> e = UploadLoadStart \<Longrightarrow> stallTimer ?s \<noteq> None"
    using timer_stays "2.prems"(3) by auto
  then show ?case
    using 2 by (auto simp: xhr_inv_handle xhr_inv_fire)
qed simp

text \<open>
  An upload attempt never hangs on the client's side: the only attempts that stay pending
  are those that never started to send, or that have sent the whole body and got no answer, no
  network error and no abort.
\<close>

theorem pending_upload_waits_for_server:
  assumes "settled (uploadAttempt evs) = None"
  shows "(\<forall>(t, e) \<in> set evs. \<not> terminal_event e) \<and>
         (UploadLoadStart \<in> snd ` set evs \<longrightarrow> UploadLoad \<in> snd ` set evs)"
proof -
  have inv: "xhr_inv xhr_init" by (simp add: xhr_inv_def xhr_init_def)
  from assms have run: "settled (xhr_run evs xhr_init) = None" "stallTimer (xhr_run evs xhr_init) = None"
    by (auto simp: uploadAttempt_def Let_def fire_stall_def split: if_splits)
  with pending_no_terminal [OF inv run(1)] timer_run [OF inv run(1)] show ?thesis by blast
qed

theorem pending_upload_waits_for_server_witness:
  "UploadLoad \<in> snd ` set [(0::nat, UploadLoadStart), (5, UploadLoad)]"
  using pending_upload_waits_for_server [of "[(0, UploadLoadStart), (5, UploadLoad)]"]
  by (simp add: uploadAttempt_def fire_due_def xhr_init_def resetStall_def clearStall_def
      STALL_TIMEOUT_MS_def)

text \<open>
  C28. An upload is repeated only after a 429, at most four times. Its trace is pinned: each attempt sends the
  request once and has its own effects, each repeated one is followed by exactly one pause, which is
  the delay computed from the number of the attempt and the Retry-After of that very 429, and the last
  one by none. The outcome (a value, an error, or staying pending) is that of the last attempt.
\<close>

theorem uploadWithProgress_behaviour:
  "\<exists>j \<le> RATE_LIMIT_RETRIES. \<exists>ra.
     (\<forall>i < j. \<exists>m b. settled (uploadAttempt (attempts i)) = Some (Inl (ApiError 429 m b (ra i)))) \<and>
     (rate_limited (settled (uploadAttempt (attempts j))) \<longrightarrow> j = RATE_LIMIT_RETRIES) \<and>
     uploadWithProgress env path attempts =
       (concat (map (\<lambda>i. SendRequest (BASE @ path) # xhr_effects (uploadAttempt (attempts i))
            @ [Sleep (retryDelayMs env i (ra i))]) [0..<j])
          @ SendRequest (BASE @ path) # xhr_effects (uploadAttempt (attempts j)),
        settled (uploadAttempt (attempts j))) \<and>
     count_if is_send (fst (uploadWithProgress env path attempts)) = Suc j"
proof -
  have handle: "count_if is_send (xhr_effects (xhr_handle now e s)) = count_if is_send (xhr_effects s)"
    for now e s
    by (cases e) (auto simp: Let_def emit_def resetStall_def clearStall_def settle_def on_abort_def
        on_load_def split: option.split sum.split)
  have fire: "xhr_effects (fire_stall s) = xhr_effects s" for s
    by (simp add: fire_stall_def on_abort_def settle_def clearStall_def Let_def split: option.split)
  have "count_if is_send (xhr_effects (xhr_run evs s)) = count_if is_send (xhr_effects s)" for evs s
    by (induction evs s rule: xhr_run.induct) (simp_all add: handle fire fire_due_def split: option.split)
  then have sends: "count_if is_send (xhr_effects (uploadAttempt evs)) = 0" for evs
    by (simp add: uploadAttempt_def Let_def fire xhr_init_def)
  let ?step = "\<lambda>i. (SendRequest (BASE @ path) # xhr_effects (uploadAttempt (attempts i)))
      @ [Sleep (retryDelayMs env i (retry_after_of (settled (uploadAttempt (attempts i)))))]"
  have steps: "count_if is_send (concat (map ?step [0..<j])) = j" for j
    by (induction j) (simp_all add: sends)
  obtain j where "j \<le> RATE_LIMIT_RETRIES" "\<forall>i. 0 \<le> i \<and> i < j \<longrightarrow> rate_limited (settled (uploadAttempt (attempts i)))"
    "rate_limited (settled (uploadAttempt (attempts j))) \<longrightarrow> j = RATE_LIMIT_RETRIES"
    "uploadWithProgress env path attempts =
       (concat (map ?step [0..<j]) @ SendRequest (BASE @ path) # xhr_effects (uploadAttempt (attempts j)),
        settled (uploadAttempt (attempts j)))"
    using upl.run_outcome [where k = 0 and attempts = attempts and path = path and env = env]
    by (auto simp: uploadWithProgress_def)
  moreover have "\<exists>m b. x = Some (Inl (ApiError 429 m b (retry_after_of x)))" if "rate_limited x" for x
    using that by (auto simp: rate_limited_def retry_after_of_def split: option.splits sum.splits api_exn.splits)
  ultimately show ?thesis using steps [of j] sends
    by (intro exI [of _ j] conjI exI [of _ "\<lambda>i. retry_after_of (settled (uploadAttempt (attempts i)))"]) simp_all
qed

definition upload_limited_once :: "nat \<Rightarrow> (nat \<times> xhr_event) list" where
  "upload_limited_once i = [(0, Load (demo_response (if i = 0 then 429 else 200)))]"

theorem uploadWithProgress_behaviour_witness:
  "\<exists>ra. uploadWithProgress calm_env ''/upload'' upload_limited_once =
     ([SendRequest (BASE @ ''/upload''), Sleep (retryDelayMs calm_env 0 ra), SendRequest (BASE @ ''/upload'')], Some (Inr JNull))"
proof -
  obtain j ra where j: "\<forall>i < j. \<exists>m b. settled (uploadAttempt (upload_limited_once i)) = Some (Inl (ApiError 429 m b (ra i)))"
    "rate_limited (settled (uploadAttempt (upload_limited_once j))) \<longrightarrow> j = RATE_LIMIT_RETRIES"
    "uploadWithProgress calm_env ''/upload'' upload_limited_once =
       (concat (map (\<lambda>i. SendRequest (BASE @ ''/upload'') # xhr_effects (uploadAttempt (upload_limited_once i))
            @ [Sleep (retryDelayMs calm_env i (ra i))]) [0..<j])
          @ SendRequest (BASE @ ''/upload'') # xhr_effects (uploadAttempt (upload_limited_once j)),
        settled (uploadAttempt (upload_limited_once j)))"
    using uploadWithProgress_behaviour [of upload_limited_once calm_env "''/upload''"] by blast
  have l: "settled (uploadAttempt (upload_limited_once i)) =
      Some (if i = 0 then Inl (ApiError 429 (JStr []) (JObj []) None) else Inr JNull)"
      "xhr_effects (uploadAttempt (upload_limited_once i)) = []" for i
    by (simp_all add: upload_limited_once_def demo_response_def uploadAttempt_def xhr_init_def on_load_def
        clearStall_def settle_def fire_due_def Let_def)
  from j(1) have "\<not> 1 < j" using l(1) [of 1] by auto
  with j(2) have "j = 1" by (cases j) (auto simp: l rate_limited_def RATE_LIMIT_RETRIES_def)
  with j(3) show ?thesis by (simp add: l) blast
qed

end
