(* ===== verification/FileUpload.thy ===== *)
theory FileUpload
  imports Prelude
begin

text \<open>
  The upload hook of the web frontend, \<open>frontend/src/hooks/useFileUpload.ts\<close>: the progress
  record its callers render, the retry loop of every file, the run that uploads all files of a
  batch concurrently, and \<open>retryFailed\<close>.

  JavaScript runs the code between two awaits without interruption, so a run is modelled by the
  events at which its atomic sections run, in any order the network gives: a byte progress, the
  success or the error of an attempt, the end of a back-off sleep, the resumption of the
  continuation that counts a finished file, the end of the whole run. The pair of the shared
  \<open>liveRef\<close> record and the run's own variables is the state.
\<close>

section \<open>Data\<close>

datatype item_status = Queued | Uploading | Done | Failed

datatype upload_status = UIdle | UUploading | UComplete | UPartial | UAllFailed

record upload_item =
  it_name :: string
  it_size :: nat
  it_loaded :: nat
  it_status :: item_status
  it_error :: "string option"

record upload_progress =
  up_status :: upload_status
  items :: "upload_item list"
  totalBytes :: nat
  loadedBytes :: nat
  speedBps :: rat
  succeeded :: int
  failed :: int

definition IDLE :: upload_progress where
  "IDLE = \<lparr>up_status = UIdle, items = [], totalBytes = 0, loadedBytes = 0, speedBps = 0,
           succeeded = 0, failed = 0\<rparr>"

definition MAX_RETRIES :: nat where
  "MAX_RETRIES = 5"

definition RETRY_DELAYS_MS :: "nat list" where
  "RETRY_DELAYS_MS = [500, 1000, 2000, 4000, 8000]"

definition SPEED_WINDOW_MS :: int where
  "SPEED_WINDOW_MS = 3000"

section \<open>The speed estimate\<close>

type_synonym sample = "int \<times> nat"   \<comment> \<open>the time and the bytes loaded by then\<close>

fun shift_old :: "int \<Rightarrow> sample list \<Rightarrow> sample list" where
  "shift_old cutoff (x # y # z # s) =
     (if fst x < cutoff then shift_old cutoff (y # z # s) else x # y # z # s)"
| "shift_old cutoff s = s"

definition recordSample :: "int \<Rightarrow> nat \<Rightarrow> sample list \<Rightarrow> sample list" where
  "recordSample now loaded s = shift_old (now - SPEED_WINDOW_MS) (s @ [(now, loaded)])"

definition computeSpeed :: "sample list \<Rightarrow> rat" where
  "computeSpeed s =
     (if length s < 2 then 0
      else let dt = of_int (fst (last s) - fst (hd s)) / (1000 :: rat)
           in if dt < 5 / 100 then 0
              else max 0 ((of_nat (snd (last s)) - of_nat (snd (hd s))) / dt))"

section \<open>Patching one item\<close>

text \<open>
  \<open>patchItem\<close> replaces one row and recomputes the byte total. An index beyond the rows would
  leave a row without name or size; the model has no such row, and the result is \<open>None\<close>.
\<close>

definition patchItem ::
  "nat \<Rightarrow> (upload_item \<Rightarrow> upload_item) \<Rightarrow> upload_progress \<Rightarrow> upload_progress option" where
  "patchItem i patch p =
     (if i < length (items p) then
        let its = (items p)[i := patch (items p ! i)]
        in Some (p\<lparr>items := its, loadedBytes := sum_list (map it_loaded its)\<rparr>)
      else None)"

section \<open>A run over a batch of files\<close>

type_synonym upload_file = "string \<times> nat"   \<comment> \<open>the name and the size in bytes\<close>

text \<open>Where the retry loop of one file stands.\<close>

datatype phase =
    NotInRun
  | Trying nat            \<comment> \<open>attempt number; the transfer is in flight\<close>
  | Backoff nat           \<comment> \<open>sleeping before that attempt\<close>
  | Settled bool          \<comment> \<open>\<open>attemptFile\<close> returned; not yet counted\<close>
  | Counted

datatype run_mode = FreshRun | RetryRun

record upload_run =
  run_files :: "upload_file list"
  run_mode :: run_mode
  phases :: "phase list"
  succeededCount :: int
  failedCount :: int
  newlySucceeded :: int
  slept :: "nat list"     \<comment> \<open>the back-off sleeps so far, latest first\<close>
  finished :: bool

datatype run_event =
    EvProgress nat nat
  | EvSuccess nat
  | EvError nat string
  | EvWake nat
  | EvCount nat
  | EvFinish

definition set_phase :: "nat \<Rightarrow> phase \<Rightarrow> upload_run \<Rightarrow> upload_run" where
  "set_phase i ph r = r\<lparr>phases := (phases r)[i := ph]\<rparr>"

definition phase_of :: "nat \<Rightarrow> upload_run \<Rightarrow> phase" where
  "phase_of i r = (if i < length (phases r) then phases r ! i else NotInRun)"

definition patch_begin :: "upload_item \<Rightarrow> upload_item" where
  "patch_begin it = it\<lparr>it_status := Uploading, it_loaded := 0, it_error := None\<rparr>"

definition patch_done :: "nat \<Rightarrow> upload_item \<Rightarrow> upload_item" where
  "patch_done n it = it\<lparr>it_loaded := n, it_status := Done, it_error := None\<rparr>"

definition patch_failed :: "string \<Rightarrow> upload_item \<Rightarrow> upload_item" where
  "patch_failed e it = it\<lparr>it_status := Failed, it_error := Some e\<rparr>"

definition finalStatus :: "int \<Rightarrow> int \<Rightarrow> upload_status" where
  "finalStatus failedN succeededN =
     (if failedN = 0 then UComplete else if succeededN = 0 then UAllFailed else UPartial)"

text \<open>The continuation after \<open>attemptFile\<close>, in \<open>startUpload\<close> and in \<open>retryFailed\<close>.\<close>

definition count_file :: "bool \<Rightarrow> upload_progress \<times> upload_run \<Rightarrow> upload_progress \<times> upload_run" where
  "count_file ok = (\<lambda>(p, r).
     case run_mode r of
       FreshRun \<Rightarrow>
         if ok then (p\<lparr>succeeded := succeededCount r + 1\<rparr>, r\<lparr>succeededCount := succeededCount r + 1\<rparr>)
         else (p\<lparr>failed := failedCount r + 1\<rparr>, r\<lparr>failedCount := failedCount r + 1\<rparr>)
     | RetryRun \<Rightarrow>
         if ok then (p\<lparr>succeeded := succeeded p + 1, failed := failed p - 1\<rparr>,
                     r\<lparr>newlySucceeded := newlySucceeded r + 1\<rparr>)
         else (p, r))"

definition all_counted :: "upload_run \<Rightarrow> bool" where
  "all_counted r \<longleftrightarrow> (\<forall>ph \<in> set (phases r). ph = Counted \<or> ph = NotInRun)"

fun upload_event ::
  "run_event \<Rightarrow> upload_progress \<times> upload_run \<Rightarrow> (upload_progress \<times> upload_run) option" where
  "upload_event (EvProgress i n) (p, r) =
     (case phase_of i r of
        Trying k \<Rightarrow> map_option (\<lambda>p'. (p', r)) (patchItem i (it_loaded_update (\<lambda>_. n)) p)
      | _ \<Rightarrow> None)"
| "upload_event (EvSuccess i) (p, r) =
     (case phase_of i r of
        Trying k \<Rightarrow>
          map_option (\<lambda>p'. (p', set_phase i (Settled True) r))
            (patchItem i (patch_done (snd (run_files r ! i))) p)
      | _ \<Rightarrow> None)"
| "upload_event (EvError i e) (p, r) =
     (case phase_of i r of
        Trying k \<Rightarrow>
          if k = MAX_RETRIES
          then map_option (\<lambda>p'. (p', set_phase i (Settled False) r)) (patchItem i (patch_failed e) p)
          else map_option (\<lambda>p'. (p', set_phase i (Backoff (Suc k))
                                      (r\<lparr>slept := RETRY_DELAYS_MS ! k # slept r\<rparr>)))
                 (patchItem i (it_loaded_update (\<lambda>_. 0)) p)
      | _ \<Rightarrow> None)"
| "upload_event (EvWake i) (p, r) =
     (case phase_of i r of Backoff k \<Rightarrow> Some (p, set_phase i (Trying k) r) | _ \<Rightarrow> None)"
| "upload_event (EvCount i) (p, r) =
     (case phase_of i r of
        Settled ok \<Rightarrow> Some (count_file ok (p, set_phase i Counted r))
      | _ \<Rightarrow> None)"
| "upload_event EvFinish (p, r) =
     (if all_counted r \<and> \<not> finished r then
        Some (case run_mode r of
                FreshRun \<Rightarrow> (p\<lparr>up_status := finalStatus (failedCount r) (succeededCount r)\<rparr>, r\<lparr>finished := True\<rparr>)
              | RetryRun \<Rightarrow> (p\<lparr>up_status := finalStatus (failed p) (succeeded p)\<rparr>, r\<lparr>finished := True\<rparr>))
      else None)"

text \<open>Whether the run calls \<open>onAnySuccess\<close> when it finishes.\<close>

definition calls_onAnySuccess :: "upload_run \<Rightarrow> bool" where
  "calls_onAnySuccess r =
     (case run_mode r of FreshRun \<Rightarrow> succeededCount r > 0 | RetryRun \<Rightarrow> newlySucceeded r > 0)"

text \<open>
  \<open>startUpload\<close> up to its first await: the rows are set up and the retry loop of every file
  starts. \<open>queue_items\<close> is what the first render shows.
\<close>

definition queue_items :: "upload_file list \<Rightarrow> upload_progress" where
  "queue_items fs =
     \<lparr>up_status = UUploading,
      items = map (\<lambda>(n, s). \<lparr>it_name = n, it_size = s, it_loaded = 0, it_status = Queued, it_error = None\<rparr>) fs,
      totalBytes = sum_list (map snd fs), loadedBytes = 0, speedBps = 0, succeeded = 0, failed = 0\<rparr>"

fun begin_all :: "nat list \<Rightarrow> upload_progress \<Rightarrow> upload_progress option" where
  "begin_all [] p = Some p"
| "begin_all (i # is) p = Option.bind (patchItem i patch_begin p) (begin_all is)"

definition fresh_run :: "upload_file list \<Rightarrow> upload_run" where
  "fresh_run fs = \<lparr>run_files = fs, run_mode = FreshRun, phases = replicate (length fs) (Trying 0),
     succeededCount = 0, failedCount = 0, newlySucceeded = 0, slept = [], finished = False\<rparr>"

definition startUpload :: "upload_file list \<Rightarrow> (upload_progress \<times> upload_run) option" where
  "startUpload fs =
     map_option (\<lambda>p. (p, fresh_run fs)) (begin_all [0..<length fs] (queue_items fs))"

text \<open>\<open>retryFailed\<close>: \<open>None\<close> when there is nothing to retry, and the hook does nothing.\<close>

definition failedIndices :: "upload_progress \<Rightarrow> nat list" where
  "failedIndices p = filter (\<lambda>i. it_status (items p ! i) = Failed) [0..<length (items p)]"

definition retry_run :: "upload_file list \<Rightarrow> upload_progress \<Rightarrow> upload_run" where
  "retry_run fs p = \<lparr>run_files = fs, run_mode = RetryRun,
     phases = map (\<lambda>it. if it_status it = Failed then Trying 0 else NotInRun) (items p),
     succeededCount = 0, failedCount = 0, newlySucceeded = 0, slept = [], finished = False\<rparr>"

definition retryFailed :: "upload_file list \<Rightarrow> upload_progress \<Rightarrow> (upload_progress \<times> upload_run) option" where
  "retryFailed fs p =
     (if failedIndices p = [] then None
      else map_option (\<lambda>p'. (p', retry_run fs p))
             (begin_all (failedIndices p) (p\<lparr>up_status := UUploading\<rparr>)))"

definition dismiss :: upload_progress where
  "dismiss = IDLE"

section \<open>The invariant of a run\<close>

text \<open>
  A cell is the phase of a file's retry loop with the row it drives. \<open>cell_ok\<close> says how the two
  agree; \<open>upload_inv\<close> adds that the byte totals and the two counters are what the cells say.
\<close>

type_synonym cell = "phase \<times> upload_item"

fun cell_ok :: "run_mode \<Rightarrow> upload_file \<Rightarrow> cell \<Rightarrow> bool" where
  "cell_ok m f (ph, it) \<longleftrightarrow>
     it_name it = fst f \<and> it_size it = snd f \<and>
     (it_status it = Done \<longrightarrow> it_loaded it = it_size it) \<and>
     (case ph of
        NotInRun \<Rightarrow> m = RetryRun \<and> it_status it = Done
      | Trying k \<Rightarrow> it_status it = Uploading \<and> k \<le> MAX_RETRIES
      | Backoff k \<Rightarrow> it_status it = Uploading \<and> 0 < k \<and> k \<le> MAX_RETRIES
      | Settled ok \<Rightarrow> it_status it = (if ok then Done else Failed)
      | Counted \<Rightarrow> it_status it = Done \<or> it_status it = Failed)"

fun cell_closed :: "cell \<Rightarrow> bool" where
  "cell_closed (ph, it) \<longleftrightarrow> ph = Counted \<or> ph = NotInRun"

definition cell_done :: "cell \<Rightarrow> bool" where
  "cell_done c \<longleftrightarrow> cell_closed c \<and> it_status (snd c) = Done"

definition cell_failed :: "cell \<Rightarrow> bool" where
  "cell_failed c \<longleftrightarrow> cell_closed c \<and> it_status (snd c) = Failed"

definition cell_open :: "cell \<Rightarrow> bool" where
  "cell_open c \<longleftrightarrow> \<not> cell_closed c"

definition cell_new :: "cell \<Rightarrow> bool" where
  "cell_new c \<longleftrightarrow> fst c = Counted \<and> it_status (snd c) = Done"

lemmas cell_defs = cell_done_def cell_failed_def cell_open_def cell_new_def

definition cells :: "upload_progress \<times> upload_run \<Rightarrow> cell list" where
  "cells s = zip (phases (snd s)) (items (fst s))"

definition upload_shape :: "upload_progress \<times> upload_run \<Rightarrow> bool" where
  "upload_shape s \<longleftrightarrow>
     length (items (fst s)) = length (run_files (snd s)) \<and>
     length (phases (snd s)) = length (run_files (snd s)) \<and>
     (\<forall>i < length (run_files (snd s)). cell_ok (run_mode (snd s)) (run_files (snd s) ! i) (cells s ! i)) \<and>
     loadedBytes (fst s) = sum_list (map it_loaded (items (fst s))) \<and>
     totalBytes (fst s) = sum_list (map snd (run_files (snd s)))"

definition upload_counts :: "upload_progress \<times> upload_run \<Rightarrow> bool" where
  "upload_counts s \<longleftrightarrow>
     succeeded (fst s) = int (count_if cell_done (cells s)) \<and>
     (case run_mode (snd s) of
        FreshRun \<Rightarrow> succeededCount (snd s) = succeeded (fst s) \<and> failedCount (snd s) = failed (fst s) \<and>
          failed (fst s) = int (count_if cell_failed (cells s))
      | RetryRun \<Rightarrow> newlySucceeded (snd s) = int (count_if cell_new (cells s)) \<and>
          failed (fst s) = int (count_if cell_failed (cells s)) + int (count_if cell_open (cells s)))"

definition upload_inv :: "upload_progress \<times> upload_run \<Rightarrow> bool" where
  "upload_inv s \<longleftrightarrow> upload_shape s \<and> upload_counts s \<and>
     (if finished (snd s)
      then all_counted (snd s) \<and> up_status (fst s) = finalStatus (failed (fst s)) (succeeded (fst s))
      else up_status (fst s) = UUploading)"

lemma cells_length [simp]: "upload_shape s \<Longrightarrow> length (cells s) = length (run_files (snd s))"
  by (simp add: upload_shape_def cells_def)

text \<open>One row and its phase replaced: the shape is kept when the new cell is in order.\<close>

definition replace_cell ::
  "nat \<Rightarrow> phase \<Rightarrow> upload_item \<Rightarrow> upload_progress \<times> upload_run \<Rightarrow> upload_progress \<times> upload_run" where
  "replace_cell i ph it s =
     (let its = (items (fst s))[i := it]
      in ((fst s)\<lparr>items := its, loadedBytes := sum_list (map it_loaded its)\<rparr>, set_phase i ph (snd s)))"

lemma cells_replace: "cells (replace_cell i ph it s) = (cells s)[i := (ph, it)]"
  by (simp add: cells_def replace_cell_def Let_def set_phase_def update_zip)

lemma replace_cell_fields [simp]:
  "run_files (snd (replace_cell i ph it s)) = run_files (snd s)"
  "run_mode (snd (replace_cell i ph it s)) = run_mode (snd s)"
  "succeeded (fst (replace_cell i ph it s)) = succeeded (fst s)"
  "failed (fst (replace_cell i ph it s)) = failed (fst s)"
  "succeededCount (snd (replace_cell i ph it s)) = succeededCount (snd s)"
  "failedCount (snd (replace_cell i ph it s)) = failedCount (snd s)"
  "newlySucceeded (snd (replace_cell i ph it s)) = newlySucceeded (snd s)"
  "finished (snd (replace_cell i ph it s)) = finished (snd s)"
  "up_status (fst (replace_cell i ph it s)) = up_status (fst s)"
  by (simp_all add: replace_cell_def Let_def set_phase_def)

lemma shape_replace:
  assumes "upload_shape s" "cell_ok (run_mode (snd s)) (run_files (snd s) ! i) (ph, it)"
  shows "upload_shape (replace_cell i ph it s)"
proof -
  have "cells (replace_cell i ph it s) ! j = (if j = i then (ph, it) else cells s ! j)"
    if "j < length (run_files (snd s))" for j
    using that assms(1) by (simp add: cells_replace nth_list_update)
  with assms show ?thesis
    unfolding upload_shape_def by (auto simp: replace_cell_def Let_def set_phase_def)
qed

lemma counts_replace:
  assumes "upload_counts s" "i < length (cells s)"
    "\<And>P. P \<in> {cell_done, cell_failed, cell_open, cell_new} \<Longrightarrow> P (ph, it) = P (cells s ! i)"
  shows "upload_counts (replace_cell i ph it s)"
proof -
  have "count_if P (cells (replace_cell i ph it s)) = count_if P (cells s)"
    if "P \<in> {cell_done, cell_failed, cell_open, cell_new}" for P
    using count_if_update [OF assms(2), of P "(ph, it)"] assms(3) [OF that]
    by (simp add: cells_replace split: if_splits)
  then show ?thesis using assms(1) by (simp add: upload_counts_def split: run_mode.splits)
qed

lemma cell_at:
  assumes "upload_shape s" "i < length (run_files (snd s))"
  shows "cells s ! i = (phases (snd s) ! i, items (fst s) ! i)"
  using assms by (simp add: cells_def upload_shape_def)

lemma patchItem_replace:
  "patchItem i f p = Some p' \<Longrightarrow> (p', set_phase i ph r) = replace_cell i ph (f (items p ! i)) (p, r)"
  by (auto simp: patchItem_def replace_cell_def Let_def split: if_splits)

lemma set_phase_same: "phase_of i r = ph \<Longrightarrow> ph \<noteq> NotInRun \<Longrightarrow> set_phase i ph r = r"
  by (auto simp: phase_of_def set_phase_def split: if_splits)

lemma set_phase_slept: "set_phase i ph (r\<lparr>slept := x\<rparr>) = (set_phase i ph r)\<lparr>slept := x\<rparr>"
  by (simp add: set_phase_def)

text \<open>The fields that are not part of a cell.\<close>

lemma cells_frame [simp]:
  "cells (p\<lparr>succeeded := a\<rparr>, r) = cells (p, r)" "cells (p\<lparr>failed := a\<rparr>, r) = cells (p, r)"
  "cells (p\<lparr>up_status := st\<rparr>, r) = cells (p, r)" "cells (p, r\<lparr>succeededCount := a\<rparr>) = cells (p, r)"
  "cells (p, r\<lparr>failedCount := a\<rparr>) = cells (p, r)" "cells (p, r\<lparr>newlySucceeded := a\<rparr>) = cells (p, r)"
  "cells (p, r\<lparr>finished := b\<rparr>) = cells (p, r)" "cells (p, r\<lparr>slept := x\<rparr>) = cells (p, r)"
  by (simp_all add: cells_def)

lemma shape_frame [simp]:
  "upload_shape (p\<lparr>succeeded := a\<rparr>, r) = upload_shape (p, r)"
  "upload_shape (p\<lparr>failed := a\<rparr>, r) = upload_shape (p, r)"
  "upload_shape (p\<lparr>up_status := st\<rparr>, r) = upload_shape (p, r)"
  "upload_shape (p, r\<lparr>succeededCount := a\<rparr>) = upload_shape (p, r)"
  "upload_shape (p, r\<lparr>failedCount := a\<rparr>) = upload_shape (p, r)"
  "upload_shape (p, r\<lparr>newlySucceeded := a\<rparr>) = upload_shape (p, r)"
  "upload_shape (p, r\<lparr>finished := b\<rparr>) = upload_shape (p, r)"
  "upload_shape (p, r\<lparr>slept := x\<rparr>) = upload_shape (p, r)"
  by (simp_all add: upload_shape_def)

lemma set_phase_frame [simp]:
  "run_mode (set_phase i ph r) = run_mode r" "finished (set_phase i ph r) = finished r"
  "succeededCount (set_phase i ph r) = succeededCount r" "failedCount (set_phase i ph r) = failedCount r"
  "newlySucceeded (set_phase i ph r) = newlySucceeded r"
  by (simp_all add: set_phase_def)

lemma inv_slept: "upload_inv (p, r\<lparr>slept := x\<rparr>) = upload_inv (p, r)"
  by (simp add: upload_inv_def upload_counts_def all_counted_def split: run_mode.split)

lemma phase_active:
  assumes "upload_inv (p, r)" "phase_of i r = ph" "ph \<noteq> NotInRun"
  shows "i < length (run_files r)" "phases r ! i = ph" "i < length (cells (p, r))"
    "cells (p, r) ! i = (ph, items p ! i)" "cell_ok (run_mode r) (run_files r ! i) (ph, items p ! i)"
    "i < length (items p)"
proof -
  have shape: "upload_shape (p, r)" using assms(1) by (simp add: upload_inv_def)
  show i: "i < length (run_files r)" and ph: "phases r ! i = ph"
    using assms shape by (auto simp: phase_of_def upload_shape_def split: if_splits)
  show "i < length (cells (p, r))" using shape i by simp
  show c: "cells (p, r) ! i = (ph, items p ! i)" using cell_at [OF shape] i ph by simp
  show "cell_ok (run_mode r) (run_files r ! i) (ph, items p ! i)"
    using shape i unfolding c [symmetric] by (simp add: upload_shape_def del: cell_ok.simps)
  show "i < length (items p)" using shape i by (simp add: upload_shape_def)
qed

lemma active_not_finished:
  assumes "upload_inv (p, r)" "phase_of i r = ph" "ph \<noteq> NotInRun" "ph \<noteq> Counted"
  shows "\<not> finished r" "up_status p = UUploading"
proof -
  have "ph \<in> set (phases r)"
    using assms(2,3) by (auto simp: phase_of_def split: if_splits)
  then have "\<not> all_counted r" using assms(3,4) by (auto simp: all_counted_def)
  then show "\<not> finished r" "up_status p = UUploading"
    using assms(1) by (auto simp: upload_inv_def split: if_splits)
qed

text \<open>A step inside one file's retry loop, before it is counted.\<close>

lemma inv_replace:
  assumes inv: "upload_inv (p, r)" and ph: "phase_of i r = ph" "ph \<noteq> NotInRun" "ph \<noteq> Counted"
    and ph': "ph' \<noteq> NotInRun" "ph' \<noteq> Counted"
    and ok: "cell_ok (run_mode r) (run_files r ! i) (ph', it)"
  shows "upload_inv (replace_cell i ph' it (p, r))"
proof -
  note act = phase_active [OF inv ph(1,2)] and nf = active_not_finished [OF inv ph]
  have "upload_shape (replace_cell i ph' it (p, r))"
    using inv ok by (intro shape_replace) (simp_all add: upload_inv_def)
  moreover have "upload_counts (replace_cell i ph' it (p, r))"
    using inv act(3,4) ph ph' by (intro counts_replace) (auto simp: upload_inv_def cell_defs)
  ultimately show ?thesis using nf by (simp add: upload_inv_def)
qed

lemma count_cell_closed:
  assumes "i < length cs" "cs ! i = (Settled ok, it)" "it_status it = (if ok then Done else Failed)"
  shows "count_if cell_done (cs[i := (Counted, it)]) = count_if cell_done cs + (if ok then 1 else 0)"
    "count_if cell_failed (cs[i := (Counted, it)]) = count_if cell_failed cs + (if ok then 0 else 1)"
    "count_if cell_new (cs[i := (Counted, it)]) = count_if cell_new cs + (if ok then 1 else 0)"
    "Suc (count_if cell_open (cs[i := (Counted, it)])) = count_if cell_open cs"
  using count_if_update [OF assms(1), of cell_done "(Counted, it)"]
    count_if_update [OF assms(1), of cell_failed "(Counted, it)"]
    count_if_update [OF assms(1), of cell_new "(Counted, it)"]
    count_if_update [OF assms(1), of cell_open "(Counted, it)"] assms(2,3)
  by (simp_all add: cell_defs)

lemma inv_count:
  assumes inv: "upload_inv (p, r)" and ph: "phase_of i r = Settled ok"
  shows "upload_inv (count_file ok (p, set_phase i Counted r))"
proof -
  note act = phase_active [OF inv ph] and nf = active_not_finished [OF inv ph]
  let ?s = "replace_cell i Counted (items p ! i) (p, r)"
  have st: "it_status (items p ! i) = (if ok then Done else Failed)" using act(5) by simp
  have eq: "?s = (p, set_phase i Counted r)"
    using inv by (simp add: replace_cell_def Let_def upload_inv_def upload_shape_def)
  have shape: "upload_shape (p, set_phase i Counted r)"
    using inv act st unfolding eq [symmetric]
    by (intro shape_replace) (auto simp: upload_inv_def)
  have cs: "cells (p, set_phase i Counted r) = (cells (p, r))[i := (Counted, items p ! i)]"
    using cells_replace [of i Counted "items p ! i" "(p, r)"] eq by simp
  note counts = count_cell_closed [OF act(3,4) st, folded cs]
  have old: "upload_counts (p, r)" using inv by (simp add: upload_inv_def)
  show ?thesis
  proof (cases "run_mode r")
    case FreshRun
    then show ?thesis
      using shape counts nf old by (cases ok) (simp_all add: count_file_def upload_inv_def upload_counts_def)
  next
    case RetryRun
    then show ?thesis
      using shape counts nf old by (cases ok) (simp_all add: count_file_def upload_inv_def upload_counts_def)
  qed
qed

lemma upload_event_inv:
  assumes "upload_event e s = Some s'" "upload_inv s"
  shows "upload_inv s'"
proof (cases s)
  case (Pair p r)
  note inv = assms(2) [unfolded Pair] and ev = assms(1) [unfolded Pair]
  show ?thesis
  proof (cases e)
    case (EvProgress i n)
    with ev obtain k p' where k: "phase_of i r = Trying k" "s' = (p', r)"
      "patchItem i (it_loaded_update (\<lambda>_. n)) p = Some p'" by (auto split: phase.splits)
    from phase_active(5) [OF inv k(1)] set_phase_same [OF k(1)] patchItem_replace [OF k(3), of "Trying k" r]
    show ?thesis using k(2) inv_replace [OF inv k(1), of "Trying k"] by simp
  next
    case (EvSuccess i)
    with ev obtain k p' where k: "phase_of i r = Trying k" "s' = (p', set_phase i (Settled True) r)"
      "patchItem i (patch_done (snd (run_files r ! i))) p = Some p'" by (auto split: phase.splits)
    from phase_active(5) [OF inv k(1)] patchItem_replace [OF k(3), of "Settled True" r]
    show ?thesis using k(2) inv_replace [OF inv k(1), of "Settled True"] by (simp add: patch_done_def)
  next
    case (EvError i e')
    with ev obtain k where k: "phase_of i r = Trying k" by (auto split: phase.splits)
    note ok = phase_active(5) [OF inv k, simplified]
    show ?thesis
    proof (cases "k = MAX_RETRIES")
      case True
      with k ev EvError obtain p' where "s' = (p', set_phase i (Settled False) r)"
        "patchItem i (patch_failed e') p = Some p'" by auto
      with patchItem_replace [of i "patch_failed e'" p p' "Settled False" r] ok show ?thesis
        using inv_replace [OF inv k, of "Settled False"] by (simp add: patch_failed_def)
    next
      case False
      with k ev EvError obtain p' where p': "s' = (p', (set_phase i (Backoff (Suc k)) r)\<lparr>slept := RETRY_DELAYS_MS ! k # slept r\<rparr>)"
        "patchItem i (it_loaded_update (\<lambda>_. 0)) p = Some p'" by (auto simp: set_phase_slept)
      from False ok have "Suc k \<le> MAX_RETRIES" by simp
      with patchItem_replace [OF p'(2), of "Backoff (Suc k)" r] ok show ?thesis
        unfolding p'(1) inv_slept using inv_replace [OF inv k, of "Backoff (Suc k)"] by simp
    qed
  next
    case (EvWake i)
    with ev obtain k where k: "phase_of i r = Backoff k" "s' = (p, set_phase i (Trying k) r)"
      by (auto split: phase.splits)
    have "replace_cell i (Trying k) (items p ! i) (p, r) = (p, set_phase i (Trying k) r)"
      using inv by (simp add: replace_cell_def Let_def upload_inv_def upload_shape_def)
    with phase_active(5) [OF inv k(1)] show ?thesis
      using k(2) inv_replace [OF inv k(1), of "Trying k" "items p ! i"] by simp
  next
    case (EvCount i)
    with ev obtain ok where "phase_of i r = Settled ok" "s' = count_file ok (p, set_phase i Counted r)"
      by (auto split: phase.splits)
    with inv_count [OF inv] show ?thesis by simp
  next
    case EvFinish
    with ev have "all_counted r" "\<not> finished r" by (auto split: if_splits)
    with ev inv EvFinish show ?thesis
      by (cases "run_mode r") (auto simp: upload_inv_def upload_counts_def all_counted_def)
  qed
qed

section \<open>Starting and retrying establish the invariant\<close>

lemma patch_begin_idem: "patch_begin (patch_begin it) = patch_begin it"
  by (simp add: patch_begin_def)

lemma patch_begin_update:
  "i < length xs \<Longrightarrow> patch_begin (xs[i := patch_begin (xs ! i)] ! j) = patch_begin (xs ! j)"
  by (cases "i = j") (simp_all add: patch_begin_idem)

lemma begin_all_some:
  assumes "\<forall>i \<in> set is. i < length (items p)" "loadedBytes p = sum_list (map it_loaded (items p))"
  shows "\<exists>p'. begin_all is p = Some p' \<and> length (items p') = length (items p) \<and>
     (\<forall>j < length (items p). items p' ! j = (if j \<in> set is then patch_begin (items p ! j) else items p ! j)) \<and>
     loadedBytes p' = sum_list (map it_loaded (items p')) \<and>
     up_status p' = up_status p \<and> totalBytes p' = totalBytes p \<and> succeeded p' = succeeded p \<and>
     failed p' = failed p"
  using assms
proof (induction "is" arbitrary: p)
  case Nil
  then show ?case by auto
next
  case (Cons i "is")
  let ?its = "(items p)[i := patch_begin (items p ! i)]"
  let ?p = "p\<lparr>items := ?its, loadedBytes := sum_list (map it_loaded ?its)\<rparr>"
  have "patchItem i patch_begin p = Some ?p"
    using Cons.prems by (simp add: patchItem_def Let_def)
  moreover have "\<forall>i \<in> set is. i < length (items ?p)" "loadedBytes ?p = sum_list (map it_loaded (items ?p))"
    using Cons.prems by simp_all
  note Cons.IH [OF this]
  ultimately show ?case using Cons.prems by (auto simp: patch_begin_update patch_begin_idem nth_list_update)
qed

lemma count_if_nth: "count_if P xs = card {i. i < length xs \<and> P (xs ! i)}"
  by (simp add: count_if_def length_filter_conv_card)

text \<open>All cells of a run open, none closed: what a fresh start counts.\<close>

lemma startUpload_inv: "\<exists>s. startUpload fs = Some s \<and> upload_inv s \<and> run_files (snd s) = fs"
proof -
  let ?q = "queue_items fs"
  have "\<forall>i \<in> set [0..<length fs]. i < length (items ?q)"
    "loadedBytes ?q = sum_list (map it_loaded (items ?q))"
    by (simp_all add: queue_items_def case_prod_beta comp_def)
  from begin_all_some [OF this] obtain p where p: "begin_all [0..<length fs] ?q = Some p"
    "length (items p) = length fs" "\<forall>j < length fs. items p ! j = patch_begin (items ?q ! j)"
    "loadedBytes p = sum_list (map it_loaded (items p))" "up_status p = UUploading"
    "totalBytes p = sum_list (map snd fs)" "succeeded p = 0" "failed p = 0"
    by (auto simp: queue_items_def)
  let ?s = "(p, fresh_run fs)"
  have cell: "cells ?s ! i = (Trying 0, patch_begin (items ?q ! i))" if "i < length fs" for i
    using that p by (simp add: cells_def fresh_run_def)
  have shape: "upload_shape ?s"
    using p cell by (auto simp: upload_shape_def fresh_run_def patch_begin_def queue_items_def case_prod_beta)
  moreover have "count_if cell_done (cells ?s) = 0" "count_if cell_failed (cells ?s) = 0"
    using shape cell by (auto simp: count_if_nth cell_defs fresh_run_def patch_begin_def)
  ultimately have "upload_inv ?s"
    using p by (simp add: upload_inv_def upload_counts_def fresh_run_def)
  with p(1) show ?thesis by (simp add: startUpload_def fresh_run_def)
qed

lemma finished_cells:
  assumes "upload_inv (p, r)" "finished r" "i < length (run_files r)"
  shows "it_status (items p ! i) = Done \<or> it_status (items p ! i) = Failed"
    "cell_closed (cells (p, r) ! i)" "it_name (items p ! i) = fst (run_files r ! i)"
    "it_size (items p ! i) = snd (run_files r ! i)"
    "it_status (items p ! i) = Done \<Longrightarrow> it_loaded (items p ! i) = it_size (items p ! i)"
    "cells (p, r) ! i = (phases r ! i, items p ! i)"
proof -
  from assms have shape: "upload_shape (p, r)" and c: "all_counted r" by (simp_all add: upload_inv_def)
  then have "phases r ! i \<in> set (phases r)" using assms(3) by (simp add: upload_shape_def)
  with c have ph: "phases r ! i = Counted \<or> phases r ! i = NotInRun" by (auto simp: all_counted_def)
  show cell: "cells (p, r) ! i = (phases r ! i, items p ! i)"
    using cell_at [OF shape] assms(3) by simp
  have "cell_ok (run_mode r) (run_files r ! i) (phases r ! i, items p ! i)"
    using shape assms(3) unfolding cell [symmetric] by (simp add: upload_shape_def del: cell_ok.simps)
  with ph cell show "it_status (items p ! i) = Done \<or> it_status (items p ! i) = Failed"
    "cell_closed (cells (p, r) ! i)" "it_name (items p ! i) = fst (run_files r ! i)"
    "it_size (items p ! i) = snd (run_files r ! i)"
    "it_status (items p ! i) = Done \<Longrightarrow> it_loaded (items p ! i) = it_size (items p ! i)"
    by auto
qed

definition status_count :: "item_status \<Rightarrow> upload_progress \<Rightarrow> nat" where
  "status_count st p = count_if (\<lambda>it. it_status it = st) (items p)"

lemma finished_counts:
  assumes inv: "upload_inv (p, r)" and fin: "finished r"
  shows "count_if cell_done (cells (p, r)) = status_count Done p"
    "count_if cell_failed (cells (p, r)) = status_count Failed p"
    "count_if cell_open (cells (p, r)) = 0"
    "status_count Done p + status_count Failed p = length (items p)"
proof -
  have n: "length (cells (p, r)) = length (run_files r)" "length (items p) = length (run_files r)"
    using inv by (simp_all add: upload_inv_def, simp add: upload_shape_def)
  note cell = finished_cells [OF inv fin]
  have "cell_done (cells (p, r) ! i) = (it_status (items p ! i) = Done)"
    "cell_failed (cells (p, r) ! i) = (it_status (items p ! i) = Failed)"
    "\<not> cell_open (cells (p, r) ! i)" if "i < length (run_files r)" for i
    using cell(2,6) [OF that] by (simp_all add: cell_defs)
  then show "count_if cell_done (cells (p, r)) = status_count Done p"
    "count_if cell_failed (cells (p, r)) = status_count Failed p"
    "count_if cell_open (cells (p, r)) = 0"
    unfolding status_count_def count_if_nth n by (auto intro: arg_cong [where f = card])
  have "\<forall>it \<in> set (items p). (it_status it \<noteq> Done) = (it_status it = Failed)"
    using cell(1) n(2) by (metis in_set_conv_nth item_status.distinct(11))
  then have "count_if (\<lambda>it. it_status it \<noteq> Done) (items p) = status_count Failed p"
    unfolding status_count_def count_if_def by (metis (mono_tags, lifting) filter_cong)
  with count_if_split [of "\<lambda>it. it_status it = Done" "items p"]
  show "status_count Done p + status_count Failed p = length (items p)"
    by (simp add: status_count_def)
qed

lemma retryFailed_inv:
  assumes inv: "upload_inv (p, r)" and fin: "finished r" and re: "retryFailed (run_files r) p = Some s"
  shows "upload_inv s" "run_files (snd s) = run_files r"
proof -
  let ?n = "length (run_files r)" and ?q = "p\<lparr>up_status := UUploading\<rparr>"
  from inv have n: "length (items p) = ?n" and loaded: "loadedBytes p = sum_list (map it_loaded (items p))"
    and tot: "totalBytes p = sum_list (map snd (run_files r))"
    by (simp_all add: upload_inv_def upload_shape_def)
  have "\<forall>i \<in> set (failedIndices p). i < length (items ?q)"
    "loadedBytes ?q = sum_list (map it_loaded (items ?q))"
    using loaded by (simp_all add: failedIndices_def)
  from begin_all_some [OF this] obtain p' where q: "begin_all (failedIndices p) ?q = Some p'"
    "length (items p') = length (items ?q)"
    "\<forall>j < length (items ?q). items p' ! j =
       (if j \<in> set (failedIndices p) then patch_begin (items ?q ! j) else items ?q ! j)"
    "loadedBytes p' = sum_list (map it_loaded (items p'))" "up_status p' = up_status ?q"
    "totalBytes p' = totalBytes ?q" "succeeded p' = succeeded ?q" "failed p' = failed ?q"
    by blast
  from re q(1) have "s = (p', retry_run (run_files r) p)"
    by (simp add: retryFailed_def split: if_splits)
  then have p': "s = (p', retry_run (run_files r) p)" "length (items p') = ?n"
    "\<forall>j < ?n. items p' ! j = (if j \<in> set (failedIndices p) then patch_begin (items p ! j) else items p ! j)"
    "loadedBytes p' = sum_list (map it_loaded (items p'))" "up_status p' = UUploading"
    "totalBytes p' = totalBytes p" "succeeded p' = succeeded p" "failed p' = failed p"
    using q n by simp_all
  note cell = finished_cells [OF inv fin]
  have c: "cells s ! i = (if it_status (items p ! i) = Failed then (Trying 0, patch_begin (items p ! i))
      else (NotInRun, items p ! i))" if "i < ?n" for i
    using that p'(1-3) n by (simp add: cells_def retry_run_def failedIndices_def)
  have ok: "cell_ok RetryRun (run_files r ! i) (cells s ! i)" if "i < ?n" for i
    using cell(1,3-5) [OF that] c [OF that] by (auto simp: patch_begin_def)
  have fields: "run_files (snd s) = run_files r" "run_mode (snd s) = RetryRun" "fst s = p'"
    "length (phases (snd s)) = length (items p)"
    using p'(1) by (simp_all add: retry_run_def)
  have shape: "upload_shape s"
    unfolding upload_shape_def fields using ok p'(2,4,6) tot n by (simp del: cell_ok.simps)
  have len: "length (cells s) = ?n" using shape p'(1) by (simp add: retry_run_def)
  have "cell_done (cells s ! i) = cell_done (cells (p, r) ! i)" "\<not> cell_failed (cells s ! i)"
    "cell_open (cells s ! i) = cell_failed (cells (p, r) ! i)" "\<not> cell_new (cells s ! i)"
    if "i < ?n" for i
    using cell(1,2,6) [OF that] c [OF that] by (auto simp: cell_defs patch_begin_def)
  moreover have "length (cells (p, r)) = ?n" using inv by (simp add: upload_inv_def)
  ultimately have "count_if cell_done (cells s) = count_if cell_done (cells (p, r))"
    "count_if cell_failed (cells s) = 0" "count_if cell_new (cells s) = 0"
    "count_if cell_open (cells s) = count_if cell_failed (cells (p, r))"
    unfolding count_if_nth len by (auto intro: arg_cong [where f = card])
  moreover have "succeeded p = int (count_if cell_done (cells (p, r)))"
    "failed p = int (count_if cell_failed (cells (p, r)))"
    using inv finished_counts(3) [OF inv fin]
    by (auto simp: upload_inv_def upload_counts_def split: run_mode.splits)
  ultimately have "upload_counts s"
    using p' by (simp add: upload_counts_def retry_run_def)
  with shape p' show "upload_inv s" "run_files (snd s) = run_files r"
    by (simp_all add: upload_inv_def retry_run_def)
qed

section \<open>Reachable states\<close>

text \<open>
  The states the hook goes through: a fresh start, the events of the run, and, from the finished
  state whose toast offers it, a retry of the failed rows.
\<close>

inductive reachable_upload :: "upload_progress \<times> upload_run \<Rightarrow> bool" where
  start: "startUpload fs = Some s \<Longrightarrow> reachable_upload s"
| event: "reachable_upload s \<Longrightarrow> upload_event e s = Some s' \<Longrightarrow> reachable_upload s'"
| retry: "reachable_upload (p, r) \<Longrightarrow> finished r \<Longrightarrow> retryFailed (run_files r) p = Some s \<Longrightarrow>
    reachable_upload s"

lemma reachable_inv: "reachable_upload s \<Longrightarrow> upload_inv s"
proof (induction rule: reachable_upload.induct)
  case (start fs s)
  with startUpload_inv [of fs] show ?case by auto
next
  case (event s e s')
  then show ?case by (simp add: upload_event_inv)
next
  case (retry p r s)
  then show ?case by (simp add: retryFailed_inv)
qed

section \<open>What the hook reports\<close>

lemma final_report:
  assumes "reachable_upload (p, r)" and "finished r"
  shows "succeeded p = int (status_count Done p) \<and> failed p = int (status_count Failed p) \<and>
    status_count Done p + status_count Failed p = length (run_files r) \<and>
    up_status p = (if status_count Failed p = 0 then UComplete
                   else if status_count Done p = 0 then UAllFailed else UPartial)"
    and "map it_name (items p) = map fst (run_files r)"
proof -
  have inv: "upload_inv (p, r)" using reachable_inv [OF assms(1)] .
  note counts = finished_counts [OF inv assms(2)]
  have "succeeded p = int (status_count Done p)" "failed p = int (status_count Failed p)"
    using inv counts(1-3) by (auto simp: upload_inv_def upload_counts_def split: run_mode.splits)
  moreover have "length (items p) = length (run_files r)"
    using inv by (simp add: upload_inv_def upload_shape_def)
  moreover have "up_status p = finalStatus (failed p) (succeeded p)"
    using inv assms(2) by (simp add: upload_inv_def)
  ultimately show "succeeded p = int (status_count Done p) \<and> failed p = int (status_count Failed p) \<and>
    status_count Done p + status_count Failed p = length (run_files r) \<and>
    up_status p = (if status_count Failed p = 0 then UComplete
                   else if status_count Done p = 0 then UAllFailed else UPartial)"
    using counts(4) by (simp add: finalStatus_def)
  have "length (items p) = length (run_files r)" using inv by (simp add: upload_inv_def upload_shape_def)
  then show "map it_name (items p) = map fst (run_files r)"
    using finished_cells(3) [OF inv assms(2)] by (simp add: list_eq_iff_nth_eq)
qed

section \<open>The hook\<close>

text \<open>
  The hook keeps no record of its runs: \<open>startUpload\<close>, \<open>retryFailed\<close> and \<open>dismiss\<close> can be called while
  others are in flight, and all of them write the one shared record. An event is one of these calls or an event of one of
  the runs begun so far; \<open>None\<close> stands for an event that is not due (or would write a row that is not there).
\<close>

record upload_hook =
  hk_progress :: upload_progress
  hk_runs :: "upload_run list"
  hk_args :: "upload_file list option"

datatype hook_event = HookStart "upload_file list" | HookRetry | HookDismiss | HookRun nat run_event

definition new_hook :: upload_hook where
  "new_hook = \<lparr>hk_progress = IDLE, hk_runs = [], hk_args = None\<rparr>"

definition begin_run :: "upload_hook \<Rightarrow> upload_progress \<times> upload_run \<Rightarrow> upload_hook" where
  "begin_run h s = h\<lparr>hk_progress := fst s, hk_runs := hk_runs h @ [snd s], hk_args := Some (run_files (snd s))\<rparr>"

fun hook_step :: "hook_event \<Rightarrow> upload_hook \<Rightarrow> upload_hook option" where
  "hook_step (HookStart fs) h = map_option (begin_run h) (startUpload fs)"
| "hook_step HookRetry h =
     (case hk_args h of
        None \<Rightarrow> Some h
      | Some fs \<Rightarrow> if failedIndices (hk_progress h) = [] then Some h
                  else map_option (begin_run h) (retryFailed fs (hk_progress h)))"
| "hook_step HookDismiss h = Some (h\<lparr>hk_progress := dismiss, hk_args := None\<rparr>)"
| "hook_step (HookRun k e) h =
     (if k < length (hk_runs h)
      then map_option (\<lambda>s. h\<lparr>hk_progress := fst s, hk_runs := (hk_runs h)[k := snd s]\<rparr>)
             (upload_event e (hk_progress h, hk_runs h ! k))
      else None)"

fun hook_run :: "hook_event list \<Rightarrow> upload_hook \<Rightarrow> upload_hook option" where
  "hook_run [] h = Some h"
| "hook_run (e # es) h = Option.bind (hook_step e h) (hook_run es)"

definition run_over :: "upload_run \<Rightarrow> bool" where
  "run_over r \<longleftrightarrow> finished r \<and> all_counted r"

definition in_flight :: "upload_hook \<Rightarrow> bool" where
  "in_flight h \<longleftrightarrow> list_ex (\<lambda>r. \<not> run_over r) (hk_runs h)"

text \<open>No start, retry or dismissal comes while a run is in flight.\<close>

fun undisturbed :: "hook_event list \<Rightarrow> upload_hook \<Rightarrow> bool" where
  "undisturbed [] h = True"
| "undisturbed (e # es) h \<longleftrightarrow>
     (case e of HookRun k ev \<Rightarrow> True | _ \<Rightarrow> \<not> in_flight h)
     \<and> (case hook_step e h of Some h' \<Rightarrow> undisturbed es h' | None \<Rightarrow> True)"

lemma over_no_event: "run_over r \<Longrightarrow> upload_event e (p, r) = None"
proof -
  assume over: "run_over r"
  then have "phase_of i r = Counted \<or> phase_of i r = NotInRun" for i
    by (auto simp: run_over_def all_counted_def phase_of_def)
  then have ph: "phase_of i r \<noteq> Trying k" "phase_of i r \<noteq> Backoff k" "phase_of i r \<noteq> Settled b" for i k b
    by (metis phase.distinct)+
  show ?thesis
  proof (cases e)
    case EvFinish
    then show ?thesis using over by (simp add: run_over_def)
  qed (use ph in \<open>auto split: phase.split\<close>)
qed

text \<open>Between the events of an undisturbed use only the latest run is still at work, and it is a run of the model above.\<close>

definition hook_inv :: "upload_hook \<Rightarrow> bool" where
  "hook_inv h \<longleftrightarrow>
     (case hk_args h of
        None \<Rightarrow> \<not> in_flight h
      | Some fs \<Rightarrow> hk_runs h \<noteq> [] \<and> list_all run_over (butlast (hk_runs h)) \<and> run_files (last (hk_runs h)) = fs
          \<and> reachable_upload (hk_progress h, last (hk_runs h)))"

lemma hook_inv_begin:
  assumes "\<not> in_flight h" "reachable_upload s"
  shows "hook_inv (begin_run h s)"
  using assms by (simp add: hook_inv_def begin_run_def in_flight_def list_all_iff list_ex_iff)

lemma event_files: "upload_event e s = Some s' \<Longrightarrow> run_files (snd s') = run_files (snd s)"
  by (cases s; cases e)
     (auto simp: set_phase_def count_file_def split: phase.splits if_splits run_mode.splits)

lemma hook_step_inv:
  assumes "hook_inv h" "hook_step e h = Some h'" "case e of HookRun k ev \<Rightarrow> True | _ \<Rightarrow> \<not> in_flight h"
  shows "hook_inv h'"
proof (cases e)
  case (HookStart fs)
  with assms obtain s where "startUpload fs = Some s" "h' = begin_run h s" by auto
  then show ?thesis using assms(3) HookStart by (auto intro: hook_inv_begin reachable_upload.start)
next
  case HookRetry
  show ?thesis
  proof (cases "hk_args h")
    case None
    with HookRetry assms show ?thesis by simp
  next
    case (Some fs)
    show ?thesis
    proof (cases "failedIndices (hk_progress h) = []")
      case True
      with HookRetry Some assms show ?thesis by simp
    next
      case False
      with HookRetry Some assms(2) obtain s where s: "retryFailed fs (hk_progress h) = Some s" "h' = begin_run h s" by auto
      from assms(1) Some have h: "hk_runs h \<noteq> []" "run_files (last (hk_runs h)) = fs"
        "reachable_upload (hk_progress h, last (hk_runs h))" by (simp_all add: hook_inv_def)
      have "finished (last (hk_runs h))"
        using assms(3) HookRetry h(1) by (simp add: in_flight_def list_ex_iff run_over_def)
      then have "reachable_upload s" using reachable_upload.retry [OF h(3)] s(1) h(2) by simp
      then show ?thesis using assms(3) HookRetry s(2) by (simp add: hook_inv_begin)
    qed
  qed
next
  case HookDismiss
  with assms show ?thesis by (auto simp: hook_inv_def in_flight_def)
next
  case (HookRun k ev)
  with assms(2) obtain s where k: "k < length (hk_runs h)" and s: "upload_event ev (hk_progress h, hk_runs h ! k) = Some s"
    and h': "h' = h\<lparr>hk_progress := fst s, hk_runs := (hk_runs h)[k := snd s]\<rparr>" by (auto split: if_splits)
  have busy: "\<not> run_over (hk_runs h ! k)" using over_no_event s by force
  then have "in_flight h" using k by (auto simp: in_flight_def list_ex_iff)
  with assms(1) obtain fs where fs: "hk_args h = Some fs" by (cases "hk_args h") (simp_all add: hook_inv_def)
  from assms(1) fs have inv: "hk_runs h \<noteq> []" "list_all run_over (butlast (hk_runs h))" "run_files (last (hk_runs h)) = fs"
    "reachable_upload (hk_progress h, last (hk_runs h))" by (simp_all add: hook_inv_def)
  have "k = length (hk_runs h) - 1"
  proof (rule ccontr)
    assume "k \<noteq> length (hk_runs h) - 1"
    with k have "k < length (butlast (hk_runs h))" by simp
    then have "hk_runs h ! k \<in> set (butlast (hk_runs h))" by (metis nth_butlast nth_mem)
    with inv(2) busy show False by (simp add: list_all_iff)
  qed
  moreover obtain rs x where rs: "hk_runs h = rs @ [x]" using inv(1) by (metis append_butlast_last_id)
  ultimately have lst: "hk_runs h ! k = last (hk_runs h)" "(hk_runs h)[k := snd s] = butlast (hk_runs h) @ [snd s]"
    by (simp_all add: list_update_append)
  have "reachable_upload s" using reachable_upload.event [OF inv(4)] s lst(1) by simp
  moreover have "run_files (snd s) = fs" using event_files [OF s] lst(1) inv(3) by simp
  ultimately show ?thesis using inv(2) fs by (simp add: h' hook_inv_def lst(2))
qed

lemma hook_run_inv: "hook_inv h \<Longrightarrow> undisturbed es h \<Longrightarrow> hook_run es h = Some h' \<Longrightarrow> hook_inv h'"
proof (induction es arbitrary: h)
  case (Cons e es)
  then obtain h1 where h1: "hook_step e h = Some h1" "hook_run es h1 = Some h'" by (auto split: bind_splits)
  have "hook_inv h1" using hook_step_inv [OF Cons.prems(1) h1(1)] Cons.prems(2) by simp
  with Cons.IH [OF this] Cons.prems(2) h1 show ?case by simp
qed simp

text \<open>
  C1. Whatever the hook was used for before: from the start of a batch on, as long as no start, retry or dismissal comes while a
  run is in flight, the report is exact whenever a run or a retry is over. It lists the files of the batch, every file is either
  done or failed, \<open>succeeded\<close> and \<open>failed\<close> are how many of each there are, over the whole batch, and the status is
  complete, partial or all-failed accordingly.
\<close>

theorem upload_final_report:
  assumes "\<not> in_flight h0" and "undisturbed (HookStart fs # es) h0" and "hook_run (HookStart fs # es) h0 = Some h"
    and "\<not> in_flight h" and "hk_args h = Some batch"
  defines "p \<equiv> hk_progress h"
  shows "map it_name (items p) = map fst batch \<and>
    succeeded p = int (status_count Done p) \<and> failed p = int (status_count Failed p) \<and>
    status_count Done p + status_count Failed p = length batch \<and>
    up_status p = (if status_count Failed p = 0 then UComplete
                   else if status_count Done p = 0 then UAllFailed else UPartial)"
proof -
  from assms(3) obtain h1 where h1: "hook_step (HookStart fs) h0 = Some h1" "hook_run es h1 = Some h"
    by (auto split: bind_splits)
  have "hook_inv h1"
    using h1(1) assms(1) by (auto intro: hook_inv_begin reachable_upload.start)
  moreover have "undisturbed es h1" using assms(2) h1(1) by (auto simp del: hook_step.simps)
  ultimately have "hook_inv h" using hook_run_inv h1(2) by blast
  with assms(5) have inv: "hk_runs h \<noteq> []" "run_files (last (hk_runs h)) = batch"
    "reachable_upload (p, last (hk_runs h))" by (simp_all add: hook_inv_def p_def)
  have "finished (last (hk_runs h))" using assms(4) inv(1) by (simp add: in_flight_def list_ex_iff run_over_def)
  from final_report [OF inv(3) this] inv(2) show ?thesis by simp
qed

text \<open>The witness dismisses the toast of one batch, then uploads two files of which one fails and is retried.\<close>

text \<open>Runs as event lists.\<close>

fun run_events :: "run_event list \<Rightarrow> upload_progress \<times> upload_run \<Rightarrow> (upload_progress \<times> upload_run) option" where
  "run_events [] s = Some s"
| "run_events (e # es) s = Option.bind (upload_event e s) (run_events es)"

lemma reachable_run: "reachable_upload s \<Longrightarrow> run_events es s = Some s' \<Longrightarrow> reachable_upload s'"
proof (induction es arbitrary: s)
  case (Cons e es)
  then obtain t where "upload_event e s = Some t" "run_events es t = Some s'"
    by (auto split: bind_splits)
  with Cons show ?case by (blast intro: reachable_upload.event)
qed simp

lemma start_two:
  "startUpload [(''a'', 10), (''b'', 20)] = Some
     (\<lparr>up_status = UUploading,
       items = [\<lparr>it_name = ''a'', it_size = 10, it_loaded = 0, it_status = Uploading, it_error = None\<rparr>,
                \<lparr>it_name = ''b'', it_size = 20, it_loaded = 0, it_status = Uploading, it_error = None\<rparr>],
       totalBytes = 30, loadedBytes = 0, speedBps = 0, succeeded = 0, failed = 0\<rparr>,
      fresh_run [(''a'', 10), (''b'', 20)])"
  by (simp add: startUpload_def queue_items_def patchItem_def patch_begin_def Let_def)

definition fail_b :: "run_event list" where
  "fail_b = concat (map (\<lambda>_. [EvError 1 ''net'', EvWake 1]) [0..<5]) @
     [EvError 1 ''net'', EvProgress 0 7, EvSuccess 0, EvCount 1, EvCount 0, EvFinish]"

lemma run_two: "\<exists>p r. run_events fail_b (the (startUpload [(''a'', 10), (''b'', 20)])) = Some (p, r) \<and>
    finished r \<and> length (run_files r) = 2 \<and> up_status p = UPartial \<and> slept r = [8000, 4000, 2000, 1000, 500]"
  unfolding start_two
  by (simp add: fail_b_def fresh_run_def phase_of_def set_phase_def patchItem_def MAX_RETRIES_def
      upt_conv_Cons RETRY_DELAYS_MS_def patch_done_def patch_failed_def count_file_def all_counted_def
      finalStatus_def Let_def)

definition two_files :: "upload_file list" where
  "two_files = [(''a'', 10), (''b'', 20)]"

definition two_batches :: "hook_event list" where
  "two_batches = map (HookRun 1) fail_b @ [HookRetry] @ map (HookRun 2) [EvSuccess 1, EvCount 1, EvFinish]"

definition used_hook :: upload_hook where
  "used_hook = the (hook_run [HookStart [(''x'', 5)], HookRun 0 (EvSuccess 0), HookRun 0 (EvCount 0),
     HookRun 0 EvFinish, HookDismiss] new_hook)"

lemmas hook_eval = startUpload_def queue_items_def fresh_run_def phase_of_def set_phase_def patchItem_def MAX_RETRIES_def
  RETRY_DELAYS_MS_def patch_begin_def patch_done_def patch_failed_def count_file_def all_counted_def finalStatus_def Let_def
  begin_run_def retryFailed_def failedIndices_def retry_run_def dismiss_def in_flight_def run_over_def upt_conv_Cons

lemma used_hook_eval:
  "used_hook = \<lparr>hk_progress = IDLE, hk_runs = [(fresh_run [(''x'', 5)])\<lparr>phases := [Counted], succeededCount := 1, finished := True\<rparr>],
     hk_args = None\<rparr>"
  by (simp add: used_hook_def new_hook_def hook_eval)

lemma two_batches_run:
  "\<not> in_flight used_hook" "undisturbed (HookStart two_files # two_batches) used_hook"
  "(case hook_run (HookStart two_files # two_batches) used_hook of
      Some h \<Rightarrow> \<not> in_flight h \<and> hk_args h = Some two_files \<and> up_status (hk_progress h) = UComplete | None \<Rightarrow> False)"
  unfolding used_hook_eval by (simp_all add: hook_eval two_files_def two_batches_def fail_b_def)

theorem upload_final_report_witness:
  "\<exists>h. hook_run (HookStart two_files # two_batches) used_hook = Some h \<and>
     status_count Done (hk_progress h) + status_count Failed (hk_progress h) = 2"
proof -
  from two_batches_run(3) obtain h where h: "hook_run (HookStart two_files # two_batches) used_hook = Some h"
    "\<not> in_flight h" "hk_args h = Some two_files"
    by (cases "hook_run (HookStart two_files # two_batches) used_hook") (simp only: option.case, simp only: option.case, blast)
  from upload_final_report [OF two_batches_run(1,2) h] h(1) show ?thesis by (simp add: two_files_def)
qed

text \<open>
  A complete upload shows all its bytes: when the status is complete every row is done and
  the loaded bytes equal the total of the batch.
\<close>

theorem upload_complete_bytes:
  assumes "reachable_upload (p, r)" and "up_status p = UComplete"
  shows "(\<forall>it \<in> set (items p). it_status it = Done) \<and> loadedBytes p = totalBytes p"
proof -
  have inv: "upload_inv (p, r)" using reachable_inv [OF assms(1)] .
  with assms(2) have fin: "finished r" by (auto simp: upload_inv_def split: if_splits)
  have "finalStatus (failed p) (succeeded p) = UComplete"
    using inv fin assms(2) by (simp add: upload_inv_def)
  then have "failed p = 0" by (simp add: finalStatus_def split: if_splits)
  moreover have "failed p = int (status_count Failed p)"
    using inv finished_counts(2,3) [OF inv fin]
    by (auto simp: upload_inv_def upload_counts_def split: run_mode.splits)
  ultimately have "status_count Done p = length (items p)" using finished_counts(4) [OF inv fin] by simp
  then have don: "\<forall>it \<in> set (items p). it_status it = Done"
    unfolding status_count_def by (rule count_if_eq_length)
  have n: "length (items p) = length (run_files r)" "loadedBytes p = sum_list (map it_loaded (items p))"
    "totalBytes p = sum_list (map snd (run_files r))"
    using inv by (simp_all add: upload_inv_def upload_shape_def)
  have "it_loaded (items p ! i) = snd (run_files r ! i)" if "i < length (run_files r)" for i
    using finished_cells(4,5) [OF inv fin that] don n(1) that by simp
  with n have "map it_loaded (items p) = map snd (run_files r)" by (intro nth_equalityI) simp_all
  with n don show ?thesis by simp
qed

lemma run_one: "run_events [EvProgress 0 4, EvError 0 ''net'', EvWake 0, EvSuccess 0, EvCount 0, EvFinish]
    (the (startUpload [(''a'', 10)])) = Some
     (\<lparr>up_status = UComplete,
       items = [\<lparr>it_name = ''a'', it_size = 10, it_loaded = 10, it_status = Done, it_error = None\<rparr>],
       totalBytes = 10, loadedBytes = 10, speedBps = 0, succeeded = 1, failed = 0\<rparr>,
      (fresh_run [(''a'', 10)])\<lparr>phases := [Counted], succeededCount := 1, slept := [500], finished := True\<rparr>)"
  by (simp add: startUpload_def queue_items_def patchItem_def patch_begin_def Let_def fresh_run_def
      phase_of_def set_phase_def MAX_RETRIES_def RETRY_DELAYS_MS_def patch_done_def count_file_def
      all_counted_def finalStatus_def)

theorem upload_complete_bytes_witness:
  "\<exists>p r. run_events [EvProgress 0 4, EvError 0 ''net'', EvWake 0, EvSuccess 0, EvCount 0, EvFinish]
     (the (startUpload [(''a'', 10)])) = Some (p, r) \<and> loadedBytes p = totalBytes p \<and> 0 < totalBytes p"
proof -
  obtain s where s: "startUpload [(''a'', 10)] = Some s" using startUpload_inv by blast
  note run = run_one [unfolded s option.sel]
  from upload_complete_bytes [OF reachable_run [OF reachable_upload.start [OF s] run]] run
  show ?thesis by (simp add: s)
qed

section \<open>Every run ends\<close>

definition is_progress :: "run_event \<Rightarrow> bool" where
  "is_progress e = (case e of EvProgress _ _ \<Rightarrow> True | _ \<Rightarrow> False)"

text \<open>The steps a file's loop can still make, and the transfers it can still start or finish.\<close>

fun phase_fuel :: "phase \<Rightarrow> nat" where
  "phase_fuel (Trying k) = 2 * (MAX_RETRIES - k) + 3"
| "phase_fuel (Backoff k) = 2 * (MAX_RETRIES - k) + 4"
| "phase_fuel (Settled ok) = 1"
| "phase_fuel _ = 0"

definition run_fuel :: "upload_run \<Rightarrow> nat" where
  "run_fuel r = sum_list (map phase_fuel (phases r)) + (if finished r then 0 else 1)"

lemma run_fuel_set:
  assumes "phase_of i r = ph" "ph \<noteq> NotInRun" "phase_fuel ph' < phase_fuel ph"
  shows "run_fuel (set_phase i ph' r) < run_fuel r"
proof -
  have i: "i < length (phases r)" "phases r ! i = ph"
    using assms(1,2) by (auto simp: phase_of_def split: if_splits)
  have "phase_fuel ph \<le> sum_list (map phase_fuel (phases r))"
    using sum_list_nth_le [of i "map phase_fuel (phases r)"] i by simp
  then have "sum_list ((map phase_fuel (phases r))[i := phase_fuel ph']) < sum_list (map phase_fuel (phases r))"
    using i assms(3) by (simp add: sum_list_update)
  then show ?thesis by (simp add: run_fuel_def set_phase_def map_update)
qed

lemma run_fuel_frame [simp]:
  "run_fuel (r\<lparr>slept := x\<rparr>) = run_fuel r" "run_fuel (r\<lparr>succeededCount := a\<rparr>) = run_fuel r"
  "run_fuel (r\<lparr>failedCount := a\<rparr>) = run_fuel r" "run_fuel (r\<lparr>newlySucceeded := a\<rparr>) = run_fuel r"
  by (simp_all add: run_fuel_def)

lemma count_file_fuel: "run_fuel (snd (count_file ok (p, r))) = run_fuel r"
  by (simp add: count_file_def split: run_mode.split)

lemma event_fuel:
  assumes "upload_event e s = Some s'" "upload_inv s"
  shows "run_fuel (snd s') + (if is_progress e then 0 else 1) \<le> run_fuel (snd s)"
proof (cases s)
  case (Pair p r)
  note inv = assms(2) [unfolded Pair] and ev = assms(1) [unfolded Pair]
  have dec: "run_fuel (set_phase i ph' r) + 1 \<le> run_fuel r"
    if "phase_of i r = ph" "ph \<noteq> NotInRun" "phase_fuel ph' < phase_fuel ph" for i ph ph'
    using run_fuel_set [OF that] by simp
  show ?thesis
  proof (cases e)
    case (EvProgress i n)
    with ev Pair show ?thesis by (auto simp: is_progress_def split: phase.splits)
  next
    case (EvSuccess i)
    with ev Pair dec [of i _ "Settled True"] show ?thesis
      by (fastforce simp: is_progress_def split: phase.splits)
  next
    case (EvError i e')
    with ev obtain k where k: "phase_of i r = Trying k" by (auto split: phase.splits)
    have "k \<le> MAX_RETRIES" using phase_active(5) [OF inv k] by simp
    then have "phase_fuel (Backoff (Suc k)) < phase_fuel (Trying k)" if "k \<noteq> MAX_RETRIES"
      using that by simp
    with ev EvError Pair k dec [OF k, of "Settled False"] dec [OF k, of "Backoff (Suc k)"] show ?thesis
      by (auto simp: is_progress_def set_phase_slept split: if_splits)
  next
    case (EvWake i)
    with ev Pair dec [of i "Backoff k" "Trying k" for k] show ?thesis
      by (auto simp: is_progress_def split: phase.splits)
  next
    case (EvCount i)
    with ev Pair dec [of i _ Counted] show ?thesis
      by (fastforce simp: is_progress_def count_file_fuel split: phase.splits)
  next
    case EvFinish
    with ev Pair show ?thesis
      by (auto simp: is_progress_def run_fuel_def split: if_splits run_mode.splits)
  qed
qed

lemma run_events_fuel:
  "upload_inv s \<Longrightarrow> run_events es s = Some s' \<Longrightarrow>
     count_if (\<lambda>e. \<not> is_progress e) es \<le> run_fuel (snd s)"
proof (induction es arbitrary: s)
  case (Cons e es)
  then obtain t where t: "upload_event e s = Some t" "run_events es t = Some s'"
    by (auto split: bind_splits)
  with Cons.IH [OF upload_event_inv [OF t(1) Cons.prems(1)] t(2)] event_fuel [OF t(1) Cons.prems(1)]
  show ?case by (auto split: if_splits)
qed simp

text \<open>
  C24. Every upload ends. An unfinished run is never stuck: some event other than byte progress is
  due; and a run over \<open>n\<close> files takes at most \<open>13 n + 1\<close> of those, however the attempts fail.
\<close>

theorem upload_run_terminates:
  "(\<forall>p r. reachable_upload (p, r) \<and> \<not> finished r \<longrightarrow>
      (\<exists>e s'. \<not> is_progress e \<and> upload_event e (p, r) = Some s')) \<and>
   (\<forall>s es s'. startUpload fs = Some s \<and> run_events es s = Some s' \<longrightarrow>
      count_if (\<lambda>e. \<not> is_progress e) es \<le> 13 * length fs + 1)"
proof (intro conjI allI impI; elim conjE)
  fix p r assume reach: "reachable_upload (p, r)" and nf: "\<not> finished r"
  have inv: "upload_inv (p, r)" using reachable_inv [OF reach] .
  show "\<exists>e s'. \<not> is_progress e \<and> upload_event e (p, r) = Some s'"
  proof (cases "all_counted r")
    case True
    with nf show ?thesis by (intro exI [of _ EvFinish]) (simp add: is_progress_def)
  next
    case False
    then obtain i where i: "i < length (phases r)" "phases r ! i \<noteq> Counted" "phases r ! i \<noteq> NotInRun"
      by (auto simp: all_counted_def in_set_conv_nth)
    then have ph: "phase_of i r = phases r ! i" by (simp add: phase_of_def)
    have "i < length (items p)" using phase_active(6) [OF inv ph i(3)] .
    with i ph show ?thesis
      by (cases "phases r ! i")
         (auto simp: is_progress_def patchItem_def Let_def intro: exI [of _ "EvSuccess i"]
           exI [of _ "EvWake i"] exI [of _ "EvCount i"])
  qed
next
  fix s es s' assume s: "startUpload fs = Some s" and run: "run_events es s = Some s'"
  have "upload_inv s" using startUpload_inv [of fs] s by auto
  from run_events_fuel [OF this run]
  have "count_if (\<lambda>e. \<not> is_progress e) es \<le> run_fuel (snd s)" .
  also have "run_fuel (snd s) = 13 * length fs + 1"
    using s by (auto simp: startUpload_def run_fuel_def fresh_run_def MAX_RETRIES_def sum_list_replicate)
  finally show "count_if (\<lambda>e. \<not> is_progress e) es \<le> 13 * length fs + 1" .
qed

theorem upload_run_terminates_witness:
  "\<exists>e s'. \<not> is_progress e \<and> upload_event e (the (startUpload [(''a'', 10), (''b'', 20)])) = Some s'"
  using upload_run_terminates [THEN conjunct1] reachable_upload.start [OF start_two]
  unfolding start_two by (simp add: fresh_run_def)

section \<open>Overlapping runs\<close>

text \<open>
  Nothing keeps a second \<open>startUpload\<close> from replacing the shared rows while a first run is
  in flight: the first run's file then lands on the second run's row, which shows as done with
  the other file's byte count while its own transfer has not finished.
\<close>

theorem overlapping_runs_share_rows:
  "\<exists>p1 r1 p2 r2 p3 r1'.
     startUpload [(''a'', 10)] = Some (p1, r1) \<and> startUpload [(''b'', 20)] = Some (p2, r2) \<and>
     upload_event (EvSuccess 0) (p2, r1) = Some (p3, r1') \<and>
     it_name (items p3 ! 0) = ''b'' \<and> it_status (items p3 ! 0) = Done \<and> it_loaded (items p3 ! 0) = 10 \<and>
     phase_of 0 r2 = Trying 0"
  by (simp add: startUpload_def queue_items_def fresh_run_def patchItem_def patch_begin_def
      patch_done_def phase_of_def set_phase_def Let_def)

section \<open>The sliding window of the speed estimate\<close>

lemma shift_old_suffix: "\<exists>n. shift_old cutoff s = drop n s \<and> (2 \<le> length s \<longrightarrow> n + 2 \<le> length s) \<and>
    (length s < 2 \<longrightarrow> n = 0)"
proof (induction cutoff s rule: shift_old.induct)
  case (1 cutoff x y z s)
  show ?case
  proof (cases "fst x < cutoff")
    case True
    with 1 obtain n where "shift_old cutoff (y # z # s) = drop n (y # z # s)" "n + 2 \<le> length (y # z # s)"
      by auto
    with True show ?thesis by (intro exI [of _ "Suc n"]) simp
  next
    case False
    then show ?thesis by (intro exI [of _ 0]) simp
  qed
qed (intro exI [of _ 0], simp)+

lemma shift_old_recent: "2 < length (shift_old cutoff s) \<Longrightarrow> cutoff \<le> fst (hd (shift_old cutoff s))"
  by (induction cutoff s rule: shift_old.induct) auto

text \<open>
  The speed is measured over a sliding window: with times that do not go back, recording a
  sample keeps the newest ones in order, drops none while there are at most two, and leaves either
  two samples or only samples of the last three seconds; the estimate is never negative.
\<close>

theorem recordSample_window:
  assumes "sorted (map fst s)" and "\<forall>x \<in> set s. fst x \<le> now"
  shows "sorted (map fst (recordSample now loaded s)) \<and>
    last (recordSample now loaded s) = (now, loaded) \<and>
    min 2 (Suc (length s)) \<le> length (recordSample now loaded s) \<and>
    (2 < length (recordSample now loaded s) \<longrightarrow>
       (\<forall>x \<in> set (recordSample now loaded s). now - SPEED_WINDOW_MS \<le> fst x)) \<and>
    0 \<le> computeSpeed (recordSample now loaded s)"
proof -
  let ?s = "s @ [(now, loaded)]" and ?c = "now - SPEED_WINDOW_MS"
  obtain n where n: "recordSample now loaded s = drop n ?s" "2 \<le> length ?s \<longrightarrow> n + 2 \<le> length ?s"
    "length ?s < 2 \<longrightarrow> n = 0"
    using shift_old_suffix [of ?c ?s] by (auto simp: recordSample_def)
  have "sorted (map fst ?s)" using assms by (simp add: sorted_append)
  then have sorted: "sorted (map fst (recordSample now loaded s))"
    by (simp only: n(1) drop_map [symmetric] sorted_wrt_drop)
  have len: "min 2 (Suc (length s)) \<le> length (recordSample now loaded s)" using n by (cases s) auto
  have "n < length ?s" using n by (cases s) auto
  then have "last (recordSample now loaded s) = (now, loaded)" using n(1) by simp
  moreover have "\<forall>x \<in> set (recordSample now loaded s). ?c \<le> fst x" if "2 < length (recordSample now loaded s)"
  proof -
    have "?c \<le> fst (hd (recordSample now loaded s))"
      using shift_old_recent that by (simp add: recordSample_def)
    moreover have "\<forall>x \<in> set (recordSample now loaded s). fst (hd (recordSample now loaded s)) \<le> fst x"
      using sorted that by (cases "recordSample now loaded s") auto
    ultimately show ?thesis by fastforce
  qed
  ultimately show ?thesis using sorted len by (simp add: computeSpeed_def Let_def)
qed

theorem recordSample_window_witness:
  "recordSample 4000 90 [(0, 0), (500, 10), (3500, 60)] = [(3500, 60), (4000, 90)] \<and>
   sorted (map fst (recordSample 4000 90 [(0, 0), (500, 10), (3500, 60)]))"
proof
  show "recordSample 4000 90 [(0, 0), (500, 10), (3500, 60)] = [(3500, 60), (4000, 90)]"
    by (simp add: recordSample_def SPEED_WINDOW_MS_def)
  have "sorted (map fst [(0, 0), (500, 10 :: nat), (3500 :: int, 60)])"
    "\<forall>x \<in> set [(0, 0), (500, 10 :: nat), (3500 :: int, 60)]. fst x \<le> 4000" by simp_all
  from recordSample_window [OF this] show "sorted (map fst (recordSample 4000 90 [(0, 0), (500, 10), (3500, 60)]))"
    by blast
qed

end
