(* ===== verification/ChunkPool.thy ===== *)
theory ChunkPool
  imports Prelude "HOL-Library.Multiset"
begin

text \<open>
  The chunked upload of one large file: \<open>uploadSingleFile\<close> in
  \<open>frontend/src/hooks/useFileUpload.ts\<close>, with the sizes of \<open>frontend/src/api/files.ts\<close>. Up to
  \<open>MAX_CONCURRENT_CHUNKS\<close> workers take chunk indices from a shared counter until it is used up or
  one of them fails.

  A worker runs without interruption between two awaits, so a step of the pool is what happens
  when the request of one worker reports progress, succeeds or fails; which worker's request
  answers next is up to the network.
\<close>

definition CHUNK_SIZE :: nat where
  "CHUNK_SIZE = 5 * 1024 * 1024"

definition MAX_CONCURRENT_CHUNKS :: nat where
  "MAX_CONCURRENT_CHUNKS = 4"

section \<open>The chunks of a file\<close>

text \<open>\<open>Math.ceil(file.size / CHUNK_SIZE)\<close>\<close>

definition totalChunks :: "nat \<Rightarrow> nat" where
  "totalChunks fsize = (fsize + CHUNK_SIZE - 1) div CHUNK_SIZE"

text \<open>\<open>file.slice(start, start + CHUNK_SIZE)\<close>, and its size; the file is its list of bytes.\<close>

definition chunk_slice :: "'a list \<Rightarrow> nat \<Rightarrow> 'a list" where
  "chunk_slice file ci = take CHUNK_SIZE (drop (ci * CHUNK_SIZE) file)"

definition chunk_size :: "nat \<Rightarrow> nat \<Rightarrow> nat" where
  "chunk_size fsize ci = min CHUNK_SIZE (fsize - ci * CHUNK_SIZE)"

text \<open>The bytes a progress event stands for, scaled to the payload and capped at it.\<close>

definition scaled_loaded :: "nat \<Rightarrow> nat \<Rightarrow> nat \<Rightarrow> nat" where
  "scaled_loaded sz loaded tot =
     (if tot > 0 then min (nat (js_round (of_nat loaded / of_nat tot * of_nat sz))) sz else loaded)"

section \<open>The pool\<close>

datatype worker = Sending nat | Returned

record pool =
  fileSize :: nat
  nextChunk :: nat
  firstError :: "string option"
  chunkLoaded :: "nat list"
  workers :: "worker list"
  issued :: "nat list"      \<comment> \<open>the chunk requests put on the wire, in order\<close>
  stored :: "nat list"      \<comment> \<open>the chunks whose request succeeded, in order\<close>

definition pool_total :: "pool \<Rightarrow> nat" where
  "pool_total p = totalChunks (fileSize p)"

text \<open>The head of the worker loop: stop on an error or when the counter is used up, else send.\<close>

definition take_chunk :: "nat \<Rightarrow> pool \<Rightarrow> pool" where
  "take_chunk w p =
     (if firstError p \<noteq> None then p\<lparr>workers := (workers p)[w := Returned]\<rparr>
      else let ci = nextChunk p; p' = p\<lparr>nextChunk := Suc ci\<rparr>
           in if ci \<ge> pool_total p then p'\<lparr>workers := (workers p)[w := Returned]\<rparr>
              else p'\<lparr>workers := (workers p)[w := Sending ci], issued := issued p @ [ci]\<rparr>)"

definition reportChunkProgress :: "nat \<Rightarrow> nat \<Rightarrow> pool \<Rightarrow> pool" where
  "reportChunkProgress ci loaded p = p\<lparr>chunkLoaded := (chunkLoaded p)[ci := loaded]\<rparr>"

datatype pool_event =
    ChunkProgress nat nat nat     \<comment> \<open>worker, \<open>xhrLoaded\<close>, \<open>xhrTotal\<close>\<close>
  | ChunkDone nat
  | ChunkError nat string

definition worker_of :: "nat \<Rightarrow> pool \<Rightarrow> worker" where
  "worker_of w p = (if w < length (workers p) then workers p ! w else Returned)"

text \<open>\<open>None\<close>: the event cannot happen, the worker has no request in flight.\<close>

fun pool_on :: "pool_event \<Rightarrow> pool \<Rightarrow> pool option" where
  "pool_on (ChunkProgress w loaded tot) p =
     (case worker_of w p of
        Sending ci \<Rightarrow> Some (reportChunkProgress ci (scaled_loaded (chunk_size (fileSize p) ci) loaded tot) p)
      | Returned \<Rightarrow> None)"
| "pool_on (ChunkDone w) p =
     (case worker_of w p of
        Sending ci \<Rightarrow>
          Some (take_chunk w
            ((reportChunkProgress ci (chunk_size (fileSize p) ci) p)\<lparr>stored := stored p @ [ci]\<rparr>))
      | Returned \<Rightarrow> None)"
| "pool_on (ChunkError w e) p =
     (case worker_of w p of
        Sending ci \<Rightarrow>
          Some (p\<lparr>firstError := (case firstError p of None \<Rightarrow> Some e | Some e' \<Rightarrow> Some e'),
                  workers := (workers p)[w := Returned]\<rparr>)
      | Returned \<Rightarrow> None)"

text \<open>\<open>Array.from({ length: workerCount }, () => chunkWorker())\<close>: every worker takes a chunk at once.\<close>

definition workerCount :: "nat \<Rightarrow> nat" where
  "workerCount fsize = min MAX_CONCURRENT_CHUNKS (totalChunks fsize)"

definition pool_start :: "nat \<Rightarrow> pool" where
  "pool_start fsize =
     fold take_chunk [0..<workerCount fsize]
       \<lparr>fileSize = fsize, nextChunk = 0, firstError = None, chunkLoaded = replicate (totalChunks fsize) 0,
        workers = replicate (workerCount fsize) Returned, issued = [], stored = []\<rparr>"

text \<open>All workers have returned: the first error is thrown, or the session is completed.\<close>

definition pool_over :: "pool \<Rightarrow> bool" where
  "pool_over p \<longleftrightarrow> (\<forall>x \<in> set (workers p). x = Returned)"

definition pool_result :: "pool \<Rightarrow> (string + unit) option" where
  "pool_result p =
     (if pool_over p then Some (case firstError p of Some e \<Rightarrow> Inl e | None \<Rightarrow> Inr ()) else None)"

inductive pool_reachable :: "nat \<Rightarrow> pool \<Rightarrow> bool" for fsize where
  pool_init: "pool_reachable fsize (pool_start fsize)"
| pool_step: "pool_reachable fsize p \<Longrightarrow> pool_on e p = Some p' \<Longrightarrow> pool_reachable fsize p'"

section \<open>Slicing\<close>

lemma CHUNK_SIZE_pos [simp]: "0 < CHUNK_SIZE"
  by (simp add: CHUNK_SIZE_def)

lemma totalChunks_covers: "fsize \<le> totalChunks fsize * CHUNK_SIZE"
proof -
  have "fsize + CHUNK_SIZE - 1 < totalChunks fsize * CHUNK_SIZE + CHUNK_SIZE"
    using div_mod_decomp [of "fsize + CHUNK_SIZE - 1" CHUNK_SIZE]
      mod_less_divisor [OF CHUNK_SIZE_pos, of "fsize + CHUNK_SIZE - 1"]
    unfolding totalChunks_def by linarith
  then show ?thesis by simp
qed

lemma chunk_start_inside: "ci < totalChunks fsize \<Longrightarrow> ci * CHUNK_SIZE < fsize"
proof (rule ccontr)
  assume ci: "ci < totalChunks fsize" and "\<not> ci * CHUNK_SIZE < fsize"
  then have "fsize + CHUNK_SIZE - 1 < ci * CHUNK_SIZE + CHUNK_SIZE" using CHUNK_SIZE_pos by linarith
  then have "fsize + CHUNK_SIZE - 1 < (ci + 1) * CHUNK_SIZE" by simp
  then have "totalChunks fsize < ci + 1" unfolding totalChunks_def by (rule less_mult_imp_div_less)
  with ci show False by simp
qed

lemma chunk_size_length: "length (chunk_slice file ci) = chunk_size (length file) ci"
  by (simp add: chunk_slice_def chunk_size_def)

lemma slices_prefix: "concat (map (chunk_slice file) [0..<n]) = take (n * CHUNK_SIZE) file"
  by (induction n) (simp_all add: chunk_slice_def take_add [symmetric] add.commute)

lemma chunk_sizes_sum: "sum_list (map (chunk_size fsize) [0..<n]) = min (n * CHUNK_SIZE) fsize"
  by (induction n) (auto simp: chunk_size_def)

lemma all_chunks_sum: "sum_list (map (chunk_size fsize) [0..<totalChunks fsize]) = fsize"
  using totalChunks_covers [of fsize] by (simp add: chunk_sizes_sum)

section \<open>The invariant of the pool\<close>

declare mset_upt [simp del]

fun sending :: "worker list \<Rightarrow> nat list" where
  "sending [] = []"
| "sending (Sending ci # ws) = ci # sending ws"
| "sending (Returned # ws) = sending ws"

lemma sending_append: "sending (xs @ ys) = sending xs @ sending ys"
  by (induction xs rule: sending.induct) simp_all

lemma sending_update:
  assumes "w < length ws"
  shows "mset (sending (ws[w := x])) + mset (sending [ws ! w]) = mset (sending ws) + mset (sending [x])"
proof -
  have "ws = take w ws @ [ws ! w] @ drop (Suc w) ws" using assms by (simp add: id_take_nth_drop)
  then have "mset (sending ws) = mset (sending (take w ws)) + mset (sending [ws ! w]) + mset (sending (drop (Suc w) ws))"
    by (metis (no_types) sending_append mset_append add.assoc)
  moreover have "mset (sending (ws[w := x])) = mset (sending (take w ws)) + mset (sending [x]) + mset (sending (drop (Suc w) ws))"
    using assms by (simp add: upd_conv_take_nth_drop sending_append del: sending.simps)
      (metis append.left_neutral append_Cons mset_append sending_append)
  ultimately show ?thesis by simp
qed

lemma sending_member: "w < length ws \<Longrightarrow> ws ! w = Sending ci \<Longrightarrow> ci \<in> set (sending ws)"
proof (induction ws arbitrary: w rule: sending.induct)
  case (2 c ws)
  then show ?case by (cases w) auto
next
  case (3 ws)
  then show ?case by (cases w) auto
qed simp

lemma sending_length: "length (sending ws) \<le> length ws"
  by (induction ws rule: sending.induct) auto

lemma sending_none: "(sending ws = []) = (\<forall>x \<in> set ws. x = Returned)"
  by (induction ws rule: sending.induct) auto

text \<open>
  The issued requests are the chunks from zero on, each once; each of them is stored, in flight, or
  was lost to an error. Workers in \<open>E\<close> have not looked at the counter yet; any other that has
  returned without an error found it used up.
\<close>

definition pool_inv :: "nat set \<Rightarrow> nat \<Rightarrow> pool \<Rightarrow> bool" where
  "pool_inv E fsize p \<longleftrightarrow>
     fileSize p = fsize \<and> length (chunkLoaded p) = totalChunks fsize \<and>
     length (workers p) = workerCount fsize \<and>
     issued p = [0..<min (nextChunk p) (totalChunks fsize)] \<and>
     mset (stored p) + mset (sending (workers p)) \<subseteq># mset (issued p) \<and>
     (firstError p = None \<longrightarrow> mset (stored p) + mset (sending (workers p)) = mset (issued p)) \<and>
     (\<forall>ci \<in> set (stored p). chunkLoaded p ! ci = chunk_size fsize ci) \<and>
     (\<forall>w \<in> E. w < length (workers p) \<longrightarrow> workers p ! w = Returned) \<and>
     (\<forall>w < length (workers p). w \<notin> E \<and> workers p ! w = Returned \<and> firstError p = None \<longrightarrow>
        totalChunks fsize \<le> nextChunk p)"

lemma take_chunk_inv:
  assumes inv: "pool_inv E fsize p" and w: "w \<in> E" "w < length (workers p)"
  shows "pool_inv (E - {w}) fsize (take_chunk w p)"
proof -
  let ?t = "totalChunks fsize" and ?ci = "nextChunk p"
  have ret: "workers p ! w = Returned" using inv w by (simp add: pool_inv_def)
  then have same: "(workers p)[w := Returned] = workers p" by (metis list_update_id)
  have upd: "mset (sending ((workers p)[w := Sending ?ci])) = mset (sending (workers p)) + {#?ci#}"
    using sending_update [OF w(2), of "Sending ?ci"] ret by simp
  consider (err) "firstError p \<noteq> None" | (used) "firstError p = None" "?ci \<ge> ?t"
    | (send) "firstError p = None" "?ci < ?t" by linarith
  then show ?thesis
  proof cases
    case err
    then have "take_chunk w p = p" by (simp add: take_chunk_def same)
    with err inv show ?thesis by (auto simp: pool_inv_def)
  next
    case used
    then have "take_chunk w p = p\<lparr>nextChunk := Suc ?ci\<rparr>"
      using inv by (simp add: take_chunk_def Let_def same pool_inv_def pool_total_def)
    with used inv show ?thesis by (auto simp: pool_inv_def)
  next
    case send
    then have tk: "take_chunk w p = p\<lparr>nextChunk := Suc ?ci,
        workers := (workers p)[w := Sending ?ci], issued := issued p @ [?ci]\<rparr>"
      using inv by (simp add: take_chunk_def Let_def pool_inv_def pool_total_def)
    have "min (Suc ?ci) ?t = Suc ?ci" "min ?ci ?t = ?ci" using send by simp_all
    with send inv w upd tk show ?thesis by (auto simp: pool_inv_def nth_list_update)
  qed
qed

lemma take_chunk_length [simp]: "length (workers (take_chunk w p)) = length (workers p)"
  by (simp add: take_chunk_def Let_def)

lemma take_all_inv:
  "n \<le> workerCount fsize \<Longrightarrow> pool_inv {0..<workerCount fsize} fsize p \<Longrightarrow>
     pool_inv {n..<workerCount fsize} fsize (fold take_chunk [0..<n] p)"
proof (induction n)
  case (Suc n)
  then have inv: "pool_inv {n..<workerCount fsize} fsize (fold take_chunk [0..<n] p)" by simp
  moreover have "n < length (workers (fold take_chunk [0..<n] p))"
    using inv Suc.prems(1) by (simp add: pool_inv_def)
  moreover have "{n..<workerCount fsize} - {n} = {Suc n..<workerCount fsize}" by auto
  ultimately show ?case using take_chunk_inv [of "{n..<workerCount fsize}" fsize _ n] Suc.prems(1) by simp
qed simp

lemma sending_returned: "sending (replicate n Returned) = []"
  by (induction n) simp_all

lemma pool_start_inv: "pool_inv {} fsize (pool_start fsize)"
  unfolding pool_start_def
  by (rule take_all_inv [of "workerCount fsize" fsize, simplified])
     (simp add: pool_inv_def sending_returned)

lemma take_chunk_overwrite: "take_chunk w (p\<lparr>workers := (workers p)[w := x]\<rparr>) = take_chunk w p"
  by (simp add: take_chunk_def Let_def pool_total_def)

lemma sending_facts:
  assumes inv: "pool_inv E fsize p" and w: "worker_of w p = Sending ci"
  shows "w < length (workers p)" "workers p ! w = Sending ci" "ci < totalChunks fsize" "ci \<notin> set (stored p)"
    "w \<notin> E"
proof -
  show w': "w < length (workers p)" "workers p ! w = Sending ci"
    using w by (simp_all add: worker_of_def split: if_splits)
  then show "w \<notin> E" using inv by (auto simp: pool_inv_def)
  have ci: "ci \<in># mset (sending (workers p))" using sending_member [OF w'] by simp
  have sub: "mset (stored p) + mset (sending (workers p)) \<subseteq># mset (issued p)"
    and iss: "issued p = [0..<min (nextChunk p) (totalChunks fsize)]"
    using inv unfolding pool_inv_def by blast+
  then have "ci \<in># mset (issued p)" using ci by (meson mset_subset_eqD union_iff)
  then show "ci < totalChunks fsize" by (simp add: iss)
  show "ci \<notin> set (stored p)"
  proof
    assume "ci \<in> set (stored p)"
    then have "0 < count (mset (stored p)) ci" by simp
    moreover have "0 < count (mset (sending (workers p))) ci" using ci by simp
    ultimately have "2 \<le> count (mset (stored p) + mset (sending (workers p))) ci"
      unfolding count_union by linarith
    also have "\<dots> \<le> count (mset (issued p)) ci"
      using sub by (rule mset_subset_eq_count)
    also have "\<dots> \<le> 1"
      using distinct_count_atmost_1 [of "issued p"] by (simp add: iss del: mset_upt)
    finally show False by simp
  qed
qed

lemma pool_on_inv:
  assumes "pool_on e p = Some p'" "pool_inv {} fsize p"
  shows "pool_inv {} fsize p'"
proof (cases e)
  case (ChunkProgress w loaded tot)
  with assms(1) obtain ci where ci: "worker_of w p = Sending ci"
    "p' = reportChunkProgress ci (scaled_loaded (chunk_size (fileSize p) ci) loaded tot) p"
    by (auto split: worker.splits)
  have "(chunkLoaded p)[ci := x] ! c = chunkLoaded p ! c" if "c \<in> set (stored p)" for c x
    using that sending_facts(4) [OF assms(2) ci(1)] by (metis nth_list_update_neq)
  with assms(2) ci(2) show ?thesis by (auto simp: pool_inv_def reportChunkProgress_def)
next
  case (ChunkDone w)
  with assms(1) obtain ci where ci: "worker_of w p = Sending ci"
    "p' = take_chunk w ((reportChunkProgress ci (chunk_size (fileSize p) ci) p)\<lparr>stored := stored p @ [ci]\<rparr>)"
    by (auto split: worker.splits)
  note f = sending_facts [OF assms(2) ci(1)]
  let ?p = "(reportChunkProgress ci (chunk_size (fileSize p) ci) p)
      \<lparr>stored := stored p @ [ci], workers := (workers p)[w := Returned]\<rparr>"
  have upd: "mset (sending ((workers p)[w := Returned])) + {#ci#} = mset (sending (workers p))"
    using sending_update [OF f(1), of Returned] f(2) by simp
  have upd': "add_mset ci (mset (stored p) + mset (sending ((workers p)[w := Returned])))
      = mset (stored p) + mset (sending (workers p))"
    by (simp add: upd [symmetric])
  have keep: "(chunkLoaded p)[ci := x] ! c = chunkLoaded p ! c" if "c \<in> set (stored p)" for c x
    using that f(4) by (metis nth_list_update_neq)
  have "length (chunkLoaded p) = totalChunks fsize" using assms(2) by (simp add: pool_inv_def)
  then have here: "(chunkLoaded p)[ci := x] ! ci = x" for x using f(3) by simp
  have "pool_inv {w} fsize ?p"
    unfolding pool_inv_def using assms(2) f(1)
    by (auto simp: reportChunkProgress_def pool_inv_def upd' keep here)
  from take_chunk_inv [OF this, of w] f(1) have "pool_inv {} fsize (take_chunk w ?p)"
    by (simp add: reportChunkProgress_def)
  moreover have "take_chunk w ?p = p'"
    unfolding ci(2) by (subst take_chunk_overwrite [symmetric, where x = Returned])
      (simp add: reportChunkProgress_def)
  ultimately show ?thesis by simp
next
  case (ChunkError w e')
  with assms(1) obtain ci where ci: "worker_of w p = Sending ci"
    "p' = p\<lparr>firstError := (case firstError p of None \<Rightarrow> Some e' | Some e' \<Rightarrow> Some e'),
          workers := (workers p)[w := Returned]\<rparr>"
    by (auto split: worker.splits)
  note f = sending_facts [OF assms(2) ci(1)]
  have "mset (sending ((workers p)[w := Returned])) \<subseteq># mset (sending (workers p))"
    using sending_update [OF f(1), of Returned] f(2) by (metis add.right_neutral mset.simps(1)
        mset_subset_eq_add_left sending.simps(1,3))
  moreover have "mset (stored p) + mset (sending (workers p)) \<subseteq># mset (issued p)"
    using assms(2) unfolding pool_inv_def by blast
  ultimately have "mset (stored p) + mset (sending ((workers p)[w := Returned])) \<subseteq># mset (issued p)"
    by (meson mset_subset_eq_mono_add_left_cancel subset_mset.order_trans)
  with assms(2) ci(2) show ?thesis by (simp add: pool_inv_def split: option.split)
qed

lemma pool_reachable_inv: "pool_reachable fsize p \<Longrightarrow> pool_inv {} fsize p"
  by (induction rule: pool_reachable.induct) (simp_all add: pool_start_inv pool_on_inv)

section \<open>What the pool guarantees\<close>

text \<open>
  C3. Chunk requests go out in order and each at most once: at any time the requests issued are
  those of the chunks \<open>0, 1, ..., n - 1\<close>, with at most four of them in flight.
\<close>

theorem chunks_issued_once_in_order:
  assumes "pool_reachable fsize p"
  shows "issued p = [0..<length (issued p)] \<and> length (issued p) \<le> totalChunks fsize \<and>
         length (sending (workers p)) \<le> MAX_CONCURRENT_CHUNKS"
proof -
  have inv: "pool_inv {} fsize p" using pool_reachable_inv [OF assms] .
  then have "length (sending (workers p)) \<le> workerCount fsize"
    using sending_length [of "workers p"] by (simp add: pool_inv_def)
  with inv show ?thesis by (simp add: pool_inv_def workerCount_def)
qed

definition example_size :: nat where
  "example_size = 10485761"

lemma totalChunks_example: "totalChunks example_size = 3"
  by (simp add: totalChunks_def CHUNK_SIZE_def example_size_def)

lemma pool_start_12: "pool_start example_size =
    \<lparr>fileSize = example_size, nextChunk = 3, firstError = None, chunkLoaded = [0, 0, 0],
     workers = [Sending 0, Sending 1, Sending 2], issued = [0, 1, 2], stored = []\<rparr>"
  by (simp add: pool_start_def workerCount_def totalChunks_example MAX_CONCURRENT_CHUNKS_def
      take_chunk_def pool_total_def numeral_2_eq_2 numeral_3_eq_3 Let_def)

lemmas pool_eval = pool_start_12 worker_of_def reportChunkProgress_def take_chunk_def pool_total_def
  totalChunks_example pool_result_def pool_over_def numeral_2_eq_2 numeral_3_eq_3 Let_def

theorem chunks_issued_once_in_order_witness:
  "length (issued (pool_start (example_size))) = 3 \<and>
   issued (pool_start (example_size)) = [0..<length (issued (pool_start (example_size)))]"
  using chunks_issued_once_in_order [OF pool_reachable.pool_init, of "example_size"]
  by (simp add: pool_start_12)

text \<open>
  C2. A session is completed only when it is whole: if all workers return without an error, every
  chunk of the file was stored exactly once, in whatever order, every chunk's progress is its
  size, and together they are the size of the file.
\<close>

theorem completed_pool_stored_every_chunk:
  assumes "pool_reachable fsize p" and "pool_result p = Some (Inr ())"
  shows "mset (stored p) = mset [0..<totalChunks fsize] \<and>
         chunkLoaded p = map (chunk_size fsize) [0..<totalChunks fsize] \<and>
         sum_list (chunkLoaded p) = fsize"
proof -
  have inv: "pool_inv {} fsize p" using pool_reachable_inv [OF assms(1)] .
  have over: "\<forall>x \<in> set (workers p). x = Returned" "firstError p = None"
    using assms(2) by (auto simp: pool_result_def pool_over_def split: if_splits option.splits)
  then have "sending (workers p) = []" by (simp add: sending_none)
  with inv over(2) have st: "mset (stored p) = mset (issued p)" by (simp add: pool_inv_def)
  have "totalChunks fsize \<le> nextChunk p"
  proof (cases "totalChunks fsize = 0")
    case False
    then have "0 < length (workers p)"
      using inv by (simp add: pool_inv_def workerCount_def MAX_CONCURRENT_CHUNKS_def)
    with inv over show ?thesis by (auto simp: pool_inv_def)
  qed simp
  then have iss: "issued p = [0..<totalChunks fsize]" using inv by (simp add: pool_inv_def)
  then have "set (stored p) = {0..<totalChunks fsize}" using st by (metis atLeastLessThan_upt set_mset_mset)
  then have "chunkLoaded p = map (chunk_size fsize) [0..<totalChunks fsize]"
    using inv by (intro nth_equalityI) (auto simp: pool_inv_def)
  with st iss show ?thesis by (simp add: all_chunks_sum)
qed

fun pool_run :: "pool_event list \<Rightarrow> pool \<Rightarrow> pool option" where
  "pool_run [] p = Some p"
| "pool_run (e # es) p = Option.bind (pool_on e p) (pool_run es)"

lemma pool_run_reachable: "pool_reachable n p \<Longrightarrow> pool_run es p = Some p' \<Longrightarrow> pool_reachable n p'"
proof (induction es arbitrary: p)
  case (Cons e es)
  then obtain q where "pool_on e p = Some q" "pool_run es q = Some p'" by (auto split: bind_splits)
  with Cons show ?case by (blast intro: pool_reachable.pool_step)
qed simp

lemma pool_run_12: "\<exists>p. pool_run [ChunkDone 2, ChunkProgress 0 50 100, ChunkDone 1, ChunkDone 0]
     (pool_start (example_size)) = Some p \<and> pool_result p = Some (Inr ()) \<and> stored p = [2, 1, 0]"
  by (simp add: pool_eval)

theorem completed_pool_stored_every_chunk_witness:
  "\<exists>p :: pool. stored p = [2, 1, 0] \<and> mset (stored p) = mset [0..<totalChunks (example_size)]"
proof -
  obtain p where p: "pool_run [ChunkDone 2, ChunkProgress 0 50 100, ChunkDone 1, ChunkDone 0]
     (pool_start (example_size)) = Some p" "pool_result p = Some (Inr ())" "stored p = [2, 1, 0]"
    using pool_run_12 by blast
  from completed_pool_stored_every_chunk [OF pool_run_reachable [OF pool_init p(1)] p(2)]
  have "mset (stored p) = mset [0..<totalChunks example_size]" by (rule conjunct1)
  with p(3) show ?thesis by blast
qed

text \<open>
  C26. The chunks reassemble to the file: the slices in index order concatenate to exactly its
  bytes, and none of them is empty or longer than \<open>CHUNK_SIZE\<close>.
\<close>

theorem chunk_slices_reassemble:
  "concat (map (chunk_slice file) [0..<totalChunks (length file)]) = file \<and>
   (\<forall>ci < totalChunks (length file). 0 < length (chunk_slice file ci) \<and>
      length (chunk_slice file ci) \<le> CHUNK_SIZE)"
  using chunk_start_inside [of _ "length file"] totalChunks_covers [of "length file"]
  by (auto simp: slices_prefix chunk_slice_def)

theorem chunk_slices_reassemble_witness:
  "0 < length (chunk_slice [1::nat, 2, 3] 0)"
  using chunk_slices_reassemble [of "[1::nat, 2, 3]"] by (simp add: totalChunks_def CHUNK_SIZE_def)

lemma firstError_kept: "pool_on e p = Some p' \<Longrightarrow> firstError p = Some x \<Longrightarrow>
    firstError p' = Some x \<and> issued p' = issued p"
  by (cases e) (auto simp: reportChunkProgress_def take_chunk_def split: worker.splits)

text \<open>
  An error stops the pool: after the first error no further chunk is requested, the error
  that is thrown is that first one, and the session is never completed.
\<close>

theorem first_error_stops_pool:
  assumes "pool_on (ChunkError w e) p = Some q" and "firstError p = None" and "pool_run es q = Some p'"
  shows "issued p' = issued p \<and> firstError p' = Some e \<and> pool_result p' \<noteq> Some (Inr ()) \<and>
         (pool_over p' \<longrightarrow> pool_result p' = Some (Inl e))"
proof -
  have "firstError q = Some e" "issued q = issued p"
    using assms(1,2) by (auto split: worker.splits)
  moreover have "firstError q = Some e \<Longrightarrow> firstError p' = Some e \<and> issued p' = issued q"
    using assms(3)
  proof (induction es arbitrary: q)
    case (Cons ev es)
    then obtain t where "pool_on ev q = Some t" "pool_run es t = Some p'" by (auto split: bind_splits)
    with Cons firstError_kept show ?case by metis
  qed simp
  ultimately show ?thesis by (simp add: pool_result_def)
qed

theorem first_error_stops_pool_witness:
  "\<exists>q p'. pool_on (ChunkError 1 ''net'') (pool_start (example_size)) = Some q \<and>
     pool_run [ChunkDone 0, ChunkError 2 ''late''] q = Some p' \<and> pool_result p' = Some (Inl ''net'')"
proof -
  let ?p = "pool_start (example_size)"
  have "firstError ?p = None" by (simp add: pool_start_12)
  moreover obtain q p' where q: "pool_on (ChunkError 1 ''net'') ?p = Some q"
    "pool_run [ChunkDone 0, ChunkError 2 ''late''] q = Some p'" "pool_over p'"
    by (simp add: pool_eval)
  ultimately show ?thesis using first_error_stops_pool [OF q(1) _ q(2)] by blast
qed

section \<open>Progress never exceeds the file, and the pool ends\<close>

lemma scaled_loaded_le: "0 < tot \<Longrightarrow> scaled_loaded sz loaded tot \<le> sz"
  by (simp add: scaled_loaded_def)

definition computable :: "pool_event \<Rightarrow> bool" where
  "computable e = (case e of ChunkProgress _ _ tot \<Rightarrow> 0 < tot | _ \<Rightarrow> True)"

definition pool_bounded :: "pool \<Rightarrow> bool" where
  "pool_bounded p \<longleftrightarrow> (\<forall>ci < length (chunkLoaded p). chunkLoaded p ! ci \<le> chunk_size (fileSize p) ci)"

lemma pool_bounded_take [simp]: "pool_bounded (take_chunk w p) = pool_bounded p"
  by (simp add: pool_bounded_def take_chunk_def Let_def)

lemma pool_bounded_report:
  "pool_bounded p \<Longrightarrow> n \<le> chunk_size (fileSize p) ci \<Longrightarrow> pool_bounded (reportChunkProgress ci n p)"
  by (cases "ci < length (chunkLoaded p)")
     (auto simp: pool_bounded_def reportChunkProgress_def nth_list_update)

lemma pool_bounded_frame [simp]:
  "pool_bounded (p\<lparr>stored := x\<rparr>) = pool_bounded p" "pool_bounded (p\<lparr>firstError := e\<rparr>) = pool_bounded p"
  "pool_bounded (p\<lparr>workers := ws\<rparr>) = pool_bounded p"
  by (simp_all add: pool_bounded_def)

lemma pool_bounded_on: "pool_on e p = Some p' \<Longrightarrow> computable e \<Longrightarrow> pool_bounded p \<Longrightarrow> pool_bounded p'"
  by (cases e) (auto simp: computable_def pool_bounded_report scaled_loaded_le split: worker.splits)

lemma pool_bounded_run:
  "pool_run es p = Some p' \<Longrightarrow> list_all computable es \<Longrightarrow> pool_bounded p \<Longrightarrow> pool_bounded p'"
proof (induction es arbitrary: p)
  case (Cons e es)
  then obtain q where "pool_on e p = Some q" "pool_run es q = Some p'" by (auto split: bind_splits)
  with Cons pool_bounded_on show ?case by auto
qed simp

lemma pool_bounded_start: "pool_bounded (pool_start fsize)"
proof -
  have "pool_bounded (fold take_chunk ws p) = pool_bounded p" for ws p
    by (induction ws arbitrary: p) simp_all
  then show ?thesis by (simp add: pool_start_def pool_bounded_def)
qed

text \<open>
  While a chunked upload runs, the bytes shown never exceed the size of the file, whatever
  the XHR events report for the multipart bodies (which are larger than the chunks).
\<close>

theorem pool_progress_bounded:
  assumes "pool_run es (pool_start fsize) = Some p" and "list_all computable es"
  shows "sum_list (chunkLoaded p) \<le> fsize"
proof -
  have b: "pool_bounded p" using pool_bounded_run [OF assms pool_bounded_start] .
  have inv: "pool_inv {} fsize p"
    using pool_reachable_inv [OF pool_run_reachable [OF pool_init assms(1)]] .
  then have "sum_list (chunkLoaded p) \<le> sum_list (map (chunk_size fsize) [0..<totalChunks fsize])"
    using b by (intro sum_list_le_pointwise) (auto simp: pool_inv_def pool_bounded_def)
  then show ?thesis by (simp add: all_chunks_sum)
qed

theorem pool_progress_bounded_witness:
  "\<exists>p. pool_run [ChunkProgress 2 900 300, ChunkDone 1] (pool_start (example_size)) = Some p \<and>
     sum_list (chunkLoaded p) \<le> example_size"
proof -
  obtain p where p: "pool_run [ChunkProgress 2 900 300, ChunkDone 1] (pool_start (example_size)) = Some p"
    by (simp add: pool_eval)
  from pool_progress_bounded [OF p] show ?thesis using p by (simp add: computable_def)
qed

end
