(* ===== verification/BackupControl.thy ===== *)
theory BackupControl
  imports Prelude
begin

text \<open>
  The pause / resume / cancel handle of a running backup, \<open>frontend/src/api/backupControl.ts\<close>.

  The object is a state machine over its three states, its listeners, and the \<open>gate()\<close> calls
  parked while paused. A gate call is named by a number. Resuming resolves the promises the parked
  calls wait for; each call continues in a microtask of its own and looks at the state again, so
  a released call that has not continued yet is part of the state (\<open>released\<close>). What the calls
  returned and what the listeners were told is recorded in order.
\<close>

datatype control_state = Running | Paused | Cancelled

record control =
  cstate :: control_state
  listeners :: "nat list"                       \<comment> \<open>in insertion order, without duplicates\<close>
  waiters :: "nat list"                         \<comment> \<open>parked gate calls\<close>
  released :: "nat list"                        \<comment> \<open>resolved, about to look again\<close>
  answers :: "(nat \<times> bool) list"                \<comment> \<open>what each gate call returned\<close>
  notified :: "(nat \<times> control_state) list"

definition createBackupControl :: control where
  "createBackupControl = \<lparr>cstate = Running, listeners = [], waiters = [], released = [],
     answers = [], notified = []\<rparr>"

text \<open>\<open>set(next)\<close>\<close>

definition set_state :: "control_state \<Rightarrow> control \<Rightarrow> control" where
  "set_state nxt c =
     (if cstate c = nxt \<or> cstate c = Cancelled then c
      else let c1 = c\<lparr>cstate := nxt\<rparr>;
               c2 = (if nxt \<noteq> Paused then c1\<lparr>waiters := [], released := released c1 @ waiters c1\<rparr> else c1)
           in c2\<lparr>notified := notified c2 @ map (\<lambda>l. (l, cstate c2)) (listeners c2)\<rparr>)"

definition isPaused :: "control \<Rightarrow> bool" where
  "isPaused c \<longleftrightarrow> cstate c = Paused"

definition isCancelled :: "control \<Rightarrow> bool" where
  "isCancelled c \<longleftrightarrow> cstate c = Cancelled"

definition pause :: "control \<Rightarrow> control" where
  "pause = set_state Paused"

definition resume :: "control \<Rightarrow> control" where
  "resume = set_state Running"

definition cancel :: "control \<Rightarrow> control" where
  "cancel = set_state Cancelled"

text \<open>The body of \<open>gate()\<close> from the test of its loop: park, or answer.\<close>

definition gate :: "nat \<Rightarrow> control \<Rightarrow> control" where
  "gate g c =
     (if cstate c = Paused then c\<lparr>waiters := waiters c @ [g]\<rparr>
      else c\<lparr>answers := answers c @ [(g, cstate c \<noteq> Cancelled)]\<rparr>)"

definition gate_continue :: "nat \<Rightarrow> control \<Rightarrow> control" where
  "gate_continue g c = gate g (c\<lparr>released := remove1 g (released c)\<rparr>)"

definition subscribe :: "nat \<Rightarrow> control \<Rightarrow> control" where
  "subscribe l c = (if l \<in> set (listeners c) then c else c\<lparr>listeners := listeners c @ [l]\<rparr>)"

definition unsubscribe :: "nat \<Rightarrow> control \<Rightarrow> control" where
  "unsubscribe l c = c\<lparr>listeners := remove1 l (listeners c)\<rparr>"

section \<open>The machine\<close>

datatype control_event =
    CPause | CResume | CCancel | CGate nat | CContinue nat | CSubscribe nat | CUnsubscribe nat

definition gate_calls :: "control \<Rightarrow> nat set" where
  "gate_calls c = set (waiters c) \<union> set (released c) \<union> fst ` set (answers c)"

text \<open>Every call of \<open>gate()\<close> is a new call; only a released call can continue.\<close>

inductive control_step :: "control \<Rightarrow> control_event \<Rightarrow> control \<Rightarrow> bool" where
  "control_step c CPause (pause c)"
| "control_step c CResume (resume c)"
| "control_step c CCancel (cancel c)"
| "g \<notin> gate_calls c \<Longrightarrow> control_step c (CGate g) (gate g c)"
| "g \<in> set (released c) \<Longrightarrow> control_step c (CContinue g) (gate_continue g c)"
| "control_step c (CSubscribe l) (subscribe l c)"
| "control_step c (CUnsubscribe l) (unsubscribe l c)"

inductive_cases control_stepE: "control_step c e c'"

inductive control_reachable :: "control \<Rightarrow> bool" where
  init: "control_reachable createBackupControl"
| step: "control_reachable c \<Longrightarrow> control_step c e c' \<Longrightarrow> control_reachable c'"

lemmas control_defs = set_state_def pause_def resume_def cancel_def gate_def gate_continue_def
  subscribe_def unsubscribe_def Let_def

text \<open>
  Calls are parked only while the run is paused; a call is in one place only; a listener is
  registered once.
\<close>

definition control_inv :: "control \<Rightarrow> bool" where
  "control_inv c \<longleftrightarrow>
     (waiters c \<noteq> [] \<longrightarrow> cstate c = Paused) \<and>
     distinct (waiters c @ released c @ map fst (answers c)) \<and>
     distinct (listeners c)"

lemma control_inv_init: "control_inv createBackupControl"
  by (simp add: control_inv_def createBackupControl_def)

lemma control_inv_step: "control_step c e c' \<Longrightarrow> control_inv c \<Longrightarrow> control_inv c'"
  by (erule control_stepE)
     (auto simp: control_inv_def control_defs gate_calls_def distinct_remove1 set_remove1_eq)

lemma control_reachable_inv: "control_reachable c \<Longrightarrow> control_inv c"
  by (induction rule: control_reachable.induct) (auto intro: control_inv_init control_inv_step)

section \<open>Properties\<close>

text \<open>
  Cancelling is final: once a run is cancelled no pause, resume or cancel changes the state
  or tells a listener anything, and every gate call made or continued from then on returns false.
\<close>

theorem cancelled_is_final:
  assumes "cstate c = Cancelled"
  shows "pause c = c \<and> resume c = c \<and> cancel c = c \<and>
         answers (gate g c) = answers c @ [(g, False)] \<and>
         answers (gate_continue g c) = answers c @ [(g, False)]"
  using assms by (simp add: control_defs)

theorem cancelled_is_final_witness:
  "resume (cancel (pause createBackupControl)) = cancel (pause createBackupControl)"
  using cancelled_is_final [of "cancel (pause createBackupControl)"]
  by (simp add: control_defs createBackupControl_def)

text \<open>
  C23. A gate lets an item through only while the run is running: the answer true is added by a
  step exactly when the state is running at that step, and parked calls are answered by no step
  until they are released.
\<close>

theorem gate_opens_only_when_running:
  assumes "control_step c e c'" and "answers c' \<noteq> answers c"
  shows "\<exists>g b. answers c' = answers c @ [(g, b)] \<and> (e = CGate g \<or> e = CContinue g) \<and>
           cstate c' = cstate c \<and> cstate c \<noteq> Paused \<and> (b \<longleftrightarrow> cstate c = Running)"
  using assms by (cases "cstate c") (auto elim!: control_stepE simp: control_defs split: if_splits)

theorem gate_opens_only_when_running_witness:
  "\<exists>g b. answers (gate 7 createBackupControl) = answers createBackupControl @ [(g, b)] \<and>
     cstate createBackupControl = Running"
proof -
  have "control_step createBackupControl (CGate 7) (gate 7 createBackupControl)"
    by (rule control_step.intros) (simp add: gate_calls_def createBackupControl_def)
  from gate_opens_only_when_running [OF this] show ?thesis
    by (simp add: gate_def createBackupControl_def)
qed

text \<open>Running the continuations of released calls.\<close>

definition drain :: "control \<Rightarrow> control" where
  "drain c = fold gate_continue (released c) c"

lemma drain_unpaused:
  "cstate c \<noteq> Paused \<Longrightarrow> distinct (released c) \<Longrightarrow>
     drain c = c\<lparr>released := [], answers := answers c @ map (\<lambda>g. (g, cstate c \<noteq> Cancelled)) (released c)\<rparr>"
proof -
  have "cstate c \<noteq> Paused \<Longrightarrow> released c = gs \<Longrightarrow> distinct gs \<Longrightarrow>
    fold gate_continue gs c = c\<lparr>released := [], answers := answers c @ map (\<lambda>g. (g, cstate c \<noteq> Cancelled)) gs\<rparr>"
    for gs c
  proof (induction gs arbitrary: c)
    case (Cons g gs)
    have "released (gate_continue g c) = gs" "cstate (gate_continue g c) = cstate c"
      using Cons.prems by (simp_all add: control_defs)
    with Cons.IH [of "gate_continue g c"] Cons.prems show ?case
      by (simp add: control_defs)
  qed (cases c, simp)
  then show "cstate c \<noteq> Paused \<Longrightarrow> distinct (released c) \<Longrightarrow> ?thesis" by (simp add: drain_def)
qed

text \<open>
  C22. No gate call is lost: in every reachable state, resuming or cancelling answers all the
  calls parked or released so far, in the order they were released and parked, and leaves none waiting. After a resume the
  answer is true (false when the run had been cancelled before), after a cancel it is false.
\<close>

theorem resume_and_cancel_answer_all_gates:
  assumes "control_reachable c"
  shows "waiters (drain (resume c)) = [] \<and> released (drain (resume c)) = [] \<and>
         answers (drain (resume c)) = answers c @ map (\<lambda>g. (g, cstate c \<noteq> Cancelled)) (released c @ waiters c) \<and>
         waiters (drain (cancel c)) = [] \<and> released (drain (cancel c)) = [] \<and>
         answers (drain (cancel c)) = answers c @ map (\<lambda>g. (g, False)) (released c @ waiters c)"
proof -
  have inv: "distinct (released c @ waiters c)" "cstate c \<noteq> Paused \<longrightarrow> waiters c = []"
    using control_reachable_inv [OF assms] by (auto simp: control_inv_def)
  then show ?thesis
    by (cases "cstate c") (simp_all add: drain_unpaused resume_def cancel_def set_state_def Let_def)
qed

lemma two_parked: "control_reachable (gate 2 (gate 1 (pause createBackupControl)))"
proof -
  have "control_reachable (pause createBackupControl)"
    by (rule control_reachable.step [OF control_reachable.init control_step.intros(1)])
  moreover have "1 \<notin> gate_calls (pause createBackupControl)"
    "2 \<notin> gate_calls (gate 1 (pause createBackupControl))"
    by (simp_all add: gate_calls_def control_defs createBackupControl_def)
  ultimately show ?thesis
    by (intro control_reachable.step [OF _ control_step.intros(4)])
qed

theorem resume_and_cancel_answer_all_gates_witness:
  "answers (drain (cancel (gate 2 (gate 1 (pause createBackupControl))))) = [(1, False), (2, False)]"
  using resume_and_cancel_answer_all_gates [OF two_parked]
  by (simp add: control_defs createBackupControl_def)

text \<open>
  Listeners see every change and nothing else: an operation that changes the state tells each
  listener the new state once, in subscription order, and one that does not tells nobody.
\<close>

theorem listeners_told_of_each_change:
  assumes "control_step c e c'"
  shows "notified c' = notified c @
    (if cstate c' \<noteq> cstate c then map (\<lambda>l. (l, cstate c')) (listeners c) else [])"
  using assms by (cases rule: control_step.cases) (auto simp: control_defs)

theorem listeners_told_of_each_change_witness:
  "notified (pause (subscribe 3 createBackupControl)) = [(3, Paused)]"
  using listeners_told_of_each_change [OF control_step.intros(1), of "subscribe 3 createBackupControl"]
  by (simp add: control_defs createBackupControl_def)

end
