(* ===== verification/Paging.thy ===== *)
theory Paging
  imports Prelude
begin

text \<open>
  Two contracts the backup and listing code shares.

  \<^item> \<open>token_paging\<close>: a listing that fetches page after page, each page naming the token of the
    next, while its caller wants more. A server may hand out tokens for ever, so the loops carry
    fuel, one unit per page; \<open>None\<close> is a loop that has not ended with it.
  \<^item> \<open>gated_run\<close>: a sequential run over a list that asks a gate before each item and stops,
    keeping what it has, at the first refusal. \<open>counted_run\<close> adds the three outcome counters.
\<close>

section \<open>Listing by page tokens\<close>

locale token_paging =
  fixes loop :: "nat \<Rightarrow> nat \<Rightarrow> 't option \<Rightarrow> 'a list \<Rightarrow> ('e + 'a list \<times> 't option) option"
    and page :: "nat \<Rightarrow> 't option \<Rightarrow> 'e + 'a list \<times> 't option"
    and wants :: "'a list \<Rightarrow> bool"
  assumes loop_0: "loop 0 k t acc = None"
    and loop_enough: "\<not> wants acc \<Longrightarrow> loop (Suc f) k t acc = Some (Inr (acc, t))"
    and loop_error: "wants acc \<Longrightarrow> page k t = Inl e \<Longrightarrow> loop (Suc f) k t acc = Some (Inl e)"
    and loop_last: "wants acc \<Longrightarrow> page k t = Inr (xs, None) \<Longrightarrow>
      loop (Suc f) k t acc = Some (Inr (acc @ xs, None))"
    and loop_next: "wants acc \<Longrightarrow> page k t = Inr (xs, Some t') \<Longrightarrow>
      loop (Suc f) k t acc = loop f (Suc k) (Some t') (acc @ xs)"
begin

lemma loop_cases:
  "loop (Suc f) k t acc =
     (if \<not> wants acc then Some (Inr (acc, t))
      else case page k t of
             Inl e \<Rightarrow> Some (Inl e)
           | Inr (xs, None) \<Rightarrow> Some (Inr (acc @ xs, None))
           | Inr (xs, Some t') \<Rightarrow> loop f (Suc k) (Some t') (acc @ xs))"
proof (cases "wants acc")
  case True
  show ?thesis
  proof (cases "page k t")
    case (Inl e)
    with True show ?thesis by (simp add: loop_error)
  next
    case (Inr y)
    then obtain xs t' where "page k t = Inr (xs, t')" by (cases y) auto
    with True show ?thesis by (cases t') (simp_all add: loop_last loop_next)
  qed
qed (simp add: loop_enough)

text \<open>More fuel does not change a result.\<close>

lemma loop_mono: "loop f k t acc = Some r \<Longrightarrow> f \<le> f' \<Longrightarrow> loop f' k t acc = Some r"
proof (induction f arbitrary: f' k t acc)
  case 0
  then show ?case by (simp add: loop_0)
next
  case (Suc f)
  then obtain g where "f' = Suc g" "f \<le> g" by (cases f') auto
  with Suc show ?case by (auto simp: loop_cases split: sum.splits option.splits if_splits)
qed

text \<open>A listing that wants fewer than \<open>cap\<close> items ends within \<open>cap\<close> pages that are not empty.\<close>

lemma loop_ends:
  assumes wants: "\<And>acc. wants acc \<Longrightarrow> length acc < cap"
    and nonempty: "\<And>k t xs t'. page k t = Inr (xs, Some t') \<Longrightarrow> xs \<noteq> []"
  shows "cap - length acc < f \<Longrightarrow> \<exists>r. loop f k t acc = Some r"
proof (induction f arbitrary: k t acc)
  case (Suc f)
  show ?case
  proof (cases "wants acc \<and> (\<exists>xs t'. page k t = Inr (xs, Some t'))")
    case True
    then obtain xs t' where p: "page k t = Inr (xs, Some t')" by auto
    have "length acc < cap" "xs \<noteq> []" using True wants nonempty [OF p] by auto
    then have "cap - length (acc @ xs) < f" using Suc.prems by (cases xs) auto
    from Suc.IH [OF this] show ?thesis using True p by (simp add: loop_next)
  next
    case False
    then show ?thesis by (auto simp: loop_cases split: sum.split option.split)
  qed
qed simp

text \<open>It ends at the first page without a next token.\<close>

lemma loop_ends_at_last:
  assumes "\<And>t. \<exists>xs. page (k + n) t = Inr (xs, None)"
  shows "\<exists>r. loop (Suc n) k t acc = Some r"
  using assms
proof (induction n arbitrary: k t acc)
  case 0
  from "0.prems" [of t] obtain xs where "page k t = Inr (xs, None)" by auto
  then show ?case by (simp add: loop_cases)
next
  case (Suc n)
  have "\<exists>r. loop (Suc n) (Suc k) t' acc' = Some r" for t' acc'
    using Suc.IH [of "Suc k"] Suc.prems by simp
  then show ?case by (subst loop_cases) (auto split: sum.split option.split)
qed

text \<open>A result extends the accumulator; it stopped wanting more, or there is no next page.\<close>

lemma loop_result:
  "loop f k t acc = Some (Inr (xs, t')) \<Longrightarrow> (\<exists>ys. xs = acc @ ys) \<and> (t' = None \<or> \<not> wants xs)"
proof (induction f arbitrary: k t acc)
  case (Suc f)
  show ?case
  proof (cases "wants acc")
    case False
    with Suc.prems show ?thesis by (auto simp: loop_cases)
  next
    case True
    show ?thesis
    proof (cases "\<exists>ys t''. page k t = Inr (ys, Some t'')")
      case True
      then obtain ys t'' where "page k t = Inr (ys, Some t'')" by auto
      with Suc.prems \<open>wants acc\<close> have "loop f (Suc k) (Some t'') (acc @ ys) = Some (Inr (xs, t'))"
        by (simp add: loop_next)
      from Suc.IH [OF this] show ?thesis by auto
    next
      case False
      with Suc.prems \<open>wants acc\<close> show ?thesis
        by (auto simp: loop_cases split: sum.splits option.splits)
    qed
  qed
qed (simp add: loop_0)

text \<open>The pages up to the last one are concatenated.\<close>

lemma loop_concat:
  assumes "\<And>j t. j < n \<Longrightarrow> \<exists>t'. page (k + j) t = Inr (ps j, Some t')"
    and "\<And>t. page (k + n) t = Inr (ps n, None)" and "\<And>xs. wants xs"
  shows "loop (Suc n) k t acc = Some (Inr (acc @ concat (map ps [0..<Suc n]), None))"
  using assms(1,2)
proof (induction n arbitrary: k t acc ps)
  case 0
  from "0.prems"(2) [of t] assms(3) show ?case by (simp add: loop_last)
next
  case (Suc n)
  from Suc.prems(1) [of 0 t] obtain t' where p: "page k t = Inr (ps 0, Some t')" by auto
  have "loop (Suc n) (Suc k) (Some t') (acc @ ps 0) =
      Some (Inr ((acc @ ps 0) @ concat (map (\<lambda>j. ps (Suc j)) [0..<Suc n]), None))"
    using Suc.prems by (intro Suc.IH) fastforce+
  moreover have "map ps [0..<Suc (Suc n)] = ps 0 # map (\<lambda>j. ps (Suc j)) [0..<Suc n]"
    by (simp add: upt_conv_Cons map_Suc_upt [symmetric] del: upt_Suc)
  ultimately show ?case by (simp add: loop_next [OF assms(3) p] del: upt_Suc)
qed

text \<open>Every item of a result satisfies what the items of every page do.\<close>

lemma loop_all:
  assumes "\<And>k t xs t'. page k t = Inr (xs, t') \<Longrightarrow> \<forall>x \<in> set xs. P x"
  shows "loop f k t acc = Some (Inr (xs, t')) \<Longrightarrow> \<forall>x \<in> set acc. P x \<Longrightarrow> \<forall>x \<in> set xs. P x"
proof (induction f arbitrary: k t acc)
  case (Suc f)
  then show ?case
    using assms [of k t]
    by (fastforce simp: loop_cases split: sum.splits option.splits if_splits)
qed (simp add: loop_0)

text \<open>With pages of at most \<open>n\<close> items a listing overshoots its cap by less than a page.\<close>

lemma loop_overshoot:
  assumes "\<And>acc. wants acc \<Longrightarrow> length acc < cap"
    and "\<And>k t xs t'. page k t = Inr (xs, t') \<Longrightarrow> length xs \<le> n"
  shows "loop f k t acc = Some (Inr (xs, t')) \<Longrightarrow> length acc < cap + n \<Longrightarrow> length xs < cap + n"
proof (induction f arbitrary: k t acc)
  case (Suc f)
  then show ?case
    using assms(1) [of acc] assms(2) [of k t]
    by (fastforce simp: loop_cases split: sum.splits option.splits if_splits)
qed (simp add: loop_0)

end

section \<open>Gated sequential runs\<close>

locale gated_run =
  fixes loop :: "nat \<Rightarrow> 'e list \<Rightarrow> 'acc \<Rightarrow> 'acc"
    and go :: "nat \<Rightarrow> bool"
    and step :: "nat \<Rightarrow> 'e \<Rightarrow> 'acc \<Rightarrow> 'acc"
    and stop :: "'acc \<Rightarrow> 'acc"
  assumes loop_nil: "loop i [] acc = acc"
    and loop_go: "go i \<Longrightarrow> loop i (e # es) acc = loop (Suc i) es (step i e acc)"
    and loop_stop: "\<not> go i \<Longrightarrow> loop i (e # es) acc = stop acc"
begin

text \<open>How many items a run that starts at index \<open>i\<close> lets through.\<close>

definition passed :: "nat \<Rightarrow> 'e list \<Rightarrow> nat" where
  "passed i es = length (takeWhile go [i..<i + length es])"

fun steps :: "nat \<Rightarrow> 'e list \<Rightarrow> 'acc \<Rightarrow> 'acc" where
  "steps i [] acc = acc"
| "steps i (e # es) acc = steps (Suc i) es (step i e acc)"

lemma passed_Cons: "passed i (e # es) = (if go i then Suc (passed (Suc i) es) else 0)"
  by (simp add: passed_def upt_conv_Cons del: upt_Suc)

lemma passed_le: "passed i es \<le> length es"
  unfolding passed_def by (metis add_diff_cancel_left' length_takeWhile_le length_upt)

lemma loop_passed:
  "loop i es acc =
     (let n = passed i es; acc' = steps i (take n es) acc in if n = length es then acc' else stop acc')"
proof (induction es arbitrary: i acc)
  case Nil
  then show ?case by (simp add: loop_nil passed_def)
next
  case (Cons e es)
  then show ?case by (cases "go i") (simp_all add: loop_go loop_stop passed_Cons Let_def)
qed

lemma steps_append: "steps i (xs @ ys) acc = steps (i + length xs) ys (steps i xs acc)"
  by (induction xs arbitrary: i acc) simp_all

lemma steps_inv:
  assumes "\<And>i e acc. P acc \<Longrightarrow> P (step i e acc)" "P acc"
  shows "P (steps i es acc)"
  using assms(2) by (induction es arbitrary: i acc) (simp_all add: assms(1))

end

text \<open>Three counters, one of which every item moves.\<close>

datatype item_outcome = ODone | ODuplicate | OError

locale counted_run = gated_run loop go step stop
  for loop :: "nat \<Rightarrow> 'e list \<Rightarrow> 'acc \<Rightarrow> 'acc" and go step stop +
  fixes counts :: "'acc \<Rightarrow> nat \<times> nat \<times> nat"
    and outcome :: "nat \<Rightarrow> 'e \<Rightarrow> item_outcome"
  assumes step_counts: "counts (step i e acc) =
      (case counts acc of (u, d, x) \<Rightarrow>
         (case outcome i e of ODone \<Rightarrow> (Suc u, d, x) | ODuplicate \<Rightarrow> (u, Suc d, x) | OError \<Rightarrow> (u, d, Suc x)))"
    and stop_counts: "counts (stop acc) = counts acc"
begin

definition outcomes :: "nat \<Rightarrow> 'e list \<Rightarrow> item_outcome list" where
  "outcomes i es = map (\<lambda>(j, e). outcome j e) (zip [i..<i + length es] es)"

lemma outcomes_Cons: "outcomes i (e # es) = outcome i e # outcomes (Suc i) es"
  by (simp add: outcomes_def upt_conv_Cons del: upt_Suc)

lemma steps_counts:
  "counts acc = (u, d, x) \<Longrightarrow> counts (steps i es acc) =
     (u + count_list (outcomes i es) ODone, d + count_list (outcomes i es) ODuplicate,
      x + count_list (outcomes i es) OError)"
proof (induction es arbitrary: i acc u d x)
  case Nil
  then show ?case by (simp add: outcomes_def)
next
  case (Cons e es)
  then show ?case
    using step_counts [of i e acc] by (cases "outcome i e") (simp_all add: outcomes_Cons)
qed

lemma loop_counts:
  assumes "counts acc = (0, 0, 0)" and "counts (loop i es acc) = (u, d, x)"
  shows "u = count_list (outcomes i (take (passed i es) es)) ODone"
    "d = count_list (outcomes i (take (passed i es) es)) ODuplicate"
    "x = count_list (outcomes i (take (passed i es) es)) OError"
  using assms(2) steps_counts [OF assms(1), of i "take (passed i es) es"]
  by (auto simp: loop_passed Let_def stop_counts split: if_splits)

lemma count_outcomes: "count_list os ODone + count_list os ODuplicate + count_list os OError = length os"
proof (induction os)
  case (Cons o' os)
  then show ?case by (cases o') simp_all
qed simp

text \<open>The three counters of a run add up to the items it let through.\<close>

lemma loop_total:
  assumes "counts acc = (0, 0, 0)" and "counts (loop i es acc) = (u, d, x)"
  shows "u + d + x = passed i es"
proof -
  have "length (outcomes i (take (passed i es) es)) = passed i es"
    using passed_le [of i es] by (simp add: outcomes_def)
  with loop_counts [OF assms] show ?thesis by (metis count_outcomes)
qed

end

end
