(* ===== verification/GoogleBackup.thy ===== *)
theory GoogleBackup
  imports Paging JsNumber
begin

text \<open>
  The Google side of the backup feature, \<open>frontend/src/api/googleBackup.ts\<close> up to the upload loop:
  listing the Drive, the Photos Picker session with its polling loop, and where an item is
  downloaded from. What Google answers to the \<open>k\<close>-th request of a listing is a parameter.
\<close>

section \<open>Data\<close>

datatype google_source = FromDrive | FromPhotos

record google_item =
  gi_id :: string
  gi_name :: string
  gi_mimeType :: string
  gi_size :: "jsnum option"
  gi_modifiedTime :: string
  gi_source :: google_source
  gi_isGoogleDoc :: bool
  gi_baseUrl :: "string option"
  gi_thumbnailLink :: "string option"

text \<open>A file as the Drive API lists it, and a picked media item of the Photos Picker API.\<close>

record drive_file =
  df_id :: string
  df_name :: string
  df_mimeType :: string
  df_size :: "string option"
  df_modifiedTime :: "string option"
  df_thumbnailLink :: "string option"

record picked_item =
  pm_id :: string
  pm_createTime :: "string option"
  pm_filename :: "string option"
  pm_mimeType :: "string option"
  pm_baseUrl :: "string option"

record 'a listing_page =
  pg_items :: "'a list option"
  pg_next :: "string option"

record 'a g_response =
  g_status :: nat
  g_text :: "string option"     \<comment> \<open>\<open>None\<close> when reading the body fails\<close>
  g_json :: "'a option"

definition g_ok :: "'a g_response \<Rightarrow> bool" where
  "g_ok r \<longleftrightarrow> 200 \<le> g_status r \<and> g_status r \<le> 299"

definition DRIVE_API :: string where
  "DRIVE_API = ''https://www.googleapis.com/drive/v3''"

definition PHOTOS_PICKER_API :: string where
  "PHOTOS_PICKER_API = ''https://photospicker.googleapis.com/v1''"

definition MAX_DRIVE_FILES :: nat where
  "MAX_DRIVE_FILES = 500"

text \<open>A string that is absent or empty is falsy.\<close>

definition truthy :: "string option \<Rightarrow> string option" where
  "truthy s = (if s = Some [] then None else s)"

section \<open>Fetching\<close>

text \<open>
  What a Google call throws: an \<open>Error\<close> with a message of the code's own, the \<open>TypeError\<close> of a
  failed \<open>fetch\<close>, or the \<open>SyntaxError\<close> of an unreadable body.
\<close>

datatype fetch_error = FetchError string | NetworkFailure | BadJson

definition gFetch :: "'a g_response option \<Rightarrow> fetch_error + 'a" where
  "gFetch res =
     (case res of
        None \<Rightarrow> Inl NetworkFailure
      | Some r \<Rightarrow>
          if \<not> g_ok r then Inl (FetchError (show_nat (g_status r) @ '': '' @ or_else (g_text r) []))
          else case g_json r of None \<Rightarrow> Inl BadJson | Some v \<Rightarrow> Inr v)"

text \<open>\<open>String(d).replace('s', '')\<close> takes out the first \<open>s\<close>.\<close>

definition remove_s :: "string \<Rightarrow> string" where
  "remove_s d = takeWhile (\<lambda>c. c \<noteq> CHR ''s'') d @ drop 1 (dropWhile (\<lambda>c. c \<noteq> CHR ''s'') d)"

definition parseDurationMs :: "string option \<Rightarrow> int \<Rightarrow> int" where
  "parseDurationMs d fallback =
     (case truthy d of
        None \<Rightarrow> fallback
      | Some s \<Rightarrow> (case parseFloat (remove_s s) of Fin n \<Rightarrow> js_round (n * 1000) | _ \<Rightarrow> fallback))"

section \<open>Listing the Drive\<close>

definition page_suffix :: "string option \<Rightarrow> string" where
  "page_suffix tok = (case truthy tok of None \<Rightarrow> [] | Some t \<Rightarrow> ''&pageToken='' @ encodeURIComponent t)"

definition drive_list_url :: "string option \<Rightarrow> string" where
  "drive_list_url tok = DRIVE_API @ ''/files?pageSize=100'' @
     ''&fields=nextPageToken,files(id,name,mimeType,size,modifiedTime,thumbnailLink)'' @
     ''&q=trashed%3Dfalse+and+mimeType+!%3D+%27application%2Fvnd.google-apps.folder%27'' @ page_suffix tok"

definition to_drive_item :: "drive_file \<Rightarrow> google_item" where
  "to_drive_item f = \<lparr>gi_id = df_id f, gi_name = df_name f, gi_mimeType = df_mimeType f,
     gi_size = map_option js_Number (df_size f), gi_modifiedTime = or_else (df_modifiedTime f) [],
     gi_source = FromDrive, gi_isGoogleDoc = starts_with ''application/vnd.google-apps.'' (df_mimeType f),
     gi_baseUrl = None, gi_thumbnailLink = df_thumbnailLink f\<rparr>"

fun drive_loop ::
  "(nat \<Rightarrow> string \<Rightarrow> drive_file listing_page g_response option) \<Rightarrow> nat \<Rightarrow> nat \<Rightarrow> string option \<Rightarrow>
     google_item list \<Rightarrow> (fetch_error + google_item list \<times> string option) option" where
  "drive_loop fetch 0 k tok acc = None"
| "drive_loop fetch (Suc fuel) k tok acc =
     (if length acc < MAX_DRIVE_FILES then
        case gFetch (fetch k (drive_list_url tok)) of
          Inl e \<Rightarrow> Some (Inl e)
        | Inr pg \<Rightarrow>
            let acc' = acc @ map to_drive_item (or_else (pg_items pg) [])
            in case truthy (pg_next pg) of
                 None \<Rightarrow> Some (Inr (acc', None))
               | Some t \<Rightarrow> drive_loop fetch fuel (Suc k) (Some t) acc'
      else Some (Inr (acc, tok)))"

definition listGoogleDriveFiles ::
  "nat \<Rightarrow> (nat \<Rightarrow> string \<Rightarrow> drive_file listing_page g_response option) \<Rightarrow> (fetch_error + google_item list) option" where
  "listGoogleDriveFiles fuel fetch = map_option (map_sum id fst) (drive_loop fetch fuel 0 None [])"

section \<open>Listing the picked photos\<close>

definition photos_list_url :: "string \<Rightarrow> string option \<Rightarrow> string" where
  "photos_list_url sessionId tok =
     PHOTOS_PICKER_API @ ''/mediaItems?sessionId='' @ encodeURIComponent sessionId @ ''&pageSize=100'' @
     page_suffix tok"

definition to_photo_item :: "picked_item \<Rightarrow> google_item" where
  "to_photo_item m = \<lparr>gi_id = pm_id m, gi_name = or_else (pm_filename m) ''photo'',
     gi_mimeType = or_else (pm_mimeType m) ''application/octet-stream'', gi_size = None,
     gi_modifiedTime = or_else (pm_createTime m) [], gi_source = FromPhotos, gi_isGoogleDoc = False,
     gi_baseUrl = pm_baseUrl m, gi_thumbnailLink = None\<rparr>"

fun photos_loop ::
  "string \<Rightarrow> (nat \<Rightarrow> string \<Rightarrow> picked_item listing_page g_response option) \<Rightarrow> nat \<Rightarrow> nat \<Rightarrow> string option \<Rightarrow>
     google_item list \<Rightarrow> (fetch_error + google_item list \<times> string option) option" where
  "photos_loop sid fetch 0 k tok acc = None"
| "photos_loop sid fetch (Suc fuel) k tok acc =
     (case gFetch (fetch k (photos_list_url sid tok)) of
        Inl e \<Rightarrow> Some (Inl e)
      | Inr pg \<Rightarrow>
          let acc' = acc @ map to_photo_item (or_else (pg_items pg) [])
          in case truthy (pg_next pg) of
               None \<Rightarrow> Some (Inr (acc', None))
             | Some t \<Rightarrow> photos_loop sid fetch fuel (Suc k) (Some t) acc')"

definition listPickedPhotos ::
  "nat \<Rightarrow> string \<Rightarrow> (nat \<Rightarrow> string \<Rightarrow> picked_item listing_page g_response option) \<Rightarrow> (fetch_error + google_item list) option" where
  "listPickedPhotos fuel sid fetch = map_option (map_sum id fst) (photos_loop sid fetch fuel 0 None [])"

section \<open>Where an item comes from\<close>

text \<open>\<open>drivePreviewUrl\<close>: only Drive images have a preview link.\<close>

definition drivePreviewUrl :: "google_item \<Rightarrow> string option" where
  "drivePreviewUrl it =
     (if gi_source it \<noteq> FromDrive \<or> \<not> starts_with ''image/'' (gi_mimeType it) then None
      else gi_thumbnailLink it)"

text \<open>The URL \<open>photosPreviewBlobUrl\<close> fetches, when it fetches one.\<close>

definition photos_preview_request :: "google_item \<Rightarrow> string option" where
  "photos_preview_request it =
     (if gi_source it \<noteq> FromPhotos then None
      else case truthy (gi_baseUrl it) of
             None \<Rightarrow> None
           | Some b \<Rightarrow> if starts_with ''image/'' (gi_mimeType it) then Some (b @ ''=w512-h512'') else None)"

definition google_download_url :: "google_item \<Rightarrow> string" where
  "google_download_url it =
     (case (gi_source it, truthy (gi_baseUrl it)) of
        (FromPhotos, Some b) \<Rightarrow> if starts_with ''video/'' (gi_mimeType it) then b @ ''=dv'' else b @ ''=d''
      | _ \<Rightarrow>
          if gi_isGoogleDoc it then DRIVE_API @ ''/files/'' @ gi_id it @ ''/export?mimeType=application%2Fpdf''
          else DRIVE_API @ ''/files/'' @ gi_id it @ ''?alt=media'')"

definition sourceFor :: "google_item \<Rightarrow> string" where
  "sourceFor it = (if gi_source it = FromPhotos then ''google_photos'' else ''google_drive'')"

section \<open>The Photos Picker session\<close>

record session_data =
  sd_id :: string
  sd_pickerUri :: string
  sd_pollInterval :: "string option"
  sd_timeoutIn :: "string option"
  sd_mediaItemsSet :: bool

record picker_session =
  ps_id :: string
  ps_pickerUri :: string
  ps_pollIntervalMs :: int
  ps_timeoutMs :: int
  ps_mediaItemsSet :: bool

definition toSession :: "session_data \<Rightarrow> picker_session" where
  "toSession d = \<lparr>ps_id = sd_id d, ps_pickerUri = sd_pickerUri d,
     ps_pollIntervalMs = parseDurationMs (sd_pollInterval d) 3000,
     ps_timeoutMs = parseDurationMs (sd_timeoutIn d) 300000,
     ps_mediaItemsSet = sd_mediaItemsSet d\<rparr>"

text \<open>
  What \<open>pickGooglePhotosWeb\<close> meets: whether the popup opened, the answers to the session calls, and
  the results of its successive calls of \<open>isCancelled()\<close> and \<open>Date.now()\<close>. A call of
  \<open>deletePhotosPickerSession\<close> never fails: it swallows its own error.
\<close>

record picker_env =
  pe_popup :: bool
  pe_email :: "string option"
  pe_create :: "session_data g_response option"
  pe_poll :: "nat \<Rightarrow> session_data g_response option"
  pe_cancelled :: "nat \<Rightarrow> bool"
  pe_now :: "nat \<Rightarrow> int"
  pe_list :: "nat \<Rightarrow> string \<Rightarrow> picked_item listing_page g_response option"

datatype picker_effect =
    PopupGo string | PopupClose | WaitMs int | PollSession string | ListSession string | DeleteSession string

definition picker_url :: "picker_session \<Rightarrow> string option \<Rightarrow> string" where
  "picker_url s email =
     (case truthy email of
        None \<Rightarrow> ps_pickerUri s
      | Some e \<Rightarrow> ps_pickerUri s @ (if CHR ''?'' \<in> set (ps_pickerUri s) then ''&'' else ''?'') @
                   ''authuser='' @ encodeURIComponent e)"

text \<open>The polling loop; \<open>j\<close> polls were made, \<open>None\<close> is out of fuel.\<close>

fun poll_loop ::
  "picker_env \<Rightarrow> string \<Rightarrow> int \<Rightarrow> nat \<Rightarrow> nat \<Rightarrow> picker_session \<Rightarrow> (picker_effect list \<times> picker_session) option" where
  "poll_loop env sid deadline 0 j cur = None"
| "poll_loop env sid deadline (Suc fuel) j cur =
     (if \<not> ps_mediaItemsSet cur \<and> pe_now env (Suc j) < deadline then
        if pe_cancelled env (2 * j + 1) then Some ([], cur)
        else if pe_cancelled env (2 * j + 2) then Some ([WaitMs (ps_pollIntervalMs cur)], cur)
        else case gFetch (pe_poll env j) of
               Inl _ \<Rightarrow> Some ([WaitMs (ps_pollIntervalMs cur), PollSession sid], cur)
             | Inr d \<Rightarrow> map_option (\<lambda>(es, r). (WaitMs (ps_pollIntervalMs cur) # PollSession sid # es, r))
                         (poll_loop env sid deadline fuel (Suc j) (toSession d))
      else Some ([], cur))"

definition NO_POPUP :: string where
  "NO_POPUP = ''Could not open a new tab for Google Photos. Allow popups / new tabs for this site in your browser settings and try again.''"

text \<open>After the polling: list and delete when the user has finished, else only delete.\<close>

definition picker_finish ::
  "nat \<Rightarrow> picker_env \<Rightarrow> string \<Rightarrow> picker_session \<Rightarrow> (picker_effect list \<times> google_item list) option" where
  "picker_finish fuel env sid cur =
     (if ps_mediaItemsSet cur then
        map_option (\<lambda>r. case r of
            Inr picked \<Rightarrow> ([PopupClose, ListSession sid, DeleteSession sid], picked)
          | Inl _ \<Rightarrow> ([PopupClose, ListSession sid], []))
          (listPickedPhotos fuel sid (pe_list env))
      else Some ([PopupClose, DeleteSession sid], []))"

definition pickGooglePhotosWeb ::
  "nat \<Rightarrow> picker_env \<Rightarrow> (picker_effect list \<times> (string + google_item list)) option" where
  "pickGooglePhotosWeb fuel env =
     (if \<not> pe_popup env then Some ([], Inl NO_POPUP)
      else case gFetch (pe_create env) of
        Inl _ \<Rightarrow> Some ([PopupClose], Inr [])
      | Inr d \<Rightarrow>
          let session = toSession d in
          if pe_cancelled env 0 then Some ([PopupClose], Inr [])
          else case poll_loop env (ps_id session) (pe_now env 0 + ps_timeoutMs session) fuel 0 session of
                 None \<Rightarrow> None
               | Some (es, cur) \<Rightarrow>
                   map_option (\<lambda>(es', v). (PopupGo (picker_url session (pe_email env)) # es @ es', Inr v))
                     (picker_finish fuel env (ps_id session) cur))"

section \<open>The listings are token pagings\<close>

definition drive_page ::
  "(nat \<Rightarrow> string \<Rightarrow> drive_file listing_page g_response option) \<Rightarrow> nat \<Rightarrow> string option \<Rightarrow>
     fetch_error + google_item list \<times> string option" where
  "drive_page fetch k tok =
     map_sum id (\<lambda>pg. (map to_drive_item (or_else (pg_items pg) []), truthy (pg_next pg)))
       (gFetch (fetch k (drive_list_url tok)))"

definition photos_page ::
  "string \<Rightarrow> (nat \<Rightarrow> string \<Rightarrow> picked_item listing_page g_response option) \<Rightarrow> nat \<Rightarrow> string option \<Rightarrow>
     fetch_error + google_item list \<times> string option" where
  "photos_page sid fetch k tok =
     map_sum id (\<lambda>pg. (map to_photo_item (or_else (pg_items pg) []), truthy (pg_next pg)))
       (gFetch (fetch k (photos_list_url sid tok)))"

interpretation drive: token_paging "drive_loop fetch" "drive_page fetch" "\<lambda>acc. length acc < MAX_DRIVE_FILES"
  for fetch
  by unfold_locales (auto simp: drive_page_def map_sum_def Let_def split: sum.splits)

interpretation photos: token_paging "photos_loop sid fetch" "photos_page sid fetch" "\<lambda>_. True"
  for sid fetch
  by unfold_locales (auto simp: photos_page_def map_sum_def Let_def split: sum.splits)

section \<open>Properties of the listings\<close>

lemma map_sum_Inr: "map_sum f g z = Inr y \<longleftrightarrow> (\<exists>x. z = Inr x \<and> y = g x)"
  by (cases z) auto

definition pages_nonempty :: "(nat \<Rightarrow> string \<Rightarrow> 'a listing_page g_response option) \<Rightarrow> bool" where
  "pages_nonempty fetch \<longleftrightarrow>
     (\<forall>k u pg. gFetch (fetch k u) = Inr pg \<and> truthy (pg_next pg) \<noteq> None \<longrightarrow> or_else (pg_items pg) [] \<noteq> [])"

definition page_limit :: "nat \<Rightarrow> (nat \<Rightarrow> string \<Rightarrow> 'a listing_page g_response option) \<Rightarrow> bool" where
  "page_limit n fetch \<longleftrightarrow>
     (\<forall>k u pg. gFetch (fetch k u) = Inr pg \<longrightarrow> length (or_else (pg_items pg) []) \<le> n)"

text \<open>
  Listing a Drive ends: if no page that promises a next one is empty, at most 501 pages are
  fetched, whatever the tokens are.
\<close>

theorem drive_listing_ends:
  assumes "pages_nonempty fetch"
  shows "\<exists>r. listGoogleDriveFiles 501 fetch = Some r"
proof -
  have "\<exists>r. drive_loop fetch 501 0 None [] = Some r"
    by (rule drive.loop_ends [where cap = MAX_DRIVE_FILES])
       (use assms in \<open>auto simp: MAX_DRIVE_FILES_def drive_page_def map_sum_def pages_nonempty_def
          split: sum.splits\<close>)
  then show ?thesis by (auto simp: listGoogleDriveFiles_def)
qed

definition one_file :: drive_file where
  "one_file = \<lparr>df_id = ''1'', df_name = ''a.png'', df_mimeType = ''image/png'', df_size = Some ''12'',
     df_modifiedTime = None, df_thumbnailLink = None\<rparr>"

definition ok_page :: "'a list \<Rightarrow> string option \<Rightarrow> 'a listing_page g_response option" where
  "ok_page xs nxt = Some \<lparr>g_status = 200, g_text = None, g_json = Some \<lparr>pg_items = Some xs, pg_next = nxt\<rparr>\<rparr>"

lemma gFetch_ok_page: "gFetch (ok_page xs nxt) = Inr \<lparr>pg_items = Some xs, pg_next = nxt\<rparr>"
  by (simp add: gFetch_def ok_page_def g_ok_def)

theorem drive_listing_ends_witness:
  "\<exists>r. listGoogleDriveFiles 501 (\<lambda>k u. ok_page [one_file] (Some ''more'')) = Some r"
  by (rule drive_listing_ends) (simp add: pages_nonempty_def gFetch_ok_page)

text \<open>
  The Drive listing is bounded: with pages of at most the 100 files asked for it returns
  fewer than 600 items, and all of them are Drive items without a Photos base URL.
\<close>

theorem drive_listing_bounded:
  assumes "page_limit 100 fetch" and "listGoogleDriveFiles fuel fetch = Some (Inr xs)"
  shows "length xs < 600 \<and> (\<forall>x \<in> set xs. gi_source x = FromDrive \<and> gi_baseUrl x = None)"
proof -
  obtain t where run: "drive_loop fetch fuel 0 None [] = Some (Inr (xs, t))"
    using assms(2) by (auto simp: listGoogleDriveFiles_def map_sum_Inr)
  have "length xs < MAX_DRIVE_FILES + 100"
    by (rule drive.loop_overshoot [OF _ _ run])
       (use assms(1) in \<open>auto simp: drive_page_def map_sum_def page_limit_def MAX_DRIVE_FILES_def
          split: sum.splits\<close>)
  moreover have "\<forall>x \<in> set xs. gi_source x = FromDrive \<and> gi_baseUrl x = None"
    by (rule drive.loop_all [OF _ run])
       (auto simp: drive_page_def map_sum_def to_drive_item_def split: sum.splits)
  ultimately show ?thesis by (simp add: MAX_DRIVE_FILES_def)
qed

theorem drive_listing_bounded_witness:
  "length [to_drive_item one_file] < 600"
proof -
  have lim: "page_limit 100 (\<lambda>k u. ok_page [one_file] None)" by (simp add: page_limit_def gFetch_ok_page)
  have "listGoogleDriveFiles (Suc 0) (\<lambda>k u. ok_page [one_file] None) = Some (Inr [to_drive_item one_file])"
    by (simp add: listGoogleDriveFiles_def gFetch_ok_page MAX_DRIVE_FILES_def truthy_def)
  from drive_listing_bounded [OF lim this] show ?thesis by blast
qed

text \<open>
  Listing the picked photos loses nothing: when the server answers \<open>n\<close> pages with a next
  token and then one without, the result is the concatenation of all \<open>n + 1\<close> pages, in order.
\<close>

theorem photos_listing_complete:
  assumes "\<forall>k < n. \<forall>u. \<exists>t. t \<noteq> [] \<and> fetch k u = ok_page (photos k) (Some t)"
    and "\<forall>u. fetch n u = ok_page (photos n) None"
  shows "listPickedPhotos (Suc n) sid fetch =
    Some (Inr (concat (map (\<lambda>k. map to_photo_item (photos k)) [0..<Suc n])))"
proof -
  have next_page: "\<exists>t'. photos_page sid fetch (0 + k) t = Inr (map to_photo_item (photos k), Some t')"
    if k: "k < n" for k t
  proof -
    obtain t' where "t' \<noteq> []" "fetch k (photos_list_url sid t) = ok_page (photos k) (Some t')"
      using assms(1) k by blast
    then show ?thesis by (simp add: photos_page_def gFetch_ok_page truthy_def)
  qed
  have last_page: "photos_page sid fetch (0 + n) t = Inr (map to_photo_item (photos n), None)" for t
    using assms(2) by (simp add: photos_page_def gFetch_ok_page truthy_def)
  have "photos_loop sid fetch (Suc n) 0 None [] =
      Some (Inr ([] @ concat (map (\<lambda>k. map to_photo_item (photos k)) [0..<Suc n]), None))"
    by (rule photos.loop_concat [OF next_page last_page]) simp_all
  then show ?thesis by (simp add: listPickedPhotos_def del: photos_loop.simps upt_Suc)
qed

definition one_photo :: "string \<Rightarrow> picked_item" where
  "one_photo i = \<lparr>pm_id = i, pm_createTime = None, pm_filename = None, pm_mimeType = None, pm_baseUrl = None\<rparr>"

theorem photos_listing_complete_witness:
  "listPickedPhotos 2 ''s'' (\<lambda>k u. if k = 0 then ok_page [one_photo ''p''] (Some ''t'') else ok_page [one_photo ''q''] None)
   = Some (Inr [to_photo_item (one_photo ''p''), to_photo_item (one_photo ''q'')])"
proof -
  have "listPickedPhotos (Suc 1) ''s''
      (\<lambda>k u. if k = 0 then ok_page [one_photo ''p''] (Some ''t'') else ok_page [one_photo ''q''] None)
    = Some (Inr (concat (map (\<lambda>k. map to_photo_item (if k = 0 then [one_photo ''p''] else [one_photo ''q''])) [0..<Suc 1])))"
    by (rule photos_listing_complete) auto
  then show ?thesis by (simp add: numeral_2_eq_2)
qed

section \<open>Properties of the picker\<close>

definition is_close :: "picker_effect \<Rightarrow> bool" where
  "is_close e \<longleftrightarrow> e = PopupClose"

lemma poll_loop_effects:
  "poll_loop env sid deadline fuel j cur = Some (es, r) \<Longrightarrow>
     count_if is_close es = 0 \<and> (\<forall>s. DeleteSession s \<notin> set es)"
proof (induction env sid deadline fuel j cur arbitrary: es r rule: poll_loop.induct)
  case (2 env sid deadline fuel j cur)
  show ?case
  proof (cases "\<not> ps_mediaItemsSet cur \<and> pe_now env (Suc j) < deadline \<and>
      \<not> pe_cancelled env (2 * j + 1) \<and> \<not> pe_cancelled env (2 * j + 2) \<and> (\<exists>d. gFetch (pe_poll env j) = Inr d)")
    case True
    then obtain d where d: "gFetch (pe_poll env j) = Inr d" by blast
    with True "2.prems" obtain es' where
      rec: "poll_loop env sid deadline fuel (Suc j) (toSession d) = Some (es', r)"
      and es: "es = WaitMs (ps_pollIntervalMs cur) # PollSession sid # es'"
      by auto
    from True have "\<not> ps_mediaItemsSet cur \<and> pe_now env (Suc j) < deadline"
      "\<not> pe_cancelled env (2 * j + 1)" "\<not> pe_cancelled env (2 * j + 2)" by blast+
    from "2.IH" [OF this d rec] show ?thesis by (simp add: es is_close_def)
  next
    case False
    with "2.prems" show ?thesis by (auto simp: is_close_def split: if_splits sum.splits)
  qed
qed simp

lemma picker_finish_effects:
  "picker_finish fuel env sid cur = Some (es, v) \<Longrightarrow>
     count_if is_close es = 1 \<and>
     ((\<exists>e. listPickedPhotos fuel sid (pe_list env) = Some (Inl e)) \<or>
      es \<noteq> [] \<and> last es = DeleteSession sid)"
proof (cases "ps_mediaItemsSet cur")
  case True
  moreover assume "picker_finish fuel env sid cur = Some (es, v)"
  ultimately obtain r where "listPickedPhotos fuel sid (pe_list env) = Some r"
    "(es, v) = (case r of Inr picked \<Rightarrow> ([PopupClose, ListSession sid, DeleteSession sid], picked)
       | Inl _ \<Rightarrow> ([PopupClose, ListSession sid], []))"
    by (auto simp: picker_finish_def)
  then show ?thesis by (cases r) (auto simp: is_close_def)
qed (auto simp: picker_finish_def is_close_def)

text \<open>
  The picker cleans up after itself: once the popup is open, it is closed exactly once on
  every path; and a session that was waited for is deleted at the end, unless the listing of the
  picked items failed.
\<close>

theorem picker_cleans_up:
  assumes "pickGooglePhotosWeb fuel env = Some (es, v)" and "pe_popup env"
  shows "count_if is_close es = 1 \<and>
    (\<forall>d. gFetch (pe_create env) = Inr d \<and> \<not> pe_cancelled env 0 \<longrightarrow>
       (\<exists>e. listPickedPhotos fuel (sd_id d) (pe_list env) = Some (Inl e)) \<or>
       es \<noteq> [] \<and> last es = DeleteSession (sd_id d))"
proof (cases "gFetch (pe_create env)")
  case (Inl e)
  with assms show ?thesis by (auto simp: pickGooglePhotosWeb_def is_close_def)
next
  case (Inr d)
  show ?thesis
  proof (cases "pe_cancelled env 0")
    case True
    with assms Inr show ?thesis by (auto simp: pickGooglePhotosWeb_def is_close_def)
  next
    case False
    with assms Inr obtain es1 cur es2 where run:
      "poll_loop env (ps_id (toSession d)) (pe_now env 0 + ps_timeoutMs (toSession d)) fuel 0 (toSession d) = Some (es1, cur)"
      "\<exists>w. picker_finish fuel env (ps_id (toSession d)) cur = Some (es2, w)"
      "es = PopupGo (picker_url (toSession d) (pe_email env)) # es1 @ es2"
      by (auto simp: pickGooglePhotosWeb_def Let_def split: option.splits prod.splits)
    have "ps_id (toSession d) = sd_id d" by (simp add: toSession_def)
    with run poll_loop_effects [OF run(1)] picker_finish_effects [of fuel env "sd_id d" cur es2] Inr
    show ?thesis by (auto simp: is_close_def)
  qed
qed

definition demo_session :: "bool \<Rightarrow> session_data g_response option" where
  "demo_session b = Some \<lparr>g_status = 200, g_text = None, g_json = Some \<lparr>sd_id = ''s'', sd_pickerUri = ''https://p/x'',
     sd_pollInterval = Some ''2s'', sd_timeoutIn = None, sd_mediaItemsSet = b\<rparr>\<rparr>"

definition demo_env :: picker_env where
  "demo_env = \<lparr>pe_popup = True, pe_email = Some ''a@b'', pe_create = demo_session False,
     pe_poll = (\<lambda>k. demo_session (k > 0)), pe_cancelled = (\<lambda>_. False), pe_now = (\<lambda>k. int k),
     pe_list = (\<lambda>k u. ok_page [one_photo ''p''] None)\<rparr>"

lemma demo_duration: "parseDurationMs (Some ''2s'') 3000 = 2000"
  by (simp add: parseDurationMs_def truthy_def remove_s_def parseFloat_def scan_signed_def scan_unsigned_def
      scan_exponent_def starts_with_def is_space_def is_digit_def digits_val_def digit_val_def scale10_def
      js_round_def floor_eq_iff)

lemma demo_run: "\<exists>es. pickGooglePhotosWeb 9 demo_env = Some (es, Inr [to_photo_item (one_photo ''p'')])"
  by (simp add: pickGooglePhotosWeb_def demo_env_def demo_session_def gFetch_def g_ok_def toSession_def
      demo_duration numeral_eq_Suc parseDurationMs_def picker_finish_def listPickedPhotos_def ok_page_def
      truthy_def)

theorem picker_cleans_up_witness: "\<exists>es v. pickGooglePhotosWeb 9 demo_env = Some (es, v) \<and> count_if is_close es = 1"
  using demo_run picker_cleans_up [of 9 demo_env] by (auto simp: demo_env_def)

lemma poll_loop_ends:
  "n < fuel + j \<Longrightarrow> j \<le> n \<Longrightarrow> deadline \<le> pe_now env (Suc n) \<Longrightarrow>
     \<exists>es r. poll_loop env sid deadline fuel j cur = Some (es, r) \<and>
       count_if (\<lambda>e. e = PollSession sid) es \<le> n - j"
proof (induction env sid deadline fuel j cur rule: poll_loop.induct)
  case (2 env sid deadline fuel j cur)
  show ?case
  proof (cases "\<not> ps_mediaItemsSet cur \<and> pe_now env (Suc j) < deadline")
    case True
    then have "j \<noteq> n" using "2.prems"(3) by auto
    then have j: "Suc j \<le> n" "n < fuel + Suc j" using "2.prems" by auto
    show ?thesis
      using True "2.IH" [OF True] j "2.prems"(3)
      by (fastforce split: sum.split)
  next
    case False
    then show ?thesis by auto
  qed
qed simp

text \<open>
  Waiting for the picker ends: once \<open>Date.now()\<close> has passed the session's timeout at the
  \<open>n\<close>-th look at the clock, at most \<open>n\<close> polls were made, whatever the session answers.
\<close>

theorem picker_wait_ends:
  assumes "deadline \<le> pe_now env (Suc n)"
  shows "\<exists>es r. poll_loop env sid deadline (Suc n) 0 cur = Some (es, r) \<and>
           count_if (\<lambda>e. e = PollSession sid) es \<le> n"
  using poll_loop_ends [of n "Suc n" 0] assms by simp

theorem picker_wait_ends_witness:
  "\<exists>es r. poll_loop (demo_env\<lparr>pe_now := \<lambda>k. 1000 * int k\<rparr>) ''s'' 5000 5 0 (toSession (the (g_json (the (demo_session False)))))
     = Some (es, r) \<and> count_if (\<lambda>e. e = PollSession ''s'') es \<le> 4"
  using picker_wait_ends [of 5000 "demo_env\<lparr>pe_now := \<lambda>k. 1000 * int k\<rparr>" 4] by (simp add: numeral_eq_Suc)

end
