(* ===== verification/GoogleRun.thy ===== *)
theory GoogleRun
  imports GoogleBackup BackupControl "HOL-Library.Word"
begin

text \<open>
  The Google upload loops: \<open>uploadGoogleEntries\<close> of \<open>frontend/src/api/googleBackup.ts\<close>, its
  namesake in \<open>mobile/src/services/GoogleBackupService.ts\<close>, and the clean-up and settings
  functions beside them. What Google, the browser's \<open>crypto.subtle.digest\<close> and the SFS server
  answer while item \<open>i\<close> is processed is a parameter; so is the answer of the gate before it.
\<close>

section \<open>Thrown values\<close>

text \<open>A thrown value: an \<open>Error\<close>, the client's \<open>ApiError\<close> with its status, or no error object.\<close>

datatype thrown = ThrowError string | ThrowApi nat string | ThrowOther

definition errorMessage :: "thrown \<Rightarrow> string" where
  "errorMessage t =
     (case t of ThrowError m \<Rightarrow> m | ThrowApi _ m \<Rightarrow> m | ThrowOther \<Rightarrow> ''Backup failed'')"

section \<open>Hashing\<close>

type_synonym bytes = "8 word list"

text \<open>\<open>b.toString(16).padStart(2, '0')\<close>\<close>

definition hex_char :: "nat \<Rightarrow> char" where
  "hex_char n = (if n < 10 then char_of (48 + n) else char_of (87 + n))"

definition hex_byte :: "8 word \<Rightarrow> string" where
  "hex_byte b = [hex_char (unat b div 16), hex_char (unat b mod 16)]"

definition sha256Hex :: "(bytes \<Rightarrow> bytes) \<Rightarrow> bytes \<Rightarrow> string" where
  "sha256Hex digest buffer = concat (map hex_byte (digest buffer))"

lemma hex_char_inj: "m < 16 \<Longrightarrow> n < 16 \<Longrightarrow> hex_char m = hex_char n \<Longrightarrow> m = n"
proof -
  assume "m < 16" "n < 16" "hex_char m = hex_char n"
  then have "of_char (hex_char m) = (of_char (hex_char n) :: nat)" "m < 16" "n < 16" by simp_all
  then show "m = n" by (auto simp: hex_char_def split: if_splits)
qed

lemma unat_byte_div: "unat (b :: 8 word) div 16 < 16"
proof -
  have "unat b < 2 ^ LENGTH(8)" by (rule unsigned_less)
  then have "unat b < 16 * 16" by simp
  then show ?thesis by (rule less_mult_imp_div_less)
qed

lemma hex_byte_inj: "hex_byte a = hex_byte b \<Longrightarrow> a = b"
proof -
  assume "hex_byte a = hex_byte b"
  then have "unat a div 16 = unat b div 16" "unat a mod 16 = unat b mod 16"
    by (auto simp: hex_byte_def intro!: hex_char_inj unat_byte_div)
  then have "unat a = unat b" by (metis div_mult_mod_eq)
  then show "a = b" by (rule unsigned_word_eqI)
qed

lemma hex_bytes_inj: "concat (map hex_byte xs) = concat (map hex_byte ys) \<Longrightarrow> xs = ys"
proof (induction xs arbitrary: ys)
  case Nil
  then show ?case by (cases ys) (auto simp: hex_byte_def)
next
  case (Cons x xs)
  then obtain y ys' where ys: "ys = y # ys'" by (cases ys) (auto simp: hex_byte_def)
  moreover have "length (hex_byte b) = 2" for b by (simp add: hex_byte_def)
  ultimately have "hex_byte x = hex_byte y" "concat (map hex_byte xs) = concat (map hex_byte ys')"
    using Cons.prems by (simp_all add: append_eq_append_conv)
  then show ?case using Cons.IH hex_byte_inj ys by simp
qed

section \<open>Entries, answers and reports\<close>

record backup_entry =
  be_item :: google_item
  be_name :: string
  be_type :: string
  be_destFolderId :: "string option"
  be_destPath :: "string option"

text \<open>The multipart form of an upload.\<close>

datatype form_value = FormText string | FormFile string string bytes   \<comment> \<open>name, type, content\<close>

definition upload_form :: "backup_entry \<Rightarrow> bytes \<Rightarrow> (string \<times> form_value) list" where
  "upload_form e blob =
     [(''file'', FormFile (be_name e) (be_type e) blob)] @
     (case truthy (be_destFolderId e) of None \<Rightarrow> [] | Some f \<Rightarrow> [(''folder_id'', FormText f)]) @
     [(''source'', FormText (sourceFor (be_item e)))]"

record upload_response =
  ur_id :: "string option"
  ur_size_bytes :: "nat option"
  ur_drive_id :: "string option"

record google_env =
  ge_gate :: "nat \<Rightarrow> bool"
  ge_download :: "nat \<Rightarrow> string \<Rightarrow> thrown + nat \<times> (thrown + bytes)"   \<comment> \<open>status and body\<close>
  ge_digest :: "bytes \<Rightarrow> bytes"
  ge_check :: "nat \<Rightarrow> string \<Rightarrow> thrown + bool"
  ge_upload :: "nat \<Rightarrow> (string \<times> form_value) list \<Rightarrow> thrown + upload_response"

definition downloadGoogleBlob :: "thrown + nat \<times> (thrown + bytes) \<Rightarrow> thrown + bytes" where
  "downloadGoogleBlob res =
     (case res of
        Inl t \<Rightarrow> Inl t
      | Inr (status, body) \<Rightarrow>
          if \<not> (200 \<le> status \<and> status \<le> 299) then Inl (ThrowError (''Download failed: '' @ show_nat status))
          else body)"

text \<open>What the loop knows of an item once it settled.\<close>

record item_report =
  ir_status :: item_outcome
  ir_sizeBytes :: nat
  ir_fileId :: "string option"
  ir_driveId :: "string option"
  ir_error :: "string option"

datatype progress_phase = PStart | PSettled

record 'e progress_event =
  pv_phase :: progress_phase
  pv_entry :: 'e
  pv_index :: nat
  pv_done :: nat
  pv_total :: nat
  pv_path :: string
  pv_report :: "item_report option"

record 'e run_result =
  rr_uploaded :: nat
  rr_duplicates :: nat
  rr_errors :: nat
  rr_cancelled :: bool
  rr_uploadedFileIds :: "string list"
  rr_events :: "'e progress_event list"

section \<open>The web loop\<close>

definition error_report :: "thrown \<Rightarrow> item_report" where
  "error_report t = \<lparr>ir_status = OError, ir_sizeBytes = 0, ir_fileId = None, ir_driveId = None,
     ir_error = Some (errorMessage t)\<rparr>"

definition isDuplicate :: "google_env \<Rightarrow> nat \<Rightarrow> string \<Rightarrow> bool" where
  "isDuplicate env i hash = (case ge_check env i hash of Inl _ \<Rightarrow> False | Inr ex \<Rightarrow> ex)"

definition google_item_report :: "google_env \<Rightarrow> nat \<Rightarrow> backup_entry \<Rightarrow> item_report" where
  "google_item_report env i e =
     (case downloadGoogleBlob (ge_download env i (google_download_url (be_item e))) of
        Inl t \<Rightarrow> error_report t
      | Inr blob \<Rightarrow>
          let hash = sha256Hex (ge_digest env) blob in
          if isDuplicate env i hash then
            \<lparr>ir_status = ODuplicate, ir_sizeBytes = 0, ir_fileId = None, ir_driveId = None, ir_error = None\<rparr>
          else case ge_upload env i (upload_form e blob) of
                 Inl t \<Rightarrow> error_report t
               | Inr res \<Rightarrow> \<lparr>ir_status = ODone, ir_sizeBytes = or_else (ur_size_bytes res) (length blob),
                               ir_fileId = ur_id res, ir_driveId = ur_drive_id res, ir_error = None\<rparr>)"

definition entry_path :: "backup_entry \<Rightarrow> string" where
  "entry_path e = or_else (be_destPath e) (be_name e)"

definition start_event :: "nat \<Rightarrow> nat \<Rightarrow> backup_entry \<Rightarrow> backup_entry progress_event" where
  "start_event n i e = \<lparr>pv_phase = PStart, pv_entry = e, pv_index = i, pv_done = i, pv_total = n,
     pv_path = entry_path e, pv_report = None\<rparr>"

definition settled_event :: "nat \<Rightarrow> nat \<Rightarrow> backup_entry \<Rightarrow> item_report \<Rightarrow> backup_entry progress_event" where
  "settled_event n i e r = \<lparr>pv_phase = PSettled, pv_entry = e, pv_index = i, pv_done = i + 1, pv_total = n,
     pv_path = entry_path e, pv_report = Some r\<rparr>"

definition google_step ::
  "google_env \<Rightarrow> nat \<Rightarrow> nat \<Rightarrow> backup_entry \<Rightarrow> backup_entry run_result \<Rightarrow> backup_entry run_result" where
  "google_step env n i e s =
     (let r = google_item_report env i e;
          s1 = (case ir_status r of
                  ODone \<Rightarrow> s\<lparr>rr_uploaded := rr_uploaded s + 1,
                     rr_uploadedFileIds := rr_uploadedFileIds s @
                       (case truthy (ir_fileId r) of None \<Rightarrow> [] | Some f \<Rightarrow> [f])\<rparr>
                | ODuplicate \<Rightarrow> s\<lparr>rr_duplicates := rr_duplicates s + 1\<rparr>
                | OError \<Rightarrow> s\<lparr>rr_errors := rr_errors s + 1\<rparr>)
      in s1\<lparr>rr_events := rr_events s @ [start_event n i e, settled_event n i e r]\<rparr>)"

definition cancel_run :: "'e run_result \<Rightarrow> 'e run_result" where
  "cancel_run s = s\<lparr>rr_cancelled := True\<rparr>"

fun google_loop ::
  "google_env \<Rightarrow> nat \<Rightarrow> nat \<Rightarrow> backup_entry list \<Rightarrow> backup_entry run_result \<Rightarrow> backup_entry run_result" where
  "google_loop env n i [] s = s"
| "google_loop env n i (e # es) s =
     (if \<not> ge_gate env i then cancel_run s
      else google_loop env n (Suc i) es (google_step env n i e s))"

definition empty_result :: "'e run_result" where
  "empty_result = \<lparr>rr_uploaded = 0, rr_duplicates = 0, rr_errors = 0, rr_cancelled = False,
     rr_uploadedFileIds = [], rr_events = []\<rparr>"

lemma empty_result_simps [simp]:
  "rr_cancelled empty_result = False" "rr_uploadedFileIds empty_result = []" "rr_events empty_result = []"
  by (simp_all add: empty_result_def)

definition uploadGoogleEntries :: "google_env \<Rightarrow> backup_entry list \<Rightarrow> backup_entry run_result" where
  "uploadGoogleEntries env entries = google_loop env (length entries) 0 entries empty_result"

definition run_counts :: "('e, 'm) run_result_scheme \<Rightarrow> nat \<times> nat \<times> nat" where
  "run_counts s = (rr_uploaded s, rr_duplicates s, rr_errors s)"

interpretation grun: counted_run "google_loop env n" "ge_gate env" "google_step env n" cancel_run
    run_counts "\<lambda>i e. ir_status (google_item_report env i e)"
  for env n
  by unfold_locales
     (auto simp: cancel_run_def run_counts_def google_step_def Let_def split: item_outcome.split)

section \<open>Cleaning up\<close>

text \<open>The best-effort deletions: each file is tried, failures are counted.\<close>

fun removeBackedUpFiles :: "(string \<Rightarrow> thrown + unit) \<Rightarrow> string list \<Rightarrow> nat \<times> nat" where
  "removeBackedUpFiles del [] = (0, 0)"
| "removeBackedUpFiles del (f # fs) =
     (let (removed, failed) = removeBackedUpFiles del fs
      in case del f of Inr _ \<Rightarrow> (removed + 1, failed) | Inl _ \<Rightarrow> (removed, failed + 1))"

definition deleteGoogleDriveFile :: "thrown + nat \<Rightarrow> thrown + unit" where
  "deleteGoogleDriveFile res =
     (case res of
        Inl t \<Rightarrow> Inl t
      | Inr status \<Rightarrow>
          if \<not> (200 \<le> status \<and> status \<le> 299) \<and> status \<noteq> 204
          then Inl (ThrowError (''Delete failed: '' @ show_nat status)) else Inr ())"

fun trashGoogleDriveFiles :: "(string \<Rightarrow> thrown + nat) \<Rightarrow> string list \<Rightarrow> nat" where
  "trashGoogleDriveFiles del [] = 0"
| "trashGoogleDriveFiles del (f # fs) =
     (case deleteGoogleDriveFile (del f) of Inr _ \<Rightarrow> 0 | Inl _ \<Rightarrow> 1) + trashGoogleDriveFiles del fs"

section \<open>Settings\<close>

definition BG_KEY :: string where "BG_KEY = ''apollo_gbackup_background''"
definition NOTIFY_KEY :: string where "NOTIFY_KEY = ''apollo_gbackup_notify''"

definition bool_string :: "bool \<Rightarrow> string" where
  "bool_string b = (if b then ''true'' else ''false'')"

type_synonym local_storage = "string \<rightharpoonup> string"

definition loadGoogleBackupSettings :: "local_storage \<Rightarrow> bool \<times> bool" where
  "loadGoogleBackupSettings st = (st BG_KEY \<noteq> Some ''false'', st NOTIFY_KEY \<noteq> Some ''false'')"

definition saveGoogleBackupSettings :: "bool \<times> bool \<Rightarrow> local_storage \<Rightarrow> local_storage" where
  "saveGoogleBackupSettings s st =
     (case s of (background, notify) \<Rightarrow>
        (st(BG_KEY \<mapsto> bool_string background))(NOTIFY_KEY \<mapsto> bool_string notify))"

lemma google_settings_roundtrip: "loadGoogleBackupSettings (saveGoogleBackupSettings s st) = s"
  by (cases s) (simp add: loadGoogleBackupSettings_def saveGoogleBackupSettings_def BG_KEY_def
      NOTIFY_KEY_def bool_string_def)

section \<open>Properties of the web loop\<close>

abbreviation google_passed :: "google_env \<Rightarrow> backup_entry list \<Rightarrow> nat" where
  "google_passed env es \<equiv> length (takeWhile (ge_gate env) [0..<length es])"

definition google_reports :: "google_env \<Rightarrow> backup_entry list \<Rightarrow> item_report list" where
  "google_reports env es = map (\<lambda>i. google_item_report env i (es ! i)) [0..<google_passed env es]"

lemma google_steps_events:
  "rr_events (grun.steps env n i es s) = rr_events s @
     concat (map (\<lambda>j. [start_event n (i + j) (es ! j),
                       settled_event n (i + j) (es ! j) (google_item_report env (i + j) (es ! j))]) [0..<length es])"
proof (induction es arbitrary: i s)
  case (Cons e es)
  have "rr_events (google_step env n i e s) = rr_events s @
      [start_event n i e, settled_event n i e (google_item_report env i e)]"
    by (simp add: google_step_def Let_def)
  with Cons.IH [of "Suc i" "google_step env n i e s"] show ?case
    by (simp add: upt_conv_Cons map_Suc_upt [symmetric] comp_def del: upt_Suc)
qed simp

definition stored_ids :: "item_report list \<Rightarrow> string list" where
  "stored_ids rs = concat (map (\<lambda>r. if ir_status r = ODone
     then (case truthy (ir_fileId r) of None \<Rightarrow> [] | Some f \<Rightarrow> [f]) else []) rs)"

lemma google_steps_ids:
  "rr_uploadedFileIds (grun.steps env n i es s) = rr_uploadedFileIds s @
     stored_ids (map (\<lambda>j. google_item_report env (i + j) (es ! j)) [0..<length es])"
proof (induction es arbitrary: i s)
  case Nil
  then show ?case by (simp add: stored_ids_def)
next
  case (Cons e es)
  have "rr_uploadedFileIds (google_step env n i e s) =
      rr_uploadedFileIds s @ stored_ids [google_item_report env i e]"
    by (cases "ir_status (google_item_report env i e)")
       (simp_all add: google_step_def Let_def stored_ids_def)
  with Cons.IH [of "Suc i" "google_step env n i e s"] show ?case
    by (simp add: upt_conv_Cons map_Suc_upt [symmetric] comp_def stored_ids_def del: upt_Suc)
qed

lemma google_steps_cancelled: "rr_cancelled (grun.steps env n i es s) = rr_cancelled s"
proof (induction es arbitrary: i s)
  case (Cons e es)
  have "rr_cancelled (google_step env n i e s) = rr_cancelled s"
    by (simp add: google_step_def Let_def split: item_outcome.split)
  with Cons.IH show ?case by simp
qed simp

lemma google_passed_le: "google_passed env es \<le> length es"
  by (metis diff_zero length_takeWhile_le length_upt)

lemma uploadGoogleEntries_steps:
  "uploadGoogleEntries env es =
     (let s = grun.steps env (length es) 0 (take (google_passed env es) es) empty_result
      in if google_passed env es = length es then s else cancel_run s)"
  by (simp add: uploadGoogleEntries_def grun.loop_passed grun.passed_def Let_def)

lemma google_run_summary:
  "(let r = uploadGoogleEntries env es; n = google_passed env es; rs = google_reports env es in
     rr_uploaded r + rr_duplicates r + rr_errors r = n \<and>
     rr_uploaded r = count_if (\<lambda>x. ir_status x = ODone) rs \<and>
     rr_duplicates r = count_if (\<lambda>x. ir_status x = ODuplicate) rs \<and>
     rr_cancelled r = (n < length es) \<and>
     rr_uploadedFileIds r = stored_ids rs \<and>
     rr_events r = concat (map (\<lambda>i. [start_event (length es) i (es ! i),
       settled_event (length es) i (es ! i) (rs ! i)]) [0..<n]))"
proof -
  let ?n = "google_passed env es" and ?r = "uploadGoogleEntries env es" and ?rs = "google_reports env es"
  let ?s = "grun.steps env (length es) 0 (take ?n es) empty_result"
  have n: "grun.passed env 0 es = ?n" by (simp add: grun.passed_def)
  have z: "run_counts (empty_result :: backup_entry run_result) = (0, 0, 0)" by (simp add: run_counts_def empty_result_def)
  have c: "run_counts (google_loop env (length es) 0 es empty_result) =
      (rr_uploaded ?r, rr_duplicates ?r, rr_errors ?r)"
    by (simp add: run_counts_def uploadGoogleEntries_def)
  have le: "?n \<le> length es" by (rule google_passed_le)
  have outs: "grun.outcomes env 0 (take ?n es) = map ir_status ?rs"
    by (rule nth_equalityI) (use le in \<open>simp_all add: grun.outcomes_def google_reports_def\<close>)
  have cl: "count_list (map f xs) o' = count_if (\<lambda>x. f x = o') xs" for f :: "item_report \<Rightarrow> item_outcome" and xs o'
    by (induction xs) (auto simp: eq_commute)
  have "map (\<lambda>j. google_item_report env j (take ?n es ! j)) [0..<?n] = ?rs"
    by (simp add: google_reports_def)
  then have ids: "rr_uploadedFileIds ?s = stored_ids ?rs"
    using google_steps_ids [of env "length es" 0 "take ?n es" empty_result] by (simp add: min.absorb2 [OF le])
  have ev_map: "map (\<lambda>j. [start_event (length es) j (take ?n es ! j),
        settled_event (length es) j (take ?n es ! j) (google_item_report env j (take ?n es ! j))]) [0..<?n] =
      map (\<lambda>i. [start_event (length es) i (es ! i), settled_event (length es) i (es ! i) (?rs ! i)]) [0..<?n]"
    by (rule map_cong) (auto simp: google_reports_def)
  have evs: "rr_events ?s = concat (map (\<lambda>i. [start_event (length es) i (es ! i),
       settled_event (length es) i (es ! i) (?rs ! i)]) [0..<?n])"
    using google_steps_events [of env "length es" 0 "take ?n es" empty_result]
    by (simp only: length_take min.absorb2 [OF le] add_0 ev_map empty_result_simps append_Nil)
  have "rr_uploaded ?r + rr_duplicates ?r + rr_errors ?r = ?n"
    using grun.loop_total [OF z c] n by simp
  moreover have "rr_uploaded ?r = count_if (\<lambda>x. ir_status x = ODone) ?rs"
    "rr_duplicates ?r = count_if (\<lambda>x. ir_status x = ODuplicate) ?rs"
    using grun.loop_counts [OF z c] by (simp_all add: n outs cl)
  moreover have "rr_cancelled ?r = (?n < length es)"
    using le by (auto simp: uploadGoogleEntries_steps Let_def cancel_run_def google_steps_cancelled)
  moreover have "rr_uploadedFileIds ?r = stored_ids ?rs"
    using ids by (cases "?n = length es") (simp_all add: uploadGoogleEntries_steps Let_def cancel_run_def)
  moreover have "rr_events ?r = rr_events ?s"
    by (cases "?n = length es") (simp_all add: uploadGoogleEntries_steps Let_def cancel_run_def)
  ultimately show ?thesis using evs by (simp add: Let_def)
qed

text \<open>
  C6. The bookkeeping of a Google backup: with \<open>n\<close> the number of items the gate let through,
  the three counters add up to \<open>n\<close> and count the items by outcome, \<open>cancelled\<close> says that
  some item was not reached, the stored file ids are those of the stored items in order, and the
  progress callback saw exactly a start and a settled event for each of the \<open>n\<close> items.
\<close>

theorem google_run_accounts:
  "(let r = uploadGoogleEntries env es; n = google_passed env es; rs = google_reports env es in
     rr_uploaded r + rr_duplicates r + rr_errors r = n \<and>
     rr_uploaded r = count_if (\<lambda>x. ir_status x = ODone) rs \<and>
     rr_duplicates r = count_if (\<lambda>x. ir_status x = ODuplicate) rs \<and>
     rr_cancelled r = (n < length es) \<and>
     rr_uploadedFileIds r = stored_ids rs \<and>
     rr_events r = concat (map (\<lambda>i. [start_event (length es) i (es ! i),
       settled_event (length es) i (es ! i) (rs ! i)]) [0..<n]))"
  by (rule google_run_summary)

text \<open>The content of item \<open>i\<close>, as downloaded.\<close>

definition google_content :: "google_env \<Rightarrow> backup_entry list \<Rightarrow> nat \<Rightarrow> thrown + bytes" where
  "google_content env es i = downloadGoogleBlob (ge_download env i (google_download_url (be_item (es ! i))))"

text \<open>The check endpoint knows every content stored earlier in the run.\<close>

definition check_knows_uploads :: "google_env \<Rightarrow> backup_entry list \<Rightarrow> bool" where
  "check_knows_uploads env es \<longleftrightarrow>
     (\<forall>j < length es. \<forall>i < j. \<forall>b. ir_status (google_item_report env i (es ! i)) = ODone \<and>
        google_content env es i = Inr b \<longrightarrow> ge_check env j (sha256Hex (ge_digest env) b) = Inr True)"

lemma done_downloaded:
  "ir_status (google_item_report env i (es ! i)) = ODone \<Longrightarrow>
     \<exists>b. google_content env es i = Inr b \<and> \<not> isDuplicate env i (sha256Hex (ge_digest env) b)"
  by (auto simp: google_item_report_def google_content_def error_report_def Let_def
      split: sum.splits if_splits)

text \<open>
  C20. No content is stored twice: when the check endpoint knows what the run stored so far, two
  items that both ended as newly stored have different contents.
\<close>

theorem no_content_stored_twice:
  assumes "check_knows_uploads env es" and "i < j" "j < length es"
    and "ir_status (google_item_report env i (es ! i)) = ODone"
    and "ir_status (google_item_report env j (es ! j)) = ODone"
  shows "google_content env es i \<noteq> google_content env es j"
proof
  assume same: "google_content env es i = google_content env es j"
  obtain b where b: "google_content env es j = Inr b" "\<not> isDuplicate env j (sha256Hex (ge_digest env) b)"
    using done_downloaded [OF assms(5)] by blast
  have "ge_check env j (sha256Hex (ge_digest env) b) = Inr True"
    using assms(1-4) same b(1) unfolding check_knows_uploads_def by metis
  with b(2) show False by (simp add: isDuplicate_def)
qed

definition demo_entry :: backup_entry where
  "demo_entry = \<lparr>be_item = to_drive_item one_file, be_name = ''a.png'', be_type = ''image/png'',
     be_destFolderId = None, be_destPath = None\<rparr>"

definition demo_google_env :: google_env where
  "demo_google_env = \<lparr>ge_gate = (\<lambda>_. True), ge_download = (\<lambda>i u. Inr (200, Inr [of_nat i])), ge_digest = id,
     ge_check = (\<lambda>j h. Inr (j > 0 \<and> h = ''00'')),
     ge_upload = (\<lambda>i form. Inr \<lparr>ur_id = Some ''f'', ur_size_bytes = None, ur_drive_id = None\<rparr>)\<rparr>"

lemma hex_char_01: "hex_char 0 = CHR ''0''" "hex_char (Suc 0) = CHR ''1''"
  by code_simp+

lemma demo_google_done:
  "i < 2 \<Longrightarrow> ir_status (google_item_report demo_google_env i e) = ODone"
  by (auto simp: google_item_report_def demo_google_env_def downloadGoogleBlob_def isDuplicate_def
      sha256Hex_def hex_byte_def hex_char_01 less_2_cases_iff)

theorem no_content_stored_twice_witness:
  "google_content demo_google_env [demo_entry, demo_entry] 0 \<noteq> google_content demo_google_env [demo_entry, demo_entry] 1"
proof (rule no_content_stored_twice)
  show "check_knows_uploads demo_google_env [demo_entry, demo_entry]"
    by (auto simp: check_knows_uploads_def less_Suc_eq google_content_def downloadGoogleBlob_def
        demo_google_env_def sha256Hex_def hex_byte_def hex_char_01)
qed (simp_all add: demo_google_done)

section \<open>The mobile loop\<close>

text \<open>
  On the phone an item is fetched into a temporary file (\<open>RNBlobUtil\<close>, which rejects on a
  network failure only: the HTTP status is in the response), hashed and uploaded from there.
\<close>

record mobile_env =
  me_fetch :: "nat \<Rightarrow> string \<Rightarrow> thrown + nat \<times> string"    \<comment> \<open>status and path\<close>
  me_hash :: "nat \<Rightarrow> string \<Rightarrow> thrown + string"
  me_check :: "nat \<Rightarrow> string \<Rightarrow> thrown + bool"
  me_upload :: "nat \<Rightarrow> string \<Rightarrow> thrown + unit"

datatype mobile_effect =
    MFetched string
  | MUpload string string string "string option" string   \<comment> \<open>uri, name, type, folder, source\<close>
  | MUnlink string
  | MProgress nat nat item_outcome

definition FILE_SCHEME :: string where "FILE_SCHEME = ''file://''"

text \<open>\<open>replace(/^file:\/\//, '')\<close>\<close>

definition strip_scheme :: "string \<Rightarrow> string" where
  "strip_scheme u = (if starts_with FILE_SCHEME u then drop (length FILE_SCHEME) u else u)"

definition downloadGoogleFile :: "thrown + nat \<times> string \<Rightarrow> thrown + string" where
  "downloadGoogleFile res = (case res of Inl t \<Rightarrow> Inl t | Inr (_, path) \<Rightarrow> Inr (FILE_SCHEME @ path))"

definition mobile_duplicate :: "mobile_env \<Rightarrow> nat \<Rightarrow> string \<Rightarrow> bool" where
  "mobile_duplicate env i uri =
     (case me_hash env i (strip_scheme uri) of
        Inl _ \<Rightarrow> False
      | Inr hash \<Rightarrow> if hash = [] then False else (case me_check env i hash of Inl _ \<Rightarrow> False | Inr ex \<Rightarrow> ex))"

text \<open>The \<open>try\<close>/\<open>catch\<close>/\<open>finally\<close> of one item: its outcome and effects.\<close>

definition mobile_item :: "mobile_env \<Rightarrow> nat \<Rightarrow> backup_entry \<Rightarrow> item_outcome \<times> mobile_effect list" where
  "mobile_item env i e =
     (case downloadGoogleFile (me_fetch env i (google_download_url (be_item e))) of
        Inl _ \<Rightarrow> (OError, [])
      | Inr uri \<Rightarrow>
          let (outcome, es) =
            (if mobile_duplicate env i uri then (ODuplicate, [])
             else let up = [MUpload uri (be_name e) (be_type e) (be_destFolderId e) (sourceFor (be_item e))]
                  in case me_upload env i uri of Inl _ \<Rightarrow> (OError, up) | Inr _ \<Rightarrow> (ODone, up))
          in (outcome, MFetched uri # es @ [MUnlink (strip_scheme uri)]))"

record mobile_result =
  mr_uploaded :: nat
  mr_duplicates :: nat
  mr_errors :: nat
  mr_effects :: "mobile_effect list"

definition mobile_step :: "mobile_env \<Rightarrow> nat \<Rightarrow> nat \<Rightarrow> backup_entry \<Rightarrow> mobile_result \<Rightarrow> mobile_result" where
  "mobile_step env n i e s =
     (let (outcome, es) = mobile_item env i e;
          s1 = (case outcome of
                  ODone \<Rightarrow> s\<lparr>mr_uploaded := mr_uploaded s + 1\<rparr>
                | ODuplicate \<Rightarrow> s\<lparr>mr_duplicates := mr_duplicates s + 1\<rparr>
                | OError \<Rightarrow> s\<lparr>mr_errors := mr_errors s + 1\<rparr>)
      in s1\<lparr>mr_effects := mr_effects s @ es @ [MProgress (i + 1) n outcome]\<rparr>)"

fun mobile_loop :: "mobile_env \<Rightarrow> nat \<Rightarrow> nat \<Rightarrow> backup_entry list \<Rightarrow> mobile_result \<Rightarrow> mobile_result" where
  "mobile_loop env n i [] s = s"
| "mobile_loop env n i (e # es) s = mobile_loop env n (Suc i) es (mobile_step env n i e s)"

definition mobile_uploadGoogleEntries :: "mobile_env \<Rightarrow> backup_entry list \<Rightarrow> mobile_result" where
  "mobile_uploadGoogleEntries env entries = mobile_loop env (length entries) 0 entries
     \<lparr>mr_uploaded = 0, mr_duplicates = 0, mr_errors = 0, mr_effects = []\<rparr>"

definition mobile_counts :: "mobile_result \<Rightarrow> nat \<times> nat \<times> nat" where
  "mobile_counts s = (mr_uploaded s, mr_duplicates s, mr_errors s)"

interpretation mrun: counted_run "mobile_loop env n" "\<lambda>_. True" "mobile_step env n" id
    mobile_counts "\<lambda>i e. fst (mobile_item env i e)"
  for env n
  by unfold_locales
     (auto simp: mobile_counts_def mobile_step_def Let_def split: item_outcome.split prod.split)

record preview_source =
  pr_uri :: string
  pr_authorization :: string

definition googlePreviewSource :: "google_item \<Rightarrow> string \<Rightarrow> preview_source option" where
  "googlePreviewSource it token =
     (if \<not> starts_with ''image/'' (gi_mimeType it) then None
      else let auth = ''Bearer '' @ token in
        if gi_source it = FromPhotos then
          (case truthy (gi_baseUrl it) of
             None \<Rightarrow> None
           | Some b \<Rightarrow> Some \<lparr>pr_uri = b @ ''=w1024-h1024'', pr_authorization = auth\<rparr>)
        else Some \<lparr>pr_uri = DRIVE_API @ ''/files/'' @ gi_id it @ ''?alt=media'', pr_authorization = auth\<rparr>)"

section \<open>Properties of the mobile loop\<close>

definition fetched_paths :: "mobile_effect list \<Rightarrow> string list" where
  "fetched_paths es = concat (map (\<lambda>x. case x of MFetched u \<Rightarrow> [strip_scheme u] | _ \<Rightarrow> []) es)"

definition unlinked_paths :: "mobile_effect list \<Rightarrow> string list" where
  "unlinked_paths es = concat (map (\<lambda>x. case x of MUnlink p \<Rightarrow> [p] | _ \<Rightarrow> []) es)"

lemma mobile_item_files: "fetched_paths (snd (mobile_item env i e)) = unlinked_paths (snd (mobile_item env i e))"
  by (simp add: mobile_item_def fetched_paths_def unlinked_paths_def Let_def split: sum.split)

lemma mobile_step_files:
  "fetched_paths (mr_effects s) = unlinked_paths (mr_effects s) \<Longrightarrow>
     fetched_paths (mr_effects (mobile_step env n i e s)) = unlinked_paths (mr_effects (mobile_step env n i e s))"
  using mobile_item_files [of env i e]
  by (cases "mobile_item env i e") (simp add: mobile_step_def fetched_paths_def unlinked_paths_def)

text \<open>
  A mobile backup run leaves no temporary file behind and loses no item: the files it unlinks
  are exactly the files it downloaded, and the three counters add up to the number of entries.
\<close>

theorem mobile_run_clean:
  "unlinked_paths (mr_effects (mobile_uploadGoogleEntries env es)) =
     fetched_paths (mr_effects (mobile_uploadGoogleEntries env es)) \<and>
   mr_uploaded (mobile_uploadGoogleEntries env es) + mr_duplicates (mobile_uploadGoogleEntries env es) +
     mr_errors (mobile_uploadGoogleEntries env es) = length es"
proof -
  let ?s0 = "\<lparr>mr_uploaded = 0, mr_duplicates = 0, mr_errors = 0, mr_effects = []\<rparr>"
  have "fetched_paths (mr_effects (mrun.steps env n i xs ?s0)) = unlinked_paths (mr_effects (mrun.steps env n i xs ?s0))"
    for n i xs
    by (rule mrun.steps_inv [where P = "\<lambda>s. fetched_paths (mr_effects s) = unlinked_paths (mr_effects s)"])
       (simp add: mobile_step_files, simp add: fetched_paths_def unlinked_paths_def)
  then have "fetched_paths (mr_effects (mobile_loop env n i xs ?s0)) = unlinked_paths (mr_effects (mobile_loop env n i xs ?s0))"
    for n i xs
    by (simp add: mrun.loop_passed Let_def)
  moreover have "mrun.passed 0 es = length es" by (simp add: mrun.passed_def takeWhile_eq_all_conv [THEN iffD2])
  ultimately show ?thesis
    using mrun.loop_total [of ?s0 env "length es" 0 es]
    by (simp add: mobile_uploadGoogleEntries_def mobile_counts_def)
qed

text \<open>
  The mobile download never looks at the HTTP status, so the body of an error answer is
  backed up as if it were the file, where the web loop reports an error.
\<close>

theorem mobile_backs_up_error_pages:
  "mobile_item (\<lparr>me_fetch = \<lambda>i u. Inr (404, ''/tmp/x''), me_hash = \<lambda>i p. Inr ''ab'', me_check = \<lambda>i h. Inr False,
       me_upload = \<lambda>i u. Inr ()\<rparr>) 0 e =
     (ODone, [MFetched ''file:///tmp/x'',
              MUpload ''file:///tmp/x'' (be_name e) (be_type e) (be_destFolderId e) (sourceFor (be_item e)),
              MUnlink ''/tmp/x'']) \<and>
   ir_status (google_item_report (demo_google_env\<lparr>ge_download := \<lambda>i u. Inr (404, Inr b)\<rparr>) 0 e) = OError"
  by (simp add: mobile_item_def downloadGoogleFile_def mobile_duplicate_def strip_scheme_def FILE_SCHEME_def
      starts_with_def google_item_report_def downloadGoogleBlob_def error_report_def)

end
