(* ===== verification/EmailProviders.thy ===== *)
theory EmailProviders
  imports GoogleRun
begin

text \<open>
  Listing a mailbox for the email backup, first part of \<open>frontend/src/api/emailProviders.ts\<close>: the
  retrieval criteria, the Gmail and Outlook page fetches, and the two listing loops. What the
  providers answer, \<open>Date.now()\<close>, the engine's date functions and the caller's \<open>shouldStop\<close>
  are fields of an environment; the pages handed to \<open>onPage\<close> are recorded.
\<close>

section \<open>Data\<close>

datatype provider = Gmail | Microsoft

record email_item =
  ei_id :: string
  ei_provider :: provider
  ei_from :: string
  ei_fromAddr :: string
  ei_to :: string
  ei_subject :: string
  ei_snippet :: string
  ei_date :: string
  ei_starred :: bool
  ei_unread :: bool
  ei_hasAttachments :: bool
  ei_sizeEstimate :: nat

datatype retrieval = ByAmount nat | BySince string | BySize nat

record fetch_progress =
  fp_fetched :: nat
  fp_fraction :: "rat option"

definition PAGE_SIZE :: nat where "PAGE_SIZE = 200"
definition SAFETY_CAP_EMAILS :: nat where "SAFETY_CAP_EMAILS = 10000"
definition GMAIL_API :: string where "GMAIL_API = ''https://gmail.googleapis.com/gmail/v1/users/me''"
definition GRAPH_API :: string where "GRAPH_API = ''https://graph.microsoft.com/v1.0''"

text \<open>
  \<open>new Date(s).getTime()\<close> (\<open>None\<close> is \<open>NaN\<close>) and \<open>new Date(n).toISOString()\<close>
  (\<open>None\<close> is its \<open>RangeError\<close>).
\<close>

record dates =
  getTime :: "string \<Rightarrow> int option"
  toISOString :: "jsnum \<Rightarrow> string option"

section \<open>Retrieval criteria\<close>

definition total_bytes :: "email_item list \<Rightarrow> nat" where
  "total_bytes items = sum_list (map ei_sizeEstimate items)"

definition since_ts :: "dates \<Rightarrow> string \<Rightarrow> int option" where
  "since_ts dt s = getTime dt (s @ ''T00:00:00'')"

definition clamp :: "rat \<Rightarrow> rat" where
  "clamp v = max 0 (min 1 v)"

definition fetchProgressFor :: "dates \<Rightarrow> int \<Rightarrow> retrieval \<Rightarrow> email_item list \<Rightarrow> fetch_progress" where
  "fetchProgressFor dt now c items =
     \<lparr>fp_fetched = length items, fp_fraction =
       (case c of
          ByAmount n \<Rightarrow> if 0 < n then Some (clamp (of_nat (length items) / of_nat n)) else None
        | BySize n \<Rightarrow> if 0 < n then Some (clamp (of_nat (total_bytes items) / of_nat n)) else None
        | BySince s \<Rightarrow>
            (if items = [] then None
             else case since_ts dt s of
                    None \<Rightarrow> None
                  | Some since \<Rightarrow>
                      if now \<le> since then None
                      else case getTime dt (ei_date (last items)) of
                             None \<Rightarrow> None
                           | Some t \<Rightarrow> Some (clamp (of_int (now - t) / of_int (now - since)))))\<rparr>"

text \<open>A comparison with \<open>NaN\<close> is false.\<close>

definition criteriaSatisfied :: "dates \<Rightarrow> retrieval \<Rightarrow> email_item list \<Rightarrow> bool" where
  "criteriaSatisfied dt c items =
     (case c of
        ByAmount n \<Rightarrow> n \<le> length items
      | BySince s \<Rightarrow>
          (if items = [] then False
           else case (getTime dt (ei_date (last items)), since_ts dt s) of
                  (Some t, Some since) \<Rightarrow> t < since
                | _ \<Rightarrow> False)
      | BySize n \<Rightarrow> n \<le> total_bytes items)"

definition keeps_since :: "dates \<Rightarrow> string \<Rightarrow> email_item \<Rightarrow> bool" where
  "keeps_since dt s i =
     (case getTime dt (ei_date i) of
        None \<Rightarrow> True
      | Some t \<Rightarrow> (case since_ts dt s of None \<Rightarrow> False | Some since \<Rightarrow> since \<le> t))"

definition finalizeByCriteria :: "dates \<Rightarrow> retrieval \<Rightarrow> email_item list \<Rightarrow> email_item list" where
  "finalizeByCriteria dt c items =
     (case c of
        ByAmount n \<Rightarrow> take n items
      | BySince s \<Rightarrow> filter (keeps_since dt s) items
      | BySize _ \<Rightarrow> items)"

section \<open>Shared helpers\<close>

text \<open>Reading a field of \<open>null\<close>; the text of the message is the engine's.\<close>

definition null_read :: thrown where
  "null_read = ThrowError ''Cannot read properties of null''"

definition providerFetch :: "thrown + 'a g_response \<Rightarrow> thrown + 'a option" where
  "providerFetch res =
     (case res of
        Inl t \<Rightarrow> Inl t
      | Inr r \<Rightarrow>
          if \<not> g_ok r then Inl (ThrowError (show_nat (g_status r) @ '': '' @ or_else (g_text r) []))
          else if g_status r = 204 then Inr None
          else Inr (g_json r))"

definition fetch_object :: "thrown + 'a g_response \<Rightarrow> thrown + 'a" where
  "fetch_object res =
     (case providerFetch res of Inl t \<Rightarrow> Inl t | Inr None \<Rightarrow> Inl null_read | Inr (Some v) \<Rightarrow> Inr v)"

text \<open>
  \<open>header.match(/<([^>]+)>/)\<close>: the first \<open><\<close> followed by at least one character that is not
  \<open>>\<close> and then by a \<open>>\<close>.
\<close>

fun angle_match :: "string \<Rightarrow> string option" where
  "angle_match [] = None"
| "angle_match (c # cs) =
     (if c = CHR ''<'' then
        let inner = takeWhile (\<lambda>d. d \<noteq> CHR ''>'') cs
        in if inner \<noteq> [] \<and> length inner < length cs then Some inner else angle_match cs
      else angle_match cs)"

definition bareAddress :: "string \<Rightarrow> string" where
  "bareAddress header =
     to_lower (trim (case angle_match header of Some m \<Rightarrow> m | None \<Rightarrow> header))"

type_synonym gmail_headers = "(string \<times> string) list"

definition gmailHeader :: "gmail_headers \<Rightarrow> string \<Rightarrow> string" where
  "gmailHeader headers name =
     (case find (\<lambda>h. to_lower (fst h) = to_lower name) headers of None \<Rightarrow> [] | Some h \<Rightarrow> snd h)"

section \<open>Gmail pages\<close>

record gmail_meta =
  gm_id :: string
  gm_headers :: "gmail_headers option"
  gm_labelIds :: "string list option"
  gm_snippet :: "string option"
  gm_internalDate :: "string option"
  gm_sizeEstimate :: "nat option"

record gmail_env =
  gv_ids :: "nat \<Rightarrow> nat \<Rightarrow> string \<Rightarrow> thrown + string listing_page g_response"   \<comment> \<open>page, call, url\<close>
  gv_meta :: "nat \<Rightarrow> string \<Rightarrow> thrown + gmail_meta g_response"            \<comment> \<open>page, url\<close>
  gv_dates :: dates
  gv_now :: "nat \<Rightarrow> int"                                       \<comment> \<open>after page \<open>k\<close>\<close>
  gv_stop :: "nat \<Rightarrow> bool"                                       \<comment> \<open>the calls of \<open>shouldStop\<close>\<close>

definition gmail_list_url :: "string option \<Rightarrow> string" where
  "gmail_list_url tok = GMAIL_API @ ''/messages?maxResults=100&includeSpamTrash=false'' @ page_suffix tok"

fun gmail_id_loop ::
  "(nat \<Rightarrow> string \<Rightarrow> thrown + string listing_page g_response) \<Rightarrow> nat \<Rightarrow> nat \<Rightarrow> string option \<Rightarrow> string list \<Rightarrow>
     (thrown + string list \<times> string option) option" where
  "gmail_id_loop fetch 0 j tok ids = None"
| "gmail_id_loop fetch (Suc fuel) j tok ids =
     (if length ids < PAGE_SIZE then
        case fetch_object (fetch j (gmail_list_url tok)) of
          Inl t \<Rightarrow> Some (Inl t)
        | Inr data \<Rightarrow>
            let ids' = ids @ or_else (pg_items data) []
            in case truthy (pg_next data) of
                 None \<Rightarrow> Some (Inr (ids', None))
               | Some t \<Rightarrow> gmail_id_loop fetch fuel (Suc j) (Some t) ids'
      else Some (Inr (ids, tok)))"

definition fetchGmailIdPage :: "nat \<Rightarrow> gmail_env \<Rightarrow> nat \<Rightarrow> string option \<Rightarrow> (thrown + string list \<times> string option) option" where
  "fetchGmailIdPage fuel env k tok = gmail_id_loop (gv_ids env k) fuel 0 tok []"

definition gmail_meta_url :: "string \<Rightarrow> string" where
  "gmail_meta_url i = GMAIL_API @ ''/messages/'' @ i @ ''?format=metadata'' @
     ''&metadataHeaders=From&metadataHeaders=To&metadataHeaders=Subject&metadataHeaders=Date''"

definition range_error :: thrown where
  "range_error = ThrowError ''Invalid time value''"

definition to_gmail_item :: "dates \<Rightarrow> gmail_meta \<Rightarrow> thrown + email_item" where
  "to_gmail_item dt m =
     (let headers = or_else (gm_headers m) []; labels = or_else (gm_labelIds m) [];
          from = gmailHeader headers ''From'';
          item = \<lparr>ei_id = gm_id m, ei_provider = Gmail, ei_from = from, ei_fromAddr = bareAddress from,
            ei_to = gmailHeader headers ''To'', ei_subject = gmailHeader headers ''Subject'',
            ei_snippet = or_else (gm_snippet m) [], ei_date = [],
            ei_starred = (''STARRED'' \<in> set labels), ei_unread = (''UNREAD'' \<in> set labels),
            ei_hasAttachments = False, ei_sizeEstimate = or_else (gm_sizeEstimate m) 0\<rparr>
      in case truthy (gm_internalDate m) of
           None \<Rightarrow> Inr item
         | Some d \<Rightarrow> (case toISOString dt (js_Number d) of
                         None \<Rightarrow> Inl range_error | Some txt \<Rightarrow> Inr (item\<lparr>ei_date := txt\<rparr>)))"

text \<open>\<open>Promise.all\<close>: all the values in order, or a rejection (here the first by position).\<close>

fun promise_all :: "(thrown + 'a) list \<Rightarrow> thrown + 'a list" where
  "promise_all [] = Inr []"
| "promise_all (p # ps) =
     (case p of Inl t \<Rightarrow> Inl t | Inr v \<Rightarrow> (case promise_all ps of Inl t \<Rightarrow> Inl t | Inr vs \<Rightarrow> Inr (v # vs)))"

definition gmail_meta_item :: "gmail_env \<Rightarrow> nat \<Rightarrow> string \<Rightarrow> thrown + email_item" where
  "gmail_meta_item env k i =
     (case fetch_object (gv_meta env k (gmail_meta_url i)) of
        Inl t \<Rightarrow> Inl t | Inr m \<Rightarrow> to_gmail_item (gv_dates env) m)"

definition BATCH :: nat where "BATCH = 10"

function fetchGmailMetadata :: "gmail_env \<Rightarrow> nat \<Rightarrow> string list \<Rightarrow> thrown + email_item list" where
  "fetchGmailMetadata env k ids =
     (if ids = [] then Inr []
      else case promise_all (map (gmail_meta_item env k) (take BATCH ids)) of
             Inl t \<Rightarrow> Inl t
           | Inr batch \<Rightarrow>
               (case fetchGmailMetadata env k (drop BATCH ids) of
                  Inl t \<Rightarrow> Inl t | Inr items \<Rightarrow> Inr (batch @ items)))"
  by pat_completeness auto
termination by (relation "measure (\<lambda>(env, k, ids). length ids)") (auto simp: BATCH_def)

declare fetchGmailMetadata.simps [simp del]

section \<open>Outlook pages\<close>

record recipient =
  rc_name :: "string option"
  rc_address :: "string option"

definition show_recipient :: "recipient \<Rightarrow> string" where
  "show_recipient r =
     (let name = or_else (rc_name r) []; addr = or_else (rc_address r) []
      in if name \<noteq> [] \<and> name \<noteq> addr then name @ '' <'' @ addr @ ''>'' else addr)"

text \<open>\<open>join(', ')\<close>\<close>

fun join_with :: "string \<Rightarrow> string list \<Rightarrow> string" where
  "join_with sep [] = []"
| "join_with sep [s] = s"
| "join_with sep (s # ss) = s @ sep @ join_with sep ss"

definition graphRecipients :: "recipient list option \<Rightarrow> string" where
  "graphRecipients rs = join_with '', '' (filter (\<lambda>s. s \<noteq> []) (map show_recipient (or_else rs [])))"

record graph_meta =
  gr_id :: string
  gr_from :: "recipient option"
  gr_to :: "recipient list option"
  gr_subject :: "string option"
  gr_bodyPreview :: "string option"
  gr_receivedDateTime :: "string option"
  gr_flagStatus :: "string option"
  gr_isRead :: "bool option"
  gr_hasAttachments :: bool

definition graph_from :: "recipient option \<Rightarrow> string" where
  "graph_from r = graphRecipients (Some (case r of None \<Rightarrow> [] | Some x \<Rightarrow> [x]))"

definition to_outlook_item :: "graph_meta \<Rightarrow> email_item" where
  "to_outlook_item m =
     (let from = graph_from (gr_from m)
      in \<lparr>ei_id = gr_id m, ei_provider = Microsoft, ei_from = from, ei_fromAddr = bareAddress from,
          ei_to = graphRecipients (gr_to m), ei_subject = or_else (gr_subject m) [],
          ei_snippet = or_else (gr_bodyPreview m) [], ei_date = or_else (gr_receivedDateTime m) [],
          ei_starred = (gr_flagStatus m = Some ''flagged''), ei_unread = (gr_isRead m = Some False),
          ei_hasAttachments = gr_hasAttachments m, ei_sizeEstimate = 0\<rparr>)"

record outlook_env =
  ov_page :: "nat \<Rightarrow> nat \<Rightarrow> string \<Rightarrow> thrown + graph_meta listing_page g_response"
  ov_dates :: dates
  ov_now :: "nat \<Rightarrow> int"
  ov_stop :: "nat \<Rightarrow> bool"

text \<open>An empty \<open>@odata.nextLink\<close> ends the loop of the next round: \<open>while (url \<dots>)\<close>.\<close>

fun outlook_page_loop ::
  "(nat \<Rightarrow> string \<Rightarrow> thrown + graph_meta listing_page g_response) \<Rightarrow> nat \<Rightarrow> nat \<Rightarrow> string option \<Rightarrow> email_item list \<Rightarrow>
     (thrown + email_item list \<times> string option) option" where
  "outlook_page_loop fetch 0 j url items = None"
| "outlook_page_loop fetch (Suc fuel) j url items =
     (case truthy url of
        None \<Rightarrow> Some (Inr (items, url))
      | Some u \<Rightarrow>
          if length items < PAGE_SIZE then
            case fetch_object (fetch j u) of
              Inl t \<Rightarrow> Some (Inl t)
            | Inr data \<Rightarrow> outlook_page_loop fetch fuel (Suc j) (pg_next data)
                           (items @ map to_outlook_item (or_else (pg_items data) []))
          else Some (Inr (items, url)))"

definition fetchOutlookPage :: "nat \<Rightarrow> outlook_env \<Rightarrow> nat \<Rightarrow> string \<Rightarrow> (thrown + email_item list \<times> string option) option" where
  "fetchOutlookPage fuel env k url = outlook_page_loop (ov_page env k) fuel 0 (Some url) []"

section \<open>The listing loops\<close>

type_synonym shown_page = "email_item list \<times> fetch_progress"

record mail_listing =
  ml_items :: "email_item list"
  ml_truncated :: bool
  ml_stopped :: bool
  ml_shown :: "shown_page list"   \<comment> \<open>what \<open>onPage\<close> was given\<close>

definition emitPage :: "dates \<Rightarrow> int \<Rightarrow> retrieval \<Rightarrow> email_item list \<Rightarrow> shown_page" where
  "emitPage dt now c items =
     (let trimmed = finalizeByCriteria dt c items in (trimmed, fetchProgressFor dt now c trimmed))"

definition finish_listing ::
  "dates \<Rightarrow> retrieval \<Rightarrow> email_item list \<Rightarrow> bool \<Rightarrow> bool \<Rightarrow> shown_page list \<Rightarrow> (thrown + mail_listing) option" where
  "finish_listing dt c items truncated stopped shown =
     Some (Inr \<lparr>ml_items = finalizeByCriteria dt c items, ml_truncated = truncated, ml_stopped = stopped,
                ml_shown = shown\<rparr>)"

text \<open>
  The pages of Gmail: the ids, then their rows. The number of list calls of one page is bounded
  by \<open>pf\<close> (a page of ids the server lets grow for ever is \<open>None\<close>).
\<close>

fun gmail_loop ::
  "nat \<Rightarrow> gmail_env \<Rightarrow> retrieval \<Rightarrow> nat \<Rightarrow> nat \<Rightarrow> string option \<Rightarrow> email_item list \<Rightarrow> shown_page list \<Rightarrow>
     (thrown + mail_listing) option" where
  "gmail_loop pf env c 0 k tok items shown = None"
| "gmail_loop pf env c (Suc fuel) k tok items shown =
     (if gv_stop env (2 * k) then finish_listing (gv_dates env) c items False True shown
      else case fetchGmailIdPage pf env k tok of
             None \<Rightarrow> None
           | Some (Inl t) \<Rightarrow> Some (Inl t)
           | Some (Inr (ids, nxt)) \<Rightarrow>
               if ids = [] then finish_listing (gv_dates env) c items False False shown
               else case fetchGmailMetadata env k ids of
                      Inl t \<Rightarrow> Some (Inl t)
                    | Inr page \<Rightarrow>
                        let items' = items @ page;
                            shown' = shown @ [emitPage (gv_dates env) (gv_now env k) c items']
                        in if SAFETY_CAP_EMAILS \<le> length items' then
                             finish_listing (gv_dates env) c items' True False shown'
                           else if criteriaSatisfied (gv_dates env) c items' then
                             finish_listing (gv_dates env) c items' False False shown'
                           else if truthy nxt = None then
                             finish_listing (gv_dates env) c items' False False shown'
                           else if gv_stop env (2 * k + 1) then
                             finish_listing (gv_dates env) c items' False True shown'
                           else gmail_loop pf env c fuel (Suc k) nxt items' shown')"

definition listGmailMessages :: "nat \<Rightarrow> nat \<Rightarrow> gmail_env \<Rightarrow> retrieval \<Rightarrow> (thrown + mail_listing) option" where
  "listGmailMessages fuel pf env c = gmail_loop pf env c fuel 0 None [] []"

definition OUTLOOK_START :: string where
  "OUTLOOK_START = GRAPH_API @ ''/me/messages?$top=100&$orderby=receivedDateTime desc'' @
     ''&$select=id,subject,from,toRecipients,receivedDateTime,hasAttachments,flag,isRead,bodyPreview''"

definition NO_SIZE :: thrown where
  "NO_SIZE = ThrowError (''Retrieving until a target size is not supported for Outlook '' @ em_dash @
     '' Graph does not report message sizes.'')"

fun outlook_loop ::
  "nat \<Rightarrow> outlook_env \<Rightarrow> retrieval \<Rightarrow> nat \<Rightarrow> nat \<Rightarrow> string option \<Rightarrow> email_item list \<Rightarrow> shown_page list \<Rightarrow>
     (thrown + mail_listing) option" where
  "outlook_loop pf env c 0 k url items shown = None"
| "outlook_loop pf env c (Suc fuel) k url items shown =
     (case truthy url of
        None \<Rightarrow> finish_listing (ov_dates env) c items False False shown
      | Some u \<Rightarrow>
          if ov_stop env (2 * k) then finish_listing (ov_dates env) c items False True shown
          else case fetchOutlookPage pf env k u of
                 None \<Rightarrow> None
               | Some (Inl t) \<Rightarrow> Some (Inl t)
               | Some (Inr (page, nxt)) \<Rightarrow>
                   if page = [] then finish_listing (ov_dates env) c items False False shown
                   else
                     let items' = items @ page;
                         shown' = shown @ [emitPage (ov_dates env) (ov_now env k) c items']
                     in if SAFETY_CAP_EMAILS \<le> length items' then
                          finish_listing (ov_dates env) c items' True False shown'
                        else if criteriaSatisfied (ov_dates env) c items' then
                          finish_listing (ov_dates env) c items' False False shown'
                        else if ov_stop env (2 * k + 1) then
                          finish_listing (ov_dates env) c items' False True shown'
                        else outlook_loop pf env c fuel (Suc k) nxt items' shown')"

definition listOutlookMessages :: "nat \<Rightarrow> nat \<Rightarrow> outlook_env \<Rightarrow> retrieval \<Rightarrow> (thrown + mail_listing) option" where
  "listOutlookMessages fuel pf env c =
     (case c of
        BySize _ \<Rightarrow> Some (Inl NO_SIZE)
      | _ \<Rightarrow> outlook_loop pf env c fuel 0 (Some OUTLOOK_START) [] [])"

section \<open>What the two loops share\<close>

text \<open>
  A listing loop over pages: it ends with what it has, ends after a page it has shown, or goes on
  because that page neither reached the cap nor satisfied the criteria.
\<close>

locale mailbox =
  fixes loop :: "nat \<Rightarrow> nat \<Rightarrow> 't \<Rightarrow> email_item list \<Rightarrow> shown_page list \<Rightarrow> (thrown + mail_listing) option"
    and page :: "nat \<Rightarrow> 't \<Rightarrow> (thrown + email_item list \<times> 't) option"
    and dt :: dates and c :: retrieval and now :: "nat \<Rightarrow> int"
  assumes loop_0: "loop 0 k t items shown = None"
    and loop_Suc: "
      (page k t = None \<and> loop (Suc f) k t items shown = None) \<or>
      (\<exists>e. page k t = Some (Inl e) \<and> loop (Suc f) k t items shown = Some (Inl e)) \<or>
      (\<exists>st. loop (Suc f) k t items shown = finish_listing dt c items False st shown) \<or>
      (\<exists>xs t' tr st. page k t = Some (Inr (xs, t')) \<and> xs \<noteq> [] \<and> tr = (SAFETY_CAP_EMAILS \<le> length (items @ xs)) \<and>
         loop (Suc f) k t items shown =
           finish_listing dt c (items @ xs) tr st (shown @ [emitPage dt (now k) c (items @ xs)])) \<or>
      (\<exists>xs t'. page k t = Some (Inr (xs, t')) \<and> xs \<noteq> [] \<and> length (items @ xs) < SAFETY_CAP_EMAILS \<and>
         \<not> criteriaSatisfied dt c (items @ xs) \<and>
         loop (Suc f) k t items shown =
           loop f (Suc k) t' (items @ xs) (shown @ [emitPage dt (now k) c (items @ xs)]))"
begin

lemma loop_cases [consumes 1, case_names ended shown more]:
  assumes "loop (Suc f) k t items shown = Some (Inr r)"
  obtains (ended) st where "r = \<lparr>ml_items = finalizeByCriteria dt c items, ml_truncated = False, ml_stopped = st, ml_shown = shown\<rparr>"
  | (shown) xs t' st where "page k t = Some (Inr (xs, t'))" "xs \<noteq> []"
      "r = \<lparr>ml_items = finalizeByCriteria dt c (items @ xs), ml_truncated = (SAFETY_CAP_EMAILS \<le> length (items @ xs)),
            ml_stopped = st, ml_shown = shown @ [emitPage dt (now k) c (items @ xs)]\<rparr>"
  | (more) xs t' where "page k t = Some (Inr (xs, t'))" "xs \<noteq> []" "length (items @ xs) < SAFETY_CAP_EMAILS"
      "loop f (Suc k) t' (items @ xs) (shown @ [emitPage dt (now k) c (items @ xs)]) = Some (Inr r)"
  using loop_Suc [of k t f items shown] assms unfolding finish_listing_def by auto

text \<open>Every page brings an item, so the cap bounds the number of pages.\<close>

lemma listing_ends:
  assumes "\<And>k t. page k t \<noteq> None"
  shows "SAFETY_CAP_EMAILS - length items < f \<Longrightarrow> \<exists>r. loop f k t items shown = Some r"
proof (induction f arbitrary: k t items shown)
  case (Suc f)
  have rec: "\<exists>r. loop f (Suc k) t' (items @ xs) sh = Some r"
    if "xs \<noteq> []" "length (items @ xs) < SAFETY_CAP_EMAILS" for xs t' sh
  proof (rule Suc.IH)
    show "SAFETY_CAP_EMAILS - length (items @ xs) < f" using that Suc.prems by (cases xs) auto
  qed
  show ?case using loop_Suc [of k t f items shown] assms [of k t] rec unfolding finish_listing_def by metis
qed simp

lemma listing_shown:
  "loop f k t items shown = Some (Inr r) \<Longrightarrow>
     (if shown = [] then items = [] else fst (last shown) = finalizeByCriteria dt c items) \<Longrightarrow>
     ml_items r = (if ml_shown r = [] then finalizeByCriteria dt c [] else fst (last (ml_shown r)))"
proof (induction f arbitrary: k t items shown)
  case (Suc f)
  from Suc.prems(1) show ?case
  proof (cases rule: loop_cases)
    case (ended st)
    with Suc.prems(2) show ?thesis by (auto split: if_splits)
  next
    case (shown xs t' st)
    then show ?thesis by (simp add: emitPage_def Let_def)
  next
    case (more xs t')
    from Suc.IH [OF more(4)] show ?thesis by (simp add: emitPage_def Let_def)
  qed
qed (simp add: loop_0)

lemma listing_final:
  "loop f k t items shown = Some (Inr r) \<Longrightarrow> \<exists>raw. ml_items r = finalizeByCriteria dt c raw"
proof (induction f arbitrary: k t items shown)
  case (Suc f)
  from Suc.prems show ?case by (cases rule: loop_cases) (auto intro: Suc.IH)
qed (simp add: loop_0)

lemma listing_bounded:
  assumes "\<And>k t xs t'. page k t = Some (Inr (xs, t')) \<Longrightarrow> length xs \<le> n"
  shows "loop f k t items shown = Some (Inr r) \<Longrightarrow> length items < SAFETY_CAP_EMAILS \<Longrightarrow>
    \<exists>raw. ml_items r = finalizeByCriteria dt c raw \<and> length raw < SAFETY_CAP_EMAILS + n \<and>
      (ml_truncated r \<longrightarrow> SAFETY_CAP_EMAILS \<le> length raw)"
proof (induction f arbitrary: k t items shown)
  case (Suc f)
  from Suc.prems(1) show ?case
  proof (cases rule: loop_cases)
    case (ended st)
    with Suc.prems(2) show ?thesis by (intro exI [of _ items]) simp
  next
    case (shown xs t' st)
    with Suc.prems(2) assms [OF shown(1)] show ?thesis by (intro exI [of _ "items @ xs"]) simp
  next
    case (more xs t')
    from Suc.IH [OF more(4) more(3)] show ?thesis .
  qed
qed (simp add: loop_0)

end

definition gmail_page :: "nat \<Rightarrow> gmail_env \<Rightarrow> nat \<Rightarrow> string option \<Rightarrow> (thrown + email_item list \<times> string option) option" where
  "gmail_page pf env k tok =
     (case fetchGmailIdPage pf env k tok of
        None \<Rightarrow> None
      | Some (Inl t) \<Rightarrow> Some (Inl t)
      | Some (Inr (ids, nxt)) \<Rightarrow>
          (case fetchGmailMetadata env k ids of
             Inl t \<Rightarrow> Some (Inl t)
           | Inr page \<Rightarrow> Some (Inr (page, nxt))))"

definition outlook_page :: "nat \<Rightarrow> outlook_env \<Rightarrow> nat \<Rightarrow> string option \<Rightarrow> (thrown + email_item list \<times> string option) option" where
  "outlook_page pf env k url = fetchOutlookPage pf env k (or_else (truthy url) [])"

lemma promise_all_length: "promise_all ps = Inr vs \<Longrightarrow> length vs = length ps"
  by (induction ps arbitrary: vs) (auto split: sum.splits)

lemma fetchGmailMetadata_length: "fetchGmailMetadata env k ids = Inr page \<Longrightarrow> length page = length ids"
proof (induction env k ids arbitrary: page rule: fetchGmailMetadata.induct)
  case (1 env k ids)
  show ?case
  proof (cases "ids = []")
    case True
    with "1.prems" show ?thesis by (simp add: fetchGmailMetadata.simps)
  next
    case False
    with "1.prems" obtain batch items where
      b: "promise_all (map (gmail_meta_item env k) (take BATCH ids)) = Inr batch"
      and i: "fetchGmailMetadata env k (drop BATCH ids) = Inr items" and p: "page = batch @ items"
      by (subst (asm) fetchGmailMetadata.simps) (auto split: sum.splits)
    from promise_all_length [OF b] "1.IH" [OF False b i] p show ?thesis by simp
  qed
qed

interpretation gmail: mailbox "gmail_loop pf env c" "gmail_page pf env" "gv_dates env" c "gv_now env"
  for pf env c
proof (unfold_locales, goal_cases)
  case (2 k t f items shown)
  show ?case
  proof (cases "fetchGmailIdPage pf env k t")
    case None
    then show ?thesis by (auto simp: gmail_page_def)
  next
    case (Some res)
    show ?thesis
    proof (cases res)
      case (Inl e)
      with Some show ?thesis by (auto simp: gmail_page_def)
    next
      case (Inr y)
      then obtain ids nxt where y: "res = Inr (ids, nxt)" by (cases y) auto
      show ?thesis
      proof (cases "fetchGmailMetadata env k ids")
        case (Inl e)
        with Some y show ?thesis by (auto simp: gmail_page_def)
      next
        case (Inr page)
        then have "page = [] \<longleftrightarrow> ids = []" by (auto dest: fetchGmailMetadata_length)
        with Some y Inr show ?thesis by (auto simp: gmail_page_def Let_def not_le)
      qed
    qed
  qed
qed simp

interpretation outlook: mailbox "outlook_loop pf env c" "outlook_page pf env" "ov_dates env" c "ov_now env"
  for pf env c
proof (unfold_locales, goal_cases)
  case (2 k t f items shown)
  show ?case
    by (cases "truthy t") (auto simp: outlook_page_def Let_def not_le split: option.split sum.split prod.split)
qed simp

section \<open>Properties of the listings\<close>

lemma drop_truthy: "truthy s = Some t \<Longrightarrow> t \<noteq> []"
  by (auto simp: truthy_def split: if_splits)

interpretation gmail_ids: token_paging
    "gmail_id_loop fetch"
    "\<lambda>j tok. map_sum id (\<lambda>pg. (or_else (pg_items pg) [], truthy (pg_next pg))) (fetch_object (fetch j (gmail_list_url tok)))"
    "\<lambda>ids. length ids < PAGE_SIZE"
  for fetch
  by unfold_locales (auto simp: map_sum_def Let_def split: sum.splits)

text \<open>A page of ids ends after two list calls of a full 100 ids, or at the last page.\<close>

lemma gmail_ids_end:
  assumes "\<And>j u pg. fetch_object (fetch j u) = Inr pg \<Longrightarrow> truthy (pg_next pg) \<noteq> None \<Longrightarrow> or_else (pg_items pg) [] \<noteq> []"
  shows "\<exists>r. gmail_id_loop fetch (Suc PAGE_SIZE) 0 tok [] = Some r"
proof (rule gmail_ids.loop_ends [where cap = PAGE_SIZE])
  fix k t xs t'
  assume "map_sum id (\<lambda>pg. (or_else (pg_items pg) [], truthy (pg_next pg))) (fetch_object (fetch k (gmail_list_url t)))
      = Inr (xs, Some t')"
  then obtain pg where pg: "fetch_object (fetch k (gmail_list_url t)) = Inr pg"
    "xs = or_else (pg_items pg) []" "truthy (pg_next pg) = Some t'" by (auto simp: map_sum_Inr)
  show "xs \<noteq> []" using assms [OF pg(1)] pg(2,3) by simp
qed auto

text \<open>
  Listing a Gmail mailbox ends within 10000 pages, whatever the criteria, the tokens and
  the size of the mailbox: if no id page that promises more is empty, \<open>listGmailMessages\<close> returns
  or throws.
\<close>

theorem gmail_listing_ends:
  assumes "\<And>k j u pg. fetch_object (gv_ids env k j u) = Inr pg \<Longrightarrow> truthy (pg_next pg) \<noteq> None \<Longrightarrow>
    or_else (pg_items pg) [] \<noteq> []"
  shows "\<exists>r. listGmailMessages (Suc SAFETY_CAP_EMAILS) (Suc PAGE_SIZE) env c = Some r"
  unfolding listGmailMessages_def
proof (rule gmail.listing_ends)
  fix k t
  obtain r where "gmail_id_loop (gv_ids env k) (Suc PAGE_SIZE) 0 t [] = Some r"
    using gmail_ids_end [of "gv_ids env k" t] assms by blast
  then show "gmail_page (Suc PAGE_SIZE) env k t \<noteq> None"
    by (auto simp: gmail_page_def fetchGmailIdPage_def split: sum.split prod.split)
qed simp

definition demo_dates :: dates where
  "demo_dates = \<lparr>getTime = (\<lambda>_. None), toISOString = (\<lambda>_. Some ''2025'')\<rparr>"

definition demo_gmail :: gmail_env where
  "demo_gmail = \<lparr>gv_ids = (\<lambda>k j u. Inr \<lparr>g_status = 200, g_text = None, g_json = Some \<lparr>pg_items = Some [''m''], pg_next = Some ''t''\<rparr>\<rparr>),
     gv_meta = (\<lambda>k u. Inr \<lparr>g_status = 200, g_text = None, g_json = Some \<lparr>gm_id = ''m'', gm_headers = None, gm_labelIds = None,
        gm_snippet = None, gm_internalDate = None, gm_sizeEstimate = Some 5\<rparr>\<rparr>),
     gv_dates = demo_dates, gv_now = (\<lambda>_. 0), gv_stop = (\<lambda>_. False)\<rparr>"

theorem gmail_listing_ends_witness:
  "\<exists>r. listGmailMessages (Suc SAFETY_CAP_EMAILS) (Suc PAGE_SIZE) demo_gmail (ByAmount 7) = Some r"
  by (rule gmail_listing_ends) (auto simp: demo_gmail_def fetch_object_def providerFetch_def g_ok_def)

lemma finalize_keeps:
  "(case c of ByAmount n \<Rightarrow> length (finalizeByCriteria dt c raw) \<le> n
    | BySince s \<Rightarrow> (\<forall>i \<in> set (finalizeByCriteria dt c raw). keeps_since dt s i)
    | BySize _ \<Rightarrow> True)"
  by (cases c) (auto simp: finalizeByCriteria_def)

text \<open>
  The picker shows what the run will keep: when a Gmail listing returns, its items are
  exactly those of the last page handed to \<open>onPage\<close>; they are at most \<open>n\<close> for the criteria
  "\<open>n\<close> messages", and none with a readable date is older than the cutoff for "since".
\<close>

theorem gmail_listing_result:
  assumes "listGmailMessages fuel pf env c = Some (Inr r)"
  shows "ml_items r = (if ml_shown r = [] then [] else fst (last (ml_shown r))) \<and>
    (case c of ByAmount n \<Rightarrow> length (ml_items r) \<le> n
     | BySince s \<Rightarrow> (\<forall>i \<in> set (ml_items r). keeps_since (gv_dates env) s i)
     | BySize _ \<Rightarrow> True)"
proof -
  note run = assms [unfolded listGmailMessages_def]
  have "finalizeByCriteria (gv_dates env) c [] = []" by (simp add: finalizeByCriteria_def split: retrieval.split)
  with gmail.listing_shown [OF run] have shown: "ml_items r = (if ml_shown r = [] then [] else fst (last (ml_shown r)))"
    by simp
  obtain raw where raw: "ml_items r = finalizeByCriteria (gv_dates env) c raw"
    using gmail.listing_final [OF run] by blast
  show ?thesis using shown finalize_keeps [of "gv_dates env" c raw, folded raw] by blast
qed

theorem gmail_listing_result_witness:
  "\<exists>r. listGmailMessages 9 9 (demo_gmail\<lparr>gv_ids := \<lambda>k j u. Inr \<lparr>g_status = 200, g_text = None,
       g_json = Some \<lparr>pg_items = Some [''m'', ''n'', ''o''], pg_next = None\<rparr>\<rparr>\<rparr>) (ByAmount 2) = Some (Inr r) \<and> length (ml_items r) \<le> 2"
  (is "\<exists>r. ?run = _ \<and> _")
proof -
  have "\<exists>r. ?run = Some (Inr r)"
    by (simp add: listGmailMessages_def numeral_eq_Suc demo_gmail_def fetchGmailIdPage_def fetch_object_def
        providerFetch_def g_ok_def PAGE_SIZE_def truthy_def fetchGmailMetadata.simps BATCH_def gmail_meta_item_def
        to_gmail_item_def Let_def finish_listing_def)
  then obtain r where "?run = Some (Inr r)" by blast
  with gmail_listing_result [OF this] show ?thesis by auto
qed

lemma clamp_range: "0 \<le> clamp v \<and> clamp v \<le> 1"
  by (simp add: clamp_def)

lemma clamp_one: "clamp v = 1 \<longleftrightarrow> 1 \<le> v"
  by (auto simp: clamp_def max_def min_def)

text \<open>
  The progress bar tells the truth: the reported fraction is between 0 and 1, and for a
  positive amount or size it reaches 1 exactly when the criteria is satisfied.
\<close>

theorem fetch_progress_range:
  "(\<forall>f. fp_fraction (fetchProgressFor dt now c items) = Some f \<longrightarrow>
     0 \<le> f \<and> f \<le> 1 \<and> ((\<forall>s. c \<noteq> BySince s) \<longrightarrow> (f = 1) = criteriaSatisfied dt c items)) \<and>
   fp_fetched (fetchProgressFor dt now c items) = length items"
proof (cases c)
  case (BySince s)
  then show ?thesis
    by (auto simp: fetchProgressFor_def clamp_range split: if_splits option.splits)
qed (auto simp: fetchProgressFor_def criteriaSatisfied_def clamp_range clamp_one le_divide_eq split: if_splits)

theorem fetch_progress_range_witness:
  "0 \<le> (2 / 8 :: rat) \<and> (2 / 8 :: rat) \<le> 1 \<and>
    (2 / 8 = (1 :: rat)) = criteriaSatisfied demo_dates (ByAmount 8) [undefined, undefined]"
proof -
  have "fp_fraction (fetchProgressFor demo_dates 0 (ByAmount 8) [undefined, undefined]) = Some (2 / 8)"
    by (simp add: fetchProgressFor_def clamp_def)
  with fetch_progress_range [of demo_dates 0 "ByAmount 8" "[undefined, undefined]"] show ?thesis by blast
qed

text \<open>
  \<open>truncated\<close> is not "the cap was hit before the criteria was satisfied": a page that
  reaches the cap and satisfies the criteria at once is reported as truncated.
\<close>

theorem truncated_though_satisfied:
  "\<exists>env r. listOutlookMessages 1 2 env (ByAmount SAFETY_CAP_EMAILS) = Some (Inr r) \<and>
     ml_truncated r \<and> criteriaSatisfied (ov_dates env) (ByAmount SAFETY_CAP_EMAILS) (ml_items r)"
proof -
  define m where "m = \<lparr>gr_id = ''m'', gr_from = None, gr_to = None, gr_subject = None, gr_bodyPreview = None,
    gr_receivedDateTime = None, gr_flagStatus = None, gr_isRead = None, gr_hasAttachments = False\<rparr>"
  define env where "env = \<lparr>ov_page = (\<lambda>k j u. Inr \<lparr>g_status = 200, g_text = None,
      g_json = Some \<lparr>pg_items = Some (replicate SAFETY_CAP_EMAILS m), pg_next = None\<rparr>\<rparr>),
    ov_dates = demo_dates, ov_now = (\<lambda>_. 0), ov_stop = (\<lambda>_. False)\<rparr>"
  have start: "OUTLOOK_START \<noteq> []" by (simp add: OUTLOOK_START_def GRAPH_API_def)
  have cap: "SAFETY_CAP_EMAILS \<noteq> 0" by (simp add: SAFETY_CAP_EMAILS_def)
  have "fetchOutlookPage 2 env 0 OUTLOOK_START = Some (Inr (replicate SAFETY_CAP_EMAILS (to_outlook_item m), None))"
    by (simp add: fetchOutlookPage_def numeral_2_eq_2 env_def truthy_def fetch_object_def providerFetch_def g_ok_def
        PAGE_SIZE_def OUTLOOK_START_def)
  then have "listOutlookMessages 1 2 env (ByAmount SAFETY_CAP_EMAILS) =
      finish_listing demo_dates (ByAmount SAFETY_CAP_EMAILS) (replicate SAFETY_CAP_EMAILS (to_outlook_item m)) True False
        [emitPage demo_dates 0 (ByAmount SAFETY_CAP_EMAILS) (replicate SAFETY_CAP_EMAILS (to_outlook_item m))]"
    by (simp add: listOutlookMessages_def env_def truthy_def start Let_def cap)
  then show ?thesis
    by (intro exI [of _ env]) (simp add: finish_listing_def finalizeByCriteria_def criteriaSatisfied_def)
qed

end
