(* ===== verification/Base64.thy ===== *)
theory Base64
  imports Prelude "HOL-Library.Word"
begin

text \<open>
  The base64 functions the email code uses: the browser's \<open>btoa\<close> and \<open>atob\<close>, the conversion
  from Gmail's base64url (\<open>base64UrlToBase64\<close> in \<open>frontend/src/api/emailProviders.ts\<close>) and the
  conversion to it in \<open>pkceChallenge\<close>, with the round trips between them.
\<close>

section \<open>The alphabet\<close>

definition b64_char :: "nat \<Rightarrow> char" where
  "b64_char n =
     (if n < 26 then char_of (65 + n)
      else if n < 52 then char_of (71 + n)
      else if n < 62 then char_of (n - 4)
      else if n = 62 then CHR ''+'' else CHR ''/'')"

definition b64_value :: "char \<Rightarrow> nat option" where
  "b64_value c =
     (if is_upper c then Some (of_char c - 65)
      else if is_lower c then Some (of_char c - 71)
      else if is_digit c then Some (of_char c + 4)
      else if c = CHR ''+'' then Some 62
      else if c = CHR ''/'' then Some 63 else None)"

lemma b64_value_char: "n < 64 \<Longrightarrow> b64_value (b64_char n) = Some n"
  by (auto simp: b64_value_def b64_char_def is_upper_def is_lower_def is_digit_def)

lemma of_char_b64: "n < 64 \<Longrightarrow> b64_char n \<notin> {CHR ''='', CHR ''-'', CHR ''_''}"
proof -
  assume n: "n < 64"
  have "b64_value CHR ''='' = None" "b64_value CHR ''-'' = None" "b64_value CHR ''_'' = None"
    by (simp_all add: b64_value_def is_upper_def is_lower_def is_digit_def)
  then show ?thesis using b64_value_char [OF n] by (metis insertE empty_iff option.distinct(1))
qed

section \<open>Groups of three bytes\<close>

definition enc3 :: "8 word \<Rightarrow> 8 word \<Rightarrow> 8 word \<Rightarrow> nat list" where
  "enc3 a b c = [unat a div 4, (unat a mod 4) * 16 + unat b div 16, (unat b mod 16) * 4 + unat c div 64, unat c mod 64]"

fun btoa :: "8 word list \<Rightarrow> string" where
  "btoa [] = []"
| "btoa [a] = map b64_char (take 2 (enc3 a 0 0)) @ ''==''"
| "btoa [a, b] = map b64_char (take 3 (enc3 a b 0)) @ ''=''"
| "btoa (a # b # c # rest) = map b64_char (enc3 a b c) @ btoa rest"

definition dec3 :: "nat \<Rightarrow> nat \<Rightarrow> nat \<Rightarrow> nat \<Rightarrow> 8 word list" where
  "dec3 p q r s = [of_nat (p * 4 + q div 16), of_nat ((q mod 16) * 16 + r div 4), of_nat ((r mod 4) * 64 + s)]"

text \<open>\<open>atob\<close> on padded input: \<open>None\<close> is its \<open>InvalidCharacterError\<close>.\<close>

fun atob :: "string \<Rightarrow> 8 word list option" where
  "atob [] = Some []"
| "atob [p, q, r, s] =
     (case (b64_value p, b64_value q) of
        (Some p', Some q') \<Rightarrow>
          if r = CHR ''='' then (if s = CHR ''='' then Some (take 1 (dec3 p' q' 0 0)) else None)
          else (case b64_value r of
                  None \<Rightarrow> None
                | Some r' \<Rightarrow>
                    if s = CHR ''='' then Some (take 2 (dec3 p' q' r' 0))
                    else (case b64_value s of None \<Rightarrow> None | Some s' \<Rightarrow> Some (dec3 p' q' r' s')))
      | _ \<Rightarrow> None)"
| "atob (p # q # r # s # rest) =
     (case (b64_value p, b64_value q, b64_value r, b64_value s) of
        (Some p', Some q', Some r', Some s') \<Rightarrow> map_option (\<lambda>bs. dec3 p' q' r' s' @ bs) (atob rest)
      | _ \<Rightarrow> None)"
| "atob _ = None"

lemma unat_byte: "unat (b :: 8 word) < 256"
proof -
  have "unat b < 2 ^ LENGTH(8)" by (rule unsigned_less)
  then show ?thesis by simp
qed

lemma byte_div: "unat (b :: 8 word) div 4 < 64" "unat (b :: 8 word) div 16 < 16" "unat (b :: 8 word) div 64 < 4"
  using unat_byte [of b] by (simp_all add: div_less_iff_less_mult)

lemma enc3_less: "n \<in> set (enc3 a b c) \<Longrightarrow> n < 64"
proof -
  have "(unat a mod 4) * 16 + unat b div 16 < 64"
    using byte_div(2) [of b] mod_less_divisor [of 4 "unat a"] by linarith
  moreover have "(unat b mod 16) * 4 + unat c div 64 < 64"
    using byte_div(3) [of c] mod_less_divisor [of 16 "unat b"] by linarith
  ultimately show "n \<in> set (enc3 a b c) \<Longrightarrow> n < 64" by (auto simp: enc3_def byte_div)
qed

lemma dec3_enc3:
  "dec3 (unat a div 4) ((unat a mod 4) * 16 + unat b div 16) ((unat b mod 16) * 4 + unat c div 64) (unat c mod 64)
   = [a, b, c]"
proof -
  have "unat a div 4 * 4 + ((unat a mod 4) * 16 + unat b div 16) div 16 = unat a"
    using byte_div(2) [of b] by simp
  moreover have "((unat a mod 4) * 16 + unat b div 16) mod 16 = unat b div 16"
    using byte_div(2) [of b] by simp
  moreover have "((unat b mod 16) * 4 + unat c div 64) div 4 = unat b mod 16"
    "((unat b mod 16) * 4 + unat c div 64) mod 4 = unat c div 64"
    using byte_div(3) [of c] by simp_all
  moreover have "unat b div 16 * 16 + unat b mod 16 = unat b" "unat c div 64 * 64 + unat c mod 64 = unat c" by simp_all
  ultimately show ?thesis by (simp add: dec3_def)
qed

lemma enc3_values:
  "b64_value (b64_char (enc3 a b c ! i)) = Some (enc3 a b c ! i)" if "i < 4"
  by (rule b64_value_char, rule enc3_less [of _ a b c], rule nth_mem) (use that in \<open>simp add: enc3_def\<close>)

lemma atob_btoa: "atob (btoa bs) = Some bs"
proof (induction bs rule: btoa.induct)
  case (2 a)
  show ?case using enc3_values [of 0 a 0 0] enc3_values [of 1 a 0 0] dec3_enc3 [of a 0 0]
    by (simp add: enc3_def take_Cons' dec3_def)
next
  case (3 a b)
  show ?case
    using enc3_values [of 0 a b 0] enc3_values [of 1 a b 0] enc3_values [of 2 a b 0] dec3_enc3 [of a b 0]
      of_char_b64 [OF enc3_less [of "enc3 a b 0 ! 2" a b 0]]
    by (simp add: enc3_def take_Cons' dec3_def)
next
  case (4 a b c rest)
  have w: "b64_value (b64_char n) = Some n \<and> b64_char n \<noteq> CHR ''=''" if "n \<in> set (enc3 a b c)" for n
    using enc3_less [OF that] b64_value_char [of n] of_char_b64 [of n] by blast
  obtain p q r s where e: "enc3 a b c = [p, q, r, s]" by (simp add: enc3_def)
  have d: "dec3 p q r s = [a, b, c]" using e dec3_enc3 [of a b c] by (simp add: enc3_def)
  show ?case
  proof (cases rest)
    case Nil
    then show ?thesis using w by (simp add: e d)
  next
    case (Cons x xs)
    then obtain y ys where "btoa rest = y # ys" by (cases "btoa rest") (use "4.IH" in auto)
    then show ?thesis using w "4.IH" by (simp add: e d)
  qed
qed simp

section \<open>The URL variant\<close>

definition url_char :: "char \<Rightarrow> char" where
  "url_char c = (if c = CHR ''+'' then CHR ''-'' else if c = CHR ''/'' then CHR ''_'' else c)"

definition std_char :: "char \<Rightarrow> char" where
  "std_char c = (if c = CHR ''-'' then CHR ''+'' else if c = CHR ''_'' then CHR ''/'' else c)"

text \<open>\<open>replace(/\+/g, '-').replace(/\//g, '_').replace(/=+$/, '')\<close>\<close>

definition to_base64url :: "string \<Rightarrow> string" where
  "to_base64url s = rev (dropWhile (\<lambda>c. c = CHR ''='') (rev (map url_char s)))"

text \<open>\<open>while (out.length % 4 !== 0) out += '='\<close>\<close>

function pad4 :: "string \<Rightarrow> string" where
  "pad4 out = (if length out mod 4 \<noteq> 0 then pad4 (out @ ''='') else out)"
  by pat_completeness auto
termination
proof (relation "measure (\<lambda>out. (4 - length out mod 4) mod 4)")
  fix out :: string
  assume "length out mod 4 \<noteq> 0"
  moreover have "length out mod 4 < 4" by simp
  ultimately have "length out mod 4 \<in> {1, 2, 3}" by auto
  then show "(out @ ''='', out) \<in> measure (\<lambda>out. (4 - length out mod 4) mod 4)"
    by (auto simp: mod_Suc)
qed simp

declare pad4.simps [simp del]

definition base64UrlToBase64 :: "string \<Rightarrow> string" where
  "base64UrlToBase64 data = pad4 (map std_char data)"

text \<open>
  \<open>decodeBase64UrlText\<close>: the UTF-8 decoder turns the bytes into a string, which here is its
  UTF-8 encoding, so the bytes are kept. \<open>None\<close> is the exception of \<open>atob\<close>.
\<close>

definition decodeBase64UrlText :: "string \<Rightarrow> string option" where
  "decodeBase64UrlText data = map_option (map (\<lambda>b. char_of (unat b))) (atob (base64UrlToBase64 data))"

lemma pad4_cases:
  "length out mod 4 = 0 \<Longrightarrow> pad4 out = out"
  "length out mod 4 = 3 \<Longrightarrow> pad4 out = out @ ''=''"
  "length out mod 4 = 2 \<Longrightarrow> pad4 out = out @ ''==''"
proof -
  have fin: "length s mod 4 = 0 \<Longrightarrow> pad4 s = s" for s by (subst pad4.simps) simp
  have more: "length s mod 4 \<noteq> 0 \<Longrightarrow> pad4 s = pad4 (s @ ''='')" for s by (subst pad4.simps) simp
  show "length out mod 4 = 0 \<Longrightarrow> pad4 out = out" by (rule fin)
  have three: "pad4 s = s @ ''=''" if "length s mod 4 = 3" for s
    using that by (simp add: more [of s] fin [of "s @ ''=''"] mod_Suc)
  show "length out mod 4 = 3 \<Longrightarrow> pad4 out = out @ ''=''" by (rule three)
  show "length out mod 4 = 2 \<Longrightarrow> pad4 out = out @ ''==''"
    using three [of "out @ ''=''"] by (simp add: more [of out] mod_Suc)
qed

text \<open>A base64 text is a body of alphabet characters and at most two \<open>=\<close>.\<close>

definition b64_plain :: "char \<Rightarrow> bool" where
  "b64_plain c \<longleftrightarrow> c \<notin> {CHR ''='', CHR ''-'', CHR ''_''}"

definition b64_shape :: "string \<Rightarrow> string \<Rightarrow> nat \<Rightarrow> bool" where
  "b64_shape s body k \<longleftrightarrow> s = body @ replicate k CHR ''='' \<and> length s mod 4 = 0 \<and> k < 3 \<and>
     (\<forall>c \<in> set body. b64_plain c)"

lemma b64_body:
  "c \<in> set (map b64_char (take k (enc3 x y z))) \<Longrightarrow> b64_plain c"
  using of_char_b64 [OF enc3_less [of _ x y z]] by (auto simp: b64_plain_def dest!: in_set_takeD)

lemma btoa_shape:
  "\<exists>body k. b64_shape (btoa bs) body k"
proof (induction bs rule: btoa.induct)
  case 1
  show ?case by (intro exI [of _ "[]"] exI [of _ 0]) (simp add: b64_shape_def)
next
  case (2 a)
  have "btoa [a] = map b64_char (take 2 (enc3 a 0 0)) @ replicate 2 CHR ''=''" "length (btoa [a]) = 4"
    by (simp_all add: numeral_2_eq_2 enc3_def)
  then show ?case using b64_body [of _ 2 a 0 0]
    by (intro exI [of _ "map b64_char (take 2 (enc3 a 0 0))"] exI [of _ "2 :: nat"]) (simp add: b64_shape_def del: btoa.simps set_map)
next
  case (3 a b)
  have "btoa [a, b] = map b64_char (take 3 (enc3 a b 0)) @ replicate 1 CHR ''=''" "length (btoa [a, b]) = 4"
    by (simp_all add: enc3_def)
  then show ?case using b64_body [of _ 3 a b 0]
    by (intro exI [of _ "map b64_char (take 3 (enc3 a b 0))"] exI [of _ "1 :: nat"]) (simp add: b64_shape_def del: btoa.simps set_map)
next
  case (4 a b c rest)
  then obtain body k where IH: "b64_shape (btoa rest) body k" by blast
  have e: "take 4 (enc3 a b c) = enc3 a b c" "length (enc3 a b c) = 4" by (simp_all add: enc3_def)
  have "b64_shape (btoa (a # b # c # rest)) (map b64_char (enc3 a b c) @ body) k"
    unfolding b64_shape_def
  proof (intro conjI)
    have "length (btoa rest) mod 4 = 0" using IH unfolding b64_shape_def by blast
    then show "length (btoa (a # b # c # rest)) mod 4 = 0" by (simp add: e(2))
    show "\<forall>x \<in> set (map b64_char (enc3 a b c) @ body). b64_plain x"
      using IH b64_body [of _ 4 a b c] unfolding e(1) b64_shape_def by (auto simp del: set_map)
  qed (use IH in \<open>simp_all add: b64_shape_def\<close>)
  then show ?case by blast
qed

lemma std_url_body: "\<forall>c \<in> set s. b64_plain c \<Longrightarrow> map std_char (map url_char s) = s"
  by (induction s) (auto simp: std_char_def url_char_def b64_plain_def)

lemma url_body_eq: "\<forall>c \<in> set s. b64_plain c \<Longrightarrow> \<forall>c \<in> set (map url_char s). c \<noteq> CHR ''=''"
  by (auto simp: url_char_def b64_plain_def)

text \<open>Un-padding and padding again restores a base64 text.\<close>

lemma base64url_restores: "base64UrlToBase64 (to_base64url (btoa bs)) = btoa bs"
proof -
  obtain body k where "b64_shape (btoa bs) body k" using btoa_shape [of bs] by blast
  then have b: "btoa bs = body @ replicate k CHR ''=''" "length (btoa bs) mod 4 = 0" "k < 3"
    "\<forall>c \<in> set body. b64_plain c" unfolding b64_shape_def by blast+
  have "dropWhile (\<lambda>c. c = CHR ''='') (rev (map url_char body)) = rev (map url_char body)"
  proof (cases "rev (map url_char body)")
    case (Cons x xs)
    then have "x \<in> set (map url_char body)" by (metis list.set_intros(1) set_rev)
    with url_body_eq [OF b(4)] have "x \<noteq> CHR ''=''" by blast
    with Cons show ?thesis by (simp del: rev_map)
  qed simp
  moreover have "dropWhile (\<lambda>c. c = CHR ''='') (replicate k CHR ''='' @ xs) = dropWhile (\<lambda>c. c = CHR ''='') xs" for xs
    by (induction k) simp_all
  moreover have "url_char CHR ''='' = CHR ''=''" by (simp add: url_char_def)
  ultimately have u: "to_base64url (btoa bs) = map url_char body"
    by (simp add: to_base64url_def b(1))
  have l: "(length body + k) mod 4 = 0" using b(1,2) by simp
  from b(3) consider "k = 0" | "k = 1" | "k = 2" by linarith
  then have "pad4 body = body @ replicate k CHR ''=''"
  proof cases
    case 1
    with l show ?thesis by (simp add: pad4_cases)
  next
    case 2
    with l have "length body mod 4 = 3" by presburger
    with 2 show ?thesis by (simp add: pad4_cases)
  next
    case 3
    with l have "length body mod 4 = 2" by presburger
    with 3 show ?thesis by (simp add: pad4_cases numeral_2_eq_2)
  qed
  with u std_url_body [OF b(4)] b(1) show ?thesis by (simp add: base64UrlToBase64_def)
qed

text \<open>
  C31. Reading back what was written: decoding the base64url form of any bytes gives these bytes;
  no byte is lost to the dropped padding or the two replaced characters.
\<close>

theorem base64url_roundtrip: "atob (base64UrlToBase64 (to_base64url (btoa bs))) = Some bs"
  by (simp add: base64url_restores atob_btoa)

end
