(* ===== verification/EmailMessage.thy ===== *)
theory EmailMessage
  imports EmailProviders Base64
begin

text \<open>
  Downloading and deleting one message, last part of \<open>frontend/src/api/emailProviders.ts\<close>: the walk
  over Gmail's MIME tree, Outlook's body and attachments, and the best-effort deletions.
\<close>

section \<open>The stored document\<close>

record stored_attachment =
  sa_filename :: string
  sa_content_type :: string
  sa_size :: nat
  sa_content_base64 :: "string option"

record stored_email =
  se_message_id :: string
  se_from :: string
  se_to :: string
  se_subject :: string
  se_date :: string
  se_text :: string
  se_html :: string
  se_headers :: string
  se_attachments :: "stored_attachment list"

section \<open>Gmail\<close>

datatype gmail_part = Part
  (part_mimeType: "string option") (part_filename: "string option") (part_data: "string option")
  (part_attachmentId: "string option") (part_size: "nat option") (part_parts: "gmail_part list")

record attachment_data =
  ad_data :: "string option"
  ad_size :: "nat option"

type_synonym fetch_attachment = "string \<Rightarrow> thrown + attachment_data g_response"

definition attachment_url :: "string \<Rightarrow> string \<Rightarrow> string" where
  "attachment_url mid aid = GMAIL_API @ ''/messages/'' @ mid @ ''/attachments/'' @ aid"

definition invalid_character :: thrown where
  "invalid_character = ThrowError ''The string to be decoded is not correctly encoded.''"

definition is_attachment :: "gmail_part \<Rightarrow> bool" where
  "is_attachment p \<longleftrightarrow> truthy (part_filename p) \<noteq> None \<and> truthy (part_attachmentId p) \<noteq> None"

text \<open>What one part contributes, its children aside.\<close>

definition add_attachment :: "fetch_attachment \<Rightarrow> string \<Rightarrow> gmail_part \<Rightarrow> stored_email \<Rightarrow> thrown + stored_email" where
  "add_attachment fetch mid p out =
     (case fetch_object (fetch (attachment_url mid (or_else (part_attachmentId p) []))) of
        Inl t \<Rightarrow> Inl t
      | Inr att \<Rightarrow>
          let mime = or_else (part_mimeType p) [] in
          Inr (out\<lparr>se_attachments := se_attachments out @
            [\<lparr>sa_filename = or_else (part_filename p) [],
              sa_content_type = (if mime = [] then ''application/octet-stream'' else mime),
              sa_size = or_else (ad_size att) (or_else (part_size p) 0),
              sa_content_base64 = map_option base64UrlToBase64 (truthy (ad_data att))\<rparr>]\<rparr>))"

definition visit_part :: "fetch_attachment \<Rightarrow> string \<Rightarrow> gmail_part \<Rightarrow> stored_email \<Rightarrow> thrown + stored_email" where
  "visit_part fetch mid p out =
     (let mime = or_else (part_mimeType p) [] in
      if is_attachment p then add_attachment fetch mid p out
      else case truthy (part_data p) of
             None \<Rightarrow> Inr out
           | Some d \<Rightarrow>
               if mime = ''text/plain'' \<and> se_text out = [] then
                 (case decodeBase64UrlText d of None \<Rightarrow> Inl invalid_character | Some s \<Rightarrow> Inr (out\<lparr>se_text := s\<rparr>))
               else if mime = ''text/html'' \<and> se_html out = [] then
                 (case decodeBase64UrlText d of None \<Rightarrow> Inl invalid_character | Some s \<Rightarrow> Inr (out\<lparr>se_html := s\<rparr>))
               else Inr out)"

fun walk :: "fetch_attachment \<Rightarrow> string \<Rightarrow> gmail_part \<Rightarrow> stored_email \<Rightarrow> thrown + stored_email"
  and walk_all :: "fetch_attachment \<Rightarrow> string \<Rightarrow> gmail_part list \<Rightarrow> stored_email \<Rightarrow> thrown + stored_email" where
  "walk fetch mid (Part mime filename d aid sz parts) out =
     (case visit_part fetch mid (Part mime filename d aid sz parts) out of
        Inl t \<Rightarrow> Inl t
      | Inr out' \<Rightarrow> walk_all fetch mid parts out')"
| "walk_all fetch mid [] out = Inr out"
| "walk_all fetch mid (p # ps) out =
     (case walk fetch mid p out of Inl t \<Rightarrow> Inl t | Inr out' \<Rightarrow> walk_all fetch mid ps out')"

record gmail_full =
  gf_id :: string
  gf_headers :: "gmail_headers option"
  gf_internalDate :: "string option"
  gf_payload :: "gmail_part option"

definition first_truthy :: "string list \<Rightarrow> string" where
  "first_truthy ss = (case filter (\<lambda>s. s \<noteq> []) (butlast ss) of [] \<Rightarrow> last ss | s # _ \<Rightarrow> s)"

definition header_line :: "string \<times> string \<Rightarrow> string" where
  "header_line h = fst h @ '': '' @ snd h"

definition gmail_shell :: "gmail_full \<Rightarrow> string \<Rightarrow> stored_email" where
  "gmail_shell m date =
     (let headers = or_else (gf_headers m) [] in
      \<lparr>se_message_id = first_truthy [gmailHeader headers ''Message-ID'', gmailHeader headers ''Message-Id'', gf_id m],
       se_from = gmailHeader headers ''From'', se_to = gmailHeader headers ''To'',
       se_subject = gmailHeader headers ''Subject'', se_date = date, se_text = [], se_html = [],
       se_headers = join_with [CHR 0x0A] (map header_line headers), se_attachments = []\<rparr>)"

definition downloadGmailMessage ::
  "(string \<Rightarrow> thrown + gmail_full g_response) \<Rightarrow> fetch_attachment \<Rightarrow> dates \<Rightarrow> string \<Rightarrow> string \<Rightarrow> thrown + stored_email" where
  "downloadGmailMessage fetch fetchAtt dt nowISO mid =
     (case fetch_object (fetch (GMAIL_API @ ''/messages/'' @ mid @ ''?format=full'')) of
        Inl t \<Rightarrow> Inl t
      | Inr m \<Rightarrow>
          (case (case truthy (gf_internalDate m) of
                   None \<Rightarrow> Inr nowISO
                 | Some d \<Rightarrow> (case toISOString dt (js_Number d) of None \<Rightarrow> Inl range_error | Some s \<Rightarrow> Inr s)) of
             Inl t \<Rightarrow> Inl t
           | Inr date \<Rightarrow>
               (case gf_payload m of
                  None \<Rightarrow> Inr (gmail_shell m date)
                | Some p \<Rightarrow> walk fetchAtt mid p (gmail_shell m date))))"

definition trashGmailMessage :: "(string \<Rightarrow> thrown + unit g_response) \<Rightarrow> string \<Rightarrow> thrown + unit" where
  "trashGmailMessage send mid =
     map_sum id (\<lambda>_. ()) (providerFetch (send (GMAIL_API @ ''/messages/'' @ mid @ ''/trash'')))"

section \<open>Outlook\<close>

record graph_full =
  gx_internetMessageId :: "string option"
  gx_from :: "recipient option"
  gx_to :: "recipient list option"
  gx_subject :: "string option"
  gx_receivedDateTime :: "string option"
  gx_body :: "(string option \<times> string option) option"   \<comment> \<open>contentType, content\<close>
  gx_bodyPreview :: "string option"
  gx_hasAttachments :: bool

record graph_attachment =
  ga_type :: "string option"
  ga_name :: "string option"
  ga_contentType :: "string option"
  ga_size :: "nat option"
  ga_contentBytes :: "string option"

definition body_is :: "string \<Rightarrow> graph_full \<Rightarrow> bool" where
  "body_is kind m \<longleftrightarrow> (case gx_body m of None \<Rightarrow> False | Some (ct, _) \<Rightarrow> ct = Some kind)"

definition body_content :: "graph_full \<Rightarrow> string" where
  "body_content m = (case gx_body m of None \<Rightarrow> [] | Some (_, content) \<Rightarrow> or_else content [])"

definition outlook_shell :: "graph_full \<Rightarrow> string \<Rightarrow> string \<Rightarrow> stored_email" where
  "outlook_shell m mid nowISO =
     \<lparr>se_message_id = or_else (truthy (gx_internetMessageId m)) mid,
      se_from = graph_from (gx_from m), se_to = graphRecipients (gx_to m),
      se_subject = or_else (gx_subject m) [], se_date = or_else (gx_receivedDateTime m) nowISO,
      se_text = (if body_is ''text'' m then body_content m else or_else (gx_bodyPreview m) []),
      se_html = (if body_is ''html'' m then body_content m else []),
      se_headers = [], se_attachments = []\<rparr>"

definition FILE_ATTACHMENT :: string where
  "FILE_ATTACHMENT = ''#microsoft.graph.fileAttachment''"

definition to_attachment :: "graph_attachment \<Rightarrow> stored_attachment" where
  "to_attachment a = \<lparr>sa_filename = or_else (ga_name a) ''attachment'',
     sa_content_type = or_else (ga_contentType a) ''application/octet-stream'',
     sa_size = or_else (ga_size a) 0, sa_content_base64 = ga_contentBytes a\<rparr>"

definition outlook_message_url :: "string \<Rightarrow> string" where
  "outlook_message_url mid = GRAPH_API @ ''/me/messages/'' @ encodeURIComponent mid"

definition downloadOutlookMessage ::
  "(string \<Rightarrow> thrown + graph_full g_response) \<Rightarrow> (string \<Rightarrow> thrown + graph_attachment list option g_response) \<Rightarrow>
     string \<Rightarrow> string \<Rightarrow> thrown + stored_email" where
  "downloadOutlookMessage fetch fetchAtts nowISO mid =
     (case fetch_object (fetch (outlook_message_url mid @
        ''?$select=subject,from,toRecipients,receivedDateTime,body,internetMessageId,hasAttachments,bodyPreview'')) of
        Inl t \<Rightarrow> Inl t
      | Inr m \<Rightarrow>
          let out = outlook_shell m mid nowISO in
          if \<not> gx_hasAttachments m then Inr out
          else case fetch_object (fetchAtts (outlook_message_url mid @ ''/attachments'')) of
                 Inl t \<Rightarrow> Inl t
               | Inr atts \<Rightarrow> Inr (out\<lparr>se_attachments :=
                   map to_attachment (filter (\<lambda>a. ga_type a = Some FILE_ATTACHMENT) (or_else atts []))\<rparr>))"

definition deleteOutlookMessage :: "(string \<Rightarrow> thrown + unit g_response) \<Rightarrow> string \<Rightarrow> thrown + unit" where
  "deleteOutlookMessage send mid = map_sum id (\<lambda>_. ()) (providerFetch (send (outlook_message_url mid)))"

fun deleteProviderMessages :: "provider \<Rightarrow> (string \<Rightarrow> thrown + unit g_response) \<Rightarrow> string list \<Rightarrow> nat" where
  "deleteProviderMessages p send [] = 0"
| "deleteProviderMessages p send (i # is) =
     (case (if p = Gmail then trashGmailMessage send i else deleteOutlookMessage send i) of
        Inr _ \<Rightarrow> 0 | Inl _ \<Rightarrow> 1) + deleteProviderMessages p send is"

section \<open>Properties\<close>

text \<open>The parts of a message in the order they are visited.\<close>

fun flatten :: "gmail_part \<Rightarrow> gmail_part list" and flatten_all :: "gmail_part list \<Rightarrow> gmail_part list" where
  "flatten (Part mime filename d aid sz parts) = Part mime filename d aid sz parts # flatten_all parts"
| "flatten_all [] = []"
| "flatten_all (p # ps) = flatten p @ flatten_all ps"

fun visit_parts :: "fetch_attachment \<Rightarrow> string \<Rightarrow> gmail_part list \<Rightarrow> stored_email \<Rightarrow> thrown + stored_email" where
  "visit_parts fetch mid [] out = Inr out"
| "visit_parts fetch mid (p # ps) out =
     (case visit_part fetch mid p out of Inl t \<Rightarrow> Inl t | Inr out' \<Rightarrow> visit_parts fetch mid ps out')"

lemma visit_parts_append:
  "visit_parts fetch mid (ps @ qs) out =
     (case visit_parts fetch mid ps out of Inl t \<Rightarrow> Inl t | Inr out' \<Rightarrow> visit_parts fetch mid qs out')"
  by (induction ps arbitrary: out) (auto split: sum.split)

lemma walk_visits:
  "walk fetch mid p out = visit_parts fetch mid (flatten p) out"
  "walk_all fetch mid ps out = visit_parts fetch mid (flatten_all ps) out"
  by (induction fetch mid p out and fetch mid ps out rule: walk_walk_all.induct)
     (auto simp: visit_parts_append split: sum.split)

text \<open>An attachment part is stored as it is: under its name, with its type, and with the size and the content the
  provider returned for its own id; the content is the returned data, respelt from base64url to base64.\<close>

definition kept :: "fetch_attachment \<Rightarrow> string \<Rightarrow> gmail_part \<Rightarrow> stored_attachment \<Rightarrow> bool" where
  "kept fetch mid p a \<longleftrightarrow>
     (\<exists>name aid att. part_filename p = Some name \<and> part_attachmentId p = Some aid
        \<and> fetch_object (fetch (attachment_url mid aid)) = Inr att
        \<and> sa_filename a = name
        \<and> sa_content_type a = (case part_mimeType p of
             Some t \<Rightarrow> if t = [] then ''application/octet-stream'' else t | None \<Rightarrow> ''application/octet-stream'')
        \<and> sa_size a = (case ad_size att of Some n \<Rightarrow> n | None \<Rightarrow> or_else (part_size p) 0)
        \<and> sa_content_base64 a = (case ad_data att of
             Some d \<Rightarrow> if d = [] then None else Some (base64UrlToBase64 d) | None \<Rightarrow> None))"

lemma visit_part_attachments:
  assumes "visit_part fetch mid p out = Inr out'"
  shows "\<exists>as. se_attachments out' = se_attachments out @ as
    \<and> list_all2 (kept fetch mid) (if is_attachment p then [p] else []) as"
proof (cases "is_attachment p")
  case True
  with assms obtain att where "fetch_object (fetch (attachment_url mid (or_else (part_attachmentId p) []))) = Inr att"
    by (auto simp: visit_part_def add_attachment_def Let_def split: sum.splits)
  with True assms show ?thesis
    by (cases "part_mimeType p"; cases "ad_size att"; cases "ad_data att")
      (auto simp: visit_part_def add_attachment_def kept_def is_attachment_def truthy_def Let_def split: option.splits if_splits)
next
  case False
  with assms have "se_attachments out' = se_attachments out"
    by (auto simp: visit_part_def Let_def split: if_splits option.splits)
  with False show ?thesis by simp
qed

lemma visit_parts_attachments:
  "visit_parts fetch mid ps out = Inr out' \<Longrightarrow>
     \<exists>as. se_attachments out' = se_attachments out @ as \<and> list_all2 (kept fetch mid) (filter is_attachment ps) as"
proof (induction ps arbitrary: out)
  case (Cons p ps)
  then obtain o1 where v: "visit_part fetch mid p out = Inr o1" and r: "visit_parts fetch mid ps o1 = Inr out'"
    by (auto split: sum.splits)
  from Cons.IH [OF r] obtain bs where
    bs: "se_attachments out' = se_attachments o1 @ bs" "list_all2 (kept fetch mid) (filter is_attachment ps) bs" by blast
  from visit_part_attachments [OF v] obtain as where
    as: "se_attachments o1 = se_attachments out @ as" "list_all2 (kept fetch mid) (if is_attachment p then [p] else []) as"
    by blast
  have "filter is_attachment (p # ps) = (if is_attachment p then [p] else []) @ filter is_attachment ps" by simp
  with as bs show ?case
    by (metis append.assoc list_all2_appendI)
qed simp

text \<open>
  C30. The download of a Gmail message keeps every attachment. Walking the MIME tree is visiting its parts one
  after the other, each part before the parts inside it and those in their order; and when the walk
  succeeds, the attachments are those that were there followed by one for each attachment part of the
  whole tree, in the order of the visit, each under its part's name, with its type, and with the size and
  the content the provider returned for that part's id.
\<close>

theorem walk_keeps_attachments:
  assumes "walk fetch mid p out = Inr out'"
  shows "visit_parts fetch mid (flatten p) out = Inr out'
    \<and> (\<exists>as. se_attachments out' = se_attachments out @ as
        \<and> list_all2 (kept fetch mid) (filter is_attachment (flatten p)) as)"
  using assms visit_parts_attachments [of fetch mid "flatten p" out out'] by (simp only: walk_visits)

definition demo_part :: gmail_part where
  "demo_part = Part (Some ''multipart/mixed'') None None None None
     [Part (Some ''text/plain'') (Some '''') (Some ''aGk'') None None [],
      Part (Some ''image/png'') (Some ''a.png'') None (Some ''x1'') (Some 3) [],
      Part None None None None None [Part None (Some ''b'') None (Some ''x2'') None []]]"

definition demo_attachment :: fetch_attachment where
  "demo_attachment u = Inr \<lparr>g_status = 200, g_text = None, g_json = Some \<lparr>ad_data = Some ''aGk'', ad_size = None\<rparr>\<rparr>"

definition demo_shell :: stored_email where
  "demo_shell = gmail_shell \<lparr>gf_id = ''m1'', gf_headers = None, gf_internalDate = None, gf_payload = Some demo_part\<rparr> ''d''"

lemma demo_decode: "decodeBase64UrlText ''aGk'' = Some ''hi''"
  by code_simp

lemma demo_fetch: "fetch_object (demo_attachment u) = Inr \<lparr>ad_data = Some ''aGk'', ad_size = None\<rparr>"
  by (simp add: demo_attachment_def fetch_object_def providerFetch_def g_ok_def)

lemma demo_visit: "part_data p \<in> {None, Some ''aGk''} \<Longrightarrow> \<exists>x. visit_part demo_attachment mid p out = Inr x"
  by (auto simp: visit_part_def add_attachment_def demo_fetch truthy_def demo_decode Let_def)

lemma demo_visits:
  "list_all (\<lambda>p. part_data p \<in> {None, Some ''aGk''}) ps \<Longrightarrow> \<exists>x. visit_parts demo_attachment mid ps out = Inr x"
proof (induction ps arbitrary: out)
  case (Cons p ps)
  then obtain x where "visit_part demo_attachment mid p out = Inr x" using demo_visit [of p mid out] by auto
  with Cons show ?case by simp
qed simp

lemma demo_flatten:
  "flatten demo_part = [demo_part, part_parts demo_part ! 0, part_parts demo_part ! 1, part_parts demo_part ! 2,
     part_parts (part_parts demo_part ! 2) ! 0]"
  by (simp add: demo_part_def)

lemma demo_walk: "\<exists>out. walk demo_attachment ''m1'' demo_part demo_shell = Inr out"
  unfolding walk_visits by (rule demo_visits) (simp add: demo_flatten, simp add: demo_part_def)

lemma demo_names: "filter is_attachment (flatten demo_part) =
    [Part (Some ''image/png'') (Some ''a.png'') None (Some ''x1'') (Some 3) [], Part None (Some ''b'') None (Some ''x2'') None []]"
  unfolding demo_flatten by (simp add: demo_part_def is_attachment_def truthy_def)

theorem walk_keeps_attachments_witness:
  "\<exists>out as. walk demo_attachment ''m1'' demo_part demo_shell = Inr out \<and> se_attachments out = as
     \<and> map sa_filename as = [''a.png'', ''b''] \<and> map sa_size as = [3, 0]
     \<and> map sa_content_base64 as = replicate 2 (Some (base64UrlToBase64 ''aGk''))"
proof -
  obtain out where run: "walk demo_attachment ''m1'' demo_part demo_shell = Inr out" using demo_walk by blast
  have "se_attachments demo_shell = []" by (simp add: demo_shell_def gmail_shell_def Let_def)
  with walk_keeps_attachments [OF run] obtain as where
    as: "se_attachments out = as" "list_all2 (kept demo_attachment ''m1'')
      [Part (Some ''image/png'') (Some ''a.png'') None (Some ''x1'') (Some 3) [], Part None (Some ''b'') None (Some ''x2'') None []] as"
    by (simp only: demo_names append_Nil) blast
  then obtain a b where ab: "as = [a, b]"
    "kept demo_attachment ''m1'' (Part (Some ''image/png'') (Some ''a.png'') None (Some ''x1'') (Some 3) []) a"
    "kept demo_attachment ''m1'' (Part None (Some ''b'') None (Some ''x2'') None []) b"
    by (auto simp: list_all2_Cons1)
  have "sa_filename a = ''a.png'' \<and> sa_size a = 3 \<and> sa_content_base64 a = Some (base64UrlToBase64 ''aGk'')"
    "sa_filename b = ''b'' \<and> sa_size b = 0 \<and> sa_content_base64 b = Some (base64UrlToBase64 ''aGk'')"
    using ab(2,3) by (simp_all add: kept_def demo_fetch)
  with run as(1) ab(1) show ?thesis
    by (intro exI [of _ out] exI [of _ as]) (simp add: numeral_2_eq_2)
qed

end
