(* ===== verification/EmailBackup.thy ===== *)
theory EmailBackup
  imports EmailMessage
begin

text \<open>
  The email upload loop, its clean-up and its settings, \<open>frontend/src/api/emailBackup.ts\<close>: each
  message is downloaded from its provider and posted to the backend, and the messages known to be
  stored are the ones the caller may delete provider-side.
\<close>

section \<open>Requests of the module\<close>

definition emailDestPath :: "string option \<Rightarrow> string \<Rightarrow> string" where
  "emailDestPath folderName name = (case truthy folderName of None \<Rightarrow> name | Some f \<Rightarrow> f @ ''/'' @ name)"

text \<open>What the backend answers to a posted message: the index row.\<close>

record message_row =
  mw_id :: "string option"
  mw_file_id :: "string option"
  mw_file_name :: "string option"
  mw_file_size_bytes :: "nat option"

record message_post =
  mp_folder_id :: string
  mp_provider :: provider
  mp_provider_message_id :: string
  mp_snippet :: string
  mp_starred :: bool
  mp_message :: stored_email

definition backupEmailMessage :: "string \<Rightarrow> email_item \<Rightarrow> stored_email \<Rightarrow> message_post" where
  "backupEmailMessage folderId item msg = \<lparr>mp_folder_id = folderId, mp_provider = ei_provider item,
     mp_provider_message_id = ei_id item, mp_snippet = ei_snippet item, mp_starred = ei_starred item,
     mp_message = msg\<rparr>"

section \<open>The loop\<close>

record email_env =
  ee_gate :: "nat \<Rightarrow> bool"
  ee_download :: "nat \<Rightarrow> string \<Rightarrow> thrown + stored_email"    \<comment> \<open>\<open>downloadProviderMessage\<close>\<close>
  ee_post :: "nat \<Rightarrow> message_post \<Rightarrow> thrown + message_row"

record email_event = "email_item progress_event" +
  ev_messageId :: "string option"

record email_result =
  er_uploaded :: nat
  er_duplicates :: nat
  er_errors :: nat
  er_cancelled :: bool
  er_backedUpIds :: "string list"
  er_uploadedFileIds :: "string list"
  er_uploadedMessageIds :: "string list"
  er_events :: "email_event list"

definition email_attempt :: "email_env \<Rightarrow> string \<Rightarrow> nat \<Rightarrow> email_item \<Rightarrow> thrown + message_row" where
  "email_attempt env folderId i item =
     (case ee_download env i (ei_id item) of
        Inl t \<Rightarrow> Inl t
      | Inr msg \<Rightarrow> ee_post env i (backupEmailMessage folderId item msg))"

definition is_conflict :: "thrown \<Rightarrow> bool" where
  "is_conflict t = (case t of ThrowApi st _ \<Rightarrow> st = 409 | _ \<Rightarrow> False)"

definition email_outcome :: "thrown + message_row \<Rightarrow> item_outcome" where
  "email_outcome r = (case r of Inr _ \<Rightarrow> ODone | Inl t \<Rightarrow> if is_conflict t then ODuplicate else OError)"

definition email_report :: "thrown + message_row \<Rightarrow> item_report" where
  "email_report r =
     (case r of
        Inr row \<Rightarrow> \<lparr>ir_status = ODone, ir_sizeBytes = or_else (mw_file_size_bytes row) 0,
                    ir_fileId = mw_file_id row, ir_driveId = None, ir_error = None\<rparr>
      | Inl t \<Rightarrow>
          if is_conflict t then
            \<lparr>ir_status = ODuplicate, ir_sizeBytes = 0, ir_fileId = None, ir_driveId = None, ir_error = None\<rparr>
          else error_report t)"

definition start_path :: "string option \<Rightarrow> email_item \<Rightarrow> string" where
  "start_path folderName item =
     emailDestPath folderName (if ei_subject item = [] then ''(no subject)'' else ei_subject item)"

definition settled_path :: "string option \<Rightarrow> email_item \<Rightarrow> thrown + message_row \<Rightarrow> string" where
  "settled_path folderName item r =
     (case r of
        Inl _ \<Rightarrow> start_path folderName item
      | Inr row \<Rightarrow> (case truthy (mw_file_name row) of
                       None \<Rightarrow> start_path folderName item
                     | Some f \<Rightarrow> emailDestPath folderName f))"

definition email_events :: "string option \<Rightarrow> nat \<Rightarrow> nat \<Rightarrow> email_item \<Rightarrow> thrown + message_row \<Rightarrow> email_event list" where
  "email_events folderName n i item r =
     [\<lparr>pv_phase = PStart, pv_entry = item, pv_index = i, pv_done = i, pv_total = n,
       pv_path = start_path folderName item, pv_report = None, ev_messageId = None\<rparr>,
      \<lparr>pv_phase = PSettled, pv_entry = item, pv_index = i, pv_done = i + 1, pv_total = n,
       pv_path = settled_path folderName item r, pv_report = Some (email_report r),
       ev_messageId = (case r of Inl _ \<Rightarrow> None | Inr row \<Rightarrow> mw_id row)\<rparr>]"

definition opt_list :: "string option \<Rightarrow> string list" where
  "opt_list s = (case truthy s of None \<Rightarrow> [] | Some x \<Rightarrow> [x])"

definition email_step ::
  "email_env \<Rightarrow> string \<Rightarrow> string option \<Rightarrow> nat \<Rightarrow> nat \<Rightarrow> email_item \<Rightarrow> email_result \<Rightarrow> email_result" where
  "email_step env folderId folderName n i item s =
     (let r = email_attempt env folderId i item;
          s1 = (case r of
                  Inr row \<Rightarrow> s\<lparr>er_uploaded := er_uploaded s + 1,
                    er_backedUpIds := er_backedUpIds s @ [ei_id item],
                    er_uploadedFileIds := er_uploadedFileIds s @ opt_list (mw_file_id row),
                    er_uploadedMessageIds := er_uploadedMessageIds s @ opt_list (mw_id row)\<rparr>
                | Inl t \<Rightarrow>
                    if is_conflict t then
                      s\<lparr>er_duplicates := er_duplicates s + 1, er_backedUpIds := er_backedUpIds s @ [ei_id item]\<rparr>
                    else s\<lparr>er_errors := er_errors s + 1\<rparr>)
      in s1\<lparr>er_events := er_events s @ email_events folderName n i item r\<rparr>)"

definition cancel_email :: "email_result \<Rightarrow> email_result" where
  "cancel_email s = s\<lparr>er_cancelled := True\<rparr>"

fun email_loop ::
  "email_env \<Rightarrow> string \<Rightarrow> string option \<Rightarrow> nat \<Rightarrow> nat \<Rightarrow> email_item list \<Rightarrow> email_result \<Rightarrow> email_result" where
  "email_loop env folderId folderName n i [] s = s"
| "email_loop env folderId folderName n i (item # items) s =
     (if \<not> ee_gate env i then cancel_email s
      else email_loop env folderId folderName n (Suc i) items (email_step env folderId folderName n i item s))"

definition empty_email_result :: email_result where
  "empty_email_result = \<lparr>er_uploaded = 0, er_duplicates = 0, er_errors = 0, er_cancelled = False,
     er_backedUpIds = [], er_uploadedFileIds = [], er_uploadedMessageIds = [], er_events = []\<rparr>"

definition backupEmailEntries :: "email_env \<Rightarrow> email_item list \<Rightarrow> string \<Rightarrow> string option \<Rightarrow> email_result" where
  "backupEmailEntries env items folderId folderName =
     email_loop env folderId folderName (length items) 0 items empty_email_result"

definition email_counts :: "email_result \<Rightarrow> nat \<times> nat \<times> nat" where
  "email_counts s = (er_uploaded s, er_duplicates s, er_errors s)"

interpretation erun: counted_run "email_loop env folderId folderName n" "ee_gate env"
    "email_step env folderId folderName n" cancel_email email_counts
    "\<lambda>i item. email_outcome (email_attempt env folderId i item)"
  for env folderId folderName n
  by unfold_locales
     (auto simp: cancel_email_def email_counts_def email_step_def email_outcome_def Let_def split: sum.split)

fun removeBackedUpMessages :: "(string \<Rightarrow> thrown + unit) \<Rightarrow> string list \<Rightarrow> nat \<times> nat" where
  "removeBackedUpMessages del [] = (0, 0)"
| "removeBackedUpMessages del (i # is) =
     (let (removed, failed) = removeBackedUpMessages del is
      in case del i of Inr _ \<Rightarrow> (removed + 1, failed) | Inl _ \<Rightarrow> (removed, failed + 1))"

section \<open>Settings\<close>

definition DELETE_AFTER_KEY :: string where "DELETE_AFTER_KEY = ''apollo_ebackup_delete_after''"
definition EMAIL_NOTIFY_KEY :: string where "EMAIL_NOTIFY_KEY = ''apollo_ebackup_notify''"
definition EMAIL_BG_KEY :: string where "EMAIL_BG_KEY = ''apollo_ebackup_background''"

record email_settings =
  es_deleteAfter :: bool
  es_notify :: bool
  es_background :: bool

definition loadEmailBackupSettings :: "local_storage \<Rightarrow> email_settings" where
  "loadEmailBackupSettings st = \<lparr>es_deleteAfter = (st DELETE_AFTER_KEY = Some ''true''),
     es_notify = (st EMAIL_NOTIFY_KEY \<noteq> Some ''false''), es_background = (st EMAIL_BG_KEY \<noteq> Some ''false'')\<rparr>"

definition saveEmailBackupSettings :: "email_settings \<Rightarrow> local_storage \<Rightarrow> local_storage" where
  "saveEmailBackupSettings s st = st(DELETE_AFTER_KEY \<mapsto> bool_string (es_deleteAfter s),
     EMAIL_NOTIFY_KEY \<mapsto> bool_string (es_notify s), EMAIL_BG_KEY \<mapsto> bool_string (es_background s))"

section \<open>Properties\<close>

text \<open>
  Settings survive a reload: both settings pages read back what they saved, whatever else is
  in the storage, and saving the one leaves the other alone.
\<close>

theorem settings_roundtrip:
  "loadEmailBackupSettings (saveEmailBackupSettings s st) = s \<and>
   loadGoogleBackupSettings (saveGoogleBackupSettings g st) = g \<and>
   loadEmailBackupSettings (saveGoogleBackupSettings g st) = loadEmailBackupSettings st \<and>
   loadGoogleBackupSettings (saveEmailBackupSettings s st) = loadGoogleBackupSettings st"
  by (cases s, cases g)
     (auto simp: loadEmailBackupSettings_def saveEmailBackupSettings_def loadGoogleBackupSettings_def
       saveGoogleBackupSettings_def DELETE_AFTER_KEY_def EMAIL_NOTIFY_KEY_def EMAIL_BG_KEY_def BG_KEY_def
       NOTIFY_KEY_def bool_string_def)

text \<open>The messages of a run that are stored: uploaded, or already present.\<close>

definition is_stored :: "email_env \<Rightarrow> string \<Rightarrow> nat \<times> email_item \<Rightarrow> bool" where
  "is_stored env folderId p =
     (case email_attempt env folderId (fst p) (snd p) of Inr _ \<Rightarrow> True | Inl t \<Rightarrow> is_conflict t)"

lemma email_steps_ids:
  "er_backedUpIds (erun.steps env folderId folderName n i items s) = er_backedUpIds s @
     map (ei_id \<circ> snd) (filter (is_stored env folderId) (zip [i..<i + length items] items))"
proof (induction items arbitrary: i s)
  case (Cons item items)
  have "er_backedUpIds (email_step env folderId folderName n i item s) =
      er_backedUpIds s @ (if is_stored env folderId (i, item) then [ei_id item] else [])"
    by (auto simp: email_step_def is_stored_def Let_def split: sum.split)
  with Cons.IH [of "Suc i" "email_step env folderId folderName n i item s"] show ?case
    by (simp add: upt_conv_Cons del: upt_Suc)
qed simp

text \<open>
  Deleting provider-side is safe: \<open>backedUpIds\<close>, the list "delete after backup" works on, is
  exactly the ids, in order, of the messages before the cancellation that the backend stored or
  reported as already stored (409); the three counters add up to the number of messages tried.
\<close>

theorem email_run_accounts:
  "(let r = backupEmailEntries env items folderId folderName;
        n = length (takeWhile (ee_gate env) [0..<length items]) in
     er_backedUpIds r = map (ei_id \<circ> snd) (filter (is_stored env folderId) (zip [0..<n] (take n items))) \<and>
     er_uploaded r + er_duplicates r + er_errors r = n \<and>
     length (er_backedUpIds r) = er_uploaded r + er_duplicates r)"
proof -
  let ?r = "backupEmailEntries env items folderId folderName"
  define n where "n = length (takeWhile (ee_gate env) [0..<length items])"
  let ?P = "\<lambda>s. length (er_backedUpIds s) = er_uploaded s + er_duplicates s"
  have p: "erun.passed env 0 items = n" by (simp add: erun.passed_def n_def)
  have z: "email_counts empty_email_result = (0, 0, 0)" by (simp add: email_counts_def empty_email_result_def)
  have le: "n \<le> length items" unfolding n_def by (metis diff_zero length_takeWhile_le length_upt)
  let ?s = "erun.steps env folderId folderName (length items) 0 (take n items) empty_email_result"
  have r: "er_backedUpIds ?r = er_backedUpIds ?s" "er_uploaded ?r = er_uploaded ?s" "er_duplicates ?r = er_duplicates ?s"
    by (simp_all add: backupEmailEntries_def erun.loop_passed p Let_def cancel_email_def del: take_all)
  have "er_backedUpIds ?s = map (ei_id \<circ> snd) (filter (is_stored env folderId) (zip [0..<n] (take n items)))"
    using email_steps_ids [of env folderId folderName "length items" 0 "take n items" empty_email_result]
    by (simp add: min.absorb2 [OF le] empty_email_result_def)
  moreover have "?P ?s"
    by (rule erun.steps_inv [where P = ?P])
       (auto simp: email_step_def Let_def empty_email_result_def split: sum.split)
  moreover have "er_uploaded ?r + er_duplicates ?r + er_errors ?r = n"
    using erun.loop_total [OF z, of env folderId folderName "length items" 0 items] p
    by (simp add: email_counts_def backupEmailEntries_def)
  ultimately show ?thesis by (simp add: r Let_def flip: n_def)
qed

end
