(* ===== verification/MsSignIn.thy ===== *)
theory MsSignIn
  imports EmailProviders Base64
begin

text \<open>
  The Microsoft sign-in of the email backup, \<open>requestMicrosoftAccessToken\<close> in
  \<open>frontend/src/api/emailProviders.ts\<close>: the PKCE values, the promise that waits for the popup's
  message, and the exchange of the code for a token. The random bytes, the SHA-256 digest and
  the sequence of browser events are parameters.
\<close>

definition MS_AUTHORITY :: string where
  "MS_AUTHORITY = ''https://login.microsoftonline.com/common/oauth2/v2.0''"

definition MS_SCOPES :: string where
  "MS_SCOPES = join_with '' '' [''https://graph.microsoft.com/User.Read'', ''https://graph.microsoft.com/Mail.ReadWrite'']"

definition MS_REDIRECT_PATH :: string where "MS_REDIRECT_PATH = ''/ms-oauth.html''"

section \<open>PKCE values\<close>

definition ms_alphabet :: string where
  "ms_alphabet = ''ABCDEFGHIJKLMNOPQRSTUVWXYZabcdefghijklmnopqrstuvwxyz0123456789-._~''"

definition randomString :: "bytes \<Rightarrow> string" where
  "randomString values = map (\<lambda>v. ms_alphabet ! (unat v mod length ms_alphabet)) values"

definition string_bytes :: "string \<Rightarrow> bytes" where
  "string_bytes s = map (\<lambda>c. of_nat (of_char c)) s"

definition pkceChallenge :: "(bytes \<Rightarrow> bytes) \<Rightarrow> string \<Rightarrow> string" where
  "pkceChallenge sha256 verifier = to_base64url (btoa (sha256 (string_bytes verifier)))"

section \<open>Waiting for the popup\<close>

record oauth_message =
  om_type :: "string option"
  om_state :: "string option"
  om_code :: "string option"
  om_error :: "string option"
  om_errorDescription :: "string option"

text \<open>The five-minute timer, a tick of the 500 ms poll with the value of \<open>popup.closed\<close>, a message.\<close>

datatype ms_event = MsTimeout | MsPoll bool | MsMessage string "oauth_message option"

text \<open>\<open>a || b || c\<close>\<close>

fun first_or :: "string option list \<Rightarrow> string \<Rightarrow> string" where
  "first_or [] d = d"
| "first_or (None # xs) d = first_or xs d"
| "first_or (Some x # xs) d = x"

text \<open>What an event does to the pending promise; \<open>None\<close> leaves it pending.\<close>

definition ms_settles :: "string \<Rightarrow> string \<Rightarrow> ms_event \<Rightarrow> (string + string) option" where
  "ms_settles origin state ev =
     (case ev of
        MsTimeout \<Rightarrow> Some (Inl ''Microsoft sign-in timed out.'')
      | MsPoll is_closed \<Rightarrow> if is_closed then Some (Inl ''cancelled'') else None
      | MsMessage src d \<Rightarrow>
          if src \<noteq> origin then None
          else case d of
                 None \<Rightarrow> None
               | Some m \<Rightarrow>
                   if om_type m \<noteq> Some ''ms-oauth-callback'' then None
                   else if om_state m \<noteq> Some state then Some (Inl ''Microsoft sign-in failed (state mismatch).'')
                   else if truthy (om_error m) \<noteq> None \<or> truthy (om_code m) = None then
                     Some (Inl (first_or [truthy (om_errorDescription m), truthy (om_error m)] ''Microsoft sign-in failed.''))
                   else Some (Inr (or_else (om_code m) [])))"

text \<open>The pending promise: its result, and how often \<open>cleanup()\<close> ran. It stops listening once settled.\<close>

record ms_wait =
  mw_result :: "(string + string) option"
  mw_cleanups :: nat

definition ms_handle :: "string \<Rightarrow> string \<Rightarrow> ms_event \<Rightarrow> ms_wait \<Rightarrow> ms_wait" where
  "ms_handle origin state ev w =
     (if mw_result w \<noteq> None then w
      else case ms_settles origin state ev of
             None \<Rightarrow> w
           | Some r \<Rightarrow> w\<lparr>mw_result := Some r, mw_cleanups := mw_cleanups w + 1\<rparr>)"

definition ms_wait_code :: "string \<Rightarrow> string \<Rightarrow> ms_event list \<Rightarrow> ms_wait" where
  "ms_wait_code origin state evs = fold (ms_handle origin state) evs \<lparr>mw_result = None, mw_cleanups = 0\<rparr>"

section \<open>The flow\<close>

record ms_env =
  mv_clientId :: string
  mv_popup :: bool
  mv_origin :: string
  mv_random64 :: bytes
  mv_random32 :: bytes
  mv_sha256 :: "bytes \<Rightarrow> bytes"
  mv_events :: "ms_event list"
  mv_token :: "(string \<times> string) list \<Rightarrow> thrown + string option g_response"   \<comment> \<open>the \<open>access_token\<close> field\<close>

definition ms_authorize_params :: "ms_env \<Rightarrow> (string \<times> string) list" where
  "ms_authorize_params env =
     [(''client_id'', mv_clientId env), (''response_type'', ''code''),
      (''redirect_uri'', mv_origin env @ MS_REDIRECT_PATH), (''response_mode'', ''query''),
      (''scope'', MS_SCOPES), (''state'', randomString (mv_random32 env)),
      (''code_challenge'', pkceChallenge (mv_sha256 env) (randomString (mv_random64 env))),
      (''code_challenge_method'', ''S256''), (''prompt'', ''select_account'')]"

definition ms_token_params :: "ms_env \<Rightarrow> string \<Rightarrow> (string \<times> string) list" where
  "ms_token_params env code =
     [(''client_id'', mv_clientId env), (''grant_type'', ''authorization_code''), (''code'', code),
      (''redirect_uri'', mv_origin env @ MS_REDIRECT_PATH),
      (''code_verifier'', randomString (mv_random64 env)), (''scope'', MS_SCOPES)]"

definition ms_exchange :: "thrown + string option g_response \<Rightarrow> thrown + string" where
  "ms_exchange res =
     (case res of
        Inl t \<Rightarrow> Inl t
      | Inr r \<Rightarrow>
          if \<not> g_ok r then
            Inl (ThrowError (''Microsoft token exchange failed: '' @ show_nat (g_status r) @ '' '' @ or_else (g_text r) []))
          else case g_json r of
                 None \<Rightarrow> Inl (ThrowError ''SyntaxError'')
               | Some tok \<Rightarrow>
                   (case truthy tok of
                      None \<Rightarrow> Inl (ThrowError ''Microsoft token exchange returned no access token.'')
                    | Some t \<Rightarrow> Inr t))"

text \<open>\<open>None\<close>: the promise is still pending after the given events.\<close>

definition requestMicrosoftAccessToken :: "ms_env \<Rightarrow> (thrown + string) option" where
  "requestMicrosoftAccessToken env =
     (if mv_clientId env = [] then
        Some (Inl (ThrowError ''Microsoft sign-in is not configured (VITE_MS_CLIENT_ID is unset).''))
      else if \<not> mv_popup env then
        Some (Inl (ThrowError ''Could not open the Microsoft sign-in window. Allow popups for this site and try again.''))
      else case mw_result (ms_wait_code (mv_origin env) (randomString (mv_random32 env)) (mv_events env)) of
             None \<Rightarrow> None
           | Some (Inl msg) \<Rightarrow> Some (Inl (ThrowError msg))
           | Some (Inr code) \<Rightarrow> Some (ms_exchange (mv_token env (ms_token_params env code))))"

section \<open>Properties\<close>

lemma ms_settled_fixed: "mw_result w \<noteq> None \<Longrightarrow> fold (ms_handle origin state) evs w = w"
  by (induction evs) (auto simp: ms_handle_def)

lemma ms_wait_first:
  "ms_wait_code origin state evs =
     (case find (\<lambda>ev. ms_settles origin state ev \<noteq> None) evs of
        None \<Rightarrow> \<lparr>mw_result = None, mw_cleanups = 0\<rparr>
      | Some ev \<Rightarrow> \<lparr>mw_result = ms_settles origin state ev, mw_cleanups = 1\<rparr>)"
  by (induction evs) (auto simp: ms_wait_code_def ms_handle_def ms_settled_fixed)

text \<open>
  The sign-in accepts only its own answer: a code is accepted only from a message of this
  origin, of the callback type, without an error and carrying the \<open>state\<close> generated for this
  attempt; the first event that settles the wait decides it, and the clean-up runs exactly once.
\<close>

theorem ms_sign_in_safe:
  assumes "mw_result (ms_wait_code origin state evs) = Some (Inr code)"
  shows "(\<exists>m. MsMessage origin (Some m) \<in> set evs \<and> om_type m = Some ''ms-oauth-callback'' \<and>
            om_state m = Some state \<and> om_code m = Some code \<and> truthy (om_error m) = None) \<and>
         mw_cleanups (ms_wait_code origin state evs) = 1 \<and>
         ms_wait_code origin state (evs @ later) = ms_wait_code origin state evs"
proof -
  from assms obtain ev where f: "find (\<lambda>ev. ms_settles origin state ev \<noteq> None) evs = Some ev"
    and s: "ms_settles origin state ev = Some (Inr code)"
    by (auto simp: ms_wait_first split: option.splits)
  from f have ev: "ev \<in> set evs" by (auto simp: find_Some_iff)
  from s obtain m where "ev = MsMessage origin (Some m)" "om_type m = Some ''ms-oauth-callback''"
    "om_state m = Some state" "om_code m = Some code" "truthy (om_error m) = None"
    by (auto simp: ms_settles_def truthy_def split: ms_event.splits if_splits option.splits)
  with ev have "\<exists>m. MsMessage origin (Some m) \<in> set evs \<and> om_type m = Some ''ms-oauth-callback'' \<and>
            om_state m = Some state \<and> om_code m = Some code \<and> truthy (om_error m) = None" by blast
  moreover have "mw_cleanups (ms_wait_code origin state evs) = 1"
    unfolding ms_wait_first f by simp
  moreover have "ms_wait_code origin state (evs @ later) = ms_wait_code origin state evs"
    using ms_settled_fixed [of "ms_wait_code origin state evs" origin state later] assms
    by (simp add: ms_wait_code_def)
  ultimately show ?thesis by blast
qed

theorem ms_sign_in_safe_witness:
  "mw_cleanups (ms_wait_code ''https://sfs'' ''st'' [MsPoll False, MsMessage ''https://evil'' None, MsMessage ''https://sfs''
     (Some \<lparr>om_type = Some ''ms-oauth-callback'', om_state = Some ''st'', om_code = Some ''c1'', om_error = None,
            om_errorDescription = None\<rparr>)]) = 1"
  (is "mw_cleanups (ms_wait_code _ _ ?evs) = 1")
proof -
  have "mw_result (ms_wait_code ''https://sfs'' ''st'' ?evs) = Some (Inr ''c1'')"
    by (simp add: ms_wait_first ms_settles_def truthy_def)
  from ms_sign_in_safe [OF this] show ?thesis by blast
qed

text \<open>
  Every character of a random string is one of the 66 unreserved ones; the challenge of a
  verifier is the base64url text of its digest and decodes to it.
\<close>

lemma randomString_chars: "set (randomString values) \<subseteq> set ms_alphabet \<and> length (randomString values) = length values"
proof -
  have "0 < length ms_alphabet" by (simp add: ms_alphabet_def)
  then have "ms_alphabet ! (unat v mod length ms_alphabet) \<in> set ms_alphabet" for v :: "8 word"
    by (intro nth_mem mod_less_divisor)
  then show ?thesis by (auto simp: randomString_def)
qed

lemma pkceChallenge_decodes: "atob (base64UrlToBase64 (pkceChallenge sha256 v)) = Some (sha256 (string_bytes v))"
  by (simp add: pkceChallenge_def base64url_restores atob_btoa)

end
