(* ===== verification/BackgroundBackup.thy ===== *)
theory BackgroundBackup
  imports EmailBackup
begin

text \<open>
  A backup that runs behind its closed window: the state hook
  \<open>frontend/src/hooks/useBackgroundBackup.ts\<close> and the cache updates of
  \<open>frontend/src/hooks/useBackupLiveSync.ts\<close>. The run itself delivers progress events and a
  result; the listing refreshes are driven by a clock.
\<close>

section \<open>Live updates of the caches\<close>

definition REFRESH_INTERVAL_MS :: nat where "REFRESH_INTERVAL_MS = 1500"

record live_server =
  ls_drive_id :: string
  ls_used_bytes :: nat

text \<open>
  \<open>ly_me\<close> and \<open>ly_servers\<close> are the two cached quota answers (\<open>None\<close>: not loaded),
  \<open>ly_pending\<close> the due time of the armed timer, \<open>ly_refreshes\<close> the times the listings were
  invalidated, \<open>ly_reconciled\<close> how often the quota queries were.
\<close>

record live_sync =
  ly_lastRefresh :: nat
  ly_pending :: "nat option"
  ly_refreshes :: "nat list"
  ly_me :: "nat option"
  ly_servers :: "live_server list option"
  ly_reconciled :: nat

definition createBackupLiveSync :: "nat option \<Rightarrow> live_server list option \<Rightarrow> live_sync" where
  "createBackupLiveSync me servers = \<lparr>ly_lastRefresh = 0, ly_pending = None, ly_refreshes = [],
     ly_me = me, ly_servers = servers, ly_reconciled = 0\<rparr>"

definition invalidateListings :: "nat \<Rightarrow> live_sync \<Rightarrow> live_sync" where
  "invalidateListings now s = s\<lparr>ly_lastRefresh := now, ly_refreshes := ly_refreshes s @ [now]\<rparr>"

definition refreshListings :: "nat \<Rightarrow> live_sync \<Rightarrow> live_sync" where
  "refreshListings now s =
     (if ly_pending s \<noteq> None then s
      else let wait = nat (max 0 (int REFRESH_INTERVAL_MS - (int now - int (ly_lastRefresh s)))) in
        if wait = 0 then invalidateListings now s else s\<lparr>ly_pending := Some (now + wait)\<rparr>)"

definition refresh_timer :: "nat \<Rightarrow> live_sync \<Rightarrow> live_sync" where
  "refresh_timer now s = invalidateListings now (s\<lparr>ly_pending := None\<rparr>)"

definition creditQuota :: "nat \<Rightarrow> string option \<Rightarrow> live_sync \<Rightarrow> live_sync" where
  "creditQuota n driveId s =
     (if n = 0 then s
      else let s1 = s\<lparr>ly_me := map_option (\<lambda>used. used + n) (ly_me s)\<rparr> in
        case truthy driveId of
          None \<Rightarrow> s1
        | Some d \<Rightarrow> s1\<lparr>ly_servers := map_option (map (\<lambda>v.
              if ls_drive_id v = d then v\<lparr>ls_used_bytes := ls_used_bytes v + n\<rparr> else v)) (ly_servers s1)\<rparr>)"

definition itemStored :: "nat \<Rightarrow> nat \<Rightarrow> string option \<Rightarrow> live_sync \<Rightarrow> live_sync" where
  "itemStored now n driveId s = refreshListings now (creditQuota n driveId s)"

definition finish_sync :: "nat \<Rightarrow> live_sync \<Rightarrow> live_sync" where
  "finish_sync now s =
     (let s1 = invalidateListings now (s\<lparr>ly_pending := None\<rparr>) in s1\<lparr>ly_reconciled := ly_reconciled s1 + 1\<rparr>)"

text \<open>The run of the sync: stored items and timers at their times.\<close>

datatype live_event = LStored nat nat "string option" | LTimer nat

inductive live_run :: "nat \<Rightarrow> live_sync \<Rightarrow> live_event list \<Rightarrow> nat \<Rightarrow> live_sync \<Rightarrow> bool" where
  none: "live_run t0 s [] t0 s"
| stored: "live_run t0 s es t s' \<Longrightarrow> t \<le> now \<Longrightarrow> (case ly_pending s' of None \<Rightarrow> True | Some due \<Rightarrow> now \<le> due) \<Longrightarrow>
    live_run t0 s (es @ [LStored now n d]) now (itemStored now n d s')"
| timer: "live_run t0 s es t s' \<Longrightarrow> t \<le> now \<Longrightarrow> ly_pending s' = Some due \<Longrightarrow> due \<le> now \<Longrightarrow>
    live_run t0 s (es @ [LTimer now]) now (refresh_timer now s')"

definition spaced :: "nat list \<Rightarrow> bool" where
  "spaced ts \<longleftrightarrow> (\<forall>i < length ts - 1. ts ! i + REFRESH_INTERVAL_MS \<le> ts ! Suc i)"

lemma spaced_snoc:
  "spaced ts \<Longrightarrow> ts = [] \<or> last ts + REFRESH_INTERVAL_MS \<le> now \<Longrightarrow> spaced (ts @ [now])"
proof -
  assume s: "spaced ts" "ts = [] \<or> last ts + REFRESH_INTERVAL_MS \<le> now"
  show "spaced (ts @ [now])"
    unfolding spaced_def
  proof (intro allI impI)
    fix i assume i: "i < length (ts @ [now]) - 1"
    show "(ts @ [now]) ! i + REFRESH_INTERVAL_MS \<le> (ts @ [now]) ! Suc i"
    proof (cases "Suc i < length ts")
      case True
      with s(1) show ?thesis by (simp add: spaced_def nth_append)
    next
      case False
      with i have e: "Suc i = length ts" by simp
      then have "ts \<noteq> []" by auto
      with e s(2) show ?thesis by (simp add: nth_append last_conv_nth flip: e)
    qed
  qed
qed

definition live_inv :: "live_sync \<Rightarrow> bool" where
  "live_inv s \<longleftrightarrow> spaced (ly_refreshes s) \<and>
     (ly_refreshes s \<noteq> [] \<longrightarrow> last (ly_refreshes s) = ly_lastRefresh s) \<and>
     (case ly_pending s of None \<Rightarrow> True | Some due \<Rightarrow> ly_lastRefresh s + REFRESH_INTERVAL_MS \<le> due)"

lemma credit_keeps [simp]:
  "ly_refreshes (creditQuota n d s) = ly_refreshes s" "ly_lastRefresh (creditQuota n d s) = ly_lastRefresh s"
  "ly_pending (creditQuota n d s) = ly_pending s"
  by (simp_all add: creditQuota_def Let_def split: option.split)

lemma live_inv_credit [simp]: "live_inv (creditQuota n d s) = live_inv s"
  by (simp add: live_inv_def split: option.split)

lemma live_inv_refresh:
  "live_inv s \<Longrightarrow> live_inv (refreshListings now s)"
  by (auto simp: live_inv_def refreshListings_def invalidateListings_def Let_def intro!: spaced_snoc
      split: option.splits)

lemma live_inv_timer:
  "live_inv s \<Longrightarrow> ly_pending s = Some due \<Longrightarrow> due \<le> now \<Longrightarrow> live_inv (refresh_timer now s)"
  by (auto simp: live_inv_def refresh_timer_def invalidateListings_def intro!: spaced_snoc)

lemma live_run_inv: "live_run t0 s es t s' \<Longrightarrow> live_inv s \<Longrightarrow> live_inv s'"
  by (induction rule: live_run.induct)
     (auto simp: itemStored_def intro: live_inv_refresh live_inv_timer)

text \<open>The bytes a run of events credits to the user, and to one drive.\<close>

definition credited :: "live_event list \<Rightarrow> nat" where
  "credited es = sum_list (map (\<lambda>e. case e of LStored _ n _ \<Rightarrow> n | LTimer _ \<Rightarrow> 0) es)"

lemma credit_me: "ly_me (creditQuota n d s) = map_option (\<lambda>u. u + n) (ly_me s)"
  by (cases "ly_me s") (simp_all add: creditQuota_def Let_def split: option.split)

lemma live_run_me: "live_run t0 s es t s' \<Longrightarrow> ly_me s' = map_option (\<lambda>u. u + credited es) (ly_me s)"
proof (induction rule: live_run.induct)
  case (none t0 s)
  then show ?case by (cases "ly_me s") (simp_all add: credited_def)
next
  case (stored t0 s es t s' now n d)
  have "ly_me (itemStored now n d s') = ly_me (creditQuota n d s')"
    by (simp add: itemStored_def refreshListings_def invalidateListings_def Let_def)
  with stored show ?case by (cases "ly_me s") (simp_all add: credit_me credited_def)
next
  case (timer t0 s es t s' now due)
  then show ?case by (simp add: refresh_timer_def invalidateListings_def credited_def)
qed

text \<open>
  A long backup does not flood the server, and its quota bar misses nothing: however the
  stored items arrive, two listing refreshes of a run are at least 1.5 s apart, and the cached
  usage has grown by exactly the bytes of the stored items.
\<close>

theorem live_sync_throttled:
  assumes "live_run 0 (createBackupLiveSync me servers) es t s"
  shows "spaced (ly_refreshes s) \<and> ly_me s = map_option (\<lambda>u. u + credited es) me"
proof -
  have "live_inv (createBackupLiveSync me servers)"
    by (simp add: live_inv_def createBackupLiveSync_def spaced_def)
  with live_run_inv [OF assms] live_run_me [OF assms] show ?thesis
    by (simp add: live_inv_def createBackupLiveSync_def)
qed

theorem live_sync_throttled_witness:
  "\<exists>s. live_run 0 (createBackupLiveSync (Some 7) None) [LStored 2000 5 None, LStored 2100 6 None, LTimer 3500] 3500 s \<and>
     ly_me s = Some 18"
proof -
  let ?s0 = "createBackupLiveSync (Some 7) None"
  let ?s1 = "itemStored 2000 5 None ?s0" and ?s2 = "itemStored 2100 6 None (itemStored 2000 5 None ?s0)"
  have r1: "live_run 0 ?s0 ([] @ [LStored 2000 5 None]) 2000 ?s1"
    by (rule live_run.stored [OF live_run.none]) (simp_all add: createBackupLiveSync_def)
  have r2: "live_run 0 ?s0 (([] @ [LStored 2000 5 None]) @ [LStored 2100 6 None]) 2100 ?s2"
    by (rule live_run.stored [OF r1])
       (simp_all add: itemStored_def refreshListings_def createBackupLiveSync_def invalidateListings_def REFRESH_INTERVAL_MS_def)
  have "live_run 0 ?s0 ((([] @ [LStored 2000 5 None]) @ [LStored 2100 6 None]) @ [LTimer 3500]) 3500 (refresh_timer 3500 ?s2)"
    by (rule live_run.timer [OF r2, of _ 3500])
       (simp_all add: itemStored_def refreshListings_def createBackupLiveSync_def invalidateListings_def
         creditQuota_def truthy_def REFRESH_INTERVAL_MS_def)
  then have run: "live_run 0 ?s0 [LStored 2000 5 None, LStored 2100 6 None, LTimer 3500] 3500 (refresh_timer 3500 ?s2)"
    by simp
  with live_sync_throttled [OF run] show ?thesis by (auto simp: credited_def)
qed

section \<open>The state behind the toolbar card\<close>

datatype cancel_action = Keep | Remove

datatype backup_unit = UFile | UEmail

definition unit_name :: "backup_unit \<Rightarrow> string" where
  "unit_name u = (case u of UFile \<Rightarrow> ''file'' | UEmail \<Rightarrow> ''email'')"

record backup_state =
  bs_running :: bool
  bs_paused :: bool
  bs_done :: nat
  bs_total :: nat
  bs_uploaded :: nat
  bs_duplicates :: nat
  bs_errors :: nat
  bs_storedCount :: nat
  bs_storedBytes :: nat
  bs_totalBytes :: nat
  bs_currentPath :: "string option"
  bs_note :: "string option"
  bs_unit :: backup_unit

record bg_hook =
  bh_state :: "backup_state option"
  bh_cancelPrompt :: bool
  bh_rollbackBusy :: bool
  bh_control :: "control option"
  bh_cancelAction :: cancel_action

definition start_backup :: "nat \<Rightarrow> nat \<Rightarrow> backup_unit \<Rightarrow> bg_hook \<Rightarrow> bg_hook" where
  "start_backup n totalBytes u h = h\<lparr>bh_control := Some createBackupControl, bh_cancelAction := Keep,
     bh_cancelPrompt := False, bh_state := Some \<lparr>bs_running = True, bs_paused = False, bs_done = 0, bs_total = n,
       bs_uploaded = 0, bs_duplicates = 0, bs_errors = 0, bs_storedCount = 0, bs_storedBytes = 0,
       bs_totalBytes = totalBytes, bs_currentPath = None, bs_note = None, bs_unit = u\<rparr>\<rparr>"

definition stored_report :: "'e progress_event \<Rightarrow> item_report option" where
  "stored_report e =
     (case (pv_phase e, pv_report e) of
        (PSettled, Some r) \<Rightarrow> if ir_status r = ODone then Some r else None
      | _ \<Rightarrow> None)"

definition backup_progress :: "'e progress_event \<Rightarrow> bg_hook \<Rightarrow> bg_hook" where
  "backup_progress e h = h\<lparr>bh_state := map_option (\<lambda>s. s\<lparr>bs_done := pv_done e, bs_total := pv_total e,
     bs_currentPath := Some (pv_path e),
     bs_storedCount := bs_storedCount s + (if stored_report e = None then 0 else 1),
     bs_storedBytes := bs_storedBytes s + (case stored_report e of None \<Rightarrow> 0 | Some r \<Rightarrow> ir_sizeBytes r)\<rparr>)
     (bh_state h)\<rparr>"

definition plural :: "nat \<Rightarrow> string" where
  "plural n = (if n \<noteq> 1 then ''s'' else [])"

text \<open>The summary line, and how many stored items the rollback removed.\<close>

definition settle_note ::
  "bool \<Rightarrow> nat \<Rightarrow> cancel_action \<Rightarrow> (nat \<times> nat) option \<Rightarrow> backup_unit \<Rightarrow> nat \<times> string option" where
  "settle_note cancelled uploaded action rollback u =
     (if cancelled \<and> action = Remove \<and> rollback \<noteq> None then
        (let (removed, failed) = the rollback in
         (removed, Some (if failed = 0
            then ''Cancelled '' @ em_dash @ '' '' @ show_nat removed @ '' '' @ unit_name u @ plural removed @ '' removed again.''
            else ''Cancelled '' @ em_dash @ '' '' @ show_nat removed @ '' removed; '' @ show_nat failed @ '' could not be deleted.'')))
      else if cancelled then
        (0, Some (''Cancelled '' @ em_dash @ '' '' @ show_nat uploaded @ '' '' @ unit_name u @ plural uploaded @ '' kept.''))
      else (0, None))"

text \<open>\<open>rollback\<close> is the outcome of the rollback the caller provided, when it did.\<close>

definition settle_backup :: "'e run_result \<Rightarrow> (nat \<times> nat) option \<Rightarrow> backup_unit \<Rightarrow> bg_hook \<Rightarrow> bg_hook" where
  "settle_backup res rollback u h =
     (let (removed, note) = settle_note (rr_cancelled res) (rr_uploaded res) (bh_cancelAction h) rollback u in
      h\<lparr>bh_control := None, bh_cancelPrompt := False, bh_rollbackBusy := False,
        bh_state := map_option (\<lambda>s. s\<lparr>bs_running := False, bs_paused := False, bs_currentPath := None,
          bs_uploaded := rr_uploaded res - removed, bs_duplicates := rr_duplicates res, bs_errors := rr_errors res,
          bs_note := note\<rparr>) (bh_state h)\<rparr>)"

definition set_paused :: "bool \<Rightarrow> bg_hook \<Rightarrow> bg_hook" where
  "set_paused b h = h\<lparr>bh_state := map_option (\<lambda>s. s\<lparr>bs_paused := b\<rparr>) (bh_state h)\<rparr>"

definition togglePause :: "bg_hook \<Rightarrow> bg_hook" where
  "togglePause h =
     (case bh_control h of
        None \<Rightarrow> h
      | Some c \<Rightarrow>
          let nowPaused = \<not> isPaused c
          in set_paused nowPaused (h\<lparr>bh_control := Some (if nowPaused then pause c else resume c)\<rparr>))"

definition requestCancel :: "bg_hook \<Rightarrow> bg_hook" where
  "requestCancel h = (set_paused True (h\<lparr>bh_control := map_option pause (bh_control h)\<rparr>))\<lparr>bh_cancelPrompt := True\<rparr>"

definition resolveCancel :: "cancel_action \<Rightarrow> bg_hook \<Rightarrow> bg_hook" where
  "resolveCancel a h = h\<lparr>bh_cancelAction := a, bh_cancelPrompt := False, bh_control := map_option cancel (bh_control h)\<rparr>"

definition resumeFromPrompt :: "bg_hook \<Rightarrow> bg_hook" where
  "resumeFromPrompt h = set_paused False (h\<lparr>bh_cancelPrompt := False, bh_control := map_option resume (bh_control h)\<rparr>)"

definition dismiss_backup :: "bg_hook \<Rightarrow> bg_hook" where
  "dismiss_backup h = h\<lparr>bh_state := None\<rparr>"

section \<open>Properties of the card\<close>

definition run_events :: "'e progress_event list \<Rightarrow> bg_hook \<Rightarrow> bg_hook" where
  "run_events es h = fold backup_progress es h"

lemma run_events_stored:
  "bh_state h = Some s \<Longrightarrow> \<exists>s'. bh_state (run_events es h) = Some s' \<and>
     bs_storedCount s' = bs_storedCount s + count_if (\<lambda>e. stored_report e \<noteq> None) es \<and>
     bs_storedBytes s' = bs_storedBytes s +
       sum_list (map (\<lambda>e. case stored_report e of None \<Rightarrow> 0 | Some r \<Rightarrow> ir_sizeBytes r) es)"
proof (induction es arbitrary: h s)
  case (Cons e es)
  obtain s1 where s1: "bh_state (backup_progress e h) = Some s1"
    "bs_storedCount s1 = bs_storedCount s + (if stored_report e = None then 0 else 1)"
    "bs_storedBytes s1 = bs_storedBytes s + (case stored_report e of None \<Rightarrow> 0 | Some r \<Rightarrow> ir_sizeBytes r)"
    using Cons.prems by (simp add: backup_progress_def)
  show ?case
    using Cons.IH [OF s1(1)] s1(2,3) by (cases "stored_report e") (auto simp: run_events_def)
qed (simp add: run_events_def)

lemma count_if_concat2:
  "count_if P (concat (map (\<lambda>i. [f i, g i]) xs)) = count_if P (map f xs) + count_if P (map g xs)"
  by (induction xs) simp_all

lemma count_if_map: "count_if P (map f xs) = count_if (\<lambda>x. P (f x)) xs"
  by (induction xs) simp_all

text \<open>
  The card counts what the run stored: after all progress events of a Google backup run,
  \<open>storedCount\<close> equals the \<open>uploaded\<close> of its result, and after the run is settled without a
  rollback the card shows the result's counters and no longer runs.
\<close>

theorem backup_card_agrees:
  "\<exists>s. bh_state (settle_backup (uploadGoogleEntries env es) None UFile
          (run_events (rr_events (uploadGoogleEntries env es)) (start_backup (length es) b UFile h))) = Some s \<and>
     bs_storedCount s = rr_uploaded (uploadGoogleEntries env es) \<and>
     bs_uploaded s = rr_uploaded (uploadGoogleEntries env es) \<and>
     bs_duplicates s = rr_duplicates (uploadGoogleEntries env es) \<and>
     bs_errors s = rr_errors (uploadGoogleEntries env es) \<and> \<not> bs_running s \<and>
     (bs_note s = None \<longleftrightarrow> \<not> rr_cancelled (uploadGoogleEntries env es))"
proof -
  let ?r = "uploadGoogleEntries env es" and ?h = "start_backup (length es) b UFile h"
  let ?n = "google_passed env es" and ?rs = "google_reports env es"
  have acc: "rr_uploaded ?r = count_if (\<lambda>x. ir_status x = ODone) ?rs"
    "rr_events ?r = concat (map (\<lambda>i. [start_event (length es) i (es ! i),
       settled_event (length es) i (es ! i) (?rs ! i)]) [0..<?n])"
    using google_run_summary [of env es] by (simp_all add: Let_def)
  have "count_if (\<lambda>e. stored_report e \<noteq> None) (rr_events ?r) = count_if (\<lambda>i. ir_status (?rs ! i) = ODone) [0..<?n]"
    by (simp add: acc(2) count_if_concat2 count_if_map stored_report_def start_event_def settled_event_def)
       (simp add: count_if_def)
  also have "\<dots> = count_if (\<lambda>x. ir_status x = ODone) (map ((!) ?rs) [0..<?n])" by (simp add: count_if_map)
  also have "map ((!) ?rs) [0..<?n] = ?rs" by (simp add: google_reports_def)
  finally have cnt: "count_if (\<lambda>e. stored_report e \<noteq> None) (rr_events ?r) = rr_uploaded ?r" by (simp add: acc(1))
  obtain s0 where s0: "bh_state ?h = Some s0" "bs_storedCount s0 = 0" by (simp add: start_backup_def)
  from run_events_stored [OF s0(1), of "rr_events ?r"] obtain s1 where
    "bh_state (run_events (rr_events ?r) ?h) = Some s1" "bs_storedCount s1 = rr_uploaded ?r"
    using s0(2) cnt by auto
  then show ?thesis by (auto simp: settle_backup_def settle_note_def Let_def)
qed

end
