(* ===== verification/UploadQueue.thy ===== *)
theory UploadQueue
  imports Prelude
begin

text \<open>
  The phone's upload queue, \<open>mobile/src/services/UploadQueue.ts\<close>: an SQLite table with one row per
  asset. A table is the list of its rows in insertion order; a statement is the function of the
  table it denotes. The interface the sync service relies on is the locale \<open>queue_store\<close>.
\<close>

section \<open>The table\<close>

datatype upload_status = Pending | Uploading | Done | Failed

record queue_item =
  local_asset_id :: string
  local_uri :: string
  filename :: string
  sha256_hash :: "string option"
  size_bytes :: "nat option"
  mime_type :: "string option"
  item_status :: upload_status
  upload_id :: "string option"
  retry_count :: nat
  created_at :: int
  updated_at :: int

record new_item =
  ni_asset_id :: string
  ni_uri :: string
  ni_filename :: string
  ni_hash :: "string option"
  ni_size :: "nat option"
  ni_mime :: "string option"

text \<open>\<open>INSERT OR IGNORE\<close> on the primary key \<open>local_asset_id\<close>.\<close>

definition has_row :: "queue_item list \<Rightarrow> string \<Rightarrow> bool" where
  "has_row q a \<longleftrightarrow> (\<exists>r \<in> set q. local_asset_id r = a)"

definition enqueue :: "int \<Rightarrow> new_item \<Rightarrow> queue_item list \<Rightarrow> queue_item list" where
  "enqueue now n q =
     (if has_row q (ni_asset_id n) then q
      else q @ [\<lparr>local_asset_id = ni_asset_id n, local_uri = ni_uri n, filename = ni_filename n,
        sha256_hash = ni_hash n, size_bytes = ni_size n, mime_type = ni_mime n, item_status = Pending,
        upload_id = None, retry_count = 0, created_at = now, updated_at = now\<rparr>])"

text \<open>\<open>ORDER BY created_at ASC LIMIT n\<close>; rows of the same instant keep their insertion order.\<close>

definition is_pending :: "queue_item \<Rightarrow> bool" where
  "is_pending r \<longleftrightarrow> item_status r = Pending \<or> item_status r = Failed"

definition getPendingItems :: "nat \<Rightarrow> queue_item list \<Rightarrow> queue_item list" where
  "getPendingItems limit q = take limit (sort_key created_at (filter is_pending q))"

definition update_row :: "string \<Rightarrow> (queue_item \<Rightarrow> queue_item) \<Rightarrow> queue_item list \<Rightarrow> queue_item list" where
  "update_row a f q = map (\<lambda>r. if local_asset_id r = a then f r else r) q"

definition setStatus :: "int \<Rightarrow> string \<Rightarrow> upload_status \<Rightarrow> string option \<Rightarrow> queue_item list \<Rightarrow> queue_item list" where
  "setStatus now a st uploadID q = update_row a (\<lambda>r. r\<lparr>item_status := st,
     upload_id := (case uploadID of Some u \<Rightarrow> Some u | None \<Rightarrow> upload_id r), updated_at := now\<rparr>) q"

definition incrementRetry :: "int \<Rightarrow> string \<Rightarrow> queue_item list \<Rightarrow> queue_item list" where
  "incrementRetry now a q = update_row a (\<lambda>r. r\<lparr>retry_count := retry_count r + 1, item_status := Failed,
     updated_at := now\<rparr>) q"

definition countByStatus :: "upload_status \<Rightarrow> queue_item list \<Rightarrow> nat" where
  "countByStatus st q = count_if (\<lambda>r. item_status r = st) q"

definition status_of :: "queue_item list \<Rightarrow> string \<Rightarrow> upload_status option" where
  "status_of q a = map_option item_status (find (\<lambda>r. local_asset_id r = a) q)"

definition isAlreadyDone :: "string \<Rightarrow> queue_item list \<Rightarrow> bool" where
  "isAlreadyDone a q \<longleftrightarrow> status_of q a = Some Done"

definition getAllDoneItems :: "queue_item list \<Rightarrow> queue_item list" where
  "getAllDoneItems q = sort_key created_at (filter (\<lambda>r. item_status r = Done) q)"

definition getDoneHashSet :: "queue_item list \<Rightarrow> string set" where
  "getDoneHashSet q = {h. \<exists>r \<in> set q. item_status r = Done \<and> sha256_hash r = Some h}"

section \<open>The interface\<close>

locale queue_store =
  fixes status :: "'q \<Rightarrow> string \<Rightarrow> upload_status option"
    and enq :: "int \<Rightarrow> new_item \<Rightarrow> 'q \<Rightarrow> 'q"
    and put :: "int \<Rightarrow> string \<Rightarrow> upload_status \<Rightarrow> string option \<Rightarrow> 'q \<Rightarrow> 'q"
    and retry :: "int \<Rightarrow> string \<Rightarrow> 'q \<Rightarrow> 'q"
  assumes status_enq: "status (enq t n q) a =
      (if a = ni_asset_id n \<and> status q a = None then Some Pending else status q a)"
    and status_put: "status (put t b st u q) a = (if a = b \<and> status q a \<noteq> None then Some st else status q a)"
    and status_retry: "status (retry t b q) a = (if a = b \<and> status q a \<noteq> None then Some Failed else status q a)"
begin

text \<open>An attempt on \<open>b\<close>: mark it uploading, then done, or count a failure.\<close>

definition attempt :: "int \<Rightarrow> string \<Rightarrow> bool \<Rightarrow> bool \<Rightarrow> 'q \<Rightarrow> 'q" where
  "attempt t b ok final q =
     (let q1 = put t b Uploading None q in
      if ok then put t b Done None q1 else if final then put t b Failed None q1 else retry t b q1)"

lemma attempt_status:
  "status (attempt t b ok final q) a =
     (if a = b \<and> status q a \<noteq> None then Some (if ok then Done else Failed) else status q a)"
  by (auto simp: attempt_def Let_def status_put status_retry)

lemma attempt_dom: "status (attempt t b ok final q) a = None \<longleftrightarrow> status q a = None"
  by (auto simp: attempt_status)

lemma enq_put: "status (put t b st u (enq t' n q)) b = Some st" if "b = ni_asset_id n"
  using that by (cases "status q b") (simp_all add: status_put status_enq)

lemma enq_keeps: "status q a = Some st \<Longrightarrow> status (enq t n q) a = Some st"
  by (simp add: status_enq)

end

lemma update_row_find:
  assumes "\<And>r. local_asset_id (f r) = local_asset_id r"
  shows "find (\<lambda>r. local_asset_id r = a) (update_row b f q) =
       map_option (\<lambda>r. if a = b then f r else r) (find (\<lambda>r. local_asset_id r = a) q)"
proof (induction q)
  case (Cons r q)
  then show ?case by (cases "local_asset_id r = b") (simp_all add: update_row_def assms)
qed (simp add: update_row_def)

lemma has_row_find: "has_row q a \<longleftrightarrow> find (\<lambda>r. local_asset_id r = a) q \<noteq> None"
  by (auto simp: has_row_def find_None_iff)

lemma find_append: "find P (xs @ ys) = (case find P xs of Some x \<Rightarrow> Some x | None \<Rightarrow> find P ys)"
  by (induction xs) auto

interpretation uq: queue_store status_of enqueue setStatus incrementRetry
proof (unfold_locales, goal_cases)
  case (1 t n q a)
  show ?case
    by (auto simp: status_of_def enqueue_def has_row_find find_append split: option.splits)
next
  case (2 t b st u q a)
  show ?case
    by (cases "find (\<lambda>r. local_asset_id r = a) q") (simp_all add: status_of_def setStatus_def update_row_find)
next
  case (3 t b q a)
  show ?case
    by (cases "find (\<lambda>r. local_asset_id r = a) q") (simp_all add: status_of_def incrementRetry_def update_row_find)
qed

section \<open>The order of the pending items\<close>

lemma insort_key_map: "(\<And>x. k (f x) = k x) \<Longrightarrow> insort_key k (f x) (map f xs) = map f (insort_key k x xs)"
  by (induction xs) simp_all

lemma sort_key_map: "(\<And>x. k (f x) = k x) \<Longrightarrow> sort_key k (map f xs) = map f (sort_key k xs)"
  by (induction xs) (simp_all add: insort_key_map)

text \<open>An update that keeps the age of every row and whether it is pending keeps the order.\<close>

lemma pending_map:
  assumes "\<And>r. created_at (f r) = created_at r" and "\<And>r. r \<in> set q \<Longrightarrow> is_pending (f r) = is_pending r"
  shows "getPendingItems n (map f q) = map f (getPendingItems n q)"
proof -
  have "filter is_pending (map f q) = map f (filter is_pending q)"
    using assms(2) by (induction q) auto
  then show ?thesis by (simp add: getPendingItems_def sort_key_map [of created_at f, OF assms(1)] take_map)
qed

lemma pending_items: "r \<in> set (getPendingItems n q) \<Longrightarrow> r \<in> set q \<and> is_pending r"
  by (auto simp: getPendingItems_def dest!: in_set_takeD)

text \<open>
  The queue serves the oldest first: the items handed out are pending or failed, at most as
  many as asked for, in order of age, and no waiting item is older than one of them.
\<close>

theorem pending_oldest_first:
  "set (getPendingItems n q) \<subseteq> {r \<in> set q. is_pending r} \<and>
   length (getPendingItems n q) = min n (count_if is_pending q) \<and>
   sorted (map created_at (getPendingItems n q)) \<and>
   (\<forall>i < length (getPendingItems n q). \<forall>r \<in> set (drop n (sort_key created_at (filter is_pending q))).
      created_at (getPendingItems n q ! i) \<le> created_at r)"
proof -
  let ?s = "sort_key created_at (filter is_pending q)"
  have srt: "sorted (map created_at ?s)" by simp
  have "sorted (map created_at (take n ?s))" using srt by (metis sorted_wrt_take take_map)
  moreover have "created_at (take n ?s ! i) \<le> created_at r" if "i < length (take n ?s)" "r \<in> set (drop n ?s)" for i r
  proof -
    have "sorted (map created_at (take n ?s) @ map created_at (drop n ?s))"
      using srt by (simp flip: map_append)
    then have "\<forall>x \<in> set (map created_at (take n ?s)). \<forall>y \<in> set (map created_at (drop n ?s)). x \<le> y"
      unfolding sorted_append by blast
    moreover have "take n ?s ! i \<in> set (take n ?s)" using that(1) by (rule nth_mem)
    moreover note that(2)
    ultimately show ?thesis unfolding set_map by blast
  qed
  moreover have "set (take n ?s) \<subseteq> {r \<in> set q. is_pending r}"
    using pending_items [of _ n q] unfolding getPendingItems_def by blast
  moreover have "length (take n ?s) = min n (count_if is_pending q)"
    by (simp add: count_if_def min.commute)
  ultimately show ?thesis unfolding getPendingItems_def by blast
qed

definition sample_row :: "string \<Rightarrow> upload_status \<Rightarrow> int \<Rightarrow> queue_item" where
  "sample_row a st t =
     \<lparr>local_asset_id = a, local_uri = a, filename = a, sha256_hash = None, size_bytes = None, mime_type = None,
      item_status = st, upload_id = None, retry_count = 0, created_at = t, updated_at = t\<rparr>"

theorem pending_oldest_first_witness:
  "created_at (getPendingItems 1 [sample_row ''a'' Pending 9, sample_row ''b'' Failed 4] ! 0) \<le> 9
    \<and> length (getPendingItems 1 [sample_row ''a'' Pending 9, sample_row ''b'' Failed 4]) = 1"
  using pending_oldest_first [of 1 "[sample_row ''a'' Pending 9, sample_row ''b'' Failed 4]"]
  by (simp add: getPendingItems_def is_pending_def sample_row_def)

end
