(* ===== verification/SyncService.thy ===== *)
theory SyncService
  imports UploadQueue Paging GoogleRun
begin

text \<open>
  The phone's camera-roll sync, \<open>mobile/src/services/SyncService.ts\<close>: the scan that fills the
  queue, the pass that uploads its oldest ten items, and the run over a hand-picked selection. The
  camera roll, the hashes, the server and the network are parameters; the database calls succeed.
\<close>

section \<open>Environment and state\<close>

definition CURSOR_KEY :: string where "CURSOR_KEY = ''apollo_sync_cursor''"
definition DEVICE_ID_KEY :: string where "DEVICE_ID_KEY = ''apollo_device_id''"
definition WIFI_ONLY_KEY :: string where "WIFI_ONLY_KEY = ''apollo_wifi_only''"

record camera_node =
  cn_uri :: string
  cn_filename :: "string option"
  cn_fileSize :: "nat option"
  cn_video :: bool
  cn_timestamp :: int

record camera_page =
  cp_edges :: "camera_node list"
  cp_hasNext :: bool
  cp_endCursor :: "string option"

record upload_args =
  ua_uri :: string
  ua_name :: string
  ua_type :: string
  ua_device :: "string option"

text \<open>
  \<open>sv_netType k\<close> is the connection at the \<open>k\<close>-th look, \<open>sv_now\<close> a clock indexed by item and
  call, \<open>sv_upload\<close> and \<open>sv_delta\<close> the answers for item \<open>i\<close>, \<open>sv_stamp\<close> the name given
  to an asset without a file name.
\<close>

record sync_env =
  sv_ios :: bool
  sv_permission :: "nat \<Rightarrow> string"
  sv_netType :: "nat \<Rightarrow> string"
  sv_now :: "nat \<Rightarrow> nat \<Rightarrow> int"
  sv_page :: "nat \<Rightarrow> string option \<Rightarrow> thrown + camera_page"
  sv_materialize :: "string \<Rightarrow> thrown + string"
  sv_hash :: "string \<Rightarrow> thrown + string"
  sv_check :: "string \<Rightarrow> thrown + bool"
  sv_upload :: "nat \<Rightarrow> upload_args \<Rightarrow> thrown + unit"
  sv_delta :: "nat \<Rightarrow> thrown + string"
  sv_stamp :: string

datatype sync_effect = FileStart string | FileComplete string | Upload upload_args | PendingCount nat | SyncedCount nat

record sync_state =
  ss_queue :: "queue_item list"
  ss_storage :: local_storage
  ss_effects :: "sync_effect list"

definition on_queue :: "(queue_item list \<Rightarrow> queue_item list) \<Rightarrow> sync_state \<Rightarrow> sync_state" where
  "on_queue f s = s\<lparr>ss_queue := f (ss_queue s)\<rparr>"

definition emit :: "sync_effect \<Rightarrow> sync_state \<Rightarrow> sync_state" where
  "emit e s = s\<lparr>ss_effects := ss_effects s @ [e]\<rparr>"

section \<open>Small steps\<close>

definition networkOk :: "sync_env \<Rightarrow> nat \<Rightarrow> sync_state \<Rightarrow> bool" where
  "networkOk env k s \<longleftrightarrow> (if ss_storage s WIFI_ONLY_KEY \<noteq> Some ''true'' then True else sv_netType env k = ''wifi'')"

definition granted :: "string \<Rightarrow> bool" where
  "granted r \<longleftrightarrow> r = ''granted'' \<or> r = ''limited''"

definition requestPhotoPermission :: "sync_env \<Rightarrow> bool" where
  "requestPhotoPermission env \<longleftrightarrow> granted (sv_permission env 0) \<or> granted (sv_permission env 1)"

definition PH_SCHEME :: string where "PH_SCHEME = ''ph://''"

definition hashAsset :: "sync_env \<Rightarrow> string \<Rightarrow> string option" where
  "hashAsset env uri =
     (let file = (if sv_ios env \<and> starts_with PH_SCHEME uri then sv_materialize env uri else Inr uri) in
      case file of
        Inl _ \<Rightarrow> None
      | Inr p \<Rightarrow> (case sv_hash env p of Inl _ \<Rightarrow> None | Inr h \<Rightarrow> Some h))"

definition mime_of :: "camera_node \<Rightarrow> string" where
  "mime_of n = (if cn_video n then ''video/mp4'' else ''image/jpeg'')"

definition server_has :: "sync_env \<Rightarrow> string option \<Rightarrow> bool" where
  "server_has env h = (case truthy h of None \<Rightarrow> False | Some x \<Rightarrow> (case sv_check env x of Inl _ \<Rightarrow> False | Inr ex \<Rightarrow> ex))"

section \<open>The scan\<close>

definition node_item :: "sync_env \<Rightarrow> camera_node \<Rightarrow> new_item" where
  "node_item env n = \<lparr>ni_asset_id = cn_uri n, ni_uri = cn_uri n,
     ni_filename = or_else (cn_filename n) (sv_stamp env), ni_hash = hashAsset env (cn_uri n),
     ni_size = cn_fileSize n, ni_mime = Some (mime_of n)\<rparr>"

definition scan_node :: "sync_env \<Rightarrow> nat \<Rightarrow> camera_node \<Rightarrow> queue_item list \<Rightarrow> queue_item list" where
  "scan_node env i n q =
     (if isAlreadyDone (cn_uri n) q then q
      else let q1 = enqueue (sv_now env i 0) (node_item env n) q in
        if server_has env (hashAsset env (cn_uri n)) then setStatus (sv_now env i 1) (cn_uri n) Done None q1 else q1)"

fun scan_nodes :: "sync_env \<Rightarrow> nat \<Rightarrow> camera_node list \<Rightarrow> queue_item list \<Rightarrow> queue_item list" where
  "scan_nodes env i [] q = q"
| "scan_nodes env i (n # ns) q = scan_nodes env (Suc i) ns (scan_node env i n q)"

text \<open>The camera roll is paged; \<open>None\<close> is out of fuel.\<close>

fun scan_loop ::
  "sync_env \<Rightarrow> nat \<Rightarrow> nat \<Rightarrow> nat \<Rightarrow> string option \<Rightarrow> queue_item list \<Rightarrow> (queue_item list \<times> thrown option) option" where
  "scan_loop env 0 k i cur q = None"
| "scan_loop env (Suc fuel) k i cur q =
     (case sv_page env k cur of
        Inl t \<Rightarrow> Some (q, Some t)
      | Inr pg \<Rightarrow>
          let q' = scan_nodes env i (cp_edges pg) q in
          if cp_hasNext pg then scan_loop env fuel (Suc k) (i + length (cp_edges pg)) (cp_endCursor pg) q'
          else Some (q', None))"

definition PERMISSION_DENIED :: thrown where
  "PERMISSION_DENIED = ThrowError ''Photo library permission denied''"

definition scanCameraRoll :: "nat \<Rightarrow> sync_env \<Rightarrow> sync_state \<Rightarrow> (sync_state \<times> thrown option) option" where
  "scanCameraRoll fuel env s =
     (if \<not> requestPhotoPermission env then Some (s, Some PERMISSION_DENIED)
      else map_option (\<lambda>(q, err). (s\<lparr>ss_queue := q\<rparr>, err)) (scan_loop env fuel 0 0 None (ss_queue s)))"

record preview_item =
  pi_uri :: string
  pi_filename :: string
  pi_sizeBytes :: nat
  pi_takenAt :: int
  pi_mimeType :: string

definition to_preview :: "sync_env \<Rightarrow> camera_node \<Rightarrow> preview_item" where
  "to_preview env n = \<lparr>pi_uri = cn_uri n, pi_filename = or_else (cn_filename n) (sv_stamp env),
     pi_sizeBytes = or_else (cn_fileSize n) 0, pi_takenAt = cn_timestamp n * 1000, pi_mimeType = mime_of n\<rparr>"

fun preview_loop ::
  "sync_env \<Rightarrow> nat \<Rightarrow> nat \<Rightarrow> string option \<Rightarrow> queue_item list \<Rightarrow> preview_item list \<Rightarrow> (thrown + preview_item list) option" where
  "preview_loop env 0 k cur q items = None"
| "preview_loop env (Suc fuel) k cur q items =
     (case sv_page env k cur of
        Inl t \<Rightarrow> Some (Inl t)
      | Inr pg \<Rightarrow>
          let items' = items @ map (to_preview env) (filter (\<lambda>n. \<not> isAlreadyDone (cn_uri n) q) (cp_edges pg)) in
          if cp_hasNext pg then preview_loop env fuel (Suc k) (cp_endCursor pg) q items' else Some (Inr items'))"

definition scanForPreview :: "nat \<Rightarrow> sync_env \<Rightarrow> queue_item list \<Rightarrow> (thrown + preview_item list) option" where
  "scanForPreview fuel env q =
     (if \<not> requestPhotoPermission env then Some (Inl PERMISSION_DENIED) else preview_loop env fuel 0 None q [])"

section \<open>Uploading\<close>

text \<open>
  The \<open>try\<close> block of an item whose row is queued: upload, mark done, then ask the server for its
  time and store it as the cursor. The flag says whether the block was left by an exception.
\<close>

definition upload_and_sync :: "sync_env \<Rightarrow> nat \<Rightarrow> string \<Rightarrow> upload_args \<Rightarrow> sync_state \<Rightarrow> sync_state \<times> bool" where
  "upload_and_sync env i a args s =
     (let s1 = emit (Upload args) (on_queue (setStatus (sv_now env i 2) a Uploading None) s) in
      case sv_upload env i args of
        Inl _ \<Rightarrow> (s1, False)
      | Inr _ \<Rightarrow>
          let s2 = on_queue (setStatus (sv_now env i 3) a Done None) s1 in
          (case sv_delta env i of
             Inl _ \<Rightarrow> (s2, False)
           | Inr server_time \<Rightarrow> (s2\<lparr>ss_storage := (ss_storage s2)(CURSOR_KEY \<mapsto> server_time)\<rparr>, True)))"

definition MAX_SYNC_RETRIES :: nat where "MAX_SYNC_RETRIES = 4"

definition process_item :: "sync_env \<Rightarrow> nat \<Rightarrow> queue_item \<Rightarrow> sync_state \<Rightarrow> sync_state" where
  "process_item env i r s =
     (let a = local_asset_id r;
          args = \<lparr>ua_uri = local_uri r, ua_name = filename r,
                  ua_type = or_else (mime_type r) ''application/octet-stream'', ua_device = ss_storage s DEVICE_ID_KEY\<rparr>;
          (s1, ok) = upload_and_sync env i a args (emit (FileStart (filename r)) s);
          s2 = (if ok then s1
                else if MAX_SYNC_RETRIES \<le> retry_count r then on_queue (setStatus (sv_now env i 4) a Failed None) s1
                else on_queue (incrementRetry (sv_now env i 4) a) s1)
      in emit (FileComplete (filename r)) s2)"

fun process_loop :: "sync_env \<Rightarrow> nat \<Rightarrow> nat \<Rightarrow> queue_item list \<Rightarrow> sync_state \<Rightarrow> sync_state" where
  "process_loop env k i [] s = s"
| "process_loop env k i (r # rs) s =
     (if \<not> networkOk env k s then s else process_loop env (Suc k) (Suc i) rs (process_item env i r s))"

definition processQueue :: "sync_env \<Rightarrow> nat \<Rightarrow> sync_state \<Rightarrow> sync_state" where
  "processQueue env k s = process_loop env k 0 (getPendingItems 10 (ss_queue s)) s"

text \<open>Both count callbacks set.\<close>

definition notifyPendingCount :: "sync_state \<Rightarrow> sync_state" where
  "notifyPendingCount s = emit (SyncedCount (countByStatus Done (ss_queue s)))
     (emit (PendingCount (countByStatus Pending (ss_queue s))) s)"

text \<open>\<open>run()\<close>: an exception of the scan ends it.\<close>

definition sync_run :: "nat \<Rightarrow> sync_env \<Rightarrow> sync_state \<Rightarrow> (sync_state \<times> thrown option) option" where
  "sync_run fuel env s =
     (if \<not> networkOk env 0 s then Some (s, None)
      else case scanCameraRoll fuel env s of
             None \<Rightarrow> None
           | Some (s1, Some t) \<Rightarrow> Some (s1, Some t)
           | Some (s1, None) \<Rightarrow> Some (notifyPendingCount (processQueue env 1 s1), None))"

section \<open>A hand-picked selection\<close>

definition preview_new :: "sync_env \<Rightarrow> preview_item \<Rightarrow> new_item" where
  "preview_new env p = \<lparr>ni_asset_id = pi_uri p, ni_uri = pi_uri p, ni_filename = pi_filename p,
     ni_hash = hashAsset env (pi_uri p), ni_size = Some (pi_sizeBytes p), ni_mime = Some (pi_mimeType p)\<rparr>"

text \<open>A duplicate completes twice: before its \<open>continue\<close>, and in the \<open>finally\<close> block.\<close>

definition select_item :: "sync_env \<Rightarrow> nat \<Rightarrow> preview_item \<Rightarrow> sync_state \<Rightarrow> sync_state" where
  "select_item env i p s =
     (let s0 = on_queue (enqueue (sv_now env i 0) (preview_new env p)) (emit (FileStart (pi_filename p)) s);
          done_event = FileComplete (pi_filename p) in
      if server_has env (hashAsset env (pi_uri p)) then
        emit done_event (emit done_event (on_queue (setStatus (sv_now env i 1) (pi_uri p) Done None) s0))
      else
        let args = \<lparr>ua_uri = pi_uri p, ua_name = pi_filename p, ua_type = pi_mimeType p,
                    ua_device = ss_storage s DEVICE_ID_KEY\<rparr>;
            (s1, ok) = upload_and_sync env i (pi_uri p) args s0
        in emit done_event (if ok then s1 else on_queue (incrementRetry (sv_now env i 4) (pi_uri p)) s1))"

fun select_loop :: "sync_env \<Rightarrow> nat \<Rightarrow> nat \<Rightarrow> preview_item list \<Rightarrow> sync_state \<Rightarrow> sync_state" where
  "select_loop env k i [] s = s"
| "select_loop env k i (p # ps) s =
     (if \<not> networkOk env k s then s else select_loop env (Suc k) (Suc i) ps (select_item env i p s))"

definition runSelected :: "sync_env \<Rightarrow> preview_item list \<Rightarrow> sync_state \<Rightarrow> sync_state" where
  "runSelected env items s =
     (if \<not> networkOk env 0 s then s else notifyPendingCount (select_loop env 1 0 items s))"

section \<open>What a pass does to the queue\<close>

definition item_args :: "sync_state \<Rightarrow> queue_item \<Rightarrow> upload_args" where
  "item_args s r = \<lparr>ua_uri = local_uri r, ua_name = filename r,
     ua_type = or_else (mime_type r) ''application/octet-stream'', ua_device = ss_storage s DEVICE_ID_KEY\<rparr>"

definition item_ok :: "sync_env \<Rightarrow> nat \<Rightarrow> upload_args \<Rightarrow> bool" where
  "item_ok env i args \<longleftrightarrow> (\<exists>u. sv_upload env i args = Inr u) \<and> (\<exists>t. sv_delta env i = Inr t)"

lemma queue_of_steps [simp]:
  "ss_queue (emit e s) = ss_queue s" "ss_queue (on_queue f s) = f (ss_queue s)"
  "ss_storage (emit e s) = ss_storage s" "ss_storage (on_queue f s) = ss_storage s"
  by (simp_all add: emit_def on_queue_def)

lemma upload_and_sync_queue:
  "upload_and_sync env i a args s = (s', ok) \<Longrightarrow> ok = item_ok env i args \<and>
     (\<exists>q1. q1 = setStatus (sv_now env i 2) a Uploading None (ss_queue s) \<and>
       (ss_queue s' = q1 \<and> (\<exists>t. sv_upload env i args = Inl t) \<or>
        ss_queue s' = setStatus (sv_now env i 3) a Done None q1 \<and> (\<exists>u. sv_upload env i args = Inr u))) \<and>
     ss_storage s' DEVICE_ID_KEY = ss_storage s DEVICE_ID_KEY \<and>
     ss_storage s' WIFI_ONLY_KEY = ss_storage s WIFI_ONLY_KEY"
  by (auto simp: upload_and_sync_def item_ok_def Let_def CURSOR_KEY_def DEVICE_ID_KEY_def WIFI_ONLY_KEY_def
      split: sum.splits)

lemma upload_and_sync_status:
  assumes "upload_and_sync env i b args s = (s', ok)"
  shows "\<exists>st. (ok \<longrightarrow> st = Done) \<and>
    (\<forall>a. status_of (ss_queue s') a = (if a = b \<and> status_of (ss_queue s) a \<noteq> None then Some st else status_of (ss_queue s) a))"
proof -
  let ?q1 = "setStatus (sv_now env i 2) b Uploading None (ss_queue s)"
  from upload_and_sync_queue [OF assms] have ok: "ok = item_ok env i args" and
    "ss_queue s' = ?q1 \<and> \<not> ok \<or> ss_queue s' = setStatus (sv_now env i 3) b Done None ?q1"
    by (auto simp: item_ok_def)
  then show ?thesis
  proof (elim disjE conjE)
    assume "ss_queue s' = ?q1" "\<not> ok"
    then show ?thesis by (intro exI [of _ Uploading]) (simp add: uq.status_put)
  next
    assume "ss_queue s' = setStatus (sv_now env i 3) b Done None ?q1"
    then show ?thesis by (intro exI [of _ Done]) (simp add: uq.status_put)
  qed
qed

lemma process_item_status:
  "status_of (ss_queue (process_item env i r s)) a =
     (if a = local_asset_id r \<and> status_of (ss_queue s) a \<noteq> None
      then Some (if item_ok env i (item_args s r) then Done else Failed) else status_of (ss_queue s) a)"
proof -
  obtain s1 ok where u: "upload_and_sync env i (local_asset_id r) (item_args s r) (emit (FileStart (filename r)) s) = (s1, ok)"
    by (meson surj_pair)
  have q: "ss_queue (process_item env i r s) =
      (if ok then ss_queue s1
       else if MAX_SYNC_RETRIES \<le> retry_count r then setStatus (sv_now env i 4) (local_asset_id r) Failed None (ss_queue s1)
       else incrementRetry (sv_now env i 4) (local_asset_id r) (ss_queue s1))"
    using u by (simp add: process_item_def item_args_def Let_def)
  from upload_and_sync_queue [OF u] have "ok = item_ok env i (item_args s r)" by blast
  moreover from upload_and_sync_status [OF u, unfolded queue_of_steps] obtain st where "ok \<longrightarrow> st = Done"
    "status_of (ss_queue s1) a = (if a = local_asset_id r \<and> status_of (ss_queue s) a \<noteq> None then Some st else status_of (ss_queue s) a)"
    by blast
  ultimately show ?thesis unfolding q
    by (cases ok; cases "a = local_asset_id r"; cases "status_of (ss_queue s) a") (simp_all add: uq.status_put uq.status_retry)
qed

lemma process_item_storage:
  "ss_storage (process_item env i r s) DEVICE_ID_KEY = ss_storage s DEVICE_ID_KEY \<and>
   ss_storage (process_item env i r s) WIFI_ONLY_KEY = ss_storage s WIFI_ONLY_KEY"
proof -
  obtain s1 ok where u: "upload_and_sync env i (local_asset_id r) (item_args s r) (emit (FileStart (filename r)) s) = (s1, ok)"
    by (meson surj_pair)
  from upload_and_sync_queue [OF u] u show ?thesis by (simp add: process_item_def item_args_def Let_def)
qed

lemma process_loop_status:
  "(\<And>j. j < length rs \<Longrightarrow> networkOk env (k + j) s) \<Longrightarrow> distinct (map local_asset_id rs) \<Longrightarrow>
     (\<forall>j < length rs. status_of (ss_queue s) (local_asset_id (rs ! j)) \<noteq> None \<longrightarrow>
        status_of (ss_queue (process_loop env k i rs s)) (local_asset_id (rs ! j)) =
          Some (if item_ok env (i + j) (item_args s (rs ! j)) then Done else Failed)) \<and>
     (\<forall>a. a \<notin> set (map local_asset_id rs) \<longrightarrow>
        status_of (ss_queue (process_loop env k i rs s)) a = status_of (ss_queue s) a)"
proof (induction rs arbitrary: k i s)
  case (Cons r rs)
  let ?s = "process_item env i r s"
  have st: "ss_storage ?s DEVICE_ID_KEY = ss_storage s DEVICE_ID_KEY" "ss_storage ?s WIFI_ONLY_KEY = ss_storage s WIFI_ONLY_KEY"
    using process_item_storage by blast+
  have "networkOk env (Suc k + j) ?s" if "j < length rs" for j
    using Cons.prems(1) [of "Suc j"] that by (simp add: networkOk_def st)
  note IH = Cons.IH [OF this, where i = "Suc i"]
  have args: "item_args ?s = item_args s" by (rule ext) (simp add: item_args_def st)
  have run: "process_loop env k i (r # rs) s = process_loop env (Suc k) (Suc i) rs ?s"
    using Cons.prems(1) [of 0] by simp
  have d: "distinct (map local_asset_id rs)" "local_asset_id r \<notin> set (map local_asset_id rs)"
    using Cons.prems(2) by auto
  show ?case unfolding run
  proof (intro conjI allI impI)
    fix j assume j: "j < length (r # rs)" and ex: "status_of (ss_queue s) (local_asset_id ((r # rs) ! j)) \<noteq> None"
    show "status_of (ss_queue (process_loop env (Suc k) (Suc i) rs ?s)) (local_asset_id ((r # rs) ! j)) =
        Some (if item_ok env (i + j) (item_args s ((r # rs) ! j)) then Done else Failed)"
    proof (cases j)
      case 0
      then show ?thesis using IH d ex by (simp add: process_item_status)
    next
      case (Suc m)
      have "status_of (ss_queue ?s) (local_asset_id (rs ! m)) \<noteq> None"
        using ex Suc by (simp add: process_item_status)
      then show ?thesis using IH d j Suc by (simp add: args)
    qed
  next
    fix a assume "a \<notin> set (map local_asset_id (r # rs))"
    then show "status_of (ss_queue (process_loop env (Suc k) (Suc i) rs ?s)) a = status_of (ss_queue s) a"
      using IH d by (simp add: process_item_status)
  qed
qed simp

lemma distinct_pending: "distinct (map local_asset_id q) \<Longrightarrow> distinct (map local_asset_id (getPendingItems n q))"
proof -
  have ins: "distinct (map local_asset_id (insort_key created_at r xs)) \<longleftrightarrow> distinct (map local_asset_id (r # xs))" for r xs
    by (induction xs) (auto simp: set_insort_key)
  have "distinct (map local_asset_id xs) \<Longrightarrow> distinct (map local_asset_id (sort_key created_at xs))" for xs
    by (induction xs) (simp_all add: ins)
  then show "distinct (map local_asset_id q) \<Longrightarrow> ?thesis"
    by (metis distinct_map_filter distinct_take getPendingItems_def take_map)
qed

lemma status_of_member: "r \<in> set q \<Longrightarrow> status_of q (local_asset_id r) \<noteq> None"
  by (auto simp: status_of_def find_None_iff)

text \<open>
  C5. A sync pass settles what it takes: with the network up and asset ids unique, every one of
  the (at most ten) items it takes ends as done when both its upload and the server-time call
  succeeded and as failed otherwise, and no other row changes its status.
\<close>

theorem sync_pass_settles:
  assumes "distinct (map local_asset_id (ss_queue s))" and "\<And>j. networkOk env j s"
  shows "(\<forall>j < length (getPendingItems 10 (ss_queue s)).
      status_of (ss_queue (processQueue env k s)) (local_asset_id (getPendingItems 10 (ss_queue s) ! j)) =
        Some (if item_ok env j (item_args s (getPendingItems 10 (ss_queue s) ! j)) then Done else Failed)) \<and>
    (\<forall>a. a \<notin> set (map local_asset_id (getPendingItems 10 (ss_queue s))) \<longrightarrow>
      status_of (ss_queue (processQueue env k s)) a = status_of (ss_queue s) a)"
proof -
  let ?rs = "getPendingItems 10 (ss_queue s)"
  have mem: "status_of (ss_queue s) (local_asset_id (?rs ! j)) \<noteq> None" if "j < length ?rs" for j
    using nth_mem [OF that] pending_items [of "?rs ! j"] by (intro status_of_member) blast
  show ?thesis
    using process_loop_status [OF assms(2) distinct_pending [OF assms(1)], where i = 0] mem
    by (simp add: processQueue_def)
qed

definition demo_row :: "string \<Rightarrow> int \<Rightarrow> queue_item" where
  "demo_row a t = \<lparr>local_asset_id = a, local_uri = a, filename = a, sha256_hash = None, size_bytes = None,
     mime_type = None, item_status = Pending, upload_id = None, retry_count = 0, created_at = t, updated_at = t\<rparr>"

definition demo_sync :: sync_env where
  "demo_sync = \<lparr>sv_ios = True, sv_permission = (\<lambda>_. ''granted''), sv_netType = (\<lambda>_. ''wifi''), sv_now = (\<lambda>i j. int i),
     sv_page = (\<lambda>_ _. Inr \<lparr>cp_edges = [], cp_hasNext = False, cp_endCursor = None\<rparr>),
     sv_materialize = (\<lambda>_. Inl ThrowOther), sv_hash = (\<lambda>_. Inl ThrowOther), sv_check = (\<lambda>_. Inr False),
     sv_upload = (\<lambda>i args. if ua_name args = ''x'' then Inl ThrowOther else Inr ()), sv_delta = (\<lambda>_. Inr ''t''),
     sv_stamp = ''asset_0''\<rparr>"

definition demo_state :: "queue_item list \<Rightarrow> sync_state" where
  "demo_state q = \<lparr>ss_queue = q, ss_storage = Map.empty, ss_effects = []\<rparr>"

lemma demo_pending: "getPendingItems 10 [demo_row ''a'' 2, demo_row ''x'' 1] = [demo_row ''x'' 1, demo_row ''a'' 2]"
  by (simp add: getPendingItems_def is_pending_def demo_row_def)

theorem sync_pass_settles_witness:
  "status_of (ss_queue (processQueue demo_sync 0 (demo_state [demo_row ''a'' 2, demo_row ''x'' 1]))) ''x'' = Some Failed \<and>
   status_of (ss_queue (processQueue demo_sync 0 (demo_state [demo_row ''a'' 2, demo_row ''x'' 1]))) ''a'' = Some Done"
proof -
  let ?s = "demo_state [demo_row ''a'' 2, demo_row ''x'' 1]"
  have q: "ss_queue ?s = [demo_row ''a'' 2, demo_row ''x'' 1]" by (simp add: demo_state_def)
  have "distinct (map local_asset_id (ss_queue ?s))" "\<And>j. networkOk demo_sync j ?s"
    by (simp_all add: demo_state_def demo_row_def networkOk_def)
  from conjunct1 [OF sync_pass_settles [OF this, of 0], unfolded q demo_pending]
  have st: "\<forall>j < 2. status_of (ss_queue (processQueue demo_sync 0 ?s)) (local_asset_id ([demo_row ''x'' 1, demo_row ''a'' 2] ! j)) =
        Some (if item_ok demo_sync j (item_args ?s ([demo_row ''x'' 1, demo_row ''a'' 2] ! j)) then Done else Failed)"
    by simp
  from spec [OF st, of 0] spec [OF st, of 1] show ?thesis
    by (simp add: item_ok_def item_args_def demo_sync_def demo_row_def)
qed

section \<open>Where a pass goes wrong\<close>

text \<open>
  A file that was uploaded is uploaded again: when the upload succeeds but the server-time
  call after it fails, the item that was just marked done becomes failed, so the next pass takes
  it again and sends the file a second time.
\<close>

theorem delta_failure_uploads_twice:
  "let env = demo_sync\<lparr>sv_delta := \<lambda>_. Inl ThrowOther\<rparr>;
       s1 = processQueue env 0 (demo_state [demo_row ''a'' 1]); s2 = processQueue env 0 s1;
       args = \<lparr>ua_uri = ''a'', ua_name = ''a'', ua_type = ''application/octet-stream'', ua_device = None\<rparr>
   in (\<lambda>i. sv_upload env i args) = (\<lambda>i. Inr ()) \<and>
      status_of (ss_queue s1) ''a'' = Some Failed \<and> count_if (\<lambda>e. e = Upload args) (ss_effects s2) = 2"
  by (simp add: Let_def demo_sync_def demo_state_def demo_row_def processQueue_def getPendingItems_def is_pending_def
      networkOk_def process_item_def upload_and_sync_def emit_def on_queue_def setStatus_def incrementRetry_def
      update_row_def MAX_SYNC_RETRIES_def status_of_def)

definition row_key :: "queue_item \<Rightarrow> string \<times> string \<times> int" where
  "row_key r = (local_asset_id r, local_uri r, created_at r)"

definition pending_keys :: "queue_item list \<Rightarrow> (string \<times> string \<times> int) list" where
  "pending_keys q = map row_key (filter is_pending q)"

lemma getPendingItems_keys:
  "map row_key (getPendingItems n q) = take n (sort_key (snd \<circ> snd) (pending_keys q))"
proof -
  have ins: "insort_key (snd \<circ> snd) (row_key r) (map row_key xs) = map row_key (insort_key created_at r xs)" for r xs
    by (induction xs) (simp_all add: row_key_def)
  have "sort_key (snd \<circ> snd) (map row_key xs) = map row_key (sort_key created_at xs)" for xs
    by (induction xs) (simp_all add: ins [unfolded comp_def] comp_def)
  then show ?thesis by (simp add: getPendingItems_def pending_keys_def take_map)
qed

definition all_waiting :: "string \<Rightarrow> queue_item list \<Rightarrow> bool" where
  "all_waiting a q \<longleftrightarrow> (\<forall>r \<in> set q. local_asset_id r = a \<longrightarrow> is_pending r)"

lemma process_item_fails:
  assumes "sv_upload env i (item_args s r) = Inl t" and "all_waiting (local_asset_id r) (ss_queue s)"
  shows "pending_keys (ss_queue (process_item env i r s)) = pending_keys (ss_queue s) \<and>
    (\<forall>a. all_waiting a (ss_queue s) \<longrightarrow> all_waiting a (ss_queue (process_item env i r s)))"
proof -
  define f :: "queue_item \<Rightarrow> queue_item" where "f = (\<lambda>x. if local_asset_id x = local_asset_id r then
    (let x1 = x\<lparr>item_status := Uploading, updated_at := sv_now env i 2\<rparr> in
     if MAX_SYNC_RETRIES \<le> retry_count r then x1\<lparr>item_status := Failed, updated_at := sv_now env i 4\<rparr>
     else x1\<lparr>retry_count := retry_count x1 + 1, item_status := Failed, updated_at := sv_now env i 4\<rparr>) else x)"
  have q: "ss_queue (process_item env i r s) = map f (ss_queue s)"
    using assms(1) by (auto simp: process_item_def item_args_def upload_and_sync_def Let_def setStatus_def
        incrementRetry_def update_row_def f_def)
  have "row_key (f x) = row_key x" "local_asset_id (f x) = local_asset_id x" for x
    by (auto simp: f_def row_key_def Let_def)
  moreover have "is_pending (f x) = is_pending x" if "x \<in> set (ss_queue s)" for x
    using assms(2) that by (auto simp: f_def is_pending_def all_waiting_def Let_def)
  ultimately have "pending_keys (map f xs) = pending_keys xs \<and> (\<forall>a. all_waiting a xs \<longrightarrow> all_waiting a (map f xs))"
    if "set xs \<subseteq> set (ss_queue s)" for xs
    using that by (induction xs) (auto simp: pending_keys_def all_waiting_def)
  then show ?thesis by (simp add: q)
qed

lemma process_loop_fails:
  "(\<And>j args. ua_uri args \<in> U \<Longrightarrow> \<exists>t. sv_upload env j args = Inl t) \<Longrightarrow>
     local_uri ` set rs \<subseteq> U \<Longrightarrow> \<forall>r \<in> set rs. all_waiting (local_asset_id r) (ss_queue s) \<Longrightarrow>
     pending_keys (ss_queue (process_loop env k i rs s)) = pending_keys (ss_queue s) \<and>
     (\<forall>a. all_waiting a (ss_queue s) \<longrightarrow> all_waiting a (ss_queue (process_loop env k i rs s)))"
proof (induction rs arbitrary: k i s)
  case (Cons r rs)
  have "ua_uri (item_args s r) \<in> U" using Cons.prems(2) by (simp add: item_args_def)
  then obtain t where "sv_upload env i (item_args s r) = Inl t" using Cons.prems(1) by blast
  note one = process_item_fails [OF this]
  have w: "all_waiting (local_asset_id r) (ss_queue s)" using Cons.prems(3) by simp
  have "\<forall>r' \<in> set rs. all_waiting (local_asset_id r') (ss_queue (process_item env i r s))"
    using one [OF w] Cons.prems(3) by simp
  with Cons.IH [OF Cons.prems(1), of "process_item env i r s"] Cons.prems(2) one [OF w]
  show ?case by simp
qed simp

lemma all_waiting_pending:
  "distinct (map local_asset_id q) \<Longrightarrow> r \<in> set (getPendingItems n q) \<Longrightarrow> all_waiting (local_asset_id r) q"
  using pending_items [of r n q] unfolding all_waiting_def distinct_map inj_on_def by blast

lemma starved_pass:
  assumes "\<And>j args. ua_uri args \<in> U \<Longrightarrow> \<exists>t. sv_upload env j args = Inl t"
    and "map row_key (getPendingItems 10 (ss_queue s)) = ks" and "(fst \<circ> snd) ` set ks \<subseteq> U"
    and "\<forall>a \<in> fst ` set ks. all_waiting a (ss_queue s)"
  shows "map row_key (getPendingItems 10 (ss_queue (processQueue env k s))) = ks \<and>
    (\<forall>a \<in> fst ` set ks. all_waiting a (ss_queue (processQueue env k s)))"
proof -
  let ?rs = "getPendingItems 10 (ss_queue s)"
  have "(fst \<circ> snd) ` set ks = local_uri ` set ?rs"
    unfolding assms(2) [symmetric] set_map image_image by (simp add: row_key_def)
  then have "local_uri ` set ?rs \<subseteq> U" using assms(3) by simp
  moreover have w: "\<forall>r \<in> set ?rs. all_waiting (local_asset_id r) (ss_queue s)"
    using assms(2,4) by (auto simp: row_key_def)
  ultimately have "pending_keys (ss_queue (processQueue env k s)) = pending_keys (ss_queue s) \<and>
      (\<forall>a. all_waiting a (ss_queue s) \<longrightarrow> all_waiting a (ss_queue (processQueue env k s)))"
    unfolding processQueue_def using assms(1) by (intro process_loop_fails)
  then show ?thesis using assms(2,4) by (simp add: getPendingItems_keys)
qed

text \<open>
  Ten bad files block the queue for ever: when uploading each of the ten oldest waiting
  items fails, a pass leaves exactly the same ten items (the limit of the query) at the head of
  the queue, so no number of passes ever tries another one. The retry counter does not stop it.
\<close>

theorem ten_failures_starve_queue:
  assumes "distinct (map local_asset_id (ss_queue s))"
    and "\<And>j args. ua_uri args \<in> local_uri ` set (getPendingItems 10 (ss_queue s)) \<Longrightarrow> \<exists>t. sv_upload env j args = Inl t"
  shows "map local_asset_id (getPendingItems 10 (ss_queue ((processQueue env k ^^ n) s))) =
    map local_asset_id (getPendingItems 10 (ss_queue s))"
proof -
  let ?rs = "getPendingItems 10 (ss_queue s)"
  have "map row_key (getPendingItems 10 (ss_queue ((processQueue env k ^^ n) s))) = map row_key ?rs \<and>
      (\<forall>a \<in> fst ` set (map row_key ?rs). all_waiting a (ss_queue ((processQueue env k ^^ n) s)))"
  proof (induction n)
    case 0
    show ?case using all_waiting_pending [OF assms(1)] by (auto simp: row_key_def)
  next
    case (Suc n)
    have "(fst \<circ> snd) ` set (map row_key ?rs) \<subseteq> local_uri ` set ?rs" by (auto simp: row_key_def)
    with starved_pass [OF assms(2)] Suc show ?case by simp
  qed
  then have "map fst (map row_key (getPendingItems 10 (ss_queue ((processQueue env k ^^ n) s)))) = map fst (map row_key ?rs)"
    by simp
  then show ?thesis by (simp add: row_key_def comp_def)
qed

theorem ten_failures_starve_queue_witness:
  "map local_asset_id (getPendingItems 10 (ss_queue ((processQueue (demo_sync\<lparr>sv_upload := \<lambda>i args. Inl ThrowOther\<rparr>) 0 ^^ 1000)
     (demo_state [demo_row ''a'' 2, demo_row ''x'' 1])))) = [''x'', ''a'']"
proof -
  have "map local_asset_id (getPendingItems 10 (ss_queue ((processQueue (demo_sync\<lparr>sv_upload := \<lambda>i args. Inl ThrowOther\<rparr>) 0 ^^ 1000)
     (demo_state [demo_row ''a'' 2, demo_row ''x'' 1])))) =
     map local_asset_id (getPendingItems 10 (ss_queue (demo_state [demo_row ''a'' 2, demo_row ''x'' 1])))"
    by (rule ten_failures_starve_queue) (simp_all add: demo_state_def demo_row_def)
  then show ?thesis by (simp add: demo_state_def demo_pending) (simp add: demo_row_def)
qed

section \<open>What a scan does to the queue\<close>

lemma scan_node_status:
  "status_of (scan_node env i n q) a =
     (if a = cn_uri n \<and> status_of q a \<noteq> Some Done then
        (if server_has env (hashAsset env a) then Some Done
         else Some (case status_of q a of None \<Rightarrow> Pending | Some st \<Rightarrow> st))
      else status_of q a)"
  by (cases "status_of q (cn_uri n)")
     (auto simp: scan_node_def isAlreadyDone_def Let_def uq.status_put uq.status_enq node_item_def)

lemma scan_nodes_status:
  "(\<forall>st. status_of q a = Some st \<longrightarrow> status_of (scan_nodes env i ns q) a \<in> {Some st, Some Done}) \<and>
   (a \<in> cn_uri ` set ns \<longrightarrow> status_of (scan_nodes env i ns q) a \<noteq> None \<and>
      (server_has env (hashAsset env a) \<longrightarrow> status_of (scan_nodes env i ns q) a = Some Done))"
proof (induction ns arbitrary: i q)
  case (Cons n ns)
  have keep: "status_of (scan_nodes env (Suc i) ns q') a = Some Done" if "status_of q' a = Some Done" for q'
    using Cons.IH [of q' "Suc i"] that by auto
  have dom: "status_of (scan_nodes env (Suc i) ns q') a \<noteq> None" if "status_of q' a \<noteq> None" for q'
    using Cons.IH [of q' "Suc i"] that by auto
  let ?q = "scan_node env i n q"
  show ?case
  proof (intro conjI allI impI)
    fix st assume "status_of q a = Some st"
    then have "status_of ?q a \<in> {Some st, Some Done}" by (auto simp: scan_node_status)
    then show "status_of (scan_nodes env i (n # ns) q) a \<in> {Some st, Some Done}"
      using Cons.IH [of ?q "Suc i"] keep [of ?q] by auto
  next
    assume "a \<in> cn_uri ` set (n # ns)"
    then have "status_of ?q a \<noteq> None \<or> a \<in> cn_uri ` set ns" by (auto simp: scan_node_status)
    then show "status_of (scan_nodes env i (n # ns) q) a \<noteq> None" using Cons.IH [of ?q "Suc i"] dom [of ?q] by auto
  next
    assume "a \<in> cn_uri ` set (n # ns)" "server_has env (hashAsset env a)"
    then have "status_of ?q a = Some Done \<or> a \<in> cn_uri ` set ns" by (auto simp: scan_node_status)
    then show "status_of (scan_nodes env i (n # ns) q) a = Some Done"
      using Cons.IH [of ?q "Suc i"] keep [of ?q] \<open>server_has env (hashAsset env a)\<close> by auto
  qed
qed simp

text \<open>
  A scan of one page of the camera roll loses no work: every asset of the page has a row
  afterwards, an asset whose content the server holds is marked done, and the status of a row that
  was there is kept or becomes done, so nothing that was done is queued again.
\<close>

theorem scan_keeps_work:
  assumes "scan_loop env (Suc 0) 0 0 None q = Some (q', None)" and "sv_page env 0 None = Inr pg"
  shows "(\<forall>n \<in> set (cp_edges pg). status_of q' (cn_uri n) \<noteq> None \<and>
            (server_has env (hashAsset env (cn_uri n)) \<longrightarrow> status_of q' (cn_uri n) = Some Done)) \<and>
         (\<forall>a st. status_of q a = Some st \<longrightarrow> status_of q' a \<in> {Some st, Some Done})"
proof -
  have "q' = scan_nodes env 0 (cp_edges pg) q" using assms by (auto simp: Let_def split: if_splits)
  then show ?thesis using scan_nodes_status [of q _ env 0 "cp_edges pg"] by blast
qed

theorem scan_keeps_work_witness:
  "\<exists>q'. scan_loop (demo_sync\<lparr>sv_page := \<lambda>k c. Inr \<lparr>cp_edges = [\<lparr>cn_uri = ''n'', cn_filename = None, cn_fileSize = None,
       cn_video = False, cn_timestamp = 0\<rparr>], cp_hasNext = False, cp_endCursor = None\<rparr>\<rparr>) (Suc 0) 0 0 None [demo_row ''a'' 1]
     = Some (q', None) \<and> status_of q' ''n'' \<noteq> None"
  (is "\<exists>q'. scan_loop ?env _ _ _ _ ?q = _ \<and> _")
proof -
  let ?pg = "\<lparr>cp_edges = [\<lparr>cn_uri = ''n'', cn_filename = None, cn_fileSize = None, cn_video = False, cn_timestamp = 0\<rparr>],
    cp_hasNext = False, cp_endCursor = None\<rparr>"
  have pg: "sv_page ?env 0 None = Inr ?pg" by simp
  obtain q' where run: "scan_loop ?env (Suc 0) 0 0 None ?q = Some (q', None)" by simp
  from scan_keeps_work [OF run pg] run show ?thesis by auto
qed

text \<open>A selected file the server already holds is reported complete twice.\<close>

lemma select_duplicate_completes_twice:
  assumes "server_has env (hashAsset env (pi_uri p))"
  shows "ss_effects (select_item env i p s) = ss_effects s @
    [FileStart (pi_filename p), FileComplete (pi_filename p), FileComplete (pi_filename p)]"
  using assms by (simp add: select_item_def emit_def on_queue_def Let_def)

end
