(* ===== verification/NightSync.thy ===== *)
theory NightSync
  imports SyncService
begin

text \<open>
  The background task of the phone, \<open>mobile/src/tasks/backgroundSync.ts\<close>: when the nightly sync is
  due, and what a background wake-up does. The clock and the profile call are parameters.
\<close>

definition NIGHTSYNC_KEY :: string where "NIGHTSYNC_KEY = ''apollo_nightsync_enabled''"
definition NIGHTSYNC_HOUR_KEY :: string where "NIGHTSYNC_HOUR_KEY = ''apollo_nightsync_hour''"
definition NIGHTSYNC_DEFAULT_HOUR :: int where "NIGHTSYNC_DEFAULT_HOUR = 4"
definition NIGHTSYNC_LAST_KEY :: string where "NIGHTSYNC_LAST_KEY = ''apollo_nightsync_last_run''"

record quota_profile =
  qp_used_bytes :: nat
  qp_quota_bytes :: nat

definition quotaOk :: "thrown + quota_profile \<Rightarrow> bool" where
  "quotaOk res =
     (case res of
        Inl _ \<Rightarrow> True
      | Inr p \<Rightarrow>
          if qp_quota_bytes p = 0 then True
          else (of_nat (qp_used_bytes p) / of_nat (qp_quota_bytes p)) * 100 < (75 :: rat))"

text \<open>A comparison with the \<open>NaN\<close> of an unreadable hour is false.\<close>

definition night_window :: "int option \<Rightarrow> int \<Rightarrow> bool" where
  "night_window target currentHour =
     (case target of None \<Rightarrow> False | Some h \<Rightarrow> h \<le> currentHour \<and> currentHour < h + 2)"

definition target_hour :: "local_storage \<Rightarrow> int option" where
  "target_hour st =
     (case st NIGHTSYNC_HOUR_KEY of
        None \<Rightarrow> Some NIGHTSYNC_DEFAULT_HOUR
      | Some s \<Rightarrow> parseInt10 s)"

definition shouldRunNightSync :: "thrown + quota_profile \<Rightarrow> int \<Rightarrow> string \<Rightarrow> local_storage \<Rightarrow> bool" where
  "shouldRunNightSync me currentHour today st =
     (if st NIGHTSYNC_KEY \<noteq> Some ''true'' then False
      else if \<not> night_window (target_hour st) currentHour then False
      else if st NIGHTSYNC_LAST_KEY = Some today then False
      else quotaOk me)"

record wake_env =
  wk_timeout :: bool
  wk_me :: "thrown + quota_profile"
  wk_hour :: int
  wk_today :: string

text \<open>The headless task: its new state, whether a sync ran, and that it reported its end.\<close>

definition mark_night :: "wake_env \<Rightarrow> sync_state \<Rightarrow> sync_state" where
  "mark_night w s = s\<lparr>ss_storage := (ss_storage s)(NIGHTSYNC_LAST_KEY \<mapsto> wk_today w)\<rparr>"

definition headlessTask :: "nat \<Rightarrow> sync_env \<Rightarrow> wake_env \<Rightarrow> sync_state \<Rightarrow> (sync_state \<times> bool) option" where
  "headlessTask fuel env w s =
     (if wk_timeout w then Some (s, False)
      else
        let s1 = (if shouldRunNightSync (wk_me w) (wk_hour w) (wk_today w) (ss_storage s) then mark_night w s else s)
        in map_option (\<lambda>(s2, _). (s2, True)) (sync_run fuel env s1))"

section \<open>Properties\<close>

text \<open>
  The nightly sync is due at most once a day, only in its window and only below 75 % of the
  quota (an account without a quota, or an unreadable profile, does not stop it).
\<close>

theorem night_sync_conditions:
  "shouldRunNightSync me h today st \<longleftrightarrow>
     st NIGHTSYNC_KEY = Some ''true'' \<and> st NIGHTSYNC_LAST_KEY \<noteq> Some today \<and>
     (\<exists>t. target_hour st = Some t \<and> t \<le> h \<and> h \<le> t + 1) \<and>
     (case me of Inl _ \<Rightarrow> True
      | Inr p \<Rightarrow> qp_quota_bytes p = 0 \<or> 4 * qp_used_bytes p < 3 * qp_quota_bytes p)"
proof -
  have "(of_nat u / of_nat q) * 100 < (75 :: rat) \<longleftrightarrow> 4 * u < 3 * q" if "0 < q" for u q :: nat
  proof -
    have "(of_nat u / of_nat q) * 100 < (75 :: rat) \<longleftrightarrow> of_nat u * 100 < (75 * of_nat q :: rat)"
      using that by (simp add: field_simps)
    also have "\<dots> \<longleftrightarrow> (of_nat (u * 100) :: rat) < of_nat (75 * q)" by simp
    also have "\<dots> \<longleftrightarrow> u * 100 < 75 * q" by (rule of_nat_less_iff)
    finally show ?thesis by arith
  qed
  then have q: "quotaOk me \<longleftrightarrow> (case me of Inl _ \<Rightarrow> True
      | Inr p \<Rightarrow> qp_quota_bytes p = 0 \<or> 4 * qp_used_bytes p < 3 * qp_quota_bytes p)"
    by (auto simp: quotaOk_def split: sum.split)
  have "night_window t h \<longleftrightarrow> (\<exists>x. t = Some x \<and> x \<le> h \<and> h \<le> x + 1)" for t
    by (auto simp: night_window_def split: option.split)
  with q show ?thesis by (auto simp: shouldRunNightSync_def)
qed

text \<open>
  The nightly conditions gate nothing: every wake-up that is not a timeout runs the sync, whether
  or not the nightly sync is enabled, in its window, or below the quota.
\<close>

lemma headless_always_syncs:
  "\<not> wk_timeout w \<Longrightarrow> headlessTask fuel env w s = Some (s', synced) \<Longrightarrow> synced"
  by (auto simp: headlessTask_def Let_def)

text \<open>The window is cut off at midnight: with target hour 23 it lasts one hour.\<close>

lemma window_cut_at_midnight:
  "0 \<le> h \<Longrightarrow> h \<le> 23 \<Longrightarrow> night_window (Some 23) h \<longleftrightarrow> h = 23"
  by (auto simp: night_window_def)

end
