(* ===== verification/TokenRefresh.thy ===== *)
theory TokenRefresh
  imports GoogleRun
begin

text \<open>
  The phone's API client, \<open>mobile/src/api/client.ts\<close>: the stored tokens, and the response interceptor
  that refreshes them once for all the requests that got a 401 meanwhile. A request is a number;
  the steps are the parts of the interceptor between its awaits.
\<close>

section \<open>Stored tokens\<close>

datatype auth_method = Password | Broker

definition STORE_KEY_ACCESS :: string where "STORE_KEY_ACCESS = ''apollo_access_token''"
definition STORE_KEY_REFRESH :: string where "STORE_KEY_REFRESH = ''apollo_refresh_token''"
definition STORE_KEY_METHOD :: string where "STORE_KEY_METHOD = ''apollo_auth_method''"

definition getStoredTokens :: "local_storage \<Rightarrow> string option \<times> string option" where
  "getStoredTokens st = (st STORE_KEY_ACCESS, st STORE_KEY_REFRESH)"

definition getAuthMethod :: "local_storage \<Rightarrow> auth_method" where
  "getAuthMethod st = (if st STORE_KEY_METHOD = Some ''broker'' then Broker else Password)"

definition method_name :: "auth_method \<Rightarrow> string" where
  "method_name m = (case m of Password \<Rightarrow> ''password'' | Broker \<Rightarrow> ''broker'')"

text \<open>The encrypted storage may refuse a write or a removal of any key (\<open>fails\<close>). The writes of a pair of tokens
  run side by side, so those that succeed stay when another one fails and the call rejects; a removal
  that fails is ignored.\<close>

definition set_item :: "(string \<Rightarrow> bool) \<Rightarrow> string \<Rightarrow> string \<Rightarrow> local_storage \<Rightarrow> local_storage" where
  "set_item fails k v st = (if fails k then st else st(k \<mapsto> v))"

definition remove_item :: "(string \<Rightarrow> bool) \<Rightarrow> string \<Rightarrow> local_storage \<Rightarrow> local_storage" where
  "remove_item fails k st = (if fails k then st else st(k := None))"

definition storeTokens ::
  "(string \<Rightarrow> bool) \<Rightarrow> string \<Rightarrow> string \<Rightarrow> auth_method option \<Rightarrow> local_storage \<Rightarrow> bool \<times> local_storage" where
  "storeTokens fails access refresh m st =
     (let st1 = set_item fails STORE_KEY_REFRESH refresh (set_item fails STORE_KEY_ACCESS access st)
      in (\<not> fails STORE_KEY_ACCESS \<and> \<not> fails STORE_KEY_REFRESH \<and> (m = None \<or> \<not> fails STORE_KEY_METHOD),
          case m of None \<Rightarrow> st1 | Some x \<Rightarrow> set_item fails STORE_KEY_METHOD (method_name x) st1))"

definition clearTokens :: "(string \<Rightarrow> bool) \<Rightarrow> local_storage \<Rightarrow> local_storage" where
  "clearTokens fails st =
     remove_item fails STORE_KEY_METHOD (remove_item fails STORE_KEY_REFRESH (remove_item fails STORE_KEY_ACCESS st))"

text \<open>The headers the request interceptor adds: the bearer token, and the refresh token.\<close>

definition request_headers :: "local_storage \<Rightarrow> (string \<times> string) list" where
  "request_headers st =
     (case truthy (st STORE_KEY_ACCESS) of None \<Rightarrow> [] | Some a \<Rightarrow> [(''Authorization'', ''Bearer '' @ a)]) @
     (case truthy (st STORE_KEY_REFRESH) of
        None \<Rightarrow> []
      | Some r \<Rightarrow> if getAuthMethod st = Password then [(''X-Refresh-Token'', r)] else [])"

text \<open>A response may carry rotated tokens; it reaches its caller only when they could be stored.\<close>

definition on_response :: "(string \<Rightarrow> bool) \<Rightarrow> string option \<Rightarrow> string option \<Rightarrow> local_storage \<Rightarrow> bool \<times> local_storage" where
  "on_response fails newAccess newRefresh st =
     (case (truthy newAccess, truthy newRefresh) of
        (Some a, Some r) \<Rightarrow> storeTokens fails a r None st
      | _ \<Rightarrow> (True, st))"

section \<open>The refresh\<close>

datatype request_fate = Resent string | Rejected

text \<open>What the request that refreshes awaits: the stored refresh token, the stored method, the answer to the
  refresh, the writes of the new tokens, or the removals after a failure.\<close>

datatype refresh_phase =
    Reading
  | ReadingMethod string
  | Asking string auth_method
  | Storing auth_method string string
  | Clearing

record refresh_state =
  rf_leader :: "(nat \<times> refresh_phase) option"    \<comment> \<open>the request that refreshes; \<open>isRefreshing\<close>\<close>
  rf_queue :: "nat list"                 \<comment> \<open>\<open>pendingQueue\<close>\<close>
  rf_storage :: local_storage
  rf_fates :: "(nat \<times> request_fate) list"
  rf_failures :: nat                     \<comment> \<open>calls of \<open>onAuthFailure\<close>\<close>

definition isRefreshing :: "refresh_state \<Rightarrow> bool" where
  "isRefreshing s \<longleftrightarrow> rf_leader s \<noteq> None"

definition drainQueue :: "string option \<Rightarrow> refresh_state \<Rightarrow> refresh_state" where
  "drainQueue tok s = s\<lparr>rf_queue := [], rf_fates := rf_fates s @
     map (\<lambda>r. (r, case tok of None \<Rightarrow> Rejected | Some t \<Rightarrow> Resent t)) (rf_queue s)\<rparr>"

text \<open>The error handler up to its first await; \<open>retried\<close> is the request's \<open>_retry\<close> mark.\<close>

definition on_error :: "nat \<Rightarrow> nat option \<Rightarrow> bool \<Rightarrow> refresh_state \<Rightarrow> refresh_state" where
  "on_error r status retried s =
     (if status \<noteq> Some 401 \<or> retried then s\<lparr>rf_fates := rf_fates s @ [(r, Rejected)]\<rparr>
      else if isRefreshing s then s\<lparr>rf_queue := rf_queue s @ [r]\<rparr>
      else s\<lparr>rf_leader := Some (r, Reading)\<rparr>)"

text \<open>The \<open>catch\<close> block up to its await, and its rest with \<open>finally\<close>.\<close>

definition refresh_failed :: "refresh_state \<Rightarrow> refresh_state" where
  "refresh_failed s = (drainQueue None s)\<lparr>rf_leader := map_option (\<lambda>(r, _). (r, Clearing)) (rf_leader s)\<rparr>"

definition cleared :: "(string \<Rightarrow> bool) \<Rightarrow> refresh_state \<Rightarrow> refresh_state" where
  "cleared fails s =
     (case rf_leader s of
        Some (r, Clearing) \<Rightarrow> s\<lparr>rf_storage := clearTokens fails (rf_storage s), rf_failures := rf_failures s + 1,
          rf_fates := rf_fates s @ [(r, Rejected)], rf_leader := None\<rparr>
      | _ \<Rightarrow> s)"

text \<open>The stored tokens are read (or cannot be): without a refresh token the handler rejects inside its
  \<open>try\<close>, which runs \<open>finally\<close> but not \<open>catch\<close>.\<close>

definition got_tokens :: "bool \<Rightarrow> refresh_state \<Rightarrow> refresh_state" where
  "got_tokens readable s =
     (case rf_leader s of
        Some (r, Reading) \<Rightarrow>
          if \<not> readable then refresh_failed s
          else (case truthy (snd (getStoredTokens (rf_storage s))) of
             None \<Rightarrow> s\<lparr>rf_leader := None, rf_fates := rf_fates s @ [(r, Rejected)]\<rparr>
           | Some refresh \<Rightarrow> s\<lparr>rf_leader := Some (r, ReadingMethod refresh)\<rparr>)
      | _ \<Rightarrow> s)"

definition got_method :: "bool \<Rightarrow> refresh_state \<Rightarrow> refresh_state" where
  "got_method readable s =
     (case rf_leader s of
        Some (r, ReadingMethod refresh) \<Rightarrow>
          if \<not> readable then refresh_failed s
          else s\<lparr>rf_leader := Some (r, Asking refresh (getAuthMethod (rf_storage s)))\<rparr>
      | _ \<Rightarrow> s)"

text \<open>
  The refresh answers with an access token and a refresh token, or fails (\<open>None\<close>); a broker may leave the
  refresh token out, and then the old one is kept.
\<close>

definition refresh_answered :: "(string \<times> string option) option \<Rightarrow> refresh_state \<Rightarrow> refresh_state" where
  "refresh_answered answer s =
     (case rf_leader s of
        Some (r, Asking old m) \<Rightarrow>
          (case answer of
             None \<Rightarrow> refresh_failed s
           | Some (access, newRefresh) \<Rightarrow>
               s\<lparr>rf_leader := Some (r, Storing m access
                  (if m = Broker then or_else (truthy newRefresh) old else or_else newRefresh []))\<rparr>)
      | _ \<Rightarrow> s)"

definition refreshed :: "(string \<Rightarrow> bool) \<Rightarrow> refresh_state \<Rightarrow> refresh_state" where
  "refreshed fails s =
     (case rf_leader s of
        Some (r, Storing m access new) \<Rightarrow>
          let stored = storeTokens fails access new (Some m) (rf_storage s);
              s1 = s\<lparr>rf_storage := snd stored\<rparr>
          in if \<not> fst stored then refresh_failed s1
             else let s2 = drainQueue (truthy (Some access)) s1
                  in s2\<lparr>rf_fates := rf_fates s2 @ [(r, Resent access)], rf_leader := None\<rparr>
      | _ \<Rightarrow> s)"

text \<open>Every failing response is a request of its own; others may change the stored tokens at any time, a write
  that lands after the call that made it was given up included.\<close>

definition known :: "refresh_state \<Rightarrow> nat set" where
  "known s = set (rf_queue s) \<union> fst ` set_option (rf_leader s) \<union> fst ` set (rf_fates s)"

datatype refresh_event =
    EError nat "nat option" bool
  | EGotTokens bool
  | EGotMethod bool
  | EAnswered "(string \<times> string option) option"
  | EStored "string \<Rightarrow> bool"
  | ECleared "string \<Rightarrow> bool"
  | EStorage local_storage

text \<open>The step an event takes, and whether it can happen: an await is answered only in its phase.\<close>

fun refresh_next :: "refresh_event \<Rightarrow> refresh_state \<Rightarrow> refresh_state" where
  "refresh_next (EError r status retried) s = on_error r status retried s"
| "refresh_next (EGotTokens readable) s = got_tokens readable s"
| "refresh_next (EGotMethod readable) s = got_method readable s"
| "refresh_next (EAnswered answer) s = refresh_answered answer s"
| "refresh_next (EStored fails) s = refreshed fails s"
| "refresh_next (ECleared fails) s = cleared fails s"
| "refresh_next (EStorage st) s = s\<lparr>rf_storage := st\<rparr>"

fun answers_await :: "refresh_event \<Rightarrow> refresh_phase \<Rightarrow> bool" where
  "answers_await (EGotTokens _) p \<longleftrightarrow> p = Reading"
| "answers_await (EGotMethod _) p \<longleftrightarrow> (case p of ReadingMethod _ \<Rightarrow> True | _ \<Rightarrow> False)"
| "answers_await (EAnswered _) p \<longleftrightarrow> (case p of Asking _ _ \<Rightarrow> True | _ \<Rightarrow> False)"
| "answers_await (EStored _) p \<longleftrightarrow> (case p of Storing _ _ _ \<Rightarrow> True | _ \<Rightarrow> False)"
| "answers_await (ECleared _) p \<longleftrightarrow> p = Clearing"
| "answers_await (EError _ _ _) p \<longleftrightarrow> False"
| "answers_await (EStorage _) p \<longleftrightarrow> False"

definition refresh_enabled :: "refresh_event \<Rightarrow> refresh_state \<Rightarrow> bool" where
  "refresh_enabled e s \<longleftrightarrow>
     (case e of
        EError r status retried \<Rightarrow> r \<notin> known s
      | EStorage st \<Rightarrow> True
      | _ \<Rightarrow> (case rf_leader s of None \<Rightarrow> False | Some (r, p) \<Rightarrow> answers_await e p))"

inductive refresh_step :: "refresh_state \<Rightarrow> refresh_event \<Rightarrow> refresh_state \<Rightarrow> bool" where
  move: "refresh_enabled e s \<Longrightarrow> refresh_step s e (refresh_next e s)"

inductive_cases refresh_stepE: "refresh_step s e s'"

definition initial_refresh :: "local_storage \<Rightarrow> refresh_state" where
  "initial_refresh st = \<lparr>rf_leader = None, rf_queue = [], rf_storage = st, rf_fates = [], rf_failures = 0\<rparr>"

text \<open>The two ways in which a request can be left waiting: the refresh token is missing when it is read, and a
  request gets its 401 while the tokens of a failed refresh are removed. A calm run has neither.\<close>

definition strands :: "refresh_event \<Rightarrow> refresh_state \<Rightarrow> bool" where
  "strands e s \<longleftrightarrow>
     (case e of
        EGotTokens readable \<Rightarrow> readable \<and> truthy (rf_storage s STORE_KEY_REFRESH) = None
      | EError r status retried \<Rightarrow> status = Some 401 \<and> \<not> retried \<and> map_option snd (rf_leader s) = Some Clearing
      | _ \<Rightarrow> False)"

inductive refresh_run :: "bool \<Rightarrow> refresh_state \<Rightarrow> bool" for calm where
  start: "refresh_run calm (initial_refresh st)"
| step: "refresh_run calm s \<Longrightarrow> refresh_step s e s' \<Longrightarrow> \<not> (calm \<and> strands e s) \<Longrightarrow> refresh_run calm s'"

section \<open>Properties\<close>

definition refresh_inv :: "refresh_state \<Rightarrow> bool" where
  "refresh_inv s \<longleftrightarrow>
     distinct (rf_queue s @ (case rf_leader s of None \<Rightarrow> [] | Some (r, _) \<Rightarrow> [r]) @ map fst (rf_fates s))"

lemmas refresh_defs = on_error_def got_tokens_def got_method_def refresh_answered_def refreshed_def
  refresh_failed_def cleared_def drainQueue_def isRefreshing_def Let_def

lemma refresh_inv_step: "refresh_step s e s' \<Longrightarrow> refresh_inv s \<Longrightarrow> refresh_inv s'"
  by (erule refresh_stepE; cases e)
     (auto simp: refresh_inv_def refresh_defs known_def refresh_enabled_def comp_def
       split: option.splits if_splits refresh_phase.splits)

lemma refresh_run_inv: "refresh_run calm s \<Longrightarrow> refresh_inv s"
proof (induction rule: refresh_run.induct)
  case (start st)
  then show ?case by (simp add: refresh_inv_def initial_refresh_def)
next
  case (step s e s')
  then show ?case using refresh_inv_step by blast
qed

text \<open>In a calm run somebody refreshes while the queue is not empty, and it is empty while tokens are removed.\<close>

definition queue_led :: "refresh_state \<Rightarrow> bool" where
  "queue_led s \<longleftrightarrow> rf_queue s = [] \<or> (\<exists>r p. rf_leader s = Some (r, p) \<and> p \<noteq> Clearing)"

lemma queue_led_step: "refresh_step s e s' \<Longrightarrow> \<not> strands e s \<Longrightarrow> queue_led s \<Longrightarrow> queue_led s'"
  by (erule refresh_stepE; cases e)
     (auto simp: queue_led_def strands_def refresh_defs refresh_enabled_def getStoredTokens_def
       split: option.splits if_splits refresh_phase.splits)

lemma calm_run_led: "refresh_run True s \<Longrightarrow> queue_led s"
proof (induction rule: refresh_run.induct)
  case (start st)
  then show ?case by (simp add: queue_led_def initial_refresh_def)
next
  case (step s e s')
  then show ?case using queue_led_step by blast
qed

text \<open>How many awaits a refresh still has before it.\<close>

definition awaits_left :: "refresh_state \<Rightarrow> nat" where
  "awaits_left s =
     (case rf_leader s of
        None \<Rightarrow> 0
      | Some (r, p) \<Rightarrow> (case p of Reading \<Rightarrow> 5 | ReadingMethod _ \<Rightarrow> 4 | Asking _ _ \<Rightarrow> 3 | Storing _ _ _ \<Rightarrow> 2 | Clearing \<Rightarrow> 1))"

lemma await_answered:
  assumes "rf_leader s = Some (r, p)" "answers_await e p"
  shows "awaits_left (refresh_next e s) < awaits_left s"
  using assms
  by (cases e; cases p)
     (auto simp: awaits_left_def refresh_defs split: option.splits if_splits)

text \<open>
  C21. What becomes of the requests that got a 401. In every run, whatever fails: no request is settled
  twice; an answer to what the refresh awaits brings it closer to its end, which is at most five awaits
  away; when the new tokens are stored, every waiting request, and the one that refreshed, is sent again
  with the new token, and when a refresh fails, every waiting request is rejected at once, and the one
  that refreshed once the tokens are removed. And in a run where the refresh token is never missing
  when it is read and no 401 arrives while tokens are removed, a request waits only while another one is
  refreshing.
\<close>

theorem refresh_settles_all:
  assumes "refresh_run calm s"
  shows "distinct (map fst (rf_fates s))
    \<and> (\<forall>r p. rf_leader s = Some (r, p) \<longrightarrow> awaits_left s \<le> 5 \<and>
         (\<forall>e. answers_await e p \<longrightarrow> awaits_left (refresh_next e s) < awaits_left s))
    \<and> (\<forall>r m access new fails. rf_leader s = Some (r, Storing m access new) \<and> access \<noteq> [] \<longrightarrow>
         fst (storeTokens fails access new (Some m) (rf_storage s)) \<longrightarrow>
           rf_queue (refreshed fails s) = [] \<and> \<not> isRefreshing (refreshed fails s) \<and>
           rf_fates (refreshed fails s) = rf_fates s @ map (\<lambda>q. (q, Resent access)) (rf_queue s @ [r]))
    \<and> (\<forall>r p e. rf_leader s = Some (r, p) \<and> answers_await e p \<and> rf_leader (refresh_next e s) = Some (r, Clearing) \<longrightarrow>
         rf_queue (refresh_next e s) = [] \<and>
         rf_fates (refresh_next e s) = rf_fates s @ map (\<lambda>q. (q, Rejected)) (rf_queue s))
    \<and> (\<forall>r fails. rf_leader s = Some (r, Clearing) \<longrightarrow>
         rf_fates (cleared fails s) = rf_fates s @ [(r, Rejected)] \<and> \<not> isRefreshing (cleared fails s))
    \<and> (calm \<and> rf_queue s \<noteq> [] \<longrightarrow> isRefreshing s)"
proof -
  have inv: "refresh_inv s" using assms by (rule refresh_run_inv)
  have left: "awaits_left s \<le> 5" by (auto simp: awaits_left_def split: option.split refresh_phase.split)
  have failed: "rf_queue (refresh_next e s) = [] \<and>
         rf_fates (refresh_next e s) = rf_fates s @ map (\<lambda>q. (q, Rejected)) (rf_queue s)"
    if "rf_leader s = Some (r, p)" "answers_await e p" "rf_leader (refresh_next e s) = Some (r, Clearing)" for r p e
    using that by (cases e; cases p) (auto simp: refresh_defs split: option.splits if_splits)
  have led: "calm \<and> rf_queue s \<noteq> [] \<longrightarrow> isRefreshing s"
  proof -
    have "queue_led s" if calm using assms calm_run_led that by simp
    then show ?thesis by (auto simp: queue_led_def isRefreshing_def)
  qed
  have "distinct (map fst (rf_fates s))" using inv by (auto simp: refresh_inv_def)
  with left led failed await_answered show ?thesis
    by (auto simp: refreshed_def cleared_def drainQueue_def isRefreshing_def truthy_def)
qed

definition demo_storage :: local_storage where
  "demo_storage = [STORE_KEY_REFRESH \<mapsto> ''r'']"

text \<open>Two requests, of which the first one refreshes.\<close>

definition two_waiting :: "local_storage \<Rightarrow> refresh_state" where
  "two_waiting st = on_error 2 (Some 401) False (on_error 1 (Some 401) False (initial_refresh st))"

lemmas run_defs = two_waiting_def initial_refresh_def refresh_enabled_def known_def strands_def refresh_defs

lemma refresh_more: "refresh_run calm s \<Longrightarrow> refresh_enabled e s \<Longrightarrow> \<not> (calm \<and> strands e s) \<Longrightarrow> refresh_run calm (refresh_next e s)"
  by (blast intro: refresh_run.step refresh_step.move)

lemma two_waiting_run: "refresh_run calm (two_waiting st)"
proof -
  let ?s1 = "refresh_next (EError 1 (Some 401) False) (initial_refresh st)"
  have "refresh_run calm ?s1"
    by (rule refresh_more [OF refresh_run.start]) (simp_all add: run_defs)
  then have "refresh_run calm (refresh_next (EError 2 (Some 401) False) ?s1)"
    by (rule refresh_more) (simp_all add: run_defs)
  then show ?thesis by (simp add: two_waiting_def)
qed

theorem refresh_settles_all_witness:
  "rf_queue (two_waiting demo_storage) = [2] \<and> isRefreshing (two_waiting demo_storage)"
  using refresh_settles_all [OF two_waiting_run [of True demo_storage]] by (simp add: run_defs)

text \<open>
  Without a refresh token a waiting request is left hanging: the first request of two is
  rejected and gives up the refresh, while the second stays in the queue with nobody refreshing;
  nothing is cleared and no authentication failure is reported.
\<close>

theorem missing_token_strands_queue:
  "\<exists>s. refresh_run False s \<and> rf_queue s = [2] \<and> \<not> isRefreshing s \<and> rf_failures s = 0"
proof -
  let ?s = "refresh_next (EGotTokens True) (two_waiting Map.empty)"
  have "refresh_run False ?s"
    by (rule refresh_more [OF two_waiting_run]) (simp_all add: run_defs)
  moreover have "rf_queue ?s = [2] \<and> \<not> isRefreshing ?s \<and> rf_failures ?s = 0"
    by (simp add: run_defs getStoredTokens_def truthy_def)
  ultimately show ?thesis by blast
qed

text \<open>
  So is a request whose 401 arrives while the tokens of a failed refresh are removed: the flag still says
  that somebody refreshes, but the queue has been drained already. It waits although the failure has been
  reported and the user signed out.
\<close>

theorem late_request_stranded:
  "\<exists>s. refresh_run False s \<and> rf_queue s = [3] \<and> \<not> isRefreshing s \<and> rf_failures s = 1
     \<and> rf_fates s = [(2, Rejected), (1, Rejected)]"
proof -
  let ?s1 = "refresh_next (EGotTokens False) (two_waiting demo_storage)"
  let ?s2 = "refresh_next (EError 3 (Some 401) False) ?s1"
  let ?s3 = "refresh_next (ECleared (\<lambda>k. False)) ?s2"
  have "refresh_run False ?s1" by (rule refresh_more [OF two_waiting_run]) (simp_all add: run_defs)
  then have "refresh_run False ?s2" by (rule refresh_more) (simp_all add: run_defs)
  then have "refresh_run False ?s3" by (rule refresh_more) (simp_all add: run_defs)
  moreover have "rf_queue ?s3 = [3] \<and> \<not> isRefreshing ?s3 \<and> rf_failures ?s3 = 1
     \<and> rf_fates ?s3 = [(2, Rejected), (1, Rejected)]"
    by (simp add: run_defs)
  ultimately show ?thesis by blast
qed

text \<open>A response the backend has sent is lost to its caller when the tokens it carries cannot be written.\<close>

theorem unwritten_rotation_loses_response:
  "fails STORE_KEY_REFRESH \<Longrightarrow> a \<noteq> [] \<Longrightarrow> b \<noteq> [] \<Longrightarrow> \<not> fst (on_response fails (Some a) (Some b) st)"
  by (simp add: on_response_def storeTokens_def truthy_def Let_def)

end
