(* ===== verification/FileDrag.thy ===== *)
theory FileDrag
  imports Prelude
begin

text \<open>
  Moving files and folders by drag and drop, \<open>frontend/src/hooks/useFileDrag.ts\<close>: what a drop
  carries, which moves it causes, the highlights, and the timer that opens a hovered folder; and the
  enter counter of \<open>frontend/src/hooks/useDragDrop.ts\<close> for files dropped from the desktop.
\<close>

section \<open>What is dragged\<close>

record selection =
  fileIds :: "string list"
  folderIds :: "string list"

definition selection_size :: "selection \<Rightarrow> nat" where
  "selection_size p = length (fileIds p) + length (folderIds p)"

text \<open>
  The three typed entries of a \<open>DataTransfer\<close>. The selection is JSON text; \<open>dt_selection\<close> is
  the parse of it: \<open>Some None\<close> is a malformed text, and a field that is no array reads as empty.
\<close>

record data_transfer =
  dt_file :: "string option"
  dt_folder :: "string option"
  dt_selection :: "selection option option"

definition non_empty :: "string option \<Rightarrow> string option" where
  "non_empty s = (if s = Some [] then None else s)"

definition single_payload :: "data_transfer \<Rightarrow> string option \<Rightarrow> selection option" where
  "single_payload d exclude =
     (case non_empty (dt_file d) of
        Some f \<Rightarrow> Some \<lparr>fileIds = [f], folderIds = []\<rparr>
      | None \<Rightarrow>
          (case non_empty (dt_folder d) of
             None \<Rightarrow> None
           | Some f \<Rightarrow> if exclude = Some f then None else Some \<lparr>fileIds = [], folderIds = [f]\<rparr>))"

definition resolvePayload :: "data_transfer \<Rightarrow> string option \<Rightarrow> selection option" where
  "resolvePayload d exclude =
     (case dt_selection d of
        Some (Some parsed) \<Rightarrow>
          let folders = filter (\<lambda>f. exclude \<noteq> Some f) (folderIds parsed) in
          if length (fileIds parsed) + length folders > 0
          then Some \<lparr>fileIds = fileIds parsed, folderIds = folders\<rparr> else single_payload d exclude
      | _ \<Rightarrow> single_payload d exclude)"

datatype move = MoveFile string string | MoveFolder string string | MoveMany "string list" "string list" string

definition runMove :: "bool \<Rightarrow> selection \<Rightarrow> string \<Rightarrow> move list" where
  "runMove has_many p target =
     (if selection_size p = 0 then []
      else if selection_size p = 1 \<and> length (folderIds p) = 1 then [MoveFolder (hd (folderIds p)) target]
      else if selection_size p = 1 \<and> length (fileIds p) = 1 then [MoveFile (hd (fileIds p)) target]
      else if has_many then [MoveMany (fileIds p) (folderIds p) target]
      else map (\<lambda>f. MoveFile f target) (fileIds p) @ map (\<lambda>f. MoveFolder f target) (folderIds p))"

section \<open>The state of a drag\<close>

definition HOVER_OPEN_DELAY_MS :: nat where "HOVER_OPEN_DELAY_MS = 1000"

datatype item_kind = KFile | KFolder

record drag_state =
  dr_file :: "string option"          \<comment> \<open>the rendered state, one frame behind\<close>
  dr_folder :: "string option"
  dr_fileRef :: "string option"
  dr_folderRef :: "string option"
  dr_frame :: "(item_kind \<times> string) option"   \<comment> \<open>the requested animation frame\<close>
  dr_over :: "string option"
  dr_background :: bool
  dr_current :: bool
  dr_timer :: "(nat \<times> string) option"        \<comment> \<open>due time of the hover timer, and its folder\<close>
  dr_hover :: "string option"                \<comment> \<open>\<open>hoverFolderIdRef\<close>\<close>
  dr_opened :: "(nat \<times> string) list"         \<comment> \<open>calls of \<open>onHoverOpen\<close>, with their time\<close>
  dr_moves :: "move list"

definition no_drag :: drag_state where
  "no_drag = \<lparr>dr_file = None, dr_folder = None, dr_fileRef = None, dr_folderRef = None, dr_frame = None,
     dr_over = None, dr_background = False, dr_current = False, dr_timer = None, dr_hover = None,
     dr_opened = [], dr_moves = []\<rparr>"

definition beginDrag :: "item_kind \<Rightarrow> string \<Rightarrow> drag_state \<Rightarrow> drag_state" where
  "beginDrag k i s =
     (let s1 = (case k of KFile \<Rightarrow> s\<lparr>dr_fileRef := Some i\<rparr> | KFolder \<Rightarrow> s\<lparr>dr_folderRef := Some i\<rparr>)
      in s1\<lparr>dr_frame := Some (k, i)\<rparr>)"

definition drag_frame :: "drag_state \<Rightarrow> drag_state" where
  "drag_frame s =
     (case dr_frame s of
        None \<Rightarrow> s
      | Some (KFile, i) \<Rightarrow> s\<lparr>dr_frame := None, dr_file := Some i\<rparr>
      | Some (KFolder, i) \<Rightarrow> s\<lparr>dr_frame := None, dr_folder := Some i\<rparr>)"

definition clearHoverTimer :: "drag_state \<Rightarrow> drag_state" where
  "clearHoverTimer s = s\<lparr>dr_timer := None, dr_hover := None\<rparr>"

definition endDrag :: "drag_state \<Rightarrow> drag_state" where
  "endDrag s = clearHoverTimer (s\<lparr>dr_frame := None, dr_fileRef := None, dr_folderRef := None,
     dr_file := None, dr_folder := None, dr_over := None, dr_background := False, dr_current := False\<rparr>)"

definition scheduleHoverOpen :: "bool \<Rightarrow> nat \<Rightarrow> string \<Rightarrow> drag_state \<Rightarrow> drag_state" where
  "scheduleHoverOpen has_open now f s =
     (if \<not> has_open \<or> dr_hover s = Some f then s
      else (clearHoverTimer s)\<lparr>dr_hover := Some f, dr_timer := Some (now + HOVER_OPEN_DELAY_MS, f)\<rparr>)"

definition hover_fires :: "nat \<Rightarrow> drag_state \<Rightarrow> drag_state" where
  "hover_fires now s =
     (case dr_timer s of
        None \<Rightarrow> s
      | Some (due, f) \<Rightarrow> if due \<le> now then clearHoverTimer (s\<lparr>dr_opened := dr_opened s @ [(now, f)]\<rparr>) else s)"

section \<open>The handlers\<close>

text \<open>A drag event as a handler sees it: its types, whether it was claimed, where it leaves to.\<close>

record drag_event =
  dv_time :: nat
  dv_data :: data_transfer
  dv_prevented :: bool
  dv_inside :: bool      \<comment> \<open>\<open>contains(relatedTarget)\<close>\<close>

definition is_app_drag :: "data_transfer \<Rightarrow> bool" where
  "is_app_drag d \<longleftrightarrow> dt_file d \<noteq> None \<or> dt_folder d \<noteq> None \<or> dt_selection d \<noteq> None"

definition onto_itself :: "drag_state \<Rightarrow> data_transfer \<Rightarrow> string \<Rightarrow> bool" where
  "onto_itself s d f \<longleftrightarrow> dt_folder d \<noteq> None \<and> dt_selection d = None \<and> dr_folderRef s = Some f"

definition claims :: "drag_state \<Rightarrow> drag_event \<Rightarrow> string \<Rightarrow> bool" where
  "claims s e f \<longleftrightarrow> is_app_drag (dv_data e) \<and> \<not> onto_itself s (dv_data e) f"

definition folder_enter :: "bool \<Rightarrow> string \<Rightarrow> drag_event \<Rightarrow> drag_state \<Rightarrow> drag_state" where
  "folder_enter has_open f e s =
     (if \<not> claims s e f then s
      else scheduleHoverOpen has_open (dv_time e) f (s\<lparr>dr_over := Some f, dr_background := False\<rparr>))"

definition folder_leave :: "string \<Rightarrow> drag_event \<Rightarrow> drag_state \<Rightarrow> drag_state" where
  "folder_leave f e s =
     (if dv_inside e then s
      else let s1 = s\<lparr>dr_over := (if dr_over s = Some f then None else dr_over s)\<rparr>
           in if dr_hover s1 = Some f then clearHoverTimer s1 else s1)"

definition drop_on :: "bool \<Rightarrow> string \<Rightarrow> selection option \<Rightarrow> drag_state \<Rightarrow> drag_state" where
  "drop_on has_many f payload s =
     (case payload of None \<Rightarrow> s | Some p \<Rightarrow> s\<lparr>dr_moves := dr_moves s @ runMove has_many p f\<rparr>)"

definition folder_drop :: "bool \<Rightarrow> string \<Rightarrow> drag_event \<Rightarrow> drag_state \<Rightarrow> drag_state" where
  "folder_drop has_many f e s =
     drop_on has_many f (resolvePayload (dv_data e) (Some f))
       (clearHoverTimer (s\<lparr>dr_over := None, dr_background := False\<rparr>))"

definition background_enter :: "string option \<Rightarrow> drag_event \<Rightarrow> drag_state \<Rightarrow> drag_state" where
  "background_enter parent e s =
     (if \<not> is_app_drag (dv_data e) then s
      else if dv_prevented e then s\<lparr>dr_background := False\<rparr>
      else if parent = None then s else s\<lparr>dr_background := True\<rparr>)"

definition background_over :: "drag_event \<Rightarrow> drag_state \<Rightarrow> drag_state" where
  "background_over e s =
     (if \<not> is_app_drag (dv_data e) then s
      else if dv_prevented e then s\<lparr>dr_background := False\<rparr> else s)"

definition background_leave :: "drag_event \<Rightarrow> drag_state \<Rightarrow> drag_state" where
  "background_leave e s = (if dv_inside e then s else s\<lparr>dr_background := False\<rparr>)"

definition background_drop :: "bool \<Rightarrow> string option \<Rightarrow> drag_event \<Rightarrow> drag_state \<Rightarrow> drag_state" where
  "background_drop has_many parent e s =
     (case parent of
        None \<Rightarrow> s
      | Some f \<Rightarrow>
          if dv_prevented e then s
          else drop_on has_many f (resolvePayload (dv_data e) None) (s\<lparr>dr_background := False\<rparr>))"

definition current_enter :: "string \<Rightarrow> drag_event \<Rightarrow> drag_state \<Rightarrow> drag_state" where
  "current_enter f e s =
     (if \<not> claims s e f then s
      else clearHoverTimer (s\<lparr>dr_current := True, dr_over := None, dr_background := False\<rparr>))"

definition current_leave :: "drag_event \<Rightarrow> drag_state \<Rightarrow> drag_state" where
  "current_leave e s = (if dv_inside e then s else s\<lparr>dr_current := False\<rparr>)"

definition current_drop :: "bool \<Rightarrow> string \<Rightarrow> drag_event \<Rightarrow> drag_state \<Rightarrow> drag_state" where
  "current_drop has_many f e s =
     drop_on has_many f (resolvePayload (dv_data e) (Some f)) (s\<lparr>dr_current := False\<rparr>)"

text \<open>The data a drag starts with, and the label of its ghost (which counts a multi-selection).\<close>

definition start_data :: "item_kind \<Rightarrow> string \<Rightarrow> selection option \<Rightarrow> data_transfer" where
  "start_data k i sel = \<lparr>dt_file = (if k = KFile then Some i else None),
     dt_folder = (if k = KFolder then Some i else None),
     dt_selection = (case sel of None \<Rightarrow> None | Some p \<Rightarrow> if selection_size p > 1 then Some (Some p) else None)\<rparr>"

section \<open>Properties\<close>

text \<open>The single moves a list of calls stands for.\<close>

definition moved :: "move list \<Rightarrow> (item_kind \<times> string \<times> string) list" where
  "moved ms = concat (map (\<lambda>m. case m of
       MoveFile f t \<Rightarrow> [(KFile, f, t)]
     | MoveFolder f t \<Rightarrow> [(KFolder, f, t)]
     | MoveMany fs ds t \<Rightarrow> map (\<lambda>f. (KFile, f, t)) fs @ map (\<lambda>f. (KFolder, f, t)) ds) ms)"

lemma moved_run:
  "moved (runMove has_many p t) = map (\<lambda>f. (KFile, f, t)) (fileIds p) @ map (\<lambda>f. (KFolder, f, t)) (folderIds p)"
proof -
  have one: "map g xs = [g (hd xs)]" if "length xs = 1" for g :: "string \<Rightarrow> 'x" and xs
    using that by (cases xs) auto
  have "moved (map (\<lambda>f. MoveFile f t) xs @ map (\<lambda>f. MoveFolder f t) ys) =
      map (\<lambda>f. (KFile, f, t)) xs @ map (\<lambda>f. (KFolder, f, t)) ys" for xs ys
  proof (induction xs)
    case Nil
    show ?case by (induction ys) (simp_all add: moved_def)
  qed (simp add: moved_def)
  then show ?thesis
    by (auto simp: runMove_def selection_size_def one) (auto simp: moved_def one)
qed

text \<open>
  A drop moves what it carries, each item once, into its target: whether or not the caller
  offers a bulk move, the moves of a payload are its files and folders, in order; and a folder is
  never moved into itself by a drop on a folder, alone or within a selection.
\<close>

theorem drop_moves_payload:
  "moved (dr_moves (folder_drop has_many f e s)) = moved (dr_moves s) @
     (case resolvePayload (dv_data e) (Some f) of
        None \<Rightarrow> []
      | Some p \<Rightarrow> map (\<lambda>x. (KFile, x, f)) (fileIds p) @ map (\<lambda>x. (KFolder, x, f)) (folderIds p)) \<and>
   (case resolvePayload (dv_data e) (Some f) of None \<Rightarrow> True | Some p \<Rightarrow> f \<notin> set (folderIds p) \<and> selection_size p > 0)"
proof -
  have m: "moved (xs @ ys) = moved xs @ moved ys" for xs ys by (simp add: moved_def)
  have "moved (dr_moves (folder_drop has_many f e s)) = moved (dr_moves s) @
     (case resolvePayload (dv_data e) (Some f) of None \<Rightarrow> []
      | Some p \<Rightarrow> map (\<lambda>x. (KFile, x, f)) (fileIds p) @ map (\<lambda>x. (KFolder, x, f)) (folderIds p))"
    by (simp add: folder_drop_def drop_on_def clearHoverTimer_def m moved_run split: option.split)
  moreover have "case resolvePayload (dv_data e) (Some f) of None \<Rightarrow> True | Some p \<Rightarrow> f \<notin> set (folderIds p) \<and> selection_size p > 0"
    by (auto simp: resolvePayload_def single_payload_def selection_size_def Let_def split: option.splits if_splits)
  ultimately show ?thesis by simp
qed

text \<open>The events of a hovering drag over the folder rows of a list.\<close>

datatype hover_event = HEnter string drag_event | HLeave string drag_event | HTick nat

definition hover_step :: "hover_event \<Rightarrow> drag_state \<Rightarrow> drag_state" where
  "hover_step ev s =
     (case ev of
        HEnter f e \<Rightarrow> folder_enter True f e s
      | HLeave f e \<Rightarrow> folder_leave f e s
      | HTick now \<Rightarrow> hover_fires now s)"

definition event_time :: "hover_event \<Rightarrow> nat" where
  "event_time ev = (case ev of HEnter _ e \<Rightarrow> dv_time e | HLeave _ e \<Rightarrow> dv_time e | HTick now \<Rightarrow> now)"

text \<open>Since when the folder whose timer is armed is hovered.\<close>

definition hover_inv :: "hover_event list \<Rightarrow> drag_state \<Rightarrow> bool" where
  "hover_inv past s \<longleftrightarrow>
     (case dr_timer s of
        None \<Rightarrow> True
      | Some (due, f) \<Rightarrow> dr_hover s = Some f \<and>
          (\<exists>pre e post. past = pre @ HEnter f e # post \<and> due = dv_time e + HOVER_OPEN_DELAY_MS \<and>
             (\<forall>g d. HLeave g d \<in> set post \<longrightarrow> g = f \<longrightarrow> dv_inside d) \<and>
             (\<forall>t. HTick t \<in> set post \<longrightarrow> t < due)))"

lemma hover_inv_extend:
  "hover_inv past s \<Longrightarrow> dr_timer s' = dr_timer s \<Longrightarrow> dr_hover s' = dr_hover s \<Longrightarrow>
     (\<And>due f. dr_timer s = Some (due, f) \<Longrightarrow>
        (case ev of HLeave g d \<Rightarrow> g = f \<longrightarrow> dv_inside d | HTick t \<Rightarrow> t < due | _ \<Rightarrow> True)) \<Longrightarrow>
     hover_inv (past @ [ev]) s'"
proof (cases "dr_timer s")
  case (Some x)
  obtain due f where x: "x = (due, f)" by (cases x)
  assume inv: "hover_inv past s" and s': "dr_timer s' = dr_timer s" "dr_hover s' = dr_hover s"
    and ev: "\<And>due f. dr_timer s = Some (due, f) \<Longrightarrow>
      (case ev of HLeave g d \<Rightarrow> g = f \<longrightarrow> dv_inside d | HTick t \<Rightarrow> t < due | _ \<Rightarrow> True)"
  from inv Some x obtain pre e post where h: "dr_hover s = Some f" "past = pre @ HEnter f e # post"
    "due = dv_time e + HOVER_OPEN_DELAY_MS" "\<forall>g d. HLeave g d \<in> set post \<longrightarrow> g = f \<longrightarrow> dv_inside d"
    "\<forall>t. HTick t \<in> set post \<longrightarrow> t < due" by (auto simp: hover_inv_def)
  have "past @ [ev] = pre @ HEnter f e # (post @ [ev])" by (simp add: h(2))
  moreover have "\<forall>g d. HLeave g d \<in> set (post @ [ev]) \<longrightarrow> g = f \<longrightarrow> dv_inside d"
    "\<forall>t. HTick t \<in> set (post @ [ev]) \<longrightarrow> t < due"
    using h(4,5) ev [OF Some [unfolded x]] by auto
  ultimately have "\<exists>pre e post. past @ [ev] = pre @ HEnter f e # post \<and> due = dv_time e + HOVER_OPEN_DELAY_MS \<and>
      (\<forall>g d. HLeave g d \<in> set post \<longrightarrow> g = f \<longrightarrow> dv_inside d) \<and> (\<forall>t. HTick t \<in> set post \<longrightarrow> t < due)"
    using h(3) by blast
  then show ?thesis using Some x s' h(1) unfolding hover_inv_def by simp
qed (simp add: hover_inv_def)

lemma hover_inv_step: "hover_inv past s \<Longrightarrow> hover_inv (past @ [ev]) (hover_step ev s)"
proof (cases ev)
  case (HEnter f e)
  assume inv: "hover_inv past s"
  show ?thesis
  proof (cases "claims s e f \<and> dr_hover s \<noteq> Some f")
    case True
    then have "dr_timer (hover_step ev s) = Some (dv_time e + HOVER_OPEN_DELAY_MS, f)" "dr_hover (hover_step ev s) = Some f"
      by (simp_all add: HEnter hover_step_def folder_enter_def scheduleHoverOpen_def)
    then show ?thesis unfolding hover_inv_def HEnter by force
  next
    case False
    then have "dr_timer (hover_step ev s) = dr_timer s" "dr_hover (hover_step ev s) = dr_hover s"
      by (auto simp: HEnter hover_step_def folder_enter_def scheduleHoverOpen_def)
    with inv show ?thesis by (rule hover_inv_extend) (simp add: HEnter)
  qed
next
  case (HLeave g e)
  assume inv: "hover_inv past s"
  show ?thesis
  proof (cases "\<not> dv_inside e \<and> dr_hover s = Some g")
    case True
    then show ?thesis by (simp add: HLeave hover_step_def folder_leave_def clearHoverTimer_def hover_inv_def)
  next
    case False
    then have "dr_timer (hover_step ev s) = dr_timer s" "dr_hover (hover_step ev s) = dr_hover s"
      by (auto simp: HLeave hover_step_def folder_leave_def Let_def)
    with inv show ?thesis
      by (rule hover_inv_extend) (use False inv in \<open>auto simp: HLeave hover_inv_def\<close>)
  qed
next
  case (HTick now)
  assume inv: "hover_inv past s"
  show ?thesis
  proof (cases "\<exists>due f. dr_timer s = Some (due, f) \<and> due \<le> now")
    case True
    then show ?thesis by (auto simp: HTick hover_step_def hover_fires_def clearHoverTimer_def hover_inv_def)
  next
    case False
    then have "dr_timer (hover_step ev s) = dr_timer s" "dr_hover (hover_step ev s) = dr_hover s"
      by (auto simp: HTick hover_step_def hover_fires_def split: option.splits)
    with inv show ?thesis by (rule hover_inv_extend) (use False in \<open>auto simp: HTick not_le\<close>)
  qed
qed

lemma hover_run_inv: "hover_inv evs (fold hover_step evs no_drag)"
proof (induction evs rule: rev_induct)
  case Nil
  show ?case by (simp add: hover_inv_def no_drag_def)
next
  case (snoc ev evs)
  then show ?case by (simp add: hover_inv_step)
qed

text \<open>
  A folder opens under a drag only after a full second of hovering: when the timer opens
  \<open>f\<close> at a tick, some entry into \<open>f\<close> lies at least 1000 ms back and the drag has not left
  \<open>f\<close> since.
\<close>

theorem hover_open_waits:
  assumes "dr_opened (hover_fires now (fold hover_step evs no_drag)) = dr_opened (fold hover_step evs no_drag) @ [(now, f)]"
  shows "\<exists>pre e post. evs = pre @ HEnter f e # post \<and> dv_time e + HOVER_OPEN_DELAY_MS \<le> now \<and>
    (\<forall>d. HLeave f d \<in> set post \<longrightarrow> dv_inside d)"
proof -
  let ?s = "fold hover_step evs no_drag"
  from assms obtain due where t: "dr_timer ?s = Some (due, f)" "due \<le> now"
    by (auto simp: hover_fires_def clearHoverTimer_def split: option.splits if_splits)
  from hover_run_inv [of evs] t(1) have "\<exists>pre e post. evs = pre @ HEnter f e # post \<and>
      due = dv_time e + HOVER_OPEN_DELAY_MS \<and> (\<forall>g d. HLeave g d \<in> set post \<longrightarrow> g = f \<longrightarrow> dv_inside d)"
    unfolding hover_inv_def by auto
  with t(2) show ?thesis by blast
qed

definition demo_drag :: "nat \<Rightarrow> drag_event" where
  "demo_drag t = \<lparr>dv_time = t, dv_data = \<lparr>dt_file = Some ''f'', dt_folder = None, dt_selection = None\<rparr>,
     dv_prevented = False, dv_inside = False\<rparr>"

theorem hover_open_waits_witness:
  "\<exists>pre e post. [HEnter ''d'' (demo_drag 5), HEnter ''d'' (demo_drag 900)] = pre @ HEnter ''d'' e # post \<and>
     dv_time e + HOVER_OPEN_DELAY_MS \<le> 1005 \<and> (\<forall>d. HLeave ''d'' d \<in> set post \<longrightarrow> dv_inside d)"
  by (rule hover_open_waits)
     (simp add: hover_step_def folder_enter_def claims_def is_app_drag_def onto_itself_def demo_drag_def
       scheduleHoverOpen_def clearHoverTimer_def no_drag_def hover_fires_def HOVER_OPEN_DELAY_MS_def)

text \<open>Ending a drag clears the highlights, the references, the requested frame and the timer.\<close>

lemma endDrag_clears:
  "endDrag s = no_drag\<lparr>dr_opened := dr_opened s, dr_moves := dr_moves s\<rparr>"
  by (simp add: endDrag_def clearHoverTimer_def no_drag_def)

section \<open>Files from the desktop\<close>

record desktop_drag =
  dd_isDragging :: bool
  dd_enterCount :: nat
  dd_dropped :: "string list list"

datatype desktop_event = DEnter bool | DLeave | DDrop "string list" | DCancel

definition desktop_step :: "desktop_event \<Rightarrow> desktop_drag \<Rightarrow> desktop_drag" where
  "desktop_step ev s =
     (case ev of
        DEnter has_files \<Rightarrow>
          if \<not> has_files then s else s\<lparr>dd_enterCount := dd_enterCount s + 1, dd_isDragging := True\<rparr>
      | DLeave \<Rightarrow>
          if dd_enterCount s > 0 then
            let s1 = s\<lparr>dd_enterCount := dd_enterCount s - 1\<rparr>
            in if dd_enterCount s1 = 0 then s1\<lparr>dd_isDragging := False\<rparr> else s1
          else s
      | DDrop files \<Rightarrow>
          let s1 = s\<lparr>dd_enterCount := 0, dd_isDragging := False\<rparr>
          in if files \<noteq> [] then s1\<lparr>dd_dropped := dd_dropped s1 @ [files]\<rparr> else s1
      | DCancel \<Rightarrow> s\<lparr>dd_enterCount := 0, dd_isDragging := False\<rparr>)"

definition desktop_run :: "desktop_event list \<Rightarrow> desktop_drag" where
  "desktop_run evs = fold desktop_step evs \<lparr>dd_isDragging = False, dd_enterCount = 0, dd_dropped = []\<rparr>"

lemma desktop_overlay: "dd_isDragging (desktop_run evs) \<longleftrightarrow> 0 < dd_enterCount (desktop_run evs)"
proof (induction evs rule: rev_induct)
  case (snoc ev evs)
  then show ?case by (cases ev) (auto simp: desktop_run_def desktop_step_def Let_def)
qed (simp add: desktop_run_def)

end
