(* ===== verification/FolderContents.thy ===== *)
theory FolderContents
  imports Paging
begin

text \<open>
  The file browser's endless listing, \<open>frontend/src/hooks/useInfiniteFolderContents.ts\<close>: one query
  page carries a page of subfolders and a page of files, each with a cursor of its own. What the
  endpoint answers to the request of a page is a parameter.
\<close>

record page_param =
  pp_folderCursor :: "string option"
  pp_fileCursor :: "string option"
  pp_folderDone :: bool
  pp_fileDone :: bool

definition INITIAL_PARAM :: page_param where
  "INITIAL_PARAM = \<lparr>pp_folderCursor = None, pp_fileCursor = None, pp_folderDone = False, pp_fileDone = False\<rparr>"

record drive_scope =
  ds_driveId :: string
  ds_includeUnassigned :: bool

text \<open>The request a page becomes: the endpoint it goes to, and its query.\<close>

datatype contents_endpoint =
    AdminUserRoot string | AdminUserFolder string string | SearchContent string | ListRoot | GetFolder string

record contents_query =
  cq_folderCursor :: "string option"
  cq_fileCursor :: "string option"
  cq_folderLimit :: "nat option"
  cq_fileLimit :: "nat option"
  cq_drive :: "string option"
  cq_includeUnassigned :: "bool option"
  cq_groupLimit :: "nat option"

definition ROOT :: string where "ROOT = ''root''"

definition falsy :: "string option \<Rightarrow> bool" where
  "falsy s \<longleftrightarrow> s = None \<or> s = Some []"

definition page_query :: "string \<Rightarrow> page_param \<Rightarrow> drive_scope option \<Rightarrow> contents_query" where
  "page_query folderId p drive = \<lparr>
     cq_folderCursor = (if pp_folderDone p then None else pp_folderCursor p),
     cq_fileCursor = (if pp_fileDone p then None else pp_fileCursor p),
     cq_folderLimit = (if pp_folderDone p then Some 0 else None),
     cq_fileLimit = (if pp_fileDone p then Some 0 else None),
     cq_drive = (if folderId = ROOT then map_option ds_driveId drive else None),
     cq_includeUnassigned = (if folderId = ROOT then map_option ds_includeUnassigned drive else None),
     cq_groupLimit = None\<rparr>"

definition fetchPage ::
  "string \<Rightarrow> string \<Rightarrow> page_param \<Rightarrow> string option \<Rightarrow> drive_scope option \<Rightarrow> contents_endpoint \<times> contents_query" where
  "fetchPage folderId search p asUsername drive =
     (let q = page_query folderId p drive in
      if \<not> falsy asUsername then
        (if folderId = ROOT then (AdminUserRoot (the asUsername), q) else (AdminUserFolder (the asUsername) folderId, q))
      else if search \<noteq> [] then
        let firstPage = falsy (pp_folderCursor p) \<and> falsy (pp_fileCursor p)
        in (SearchContent search, q\<lparr>cq_groupLimit := (if firstPage then None else Some 0)\<rparr>)
      else if folderId = ROOT then (ListRoot, q) else (GetFolder folderId, q))"

record ('d, 'f) contents_page =
  ct_folders :: "'d list"
  ct_folderToken :: "string option"
  ct_files :: "'f list"
  ct_fileToken :: "string option"

definition next_token :: "string option \<Rightarrow> string option" where
  "next_token t = (if falsy t then None else t)"

definition nextParam :: "('d, 'f) contents_page \<Rightarrow> page_param \<Rightarrow> page_param option" where
  "nextParam lastPage p =
     (let nextFolder = next_token (ct_folderToken lastPage);
          nextFile = next_token (ct_fileToken lastPage);
          folderDone = (pp_folderDone p \<or> nextFolder = None);
          fileDone = (pp_fileDone p \<or> nextFile = None)
      in if folderDone \<and> fileDone then None
         else Some \<lparr>pp_folderCursor = nextFolder, pp_fileCursor = nextFile,
                    pp_folderDone = folderDone, pp_fileDone = fileDone\<rparr>)"

text \<open>The effect of the hook: an empty page with a next one is followed without being asked.\<close>

definition auto_advances :: "bool \<Rightarrow> bool \<Rightarrow> ('d, 'f) contents_page list \<Rightarrow> bool" where
  "auto_advances hasNext isFetching pages \<longleftrightarrow>
     hasNext \<and> \<not> isFetching \<and> pages \<noteq> [] \<and> ct_folders (last pages) = [] \<and> ct_files (last pages) = []"

text \<open>A request is the endpoint it goes to and its query. Reading all pages: the requests made, and the pages
  received.\<close>

type_synonym contents_request = "contents_endpoint \<times> contents_query"

fun read_pages ::
  "(page_param \<Rightarrow> contents_request) \<Rightarrow> (contents_request \<Rightarrow> ('d, 'f) contents_page) \<Rightarrow> nat \<Rightarrow> page_param
     \<Rightarrow> (contents_request list \<times> ('d, 'f) contents_page list) option" where
  "read_pages fetch serve 0 p = None"
| "read_pages fetch serve (Suc fuel) p =
     (let pg = serve (fetch p) in
      case nextParam pg p of
        None \<Rightarrow> Some ([fetch p], [pg])
      | Some p' \<Rightarrow> map_option (\<lambda>(rs, pgs). (fetch p # rs, pg # pgs)) (read_pages fetch serve fuel p'))"

section \<open>A server of two paged lists\<close>

text \<open>
  The contract of the endpoint, which sees the request only: a list is served page by page from the cursor
  of the query, from its beginning when there is none, each page but the last naming the cursor of the
  next; a list with limit 0 is not read and names no cursor. What an endpoint lists for a drive scope is
  \<open>store\<close>.
\<close>

definition serve_list :: "'a list list \<Rightarrow> (nat \<Rightarrow> string) \<Rightarrow> nat option \<Rightarrow> string option \<Rightarrow> 'a list \<times> string option" where
  "serve_list pgs name limit cursor =
     (if limit = Some 0 then ([], None)
      else let k = (case cursor of None \<Rightarrow> 0 | Some c \<Rightarrow> (case find (\<lambda>j. name j = c) [0..<length pgs] of None \<Rightarrow> length pgs | Some j \<Rightarrow> j))
           in (if k < length pgs then pgs ! k else [], if Suc k < length pgs then Some (name (Suc k)) else None))"

type_synonym ('d, 'f) contents_store =
  "contents_endpoint \<Rightarrow> string option \<Rightarrow> bool option \<Rightarrow> 'd list list \<times> 'f list list"

definition serve_contents ::
  "('d, 'f) contents_store \<Rightarrow> (nat \<Rightarrow> string) \<Rightarrow> contents_request \<Rightarrow> ('d, 'f) contents_page" where
  "serve_contents store name r =
     (let q = snd r;
          lists = store (fst r) (cq_drive q) (cq_includeUnassigned q);
          (ds, dt) = serve_list (fst lists) name (cq_folderLimit q) (cq_folderCursor q);
          (fs, ft) = serve_list (snd lists) name (cq_fileLimit q) (cq_fileCursor q)
      in \<lparr>ct_folders = ds, ct_folderToken = dt, ct_files = fs, ct_fileToken = ft\<rparr>)"

text \<open>Every page asks the same endpoint, with the same scope.\<close>

definition listed_endpoint :: "string \<Rightarrow> string \<Rightarrow> string option \<Rightarrow> contents_endpoint" where
  "listed_endpoint folderId search asUsername =
     (if \<not> falsy asUsername
      then if folderId = ROOT then AdminUserRoot (the asUsername) else AdminUserFolder (the asUsername) folderId
      else if search \<noteq> [] then SearchContent search
      else if folderId = ROOT then ListRoot else GetFolder folderId)"

definition scope_drive :: "string \<Rightarrow> drive_scope option \<Rightarrow> string option" where
  "scope_drive folderId drive = (if folderId = ROOT then map_option ds_driveId drive else None)"

definition scope_unassigned :: "string \<Rightarrow> drive_scope option \<Rightarrow> bool option" where
  "scope_unassigned folderId drive = (if folderId = ROOT then map_option ds_includeUnassigned drive else None)"

lemma fetchPage_endpoint: "fst (fetchPage folderId search p asUsername drive) = listed_endpoint folderId search asUsername"
  by (simp add: fetchPage_def listed_endpoint_def Let_def)

lemma fetchPage_query:
  "cq_folderCursor (snd (fetchPage folderId search p asUsername drive)) = (if pp_folderDone p then None else pp_folderCursor p)"
  "cq_fileCursor (snd (fetchPage folderId search p asUsername drive)) = (if pp_fileDone p then None else pp_fileCursor p)"
  "cq_folderLimit (snd (fetchPage folderId search p asUsername drive)) = (if pp_folderDone p then Some 0 else None)"
  "cq_fileLimit (snd (fetchPage folderId search p asUsername drive)) = (if pp_fileDone p then Some 0 else None)"
  "cq_drive (snd (fetchPage folderId search p asUsername drive)) = scope_drive folderId drive"
  "cq_includeUnassigned (snd (fetchPage folderId search p asUsername drive)) = scope_unassigned folderId drive"
  by (simp_all add: fetchPage_def page_query_def scope_drive_def scope_unassigned_def Let_def)

lemma find_name: "inj name \<Longrightarrow> k < n \<Longrightarrow> find (\<lambda>j. name j = name k) [0..<n] = Some k"
  unfolding find_Some_iff by (intro exI [of _ k]) (auto simp: inj_eq)

text \<open>The parameters and the pages of the \<open>k\<close>-th request.\<close>

definition nth_cursor :: "nat \<Rightarrow> (nat \<Rightarrow> string) \<Rightarrow> nat \<Rightarrow> string option" where
  "nth_cursor n name k = (if k = 0 \<or> n \<le> k then None else Some (name k))"

definition nth_param :: "nat \<Rightarrow> nat \<Rightarrow> (nat \<Rightarrow> string) \<Rightarrow> nat \<Rightarrow> page_param" where
  "nth_param nd nf name k = \<lparr>pp_folderCursor = nth_cursor nd name k, pp_fileCursor = nth_cursor nf name k,
     pp_folderDone = (nd \<le> k), pp_fileDone = (nf \<le> k)\<rparr>"

definition nth_page :: "'a list list \<Rightarrow> nat \<Rightarrow> 'a list" where
  "nth_page pgs k = (if k < length pgs then pgs ! k else [])"

lemma serve_list_nth:
  assumes "inj name"
  shows "serve_list pgs name (if length pgs \<le> k then Some 0 else None) (if length pgs \<le> k then None else nth_cursor (length pgs) name k) =
    (nth_page pgs k, if Suc k < length pgs then Some (name (Suc k)) else None)"
proof (cases "length pgs \<le> k")
  case False
  then have "(case nth_cursor (length pgs) name k of None \<Rightarrow> 0
     | Some c \<Rightarrow> (case find (\<lambda>j. name j = c) [0..<length pgs] of None \<Rightarrow> length pgs | Some j \<Rightarrow> j)) = k"
    using find_name [OF assms, of k "length pgs"] by (simp add: nth_cursor_def)
  with False show ?thesis by (simp add: serve_list_def nth_page_def)
qed (simp add: serve_list_def nth_page_def)

text \<open>The server a listing reads, and the page it gets for its \<open>k\<close>-th request.\<close>

lemma serve_nth:
  assumes "inj name"
    and "store (listed_endpoint folderId search asUsername) (scope_drive folderId drive) (scope_unassigned folderId drive) = (dps, fps)"
  shows "serve_contents store name (fetchPage folderId search (nth_param (length dps) (length fps) name k) asUsername drive) =
    \<lparr>ct_folders = nth_page dps k, ct_folderToken = if Suc k < length dps then Some (name (Suc k)) else None,
     ct_files = nth_page fps k, ct_fileToken = if Suc k < length fps then Some (name (Suc k)) else None\<rparr>"
  using serve_list_nth [OF assms(1), of dps k] serve_list_nth [OF assms(1), of fps k] assms(2)
  by (cases "length dps \<le> k"; cases "length fps \<le> k")
    (simp_all add: serve_contents_def fetchPage_endpoint fetchPage_query nth_param_def)

lemma next_param_nth:
  assumes "\<And>k. name k \<noteq> []"
  shows "nextParam
      \<lparr>ct_folders = ds, ct_folderToken = if Suc k < nd then Some (name (Suc k)) else None,
       ct_files = fs, ct_fileToken = if Suc k < nf then Some (name (Suc k)) else None\<rparr> (nth_param nd nf name k) =
    (if Suc k < max nd nf then Some (nth_param nd nf name (Suc k)) else None)"
  using assms
  by (auto simp: nth_param_def nextParam_def next_token_def falsy_def nth_cursor_def Let_def)

lemma read_pages_nth:
  assumes "\<And>k. nextParam (serve (fetch (param k))) (param k) = (if Suc k < m then Some (param (Suc k)) else None)"
  shows "k < m \<Longrightarrow> m - k \<le> fuel \<Longrightarrow>
    read_pages fetch serve fuel (param k) =
      Some (map (\<lambda>k. fetch (param k)) [k..<m], map (\<lambda>k. serve (fetch (param k))) [k..<m])"
proof (induction fuel arbitrary: k)
  case 0
  then show ?case by linarith
next
  case (Suc fuel)
  have split: "[k..<m] = k # [Suc k..<m]" using Suc.prems(1) by (rule upt_conv_Cons)
  show ?case
  proof (cases "Suc k < m")
    case True
    with Suc.prems have "m - Suc k \<le> fuel" by linarith
    from Suc.IH [OF True this] show ?thesis
      using True unfolding split by (simp add: assms Let_def)
  next
    case False
    then have "[Suc k..<m] = []" by (intro upt_conv_Nil) linarith
    moreover have "nextParam (serve (fetch (param k))) (param k) = None" using False assms by simp
    ultimately show ?thesis unfolding split by (simp add: Let_def del: upt_Suc)
  qed
qed

lemma query_nth:
  assumes "\<And>k. name k \<noteq> []" "k < max nd nf"
  shows "cq_groupLimit (snd (fetchPage folderId search (nth_param nd nf name k) asUsername drive)) =
    (if falsy asUsername \<and> search \<noteq> [] \<and> 0 < k then Some 0 else None)"
  using assms by (auto simp: fetchPage_def page_query_def nth_param_def nth_cursor_def falsy_def Let_def)

lemma concat_nth_pages: "length pgs \<le> n \<Longrightarrow> concat (map (nth_page pgs) [0..<n]) = concat pgs"
proof -
  assume le: "length pgs \<le> n"
  then have "[0..<n] = [0..<length pgs] @ [length pgs..<n]"
    by (metis le_add_diff_inverse upt_add_eq_append zero_le)
  moreover have "map (nth_page pgs) [0..<length pgs] = pgs"
    by (rule nth_equalityI) (simp_all add: nth_page_def)
  moreover have "concat (map (nth_page pgs) [length pgs..<n]) = []" by (auto simp: nth_page_def)
  ultimately show ?thesis by simp
qed

text \<open>
  C32. The endless listing shows everything exactly once: against an endpoint that pages both
  lists by the limits and cursors of the queries it is sent, following the pages to the end makes as
  many requests as the longer list has pages, all to the endpoint of the folder, the search or the
  viewed user, and the subfolders and the files received are the two complete lists in order. Each list is
  asked for without a limit while it has pages, and with limit 0 in every request after its last page, so
  a finished list is not read again; and the groups of a search are asked for with the first page only.
\<close>

theorem contents_complete:
  assumes "inj name" and "\<And>k. name k \<noteq> []" and "dps \<noteq> []" and "fps \<noteq> []"
    and "store (listed_endpoint folderId search asUsername) (scope_drive folderId drive) (scope_unassigned folderId drive) = (dps, fps)"
  shows "\<exists>rs pgs. read_pages (\<lambda>p. fetchPage folderId search p asUsername drive) (serve_contents store name)
      (max (length dps) (length fps)) INITIAL_PARAM = Some (rs, pgs) \<and>
    length rs = max (length dps) (length fps) \<and> length pgs = max (length dps) (length fps) \<and>
    concat (map ct_folders pgs) = concat dps \<and> concat (map ct_files pgs) = concat fps \<and>
    (\<forall>k < length rs. fst (rs ! k) = listed_endpoint folderId search asUsername
       \<and> cq_folderLimit (snd (rs ! k)) = (if length dps \<le> k then Some 0 else None)
       \<and> cq_fileLimit (snd (rs ! k)) = (if length fps \<le> k then Some 0 else None)
       \<and> cq_groupLimit (snd (rs ! k)) = (if falsy asUsername \<and> search \<noteq> [] \<and> 0 < k then Some 0 else None))"
proof -
  let ?m = "max (length dps) (length fps)" and ?p = "nth_param (length dps) (length fps) name"
  let ?fetch = "\<lambda>p. fetchPage folderId search p asUsername drive" and ?serve = "serve_contents store name"
  have m: "0 < ?m" using assms(3) by (cases dps) auto
  note page = serve_nth [where name = name and store = store and folderId = folderId and search = search
    and asUsername = asUsername and drive = drive, OF assms(1,5)]
  have step: "nextParam (?serve (?fetch (?p k))) (?p k) = (if Suc k < ?m then Some (?p (Suc k)) else None)" for k
    unfolding page by (rule next_param_nth [OF assms(2)])
  have "INITIAL_PARAM = ?p 0"
    using assms(3,4) by (auto simp: INITIAL_PARAM_def nth_param_def nth_cursor_def)
  then have run: "read_pages ?fetch ?serve ?m INITIAL_PARAM =
      Some (map (\<lambda>k. ?fetch (?p k)) [0..<?m], map (\<lambda>k. ?serve (?fetch (?p k))) [0..<?m])"
    using read_pages_nth [where param = ?p and serve = ?serve and fetch = ?fetch, OF step m, of ?m] by simp
  have shown: "concat (map ct_folders (map (\<lambda>k. ?serve (?fetch (?p k))) [0..<?m])) = concat dps"
    "concat (map ct_files (map (\<lambda>k. ?serve (?fetch (?p k))) [0..<?m])) = concat fps"
    unfolding map_map comp_def page by (simp_all add: concat_nth_pages)
  have asked: "fst (?fetch (?p k)) = listed_endpoint folderId search asUsername
       \<and> cq_folderLimit (snd (?fetch (?p k))) = (if length dps \<le> k then Some 0 else None)
       \<and> cq_fileLimit (snd (?fetch (?p k))) = (if length fps \<le> k then Some 0 else None)
       \<and> cq_groupLimit (snd (?fetch (?p k))) = (if falsy asUsername \<and> search \<noteq> [] \<and> 0 < k then Some 0 else None)"
    if "k < ?m" for k
    using query_nth [OF assms(2) that] by (simp add: fetchPage_endpoint fetchPage_query nth_param_def)
  show ?thesis
    by (rule exI, rule exI, rule conjI [OF run], intro conjI shown) (use asked in simp_all)
qed

definition demo_name :: "nat \<Rightarrow> string" where
  "demo_name k = replicate (Suc k) CHR ''t''"

definition demo_store :: "(nat, string) contents_store" where
  "demo_store e d u = (if e = GetFolder ''x'' then ([[1, 2], [3]], [[''a'']]) else ([], []))"

theorem contents_complete_witness:
  "\<exists>rs pgs. read_pages (\<lambda>p. fetchPage ''x'' [] p None None) (serve_contents demo_store demo_name) 2 INITIAL_PARAM = Some (rs, pgs) \<and>
     concat (map ct_folders pgs) = [1, 2, 3] \<and> concat (map ct_files pgs) = [''a'']"
proof -
  have inj: "inj demo_name" by (rule injI) (metis demo_name_def length_replicate old.nat.inject)
  have name: "demo_name k \<noteq> []" for k by (simp add: demo_name_def)
  have store: "demo_store (listed_endpoint ''x'' [] None) (scope_drive ''x'' None) (scope_unassigned ''x'' None)
      = ([[1, 2], [3]], [[''a'']])"
    by (simp add: demo_store_def listed_endpoint_def falsy_def ROOT_def)
  have "max (length [[1::nat, 2], [3]]) (length [[''a'']]) = 2" "concat [[1::nat, 2], [3]] = [1, 2, 3]" "concat [[''a'']] = [''a'']"
    by simp_all
  with contents_complete [where name = demo_name and store = demo_store and folderId = "''x''" and search = "[]"
    and asUsername = None and drive = None, OF inj name _ _ store] show ?thesis by (metis list.distinct(1))
qed

end
