(* ===== verification/MetricsStream.thy ===== *)
theory MetricsStream
  imports Prelude
begin

text \<open>
  The live metrics of the admin page, \<open>frontend/src/hooks/useMetricsStream.ts\<close>: a WebSocket that
  reconnects with a growing delay and keeps the last 720 frames, as a machine over the events of
  its sockets, its timers and its \<open>paused\<close> argument.
\<close>

definition MAX_SNAPSHOTS :: nat where "MAX_SNAPSHOTS = 720"

text \<open>
  \<open>sm_live\<close> are the sockets that are not closed yet (one that \<open>close()\<close> was called on is in
  \<open>sm_closing\<close> until its close event), \<open>sm_timers\<close> the delays of the armed reconnect timers.
\<close>

record 'f stream =
  sm_cancelled :: bool
  sm_delay :: nat
  sm_next :: nat
  sm_live :: "nat list"
  sm_closing :: "nat list"
  sm_ref :: "nat option"
  sm_timers :: "nat list"
  sm_frames :: "'f list"
  sm_connected :: bool

definition connect :: "'f stream \<Rightarrow> 'f stream" where
  "connect s =
     (if sm_cancelled s then s
      else s\<lparr>sm_live := sm_live s @ [sm_next s], sm_ref := Some (sm_next s), sm_next := sm_next s + 1\<rparr>)"

definition close_socket :: "nat \<Rightarrow> 'f stream \<Rightarrow> 'f stream" where
  "close_socket w s =
     (if w \<in> set (sm_live s) then s\<lparr>sm_live := remove1 w (sm_live s), sm_closing := sm_closing s @ [w]\<rparr> else s)"

definition close_ref :: "'f stream \<Rightarrow> 'f stream" where
  "close_ref s = (case sm_ref s of None \<Rightarrow> s | Some w \<Rightarrow> (close_socket w s)\<lparr>sm_ref := None\<rparr>)"

text \<open>The clean-up of the effect, and its body for either value of \<open>paused\<close>.\<close>

definition stream_cleanup :: "'f stream \<Rightarrow> 'f stream" where
  "stream_cleanup s = close_ref (s\<lparr>sm_cancelled := True\<rparr>)"

definition stream_effect :: "bool \<Rightarrow> 'f stream \<Rightarrow> 'f stream" where
  "stream_effect paused s =
     (if paused then (close_ref (s\<lparr>sm_cancelled := True\<rparr>))\<lparr>sm_connected := False\<rparr>
      else connect (s\<lparr>sm_cancelled := False, sm_delay := 1000\<rparr>))"

definition on_open :: "'f stream \<Rightarrow> 'f stream" where
  "on_open s = (if \<not> sm_cancelled s then s\<lparr>sm_connected := True, sm_delay := 1000\<rparr> else s)"

text \<open>A message that is no frame (unparsable, or without a \<open>cluster\<close>) is \<open>None\<close>.\<close>

definition on_message :: "'f option \<Rightarrow> 'f stream \<Rightarrow> 'f stream" where
  "on_message m s =
     (if sm_cancelled s then s
      else case m of
             None \<Rightarrow> s
           | Some frame \<Rightarrow>
               let nxt = sm_frames s @ [frame]
               in s\<lparr>sm_frames := (if length nxt > MAX_SNAPSHOTS then drop (length nxt - MAX_SNAPSHOTS) nxt else nxt)\<rparr>)"

definition on_close :: "nat \<Rightarrow> 'f stream \<Rightarrow> 'f stream" where
  "on_close w s =
     (let s1 = s\<lparr>sm_live := remove1 w (sm_live s), sm_closing := remove1 w (sm_closing s)\<rparr> in
      if \<not> sm_cancelled s1 then
        s1\<lparr>sm_connected := False, sm_timers := sm_timers s1 @ [sm_delay s1],
           sm_delay := min (sm_delay s1 * 2) 30000\<rparr>
      else s1)"

definition fire_reconnect :: "nat \<Rightarrow> 'f stream \<Rightarrow> 'f stream" where
  "fire_reconnect d s = connect (s\<lparr>sm_timers := remove1 d (sm_timers s)\<rparr>)"

datatype 'f stream_event =
    SPaused bool | SOpen nat | SMessage nat "'f option" | SClose nat | SError nat | STimer nat

inductive stream_step :: "'f stream \<Rightarrow> 'f stream_event \<Rightarrow> 'f stream \<Rightarrow> bool" where
  paused: "stream_step s (SPaused b) (stream_effect b (stream_cleanup s))"
| opened: "w \<in> set (sm_live s) \<Longrightarrow> stream_step s (SOpen w) (on_open s)"
| message: "w \<in> set (sm_live s) \<Longrightarrow> stream_step s (SMessage w m) (on_message m s)"
| closed: "w \<in> set (sm_live s) \<union> set (sm_closing s) \<Longrightarrow> stream_step s (SClose w) (on_close w s)"
| failed: "w \<in> set (sm_live s) \<Longrightarrow> stream_step s (SError w) (close_socket w s)"
| timer: "d \<in> set (sm_timers s) \<Longrightarrow> stream_step s (STimer d) (fire_reconnect d s)"

inductive_cases stream_stepE: "stream_step s e s'"

definition mounted :: "'f stream" where
  "mounted = stream_effect False \<lparr>sm_cancelled = False, sm_delay = 1000, sm_next = 0, sm_live = [], sm_closing = [],
     sm_ref = None, sm_timers = [], sm_frames = [], sm_connected = False\<rparr>"

inductive stream_run :: "'f stream_event list \<Rightarrow> 'f stream \<Rightarrow> bool" where
  start: "stream_run [] mounted"
| step: "stream_run es s \<Longrightarrow> stream_step s e s' \<Longrightarrow> stream_run (es @ [e]) s'"

lemmas stream_defs = stream_effect_def stream_cleanup_def close_ref_def close_socket_def connect_def on_open_def
  on_message_def on_close_def fire_reconnect_def Let_def

definition stream_inv :: "'f stream \<Rightarrow> bool" where
  "stream_inv s \<longleftrightarrow> 1000 \<le> sm_delay s \<and> sm_delay s \<le> 30000 \<and> (\<forall>d \<in> set (sm_timers s). 1000 \<le> d \<and> d \<le> 30000) \<and>
     length (sm_frames s) \<le> MAX_SNAPSHOTS"

lemma stream_inv_step: "stream_step s e s' \<Longrightarrow> stream_inv s \<Longrightarrow> stream_inv s'"
  by (erule stream_stepE)
     (auto simp: stream_inv_def stream_defs MAX_SNAPSHOTS_def split: option.splits if_splits dest: notin_set_remove1)

lemma stream_run_inv: "stream_run es s \<Longrightarrow> stream_inv s"
proof (induction rule: stream_run.induct)
  case start
  show ?case by (simp add: mounted_def stream_inv_def stream_defs)
next
  case (step es s e s')
  then show ?case using stream_inv_step by blast
qed

text \<open>The frames of the messages a run took while it was not paused.\<close>

fun frames_of :: "'f stream_event list \<Rightarrow> 'f list" where
  "frames_of [] = []"
| "frames_of (SMessage w (Some x) # es) = x # frames_of es"
| "frames_of (_ # es) = frames_of es"

lemma frames_of_append: "frames_of (es @ es') = frames_of es @ frames_of es'"
  by (induction es rule: frames_of.induct) simp_all

definition keep_last :: "nat \<Rightarrow> 'a list \<Rightarrow> 'a list" where
  "keep_last n xs = drop (length xs - n) xs"

lemma keep_last_snoc: "0 < n \<Longrightarrow> keep_last n (keep_last n xs @ [x]) = keep_last n (xs @ [x])"
  by (cases "length xs \<le> n") (auto simp: keep_last_def Suc_diff_le)

text \<open>
  The stream keeps a bounded window and retries politely: in every run that is never paused
  the frames shown are exactly the last 720 received, and in any run each reconnect waits between
  one and thirty seconds.
\<close>

theorem stream_window:
  assumes "stream_run es s"
  shows "(\<forall>d \<in> set (sm_timers s). 1000 \<le> d \<and> d \<le> 30000) \<and> length (sm_frames s) \<le> MAX_SNAPSHOTS \<and>
    ((\<forall>b. SPaused b \<notin> set es) \<longrightarrow> sm_frames s = keep_last MAX_SNAPSHOTS (frames_of es))"
proof -
  have "(\<forall>b. SPaused b \<notin> set es) \<longrightarrow> \<not> sm_cancelled s \<and> sm_frames s = keep_last MAX_SNAPSHOTS (frames_of es)"
    using assms
  proof (induction rule: stream_run.induct)
    case start
    show ?case by (simp add: mounted_def stream_defs keep_last_def)
  next
    case (step es s e s')
    show ?case
    proof
      assume np: "\<forall>b. SPaused b \<notin> set (es @ [e])"
      with step.IH have IH: "\<not> sm_cancelled s" "sm_frames s = keep_last MAX_SNAPSHOTS (frames_of es)" by auto
      from step.hyps(2) np show "\<not> sm_cancelled s' \<and> sm_frames s' = keep_last MAX_SNAPSHOTS (frames_of (es @ [e]))"
      proof cases
        case (message w m)
        have "0 < MAX_SNAPSHOTS" by (simp add: MAX_SNAPSHOTS_def)
        note k = keep_last_snoc [OF this, of "frames_of es"]
        show ?thesis
        proof (cases m)
          case (Some x)
          have "sm_frames s' = keep_last MAX_SNAPSHOTS (sm_frames s @ [x])"
            using IH(1) message Some by (simp add: on_message_def keep_last_def Let_def)
          with IH message Some k show ?thesis by (simp add: frames_of_append on_message_def Let_def)
        qed (use IH message in \<open>simp add: frames_of_append on_message_def\<close>)
      qed (use IH in \<open>auto simp: frames_of_append stream_defs\<close>)
    qed
  qed
  with stream_run_inv [OF assms] show ?thesis by (simp add: stream_inv_def)
qed

theorem stream_window_witness:
  "\<exists>s. stream_run [SMessage 0 (Some ''f'')] s \<and> sm_frames s = keep_last MAX_SNAPSHOTS [''f'']"
proof -
  have "stream_run ([] @ [SMessage 0 (Some ''f'')]) (on_message (Some ''f'') mounted)"
    by (rule stream_run.step [OF stream_run.start stream_step.message]) (simp add: mounted_def stream_defs)
  then have run: "stream_run [SMessage 0 (Some ''f'')] (on_message (Some ''f'') mounted)" by simp
  with stream_window [OF run] show ?thesis by auto
qed

text \<open>
  Pausing does not disarm the reconnect timer: after a lost connection, pausing and resuming
  before the timer fires leaves two live sockets at once, only one of which the hook still
  refers to, and both deliver frames.
\<close>

theorem pause_leaks_socket:
  "\<exists>(s :: string stream). stream_run [SClose 0, SPaused True, SPaused False, STimer 1000] s \<and>
     length (sm_live s) = 2 \<and> \<not> sm_cancelled s \<and> (\<exists>w \<in> set (sm_live s). sm_ref s \<noteq> Some w)"
proof -
  let ?m = "mounted :: string stream"
  let ?s1 = "on_close 0 ?m"
  let ?s2 = "stream_effect True (stream_cleanup ?s1)"
  let ?s3 = "stream_effect False (stream_cleanup ?s2)"
  let ?s4 = "fire_reconnect 1000 ?s3"
  have "stream_run ([] @ [SClose 0]) ?s1"
    by (rule stream_run.step [OF stream_run.start stream_step.closed]) (simp add: mounted_def stream_defs)
  then have "stream_run (([] @ [SClose 0]) @ [SPaused True]) ?s2" by (rule stream_run.step [OF _ stream_step.paused])
  then have "stream_run ((([] @ [SClose 0]) @ [SPaused True]) @ [SPaused False]) ?s3"
    by (rule stream_run.step [OF _ stream_step.paused])
  then have "stream_run (((([] @ [SClose 0]) @ [SPaused True]) @ [SPaused False]) @ [STimer 1000]) ?s4"
    by (rule stream_run.step [OF _ stream_step.timer]) (simp add: mounted_def stream_defs)
  moreover have "length (sm_live ?s4) = 2 \<and> \<not> sm_cancelled ?s4 \<and> (\<exists>w \<in> set (sm_live ?s4). sm_ref ?s4 \<noteq> Some w)"
    by (simp add: mounted_def stream_defs)
  ultimately show ?thesis by (intro exI [of _ ?s4]) simp
qed

end
