(* ===== verification/VirtualGrid.thy ===== *)
theory VirtualGrid
  imports Prelude
begin

text \<open>
  Which cells of a long grid are rendered, \<open>frontend/src/hooks/useVirtualGrid.ts\<close>. Lengths in pixels
  are exact rationals; \<open>scrolledPast\<close> is the negated top of the container.
\<close>

record grid_input =
  gi_itemCount :: nat
  gi_cols :: int
  gi_rowHeight :: rat
  gi_gap :: rat
  gi_overscan :: rat

record grid_window =
  gw_startIndex :: nat
  gw_endIndex :: nat
  gw_stride :: rat
  gw_totalHeight :: rat
  gw_rowCount :: nat

definition safeCols :: "grid_input \<Rightarrow> nat" where
  "safeCols g = nat (max 1 (gi_cols g))"

definition grid_stride :: "grid_input \<Rightarrow> rat" where
  "grid_stride g = max 1 (gi_rowHeight g + gi_gap g)"

text \<open>\<open>Math.ceil(itemCount / safeCols)\<close>\<close>

definition grid_rows :: "grid_input \<Rightarrow> nat" where
  "grid_rows g = nat \<lceil>of_nat (gi_itemCount g) / of_nat (safeCols g) :: rat\<rceil>"

definition measure_start :: "grid_input \<Rightarrow> rat \<Rightarrow> rat \<Rightarrow> nat" where
  "measure_start g viewport scrolledPast =
     nat (max 0 \<lfloor>(scrolledPast - viewport * gi_overscan g) / grid_stride g\<rfloor>)"

definition measure_end :: "grid_input \<Rightarrow> rat \<Rightarrow> rat \<Rightarrow> nat" where
  "measure_end g viewport scrolledPast =
     min (grid_rows g) (nat (max 0 \<lceil>(scrolledPast + viewport + viewport * gi_overscan g) / grid_stride g\<rceil>))"

definition useVirtualGrid :: "grid_input \<Rightarrow> nat \<times> nat \<Rightarrow> grid_window" where
  "useVirtualGrid g rows =
     \<lparr>gw_startIndex = fst rows * safeCols g, gw_endIndex = min (gi_itemCount g) (snd rows * safeCols g),
      gw_stride = grid_stride g,
      gw_totalHeight = (if 0 < grid_rows g then of_nat (grid_rows g) * grid_stride g - gi_gap g else 0),
      gw_rowCount = grid_rows g\<rparr>"

definition grid_measure :: "grid_input \<Rightarrow> rat \<Rightarrow> rat \<Rightarrow> grid_window" where
  "grid_measure g viewport scrolledPast =
     useVirtualGrid g (measure_start g viewport scrolledPast, measure_end g viewport scrolledPast)"

section \<open>Properties\<close>

lemma safeCols_pos: "0 < safeCols g"
  by (simp add: safeCols_def)

lemma stride_pos: "1 \<le> grid_stride g"
  by (simp add: grid_stride_def)

text \<open>The rows are just enough for the items.\<close>

lemma grid_rows_enough: "gi_itemCount g \<le> grid_rows g * safeCols g"
proof -
  have c: "(0 :: rat) < of_nat (safeCols g)" using safeCols_pos by simp
  have "(of_nat (gi_itemCount g) / of_nat (safeCols g) :: rat) \<le> of_nat (grid_rows g)"
    unfolding grid_rows_def by (rule of_nat_ceiling)
  then have "(of_nat (gi_itemCount g) :: rat) \<le> of_nat (grid_rows g) * of_nat (safeCols g)"
    using c by (simp add: divide_le_eq)
  then have "(of_nat (gi_itemCount g) :: rat) \<le> of_nat (grid_rows g * safeCols g)" by simp
  then show ?thesis by (simp only: of_nat_le_iff)
qed

text \<open>A cell is on screen when its row reaches into the viewport.\<close>

definition on_screen :: "grid_input \<Rightarrow> rat \<Rightarrow> rat \<Rightarrow> nat \<Rightarrow> bool" where
  "on_screen g viewport scrolledPast i \<longleftrightarrow> i < gi_itemCount g \<and>
     (let y = of_nat (i div safeCols g) * grid_stride g
      in y < scrolledPast + viewport \<and> scrolledPast < y + gi_rowHeight g)"

text \<open>
  Nothing on screen is missing and little else is rendered: every cell that reaches into the
  viewport lies in the rendered range, the range stays within the items, and it spans at most the
  viewport and its overscan on both sides, plus two rows.
\<close>

theorem grid_covers_viewport:
  assumes "0 \<le> viewport" and "0 \<le> gi_overscan g" and "0 \<le> gi_gap g"
  shows "(on_screen g viewport y i \<longrightarrow>
      gw_startIndex (grid_measure g viewport y) \<le> i \<and> i < gw_endIndex (grid_measure g viewport y)) \<and>
    gw_endIndex (grid_measure g viewport y) \<le> gi_itemCount g \<and>
    (of_nat (measure_end g viewport y) :: rat) \<le>
      of_nat (measure_start g viewport y) + viewport * (1 + 2 * gi_overscan g) / grid_stride g + 2"
proof (intro conjI impI)
  let ?c = "safeCols g" and ?s = "grid_stride g" and ?b = "viewport * gi_overscan g"
  let ?lo = "(y - ?b) / ?s" and ?hi = "(y + viewport + ?b) / ?s"
  have s: "0 < ?s" and b: "0 \<le> ?b" using stride_pos [of g] assms by simp_all
  {
    assume vis: "on_screen g viewport y i"
    let ?r = "i div ?c"
    have i: "i < gi_itemCount g" and r: "of_nat ?r * ?s < y + viewport" "y < of_nat ?r * ?s + gi_rowHeight g"
      using vis by (simp_all add: on_screen_def Let_def)
    have "gi_rowHeight g \<le> ?s" using assms(3) by (simp add: grid_stride_def max_def)
    then have "y - ?b < (of_nat ?r + 1) * ?s" using r(2) b by (simp add: distrib_right)
    then have "?lo < of_nat ?r + 1" using s by (simp add: divide_less_eq)
    then have "\<lfloor>?lo\<rfloor> \<le> int ?r" by (simp add: floor_le_iff)
    then have "measure_start g viewport y \<le> ?r" by (simp add: measure_start_def)
    then have "measure_start g viewport y * ?c \<le> ?r * ?c" by simp
    also have "\<dots> \<le> i" by simp
    finally show "gw_startIndex (grid_measure g viewport y) \<le> i" by (simp add: grid_measure_def useVirtualGrid_def)
    have "of_nat ?r * ?s < y + viewport + ?b" using r(1) b by simp
    then have "of_nat ?r < ?hi" using s by (simp add: less_divide_eq)
    then have "int ?r < \<lceil>?hi\<rceil>" by (simp add: less_ceiling_iff)
    moreover have "?r < grid_rows g"
      using i grid_rows_enough [of g] by (simp add: less_mult_imp_div_less)
    ultimately have "?r < measure_end g viewport y" by (simp add: measure_end_def)
    then have "Suc ?r * ?c \<le> measure_end g viewport y * ?c" by (intro mult_le_mono1) simp
    moreover have "i < Suc ?r * ?c"
      using safeCols_pos [of g] by (metis dividend_less_div_times mult.commute mult_Suc)
    ultimately show "i < gw_endIndex (grid_measure g viewport y)"
      using i by (simp add: grid_measure_def useVirtualGrid_def)
  }
  show "gw_endIndex (grid_measure g viewport y) \<le> gi_itemCount g" by (simp add: grid_measure_def useVirtualGrid_def)
  have "(of_nat (measure_start g viewport y) :: rat) \<ge> of_int \<lfloor>?lo\<rfloor>"
    by (simp add: measure_start_def)
  then have lo: "?lo \<le> of_nat (measure_start g viewport y) + 1" by linarith
  have start0: "(0 :: rat) \<le> of_nat (measure_start g viewport y)" by simp
  have "?hi - ?lo = viewport * (1 + 2 * gi_overscan g) / ?s"
    by (simp add: diff_divide_distrib [symmetric] algebra_simps)
  moreover have "0 \<le> viewport * (1 + 2 * gi_overscan g) / ?s" using assms s by simp
  moreover have "(of_nat (measure_end g viewport y) :: rat) \<le> max 0 (of_int \<lceil>?hi\<rceil>)"
  proof -
    have "measure_end g viewport y \<le> nat (max 0 \<lceil>?hi\<rceil>)" by (simp add: measure_end_def)
    then have "(of_nat (measure_end g viewport y) :: rat) \<le> of_nat (nat (max 0 \<lceil>?hi\<rceil>))" by simp
    then show ?thesis by (simp add: of_nat_nat max_def split: if_splits)
  qed
  moreover have "of_int \<lceil>?hi\<rceil> \<le> ?hi + 1" by linarith
  ultimately show "(of_nat (measure_end g viewport y) :: rat) \<le>
      of_nat (measure_start g viewport y) + viewport * (1 + 2 * gi_overscan g) / ?s + 2"
    using lo start0 by linarith
qed

theorem grid_covers_viewport_witness:
  "let g = \<lparr>gi_itemCount = 100, gi_cols = 4, gi_rowHeight = 90, gi_gap = 10, gi_overscan = 2\<rparr>
   in gw_startIndex (grid_measure g 500 0) \<le> 5 \<and> 5 < gw_endIndex (grid_measure g 500 0)"
proof -
  let ?g = "\<lparr>gi_itemCount = 100, gi_cols = 4, gi_rowHeight = 90, gi_gap = 10, gi_overscan = 2\<rparr>"
  have "on_screen ?g 500 0 5" by (simp add: on_screen_def safeCols_def grid_stride_def)
  with grid_covers_viewport [of 500 ?g 0 5] show ?thesis by simp
qed

end
