(* ===== verification/Pricing.thy ===== *)
theory Pricing
  imports Prelude
begin

text \<open>
  The price a client shows for a storage plan, \<open>frontend/src/api/pricing.ts\<close>: which of the
  administrator's discounts applies to a line item, what it costs then, and the badge percentage.
  Cents are integers; the percentage of a discount may be any number. A time stamp is the string the
  server sends; \<open>date_ms\<close> is the reading of it by \<open>new Date(s)\<close> (\<open>None\<close>
  for an invalid date, whose comparisons are all false).
\<close>

datatype discount_scope = ServerScope | TierScope | ItemScope
datatype discount_mode = PercentMode | PriceMode

record pricing_item =
  pi_id :: string
  pi_server_id :: string
  pi_storage_type :: string
  pi_bytes :: nat
  pi_price_cents :: int
  pi_sort_order :: int
  pi_created_at :: string
  pi_updated_at :: string

record pricing_discount =
  pd_id :: string
  pd_scope :: discount_scope
  pd_server_id :: string
  pd_storage_type :: "string option"
  pd_item_id :: "string option"
  pd_mode :: discount_mode
  pd_percent_off :: "rat option"
  pd_price_cents :: "int option"
  pd_premium_only :: bool
  pd_expires_at :: "string option"
  pd_notify_group :: "string option"
  pd_created_by :: string
  pd_created_at :: string

text \<open>The ranks order the scopes, the most specific one first.\<close>

definition scopeRank :: "discount_scope \<Rightarrow> nat" where
  "scopeRank s = (case s of ItemScope \<Rightarrow> 0 | TierScope \<Rightarrow> 1 | ServerScope \<Rightarrow> 2)"

lemma scopeRank_inj: "scopeRank s = scopeRank t \<longleftrightarrow> s = t"
  by (auto simp: scopeRank_def split: discount_scope.splits)

instantiation discount_scope :: linorder
begin

definition less_eq_discount_scope :: "discount_scope \<Rightarrow> discount_scope \<Rightarrow> bool" where
  "s \<le> t \<longleftrightarrow> scopeRank s \<le> scopeRank t"

definition less_discount_scope :: "discount_scope \<Rightarrow> discount_scope \<Rightarrow> bool" where
  "s < t \<longleftrightarrow> scopeRank s < scopeRank t"

instance
  by standard (auto simp: less_eq_discount_scope_def less_discount_scope_def scopeRank_inj)

end

definition discountAppliesTo :: "pricing_discount \<Rightarrow> pricing_item \<Rightarrow> bool" where
  "discountAppliesTo d item =
     (if pd_scope d = ItemScope then pd_item_id d = Some (pi_id item)
      else if pd_scope d = TierScope then
        pd_server_id d = pi_server_id item \<and> pd_storage_type d = Some (pi_storage_type item)
      else pd_server_id d = pi_server_id item)"

definition discountActive :: "(string \<Rightarrow> int option) \<Rightarrow> pricing_discount \<Rightarrow> int \<Rightarrow> bool" where
  "discountActive date_ms d now =
     (case pd_expires_at d of
        None \<Rightarrow> True
      | Some s \<Rightarrow> s = [] \<or> (case date_ms s of None \<Rightarrow> False | Some t \<Rightarrow> now < t))"

text \<open>The loop of \<open>resolveDiscount\<close>, with the variable \<open>best\<close> as its accumulator.\<close>

fun resolve_loop ::
  "(string \<Rightarrow> int option) \<Rightarrow> pricing_item \<Rightarrow> int \<Rightarrow> pricing_discount option \<Rightarrow>
   pricing_discount list \<Rightarrow> pricing_discount option" where
  "resolve_loop date_ms item now best [] = best"
| "resolve_loop date_ms item now best (d # ds) =
     (if \<not> discountActive date_ms d now \<or> \<not> discountAppliesTo d item
      then resolve_loop date_ms item now best ds
      else
        (case best of
           None \<Rightarrow> resolve_loop date_ms item now (Some d) ds
         | Some b \<Rightarrow>
             if scopeRank (pd_scope d) < scopeRank (pd_scope b)
             then resolve_loop date_ms item now (Some d) ds
             else resolve_loop date_ms item now best ds))"

definition resolveDiscount ::
  "(string \<Rightarrow> int option) \<Rightarrow> pricing_item \<Rightarrow> pricing_discount list \<Rightarrow> int \<Rightarrow> pricing_discount option"
where
  "resolveDiscount date_ms item discounts now = resolve_loop date_ms item now None discounts"

definition discountedCents :: "pricing_discount \<Rightarrow> int \<Rightarrow> int" where
  "discountedCents d baseCents =
     (if pd_mode d = PercentMode
      then \<lfloor>(of_int baseCents * (100 - or_else (pd_percent_off d) 0) + 50) / 100\<rfloor>
      else min (or_else (pd_price_cents d) baseCents) baseCents)"

definition discountPercentFor :: "pricing_discount \<Rightarrow> int \<Rightarrow> rat" where
  "discountPercentFor d baseCents =
     (if pd_mode d = PercentMode then or_else (pd_percent_off d) 0
      else if baseCents \<le> 0 then 0
      else of_int (js_round (of_int ((baseCents - discountedCents d baseCents) * 100) / of_int baseCents)))"

section \<open>Choosing the discount\<close>

text \<open>The discounts the loop does not skip.\<close>

definition candidates ::
  "(string \<Rightarrow> int option) \<Rightarrow> pricing_item \<Rightarrow> int \<Rightarrow> pricing_discount list \<Rightarrow> pricing_discount list" where
  "candidates date_ms item now ds =
     filter (\<lambda>d. discountActive date_ms d now \<and> discountAppliesTo d item) ds"

text \<open>The first of the elements with the smallest key.\<close>

fun first_min :: "('a \<Rightarrow> 'k::linorder) \<Rightarrow> 'a list \<Rightarrow> 'a option" where
  "first_min k [] = None"
| "first_min k (x # xs) =
     (case first_min k xs of
        None \<Rightarrow> Some x
      | Some y \<Rightarrow> if k y < k x then Some y else Some x)"

lemma first_min_none [simp]: "first_min k xs = None \<longleftrightarrow> xs = []"
  by (cases xs) (auto split: option.splits)

lemma first_min_some:
  "first_min k xs = Some y \<Longrightarrow>
     \<exists>us vs. xs = us @ y # vs \<and> (\<forall>u \<in> set us. k y < k u) \<and> (\<forall>v \<in> set vs. k y \<le> k v)"
proof (induction xs arbitrary: y)
  case (Cons x xs)
  show ?case
  proof (cases "first_min k xs")
    case None
    with Cons.prems show ?thesis by (intro exI [of _ "[]"] exI [of _ xs]) simp
  next
    case (Some z)
    from Cons.IH [OF Some] obtain us vs where
      z: "xs = us @ z # vs" "\<forall>u \<in> set us. k z < k u" "\<forall>v \<in> set vs. k z \<le> k v" by blast
    show ?thesis
    proof (cases "k z < k x")
      case True
      with Some Cons.prems have "y = z" by simp
      with True z show ?thesis by (intro exI [of _ "x # us"] exI [of _ vs]) simp
    next
      case False
      with Some Cons.prems have "y = x" by simp
      moreover have "k x \<le> k v" if "v \<in> set xs" for v
      proof -
        from that z have "k z \<le> k v" by auto
        with False show ?thesis by (meson leI order_trans)
      qed
      ultimately show ?thesis by (intro exI [of _ "[]"] exI [of _ xs]) simp
    qed
  qed
qed simp

lemma resolve_loop_eq:
  "resolve_loop date_ms item now best ds =
     (case best of
        None \<Rightarrow> first_min pd_scope (candidates date_ms item now ds)
      | Some b \<Rightarrow> first_min pd_scope (b # candidates date_ms item now ds))"
proof (induction ds arbitrary: best)
  case Nil
  show ?case by (simp add: candidates_def split: option.splits)
next
  case (Cons d ds)
  have less: "s < t \<longleftrightarrow> scopeRank s < scopeRank t" for s t
    by (simp add: less_discount_scope_def)
  show ?case
    by (cases best)
       (auto simp: Cons candidates_def less split: option.splits)
qed

lemma resolve_first_min:
  "resolveDiscount date_ms item ds now = first_min pd_scope (candidates date_ms item now ds)"
  by (simp add: resolveDiscount_def resolve_loop_eq)

text \<open>\<open>resolveDiscount\<close> never stacks and always picks the most specific discount: the
  result is a discount of the list that is active and covers the item, every other such discount
  has a scope at least as wide, and those before it in the list have a strictly wider one (on a
  tie the first of the list wins). When there is no such discount there is no result.\<close>

theorem resolve_most_specific:
  "case resolveDiscount date_ms item ds now of
     None \<Rightarrow> filter (\<lambda>d. discountActive date_ms d now \<and> discountAppliesTo d item) ds = []
   | Some d \<Rightarrow>
       \<exists>us vs. filter (\<lambda>d. discountActive date_ms d now \<and> discountAppliesTo d item) ds = us @ d # vs
         \<and> list_all (\<lambda>u. scopeRank (pd_scope d) < scopeRank (pd_scope u)) us
         \<and> list_all (\<lambda>v. scopeRank (pd_scope d) \<le> scopeRank (pd_scope v)) vs"
proof (cases "resolveDiscount date_ms item ds now")
  case None
  then show ?thesis by (simp add: resolve_first_min candidates_def)
next
  case (Some d)
  from first_min_some [OF this [unfolded resolve_first_min]] Some show ?thesis
    by (simp add: candidates_def less_discount_scope_def less_eq_discount_scope_def list_all_iff)
qed

section \<open>The discounted price\<close>

lemma js_round_near: "\<bar>of_int (js_round x) - x\<bar> \<le> 1 / 2"
  unfolding js_round_def by linarith

lemma percent_cents_near:
  assumes "pd_mode d = PercentMode"
  shows "\<bar>of_int (discountedCents d base)
           - of_int base * (100 - or_else (pd_percent_off d) 0) / 100\<bar> \<le> (1 / 2 :: rat)"
proof -
  define x :: rat where "x = of_int base * (100 - or_else (pd_percent_off d) 0) / 100"
  have "discountedCents d base = js_round x"
    using assms by (simp add: discountedCents_def js_round_def x_def add_divide_distrib)
  with js_round_near [of x] show ?thesis by (simp add: x_def)
qed

lemma percent_cents_bounds:
  assumes "pd_mode d = PercentMode" "0 \<le> base"
    and p: "0 \<le> or_else (pd_percent_off d) 0" "or_else (pd_percent_off d) 0 \<le> 100"
  shows "0 \<le> discountedCents d base" "discountedCents d base \<le> base"
proof -
  define q where "q = 100 - or_else (pd_percent_off d) 0"
  have q: "0 \<le> q" "q \<le> 100" using p by (simp_all add: q_def)
  have b: "(0::rat) \<le> of_int base" using assms by simp
  have e: "discountedCents d base = \<lfloor>(of_int base * q + 50) / 100\<rfloor>"
    using assms by (simp add: discountedCents_def q_def)
  have "0 \<le> of_int base * q" using b q by simp
  then show "0 \<le> discountedCents d base" by (simp add: e)
  have "of_int base * q \<le> of_int base * 100" using b q by (intro mult_left_mono) auto
  then have "(of_int base * q + 50) / 100 < (of_int base + 1 :: rat)" by simp
  then show "discountedCents d base \<le> base" by (simp add: e floor_less_iff floor_le_iff)
qed

text \<open>The discounts the administrator's form admits: a percentage between 0 and 100, or a price
  that is not negative.\<close>

definition sane_discount :: "pricing_discount \<Rightarrow> bool" where
  "sane_discount d =
     (case pd_mode d of
        PercentMode \<Rightarrow> (case pd_percent_off d of None \<Rightarrow> True | Some p \<Rightarrow> 0 \<le> p \<and> p \<le> 100)
      | PriceMode \<Rightarrow> (case pd_price_cents d of None \<Rightarrow> True | Some c \<Rightarrow> 0 \<le> c))"

lemma sane_cents_bounds:
  assumes "sane_discount d" "0 \<le> base"
  shows "0 \<le> discountedCents d base" "discountedCents d base \<le> base"
proof -
  have "0 \<le> discountedCents d base \<and> discountedCents d base \<le> base"
  proof (cases "pd_mode d")
    case PercentMode
    with assms(1) have "0 \<le> or_else (pd_percent_off d) 0" "or_else (pd_percent_off d) 0 \<le> 100"
      by (auto simp: sane_discount_def split: option.splits)
    with percent_cents_bounds [OF PercentMode assms(2)] show ?thesis by blast
  next
    case PriceMode
    with assms show ?thesis
      by (auto simp: sane_discount_def discountedCents_def split: option.splits)
  qed
  then show "0 \<le> discountedCents d base" "discountedCents d base \<le> base" by auto
qed

lemma price_badge_near:
  assumes "pd_mode d = PriceMode" "0 < base"
  shows "\<bar>discountPercentFor d base
           - of_int ((base - discountedCents d base) * 100) / of_int base\<bar> \<le> 1 / 2"
proof -
  have "discountPercentFor d base
      = of_int (js_round (of_int ((base - discountedCents d base) * 100) / of_int base))"
    using assms by (simp add: discountPercentFor_def)
  then show ?thesis by (simp only: js_round_near)
qed

text \<open>A discount never marks an item up and never makes its price negative: for an admissible
  discount and a base price that is not negative, the discounted price lies between zero and the
  base price; a percentage is applied to the cent with rounding to nearest, and the badge of a
  reduced price is between 0 and 100 and within half a point of the true deduction.\<close>

theorem discount_never_marks_up:
  assumes "sane_discount d" "0 \<le> base"
  shows "0 \<le> discountedCents d base \<and> discountedCents d base \<le> base
    \<and> 0 \<le> discountPercentFor d base \<and> discountPercentFor d base \<le> 100
    \<and> (case pd_mode d of
         PercentMode \<Rightarrow>
           \<bar>of_int (discountedCents d base) - of_int base * (100 - discountPercentFor d base) / 100\<bar> \<le> 1 / 2
       | PriceMode \<Rightarrow>
           base = 0 \<or> \<bar>discountPercentFor d base
             - of_int ((base - discountedCents d base) * 100) / of_int base\<bar> \<le> 1 / 2)"
proof (cases "pd_mode d")
  case PercentMode
  have p: "discountPercentFor d base = or_else (pd_percent_off d) 0"
    using PercentMode by (simp add: discountPercentFor_def)
  moreover have "0 \<le> or_else (pd_percent_off d) 0" "or_else (pd_percent_off d) 0 \<le> 100"
    using assms(1) PercentMode by (auto simp: sane_discount_def split: option.splits)
  ultimately show ?thesis
    using sane_cents_bounds [OF assms] percent_cents_near [OF PercentMode, of base] PercentMode by simp
next
  case PriceMode
  note c = sane_cents_bounds [OF assms]
  show ?thesis
  proof (cases "base = 0")
    case True
    with PriceMode c show ?thesis by (simp add: discountPercentFor_def)
  next
    case False
    with assms have b: "0 < base" by simp
    define x :: rat where "x = of_int ((base - discountedCents d base) * 100) / of_int base"
    have e: "discountPercentFor d base = of_int (js_round x)"
      using b PriceMode by (simp add: discountPercentFor_def x_def)
    have "(base - discountedCents d base) * 100 \<le> base * 100" using c by simp
    then have "(of_int ((base - discountedCents d base) * 100) :: rat) \<le> of_int (base * 100)"
      by (simp only: of_int_le_iff)
    with b have "x \<le> of_int 100" by (simp add: x_def divide_le_eq)
    moreover have "0 \<le> x" using b c by (simp add: x_def)
    ultimately have "0 \<le> js_round x" "js_round x \<le> 100"
      using js_round_mono [of x "of_int 100"] by (simp_all only: js_round_of_int js_round_nonneg)
    then have "0 \<le> discountPercentFor d base" "discountPercentFor d base \<le> 100"
      unfolding e by simp_all
    with c price_badge_near [OF PriceMode b] PriceMode show ?thesis by simp
  qed
qed

definition half_off :: pricing_discount where
  "half_off = \<lparr>pd_id = ''d1'', pd_scope = ServerScope, pd_server_id = ''s1'', pd_storage_type = None,
     pd_item_id = None, pd_mode = PercentMode, pd_percent_off = Some 33, pd_price_cents = None,
     pd_premium_only = False, pd_expires_at = None,
     pd_notify_group = None, pd_created_by = ''admin'', pd_created_at = ''2026-01-01''\<rparr>"

lemma half_off_1999: "discountedCents half_off 1999 = 1339"
  by (simp add: half_off_def discountedCents_def floor_eq_iff)

theorem discount_never_marks_up_witness:
  "0 \<le> discountedCents half_off 1999 \<and> discountedCents half_off 1999 \<le> 1999
    \<and> discountedCents half_off 1999 = 1339"
proof -
  have "sane_discount half_off" by (simp add: sane_discount_def half_off_def)
  from discount_never_marks_up [OF this, of 1999] show ?thesis by (simp add: half_off_1999)
qed

end
