(* ===== verification/MathGame.thy ===== *)
theory MathGame
  imports JsNumber
begin

text \<open>
  The mental math game, \<open>frontend/src/routes/math-game.tsx\<close>: the questions on the mod-1000 scale,
  the timed test and the practice mode as a state machine, and the attempts it records. Numbers are
  exact rationals (the code compares two doubles that are both the nearest to a decimal with one
  digit after the point). The state is what the component keeps with \<open>useState\<close> and
  \<open>useRef\<close>; one step is one event (a click, a key, a second of the countdown, a reply of the
  server) with the effects React runs after it. \<open>Math.random()\<close> is a stream of draws the event
  brings along, and \<open>stamp\<close> renders a time stamp.
\<close>

definition QUESTIONS_PER_GAME :: nat where "QUESTIONS_PER_GAME = 10"
definition SECONDS_PER_QUESTION :: nat where "SECONDS_PER_QUESTION = 15"
definition MAX_STORED_ATTEMPTS :: nat where "MAX_STORED_ATTEMPTS = 20"

datatype operator = Plus | Minus

record question =
  q_a :: rat
  q_b :: rat
  q_op :: operator
  q_answer :: rat

record answer_record =
  ar_given :: "jsnum option"
  ar_correct :: bool
  ar_timedOut :: bool

record practice_record =
  pr_question :: question
  pr_given :: "jsnum option"
  pr_correct :: bool
  pr_timeMs :: int

record attempt =
  at_date :: string
  at_score :: nat
  at_total :: nat
  at_durationMs :: int

datatype phase = Idle | Playing | Done | Practice | PracticeDone

section \<open>Question generation\<close>

text \<open>A draw of \<open>Math.random()\<close> is at least 0 and below 1.\<close>

definition randInt :: "int \<Rightarrow> int \<Rightarrow> rat \<Rightarrow> int" where
  "randInt lo hi r = \<lfloor>r * of_int (hi - lo + 1)\<rfloor> + lo"

text \<open>\<open>%\<close> truncates toward zero, which is why the code adds the modulus again.\<close>

definition js_rem :: "int \<Rightarrow> int \<Rightarrow> int" where
  "js_rem a b = a - b * (if 0 \<le> a then a div b else - (- a div b))"

definition buildQuestion :: "rat \<times> rat \<times> rat \<Rightarrow> question" where
  "buildQuestion r =
     (let (r1, r2, r3) = r;
          opr = (if r1 < 1 / 2 then Plus else Minus);
          aTenths = randInt 9700 10500 r2;
          bTenths = randInt 50 300 r3;
          answerTenths =
            (case opr of
               Plus \<Rightarrow> js_rem (aTenths + bTenths) 10000
             | Minus \<Rightarrow> js_rem (js_rem (aTenths - bTenths) 10000 + 10000) 10000)
      in \<lparr>q_a = of_int aTenths / 10, q_b = of_int bTenths / 10, q_op = opr,
          q_answer = of_int answerTenths / 10\<rparr>)"

definition buildGame :: "(nat \<Rightarrow> rat \<times> rat \<times> rat) \<Rightarrow> question list" where
  "buildGame rnd = map (\<lambda>i. buildQuestion (rnd i)) [0..<QUESTIONS_PER_GAME]"

section \<open>The attempts of an anonymous player\<close>

text \<open>What \<open>sessionStorage\<close> holds under the key: nothing, a text \<open>JSON.parse\<close> rejects, a
  JSON value that is no array, or the stored array.\<close>

datatype stored = NoItem | Malformed | NotAnArray | Stored "attempt list"

definition loadAnonAttempts :: "stored \<Rightarrow> attempt list" where
  "loadAnonAttempts st = (case st of Stored xs \<Rightarrow> xs | _ \<Rightarrow> [])"

text \<open>\<open>ok\<close> says whether \<open>setItem\<close> succeeds (it throws when the quota is used up).\<close>

definition saveAnonAttempt :: "bool \<Rightarrow> attempt \<Rightarrow> stored \<Rightarrow> attempt list \<times> stored" where
  "saveAnonAttempt ok att st =
     (let nx = take MAX_STORED_ATTEMPTS (att # loadAnonAttempts st)
      in (nx, if ok then Stored nx else st))"

section \<open>The state and its handlers\<close>

text \<open>\<open>g_storage\<close> is the session storage, \<open>g_loading\<close> says that \<open>listMathScores\<close> is under
  way, \<open>g_saves\<close> are the calls of \<open>saveMathScore\<close> without an answer yet and \<open>g_posted\<close>
  all the calls made.\<close>

record game =
  g_auth :: bool
  g_phase :: phase
  g_questions :: "question list"
  g_current :: nat
  g_answers :: "answer_record list"
  g_input :: string
  g_timeLeft :: nat
  g_attempts :: "attempt list"
  g_start :: int
  g_saved :: bool
  g_practiceQuestion :: "question option"
  g_practiceRecords :: "practice_record list"
  g_practiceInput :: string
  g_practiceStart :: int
  g_storage :: stored
  g_loading :: bool
  g_saves :: "attempt list"
  g_posted :: "(nat \<times> nat \<times> int) list"

definition startGame :: "(nat \<Rightarrow> rat \<times> rat \<times> rat) \<Rightarrow> int \<Rightarrow> game \<Rightarrow> game" where
  "startGame rnd now g =
     g\<lparr>g_questions := buildGame rnd, g_answers := [], g_current := 0, g_input := [],
       g_timeLeft := SECONDS_PER_QUESTION, g_start := now, g_saved := False, g_phase := Playing\<rparr>"

definition startPractice :: "rat \<times> rat \<times> rat \<Rightarrow> int \<Rightarrow> game \<Rightarrow> game" where
  "startPractice r now g =
     g\<lparr>g_practiceQuestion := Some (buildQuestion r), g_practiceRecords := [], g_practiceInput := [],
       g_practiceStart := now, g_phase := Practice\<rparr>"

text \<open>The result is \<open>None\<close> where \<open>q.answer\<close> is read of a question that does not exist (a
  TypeError that takes the page down).\<close>

definition submitAnswer :: "jsnum option \<Rightarrow> bool \<Rightarrow> game \<Rightarrow> game option" where
  "submitAnswer value timedOut g =
     (let i = length (g_answers g);
          add = (\<lambda>correct.
            let nx = Suc (g_current g)
            in g\<lparr>g_answers := g_answers g @ [\<lparr>ar_given = value, ar_correct = correct, ar_timedOut = timedOut\<rparr>],
                 g_input := [], g_current := nx,
                 g_phase := (if QUESTIONS_PER_GAME \<le> nx then Done else g_phase g)\<rparr>)
      in case value of
           None \<Rightarrow> Some (add False)
         | Some v \<Rightarrow>
             if i < length (g_questions g) then Some (add (v = Fin (q_answer (g_questions g ! i)))) else None)"

text \<open>The text of the input as \<open>number | null\<close>.\<close>

definition read_given :: "string \<Rightarrow> jsnum option" where
  "read_given s =
     (let trimmed = trim s
      in if trimmed = [] then None
         else let parsed = js_Number trimmed in if parsed = NaN then None else Some parsed)"

definition handleSubmit :: "game \<Rightarrow> game option" where
  "handleSubmit g =
     (if g_phase g \<noteq> Playing then Some g else submitAnswer (read_given (g_input g)) False g)"

definition submitPracticeAnswer :: "rat \<times> rat \<times> rat \<Rightarrow> int \<Rightarrow> game \<Rightarrow> game" where
  "submitPracticeAnswer r now g =
     (case g_practiceQuestion g of
        None \<Rightarrow> g
      | Some q \<Rightarrow>
          if g_phase g \<noteq> Practice then g
          else
            let given = read_given (g_practiceInput g);
                correct = (given = Some (Fin (q_answer q)))
            in g\<lparr>g_practiceRecords := g_practiceRecords g @
                   [\<lparr>pr_question = q, pr_given = given, pr_correct = correct, pr_timeMs = now - g_practiceStart g\<rparr>],
                 g_practiceInput := [], g_practiceQuestion := Some (buildQuestion r), g_practiceStart := now\<rparr>)"

definition stopPractice :: "game \<Rightarrow> game" where
  "stopPractice g = g\<lparr>g_phase := PracticeDone\<rparr>"

definition game_score :: "game \<Rightarrow> nat" where
  "game_score g = count_if ar_correct (g_answers g)"

section \<open>The effects\<close>

text \<open>Loading the history: runs when the sign-in state changes.\<close>

definition load_history :: "game \<Rightarrow> game" where
  "load_history g =
     (if g_auth g then g\<lparr>g_loading := True\<rparr>
      else g\<lparr>g_attempts := loadAnonAttempts (g_storage g), g_loading := False\<rparr>)"

text \<open>One second of the countdown: the interval's callback and, when it reaches zero, the effect
  that submits for the player.\<close>

definition countdown :: "game \<Rightarrow> game" where
  "countdown g = g\<lparr>g_timeLeft := (if g_timeLeft g \<le> 1 then 0 else g_timeLeft g - 1)\<rparr>"

definition timeout_effect :: "game \<Rightarrow> game option" where
  "timeout_effect g =
     (if g_phase g = Playing \<and> g_timeLeft g = 0 then submitAnswer None True g else Some g)"

text \<open>The timer restarts when the phase or the question changed while a game is on.\<close>

definition timer_effect :: "game \<Rightarrow> game \<Rightarrow> game" where
  "timer_effect old g =
     (if g_phase g = Playing \<and> (g_phase old \<noteq> Playing \<or> g_current old \<noteq> g_current g)
      then g\<lparr>g_timeLeft := SECONDS_PER_QUESTION\<rparr> else g)"

text \<open>Persisting a finished test.\<close>

definition persist_effect :: "(int \<Rightarrow> string) \<Rightarrow> bool \<Rightarrow> int \<Rightarrow> game \<Rightarrow> game" where
  "persist_effect stamp ok now g =
     (if g_phase g \<noteq> Done \<or> g_saved g then g
      else
        let att = \<lparr>at_date = stamp now, at_score = game_score g, at_total = QUESTIONS_PER_GAME,
                   at_durationMs = now - g_start g\<rparr>
        in if g_auth g
           then g\<lparr>g_saved := True, g_saves := g_saves g @ [att],
                  g_posted := g_posted g @ [(at_score att, at_total att, at_durationMs att)]\<rparr>
           else
             let (nx, st) = saveAnonAttempt ok att (g_storage g)
             in g\<lparr>g_saved := True, g_attempts := nx, g_storage := st\<rparr>)"

section \<open>Events\<close>

text \<open>A row of the server: \<open>MathGameScore\<close>.\<close>

record score_row =
  sr_created_at :: string
  sr_score :: nat
  sr_total :: nat
  sr_duration_ms :: int

definition toAttempt :: "score_row \<Rightarrow> attempt" where
  "toAttempt s = \<lparr>at_date = sr_created_at s, at_score = sr_score s, at_total = sr_total s,
                  at_durationMs = sr_duration_ms s\<rparr>"

datatype event =
    SetAuth bool
  | ScoresReply "score_row list option"
  | Start "nat \<Rightarrow> rat \<times> rat \<times> rat"
  | Input string
  | Submit
  | Second
  | SaveReply nat "score_row option"
  | StartPractice "rat \<times> rat \<times> rat"
  | PracticeInput string
  | PracticeSubmit "rat \<times> rat \<times> rat"
  | StopPractice
  | BackToIdle

text \<open>Which buttons are on the screen: the timed test starts from the first and the last screen of
  a test, practice from the first screen and the last of a practice.\<close>

definition handle_event :: "int \<Rightarrow> event \<Rightarrow> game \<Rightarrow> game option" where
  "handle_event now e g =
     (case e of
        SetAuth b \<Rightarrow> Some (load_history (g\<lparr>g_auth := b\<rparr>))
      | ScoresReply r \<Rightarrow>
          Some (if g_loading g
                then g\<lparr>g_attempts := (case r of None \<Rightarrow> [] | Some rows \<Rightarrow> map toAttempt rows), g_loading := False\<rparr>
                else g)
      | Start rnd \<Rightarrow> Some (if g_phase g = Idle \<or> g_phase g = Done then startGame rnd now g else g)
      | Input s \<Rightarrow> Some (if g_phase g = Playing then g\<lparr>g_input := s\<rparr> else g)
      | Submit \<Rightarrow> handleSubmit g
      | Second \<Rightarrow> (if g_phase g = Playing then timeout_effect (countdown g) else Some g)
      | SaveReply i r \<Rightarrow>
          Some (if i < length (g_saves g)
                then g\<lparr>g_saves := take i (g_saves g) @ drop (Suc i) (g_saves g),
                       g_attempts := (case r of None \<Rightarrow> g_saves g ! i | Some row \<Rightarrow> toAttempt row) # g_attempts g\<rparr>
                else g)
      | StartPractice r \<Rightarrow>
          Some (if g_phase g = Idle \<or> g_phase g = PracticeDone then startPractice r now g else g)
      | PracticeInput s \<Rightarrow> Some (if g_phase g = Practice then g\<lparr>g_practiceInput := s\<rparr> else g)
      | PracticeSubmit r \<Rightarrow> Some (submitPracticeAnswer r now g)
      | StopPractice \<Rightarrow> Some (if g_phase g = Practice then stopPractice g else g)
      | BackToIdle \<Rightarrow> Some (if g_phase g = PracticeDone then g\<lparr>g_phase := Idle\<rparr> else g))"

definition game_step :: "(int \<Rightarrow> string) \<Rightarrow> bool \<Rightarrow> int \<Rightarrow> event \<Rightarrow> game \<Rightarrow> game option" where
  "game_step stamp ok now e g =
     (case handle_event now e g of
        None \<Rightarrow> None
      | Some g' \<Rightarrow> Some (persist_effect stamp ok now (timer_effect g g')))"

definition initial_game :: "bool \<Rightarrow> stored \<Rightarrow> game" where
  "initial_game auth st =
     load_history \<lparr>g_auth = auth, g_phase = Idle, g_questions = [], g_current = 0, g_answers = [],
       g_input = [], g_timeLeft = SECONDS_PER_QUESTION, g_attempts = [], g_start = 0, g_saved = False,
       g_practiceQuestion = None, g_practiceRecords = [], g_practiceInput = [], g_practiceStart = 0,
       g_storage = st, g_loading = False, g_saves = [], g_posted = []\<rparr>"

text \<open>A session: each event comes with the time it happens at and whether the storage accepts a
  write.\<close>

fun play :: "(int \<Rightarrow> string) \<Rightarrow> (bool \<times> int \<times> event) list \<Rightarrow> game \<Rightarrow> game option" where
  "play stamp [] g = Some g"
| "play stamp ((ok, now, e) # es) g =
     (case game_step stamp ok now e g of None \<Rightarrow> None | Some g' \<Rightarrow> play stamp es g')"

section \<open>The questions\<close>

lemma randInt_bounds:
  assumes "0 \<le> r" "r < 1" "lo \<le> hi"
  shows "lo \<le> randInt lo hi r" "randInt lo hi r \<le> hi"
proof -
  have n: "(0::rat) < of_int (hi - lo + 1)" using assms by simp
  have "0 \<le> r * of_int (hi - lo + 1)" using assms n by simp
  then show "lo \<le> randInt lo hi r" by (simp add: randInt_def)
  have "r * of_int (hi - lo + 1) < 1 * of_int (hi - lo + 1)"
    using assms(2) n by (rule mult_strict_right_mono)
  then have "\<lfloor>r * of_int (hi - lo + 1)\<rfloor> < hi - lo + 1" by (subst floor_less_iff) simp
  then show "randInt lo hi r \<le> hi" by (simp add: randInt_def)
qed

lemma js_rem_nonneg: "0 \<le> a \<Longrightarrow> 0 < b \<Longrightarrow> js_rem a b = a mod b"
  by (simp add: js_rem_def minus_mult_div_eq_mod)

text \<open>Every question lies on the loop: with draws in \<open>[0, 1)\<close> its first operand is between
  970 and 1050 and its second between 5 and 30, both with one digit after the point, and its answer
  is their sum or difference modulo 1000, between 0.0 and 999.9 and again a multiple of a tenth.\<close>

theorem question_on_the_loop:
  assumes "0 \<le> r2" "r2 < 1" "0 \<le> r3" "r3 < 1"
  shows "\<exists>a b t :: int.
    q_a (buildQuestion (r1, r2, r3)) = of_int a / 10 \<and> 9700 \<le> a \<and> a \<le> 10500
    \<and> q_b (buildQuestion (r1, r2, r3)) = of_int b / 10 \<and> 50 \<le> b \<and> b \<le> 300
    \<and> q_answer (buildQuestion (r1, r2, r3)) = of_int t / 10 \<and> 0 \<le> t \<and> t < 10000
    \<and> t = (case q_op (buildQuestion (r1, r2, r3)) of Plus \<Rightarrow> a + b | Minus \<Rightarrow> a - b) mod 10000"
proof -
  define a b where ab: "a = randInt 9700 10500 r2" "b = randInt 50 300 r3"
  have a: "9700 \<le> a" "a \<le> 10500" and b: "50 \<le> b" "b \<le> 300"
    using assms randInt_bounds [of r2 9700 10500] randInt_bounds [of r3 50 300]
    by (simp_all add: ab)
  have add: "js_rem (a + b) 10000 = (a + b) mod 10000"
    and sub: "js_rem (js_rem (a - b) 10000 + 10000) 10000 = (a - b) mod 10000"
    using a b by (simp_all add: js_rem_nonneg)
  show ?thesis
  proof (cases "r1 < 1 / 2")
    case True
    with a b show ?thesis
      by (intro exI [of _ a] exI [of _ b] exI [of _ "(a + b) mod 10000"])
         (simp add: buildQuestion_def ab [symmetric] add)
  next
    case False
    with a b show ?thesis
      by (intro exI [of _ a] exI [of _ b] exI [of _ "(a - b) mod 10000"])
         (simp add: buildQuestion_def ab [symmetric] sub)
  qed
qed

theorem question_on_the_loop_witness:
  "\<exists>t :: int. q_answer (buildQuestion (0, 3 / 4, 1 / 2)) = of_int t / 10 \<and> 0 \<le> t \<and> t < 10000"
proof -
  have "0 \<le> (3 / 4 :: rat)" "3 / 4 < (1 :: rat)" "0 \<le> (1 / 2 :: rat)" "1 / 2 < (1 :: rat)" by simp_all
  from question_on_the_loop [OF this, of 0] show ?thesis by blast
qed

section \<open>Typing the answer\<close>

text \<open>The decimal text of a number of tenths.\<close>

definition show_tenths :: "nat \<Rightarrow> string" where
  "show_tenths t = show_nat (t div 10) @ CHR ''.'' # show_nat (t mod 10)"

lemma trim_nonspace_ends:
  assumes "s \<noteq> []" "\<not> is_space (hd s)" "\<not> is_space (last s)"
  shows "trim s = s"
proof -
  from assms have "dropWhile is_space s = s" by (cases s) auto
  moreover have "dropWhile is_space (rev s) = rev s"
    using assms by (cases "rev s") (auto simp: hd_rev [symmetric])
  ultimately show ?thesis by (simp add: trim_def)
qed

lemma js_Number_show_tenths: "js_Number (show_tenths t) = Fin (of_nat t / 10)"
proof -
  define ds c where ds: "ds = show_nat (t div 10)" and c: "c = show_nat (t mod 10)"
  have digs: "\<forall>x \<in> set ds. is_digit x" "\<forall>x \<in> set c. is_digit x" "ds \<noteq> []" "c \<noteq> []"
    unfolding ds c by (rule show_nat_digits show_nat_nonempty)+
  have vals: "digits_val ds = t div 10" "digits_val c = t mod 10"
    unfolding ds c by (rule digits_val_show_nat)+
  have c1: "c = [char_of (48 + t mod 10)]"
    unfolding c by (subst show_nat.simps) simp
  have dot: "\<not> is_digit CHR ''.''" by (simp add: is_digit_def)
  have val: "digits_val (ds @ c) = t"
    using vals digit_char(2) [of "t mod 10"] by (simp add: c1 digits_val_snoc)
  let ?s = "ds @ CHR ''.'' # c"
  have nsp: "\<not> is_space (hd ?s)" "\<not> is_space (last ?s)"
    using digs by (cases ds; simp add: digit_facts)+
  have trm: "trim ?s = ?s" by (rule trim_nonspace_ends) (use nsp in simp_all)
  have rad: "radix_of ?s = None"
    using digs by (cases ds; cases "tl ds") (auto simp: radix_of_def digit_facts)
  have tw: "takeWhile is_digit ?s = ds" "dropWhile is_digit ?s = CHR ''.'' # c"
    using digs dot by (simp_all add: takeWhile_tail)
  have uns: "scan_unsigned ?s = Some (of_nat t / 10, [])"
    using digs val dot by (simp add: scan_unsigned_def tw takeWhile_digits dropWhile_digits
        scan_exponent_def scale10_def c1)
  have sgn: "scan_signed ?s = Some (Fin (of_nat t / 10), [])"
  proof -
    from digs obtain d ds' where d: "ds = d # ds'" "is_digit d" by (cases ds) auto
    then have "\<not> starts_with ''Infinity'' ?s" by (auto simp: starts_with_def digit_facts)
    with d uns show ?thesis by (simp add: scan_signed_def digit_facts)
  qed
  have "show_tenths t = ?s" by (simp add: show_tenths_def ds c)
  with trm rad sgn digs show ?thesis by (simp add: js_Number_def)
qed

lemma read_show_tenths: "read_given (show_tenths t) = Some (Fin (of_nat t / 10))"
proof -
  have "trim (show_tenths t) = show_tenths t"
  proof (rule trim_nonspace_ends)
    show "show_tenths t \<noteq> []" by (simp add: show_tenths_def)
    show "\<not> is_space (hd (show_tenths t))" "\<not> is_space (last (show_tenths t))"
      using show_nat_digits [of "t div 10"] show_nat_digits [of "t mod 10"]
        show_nat_nonempty [of "t div 10"] show_nat_nonempty [of "t mod 10"]
      by (simp_all add: show_tenths_def digit_facts)
  qed
  then show ?thesis
    using js_Number_show_tenths [of t] by (simp add: read_given_def Let_def show_tenths_def)
qed

section \<open>The timed test\<close>

text \<open>The test in progress is in step with its answers; a finished one has all of them and has been
  handed over.\<close>

definition game_ok :: "game \<Rightarrow> bool" where
  "game_ok g =
     (case g_phase g of
        Playing \<Rightarrow> length (g_answers g) = g_current g \<and> g_current g < QUESTIONS_PER_GAME
          \<and> length (g_questions g) = QUESTIONS_PER_GAME \<and> \<not> g_saved g
          \<and> 1 \<le> g_timeLeft g \<and> g_timeLeft g \<le> SECONDS_PER_QUESTION
      | Done \<Rightarrow> length (g_answers g) = QUESTIONS_PER_GAME \<and> g_saved g
      | _ \<Rightarrow> True)"

lemmas game_consts = QUESTIONS_PER_GAME_def SECONDS_PER_QUESTION_def

text \<open>Steps that leave the test alone.\<close>

definition same_test :: "game \<Rightarrow> game \<Rightarrow> bool" where
  "same_test g g' \<longleftrightarrow>
     g_phase g' = g_phase g \<and> g_answers g' = g_answers g \<and> g_current g' = g_current g
     \<and> g_questions g' = g_questions g \<and> g_saved g' = g_saved g \<and> g_timeLeft g' = g_timeLeft g"

lemma same_test_ok: "same_test g g' \<Longrightarrow> game_ok g' = game_ok g"
  by (simp add: same_test_def game_ok_def split: phase.split)

text \<open>What the effects do after a step that leaves the test alone, starts one, answers a question or
  leaves the test's screens.\<close>

lemma effects_same:
  "game_ok g \<Longrightarrow> same_test g g' \<Longrightarrow> persist_effect stamp ok now (timer_effect g g') = g'"
  by (auto simp: same_test_def game_ok_def timer_effect_def persist_effect_def split: phase.splits)

lemma effects_off:
  "g_phase g' \<noteq> Playing \<Longrightarrow> g_phase g' \<noteq> Done \<Longrightarrow>
     persist_effect stamp ok now (timer_effect g g') = g'"
  by (simp add: timer_effect_def persist_effect_def)

lemma game_ok_off: "g_phase g \<noteq> Playing \<Longrightarrow> g_phase g \<noteq> Done \<Longrightarrow> game_ok g"
  by (auto simp: game_ok_def split: phase.splits)

lemma submit_some:
  assumes "game_ok g" "g_phase g = Playing"
  shows "\<exists>r. submitAnswer v b (g\<lparr>g_timeLeft := t\<rparr>) = Some
     (g\<lparr>g_timeLeft := t, g_answers := g_answers g @ [r], g_input := [], g_current := Suc (g_current g),
        g_phase := (if QUESTIONS_PER_GAME \<le> Suc (g_current g) then Done else Playing)\<rparr>)"
  using assms by (cases v) (auto simp: submitAnswer_def Let_def game_ok_def)

text \<open>The step of a running game that answers a question.\<close>

definition answered :: "(int \<Rightarrow> string) \<Rightarrow> bool \<Rightarrow> int \<Rightarrow> game \<Rightarrow> game \<Rightarrow> bool" where
  "answered stamp ok now g g' \<longleftrightarrow>
     (\<exists>r t. g' = persist_effect stamp ok now (timer_effect g
        (g\<lparr>g_timeLeft := t, g_answers := g_answers g @ [r], g_input := [], g_current := Suc (g_current g),
          g_phase := (if QUESTIONS_PER_GAME \<le> Suc (g_current g) then Done else Playing)\<rparr>)))"

lemma answered_ok: "game_ok g \<Longrightarrow> g_phase g = Playing \<Longrightarrow> answered stamp ok now g g' \<Longrightarrow> game_ok g'"
  by (auto simp: answered_def game_ok_def timer_effect_def persist_effect_def game_consts
      saveAnonAttempt_def Let_def)

lemma timeout_step:
  assumes "game_ok g" "g_phase g = Playing"
  shows "\<exists>g'. timeout_effect (countdown g) = Some g' \<and>
     (same_test (g\<lparr>g_timeLeft := g_timeLeft g - 1\<rparr>) g' \<and> 1 < g_timeLeft g
        \<and> g' = g\<lparr>g_timeLeft := g_timeLeft g - 1\<rparr>
      \<or> answered stamp ok now g (persist_effect stamp ok now (timer_effect g g')))"
proof (cases "g_timeLeft g \<le> 1")
  case True
  with assms have e: "timeout_effect (countdown g) = submitAnswer None True (g\<lparr>g_timeLeft := 0\<rparr>)"
    by (simp add: timeout_effect_def countdown_def)
  from submit_some [OF assms, of None True 0] obtain r where
    r: "submitAnswer None True (g\<lparr>g_timeLeft := 0\<rparr>) = Some
     (g\<lparr>g_timeLeft := 0, g_answers := g_answers g @ [r], g_input := [], g_current := Suc (g_current g),
        g_phase := (if QUESTIONS_PER_GAME \<le> Suc (g_current g) then Done else Playing)\<rparr>)" by blast
  then show ?thesis unfolding e answered_def by (intro exI conjI, assumption) blast
next
  case False
  with assms show ?thesis
    by (simp add: timeout_effect_def countdown_def same_test_def)
qed

text \<open>Every step either answers a question of the running test or records nothing.\<close>

definition unrecorded :: "game \<Rightarrow> game \<Rightarrow> bool" where
  "unrecorded g g' \<longleftrightarrow>
     (g_phase g = Playing \<longrightarrow> g_phase g' = Playing) \<and> g_posted g' = g_posted g \<and> g_storage g' = g_storage g"

definition step_outcome :: "(int \<Rightarrow> string) \<Rightarrow> bool \<Rightarrow> int \<Rightarrow> game \<Rightarrow> game option \<Rightarrow> bool" where
  "step_outcome stamp ok now g r \<longleftrightarrow>
     (case r of
        None \<Rightarrow> False
      | Some g' \<Rightarrow> game_ok g' \<and> (unrecorded g g' \<or> g_phase g = Playing \<and> answered stamp ok now g g'))"

lemma outcome_same:
  assumes "game_ok g" "handle_event now e g = Some g'" "same_test g g'"
    "g_posted g' = g_posted g" "g_storage g' = g_storage g"
  shows "step_outcome stamp ok now g (game_step stamp ok now e g)"
proof -
  from assms have "game_step stamp ok now e g = Some g'"
    by (simp add: game_step_def effects_same)
  moreover from assms have "game_ok g'" by (simp add: same_test_ok)
  ultimately show ?thesis
    using assms by (simp add: step_outcome_def unrecorded_def same_test_def)
qed

lemma outcome_off:
  assumes "handle_event now e g = Some g'" "g_phase g \<noteq> Playing" "g_phase g' \<noteq> Playing" "g_phase g' \<noteq> Done"
    "g_posted g' = g_posted g" "g_storage g' = g_storage g"
  shows "step_outcome stamp ok now g (game_step stamp ok now e g)"
proof -
  from assms have "game_step stamp ok now e g = Some g'"
    by (simp add: game_step_def effects_off)
  with assms show ?thesis
    by (simp add: step_outcome_def unrecorded_def game_ok_off)
qed

lemma outcome_start:
  assumes "g_phase g = Idle \<or> g_phase g = Done"
  shows "step_outcome stamp ok now g (game_step stamp ok now (Start rnd) g)"
proof -
  have "game_step stamp ok now (Start rnd) g = Some (startGame rnd now g)"
    using assms by (auto simp: game_step_def handle_event_def startGame_def timer_effect_def persist_effect_def)
  moreover have "game_ok (startGame rnd now g)"
    by (simp add: game_ok_def startGame_def buildGame_def game_consts)
  ultimately show ?thesis
    using assms by (auto simp: step_outcome_def unrecorded_def startGame_def)
qed

lemma outcome_submit:
  assumes "game_ok g" "g_phase g = Playing"
  shows "step_outcome stamp ok now g (game_step stamp ok now Submit g)"
proof -
  let ?n = "\<lambda>r. g\<lparr>g_timeLeft := g_timeLeft g, g_answers := g_answers g @ [r], g_input := [], g_current := Suc (g_current g),
        g_phase := (if QUESTIONS_PER_GAME \<le> Suc (g_current g) then Done else Playing)\<rparr>"
  have "g\<lparr>g_timeLeft := g_timeLeft g\<rparr> = g" by simp
  then obtain r where r: "handleSubmit g = Some (?n r)"
    using submit_some [OF assms, of "read_given (g_input g)" False "g_timeLeft g"] assms(2)
    unfolding handleSubmit_def by auto
  have "game_step stamp ok now Submit g = Some (persist_effect stamp ok now (timer_effect g (?n r)))"
    by (simp only: game_step_def handle_event_def r event.case option.case)
  moreover have "answered stamp ok now g (persist_effect stamp ok now (timer_effect g (?n r)))"
    unfolding answered_def by (rule exI [of _ r], rule exI [of _ "g_timeLeft g"]) (rule refl)
  ultimately have "\<exists>g'. game_step stamp ok now Submit g = Some g' \<and> answered stamp ok now g g'" by blast
  with answered_ok [OF assms] assms show ?thesis by (auto simp: step_outcome_def)
qed

lemma outcome_second:
  assumes "game_ok g" "g_phase g = Playing"
  shows "step_outcome stamp ok now g (game_step stamp ok now Second g)"
proof -
  from timeout_step [OF assms, of stamp ok now] obtain g' where
    g': "timeout_effect (countdown g) = Some g'"
    "1 < g_timeLeft g \<and> g' = g\<lparr>g_timeLeft := g_timeLeft g - 1\<rparr>
      \<or> answered stamp ok now g (persist_effect stamp ok now (timer_effect g g'))" by blast
  have st: "game_step stamp ok now Second g = Some (persist_effect stamp ok now (timer_effect g g'))"
    using g'(1) assms by (simp add: game_step_def handle_event_def)
  from g'(2) show ?thesis
  proof
    assume t: "1 < g_timeLeft g \<and> g' = g\<lparr>g_timeLeft := g_timeLeft g - 1\<rparr>"
    then have "persist_effect stamp ok now (timer_effect g g') = g'"
      using assms by (simp add: timer_effect_def persist_effect_def)
    moreover have "game_ok g'" using assms t by (auto simp: game_ok_def)
    ultimately show ?thesis using t assms by (simp add: st step_outcome_def unrecorded_def)
  next
    assume "answered stamp ok now g (persist_effect stamp ok now (timer_effect g g'))"
    with answered_ok [OF assms this] assms show ?thesis by (simp add: st step_outcome_def)
  qed
qed

lemma game_step_outcome:
  assumes "game_ok g"
  shows "step_outcome stamp ok now g (game_step stamp ok now e g)"
proof -
  consider (start) rnd where "e = Start rnd" "g_phase g = Idle \<or> g_phase g = Done"
    | (submit) "e = Submit" "g_phase g = Playing"
    | (second) "e = Second" "g_phase g = Playing"
    | (off) "g_phase g \<noteq> Playing" "g_phase g \<noteq> Done"
        "(\<exists>r. e = StartPractice r) \<or> (\<exists>r. e = PracticeSubmit r) \<or> e = StopPractice \<or> e = BackToIdle"
    | (rest) "\<exists>g'. handle_event now e g = Some g' \<and> same_test g g' \<and> g_posted g' = g_posted g
        \<and> g_storage g' = g_storage g"
    by (cases e; cases "g_phase g")
       (auto simp: handle_event_def same_test_def load_history_def handleSubmit_def
         submitPracticeAnswer_def split: option.splits)
  then show ?thesis
  proof cases
    case off
    then have "\<exists>g'. handle_event now e g = Some g' \<and> g_phase g' \<noteq> Playing \<and> g_phase g' \<noteq> Done
        \<and> g_posted g' = g_posted g \<and> g_storage g' = g_storage g"
      by (cases "g_phase g")
         (auto simp: handle_event_def startPractice_def stopPractice_def submitPracticeAnswer_def Let_def
           split: option.splits)
    with off outcome_off show ?thesis by blast
  next
    case rest
    then show ?thesis using outcome_same [OF assms] by blast
  qed (use outcome_start outcome_submit outcome_second assms in blast)+
qed

lemma initial_game_ok: "game_ok (initial_game auth st)"
  by (simp add: initial_game_def load_history_def game_ok_def)

text \<open>The game never breaks, whatever the player types and whenever the clock runs out: every
  session of events runs through without an exception; while a test is on, the number of
  answers is the index of the question shown, that index is below ten and the clock is between 1 and
  15; a test that is over has exactly ten answers and has been handed over for saving.\<close>

theorem game_never_breaks:
  "case play stamp es (initial_game auth st) of
     None \<Rightarrow> False
   | Some g \<Rightarrow>
       (case g_phase g of
          Playing \<Rightarrow> length (g_answers g) = g_current g \<and> g_current g < 10 \<and> length (g_questions g) = 10
            \<and> 1 \<le> g_timeLeft g \<and> g_timeLeft g \<le> 15
        | Done \<Rightarrow> length (g_answers g) = 10 \<and> g_saved g
        | _ \<Rightarrow> True)"
proof -
  have "\<exists>g'. play stamp es g = Some g' \<and> game_ok g'" if "game_ok g" for g
    using that
  proof (induction es arbitrary: g)
    case (Cons e es)
    obtain ok now ev where e: "e = (ok, now, ev)" by (cases e) auto
    from game_step_outcome [OF Cons.prems, of stamp ok now ev] obtain g' where
      "game_step stamp ok now ev g = Some g'" "game_ok g'"
      by (auto simp: step_outcome_def split: option.splits)
    with Cons.IH show ?case by (simp add: e)
  qed simp
  from this [OF initial_game_ok] obtain g where
    "play stamp es (initial_game auth st) = Some g" "game_ok g" by blast
  then show ?thesis
    by (simp add: game_ok_def game_consts split: phase.splits)
qed

lemma play_ok: "play stamp es g = Some g' \<Longrightarrow> game_ok g \<Longrightarrow> game_ok g'"
proof (induction es arbitrary: g)
  case (Cons e es)
  obtain ok now ev where e: "e = (ok, now, ev)" by (cases e) auto
  with Cons.prems obtain h where h: "game_step stamp ok now ev g = Some h" "play stamp es h = Some g'"
    by (auto split: option.splits)
  moreover from game_step_outcome [OF Cons.prems(2), of stamp ok now ev] h have "game_ok h"
    by (simp add: step_outcome_def)
  ultimately show ?case using Cons.IH by blast
qed simp

lemma game_score_le: "game_score g \<le> length (g_answers g)"
  by (simp add: game_score_def count_if_le)

lemma answered_recorded:
  assumes "game_ok g" "g_phase g = Playing" "answered stamp ok now g g'"
  shows "if g_phase g' = Done
     then g_saved g' \<and> game_score g' \<le> QUESTIONS_PER_GAME
       \<and> (if g_auth g'
          then g_posted g' = g_posted g @ [(game_score g', QUESTIONS_PER_GAME, now - g_start g')]
            \<and> g_storage g' = g_storage g
          else g_posted g' = g_posted g
            \<and> g_storage g' =
               (if ok
                then Stored (take MAX_STORED_ATTEMPTS
                  (\<lparr>at_date = stamp now, at_score = game_score g', at_total = QUESTIONS_PER_GAME,
                    at_durationMs = now - g_start g'\<rparr> # loadAnonAttempts (g_storage g)))
                else g_storage g))
     else g_posted g' = g_posted g \<and> g_storage g' = g_storage g"
proof -
  from assms(3) obtain r t where g': "g' = persist_effect stamp ok now (timer_effect g
      (g\<lparr>g_timeLeft := t, g_answers := g_answers g @ [r], g_input := [], g_current := Suc (g_current g),
        g_phase := (if QUESTIONS_PER_GAME \<le> Suc (g_current g) then Done else Playing)\<rparr>))"
    by (auto simp: answered_def)
  show ?thesis
  proof (cases "QUESTIONS_PER_GAME \<le> Suc (g_current g)")
    case True
    have "Suc (g_current g) = QUESTIONS_PER_GAME" "length (g_answers g) = g_current g"
      using assms True by (simp_all add: game_ok_def)
    then have sc: "count_if ar_correct (g_answers g @ [r]) \<le> QUESTIONS_PER_GAME"
      using count_if_le [of ar_correct "g_answers g @ [r]"] by (simp del: count_if_simps)
    from assms have ns: "\<not> g_saved g" by (simp add: game_ok_def)
    show ?thesis
      using True sc ns
      by (simp add: g' timer_effect_def persist_effect_def saveAnonAttempt_def Let_def game_score_def
          del: count_if_simps)
  next
    case False
    then show ?thesis by (simp add: g' timer_effect_def persist_effect_def)
  qed
qed

text \<open>Every finished test is recorded, exactly once: at any moment of a session, the step that
  finishes a test sends its score and duration to the server for a signed-in player, and for an
  anonymous one puts it in front of the stored attempts, of which the last twenty are kept (a write
  that fails leaves them as they were); no other step sends or stores anything.\<close>

theorem finished_test_recorded_once:
  assumes "play stamp es (initial_game auth st) = Some g"
  shows "case game_step stamp ok now e g of
     None \<Rightarrow> False
   | Some g' \<Rightarrow>
       if g_phase g = Playing \<and> g_phase g' = Done
       then g_saved g' \<and> game_score g' \<le> QUESTIONS_PER_GAME
         \<and> (if g_auth g'
            then g_posted g' = g_posted g @ [(game_score g', QUESTIONS_PER_GAME, now - g_start g')]
              \<and> g_storage g' = g_storage g
            else g_posted g' = g_posted g
              \<and> g_storage g' =
                 (if ok
                  then Stored (take MAX_STORED_ATTEMPTS
                    (\<lparr>at_date = stamp now, at_score = game_score g', at_total = QUESTIONS_PER_GAME,
                      at_durationMs = now - g_start g'\<rparr> # loadAnonAttempts (g_storage g)))
                  else g_storage g))
       else g_posted g' = g_posted g \<and> g_storage g' = g_storage g"
proof -
  have ok: "game_ok g" by (rule play_ok [OF assms initial_game_ok])
  obtain g' where st: "game_step stamp ok now e g = Some g'" and
    c: "unrecorded g g' \<or> g_phase g = Playing \<and> answered stamp ok now g g'"
    using game_step_outcome [OF ok, of stamp ok now e] by (auto simp: step_outcome_def split: option.splits)
  from c show ?thesis
  proof
    assume "unrecorded g g'"
    then show ?thesis by (auto simp: st unrecorded_def)
  next
    assume a: "g_phase g = Playing \<and> answered stamp ok now g g'"
    show ?thesis
      using answered_recorded [OF ok conjunct1 [OF a] conjunct2 [OF a]] a by (simp only: st option.case simp_thms)
  qed
qed

text \<open>An anonymous player's test after nine unanswered questions.\<close>

definition nine_given :: "(bool \<times> int \<times> event) list" where
  "nine_given = (True, 100, Start (\<lambda>i. (0, 0, 0))) # replicate 9 (True, 200, Submit)"

theorem finished_test_recorded_once_witness:
  "\<exists>g g'. play (\<lambda>t. ''now'') nine_given (initial_game False NoItem) = Some g
     \<and> game_step (\<lambda>t. ''now'') True 5000 Submit g = Some g'
     \<and> g_storage g' = Stored [\<lparr>at_date = ''now'', at_score = 0, at_total = 10, at_durationMs = 4900\<rparr>]"
proof -
  let ?s = "\<lambda>t. ''now''"
  note defs = nine_given_def initial_game_def load_history_def game_step_def handle_event_def startGame_def
    timer_effect_def persist_effect_def handleSubmit_def submitAnswer_def read_given_def trim_def
    QUESTIONS_PER_GAME_def SECONDS_PER_QUESTION_def numeral_eq_Suc Let_def
  have "\<exists>g. play ?s nine_given (initial_game False NoItem) = Some g \<and> g_phase g = Playing \<and> \<not> g_auth g
      \<and> g_current g = 9 \<and> g_input g = [] \<and> g_storage g = NoItem \<and> g_start g = 100 \<and> \<not> g_saved g
      \<and> g_answers g = replicate 9 \<lparr>ar_given = None, ar_correct = False, ar_timedOut = False\<rparr>"
    by (simp add: defs)
  then obtain g where g: "play ?s nine_given (initial_game False NoItem) = Some g" "g_phase g = Playing"
    "\<not> g_auth g" "g_current g = 9" "g_input g = []" "g_storage g = NoItem" "g_start g = 100" "\<not> g_saved g"
    "g_answers g = replicate 9 \<lparr>ar_given = None, ar_correct = False, ar_timedOut = False\<rparr>" by blast
  have h: "handleSubmit g = Some (g\<lparr>g_answers := g_answers g @
      [\<lparr>ar_given = None, ar_correct = False, ar_timedOut = False\<rparr>], g_current := 10, g_phase := Done\<rparr>)"
    using g by (simp add: handleSubmit_def submitAnswer_def read_given_def trim_def QUESTIONS_PER_GAME_def Let_def)
  then obtain g' where g': "game_step ?s True 5000 Submit g = Some g'" "g_phase g' = Done" "\<not> g_auth g'"
    "game_score g' = 0" "g_start g' = 100"
    using g by (simp add: game_step_def handle_event_def timer_effect_def persist_effect_def Let_def
        saveAnonAttempt_def game_score_def count_if_def)
  from finished_test_recorded_once [OF g(1), where now = 5000 and ok = True and e = Submit] g g'
  have "g_storage g' = Stored [\<lparr>at_date = ''now'', at_score = 0, at_total = 10, at_durationMs = 4900\<rparr>]"
    by (simp add: QUESTIONS_PER_GAME_def MAX_STORED_ATTEMPTS_def loadAnonAttempts_def)
  with g(1) g'(1) show ?thesis by blast
qed

text \<open>The right answer counts: in a running test, typing the decimal text of the answer of the
  question shown and submitting it records a correct answer.\<close>

theorem typed_answer_counts:
  assumes "play stamp es (initial_game auth st) = Some g" "g_phase g = Playing"
    and "q_answer (g_questions g ! g_current g) = of_nat t / 10"
  shows "Option.bind (handle_event now (Input (show_tenths t)) g)
      (\<lambda>h. Option.bind (handle_event now' Submit h) (\<lambda>g'. Some (g_answers g')))
    = Some (g_answers g @ [\<lparr>ar_given = Some (Fin (of_nat t / 10)), ar_correct = True, ar_timedOut = False\<rparr>])"
proof -
  have "game_ok g" by (rule play_ok [OF assms(1) initial_game_ok])
  with assms show ?thesis
    by (simp add: handle_event_def handleSubmit_def read_show_tenths submitAnswer_def Let_def game_ok_def)
qed

theorem typed_answer_counts_witness:
  "\<exists>g. play (\<lambda>t. []) [(True, 100, Start (\<lambda>i. (0, 0, 0)))] (initial_game True NoItem) = Some g
     \<and> Option.bind (handle_event 300 (Input ''975.0'') g)
         (\<lambda>h. Option.bind (handle_event 400 Submit h) (\<lambda>g'. Some (g_answers g')))
       = Some [\<lparr>ar_given = Some (Fin 975), ar_correct = True, ar_timedOut = False\<rparr>]"
proof -
  let ?g = "startGame (\<lambda>i. (0, 0, 0)) 100 (initial_game True NoItem)"
  have p: "play (\<lambda>t. []) [(True, 100, Start (\<lambda>i. (0, 0, 0)))] (initial_game True NoItem) = Some ?g"
    by (simp add: initial_game_def load_history_def game_step_def handle_event_def startGame_def
        timer_effect_def persist_effect_def)
  have q: "q_answer (g_questions ?g ! g_current ?g) = of_nat 9750 / 10"
    by (simp add: startGame_def buildGame_def QUESTIONS_PER_GAME_def buildQuestion_def randInt_def
        js_rem_def)
  have "show_nat 975 = ''975''" by (simp add: show_nat.simps char_of_eq_iff take_bit_eq_mod)
  moreover have "show_nat 0 = ''0''" by (simp add: show_nat.simps char_of_eq_iff take_bit_eq_mod)
  ultimately have t: "show_tenths 9750 = ''975.0''"
    by (simp add: show_tenths_def)
  have "g_phase ?g = Playing" "g_answers ?g = []" by (simp_all add: startGame_def)
  with typed_answer_counts [OF p this(1) q, of 300 400] p show ?thesis by (simp add: t)
qed

end
