(* ===== verification/SortView.thy ===== *)
theory SortView
  imports Prelude "HOL-Library.Multiset"
begin

text \<open>
  Sorting a listing, \<open>frontend/src/hooks/useSort.ts\<close>: the state of the column headers and the two
  orders of folders and files. \<open>Array.prototype.sort\<close> is a stable sort by the comparator it is
  given (written as an insertion sort; a consistent comparator leaves no freedom). What
  \<open>localeCompare\<close> answers for two names, and what a time stamp parses to, are parameters.
\<close>

datatype sort_key = NameKey | DateKey | SizeKey
datatype sort_dir = Asc | Desc

record sort_state =
  so_key :: sort_key
  so_dir :: sort_dir

definition useSort_initial :: "sort_key \<Rightarrow> sort_state" where
  "useSort_initial k = \<lparr>so_key = k, so_dir = Asc\<rparr>"

definition onSort :: "sort_key \<Rightarrow> sort_state \<Rightarrow> sort_state" where
  "onSort k s =
     \<lparr>so_key = k,
      so_dir = (if so_key s = k then (if so_dir s = Asc then Desc else Asc) else Asc)\<rparr>"

definition dir :: "int \<Rightarrow> sort_dir \<Rightarrow> int" where
  "dir cmp d = (if d = Asc then cmp else - cmp)"

text \<open>The stable sort by a comparator.\<close>

fun insert_by :: "('a \<Rightarrow> 'a \<Rightarrow> int) \<Rightarrow> 'a \<Rightarrow> 'a list \<Rightarrow> 'a list" where
  "insert_by cmp x [] = [x]"
| "insert_by cmp x (y # ys) = (if cmp x y \<le> 0 then x # y # ys else y # insert_by cmp x ys)"

definition js_sort :: "('a \<Rightarrow> 'a \<Rightarrow> int) \<Rightarrow> 'a list \<Rightarrow> 'a list" where
  "js_sort cmp xs = foldr (insert_by cmp) xs []"

record folder_row =
  sf_id :: string
  sf_name :: string
  sf_created_at :: string

record file_row = folder_row +
  sf_size_bytes :: nat

text \<open>The difference of two time stamps; it is NaN, which sorts as equal, when one is no date.\<close>

definition cmp_dates :: "(string \<Rightarrow> int option) \<Rightarrow> string \<Rightarrow> string \<Rightarrow> int" where
  "cmp_dates date_ms a b =
     (case (date_ms a, date_ms b) of (Some x, Some y) \<Rightarrow> x - y | _ \<Rightarrow> 0)"

definition cmp_folders ::
  "(string \<Rightarrow> string \<Rightarrow> int) \<Rightarrow> (string \<Rightarrow> int option) \<Rightarrow> sort_state \<Rightarrow> folder_row \<Rightarrow> folder_row \<Rightarrow> int" where
  "cmp_folders collate date_ms s a b =
     (if so_key s = DateKey then dir (cmp_dates date_ms (sf_created_at a) (sf_created_at b)) (so_dir s)
      else dir (collate (sf_name a) (sf_name b)) (so_dir s))"

definition cmp_files ::
  "(string \<Rightarrow> string \<Rightarrow> int) \<Rightarrow> (string \<Rightarrow> int option) \<Rightarrow> sort_state \<Rightarrow> file_row \<Rightarrow> file_row \<Rightarrow> int" where
  "cmp_files collate date_ms s a b =
     (if so_key s = DateKey then dir (cmp_dates date_ms (sf_created_at a) (sf_created_at b)) (so_dir s)
      else if so_key s = SizeKey then dir (int (sf_size_bytes a) - int (sf_size_bytes b)) (so_dir s)
      else dir (collate (sf_name a) (sf_name b)) (so_dir s))"

definition sortedFolders where
  "sortedFolders collate date_ms items s = js_sort (cmp_folders collate date_ms s) items"

definition sortedFiles where
  "sortedFiles collate date_ms items s = js_sort (cmp_files collate date_ms s) items"

section \<open>Sorting by a comparator that ranks by a key\<close>

text \<open>A comparator that is consistent on the elements it meets: it agrees with the order of a key.\<close>

locale ranked =
  fixes cmp :: "'a \<Rightarrow> 'a \<Rightarrow> int" and key :: "'a \<Rightarrow> 'k::linorder" and S :: "'a set"
  assumes cmp_key: "x \<in> S \<Longrightarrow> y \<in> S \<Longrightarrow> cmp x y \<le> 0 \<longleftrightarrow> key x \<le> key y"
begin

lemma insert_by_key:
  "x \<in> S \<Longrightarrow> set ys \<subseteq> S \<Longrightarrow> insert_by cmp x ys = insort_key key x ys"
  by (induction ys) (auto simp: cmp_key)

lemma js_sort_key: "set xs \<subseteq> S \<Longrightarrow> js_sort cmp xs = sort_key key xs"
proof (induction xs)
  case (Cons x xs)
  then have "set (sort_key key xs) \<subseteq> S" by simp
  with Cons insert_by_key [of x "sort_key key xs"] show ?case
    by (simp add: js_sort_def sort_key_def)
qed (simp add: js_sort_def)

end

text \<open>The same comparator turned around.\<close>

locale ranked_down =
  fixes cmp :: "'a \<Rightarrow> 'a \<Rightarrow> int" and key :: "'a \<Rightarrow> 'k::linorder" and S :: "'a set"
  assumes cmp_key: "x \<in> S \<Longrightarrow> y \<in> S \<Longrightarrow> cmp x y \<le> 0 \<longleftrightarrow> key y \<le> key x"
begin

lemma insert_down:
  assumes "x \<in> S" "set ys \<subseteq> S" "sorted (rev (map key ys))"
  shows "mset (insert_by cmp x ys) = add_mset x (mset ys)
    \<and> sorted (rev (map key (insert_by cmp x ys)))
    \<and> filter (\<lambda>y. key y = k) (insert_by cmp x ys) = filter (\<lambda>y. key y = k) (x # ys)"
  using assms
proof (induction ys)
  case (Cons y ys)
  have s: "sorted (rev (map key ys))" "\<forall>z \<in> set ys. key z \<le> key y"
    using Cons.prems by (auto simp: sorted_append)
  show ?case
  proof (cases "cmp x y \<le> 0")
    case True
    then have "key y \<le> key x" using cmp_key Cons.prems by simp
    with s True Cons.prems show ?thesis by (fastforce simp: sorted_append)
  next
    case False
    have "x \<in> S" "y \<in> S" using Cons.prems by auto
    from cmp_key [OF this] False have lt: "key x < key y" by (simp add: not_le)
    have ih: "mset (insert_by cmp x ys) = add_mset x (mset ys)"
      "sorted (rev (map key (insert_by cmp x ys)))"
      "filter (\<lambda>y. key y = k) (insert_by cmp x ys) = filter (\<lambda>y. key y = k) (x # ys)"
      using Cons.IH Cons.prems s by auto
    have "set (insert_by cmp x ys) = insert x (set ys)"
      by (metis ih(1) set_mset_add_mset_insert set_mset_mset)
    with False lt ih s show ?thesis by (auto simp: sorted_append)
  qed
qed simp

lemma js_sort_down:
  "set xs \<subseteq> S \<Longrightarrow> mset (js_sort cmp xs) = mset xs \<and> sorted (rev (map key (js_sort cmp xs)))
     \<and> (\<forall>k. filter (\<lambda>y. key y = k) (js_sort cmp xs) = filter (\<lambda>y. key y = k) xs)"
proof (induction xs)
  case (Cons x xs)
  have e: "js_sort cmp (x # xs) = insert_by cmp x (js_sort cmp xs)" by (simp add: js_sort_def)
  have ih: "mset (js_sort cmp xs) = mset xs" "sorted (rev (map key (js_sort cmp xs)))"
    "\<And>k. filter (\<lambda>y. key y = k) (js_sort cmp xs) = filter (\<lambda>y. key y = k) xs"
    using Cons by simp_all
  have "set (js_sort cmp xs) \<subseteq> S" using Cons.prems mset_eq_setD [OF ih(1)] by simp
  with insert_down [of x "js_sort cmp xs"] ih Cons.prems show ?case by (simp add: e)
qed (simp add: js_sort_def)

lemma js_sort_key: "set xs \<subseteq> S \<Longrightarrow> js_sort cmp xs = rev (sort_key key (rev xs))"
proof -
  assume S: "set xs \<subseteq> S"
  note r = js_sort_down [OF S]
  have "sort_key key (rev xs) = rev (js_sort cmp xs)"
  proof (rule properties_for_sort_key)
    show "mset (rev (js_sort cmp xs)) = mset (rev xs)" using r by simp
    show "filter (\<lambda>x. key k = key x) (rev (js_sort cmp xs)) = filter (\<lambda>x. key k = key x) (rev xs)" for k
      using conjunct2 [OF conjunct2 [OF r]] by (simp add: rev_filter [symmetric] eq_commute [of "key k"])
    show "sorted (map key (rev (js_sort cmp xs)))" using r by (simp add: rev_map)
  qed
  then show ?thesis by simp
qed

end
section \<open>The orders of the listing\<close>

interpretation size_up: ranked "cmp_files collate date_ms \<lparr>so_key = SizeKey, so_dir = Asc\<rparr>" sf_size_bytes UNIV
  for collate date_ms
  by unfold_locales (simp add: cmp_files_def dir_def)

interpretation size_down: ranked_down "cmp_files collate date_ms \<lparr>so_key = SizeKey, so_dir = Desc\<rparr>"
    sf_size_bytes UNIV
  for collate date_ms
  by unfold_locales (simp add: cmp_files_def dir_def)

text \<open>The rows whose time stamp is a date.\<close>

definition dated :: "(string \<Rightarrow> int option) \<Rightarrow> 'a folder_row_scheme set" where
  "dated date_ms = {r. date_ms (sf_created_at r) \<noteq> None}"

definition date_of :: "(string \<Rightarrow> int option) \<Rightarrow> 'a folder_row_scheme \<Rightarrow> int" where
  "date_of date_ms r = the (date_ms (sf_created_at r))"

interpretation date_up: ranked "cmp_files collate date_ms \<lparr>so_key = DateKey, so_dir = Asc\<rparr>"
    "date_of date_ms" "dated date_ms"
  for collate date_ms
  by unfold_locales (auto simp: cmp_files_def dir_def cmp_dates_def dated_def date_of_def)

interpretation date_down: ranked_down "cmp_files collate date_ms \<lparr>so_key = DateKey, so_dir = Desc\<rparr>"
    "date_of date_ms" "dated date_ms"
  for collate date_ms
  by unfold_locales (auto simp: cmp_files_def dir_def cmp_dates_def dated_def date_of_def)

lemma names_up:
  assumes "\<And>a b. collate a b \<le> 0 \<longleftrightarrow> ckey a \<le> ckey b" "k \<noteq> DateKey" "k \<noteq> SizeKey"
  shows "ranked (cmp_files collate date_ms \<lparr>so_key = k, so_dir = Asc\<rparr>) (\<lambda>r. ckey (sf_name r)) UNIV"
  using assms by unfold_locales (simp add: cmp_files_def dir_def)

lemma names_down:
  assumes "\<And>a b. 0 \<le> collate a b \<longleftrightarrow> ckey b \<le> ckey a" "k \<noteq> DateKey" "k \<noteq> SizeKey"
  shows "ranked_down (cmp_files collate date_ms \<lparr>so_key = k, so_dir = Desc\<rparr>) (\<lambda>r. ckey (sf_name r)) UNIV"
  using assms by unfold_locales (simp add: cmp_files_def dir_def)

lemma insort_key_same: "f x = g x \<Longrightarrow> \<forall>y \<in> set ys. f y = g y \<Longrightarrow> insort_key f x ys = insort_key g x ys"
  by (induction ys) auto

lemma sort_key_same: "\<forall>y \<in> set ys. f y = g y \<Longrightarrow> sort_key f ys = sort_key g ys"
proof (induction ys)
  case (Cons y ys)
  with insort_key_same [of f y g "sort_key g ys"] show ?case by (simp add: sort_key_simps)
qed simp

lemma listing_orders:
  fixes ckey :: "string \<Rightarrow> 'k::linorder"
  assumes "\<And>a b. collate a b \<le> 0 \<longleftrightarrow> ckey a \<le> ckey b"
    and "\<And>a b. 0 \<le> collate a b \<longleftrightarrow> ckey b \<le> ckey a"
    and "\<And>r. r \<in> set fs \<Longrightarrow> date_ms (sf_created_at r) = Some (ms r)"
  shows "sortedFiles collate date_ms fs \<lparr>so_key = NameKey, so_dir = Asc\<rparr> = sort_key (\<lambda>r. ckey (sf_name r)) fs"
    and "sortedFiles collate date_ms fs \<lparr>so_key = NameKey, so_dir = Desc\<rparr>
      = rev (sort_key (\<lambda>r. ckey (sf_name r)) (rev fs))"
    and "sortedFiles collate date_ms fs \<lparr>so_key = SizeKey, so_dir = Asc\<rparr> = sort_key sf_size_bytes fs"
    and "sortedFiles collate date_ms fs \<lparr>so_key = SizeKey, so_dir = Desc\<rparr> = rev (sort_key sf_size_bytes (rev fs))"
    and "sortedFiles collate date_ms fs \<lparr>so_key = DateKey, so_dir = Asc\<rparr> = sort_key ms fs"
    and "sortedFiles collate date_ms fs \<lparr>so_key = DateKey, so_dir = Desc\<rparr> = rev (sort_key ms (rev fs))"
proof -
  have d: "set fs \<subseteq> dated date_ms" and e: "map (date_of date_ms) fs = map ms fs"
    using assms(3) by (auto simp: dated_def date_of_def)
  have k: "sort_key (date_of date_ms) fs = sort_key ms fs"
    "sort_key (date_of date_ms) (rev fs) = sort_key ms (rev fs)"
    using assms(3) by (auto simp: date_of_def intro!: sort_key_same)
  show "sortedFiles collate date_ms fs \<lparr>so_key = NameKey, so_dir = Asc\<rparr> = sort_key (\<lambda>r. ckey (sf_name r)) fs"
    unfolding sortedFiles_def by (rule ranked.js_sort_key [OF names_up]) (simp_all add: assms)
  show "sortedFiles collate date_ms fs \<lparr>so_key = NameKey, so_dir = Desc\<rparr>
      = rev (sort_key (\<lambda>r. ckey (sf_name r)) (rev fs))"
    unfolding sortedFiles_def by (rule ranked_down.js_sort_key [OF names_down]) (simp_all add: assms)
  show "sortedFiles collate date_ms fs \<lparr>so_key = SizeKey, so_dir = Asc\<rparr> = sort_key sf_size_bytes fs"
    unfolding sortedFiles_def by (rule size_up.js_sort_key) simp
  show "sortedFiles collate date_ms fs \<lparr>so_key = SizeKey, so_dir = Desc\<rparr> = rev (sort_key sf_size_bytes (rev fs))"
    unfolding sortedFiles_def by (rule size_down.js_sort_key) simp
  show "sortedFiles collate date_ms fs \<lparr>so_key = DateKey, so_dir = Asc\<rparr> = sort_key ms fs"
    unfolding sortedFiles_def k(1) [symmetric] by (rule date_up.js_sort_key [OF d])
  show "sortedFiles collate date_ms fs \<lparr>so_key = DateKey, so_dir = Desc\<rparr> = rev (sort_key ms (rev fs))"
    unfolding sortedFiles_def k(2) [symmetric] by (rule date_down.js_sort_key [OF d])
qed

text \<open>C34. A column sorts the files by what it shows, stably: ascending by size, by creation date or
  by name is the stable sort by that key, and descending is its mirror image, so rows that tie keep
  their order in both directions. (The rows are assumed to carry valid dates, and
  \<open>localeCompare\<close> to rank names by their collation keys.)\<close>

theorem listing_sorted_stably:
  fixes ckey :: "string \<Rightarrow> 'k::linorder"
  assumes "\<And>a b. collate a b \<le> 0 \<longleftrightarrow> ckey a \<le> ckey b"
    and "\<And>a b. 0 \<le> collate a b \<longleftrightarrow> ckey b \<le> ckey a"
    and "\<And>r. r \<in> set fs \<Longrightarrow> date_ms (sf_created_at r) = Some (ms r)"
  shows "sortedFiles collate date_ms fs \<lparr>so_key = NameKey, so_dir = Asc\<rparr> = sort_key (\<lambda>r. ckey (sf_name r)) fs
    \<and> sortedFiles collate date_ms fs \<lparr>so_key = NameKey, so_dir = Desc\<rparr>
      = rev (sort_key (\<lambda>r. ckey (sf_name r)) (rev fs))
    \<and> sortedFiles collate date_ms fs \<lparr>so_key = SizeKey, so_dir = Asc\<rparr> = sort_key sf_size_bytes fs
    \<and> sortedFiles collate date_ms fs \<lparr>so_key = SizeKey, so_dir = Desc\<rparr> = rev (sort_key sf_size_bytes (rev fs))
    \<and> sortedFiles collate date_ms fs \<lparr>so_key = DateKey, so_dir = Asc\<rparr> = sort_key ms fs
    \<and> sortedFiles collate date_ms fs \<lparr>so_key = DateKey, so_dir = Desc\<rparr> = rev (sort_key ms (rev fs))"
  by (intro conjI listing_orders [where collate = collate and ckey = ckey and fs = fs
        and date_ms = date_ms and ms = ms, OF assms])

definition two_files :: "file_row list" where
  "two_files =
     [\<lparr>sf_id = ''a'', sf_name = ''bb'', sf_created_at = ''x'', sf_size_bytes = 5\<rparr>,
      \<lparr>sf_id = ''b'', sf_name = ''a'', sf_created_at = ''x'', sf_size_bytes = 5\<rparr>]"

text \<open>Names collated by their length here.\<close>

theorem listing_sorted_stably_witness:
  "map sf_id (sortedFiles (\<lambda>a b. int (length a) - int (length b)) (\<lambda>s. Some 0) two_files
      \<lparr>so_key = NameKey, so_dir = Asc\<rparr>) = [''b'', ''a'']
    \<and> map sf_id (sortedFiles (\<lambda>a b. int (length a) - int (length b)) (\<lambda>s. Some 0) two_files
      \<lparr>so_key = SizeKey, so_dir = Desc\<rparr>) = [''a'', ''b'']"
proof -
  have c: "\<And>a b. int (length a) - int (length b) \<le> 0 \<longleftrightarrow> length a \<le> length b"
    "\<And>a b. 0 \<le> int (length a) - int (length b) \<longleftrightarrow> length b \<le> length a" by auto
  have d: "\<And>r. r \<in> set two_files \<Longrightarrow> (\<lambda>s. Some 0) (sf_created_at r) = Some ((\<lambda>r. 0) r)" by simp
  note s = listing_sorted_stably [where collate = "\<lambda>a b. int (length a) - int (length b)"
      and ckey = length and fs = two_files and date_ms = "\<lambda>s. Some 0" and ms = "\<lambda>r. 0", OF c d]
  from s show ?thesis by (simp add: two_files_def)
qed

end
