(* ===== verification/Storage.thy ===== *)
theory Storage
  imports FileUpload
begin

text \<open>
  The storage servers of the user, \<open>frontend/src/api/storage.ts\<close> (which drive a folder's pin
  stands for, and the speed test), and the progress of a folder's move to another drive,
  \<open>frontend/src/hooks/useDriveMigrationProgress.ts\<close>.
\<close>

datatype drive_type = Nvme | Hdd

record my_server =
  ms_server_id :: string
  ms_drive_id :: string
  ms_name :: string
  ms_state :: string
  ms_drive_type :: drive_type
  ms_capacity_bytes :: nat
  ms_used_bytes :: nat
  ms_drive_used_pct :: rat
  ms_quota_bytes :: nat
  ms_is_primary :: bool
  ms_ping_url :: string

text \<open>\<open>driveId\<close> may be null, undefined or empty; \<open>servers\<close> is undefined before it is loaded. The
  result is the drive, and whether it is the pinned one.\<close>

definition resolveDrive :: "string option \<Rightarrow> my_server list option \<Rightarrow> my_server option \<times> bool" where
  "resolveDrive driveId servers =
     (let pick = (\<lambda>P. Option.bind servers (find P));
          hit = (case driveId of
                   None \<Rightarrow> None
                 | Some d \<Rightarrow> if d = [] then None else pick (\<lambda>s. ms_drive_id s = d))
      in case hit of
           Some s \<Rightarrow> (Some s, True)
         | None \<Rightarrow> (pick ms_is_primary, False))"

section \<open>The speed test\<close>

text \<open>How \<open>fetch\<close> ends, with the milliseconds until the measurement reads the clock again: it
  rejects, or it answers with a status (and, for the download, a body that may fail to arrive).\<close>

datatype fetched = Unreachable | Answer nat bool int

datatype measure_error = RateLimited | OtherError

definition pingServer :: "fetched \<Rightarrow> measure_error + int" where
  "pingServer f = (case f of Unreachable \<Rightarrow> Inl OtherError | Answer _ _ ms \<Rightarrow> Inr ms)"

text \<open>\<open>size / elapsedSec * 8\<close>, for \<open>elapsedSec = ms / 1000\<close>; \<open>None\<close> is the infinity that a division
  by zero gives.\<close>

definition mbps :: "rat \<Rightarrow> int \<Rightarrow> rat option" where
  "mbps mb ms = (if ms = 0 then None else Some (mb / (of_int ms / 1000) * 8))"

definition measureDownloadSpeed :: "fetched \<Rightarrow> measure_error + rat option" where
  "measureDownloadSpeed f =
     (case f of
        Unreachable \<Rightarrow> Inl OtherError
      | Answer st body ms \<Rightarrow>
          if st = 429 then Inl RateLimited
          else if \<not> body then Inl OtherError
          else Inr (mbps 1 ms))"

definition measureUploadSpeed :: "fetched \<Rightarrow> measure_error + rat option" where
  "measureUploadSpeed f =
     (case f of
        Unreachable \<Rightarrow> Inl OtherError
      | Answer st _ ms \<Rightarrow> if st = 429 then Inl RateLimited else Inr (mbps (1 / 2) ms))"

record speed_metrics =
  sm_ping_ms :: "int option"
  sm_download_mbps :: "rat option option"
  sm_upload_mbps :: "rat option option"

definition runSpeedTest :: "fetched \<Rightarrow> fetched \<Rightarrow> fetched \<Rightarrow> measure_error + speed_metrics" where
  "runSpeedTest ping down up =
     (let p = (case pingServer ping of Inl _ \<Rightarrow> None | Inr ms \<Rightarrow> Some ms)
      in case measureDownloadSpeed down of
           Inl RateLimited \<Rightarrow> Inl RateLimited
         | d \<Rightarrow>
             (case measureUploadSpeed up of
                Inl RateLimited \<Rightarrow> Inl RateLimited
              | u \<Rightarrow> Inr \<lparr>sm_ping_ms = p,
                          sm_download_mbps = (case d of Inl _ \<Rightarrow> None | Inr x \<Rightarrow> Some x),
                          sm_upload_mbps = (case u of Inl _ \<Rightarrow> None | Inr x \<Rightarrow> Some x)\<rparr>))"

section \<open>Moving a folder to another drive\<close>

datatype migration_status = MPending | MInProgress | MCompleted | MFailed

record migration =
  mg_status :: migration_status
  mg_total_bytes :: nat
  mg_bytes_moved :: nat

definition POLL_MS :: nat where "POLL_MS = 1500"

definition STATUS_MAP :: "migration_status \<Rightarrow> upload_status" where
  "STATUS_MAP s =
     (case s of MPending \<Rightarrow> UUploading | MInProgress \<Rightarrow> UUploading | MCompleted \<Rightarrow> UComplete | MFailed \<Rightarrow> UAllFailed)"

definition ITEM_STATUS_MAP :: "migration_status \<Rightarrow> item_status" where
  "ITEM_STATUS_MAP s =
     (case s of MPending \<Rightarrow> Uploading | MInProgress \<Rightarrow> Uploading | MCompleted \<Rightarrow> Done | MFailed \<Rightarrow> Failed)"

definition toUploadProgress :: "migration \<Rightarrow> string \<Rightarrow> upload_progress" where
  "toUploadProgress m folderName =
     \<lparr>up_status = STATUS_MAP (mg_status m),
      items = [\<lparr>it_name = folderName, it_size = mg_total_bytes m, it_loaded = mg_bytes_moved m,
                it_status = ITEM_STATUS_MAP (mg_status m), it_error = None\<rparr>],
      totalBytes = mg_total_bytes m, loadedBytes = mg_bytes_moved m, speedBps = 0,
      succeeded = (if mg_status m = MCompleted then 1 else 0),
      failed = (if mg_status m = MFailed then 1 else 0)\<rparr>"

text \<open>\<open>refetchInterval\<close>: \<open>None\<close> stops the polling.\<close>

definition migration_interval :: "migration option \<Rightarrow> nat option" where
  "migration_interval m =
     (case m of
        None \<Rightarrow> None
      | Some x \<Rightarrow> if mg_status x = MPending \<or> mg_status x = MInProgress then Some POLL_MS else None)"

record migration_view =
  mv_enabled :: bool
  mv_interval :: "nat option"
  mv_progress :: "upload_progress option"
  mv_isActive :: bool

definition useDriveMigrationProgress :: "string option \<Rightarrow> string \<Rightarrow> migration option \<Rightarrow> migration_view" where
  "useDriveMigrationProgress folderId folderName m =
     \<lparr>mv_enabled = (folderId \<noteq> None), mv_interval = migration_interval m,
      mv_progress = map_option (\<lambda>x. toUploadProgress x folderName) m,
      mv_isActive = (case m of None \<Rightarrow> False | Some x \<Rightarrow> mg_status x = MPending \<or> mg_status x = MInProgress)\<rparr>"

section \<open>Properties\<close>

text \<open>The drive a folder resolves to is one of the user's: the drive that is pinned when the pin
  names one of them, and otherwise (no pin, a stale pin, or servers still loading) the first
  primary one, reported as not pinned.\<close>

theorem drive_resolves:
  "resolveDrive driveId servers =
     (case find (\<lambda>s. driveId = Some (ms_drive_id s) \<and> ms_drive_id s \<noteq> []) (or_else servers []) of
        Some s \<Rightarrow> (Some s, True)
      | None \<Rightarrow> (find ms_is_primary (or_else servers []), False))"
proof -
  have none: "find (\<lambda>s. [] = ms_drive_id s \<and> ms_drive_id s \<noteq> []) xs = None" for xs
    by (induction xs) auto
  have some: "d \<noteq> [] \<Longrightarrow> find (\<lambda>s. d = ms_drive_id s \<and> ms_drive_id s \<noteq> []) xs = find (\<lambda>s. ms_drive_id s = d) xs"
    for d xs by (induction xs) auto
  have "find (\<lambda>s. False) xs = None" for xs :: "my_server list" by (induction xs) auto
  then show ?thesis
    by (cases servers; cases driveId; cases "the driveId = []")
       (simp_all add: resolveDrive_def none some split: option.splits)
qed

lemma measure_answers:
  "measureDownloadSpeed d = Inl RateLimited \<longleftrightarrow> (\<exists>b ms. d = Answer 429 b ms)"
  "measureUploadSpeed u = Inl RateLimited \<longleftrightarrow> (\<exists>b ms. u = Answer 429 b ms)"
  by (auto simp: measureDownloadSpeed_def measureUploadSpeed_def split: fetched.splits)

text \<open>The speed test fails only when the server rate-limits it: a refused download or upload is
  the error \<open>RATE_LIMITED\<close>, and everything else that goes wrong leaves its figure empty while the
  other figures are measured.\<close>

theorem speed_test_outcome:
  "runSpeedTest ping down up =
     (if (\<exists>b ms. down = Answer 429 b ms) \<or> (\<exists>b ms. up = Answer 429 b ms) then Inl RateLimited
      else Inr
        \<lparr>sm_ping_ms = (case ping of Unreachable \<Rightarrow> None | Answer _ _ ms \<Rightarrow> Some ms),
         sm_download_mbps =
           (case down of Unreachable \<Rightarrow> None | Answer _ b ms \<Rightarrow> if b then Some (mbps 1 ms) else None),
         sm_upload_mbps = (case up of Unreachable \<Rightarrow> None | Answer _ _ ms \<Rightarrow> Some (mbps (1 / 2) ms))\<rparr>)"
  by (cases ping; cases down; cases up)
     (auto simp: runSpeedTest_def pingServer_def measureDownloadSpeed_def measureUploadSpeed_def)

text \<open>A server that answers every request with an error page is measured as if it had served the
  test: only the status 429 is looked at.\<close>

theorem speed_test_measures_error_pages:
  "runSpeedTest (Answer 500 True 20) (Answer 500 True 40) (Answer 503 True 40)
     = Inr \<lparr>sm_ping_ms = Some 20, sm_download_mbps = Some (Some 200), sm_upload_mbps = Some (Some 100)\<rparr>"
  by (simp add: runSpeedTest_def pingServer_def measureDownloadSpeed_def measureUploadSpeed_def mbps_def)

text \<open>The toast of a folder's move agrees with the migration: it is polled exactly while it is
  pending or in progress, and that is when the toast shows an upload under way; a finished one counts
  one success, a failed one one failure, and the bytes are those of the migration.\<close>

theorem migration_toast_agrees:
  "case mv_progress (useDriveMigrationProgress f name m) of
     None \<Rightarrow> m = None \<and> mv_interval (useDriveMigrationProgress f name m) = None
       \<and> \<not> mv_isActive (useDriveMigrationProgress f name m)
   | Some p \<Rightarrow> \<exists>x. m = Some x
       \<and> mv_isActive (useDriveMigrationProgress f name m) = (up_status p = UUploading)
       \<and> (mv_interval (useDriveMigrationProgress f name m) = Some POLL_MS) = (up_status p = UUploading)
       \<and> (succeeded p = 1) = (up_status p = UComplete) \<and> (failed p = 1) = (up_status p = UAllFailed)
       \<and> succeeded p + failed p = (if up_status p = UUploading then 0 else 1)
       \<and> totalBytes p = mg_total_bytes x \<and> loadedBytes p = mg_bytes_moved x
       \<and> totalBytes p = sum_list (map it_size (items p)) \<and> loadedBytes p = sum_list (map it_loaded (items p))"
proof (cases m)
  case (Some x)
  then show ?thesis
    by (cases "mg_status x")
       (simp_all add: useDriveMigrationProgress_def toUploadProgress_def migration_interval_def STATUS_MAP_def)
qed (simp add: useDriveMigrationProgress_def migration_interval_def)

end
