(* ===== verification/Favorites.thy ===== *)
theory Favorites
  imports Prelude
begin

text \<open>
  The favourites list, \<open>frontend/src/hooks/useFavorites.ts\<close> with the calls of
  \<open>frontend/src/api/favorites.ts\<close>: the cached list, the optimistic removal with its rollback, and
  the refetch every settled mutation asks for. A step is a click or the settling of a request; the
  list the server answers a refetch with is the event's.
\<close>

record fav_list =
  fl_files :: "string list"
  fl_folders :: "string list"

datatype fav_request = PostFile string | DeleteFile string | PostFolder string | DeleteFolder string

text \<open>A mutation under way: its request and the context \<open>onMutate\<close> returned, the list before it.\<close>

record fav_mutation =
  fm_request :: fav_request
  fm_prev :: "fav_list option"

record fav_state =
  fv_cache :: "fav_list option"
  fv_pending :: "fav_mutation list"
  fv_stale :: bool

definition favoriteFileIds :: "fav_state \<Rightarrow> string set" where
  "favoriteFileIds s = (case fv_cache s of None \<Rightarrow> {} | Some l \<Rightarrow> set (fl_files l))"

definition favoriteFolderIds :: "fav_state \<Rightarrow> string set" where
  "favoriteFolderIds s = (case fv_cache s of None \<Rightarrow> {} | Some l \<Rightarrow> set (fl_folders l))"

text \<open>\<open>optimisticToggle\<close> returns the list before the update with the state after it.\<close>

definition optimisticToggle :: "(fav_list \<Rightarrow> fav_list) \<Rightarrow> fav_state \<Rightarrow> fav_list option \<times> fav_state" where
  "optimisticToggle f s =
     (case fv_cache s of
        None \<Rightarrow> (None, s)
      | Some l \<Rightarrow> (Some l, s\<lparr>fv_cache := Some (f l)\<rparr>))"

definition without_file :: "string \<Rightarrow> fav_list \<Rightarrow> fav_list" where
  "without_file i l = l\<lparr>fl_files := filter (\<lambda>x. x \<noteq> i) (fl_files l)\<rparr>"

definition without_folder :: "string \<Rightarrow> fav_list \<Rightarrow> fav_list" where
  "without_folder i l = l\<lparr>fl_folders := filter (\<lambda>x. x \<noteq> i) (fl_folders l)\<rparr>"

text \<open>\<open>mutate\<close>: the \<open>onMutate\<close> of the four mutations, and the request.\<close>

definition on_mutate :: "fav_request \<Rightarrow> fav_state \<Rightarrow> fav_list option \<times> fav_state" where
  "on_mutate r s =
     (case r of
        PostFile _ \<Rightarrow> optimisticToggle (\<lambda>l. l) s
      | DeleteFile i \<Rightarrow> optimisticToggle (without_file i) s
      | PostFolder _ \<Rightarrow> (None, s)
      | DeleteFolder i \<Rightarrow> optimisticToggle (without_folder i) s)"

definition mutate :: "fav_request \<Rightarrow> fav_state \<Rightarrow> fav_state" where
  "mutate r s =
     (let (prev, s') = on_mutate r s
      in s'\<lparr>fv_pending := fv_pending s' @ [\<lparr>fm_request = r, fm_prev = prev\<rparr>]\<rparr>)"

definition toggleFile :: "string \<Rightarrow> fav_state \<Rightarrow> fav_state" where
  "toggleFile i s = mutate (if i \<in> favoriteFileIds s then DeleteFile i else PostFile i) s"

definition toggleFolder :: "string \<Rightarrow> fav_state \<Rightarrow> fav_state" where
  "toggleFolder i s = mutate (if i \<in> favoriteFolderIds s then DeleteFolder i else PostFolder i) s"

text \<open>\<open>onError\<close> of the removals puts the list back; \<open>onSettled\<close> invalidates the query.\<close>

definition on_error :: "fav_mutation \<Rightarrow> fav_state \<Rightarrow> fav_state" where
  "on_error m s =
     (case fm_request m of
        DeleteFile _ \<Rightarrow> (case fm_prev m of None \<Rightarrow> s | Some l \<Rightarrow> s\<lparr>fv_cache := Some l\<rparr>)
      | DeleteFolder _ \<Rightarrow> (case fm_prev m of None \<Rightarrow> s | Some l \<Rightarrow> s\<lparr>fv_cache := Some l\<rparr>)
      | _ \<Rightarrow> s)"

definition on_settled :: "fav_state \<Rightarrow> fav_state" where
  "on_settled s = s\<lparr>fv_stale := True\<rparr>"

definition settle_mutation :: "nat \<Rightarrow> bool \<Rightarrow> fav_state \<Rightarrow> fav_state" where
  "settle_mutation i ok s =
     (if i < length (fv_pending s)
      then let m = fv_pending s ! i;
               s1 = s\<lparr>fv_pending := take i (fv_pending s) @ drop (Suc i) (fv_pending s)\<rparr>
           in on_settled (if ok then s1 else on_error m s1)
      else s)"

definition refetched :: "fav_list \<Rightarrow> fav_state \<Rightarrow> fav_state" where
  "refetched l s = s\<lparr>fv_cache := Some l, fv_stale := False\<rparr>"

datatype fav_event = ToggleFile string | ToggleFolder string | Settled nat bool | Refetched fav_list

definition fav_step :: "fav_event \<Rightarrow> fav_state \<Rightarrow> fav_state" where
  "fav_step e s =
     (case e of
        ToggleFile i \<Rightarrow> toggleFile i s
      | ToggleFolder i \<Rightarrow> toggleFolder i s
      | Settled i ok \<Rightarrow> settle_mutation i ok s
      | Refetched l \<Rightarrow> refetched l s)"

section \<open>Properties\<close>

lemmas fav_defs = toggleFile_def toggleFolder_def mutate_def on_mutate_def optimisticToggle_def
  without_file_def without_folder_def settle_mutation_def on_error_def on_settled_def

text \<open>A click does what the star shows: when the file is a favourite it asks the server to
  remove it and takes it, and nothing else, off the list at once; when it is not, it asks to add it
  and leaves the list alone.\<close>

theorem toggle_matches_star:
  "map fm_request (fv_pending (toggleFile i s))
      = map fm_request (fv_pending s) @ [if i \<in> favoriteFileIds s then DeleteFile i else PostFile i]
    \<and> favoriteFileIds (toggleFile i s) = favoriteFileIds s - {i}
    \<and> favoriteFolderIds (toggleFile i s) = favoriteFolderIds s"
  by (cases "fv_cache s")
     (auto simp: fav_defs favoriteFileIds_def favoriteFolderIds_def)

text \<open>A removal that fails is undone: when the last request was a removal by a click and it
  fails before anything else happens, the cached list is exactly what it was, the request is gone
  and the list is marked for a refetch; when it succeeds the file stays off the list.\<close>

theorem failed_removal_undone:
  "settle_mutation (length (fv_pending s)) False (toggleFile i s) = s\<lparr>fv_stale := True\<rparr>
    \<and> settle_mutation (length (fv_pending s)) False (toggleFolder i s) = s\<lparr>fv_stale := True\<rparr>
    \<and> favoriteFileIds (settle_mutation (length (fv_pending s)) True (toggleFile i s)) = favoriteFileIds s - {i}"
proof -
  obtain c p b where s: "s = \<lparr>fv_cache = c, fv_pending = p, fv_stale = b\<rparr>" by (cases s)
  show ?thesis
    by (cases c) (auto simp: s fav_defs favoriteFileIds_def favoriteFolderIds_def)
qed

text \<open>Two removals at a time: the failure of the first puts back the list of before both, so the
  second file reappears although its removal has succeeded, until the refetch.\<close>

theorem late_failure_revives_other:
  "favoriteFileIds
     (settle_mutation 0 False (settle_mutation 1 True (toggleFile ''b'' (toggleFile ''a''
       \<lparr>fv_cache = Some \<lparr>fl_files = [''a'', ''b''], fl_folders = []\<rparr>, fv_pending = [], fv_stale = False\<rparr>))))
   = {''a'', ''b''}"
  by (simp add: fav_defs favoriteFileIds_def)

text \<open>Whatever happens, the list is only trusted until a request settles: after the last one has
  settled the query is stale, so a refetch follows.\<close>

lemma settled_is_stale:
  "i < length (fv_pending s) \<Longrightarrow> fv_stale (settle_mutation i ok s)"
  by (simp add: settle_mutation_def on_settled_def Let_def)

end
