(* ===== verification/FolderApi.thy ===== *)
theory FolderApi
  imports JsNumber
begin

text \<open>
  The folder requests, \<open>frontend/src/api/folders.ts\<close>: the query strings of a listing and of a media
  listing with its filter facets, the walk of a path of names down the tree, and the prefix picker of
  \<open>frontend/src/components/FolderPrefixPicker.tsx\<close>, whose result that walk reads back. The
  rendering and parsing of \<open>URLSearchParams\<close> (form encoding) is written out. Local calendar days as
  instants, and the server's answers, are parameters.
\<close>

section \<open>Form encoding\<close>

type_synonym params = "(string \<times> string) list"

text \<open>\<open>set(k, v)\<close>: replaces the first entry of the name and drops the others, or appends.\<close>

definition params_set :: "string \<Rightarrow> string \<Rightarrow> params \<Rightarrow> params" where
  "params_set k v ps =
     (if k \<in> set (map fst ps)
      then takeWhile (\<lambda>p. fst p \<noteq> k) ps @ (k, v) # filter (\<lambda>p. fst p \<noteq> k) (dropWhile (\<lambda>p. fst p \<noteq> k) ps)
      else ps @ [(k, v)])"

definition form_plain :: "char \<Rightarrow> bool" where
  "form_plain c \<longleftrightarrow> is_alnum c \<or> c \<in> {CHR ''*'', CHR ''-'', CHR ''.'', CHR ''_''}"

definition form_byte :: "char \<Rightarrow> string" where
  "form_byte c =
     (if form_plain c then [c]
      else if c = CHR '' '' then [CHR ''+'']
      else [CHR ''%'', hex_digit (of_char c div 16), hex_digit (of_char c mod 16)])"

definition form_encode :: "string \<Rightarrow> string" where
  "form_encode s = concat (map form_byte s)"

fun join_with :: "char \<Rightarrow> string list \<Rightarrow> string" where
  "join_with c [] = []"
| "join_with c [x] = x"
| "join_with c (x # y # ys) = x @ c # join_with c (y # ys)"

definition params_string :: "params \<Rightarrow> string" where
  "params_string ps = join_with CHR ''&'' (map (\<lambda>(k, v). form_encode k @ CHR ''='' # form_encode v) ps)"

text \<open>\<open>s.split(c)\<close>\<close>

fun split_on :: "char \<Rightarrow> string \<Rightarrow> string list" where
  "split_on c [] = [[]]"
| "split_on c (x # xs) =
     (if x = c then [] # split_on c xs
      else (case split_on c xs of y # ys \<Rightarrow> (x # y) # ys | [] \<Rightarrow> [[x]]))"

definition is_hex :: "char \<Rightarrow> bool" where
  "is_hex c \<longleftrightarrow> is_digit c \<or> c \<in> set ''abcdefABCDEF''"

definition hex_val :: "char \<Rightarrow> nat" where
  "hex_val c = (if is_lower c then of_char c - 87 else hex_value c)"

fun form_decode :: "string \<Rightarrow> string" where
  "form_decode [] = []"
| "form_decode (c # cs) =
     (if c = CHR ''+'' then CHR '' '' # form_decode cs
      else if c = CHR ''%'' then
        (case cs of
           h # l # rest \<Rightarrow>
             if is_hex h \<and> is_hex l then char_of (16 * hex_val h + hex_val l) # form_decode rest
             else c # form_decode cs
         | _ \<Rightarrow> c # form_decode cs)
      else c # form_decode cs)"

definition parse_pair :: "string \<Rightarrow> string \<times> string" where
  "parse_pair s =
     (form_decode (takeWhile (\<lambda>c. c \<noteq> CHR ''='') s), form_decode (drop 1 (dropWhile (\<lambda>c. c \<noteq> CHR ''='') s)))"

definition params_parse :: "string \<Rightarrow> params" where
  "params_parse s = map parse_pair (filter (\<lambda>x. x \<noteq> []) (split_on CHR ''&'' s))"

lemma form_byte_chars:
  "x \<in> set (form_byte c) \<Longrightarrow> is_alnum x \<or> x \<in> {CHR ''*'', CHR ''-'', CHR ''.'', CHR ''_'', CHR ''+'', CHR ''%''}"
  by (auto simp: form_byte_def form_plain_def hex_digit_alnum high_nibble split: if_splits)

lemma form_chars:
  "x \<in> set (form_encode s) \<Longrightarrow> x \<noteq> CHR ''&'' \<and> x \<noteq> CHR ''=''"
proof -
  assume "x \<in> set (form_encode s)"
  then obtain c where "x \<in> set (form_byte c)" by (auto simp: form_encode_def)
  from form_byte_chars [OF this] show ?thesis
    by (auto simp: is_alnum_def is_upper_def is_lower_def is_digit_def)
qed

lemma hex_digit_back: "n < 16 \<Longrightarrow> is_hex (hex_digit n) \<and> hex_val (hex_digit n) = n"
proof -
  assume n: "n < 16"
  have u: "\<not> is_lower (hex_digit n)" using n by (auto simp: hex_digit_def is_lower_def)
  have "n < 10 \<or> n = 10 \<or> n = 11 \<or> n = 12 \<or> n = 13 \<or> n = 14 \<or> n = 15" using n by linarith
  then have "is_hex (hex_digit n)"
    by (auto simp: hex_digit_def is_hex_def is_digit_def char_of_eq_iff take_bit_eq_mod)
  with u n show ?thesis by (simp add: hex_val_def hex_value_digit)
qed

lemma form_decode_byte: "form_decode (form_byte c @ s) = c # form_decode s"
proof (cases "form_plain c")
  case True
  then have "c \<noteq> CHR ''+''" "c \<noteq> CHR ''%''"
    by (auto simp: form_plain_def is_alnum_def is_upper_def is_lower_def is_digit_def)
  with True show ?thesis by (simp add: form_byte_def)
next
  case False
  show ?thesis
  proof (cases "c = CHR '' ''")
    case True
    with False show ?thesis by (simp add: form_byte_def)
  next
    case nsp: False
    have h: "is_hex (hex_digit (of_char c div 16))" "hex_val (hex_digit (of_char c div 16)) = of_char c div 16"
      "is_hex (hex_digit (of_char c mod 16))" "hex_val (hex_digit (of_char c mod 16)) = of_char c mod 16"
      using hex_digit_back [OF high_nibble [of c]] hex_digit_back [of "of_char c mod 16"] by simp_all
    then show ?thesis using False nsp by (simp add: form_byte_def)
  qed
qed

lemma form_decode_encode: "form_decode (form_encode s) = s"
  by (induction s) (simp_all add: form_encode_def form_decode_byte)

lemma split_on_nonempty: "split_on c s \<noteq> []"
  by (induction s) (auto split: list.splits)

lemma split_on_none: "c \<notin> set s \<Longrightarrow> split_on c s = [s]"
  by (induction s) auto

lemma split_on_append: "c \<notin> set x \<Longrightarrow> split_on c (x @ c # s) = x # split_on c s"
  by (induction x) (auto split: list.splits)

lemma split_join:
  "xs \<noteq> [] \<Longrightarrow> \<forall>x \<in> set xs. c \<notin> set x \<Longrightarrow> split_on c (join_with c xs) = xs"
  by (induction c xs rule: join_with.induct) (simp_all add: split_on_none split_on_append)

lemma parse_pair_render:
  "parse_pair (form_encode k @ CHR ''='' # form_encode v) = (k, v)"
proof -
  have "takeWhile (\<lambda>c. c \<noteq> CHR ''='') (form_encode k @ CHR ''='' # form_encode v) = form_encode k"
    "dropWhile (\<lambda>c. c \<noteq> CHR ''='') (form_encode k @ CHR ''='' # form_encode v) = CHR ''='' # form_encode v"
    using form_chars [of _ k] by (simp_all add: takeWhile_tail takeWhile_append2 dropWhile_append2)
  then show ?thesis by (simp add: parse_pair_def form_decode_encode)
qed

text \<open>Parsing what was rendered gives the same entries.\<close>

lemma params_parse_string: "params_parse (params_string ps) = ps"
proof (cases "ps = []")
  case True
  then show ?thesis by (simp add: params_parse_def params_string_def)
next
  case False
  let ?segs = "map (\<lambda>(k, v). form_encode k @ CHR ''='' # form_encode v) ps"
  have "CHR ''&'' \<notin> set x" if "x \<in> set ?segs" for x
    using that form_chars by fastforce
  then have "split_on CHR ''&'' (params_string ps) = ?segs"
    using False unfolding params_string_def by (intro split_join) auto
  moreover have "filter (\<lambda>x. x \<noteq> []) ?segs = ?segs" by (rule filter_True) auto
  ultimately show ?thesis
    by (auto simp: params_parse_def parse_pair_render intro!: map_idI)
qed

section \<open>The query of a listing\<close>

record folder_page_params =
  fp_folderCursor :: "string option"
  fp_fileCursor :: "string option"
  fp_folderLimit :: "nat option"
  fp_fileLimit :: "nat option"
  fp_drive :: "string option"
  fp_includeUnassigned :: "bool option"

text \<open>A falsy string (missing or empty) sets nothing.\<close>

definition set_text :: "string \<Rightarrow> string option \<Rightarrow> params \<Rightarrow> params" where
  "set_text k v ps = (case v of None \<Rightarrow> ps | Some s \<Rightarrow> if s = [] then ps else params_set k s ps)"

definition set_number :: "string \<Rightarrow> nat option \<Rightarrow> params \<Rightarrow> params" where
  "set_number k v ps = (case v of None \<Rightarrow> ps | Some n \<Rightarrow> params_set k (show_nat n) ps)"

definition query_params :: "'a folder_page_params_scheme \<Rightarrow> params" where
  "query_params p =
     (let ps = set_text ''folder_cursor'' (fp_folderCursor p) [];
          ps = set_text ''file_cursor'' (fp_fileCursor p) ps;
          ps = set_number ''folder_limit'' (fp_folderLimit p) ps;
          ps = set_number ''file_limit'' (fp_fileLimit p) ps;
          ps = set_text ''drive'' (fp_drive p) ps
      in if fp_includeUnassigned p = Some True then params_set ''include_unassigned'' ''true'' ps else ps)"

definition buildQS :: "'a folder_page_params_scheme \<Rightarrow> string" where
  "buildQS p = (let ps = query_params p in if ps \<noteq> [] then CHR ''?'' # params_string ps else [])"

datatype media_sort = TakenAt | CreatedAt | ByName | BySource
datatype hidden_mode = Hide | ShowAll | OnlyHidden
datatype media_type = Image | Video | OtherMedia

record media_filters =
  mf_takenAfter :: string
  mf_takenBefore :: string
  mf_uploadedAfter :: string
  mf_uploadedBefore :: string
  mf_sources :: "string list"
  mf_mediaTypes :: "media_type list"
  mf_groupIds :: "string list"

definition EMPTY_MEDIA_FILTERS :: media_filters where
  "EMPTY_MEDIA_FILTERS = \<lparr>mf_takenAfter = [], mf_takenBefore = [], mf_uploadedAfter = [], mf_uploadedBefore = [],
     mf_sources = [], mf_mediaTypes = [], mf_groupIds = []\<rparr>"

definition countMediaFilters :: "media_filters \<Rightarrow> nat" where
  "countMediaFilters f =
     (if mf_takenAfter f \<noteq> [] then 1 else 0) + (if mf_takenBefore f \<noteq> [] then 1 else 0)
     + (if mf_uploadedAfter f \<noteq> [] then 1 else 0) + (if mf_uploadedBefore f \<noteq> [] then 1 else 0)
     + (if mf_sources f \<noteq> [] then 1 else 0) + (if mf_mediaTypes f \<noteq> [] then 1 else 0)
     + (if mf_groupIds f \<noteq> [] then 1 else 0)"

record media_page_params = folder_page_params +
  mp_sort :: "media_sort option"
  mp_hidden :: "hidden_mode option"
  mp_filters :: "media_filters option"

fun sort_name :: "media_sort \<Rightarrow> string" where
  "sort_name TakenAt = ''taken_at''"
| "sort_name CreatedAt = ''created_at''"
| "sort_name ByName = ''name''"
| "sort_name BySource = ''source''"

fun media_type_name :: "media_type \<Rightarrow> string" where
  "media_type_name Image = ''image''"
| "media_type_name Video = ''video''"
| "media_type_name OtherMedia = ''other''"

datatype edge = StartEdge | EndEdge

text \<open>\<open>local_iso y m d e\<close> is the instant of the start or the end of a day in the viewer's time zone,
  as text; \<open>None\<close> for an invalid date.\<close>

type_synonym local_days = "jsnum \<Rightarrow> jsnum \<Rightarrow> jsnum \<Rightarrow> edge \<Rightarrow> string option"

definition falsy_num :: "jsnum option \<Rightarrow> bool" where
  "falsy_num x = (case x of None \<Rightarrow> True | Some v \<Rightarrow> v = NaN \<or> v = Fin 0)"

definition dayBoundary :: "local_days \<Rightarrow> string \<Rightarrow> edge \<Rightarrow> string option" where
  "dayBoundary local_iso date e =
     (let parts = map js_Number (split_on CHR ''-'' date);
          part = (\<lambda>i. if i < length parts then Some (parts ! i) else None)
      in if falsy_num (part 0) \<or> falsy_num (part 1) \<or> falsy_num (part 2) then None
         else local_iso (the (part 0)) (the (part 1)) (the (part 2)) e)"

definition add_range :: "local_days \<Rightarrow> string \<times> string \<times> edge \<Rightarrow> params \<Rightarrow> params" where
  "add_range local_iso r ps =
     (let (k, v, e) = r
      in if v = [] then ps
         else (case dayBoundary local_iso v e of
                 None \<Rightarrow> ps
               | Some s \<Rightarrow> if s = [] then ps else params_set k s ps))"

definition add_list :: "string \<Rightarrow> string list \<Rightarrow> params \<Rightarrow> params" where
  "add_list k vs ps = (if vs \<noteq> [] then params_set k (join_with CHR '','' vs) ps else ps)"

definition appendMediaFilters :: "local_days \<Rightarrow> media_filters option \<Rightarrow> params \<Rightarrow> params" where
  "appendMediaFilters local_iso f ps =
     (case f of
        None \<Rightarrow> ps
      | Some m \<Rightarrow>
          let ranges = [(''taken_after'', mf_takenAfter m, StartEdge), (''taken_before'', mf_takenBefore m, EndEdge),
                        (''uploaded_after'', mf_uploadedAfter m, StartEdge),
                        (''uploaded_before'', mf_uploadedBefore m, EndEdge)];
              ps = fold (add_range local_iso) ranges ps;
              ps = add_list ''source'' (mf_sources m) ps;
              ps = add_list ''media_type'' (map media_type_name (mf_mediaTypes m)) ps
          in add_list ''group'' (mf_groupIds m) ps)"

text \<open>\<open>replace(/^\?/, '')\<close>\<close>

definition strip_question :: "string \<Rightarrow> string" where
  "strip_question s = (case s of c # cs \<Rightarrow> if c = CHR ''?'' then cs else s | [] \<Rightarrow> [])"

definition mediaQS :: "local_days \<Rightarrow> media_page_params \<Rightarrow> params" where
  "mediaQS local_iso p =
     (let ps = params_parse (strip_question (buildQS p));
          ps = (case mp_sort p of None \<Rightarrow> ps | Some s \<Rightarrow> params_set ''sort'' (sort_name s) ps);
          ps = (case mp_hidden p of
                  None \<Rightarrow> ps
                | Some h \<Rightarrow> if h = Hide then ps
                           else params_set ''hidden'' (if h = OnlyHidden then ''only'' else ''show'') ps)
      in appendMediaFilters local_iso (mp_filters p) ps)"

definition media_request :: "string \<Rightarrow> local_days \<Rightarrow> string \<Rightarrow> media_page_params \<Rightarrow> string" where
  "media_request tail_path local_iso folderId p =
     (let ps = mediaQS local_iso p
      in ''/folders/'' @ folderId @ tail_path @ (if ps \<noteq> [] then CHR ''?'' # params_string ps else []))"

definition getMediaFolder :: "local_days \<Rightarrow> string \<Rightarrow> media_page_params \<Rightarrow> string" where
  "getMediaFolder = media_request ''/media''"

definition getMediaFileIds :: "local_days \<Rightarrow> string \<Rightarrow> media_page_params \<Rightarrow> string" where
  "getMediaFileIds = media_request ''/media/ids''"

section \<open>Walking a path of names\<close>

datatype folder_kind = Regular | MediaKind | EmailKind

record folder =
  fo_id :: string
  fo_user_id :: string
  fo_parent_id :: "string option"
  fo_name :: string
  fo_kind :: folder_kind
  fo_size_bytes :: nat
  fo_drive_id :: "string option"
  fo_ai_recognition_enabled :: bool
  fo_created_at :: string
  fo_updated_at :: string

text \<open>The page size the walk asks for; it reads no further page.\<close>

definition PATH_FOLDER_LIMIT :: nat where "PATH_FOLDER_LIMIT = 200"

fun walk_path ::
  "(string option \<Rightarrow> 'e + folder list) \<Rightarrow> folder option \<Rightarrow> folder list \<Rightarrow> string list \<Rightarrow> 'e + folder option"
where
  "walk_path serve found contents [] = Inr found"
| "walk_path serve found contents (seg # segs) =
     (case find (\<lambda>f. fo_name f = seg) contents of
        None \<Rightarrow> Inr None
      | Some f \<Rightarrow>
          (case serve (Some (fo_id f)) of
             Inl e \<Rightarrow> Inl e
           | Inr c \<Rightarrow> walk_path serve (Some f) c segs))"

definition path_segments :: "string \<Rightarrow> string list" where
  "path_segments path = filter (\<lambda>s. s \<noteq> []) (map trim (split_on CHR ''/'' path))"

text \<open>\<open>serve None\<close> is the answer of \<open>listRoot\<close>, \<open>serve (Some i)\<close> that of \<open>getFolder(i)\<close>,
  both with the page size as folder limit.\<close>

definition resolvePathToFolder :: "(string option \<Rightarrow> 'e + folder list) \<Rightarrow> string \<Rightarrow> 'e + folder option" where
  "resolvePathToFolder serve path =
     (let segments = path_segments path
      in if segments = [] then Inr None
         else (case serve None of
                 Inl e \<Rightarrow> Inl e
               | Inr contents \<Rightarrow> walk_path serve None contents segments))"

text \<open>The prefix picker: descending, going back to a breadcrumb, choosing the current folder.\<close>

record picker =
  pk_trail :: "folder list"
  pk_expanded :: bool
  pk_value :: "string \<times> folder option"

definition picker_open :: "picker \<Rightarrow> picker" where
  "picker_open p = p\<lparr>pk_expanded := \<not> pk_expanded p, pk_trail := []\<rparr>"

definition picker_descend :: "folder \<Rightarrow> picker \<Rightarrow> picker" where
  "picker_descend f p = p\<lparr>pk_trail := pk_trail p @ [f]\<rparr>"

definition picker_crumb :: "nat \<Rightarrow> picker \<Rightarrow> picker" where
  "picker_crumb i p = p\<lparr>pk_trail := take (Suc i) (pk_trail p)\<rparr>"

definition picker_choose :: "picker \<Rightarrow> picker" where
  "picker_choose p =
     p\<lparr>pk_value := (join_with CHR ''/'' (map fo_name (pk_trail p)),
          if pk_trail p = [] then None else Some (last (pk_trail p))),
       pk_expanded := False\<rparr>"

section \<open>The media query\<close>

text \<open>The specification: an entry per parameter that has a value, in the order the code sets them.\<close>

definition present :: "(string \<times> string option) list \<Rightarrow> params" where
  "present kvs = concat (map (\<lambda>(k, v). case v of None \<Rightarrow> [] | Some s \<Rightarrow> [(k, s)]) kvs)"

definition set_opt :: "string \<times> string option \<Rightarrow> params \<Rightarrow> params" where
  "set_opt kv ps = (case snd kv of None \<Rightarrow> ps | Some s \<Rightarrow> params_set (fst kv) s ps)"

lemma present_simps [simp]:
  "present [] = []"
  "present (kv # kvs) = (case snd kv of None \<Rightarrow> [] | Some s \<Rightarrow> [(fst kv, s)]) @ present kvs"
  "present (kvs @ kvs') = present kvs @ present kvs'"
  by (simp_all add: present_def split_beta)

lemma present_keys: "set (map fst (present kvs)) \<subseteq> set (map fst kvs)"
  by (induction kvs) (auto split: option.splits)

lemma present_distinct: "distinct (map fst kvs) \<Longrightarrow> distinct (map fst (present kvs))"
proof (induction kvs)
  case (Cons kv kvs)
  then show ?case using present_keys [of kvs] by (auto split: option.splits)
qed simp

lemma fold_set_opt:
  "distinct (map fst kvs) \<Longrightarrow> set (map fst ps) \<inter> set (map fst kvs) = {} \<Longrightarrow>
     fold set_opt kvs ps = ps @ present kvs"
proof (induction kvs arbitrary: ps)
  case (Cons kv kvs)
  then have n: "fst kv \<notin> set (map fst ps)" by auto
  show ?case
  proof (cases "snd kv")
    case None
    with Cons show ?thesis by (simp add: set_opt_def)
  next
    case (Some s)
    with n have "set_opt kv ps = ps @ [(fst kv, s)]" by (simp add: set_opt_def params_set_def)
    moreover have "set (map fst (ps @ [(fst kv, s)])) \<inter> set (map fst kvs) = {}" using Cons.prems by auto
    ultimately show ?thesis using Cons.IH [of "ps @ [(fst kv, s)]"] Cons.prems Some by simp
  qed
qed simp

definition text_value :: "string option \<Rightarrow> string option" where
  "text_value v = (if v = Some [] then None else v)"

definition page_entries :: "'a folder_page_params_scheme \<Rightarrow> (string \<times> string option) list" where
  "page_entries p =
     [(''folder_cursor'', text_value (fp_folderCursor p)), (''file_cursor'', text_value (fp_fileCursor p)),
      (''folder_limit'', map_option show_nat (fp_folderLimit p)), (''file_limit'', map_option show_nat (fp_fileLimit p)),
      (''drive'', text_value (fp_drive p)),
      (''include_unassigned'', if fp_includeUnassigned p = Some True then Some ''true'' else None)]"

definition date_value :: "local_days \<Rightarrow> string \<Rightarrow> edge \<Rightarrow> string option" where
  "date_value local_iso v e = (if v = [] then None else text_value (dayBoundary local_iso v e))"

definition list_value :: "string list \<Rightarrow> string option" where
  "list_value vs = (if vs = [] then None else Some (join_with CHR '','' vs))"

definition filter_entries :: "local_days \<Rightarrow> media_filters \<Rightarrow> (string \<times> string option) list" where
  "filter_entries l m =
     [(''taken_after'', date_value l (mf_takenAfter m) StartEdge), (''taken_before'', date_value l (mf_takenBefore m) EndEdge),
      (''uploaded_after'', date_value l (mf_uploadedAfter m) StartEdge),
      (''uploaded_before'', date_value l (mf_uploadedBefore m) EndEdge),
      (''source'', list_value (mf_sources m)), (''media_type'', list_value (map media_type_name (mf_mediaTypes m))),
      (''group'', list_value (mf_groupIds m))]"

definition media_entries :: "local_days \<Rightarrow> media_page_params \<Rightarrow> (string \<times> string option) list" where
  "media_entries l p =
     page_entries p
     @ [(''sort'', map_option sort_name (mp_sort p)),
        (''hidden'', case mp_hidden p of None \<Rightarrow> None | Some Hide \<Rightarrow> None | Some ShowAll \<Rightarrow> Some ''show''
           | Some OnlyHidden \<Rightarrow> Some ''only'')]
     @ (case mp_filters p of None \<Rightarrow> [] | Some m \<Rightarrow> filter_entries l m)"

lemma set_text_opt: "set_text k v ps = set_opt (k, text_value v) ps"
  by (auto simp: set_text_def set_opt_def text_value_def split: option.splits)

lemma set_number_opt: "set_number k v ps = set_opt (k, map_option show_nat v) ps"
  by (simp add: set_number_def set_opt_def split: option.splits)

lemma add_range_opt: "add_range l (k, v, e) ps = set_opt (k, date_value l v e) ps"
  by (auto simp: add_range_def set_opt_def date_value_def text_value_def split: option.splits)

lemma add_list_opt: "add_list k vs ps = set_opt (k, list_value vs) ps"
  by (simp add: add_list_def set_opt_def list_value_def)

lemma query_params_fold: "query_params p = fold set_opt (page_entries p) []"
  by (simp add: query_params_def page_entries_def set_text_opt set_number_opt Let_def)
     (simp add: set_opt_def)

lemma filters_fold: "appendMediaFilters l (Some m) ps = fold set_opt (filter_entries l m) ps"
  by (simp add: appendMediaFilters_def filter_entries_def add_range_opt add_list_opt Let_def)

lemma filters_none: "appendMediaFilters l None ps = ps"
  by (simp add: appendMediaFilters_def)

lemma media_entries_distinct: "distinct (map fst (media_entries l p))"
  by (cases "mp_filters p") (simp_all add: media_entries_def page_entries_def filter_entries_def)

lemma page_query_parsed: "params_parse (strip_question (buildQS p)) = query_params p"
proof (cases "query_params p = []")
  case True
  then show ?thesis by (simp add: buildQS_def strip_question_def params_parse_def)
next
  case False
  then show ?thesis by (simp add: buildQS_def strip_question_def params_parse_string Let_def)
qed

lemma media_fold: "mediaQS l p = fold set_opt (media_entries l p) []"
proof -
  have "mediaQS l p = appendMediaFilters l (mp_filters p)
      (fold set_opt [(''sort'', map_option sort_name (mp_sort p)),
        (''hidden'', case mp_hidden p of None \<Rightarrow> None | Some Hide \<Rightarrow> None | Some ShowAll \<Rightarrow> Some ''show''
           | Some OnlyHidden \<Rightarrow> Some ''only'')] (query_params p))"
    unfolding mediaQS_def page_query_parsed Let_def
    by (auto simp: set_opt_def split: option.splits hidden_mode.splits)
  then show ?thesis
    by (cases "mp_filters p") (simp_all add: media_entries_def query_params_fold filters_fold filters_none)
qed

text \<open>A media request carries exactly the parameters that have a value: reading the query string the
  code builds (which passes through a rendering and a parse) gives one entry per page, sort, hidden and
  filter parameter that is set, in their order and without repetition, and nothing else.\<close>

theorem media_query_exact:
  "params_parse (params_string (mediaQS l p)) = present (media_entries l p)
    \<and> distinct (map fst (mediaQS l p))"
proof -
  have "mediaQS l p = present (media_entries l p)"
    using fold_set_opt [OF media_entries_distinct [of l p], of "[]"] by (simp add: media_fold)
  then show ?thesis by (simp add: params_parse_string present_distinct media_entries_distinct)
qed

text \<open>The number on the filter badge is the number of facets the server filters by: when every date
  that is filled in is a valid day, the filters add as many parameters to the query as the badge
  counts.\<close>

theorem badge_counts_facets:
  assumes "list_all (\<lambda>(v, e). v = [] \<or> date_value l v e \<noteq> None)
    [(mf_takenAfter f, StartEdge), (mf_takenBefore f, EndEdge), (mf_uploadedAfter f, StartEdge), (mf_uploadedBefore f, EndEdge)]"
  shows "length (appendMediaFilters l (Some f) []) = countMediaFilters f"
proof -
  have "distinct (map fst (filter_entries l f))" by (simp add: filter_entries_def)
  then have e: "appendMediaFilters l (Some f) [] = present (filter_entries l f)"
    using fold_set_opt [of "filter_entries l f" "[]"] by (simp add: filters_fold)
  have len: "length (case x of None \<Rightarrow> [] | Some s \<Rightarrow> [(k :: string, s :: string)]) = (if x = None then 0 else 1)" for x k
    by (cases x) simp_all
  have d: "date_value l v e = None \<longleftrightarrow> v = []" if "v = [] \<or> date_value l v e \<noteq> None" for v e
    using that by (auto simp: date_value_def)
  show ?thesis
    using assms d by (simp add: e filter_entries_def countMediaFilters_def len list_value_def)
qed

theorem badge_counts_facets_witness:
  "length (appendMediaFilters (\<lambda>y m d e. Some ''t'')
      (Some (EMPTY_MEDIA_FILTERS\<lparr>mf_takenAfter := ''2026-1-2'', mf_sources := [''web'']\<rparr>)) []) = 2"
proof -
  let ?f = "EMPTY_MEDIA_FILTERS\<lparr>mf_takenAfter := ''2026-1-2'', mf_sources := [''web'']\<rparr>"
  have sn: "show_nat 2026 = ''2026''" "show_nat 1 = ''1''" "show_nat 2 = ''2''"
    by (simp_all add: show_nat.simps char_of_eq_iff take_bit_eq_mod)
  have n: "js_Number ''2026'' = Fin 2026" "js_Number ''1'' = Fin 1" "js_Number ''2'' = Fin 2"
    using js_Number_show_nat [of 2026] js_Number_show_nat [of 1] js_Number_show_nat [of 2]
    unfolding sn by simp_all
  have "dayBoundary (\<lambda>y m d e. Some ''t'') ''2026-1-2'' StartEdge = Some ''t''"
    by (simp add: dayBoundary_def falsy_num_def n)
  then show ?thesis
    using badge_counts_facets [of "\<lambda>y m d e. Some ''t''" ?f]
    by (simp add: EMPTY_MEDIA_FILTERS_def date_value_def text_value_def countMediaFilters_def)
qed

section \<open>Paths\<close>

text \<open>\<open>tree None\<close> are the folders at the root, \<open>tree (Some i)\<close> those in the folder \<open>i\<close>; a
  chain goes down from folder to folder. The server answers with the first page.\<close>

type_synonym tree = "string option \<Rightarrow> folder list"

fun chain :: "tree \<Rightarrow> string option \<Rightarrow> folder list \<Rightarrow> bool" where
  "chain tree p [] \<longleftrightarrow> True"
| "chain tree p (f # fs) \<longleftrightarrow> f \<in> set (tree p) \<and> chain tree (Some (fo_id f)) fs"

definition first_pages :: "tree \<Rightarrow> string option \<Rightarrow> unit + folder list" where
  "first_pages tree p = Inr (take PATH_FOLDER_LIMIT (tree p))"

lemma find_named:
  "distinct (map fo_name xs) \<Longrightarrow> find (\<lambda>f. fo_name f = seg) xs = Some f \<longleftrightarrow> f \<in> set xs \<and> fo_name f = seg"
proof (induction xs)
  case (Cons x xs)
  then show ?case by (cases "fo_name x = seg") (auto simp: image_iff)
qed simp

lemma walk_chain:
  assumes "\<And>p. distinct (map fo_name (tree p))" "\<And>p. length (tree p) \<le> PATH_FOLDER_LIMIT"
  shows "segs \<noteq> [] \<Longrightarrow> walk_path (first_pages tree) found (tree p) segs = Inr (Some f)
    \<longleftrightarrow> (\<exists>fs. chain tree p fs \<and> map fo_name fs = segs \<and> last fs = f)"
proof (induction segs arbitrary: found p)
  case (Cons seg segs)
  have pg: "first_pages tree q = Inr (tree q)" for q
    using assms(2) [of q] by (simp add: first_pages_def)
  note find = find_named [OF assms(1) [of p], of seg]
  show ?case
  proof (cases "find (\<lambda>f. fo_name f = seg) (tree p)")
    case None
    then have "\<not> (\<exists>g \<in> set (tree p). fo_name g = seg)" by (auto simp: find_None_iff)
    then show ?thesis using None by (auto simp: map_eq_Cons_conv)
  next
    case (Some g)
    then have g: "g \<in> set (tree p)" "fo_name g = seg" using find [of g] by simp_all
    have uniq: "h = g" if "h \<in> set (tree p)" "fo_name h = seg" for h
      using find [of h] that Some by simp
    show ?thesis
    proof (cases "segs = []")
      case True
      have "(\<exists>fs. chain tree p fs \<and> map fo_name fs = [seg] \<and> last fs = f) \<longleftrightarrow> f = g"
      proof
        assume "\<exists>fs. chain tree p fs \<and> map fo_name fs = [seg] \<and> last fs = f"
        then obtain h where "h \<in> set (tree p)" "fo_name h = seg" "h = f" by (auto simp: map_eq_Cons_conv)
        with uniq show "f = g" by blast
      next
        assume "f = g"
        with g show "\<exists>fs. chain tree p fs \<and> map fo_name fs = [seg] \<and> last fs = f"
          by (intro exI [of _ "[g]"]) simp
      qed
      then show ?thesis using True Some by (auto simp: pg)
    next
      case False
      have "(\<exists>fs. chain tree p fs \<and> map fo_name fs = seg # segs \<and> last fs = f)
          \<longleftrightarrow> (\<exists>fs. chain tree (Some (fo_id g)) fs \<and> map fo_name fs = segs \<and> last fs = f)" (is "?l \<longleftrightarrow> ?r")
      proof
        assume ?l
        then obtain h fs where h: "h \<in> set (tree p)" "fo_name h = seg" "chain tree (Some (fo_id h)) fs"
          "map fo_name fs = segs" "last (h # fs) = f"
          by (auto simp: map_eq_Cons_conv)
        moreover have "h = g" using h(1,2) by (rule uniq)
        moreover have "fs \<noteq> []" using h(4) False by auto
        ultimately show ?r by (intro exI [of _ fs]) simp
      next
        assume ?r
        then obtain fs where "chain tree (Some (fo_id g)) fs" "map fo_name fs = segs" "last fs = f" by blast
        with g False show ?l by (intro exI [of _ "g # fs"]) auto
      qed
      with Cons.IH [OF False, of "Some g" "Some (fo_id g)"] Some show ?thesis by (simp add: pg)
    qed
  qed
qed simp

lemma walk_returns: "\<exists>x. walk_path (first_pages tree) found contents segs = Inr x"
  by (induction segs arbitrary: found contents) (auto simp: first_pages_def split: option.split)

text \<open>C35. A path resolves exactly when it exists: where every folder has at most two hundred subfolders
  and their names differ, the walk ends at a folder if and only if the whole path names a chain of
  folders down from the root that ends there; and it gives null, and not an exception, if and only if
  the path is empty or some part of it does not exist.\<close>

theorem path_resolves_iff_exists:
  assumes "\<And>p. distinct (map fo_name (tree p))" "\<And>p. length (tree p) \<le> PATH_FOLDER_LIMIT"
  shows "(resolvePathToFolder (first_pages tree) path = Inr (Some f)
      \<longleftrightarrow> path_segments path \<noteq> [] \<and> (\<exists>fs. chain tree None fs \<and> map fo_name fs = path_segments path \<and> last fs = f))
    \<and> (resolvePathToFolder (first_pages tree) path = Inr None
      \<longleftrightarrow> path_segments path = [] \<or> \<not> (\<exists>fs. chain tree None fs \<and> map fo_name fs = path_segments path))"
proof (cases "path_segments path = []")
  case False
  have "first_pages tree None = Inr (tree None)"
    using assms(2) [of None] by (simp add: first_pages_def)
  then have eq: "resolvePathToFolder (first_pages tree) path = walk_path (first_pages tree) None (tree None) (path_segments path)"
    using False by (simp add: resolvePathToFolder_def)
  note found = walk_chain [where tree = tree and found = None and p = None, OF assms False]
  obtain x where x: "walk_path (first_pages tree) None (tree None) (path_segments path) = Inr x"
    using walk_returns by blast
  have "x = None \<longleftrightarrow> \<not> (\<exists>fs. chain tree None fs \<and> map fo_name fs = path_segments path)"
    using found x by (cases x) auto
  then show ?thesis using False found by (simp add: eq x)
qed (simp add: resolvePathToFolder_def)

definition named :: "string \<Rightarrow> string \<Rightarrow> folder" where
  "named i n =
     \<lparr>fo_id = i, fo_user_id = ''u'', fo_parent_id = None, fo_name = n, fo_kind = Regular, fo_size_bytes = 0,
      fo_drive_id = None, fo_ai_recognition_enabled = False, fo_created_at = [], fo_updated_at = []\<rparr>"

lemma named_simps [simp]: "fo_id (named i n) = i" "fo_name (named i n) = n"
  by (simp_all add: named_def)

definition docs_folder :: folder where
  "docs_folder = named ''1'' ''docs''"

definition docs_tree :: tree where
  "docs_tree p = (if p = None then [docs_folder] else [])"

lemma docs_tree_ok: "distinct (map fo_name (docs_tree p))" "length (docs_tree p) \<le> PATH_FOLDER_LIMIT"
  by (simp_all add: docs_tree_def PATH_FOLDER_LIMIT_def)

lemma docs_segments: "path_segments ''/docs'' = [''docs'']" "path_segments ''docs'' = [''docs'']"
  by (simp_all add: path_segments_def trim_def is_space_def)

theorem path_resolves_iff_exists_witness:
  "resolvePathToFolder (first_pages docs_tree) ''/docs'' = Inr (Some docs_folder)
   \<and> resolvePathToFolder (first_pages docs_tree) ''/docs/none'' = Inr None"
proof -
  have "chain docs_tree None [docs_folder]" by (simp add: docs_tree_def)
  moreover have "map fo_name [docs_folder] = [''docs'']" by (simp add: docs_folder_def)
  ultimately have "\<exists>fs. chain docs_tree None fs \<and> map fo_name fs = [''docs''] \<and> last fs = docs_folder"
    by (metis last_ConsL)
  moreover have "path_segments ''/docs/none'' = [''docs'', ''none'']"
    by (simp add: path_segments_def trim_def is_space_def)
  moreover have "\<not> (\<exists>fs. chain docs_tree None fs \<and> map fo_name fs = [''docs'', ''none''])"
    by (auto simp: map_eq_Cons_conv docs_tree_def)
  ultimately show ?thesis
    using path_resolves_iff_exists [where tree = docs_tree and path = "''/docs''" and f = docs_folder, OF docs_tree_ok]
      path_resolves_iff_exists [where tree = docs_tree and path = "''/docs/none''", OF docs_tree_ok]
    by (simp add: docs_segments)
qed

lemma picker_segments:
  assumes "\<And>n. n \<in> set ns \<Longrightarrow> trim n = n \<and> n \<noteq> [] \<and> CHR ''/'' \<notin> set n"
  shows "path_segments (join_with CHR ''/'' ns) = ns"
proof (cases "ns = []")
  case True
  then show ?thesis by (simp add: path_segments_def trim_def)
next
  case False
  then have "split_on CHR ''/'' (join_with CHR ''/'' ns) = ns" using assms by (intro split_join) auto
  moreover have "map trim ns = ns" using assms by (intro map_idI) auto
  moreover have "filter (\<lambda>s. s \<noteq> []) ns = ns" using assms by (intro filter_True) auto
  ultimately show ?thesis by (simp add: path_segments_def)
qed

text \<open>A picked prefix leads back to the picked folder: when the picker has descended a chain of
  folders whose names are trimmed, not empty and without a slash, the prefix it reports for the
  current folder resolves to that very folder when the key is opened again.\<close>

theorem picked_prefix_resolves_back:
  assumes "\<And>p. distinct (map fo_name (tree p))" "\<And>p. length (tree p) \<le> PATH_FOLDER_LIMIT"
    and "chain tree None (pk_trail p)" "pk_trail p \<noteq> []"
    and "\<And>n. n \<in> set (map fo_name (pk_trail p)) \<Longrightarrow> trim n = n \<and> n \<noteq> [] \<and> CHR ''/'' \<notin> set n"
  shows "resolvePathToFolder (first_pages tree) (fst (pk_value (picker_choose p)))
    = Inr (snd (pk_value (picker_choose p)))"
proof -
  let ?path = "join_with CHR ''/'' (map fo_name (pk_trail p))"
  have s: "path_segments ?path = map fo_name (pk_trail p)" by (rule picker_segments) (rule assms(5))
  have ne: "path_segments ?path \<noteq> []" using s assms(4) by simp
  have "first_pages tree None = Inr (tree None)"
    using assms(2) [of None] by (simp add: first_pages_def)
  moreover have "walk_path (first_pages tree) None (tree None) (path_segments ?path) = Inr (Some (last (pk_trail p)))"
    using walk_chain [where tree = tree, OF assms(1,2) ne] assms(3) s by auto
  ultimately show ?thesis using assms(4) ne by (simp add: picker_choose_def resolvePathToFolder_def)
qed

theorem picked_prefix_resolves_back_witness:
  "resolvePathToFolder (first_pages docs_tree)
     (fst (pk_value (picker_choose \<lparr>pk_trail = [docs_folder], pk_expanded = True, pk_value = ([], None)\<rparr>)))
   = Inr (Some docs_folder)"
proof -
  let ?p = "\<lparr>pk_trail = [docs_folder], pk_expanded = True, pk_value = ([], None)\<rparr>"
  have c: "chain docs_tree None (pk_trail ?p)" "pk_trail ?p \<noteq> []" by (simp_all add: docs_tree_def)
  have n: "\<And>n. n \<in> set (map fo_name (pk_trail ?p)) \<Longrightarrow> trim n = n \<and> n \<noteq> [] \<and> CHR ''/'' \<notin> set n"
    by (simp add: docs_folder_def trim_def is_space_def)
  from picked_prefix_resolves_back [where tree = docs_tree and p = ?p, OF docs_tree_ok c n] show ?thesis
    by (simp add: picker_choose_def)
qed

definition numbered :: "nat \<Rightarrow> folder" where
  "numbered i = named (show_nat i) (show_nat i)"

text \<open>The walk looks at the first two hundred subfolders only: the 201st folder of the root exists, and
  its path resolves to null.\<close>

theorem folder_beyond_first_page_missed:
  "numbered 200 \<in> set (map numbered [0..<201])
    \<and> resolvePathToFolder (first_pages (\<lambda>p. if p = None then map numbered [0..<201] else []))
        (fo_name (numbered 200)) = Inr None"
proof -
  have name: "fo_name (numbered i) = show_nat i" for i by (simp add: numbered_def)
  have "CHR ''/'' \<notin> set (show_nat 200)" using show_nat_digits [of 200] by (auto simp: is_digit_def)
  then have seg: "path_segments (show_nat 200) = [show_nat 200]"
    using trim_digits [OF show_nat_digits [of 200]] show_nat_nonempty [of 200]
    by (simp add: path_segments_def split_on_none)
  have "find (\<lambda>f. fo_name f = show_nat 200) (map numbered [0..<200]) = None"
    by (auto simp: find_None_iff name dest: show_nat_inj)
  moreover have "take 200 (map numbered [0..<201]) = map numbered [0..<200]" by (simp add: take_map)
  ultimately have "resolvePathToFolder (first_pages (\<lambda>p. if p = None then map numbered [0..<201] else []))
        (show_nat 200) = Inr None"
    unfolding resolvePathToFolder_def seg first_pages_def PATH_FOLDER_LIMIT_def by (simp del: upt.simps)
  moreover have "numbered 200 \<in> set (map numbered [0..<201])" by (simp del: upt.simps)
  ultimately show ?thesis by (simp only: name simp_thms)
qed

end
