(* ===== verification/MediaView.thy ===== *)
theory MediaView
  imports FolderApi
begin

text \<open>
  The view of a media collection, \<open>frontend/src/components/MediaCollectionView.tsx\<close>, with the filter
  summary of \<open>MediaFilterPanel.tsx\<close>: the pages of the endless listing, the bulk actions in bounded
  batches, the column arithmetic, the scroll position restored after the viewer, and the selection as
  a state machine whose steps are clicks and the answers of the id query. Widths in pixels are exact
  rationals; a JavaScript \<open>Set\<close> is a list without repetition, in insertion order.
\<close>

definition GRID_GAP_PX :: nat where "GRID_GAP_PX = 12"
definition MIN_TILE_PX :: nat where "MIN_TILE_PX = 100"
definition MEDIA_PAGE_SIZE :: nat where "MEDIA_PAGE_SIZE = 128"
definition BULK_CONCURRENCY :: nat where "BULK_CONCURRENCY = 6"

section \<open>The listing\<close>

record 'f media_page =
  mg_files :: "'f list"
  mg_next :: "string option"

text \<open>The request of a page parameter; \<open>''''\<close> is the first page.\<close>

definition media_page_request :: "string \<Rightarrow> media_sort \<Rightarrow> hidden_mode \<Rightarrow> media_filters \<Rightarrow> media_page_params" where
  "media_page_request pageParam order hidden filters =
     \<lparr>fp_folderCursor = None, fp_fileCursor = (if pageParam = [] then None else Some pageParam),
      fp_folderLimit = (if pageParam = [] then None else Some 0), fp_fileLimit = Some MEDIA_PAGE_SIZE,
      fp_drive = None, fp_includeUnassigned = None,
      mp_sort = Some order, mp_hidden = Some hidden, mp_filters = Some filters\<rparr>"

definition next_media_page :: "'f media_page \<Rightarrow> string option" where
  "next_media_page pg = (case mg_next pg of None \<Rightarrow> None | Some t \<Rightarrow> if t = [] then None else Some t)"

definition media_files :: "'f media_page list \<Rightarrow> 'f list" where
  "media_files pages = concat (map mg_files pages)"

section \<open>Bulk actions\<close>

text \<open>The batches a bulk action sends (each is settled before the next one starts), and how many of its
  requests failed; \<open>ok\<close> says which requests the server fulfils.\<close>

function runBatched :: "('a \<Rightarrow> bool) \<Rightarrow> 'a list \<Rightarrow> 'a list list \<times> nat" where
  "runBatched ok ids =
     (if ids = [] then ([], 0)
      else
        let batch = take BULK_CONCURRENCY ids;
            (bs, failed) = runBatched ok (drop BULK_CONCURRENCY ids)
        in (batch # bs, count_if (\<lambda>i. \<not> ok i) batch + failed))"
  by pat_completeness auto
termination
  by (relation "measure (\<lambda>(ok, ids). length ids)") (auto simp: BULK_CONCURRENCY_def)

declare runBatched.simps [simp del]

section \<open>Columns\<close>

definition maxCols :: "rat \<Rightarrow> nat" where
  "maxCols gridWidth =
     (if 0 < gridWidth then nat (max 1 \<lfloor>(gridWidth + of_nat GRID_GAP_PX) / of_nat (MIN_TILE_PX + GRID_GAP_PX)\<rfloor>) else 4)"

text \<open>The stored preference; a stored number need not be whole.\<close>

definition stored_cols :: "string option \<Rightarrow> rat option" where
  "stored_cols raw =
     (case raw of
        None \<Rightarrow> None
      | Some s \<Rightarrow> if s = [] then None
                 else (case js_Number s of Fin x \<Rightarrow> if 0 < x then Some x else None | _ \<Rightarrow> None))"

definition media_cols :: "rat \<Rightarrow> rat option \<Rightarrow> rat" where
  "media_cols gridWidth pref =
     min (or_else pref (min 4 (of_nat (maxCols gridWidth)))) (of_nat (maxCols gridWidth))"

definition cellWidth :: "rat \<Rightarrow> rat \<Rightarrow> rat" where
  "cellWidth gridWidth cols =
     (if 0 < gridWidth then (gridWidth - of_nat GRID_GAP_PX * (cols - 1)) / cols else of_nat MIN_TILE_PX)"

section \<open>Scrolling back\<close>

text \<open>The top of the row of an item, and where the window is scrolled to.\<close>

definition row_top :: "rat \<Rightarrow> nat \<Rightarrow> nat \<Rightarrow> rat \<Rightarrow> rat" where
  "row_top gridTop index cols stride = gridTop + of_nat (index div cols) * stride"

definition restore_scroll :: "rat \<Rightarrow> rat \<Rightarrow> rat \<Rightarrow> rat" where
  "restore_scroll rowTop rowHeight innerHeight = max 0 (rowTop - max 0 ((innerHeight - rowHeight) / 2))"

section \<open>The filter summary\<close>

definition arrow :: string where "arrow = [CHR 0xE2, CHR 0x86, CHR 0x92]"
definition middle_dot :: string where "middle_dot = [CHR 0xC2, CHR 0xB7]"

fun join_text :: "string \<Rightarrow> string list \<Rightarrow> string" where
  "join_text sep [] = []"
| "join_text sep [x] = x"
| "join_text sep (x # y # ys) = x @ sep @ join_text sep (y # ys)"

definition UPLOAD_SOURCE_LABELS :: "(string \<times> string) list" where
  "UPLOAD_SOURCE_LABELS =
     [(''web'', ''Web upload''), (''device'', ''Mobile app''), (''google_drive'', ''Google Drive backup''),
      (''google_photos'', ''Google Photos backup''), (''email_backup_gmail'', ''Gmail backup''),
      (''email_backup_microsoft'', ''Microsoft email backup''), (''file_server'', ''File Server (WebDAV)'')]"

fun MEDIA_TYPE_LABELS :: "media_type \<Rightarrow> string" where
  "MEDIA_TYPE_LABELS Image = ''Photos''"
| "MEDIA_TYPE_LABELS Video = ''Videos''"
| "MEDIA_TYPE_LABELS OtherMedia = ''Other files''"

definition range_part :: "string \<Rightarrow> string \<Rightarrow> string \<Rightarrow> string list" where
  "range_part word after before =
     (if after \<noteq> [] \<and> before \<noteq> [] then [word @ '' '' @ after @ '' '' @ arrow @ '' '' @ before]
      else if after \<noteq> [] then [word @ '' after '' @ after]
      else if before \<noteq> [] then [word @ '' before '' @ before] else [])"

definition summarizeMediaFilters :: "media_filters \<Rightarrow> (string \<Rightarrow> string option) \<Rightarrow> string" where
  "summarizeMediaFilters f groupNames =
     (let parts =
            range_part ''taken'' (mf_takenAfter f) (mf_takenBefore f)
            @ range_part ''uploaded'' (mf_uploadedAfter f) (mf_uploadedBefore f)
            @ (if mf_sources f \<noteq> []
               then [join_text '', '' (map (\<lambda>s. or_else (map_of UPLOAD_SOURCE_LABELS s) s) (mf_sources f))] else [])
            @ (if mf_mediaTypes f \<noteq> [] then [join_text '', '' (map MEDIA_TYPE_LABELS (mf_mediaTypes f))] else [])
            @ (if mf_groupIds f \<noteq> []
               then [join_text '', '' (map (\<lambda>i. or_else (groupNames i) ''Label'') (mf_groupIds f))] else [])
      in if parts \<noteq> [] then join_text ('' '' @ middle_dot @ '' '') parts else ''All media'')"

text \<open>Where a file came from: a registered device first, then the source column.\<close>

record device =
  dev_id :: string
  dev_name :: string
  dev_platform :: string

definition uploadSourceLabel :: "string option \<Rightarrow> string option \<Rightarrow> device list option \<Rightarrow> string" where
  "uploadSourceLabel device_id source devices =
     (case device_id of
        Some i \<Rightarrow>
          if i = [] then or_else (Option.bind source (map_of UPLOAD_SOURCE_LABELS)) ''Web upload''
          else (case Option.bind devices (find (\<lambda>d. dev_id d = i)) of
                  Some d \<Rightarrow>
                    dev_name d @ '' ('' @
                    (if dev_platform d = ''ios'' then ''iOS''
                     else if dev_platform d = ''android'' then ''Android'' else dev_platform d) @ '' app)''
                | None \<Rightarrow> ''Mobile app (device removed)'')
      | None \<Rightarrow> or_else (Option.bind source (map_of UPLOAD_SOURCE_LABELS)) ''Web upload'')"

section \<open>The selection\<close>

definition js_set :: "'a list \<Rightarrow> 'a list" where
  "js_set xs = rev (remdups (rev xs))"

datatype notice = ErrorNotice string | SuccessNotice string

text \<open>\<open>ms_queries\<close> are the id queries under way, each with the collection it was made in and whether it
  replaces the selection (select all) or adds to it under a chip; \<open>ms_jobs\<close> are the bulk actions under way, each with
  the batch in flight and the ids that are left of those selected when it was started; \<open>ms_sent\<close> records the requests of
  the bulk actions.\<close>

datatype id_query = AddMatching string | ReplaceAll

record bulk_job =
  bj_verb :: string
  bj_what :: string
  bj_total :: nat
  bj_batch :: "string list"
  bj_rest :: "string list"
  bj_failed :: nat

record media_state =
  ms_folder :: string
  ms_mode :: bool
  ms_selected :: "string list"
  ms_chips :: "string list"
  ms_selecting :: bool
  ms_queries :: "(string \<times> id_query) list"
  ms_filters :: media_filters
  ms_notices :: "notice list"
  ms_sent :: "(string \<times> string) list"
  ms_jobs :: "bulk_job list"
  ms_bulkPending :: bool
  ms_askDelete :: bool

definition clearSelection :: "media_state \<Rightarrow> media_state" where
  "clearSelection s = s\<lparr>ms_selected := [], ms_chips := []\<rparr>"

definition open_collection :: "string \<Rightarrow> media_state \<Rightarrow> media_state" where
  "open_collection f s = (if f = ms_folder s then s else clearSelection (s\<lparr>ms_folder := f\<rparr>))"

definition toggleSelectionMode :: "media_state \<Rightarrow> media_state" where
  "toggleSelectionMode s =
     (let s' = (if ms_mode s then clearSelection s else s) in s'\<lparr>ms_mode := \<not> ms_mode s\<rparr>)"

definition toggleSelect :: "string \<Rightarrow> media_state \<Rightarrow> media_state" where
  "toggleSelect i s =
     s\<lparr>ms_selected := (if i \<in> set (ms_selected s) then filter (\<lambda>x. x \<noteq> i) (ms_selected s)
        else ms_selected s @ [i])\<rparr>"

definition selectByFilter :: "(string \<Rightarrow> string option) \<Rightarrow> media_filters \<Rightarrow> media_state \<Rightarrow> media_state" where
  "selectByFilter groupNames f s =
     (if countMediaFilters f = 0 then s
      else s\<lparr>ms_selecting := True,
             ms_queries := ms_queries s @ [(ms_folder s, AddMatching (summarizeMediaFilters f groupNames))]\<rparr>)"

definition selectAllInView :: "media_state \<Rightarrow> media_state" where
  "selectAllInView s = s\<lparr>ms_selecting := True, ms_queries := ms_queries s @ [(ms_folder s, ReplaceAll)]\<rparr>"

definition handleFilterApply :: "(string \<Rightarrow> string option) \<Rightarrow> media_filters \<Rightarrow> media_state \<Rightarrow> media_state" where
  "handleFilterApply groupNames f s =
     (if ms_mode s then selectByFilter groupNames f s else s\<lparr>ms_filters := f\<rparr>)"

definition plural :: "nat \<Rightarrow> string" where
  "plural n = (if n \<noteq> 1 then ''s'' else [])"

definition matched_notice :: "string list \<Rightarrow> bool \<Rightarrow> notice" where
  "matched_notice file_ids truncated =
     (if truncated then ErrorNotice (''Too many matches to select them all '' @ em_dash @ '' the first 20,000 were selected'')
      else if file_ids = [] then ErrorNotice ''Nothing matched that filter''
      else SuccessNotice (show_nat (length file_ids) @ '' item'' @ plural (length file_ids) @ '' matched''))"

text \<open>The answer to the \<open>k\<close>-th query under way: the ids with the truncation mark, or a rejection.\<close>

definition query_answer :: "nat \<Rightarrow> (string list \<times> bool) option \<Rightarrow> media_state \<Rightarrow> media_state" where
  "query_answer k r s =
     (if length (ms_queries s) \<le> k then s
      else
        let (f, q) = ms_queries s ! k;
            s1 = s\<lparr>ms_queries := take k (ms_queries s) @ drop (Suc k) (ms_queries s), ms_selecting := False\<rparr>
        in case (q, r) of
             (AddMatching chip, Some (ids, truncated)) \<Rightarrow>
               s1\<lparr>ms_selected := js_set (ms_selected s1 @ ids),
                  ms_chips := (if chip \<in> set (ms_chips s1) then ms_chips s1 else ms_chips s1 @ [chip]),
                  ms_notices := ms_notices s1 @ [matched_notice ids truncated]\<rparr>
           | (ReplaceAll, Some (ids, truncated)) \<Rightarrow>
               s1\<lparr>ms_selected := js_set ids, ms_chips := [],
                  ms_notices := ms_notices s1 @
                    (if truncated
                     then [ErrorNotice (''Too many items to select them all '' @ em_dash @ '' the first 20,000 were selected'')]
                     else [])\<rparr>
           | (AddMatching _, None) \<Rightarrow> s1\<lparr>ms_notices := ms_notices s1 @ [ErrorNotice ''Failed to select by filter'']\<rparr>
           | (ReplaceAll, None) \<Rightarrow> s1\<lparr>ms_notices := ms_notices s1 @ [ErrorNotice ''Failed to select all'']\<rparr>)"

definition counted :: "string \<Rightarrow> nat \<Rightarrow> string" where
  "counted what n = show_nat n @ '' item'' @ plural n @ '' '' @ what"

text \<open>\<open>runOnSelection\<close> up to its first await: the first batch of the selection is sent. \<open>verb\<close> names the request sent
  for each id, \<open>what\<close> the message.\<close>

definition runOnSelection :: "string \<Rightarrow> string \<Rightarrow> media_state \<Rightarrow> media_state" where
  "runOnSelection verb what s =
     (if ms_selected s = [] then s
      else s\<lparr>ms_bulkPending := True,
             ms_jobs := ms_jobs s @ [\<lparr>bj_verb = verb, bj_what = what, bj_total = length (ms_selected s),
               bj_batch = take BULK_CONCURRENCY (ms_selected s), bj_rest = drop BULK_CONCURRENCY (ms_selected s), bj_failed = 0\<rparr>],
             ms_sent := ms_sent s @ map (Pair verb) (take BULK_CONCURRENCY (ms_selected s))\<rparr>)"

text \<open>What the caller does after awaiting it: removing and deleting clear the selection, deleting closes its question.\<close>

definition after_bulk :: "string \<Rightarrow> media_state \<Rightarrow> media_state" where
  "after_bulk verb s =
     (if verb = ''remove'' then clearSelection s
      else if verb = ''delete'' then clearSelection (s\<lparr>ms_askDelete := False\<rparr>) else s)"

text \<open>The last request of the batch in flight of the \<open>k\<close>-th bulk action settles (\<open>ok\<close> tells which were fulfilled): the
  next batch is sent, or the action ends.\<close>

definition bulk_notice :: "bulk_job \<Rightarrow> nat \<Rightarrow> notice" where
  "bulk_notice j failed =
     (let done = bj_total j - failed
      in if 0 < failed then ErrorNotice (counted (bj_what j) done @ '', '' @ show_nat failed @ '' failed'')
         else SuccessNotice (counted (bj_what j) done))"

definition batch_settled :: "nat \<Rightarrow> (string \<Rightarrow> bool) \<Rightarrow> media_state \<Rightarrow> media_state" where
  "batch_settled k ok s =
     (if length (ms_jobs s) \<le> k then s
      else
        let j = ms_jobs s ! k;
            failed = bj_failed j + count_if (\<lambda>i. \<not> ok i) (bj_batch j);
            nxt = take BULK_CONCURRENCY (bj_rest j)
        in if bj_rest j \<noteq> []
           then s\<lparr>ms_jobs := (ms_jobs s)[k := j\<lparr>bj_batch := nxt, bj_rest := drop BULK_CONCURRENCY (bj_rest j), bj_failed := failed\<rparr>],
                  ms_sent := ms_sent s @ map (Pair (bj_verb j)) nxt\<rparr>
           else after_bulk (bj_verb j)
                  (s\<lparr>ms_jobs := take k (ms_jobs s) @ drop (Suc k) (ms_jobs s), ms_bulkPending := False,
                     ms_notices := ms_notices s @ [bulk_notice j failed]\<rparr>))"

definition allSelectedFavorited :: "string set \<Rightarrow> media_state \<Rightarrow> bool" where
  "allSelectedFavorited favs s \<longleftrightarrow> ms_selected s \<noteq> [] \<and> list_all (\<lambda>i. i \<in> favs) (ms_selected s)"

definition runBulkFavorite :: "string set \<Rightarrow> media_state \<Rightarrow> media_state" where
  "runBulkFavorite favs s =
     (if allSelectedFavorited favs s then runOnSelection ''unfavorite'' ''unfavorited'' s
      else runOnSelection ''favorite'' ''favorited'' s)"

definition runBulkHidden :: "bool \<Rightarrow> media_state \<Rightarrow> media_state" where
  "runBulkHidden hide s =
     (if hide then runOnSelection ''hide'' ''hidden'' s else runOnSelection ''unhide'' ''unhidden'' s)"

definition runBulkCopy :: "media_state \<Rightarrow> media_state" where
  "runBulkCopy = runOnSelection ''copy'' ''added to collection''"

definition runBulkRemove :: "media_state \<Rightarrow> media_state" where
  "runBulkRemove s =
     (if ms_selected s = [] then after_bulk ''remove'' s
      else runOnSelection ''remove'' ''removed from this collection'' s)"

definition runBulkDelete :: "media_state \<Rightarrow> media_state" where
  "runBulkDelete s = (if ms_selected s = [] then after_bulk ''delete'' s else runOnSelection ''delete'' ''deleted'' s)"

text \<open>The question before a deletion, whose button is off while a bulk action runs.\<close>

definition ask_delete :: "media_state \<Rightarrow> media_state" where
  "ask_delete s = (if ms_selected s = [] then s else s\<lparr>ms_askDelete := True\<rparr>)"

definition confirm_delete :: "media_state \<Rightarrow> media_state" where
  "confirm_delete s = (if ms_askDelete s \<and> \<not> ms_bulkPending s then runBulkDelete s else s)"

section \<open>Bulk actions, columns, scrolling\<close>

lemma batched_nonempty:
  "ids \<noteq> [] \<Longrightarrow> runBatched ok ids =
     (take BULK_CONCURRENCY ids # fst (runBatched ok (drop BULK_CONCURRENCY ids)),
      count_if (\<lambda>i. \<not> ok i) (take BULK_CONCURRENCY ids) + snd (runBatched ok (drop BULK_CONCURRENCY ids)))"
  by (subst runBatched.simps) (simp add: Let_def split_beta)

lemma batched_empty [simp]: "runBatched ok [] = ([], 0)"
  by (simp add: runBatched.simps)

lemma batches_concat: "concat (fst (runBatched ok ids)) = ids"
proof (induction ok ids rule: runBatched.induct)
  case (1 ok ids)
  then show ?case by (cases "ids = []") (simp_all add: batched_nonempty)
qed

text \<open>A bulk action reaches every item once and in order, at most six at a time: the batches together
  are the selection, none is empty or longer than six, and the reported number of failures is the
  number of items whose request failed.\<close>

theorem bulk_reaches_each_once:
  "concat (fst (runBatched ok ids)) = ids
    \<and> list_all (\<lambda>b. 1 \<le> length b \<and> length b \<le> 6) (fst (runBatched ok ids))
    \<and> snd (runBatched ok ids) = count_if (\<lambda>i. \<not> ok i) ids"
proof (induction ok ids rule: runBatched.induct)
  case (1 ok ids)
  show ?case
  proof (cases "ids = []")
    case True
    then show ?thesis by simp
  next
    case False
    have "count_if (\<lambda>i. \<not> ok i) (take BULK_CONCURRENCY ids @ drop BULK_CONCURRENCY ids)
        = count_if (\<lambda>i. \<not> ok i) (take BULK_CONCURRENCY ids) + count_if (\<lambda>i. \<not> ok i) (drop BULK_CONCURRENCY ids)"
      by (rule count_if_simps)
    then have "count_if (\<lambda>i. \<not> ok i) ids
        = count_if (\<lambda>i. \<not> ok i) (take BULK_CONCURRENCY ids) + count_if (\<lambda>i. \<not> ok i) (drop BULK_CONCURRENCY ids)"
      by (simp only: append_take_drop_id)
    moreover have "1 \<le> length (take BULK_CONCURRENCY ids) \<and> length (take BULK_CONCURRENCY ids) \<le> 6"
      using False by (cases ids) (simp_all add: BULK_CONCURRENCY_def)
    moreover note "1.IH" [OF False refl]
    ultimately show ?thesis by (simp add: batched_nonempty [OF False])
  qed
qed

lemma max_cols_pos: "1 \<le> maxCols w"
  by (simp add: maxCols_def le_nat_iff)

text \<open>Tiles never shrink below a hundred pixels: on a grid at least that wide, whatever the stored
  preference, the number of columns is positive and at most the largest one offered, and a cell is at
  least a hundred pixels wide.\<close>

theorem tiles_stay_wide:
  assumes "100 \<le> gridWidth"
  shows "0 < media_cols gridWidth (stored_cols raw)
    \<and> media_cols gridWidth (stored_cols raw) \<le> of_nat (maxCols gridWidth)
    \<and> 100 \<le> cellWidth gridWidth (media_cols gridWidth (stored_cols raw))"
proof -
  let ?m = "maxCols gridWidth" and ?c = "media_cols gridWidth (stored_cols raw)"
  have m1: "(1 :: rat) \<le> of_nat ?m" using max_cols_pos [of gridWidth] by simp
  have f: "1 \<le> \<lfloor>(gridWidth + 12) / 112\<rfloor>" using assms by simp
  then have "?m = nat \<lfloor>(gridWidth + 12) / 112\<rfloor>"
    using assms by (simp add: maxCols_def GRID_GAP_PX_def MIN_TILE_PX_def max_def)
  then have "(of_nat ?m :: rat) = of_int \<lfloor>(gridWidth + 12) / 112\<rfloor>" using f by simp
  then have "(of_nat ?m :: rat) \<le> (gridWidth + 12) / 112" using of_int_floor_le [of "(gridWidth + 12) / 112"] by simp
  then have w: "of_nat ?m * 112 \<le> gridWidth + 12" by (simp add: pos_le_divide_eq)
  have "0 < x" if "stored_cols raw = Some x" for x
    using that by (auto simp: stored_cols_def split: option.splits jsnum.splits if_splits)
  then have c0: "0 < ?c" using m1 by (cases "stored_cols raw") (auto simp: media_cols_def)
  have cm: "?c \<le> of_nat ?m" by (simp add: media_cols_def)
  then have "?c * 112 \<le> gridWidth + 12" using w by linarith
  then have "100 \<le> (gridWidth - 12 * (?c - 1)) / ?c" using c0 by (simp add: field_simps)
  with c0 cm assms show ?thesis by (simp add: cellWidth_def GRID_GAP_PX_def)
qed

theorem tiles_stay_wide_witness:
  "0 < media_cols 500 (stored_cols (Some ''9'')) \<and> 100 \<le> cellWidth 500 (media_cols 500 (stored_cols (Some ''9'')))"
  using tiles_stay_wide [of 500 "Some ''9''"] by simp

text \<open>Closing the viewer lands on the item: a row that fits the window is entirely visible at the
  scroll position that is restored for it.\<close>

theorem restored_row_visible:
  assumes "0 \<le> row_top gridTop index cols stride" "0 \<le> rowHeight" "rowHeight \<le> innerHeight"
  shows "restore_scroll (row_top gridTop index cols stride) rowHeight innerHeight \<le> row_top gridTop index cols stride
    \<and> row_top gridTop index cols stride + rowHeight
        \<le> restore_scroll (row_top gridTop index cols stride) rowHeight innerHeight + innerHeight"
proof -
  have "0 \<le> (innerHeight - rowHeight) / 2" using assms by simp
  then have "restore_scroll (row_top gridTop index cols stride) rowHeight innerHeight
      = max 0 (row_top gridTop index cols stride - (innerHeight - rowHeight) / 2)"
    by (simp add: restore_scroll_def)
  with assms show ?thesis by (auto simp: max_def field_simps)
qed

theorem restored_row_visible_witness:
  "restore_scroll (row_top 80 13 4 150) 140 900 \<le> row_top 80 13 4 150 \<and> row_top 80 13 4 150 = 530"
  using restored_row_visible [of 80 13 4 150 140 900] by (simp add: row_top_def)

section \<open>The selection\<close>

lemma js_set_props [simp]: "distinct (js_set xs)" "set (js_set xs) = set xs"
  by (simp_all add: js_set_def)

inductive media_reachable :: "media_state \<Rightarrow> bool" where
  start: "ms_selected s = [] \<Longrightarrow> ms_chips s = [] \<Longrightarrow> ms_queries s = [] \<Longrightarrow> ms_sent s = [] \<Longrightarrow> ms_jobs s = [] \<Longrightarrow>
    media_reachable s"
| nav: "media_reachable s \<Longrightarrow> media_reachable (open_collection f s)"
| mode: "media_reachable s \<Longrightarrow> media_reachable (toggleSelectionMode s)"
| clear: "media_reachable s \<Longrightarrow> media_reachable (clearSelection s)"
| toggle: "media_reachable s \<Longrightarrow> media_reachable (toggleSelect i s)"
| filters: "media_reachable s \<Longrightarrow> media_reachable (handleFilterApply names fs s)"
| all_in_view: "media_reachable s \<Longrightarrow> media_reachable (selectAllInView s)"
| answer: "media_reachable s \<Longrightarrow> media_reachable (query_answer k r s)"
| favorite: "media_reachable s \<Longrightarrow> media_reachable (runBulkFavorite favs s)"
| hide: "media_reachable s \<Longrightarrow> media_reachable (runBulkHidden h s)"
| copy: "media_reachable s \<Longrightarrow> media_reachable (runBulkCopy s)"
| remove: "media_reachable s \<Longrightarrow> media_reachable (runBulkRemove s)"
| ask: "media_reachable s \<Longrightarrow> media_reachable (ask_delete s)"
| delete: "media_reachable s \<Longrightarrow> media_reachable (confirm_delete s)"
| settled: "media_reachable s \<Longrightarrow> media_reachable (batch_settled k ok s)"

lemma run_keeps_selection [simp]:
  "ms_selected (runOnSelection v d s) = ms_selected s" "ms_chips (runOnSelection v d s) = ms_chips s"
  by (simp_all add: runOnSelection_def)

lemmas bulk_defs = runBulkFavorite_def runBulkHidden_def runBulkCopy_def runBulkRemove_def runBulkDelete_def
  ask_delete_def confirm_delete_def after_bulk_def clearSelection_def

lemmas media_defs = open_collection_def toggleSelectionMode_def toggleSelect_def handleFilterApply_def
  selectByFilter_def selectAllInView_def bulk_defs

lemma query_answer_distinct:
  "distinct (ms_selected s) \<and> distinct (ms_chips s) \<Longrightarrow>
     distinct (ms_selected (query_answer k r s)) \<and> distinct (ms_chips (query_answer k r s))"
  by (auto simp: query_answer_def Let_def split: prod.splits id_query.splits option.splits)

lemma selection_distinct: "media_reachable s \<Longrightarrow> distinct (ms_selected s) \<and> distinct (ms_chips s)"
proof (induction rule: media_reachable.induct)
  case (answer s k r)
  then show ?case by (intro query_answer_distinct)
qed (auto simp: media_defs batch_settled_def Let_def)

text \<open>How many batches are left of a bulk action, the one in flight included.\<close>

definition batches_left :: "nat \<Rightarrow> nat" where
  "batches_left n = (n + (BULK_CONCURRENCY - 1)) div BULK_CONCURRENCY"

lemma batches_left_first: "0 < n \<Longrightarrow> batches_left n = Suc (batches_left (n - BULK_CONCURRENCY))"
proof -
  assume "0 < n"
  show ?thesis
  proof (cases "n \<le> 6")
    case True
    with \<open>0 < n\<close> have "(n + 5) div 6 = 1" by (auto intro: div_nat_eqI)
    with True show ?thesis by (simp add: batches_left_def BULK_CONCURRENCY_def)
  next
    case False
    then obtain m where "n = m + 6" by (metis add.commute le_Suc_ex nat_le_linear)
    then show ?thesis by (simp add: batches_left_def BULK_CONCURRENCY_def)
  qed
qed

lemma batches_left_zero [simp]: "batches_left 0 = 0"
  by (simp add: batches_left_def BULK_CONCURRENCY_def)

text \<open>A bulk action that nothing interrupts: the requests that were left go out in order, and its message counts all that failed.\<close>

lemma job_runs_out:
  assumes "ms_jobs s = js @ [j]"
  shows "(batch_settled (length js) ok ^^ Suc (batches_left (length (bj_rest j)))) s =
     after_bulk (bj_verb j) (s\<lparr>ms_jobs := js, ms_bulkPending := False,
       ms_sent := ms_sent s @ map (Pair (bj_verb j)) (bj_rest j),
       ms_notices := ms_notices s @ [bulk_notice j (bj_failed j + count_if (\<lambda>i. \<not> ok i) (bj_batch j @ bj_rest j))]\<rparr>)"
  using assms
proof (induction "length (bj_rest j)" arbitrary: j s rule: less_induct)
  case less
  show ?case
  proof (cases "bj_rest j = []")
    case True
    then show ?thesis using less.prems by (simp add: batch_settled_def Let_def)
  next
    case False
    let ?rest = "bj_rest j"
    let ?j = "j\<lparr>bj_batch := take BULK_CONCURRENCY ?rest, bj_rest := drop BULK_CONCURRENCY ?rest,
                bj_failed := bj_failed j + count_if (\<lambda>i. \<not> ok i) (bj_batch j)\<rparr>"
    let ?s = "s\<lparr>ms_jobs := js @ [?j], ms_sent := ms_sent s @ map (Pair (bj_verb j)) (take BULK_CONCURRENCY ?rest)\<rparr>"
    have one: "batch_settled (length js) ok s = ?s"
      using False less.prems by (simp add: batch_settled_def Let_def)
    have n: "batches_left (length ?rest) = Suc (batches_left (length (bj_rest ?j)))"
      using False by (simp add: batches_left_first)
    have "length (bj_rest ?j) < length ?rest" using False by (simp add: BULK_CONCURRENCY_def)
    from less.hyps [OF this, of ?s]
    have ih: "(batch_settled (length js) ok ^^ Suc (batches_left (length (bj_rest ?j)))) ?s =
        after_bulk (bj_verb ?j) (?s\<lparr>ms_jobs := js, ms_bulkPending := False,
          ms_sent := ms_sent ?s @ map (Pair (bj_verb ?j)) (bj_rest ?j),
          ms_notices := ms_notices ?s @ [bulk_notice ?j (bj_failed ?j + count_if (\<lambda>i. \<not> ok i) (bj_batch ?j @ bj_rest ?j))]\<rparr>)"
      by (simp del: funpow.simps count_if_simps append_take_drop_id)
    have sent: "ms_sent ?s @ map (Pair (bj_verb ?j)) (bj_rest ?j) = ms_sent s @ map (Pair (bj_verb j)) ?rest"
      by (simp flip: map_append)
    have "bj_batch ?j @ bj_rest ?j = ?rest" by simp
    then have failed: "bj_failed ?j + count_if (\<lambda>i. \<not> ok i) (bj_batch ?j @ bj_rest ?j)
        = bj_failed j + count_if (\<lambda>i. \<not> ok i) (bj_batch j @ bj_rest j)"
      by (simp only: count_if_simps) simp
    have "bj_what ?j = bj_what j" "bj_total ?j = bj_total j" by simp_all
    then have notice: "bulk_notice ?j m = bulk_notice j m" for m by (simp only: bulk_notice_def)
    have verb: "bj_verb ?j = bj_verb j" "ms_notices ?s = ms_notices s" by simp_all
    have "(batch_settled (length js) ok ^^ batches_left (length ?rest)) ?s =
        after_bulk (bj_verb j) (?s\<lparr>ms_jobs := js, ms_bulkPending := False,
          ms_sent := ms_sent s @ map (Pair (bj_verb j)) ?rest,
          ms_notices := ms_notices s @ [bulk_notice j (bj_failed j + count_if (\<lambda>i. \<not> ok i) (bj_batch j @ bj_rest j))]\<rparr>)"
      unfolding n ih sent failed notice by (simp only: verb)
    also have "\<dots> = after_bulk (bj_verb j) (s\<lparr>ms_jobs := js, ms_bulkPending := False,
          ms_sent := ms_sent s @ map (Pair (bj_verb j)) ?rest,
          ms_notices := ms_notices s @ [bulk_notice j (bj_failed j + count_if (\<lambda>i. \<not> ok i) (bj_batch j @ bj_rest j))]\<rparr>)"
      by simp
    finally show ?thesis unfolding funpow_Suc_right comp_def one .
  qed
qed

text \<open>A bulk delete deletes the selection: in every state the screen can reach, it asks the server to delete each item selected
  when it was confirmed exactly once and nothing else, tells how many failed, and leaves the selection empty.\<close>

theorem bulk_delete_deletes_selection:
  fixes ok :: "string \<Rightarrow> bool"
  assumes "media_reachable s" "ms_selected s \<noteq> []"
  defines "s1 \<equiv> (batch_settled (length (ms_jobs s)) ok ^^ batches_left (length (ms_selected s))) (runBulkDelete s)"
  shows "ms_sent s1 = ms_sent s @ map (Pair ''delete'') (ms_selected s)
    \<and> distinct (ms_selected s) \<and> ms_selected s1 = [] \<and> ms_chips s1 = [] \<and> ms_jobs s1 = ms_jobs s"
proof -
  let ?sel = "ms_selected s"
  obtain j where j: "ms_jobs (runBulkDelete s) = ms_jobs s @ [j]" "bj_verb j = ''delete''" "bj_rest j = drop BULK_CONCURRENCY ?sel"
    and sent: "ms_sent (runBulkDelete s) = ms_sent s @ map (Pair ''delete'') (take BULK_CONCURRENCY ?sel)"
    using assms(2) by (simp add: runBulkDelete_def runOnSelection_def)
  have "batches_left (length ?sel) = Suc (batches_left (length (bj_rest j)))"
    using assms(2) j(3) by (simp add: batches_left_first)
  then have s1: "s1 = after_bulk ''delete'' ((runBulkDelete s)\<lparr>ms_jobs := ms_jobs s, ms_bulkPending := False,
       ms_sent := ms_sent (runBulkDelete s) @ map (Pair ''delete'') (bj_rest j),
       ms_notices := ms_notices (runBulkDelete s) @ [bulk_notice j (bj_failed j + count_if (\<lambda>i. \<not> ok i) (bj_batch j @ bj_rest j))]\<rparr>)"
    using job_runs_out [OF j(1), of ok] j(2) by (simp only: s1_def)
  have "ms_sent s1 = ms_sent s @ map (Pair ''delete'') (take BULK_CONCURRENCY ?sel @ drop BULK_CONCURRENCY ?sel)"
    unfolding s1 j(3) map_append by (simp add: after_bulk_def clearSelection_def sent)
  then show ?thesis using selection_distinct [OF assms(1)] unfolding s1
    by (simp add: after_bulk_def clearSelection_def)
qed

definition empty_media :: "string \<Rightarrow> media_state" where
  "empty_media f = \<lparr>ms_folder = f, ms_mode = False, ms_selected = [], ms_chips = [], ms_selecting = False,
     ms_queries = [], ms_filters = EMPTY_MEDIA_FILTERS, ms_notices = [], ms_sent = [], ms_jobs = [], ms_bulkPending = False,
     ms_askDelete = False\<rparr>"

theorem bulk_delete_deletes_selection_witness:
  "ms_sent ((batch_settled 0 (\<lambda>i. True) ^^ batches_left 2) (runBulkDelete (toggleSelect ''b'' (toggleSelect ''a'' (empty_media ''trip'')))))
     = [(''delete'', ''a''), (''delete'', ''b'')]"
proof -
  have "media_reachable (empty_media ''trip'')" by (rule media_reachable.start) (simp_all add: empty_media_def)
  then have "media_reachable (toggleSelect ''b'' (toggleSelect ''a'' (empty_media ''trip'')))"
    by (intro media_reachable.toggle)
  from bulk_delete_deletes_selection [OF this, of "\<lambda>i. True"] show ?thesis
    by (simp add: toggleSelect_def empty_media_def numeral_2_eq_2 del: funpow.simps)
qed

text \<open>Opening another collection empties the selection, but not the queries under way: the answer of a
  "select all" asked in one collection fills the selection of the collection opened meanwhile, and a
  bulk delete there deletes files of the first.\<close>

theorem stale_query_selects_elsewhere:
  "let s = query_answer 0 (Some ([''beach''], False))
             (open_collection ''work'' (selectAllInView (toggleSelectionMode (empty_media ''trip''))))
   in ms_folder s = ''work'' \<and> ms_selected s = [''beach'']
      \<and> ms_sent (runBulkDelete s) = [(''delete'', ''beach'')]"
  by (simp add: BULK_CONCURRENCY_def runOnSelection_def query_answer_def open_collection_def selectAllInView_def toggleSelectionMode_def clearSelection_def
      empty_media_def js_set_def runBulkDelete_def)

end
