(* ===== verification/ApiKeyScopes.thy ===== *)
theory ApiKeyScopes
  imports JsNumber "HOL-Library.Multiset"
begin

text \<open>
  The scopes of an API key and the form that edits them,
  \<open>frontend/src/routes/_auth.settings/api-keys.tsx\<close>: the form's rows with their \<open>all\<close> value, the
  discrete scopes the API stores, the two translations between them, and the state of the form. What a
  time stamp parses to is the parameter \<open>date_ms\<close>.
\<close>

datatype operation = OpRead | OpList | OpWrite | OpDelete

datatype local_operation = Op operation | AllOps

definition OPS :: "operation list" where
  "OPS = [OpRead, OpList, OpWrite, OpDelete]"

fun op_name :: "operation \<Rightarrow> string" where
  "op_name OpRead = ''read''"
| "op_name OpList = ''list''"
| "op_name OpWrite = ''write''"
| "op_name OpDelete = ''delete''"

type_synonym api_scope = "operation \<times> string"          \<comment> \<open>operation, path prefix\<close>
type_synonym form_row = "local_operation \<times> string"

definition row_ops :: "local_operation \<Rightarrow> operation list" where
  "row_ops l = (case l of AllOps \<Rightarrow> OPS | Op x \<Rightarrow> [x])"

definition scope_key :: "api_scope \<Rightarrow> string" where
  "scope_key s = op_name (fst s) @ '':'' @ snd s"

text \<open>The inner loop of \<open>scopesToPayload\<close>, over the operations of one row, and the outer one; the
  accumulator is the pair of \<open>seen\<close> and \<open>out\<close>.\<close>

fun add_ops :: "string \<Rightarrow> operation list \<Rightarrow> string set \<times> api_scope list \<Rightarrow> string set \<times> api_scope list" where
  "add_ops p [] acc = acc"
| "add_ops p (x # xs) acc =
     (let k = scope_key (x, p)
      in if k \<in> fst acc then add_ops p xs acc
         else add_ops p xs (insert k (fst acc), snd acc @ [(x, p)]))"

fun add_rows :: "form_row list \<Rightarrow> string set \<times> api_scope list \<Rightarrow> string set \<times> api_scope list" where
  "add_rows [] acc = acc"
| "add_rows (r # rs) acc = add_rows rs (add_ops (snd r) (row_ops (fst r)) acc)"

definition scopesToPayload :: "form_row list \<Rightarrow> api_scope list" where
  "scopesToPayload rows = snd (add_rows rows ({}, []))"

text \<open>The \<open>Map\<close> from a prefix to its scopes, in the order the prefixes came in.\<close>

fun push_group :: "api_scope \<Rightarrow> (string \<times> api_scope list) list \<Rightarrow> (string \<times> api_scope list) list" where
  "push_group s [] = [(snd s, [s])]"
| "push_group s ((p, g) # m) = (if p = snd s then (p, g @ [s]) # m else (p, g) # push_group s m)"

definition byPrefix :: "api_scope list \<Rightarrow> (string \<times> api_scope list) list" where
  "byPrefix scopes = fold push_group scopes []"

definition collapse_group :: "string \<times> api_scope list \<Rightarrow> form_row list" where
  "collapse_group pg =
     (let (prefix, group) = pg; ops = set (map fst group)
      in if length group = length OPS \<and> list_all (\<lambda>x. x \<in> ops) OPS then [(AllOps, prefix)]
         else map (\<lambda>s. (Op (fst s), prefix)) group)"

definition collapseScopesForEdit :: "api_scope list \<Rightarrow> form_row list" where
  "collapseScopesForEdit scopes = concat (map collapse_group (byPrefix scopes))"

section \<open>The form\<close>

definition API_KEY_DEFAULT_RATE_LIMIT_PER_MIN :: nat where "API_KEY_DEFAULT_RATE_LIMIT_PER_MIN = 300"
definition API_KEY_MAX_TTL_DAYS :: rat where "API_KEY_MAX_TTL_DAYS = 3650"

record api_key =
  ak_id :: string
  ak_name :: string
  ak_rate_limit_per_min :: nat
  ak_expires_at :: "string option"
  ak_scopes :: "api_scope list option"

text \<open>A row of the form with the folder its badge shows: not looked up yet (\<open>None\<close>), no folder
  (\<open>Some None\<close>), or a folder's id.\<close>

record scope_draft =
  sd_operation :: local_operation
  sd_path_prefix :: string
  sd_folder :: "string option option"

record key_form =
  kf_initial :: "api_key option"
  kf_name :: string
  kf_ttlDays :: jsnum
  kf_rateLimit :: nat
  kf_scopes :: "scope_draft list"
  kf_error :: "string option"

definition DAY_MS :: int where "DAY_MS = 24 * 60 * 60 * 1000"

definition daysUntil :: "(string \<Rightarrow> int option) \<Rightarrow> int \<Rightarrow> string option \<Rightarrow> jsnum" where
  "daysUntil date_ms now expires =
     (case expires of
        None \<Rightarrow> Fin 0
      | Some s \<Rightarrow>
          if s = [] then Fin 0
          else (case date_ms s of
                  None \<Rightarrow> NaN
                | Some t \<Rightarrow> Fin (of_int (max 1 \<lceil>of_int (t - now) / (of_int DAY_MS :: rat)\<rceil>))))"

definition as_draft :: "form_row \<Rightarrow> scope_draft" where
  "as_draft r = \<lparr>sd_operation = fst r, sd_path_prefix = snd r, sd_folder = None\<rparr>"

definition open_form :: "(string \<Rightarrow> int option) \<Rightarrow> int \<Rightarrow> api_key option \<Rightarrow> string \<Rightarrow> key_form" where
  "open_form date_ms now initial initialPrefix =
     (case initial of
        None \<Rightarrow>
          \<lparr>kf_initial = None, kf_name = [], kf_ttlDays = Fin 0,
           kf_rateLimit = API_KEY_DEFAULT_RATE_LIMIT_PER_MIN,
           kf_scopes = [as_draft (Op OpRead, initialPrefix)], kf_error = None\<rparr>
      | Some k \<Rightarrow>
          \<lparr>kf_initial = Some k, kf_name = ak_name k, kf_ttlDays = daysUntil date_ms now (ak_expires_at k),
           kf_rateLimit = ak_rate_limit_per_min k,
           kf_scopes =
             (let ss = or_else (ak_scopes k) []
              in if ss \<noteq> [] then map as_draft (collapseScopesForEdit ss)
                 else [as_draft (Op OpRead, initialPrefix)]),
           kf_error = None\<rparr>)"

text \<open>\<open>prev.map((s, j) => j === i ? ... : s)\<close>: an index out of range changes nothing.\<close>

definition updateScope :: "nat \<Rightarrow> (scope_draft \<Rightarrow> scope_draft) \<Rightarrow> key_form \<Rightarrow> key_form" where
  "updateScope i f k =
     k\<lparr>kf_scopes := map (\<lambda>(j, s). if j = i then f s else s) (enumerate 0 (kf_scopes k))\<rparr>"

definition set_operation :: "nat \<Rightarrow> local_operation \<Rightarrow> key_form \<Rightarrow> key_form" where
  "set_operation i x = updateScope i (\<lambda>s. s\<lparr>sd_operation := x\<rparr>)"

definition set_prefix :: "nat \<Rightarrow> string \<Rightarrow> string option \<Rightarrow> key_form \<Rightarrow> key_form" where
  "set_prefix i p folder = updateScope i (\<lambda>s. s\<lparr>sd_path_prefix := p, sd_folder := Some folder\<rparr>)"

definition add_scope :: "key_form \<Rightarrow> key_form" where
  "add_scope k = k\<lparr>kf_scopes := kf_scopes k @ [as_draft (Op OpRead, [])]\<rparr>"

text \<open>The button is there only while there is more than one row.\<close>

definition remove_scope :: "nat \<Rightarrow> key_form \<Rightarrow> key_form" where
  "remove_scope i k =
     (if 1 < length (kf_scopes k)
      then k\<lparr>kf_scopes := map snd (filter (\<lambda>(j, s). j \<noteq> i) (enumerate 0 (kf_scopes k)))\<rparr>
      else k)"

definition set_ttl :: "string \<Rightarrow> key_form \<Rightarrow> key_form" where
  "set_ttl s k =
     k\<lparr>kf_ttlDays := (case js_Number s of
         NaN \<Rightarrow> NaN
       | PInf \<Rightarrow> Fin API_KEY_MAX_TTL_DAYS
       | NInf \<Rightarrow> Fin 0
       | Fin x \<Rightarrow> Fin (min API_KEY_MAX_TTL_DAYS (max 0 x)))\<rparr>"

text \<open>The effect that seeds the badges of an existing key asks for the folder of each row (by the row's
  index) when the form opens; the answer to the question for row \<open>i\<close> arrives later.\<close>

definition seed_requests :: "key_form \<Rightarrow> (nat \<times> string) list" where
  "seed_requests k =
     (if kf_initial k = None then []
      else map (\<lambda>(i, s). (i, sd_path_prefix s)) (filter (\<lambda>(i, s). sd_folder s = None) (enumerate 0 (kf_scopes k))))"

definition seed_answer :: "nat \<Rightarrow> string option \<Rightarrow> key_form \<Rightarrow> key_form" where
  "seed_answer i folder = updateScope i (\<lambda>s. s\<lparr>sd_folder := Some folder\<rparr>)"

text \<open>What a submission sends; \<open>None\<close> when the form does not submit.\<close>

record key_input =
  ki_target :: "string option"     \<comment> \<open>the key to update, or a new one\<close>
  ki_name :: string
  ki_scopes :: "api_scope list"
  ki_ttl_days :: "jsnum option"
  ki_rate_limit_per_min :: nat

definition submit_form :: "key_form \<Rightarrow> key_input option" where
  "submit_form k =
     (if trim (kf_name k) = [] \<or> kf_scopes k = [] then None
      else Some
        \<lparr>ki_target = map_option ak_id (kf_initial k), ki_name = trim (kf_name k),
         ki_scopes = scopesToPayload (map (\<lambda>s. (sd_operation s, sd_path_prefix s)) (kf_scopes k)),
         ki_ttl_days = (case kf_ttlDays k of
             Fin x \<Rightarrow> if 0 < x then Some (Fin x) else None
           | PInf \<Rightarrow> Some PInf
           | _ \<Rightarrow> None),
         ki_rate_limit_per_min = kf_rateLimit k\<rparr>)"

section \<open>The payload\<close>

lemma op_name_no_colon: "CHR '':'' \<notin> set (op_name x)"
  by (cases x) auto

lemma scope_key_inj: "scope_key s = scope_key t \<longleftrightarrow> s = t"
proof
  assume k: "scope_key s = scope_key t"
  have "takeWhile (\<lambda>c. c \<noteq> CHR '':'') (scope_key u) = op_name (fst u)" for u
    using op_name_no_colon [of "fst u"] by (subst scope_key_def, subst takeWhile_append2) auto
  with k have n: "op_name (fst s) = op_name (fst t)" by metis
  then have "fst s = fst t" by (cases "fst s"; cases "fst t") auto
  moreover from k n have "snd s = snd t" by (simp add: scope_key_def)
  ultimately show "s = t" by (simp add: prod_eq_iff)
qed simp

text \<open>All the discrete scopes the rows stand for, in order.\<close>

definition expand :: "form_row list \<Rightarrow> api_scope list" where
  "expand rows = concat (map (\<lambda>(l, p). map (\<lambda>x. (x, p)) (row_ops l)) rows)"

lemma expand_simps [simp]:
  "expand [] = []"
  "expand ((l, p) # rows) = map (\<lambda>x. (x, p)) (row_ops l) @ expand rows"
  "expand (rs @ rs') = expand rs @ expand rs'"
  by (simp_all add: expand_def)

text \<open>Keeping the first occurrence of each element.\<close>

fun firsts :: "'a set \<Rightarrow> 'a list \<Rightarrow> 'a list" where
  "firsts S [] = []"
| "firsts S (x # xs) = (if x \<in> S then firsts S xs else x # firsts (insert x S) xs)"

lemma firsts_append: "firsts S (xs @ ys) = firsts S xs @ firsts (S \<union> set xs) ys"
proof (induction xs arbitrary: S)
  case (Cons x xs)
  then show ?case by (cases "x \<in> S") (simp_all add: insert_absorb)
qed simp

lemma set_firsts: "set (firsts S xs) = set xs - S"
  by (induction xs arbitrary: S) auto

lemma distinct_firsts: "distinct (firsts S xs)"
  by (induction xs arbitrary: S) (auto simp: set_firsts)

lemma add_ops_firsts:
  "add_ops p xs (scope_key ` S, out)
     = (scope_key ` (S \<union> set (map (\<lambda>x. (x, p)) xs)), out @ firsts S (map (\<lambda>x. (x, p)) xs))"
proof (induction xs arbitrary: S out)
  case (Cons x xs)
  have m: "scope_key (x, p) \<in> scope_key ` S \<longleftrightarrow> (x, p) \<in> S"
    by (auto simp: scope_key_inj)
  show ?case
  proof (cases "(x, p) \<in> S")
    case True
    then show ?thesis by (simp add: m Let_def Cons.IH insert_absorb)
  next
    case False
    with Cons.IH [of "insert (x, p) S" "out @ [(x, p)]"] show ?thesis
      by (simp add: m Let_def)
  qed
qed simp

lemma add_rows_firsts:
  "add_rows rows (scope_key ` S, out) = (scope_key ` (S \<union> set (expand rows)), out @ firsts S (expand rows))"
proof (induction rows arbitrary: S out)
  case (Cons r rows)
  then show ?case by (cases r) (simp add: add_ops_firsts firsts_append Un_assoc)
qed simp

lemma payload_firsts: "scopesToPayload rows = firsts {} (expand rows)"
  using add_rows_firsts [of rows "{}" "[]"] by (simp add: scopesToPayload_def)

section \<open>Collapsing and back\<close>

definition group_ok :: "string \<times> api_scope list \<Rightarrow> bool" where
  "group_ok pg \<longleftrightarrow> list_all (\<lambda>s. snd s = fst pg) (snd pg)"

lemma push_group_ok: "list_all group_ok m \<Longrightarrow> list_all group_ok (push_group s m)"
  by (induction s m rule: push_group.induct) (auto simp: group_ok_def)

lemma push_group_mset:
  "mset (concat (map snd (push_group s m))) = add_mset s (mset (concat (map snd m)))"
  by (induction s m rule: push_group.induct) auto

lemma byPrefix_ok: "list_all group_ok (byPrefix ss)"
proof -
  have "list_all group_ok m \<Longrightarrow> list_all group_ok (fold push_group ss m)" for m
    by (induction ss arbitrary: m) (auto simp: push_group_ok)
  then show ?thesis by (simp add: byPrefix_def)
qed

lemma byPrefix_mset: "mset (concat (map snd (byPrefix ss))) = mset ss"
proof -
  have "mset (concat (map snd (fold push_group ss m))) = mset ss + mset (concat (map snd m))" for m
    by (induction ss arbitrary: m) (simp_all add: push_group_mset)
  then show ?thesis by (simp add: byPrefix_def)
qed

lemma all_four: "length (OPS) = 4" "set OPS = UNIV" "distinct OPS"
proof -
  show "length OPS = 4" "distinct OPS" by (simp_all add: OPS_def)
  have "x \<in> set OPS" for x by (cases x) (simp_all add: OPS_def)
  then show "set OPS = UNIV" by (intro equalityI subset_UNIV subsetI)
qed

lemma collapse_group_set:
  assumes "group_ok (p, g)"
  shows "set (expand (collapse_group (p, g))) = set g"
proof (cases "length g = length OPS \<and> list_all (\<lambda>x. x \<in> set (map fst g)) OPS")
  case True
  then have "set (map fst g) = UNIV" using all_four(2) by (auto simp: list_all_iff)
  then have ops: "\<exists>s \<in> set g. fst s = x" for x by (metis UNIV_I image_iff list.set_map)
  have g: "snd s = p" if "s \<in> set g" for s
    using assms that by (auto simp: group_ok_def list_all_iff)
  have "set g = (\<lambda>x :: operation. (x, p)) ` UNIV"
  proof (intro equalityI subsetI)
    fix s assume "s \<in> (\<lambda>x :: operation. (x, p)) ` UNIV"
    then obtain x where "s = (x, p)" by blast
    moreover obtain t where "t \<in> set g" "fst t = x" using ops by blast
    ultimately show "s \<in> set g" using g by (metis prod.collapse)
  qed (metis g prod.collapse rangeI)
  with True show ?thesis
    by (simp add: collapse_group_def row_ops_def all_four(2))
next
  case False
  have "expand (map (\<lambda>s. (Op (fst s), p)) g) = map (\<lambda>s. (fst s, p)) g"
    by (induction g) (simp_all add: row_ops_def)
  moreover have "map (\<lambda>s. (fst s, p)) g = g"
    using assms by (auto simp: group_ok_def list_all_iff prod_eq_iff intro!: map_idI)
  ultimately show ?thesis using False by (auto simp: collapse_group_def Let_def)
qed

lemma collapse_set: "set (expand (collapseScopesForEdit ss)) = set ss"
proof -
  have "set (expand (concat (map collapse_group m))) = set (concat (map snd m))"
    if "list_all group_ok m" for m
    using that
  proof (induction m)
    case (Cons pg m)
    then show ?case by (cases pg) (simp add: collapse_group_set)
  qed simp
  from this [OF byPrefix_ok [of ss]] show ?thesis
    using mset_eq_setD [OF byPrefix_mset [of ss]] by (simp add: collapseScopesForEdit_def)
qed

text \<open>What the form sends is what its rows mean, once each: the payload is the list of the discrete
  scopes of the rows, in the order they first come up and without repetition, although the code tells
  them apart by a joined text key.\<close>

theorem payload_means_rows:
  "scopesToPayload rows = firsts {} (concat (map (\<lambda>(l, p). map (\<lambda>x. (x, p)) (row_ops l)) rows))
    \<and> distinct (scopesToPayload rows) \<and> set (scopesToPayload rows) = set (expand rows)"
  by (simp add: payload_firsts distinct_firsts set_firsts flip: expand_def)

text \<open>C36. Editing a key without touching its scopes keeps them: collapsing the stored scopes into rows
  and expanding the rows again gives the same set of scopes, without repetition; when the stored list
  has no repetition it is a permutation of it.\<close>

theorem scopes_survive_editing:
  "set (scopesToPayload (collapseScopesForEdit ss)) = set ss
    \<and> distinct (scopesToPayload (collapseScopesForEdit ss))
    \<and> mset (scopesToPayload (collapseScopesForEdit (remdups ss))) = mset (remdups ss)"
proof -
  have s: "set (scopesToPayload (collapseScopesForEdit xs)) = set xs"
    and d: "distinct (scopesToPayload (collapseScopesForEdit xs))" for xs
    by (simp_all add: payload_firsts set_firsts distinct_firsts collapse_set)
  have "mset (scopesToPayload (collapseScopesForEdit (remdups ss))) = mset (remdups ss)"
    using set_eq_iff_mset_eq_distinct [OF d [of "remdups ss"] distinct_remdups [of ss]] s [of "remdups ss"] by blast
  with s d show ?thesis by simp
qed

section \<open>Editing a key\<close>

lemma ceil_days:
  fixes ms :: int
  shows "ms \<le> \<lceil>of_int ms / (of_int DAY_MS :: rat)\<rceil> * DAY_MS"
    and "\<lceil>of_int ms / (of_int DAY_MS :: rat)\<rceil> * DAY_MS < ms + DAY_MS"
proof -
  let ?q = "of_int ms / (of_int DAY_MS :: rat)"
  have d: "(0 :: rat) < of_int DAY_MS" by (simp add: DAY_MS_def)
  have "?q \<le> of_int \<lceil>?q\<rceil>" "of_int \<lceil>?q\<rceil> < ?q + 1" by linarith+
  then have "?q * of_int DAY_MS \<le> of_int \<lceil>?q\<rceil> * of_int DAY_MS"
    "of_int \<lceil>?q\<rceil> * of_int DAY_MS < (?q + 1) * of_int DAY_MS"
    using d by (simp_all only: mult_right_mono mult_strict_right_mono order_less_imp_le)
  moreover have "?q * of_int DAY_MS = of_int ms" using d by simp
  ultimately have "of_int ms \<le> (of_int \<lceil>?q\<rceil> * of_int DAY_MS :: rat)"
    "of_int \<lceil>?q\<rceil> * of_int DAY_MS < (of_int ms + of_int DAY_MS :: rat)"
    by (simp_all only: distrib_right mult_1_left)
  then show "ms \<le> \<lceil>?q\<rceil> * DAY_MS" "\<lceil>?q\<rceil> * DAY_MS < ms + DAY_MS"
    by (simp_all flip: of_int_mult of_int_add)
qed

lemma sample_names: "trim ''k'' = ''k''"
  by (simp add: trim_def is_space_def)

text \<open>Saving a key as it was opened keeps its name, its scopes and its rate limit, and never shortens
  its life: the expiry becomes a whole number of days from now, at least one, that does not end before
  the old expiry and less than a day after it, except that a key that has expired, or would within
  the day, gets one full day.\<close>

theorem saving_keeps_key:
  assumes "trim (ak_name k) \<noteq> []" "ak_scopes k = Some ss" "ss \<noteq> []"
    "ak_expires_at k = Some e" "e \<noteq> []" "date_ms e = Some t"
  shows "case submit_form (open_form date_ms now (Some k) pfx) of
      None \<Rightarrow> False
    | Some inp \<Rightarrow> ki_target inp = Some (ak_id k) \<and> ki_name inp = trim (ak_name k)
        \<and> set (ki_scopes inp) = set ss \<and> ki_rate_limit_per_min inp = ak_rate_limit_per_min k
        \<and> (\<exists>d. ki_ttl_days inp = Some (Fin (of_int d)) \<and> 1 \<le> d \<and> t \<le> now + d * DAY_MS
             \<and> (d = 1 \<or> now + d * DAY_MS < t + DAY_MS))"
proof -
  define c where "c = \<lceil>of_int (t - now) / (of_int DAY_MS :: rat)\<rceil>"
  have rows: "map (\<lambda>s. (sd_operation s, sd_path_prefix s)) (map as_draft rs) = rs" for rs
    by (simp add: as_draft_def o_def)
  have "set (expand (collapseScopesForEdit ss)) \<noteq> {}" using assms(3) by (simp add: collapse_set)
  then have ne: "collapseScopesForEdit ss \<noteq> []" by auto
  have c: "t - now \<le> c * DAY_MS" "c * DAY_MS < t - now + DAY_MS"
    using ceil_days [of "t - now"] by (simp_all add: c_def)
  have d: "t \<le> now + max 1 c * DAY_MS \<and> (max 1 c = 1 \<or> now + max 1 c * DAY_MS < t + DAY_MS)"
  proof (cases "1 \<le> c")
    case True
    then show ?thesis using c by (simp add: max_def)
  next
    case False
    then have "c * DAY_MS \<le> 0" by (simp add: DAY_MS_def)
    then show ?thesis using False c by (simp add: max_def DAY_MS_def)
  qed
  have set: "set (scopesToPayload (collapseScopesForEdit ss)) = set ss"
    by (simp add: payload_firsts set_firsts collapse_set)
  have ttl: "daysUntil date_ms now (Some e) = Fin (of_int (max 1 c))"
    using assms by (simp add: daysUntil_def c_def)
  have "submit_form (open_form date_ms now (Some k) pfx) = Some
      \<lparr>ki_target = Some (ak_id k), ki_name = trim (ak_name k), ki_scopes = scopesToPayload (collapseScopesForEdit ss),
       ki_ttl_days = Some (Fin (of_int (max 1 c))), ki_rate_limit_per_min = ak_rate_limit_per_min k\<rparr>"
    using assms(1-4) ne rows [of "collapseScopesForEdit ss"] ttl by (simp add: submit_form_def open_form_def Let_def)
  with d set show ?thesis by (auto intro!: exI [of _ "max 1 c"])
qed

definition sample_key :: api_key where
  "sample_key = \<lparr>ak_id = ''id'', ak_name = ''k'', ak_rate_limit_per_min = 300, ak_expires_at = Some ''yesterday'',
     ak_scopes = Some [(OpRead, ''docs'')]\<rparr>"

text \<open>A key that expired a day ago: opening it and saving it revives it for a day.\<close>

theorem saving_keeps_key_witness:
  "\<exists>inp d. submit_form (open_form (\<lambda>s. Some 0) DAY_MS (Some sample_key) []) = Some inp
     \<and> set (ki_scopes inp) = {(OpRead, ''docs'')} \<and> ki_ttl_days inp = Some (Fin (of_int d)) \<and> 1 \<le> d"
proof -
  have "trim (ak_name sample_key) \<noteq> []" "ak_scopes sample_key = Some [(OpRead, ''docs'')]"
    "[(OpRead, ''docs'')] \<noteq> []" "ak_expires_at sample_key = Some ''yesterday''" "''yesterday'' \<noteq> []"
    by (simp_all add: sample_key_def sample_names)
  from saving_keeps_key [OF this, of "\<lambda>s. Some 0" 0 DAY_MS "[]"] show ?thesis
    by (simp split: option.splits) blast
qed

text \<open>The badge answers are filed under the index a row had when the form opened: when a row is
  removed before the answers arrive, the row that moved up shows the badge of the removed one.\<close>

theorem late_badge_on_wrong_row:
  "let k = \<lparr>ak_id = ''id'', ak_name = ''k'', ak_rate_limit_per_min = 300, ak_expires_at = None,
            ak_scopes = Some [(OpRead, ''photos''), (OpRead, ''docs'')]\<rparr>;
       form = open_form (\<lambda>s. None) 0 (Some k) [];
       late = seed_answer 0 (Some ''photos-folder'') (remove_scope 0 form)
   in seed_requests form = [(0, ''photos''), (1, ''docs'')]
      \<and> map (\<lambda>s. (sd_path_prefix s, sd_folder s)) (kf_scopes late) = [(''docs'', Some (Some ''photos-folder''))]"
  by (simp add: open_form_def as_draft_def collapseScopesForEdit_def byPrefix_def collapse_group_def OPS_def
      seed_requests_def seed_answer_def remove_scope_def updateScope_def daysUntil_def Let_def enumerate_eq_zip)

end
