(* ===== verification/SelectionSpec.thy ===== *)
theory SelectionSpec
  imports MediaView "HOL-Library.Multiset"
begin

text \<open>
  What the selection of a media collection promises, as operations on a set, and the proof that the
  state of \<open>MediaCollectionView.tsx\<close> (a list without duplicates, chips, batches, notices) refines it.
  The view is the machine of its user's actions, the answers of the server to its id queries, and the moments at which
  a batch of a bulk action has settled (\<open>media_step\<close>), in any order; the
  abstract machine knows the collection, the mode, the set of selected items, for each id query under
  way whether it adds to the set or replaces it, and of each bulk action how many batches it still waits for. A
  bulk action owes one request for each item of the set at the moment it is started.
\<close>

section \<open>The view as a machine\<close>

datatype media_op =
    OpenCollection string
  | ToggleMode
  | ToggleItem string
  | ClearAll
  | ApplyFilter media_filters
  | SelectAll
  | Answer nat "(string list \<times> bool) option"
  | BulkFavorite
  | BulkHidden bool
  | BulkCopy
  | BulkRemove
  | AskDelete
  | ConfirmDelete
  | CancelDelete
  | Settled nat "string \<Rightarrow> bool"    \<comment> \<open>which requests of the batch were fulfilled\<close>

text \<open>\<open>names\<close> are the recognition groups, \<open>favs\<close> the favourites.\<close>

fun media_step :: "(string \<Rightarrow> string option) \<Rightarrow> string set \<Rightarrow> media_op \<Rightarrow> media_state \<Rightarrow> media_state" where
  "media_step names favs (OpenCollection f) s = open_collection f s"
| "media_step names favs ToggleMode s = toggleSelectionMode s"
| "media_step names favs (ToggleItem i) s = toggleSelect i s"
| "media_step names favs ClearAll s = clearSelection s"
| "media_step names favs (ApplyFilter f) s = handleFilterApply names f s"
| "media_step names favs SelectAll s = selectAllInView s"
| "media_step names favs (Answer k r) s = query_answer k r s"
| "media_step names favs BulkFavorite s = runBulkFavorite favs s"
| "media_step names favs (BulkHidden h) s = runBulkHidden h s"
| "media_step names favs BulkCopy s = runBulkCopy s"
| "media_step names favs BulkRemove s = runBulkRemove s"
| "media_step names favs AskDelete s = ask_delete s"
| "media_step names favs ConfirmDelete s = confirm_delete s"
| "media_step names favs CancelDelete s = s\<lparr>ms_askDelete := False\<rparr>"
| "media_step names favs (Settled k ok) s = batch_settled k ok s"

section \<open>The specification\<close>

record selection_spec =
  ab_folder :: string
  ab_mode :: bool
  ab_selected :: "string set"
  ab_adds :: "bool list"
  ab_asking :: bool
  ab_busy :: bool
  ab_waits :: "(string \<times> nat) list"
  ab_owed :: "(string \<times> string) multiset"

definition empty_selection :: "selection_spec \<Rightarrow> selection_spec" where
  "empty_selection a = a\<lparr>ab_selected := {}\<rparr>"

text \<open>What follows a bulk action once all its requests are answered.\<close>

definition concluded :: "string \<Rightarrow> selection_spec \<Rightarrow> selection_spec" where
  "concluded verb a =
     (if verb = ''remove'' then empty_selection a
      else if verb = ''delete'' then empty_selection (a\<lparr>ab_asking := False\<rparr>) else a)"

definition demand :: "string \<Rightarrow> selection_spec \<Rightarrow> selection_spec" where
  "demand verb a =
     (if ab_selected a = {} then concluded verb a
      else a\<lparr>ab_owed := ab_owed a + image_mset (Pair verb) (mset_set (ab_selected a)), ab_busy := True,
             ab_waits := ab_waits a @ [(verb, batches_left (card (ab_selected a)))]\<rparr>)"

fun spec_step :: "string set \<Rightarrow> media_op \<Rightarrow> selection_spec \<Rightarrow> selection_spec" where
  "spec_step favs (OpenCollection f) a =
     (if f = ab_folder a then a else empty_selection (a\<lparr>ab_folder := f\<rparr>))"
| "spec_step favs ToggleMode a =
     (if ab_mode a then empty_selection (a\<lparr>ab_mode := False\<rparr>) else a\<lparr>ab_mode := True\<rparr>)"
| "spec_step favs (ToggleItem i) a =
     a\<lparr>ab_selected := (if i \<in> ab_selected a then ab_selected a - {i} else insert i (ab_selected a))\<rparr>"
| "spec_step favs ClearAll a = empty_selection a"
| "spec_step favs (ApplyFilter f) a =
     (if ab_mode a \<and> f \<noteq> EMPTY_MEDIA_FILTERS then a\<lparr>ab_adds := ab_adds a @ [True]\<rparr> else a)"
| "spec_step favs SelectAll a = a\<lparr>ab_adds := ab_adds a @ [False]\<rparr>"
| "spec_step favs (Answer k r) a =
     (if length (ab_adds a) \<le> k then a
      else a\<lparr>ab_adds := take k (ab_adds a) @ drop (Suc k) (ab_adds a),
             ab_selected :=
               (case r of
                  None \<Rightarrow> ab_selected a
                | Some (ids, _) \<Rightarrow> (if ab_adds a ! k then ab_selected a else {}) \<union> set ids)\<rparr>)"
| "spec_step favs BulkFavorite a =
     demand (if ab_selected a \<noteq> {} \<and> ab_selected a \<subseteq> favs then ''unfavorite'' else ''favorite'') a"
| "spec_step favs (BulkHidden h) a = demand (if h then ''hide'' else ''unhide'') a"
| "spec_step favs BulkCopy a = demand ''copy'' a"
| "spec_step favs BulkRemove a = demand ''remove'' a"
| "spec_step favs AskDelete a = (if ab_selected a = {} then a else a\<lparr>ab_asking := True\<rparr>)"
| "spec_step favs ConfirmDelete a = (if ab_asking a \<and> \<not> ab_busy a then demand ''delete'' a else a)"
| "spec_step favs CancelDelete a = a\<lparr>ab_asking := False\<rparr>"
| "spec_step favs (Settled k ok) a =
     (if length (ab_waits a) \<le> k then a
      else
        let (verb, n) = ab_waits a ! k in
        if 1 < n then a\<lparr>ab_waits := (ab_waits a)[k := (verb, n - 1)]\<rparr>
        else concluded verb (a\<lparr>ab_waits := take k (ab_waits a) @ drop (Suc k) (ab_waits a), ab_busy := False\<rparr>))"

section \<open>The refinement\<close>

text \<open>What a bulk action under way has not sent yet.\<close>

definition unsent :: "bulk_job list \<Rightarrow> (string \<times> string) multiset" where
  "unsent js = mset (concat (map (\<lambda>j. map (Pair (bj_verb j)) (bj_rest j)) js))"

definition waits_of :: "bulk_job \<Rightarrow> string \<times> nat" where
  "waits_of j = (bj_verb j, Suc (batches_left (length (bj_rest j))))"

definition selection_of :: "media_state \<Rightarrow> selection_spec" where
  "selection_of s =
     \<lparr>ab_folder = ms_folder s, ab_mode = ms_mode s, ab_selected = set (ms_selected s),
      ab_adds = map (\<lambda>(f, q). q \<noteq> ReplaceAll) (ms_queries s), ab_asking = ms_askDelete s, ab_busy = ms_bulkPending s,
      ab_waits = map waits_of (ms_jobs s), ab_owed = mset (ms_sent s) + unsent (ms_jobs s)\<rparr>"

lemma no_filters_iff: "countMediaFilters f = 0 \<longleftrightarrow> f = EMPTY_MEDIA_FILTERS"
  by (cases f) (simp add: countMediaFilters_def EMPTY_MEDIA_FILTERS_def)

lemma selection_of_clear: "selection_of (clearSelection s) = empty_selection (selection_of s)"
  by (simp add: selection_of_def clearSelection_def empty_selection_def)

lemma selection_of_after: "selection_of (after_bulk verb s) = concluded verb (selection_of s)"
  by (simp add: after_bulk_def concluded_def selection_of_clear) (simp add: selection_of_def empty_selection_def)

lemma unsent_simps [simp]: "unsent [] = {#}" "unsent (j # js) = image_mset (Pair (bj_verb j)) (mset (bj_rest j)) + unsent js"
  "unsent (js @ js') = unsent js + unsent js'"
  by (simp_all add: unsent_def)

lemma mset_take_drop: "mset (take n xs) + mset (drop n xs) = mset xs"
  by (metis append_take_drop_id mset_append)

lemma selection_of_run:
  assumes "distinct (ms_selected s)" "ms_selected s \<noteq> []"
  shows "selection_of (runOnSelection verb what s) = demand verb (selection_of s)"
proof -
  let ?sel = "ms_selected s"
  have sum: "image_mset (Pair verb) (mset (take BULK_CONCURRENCY ?sel)) + image_mset (Pair verb) (mset (drop BULK_CONCURRENCY ?sel))
      = image_mset (Pair verb) (mset_set (set ?sel))"
    using assms(1) by (simp add: mset_set_set mset_take_drop flip: image_mset_union)
  have "batches_left (card (set ?sel)) = Suc (batches_left (length ?sel - BULK_CONCURRENCY))"
    using assms by (simp add: distinct_card batches_left_first)
  with assms(2) sum show ?thesis
    by (simp add: runOnSelection_def selection_of_def demand_def waits_of_def add.assoc add.left_commute [of "mset _"])
qed

lemma selection_of_empty: "ms_selected s = [] \<Longrightarrow> demand verb (selection_of s) = concluded verb (selection_of s)"
  by (simp add: demand_def selection_of_def)

lemma run_nothing: "ms_selected s = [] \<Longrightarrow> verb \<noteq> ''remove'' \<Longrightarrow> verb \<noteq> ''delete'' \<Longrightarrow>
    selection_of (runOnSelection verb what s) = demand verb (selection_of s)"
  by (simp add: selection_of_empty concluded_def) (simp add: runOnSelection_def)

lemma selection_of_plain:
  assumes "distinct (ms_selected s)" "verb \<noteq> ''remove''" "verb \<noteq> ''delete''"
  shows "selection_of (runOnSelection verb what s) = demand verb (selection_of s)"
  using assms selection_of_run run_nothing by (cases "ms_selected s = []") simp_all

lemma selection_of_remove:
  assumes "distinct (ms_selected s)"
  shows "selection_of (runBulkRemove s) = demand ''remove'' (selection_of s)"
    "selection_of (runBulkDelete s) = demand ''delete'' (selection_of s)"
  using assms selection_of_run
  by (cases "ms_selected s = []"; simp add: runBulkRemove_def runBulkDelete_def selection_of_after selection_of_empty)+

lemma selection_of_answer: "selection_of (query_answer k r s) = spec_step favs (Answer k r) (selection_of s)"
proof (cases "k < length (ms_queries s)")
  case True
  obtain f q where "ms_queries s ! k = (f, q)" by fastforce
  with True show ?thesis
    by (cases q; cases r) (auto simp: query_answer_def selection_of_def take_map drop_map Let_def)
qed (simp add: query_answer_def selection_of_def)

lemma selection_of_settled: "selection_of (batch_settled k ok s) = spec_step favs (Settled k ok) (selection_of s)"
proof (cases "k < length (ms_jobs s)")
  case True
  let ?j = "ms_jobs s ! k"
  define js1 js2 where js: "js1 = take k (ms_jobs s)" "js2 = drop (Suc k) (ms_jobs s)"
  have "ms_jobs s = js1 @ ?j # js2" using True by (simp add: js id_take_nth_drop [symmetric])
  then have all: "unsent (ms_jobs s) = unsent (js1 @ ?j # js2)" by (rule arg_cong)
  show ?thesis
  proof (cases "bj_rest ?j = []")
    case empty: True
    have "selection_of (batch_settled k ok s) = concluded (bj_verb ?j) (selection_of
        (s\<lparr>ms_jobs := js1 @ js2, ms_bulkPending := False,
           ms_notices := ms_notices s @ [bulk_notice ?j (bj_failed ?j + count_if (\<lambda>i. \<not> ok i) (bj_batch ?j))]\<rparr>))"
      using True empty by (simp add: batch_settled_def Let_def selection_of_after js)
    moreover have "waits_of ?j = (bj_verb ?j, 1)" using empty by (simp add: waits_of_def)
    moreover have "unsent (ms_jobs s) = unsent (js1 @ js2)" using all empty by simp
    ultimately show ?thesis using True
      by (simp add: selection_of_def take_map drop_map js)
  next
    case False
    let ?nxt = "take BULK_CONCURRENCY (bj_rest ?j)"
    let ?j' = "?j\<lparr>bj_batch := ?nxt, bj_rest := drop BULK_CONCURRENCY (bj_rest ?j),
      bj_failed := bj_failed ?j + count_if (\<lambda>i. \<not> ok i) (bj_batch ?j)\<rparr>"
    have s': "batch_settled k ok s = s\<lparr>ms_jobs := (ms_jobs s)[k := ?j'], ms_sent := ms_sent s @ map (Pair (bj_verb ?j)) ?nxt\<rparr>"
      using True False by (simp add: batch_settled_def Let_def)
    have left: "batches_left (length (bj_rest ?j)) = Suc (batches_left (length (bj_rest ?j'))) "
      using False by (simp add: batches_left_first)
    then have w: "waits_of ?j' = (bj_verb ?j, snd (waits_of ?j) - 1)" "1 < snd (waits_of ?j)" "fst (waits_of ?j) = bj_verb ?j"
      by (simp_all add: waits_of_def)
    have upd: "(ms_jobs s)[k := ?j'] = js1 @ ?j' # js2" using True by (simp add: js upd_conv_take_nth_drop)
    have "image_mset (Pair (bj_verb ?j)) (mset ?nxt) + image_mset (Pair (bj_verb ?j)) (mset (bj_rest ?j'))
        = image_mset (Pair (bj_verb ?j)) (mset (bj_rest ?j))"
      by (simp add: mset_take_drop flip: image_mset_union)
    then have "mset (ms_sent s @ map (Pair (bj_verb ?j)) ?nxt) + unsent ((ms_jobs s)[k := ?j']) = mset (ms_sent s) + unsent (ms_jobs s)"
      unfolding upd all by (simp add: ac_simps)
    with w True show ?thesis unfolding s'
      by (simp add: selection_of_def split_beta map_update)
  qed
qed (simp add: batch_settled_def selection_of_def)

lemma selection_of_step:
  assumes "distinct (ms_selected s)"
  shows "selection_of (media_step names favs e s) = spec_step favs e (selection_of s)"
proof (cases e)
  case (Answer k r)
  then show ?thesis by (simp add: selection_of_answer [of k r s favs] del: spec_step.simps)
next
  case (Settled k ok)
  then show ?thesis by (simp add: selection_of_settled [of k ok s favs] del: spec_step.simps)
next
  case BulkFavorite
  have "allSelectedFavorited favs s \<longleftrightarrow> ab_selected (selection_of s) \<noteq> {} \<and> ab_selected (selection_of s) \<subseteq> favs"
    by (auto simp: allSelectedFavorited_def selection_of_def list_all_iff)
  with BulkFavorite assms show ?thesis by (simp add: runBulkFavorite_def selection_of_plain)
next
  case (OpenCollection f)
  then show ?thesis by (simp add: open_collection_def selection_of_clear) (simp add: selection_of_def)
next
  case ToggleMode
  then show ?thesis
    by (auto simp: toggleSelectionMode_def clearSelection_def empty_selection_def selection_of_def Let_def)
next
  case (ToggleItem i)
  then show ?thesis by (auto simp: toggleSelect_def selection_of_def)
next
  case (ApplyFilter f)
  then show ?thesis by (simp add: handleFilterApply_def selectByFilter_def no_filters_iff selection_of_def)
next
  case SelectAll
  then show ?thesis by (simp add: selectAllInView_def selection_of_def)
next
  case ConfirmDelete
  have "ab_asking (selection_of s) = ms_askDelete s" "ab_busy (selection_of s) = ms_bulkPending s"
    by (simp_all add: selection_of_def)
  with ConfirmDelete assms show ?thesis by (simp add: confirm_delete_def selection_of_remove)
next
  case AskDelete
  then show ?thesis by (simp add: ask_delete_def selection_of_def)
next
  case CancelDelete
  then show ?thesis by (simp add: selection_of_def)
qed (use assms in \<open>simp_all add: runBulkHidden_def runBulkCopy_def selection_of_plain selection_of_remove selection_of_clear\<close>)

section \<open>Well-formed states\<close>

text \<open>A bulk action under way has at least one and at most six requests in flight, never asks twice for an item, and what
  it reports as failed it has sent: its message counts no less than nothing as done.\<close>

definition job_ok :: "bulk_job \<Rightarrow> bool" where
  "job_ok j \<longleftrightarrow> bj_batch j \<noteq> [] \<and> length (bj_batch j) \<le> 6 \<and> distinct (bj_batch j @ bj_rest j)
     \<and> bj_failed j + length (bj_batch j) + length (bj_rest j) \<le> bj_total j"

definition media_wf :: "media_state \<Rightarrow> bool" where
  "media_wf s \<longleftrightarrow> distinct (ms_selected s) \<and> distinct (ms_chips s) \<and> (ms_selecting s \<longrightarrow> ms_queries s \<noteq> [])
     \<and> (ms_bulkPending s \<longrightarrow> ms_jobs s \<noteq> []) \<and> list_all job_ok (ms_jobs s)"

lemma media_wf_answer:
  assumes "media_wf s" shows "media_wf (query_answer k r s)"
proof -
  have "distinct (ms_selected (query_answer k r s)) \<and> distinct (ms_chips (query_answer k r s))"
    using assms query_answer_distinct [of s k r] by (simp add: media_wf_def)
  moreover have "ms_selecting (query_answer k r s) \<longrightarrow> ms_queries (query_answer k r s) \<noteq> []"
    using assms by (auto simp: query_answer_def media_wf_def Let_def split: prod.splits id_query.splits option.splits)
  moreover have "ms_jobs (query_answer k r s) = ms_jobs s" "ms_bulkPending (query_answer k r s) = ms_bulkPending s"
    by (auto simp: query_answer_def Let_def split: prod.splits id_query.splits option.splits)
  ultimately show ?thesis using assms by (simp add: media_wf_def)
qed

lemma job_ok_parts:
  assumes "xs \<noteq> []" "distinct xs" "n + length xs \<le> m"
  shows "job_ok (j\<lparr>bj_total := m, bj_batch := take BULK_CONCURRENCY xs, bj_rest := drop BULK_CONCURRENCY xs, bj_failed := n\<rparr>)"
  using assms by (simp add: job_ok_def BULK_CONCURRENCY_def)

lemma media_wf_run: "media_wf s \<Longrightarrow> media_wf (runOnSelection verb what s)"
  using job_ok_parts [of "ms_selected s" 0 "length (ms_selected s)"
      "\<lparr>bj_verb = verb, bj_what = what, bj_total = 0, bj_batch = [], bj_rest = [], bj_failed = 0\<rparr>"]
  by (simp add: media_wf_def runOnSelection_def)

lemma media_wf_after: "media_wf (after_bulk verb s)" if "media_wf s"
  using that by (simp add: media_wf_def after_bulk_def clearSelection_def)

lemma media_wf_settled:
  assumes "media_wf s" shows "media_wf (batch_settled k ok s)"
proof (cases "k < length (ms_jobs s)")
  case True
  let ?j = "ms_jobs s ! k"
  have j: "job_ok ?j" using assms True by (simp add: media_wf_def list_all_length)
  show ?thesis
  proof (cases "bj_rest ?j = []")
    case empty: True
    have "media_wf (s\<lparr>ms_jobs := take k (ms_jobs s) @ drop (Suc k) (ms_jobs s), ms_bulkPending := False,
        ms_notices := ms_notices s @ [bulk_notice ?j (bj_failed ?j + count_if (\<lambda>i. \<not> ok i) (bj_batch ?j))]\<rparr>)"
      using assms by (auto simp: media_wf_def list_all_iff dest: in_set_takeD in_set_dropD)
    then show ?thesis using True empty by (simp add: batch_settled_def Let_def media_wf_after)
  next
    case False
    have "bj_failed ?j + count_if (\<lambda>i. \<not> ok i) (bj_batch ?j) + length (bj_rest ?j) \<le> bj_total ?j"
      using j count_if_le [of "\<lambda>i. \<not> ok i" "bj_batch ?j"] by (simp add: job_ok_def)
    from job_ok_parts [OF False _ this, of ?j] j
    have "job_ok (?j\<lparr>bj_batch := take BULK_CONCURRENCY (bj_rest ?j), bj_rest := drop BULK_CONCURRENCY (bj_rest ?j),
        bj_failed := bj_failed ?j + count_if (\<lambda>i. \<not> ok i) (bj_batch ?j)\<rparr>)"
      by (simp add: job_ok_def)
    with assms True False show ?thesis
      by (auto simp: batch_settled_def Let_def media_wf_def list_all_length nth_list_update)
  qed
qed (use assms in \<open>simp add: batch_settled_def\<close>)

lemma media_wf_step: "media_wf s \<Longrightarrow> media_wf (media_step names favs e s)"
proof (cases e)
  case (Answer k r)
  then show "media_wf s \<Longrightarrow> ?thesis" by (simp add: media_wf_answer)
next
  case (Settled k ok)
  then show "media_wf s \<Longrightarrow> ?thesis" by (simp add: media_wf_settled)
qed ((auto simp: media_wf_run media_wf_after runBulkFavorite_def runBulkHidden_def runBulkCopy_def runBulkRemove_def
      runBulkDelete_def confirm_delete_def)?, (auto simp: media_wf_def open_collection_def toggleSelectionMode_def toggleSelect_def handleFilterApply_def
      selectByFilter_def selectAllInView_def clearSelection_def ask_delete_def Let_def)?)

lemma media_wf_fold: "media_wf s \<Longrightarrow> media_wf (fold (media_step names favs) es s)"
  by (induction es arbitrary: s) (simp_all add: media_wf_step)

text \<open>C40. Whatever the user does, and however the answers of the server and the ends of batches interleave with it, the view
  stays well formed: every bulk action under way has between one and six requests in flight, distinct from each other and
  from those to come, and has not counted more failures than it sent; the busy marks are set only while a query,
  or a bulk action, is under way; no chip is shown twice.\<close>

theorem view_stays_well_formed:
  assumes "media_wf s"
  shows "media_wf (fold (media_step names favs) es s)"
  using assms by (rule media_wf_fold)

theorem view_stays_well_formed_witness:
  "media_wf (fold (media_step (\<lambda>g. None) {})
     [ToggleMode, SelectAll, Answer 0 (Some ([''a'', ''b'', ''a''], False)), BulkFavorite, ToggleItem ''c'', Settled 0 (\<lambda>i. i = ''a'')]
     (empty_media ''trip''))"
  by (rule view_stays_well_formed) (simp add: media_wf_def empty_media_def)

section \<open>The selection is a set\<close>

text \<open>C9. The selection of a media collection is a set. Whatever the user does, and however the answers of the server and the ends
  of the batches of bulk actions interleave with it, the state of the view (a list with chips, notices and
  batches of six) abstracts to the run of the set machine over the same events; and when no bulk action is under way, the
  requests sent are those owed: one for each action and each item that was selected when it was started.\<close>

theorem selection_refines_set:
  assumes "media_wf s"
  shows "selection_of (fold (media_step names favs) es s) = fold (spec_step favs) es (selection_of s)
    \<and> (ms_jobs (fold (media_step names favs) es s) = [] \<longrightarrow>
         mset (ms_sent (fold (media_step names favs) es s)) = ab_owed (fold (spec_step favs) es (selection_of s)))"
proof -
  have "media_wf s \<Longrightarrow> selection_of (fold (media_step names favs) es s) = fold (spec_step favs) es (selection_of s)" for s
  proof (induction es arbitrary: s)
    case (Cons e es)
    then have "distinct (ms_selected s)" by (simp add: media_wf_def)
    with Cons.IH [OF media_wf_step [OF Cons.prems]] show ?case by (simp add: selection_of_step)
  qed simp
  from this [OF assms] have eq: "selection_of (fold (media_step names favs) es s) = fold (spec_step favs) es (selection_of s)" .
  then show ?thesis unfolding eq [symmetric] by (simp add: selection_of_def)
qed

theorem selection_refines_set_witness:
  "mset (ms_sent (fold (media_step (\<lambda>g. None) {})
      [ToggleMode, ToggleItem ''a'', AskDelete, ConfirmDelete, ToggleItem ''b'', Settled 0 (\<lambda>i. True)] (empty_media ''trip'')))
    = {#(''delete'', ''a'')#}"
proof -
  let ?es = "[ToggleMode, ToggleItem ''a'', AskDelete, ConfirmDelete, ToggleItem ''b'', Settled 0 (\<lambda>i. True)]"
  have "media_wf (empty_media ''trip'')" by (simp add: media_wf_def empty_media_def)
  moreover have "ms_jobs (fold (media_step (\<lambda>g. None) {}) ?es (empty_media ''trip'')) = []"
    by (simp add: empty_media_def media_defs runOnSelection_def batch_settled_def BULK_CONCURRENCY_def Let_def)
  moreover have "ab_owed (fold (spec_step {}) ?es (selection_of (empty_media ''trip''))) = {#(''delete'', ''a'')#}"
    by (simp add: selection_of_def empty_media_def demand_def concluded_def empty_selection_def batches_left_def
        BULK_CONCURRENCY_def)
  ultimately show ?thesis
    using selection_refines_set [of "empty_media ''trip''" "\<lambda>g. None" "{}" ?es] by (metis (no_types))
qed

section \<open>Behaviours against the intent\<close>

text \<open>Removing and deleting clear the selection when they end: what was ticked meanwhile is lost.\<close>

theorem late_clear_drops_new_selection:
  "let s = fold (media_step (\<lambda>g. None) {}) [ToggleMode, ToggleItem ''a'', BulkRemove, ToggleItem ''b''] (empty_media ''trip'')
   in ''b'' \<in> set (ms_selected s) \<and> ms_selected (media_step (\<lambda>g. None) {} (Settled 0 (\<lambda>i. True)) s) = []"
  by (simp add: empty_media_def media_defs runOnSelection_def batch_settled_def BULK_CONCURRENCY_def Let_def)

text \<open>The busy mark of bulk actions is a flag: the end of one turns it off while another one is under way, and the question
  before a deletion can be confirmed.\<close>

theorem bulk_mark_drops_early:
  "let s = fold (media_step (\<lambda>g. None) {}) [ToggleMode, ToggleItem ''a'', BulkHidden True, BulkFavorite, Settled 1 (\<lambda>i. True)]
     (empty_media ''trip'') in \<not> ms_bulkPending s \<and> length (ms_jobs s) = 1"
  by (simp add: empty_media_def media_defs runOnSelection_def batch_settled_def BULK_CONCURRENCY_def Let_def
      allSelectedFavorited_def)

text \<open>The busy mark is not a count: it goes off with the first answer although another query is still
  under way.\<close>

theorem busy_mark_drops_early:
  "let s = fold (media_step (\<lambda>g. None) {}) [ToggleMode, SelectAll, SelectAll, Answer 0 None] (empty_media ''trip'')
   in \<not> ms_selecting s \<and> length (ms_queries s) = 1"
  by (simp add: toggleSelectionMode_def selectAllInView_def query_answer_def empty_media_def Let_def)

end
