(* ===== verification/SyncLedger.thy ===== *)
theory SyncLedger
  imports SyncService
begin

text \<open>
  What a run of the camera-roll sync promises, stated on a ledger (the status of each asset) and the answers the run got,
  without its table, pages, clock and statements; and the proof that \<open>SyncService.run\<close> with its SQLite table implements
  it, however the camera roll, the network and the server answer.
\<close>

section \<open>The promise\<close>

type_synonym ledger = "string \<Rightarrow> upload_status option"

definition waiting :: "ledger \<Rightarrow> string \<Rightarrow> bool" where
  "waiting m a \<longleftrightarrow> m a = Some Pending \<or> m a = Some Failed"

text \<open>
  The ledger after the assets of \<open>X\<close> were seen: what is done stays done, what the server holds (\<open>held\<close>) is done,
  what is new waits, and nothing else changes.
\<close>

definition scanned :: "(string \<Rightarrow> bool) \<Rightarrow> string set \<Rightarrow> ledger \<Rightarrow> ledger" where
  "scanned held X m a =
     (if a \<notin> X \<or> m a = Some Done then m a
      else if held a then Some Done else if m a = None then Some Pending else m a)"

text \<open>
  Then at most ten waiting assets \<open>ts\<close> are sent, one after the other; \<open>ack j\<close> tells whether the \<open>j\<close>-th was
  accepted. Exactly the accepted ones become done, the others of \<open>ts\<close> are failed, and no other asset changes.
\<close>

definition sync_promise ::
  "(string \<Rightarrow> bool) \<Rightarrow> string set \<Rightarrow> (nat \<Rightarrow> bool) \<Rightarrow> string list \<Rightarrow> ledger \<Rightarrow> ledger \<Rightarrow> bool" where
  "sync_promise held X ack ts m m' \<longleftrightarrow>
     distinct ts \<and> length ts \<le> 10 \<and> (\<forall>a \<in> set ts. waiting (scanned held X m) a)
     \<and> (\<forall>j < length ts. m' (ts ! j) = Some (if ack j then Done else Failed))
     \<and> (\<forall>a. a \<notin> set ts \<longrightarrow> m' a = scanned held X m a)"

lemma scanned_more: "scanned held Y (scanned held X m) = scanned held (X \<union> Y) m"
  by (rule ext) (simp add: scanned_def)

lemma scanned_none [simp]: "scanned held {} m = m"
  by (rule ext) (simp add: scanned_def)

lemma promise_done: "sync_promise held X ack ts m m' \<Longrightarrow> m a = Some Done \<Longrightarrow> m' a = Some Done"
proof -
  assume p: "sync_promise held X ack ts m m'" and d: "m a = Some Done"
  then have e: "scanned held X m a = Some Done" by (simp add: scanned_def)
  with p have "a \<notin> set ts" by (auto simp: sync_promise_def waiting_def)
  with p e show ?thesis by (simp add: sync_promise_def)
qed

lemma promise_dom: "sync_promise held X ack ts m m' \<Longrightarrow> m a \<noteq> None \<Longrightarrow> m' a \<noteq> None"
  by (cases "a \<in> set ts") (auto simp: sync_promise_def scanned_def in_set_conv_nth)

section \<open>The table has one row per asset\<close>

definition one_row_each :: "queue_item list \<Rightarrow> bool" where
  "one_row_each q \<longleftrightarrow> distinct (map local_asset_id q)"

lemma one_row_update [simp]:
  assumes "\<And>r. local_asset_id (f r) = local_asset_id r"
  shows "one_row_each (update_row a f q) = one_row_each q"
proof -
  have "map local_asset_id (update_row a f q) = map local_asset_id q"
    using assms by (simp add: update_row_def)
  then show ?thesis by (simp only: one_row_each_def)
qed

lemma one_row_ops [simp]:
  "one_row_each (setStatus t a st u q) = one_row_each q"
  "one_row_each (incrementRetry t a q) = one_row_each q"
  "one_row_each q \<Longrightarrow> one_row_each (enqueue t n q)"
  by (auto simp: setStatus_def incrementRetry_def enqueue_def)
     (auto simp: one_row_each_def has_row_def)

lemma status_of_row: "one_row_each q \<Longrightarrow> r \<in> set q \<Longrightarrow> status_of q (local_asset_id r) = Some (item_status r)"
  by (induction q) (auto simp: one_row_each_def status_of_def)

lemma pending_waiting:
  assumes "one_row_each q" "r \<in> set (getPendingItems n q)"
  shows "waiting (status_of q) (local_asset_id r)"
  using pending_items [OF assms(2)] status_of_row [OF assms(1)] by (auto simp: waiting_def is_pending_def)

section \<open>The scan\<close>

abbreviation held_by :: "sync_env \<Rightarrow> string \<Rightarrow> bool" where
  "held_by env a \<equiv> server_has env (hashAsset env a)"

text \<open>The assets the camera roll lists, page after page, up to an error.\<close>

fun roll_uris :: "nat \<Rightarrow> sync_env \<Rightarrow> nat \<Rightarrow> string option \<Rightarrow> string list" where
  "roll_uris 0 env k cur = []"
| "roll_uris (Suc fuel) env k cur =
     (case sv_page env k cur of
        Inl t \<Rightarrow> []
      | Inr pg \<Rightarrow> map cn_uri (cp_edges pg) @ (if cp_hasNext pg then roll_uris fuel env (Suc k) (cp_endCursor pg) else []))"

definition seen_assets :: "nat \<Rightarrow> sync_env \<Rightarrow> sync_state \<Rightarrow> string set" where
  "seen_assets fuel env s = (if networkOk env 0 s \<and> requestPhotoPermission env then set (roll_uris fuel env 0 None) else {})"

lemma scan_node_scanned: "status_of (scan_node env i n q) = scanned (held_by env) {cn_uri n} (status_of q)"
  by (rule ext) (auto simp: scan_node_status scanned_def)

lemma scan_node_rows: "one_row_each q \<Longrightarrow> one_row_each (scan_node env i n q)"
  by (simp add: scan_node_def Let_def)

lemma scan_nodes_scanned:
  "status_of (scan_nodes env i ns q) = scanned (held_by env) (cn_uri ` set ns) (status_of q)"
  "one_row_each q \<Longrightarrow> one_row_each (scan_nodes env i ns q)"
  by (induction ns arbitrary: i q) (simp_all add: scan_node_scanned scanned_more scan_node_rows)

lemma scan_loop_scanned:
  "scan_loop env fuel k i cur q = Some (q', err) \<Longrightarrow>
     status_of q' = scanned (held_by env) (set (roll_uris fuel env k cur)) (status_of q) \<and> (one_row_each q \<longrightarrow> one_row_each q')"
proof (induction fuel arbitrary: k i cur q)
  case (Suc fuel)
  show ?case
  proof (cases "sv_page env k cur")
    case (Inr pg)
    let ?q = "scan_nodes env i (cp_edges pg) q"
    note one = scan_nodes_scanned [where env = env and i = i and ns = "cp_edges pg" and q = q]
    show ?thesis
    proof (cases "cp_hasNext pg")
      case True
      then have "scan_loop env fuel (Suc k) (i + length (cp_edges pg)) (cp_endCursor pg) ?q = Some (q', err)"
        using Suc.prems Inr by (simp add: Let_def)
      from Suc.IH [OF this] one Inr True show ?thesis by (simp add: scanned_more)
    next
      case False
      then show ?thesis using Suc.prems Inr one by (auto simp: Let_def)
    qed
  qed (use Suc.prems in auto)
qed simp

section \<open>The upload pass\<close>

text \<open>The upload requests of a run, and the request that belongs to an asset's row.\<close>

fun upload_of :: "sync_effect \<Rightarrow> upload_args list" where
  "upload_of (Upload args) = [args]"
| "upload_of _ = []"

definition requests :: "sync_state \<Rightarrow> sync_state \<Rightarrow> upload_args list" where
  "requests s s' = concat (map upload_of (drop (length (ss_effects s)) (ss_effects s')))"

definition asset_args :: "sync_state \<Rightarrow> queue_item list \<Rightarrow> string \<Rightarrow> upload_args option" where
  "asset_args s q a = map_option (item_args s) (find (\<lambda>r. local_asset_id r = a) q)"

lemma process_item_rows: "one_row_each (ss_queue (process_item env i r s)) = one_row_each (ss_queue s)"
  by (auto simp: process_item_def upload_and_sync_def Let_def split: sum.splits)

lemma effects_of_steps [simp]:
  "ss_effects (emit e s) = ss_effects s @ [e]" "ss_effects (on_queue f s) = ss_effects s"
  by (simp_all add: emit_def on_queue_def)

lemma process_item_effects:
  "ss_effects (process_item env i r s) =
     ss_effects s @ [FileStart (filename r), Upload (item_args s r), FileComplete (filename r)]"
  by (simp add: process_item_def upload_and_sync_def item_args_def Let_def split: sum.split)

lemma asset_args_ops:
  "asset_args s (setStatus t b st u q) a = asset_args s q a"
  "asset_args s (incrementRetry t b q) a = asset_args s q a"
  by (cases "find (\<lambda>r. local_asset_id r = a) q";
      simp add: asset_args_def setStatus_def incrementRetry_def update_row_find item_args_def)+

lemma asset_args_item: "asset_args s (ss_queue (process_item env i r t)) a = asset_args s (ss_queue t) a"
  by (simp add: process_item_def upload_and_sync_def Let_def asset_args_ops split: sum.split)

lemma item_args_item: "item_args (process_item env i r s) = item_args s"
  by (rule ext) (simp add: item_args_def process_item_storage)

lemma process_loop_effects: "\<exists>es. ss_effects (process_loop env k i rs s) = ss_effects s @ es"
proof (induction rs arbitrary: k i s)
  case (Cons r rs)
  then show ?case using Cons.IH [of "Suc k" "Suc i" "process_item env i r s"] by (auto simp: process_item_effects)
qed simp

text \<open>The pass goes through its list in order until the network is gone.\<close>

lemma process_loop_pass:
  "distinct (map local_asset_id rs) \<Longrightarrow> \<forall>r \<in> set rs. status_of (ss_queue s) (local_asset_id r) \<noteq> None \<Longrightarrow>
   \<exists>n \<le> length rs.
     (\<forall>j < n. status_of (ss_queue (process_loop env k i rs s)) (local_asset_id (rs ! j)) =
        Some (if item_ok env (i + j) (item_args s (rs ! j)) then Done else Failed)) \<and>
     (\<forall>a. a \<notin> local_asset_id ` set (take n rs) \<longrightarrow>
        status_of (ss_queue (process_loop env k i rs s)) a = status_of (ss_queue s) a) \<and>
     (\<exists>es. ss_effects (process_loop env k i rs s) = ss_effects s @ es \<and> concat (map upload_of es) = map (item_args s) (take n rs)) \<and>
     asset_args t (ss_queue (process_loop env k i rs s)) = asset_args t (ss_queue s) \<and>
     one_row_each (ss_queue (process_loop env k i rs s)) = one_row_each (ss_queue s) \<and>
     ((\<forall>j. networkOk env j s) \<longrightarrow> n = length rs)"
proof (induction rs arbitrary: k i s)
  case (Cons r rs)
  let ?s = "process_item env i r s"
  show ?case
  proof (cases "networkOk env k s")
    case False
    then show ?thesis by (intro exI [of _ 0]) auto
  next
    case True
    have net: "(\<forall>j. networkOk env j ?s) \<longleftrightarrow> (\<forall>j. networkOk env j s)"
      by (simp add: networkOk_def process_item_storage)
    have new: "local_asset_id r \<notin> local_asset_id ` set rs" using Cons.prems(1) by simp
    have mem: "\<forall>x \<in> set rs. status_of (ss_queue ?s) (local_asset_id x) \<noteq> None"
      using Cons.prems(2) by (simp add: process_item_status)
    have "distinct (map local_asset_id rs)" using Cons.prems(1) by simp
    from Cons.IH [OF this mem, of "Suc k" "Suc i"] obtain n es where n: "n \<le> length rs"
      and st: "\<And>j. j < n \<Longrightarrow> status_of (ss_queue (process_loop env (Suc k) (Suc i) rs ?s)) (local_asset_id (rs ! j)) =
          Some (if item_ok env (Suc i + j) (item_args ?s (rs ! j)) then Done else Failed)"
      and keep: "\<And>a. a \<notin> local_asset_id ` set (take n rs) \<Longrightarrow>
          status_of (ss_queue (process_loop env (Suc k) (Suc i) rs ?s)) a = status_of (ss_queue ?s) a"
      and es: "ss_effects (process_loop env (Suc k) (Suc i) rs ?s) = ss_effects ?s @ es"
        "concat (map upload_of es) = map (item_args ?s) (take n rs)"
      and rest: "asset_args t (ss_queue (process_loop env (Suc k) (Suc i) rs ?s)) = asset_args t (ss_queue ?s)"
        "one_row_each (ss_queue (process_loop env (Suc k) (Suc i) rs ?s)) = one_row_each (ss_queue ?s)"
        "(\<forall>j. networkOk env j ?s) \<Longrightarrow> n = length rs" by blast
    have loop: "process_loop env k i (r # rs) s = process_loop env (Suc k) (Suc i) rs ?s" using True by simp
    show ?thesis unfolding loop
    proof (intro exI [of _ "Suc n"] conjI allI impI)
      fix j assume j: "j < Suc n"
      show "status_of (ss_queue (process_loop env (Suc k) (Suc i) rs ?s)) (local_asset_id ((r # rs) ! j)) =
          Some (if item_ok env (i + j) (item_args s ((r # rs) ! j)) then Done else Failed)"
      proof (cases j)
        case 0
        have "local_asset_id r \<notin> local_asset_id ` set (take n rs)" using new by (meson image_mono set_take_subset subsetD)
        then show ?thesis using keep 0 Cons.prems(2) by (simp add: process_item_status)
      next
        case (Suc m)
        then show ?thesis using st [of m] j by (simp add: item_args_item)
      qed
    next
      fix a assume "a \<notin> local_asset_id ` set (take (Suc n) (r # rs))"
      then show "status_of (ss_queue (process_loop env (Suc k) (Suc i) rs ?s)) a = status_of (ss_queue s) a"
        using keep by (simp add: process_item_status)
    next
      show "\<exists>es. ss_effects (process_loop env (Suc k) (Suc i) rs ?s) = ss_effects s @ es
          \<and> concat (map upload_of es) = map (item_args s) (take (Suc n) (r # rs))"
        using es by (simp add: process_item_effects item_args_item)
    next
      show "asset_args t (ss_queue (process_loop env (Suc k) (Suc i) rs ?s)) = asset_args t (ss_queue s)"
        using rest(1) by (simp add: asset_args_item fun_eq_iff)
      show "one_row_each (ss_queue (process_loop env (Suc k) (Suc i) rs ?s)) = one_row_each (ss_queue s)"
        using rest(2) by (simp add: process_item_rows)
    next
      assume "\<forall>j. networkOk env j s"
      then show "Suc n = length (r # rs)" using rest(3) net by simp
    qed (use n in simp)
  qed
qed simp

lemma asset_args_row: "one_row_each q \<Longrightarrow> r \<in> set q \<Longrightarrow> asset_args s q (local_asset_id r) = Some (item_args s r)"
  by (induction q) (auto simp: one_row_each_def asset_args_def)

lemma waiting_card:
  assumes "one_row_each q"
  shows "card {a. waiting (status_of q) a} = count_if is_pending q"
proof -
  have "{a. waiting (status_of q) a} = local_asset_id ` set (filter is_pending q)"
  proof (rule set_eqI)
    fix a
    show "a \<in> {a. waiting (status_of q) a} \<longleftrightarrow> a \<in> local_asset_id ` set (filter is_pending q)"
    proof
      assume "a \<in> {a. waiting (status_of q) a}"
      then obtain st where st: "status_of q a = Some st" "st = Pending \<or> st = Failed" by (auto simp: waiting_def)
      then obtain r where "find (\<lambda>r. local_asset_id r = a) q = Some r" "item_status r = st" by (auto simp: status_of_def)
      moreover from this have "r \<in> set q" "local_asset_id r = a" by (auto simp: find_Some_iff)
      ultimately show "a \<in> local_asset_id ` set (filter is_pending q)"
        using st(2) by (auto simp: is_pending_def)
    next
      assume "a \<in> local_asset_id ` set (filter is_pending q)"
      then show "a \<in> {a. waiting (status_of q) a}"
        using status_of_row [OF assms] by (auto simp: waiting_def is_pending_def)
    qed
  qed
  moreover have "inj_on local_asset_id (set (filter is_pending q))" "distinct (filter is_pending q)"
    using assms by (auto simp: one_row_each_def distinct_map intro: inj_on_subset)
  ultimately show ?thesis using distinct_card [of "filter is_pending q"] by (simp add: card_image count_if_def)
qed

lemma pass_promise:
  assumes "one_row_each (ss_queue s)"
  shows "\<exists>ts. sync_promise held {} (\<lambda>j. item_ok env j (requests s (processQueue env k s) ! j)) ts
      (status_of (ss_queue s)) (status_of (ss_queue (processQueue env k s))) \<and>
    map Some (requests s (processQueue env k s)) = map (asset_args s (ss_queue (processQueue env k s))) ts \<and>
    ((\<forall>j. networkOk env j s) \<longrightarrow> length ts = min 10 (card {a. waiting (status_of (ss_queue s)) a})) \<and>
    one_row_each (ss_queue (processQueue env k s))"
proof -
  let ?rs = "getPendingItems 10 (ss_queue s)" and ?s = "processQueue env k s"
  have d: "distinct (map local_asset_id ?rs)"
    using distinct_pending assms by (simp add: one_row_each_def)
  have "\<forall>r \<in> set ?rs. status_of (ss_queue s) (local_asset_id r) \<noteq> None"
    using pending_items status_of_member by blast
  from process_loop_pass [OF d this, of env k 0 s, folded processQueue_def] obtain n es where n: "n \<le> length ?rs"
    and st: "\<And>j. j < n \<Longrightarrow> status_of (ss_queue ?s) (local_asset_id (?rs ! j)) =
        Some (if item_ok env j (item_args s (?rs ! j)) then Done else Failed)"
    and keep: "\<And>a. a \<notin> local_asset_id ` set (take n ?rs) \<Longrightarrow> status_of (ss_queue ?s) a = status_of (ss_queue s) a"
    and es: "ss_effects ?s = ss_effects s @ es" "concat (map upload_of es) = map (item_args s) (take n ?rs)"
    and rest: "asset_args s (ss_queue ?s) = asset_args s (ss_queue s)" "one_row_each (ss_queue ?s) = one_row_each (ss_queue s)"
      "(\<forall>j. networkOk env j s) \<Longrightarrow> n = length ?rs" by auto
  let ?ts = "map local_asset_id (take n ?rs)"
  have req: "requests s ?s = map (item_args s) (take n ?rs)" using es by (simp add: requests_def)
  have "waiting (status_of (ss_queue s)) a" if "a \<in> set ?ts" for a
    using that pending_waiting [OF assms] by (auto dest!: in_set_takeD)
  moreover have "distinct ?ts" using d by (simp add: take_map [symmetric])
  moreover have "length ?ts \<le> 10" by (simp add: getPendingItems_def)
  moreover have "status_of (ss_queue ?s) (?ts ! j) = Some (if item_ok env j (requests s ?s ! j) then Done else Failed)"
    if "j < length ?ts" for j
    using st [of j] that by (simp add: req)
  ultimately have "sync_promise held {} (\<lambda>j. item_ok env j (requests s ?s ! j)) ?ts (status_of (ss_queue s)) (status_of (ss_queue ?s))"
    using keep by (simp add: sync_promise_def)
  moreover have "map Some (requests s ?s) = map (asset_args s (ss_queue ?s)) ?ts"
  proof -
    have "asset_args s (ss_queue s) (local_asset_id r) = Some (item_args s r)" if "r \<in> set (take n ?rs)" for r
      using asset_args_row [OF assms] pending_items in_set_takeD [OF that] by blast
    then show ?thesis by (simp add: req rest(1))
  qed
  moreover have "length ?ts = min 10 (card {a. waiting (status_of (ss_queue s)) a})" if "\<forall>j. networkOk env j s"
    using rest(3) [OF that] pending_oldest_first [of 10 "ss_queue s"] waiting_card [OF assms] by simp
  ultimately show ?thesis using assms rest(2) by blast
qed

section \<open>The run\<close>

lemma notify_fields [simp]:
  "ss_queue (notifyPendingCount s) = ss_queue s"
  "ss_effects (notifyPendingCount s) = ss_effects s @ [PendingCount (countByStatus Pending (ss_queue s)), SyncedCount (countByStatus Done (ss_queue s))]"
  by (simp_all add: notifyPendingCount_def)

lemma scanCameraRoll_scanned:
  assumes "scanCameraRoll fuel env s = Some (s1, err)" "networkOk env 0 s"
  shows "status_of (ss_queue s1) = scanned (held_by env) (seen_assets fuel env s) (status_of (ss_queue s))"
    "one_row_each (ss_queue s) \<Longrightarrow> one_row_each (ss_queue s1)"
    "ss_effects s1 = ss_effects s" "ss_storage s1 = ss_storage s" "err \<noteq> None \<or> requestPhotoPermission env"
proof -
  have "status_of (ss_queue s1) = scanned (held_by env) (seen_assets fuel env s) (status_of (ss_queue s)) \<and>
    (one_row_each (ss_queue s) \<longrightarrow> one_row_each (ss_queue s1)) \<and> ss_effects s1 = ss_effects s \<and> ss_storage s1 = ss_storage s
    \<and> (err \<noteq> None \<or> requestPhotoPermission env)"
  proof (cases "requestPhotoPermission env")
    case True
    then obtain q where "scan_loop env fuel 0 0 None (ss_queue s) = Some (q, err)" "s1 = s\<lparr>ss_queue := q\<rparr>"
      using assms by (auto simp: scanCameraRoll_def)
    with scan_loop_scanned [of env fuel 0 0 None "ss_queue s" q err] True assms(2) show ?thesis
      by (simp add: seen_assets_def)
  qed (use assms in \<open>auto simp: scanCameraRoll_def seen_assets_def\<close>)
  then show "status_of (ss_queue s1) = scanned (held_by env) (seen_assets fuel env s) (status_of (ss_queue s))"
    "one_row_each (ss_queue s) \<Longrightarrow> one_row_each (ss_queue s1)"
    "ss_effects s1 = ss_effects s" "ss_storage s1 = ss_storage s" "err \<noteq> None \<or> requestPhotoPermission env" by blast+
qed

lemma promise_after_scan:
  "sync_promise held {} ack ts (scanned held X m) m' \<Longrightarrow> sync_promise held X ack ts m m'"
  by (simp add: sync_promise_def)

lemma promise_no_pass: "sync_promise held X ack [] m (scanned held X m)"
  by (simp add: sync_promise_def)

lemma sync_run_promise:
  assumes "one_row_each (ss_queue s)" and "sync_run fuel env s = Some (s', err)"
  shows "\<exists>ts. sync_promise (held_by env) (seen_assets fuel env s) (\<lambda>j. item_ok env j (requests s s' ! j)) ts
      (status_of (ss_queue s)) (status_of (ss_queue s')) \<and>
    map Some (requests s s') = map (asset_args s (ss_queue s')) ts \<and>
    (err = None \<and> (\<forall>j. networkOk env j s) \<longrightarrow>
       length ts = min 10 (card {a. waiting (scanned (held_by env) (seen_assets fuel env s) (status_of (ss_queue s))) a})) \<and>
    one_row_each (ss_queue s')"
proof (cases "networkOk env 0 s")
  case True
  then obtain s1 e1 where scan: "scanCameraRoll fuel env s = Some (s1, e1)"
    using assms(2) by (auto simp: sync_run_def split: option.splits)
  note one = scanCameraRoll_scanned [OF scan True]
  show ?thesis
  proof (cases e1)
    case None
    let ?p = "processQueue env 1 s1"
    have s': "s' = notifyPendingCount ?p" using assms(2) True scan None by (simp add: sync_run_def)
    have "item_args s1 = item_args s" by (rule ext) (simp add: item_args_def one(4))
    then have args: "asset_args s1 = asset_args s" by (intro ext) (simp add: asset_args_def)
    have net: "networkOk env j s1 = networkOk env j s" for j by (simp add: networkOk_def one(4))
    have "\<exists>es. ss_effects ?p = ss_effects s1 @ es"
      using process_loop_effects by (simp add: processQueue_def)
    then have req: "requests s s' = requests s1 ?p" by (auto simp: requests_def s' one(3))
    from pass_promise [OF one(2) [OF assms(1)], where held = "held_by env" and env = env and k = 1] obtain ts where
      ts: "sync_promise (held_by env) {} (\<lambda>j. item_ok env j (requests s1 ?p ! j)) ts (status_of (ss_queue s1)) (status_of (ss_queue ?p))"
      "map Some (requests s1 ?p) = map (asset_args s1 (ss_queue ?p)) ts"
      "(\<forall>j. networkOk env j s1) \<longrightarrow> length ts = min 10 (card {a. waiting (status_of (ss_queue s1)) a})"
      "one_row_each (ss_queue ?p)" by blast
    have "sync_promise (held_by env) (seen_assets fuel env s) (\<lambda>j. item_ok env j (requests s s' ! j)) ts
        (status_of (ss_queue s)) (status_of (ss_queue s'))"
      using ts(1) unfolding one(1) req by (simp add: s' promise_after_scan)
    moreover have "map Some (requests s s') = map (asset_args s (ss_queue s')) ts"
      using ts(2) unfolding req by (simp add: s' args)
    ultimately show ?thesis using ts(3,4) one(1) net by (intro exI [of _ ts]) (simp add: s')
  next
    case (Some t)
    then have "s' = s1" "err = Some t" using assms(2) True scan by (simp_all add: sync_run_def)
    with one assms(1) show ?thesis
      by (intro exI [of _ "[]"]) (simp add: promise_no_pass requests_def)
  qed
next
  case False
  then have "s' = s" "seen_assets fuel env s = {}" using assms(2) by (simp_all add: sync_run_def seen_assets_def)
  with False assms(1) show ?thesis
    by (intro exI [of _ "[]"]) (auto simp: sync_promise_def requests_def)
qed



text \<open>Any number of runs, each in an environment of its own.\<close>

inductive synced :: "sync_state \<Rightarrow> sync_state \<Rightarrow> bool" where
  here: "synced s s"
| again: "synced s s1 \<Longrightarrow> sync_run fuel env s1 = Some (s2, err) \<Longrightarrow> synced s s2"

text \<open>Backed-up work is final: an asset that is done stays done through any number of runs, and no asset
  is forgotten.\<close>

theorem done_is_final:
  assumes "one_row_each (ss_queue s)" and "synced s s'"
  shows "(status_of (ss_queue s) a = Some Done \<longrightarrow> status_of (ss_queue s') a = Some Done) \<and>
    (status_of (ss_queue s) a \<noteq> None \<longrightarrow> status_of (ss_queue s') a \<noteq> None)"
proof -
  have "one_row_each (ss_queue s') \<and>
    (status_of (ss_queue s) a = Some Done \<longrightarrow> status_of (ss_queue s') a = Some Done) \<and>
    (status_of (ss_queue s) a \<noteq> None \<longrightarrow> status_of (ss_queue s') a \<noteq> None)"
    using assms(2,1)
  proof (induction rule: synced.induct)
    case (again s s1 fuel env s2 err)
    then have "one_row_each (ss_queue s1)" by simp
    from sync_run_promise [OF this again.hyps(2)] again.IH again.prems show ?case
      by (auto intro: promise_done dest: promise_dom)
  qed simp
  then show ?thesis by blast
qed

theorem done_is_final_witness:
  "\<exists>s'. synced (demo_state [demo_row ''a'' 1, (demo_row ''d'' 2)\<lparr>item_status := Done\<rparr>]) s' \<and>
     status_of (ss_queue s') ''d'' = Some Done \<and> ss_effects s' \<noteq> []"
proof -
  let ?s = "demo_state [demo_row ''a'' 1, (demo_row ''d'' 2)\<lparr>item_status := Done\<rparr>]"
  have one: "one_row_each (ss_queue ?s)" by (simp add: demo_state_def one_row_each_def demo_row_def)
  have "\<exists>s'. sync_run 1 demo_sync ?s = Some (s', None) \<and> ss_effects s' \<noteq> []"
    by (simp add: sync_run_def networkOk_def demo_state_def scanCameraRoll_def requestPhotoPermission_def
        demo_sync_def granted_def notifyPendingCount_def emit_def)
  then obtain s' where run: "sync_run 1 demo_sync ?s = Some (s', None)" "ss_effects s' \<noteq> []" by blast
  have "synced ?s s'" by (rule synced.again [OF synced.here run(1)])
  moreover have "status_of (ss_queue ?s) ''d'' = Some Done"
    by (simp add: status_of_def demo_state_def demo_row_def)
  ultimately show ?thesis using done_is_final [OF one, of s' "''d''"] run(2) by blast
qed

end
