(* ===== verification/FolderView.thy ===== *)
theory FolderView
  imports MediaView Favorites Storage
begin

text \<open>
  The files page, \<open>frontend/src/routes/_auth.client/index.tsx\<close>: which view a URL shows
  (\<open>RouteComponent\<close>, \<open>RootView\<close>), navigation, the actions of the side panel
  (\<open>FilesSidebar.tsx\<close>), and the operations of \<open>FolderView\<close> on a folder: selection, bulk move,
  delete and favourite, renaming, creating, the storage prompt. The requests sent and the notices
  shown are recorded in order; which requests succeed is a parameter.
\<close>

section \<open>The URL and the view it shows\<close>

datatype files_action = NewFolder | NewCollection | GoogleBackup | EmailBackup

record files_search =
  q_file :: "string option"
  q_folder :: "string option"
  q_drive :: "string option"
  q_action :: "files_action option"
  q_group :: "string option"

definition no_search :: files_search where
  "no_search = \<lparr>q_file = None, q_folder = None, q_drive = None, q_action = None, q_group = None\<rparr>"

definition parseFilesAction :: "json option \<Rightarrow> files_action option" where
  "parseFilesAction v =
     (if v = Some (JStr ''new-folder'') then Some NewFolder
      else if v = Some (JStr ''new-collection'') then Some NewCollection
      else if v = Some (JStr ''google-backup'') then Some GoogleBackup
      else if v = Some (JStr ''email-backup'') then Some EmailBackup
      else None)"

definition string_field :: "json option \<Rightarrow> string option" where
  "string_field v = (case v of Some (JStr s) \<Rightarrow> Some s | _ \<Rightarrow> None)"

definition validateSearch :: "(string \<Rightarrow> json option) \<Rightarrow> files_search" where
  "validateSearch f =
     \<lparr>q_file = string_field (f ''file''), q_folder = string_field (f ''folder''),
      q_drive = string_field (f ''drive''), q_action = parseFilesAction (f ''action''),
      q_group = string_field (f ''recognitionGroup'')\<rparr>"

text \<open>A value that is absent or the empty string is falsy.\<close>

definition named_by :: "string option \<Rightarrow> my_server list \<Rightarrow> my_server option" where
  "named_by d servers =
     (case d of None \<Rightarrow> None | Some x \<Rightarrow> if x = [] then None else find (\<lambda>s. ms_drive_id s = x) servers)"

definition DRIVE_OVERVIEW :: string where "DRIVE_OVERVIEW = ''all''"

text \<open>The view: the drive picker, or a folder (\<open>None\<close> for the root) with the drive it is scoped to.\<close>

datatype shown = Loading | Picker | FolderAt "string option" "string option"

record viewer =
  vr_impersonating :: bool
  vr_servers :: "my_server list option"
  vr_default_drive :: "string option"

definition root_view :: "viewer \<Rightarrow> files_search \<Rightarrow> shown" where
  "root_view w q =
     (if vr_impersonating w then FolderAt None None
      else case vr_servers w of
        None \<Rightarrow> Loading
      | Some servers \<Rightarrow>
          (case servers of
             [] \<Rightarrow> FolderAt None None
           | [s] \<Rightarrow> FolderAt None (Some (ms_drive_id s))
           | _ \<Rightarrow>
               if q_drive q = Some DRIVE_OVERVIEW then Picker
               else case named_by (q_drive q) servers of
                 Some s \<Rightarrow> FolderAt None (Some (ms_drive_id s))
               | None \<Rightarrow>
                   (case named_by (vr_default_drive w) servers of
                      Some s \<Rightarrow> FolderAt None (Some (ms_drive_id s))
                    | None \<Rightarrow>
                        if q_action q \<noteq> None
                        then FolderAt None (Some (ms_drive_id (or_else (find ms_is_primary servers) (hd servers))))
                        else Picker)))"

definition shown_by :: "viewer \<Rightarrow> files_search \<Rightarrow> shown" where
  "shown_by w q =
     (case q_folder q of
        None \<Rightarrow> root_view w q
      | Some f \<Rightarrow> if f = [] then root_view w q else FolderAt (Some f) None)"

section \<open>The folder view\<close>

datatype item_kind = FileItem | FolderItem

datatype view_request =
    MoveFile string string
  | MoveFolder string string
  | DeleteOneFile string
  | DeleteOneFolder string
  | RenameFile string string
  | RenameFolder string string
  | CreateFolder string "string option" folder_kind "string option"
  | SetAutoUpload "string option"

record folder_view =
  vw_mode :: bool
  vw_files :: "string list"                     \<comment> \<open>the selection, in insertion order\<close>
  vw_folders :: "string list"
  vw_pendingBulkMove :: bool
  vw_pendingBulkDelete :: bool
  vw_pendingDelete :: "(item_kind \<times> string \<times> string) option"
  vw_renaming :: "(item_kind \<times> string \<times> string) option"      \<comment> \<open>kind, id, locked extension\<close>
  vw_renameValue :: string
  vw_creating :: bool
  vw_newName :: string
  vw_newKind :: folder_kind
  vw_newDrive :: "string option"
  vw_serviceSelect :: bool
  vw_emailSelect :: bool
  vw_sent :: "view_request list"
  vw_notices :: "notice list"

definition fresh_view :: folder_view where
  "fresh_view = \<lparr>vw_mode = False, vw_files = [], vw_folders = [], vw_pendingBulkMove = False,
     vw_pendingBulkDelete = False, vw_pendingDelete = None, vw_renaming = None, vw_renameValue = [],
     vw_creating = False, vw_newName = [], vw_newKind = Regular, vw_newDrive = None,
     vw_serviceSelect = False, vw_emailSelect = False, vw_sent = [], vw_notices = []\<rparr>"

definition send :: "view_request list \<Rightarrow> folder_view \<Rightarrow> folder_view" where
  "send rs v = v\<lparr>vw_sent := vw_sent v @ rs\<rparr>"

definition say :: "notice \<Rightarrow> folder_view \<Rightarrow> folder_view" where
  "say n v = v\<lparr>vw_notices := vw_notices v @ [n]\<rparr>"

definition clear_selected :: "folder_view \<Rightarrow> folder_view" where
  "clear_selected v = v\<lparr>vw_files := [], vw_folders := []\<rparr>"

definition toggle_mode :: "folder_view \<Rightarrow> folder_view" where
  "toggle_mode v = (let v' = (if vw_mode v then clear_selected v else v) in v'\<lparr>vw_mode := \<not> vw_mode v\<rparr>)"

definition toggle_in :: "string \<Rightarrow> string list \<Rightarrow> string list" where
  "toggle_in i xs = (if i \<in> set xs then filter (\<lambda>x. x \<noteq> i) xs else xs @ [i])"

definition toggleSelectFile :: "string \<Rightarrow> folder_view \<Rightarrow> folder_view" where
  "toggleSelectFile i v = v\<lparr>vw_files := toggle_in i (vw_files v)\<rparr>"

definition toggleSelectFolder :: "string \<Rightarrow> folder_view \<Rightarrow> folder_view" where
  "toggleSelectFolder i v = v\<lparr>vw_folders := toggle_in i (vw_folders v)\<rparr>"

text \<open>What a drag of an item carries: the selection when the item is one of several selected.\<close>

definition drag_snapshot :: "item_kind \<Rightarrow> string \<Rightarrow> folder_view \<Rightarrow> (string list \<times> string list) option" where
  "drag_snapshot k i v =
     (let inSelection = (case k of FileItem \<Rightarrow> i \<in> set (vw_files v) | FolderItem \<Rightarrow> i \<in> set (vw_folders v))
      in if \<not> inSelection \<or> length (vw_files v) + length (vw_folders v) \<le> 1 then None
         else Some (vw_files v, vw_folders v))"

text \<open>A bulk move; the result says whether the view goes on to the target folder.\<close>

definition moveManyTo ::
  "(view_request \<Rightarrow> bool) \<Rightarrow> string list \<Rightarrow> string list \<Rightarrow> string \<Rightarrow> folder_view \<Rightarrow> folder_view \<times> string option" where
  "moveManyTo ok fileIds folderIds target v =
     (let rs = map (\<lambda>i. MoveFile i target) fileIds @ map (\<lambda>i. MoveFolder i target) folderIds;
          tot = length rs;
          failed = count_if (\<lambda>r. \<not> ok r) rs;
          v1 = clear_selected (send rs v)\<lparr>vw_pendingBulkMove := False, vw_mode := False\<rparr>;
          v2 = (if 0 < failed
                then say (ErrorNotice (show_nat (tot - failed) @ '' moved, '' @ show_nat failed @ '' failed to move'')) v1
                else v1)
      in (v2, if failed < tot then Some target else None))"

definition runBulkMove :: "(view_request \<Rightarrow> bool) \<Rightarrow> string \<Rightarrow> folder_view \<Rightarrow> folder_view \<times> string option" where
  "runBulkMove ok target v = moveManyTo ok (vw_files v) (vw_folders v) target v"

definition bulkDelete :: "(view_request \<Rightarrow> bool) \<Rightarrow> folder_view \<Rightarrow> folder_view" where
  "bulkDelete ok v =
     (let rs = map DeleteOneFile (vw_files v) @ map DeleteOneFolder (vw_folders v);
          tot = length rs;
          failed = count_if (\<lambda>r. \<not> ok r) rs;
          v1 = clear_selected (send rs v)\<lparr>vw_pendingBulkDelete := False, vw_mode := False\<rparr>
      in if 0 < failed
         then say (ErrorNotice (show_nat (tot - failed) @ '' deleted, '' @ show_nat failed @ '' failed (folders must be empty first)'')) v1
         else v1)"

text \<open>\<open>skip\<close>: the user has opted out of the confirmation (\<open>readSkipDeleteCookie\<close>).\<close>

definition handleBulkDeleteClick :: "bool \<Rightarrow> (view_request \<Rightarrow> bool) \<Rightarrow> folder_view \<Rightarrow> folder_view" where
  "handleBulkDeleteClick skip ok v = (if skip then bulkDelete ok v else v\<lparr>vw_pendingBulkDelete := True\<rparr>)"

definition delete_one :: "(view_request \<Rightarrow> bool) \<Rightarrow> item_kind \<Rightarrow> string \<Rightarrow> folder_view \<Rightarrow> folder_view" where
  "delete_one ok k i v =
     (let r = (case k of FileItem \<Rightarrow> DeleteOneFile i | FolderItem \<Rightarrow> DeleteOneFolder i);
          v1 = send [r] v
      in if ok r then v1
         else say (ErrorNotice (case k of FileItem \<Rightarrow> ''Failed to delete file'' | FolderItem \<Rightarrow> ''Failed to delete folder'')) v1)"

definition handleDeleteClick ::
  "bool \<Rightarrow> (view_request \<Rightarrow> bool) \<Rightarrow> item_kind \<Rightarrow> string \<Rightarrow> string \<Rightarrow> folder_view \<Rightarrow> folder_view" where
  "handleDeleteClick skip ok k i name v =
     (if skip then delete_one ok k i v else v\<lparr>vw_pendingDelete := Some (k, i, name)\<rparr>)"

definition confirmDelete :: "(view_request \<Rightarrow> bool) \<Rightarrow> folder_view \<Rightarrow> folder_view" where
  "confirmDelete ok v =
     (case vw_pendingDelete v of
        None \<Rightarrow> v
      | Some (k, i, _) \<Rightarrow> (delete_one ok k i v)\<lparr>vw_pendingDelete := None\<rparr>)"

text \<open>Favourites: one toggle per item, decided by the sets of the render that was clicked.\<close>

definition toggle_fav_file :: "string set \<Rightarrow> string \<Rightarrow> fav_state \<Rightarrow> fav_state" where
  "toggle_fav_file favs i = mutate (if i \<in> favs then DeleteFile i else PostFile i)"

definition toggle_fav_folder :: "string set \<Rightarrow> string \<Rightarrow> fav_state \<Rightarrow> fav_state" where
  "toggle_fav_folder favs i = mutate (if i \<in> favs then DeleteFolder i else PostFolder i)"

definition bulkFavorite :: "folder_view \<Rightarrow> fav_state \<Rightarrow> fav_state" where
  "bulkFavorite v s =
     (let F = favoriteFileIds s; D = favoriteFolderIds s;
          allFavorited = (list_all (\<lambda>i. i \<in> F) (vw_files v) \<and> list_all (\<lambda>i. i \<in> D) (vw_folders v))
      in if allFavorited
         then fold (toggle_fav_folder D) (vw_folders v) (fold (toggle_fav_file F) (vw_files v) s)
         else fold (toggle_fav_folder D) (filter (\<lambda>i. i \<notin> D) (vw_folders v))
                (fold (toggle_fav_file F) (filter (\<lambda>i. i \<notin> F) (vw_files v)) s))"

section \<open>Renaming\<close>

text \<open>\<open>lastIndexOf('.')\<close>: the name split at its last dot, the extension without it.\<close>

definition last_dot :: "string \<Rightarrow> (string \<times> string) option" where
  "last_dot name =
     (if CHR ''.'' \<in> set name
      then Some (rev (tl (dropWhile (\<lambda>c. c \<noteq> CHR ''.'') (rev name))), rev (takeWhile (\<lambda>c. c \<noteq> CHR ''.'') (rev name)))
      else None)"

definition splitExtension :: "string \<Rightarrow> string \<times> string" where
  "splitExtension name =
     (case last_dot name of
        None \<Rightarrow> (name, [])
      | Some (base, ext) \<Rightarrow> if base = [] \<or> ext = [] then (name, []) else (base, CHR ''.'' # ext))"

definition startRename :: "item_kind \<Rightarrow> string \<Rightarrow> string \<Rightarrow> folder_view \<Rightarrow> folder_view" where
  "startRename k i name v =
     (let (base, ext) = (case k of FileItem \<Rightarrow> splitExtension name | FolderItem \<Rightarrow> (name, []))
      in v\<lparr>vw_renaming := Some (k, i, ext), vw_renameValue := base\<rparr>)"

definition edit_rename :: "string \<Rightarrow> folder_view \<Rightarrow> folder_view" where
  "edit_rename x v = v\<lparr>vw_renameValue := x\<rparr>"

text \<open>The answer of the server comes with the request: success ends the renaming.\<close>

definition confirmRename :: "(view_request \<Rightarrow> string option) \<Rightarrow> folder_view \<Rightarrow> folder_view" where
  "confirmRename err v =
     (case vw_renaming v of
        None \<Rightarrow> v
      | Some (k, i, ext) \<Rightarrow>
          let base = trim (vw_renameValue v)
          in if base = [] then v
             else
               let r = (case k of FileItem \<Rightarrow> RenameFile i (base @ ext) | FolderItem \<Rightarrow> RenameFolder i (base @ ext));
                   v1 = send [r] v
               in (case err r of
                     None \<Rightarrow> v1\<lparr>vw_renaming := None\<rparr>
                   | Some msg \<Rightarrow> say (ErrorNotice msg) v1))"

definition cancelRename :: "folder_view \<Rightarrow> folder_view" where
  "cancelRename v = v\<lparr>vw_renaming := None, vw_renameValue := []\<rparr>"

section \<open>Creating a folder\<close>

definition startCreate :: "viewer \<Rightarrow> my_server option \<Rightarrow> folder_kind \<Rightarrow> folder_view \<Rightarrow> folder_view" where
  "startCreate w currentDrive kind v =
     v\<lparr>vw_newKind := kind, vw_newName := [],
       vw_newDrive :=
         (case currentDrive of
            Some d \<Rightarrow> Some (ms_drive_id d)
          | None \<Rightarrow> map_option ms_drive_id (Option.bind (vr_servers w) (find ms_is_primary))),
       vw_creating := True\<rparr>"

definition edit_new_name :: "string \<Rightarrow> folder_view \<Rightarrow> folder_view" where
  "edit_new_name x v = v\<lparr>vw_newName := x\<rparr>"

definition cancelNewFolder :: "folder_view \<Rightarrow> folder_view" where
  "cancelNewFolder v = v\<lparr>vw_creating := False, vw_newName := [], vw_newKind := Regular, vw_newDrive := None\<rparr>"

text \<open>\<open>created\<close> is the server's answer: the new folder, or a failure. A new media collection becomes the
  target of automatic uploads.\<close>

definition confirmNewFolder :: "string option \<Rightarrow> (view_request \<Rightarrow> folder option) \<Rightarrow> folder_view \<Rightarrow> folder_view" where
  "confirmNewFolder folderId created v =
     (let name = trim (vw_newName v)
      in if name = [] then v
         else
           let r = CreateFolder name folderId (vw_newKind v) (vw_newDrive v);
               v1 = send [r] v
           in (case created r of
                 None \<Rightarrow> say (ErrorNotice ''Failed to create folder'') v1
               | Some f \<Rightarrow>
                   let v2 = cancelNewFolder v1
                   in if fo_kind f = MediaKind
                      then say (SuccessNotice (CHR 0x22 # fo_name f @ [CHR 0x22] @ '' is now your auto-upload destination''))
                             (send [SetAutoUpload (Some (fo_id f))] v2)
                      else v2))"

definition toggleAutoUploadTarget :: "string option \<Rightarrow> string \<Rightarrow> folder_view \<Rightarrow> folder_view" where
  "toggleAutoUploadTarget target f v = send [SetAutoUpload (if target = Some f then None else Some f)] v"

section \<open>Properties of the operations\<close>

lemma send_simps [simp]:
  "vw_files (send rs v) = vw_files v" "vw_folders (send rs v) = vw_folders v"
  "vw_notices (send rs v) = vw_notices v" "vw_sent (send rs v) = vw_sent v @ rs"
  "vw_sent (say n v) = vw_sent v" "vw_notices (say n v) = vw_notices v @ [n]"
  "vw_files (say n v) = vw_files v" "vw_folders (say n v) = vw_folders v" "vw_mode (say n v) = vw_mode v"
  by (simp_all add: send_def say_def)

lemma some_succeed: "length rs - count_if (\<lambda>r. \<not> ok r) rs = count_if ok rs"
proof (induction rs)
  case (Cons r rs)
  then show ?case using count_if_le [of "\<lambda>r. \<not> ok r" rs] by (simp add: Suc_diff_le)
qed simp

lemma failures_less: "count_if (\<lambda>r. \<not> ok r) rs < length rs \<longleftrightarrow> (\<exists>r \<in> set rs. ok r)"
proof (induction rs)
  case (Cons r rs)
  then show ?case using count_if_le [of "\<lambda>r. \<not> ok r" rs] by auto
qed simp

definition move_requests :: "string \<Rightarrow> folder_view \<Rightarrow> view_request list" where
  "move_requests t v = map (\<lambda>i. MoveFile i t) (vw_files v) @ map (\<lambda>i. MoveFolder i t) (vw_folders v)"

definition delete_requests :: "folder_view \<Rightarrow> view_request list" where
  "delete_requests v = map DeleteOneFile (vw_files v) @ map DeleteOneFolder (vw_folders v)"

text \<open>A bulk move accounts for the selection: it asks to move each selected item once and ends the
  selection; when something failed, and only then, it tells how many items were moved and how many
  were not; and the view goes on to the target exactly when something was moved.\<close>

theorem bulk_move_accounts:
  "vw_sent (fst (runBulkMove ok t v)) = vw_sent v @ move_requests t v
    \<and> vw_files (fst (runBulkMove ok t v)) = [] \<and> vw_folders (fst (runBulkMove ok t v)) = []
    \<and> \<not> vw_mode (fst (runBulkMove ok t v))
    \<and> vw_notices (fst (runBulkMove ok t v)) = vw_notices v @
        (let bad = count_if (\<lambda>r. \<not> ok r) (move_requests t v)
         in if bad = 0 then []
            else [ErrorNotice (show_nat (count_if ok (move_requests t v)) @ '' moved, '' @ show_nat bad @ '' failed to move'')])
    \<and> snd (runBulkMove ok t v) = (if Bex (set (move_requests t v)) ok then Some t else None)"
proof -
  have run: "runBulkMove ok t v =
    (let rs = move_requests t v; failed = count_if (\<lambda>r. \<not> ok r) rs;
         v1 = clear_selected (send rs v)\<lparr>vw_pendingBulkMove := False, vw_mode := False\<rparr>
     in (if 0 < failed then say (ErrorNotice (show_nat (length rs - failed) @ '' moved, '' @ show_nat failed @ '' failed to move'')) v1
         else v1, if failed < length rs then Some t else None))"
    by (simp only: runBulkMove_def moveManyTo_def move_requests_def Let_def)
  show ?thesis
    unfolding run Let_def some_succeed failures_less by (simp add: clear_selected_def)
qed

text \<open>A bulk delete asks to delete each selected item once and nothing else, ends the selection, and
  reports the failures.\<close>

theorem bulk_delete_accounts:
  "vw_sent (bulkDelete ok v) = vw_sent v @ delete_requests v
    \<and> vw_files (bulkDelete ok v) = [] \<and> vw_folders (bulkDelete ok v) = [] \<and> \<not> vw_mode (bulkDelete ok v)
    \<and> vw_notices (bulkDelete ok v) = vw_notices v @
        (let bad = count_if (\<lambda>r. \<not> ok r) (delete_requests v)
         in if bad = 0 then []
            else [ErrorNotice (show_nat (count_if ok (delete_requests v)) @ '' deleted, '' @ show_nat bad
                    @ '' failed (folders must be empty first)'')])"
proof -
  have run: "bulkDelete ok v =
    (let rs = delete_requests v; failed = count_if (\<lambda>r. \<not> ok r) rs;
         v1 = clear_selected (send rs v)\<lparr>vw_pendingBulkDelete := False, vw_mode := False\<rparr>
     in if 0 < failed
        then say (ErrorNotice (show_nat (length rs - failed) @ '' deleted, '' @ show_nat failed @ '' failed (folders must be empty first)'')) v1
        else v1)"
    by (simp only: bulkDelete_def delete_requests_def Let_def)
  show ?thesis unfolding run Let_def some_succeed by (simp add: clear_selected_def)
qed

text \<open>What a drag carries: only a dragged item that is one of several selected ones takes the rest along.\<close>

lemma drag_takes_selection:
  "drag_snapshot k i v = Some (fs, ds) \<Longrightarrow> fs = vw_files v \<and> ds = vw_folders v \<and> 1 < length fs + length ds
     \<and> i \<in> set (case k of FileItem \<Rightarrow> fs | FolderItem \<Rightarrow> ds)"
  by (auto simp: drag_snapshot_def Let_def split: if_splits item_kind.splits)

section \<open>Favourites\<close>

lemma mutate_request: "map fm_request (fv_pending (mutate r s)) = map fm_request (fv_pending s) @ [r]"
  by (cases "fv_cache s") (auto simp: mutate_def on_mutate_def optimisticToggle_def split: fav_request.split)

lemma toggles_requests:
  "map fm_request (fv_pending (fold (toggle_fav_file F) is s)) =
     map fm_request (fv_pending s) @ map (\<lambda>i. if i \<in> F then DeleteFile i else PostFile i) is"
  "map fm_request (fv_pending (fold (toggle_fav_folder D) js s)) =
     map fm_request (fv_pending s) @ map (\<lambda>i. if i \<in> D then DeleteFolder i else PostFolder i) js"
  by (induction "is" arbitrary: s, simp_all add: toggle_fav_file_def mutate_request)
     (induction js arbitrary: s, simp_all add: toggle_fav_folder_def mutate_request)

text \<open>The star of the toolbar coalesces: when every selected item is a favourite it asks to remove
  exactly the selected items; otherwise it asks to add exactly those that are none yet and removes
  nothing.\<close>

theorem bulk_favorite_coalesces:
  "map fm_request (fv_pending (bulkFavorite v s)) = map fm_request (fv_pending s) @
     (if set (vw_files v) \<subseteq> favoriteFileIds s \<and> set (vw_folders v) \<subseteq> favoriteFolderIds s
      then map DeleteFile (vw_files v) @ map DeleteFolder (vw_folders v)
      else map PostFile (filter (\<lambda>i. i \<notin> favoriteFileIds s) (vw_files v))
         @ map PostFolder (filter (\<lambda>i. i \<notin> favoriteFolderIds s) (vw_folders v)))"
  by (auto simp: bulkFavorite_def toggles_requests list_all_iff Let_def subset_iff)

section \<open>Renaming\<close>

lemma last_dot_split: "CHR ''.'' \<notin> set e \<Longrightarrow> last_dot (b @ CHR ''.'' # e) = Some (b, e)"
  by (simp add: last_dot_def takeWhile_append dropWhile_append)

lemma last_dot_join: "last_dot n = Some (b, e) \<Longrightarrow> n = b @ CHR ''.'' # e \<and> CHR ''.'' \<notin> set e"
proof -
  assume l: "last_dot n = Some (b, e)"
  then have mem: "CHR ''.'' \<in> set n" by (simp add: last_dot_def split: if_splits)
  then obtain b' e' where n: "n = b' @ CHR ''.'' # e'" "CHR ''.'' \<notin> set e'"
    by (meson split_list_last)
  with l last_dot_split [of e' b'] show ?thesis by simp
qed

lemma name_split_join: "fst (splitExtension n) @ snd (splitExtension n) = n"
  by (auto simp: splitExtension_def split: option.split dest!: last_dot_join)

lemma split_extension:
  "snd (splitExtension n) \<noteq> [] \<Longrightarrow> \<exists>e. snd (splitExtension n) = CHR ''.'' # e \<and> e \<noteq> [] \<and> CHR ''.'' \<notin> set e"
  by (cases "last_dot n") (auto simp: splitExtension_def split: if_splits dest!: last_dot_join)

lemma split_again:
  assumes "b \<noteq> []" "snd (splitExtension n) \<noteq> []"
  shows "splitExtension (b @ snd (splitExtension n)) = (b, snd (splitExtension n))"
proof -
  obtain e where e: "snd (splitExtension n) = CHR ''.'' # e" "e \<noteq> []" "CHR ''.'' \<notin> set e"
    using split_extension [OF assms(2)] by blast
  have "splitExtension (b @ CHR ''.'' # e) = (b, CHR ''.'' # e)"
    using last_dot_split [OF e(3), of b] assms(1) e(2) by (simp add: splitExtension_def)
  then show ?thesis by (simp only: e(1))
qed

text \<open>Renaming a file locks its extension: whatever the user types, the one request sent (none for a
  blank name) names the file by what was typed without the surrounding blanks, followed by the old
  extension, and a file that had an extension keeps exactly that extension.\<close>

theorem rename_keeps_extension:
  "vw_sent (confirmRename err (edit_rename x (startRename FileItem i name v))) = vw_sent v @
     (if trim x = [] then [] else [RenameFile i (trim x @ snd (splitExtension name))])
   \<and> fst (splitExtension name) @ snd (splitExtension name) = name
   \<and> (trim x = [] \<or> snd (splitExtension name) = []
      \<or> splitExtension (trim x @ snd (splitExtension name)) = (trim x, snd (splitExtension name)))"
  using split_again [of "trim x" name]
  by (auto simp: startRename_def edit_rename_def confirmRename_def Let_def name_split_join split_beta
      send_def say_def split: option.split)

text \<open>A file whose name starts with its only dot, or ends in a dot, has no extension to lock.\<close>

lemma dotfiles_have_none:
  "splitExtension ''.gitignore'' = (''.gitignore'', [])" "splitExtension ''notes.'' = (''notes.'', [])"
  "splitExtension ''a.tar.gz'' = (''a.tar'', ''.gz'')"
  by (simp_all add: splitExtension_def last_dot_def)

end
