(* ===== verification/FilesPage.thy ===== *)
theory FilesPage
  imports FolderView
begin

text \<open>
  The files page as a machine over its URL (\<open>frontend/src/routes/_auth.client/index.tsx\<close>,
  \<open>frontend/src/components/FilesSidebar.tsx\<close>): navigation replaces the search parameters, the page
  renders the view they name, a view that stays mounted keeps its state and one that is replaced loses
  it, and an \<open>?action=\<close> parameter is taken up by the effect of the folder view. Also the storage prompt
  and the opt-out cookie of the delete confirmation.
\<close>

section \<open>Pages, navigation, actions\<close>

record user =
  us_username :: string
  us_is_premium :: bool
  us_is_admin :: bool
  us_providers :: "string list option"
  us_used :: nat
  us_quota :: nat

record files_page =
  pg_search :: files_search
  pg_view :: "folder_view option"

text \<open>Two folder views are the same mounted component when both are the root's or both are a folder's.\<close>

definition same_slot :: "shown \<Rightarrow> shown \<Rightarrow> bool" where
  "same_slot a b =
     (case (a, b) of
        (FolderAt f _, FolderAt g _) \<Rightarrow> (f = None) = (g = None)
      | _ \<Rightarrow> False)"

definition go :: "viewer \<Rightarrow> files_search \<Rightarrow> files_page \<Rightarrow> files_page" where
  "go w q p =
     (let old = shown_by w (pg_search p); new = shown_by w q
      in \<lparr>pg_search = q,
          pg_view =
            (case new of
               FolderAt f _ \<Rightarrow>
                 (case pg_view p of
                    Some v \<Rightarrow>
                      if same_slot old new
                      then Some (case old of
                                   FolderAt f' _ \<Rightarrow> if f' = f then v else clear_selected v
                                 | _ \<Rightarrow> v)
                      else Some fresh_view
                  | None \<Rightarrow> Some fresh_view)
             | _ \<Rightarrow> None)\<rparr>)"

definition open_page :: "viewer \<Rightarrow> files_search \<Rightarrow> files_page" where
  "open_page w q = go w q \<lparr>pg_search = no_search, pg_view = None\<rparr>"

definition search_folder :: "files_page \<Rightarrow> string option" where
  "search_folder p = (case q_folder (pg_search p) of None \<Rightarrow> None | Some f \<Rightarrow> if f = [] then None else Some f)"

definition openFolder :: "viewer \<Rightarrow> string \<Rightarrow> files_page \<Rightarrow> files_page" where
  "openFolder w i = go w (no_search\<lparr>q_folder := Some i\<rparr>)"

definition openFile :: "viewer \<Rightarrow> string \<Rightarrow> files_page \<Rightarrow> files_page" where
  "openFile w i p =
     (case shown_by w (pg_search p) of
        FolderAt None d \<Rightarrow> go w (no_search\<lparr>q_file := Some i, q_drive := d\<rparr>) p
      | FolderAt (Some f) _ \<Rightarrow> go w (no_search\<lparr>q_file := Some i, q_folder := Some f\<rparr>) p
      | _ \<Rightarrow> p)"

text \<open>\<open>FileView.close\<close>: the folder and the drive of the URL stay.\<close>

definition close_file :: "viewer \<Rightarrow> files_page \<Rightarrow> files_page" where
  "close_file w p = go w (no_search\<lparr>q_folder := q_folder (pg_search p), q_drive := q_drive (pg_search p)\<rparr>) p"

text \<open>\<open>goBack\<close> from a folder whose parent and drive are given.\<close>

definition goBack :: "viewer \<Rightarrow> string option \<Rightarrow> my_server option \<Rightarrow> files_page \<Rightarrow> files_page" where
  "goBack w parent currentDrive p =
     (case search_folder p of
        None \<Rightarrow> p
      | Some _ \<Rightarrow>
          (case parent of
             Some x \<Rightarrow> if x = [] then go w (no_search\<lparr>q_drive := map_option ms_drive_id currentDrive\<rparr>) p
                       else go w (no_search\<lparr>q_folder := Some x\<rparr>) p
           | None \<Rightarrow> go w (no_search\<lparr>q_drive := map_option ms_drive_id currentDrive\<rparr>) p))"

definition goToDriveRoot :: "viewer \<Rightarrow> string \<Rightarrow> files_page \<Rightarrow> files_page" where
  "goToDriveRoot w d = go w (no_search\<lparr>q_drive := Some d\<rparr>)"

definition goToAllStorage :: "viewer \<Rightarrow> files_page \<Rightarrow> files_page" where
  "goToAllStorage w = go w (no_search\<lparr>q_drive := Some DRIVE_OVERVIEW\<rparr>)"

text \<open>The side panel keeps the folder of the URL and nothing else.\<close>

definition fireAction :: "viewer \<Rightarrow> files_action \<Rightarrow> files_page \<Rightarrow> files_page" where
  "fireAction w a p = go w (no_search\<lparr>q_folder := q_folder (pg_search p), q_action := Some a\<rparr>) p"

definition premium :: "user \<Rightarrow> bool" where
  "premium u \<longleftrightarrow> us_is_premium u \<or> us_is_admin u"

definition start_action ::
  "viewer \<Rightarrow> user \<Rightarrow> my_server option \<Rightarrow> files_action \<Rightarrow> folder_view \<Rightarrow> folder_view" where
  "start_action w u currentDrive a v =
     (case a of
        NewFolder \<Rightarrow> startCreate w currentDrive Regular v
      | NewCollection \<Rightarrow> if premium u then startCreate w currentDrive MediaKind v else v
      | GoogleBackup \<Rightarrow>
          if premium u \<and> ''google'' \<in> set (or_else (us_providers u) []) then v\<lparr>vw_serviceSelect := True\<rparr> else v
      | EmailBackup \<Rightarrow> if premium u then v\<lparr>vw_emailSelect := True\<rparr> else v)"

text \<open>The drive the view lives on: at a root the scoped one, else the folder's own.\<close>

definition current_drive :: "viewer \<Rightarrow> string option \<Rightarrow> shown \<Rightarrow> my_server option" where
  "current_drive w folder_drive sh =
     (case sh of
        FolderAt None d \<Rightarrow> Option.bind (vr_servers w) (named_by d)
      | FolderAt (Some _) _ \<Rightarrow> fst (resolveDrive folder_drive (vr_servers w))
      | _ \<Rightarrow> None)"

text \<open>The effect: strip the parameter, and start the action unless the page is read-only.\<close>

definition action_effect :: "viewer \<Rightarrow> user option \<Rightarrow> string option \<Rightarrow> files_page \<Rightarrow> files_page" where
  "action_effect w u folder_drive p =
     (case (q_action (pg_search p), u, pg_view p) of
        (Some a, Some usr, Some v) \<Rightarrow>
          let sh = shown_by w (pg_search p);
              v' = (if vr_impersonating w then v else start_action w usr (current_drive w folder_drive sh) a v);
              f = (case sh of FolderAt f _ \<Rightarrow> f | _ \<Rightarrow> None)
          in go w (no_search\<lparr>q_folder := f\<rparr>) (p\<lparr>pg_view := Some v'\<rparr>)
      | _ \<Rightarrow> p)"

section \<open>The storage prompt\<close>

definition STORAGE_PROMPT_THRESHOLD :: rat where "STORAGE_PROMPT_THRESHOLD = 3 / 4"

datatype prompt_reason = OpenPrompt | NearQuota | OverQuota

definition upload_prompt ::
  "bool \<Rightarrow> bool \<Rightarrow> user option \<Rightarrow> nat list \<Rightarrow> prompt_reason option \<Rightarrow> prompt_reason option" where
  "upload_prompt enabled readOnly u sizes reason =
     (case u of
        None \<Rightarrow> reason
      | Some usr \<Rightarrow>
          if \<not> enabled \<or> readOnly \<or> sizes = [] then reason
          else
            let after = us_used usr + sum_list sizes
            in if us_quota usr < after then Some OverQuota
               else if 0 < us_quota usr \<and> of_nat (us_quota usr) * STORAGE_PROMPT_THRESHOLD \<le> of_nat after
               then Some NearQuota else reason)"

section \<open>The opt-out cookie\<close>

definition COOKIE_KEY :: string where "COOKIE_KEY = ''skipDeleteConfirm''"

text \<open>\<open>document.cookie\<close> shows the jar as \<open>name=value\<close> pairs joined by a semicolon and a blank; setting
  a cookie replaces the one of that name.\<close>

type_synonym cookie_jar = "(string \<times> string) list"

definition cookie_text :: "cookie_jar \<Rightarrow> string" where
  "cookie_text jar = join_text ''; '' (map (\<lambda>(k, v). k @ CHR ''='' # v) jar)"

definition put_cookie :: "string \<Rightarrow> string \<Rightarrow> cookie_jar \<Rightarrow> cookie_jar" where
  "put_cookie k v jar = filter (\<lambda>c. fst c \<noteq> k) jar @ [(k, v)]"

definition readSkipDeleteCookie :: "cookie_jar \<Rightarrow> string \<Rightarrow> bool" where
  "readSkipDeleteCookie jar username =
     (case find (\<lambda>c. starts_with (COOKIE_KEY @ ''='') (trim c)) (split_on CHR '';'' (cookie_text jar)) of
        None \<Rightarrow> False
      | Some entry \<Rightarrow> drop (length COOKIE_KEY + 1) (trim entry) = username)"

definition setSkipDeleteCookie :: "string \<Rightarrow> cookie_jar \<Rightarrow> cookie_jar" where
  "setSkipDeleteCookie username jar = put_cookie COOKIE_KEY (encodeURIComponent username) jar"

definition clearSkipDeleteCookie :: "cookie_jar \<Rightarrow> cookie_jar" where
  "clearSkipDeleteCookie jar = filter (\<lambda>c. fst c \<noteq> COOKIE_KEY) jar"

section \<open>Which view is shown\<close>

lemma named_by_found: "named_by d servers = Some s \<Longrightarrow> s \<in> set servers \<and> d = Some (ms_drive_id s)"
  by (auto simp: named_by_def find_Some_iff split: option.splits if_splits)

lemma named_by_member:
  assumes "s \<in> set servers" "ms_drive_id s \<noteq> []"
  shows "\<exists>t. named_by (Some (ms_drive_id s)) servers = Some t \<and> ms_drive_id t = ms_drive_id s"
proof -
  obtain t where "find (\<lambda>x. ms_drive_id x = ms_drive_id s) servers = Some t"
    using assms(1) by (cases "find (\<lambda>x. ms_drive_id x = ms_drive_id s) servers") (auto simp: find_None_iff)
  then show ?thesis using assms(2) by (auto simp: named_by_def find_Some_iff)
qed

lemma find_member: "find P xs = Some x \<Longrightarrow> x \<in> set xs"
  by (auto simp: find_Some_iff)

text \<open>A root scoped to a drive is scoped to one of the user's drives.\<close>

lemma root_view_drive:
  "root_view w q = FolderAt f (Some d) \<Longrightarrow>
     f = None \<and> \<not> vr_impersonating w \<and> (\<exists>servers s. vr_servers w = Some servers \<and> s \<in> set servers \<and> ms_drive_id s = d)"
proof -
  assume r: "root_view w q = FolderAt f (Some d)"
  then obtain servers where sv: "vr_servers w = Some servers" "\<not> vr_impersonating w"
    by (auto simp: root_view_def split: if_splits option.splits)
  show ?thesis
  proof (cases servers)
    case (Cons a rest)
    have p: "or_else (find ms_is_primary (a # rest)) a \<in> set (a # rest)"
      using find_member [of ms_is_primary "a # rest"]
      by (cases "find ms_is_primary (a # rest)") (simp_all del: find.simps)
    show ?thesis
    proof (cases rest)
      case Nil
      then show ?thesis using r sv Cons by (auto simp: root_view_def)
    next
      case (Cons b more)
      with \<open>servers = a # rest\<close> r sv p show ?thesis
        by (auto simp: root_view_def split: if_splits option.splits dest!: named_by_found simp del: find.simps)
    qed
  qed (use r sv in \<open>auto simp: root_view_def\<close>)
qed

lemma root_view_named:
  assumes "\<not> vr_impersonating w" "vr_servers w = Some servers" "s \<in> set servers"
    "ms_drive_id s \<notin> {[], DRIVE_OVERVIEW}"
  shows "root_view w (no_search\<lparr>q_file := i, q_drive := Some (ms_drive_id s)\<rparr>) = FolderAt None (Some (ms_drive_id s))"
proof -
  obtain t where t: "named_by (Some (ms_drive_id s)) servers = Some t" "ms_drive_id t = ms_drive_id s"
    using named_by_member [OF assms(3)] assms(4) by blast
  consider "servers = [s]" | a b rest where "servers = a # b # rest"
    using assms(3) by (cases servers; cases "tl servers") auto
  then show ?thesis
    using assms t by cases (simp_all add: root_view_def no_search_def)
qed

lemma shown_by_root: "shown_by w (no_search\<lparr>q_file := i, q_drive := d\<rparr>) = root_view w (no_search\<lparr>q_file := i, q_drive := d\<rparr>)"
  by (simp add: shown_by_def no_search_def)

lemma go_simps [simp]: "pg_search (go w q p) = q"
  by (simp add: go_def Let_def)

text \<open>Looking at a file and closing it comes back to the view it was opened in: the same folder, or
  the root of the same drive, also when the URL did not name the drive.\<close>

theorem closing_returns_to_view:
  assumes "shown_by w (pg_search p) = FolderAt f d"
    and "\<forall>servers. vr_servers w = Some servers \<longrightarrow> (\<forall>s \<in> set servers. ms_drive_id s \<notin> {[], DRIVE_OVERVIEW})"
  shows "shown_by w (pg_search (close_file w (openFile w i p))) = shown_by w (pg_search p)"
proof (cases f)
  case (Some x)
  then have "q_folder (pg_search p) = Some x" "x \<noteq> []"
    using assms(1) by (auto simp: shown_by_def root_view_def split: option.splits list.splits if_splits)
  then show ?thesis using assms(1) Some by (simp add: close_file_def openFile_def shown_by_def no_search_def)
next
  case None
  then have root: "root_view w (pg_search p) = FolderAt None d"
    using assms(1) by (auto simp: shown_by_def split: option.splits if_splits)
  have again: "root_view w (no_search\<lparr>q_drive := d\<rparr>) = FolderAt None d"
  proof (cases d)
    case None
    with root show ?thesis
      by (auto simp: root_view_def no_search_def split: option.splits list.splits if_splits)
  next
    case (Some x)
    with root_view_drive [of w "pg_search p" None x] root
    obtain servers s where "\<not> vr_impersonating w" "vr_servers w = Some servers" "s \<in> set servers" "ms_drive_id s = x"
      by auto
    moreover from this have "ms_drive_id s \<notin> {[], DRIVE_OVERVIEW}" using assms(2) by blast
    ultimately show ?thesis using root_view_named [of w servers s None] Some by (simp add: no_search_def)
  qed
  have "close_file w (openFile w i p) = go w (no_search\<lparr>q_drive := d\<rparr>) (openFile w i p)"
    using assms(1) None by (simp add: close_file_def openFile_def no_search_def)
  then show ?thesis using again assms(1) None by (simp add: shown_by_def no_search_def)
qed

definition a_server :: "string \<Rightarrow> bool \<Rightarrow> my_server" where
  "a_server d primary =
     \<lparr>ms_server_id = d, ms_drive_id = d, ms_name = d, ms_state = ''on'', ms_drive_type = Hdd, ms_capacity_bytes = 9,
      ms_used_bytes = 0, ms_drive_used_pct = 0, ms_quota_bytes = 9, ms_is_primary = primary, ms_ping_url = []\<rparr>"

definition two_drives :: viewer where
  "two_drives = \<lparr>vr_impersonating = False, vr_servers = Some [a_server ''d1'' True, a_server ''d2'' False],
     vr_default_drive = None\<rparr>"

definition some_user :: user where
  "some_user = \<lparr>us_username = ''u'', us_is_premium = True, us_is_admin = False, us_providers = None, us_used = 0, us_quota = 9\<rparr>"

lemmas page_eval = two_drives_def a_server_def no_search_def named_by_def DRIVE_OVERVIEW_def

theorem closing_returns_to_view_witness:
  "shown_by two_drives (pg_search (close_file two_drives (openFile two_drives ''f'' (open_page two_drives (no_search\<lparr>q_drive := Some ''d2''\<rparr>)))))
     = FolderAt None (Some ''d2'')"
proof -
  let ?p = "open_page two_drives (no_search\<lparr>q_drive := Some ''d2''\<rparr>)"
  have s: "shown_by two_drives (pg_search ?p) = FolderAt None (Some ''d2'')"
    by (simp add: open_page_def shown_by_def root_view_def page_eval)
  have "\<forall>servers. vr_servers two_drives = Some servers \<longrightarrow> (\<forall>s \<in> set servers. ms_drive_id s \<notin> {[], DRIVE_OVERVIEW})"
    by (simp add: page_eval)
  from closing_returns_to_view [OF s this] s show ?thesis by simp
qed

section \<open>Actions of the side panel\<close>

lemma shown_folder:
  "q_folder q = Some f \<Longrightarrow> f \<noteq> [] \<Longrightarrow> shown_by w q = FolderAt (Some f) None"
  by (simp add: shown_by_def)

text \<open>Fired inside a folder, "New folder" opens the creation form in that folder: the view stays
  mounted with its selection, the form asks for a regular folder on the folder's drive, and the
  parameter is gone from the URL, so it does not fire again.\<close>

theorem action_opens_form:
  assumes "q_folder (pg_search p) = Some f" and "f \<noteq> []" and "pg_view p = Some v" and "\<not> vr_impersonating w"
  shows "action_effect w (Some u) fd (fireAction w NewFolder p) =
    \<lparr>pg_search = no_search\<lparr>q_folder := Some f\<rparr>,
     pg_view = Some (startCreate w (fst (resolveDrive fd (vr_servers w))) Regular v)\<rparr>"
proof -
  have s: "shown_by w (no_search\<lparr>q_folder := Some f, q_action := a\<rparr>) = FolderAt (Some f) None" for a
    using assms(2) by (simp add: shown_by_def)
  have s': "shown_by w (no_search\<lparr>q_folder := Some f\<rparr>) = FolderAt (Some f) None"
    using assms(2) by (simp add: shown_by_def)
  have f: "fireAction w NewFolder p = \<lparr>pg_search = no_search\<lparr>q_folder := Some f, q_action := Some NewFolder\<rparr>, pg_view = Some v\<rparr>"
    using shown_folder [OF assms(1,2), of w] assms(1,3)
    by (simp add: fireAction_def go_def s same_slot_def)
  show ?thesis
    unfolding f using assms(4) by (simp add: action_effect_def s s' go_def same_slot_def start_action_def current_drive_def)
qed

theorem action_opens_form_witness:
  "vw_creating (the (pg_view (action_effect two_drives (Some some_user) None
     (fireAction two_drives NewFolder (open_page two_drives (no_search\<lparr>q_folder := Some ''f''\<rparr>))))))"
proof -
  have v: "pg_view (open_page two_drives (no_search\<lparr>q_folder := Some ''f''\<rparr>)) = Some fresh_view"
    by (simp add: open_page_def go_def shown_by_def)
  have "q_folder (pg_search (open_page two_drives (no_search\<lparr>q_folder := Some ''f''\<rparr>))) = Some ''f''"
    by (simp add: open_page_def)
  from action_opens_form [OF this _ v, of two_drives some_user None] show ?thesis
    by (simp add: two_drives_def startCreate_def)
qed

text \<open>Fired at the top level by a user with several drives and no default one, every action of
  the side panel is lost: the effect starts it in the primary drive's view and strips the parameter, and
  without the parameter the page shows the drive picker, which unmounts that view.\<close>

theorem root_action_is_lost:
  assumes "\<not> vr_impersonating w" and "vr_servers w = Some (a # b # rest)"
    and "named_by (vr_default_drive w) (a # b # rest) = None"
    and "q_folder (pg_search p) = None"
  shows "pg_view (fireAction w act p) \<noteq> None \<and>
    action_effect w (Some u) fd (fireAction w act p) = \<lparr>pg_search = no_search, pg_view = None\<rparr>"
proof -
  let ?q = "no_search\<lparr>q_action := Some act\<rparr>"
  have e: "no_search\<lparr>q_folder := None, q_action := x\<rparr> = no_search\<lparr>q_action := x\<rparr>"
    "no_search\<lparr>q_folder := None\<rparr> = no_search" for x
    by (simp_all add: no_search_def)
  have "\<exists>d. shown_by w ?q = FolderAt None d"
    using assms by (simp add: shown_by_def root_view_def no_search_def named_by_def [of None] DRIVE_OVERVIEW_def)
  then obtain d where d: "shown_by w ?q = FolderAt None d" ..
  have picker: "shown_by w no_search = Picker"
    using assms by (simp add: shown_by_def root_view_def no_search_def named_by_def [of None] DRIVE_OVERVIEW_def)
  have "pg_view (fireAction w act p) \<noteq> None" "pg_search (fireAction w act p) = ?q"
    using d assms(4) by (auto simp: fireAction_def go_def Let_def e split: option.split)
  then obtain v where f: "fireAction w act p = \<lparr>pg_search = ?q, pg_view = Some v\<rparr>"
    by (cases "fireAction w act p") auto
  have "q_action ?q = Some act" by simp
  then show ?thesis unfolding f action_effect_def
    by (simp only: files_page.simps d option.case shown.case prod.case Let_def go_def e picker) simp
qed

theorem root_action_is_lost_witness:
  "pg_view (action_effect two_drives (Some some_user) None
     (fireAction two_drives NewFolder (open_page two_drives (no_search\<lparr>q_drive := Some ''d2''\<rparr>)))) = None"
  using root_action_is_lost [of two_drives "a_server ''d1'' True" "a_server ''d2'' False" "[]"
      "open_page two_drives (no_search\<lparr>q_drive := Some ''d2''\<rparr>)" NewFolder some_user None]
  by (simp add: page_eval open_page_def)

section \<open>The storage prompt and the cookie\<close>

lemma prompt_exact:
  "us_quota u < us_used u + sum_list sizes \<Longrightarrow> sizes \<noteq> [] \<Longrightarrow>
     upload_prompt True False (Some u) sizes r = Some OverQuota"
  by (simp add: upload_prompt_def)

text \<open>The jar of a browser: names and values without separators.\<close>

definition plain_jar :: "cookie_jar \<Rightarrow> bool" where
  "plain_jar jar \<longleftrightarrow> (\<forall>(k, v) \<in> set jar. CHR ''='' \<notin> set k \<and>
     (\<forall>c \<in> set (k @ v). c \<noteq> CHR '';'' \<and> \<not> is_space c))"

definition cookie_entry :: "string \<times> string \<Rightarrow> string" where
  "cookie_entry c = fst c @ CHR ''='' # snd c"

lemma trim_plain: "list_all (\<lambda>c. \<not> is_space c) s \<Longrightarrow> trim s = s"
proof -
  assume a: "list_all (\<lambda>c. \<not> is_space c) s"
  have d: "list_all (\<lambda>c. \<not> is_space c) x \<Longrightarrow> dropWhile is_space x = x" for x by (cases x) simp_all
  from a have "list_all (\<lambda>c. \<not> is_space c) (rev s)" by (simp add: list_all_iff)
  with d [OF a] d [OF this] show ?thesis by (simp add: trim_def)
qed

lemma trim_blank: "trim (CHR '' '' # s) = trim s"
  by (simp add: trim_def is_space_def)

lemma split_cookies:
  "xs \<noteq> [] \<Longrightarrow> list_all (\<lambda>x. CHR '';'' \<notin> set x) xs \<Longrightarrow>
     split_on CHR '';'' (join_text ''; '' xs) = hd xs # map ((#) CHR '' '') (tl xs)"
proof (induction xs rule: list_nonempty_induct)
  case (single x)
  then show ?case by (simp add: split_on_none)
next
  case (cons x xs)
  then obtain y ys where xs: "xs = y # ys" by (cases xs) auto
  have "split_on CHR '';'' (CHR '' '' # join_text ''; '' xs) = (CHR '' '' # y) # map ((#) CHR '' '') ys"
    using cons xs by simp
  then show ?case using cons.prems xs by (simp add: split_on_append)
qed

lemma find_trim: "find (\<lambda>c. P (trim c)) L = None \<and> find P (map trim L) = None
    \<or> (\<exists>e. find (\<lambda>c. P (trim c)) L = Some e \<and> find P (map trim L) = Some (trim e))"
  by (induction L) auto

lemma entry_is_key:
  assumes "CHR ''='' \<notin> set k"
  shows "starts_with (COOKIE_KEY @ ''='') (cookie_entry (k, v)) \<longleftrightarrow> k = COOKIE_KEY"
proof
  assume "starts_with (COOKIE_KEY @ ''='') (cookie_entry (k, v))"
  then obtain r where "k @ CHR ''='' # v = COOKIE_KEY @ CHR ''='' # r"
    unfolding starts_with_def cookie_entry_def fst_conv snd_conv
    by (metis append_Cons append_assoc append_take_drop_id self_append_conv2)
  then have "takeWhile (\<lambda>c. c \<noteq> CHR ''='') (k @ CHR ''='' # v) = takeWhile (\<lambda>c. c \<noteq> CHR ''='') (COOKIE_KEY @ CHR ''='' # r)"
    by simp
  then show "k = COOKIE_KEY" using assms by (simp add: takeWhile_append COOKIE_KEY_def split: if_splits)
qed (simp add: starts_with_def cookie_entry_def)

lemma read_cookie:
  assumes "plain_jar jar"
  shows "readSkipDeleteCookie jar u \<longleftrightarrow> (\<exists>v. find (\<lambda>c. fst c = COOKIE_KEY) jar = Some (COOKIE_KEY, v) \<and> v = u)"
proof -
  let ?P = "starts_with (COOKIE_KEY @ ''='')" and ?L = "split_on CHR '';'' (cookie_text jar)"
  have entries: "find ?P (map trim ?L) = map_option cookie_entry (find (\<lambda>c. fst c = COOKIE_KEY) jar)"
  proof (cases "jar = []")
    case True
    then show ?thesis by (simp add: cookie_text_def trim_def starts_with_def COOKIE_KEY_def)
  next
    case False
    have ct: "cookie_text jar = join_text ''; '' (map cookie_entry jar)"
      by (simp add: cookie_text_def cookie_entry_def [abs_def] case_prod_unfold)
    have clean: "list_all (\<lambda>c. c \<noteq> CHR '';'' \<and> \<not> is_space c) (cookie_entry c)" if "c \<in> set jar" for c
      using assms that by (cases c) (fastforce simp: plain_jar_def cookie_entry_def list_all_iff is_space_def)
    then have "list_all (\<lambda>x. CHR '';'' \<notin> set x) (map cookie_entry jar)" by (auto simp: list_all_iff)
    with False have "?L = hd (map cookie_entry jar) # map ((#) CHR '' '') (tl (map cookie_entry jar))"
      unfolding ct by (intro split_cookies) simp_all
    then have "map trim ?L = map trim (map cookie_entry jar)"
      using False by (cases jar) (simp_all add: trim_blank)
    also have "\<dots> = map cookie_entry jar"
      using clean by (auto intro!: trim_plain simp: list_all_iff)
    finally have m: "map trim ?L = map cookie_entry jar" .
    have "find ?P (map cookie_entry xs) = map_option cookie_entry (find (\<lambda>c. fst c = COOKIE_KEY) xs)"
      if "set xs \<subseteq> set jar" for xs
      using that
    proof (induction xs)
      case (Cons c xs)
      obtain k v where c: "c = (k, v)" by (cases c)
      then have "CHR ''='' \<notin> set k" using Cons.prems assms by (fastforce simp: plain_jar_def)
      then show ?case using Cons entry_is_key [of k v] c by simp
    qed simp
    then show ?thesis unfolding m by simp
  qed
  have read: "readSkipDeleteCookie jar u \<longleftrightarrow>
      (case find ?P (map trim ?L) of None \<Rightarrow> False | Some e \<Rightarrow> drop (length COOKIE_KEY + 1) e = u)"
    using find_trim [of ?P ?L] by (auto simp: readSkipDeleteCookie_def)
  show ?thesis
  proof (cases "find (\<lambda>c. fst c = COOKIE_KEY) jar")
    case None
    then show ?thesis unfolding read entries by simp
  next
    case (Some c)
    moreover from Some have "fst c = COOKIE_KEY" by (auto simp: find_Some_iff)
    then obtain v where "c = (COOKIE_KEY, v)" by (cases c) simp
    ultimately show ?thesis unfolding read entries by (simp add: cookie_entry_def)
  qed
qed

lemma encode_same: "encodeURIComponent u = u \<longleftrightarrow> list_all uri_unreserved u"
proof
  have len: "length s \<le> length (encodeURIComponent s)" for s
    by (induction s) (simp_all add: encodeURIComponent_def encode_byte_def)
  show "encodeURIComponent u = u \<Longrightarrow> list_all uri_unreserved u"
  proof (induction u)
    case (Cons c u)
    show ?case
    proof (cases "uri_unreserved c")
      case True
      with Cons show ?thesis by (simp add: encodeURIComponent_def encode_byte_def)
    next
      case False
      then have "length (encodeURIComponent (c # u)) = 3 + length (encodeURIComponent u)"
        by (simp add: encodeURIComponent_def encode_byte_def)
      with Cons.prems len [of u] show ?thesis by simp
    qed
  qed simp
  show "list_all uri_unreserved u \<Longrightarrow> encodeURIComponent u = u"
    by (induction u) (simp_all add: encodeURIComponent_def encode_byte_def)
qed

lemma encoded_plain: "c \<in> set (encodeURIComponent u) \<Longrightarrow> c \<noteq> CHR '';'' \<and> \<not> is_space c"
  by (auto dest!: encode_chars simp: uri_unreserved_def is_alnum_def is_upper_def is_lower_def is_digit_def is_space_def)

text \<open>The opt-out of the delete confirmation is stored encoded and read back undecoded, so it is
  remembered exactly for the user names that the encoding leaves alone; a user whose name is, say, an
  email address is asked again every time.\<close>

theorem opt_out_needs_plain_name:
  assumes "plain_jar jar"
  shows "readSkipDeleteCookie (setSkipDeleteCookie u jar) u \<longleftrightarrow> list_all uri_unreserved u"
proof -
  have plain: "plain_jar (setSkipDeleteCookie u jar)"
    using assms encoded_plain [of _ u]
    by (auto simp: plain_jar_def setSkipDeleteCookie_def put_cookie_def COOKIE_KEY_def is_space_def)
  have "find (\<lambda>c. fst c = COOKIE_KEY) (filter (\<lambda>c. fst c \<noteq> COOKIE_KEY) jar @ [(COOKIE_KEY, encodeURIComponent u)])
      = Some (COOKIE_KEY, encodeURIComponent u)"
    by (induction jar) simp_all
  then have "readSkipDeleteCookie (setSkipDeleteCookie u jar) u \<longleftrightarrow> encodeURIComponent u = u"
    unfolding read_cookie [OF plain] by (simp add: setSkipDeleteCookie_def put_cookie_def)
  then show ?thesis by (simp add: encode_same)
qed

theorem opt_out_needs_plain_name_witness:
  "readSkipDeleteCookie (setSkipDeleteCookie ''ann'' [(''theme'', ''dark'')]) ''ann''
    \<and> \<not> readSkipDeleteCookie (setSkipDeleteCookie ''a@b'' [(''theme'', ''dark'')]) ''a@b''"
proof -
  have "plain_jar [(''theme'', ''dark'')]" by (simp add: plain_jar_def is_space_def)
  from opt_out_needs_plain_name [OF this] show ?thesis
    by (simp add: uri_unreserved_def is_alnum_def is_upper_def is_lower_def is_digit_def)
qed

text \<open>Cleared, the opt-out is gone for every user.\<close>

lemma cleared_is_gone: "plain_jar jar \<Longrightarrow> \<not> readSkipDeleteCookie (clearSkipDeleteCookie jar) u"
proof -
  assume "plain_jar jar"
  then have "plain_jar (clearSkipDeleteCookie jar)" by (auto simp: plain_jar_def clearSkipDeleteCookie_def)
  from read_cookie [OF this, of u] show ?thesis
    by (auto simp: clearSkipDeleteCookie_def dest!: find_member)
qed

end
