(* ===== verification/EmailRetrieval.thy ===== *)
theory EmailRetrieval
  imports EmailProviders
begin

text \<open>
  Retrieving a mailbox behind the open picker: \<open>handleEmailCriteriaContinue\<close> and its handlers in
  \<open>frontend/src/routes/_auth.client/index.tsx\<close>. A retrieval is an asynchronous run with three kinds of
  answers (the token, the account, the pages of the listing); the user may cancel, stop the fetching,
  close the picker or start another retrieval between any two of them. The page is a machine over
  these events; the run that an answer belongs to is named by its number.
\<close>

section \<open>The state\<close>

datatype run_phase = SigningIn | Asking | Fetching | Ended

record retrieval_run =
  rv_provider :: provider
  rv_criteria :: retrieval
  rv_phase :: run_phase
  rv_cancelled :: bool
  rv_token :: string
  rv_account :: string
  rv_raw :: "email_item list"                   \<comment> \<open>what the listing has accumulated\<close>

record picker_state =
  ps_provider :: provider
  ps_token :: string
  ps_account :: string
  ps_items :: "email_item list"
  ps_fetching :: bool
  ps_progress :: "fetch_progress option"

text \<open>\<open>eu_stop\<close> is \<open>emailFetchStopRef\<close>, \<open>eu_cancel\<close> the run whose closure \<open>emailCancelRef\<close> holds.\<close>

record email_ui =
  eu_loading :: bool
  eu_error :: "string option"
  eu_picker :: "picker_state option"
  eu_stop :: bool
  eu_cancel :: "nat option"
  eu_runs :: "retrieval_run list"

definition email_idle :: email_ui where
  "email_idle = \<lparr>eu_loading = False, eu_error = None, eu_picker = None, eu_stop = False, eu_cancel = None, eu_runs = []\<rparr>"

definition on_run :: "nat \<Rightarrow> (retrieval_run \<Rightarrow> retrieval_run) \<Rightarrow> email_ui \<Rightarrow> email_ui" where
  "on_run k f s = s\<lparr>eu_runs := (eu_runs s)[k := f (eu_runs s ! k)]\<rparr>"

section \<open>The handlers\<close>

definition continue_retrieval :: "provider \<Rightarrow> retrieval \<Rightarrow> email_ui \<Rightarrow> email_ui" where
  "continue_retrieval p c s =
     s\<lparr>eu_loading := True, eu_error := None, eu_stop := False, eu_cancel := Some (length (eu_runs s)),
       eu_runs := eu_runs s @ [\<lparr>rv_provider = p, rv_criteria = c, rv_phase = SigningIn, rv_cancelled = False,
         rv_token = [], rv_account = [], rv_raw = []\<rparr>]\<rparr>"

definition cancel_retrieval :: "email_ui \<Rightarrow> email_ui" where
  "cancel_retrieval s =
     (case eu_cancel s of
        None \<Rightarrow> s
      | Some k \<Rightarrow> (on_run k (\<lambda>r. r\<lparr>rv_cancelled := True\<rparr>) s)\<lparr>eu_stop := True\<rparr>)"

definition stopEmailFetch :: "email_ui \<Rightarrow> email_ui" where
  "stopEmailFetch s = s\<lparr>eu_stop := True\<rparr>"

definition close_picker :: "email_ui \<Rightarrow> email_ui" where
  "close_picker s = (stopEmailFetch s)\<lparr>eu_picker := None\<rparr>"

text \<open>The \<open>finally\<close> and the \<open>catch\<close> of a run.\<close>

definition end_run :: "nat \<Rightarrow> email_ui \<Rightarrow> email_ui" where
  "end_run k s = (on_run k (\<lambda>r. r\<lparr>rv_phase := Ended\<rparr>) s)\<lparr>eu_cancel := None, eu_loading := False\<rparr>"

fun has_text :: "string \<Rightarrow> string \<Rightarrow> bool" where
  "has_text t [] = (t = [])"
| "has_text t (c # cs) = (starts_with t (c # cs) \<or> has_text t cs)"

definition silent_dismissal :: "string \<Rightarrow> bool" where
  "silent_dismissal msg \<longleftrightarrow> msg = [] \<or> has_text ''popup_closed'' (to_lower msg) \<or> has_text ''cancel'' (to_lower msg)"

definition fail_run :: "nat \<Rightarrow> string \<Rightarrow> email_ui \<Rightarrow> email_ui" where
  "fail_run k msg s =
     (let s1 = s\<lparr>eu_picker := None\<rparr>;
          s2 = (if rv_cancelled (eu_runs s ! k) \<or> silent_dismissal msg then s1 else s1\<lparr>eu_error := Some msg\<rparr>)
      in end_run k s2)"

definition NO_ACCOUNT :: string where "NO_ACCOUNT = ''Could not determine the signed-in email address.''"
definition NO_EMAILS :: string where "NO_EMAILS = ''No emails were found matching your criteria.''"

text \<open>\<open>fmt\<close> is \<open>toLocaleString\<close>.\<close>

definition cap_message :: "(nat \<Rightarrow> string) \<Rightarrow> nat \<Rightarrow> string" where
  "cap_message fmt n = ''Stopped after the '' @ fmt n @ ''-email safety limit '' @ em_dash @ '' your criteria may not be fully covered.''"

text \<open>What follows the listing.\<close>

definition listing_done ::
  "dates \<Rightarrow> (nat \<Rightarrow> string) \<Rightarrow> int \<Rightarrow> nat \<Rightarrow> bool \<Rightarrow> email_ui \<Rightarrow> email_ui" where
  "listing_done dt fmt now k truncated s =
     (let r = eu_runs s ! k;
          items = finalizeByCriteria dt (rv_criteria r) (rv_raw r)
      in if rv_cancelled r then end_run k (s\<lparr>eu_picker := None\<rparr>)
         else
           let s1 = s\<lparr>eu_picker := map_option (\<lambda>p. p\<lparr>ps_items := items, ps_fetching := False,
                        ps_progress := Some (fetchProgressFor dt now (rv_criteria r) items)\<rparr>) (eu_picker s)\<rparr>;
               s2 = (if items = [] then s1\<lparr>eu_picker := None, eu_error := Some NO_EMAILS\<rparr>
                     else if truncated then s1\<lparr>eu_error := Some (cap_message fmt (length items))\<rparr> else s1)
           in end_run k s2)"

definition token_answer :: "nat \<Rightarrow> string + string \<Rightarrow> email_ui \<Rightarrow> email_ui" where
  "token_answer k a s =
     (case a of
        Inl msg \<Rightarrow> fail_run k msg s
      | Inr tok \<Rightarrow>
          if rv_cancelled (eu_runs s ! k) then end_run k s
          else on_run k (\<lambda>r. r\<lparr>rv_token := tok, rv_phase := Asking\<rparr>) s)"

text \<open>The listing asks \<open>shouldStop\<close> before its first request.\<close>

definition account_answer ::
  "dates \<Rightarrow> (nat \<Rightarrow> string) \<Rightarrow> int \<Rightarrow> nat \<Rightarrow> string + string option \<Rightarrow> email_ui \<Rightarrow> email_ui" where
  "account_answer dt fmt now k a s =
     (case a of
        Inl msg \<Rightarrow> fail_run k msg s
      | Inr account \<Rightarrow>
          if rv_cancelled (eu_runs s ! k) then end_run k s
          else (case account of
                  None \<Rightarrow> end_run k (s\<lparr>eu_error := Some NO_ACCOUNT\<rparr>)
                | Some x \<Rightarrow>
                    if x = [] then end_run k (s\<lparr>eu_error := Some NO_ACCOUNT\<rparr>)
                    else
                      let r = eu_runs s ! k;
                          s1 = (on_run k (\<lambda>r. r\<lparr>rv_account := x, rv_phase := Fetching\<rparr>) s)
                            \<lparr>eu_picker := Some \<lparr>ps_provider = rv_provider r, ps_token = rv_token r, ps_account = x,
                               ps_items = [], ps_fetching = True, ps_progress = None\<rparr>, eu_loading := False\<rparr>
                      in if eu_stop s then listing_done dt fmt now k False s1 else s1))"

text \<open>A page of the listing: it is emitted to the picker (\<open>onPage\<close>), and the listing ends or asks for the
  next one.\<close>

definition show_page :: "dates \<Rightarrow> int \<Rightarrow> nat \<Rightarrow> email_ui \<Rightarrow> email_ui" where
  "show_page dt now k s =
     (let r = eu_runs s ! k; (items, progress) = emitPage dt now (rv_criteria r) (rv_raw r)
      in if rv_cancelled r then s
         else s\<lparr>eu_picker := map_option (\<lambda>p. p\<lparr>ps_items := items, ps_progress := Some progress\<rparr>) (eu_picker s)\<rparr>)"

definition page_answer ::
  "dates \<Rightarrow> (nat \<Rightarrow> string) \<Rightarrow> int \<Rightarrow> nat \<Rightarrow> string + email_item list \<times> bool \<Rightarrow> email_ui \<Rightarrow> email_ui" where
  "page_answer dt fmt now k a s =
     (case a of
        Inl msg \<Rightarrow> fail_run k msg s
      | Inr (new, again) \<Rightarrow>
          if new = [] then listing_done dt fmt now k False s
          else
            let s1 = on_run k (\<lambda>r. r\<lparr>rv_raw := rv_raw r @ new\<rparr>) s;
                r = eu_runs s1 ! k;
                s2 = show_page dt now k s1
            in if SAFETY_CAP_EMAILS \<le> length (rv_raw r) then listing_done dt fmt now k True s2
               else if criteriaSatisfied dt (rv_criteria r) (rv_raw r) \<or> \<not> again \<or> rv_cancelled r \<or> eu_stop s
               then listing_done dt fmt now k False s2
               else s2)"

section \<open>The machine\<close>

datatype retrieval_event =
    Continue provider retrieval
  | Cancel
  | StopFetching
  | ClosePicker
  | Token nat "string + string"
  | Account nat "string + string option"
  | Page nat "string + email_item list \<times> bool"

definition in_phase :: "nat \<Rightarrow> run_phase \<Rightarrow> email_ui \<Rightarrow> bool" where
  "in_phase k ph s \<longleftrightarrow> k < length (eu_runs s) \<and> rv_phase (eu_runs s ! k) = ph"

text \<open>An answer comes only to a run that waits for it.\<close>

definition retrieval_step ::
  "dates \<Rightarrow> (nat \<Rightarrow> string) \<Rightarrow> int \<Rightarrow> retrieval_event \<Rightarrow> email_ui \<Rightarrow> email_ui" where
  "retrieval_step dt fmt now e s =
     (case e of
        Continue p c \<Rightarrow> continue_retrieval p c s
      | Cancel \<Rightarrow> cancel_retrieval s
      | StopFetching \<Rightarrow> stopEmailFetch s
      | ClosePicker \<Rightarrow> close_picker s
      | Token k a \<Rightarrow> if in_phase k SigningIn s then token_answer k a s else s
      | Account k a \<Rightarrow> if in_phase k Asking s then account_answer dt fmt now k a s else s
      | Page k a \<Rightarrow> if in_phase k Fetching s then page_answer dt fmt now k a s else s)"

section \<open>One retrieval at a time\<close>

text \<open>Runs that do not overlap: the next retrieval starts when the earlier ones have ended and the picker,
  which covers the page, is closed.\<close>

definition all_ended :: "email_ui \<Rightarrow> bool" where
  "all_ended s \<longleftrightarrow> list_all (\<lambda>r. rv_phase r = Ended) (eu_runs s)"

definition may_happen :: "retrieval_event \<Rightarrow> email_ui \<Rightarrow> bool" where
  "may_happen e s = (case e of Continue p c \<Rightarrow> all_ended s \<and> eu_picker s = None | _ \<Rightarrow> True)"

inductive serial :: "dates \<Rightarrow> (nat \<Rightarrow> string) \<Rightarrow> email_ui \<Rightarrow> bool" for dt fmt where
  start: "serial dt fmt email_idle"
| step: "serial dt fmt s \<Longrightarrow> may_happen e s \<Longrightarrow> serial dt fmt (retrieval_step dt fmt now e s)"

definition picker_of_run :: "dates \<Rightarrow> retrieval_run \<Rightarrow> picker_state \<Rightarrow> bool" where
  "picker_of_run dt r p \<longleftrightarrow>
     ps_provider p = rv_provider r \<and> ps_token p = rv_token r \<and> ps_account p = rv_account r
     \<and> (\<not> rv_cancelled r \<longrightarrow> ps_items p = finalizeByCriteria dt (rv_criteria r) (rv_raw r))
     \<and> (ps_fetching p \<longleftrightarrow> rv_phase r = Fetching) \<and> rv_phase r \<in> {Fetching, Ended}"

definition email_inv :: "dates \<Rightarrow> email_ui \<Rightarrow> bool" where
  "email_inv dt s \<longleftrightarrow>
     list_all (\<lambda>r. rv_phase r = Ended) (butlast (eu_runs s))
     \<and> (eu_picker s \<noteq> None \<longrightarrow> eu_runs s \<noteq> [] \<and> picker_of_run dt (last (eu_runs s)) (the (eu_picker s)))
     \<and> (eu_runs s \<noteq> [] \<and> rv_phase (last (eu_runs s)) \<in> {SigningIn, Asking} \<longrightarrow> eu_picker s = None \<and> rv_raw (last (eu_runs s)) = [])"

lemma finalize_empty [simp]: "finalizeByCriteria dt c [] = []"
  by (simp add: finalizeByCriteria_def split: retrieval.split)

text \<open>A run that waits for an answer is the last one.\<close>

lemma waiting_is_last:
  assumes "email_inv dt s" "in_phase k ph s" "ph \<noteq> Ended"
  obtains rs r where "eu_runs s = rs @ [r]" "k = length rs" "rv_phase r = ph"
proof -
  have k: "k < length (eu_runs s)" "rv_phase (eu_runs s ! k) = ph" using assms(2) by (auto simp: in_phase_def)
  then have ne: "eu_runs s \<noteq> []" by auto
  then have b: "eu_runs s = butlast (eu_runs s) @ [last (eu_runs s)]" by simp
  have "k = length (butlast (eu_runs s))"
  proof (rule ccontr)
    assume "k \<noteq> length (butlast (eu_runs s))"
    then have "k < length (butlast (eu_runs s))" using k by auto
    then have "butlast (eu_runs s) ! k \<in> set (butlast (eu_runs s))" "eu_runs s ! k = butlast (eu_runs s) ! k"
      by (blast intro: nth_mem) (use \<open>k < length (butlast (eu_runs s))\<close> in \<open>simp add: nth_butlast\<close>)
    with assms(1,3) k show False by (auto simp: email_inv_def list_all_iff)
  qed
  then have "k = length (butlast (eu_runs s))" "rv_phase (last (eu_runs s)) = ph"
    using k ne by (auto simp: last_conv_nth)
  with b show ?thesis by (rule that)
qed

lemmas email_defs = continue_retrieval_def cancel_retrieval_def stopEmailFetch_def close_picker_def
  end_run_def on_run_def fail_run_def listing_done_def token_answer_def account_answer_def
  show_page_def emitPage_def Let_def

lemma list_all_update: "list_all P xs \<Longrightarrow> P y \<Longrightarrow> list_all P (xs[k := y])"
  by (induction xs arbitrary: k) (auto split: nat.split)

lemma inv_snoc:
  assumes "eu_runs s = rs @ [r]"
  shows "email_inv dt s \<longleftrightarrow> list_all (\<lambda>r. rv_phase r = Ended) rs
     \<and> (\<forall>p. eu_picker s = Some p \<longrightarrow> picker_of_run dt r p)
     \<and> (rv_phase r \<in> {SigningIn, Asking} \<longrightarrow> eu_picker s = None \<and> rv_raw r = [])"
  using assms by (cases "eu_picker s") (simp_all add: email_inv_def)

lemma inv_user:
  assumes "email_inv dt s"
  shows "email_inv dt (cancel_retrieval s)" "email_inv dt (stopEmailFetch s)" "email_inv dt (close_picker s)"
    "all_ended s \<Longrightarrow> eu_picker s = None \<Longrightarrow> email_inv dt (continue_retrieval p c s)"
proof -
  show "email_inv dt (stopEmailFetch s)" "email_inv dt (close_picker s)"
    using assms by (auto simp: email_inv_def stopEmailFetch_def close_picker_def)
  show "all_ended s \<Longrightarrow> eu_picker s = None \<Longrightarrow> email_inv dt (continue_retrieval p c s)"
    by (simp add: email_inv_def continue_retrieval_def all_ended_def)
  show "email_inv dt (cancel_retrieval s)"
  proof (cases "eu_cancel s")
    case (Some k)
    show ?thesis
    proof (cases "eu_runs s" rule: rev_cases)
      case Nil
      with Some assms show ?thesis by (simp add: email_inv_def cancel_retrieval_def on_run_def)
    next
      case (snoc rs r)
      consider "k < length rs" | "k = length rs" | "length rs < k" by linarith
      then show ?thesis
      proof cases
        case 1
        then have "eu_runs (cancel_retrieval s) = rs[k := (rs ! k)\<lparr>rv_cancelled := True\<rparr>] @ [r]"
          using Some snoc by (simp add: cancel_retrieval_def on_run_def list_update_append nth_append)
        moreover have "list_all (\<lambda>r. rv_phase r = Ended) (rs[k := (rs ! k)\<lparr>rv_cancelled := True\<rparr>])"
          using assms 1 by (intro list_all_update) (auto simp: inv_snoc [OF snoc] list_all_iff)
        ultimately show ?thesis
          using assms Some by (simp add: inv_snoc [OF snoc] inv_snoc) (simp add: cancel_retrieval_def on_run_def)
      next
        case 2
        then have "eu_runs (cancel_retrieval s) = rs @ [r\<lparr>rv_cancelled := True\<rparr>]"
          using Some snoc by (simp add: cancel_retrieval_def on_run_def)
        then show ?thesis
          using assms Some by (simp add: inv_snoc [OF snoc] inv_snoc) (simp add: cancel_retrieval_def on_run_def picker_of_run_def)
      next
        case 3
        then have "eu_runs (cancel_retrieval s) = rs @ [r]"
          using Some snoc by (simp add: cancel_retrieval_def on_run_def list_update_beyond)
        then show ?thesis
          using assms Some by (simp add: inv_snoc [OF snoc] inv_snoc) (simp add: cancel_retrieval_def on_run_def)
      qed
    qed
  qed (use assms in \<open>simp add: cancel_retrieval_def\<close>)
qed

text \<open>How a run ends: with the picker closed, or with what the listing brought.\<close>

definition same_account :: "retrieval_run \<Rightarrow> picker_state \<Rightarrow> bool" where
  "same_account r p \<longleftrightarrow> ps_provider p = rv_provider r \<and> ps_token p = rv_token r \<and> ps_account p = rv_account r"

lemma end_run_inv:
  assumes "eu_runs s = rs @ [r]" "list_all (\<lambda>r. rv_phase r = Ended) rs" "eu_picker s = None"
  shows "email_inv dt (end_run (length rs) s)"
proof -
  have "eu_runs (end_run (length rs) s) = rs @ [r\<lparr>rv_phase := Ended\<rparr>]"
    using assms(1) by (simp add: end_run_def on_run_def)
  then show ?thesis using assms(2,3) by (simp add: inv_snoc) (simp add: end_run_def on_run_def)
qed

lemma fail_run_inv:
  assumes "eu_runs s = rs @ [r]" "list_all (\<lambda>r. rv_phase r = Ended) rs"
  shows "email_inv dt (fail_run (length rs) msg s)"
  unfolding fail_run_def Let_def using assms by (intro end_run_inv [where r = r]) simp_all

lemma listing_done_inv:
  assumes "eu_runs s = rs @ [r]" "list_all (\<lambda>r. rv_phase r = Ended) rs"
    "\<forall>p. eu_picker s = Some p \<longrightarrow> same_account r p"
  shows "email_inv dt (listing_done dt fmt now (length rs) b s)"
proof (cases "rv_cancelled r")
  case True
  then have "listing_done dt fmt now (length rs) b s = end_run (length rs) (s\<lparr>eu_picker := None\<rparr>)"
    using assms(1) by (simp add: listing_done_def)
  then show ?thesis using end_run_inv [of "s\<lparr>eu_picker := None\<rparr>" rs r dt] assms by simp
next
  case False
  let ?t = "listing_done dt fmt now (length rs) b s"
  have "eu_runs ?t = rs @ [r\<lparr>rv_phase := Ended\<rparr>]"
    using assms(1) False by (simp add: listing_done_def Let_def end_run_def on_run_def)
  moreover have "picker_of_run dt (r\<lparr>rv_phase := Ended\<rparr>) p" if "eu_picker ?t = Some p" for p
    using assms False that
    by (auto simp: listing_done_def Let_def end_run_def on_run_def picker_of_run_def same_account_def split: if_splits)
  ultimately show ?thesis using assms(2) by (simp add: inv_snoc)
qed

lemma inv_account: "eu_runs s = rs @ [r] \<Longrightarrow> email_inv dt s \<Longrightarrow> \<forall>p. eu_picker s = Some p \<longrightarrow> same_account r p"
  by (simp add: inv_snoc picker_of_run_def same_account_def)

lemma token_inv:
  assumes "email_inv dt s" "in_phase k SigningIn s"
  shows "email_inv dt (token_answer k a s)"
proof -
  obtain rs r where s: "eu_runs s = rs @ [r]" "k = length rs" "rv_phase r = SigningIn"
    using waiting_is_last [OF assms] by blast
  note inv = assms(1) [unfolded inv_snoc [OF s(1)]]
  show ?thesis
  proof (cases a)
    case (Inl msg)
    with s inv show ?thesis by (simp add: token_answer_def fail_run_inv)
  next
    case (Inr tok)
    show ?thesis
    proof (cases "rv_cancelled r")
      case True
      with Inr s inv show ?thesis by (simp add: token_answer_def end_run_inv)
    next
      case False
      then have "eu_runs (token_answer k a s) = rs @ [r\<lparr>rv_token := tok, rv_phase := Asking\<rparr>]"
        using Inr s by (simp add: token_answer_def on_run_def)
      then show ?thesis using inv Inr s False by (simp add: inv_snoc) (simp add: token_answer_def on_run_def)
    qed
  qed
qed

lemma account_inv:
  assumes "email_inv dt s" "in_phase k Asking s"
  shows "email_inv dt (account_answer dt fmt now k b s)"
proof -
  obtain rs r where s: "eu_runs s = rs @ [r]" "k = length rs" "rv_phase r = Asking"
    using waiting_is_last [OF assms] by blast
  note inv = assms(1) [unfolded inv_snoc [OF s(1)]]
  consider msg where "b = Inl msg" | "\<exists>x. b = Inr x" "rv_cancelled r"
    | "b = Inr None \<or> b = Inr (Some [])" "\<not> rv_cancelled r" | x where "b = Inr (Some x)" "x \<noteq> []" "\<not> rv_cancelled r"
    by (metis old.sum.exhaust option.exhaust)
  then show ?thesis
  proof cases
    case 1
    with s inv show ?thesis by (simp add: account_answer_def fail_run_inv)
  next
    case 2
    with s inv show ?thesis by (auto simp: account_answer_def end_run_inv)
  next
    case 3
    with s inv end_run_inv [of "s\<lparr>eu_error := Some NO_ACCOUNT\<rparr>" rs r dt] show ?thesis
      by (auto simp: account_answer_def)
  next
    case (4 x)
    define r' where "r' = r\<lparr>rv_account := x, rv_phase := Fetching\<rparr>"
    define t where "t = (on_run k (\<lambda>r. r\<lparr>rv_account := x, rv_phase := Fetching\<rparr>) s)
      \<lparr>eu_picker := Some \<lparr>ps_provider = rv_provider r, ps_token = rv_token r, ps_account = x,
         ps_items = [], ps_fetching = True, ps_progress = None\<rparr>, eu_loading := False\<rparr>"
    have t: "eu_runs t = rs @ [r']" using s by (simp add: t_def r'_def on_run_def)
    have acc: "account_answer dt fmt now k b s = (if eu_stop s then listing_done dt fmt now k False t else t)"
      using 4 s by (simp add: account_answer_def Let_def t_def)
    have "email_inv dt t" using inv s by (simp add: inv_snoc [OF t]) (simp add: t_def r'_def picker_of_run_def)
    moreover have "email_inv dt (listing_done dt fmt now k False t)"
      using listing_done_inv [OF t _ inv_account [OF t \<open>email_inv dt t\<close>]] inv s by simp
    ultimately show ?thesis by (simp add: acc)
  qed
qed

lemma page_inv:
  assumes "email_inv dt s" "in_phase k Fetching s"
  shows "email_inv dt (page_answer dt fmt now k g s)"
proof -
  obtain rs r where s: "eu_runs s = rs @ [r]" "k = length rs" "rv_phase r = Fetching"
    using waiting_is_last [OF assms] by blast
  note inv = assms(1) [unfolded inv_snoc [OF s(1)]]
  consider msg where "g = Inl msg" | again where "g = Inr ([], again)" | new again where "g = Inr (new, again)" "new \<noteq> []"
    by (metis old.sum.exhaust surj_pair)
  then show ?thesis
  proof cases
    case 1
    with s inv show ?thesis by (simp add: page_answer_def fail_run_inv)
  next
    case 2
    with s inv listing_done_inv [OF s(1) _ inv_account [OF s(1) assms(1)]] show ?thesis by (simp add: page_answer_def)
  next
    case (3 new again)
    define r' where "r' = r\<lparr>rv_raw := rv_raw r @ new\<rparr>"
    define t where "t = show_page dt now k (on_run k (\<lambda>r. r\<lparr>rv_raw := rv_raw r @ new\<rparr>) s)"
    have t: "eu_runs t = rs @ [r']"
      using s by (simp add: t_def r'_def on_run_def show_page_def Let_def split: prod.split)
    have p: "\<exists>q. eu_picker s = Some q \<and> same_account r q \<and> ps_fetching p \<and> same_account r' p
        \<and> (\<not> rv_cancelled r' \<longrightarrow> ps_items p = finalizeByCriteria dt (rv_criteria r') (rv_raw r'))"
      if "eu_picker t = Some p" for p
      using that inv s
      by (auto simp: t_def r'_def on_run_def show_page_def emitPage_def picker_of_run_def same_account_def Let_def split: if_splits)
    have "email_inv dt t"
      using inv s p by (simp add: inv_snoc [OF t]) (auto simp: picker_of_run_def same_account_def r'_def)
    moreover have "email_inv dt (listing_done dt fmt now k b t)" for b
      using listing_done_inv [OF t _ inv_account [OF t \<open>email_inv dt t\<close>]] inv s by simp
    ultimately show ?thesis
      using 3 by (simp add: page_answer_def Let_def flip: t_def)
  qed
qed

lemma serial_inv: "serial dt fmt s \<Longrightarrow> email_inv dt s"
proof (induction rule: serial.induct)
  case start
  show ?case by (simp add: email_inv_def email_idle_def)
next
  case (step s e now)
  then show ?case
    by (cases e) (simp_all add: retrieval_step_def may_happen_def inv_user token_inv account_inv page_inv)
qed

text \<open>C8. While retrievals do not overlap, the picker is true to its account: what it shows are the messages
  the current run has received, cut to the criteria the user chose, under the provider, the token and
  the address of that run, and it says it is fetching exactly while that run is.\<close>

theorem picker_true_to_account:
  assumes "serial dt fmt s" and "eu_picker s = Some p" and "\<not> rv_cancelled (last (eu_runs s))"
  shows "eu_runs s \<noteq> [] \<and> ps_provider p = rv_provider (last (eu_runs s)) \<and> ps_token p = rv_token (last (eu_runs s))
    \<and> ps_account p = rv_account (last (eu_runs s))
    \<and> ps_items p = finalizeByCriteria dt (rv_criteria (last (eu_runs s))) (rv_raw (last (eu_runs s)))
    \<and> (ps_fetching p \<longleftrightarrow> rv_phase (last (eu_runs s)) = Fetching)"
  using serial_inv [OF assms(1)] assms(2,3) by (auto simp: email_inv_def picker_of_run_def)

definition a_mail :: "provider \<Rightarrow> string \<Rightarrow> email_item" where
  "a_mail p i = \<lparr>ei_id = i, ei_provider = p, ei_from = [], ei_fromAddr = [], ei_to = [], ei_subject = [], ei_snippet = [],
     ei_date = [], ei_starred = False, ei_unread = False, ei_hasAttachments = False, ei_sizeEstimate = 1\<rparr>"

definition play :: "retrieval_event list \<Rightarrow> email_ui" where
  "play es = fold (retrieval_step demo_dates (\<lambda>n. []) 0) es email_idle"

lemmas play_eval = play_def retrieval_step_def email_idle_def in_phase_def page_answer_def email_defs
  criteriaSatisfied_def finalizeByCriteria_def fetchProgressFor_def SAFETY_CAP_EMAILS_def

lemma serial_play: "serial demo_dates fmt s \<Longrightarrow> may_happen e s \<Longrightarrow> serial demo_dates fmt (retrieval_step demo_dates fmt now e s)"
  by (rule serial.step)

theorem picker_true_to_account_witness:
  "\<exists>p. eu_picker (play [Continue Gmail (ByAmount 5), Token 0 (Inr ''t''), Account 0 (Inr (Some ''a@x''))]) = Some p
     \<and> ps_account p = ''a@x'' \<and> ps_items p = []"
proof -
  let ?s = "play [Continue Gmail (ByAmount 5), Token 0 (Inr ''t''), Account 0 (Inr (Some ''a@x''))]"
  have "serial demo_dates (\<lambda>n. []) ?s"
    unfolding play_def by (simp, intro serial.step serial.start) (simp_all add: may_happen_def all_ended_def email_idle_def)
  moreover obtain p where p: "eu_picker ?s = Some p" by (simp add: play_eval)
  moreover have "\<not> rv_cancelled (last (eu_runs ?s))" "rv_account (last (eu_runs ?s)) = ''a@x''"
    "rv_raw (last (eu_runs ?s)) = []"
    by (simp_all add: play_eval)
  ultimately show ?thesis using picker_true_to_account [of demo_dates "\<lambda>n. []" ?s p] by simp
qed

text \<open>Stopping keeps what has arrived: after "Stop" or closing the picker the next page of the run is
  its last one; the run ends, and an open picker stays with everything that was received, cut to the
  criteria, unless that is nothing.\<close>

theorem stop_keeps_received:
  assumes "in_phase k Fetching s" and "eu_stop s" and "\<not> rv_cancelled (eu_runs s ! k)" and "new \<noteq> []"
  shows "rv_phase (eu_runs (page_answer dt fmt now k (Inr (new, again)) s) ! k) = Ended
    \<and> map_option ps_items (eu_picker (page_answer dt fmt now k (Inr (new, again)) s)) =
        (let items = finalizeByCriteria dt (rv_criteria (eu_runs s ! k)) (rv_raw (eu_runs s ! k) @ new)
         in if items = [] then None else map_option (\<lambda>p. items) (eu_picker s))"
  using assms by (cases "eu_picker s") (auto simp: page_answer_def email_defs in_phase_def)

theorem stop_keeps_received_witness:
  "map_option ps_items (eu_picker (page_answer demo_dates (\<lambda>n. []) 0 0 (Inr ([a_mail Gmail ''m''], True))
     (stopEmailFetch (play [Continue Gmail (ByAmount 5), Token 0 (Inr ''t''), Account 0 (Inr (Some ''a@x''))]))))
   = Some [a_mail Gmail ''m'']"
proof -
  let ?s = "stopEmailFetch (play [Continue Gmail (ByAmount 5), Token 0 (Inr ''t''), Account 0 (Inr (Some ''a@x''))])"
  have "in_phase 0 Fetching ?s" "eu_stop ?s" "\<not> rv_cancelled (eu_runs ?s ! 0)" "[a_mail Gmail ''m''] \<noteq> []"
    by (simp_all add: play_eval)
  from stop_keeps_received [OF this, of demo_dates "\<lambda>n. []" 0 True] show ?thesis
    by (simp add: play_eval)
qed

text \<open>Closing the picker does not end its run, and starting another retrieval takes the stop back:
  the first run goes on, and its next page appears in the picker of the second account, from where it
  would be backed up with the token of the second account.\<close>

theorem overlapping_runs_mix_accounts:
  "let s = play [Continue Gmail (ByAmount 5), Token 0 (Inr ''t1''), Account 0 (Inr (Some ''a@x'')), ClosePicker,
                 Continue Microsoft (ByAmount 5), Token 1 (Inr ''t2''), Account 1 (Inr (Some ''b@y'')),
                 Page 0 (Inr ([a_mail Gmail ''m''], True))]
   in map_option ps_account (eu_picker s) = Some ''b@y'' \<and> map_option ps_token (eu_picker s) = Some ''t2''
      \<and> map_option ps_items (eu_picker s) = Some [a_mail Gmail ''m''] \<and> rv_phase (eu_runs s ! 0) = Fetching"
  by (simp add: play_eval)

end
