(* ===== verification/BackupFlows.thy ===== *)
theory BackupFlows
  imports BackgroundBackup EmailRetrieval Storage
begin

text \<open>
  How the files page puts the backups together (\<open>frontend/src/routes/_auth.client/index.tsx\<close>): the
  choice of Google services up to the picker, and the background runs, where the run, its rollback on a
  cancellation, the deletion of the originals and the report of the run meet.
\<close>

section \<open>Choosing the Google services\<close>

record service_choice =
  sc_drive :: bool
  sc_photos :: bool

datatype tab_event = OpenTab | CloseTab

record 'i google_ui =
  gu_select_open :: bool
  gu_message :: string
  gu_loading :: bool
  gu_error :: "string option"
  gu_token :: string
  gu_items :: "'i list option"
  gu_tabs :: "tab_event list"

definition loading_message :: "service_choice \<Rightarrow> string" where
  "loading_message c =
     (if sc_photos c \<and> \<not> sc_drive c then ''Selecting photos to upload''
      else if sc_photos c then ''Selecting files & photos to upload'' else ''Loading your Drive files'')"

definition NO_FILES :: string where "NO_FILES = ''No files were found or selected.''"

text \<open>
  The answers of the four awaited calls are parameters; \<open>cancel_at = Some n\<close> says that the user cancels
  before the \<open>n\<close>-th of them has answered, which closes the tab opened for the photos.
\<close>

definition cancelled_by :: "nat option \<Rightarrow> nat \<Rightarrow> bool" where
  "cancelled_by cancel_at n = (case cancel_at of None \<Rightarrow> False | Some c \<Rightarrow> c \<le> n)"

definition google_catch :: "bool \<Rightarrow> string \<Rightarrow> 'i google_ui \<Rightarrow> 'i google_ui" where
  "google_catch cancelled msg s = (if cancelled \<or> silent_dismissal msg then s else s\<lparr>gu_error := Some msg\<rparr>)"

definition google_answers ::
  "service_choice \<Rightarrow> nat option \<Rightarrow> string + string \<Rightarrow> string + string option \<Rightarrow> string + 'i list \<Rightarrow> string + 'i list
    \<Rightarrow> 'i google_ui \<Rightarrow> 'i google_ui" where
  "google_answers c cancel_at token email drive photos s =
     (case token of
        Inl msg \<Rightarrow> google_catch (cancelled_by cancel_at 1) msg s
      | Inr tok \<Rightarrow>
          if cancelled_by cancel_at 1 then s
          else
            let s1 = s\<lparr>gu_token := tok\<rparr>
            in (case (if sc_photos c then email else Inr None) of
                  Inl msg \<Rightarrow> google_catch (cancelled_by cancel_at 2) msg s1
                | Inr account \<Rightarrow>
                    if cancelled_by cancel_at 2 then s1
                    else (case (if sc_drive c then drive else Inr []) of
                            Inl msg \<Rightarrow> google_catch (cancelled_by cancel_at 3) msg s1
                          | Inr driveItems \<Rightarrow>
                              if cancelled_by cancel_at 3 then s1
                              else (case (if sc_photos c then photos else Inr []) of
                                      Inl msg \<Rightarrow> google_catch (cancelled_by cancel_at 4) msg s1
                                    | Inr photoItems \<Rightarrow>
                                        if cancelled_by cancel_at 4 then s1
                                        else if driveItems @ photoItems = [] then s1\<lparr>gu_error := Some NO_FILES\<rparr>
                                        else s1\<lparr>gu_items := Some (driveItems @ photoItems)\<rparr>))))"

definition handleGoogleServiceContinue ::
  "service_choice \<Rightarrow> nat option \<Rightarrow> string + string \<Rightarrow> string + string option \<Rightarrow> string + 'i list \<Rightarrow> string + 'i list
    \<Rightarrow> 'i google_ui \<Rightarrow> 'i google_ui" where
  "handleGoogleServiceContinue c cancel_at token email drive photos s =
     (let s0 = s\<lparr>gu_select_open := False, gu_message := loading_message c, gu_loading := True, gu_error := None,
                 gu_tabs := gu_tabs s @ (if sc_photos c then [OpenTab] else [])
                   @ (if sc_photos c \<and> cancel_at \<noteq> None then [CloseTab] else [])\<rparr>
      in (google_answers c cancel_at token email drive photos s0)\<lparr>gu_loading := False\<rparr>)"

section \<open>Background runs\<close>

record run_report =
  rp_folder :: "string option"
  rp_address :: string
  rp_uploaded :: nat
  rp_duplicates :: nat
  rp_errors :: nat
  rp_notify :: bool

text \<open>Where the messages land: the folder's own drive, else the user's primary one.\<close>

definition email_drive :: "string option \<Rightarrow> my_server list option \<Rightarrow> string option" where
  "email_drive folder_drive servers =
     (case folder_drive of
        Some d \<Rightarrow> Some d
      | None \<Rightarrow> map_option ms_drive_id (Option.bind servers (find ms_is_primary)))"

definition handleStartEmailBackground :: "email_item list \<Rightarrow> email_ui \<times> bg_hook \<Rightarrow> email_ui \<times> bg_hook" where
  "handleStartEmailBackground msgs p =
     (let (s, h) = p
      in if eu_picker s = None then p
         else (s\<lparr>eu_picker := None\<rparr>, start_backup (length msgs) (total_bytes msgs) UEmail h))"

text \<open>The rollback of a cancelled run, as the hook asks for it, and what \<open>onSettled\<close> does with it.\<close>

definition email_rollback :: "(string \<Rightarrow> thrown + unit) \<Rightarrow> cancel_action \<Rightarrow> email_result \<Rightarrow> nat \<times> nat" where
  "email_rollback del act res =
     (if er_cancelled res \<and> act = Remove then removeBackedUpMessages del (er_uploadedMessageIds res) else (0, 0))"

definition originals_deleted :: "email_settings \<Rightarrow> nat \<Rightarrow> email_result \<Rightarrow> string list" where
  "originals_deleted settings removed res =
     (if es_deleteAfter settings \<and> removed = 0 \<and> er_backedUpIds res \<noteq> [] then er_backedUpIds res else [])"

definition email_run_report :: "email_settings \<Rightarrow> string \<Rightarrow> string \<Rightarrow> nat \<Rightarrow> email_result \<Rightarrow> run_report" where
  "email_run_report settings folderId account removed res =
     \<lparr>rp_folder = Some folderId, rp_address = account, rp_uploaded = nat (max 0 (int (er_uploaded res) - int removed)),
      rp_duplicates = er_duplicates res, rp_errors = er_errors res, rp_notify = es_notify settings\<rparr>"

definition google_run_report :: "bool \<Rightarrow> nat \<Rightarrow> 'e run_result \<Rightarrow> run_report" where
  "google_run_report notify removed res =
     \<lparr>rp_folder = None, rp_address = [], rp_uploaded = nat (max 0 (int (rr_uploaded res) - int removed)),
      rp_duplicates = rr_duplicates res, rp_errors = rr_errors res, rp_notify = notify\<rparr>"

section \<open>Properties\<close>

text \<open>The Google picker opens only on a run that was not cancelled, with all the files of Drive followed
  by all the chosen photos; an empty answer is an error message, and the page never stays in the loading
  state.\<close>

theorem google_choice_outcome:
  "\<not> gu_loading (handleGoogleServiceContinue c cancel_at token email drive photos s)
    \<and> (gu_items (handleGoogleServiceContinue c cancel_at token email drive photos s) = gu_items s
       \<or> (cancel_at = None \<or> 4 < the cancel_at)
         \<and> (\<exists>tok ds ps. token = Inr tok \<and> (if sc_drive c then drive = Inr ds else ds = [])
              \<and> (if sc_photos c then photos = Inr ps else ps = []) \<and> ds @ ps \<noteq> []
              \<and> gu_token (handleGoogleServiceContinue c cancel_at token email drive photos s) = tok
              \<and> gu_items (handleGoogleServiceContinue c cancel_at token email drive photos s) = Some (ds @ ps)))"
  by (cases token; cases email; cases drive; cases photos; cases cancel_at; cases "sc_drive c"; cases "sc_photos c")
     (simp_all add: handleGoogleServiceContinue_def google_answers_def google_catch_def cancelled_by_def Let_def
       split: if_splits)

text \<open>When the sign-in fails, the tab that was opened for the photos stays open: only the cancel button
  closes it.\<close>

theorem failed_sign_in_leaves_tab:
  "gu_tabs (handleGoogleServiceContinue \<lparr>sc_drive = d, sc_photos = True\<rparr> None (Inl msg) email drive photos s)
     = gu_tabs s @ [OpenTab]"
  by (simp add: handleGoogleServiceContinue_def google_answers_def google_catch_def Let_def)

lemma removed_none: "fst (removeBackedUpMessages del is) = 0 \<Longrightarrow> i \<in> set is \<Longrightarrow> \<exists>t. del i = Inl t"
  by (induction "is") (auto simp: Let_def split: prod.splits sum.splits)

lemma removed_le: "fst (removeBackedUpMessages del is) \<le> length is"
  by (induction "is") (auto simp: Let_def split: prod.splits sum.splits)

text \<open>C7. Originals are deleted only when their copies are kept: every message id the page asks the provider
  to delete belongs to a selected message that the backend stored, or already had, in this run, and in
  that case the rollback of a cancelled run has not removed a single copy.\<close>

theorem originals_deleted_only_when_kept:
  assumes "m \<in> set (originals_deleted settings (fst (email_rollback del act (backupEmailEntries env msgs folderId folderName)))
      (backupEmailEntries env msgs folderId folderName))"
  shows "(\<exists>k < length msgs. ei_id (msgs ! k) = m \<and> is_stored env folderId (k, msgs ! k))
    \<and> (er_cancelled (backupEmailEntries env msgs folderId folderName) \<and> act = Remove \<longrightarrow>
        (\<forall>i \<in> set (er_uploadedMessageIds (backupEmailEntries env msgs folderId folderName)). \<exists>t. del i = Inl t))"
proof -
  let ?r = "backupEmailEntries env msgs folderId folderName"
  define n where "n = length (takeWhile (ee_gate env) [0..<length msgs])"
  have le: "n \<le> length msgs" unfolding n_def by (metis diff_zero length_takeWhile_le length_upt)
  have m: "m \<in> set (er_backedUpIds ?r)" "fst (email_rollback del act ?r) = 0"
    using assms by (auto simp: originals_deleted_def split: if_splits)
  have "er_backedUpIds ?r = map (ei_id \<circ> snd) (filter (is_stored env folderId) (zip [0..<n] (take n msgs)))"
    using email_run_accounts [of env msgs folderId folderName] by (simp add: Let_def n_def)
  with m(1) obtain p where p: "p \<in> set (zip [0..<n] (take n msgs))" "is_stored env folderId p" "ei_id (snd p) = m"
    by auto
  then obtain k where "k < n" "p = (k, msgs ! k)" using le by (auto simp: set_zip)
  with p le have "k < length msgs \<and> ei_id (msgs ! k) = m \<and> is_stored env folderId (k, msgs ! k)" by simp
  moreover have "\<exists>t. del i = Inl t" if "er_cancelled ?r" "act = Remove" "i \<in> set (er_uploadedMessageIds ?r)" for i
    using that m(2) removed_none [of del "er_uploadedMessageIds ?r" i] by (simp add: email_rollback_def)
  ultimately show ?thesis by blast
qed

definition two_mails :: email_env where
  "two_mails = \<lparr>ee_gate = (\<lambda>i. i < 1), ee_download = (\<lambda>i m. Inr (undefined :: stored_email)),
     ee_post = (\<lambda>i p. Inr \<lparr>mw_id = Some ''row'', mw_file_id = None, mw_file_name = None, mw_file_size_bytes = None\<rparr>)\<rparr>"

lemma two_mails_run:
  "er_backedUpIds (backupEmailEntries two_mails [a_mail Gmail ''m'', a_mail Gmail ''n''] ''f'' None) = [''m'']"
  "er_uploadedMessageIds (backupEmailEntries two_mails [a_mail Gmail ''m'', a_mail Gmail ''n''] ''f'' None) = [''row'']"
  "er_cancelled (backupEmailEntries two_mails [a_mail Gmail ''m'', a_mail Gmail ''n''] ''f'' None)"
  by (simp_all add: backupEmailEntries_def two_mails_def a_mail_def email_step_def email_attempt_def Let_def
      cancel_email_def empty_email_result_def opt_list_def truthy_def)

theorem originals_deleted_only_when_kept_witness:
  "(\<exists>k < 2. ei_id ([a_mail Gmail ''m'', a_mail Gmail ''n''] ! k) = ''m''
       \<and> is_stored two_mails ''f'' (k, [a_mail Gmail ''m'', a_mail Gmail ''n''] ! k))"
proof -
  have "''m'' \<in> set (originals_deleted \<lparr>es_deleteAfter = True, es_notify = True, es_background = True\<rparr>
      (fst (email_rollback (\<lambda>i. Inl ThrowOther) Remove (backupEmailEntries two_mails [a_mail Gmail ''m'', a_mail Gmail ''n''] ''f'' None)))
      (backupEmailEntries two_mails [a_mail Gmail ''m'', a_mail Gmail ''n''] ''f'' None))"
    by (simp add: originals_deleted_def email_rollback_def two_mails_run)
  from originals_deleted_only_when_kept [OF this] show ?thesis by (simp only: list.size One_nat_def numeral_2_eq_2 add_0_right add_Suc_right)
qed

text \<open>The report of a run adds up: uploads reported and copies removed again are the uploads of the run.\<close>

lemma message_ids_le:
  "length (er_uploadedMessageIds (backupEmailEntries env msgs folderId folderName))
     \<le> er_uploaded (backupEmailEntries env msgs folderId folderName)"
proof -
  let ?P = "\<lambda>s. length (er_uploadedMessageIds s) \<le> er_uploaded s"
  have "?P (email_loop env folderId folderName n i msgs s)" if "?P s" for n i s
    using that
  proof (induction msgs arbitrary: i s)
    case (Cons m msgs)
    have "?P (email_step env folderId folderName n i m s)"
      using Cons.prems by (auto simp: email_step_def opt_list_def Let_def split: sum.split option.split)
    with Cons show ?case by (simp add: cancel_email_def)
  qed simp
  then show ?thesis by (simp add: backupEmailEntries_def empty_email_result_def)
qed

lemma email_report_adds_up:
  "rp_uploaded (email_run_report settings folderId account (fst (email_rollback del act res)) res)
     + fst (email_rollback del act res) = er_uploaded res"
  if "res = backupEmailEntries env msgs folderId folderName"
  using message_ids_le [of env msgs folderId folderName] removed_le [of del "er_uploadedMessageIds res"] that
  by (auto simp: email_run_report_def email_rollback_def)

end
