(* ===== verification/RunBoard.thy ===== *)
theory RunBoard
  imports BackgroundBackup "HOL-Library.AList"
begin

text \<open>
  The board of a backup window: a status per row and the counters of the result, kept side by side by
  \<open>GoogleBackupModal\<close> and \<open>EmailBackupModal\<close>. A JavaScript object used as a map is an association list,
  which \<open>AList.update\<close> changes the way an assignment does. The lemmas count the rows marked as failed.
\<close>

text \<open>The rows a retry works on: those still marked as failed.\<close>

definition marked :: "('k \<times> item_outcome) list \<Rightarrow> 'k list" where
  "marked m = map fst (filter (\<lambda>p. snd p = OError) m)"

lemma marked_simps [simp]:
  "marked [] = []"
  "marked (p # m) = (if snd p = OError then fst p # marked m else marked m)"
  by (simp_all add: marked_def)

lemma marked_iff: "distinct (map fst m) \<Longrightarrow> k \<in> set (marked m) \<longleftrightarrow> map_of m k = Some OError"
  by (induction m) (auto simp: marked_def rev_image_eqI)

lemma marked_distinct: "distinct (map fst m) \<Longrightarrow> distinct (marked m)"
  unfolding marked_def by (rule distinct_map_filter)

lemma marked_absent: "k \<notin> fst ` set m \<Longrightarrow> k \<notin> set (marked m)"
  by (auto simp: marked_def)

lemma marked_update:
  "distinct (map fst m) \<Longrightarrow>
     length (marked (AList.update k v m)) + (if map_of m k = Some OError then 1 else 0)
       = length (marked m) + (if v = OError then 1 else 0)"
  by (induction m) auto

text \<open>Statuses arriving one by one.\<close>

definition settle_rows :: "('k \<times> item_outcome) list \<Rightarrow> ('k \<times> item_outcome) list \<Rightarrow> ('k \<times> item_outcome) list" where
  "settle_rows kos m = foldl (\<lambda>m p. AList.update (fst p) (snd p) m) m kos"

lemma settle_rows_simps [simp]:
  "settle_rows [] m = m"
  "settle_rows (p # kos) m = settle_rows kos (AList.update (fst p) (snd p) m)"
  "settle_rows (kos @ [p]) m = AList.update (fst p) (snd p) (settle_rows kos m)"
  by (simp_all add: settle_rows_def)

lemma settle_rows_distinct: "distinct (map fst m) \<Longrightarrow> distinct (map fst (settle_rows kos m))"
  by (induction kos arbitrary: m) (simp_all add: distinct_update)

lemma settle_rows_of:
  "distinct (map fst kos) \<Longrightarrow>
     map_of (settle_rows kos m) k = (case map_of kos k of None \<Rightarrow> map_of m k | Some v \<Rightarrow> Some v)"
proof (induction kos arbitrary: m)
  case (Cons p kos)
  then have "map_of kos (fst p) = None" by (simp add: map_of_eq_None_iff)
  with Cons show ?case by (cases p) (simp add: update_conv' split: option.split)
qed simp

lemma settle_rows_keys: "fst ` set (settle_rows kos m) = fst ` set kos \<union> fst ` set m"
  by (induction kos arbitrary: m) (auto simp: dom_update)

lemma marked_settle:
  "distinct (map fst m) \<Longrightarrow> distinct (map fst kos) \<Longrightarrow>
     length (marked (settle_rows kos m)) + count_if (\<lambda>k. map_of m k = Some OError) (map fst kos)
       = length (marked m) + length (marked kos)"
proof (induction kos arbitrary: m)
  case (Cons p kos)
  let ?m = "AList.update (fst p) (snd p) m"
  have "count_if (\<lambda>k. map_of ?m k = Some OError) (map fst kos) = count_if (\<lambda>k. map_of m k = Some OError) (map fst kos)"
    unfolding count_if_def
    by (rule arg_cong [where f = length], rule filter_cong) (use Cons.prems(2) in \<open>auto simp: update_conv' image_iff\<close>)
  moreover have "length (marked (settle_rows kos ?m)) + count_if (\<lambda>k. map_of ?m k = Some OError) (map fst kos)
      = length (marked ?m) + length (marked kos)"
    by (rule Cons.IH) (use Cons.prems in \<open>simp_all add: distinct_update\<close>)
  ultimately show ?case using marked_update [OF Cons.prems(1), of "fst p" "snd p"] by (simp split: if_splits)
qed simp

text \<open>A first run marks as many rows as it counts errors; a retry of the marked rows leaves exactly its own
  errors marked.\<close>

lemma marked_first_run:
  "distinct (map fst kos) \<Longrightarrow> length (marked (settle_rows kos [])) = length (marked kos)"
  using marked_settle [of "[]" kos] by (simp add: count_if_def)

lemma marked_retry:
  assumes "distinct (map fst m)" "distinct (map fst kos)" "set (map fst kos) = set (marked m)"
  shows "length (marked (settle_rows kos m)) = length (marked kos)"
proof -
  have "count_if (\<lambda>k. map_of m k = Some OError) (map fst kos) = length (map fst kos)"
    by (rule count_if_all) (use assms(3) marked_iff [OF assms(1)] in blast)
  moreover have "length (map fst kos) = length (marked m)"
    using assms by (metis distinct_card marked_distinct)
  ultimately show ?thesis using marked_settle [OF assms(1, 2)] by simp
qed

text \<open>The rows of a run that lets \<open>n\<close> of the keys through.\<close>

lemma marked_zip:
  "length ks = length os \<Longrightarrow> length (marked (zip ks os)) = count_list os OError"
  by (induction ks os rule: list_induct2) simp_all

section \<open>Error messages\<close>

definition put_error :: "'k \<Rightarrow> string option \<Rightarrow> ('k \<times> string) list \<Rightarrow> ('k \<times> string) list" where
  "put_error k err m = (case truthy err of None \<Rightarrow> m | Some e \<Rightarrow> AList.update k e m)"

text \<open>In a retry a row that no longer fails loses its message.\<close>

definition retry_error :: "'k \<Rightarrow> item_report \<Rightarrow> ('k \<times> string) list \<Rightarrow> ('k \<times> string) list" where
  "retry_error k r m = (if ir_status r \<noteq> OError then AList.delete k m else put_error k (ir_error r) m)"

text \<open>Messages stand only on rows marked as failed.\<close>

definition messages_ok :: "('k \<times> item_outcome) list \<Rightarrow> ('k \<times> string) list \<Rightarrow> bool" where
  "messages_ok m errs \<longleftrightarrow> distinct (map fst m) \<and> fst ` set errs \<subseteq> set (marked m)"

lemma put_error_keys: "fst ` set (put_error k err m) \<subseteq> insert k (fst ` set m)"
  by (auto simp: put_error_def dom_update split: option.split)

lemma messages_put:
  assumes "messages_ok m errs" "ir_error r = None \<or> ir_status r = OError" "k \<notin> fst ` set m"
  shows "messages_ok (AList.update k (ir_status r) m) (put_error k (ir_error r) errs)"
proof -
  have d: "distinct (map fst (AList.update k (ir_status r) m))"
    using assms(1) by (simp add: messages_ok_def distinct_update)
  have "x \<in> set (marked (AList.update k (ir_status r) m))" if x: "x \<in> fst ` set (put_error k (ir_error r) errs)" for x
  proof (cases "x \<in> fst ` set errs")
    case True
    then have "x \<in> set (marked m)" using assms(1) by (auto simp: messages_ok_def)
    moreover from this have "x \<noteq> k" using assms(3) by (auto simp: marked_def)
    ultimately show ?thesis
      using assms(1) by (simp add: marked_iff [OF d] messages_ok_def marked_iff update_conv')
  next
    case False
    with x put_error_keys [of k "ir_error r" errs] have "x = k" "ir_error r \<noteq> None"
      by (auto simp: put_error_def truthy_def split: option.splits if_splits)
    with assms(2) have "map_of (AList.update k (ir_status r) m) x = Some OError" by (simp add: update_conv')
    then show ?thesis by (simp only: marked_iff [OF d])
  qed
  with d show ?thesis by (auto simp: messages_ok_def)
qed

lemma messages_retry:
  assumes "messages_ok m errs"
  shows "messages_ok (AList.update k (ir_status r) m) (retry_error k r errs)"
proof -
  have d: "distinct (map fst (AList.update k (ir_status r) m))"
    using assms by (simp add: messages_ok_def distinct_update)
  have "x \<in> set (marked (AList.update k (ir_status r) m))" if x: "x \<in> fst ` set (retry_error k r errs)" for x
  proof (cases "x = k")
    case True
    with x have "ir_status r = OError" by (auto simp: retry_error_def AList.delete_eq split: if_splits)
    with True have "map_of (AList.update k (ir_status r) m) x = Some OError" by (simp add: update_conv')
    then show ?thesis by (simp only: marked_iff [OF d])
  next
    case False
    with x put_error_keys [of k "ir_error r" errs] have "x \<in> fst ` set errs"
      by (force simp: retry_error_def AList.delete_eq split: if_splits)
    with False assms show ?thesis
      by (auto simp: marked_iff [OF d] messages_ok_def marked_iff update_conv')
  qed
  with d show ?thesis by (auto simp: messages_ok_def)
qed

section \<open>Notes and toggles\<close>

definition cancel_note :: "string \<Rightarrow> (nat \<times> nat) option \<Rightarrow> bool \<Rightarrow> nat \<Rightarrow> nat \<Rightarrow> string option" where
  "cancel_note what rollback cancelled uploaded n =
     (case rollback of
        Some (removed, bad) \<Rightarrow>
          Some (if bad = 0
                then ''Backup cancelled '' @ em_dash @ '' '' @ show_nat removed @ '' '' @ what @ plural removed @ '' removed again.''
                else ''Backup cancelled '' @ em_dash @ '' '' @ show_nat removed @ '' of '' @ show_nat n @ '' removed; ''
                  @ show_nat bad @ '' could not be deleted.'')
      | None \<Rightarrow>
          if cancelled then Some (''Backup cancelled '' @ em_dash @ '' '' @ show_nat uploaded @ '' '' @ what @ plural uploaded @ '' kept.'')
          else None)"

definition toggle_set :: "'a \<Rightarrow> 'a set \<Rightarrow> 'a set" where
  "toggle_set x S = (if x \<in> S then S - {x} else insert x S)"

end
