(* ===== verification/RunControls.thy ===== *)
theory RunControls
  imports BackgroundBackup
begin

text \<open>
  The pause and cancel buttons of the two backup windows (\<open>GoogleBackupModal.tsx\<close>,
  \<open>EmailBackupModal.tsx\<close>), over the controls of the runs: what the window shows, the dialog that
  asks what is to become of the part that has been stored, and the runs that go on behind it. The window holds the
  control of the run that started last; the email window creates a folder between the press and the start of a run, so
  its button can be pressed again meanwhile.
\<close>

datatype window_phase = Picking | RunUnderWay | RunShown

record run_buttons =
  rb_phase :: window_phase
  rb_presses :: nat                 \<comment> \<open>presses whose run has not started yet\<close>
  rb_controls :: "control list"     \<comment> \<open>the control of every run started\<close>
  rb_over :: "nat list"             \<comment> \<open>the runs whose loop is over\<close>
  rb_current :: "nat option"
  rb_action :: cancel_action
  rb_paused :: bool
  rb_prompt :: bool

definition idle_buttons :: run_buttons where
  "idle_buttons = \<lparr>rb_phase = Picking, rb_presses = 0, rb_controls = [], rb_over = [], rb_current = None, rb_action = Keep,
     rb_paused = False, rb_prompt = False\<rparr>"

text \<open>The start and the end of a run in \<open>handleBackUp\<close>.\<close>

definition buttons_start :: "run_buttons \<Rightarrow> run_buttons" where
  "buttons_start b = b\<lparr>rb_presses := rb_presses b - 1, rb_controls := rb_controls b @ [createBackupControl],
     rb_current := Some (length (rb_controls b)), rb_action := Keep, rb_phase := RunUnderWay\<rparr>"

definition buttons_finish :: "nat \<Rightarrow> run_buttons \<Rightarrow> run_buttons" where
  "buttons_finish k b = b\<lparr>rb_over := k # rb_over b, rb_current := None, rb_prompt := False, rb_paused := False\<rparr>"

text \<open>\<open>controlRef.current?.op()\<close>\<close>

definition on_current :: "(control \<Rightarrow> control) \<Rightarrow> run_buttons \<Rightarrow> control list" where
  "on_current f b =
     (case rb_current b of None \<Rightarrow> rb_controls b | Some k \<Rightarrow> (rb_controls b)[k := f (rb_controls b ! k)])"

definition window_togglePause :: "run_buttons \<Rightarrow> run_buttons" where
  "window_togglePause b =
     (case rb_current b of
        None \<Rightarrow> b
      | Some k \<Rightarrow> if isPaused (rb_controls b ! k) then b\<lparr>rb_controls := on_current resume b, rb_paused := False\<rparr>
                  else b\<lparr>rb_controls := on_current pause b, rb_paused := True\<rparr>)"

definition window_requestCancel :: "run_buttons \<Rightarrow> run_buttons" where
  "window_requestCancel b = b\<lparr>rb_controls := on_current pause b, rb_paused := True, rb_prompt := True\<rparr>"

definition window_resolveCancel :: "cancel_action \<Rightarrow> run_buttons \<Rightarrow> run_buttons" where
  "window_resolveCancel a b = b\<lparr>rb_action := a, rb_prompt := False, rb_controls := on_current cancel b\<rparr>"

definition prompt_resume :: "run_buttons \<Rightarrow> run_buttons" where
  "prompt_resume b = b\<lparr>rb_prompt := False, rb_controls := on_current resume b, rb_paused := False\<rparr>"

text \<open>
  What can happen next; \<open>None\<close> when it cannot. The run controls are shown while a run is under way and the dialog lies over
  them; the dialog's buttons are there while it is open. A run asks its gate before each item (\<open>GateAsked\<close>), a call that
  was parked looks again after it was released (\<open>GateContinues\<close>).
\<close>

datatype button_event =
    PressBackUp
  | RunStarts
  | StartFails
  | PressPause
  | PressCancel
  | PromptChoose cancel_action
  | PromptResume
  | GateAsked nat nat
  | GateContinues nat nat
  | LoopEnds nat
  | ResultShown

definition running_loop :: "nat \<Rightarrow> run_buttons \<Rightarrow> bool" where
  "running_loop k b \<longleftrightarrow> k < length (rb_controls b) \<and> k \<notin> set (rb_over b)"

fun button_step :: "button_event \<Rightarrow> run_buttons \<Rightarrow> run_buttons option" where
  "button_step PressBackUp b = (if rb_phase b = Picking then Some (b\<lparr>rb_presses := Suc (rb_presses b)\<rparr>) else None)"
| "button_step RunStarts b = (if 0 < rb_presses b then Some (buttons_start b) else None)"
| "button_step StartFails b = (if 0 < rb_presses b then Some (b\<lparr>rb_presses := rb_presses b - 1\<rparr>) else None)"
| "button_step PressPause b =
     (if rb_phase b = RunUnderWay \<and> \<not> rb_prompt b then Some (window_togglePause b) else None)"
| "button_step PressCancel b =
     (if rb_phase b = RunUnderWay \<and> \<not> rb_prompt b then Some (window_requestCancel b) else None)"
| "button_step (PromptChoose a) b = (if rb_prompt b then Some (window_resolveCancel a b) else None)"
| "button_step PromptResume b = (if rb_prompt b then Some (prompt_resume b) else None)"
| "button_step (GateAsked k g) b =
     (if running_loop k b \<and> g \<notin> gate_calls (rb_controls b ! k)
      then Some (b\<lparr>rb_controls := (rb_controls b)[k := gate g (rb_controls b ! k)]\<rparr>) else None)"
| "button_step (GateContinues k g) b =
     (if running_loop k b \<and> g \<in> set (released (rb_controls b ! k))
      then Some (b\<lparr>rb_controls := (rb_controls b)[k := gate_continue g (rb_controls b ! k)]\<rparr>) else None)"
| "button_step (LoopEnds k) b = (if running_loop k b then Some (buttons_finish k b) else None)"
| "button_step ResultShown b = (if rb_over b \<noteq> [] then Some (b\<lparr>rb_phase := RunShown\<rparr>) else None)"

fun button_run :: "button_event list \<Rightarrow> run_buttons \<Rightarrow> run_buttons option" where
  "button_run [] b = Some b"
| "button_run (e # es) b = Option.bind (button_step e b) (button_run es)"

text \<open>Back Up is not pressed again while the run of an earlier press is still about to start.\<close>

fun pressed_once :: "button_event list \<Rightarrow> run_buttons \<Rightarrow> bool" where
  "pressed_once [] b = True"
| "pressed_once (e # es) b \<longleftrightarrow>
     (e = PressBackUp \<longrightarrow> rb_presses b = 0) \<and> (case button_step e b of Some b' \<Rightarrow> pressed_once es b' | None \<Rightarrow> True)"

text \<open>The items the runs went on to: the gates that were opened.\<close>

definition items_started :: "run_buttons \<Rightarrow> (nat \<times> bool) list list" where
  "items_started b = map (\<lambda>c. filter snd (answers c)) (rb_controls b)"

section \<open>One run at a time\<close>

definition buttons_inv :: "run_buttons \<Rightarrow> bool" where
  "buttons_inv b \<longleftrightarrow>
     (case rb_controls b of
        [] \<Rightarrow> rb_presses b \<le> 1 \<and> rb_phase b = Picking \<and> rb_over b = [] \<and> rb_current b = None \<and> \<not> rb_prompt b \<and> \<not> rb_paused b
      | [c] \<Rightarrow> rb_presses b = 0 \<and> rb_phase b \<noteq> Picking \<and> set (rb_over b) \<subseteq> {0}
          \<and> rb_current b = (if rb_over b = [] then Some 0 else None)
          \<and> (rb_over b = [] \<longrightarrow> (cstate c \<noteq> Cancelled \<longrightarrow> rb_paused b = isPaused c) \<and> (rb_prompt b \<longrightarrow> cstate c \<noteq> Running))
      | _ \<Rightarrow> False)"

lemma gate_state [simp]: "cstate (gate g c) = cstate c" "cstate (gate_continue g c) = cstate c"
  by (simp_all add: gate_def gate_continue_def)

lemma set_state_state [simp]: "cstate (set_state n c) = (if cstate c = Cancelled then Cancelled else n)"
  by (simp add: set_state_def Let_def)

lemmas button_defs = buttons_start_def buttons_finish_def on_current_def window_togglePause_def window_requestCancel_def
  window_resolveCancel_def prompt_resume_def running_loop_def

lemma button_step_inv:
  assumes "buttons_inv b" "button_step e b = Some b'" "e = PressBackUp \<longrightarrow> rb_presses b = 0"
  shows "buttons_inv b'"
proof (cases "rb_controls b")
  case Nil
  with assms show ?thesis
    by (cases e) (auto simp: buttons_inv_def button_defs createBackupControl_def isPaused_def split: if_splits)
next
  case (Cons c cs)
  with assms(1) have [simp]: "cs = []" by (cases cs) (simp_all add: buttons_inv_def)
  show ?thesis using assms Cons
    by (cases e)
       (auto simp: buttons_inv_def button_defs isPaused_def pause_def resume_def cancel_def split: if_splits)
qed

lemma button_run_inv: "buttons_inv b \<Longrightarrow> pressed_once es b \<Longrightarrow> button_run es b = Some b' \<Longrightarrow> buttons_inv b'"
proof (induction es arbitrary: b)
  case (Cons e es)
  then obtain b1 where b1: "button_step e b = Some b1" "button_run es b1 = Some b'" by (auto split: bind_splits)
  have "buttons_inv b1" using button_step_inv [OF Cons.prems(1) b1(1)] Cons.prems(2) by simp
  with Cons.IH [OF this] Cons.prems(2) b1 show ?case by simp
qed simp

lemma set_state_answers [simp]: "answers (set_state n c) = answers c"
  by (simp add: set_state_def Let_def)

lemma started_on_current: "map (\<lambda>c. filter snd (answers c)) (on_current (set_state n) b) = map (\<lambda>c. filter snd (answers c)) (rb_controls b)"
proof (cases "rb_current b")
  case (Some k)
  then show ?thesis
    by (cases "k < length (rb_controls b)") (simp_all add: on_current_def map_update list_update_same_conv list_update_beyond)
qed (simp add: on_current_def)

lemma halted_gate: "cstate c \<noteq> Running \<Longrightarrow> filter snd (answers (gate g c)) = filter snd (answers c)"
    "cstate c \<noteq> Running \<Longrightarrow> filter snd (answers (gate_continue g c)) = filter snd (answers c)"
  by (cases "cstate c"; simp add: gate_def gate_continue_def)+

text \<open>C12. From the opening of the window on, when Back Up is not pressed a second time before its run starts: while the dialog
  asks what should happen to the partial backup, no further item is started, whatever the window and the run do (the item in
  flight finishes); and the pause button shows the state of the run until it is cancelled.\<close>

theorem prompt_halts_run:
  assumes "button_run es idle_buttons = Some b" and "pressed_once es idle_buttons"
  shows "(rb_prompt b \<and> button_step e b = Some b' \<longrightarrow> items_started b' = items_started b)
    \<and> (rb_current b = Some k \<and> cstate (rb_controls b ! k) \<noteq> Cancelled \<longrightarrow>
         rb_paused b = (cstate (rb_controls b ! k) = Paused))"
proof -
  have "buttons_inv idle_buttons" by (simp add: buttons_inv_def idle_buttons_def)
  from button_run_inv [OF this assms(2,1)] have inv: "buttons_inv b" .
  have "items_started b' = items_started b" if "rb_prompt b" "button_step e b = Some b'"
  proof -
    from inv that(1) obtain c where c: "rb_controls b = [c]" "rb_presses b = 0" "rb_phase b \<noteq> Picking"
      and halt: "rb_over b = [] \<Longrightarrow> cstate c \<noteq> Running" and over: "set (rb_over b) \<subseteq> {0}"
      by (cases "rb_controls b"; cases "tl (rb_controls b)") (auto simp: buttons_inv_def)
    have live: "running_loop j b \<Longrightarrow> j = 0 \<and> cstate c \<noteq> Running" for j
      using halt over by (cases "rb_over b") (auto simp: running_loop_def c(1))
    show ?thesis
    proof (cases e)
      case (GateAsked j g)
      with that(2) have "running_loop j b" by (simp split: if_splits)
      from live [OF this] have "j = 0" "cstate c \<noteq> Running" by simp_all
      with GateAsked that(2) show ?thesis by (auto simp: items_started_def c(1) halted_gate split: if_splits)
    next
      case (GateContinues j g)
      with that(2) have "running_loop j b" by (simp split: if_splits)
      from live [OF this] have "j = 0" "cstate c \<noteq> Running" by simp_all
      with GateContinues that(2) show ?thesis by (auto simp: items_started_def c(1) halted_gate split: if_splits)
    qed (use that c in \<open>auto simp: items_started_def buttons_finish_def window_resolveCancel_def prompt_resume_def
           resume_def cancel_def started_on_current [unfolded c(1)] split: if_splits\<close>)
  qed
  moreover have "rb_paused b = (cstate (rb_controls b ! k) = Paused)"
    if "rb_current b = Some k" "cstate (rb_controls b ! k) \<noteq> Cancelled"
    using inv that by (auto simp: buttons_inv_def isPaused_def split: list.splits if_splits)
  ultimately show ?thesis by blast
qed

definition prompt_open :: run_buttons where
  "prompt_open = the (button_run [PressBackUp, RunStarts, GateAsked 0 1, PressCancel] idle_buttons)"

theorem prompt_halts_run_witness:
  "items_started (the (button_step (GateAsked 0 2) prompt_open)) = [[(1, True)]] \<and> rb_prompt prompt_open"
proof -
  note eval = idle_buttons_def button_defs createBackupControl_def gate_def gate_calls_def pause_def set_state_def
  have b: "button_run [PressBackUp, RunStarts, GateAsked 0 1, PressCancel] idle_buttons = Some prompt_open"
    "pressed_once [PressBackUp, RunStarts, GateAsked 0 1, PressCancel] idle_buttons" "rb_prompt prompt_open"
    "items_started prompt_open = [[(1, True)]]" "button_step (GateAsked 0 2) prompt_open = Some (the (button_step (GateAsked 0 2) prompt_open))"
    by (simp_all add: prompt_open_def eval items_started_def)
  from prompt_halts_run [OF b(1,2), of "GateAsked 0 2"] b(3,4,5) show ?thesis by simp
qed

section \<open>Behaviours against the intent\<close>

text \<open>Pressing Back Up twice before the folder is there starts two runs, of which the window holds the second: the first one
  uploads on behind the dialog.\<close>

theorem second_press_runs_on:
  "\<exists>b b'. button_run [PressBackUp, PressBackUp, RunStarts, RunStarts, PressCancel] idle_buttons = Some b \<and> rb_prompt b
     \<and> button_step (GateAsked 0 1) b = Some b' \<and> items_started b' = [[(1, True)], []]"
  by (simp add: idle_buttons_def button_defs createBackupControl_def gate_def gate_calls_def pause_def set_state_def
      items_started_def)

text \<open>Between the end of the loop and the result the email window still shows the buttons: the dialog can be opened when there is
  nothing to cancel, and lies over the result.\<close>

theorem prompt_after_the_end:
  "\<exists>b. button_run [PressBackUp, RunStarts, LoopEnds 0, PressCancel, ResultShown] idle_buttons = Some b
     \<and> rb_prompt b \<and> rb_current b = None \<and> rb_phase b = RunShown"
  by (simp add: idle_buttons_def button_defs createBackupControl_def)

end
