(* ===== verification/GoogleModal.thy ===== *)
theory GoogleModal
  imports RunBoard BackupFlows SortView
begin

text \<open>
  The window of a Google backup, \<open>frontend/src/components/GoogleBackupModal.tsx\<close>: the rows with their
  categories and destinations, the selection, the quota bar, the run with its board, the retry, the
  clean-up and the preview. A row is known by its index. The names that \<open>localeCompare\<close> compares, the
  folders loaded for the destination menu and the answers of the backend are parameters.
\<close>

section \<open>Numbers\<close>

text \<open>A size is \<open>Number(s)\<close> of what Google says, so it may be NaN.\<close>

fun js_plus :: "jsnum \<Rightarrow> jsnum \<Rightarrow> jsnum" where
  "js_plus (Fin a) (Fin b) = Fin (a + b)"
| "js_plus NaN _ = NaN"
| "js_plus _ NaN = NaN"
| "js_plus PInf NInf = NaN"
| "js_plus NInf PInf = NaN"
| "js_plus PInf _ = PInf"
| "js_plus _ PInf = PInf"
| "js_plus NInf _ = NInf"
| "js_plus _ NInf = NInf"

fun js_less :: "jsnum \<Rightarrow> jsnum \<Rightarrow> bool" where
  "js_less (Fin a) (Fin b) = (a < b)"
| "js_less NInf PInf = True"
| "js_less NInf (Fin b) = True"
| "js_less (Fin a) PInf = True"
| "js_less _ _ = False"

section \<open>Rows\<close>

record file_entry =
  fe_item :: google_item
  fe_name :: string
  fe_type :: string
  fe_size :: jsnum
  fe_source :: google_source
  fe_dest :: "string option"

datatype category = Photos | Images | Videos | Audio | Documents | OtherFiles
datatype sort_mode = SortType | SortSize | SortName
datatype dest_target = DestFile nat | DestCategory category

definition CATEGORY_ORDER :: "category list" where
  "CATEGORY_ORDER = [Photos, Images, Videos, Audio, Documents, OtherFiles]"

definition getCategory :: "file_entry \<Rightarrow> category" where
  "getCategory e =
     (if fe_source e = FromPhotos then Photos
      else if starts_with ''image/'' (fe_type e) then Images
      else if starts_with ''video/'' (fe_type e) then Videos
      else if starts_with ''audio/'' (fe_type e) then Audio
      else if starts_with ''text/'' (fe_type e) \<or> starts_with ''application/'' (fe_type e)
        \<or> gi_isGoogleDoc (fe_item e) then Documents
      else OtherFiles)"

definition isMediaEntry :: "file_entry \<Rightarrow> bool" where
  "isMediaEntry e \<longleftrightarrow> starts_with ''image/'' (fe_type e) \<or> starts_with ''video/'' (fe_type e)"

definition to_entry :: "google_item \<Rightarrow> file_entry" where
  "to_entry g = \<lparr>fe_item = g, fe_name = (if gi_isGoogleDoc g then gi_name g @ ''.pdf'' else gi_name g),
     fe_type = (if gi_isGoogleDoc g then ''application/pdf'' else gi_mimeType g),
     fe_size = or_else (gi_size g) (Fin 0), fe_source = gi_source g, fe_dest = None\<rparr>"

section \<open>The window\<close>

text \<open>
  \<open>gd_credits\<close> are the calls of \<open>liveSync.itemStored\<close>, \<open>gd_syncs\<close> counts those of \<open>liveSync.finish\<close>,
  \<open>gd_reports\<close> the reports of
  \<open>completeGoogleBackupRun\<close>, \<open>gd_started\<close> the calls of \<open>onStartBackground\<close>, \<open>gd_trashed\<close> the Drive ids
  whose deletion was asked for.
\<close>

record google_modal =
  gd_entries :: "file_entry list"
  gd_selected :: "nat set"
  gd_sort :: sort_mode
  gd_settingsTab :: bool
  gd_collapsed :: "category set"
  gd_dest :: "dest_target option"
  gd_uploading :: bool
  gd_progress :: "(nat \<times> nat) option"
  gd_result :: "backup_entry run_result option"
  gd_status :: "(nat \<times> item_outcome) list"
  gd_errors :: "(nat \<times> string) list"
  gd_finished :: bool
  gd_path :: "string option"
  gd_storedBytes :: nat
  gd_storedCount :: nat
  gd_paused :: bool
  gd_prompt :: bool
  gd_note :: "string option"
  gd_cleanup :: "string option"
  gd_settings :: "bool \<times> bool"    \<comment> \<open>background, notify\<close>
  gd_preview :: "file_entry option"
  gd_previewUrl :: "string option"
  gd_previewLoading :: bool
  gd_blob :: "string option"
  gd_credits :: "(nat \<times> string option) list"
  gd_syncs :: nat
  gd_reports :: "run_report list"
  gd_started :: "backup_entry list list"
  gd_trashed :: "string list"

text \<open>The effect on \<open>items\<close>: everything is reset but the blob of the preview and the calls made.\<close>

definition reset_modal :: "local_storage \<Rightarrow> google_item list \<Rightarrow> google_modal \<Rightarrow> google_modal" where
  "reset_modal st gs s =
     (if gs = [] then s
      else s\<lparr>gd_entries := map to_entry gs, gd_selected := {..<length gs}, gd_sort := SortType,
             gd_settingsTab := False, gd_collapsed := {}, gd_dest := None, gd_uploading := False,
             gd_progress := None, gd_result := None, gd_status := [], gd_errors := [], gd_finished := False,
             gd_path := None, gd_storedBytes := 0, gd_storedCount := 0, gd_paused := False, gd_prompt := False,
             gd_note := None, gd_cleanup := None, gd_settings := loadGoogleBackupSettings st,
             gd_preview := None, gd_previewUrl := None\<rparr>)"

definition blank_modal :: google_modal where
  "blank_modal = \<lparr>gd_entries = [], gd_selected = {}, gd_sort = SortType, gd_settingsTab = False,
     gd_collapsed = {}, gd_dest = None, gd_uploading = False, gd_progress = None, gd_result = None,
     gd_status = [], gd_errors = [], gd_finished = False, gd_path = None, gd_storedBytes = 0, gd_storedCount = 0,
     gd_paused = False, gd_prompt = False, gd_note = None, gd_cleanup = None, gd_settings = (True, True),
     gd_preview = None, gd_previewUrl = None, gd_previewLoading = False, gd_blob = None, gd_credits = [], gd_syncs = 0,
     gd_reports = [], gd_started = [], gd_trashed = []\<rparr>"

subsection \<open>Preview\<close>

definition photosPreviewUrl :: "google_item \<Rightarrow> string option" where
  "photosPreviewUrl it =
     (if gi_source it \<noteq> FromPhotos \<or> truthy (gi_baseUrl it) = None \<or> \<not> starts_with ''image/'' (gi_mimeType it)
      then None else Some (the (gi_baseUrl it) @ ''=w512-h512''))"

text \<open>\<open>blob\<close> is what \<open>fetch\<close> and \<open>createObjectURL\<close> make of that address, \<open>None\<close> when it fails.\<close>

definition photosPreviewBlobUrl :: "(string \<Rightarrow> string option) \<Rightarrow> google_item \<Rightarrow> string option" where
  "photosPreviewBlobUrl blob it = Option.bind (photosPreviewUrl it) blob"

text \<open>\<open>openPreview\<close> up to its \<open>await\<close>, and from it on.\<close>

definition openPreview :: "file_entry \<Rightarrow> google_modal \<Rightarrow> google_modal" where
  "openPreview e s =
     (let s1 = s\<lparr>gd_preview := Some e, gd_previewUrl := None, gd_previewLoading := True\<rparr>
      in if fe_source e = FromDrive
         then s1\<lparr>gd_previewUrl := drivePreviewUrl (fe_item e), gd_previewLoading := False\<rparr> else s1)"

definition preview_answer :: "string option \<Rightarrow> google_modal \<Rightarrow> google_modal" where
  "preview_answer url s =
     s\<lparr>gd_blob := (if truthy url = None then gd_blob s else url), gd_previewUrl := url, gd_previewLoading := False\<rparr>"

definition closePreview :: "google_modal \<Rightarrow> google_modal" where
  "closePreview s = s\<lparr>gd_preview := None, gd_previewUrl := None, gd_blob := None\<rparr>"

text \<open>The Escape key; the result tells whether it closes the window.\<close>

definition escape_key :: "google_modal \<Rightarrow> google_modal \<times> bool" where
  "escape_key s =
     (if gd_preview s \<noteq> None then (closePreview s, False)
      else if gd_dest s \<noteq> None then (s\<lparr>gd_dest := None\<rparr>, False)
      else (s, \<not> gd_finished s \<and> \<not> gd_uploading s))"

subsection \<open>Selection\<close>

definition toggle_row :: "nat \<Rightarrow> google_modal \<Rightarrow> google_modal" where
  "toggle_row i s = s\<lparr>gd_selected := toggle_set i (gd_selected s)\<rparr>"

definition toggleGroup :: "nat list \<Rightarrow> google_modal \<Rightarrow> google_modal" where
  "toggleGroup indices s =
     (let allOn = list_all (\<lambda>i. i \<in> gd_selected s) indices
      in s\<lparr>gd_selected := (if allOn then gd_selected s - set indices else gd_selected s \<union> set indices)\<rparr>)"

definition allSelected :: "google_modal \<Rightarrow> bool" where
  "allSelected s \<longleftrightarrow> card (gd_selected s) = length (gd_entries s)"

definition toggle_all :: "google_modal \<Rightarrow> google_modal" where
  "toggle_all s = s\<lparr>gd_selected := (if allSelected s then {} else {..<length (gd_entries s)})\<rparr>"

definition toggle_collapsed :: "category \<Rightarrow> google_modal \<Rightarrow> google_modal" where
  "toggle_collapsed c s = s\<lparr>gd_collapsed := toggle_set c (gd_collapsed s)\<rparr>"

subsection \<open>Destinations\<close>

definition openDest :: "dest_target \<Rightarrow> google_modal \<Rightarrow> google_modal" where
  "openDest t s = s\<lparr>gd_dest := Some t\<rparr>"

definition apply_to :: "dest_target \<Rightarrow> string option \<Rightarrow> file_entry list \<Rightarrow> file_entry list" where
  "apply_to t folderId es =
     (case t of
        DestFile idx \<Rightarrow> if idx < length es then es[idx := (es ! idx)\<lparr>fe_dest := folderId\<rparr>] else es
      | DestCategory cat \<Rightarrow> map (\<lambda>e. if getCategory e = cat then e\<lparr>fe_dest := folderId\<rparr> else e) es)"

definition applyDest :: "string option \<Rightarrow> google_modal \<Rightarrow> google_modal" where
  "applyDest folderId s =
     (case gd_dest s of
        None \<Rightarrow> s
      | Some t \<Rightarrow> s\<lparr>gd_entries := apply_to t folderId (gd_entries s), gd_dest := None\<rparr>)"

type_synonym folders = "(string \<times> string) list"    \<comment> \<open>id and name\<close>

definition folderLabel :: "folders \<Rightarrow> string option \<Rightarrow> string" where
  "folderLabel fs i = (case truthy i of None \<Rightarrow> ''/ Root'' | Some f \<Rightarrow> or_else (map_of fs f) ''/ Root'')"

text \<open>The destination the menu ticks: \<open>None\<close> is \<open>undefined\<close>, \<open>Some None\<close> the root.\<close>

definition activeDest :: "google_modal \<Rightarrow> string option option" where
  "activeDest s =
     (case gd_dest s of
        None \<Rightarrow> None
      | Some (DestFile i) \<Rightarrow> if i < length (gd_entries s) then Some (fe_dest (gd_entries s ! i)) else None
      | Some (DestCategory cat) \<Rightarrow>
          (let catEntries = filter (\<lambda>e. getCategory e = cat) (gd_entries s);
               first = (case catEntries of [] \<Rightarrow> None | e # _ \<Rightarrow> fe_dest e)
           in if list_all (\<lambda>e. fe_dest e = first) catEntries then Some first else None))"

definition destPathFor :: "folders \<Rightarrow> string option \<Rightarrow> file_entry \<Rightarrow> string" where
  "destPathFor fs redirect e =
     (if redirect \<noteq> None \<and> isMediaEntry e then the redirect @ ''/'' @ fe_name e
      else case truthy (Option.bind (truthy (fe_dest e)) (map_of fs)) of
             Some folder \<Rightarrow> folder @ ''/'' @ fe_name e
           | None \<Rightarrow> ''/'' @ fe_name e)"

subsection \<open>Quota\<close>

definition selectedIndices :: "google_modal \<Rightarrow> nat list" where
  "selectedIndices s = filter (\<lambda>i. i \<in> gd_selected s) [0..<length (gd_entries s)]"

definition selectedSize :: "google_modal \<Rightarrow> jsnum" where
  "selectedSize s = foldl (\<lambda>n i. js_plus n (fe_size (gd_entries s ! i))) (Fin 0) (selectedIndices s)"

definition isOverQuota :: "nat \<Rightarrow> nat \<Rightarrow> google_modal \<Rightarrow> bool" where
  "isOverQuota quota used s \<longleftrightarrow> 0 < quota \<and> js_less (Fin (of_nat quota)) (js_plus (Fin (of_nat used)) (selectedSize s))"

definition canBackUp :: "nat \<Rightarrow> nat \<Rightarrow> google_modal \<Rightarrow> bool" where
  "canBackUp quota used s \<longleftrightarrow> 0 < card (gd_selected s) \<and> \<not> isOverQuota quota used s \<and> \<not> gd_uploading s"

subsection \<open>Lists\<close>

definition indexed :: "file_entry list \<Rightarrow> (file_entry \<times> nat) list" where
  "indexed es = zip es [0..<length es]"

definition sections :: "file_entry list \<Rightarrow> (category \<times> (file_entry \<times> nat) list) list" where
  "sections es =
     filter (\<lambda>p. snd p \<noteq> [])
       (map (\<lambda>c. (c, filter (\<lambda>p. getCategory (fst p) = c) (indexed es))) CATEGORY_ORDER)"

definition cmp_size :: "file_entry \<times> nat \<Rightarrow> file_entry \<times> nat \<Rightarrow> int" where
  "cmp_size a b =
     (if js_less (fe_size (fst b)) (fe_size (fst a)) then - 1
      else if js_less (fe_size (fst a)) (fe_size (fst b)) then 1 else 0)"

definition flatList :: "(string \<Rightarrow> string \<Rightarrow> int) \<Rightarrow> sort_mode \<Rightarrow> file_entry list \<Rightarrow> (file_entry \<times> nat) list" where
  "flatList collate m es =
     (case m of
        SortSize \<Rightarrow> js_sort cmp_size (indexed es)
      | SortName \<Rightarrow> js_sort (\<lambda>a b. collate (fe_name (fst a)) (fe_name (fst b))) (indexed es)
      | SortType \<Rightarrow> indexed es)"

definition listData :: "(string \<Rightarrow> string \<Rightarrow> int) \<Rightarrow> google_modal \<Rightarrow> (file_entry \<times> nat) list" where
  "listData collate s = (if gd_finished s then indexed (gd_entries s) else flatList collate (gd_sort s) (gd_entries s))"

section \<open>The run\<close>

definition to_upload :: "folders \<Rightarrow> string option \<Rightarrow> file_entry \<Rightarrow> backup_entry" where
  "to_upload fs redirect e = \<lparr>be_item = fe_item e, be_name = fe_name e, be_type = fe_type e,
     be_destFolderId = fe_dest e, be_destPath = Some (destPathFor fs redirect e)\<rparr>"

text \<open>\<open>onProgress\<close> of the first run: the event's index is one of the upload list, \<open>rows\<close> maps it back.\<close>

definition on_progress :: "nat list \<Rightarrow> backup_entry progress_event \<Rightarrow> google_modal \<Rightarrow> google_modal" where
  "on_progress rows e s =
     (let s1 = s\<lparr>gd_progress := Some (pv_done e, pv_total e)\<rparr>
      in if pv_phase e = PStart then s1\<lparr>gd_path := Some (pv_path e)\<rparr>
         else case pv_report e of
                None \<Rightarrow> s1
              | Some r \<Rightarrow>
                  let s2 = (if pv_index e < length rows
                            then s1\<lparr>gd_status := AList.update (rows ! pv_index e) (ir_status r) (gd_status s1),
                                    gd_errors := put_error (rows ! pv_index e) (ir_error r) (gd_errors s1)\<rparr>
                            else s1)
                  in if ir_status r = ODone
                     then s2\<lparr>gd_storedBytes := gd_storedBytes s2 + ir_sizeBytes r,
                             gd_storedCount := gd_storedCount s2 + 1,
                             gd_credits := gd_credits s2 @ [(ir_sizeBytes r, ir_driveId r)]\<rparr>
                     else s2)"

definition google_rollback :: "(string \<Rightarrow> thrown + unit) \<Rightarrow> cancel_action \<Rightarrow> 'e run_result \<Rightarrow> (nat \<times> nat) option" where
  "google_rollback del act res =
     (if rr_cancelled res \<and> act = Remove \<and> rr_uploadedFileIds res \<noteq> []
      then Some (removeBackedUpFiles del (rr_uploadedFileIds res)) else None)"

definition begin_run :: "nat \<Rightarrow> google_modal \<Rightarrow> google_modal" where
  "begin_run n s = s\<lparr>gd_uploading := True, gd_status := [], gd_errors := [], gd_storedBytes := 0,
     gd_storedCount := 0, gd_note := None, gd_progress := Some (0, n)\<rparr>"

definition finish_run ::
  "(string \<Rightarrow> thrown + unit) \<Rightarrow> cancel_action \<Rightarrow> backup_entry run_result \<Rightarrow> google_modal \<Rightarrow> google_modal" where
  "finish_run del act res s =
     (let rollback = google_rollback del act res;
          removed = (case rollback of None \<Rightarrow> 0 | Some p \<Rightarrow> fst p);
          note = cancel_note ''file'' rollback (rr_cancelled res) (rr_uploaded res) (length (rr_uploadedFileIds res))
      in s\<lparr>gd_note := (if note = None then gd_note s else note), gd_prompt := False, gd_paused := False,
           gd_path := None, gd_result := Some res, gd_uploading := False, gd_finished := True,
           gd_syncs := gd_syncs s + 1,
           gd_reports := gd_reports s @ [google_run_report (snd (gd_settings s)) removed res]\<rparr>)"

text \<open>\<open>env\<close> holds what Google, the backend and the run's control answer; \<open>act\<close> is what the cancel dialog
  has chosen by the time the run is over.\<close>

definition handleBackUp ::
  "folders \<Rightarrow> string option \<Rightarrow> google_env \<Rightarrow> (string \<Rightarrow> thrown + unit) \<Rightarrow> cancel_action \<Rightarrow> google_modal \<Rightarrow> google_modal" where
  "handleBackUp fs redirect env del act s =
     (let rows = selectedIndices s;
          toUpload = map (\<lambda>i. to_upload fs redirect (gd_entries s ! i)) rows
      in if toUpload = [] then s
         else if fst (gd_settings s) then s\<lparr>gd_started := gd_started s @ [toUpload]\<rparr>
         else let res = uploadGoogleEntries env toUpload
              in finish_run del act res (fold (on_progress rows) (rr_events res) (begin_run (length toUpload) s)))"

text \<open>\<open>onProgress\<close> of a retry.\<close>

definition on_retry :: "nat list \<Rightarrow> backup_entry progress_event \<Rightarrow> google_modal \<Rightarrow> google_modal" where
  "on_retry rows e s =
     (case pv_report e of
        None \<Rightarrow> s
      | Some r \<Rightarrow>
          if pv_phase e = PSettled \<and> pv_index e < length rows
          then s\<lparr>gd_status := AList.update (rows ! pv_index e) (ir_status r) (gd_status s),
                 gd_errors := retry_error (rows ! pv_index e) r (gd_errors s)\<rparr>
          else s)"

text \<open>The difference is one of numbers in the code; the theorems below show that it is never negative.\<close>

definition merge_result :: "nat \<Rightarrow> 'e run_result \<Rightarrow> 'e run_result \<Rightarrow> 'e run_result" where
  "merge_result bad res prev =
     prev\<lparr>rr_uploaded := rr_uploaded prev + rr_uploaded res, rr_duplicates := rr_duplicates prev + rr_duplicates res,
          rr_errors := rr_errors prev + rr_errors res - bad,
          rr_uploadedFileIds := rr_uploadedFileIds prev @ rr_uploadedFileIds res\<rparr>"

text \<open>\<open>Object.entries\<close> lists the numeric keys in ascending order. A retry has no control: no gate stops it.\<close>

definition handleRetryFailed :: "folders \<Rightarrow> string option \<Rightarrow> google_env \<Rightarrow> google_modal \<Rightarrow> google_modal" where
  "handleRetryFailed fs redirect env s =
     (let rows = sort (marked (gd_status s));
          toRetry = map (\<lambda>i. to_upload fs redirect (gd_entries s ! i)) rows
      in if rows = [] then s
         else let res = uploadGoogleEntries (env\<lparr>ge_gate := \<lambda>_. True\<rparr>) toRetry;
                  s1 = fold (on_retry rows) (rr_events res) s
              in s1\<lparr>gd_result := map_option (merge_result (length rows) res) (gd_result s1)\<rparr>)"

section \<open>Cleaning up\<close>

definition drive_ids :: "google_modal \<Rightarrow> string list" where
  "drive_ids s = map (\<lambda>e. gi_id (fe_item e)) (filter (\<lambda>e. fe_source e = FromDrive) (gd_entries s))"

definition photo_count :: "google_modal \<Rightarrow> nat" where
  "photo_count s = count_if (\<lambda>e. fe_source e = FromPhotos) (gd_entries s)"

definition photos_note :: "nat \<Rightarrow> string" where
  "photos_note n =
     (if 0 < n then '' ('' @ show_nat n @ '' Google Photo'' @ plural n @ '' cannot be deleted via API '' @ em_dash @
        '' remove them manually.)'' else [])"

definition no_drive_message :: "nat \<Rightarrow> string" where
  "no_drive_message n = ''Google does not allow third-party apps to delete Google Photos. Open the Google Photos app to remove ''
     @ show_nat n @ '' photo'' @ plural n @ '' manually.''"

definition cleanup_message :: "nat \<Rightarrow> nat \<Rightarrow> string \<Rightarrow> string" where
  "cleanup_message n bad note =
     (if bad = 0 then show_nat n @ '' file'' @ plural n @ '' moved to Google Drive trash.'' @ note
      else show_nat (n - bad) @ '' of '' @ show_nat n @ '' moved to trash. '' @ show_nat bad @ '' failed.'' @ note)"

text \<open>\<open>confirmed\<close> is the answer of \<open>window.confirm\<close>.\<close>

definition handleCleanup :: "bool \<Rightarrow> (string \<Rightarrow> thrown + nat) \<Rightarrow> google_modal \<Rightarrow> google_modal" where
  "handleCleanup confirmed send s =
     (if drive_ids s = [] then s\<lparr>gd_cleanup := Some (no_drive_message (photo_count s))\<rparr>
      else if \<not> confirmed then s
      else s\<lparr>gd_trashed := gd_trashed s @ drive_ids s,
             gd_cleanup := Some (cleanup_message (length (drive_ids s)) (trashGoogleDriveFiles send (drive_ids s))
               (photos_note (photo_count s)))\<rparr>)"

section \<open>The board after a run and its retries\<close>

text \<open>The events of a run that lets \<open>k\<close> entries through, with the report \<open>f i\<close> for the \<open>i\<close>-th.\<close>

definition board_events :: "nat \<Rightarrow> (nat \<Rightarrow> backup_entry) \<Rightarrow> (nat \<Rightarrow> item_report) \<Rightarrow> nat \<Rightarrow> backup_entry progress_event list" where
  "board_events n e f k = concat (map (\<lambda>i. [start_event n i (e i), settled_event n i (e i) (f i)]) [0..<k])"

lemma board_events_simps [simp]:
  "board_events n e f 0 = []"
  "board_events n e f (Suc k) = board_events n e f k @ [start_event n k (e k), settled_event n k (e k) (f k)]"
  by (simp_all add: board_events_def)

lemma upload_events:
  "rr_events (uploadGoogleEntries env es) = board_events (length es) (\<lambda>i. es ! i)
     (\<lambda>i. google_item_report env i (es ! i)) (google_passed env es)"
proof -
  have "map (\<lambda>i. [start_event (length es) i (es ! i), settled_event (length es) i (es ! i) (google_reports env es ! i)])
        [0..<google_passed env es]
      = map (\<lambda>i. [start_event (length es) i (es ! i), settled_event (length es) i (es ! i) (google_item_report env i (es ! i))])
        [0..<google_passed env es]"
    by (rule map_cong) (auto simp: google_reports_def)
  with google_run_summary [of env es] show ?thesis by (simp add: Let_def board_events_def)
qed

definition row_statuses :: "nat list \<Rightarrow> (nat \<Rightarrow> item_report) \<Rightarrow> nat \<Rightarrow> (nat \<times> item_outcome) list" where
  "row_statuses rows f k = map (\<lambda>i. (rows ! i, ir_status (f i))) [0..<k]"

lemma row_statuses_simps [simp]:
  "row_statuses rows f 0 = []"
  "row_statuses rows f (Suc k) = row_statuses rows f k @ [(rows ! k, ir_status (f k))]"
  by (simp_all add: row_statuses_def)

lemma row_statuses_keys: "k \<le> length rows \<Longrightarrow> map fst (row_statuses rows f k) = take k rows"
  by (simp add: row_statuses_def comp_def list_eq_iff_nth_eq)

lemma row_statuses_errors: "length (marked (row_statuses rows f k)) = count_if (\<lambda>i. ir_status (f i) = OError) [0..<k]"
  by (induction k) (simp_all add: marked_def count_if_def)

lemma progress_item [simp]:
  assumes "k < length rows"
  shows "gd_status (on_progress rows (settled_event n k e r) (on_progress rows (start_event n k e) s))
           = AList.update (rows ! k) (ir_status r) (gd_status s)"
    "gd_errors (on_progress rows (settled_event n k e r) (on_progress rows (start_event n k e) s))
           = put_error (rows ! k) (ir_error r) (gd_errors s)"
  using assms by (simp_all add: on_progress_def start_event_def settled_event_def Let_def)

lemma progress_status:
  "k \<le> length rows \<Longrightarrow>
     gd_status (fold (on_progress rows) (board_events n e f k) s) = settle_rows (row_statuses rows f k) (gd_status s)"
  by (induction k) simp_all

lemma retry_status:
  "k \<le> length rows \<Longrightarrow>
     gd_status (fold (on_retry rows) (board_events n e f k) s) = settle_rows (row_statuses rows f k) (gd_status s)"
  by (induction k) (simp_all add: on_retry_def start_event_def settled_event_def)

lemma retry_result [simp]: "gd_result (fold (on_retry rows) evs s) = gd_result s"
  by (induction evs arbitrary: s) (simp_all add: on_retry_def split: option.split)

lemma item_report_error: "ir_error (google_item_report env i e) = None \<or> ir_status (google_item_report env i e) = OError"
  by (auto simp: google_item_report_def error_report_def Let_def split: sum.split)

lemma progress_messages:
  assumes "distinct rows" "k \<le> length rows" "\<And>i. ir_error (f i) = None \<or> ir_status (f i) = OError"
    and "gd_status s = []" "gd_errors s = []"
  shows "messages_ok (gd_status (fold (on_progress rows) (board_events n e f k) s))
           (gd_errors (fold (on_progress rows) (board_events n e f k) s))"
  using assms(2)
proof (induction k)
  case 0
  with assms(4, 5) show ?case by (simp add: messages_ok_def)
next
  case (Suc k)
  let ?s = "fold (on_progress rows) (board_events n e f k) s"
  have "fst ` set (gd_status ?s) = set (take k rows)"
    using Suc.prems assms(1, 4) row_statuses_keys [of k rows f]
    by (simp add: progress_status settle_rows_keys) (metis set_map)
  then have "rows ! k \<notin> fst ` set (gd_status ?s)"
    using assms(1) Suc.prems by (auto simp: in_set_conv_nth nth_eq_iff_index_eq)
  then have "messages_ok (AList.update (rows ! k) (ir_status (f k)) (gd_status ?s))
      (put_error (rows ! k) (ir_error (f k)) (gd_errors ?s))"
    using messages_put [OF _ assms(3)] Suc by simp
  with Suc.prems show ?case by simp
qed

lemma retry_messages:
  "messages_ok (gd_status s) (gd_errors s) \<Longrightarrow>
     messages_ok (gd_status (fold (on_retry rows) evs s)) (gd_errors (fold (on_retry rows) evs s))"
  by (induction evs arbitrary: s) (simp_all add: on_retry_def messages_retry split: option.split)

text \<open>The board agrees with the counters of the result.\<close>

definition board_ok :: "nat \<Rightarrow> google_modal \<Rightarrow> bool" where
  "board_ok n s \<longleftrightarrow> messages_ok (gd_status s) (gd_errors s) \<and>
     (\<exists>r. gd_result s = Some r \<and> rr_errors r = length (marked (gd_status s)) \<and>
          rr_uploaded r + rr_duplicates r + rr_errors r = n)"

lemma upload_errors:
  "rr_errors (uploadGoogleEntries env es)
     = count_if (\<lambda>i. ir_status (google_item_report env i (es ! i)) = OError) [0..<google_passed env es]"
proof -
  let ?f = "\<lambda>i. ir_status (google_item_report env i (es ! i))" and ?n = "google_passed env es"
  have "count_if (\<lambda>i. ?f i = ODone) xs + count_if (\<lambda>i. ?f i = ODuplicate) xs + count_if (\<lambda>i. ?f i = OError) xs = length xs" for xs
  proof (induction xs)
    case (Cons x xs)
    then show ?case by (cases "?f x") simp_all
  qed simp
  from this [of "[0..<?n]"] google_run_summary [of env es] show ?thesis
    by (simp add: Let_def google_reports_def count_if_def comp_def filter_map)
qed

lemma rows_distinct: "distinct (selectedIndices s)"
  by (simp add: selectedIndices_def)

lemma first_run_board:
  fixes fs :: folders and redirect :: "string option"
  assumes "selectedIndices s \<noteq> []" "\<not> fst (gd_settings s)"
  defines "es \<equiv> map (\<lambda>i. to_upload fs redirect (gd_entries s ! i)) (selectedIndices s)"
  shows "board_ok (google_passed env es) (handleBackUp fs redirect env del act s)"
    "gd_status (handleBackUp fs redirect env del act s) = settle_rows
       (row_statuses (selectedIndices s) (\<lambda>i. google_item_report env i (es ! i)) (google_passed env es)) []"
proof -
  let ?rows = "selectedIndices s" and ?res = "uploadGoogleEntries env es" and ?n = "google_passed env es"
  let ?f = "\<lambda>i. google_item_report env i (es ! i)"
  let ?b = "begin_run (length es) s"
  let ?s = "fold (on_progress ?rows) (rr_events ?res) ?b"
  have le: "?n \<le> length ?rows" using google_passed_le [of env es] by (simp add: es_def)
  have b: "gd_status ?b = []" "gd_errors ?b = []" by (simp_all add: begin_run_def)
  have h: "handleBackUp fs redirect env del act s = finish_run del act ?res ?s"
    using assms(1, 2) by (simp add: handleBackUp_def Let_def es_def)
  have st: "gd_status ?s = settle_rows (row_statuses ?rows ?f ?n) []"
    using progress_status [OF le] b by (simp add: upload_events)
  have "distinct (map fst (row_statuses ?rows ?f ?n))"
    using row_statuses_keys [OF le] rows_distinct by (simp add: distinct_take)
  then have "length (marked (gd_status ?s)) = rr_errors ?res"
    by (simp only: st marked_first_run row_statuses_errors upload_errors)
  moreover have "messages_ok (gd_status ?s) (gd_errors ?s)"
    unfolding upload_events
    by (rule progress_messages [OF rows_distinct le]) (simp_all add: item_report_error b)
  moreover have "rr_uploaded ?res + rr_duplicates ?res + rr_errors ?res = ?n"
    using google_run_summary [of env es] by (simp add: Let_def)
  ultimately show "board_ok ?n (handleBackUp fs redirect env del act s)"
    by (simp add: h board_ok_def finish_run_def Let_def)
  show "gd_status (handleBackUp fs redirect env del act s) = settle_rows (row_statuses ?rows ?f ?n) []"
    using st by (simp add: h finish_run_def Let_def)
qed

lemma retry_board:
  assumes "board_ok n s"
  shows "board_ok n (handleRetryFailed fs redirect env s)"
proof (cases "marked (gd_status s) = []")
  case True
  with assms show ?thesis by (simp add: handleRetryFailed_def)
next
  case False
  define rows where "rows = sort (marked (gd_status s))"
  define es where "es = map (\<lambda>i. to_upload fs redirect (gd_entries s ! i)) rows"
  define env' where "env' = env\<lparr>ge_gate := \<lambda>_. True\<rparr>"
  let ?res = "uploadGoogleEntries env' es" and ?f = "\<lambda>i. google_item_report env' i (es ! i)"
  let ?s = "fold (on_retry rows) (rr_events ?res) s"
  from assms obtain r where r: "gd_result s = Some r" "rr_errors r = length (marked (gd_status s))"
      "rr_uploaded r + rr_duplicates r + rr_errors r = n" and ok: "messages_ok (gd_status s) (gd_errors s)"
    by (auto simp: board_ok_def)
  have d: "distinct (map fst (gd_status s))" using ok by (simp add: messages_ok_def)
  have rows: "distinct rows" "set rows = set (marked (gd_status s))" "length rows = length (marked (gd_status s))"
    using marked_distinct [OF d] by (simp_all add: rows_def)
  from False rows(3) have ne: "rows \<noteq> []" by auto
  have "takeWhile (ge_gate env') [0..<length es] = [0..<length es]" by (simp add: env'_def)
  then have n: "google_passed env' es = length rows" by (simp only: length_upt es_def length_map diff_zero)
  have keys: "map fst (row_statuses rows ?f (length rows)) = rows"
    using row_statuses_keys [of "length rows" rows] by simp
  have "gd_status ?s = settle_rows (row_statuses rows ?f (length rows)) (gd_status s)"
    unfolding upload_events n by (rule retry_status) simp
  then have "length (marked (gd_status ?s)) = length (marked (row_statuses rows ?f (length rows)))"
    using marked_retry [OF d, of "row_statuses rows ?f (length rows)"] rows(1, 2) by (simp only: keys)
  then have m: "length (marked (gd_status ?s)) = rr_errors ?res"
    by (simp only: row_statuses_errors upload_errors n)
  have t: "rr_uploaded ?res + rr_duplicates ?res + rr_errors ?res = length rows"
    using google_run_summary [of env' es] by (simp add: Let_def n)
  have h: "handleRetryFailed fs redirect env s = ?s\<lparr>gd_result := Some (merge_result (length rows) ?res r)\<rparr>"
    using ne r(1) by (simp add: handleRetryFailed_def Let_def rows_def es_def env'_def)
  show ?thesis unfolding h board_ok_def
    using r rows(3) m t retry_messages [OF ok, of rows "rr_events ?res"] by (simp add: merge_result_def)
qed

text \<open>C11. The board of the window is true to the run: after a run and any number of retries, whatever the
  answers were, the number of failures the result shows is the number of rows marked as failed, the
  counters add up to the entries the run got to, and only failed rows carry an error message.\<close>

theorem google_board_true:
  assumes "selectedIndices s \<noteq> []" "\<not> fst (gd_settings s)"
    and "s' = foldl (\<lambda>s env. handleRetryFailed fs redirect env s) (handleBackUp fs redirect env del act s) envs"
  shows "\<exists>r. gd_result s' = Some r \<and> rr_errors r = length (marked (gd_status s'))
    \<and> rr_uploaded r + rr_duplicates r + rr_errors r
        = google_passed env (map (\<lambda>i. to_upload fs redirect (gd_entries s ! i)) (selectedIndices s))
    \<and> fst ` set (gd_errors s') \<subseteq> set (marked (gd_status s'))"
proof -
  let ?n = "google_passed env (map (\<lambda>i. to_upload fs redirect (gd_entries s ! i)) (selectedIndices s))"
  have "board_ok n (foldl (\<lambda>s env. handleRetryFailed fs redirect env s) x envs)" if "board_ok n x" for n x
    using that by (induction envs arbitrary: x) (simp_all add: retry_board)
  from this [OF first_run_board(1) [OF assms(1, 2), of env fs redirect del act]] show ?thesis
    by (auto simp: assms(3) board_ok_def messages_ok_def)
qed

definition a_file :: "string \<Rightarrow> google_item" where
  "a_file i = \<lparr>gi_id = i, gi_name = i, gi_mimeType = ''image/png'', gi_size = Some (Fin 4), gi_modifiedTime = [],
     gi_source = FromDrive, gi_isGoogleDoc = False, gi_baseUrl = None, gi_thumbnailLink = None\<rparr>"

definition offline :: google_env where
  "offline = \<lparr>ge_gate = (\<lambda>_. True), ge_download = (\<lambda>_ _. Inl ThrowOther), ge_digest = id,
     ge_check = (\<lambda>_ _. Inr False), ge_upload = (\<lambda>_ _. Inl ThrowOther)\<rparr>"

definition two_files :: google_modal where
  "two_files = (reset_modal (\<lambda>k. Some ''false'') [a_file ''a'', a_file ''b''] blank_modal)"

lemma two_files_simps [simp]:
  "gd_entries two_files = [to_entry (a_file ''a''), to_entry (a_file ''b'')]" "gd_selected two_files = {..<2}"
  "gd_settings two_files = (False, False)" "gd_trashed two_files = []"
  by (simp_all add: two_files_def reset_modal_def loadGoogleBackupSettings_def blank_modal_def)

lemma two_files_rows [simp]: "selectedIndices two_files = [0, 1]"
  by (simp add: selectedIndices_def upt_rec [of _ 2])

theorem google_board_true_witness:
  "\<exists>r. gd_result (handleRetryFailed [] None offline (handleBackUp [] None offline (\<lambda>_. Inr ()) Keep two_files)) = Some r
    \<and> rr_errors r = length (marked (gd_status
        (handleRetryFailed [] None offline (handleBackUp [] None offline (\<lambda>_. Inr ()) Keep two_files))))
    \<and> rr_uploaded r + rr_duplicates r + rr_errors r = 2"
proof -
  have n: "google_passed offline (map (\<lambda>i. to_upload [] None (gd_entries two_files ! i)) (selectedIndices two_files)) = 2"
    by (simp add: offline_def)
  let ?s = "handleRetryFailed [] None offline (handleBackUp [] None offline (\<lambda>_. Inr ()) Keep two_files)"
  have "?s = foldl (\<lambda>s env. handleRetryFailed [] None env s) (handleBackUp [] None offline (\<lambda>_. Inr ()) Keep two_files) [offline]"
    by simp
  from google_board_true [OF _ _ this] show ?thesis unfolding n by auto
qed

section \<open>Rows, lists and destinations\<close>

text \<open>Each entry is on the board under its own row: the status of a row is the outcome of the entry it
  stands for, and rows that were not selected, or not reached, have none.\<close>

theorem row_shows_own_outcome:
  assumes "selectedIndices s \<noteq> []" "\<not> fst (gd_settings s)"
    and "es = map (\<lambda>i. to_upload fs redirect (gd_entries s ! i)) (selectedIndices s)"
  shows "map_of (gd_status (handleBackUp fs redirect env del act s)) i = Some v \<longleftrightarrow>
    (\<exists>k < google_passed env es. selectedIndices s ! k = i \<and> ir_status (google_item_report env k (es ! k)) = v)"
proof -
  let ?n = "google_passed env es" and ?f = "\<lambda>i. google_item_report env i (es ! i)"
  have le: "?n \<le> length (selectedIndices s)" using google_passed_le [of env es] by (simp add: assms(3))
  have d: "distinct (map fst (row_statuses (selectedIndices s) ?f ?n))"
    using row_statuses_keys [OF le] rows_distinct by (simp add: distinct_take)
  have "map_of (settle_rows (row_statuses (selectedIndices s) ?f ?n) []) i = map_of (row_statuses (selectedIndices s) ?f ?n) i"
    using settle_rows_of [OF d] by (simp split: option.split)
  also have "\<dots> = Some v \<longleftrightarrow> (i, v) \<in> set (row_statuses (selectedIndices s) ?f ?n)"
    using d by simp
  finally show ?thesis
    using first_run_board(2) [OF assms(1, 2)] by (auto simp: assms(3) row_statuses_def)
qed

lemma indexed_snd: "map snd (indexed es) = [0..<length es]"
  by (simp add: indexed_def)

lemma mset_js_sort: "mset (js_sort cmp xs) = mset xs"
proof -
  have "mset (insert_by cmp x ys) = add_mset x (mset ys)" for x ys by (induction ys) simp_all
  then show ?thesis by (induction xs) (simp_all add: js_sort_def)
qed

text \<open>The two views of the rows show every entry exactly once: the sections by category and the sorted
  list are rearrangements of the rows, and a row stands in the section of its category.\<close>

lemma mset_sections:
  "distinct cs \<Longrightarrow> (\<forall>x \<in> set xs. f x \<in> set cs) \<Longrightarrow> mset (concat (map (\<lambda>c. filter (\<lambda>x. f x = c) xs) cs)) = mset xs"
proof (induction cs arbitrary: xs)
  case (Cons c cs)
  let ?ys = "filter (\<lambda>x. f x \<noteq> c) xs"
  have "map (\<lambda>c'. filter (\<lambda>x. f x = c') xs) cs = map (\<lambda>c'. filter (\<lambda>x. f x = c') ?ys) cs"
    using Cons.prems(1) by (auto intro!: filter_cong)
  then have "concat (map (\<lambda>c'. filter (\<lambda>x. f x = c') xs) cs) = concat (map (\<lambda>c'. filter (\<lambda>x. f x = c') ?ys) cs)"
    by (rule arg_cong)
  moreover have "mset (concat (map (\<lambda>c'. filter (\<lambda>x. f x = c') ?ys) cs)) = mset ?ys"
    using Cons.prems by (intro Cons.IH) auto
  ultimately have "mset (concat (map (\<lambda>c. filter (\<lambda>x. f x = c) xs) (c # cs)))
      = filter_mset (\<lambda>x. f x = c) (mset xs) + filter_mset (\<lambda>x. \<not> f x = c) (mset xs)" by (simp only: list.map concat.simps mset_append mset_filter)
  then show ?case by (simp only: multiset_partition [symmetric])
qed simp

theorem rows_shown_once:
  "mset (concat (map snd (sections es))) = mset (indexed es) \<and>
   mset (flatList collate m es) = mset (indexed es) \<and>
   list_all (\<lambda>p. snd p \<noteq> [] \<and> list_all (\<lambda>q. getCategory (fst q) = fst p) (snd p)) (sections es)"
proof (intro conjI)
  have "concat (map snd (filter (\<lambda>p. snd p \<noteq> []) ps)) = concat (map snd ps)" for ps :: "(category \<times> (file_entry \<times> nat) list) list"
    by (induction ps) auto
  moreover have "getCategory e \<in> set CATEGORY_ORDER" for e
    by (cases "getCategory e") (simp_all add: CATEGORY_ORDER_def)
  moreover have "distinct CATEGORY_ORDER" by (simp add: CATEGORY_ORDER_def)
  ultimately show "mset (concat (map snd (sections es))) = mset (indexed es)"
    using mset_sections [of CATEGORY_ORDER "indexed es" "\<lambda>p. getCategory (fst p)"]
    by (simp add: sections_def comp_def)
  show "list_all (\<lambda>p. snd p \<noteq> [] \<and> list_all (\<lambda>q. getCategory (fst q) = fst p) (snd p)) (sections es)"
    by (auto simp: sections_def list_all_iff)
  show "mset (flatList collate m es) = mset (indexed es)"
    by (cases m) (simp_all add: flatList_def mset_js_sort)
qed

text \<open>Choosing a destination is seen where it was chosen, and nowhere else: the menu of the same target
  ticks it when it is opened again, the entries outside the target keep theirs, and nothing but the
  destination of an entry changes.\<close>

definition in_target :: "dest_target \<Rightarrow> file_entry list \<Rightarrow> nat \<Rightarrow> bool" where
  "in_target t es i = (case t of DestFile j \<Rightarrow> i = j | DestCategory c \<Rightarrow> getCategory (es ! i) = c)"

lemma getCategory_dest [simp]: "getCategory (e\<lparr>fe_dest := f\<rparr>) = getCategory e"
  by (simp add: getCategory_def)

lemma apply_to_nth:
  "i < length es \<Longrightarrow> apply_to t f es ! i = (if in_target t es i then (es ! i)\<lparr>fe_dest := f\<rparr> else es ! i)"
  by (cases t) (auto simp: apply_to_def in_target_def)

lemma apply_to_length [simp]: "length (apply_to t f es) = length es"
  by (cases t) (simp_all add: apply_to_def)

lemma category_dests:
  "filter (\<lambda>e. getCategory e = c) (apply_to (DestCategory c) f es)
     = map (\<lambda>e. e\<lparr>fe_dest := f\<rparr>) (filter (\<lambda>e. getCategory e = c) es)"
  by (induction es) (simp_all add: apply_to_def)

theorem destination_chosen_is_shown:
  assumes "\<exists>i < length (gd_entries s). in_target t (gd_entries s) i"
    and "s' = openDest t (applyDest f (openDest t s))"
  shows "activeDest s' = Some f"
    "i < length (gd_entries s) \<Longrightarrow>
       gd_entries s' ! i = (if in_target t (gd_entries s) i then (gd_entries s ! i)\<lparr>fe_dest := f\<rparr> else gd_entries s ! i)"
proof -
  have e: "gd_entries s' = apply_to t f (gd_entries s)" and d: "gd_dest s' = Some t"
    by (simp_all add: assms(2) applyDest_def openDest_def)
  show "activeDest s' = Some f"
  proof (cases t)
    case (DestFile j)
    then have "j < length (gd_entries s)" using assms(1) by (auto simp: in_target_def)
    then show ?thesis using e d DestFile by (simp add: activeDest_def apply_to_nth in_target_def)
  next
    case (DestCategory c)
    let ?cs = "filter (\<lambda>e. getCategory e = c) (gd_entries s)"
    have "?cs \<noteq> []" using assms(1) DestCategory by (auto simp: in_target_def filter_empty_conv)
    then show ?thesis using e d DestCategory
      by (cases ?cs) (simp_all add: activeDest_def category_dests list_all_iff)
  qed
  show "i < length (gd_entries s) \<Longrightarrow>
      gd_entries s' ! i = (if in_target t (gd_entries s) i then (gd_entries s ! i)\<lparr>fe_dest := f\<rparr> else gd_entries s ! i)"
    by (simp add: e apply_to_nth)
qed

section \<open>Behaviours against the intent\<close>

text \<open>The clean-up asks for the deletion of every Drive file in the list, also of those that were not
  selected or whose backup failed, although its dialog says they are safely backed up: after a run in
  which every download failed, and nothing was stored, it deletes them all.\<close>

theorem cleanup_deletes_unsaved:
  assumes "selectedIndices s \<noteq> []" "\<not> fst (gd_settings s)" "drive_ids s \<noteq> []"
    and "\<And>k url. ge_download env k url = Inl t"
    and "s' = handleBackUp fs redirect env del act s"
  shows "(\<exists>r. gd_result s' = Some r \<and> rr_uploaded r = 0 \<and> rr_duplicates r = 0)
    \<and> gd_trashed (handleCleanup True send s') = gd_trashed s @ drive_ids s"
proof -
  let ?es = "map (\<lambda>i. to_upload fs redirect (gd_entries s ! i)) (selectedIndices s)"
  let ?s = "fold (on_progress (selectedIndices s)) (rr_events (uploadGoogleEntries env ?es)) (begin_run (length ?es) s)"
  have "google_item_report env k e = error_report t" for k e
    by (simp add: google_item_report_def downloadGoogleBlob_def assms(4))
  then have z: "rr_uploaded (uploadGoogleEntries env ?es) = 0 \<and> rr_duplicates (uploadGoogleEntries env ?es) = 0"
    using google_run_summary [of env ?es]
    by (simp add: Let_def google_reports_def error_report_def count_if_def)
  have h: "s' = finish_run del act (uploadGoogleEntries env ?es) ?s"
    using assms(1, 2) by (simp add: assms(5) handleBackUp_def Let_def)
  have keep: "gd_entries (fold (on_progress rows) evs x) = gd_entries x \<and> gd_trashed (fold (on_progress rows) evs x) = gd_trashed x"
    for rows evs x
    by (induction evs arbitrary: x) (simp_all add: on_progress_def Let_def split: option.split)
  have "gd_entries s' = gd_entries s \<and> gd_trashed s' = gd_trashed s"
    using keep by (simp add: h finish_run_def begin_run_def Let_def)
  moreover from this have "drive_ids s' = drive_ids s" by (simp add: drive_ids_def)
  ultimately show ?thesis using z assms(3) by (simp add: h finish_run_def Let_def handleCleanup_def)
qed

theorem cleanup_deletes_unsaved_witness:
  "gd_trashed (handleCleanup True (\<lambda>_. Inr 204) (handleBackUp [] None offline (\<lambda>_. Inr ()) Keep two_files)) = [''a'', ''b'']"
proof -
  have "drive_ids two_files = [''a'', ''b'']" by (simp add: drive_ids_def to_entry_def a_file_def)
  then show ?thesis
    using cleanup_deletes_unsaved [of two_files offline ThrowOther _ "[]" None "\<lambda>_. Inr ()" Keep "\<lambda>_. Inr 204"]
    by (simp add: offline_def)
qed

text \<open>The preview of a photo is not withdrawn when it is closed: its picture, arriving late, appears
  under the name of the file opened next.\<close>

theorem late_photo_under_other_name:
  "let d = to_entry (a_file ''d''); p = (to_entry (a_file ''p''))\<lparr>fe_source := FromPhotos\<rparr>;
       s = preview_answer (Some ''blob:p'') (openPreview d (closePreview (openPreview p two_files)))
   in gd_preview s = Some d \<and> gd_previewUrl s = Some ''blob:p''"
  by (simp add: openPreview_def preview_answer_def closePreview_def Let_def to_entry_def a_file_def)

end
