(* ===== verification/EmailModal.thy ===== *)
theory EmailModal
  imports RunBoard BackupFlows SortView
begin

text \<open>
  The window of an email backup, \<open>frontend/src/components/EmailBackupModal.tsx\<close>: the filters, the
  selection that lasts behind them, the quota bar, the choice of the destination, the run with its board,
  the deletion of the originals and the retry. The messages (\<open>items\<close> in the code) are a parameter of
  the operations, since they keep arriving while the mailbox is read; dates, collation and the answers of
  provider and backend are parameters.
\<close>

section \<open>State\<close>

datatype modal_phase = PickPhase | UploadPhase | DonePhase

record email_folder =
  ef_id :: string
  ef_drive :: "string option"

text \<open>
  \<open>ed_credits\<close> are the calls of \<open>liveSync.itemStored\<close>, \<open>ed_syncs\<close> counts those of \<open>liveSync.finish\<close>,
  \<open>ed_reports\<close> are those of \<open>completeEmailBackupRun\<close>, \<open>ed_started\<close> those of \<open>onStartBackground\<close>,
  \<open>ed_trashed\<close> the messages whose deletion the provider was asked for.
\<close>

record email_modal =
  ed_settingsTab :: bool
  ed_phase :: modal_phase
  ed_search :: string
  ed_dateFrom :: string
  ed_dateTo :: string
  ed_starredOnly :: bool
  ed_unreadOnly :: bool
  ed_attachmentsOnly :: bool
  ed_senders :: "string set"
  ed_selected :: "string set"
  ed_touched :: bool
  ed_settings :: email_settings
  ed_driveId :: "string option"
  ed_progress :: "(nat \<times> nat) option"
  ed_status :: "(string \<times> item_outcome) list"
  ed_errors :: "(string \<times> string) list"
  ed_result :: "email_result option"
  ed_folderId :: "string option"
  ed_uploadError :: "string option"
  ed_cleanup :: "string option"
  ed_path :: "string option"
  ed_storedBytes :: nat
  ed_storedCount :: nat
  ed_paused :: bool
  ed_prompt :: bool
  ed_note :: "string option"
  ed_credits :: "(nat \<times> string option) list"
  ed_syncs :: nat
  ed_reports :: "run_report list"
  ed_started :: "(email_item list \<times> email_folder) list"
  ed_trashed :: "string list"

definition ids_of :: "email_item list \<Rightarrow> string set" where
  "ids_of msgs = ei_id ` set msgs"

definition initial_drive :: "my_server list option \<Rightarrow> string option" where
  "initial_drive myServers =
     (case Option.bind myServers (find ms_is_primary) of
        Some s \<Rightarrow> Some (ms_drive_id s)
      | None \<Rightarrow> (case or_else myServers [] of [] \<Rightarrow> None | s # _ \<Rightarrow> Some (ms_drive_id s)))"

definition open_modal :: "local_storage \<Rightarrow> my_server list option \<Rightarrow> email_item list \<Rightarrow> email_modal" where
  "open_modal st myServers msgs = \<lparr>ed_settingsTab = False, ed_phase = PickPhase, ed_search = [],
     ed_dateFrom = [], ed_dateTo = [], ed_starredOnly = False, ed_unreadOnly = False, ed_attachmentsOnly = False,
     ed_senders = {}, ed_selected = ids_of msgs, ed_touched = False, ed_settings = loadEmailBackupSettings st,
     ed_driveId = initial_drive myServers, ed_progress = None, ed_status = [], ed_errors = [], ed_result = None,
     ed_folderId = None, ed_uploadError = None, ed_cleanup = None, ed_path = None, ed_storedBytes = 0,
     ed_storedCount = 0, ed_paused = False, ed_prompt = False, ed_note = None, ed_credits = [], ed_syncs = 0,
     ed_reports = [], ed_started = [], ed_trashed = []\<rparr>"

text \<open>The Escape key closes the window only before the run.\<close>

definition escape_closes :: "email_modal \<Rightarrow> bool" where
  "escape_closes s \<longleftrightarrow> ed_phase s = PickPhase"

section \<open>Filters\<close>

text \<open>Senders by the number of their messages, equal ones by address.\<close>

definition cmp_senders :: "(string \<Rightarrow> string \<Rightarrow> int) \<Rightarrow> string \<times> nat \<Rightarrow> string \<times> nat \<Rightarrow> int" where
  "cmp_senders collate a b = (if snd a \<noteq> snd b then int (snd b) - int (snd a) else collate (fst a) (fst b))"

definition senders :: "(string \<Rightarrow> string \<Rightarrow> int) \<Rightarrow> email_item list \<Rightarrow> (string \<times> nat) list" where
  "senders collate msgs =
     js_sort (cmp_senders collate)
       (map (\<lambda>a. (a, count_if (\<lambda>m. ei_fromAddr m = a) msgs)) (rev (remdups (rev (map ei_fromAddr msgs)))))"

text \<open>A bound of the date filter: \<open>None\<close> when it is not set, \<open>Some None\<close> when it is no date.\<close>

definition day_bound :: "dates \<Rightarrow> string \<Rightarrow> string \<Rightarrow> int option option" where
  "day_bound dt d t = (if d = [] then None else Some (getTime dt (d @ t)))"

definition before :: "int option \<Rightarrow> int option \<Rightarrow> bool" where
  "before a b = (case (a, b) of (Some x, Some y) \<Rightarrow> x < y | _ \<Rightarrow> False)"

definition passes :: "dates \<Rightarrow> email_modal \<Rightarrow> email_item \<Rightarrow> bool" where
  "passes dt s m =
     (let q = to_lower (trim (ed_search s)); ts = getTime dt (ei_date m) in
      if ed_starredOnly s \<and> \<not> ei_starred m then False
      else if ed_unreadOnly s \<and> \<not> ei_unread m then False
      else if ed_attachmentsOnly s \<and> \<not> ei_hasAttachments m then False
      else if ed_senders s \<noteq> {} \<and> ei_fromAddr m \<notin> ed_senders s then False
      else if (case day_bound dt (ed_dateFrom s) ''T00:00:00'' of
                 None \<Rightarrow> False | Some from \<Rightarrow> ts = None \<or> before ts from) then False
      else if (case day_bound dt (ed_dateTo s) ''T23:59:59.999'' of
                 None \<Rightarrow> False | Some to \<Rightarrow> ts = None \<or> before to ts) then False
      else q = [] \<or> has_part q (to_lower (ei_subject m @ '' '' @ ei_from m @ '' '' @ ei_snippet m)))"

definition filtered :: "dates \<Rightarrow> email_item list \<Rightarrow> email_modal \<Rightarrow> email_item list" where
  "filtered dt msgs s = filter (passes dt s) msgs"

section \<open>Selection\<close>

text \<open>The effect on \<open>items\<close>: until the user chose, everything that has arrived is selected.\<close>

definition arrived :: "email_item list \<Rightarrow> email_modal \<Rightarrow> email_modal" where
  "arrived msgs s = (if ed_touched s then s else s\<lparr>ed_selected := ids_of msgs\<rparr>)"

definition allVisibleSelected :: "dates \<Rightarrow> email_item list \<Rightarrow> email_modal \<Rightarrow> bool" where
  "allVisibleSelected dt msgs s \<longleftrightarrow>
     filtered dt msgs s \<noteq> [] \<and> list_all (\<lambda>m. ei_id m \<in> ed_selected s) (filtered dt msgs s)"

definition toggle :: "string \<Rightarrow> email_modal \<Rightarrow> email_modal" where
  "toggle i s = s\<lparr>ed_touched := True, ed_selected := toggle_set i (ed_selected s)\<rparr>"

definition toggleAllVisible :: "dates \<Rightarrow> email_item list \<Rightarrow> email_modal \<Rightarrow> email_modal" where
  "toggleAllVisible dt msgs s =
     s\<lparr>ed_touched := True,
       ed_selected := (if allVisibleSelected dt msgs s then {}
                       else ed_selected s \<union> ids_of (filtered dt msgs s))\<rparr>"

definition selectedItems :: "email_item list \<Rightarrow> email_modal \<Rightarrow> email_item list" where
  "selectedItems msgs s = filter (\<lambda>m. ei_id m \<in> ed_selected s) msgs"

definition hiddenSelected :: "dates \<Rightarrow> email_item list \<Rightarrow> email_modal \<Rightarrow> email_item list" where
  "hiddenSelected dt msgs s = filter (\<lambda>m. ei_id m \<notin> ids_of (filtered dt msgs s)) (selectedItems msgs s)"

definition deselectHidden :: "dates \<Rightarrow> email_item list \<Rightarrow> email_modal \<Rightarrow> email_modal" where
  "deselectHidden dt msgs s =
     s\<lparr>ed_touched := True, ed_selected := ed_selected s - ids_of (hiddenSelected dt msgs s)\<rparr>"

section \<open>Quota\<close>

definition email_selectedSize :: "email_item list \<Rightarrow> email_modal \<Rightarrow> nat" where
  "email_selectedSize msgs s = total_bytes (selectedItems msgs s)"

definition hasUnsizedItems :: "email_item list \<Rightarrow> email_modal \<Rightarrow> bool" where
  "hasUnsizedItems msgs s = list_ex (\<lambda>m. ei_sizeEstimate m = 0) (selectedItems msgs s)"

definition over_quota :: "nat \<Rightarrow> nat \<Rightarrow> nat \<Rightarrow> bool" where
  "over_quota quota used sz \<longleftrightarrow> 0 < quota \<and> quota < used + sz"

definition usedPct :: "nat \<Rightarrow> nat \<Rightarrow> rat" where
  "usedPct quota used = (if 0 < quota then min (of_nat used / of_nat quota * 100) 100 else 0)"

definition fitsPct :: "nat \<Rightarrow> nat \<Rightarrow> nat \<Rightarrow> rat" where
  "fitsPct quota used sz =
     (if 0 < quota then max 0 (min (of_nat sz) (of_nat quota - of_nat used)) / of_nat quota * 100 else 0)"

definition overflowPct :: "nat \<Rightarrow> nat \<Rightarrow> nat \<Rightarrow> rat" where
  "overflowPct quota used sz =
     (if over_quota quota used sz then max 0 (100 - usedPct quota used - fitsPct quota used sz) else 0)"

section \<open>Destination\<close>

definition selectedServer :: "my_server list \<Rightarrow> email_modal \<Rightarrow> my_server option" where
  "selectedServer servers s = find (\<lambda>v. Some (ms_drive_id v) = ed_driveId s) servers"

definition tier :: "my_server list \<Rightarrow> email_modal \<Rightarrow> drive_type" where
  "tier servers s =
     (case selectedServer servers s of
        Some v \<Rightarrow> ms_drive_type v
      | None \<Rightarrow> (case find ms_is_primary servers of Some v \<Rightarrow> ms_drive_type v | None \<Rightarrow> Nvme))"

definition in_tier :: "drive_type \<Rightarrow> my_server list \<Rightarrow> my_server list" where
  "in_tier t servers = filter (\<lambda>v. ms_drive_type v = t) servers"

definition hasBothTiers :: "my_server list \<Rightarrow> bool" where
  "hasBothTiers servers \<longleftrightarrow> in_tier Nvme servers \<noteq> [] \<and> in_tier Hdd servers \<noteq> []"

definition serversInTier :: "my_server list \<Rightarrow> email_modal \<Rightarrow> my_server list" where
  "serversInTier servers s = in_tier (tier servers s) servers"

definition handleTierChange :: "my_server list \<Rightarrow> drive_type \<Rightarrow> email_modal \<Rightarrow> email_modal" where
  "handleTierChange servers t s =
     (let inTier = in_tier t servers
      in s\<lparr>ed_driveId := (case find ms_is_primary inTier of
                            Some v \<Rightarrow> Some (ms_drive_id v)
                          | None \<Rightarrow> (case inTier of [] \<Rightarrow> None | v # _ \<Rightarrow> Some (ms_drive_id v)))\<rparr>)"

text \<open>A patch of the settings is saved as it is applied.\<close>

definition updateSettings ::
  "bool option \<Rightarrow> bool option \<Rightarrow> bool option \<Rightarrow> local_storage \<Rightarrow> email_modal \<Rightarrow> local_storage \<times> email_modal" where
  "updateSettings deleteAfter notify background st s =
     (let old = ed_settings s;
          next = \<lparr>es_deleteAfter = or_else deleteAfter (es_deleteAfter old), es_notify = or_else notify (es_notify old),
                  es_background = or_else background (es_background old)\<rparr>
      in (saveEmailBackupSettings next st, s\<lparr>ed_settings := next\<rparr>))"

section \<open>The run\<close>

text \<open>\<open>onProgress\<close> of the first run; \<open>dest\<close> is the drive the messages land on.\<close>

definition on_email_progress :: "string option \<Rightarrow> email_event \<Rightarrow> email_modal \<Rightarrow> email_modal" where
  "on_email_progress dest e s =
     (let s1 = s\<lparr>ed_progress := Some (pv_done e, pv_total e)\<rparr>
      in if pv_phase e = PStart then s1\<lparr>ed_path := Some (pv_path e)\<rparr>
         else case pv_report e of
                None \<Rightarrow> s1
              | Some r \<Rightarrow>
                  let s2 = s1\<lparr>ed_status := AList.update (ei_id (pv_entry e)) (ir_status r) (ed_status s1),
                              ed_errors := put_error (ei_id (pv_entry e)) (ir_error r) (ed_errors s1)\<rparr>
                  in if ir_status r = ODone
                     then s2\<lparr>ed_path := Some (pv_path e), ed_storedBytes := ed_storedBytes s2 + ir_sizeBytes r,
                             ed_storedCount := ed_storedCount s2 + 1,
                             ed_credits := ed_credits s2 @ [(ir_sizeBytes r, dest)]\<rparr>
                     else s2)"

definition begin_email_run :: "string \<Rightarrow> nat \<Rightarrow> email_modal \<Rightarrow> email_modal" where
  "begin_email_run folderId n s = s\<lparr>ed_phase := UploadPhase, ed_folderId := Some folderId, ed_status := [],
     ed_errors := [], ed_storedBytes := 0, ed_storedCount := 0, ed_note := None, ed_progress := Some (0, n)\<rparr>"

definition email_rollback_run ::
  "(string \<Rightarrow> thrown + unit) \<Rightarrow> cancel_action \<Rightarrow> email_result \<Rightarrow> (nat \<times> nat) option" where
  "email_rollback_run del act res =
     (if er_cancelled res \<and> act = Remove \<and> er_uploadedMessageIds res \<noteq> []
      then Some (removeBackedUpMessages del (er_uploadedMessageIds res)) else None)"

definition trash_message :: "provider \<Rightarrow> nat \<Rightarrow> nat \<Rightarrow> string" where
  "trash_message p n bad =
     (let deleted = n - bad; where_to = (if p = Gmail then ''Gmail trash'' else ''Deleted Items'')
      in if bad = 0 then show_nat deleted @ '' email'' @ plural deleted @ '' moved to your '' @ where_to @ ''.''
         else show_nat deleted @ '' of '' @ show_nat n @ '' moved to your '' @ where_to @ ''; '' @ show_nat bad
           @ '' could not be deleted.'')"

text \<open>The deletion of the originals, when there are any to delete.\<close>

definition trash_originals ::
  "provider \<Rightarrow> (string \<Rightarrow> thrown + unit g_response) \<Rightarrow> string list \<Rightarrow> email_modal \<Rightarrow> email_modal" where
  "trash_originals p send is s =
     (if is = [] then s
      else s\<lparr>ed_trashed := ed_trashed s @ is,
             ed_cleanup := Some (trash_message p (length is) (deleteProviderMessages p send is))\<rparr>)"

definition finish_email_run ::
  "provider \<Rightarrow> string \<Rightarrow> string \<Rightarrow> (string \<Rightarrow> thrown + unit) \<Rightarrow> (string \<Rightarrow> thrown + unit g_response) \<Rightarrow> cancel_action
     \<Rightarrow> email_result \<Rightarrow> email_modal \<Rightarrow> email_modal" where
  "finish_email_run p account folderId del send act res s =
     (let rollback = email_rollback_run del act res;
          removed = (case rollback of None \<Rightarrow> 0 | Some q \<Rightarrow> fst q);
          note = cancel_note ''email'' rollback (er_cancelled res) (er_uploaded res) (length (er_uploadedMessageIds res));
          s1 = s\<lparr>ed_note := (if note = None then ed_note s else note), ed_prompt := False, ed_paused := False,
                 ed_path := None, ed_result := Some res, ed_syncs := ed_syncs s + 1\<rparr>;
          s2 = trash_originals p send (originals_deleted (ed_settings s1) removed res) s1
      in s2\<lparr>ed_reports := ed_reports s2 @ [email_run_report (ed_settings s2) folderId account removed res],
            ed_phase := DonePhase\<rparr>)"

definition NO_FOLDER :: string where
  "NO_FOLDER = ''Could not create the backup folder. Please try again.''"

text \<open>\<open>folder\<close> is the answer of \<open>ensureEmailBackupFolder\<close>: an error, with a message when it is the
  backend's own, or the folder.\<close>

definition email_handleBackUp ::
  "nat \<Rightarrow> nat \<Rightarrow> provider \<Rightarrow> string \<Rightarrow> string option + email_folder \<Rightarrow> email_env \<Rightarrow> (string \<Rightarrow> thrown + unit)
     \<Rightarrow> (string \<Rightarrow> thrown + unit g_response) \<Rightarrow> cancel_action \<Rightarrow> email_item list \<Rightarrow> email_modal \<Rightarrow> email_modal" where
  "email_handleBackUp quota used p account folder env del send act msgs s =
     (let picked = selectedItems msgs s
      in if picked = [] \<or> over_quota quota used (email_selectedSize msgs s) then s
         else case folder of
                Inl m \<Rightarrow> s\<lparr>ed_uploadError := Some (or_else m NO_FOLDER)\<rparr>
              | Inr f \<Rightarrow>
                  let s0 = s\<lparr>ed_uploadError := None\<rparr>
                  in if es_background (ed_settings s) then s0\<lparr>ed_started := ed_started s @ [(picked, f)]\<rparr>
                     else
                       let dest = (case ef_drive f of None \<Rightarrow> ed_driveId s | Some d \<Rightarrow> Some d);
                           res = backupEmailEntries env picked (ef_id f) (Some account)
                       in finish_email_run p account (ef_id f) del send act res
                            (fold (on_email_progress dest) (er_events res) (begin_email_run (ef_id f) (length picked) s0)))"

text \<open>The button of the run.\<close>

definition email_canBackUp :: "nat \<Rightarrow> nat \<Rightarrow> bool \<Rightarrow> email_item list \<Rightarrow> email_modal \<Rightarrow> bool" where
  "email_canBackUp quota used fetching msgs s \<longleftrightarrow>
     selectedItems msgs s \<noteq> [] \<and> \<not> over_quota quota used (email_selectedSize msgs s)
       \<and> ed_phase s = PickPhase \<and> \<not> fetching"

section \<open>Retry\<close>

definition on_email_retry :: "email_event \<Rightarrow> email_modal \<Rightarrow> email_modal" where
  "on_email_retry e s =
     (case pv_report e of
        None \<Rightarrow> s
      | Some r \<Rightarrow>
          if pv_phase e = PSettled
          then s\<lparr>ed_status := AList.update (ei_id (pv_entry e)) (ir_status r) (ed_status s),
                 ed_errors := retry_error (ei_id (pv_entry e)) r (ed_errors s)\<rparr>
          else s)"

text \<open>The difference is one of numbers in the code; it is never negative, see below.\<close>

definition merge_email_result :: "nat \<Rightarrow> email_result \<Rightarrow> email_result \<Rightarrow> email_result" where
  "merge_email_result bad res prev =
     prev\<lparr>er_uploaded := er_uploaded prev + er_uploaded res, er_duplicates := er_duplicates prev + er_duplicates res,
          er_errors := er_errors prev + er_errors res - bad,
          er_uploadedFileIds := er_uploadedFileIds prev @ er_uploadedFileIds res,
          er_backedUpIds := er_backedUpIds prev @ er_backedUpIds res,
          er_uploadedMessageIds := er_uploadedMessageIds prev @ er_uploadedMessageIds res\<rparr>"

text \<open>No control, so no gate stops a retry.\<close>

definition email_handleRetryFailed ::
  "provider \<Rightarrow> string \<Rightarrow> email_env \<Rightarrow> (string \<Rightarrow> thrown + unit g_response) \<Rightarrow> email_item list \<Rightarrow> email_modal \<Rightarrow> email_modal" where
  "email_handleRetryFailed p account env send msgs s =
     (case truthy (ed_folderId s) of
        None \<Rightarrow> s
      | Some folderId \<Rightarrow>
          let failedIds = marked (ed_status s)
          in if failedIds = [] then s
             else
               let toRetry = filter (\<lambda>m. ei_id m \<in> set failedIds) msgs;
                   res = backupEmailEntries (env\<lparr>ee_gate := \<lambda>_. True\<rparr>) toRetry folderId (Some account);
                   s1 = fold on_email_retry (er_events res) s;
                   s2 = s1\<lparr>ed_result := map_option (merge_email_result (length failedIds) res) (ed_result s1)\<rparr>;
                   s3 = trash_originals p send (originals_deleted (ed_settings s2) 0 res) s2
               in s3\<lparr>ed_reports := ed_reports s3 @ [email_run_report (ed_settings s3) folderId account 0 res]\<rparr>)"

definition email_listData :: "dates \<Rightarrow> email_item list \<Rightarrow> email_modal \<Rightarrow> email_item list" where
  "email_listData dt msgs s = (if ed_phase s = PickPhase then filtered dt msgs s else selectedItems msgs s)"

section \<open>The selection\<close>

text \<open>What is backed up is what the window says: until the user chooses it is everything that has
  arrived, and afterwards nothing joins it; "None" empties it, also behind the filter, and "All" adds the
  rows in view; the rows behind the filter are counted as such, and dropping them leaves the selected
  rows in view.\<close>

lemma ids_filtered: "m \<in> set msgs \<Longrightarrow> passes dt s m \<Longrightarrow> ei_id m \<in> ids_of (filtered dt msgs s)"
  by (auto simp: ids_of_def filtered_def)

theorem email_selection_as_shown:
  "\<not> ed_touched s \<Longrightarrow> selectedItems msgs (arrived msgs s) = msgs"
  "ed_touched s \<Longrightarrow> selectedItems msgs (arrived msgs s) = selectedItems msgs s"
  "allVisibleSelected dt msgs s \<Longrightarrow> selectedItems msgs (toggleAllVisible dt msgs s) = []"
  "\<not> allVisibleSelected dt msgs s \<Longrightarrow> selectedItems msgs (toggleAllVisible dt msgs s)
     = filter (\<lambda>m. ei_id m \<in> ed_selected s \<or> ei_id m \<in> ids_of (filtered dt msgs s)) msgs"
  "hiddenSelected dt msgs (deselectHidden dt msgs s) = []"
  "selectedItems msgs (deselectHidden dt msgs s)
     = filter (\<lambda>m. ei_id m \<in> ids_of (filtered dt msgs s)) (selectedItems msgs s)"
proof -
  have "passes dt (deselectHidden dt msgs s) = passes dt s"
    by (rule ext) (simp add: passes_def deselectHidden_def Let_def)
  then have f: "filtered dt msgs (deselectHidden dt msgs s) = filtered dt msgs s" by (simp add: filtered_def)
  show "selectedItems msgs (deselectHidden dt msgs s)
     = filter (\<lambda>m. ei_id m \<in> ids_of (filtered dt msgs s)) (selectedItems msgs s)"
    by (auto simp: selectedItems_def deselectHidden_def hiddenSelected_def ids_of_def intro!: filter_cong)
  then show "hiddenSelected dt msgs (deselectHidden dt msgs s) = []"
    by (simp add: hiddenSelected_def f filter_empty_conv)
qed (auto simp: selectedItems_def arrived_def toggleAllVisible_def ids_of_def filter_id_conv)

section \<open>The board after a run and its retries\<close>

fun mail_rows :: "email_env \<Rightarrow> string \<Rightarrow> nat \<Rightarrow> email_item list \<Rightarrow> (string \<times> item_outcome) list" where
  "mail_rows env f i [] = []"
| "mail_rows env f i (m # ms) = (ei_id m, email_outcome (email_attempt env f i m)) # mail_rows env f (Suc i) ms"

lemma mail_rows_keys [simp]: "map fst (mail_rows env f i ms) = map ei_id ms"
  by (induction ms arbitrary: i) simp_all

lemma mail_rows_key_set [simp]: "fst ` set (mail_rows env f i ms) = ei_id ` set ms"
  by (metis mail_rows_keys set_map)

lemma report_outcome [simp]: "ir_status (email_report r) = email_outcome r"
  by (simp add: email_report_def email_outcome_def error_report_def split: sum.split)

lemma report_error: "ir_error (email_report r) = None \<or> ir_status (email_report r) = OError"
  by (auto simp: email_report_def error_report_def split: sum.split)

lemma email_step_events [simp]:
  "er_events (email_step env f fn n i m acc) = er_events acc @ email_events fn n i m (email_attempt env f i m)"
  "er_errors (email_step env f fn n i m acc)
     = er_errors acc + (if email_outcome (email_attempt env f i m) = OError then 1 else 0)"
  by (auto simp: email_step_def email_outcome_def Let_def split: sum.split)

lemma progress_mail [simp]:
  "ed_status (fold (on_email_progress dest) (email_events fn n i m r) s) = AList.update (ei_id m) (email_outcome r) (ed_status s)"
  "ed_errors (fold (on_email_progress dest) (email_events fn n i m r) s)
     = put_error (ei_id m) (ir_error (email_report r)) (ed_errors s)"
  by (simp_all add: on_email_progress_def email_events_def Let_def)

lemma retry_mail [simp]:
  "ed_status (fold on_email_retry (email_events fn n i m r) s) = AList.update (ei_id m) (email_outcome r) (ed_status s)"
  "ed_errors (fold on_email_retry (email_events fn n i m r) s) = retry_error (ei_id m) (email_report r) (ed_errors s)"
  by (simp_all add: on_email_retry_def email_events_def)

text \<open>Both event handlers put the outcomes on the board, whatever they do besides.\<close>

lemma steps_board:
  assumes "\<And>i m r s. ed_status (fold h (email_events fn n i m r) s) = AList.update (ei_id m) (email_outcome r) (ed_status s)"
  shows "ed_status (fold h (er_events (erun.steps env f fn n i ms acc)) s)
       = settle_rows (mail_rows env f i ms) (ed_status (fold h (er_events acc) s)) \<and>
     er_errors (erun.steps env f fn n i ms acc) = er_errors acc + length (marked (mail_rows env f i ms))"
  by (induction ms arbitrary: i acc) (simp_all add: assms)

lemma progress_messages_mail:
  "distinct (map ei_id ms) \<Longrightarrow> ei_id ` set ms \<inter> fst ` set (ed_status (fold (on_email_progress dest) (er_events acc) s)) = {} \<Longrightarrow>
   messages_ok (ed_status (fold (on_email_progress dest) (er_events acc) s)) (ed_errors (fold (on_email_progress dest) (er_events acc) s)) \<Longrightarrow>
   messages_ok (ed_status (fold (on_email_progress dest) (er_events (erun.steps env f fn n i ms acc)) s))
     (ed_errors (fold (on_email_progress dest) (er_events (erun.steps env f fn n i ms acc)) s))"
proof (induction ms arbitrary: i acc)
  case (Cons m ms)
  let ?r = "email_report (email_attempt env f i m)" and ?s = "fold (on_email_progress dest) (er_events acc) s"
  have "messages_ok (AList.update (ei_id m) (ir_status ?r) (ed_status ?s)) (put_error (ei_id m) (ir_error ?r) (ed_errors ?s))"
    by (rule messages_put) (use Cons.prems report_error in auto)
  with Cons.prems show ?case
    by (simp only: erun.steps.simps, intro Cons.IH) (auto simp: dom_update)
qed simp

lemma retry_messages_mail:
  "messages_ok (ed_status s) (ed_errors s) \<Longrightarrow>
     messages_ok (ed_status (fold on_email_retry evs s)) (ed_errors (fold on_email_retry evs s))"
  by (induction evs arbitrary: s) (simp_all add: on_email_retry_def messages_retry split: option.split)

lemma retry_keeps [simp]:
  "ed_result (fold on_email_retry evs s) = ed_result s" "ed_folderId (fold on_email_retry evs s) = ed_folderId s"
  by (induction evs arbitrary: s) (simp_all add: on_email_retry_def split: option.split)

lemma progress_keeps [simp]: "ed_folderId (fold (on_email_progress dest) evs s) = ed_folderId s"
  by (induction evs arbitrary: s) (simp_all add: on_email_progress_def Let_def split: option.split)

lemma trash_keeps [simp]:
  "ed_status (trash_originals p send is s) = ed_status s" "ed_errors (trash_originals p send is s) = ed_errors s"
  "ed_result (trash_originals p send is s) = ed_result s" "ed_folderId (trash_originals p send is s) = ed_folderId s"
  by (simp_all add: trash_originals_def)

abbreviation email_passed :: "email_env \<Rightarrow> email_item list \<Rightarrow> nat" where
  "email_passed env ms \<equiv> length (takeWhile (ee_gate env) [0..<length ms])"

lemma run_as_steps:
  "er_events (backupEmailEntries env ms f fn) = er_events (erun.steps env f fn (length ms) 0 (take (email_passed env ms) ms) empty_email_result)"
  "er_errors (backupEmailEntries env ms f fn) = er_errors (erun.steps env f fn (length ms) 0 (take (email_passed env ms) ms) empty_email_result)"
  by (simp_all add: backupEmailEntries_def erun.loop_passed erun.passed_def Let_def cancel_email_def)

lemma run_total:
  "er_uploaded (backupEmailEntries env ms f fn) + er_duplicates (backupEmailEntries env ms f fn)
     + er_errors (backupEmailEntries env ms f fn) = email_passed env ms"
  "length (er_backedUpIds (backupEmailEntries env ms f fn))
     = er_uploaded (backupEmailEntries env ms f fn) + er_duplicates (backupEmailEntries env ms f fn)"
  using email_run_accounts [of env ms f fn] unfolding Let_def by blast+

definition mail_board :: "email_item list \<Rightarrow> nat \<Rightarrow> email_modal \<Rightarrow> bool" where
  "mail_board msgs n s \<longleftrightarrow> messages_ok (ed_status s) (ed_errors s) \<and> fst ` set (ed_status s) \<subseteq> ids_of msgs \<and>
     (\<exists>r. ed_result s = Some r \<and> er_errors r = length (marked (ed_status s)) \<and>
          er_uploaded r + er_duplicates r + er_errors r = n \<and>
          length (er_backedUpIds r) = er_uploaded r + er_duplicates r)"

lemma finish_keeps:
  "ed_status (finish_email_run p account fid del send act res s) = ed_status s"
  "ed_errors (finish_email_run p account fid del send act res s) = ed_errors s"
  "ed_result (finish_email_run p account fid del send act res s) = Some res"
  "ed_folderId (finish_email_run p account fid del send act res s) = ed_folderId s"
  by (simp_all add: finish_email_run_def Let_def)

lemma first_mail_board:
  assumes d: "distinct (map ei_id msgs)" and ne: "selectedItems msgs s \<noteq> []"
    and q: "\<not> over_quota quota used (email_selectedSize msgs s)" and b: "\<not> es_background (ed_settings s)"
    and s1: "s1 = email_handleBackUp quota used p account (Inr f) env del send act msgs s"
  shows "mail_board msgs (email_passed env (selectedItems msgs s)) s1" "ed_folderId s1 = Some (ef_id f)"
proof -
  let ?ms = "selectedItems msgs s" and ?n = "email_passed env (selectedItems msgs s)"
  let ?fn = "Some account" and ?k = "length (selectedItems msgs s)"
  let ?res = "backupEmailEntries env ?ms (ef_id f) ?fn"
  define dest where "dest = (case ef_drive f of None \<Rightarrow> ed_driveId s | Some d \<Rightarrow> Some d)"
  let ?b = "begin_email_run (ef_id f) ?k (s\<lparr>ed_uploadError := None\<rparr>)"
  let ?t = "take ?n ?ms"
  let ?e = "fold (on_email_progress dest) (er_events ?res) ?b"
  have h: "s1 = finish_email_run p account (ef_id f) del send act ?res ?e"
    using ne q b by (simp add: s1 email_handleBackUp_def Let_def dest_def)
  have b0: "ed_status ?b = []" "ed_errors ?b = []" "er_events empty_email_result = []" "er_errors empty_email_result = 0"
    by (simp_all add: begin_email_run_def empty_email_result_def)
  have dt: "distinct (map ei_id ?t)"
    using d by (auto simp: selectedItems_def take_map distinct_map_filter intro!: distinct_take simp flip: take_map)
  note steps = steps_board [where h = "on_email_progress dest" and acc = empty_email_result and s = ?b,
      OF progress_mail(1)]
  have st: "ed_status ?e = settle_rows (mail_rows env (ef_id f) 0 ?t) []"
    and er: "er_errors ?res = length (marked (mail_rows env (ef_id f) 0 ?t))"
    using steps [of env "ef_id f" ?fn ?k 0 ?t] b0 by (simp_all add: run_as_steps)
  have "length (marked (ed_status ?e)) = er_errors ?res"
    using marked_first_run [of "mail_rows env (ef_id f) 0 ?t"] dt by (simp add: st er)
  moreover have "messages_ok (ed_status ?e) (ed_errors ?e)"
    unfolding run_as_steps
    by (rule progress_messages_mail [OF dt]) (simp_all add: b0 messages_ok_def)
  moreover have "fst ` set (ed_status ?e) \<subseteq> ids_of msgs"
  proof -
    have "fst ` set (ed_status ?e) = ei_id ` set ?t"
      by (simp add: st settle_rows_keys)
    then show ?thesis using set_take_subset [of ?n ?ms] by (auto simp: ids_of_def selectedItems_def)
  qed
  ultimately show "mail_board msgs ?n s1"
    using run_total by (simp add: mail_board_def h finish_keeps)
  show "ed_folderId s1 = Some (ef_id f)" by (simp add: h finish_keeps begin_email_run_def)
qed

lemma retry_mail_board:
  assumes d: "distinct (map ei_id msgs)" and b: "mail_board msgs n s"
  shows "mail_board msgs n (email_handleRetryFailed p account env send msgs s)"
    "ed_folderId (email_handleRetryFailed p account env send msgs s) = ed_folderId s"
proof -
  let ?s' = "email_handleRetryFailed p account env send msgs s"
  have "mail_board msgs n ?s' \<and> ed_folderId ?s' = ed_folderId s"
  proof (cases "truthy (ed_folderId s) = None \<or> marked (ed_status s) = []")
    case True
    then have "?s' = s" by (auto simp: email_handleRetryFailed_def Let_def split: option.split)
    with b show ?thesis by simp
  next
    case False
    then obtain fid where fid: "truthy (ed_folderId s) = Some fid" and ne: "marked (ed_status s) \<noteq> []" by auto
    define ms where "ms = filter (\<lambda>m. ei_id m \<in> set (marked (ed_status s))) msgs"
    define env' where "env' = env\<lparr>ee_gate := \<lambda>_. True\<rparr>"
    let ?res = "backupEmailEntries env' ms fid (Some account)"
    let ?e = "fold on_email_retry (er_events ?res) s"
    from b obtain r where r: "ed_result s = Some r" "er_errors r = length (marked (ed_status s))"
        "er_uploaded r + er_duplicates r + er_errors r = n" "length (er_backedUpIds r) = er_uploaded r + er_duplicates r"
      and ok: "messages_ok (ed_status s) (ed_errors s)" and keys: "fst ` set (ed_status s) \<subseteq> ids_of msgs"
      by (auto simp: mail_board_def)
    have ds: "distinct (map fst (ed_status s))" using ok by (simp add: messages_ok_def)
    have dm: "distinct (map ei_id ms)" using d by (simp add: ms_def distinct_map_filter)
    have "set (marked (ed_status s)) \<subseteq> ids_of msgs" using keys by (auto simp: marked_def)
    then have sm: "set (map ei_id ms) = set (marked (ed_status s))" by (auto simp: ms_def ids_of_def)
    have lm: "length ms = length (marked (ed_status s))"
      using distinct_card [OF dm] distinct_card [OF marked_distinct [OF ds]] sm by simp
    have "takeWhile (ee_gate env') [0..<length ms] = [0..<length ms]" by (simp add: env'_def)
    then have n: "email_passed env' ms = length ms" by (simp only: length_upt diff_zero)
    have b0: "er_events empty_email_result = []" "er_errors empty_email_result = 0"
      by (simp_all add: empty_email_result_def)
    have st: "ed_status ?e = settle_rows (mail_rows env' fid 0 ms) (ed_status s)"
      and er: "er_errors ?res = length (marked (mail_rows env' fid 0 ms))"
      using steps_board [where h = on_email_retry and acc = empty_email_result and s = s, OF retry_mail(1),
          of env' fid "Some account" "length ms" 0 ms] b0
      by (simp_all add: run_as_steps n)
    have m: "length (marked (ed_status ?e)) = er_errors ?res"
      using marked_retry [OF ds, of "mail_rows env' fid 0 ms"] dm sm by (simp add: st er)
    have "fst ` set (ed_status ?e) = ei_id ` set ms \<union> fst ` set (ed_status s)"
      by (simp only: st settle_rows_keys mail_rows_key_set)
    then have k: "fst ` set (ed_status ?e) \<subseteq> ids_of msgs"
      using keys by (simp add: ids_of_def ms_def image_subset_iff)
    define s2 where "s2 = ?e\<lparr>ed_result := Some (merge_email_result (length ms) ?res r)\<rparr>"
    have h: "?s' = (trash_originals p send (originals_deleted (ed_settings s2) 0 ?res) s2)\<lparr>ed_reports :=
        ed_reports (trash_originals p send (originals_deleted (ed_settings s2) 0 ?res) s2)
          @ [email_run_report (ed_settings (trash_originals p send (originals_deleted (ed_settings s2) 0 ?res) s2)) fid account 0 ?res]\<rparr>"
      using fid ne r(1) lm by (simp add: email_handleRetryFailed_def Let_def s2_def ms_def env'_def)
    have "er_uploaded ?res + er_duplicates ?res + er_errors ?res = length ms"
      using run_total(1) [of env' ms fid "Some account"] n by simp
    with r lm run_total(2) [of env' ms fid "Some account"] m k retry_messages_mail [OF ok, of "er_events ?res"]
    show ?thesis unfolding h mail_board_def by (simp add: s2_def merge_email_result_def)
  qed
  then show "mail_board msgs n ?s'" "ed_folderId ?s' = ed_folderId s" by auto
qed

text \<open>C10. The board of the window is true to the run: after a run and any number of retries, whatever the
  answers were, the failures that the result shows are the messages marked as failed, the counters add up
  to the messages the run got to, the messages known to be stored are as many as the uploads and
  duplicates, and only failed messages carry an error.\<close>

theorem email_board_true:
  assumes "distinct (map ei_id msgs)" "selectedItems msgs s \<noteq> []"
    and "\<not> over_quota quota used (email_selectedSize msgs s)" "\<not> es_background (ed_settings s)"
    and "s' = foldl (\<lambda>s env. email_handleRetryFailed p account env send msgs s)
           (email_handleBackUp quota used p account (Inr f) env del send act msgs s) envs"
  shows "\<exists>r. ed_result s' = Some r \<and> er_errors r = length (marked (ed_status s'))
    \<and> er_uploaded r + er_duplicates r + er_errors r = email_passed env (selectedItems msgs s)
    \<and> length (er_backedUpIds r) = er_uploaded r + er_duplicates r
    \<and> fst ` set (ed_errors s') \<subseteq> set (marked (ed_status s'))"
proof -
  have "mail_board msgs n (foldl (\<lambda>s env. email_handleRetryFailed p account env send msgs s) x envs)"
    if "mail_board msgs n x" for n x
    using that by (induction envs arbitrary: x) (simp_all add: retry_mail_board(1) [OF assms(1)])
  from this [OF first_mail_board(1) [OF assms(1-4) refl, of env p account f del send act]] show ?thesis
    by (auto simp: assms(5) mail_board_def messages_ok_def)
qed

definition two_messages :: "email_item list" where
  "two_messages = [a_mail Gmail ''m'', a_mail Gmail ''n'']"

definition refused :: email_env where
  "refused = two_mails\<lparr>ee_gate := \<lambda>_. True, ee_post := \<lambda>_ _. Inl (ThrowApi 500 [])\<rparr>"

definition inline_modal :: email_modal where
  "inline_modal = open_modal (\<lambda>k. if k = EMAIL_BG_KEY then Some ''false'' else None) None two_messages"

lemma two_messages_simps:
  "selectedItems two_messages inline_modal = two_messages" "distinct (map ei_id two_messages)"
  "\<not> over_quota 0 0 (email_selectedSize two_messages inline_modal)" "\<not> es_background (ed_settings inline_modal)"
  by (simp_all add: inline_modal_def two_messages_def open_modal_def selectedItems_def ids_of_def a_mail_def over_quota_def
      loadEmailBackupSettings_def)

theorem email_board_true_witness:
  "\<exists>r. ed_result (email_handleRetryFailed Gmail ''me'' refused (\<lambda>_. Inl ThrowOther) two_messages
          (email_handleBackUp 0 0 Gmail ''me'' (Inr \<lparr>ef_id = ''f'', ef_drive = None\<rparr>) refused (\<lambda>_. Inr ())
             (\<lambda>_. Inl ThrowOther) Keep two_messages inline_modal)) = Some r
    \<and> er_uploaded r + er_duplicates r + er_errors r = 2"
proof -
  let ?b = "email_handleBackUp 0 0 Gmail ''me'' (Inr \<lparr>ef_id = ''f'', ef_drive = None\<rparr>) refused (\<lambda>_. Inr ())
             (\<lambda>_. Inl ThrowOther) Keep two_messages inline_modal"
  have "email_handleRetryFailed Gmail ''me'' refused (\<lambda>_. Inl ThrowOther) two_messages ?b
      = foldl (\<lambda>s env. email_handleRetryFailed Gmail ''me'' env (\<lambda>_. Inl ThrowOther) two_messages s) ?b [refused]" by simp
  moreover have "email_passed refused two_messages = 2" by (simp add: refused_def two_messages_def)
  moreover have "two_messages \<noteq> []" by (simp add: two_messages_def)
  ultimately show ?thesis
    using email_board_true [OF two_messages_simps(2), of inline_modal 0 0] two_messages_simps by metis
qed

section \<open>Quota bar and destination\<close>

text \<open>The three parts of the quota bar fit into it, and fill it exactly when the selection does not fit
  into the quota.\<close>

lemma bar_parts:
  fixes q u z :: rat
  assumes "0 < q" "0 \<le> u" "0 \<le> z"
  shows "0 \<le> max 0 (min z (q - u)) / q * 100" "min (u / q * 100) 100 + max 0 (min z (q - u)) / q * 100 \<le> 100"
proof -
  show "0 \<le> max 0 (min z (q - u)) / q * 100" using assms(1) by simp
  show "min (u / q * 100) 100 + max 0 (min z (q - u)) / q * 100 \<le> 100"
  proof (cases "u \<le> q")
    case True
    then have "max 0 (min z (q - u)) \<le> q - u" by simp
    then have "max 0 (min z (q - u)) / q * 100 \<le> (q - u) / q * 100"
      using assms(1) by (intro mult_right_mono divide_right_mono) simp_all
    also have "\<dots> = 100 - u / q * 100" using assms(1) by (simp add: diff_divide_distrib left_diff_distrib)
    finally have "min (u / q * 100) 100 + max 0 (min z (q - u)) / q * 100 \<le> u / q * 100 + (100 - u / q * 100)"
      by (intro add_mono) simp_all
    then show ?thesis by simp
  next
    case False
    then have "max 0 (min z (q - u)) = 0" by (intro max_absorb1) (simp add: min_le_iff_disj)
    then show ?thesis by simp
  qed
qed

theorem quota_bar_fits:
  "0 \<le> usedPct quota used \<and> 0 \<le> fitsPct quota used sz \<and> 0 \<le> overflowPct quota used sz
    \<and> usedPct quota used + fitsPct quota used sz + overflowPct quota used sz \<le> 100
    \<and> (over_quota quota used sz \<longrightarrow> usedPct quota used + fitsPct quota used sz + overflowPct quota used sz = 100)"
proof (cases "0 < quota")
  case True
  then have "0 \<le> usedPct quota used" by (simp add: usedPct_def)
  moreover have "0 \<le> fitsPct quota used sz" "usedPct quota used + fitsPct quota used sz \<le> 100"
    using bar_parts [of "of_nat quota" "of_nat used" "of_nat sz"] True by (simp_all add: usedPct_def fitsPct_def)
  ultimately show ?thesis by (auto simp: overflowPct_def)
next
  case False
  then show ?thesis by (simp add: usedPct_def fitsPct_def overflowPct_def over_quota_def)
qed

text \<open>When both tiers are there, choosing one shows it, with a server of that tier (the primary one if it
  is in the tier), as long as no two servers share a drive id.\<close>

theorem tier_chosen_is_shown:
  assumes "hasBothTiers servers" "distinct (map ms_drive_id servers)"
    and "s' = handleTierChange servers t s"
  shows "tier servers s' = t \<and> (\<exists>v \<in> set (serversInTier servers s'). ed_driveId s' = Some (ms_drive_id v)
    \<and> ((\<exists>w \<in> set (in_tier t servers). ms_is_primary w) \<longrightarrow> ms_is_primary v))"
proof -
  have ne: "in_tier t servers \<noteq> []" using assms(1) by (cases t) (auto simp: hasBothTiers_def)
  obtain v where v: "v \<in> set (in_tier t servers)" "ed_driveId s' = Some (ms_drive_id v)"
      "(\<exists>w \<in> set (in_tier t servers). ms_is_primary w) \<longrightarrow> ms_is_primary v"
  proof (cases "find ms_is_primary (in_tier t servers)")
    case None
    from ne obtain v vs where vs: "in_tier t servers = v # vs" by (cases "in_tier t servers") auto
    have "\<not> (\<exists>w \<in> set (in_tier t servers). ms_is_primary w)" using None by (auto simp: find_None_iff)
    moreover have "ed_driveId s' = Some (ms_drive_id v)" using None vs by (simp add: assms(3) handleTierChange_def Let_def)
    ultimately show ?thesis using that [of v] vs by simp
  next
    case (Some v)
    then have "v \<in> set (in_tier t servers)" "ms_is_primary v"
      by (auto simp: find_Some_iff)
    with Some that show ?thesis by (simp add: assms(3) handleTierChange_def Let_def)
  qed
  have "find (\<lambda>x. Some (ms_drive_id x) = ed_driveId s') servers = Some v"
  proof -
    obtain w where w: "find (\<lambda>x. Some (ms_drive_id x) = ed_driveId s') servers = Some w"
      using v by (cases "find (\<lambda>x. Some (ms_drive_id x) = ed_driveId s') servers")
        (auto simp: find_None_iff in_tier_def)
    then have "w \<in> set servers" "ms_drive_id w = ms_drive_id v" using v(2) by (auto simp: find_Some_iff)
    with v(1) assms(2) have "w = v" by (auto simp: in_tier_def distinct_map dest: inj_onD)
    with w show ?thesis by simp
  qed
  then have "tier servers s' = t" using v(1) by (simp add: tier_def selectedServer_def in_tier_def)
  with v show ?thesis by (auto simp: serversInTier_def)
qed

definition server_of :: "string \<Rightarrow> drive_type \<Rightarrow> bool \<Rightarrow> my_server" where
  "server_of d ty primary = \<lparr>ms_server_id = d, ms_drive_id = d, ms_name = d, ms_state = [], ms_drive_type = ty,
     ms_capacity_bytes = 9, ms_used_bytes = 1, ms_drive_used_pct = 0, ms_quota_bytes = 9, ms_is_primary = primary,
     ms_ping_url = []\<rparr>"

theorem tier_chosen_is_shown_witness:
  "tier [server_of ''a'' Nvme True, server_of ''b'' Hdd False]
     (handleTierChange [server_of ''a'' Nvme True, server_of ''b'' Hdd False] Hdd inline_modal) = Hdd"
  using tier_chosen_is_shown [of "[server_of ''a'' Nvme True, server_of ''b'' Hdd False]" _ Hdd inline_modal, OF _ _ refl]
  by (simp add: hasBothTiers_def in_tier_def server_of_def)

end
