(* ===== verification/SignUp.thy ===== *)
theory SignUp
  imports ApiClient "HOL-Library.Word"
begin

text \<open>
  The registration page, \<open>frontend/src/routes/register.tsx\<close>: the form of the two flows (an invitation
  to an address, or a reserved slot of a group), the probe of the address, the hold on the slot, the
  submission, and which screen the page shows. The page is a step function over what the user does and
  what is answered, in any order. A password is a sequence of UTF-16 units, the way JavaScript sees it.
\<close>

section \<open>Passwords and addresses\<close>

type_synonym utf16 = "16 word list"

definition unit_in :: "nat \<Rightarrow> nat \<Rightarrow> 16 word \<Rightarrow> bool" where
  "unit_in a b c \<longleftrightarrow> a \<le> unat c \<and> unat c \<le> b"

abbreviation upper_unit :: "16 word \<Rightarrow> bool" where "upper_unit \<equiv> unit_in 65 90"
abbreviation lower_unit :: "16 word \<Rightarrow> bool" where "lower_unit \<equiv> unit_in 97 122"
abbreviation digit_unit :: "16 word \<Rightarrow> bool" where "digit_unit \<equiv> unit_in 48 57"

definition PASSWORD_MIN_LENGTH :: nat where "PASSWORD_MIN_LENGTH = 12"

record password_checks =
  pk_length :: bool
  pk_upper :: bool
  pk_lower :: bool
  pk_number :: bool
  pk_symbol :: bool

definition getPasswordChecks :: "utf16 \<Rightarrow> password_checks" where
  "getPasswordChecks p = \<lparr>pk_length = (PASSWORD_MIN_LENGTH \<le> length p), pk_upper = list_ex upper_unit p,
     pk_lower = list_ex lower_unit p, pk_number = list_ex digit_unit p,
     pk_symbol = list_ex (\<lambda>c. \<not> upper_unit c \<and> \<not> lower_unit c \<and> \<not> digit_unit c) p\<rparr>"

definition all_checks :: "password_checks \<Rightarrow> bool" where
  "all_checks k \<longleftrightarrow> pk_length k \<and> pk_upper k \<and> pk_lower k \<and> pk_number k \<and> pk_symbol k"

text \<open>The address format: one \<open>@\<close>, no space, and a dot inside the domain.\<close>

definition no_space_at :: "string \<Rightarrow> bool" where
  "no_space_at s \<longleftrightarrow> s \<noteq> [] \<and> list_all (\<lambda>c. \<not> is_space c \<and> c \<noteq> CHR ''@'') s"

definition email_format :: "string \<Rightarrow> bool" where
  "email_format s =
     (let local = takeWhile (\<lambda>c. c \<noteq> CHR ''@'') s; rest = dropWhile (\<lambda>c. c \<noteq> CHR ''@'') s; domain = drop 1 rest
      in rest \<noteq> [] \<and> no_space_at local \<and> no_space_at domain \<and> CHR ''.'' \<in> set (butlast (drop 1 domain)))"

section \<open>The page\<close>

datatype email_status = EUnknown | EChecking | EOk | ETaken | EInvalid
datatype slot_status = SlotActive | SlotExpired | SlotCompleted

record slot_reservation =
  sr_status :: slot_status
  sr_expires_at :: int      \<comment> \<open>parsed; the code parses it at every tick\<close>
  sr_group_link_id :: string
  sr_premium :: bool

datatype register_call =
    WithInvite string string utf16 string "string option"         \<comment> \<open>name, email, password, token, captcha\<close>
  | WithReservation string string utf16 string "string option"

text \<open>
  \<open>su_probes\<close> are the addresses whose probe is under way, in the order sent; \<open>su_calls\<close> the registrations
  sent; \<open>su_accounts\<close> counts those that succeeded; \<open>su_left\<close> the group page the back button went to.
\<close>

record signup =
  su_token :: string
  su_reservation :: string
  su_invite_email :: "string option"
  su_slot :: "slot_reservation option"
  su_captcha_required :: bool
  su_username :: string
  su_email :: string
  su_password :: utf16
  su_agreed :: bool
  su_error :: "json option"
  su_plan :: bool
  su_registered :: bool
  su_captcha :: "string option"
  su_emailStatus :: email_status
  su_expired :: bool
  su_pending :: bool
  su_auth_loading :: bool
  su_authenticated :: bool
  su_paid :: bool
  su_back_pending :: bool
  su_probes :: "string list"
  su_calls :: "register_call list"
  su_accounts :: nat
  su_left :: "string option"

definition open_signup :: "string \<Rightarrow> string \<Rightarrow> signup" where
  "open_signup token reservation = \<lparr>su_token = token, su_reservation = reservation, su_invite_email = None,
     su_slot = None, su_captcha_required = False, su_username = [], su_email = [], su_password = [],
     su_agreed = False, su_error = None, su_plan = False, su_registered = False, su_captcha = None,
     su_emailStatus = EUnknown, su_expired = False, su_pending = False, su_auth_loading = True,
     su_authenticated = False, su_paid = False, su_back_pending = False, su_probes = [], su_calls = [],
     su_accounts = 0, su_left = None\<rparr>"

definition isReservationFlow :: "signup \<Rightarrow> bool" where
  "isReservationFlow s \<longleftrightarrow> su_token s = [] \<and> su_reservation s \<noteq> []"

subsection \<open>Screens\<close>

datatype screen =
    BadLink | LoadingAuth | AlreadySignedIn | AlreadyCompleted | HoldExpired
  | PremiumIncluded | PremiumUnlocked | PlanChoice | SignUpForm

definition slot_is :: "slot_status \<Rightarrow> signup \<Rightarrow> bool" where
  "slot_is st s \<longleftrightarrow> (case su_slot s of None \<Rightarrow> False | Some r \<Rightarrow> sr_status r = st)"

definition slot_premium :: "signup \<Rightarrow> bool" where
  "slot_premium s \<longleftrightarrow> (case su_slot s of None \<Rightarrow> False | Some r \<Rightarrow> sr_premium r)"

definition screen_of :: "signup \<Rightarrow> screen" where
  "screen_of s =
     (if su_token s = [] \<and> su_reservation s = [] then BadLink
      else if su_auth_loading s then LoadingAuth
      else if su_authenticated s \<and> \<not> su_registered s then AlreadySignedIn
      else if isReservationFlow s \<and> slot_is SlotCompleted s \<and> \<not> su_registered s then AlreadyCompleted
      else if isReservationFlow s \<and> su_expired s \<and> \<not> su_plan s \<and> \<not> su_registered s then HoldExpired
      else if su_plan s then
        (if isReservationFlow s \<and> slot_premium s then PremiumIncluded
         else if su_paid s then PremiumUnlocked else PlanChoice)
      else SignUpForm)"

text \<open>The submit button, and what the browser demands of the fields before it submits the form.\<close>

definition button_enabled :: "signup \<Rightarrow> bool" where
  "button_enabled s \<longleftrightarrow>
     \<not> (su_pending s \<or> \<not> su_agreed s \<or> (su_captcha_required s \<and> su_captcha s = None) \<or>
        (isReservationFlow s \<and> su_emailStatus s \<in> {ETaken, EInvalid, EChecking}))"

definition fields_valid :: "signup \<Rightarrow> bool" where
  "fields_valid s \<longleftrightarrow> su_username s \<noteq> [] \<and> PASSWORD_MIN_LENGTH \<le> length (su_password s) \<and> su_agreed s \<and>
     (isReservationFlow s \<longrightarrow> su_email s \<noteq> [])"

subsection \<open>Steps\<close>

text \<open>What the probe answers: \<open>None\<close> when the request fails.\<close>

datatype signup_event =
    InviteLoaded string | SlotLoaded slot_reservation | SlotFailed | ConfigLoaded bool
  | AuthLoaded bool | TypeName string | TypeEmail string | BlurEmail | ProbeAnswer nat "(bool \<times> bool) option"
  | TypePassword utf16 | Agree bool | CaptchaSolved string | CaptchaGone | Submit
  | Registered | MeRefetched bool | RegisterFailed api_exn | Tick int | PayConfirmed | Back | BackSettled

definition handleEmailBlur :: "signup \<Rightarrow> signup" where
  "handleEmailBlur s =
     (let value = trim (su_email s)
      in if \<not> isReservationFlow s then s
         else if value = [] then s\<lparr>su_emailStatus := EUnknown\<rparr>
         else if \<not> email_format value then s\<lparr>su_emailStatus := EInvalid\<rparr>
         else s\<lparr>su_emailStatus := EChecking, su_probes := su_probes s @ [value]\<rparr>)"

definition remove_nth :: "nat \<Rightarrow> 'a list \<Rightarrow> 'a list" where
  "remove_nth k xs = take k xs @ drop (Suc k) xs"

definition probe_answer :: "nat \<Rightarrow> (bool \<times> bool) option \<Rightarrow> signup \<Rightarrow> signup" where
  "probe_answer k res s =
     s\<lparr>su_probes := remove_nth k (su_probes s),
       su_emailStatus := (case res of
          None \<Rightarrow> EUnknown
        | Some (valid, available) \<Rightarrow> if \<not> valid then EInvalid else if available then EOk else ETaken)\<rparr>"

definition register_request :: "signup \<Rightarrow> register_call" where
  "register_request s =
     (if isReservationFlow s
      then WithReservation (su_username s) (trim (su_email s)) (su_password s) (su_reservation s) (su_captcha s)
      else WithInvite (su_username s) (su_email s) (su_password s) (su_token s) (su_captcha s))"

definition register_onError :: "api_exn \<Rightarrow> signup \<Rightarrow> signup" where
  "register_onError e s =
     (case e of
        ApiError st m b ra \<Rightarrow>
          if st = 410 then s\<lparr>su_expired := True\<rparr>
          else s\<lparr>su_emailStatus := (if st = 409 then ETaken else su_emailStatus s), su_error := Some m, su_captcha := None\<rparr>
      | _ \<Rightarrow> s\<lparr>su_error := Some (JStr ''Registration failed''), su_captcha := None\<rparr>)"

text \<open>The effects of the hold: the clock runs only on an active reservation.\<close>

definition hold_tick :: "int \<Rightarrow> signup \<Rightarrow> signup" where
  "hold_tick now s =
     (case su_slot s of
        None \<Rightarrow> s
      | Some r \<Rightarrow> if isReservationFlow s \<and> sr_status r = SlotActive \<and> sr_expires_at r - now \<le> 0
                  then s\<lparr>su_expired := True\<rparr> else s)"

definition slot_loaded :: "slot_reservation \<Rightarrow> signup \<Rightarrow> signup" where
  "slot_loaded r s =
     s\<lparr>su_slot := Some r, su_expired := (su_expired s \<or> isReservationFlow s \<and> sr_status r = SlotExpired)\<rparr>"

text \<open>Events of a form that is not on the screen, and answers to requests that were not sent, do nothing.\<close>

definition on_form :: "(signup \<Rightarrow> signup) \<Rightarrow> signup \<Rightarrow> signup" where
  "on_form f s = (if screen_of s = SignUpForm then f s else s)"

fun signup_step :: "signup_event \<Rightarrow> signup \<Rightarrow> signup" where
  "signup_step (InviteLoaded e) s =
     (if su_token s = [] then s
      else s\<lparr>su_invite_email := Some e, su_email := (if e = [] then su_email s else e)\<rparr>)"
| "signup_step (SlotLoaded r) s = (if isReservationFlow s then slot_loaded r s else s)"
| "signup_step SlotFailed s = (if isReservationFlow s then s\<lparr>su_expired := True\<rparr> else s)"
| "signup_step (ConfigLoaded b) s = s\<lparr>su_captcha_required := b\<rparr>"
| "signup_step (AuthLoaded b) s = s\<lparr>su_auth_loading := False, su_authenticated := b\<rparr>"
| "signup_step (TypeName n) s = on_form (\<lambda>s. s\<lparr>su_username := n\<rparr>) s"
| "signup_step (TypeEmail e) s =
     on_form (\<lambda>s. if isReservationFlow s then s\<lparr>su_email := e, su_emailStatus := EUnknown\<rparr> else s) s"
| "signup_step BlurEmail s = on_form handleEmailBlur s"
| "signup_step (ProbeAnswer k res) s = (if k < length (su_probes s) then probe_answer k res s else s)"
| "signup_step (TypePassword p) s = on_form (\<lambda>s. s\<lparr>su_password := p\<rparr>) s"
| "signup_step (Agree b) s = on_form (\<lambda>s. s\<lparr>su_agreed := b\<rparr>) s"
| "signup_step (CaptchaSolved t) s = on_form (\<lambda>s. if su_captcha_required s then s\<lparr>su_captcha := Some t\<rparr> else s) s"
| "signup_step CaptchaGone s = s\<lparr>su_captcha := None\<rparr>"
| "signup_step Submit s =
     on_form (\<lambda>s. if button_enabled s \<and> fields_valid s
                  then s\<lparr>su_error := None, su_pending := True, su_calls := su_calls s @ [register_request s]\<rparr>
                  else s) s"
| "signup_step Registered s =
     (if su_pending s \<and> \<not> su_registered s then s\<lparr>su_registered := True, su_accounts := su_accounts s + 1\<rparr> else s)"
| "signup_step (MeRefetched b) s =
     (if su_pending s \<and> su_registered s then s\<lparr>su_authenticated := b, su_plan := True, su_pending := False\<rparr> else s)"
| "signup_step (RegisterFailed e) s =
     (if su_pending s \<and> \<not> su_registered s then (register_onError e s)\<lparr>su_pending := False\<rparr> else s)"
| "signup_step (Tick now) s = hold_tick now s"
| "signup_step PayConfirmed s = (if screen_of s = PlanChoice then s\<lparr>su_paid := True\<rparr> else s)"
| "signup_step Back s =
     on_form (\<lambda>s. if isReservationFlow s \<and> \<not> su_back_pending s \<and> \<not> su_pending s then s\<lparr>su_back_pending := True\<rparr> else s) s"
| "signup_step BackSettled s =
     (if su_back_pending s
      then s\<lparr>su_back_pending := False, su_left := Some (case su_slot s of None \<Rightarrow> [] | Some r \<Rightarrow> sr_group_link_id r)\<rparr>
      else s)"

definition signup_run :: "signup_event list \<Rightarrow> signup \<Rightarrow> signup" where
  "signup_run es s = fold signup_step es s"

section \<open>Properties\<close>

text \<open>What holds of a page on the way.\<close>

definition proper_call :: "string \<Rightarrow> string \<Rightarrow> signup_event set \<Rightarrow> register_call \<Rightarrow> bool" where
  "proper_call token reservation evs c =
     (case c of
        WithInvite n e p tok cap \<Rightarrow> token \<noteq> [] \<and> tok = token \<and> n \<noteq> [] \<and> PASSWORD_MIN_LENGTH \<le> length p \<and>
          (e = [] \<or> InviteLoaded e \<in> evs)
      | WithReservation n e p tok cap \<Rightarrow> token = [] \<and> tok = reservation \<and> n \<noteq> [] \<and> PASSWORD_MIN_LENGTH \<le> length p \<and>
          (\<exists>typed. e = trim typed \<and> TypeEmail typed \<in> evs))"

definition signup_inv :: "string \<Rightarrow> string \<Rightarrow> signup_event set \<Rightarrow> signup \<Rightarrow> bool" where
  "signup_inv token reservation evs s \<longleftrightarrow>
     su_token s = token \<and> su_reservation s = reservation \<and>
     su_accounts s = (if su_registered s then 1 else 0) \<and>
     (su_registered s \<and> \<not> su_plan s \<longrightarrow> su_pending s) \<and> (su_plan s \<longrightarrow> su_registered s) \<and>
     (su_pending s \<or> su_registered s \<longrightarrow> \<not> su_auth_loading s \<and> (token \<noteq> [] \<or> reservation \<noteq> [])) \<and>
     (su_email s \<noteq> [] \<longrightarrow> (if token = [] then TypeEmail (su_email s) \<in> evs else InviteLoaded (su_email s) \<in> evs)) \<and>
     (\<forall>c \<in> set (su_calls s). proper_call token reservation evs c)"

lemma proper_call_mono: "proper_call t r A c \<Longrightarrow> A \<subseteq> B \<Longrightarrow> proper_call t r B c"
  unfolding proper_call_def by (cases c) (simp_all, blast+)

lemma signup_inv_mono: "signup_inv t r A s \<Longrightarrow> A \<subseteq> B \<Longrightarrow> signup_inv t r B s"
  unfolding signup_inv_def using proper_call_mono [of t r A _ B] by (auto split: if_splits)

lemma form_loaded: "screen_of s = SignUpForm \<Longrightarrow> \<not> su_auth_loading s \<and> (su_token s \<noteq> [] \<or> su_reservation s \<noteq> []) \<and> \<not> su_plan s"
  by (auto simp: screen_of_def split: if_splits)

lemma request_proper:
  assumes "signup_inv t r evs s" "fields_valid s" "su_token s \<noteq> [] \<or> su_reservation s \<noteq> []"
  shows "proper_call t r evs (register_request s)"
  using assms by (auto simp: signup_inv_def fields_valid_def proper_call_def register_request_def isReservationFlow_def
      split: if_splits)

lemma submit_inv:
  assumes i: "signup_inv t r evs s"
  shows "signup_inv t r evs (signup_step Submit s)"
proof (cases "screen_of s = SignUpForm \<and> button_enabled s \<and> fields_valid s")
  case True
  note f = form_loaded [OF conjunct1 [OF True]]
  have "proper_call t r evs (register_request s)" using request_proper [OF i] True f by blast
  with True f i show ?thesis by (auto simp: on_form_def signup_inv_def)
next
  case False
  then have "signup_step Submit s = s" by (auto simp: on_form_def)
  with i show ?thesis by simp
qed

lemma signup_step_inv:
  assumes "signup_inv t r evs s"
  shows "signup_inv t r (insert e evs) (signup_step e s)"
proof -
  have i: "signup_inv t r (insert e evs) s" using signup_inv_mono [OF assms] by blast
  show ?thesis
  proof (cases e)
    case Submit
    then show ?thesis using submit_inv [OF i] by simp
  next
    case (RegisterFailed x)
    with i show ?thesis
      by (cases x) (auto simp: signup_inv_def register_onError_def)
  qed (use i in \<open>auto simp: signup_inv_def on_form_def isReservationFlow_def slot_loaded_def handleEmailBlur_def
      probe_answer_def hold_tick_def Let_def split: option.splits if_splits\<close>)
qed

lemma signup_run_inv: "signup_inv t r (set es) (signup_run es (open_signup t r))"
proof (induction es rule: rev_induct)
  case Nil
  then show ?case by (simp add: signup_run_def signup_inv_def open_signup_def)
next
  case (snoc e es)
  with signup_step_inv show ?case by (simp add: signup_run_def)
qed

text \<open>C17. Every registration that the page sends is the one its link stands for: an invitation is redeemed with
  its own token and, unless it has not been loaded yet, for the address it was made out to, which no input
  can change; a reserved slot with its own token, for an address the user typed; with a name, and a
  password of the minimal length.\<close>

theorem registrations_match_link:
  assumes "c \<in> set (su_calls (signup_run es (open_signup token reservation)))"
  shows "case c of
      WithInvite n e p tok cap \<Rightarrow> token \<noteq> [] \<and> tok = token \<and> n \<noteq> [] \<and> PASSWORD_MIN_LENGTH \<le> length p \<and>
        (e = [] \<or> InviteLoaded e \<in> set es)
    | WithReservation n e p tok cap \<Rightarrow> token = [] \<and> tok = reservation \<and> n \<noteq> [] \<and> PASSWORD_MIN_LENGTH \<le> length p \<and>
        (\<exists>typed. e = trim typed \<and> TypeEmail typed \<in> set es)"
  using signup_run_inv [of token reservation es] assms
  by (simp add: signup_inv_def proper_call_def)

definition invited_run :: "signup_event list" where
  "invited_run = [AuthLoaded False, InviteLoaded ''a@b.c'', TypeName ''me'', TypePassword (replicate 12 97), Agree True, Submit]"

lemma invited_run_calls:
  "su_calls (signup_run invited_run (open_signup ''t'' [])) = [WithInvite ''me'' ''a@b.c'' (replicate 12 97) ''t'' None]"
  by (simp add: invited_run_def signup_run_def on_form_def screen_of_def open_signup_def isReservationFlow_def
      button_enabled_def fields_valid_def register_request_def PASSWORD_MIN_LENGTH_def)

theorem registrations_match_link_witness:
  "PASSWORD_MIN_LENGTH \<le> length (replicate 12 (97 :: 16 word)) \<and> InviteLoaded ''a@b.c'' \<in> set invited_run"
  using registrations_match_link [of "WithInvite ''me'' ''a@b.c'' (replicate 12 97) ''t'' None" invited_run "''t''" "[]"]
  by (simp add: invited_run_calls)

text \<open>A page creates at most one account. Once it has, the form cannot be submitted again, and the page
  does not take the new session for that of another account: none of the screens that turn the visitor
  away is shown.\<close>

theorem one_account_per_page:
  "su_accounts (signup_run es (open_signup token reservation)) \<le> 1 \<and>
   (su_accounts (signup_run es (open_signup token reservation)) = 0 \<or>
     screen_of (signup_run es (open_signup token reservation)) \<in> {PremiumIncluded, PremiumUnlocked, PlanChoice} \<or>
     screen_of (signup_run es (open_signup token reservation)) = SignUpForm \<and>
       \<not> button_enabled (signup_run es (open_signup token reservation)))"
  using signup_run_inv [of token reservation es]
  by (auto simp: signup_inv_def screen_of_def button_enabled_def split: if_splits)

text \<open>The answer of a probe is taken for the address in the field, whichever it was asked for: an address
  that was never probed is shown as taken, and the form refuses it, when the probe of the address typed
  before it is answered late.\<close>

definition late_probe :: signup where
  "late_probe = signup_run [AuthLoaded False, TypeEmail ''old@a.b'', BlurEmail, TypeEmail ''new@a.b'',
     ProbeAnswer 0 (Some (True, False))] (open_signup [] ''slot'')"

theorem stale_probe_blocks_form:
  "su_email late_probe = ''new@a.b'' \<and> su_emailStatus late_probe = ETaken \<and> su_probes late_probe = []
    \<and> \<not> button_enabled late_probe"
  by code_simp

text \<open>The page sends passwords that its own checklist rejects: only the length is demanded.\<close>

theorem unchecked_password_is_sent:
  "\<not> all_checks (getPasswordChecks (replicate 12 97)) \<and>
   su_calls (signup_run invited_run (open_signup ''t'' [])) = [WithInvite ''me'' ''a@b.c'' (replicate 12 97) ''t'' None]"
  by (simp add: invited_run_calls all_checks_def getPasswordChecks_def unit_in_def list_ex_iff)

end
