(* ===== verification/SignIn.thy ===== *)
theory SignIn
  imports SignUp FilesPage
begin

text \<open>
  The session of the web application: \<open>frontend/src/auth.tsx\<close>, the guards of the routes, the sign-in and
  reset forms of \<open>routes/login.tsx\<close>, signing out (\<open>routes/_auth.tsx\<close>, \<open>routes/suspended.tsx\<close>,
  \<open>components/AlreadySignedInNotice.tsx\<close>), the expiry of a session (\<open>routes/__root.tsx\<close>),
  impersonation, and the change of the password.
\<close>

section \<open>Session\<close>

text \<open>
  \<open>ws_me\<close> is the cached answer of \<open>GET /me\<close> (\<open>None\<close>: not cached; the answer itself may be \<open>null\<close>),
  \<open>ws_fresh\<close> whether it is younger than its stale time and not invalidated, \<open>ws_shown\<close> the answer the
  mounted components last rendered (a component renders what the cache holds; when the cache drops the
  entry it keeps what it has), \<open>ws_restriction\<close> and \<open>ws_impersonated\<close> the
  entries of the session storage.
\<close>

record web_session =
  ws_me :: "user option option"
  ws_fresh :: bool
  ws_shown :: "user option"
  ws_restriction :: "json option"
  ws_impersonated :: "user option"
  ws_jar :: cookie_jar
  ws_wasAuthenticated :: bool
  ws_notices :: "string list"

definition new_tab :: "cookie_jar \<Rightarrow> web_session" where
  "new_tab jar = \<lparr>ws_me = None, ws_fresh = False, ws_shown = None, ws_restriction = None, ws_impersonated = None, ws_jar = jar,
     ws_wasAuthenticated = False, ws_notices = []\<rparr>"

definition isAuthenticated :: "web_session \<Rightarrow> bool" where
  "isAuthenticated s \<longleftrightarrow> ws_shown s \<noteq> None"

text \<open>The provider renders again.\<close>

definition observe :: "web_session \<Rightarrow> web_session" where
  "observe s = (case ws_me s of None \<Rightarrow> s | Some u \<Rightarrow> s\<lparr>ws_shown := u\<rparr>)"

definition body_error :: "api_exn \<Rightarrow> json option" where
  "body_error e = (case e of ApiError st m b ra \<Rightarrow> (case json_get b ''error'' of Inr v \<Rightarrow> v | Inl _ \<Rightarrow> None) | _ \<Rightarrow> None)"

definition isRestriction :: "api_exn \<Rightarrow> bool" where
  "isRestriction e \<longleftrightarrow>
     (case e of ApiError st m b ra \<Rightarrow> st = 403 \<and> body_error e \<in> {Some (JStr ''banned''), Some (JStr ''suspended'')}
      | _ \<Rightarrow> False)"

definition storeRestriction :: "api_exn \<Rightarrow> web_session \<Rightarrow> web_session" where
  "storeRestriction e s = s\<lparr>ws_restriction := Some (api_body e)\<rparr>"

text \<open>\<open>fetchQuery\<close>: a fresh cached answer, or the answer of the backend.\<close>

definition fetch_me :: "bool \<Rightarrow> api_exn + user \<Rightarrow> web_session \<Rightarrow> (api_exn + user option) \<times> web_session" where
  "fetch_me stale_ok answer s =
     (case ws_me s of
        Some u \<Rightarrow> if stale_ok \<and> ws_fresh s then (Inr u, s)
                 else (case answer of Inl e \<Rightarrow> (Inl e, s) | Inr v \<Rightarrow> (Inr (Some v), s\<lparr>ws_me := Some (Some v), ws_fresh := True\<rparr>))
      | None \<Rightarrow> (case answer of Inl e \<Rightarrow> (Inl e, s) | Inr v \<Rightarrow> (Inr (Some v), s\<lparr>ws_me := Some (Some v), ws_fresh := True\<rparr>)))"

datatype auth_check = Valid bool | CheckBanned | CheckSuspended

definition validateAuth :: "api_exn + user \<Rightarrow> web_session \<Rightarrow> auth_check \<times> web_session" where
  "validateAuth answer s =
     (case fetch_me True answer s of
        (Inr u, s') \<Rightarrow> (Valid (u \<noteq> None), s')
      | (Inl e, s') \<Rightarrow>
          if isRestriction e
          then ((if body_error e = Some (JStr ''banned'') then CheckBanned else CheckSuspended), storeRestriction e s')
          else (Valid False, s'))"

datatype login_result = LoginFail | LoginAdmin | LoginClient | LoginBanned | LoginSuspended

definition restricted_result :: "api_exn \<Rightarrow> login_result" where
  "restricted_result e = (if body_error e = Some (JStr ''banned'') then LoginBanned else LoginSuspended)"

text \<open>Invalidating the entry loads it again for the provider that renders it; a failure only leaves it stale.\<close>

definition invalidate_me :: "api_exn + user \<Rightarrow> web_session \<Rightarrow> web_session" where
  "invalidate_me again s =
     (case again of Inl _ \<Rightarrow> s\<lparr>ws_fresh := False\<rparr> | Inr v \<Rightarrow> s\<lparr>ws_me := Some (Some v), ws_fresh := True\<rparr>)"

text \<open>\<open>ans\<close> is the answer to the credentials, \<open>me\<close> and \<open>again\<close> those to the two loads of \<open>GET /me\<close>.\<close>

definition sign_in :: "api_exn + unit \<Rightarrow> api_exn + user \<Rightarrow> api_exn + user \<Rightarrow> web_session \<Rightarrow> login_result \<times> web_session" where
  "sign_in ans me again s =
     (case ans of
        Inl e \<Rightarrow> if isRestriction e then (restricted_result e, storeRestriction e s) else (LoginFail, s)
      | Inr _ \<Rightarrow>
          (case fetch_me False me s of
             (Inl e, s') \<Rightarrow> if isRestriction e then (restricted_result e, storeRestriction e s') else (LoginFail, s')
           | (Inr u, s') \<Rightarrow>
               ((case u of Some v \<Rightarrow> if us_is_admin v then LoginAdmin else LoginClient | None \<Rightarrow> LoginFail),
                invalidate_me again s')))"

text \<open>Every way of signing out writes \<open>null\<close> for the profile, which the components that show it render at once,
  and then empties the cache.\<close>

definition set_me_null :: "web_session \<Rightarrow> web_session" where
  "set_me_null s = observe (s\<lparr>ws_me := Some None, ws_fresh := True\<rparr>)"

definition clear_queries :: "web_session \<Rightarrow> web_session" where
  "clear_queries s = s\<lparr>ws_me := None, ws_fresh := False\<rparr>"

definition drop_cache :: "web_session \<Rightarrow> web_session" where
  "drop_cache s = clear_queries (set_me_null s)"

text \<open>\<open>logout\<close> of the context: only when the backend has answered.\<close>

definition context_logout :: "api_exn + unit \<Rightarrow> web_session \<Rightarrow> bool \<times> web_session" where
  "context_logout ans s = (case ans of Inr _ \<Rightarrow> (True, drop_cache s) | Inl _ \<Rightarrow> (False, s))"

section \<open>Guards and signing out\<close>

datatype route_target = ToLogin | ToClient | ToSuspended | ToAdminUsers

definition login_beforeLoad :: "api_exn + user \<Rightarrow> web_session \<Rightarrow> route_target option \<times> web_session" where
  "login_beforeLoad answer s =
     (case validateAuth answer s of (r, s') \<Rightarrow> ((if r = Valid True then Some ToClient else None), s'))"

definition auth_beforeLoad :: "api_exn + user \<Rightarrow> web_session \<Rightarrow> route_target option \<times> web_session" where
  "auth_beforeLoad answer s =
     (case validateAuth answer s of
        (r, s') \<Rightarrow> ((case r of Valid True \<Rightarrow> None | Valid False \<Rightarrow> Some ToLogin | _ \<Rightarrow> Some ToSuspended), s'))"

text \<open>The button of the layout: whatever the backend answers.\<close>

definition layout_logout :: "web_session \<Rightarrow> route_target \<times> web_session" where
  "layout_logout s = (ToLogin, drop_cache (s\<lparr>ws_jar := clearSkipDeleteCookie (ws_jar s)\<rparr>))"

definition notice_logout :: "web_session \<Rightarrow> web_session" where
  "notice_logout s = drop_cache (s\<lparr>ws_jar := clearSkipDeleteCookie (ws_jar s)\<rparr>)"

definition suspended_logout :: "web_session \<Rightarrow> route_target \<times> web_session" where
  "suspended_logout s = (ToLogin, drop_cache (s\<lparr>ws_restriction := None\<rparr>))"

definition SESSION_EXPIRED :: string where
  "SESSION_EXPIRED = ''Your session has expired. Please sign in again.''"

text \<open>The effect that notes a session, and the handler of the expiry event.\<close>

definition note_session :: "web_session \<Rightarrow> web_session" where
  "note_session s = (if isAuthenticated s then s\<lparr>ws_wasAuthenticated := True\<rparr> else s)"

definition handleSessionExpired :: "string \<Rightarrow> web_session \<Rightarrow> route_target option \<times> web_session" where
  "handleSessionExpired path s =
     (if \<not> ws_wasAuthenticated s \<or> path = ''/login'' then (None, s)
      else (Some ToLogin, drop_cache (s\<lparr>ws_wasAuthenticated := False, ws_jar := clearSkipDeleteCookie (ws_jar s),
              ws_notices := ws_notices s @ [SESSION_EXPIRED]\<rparr>)))"

definition impersonate :: "user \<Rightarrow> web_session \<Rightarrow> web_session" where
  "impersonate u s = s\<lparr>ws_impersonated := Some u\<rparr>"

definition clearImpersonation :: "web_session \<Rightarrow> web_session" where
  "clearImpersonation s = s\<lparr>ws_impersonated := None\<rparr>"

section \<open>Forms\<close>

definition SOCIAL_ERROR_MESSAGES :: "string \<Rightarrow> string option" where
  "SOCIAL_ERROR_MESSAGES =
     [''access_denied'' \<mapsto> ''Sign-in was cancelled.'',
      ''exchange_failed'' \<mapsto> ''Could not complete sign-in. Please try again.'',
      ''session_failed'' \<mapsto> ''Could not create session. Please try again.'',
      ''missing_code'' \<mapsto> ''Sign-in failed. Please try again.'']"

definition socialErrorMessage :: "string option \<Rightarrow> string option" where
  "socialErrorMessage social_error =
     map_option (\<lambda>e. or_else (SOCIAL_ERROR_MESSAGES e) ''Sign-in failed. Please try again.'') (if social_error = Some [] then None else social_error)"

record sign_in_form =
  sf_error :: "string option"
  sf_pending :: bool

definition BAD_CREDENTIALS :: string where "BAD_CREDENTIALS = ''Invalid username or password''"

definition signin_handleSubmit :: "login_result \<Rightarrow> sign_in_form \<Rightarrow> sign_in_form \<times> route_target option" where
  "signin_handleSubmit r f =
     (case r of
        LoginAdmin \<Rightarrow> (f\<lparr>sf_error := None, sf_pending := False\<rparr>, Some ToAdminUsers)
      | LoginClient \<Rightarrow> (f\<lparr>sf_error := None, sf_pending := False\<rparr>, Some ToClient)
      | _ \<Rightarrow> (f\<lparr>sf_error := Some BAD_CREDENTIALS, sf_pending := False\<rparr>, None))"

definition link_handleSubmit :: "api_exn + unit \<Rightarrow> sign_in_form \<Rightarrow> sign_in_form \<times> route_target option" where
  "link_handleSubmit ans f =
     (case ans of
        Inr _ \<Rightarrow> (f\<lparr>sf_error := None, sf_pending := False\<rparr>, Some ToClient)
      | Inl _ \<Rightarrow> (f\<lparr>sf_error := Some ''Incorrect username or password. Please try again.'', sf_pending := False\<rparr>, None))"

datatype forgot_step = ForgotRequest | ForgotReset | ForgotDone

record forgot_form =
  ff_step :: forgot_step
  ff_email :: string
  ff_token :: string
  ff_new :: utf16
  ff_confirm :: utf16
  ff_error :: "string option"
  ff_calls :: "(string \<times> utf16) list"    \<comment> \<open>\<open>resetPassword\<close>\<close>

definition forgot_handleRequest :: "api_exn + unit \<Rightarrow> forgot_form \<Rightarrow> forgot_form" where
  "forgot_handleRequest ans f =
     (case ans of
        Inr _ \<Rightarrow> f\<lparr>ff_error := None, ff_step := ForgotReset\<rparr>
      | Inl _ \<Rightarrow> f\<lparr>ff_error := Some ''Could not send reset email. Please check the address and try again.''\<rparr>)"

definition forgot_handleReset :: "api_exn + unit \<Rightarrow> forgot_form \<Rightarrow> forgot_form" where
  "forgot_handleReset ans f =
     (if ff_new f \<noteq> ff_confirm f then f\<lparr>ff_error := Some ''Passwords do not match.''\<rparr>
      else let f1 = f\<lparr>ff_error := None, ff_calls := ff_calls f @ [(ff_token f, ff_new f)]\<rparr>
           in case ans of
                Inr _ \<Rightarrow> f1\<lparr>ff_step := ForgotDone\<rparr>
              | Inl _ \<Rightarrow> f1\<lparr>ff_error := Some ''Reset failed. The token may be invalid or expired.''\<rparr>)"

definition forgot_sendAgain :: "forgot_form \<Rightarrow> forgot_form" where
  "forgot_sendAgain f = f\<lparr>ff_step := ForgotRequest, ff_error := None\<rparr>"

section \<open>Changing the password\<close>

text \<open>The page asks for a code by email, then for the code and the passwords.\<close>

record password_page =
  pp_codeSent :: bool
  pp_code :: string
  pp_current :: utf16
  pp_new :: utf16
  pp_confirm :: utf16
  pp_touched :: bool
  pp_error :: "json option"
  pp_done :: bool
  pp_requesting :: bool
  pp_changing :: bool
  pp_calls :: "(utf16 \<times> utf16 \<times> string) list"    \<comment> \<open>\<open>changePassword\<close>\<close>

definition new_password_page :: password_page where
  "new_password_page = \<lparr>pp_codeSent = False, pp_code = [], pp_current = [], pp_new = [], pp_confirm = [],
     pp_touched = False, pp_error = None, pp_done = False, pp_requesting = False, pp_changing = False, pp_calls = []\<rparr>"

definition passwords_match :: "utf16 \<Rightarrow> utf16 \<Rightarrow> bool" where
  "passwords_match new confirm \<longleftrightarrow> 0 < length new \<and> new = confirm"

definition allValid :: "password_page \<Rightarrow> bool" where
  "allValid s \<longleftrightarrow> all_checks (getPasswordChecks (pp_new s)) \<and> passwords_match (pp_new s) (pp_confirm s)"

definition change_enabled :: "password_page \<Rightarrow> bool" where
  "change_enabled s \<longleftrightarrow> \<not> (trim (pp_code s) = [] \<or> pp_current s = [] \<or> \<not> allValid s \<or> pp_changing s)"

definition error_text :: "string \<Rightarrow> api_exn \<Rightarrow> json" where
  "error_text fallback e = (case e of ApiError st m b ra \<Rightarrow> m | _ \<Rightarrow> JStr fallback)"

datatype password_event =
    RequestCode | ResendCode | CodeAnswer "api_exn + unit" | TypeCode string | TypeCurrent utf16 | TypeNew utf16
  | TypeConfirm utf16 | SubmitChange | ChangeAnswer "api_exn + unit"

fun password_step :: "password_event \<Rightarrow> password_page \<Rightarrow> password_page" where
  "password_step RequestCode s =
     (if pp_done s \<or> pp_codeSent s \<or> pp_requesting s then s else s\<lparr>pp_error := None, pp_requesting := True\<rparr>)"
| "password_step ResendCode s =
     (if pp_done s \<or> \<not> pp_codeSent s \<or> pp_requesting s then s else s\<lparr>pp_requesting := True\<rparr>)"
| "password_step (CodeAnswer ans) s =
     (if \<not> pp_requesting s then s
      else case ans of
             Inr _ \<Rightarrow> s\<lparr>pp_requesting := False, pp_codeSent := True, pp_error := None\<rparr>
           | Inl e \<Rightarrow> s\<lparr>pp_requesting := False, pp_error := Some (error_text ''Failed to send code'' e)\<rparr>)"
| "password_step (TypeCode c) s = (if pp_codeSent s \<and> \<not> pp_done s then s\<lparr>pp_code := c, pp_error := None\<rparr> else s)"
| "password_step (TypeCurrent p) s = (if pp_codeSent s \<and> \<not> pp_done s then s\<lparr>pp_current := p, pp_error := None\<rparr> else s)"
| "password_step (TypeNew p) s = (if pp_codeSent s \<and> \<not> pp_done s then s\<lparr>pp_new := p, pp_touched := True\<rparr> else s)"
| "password_step (TypeConfirm p) s = (if pp_codeSent s \<and> \<not> pp_done s then s\<lparr>pp_confirm := p, pp_touched := True\<rparr> else s)"
| "password_step SubmitChange s =
     (if pp_codeSent s \<and> \<not> pp_done s \<and> change_enabled s
      then s\<lparr>pp_error := None, pp_changing := True,
             pp_calls := pp_calls s @ [(pp_current s, pp_new s, trim (pp_code s))]\<rparr> else s)"
| "password_step (ChangeAnswer ans) s =
     (if \<not> pp_changing s then s
      else case ans of
             Inr _ \<Rightarrow> s\<lparr>pp_changing := False, pp_done := True, pp_error := None, pp_current := [], pp_new := [],
                        pp_confirm := [], pp_code := []\<rparr>
           | Inl e \<Rightarrow> s\<lparr>pp_changing := False, pp_error := Some (error_text ''Failed to change password'' e)\<rparr>)"

definition password_run :: "password_event list \<Rightarrow> password_page \<Rightarrow> password_page" where
  "password_run es s = fold password_step es s"

section \<open>Properties\<close>

text \<open>Changing the password needs everything: whatever the user and the backend do, a change is sent only
  with a code that is not blank, after a code was sent, with the current password, and with a new
  password that passes every check; once it is accepted, no password stays on the page.\<close>

definition password_inv :: "password_page \<Rightarrow> bool" where
  "password_inv s \<longleftrightarrow>
     (\<forall>c \<in> set (pp_calls s). fst c \<noteq> [] \<and> all_checks (getPasswordChecks (fst (snd c))) \<and> snd (snd c) \<noteq> []) \<and>
     (pp_calls s \<noteq> [] \<longrightarrow> pp_codeSent s) \<and> (pp_changing s \<longrightarrow> \<not> pp_done s) \<and>
     (pp_done s \<longrightarrow> pp_current s = [] \<and> pp_new s = [] \<and> pp_confirm s = [] \<and> pp_code s = [])"

lemma password_step_inv: "password_inv s \<Longrightarrow> password_inv (password_step e s)"
  by (cases e) (auto simp: password_inv_def change_enabled_def allValid_def split: sum.splits)

lemma password_run_inv: "password_inv (password_run es new_password_page)"
proof (induction es rule: rev_induct)
  case Nil
  then show ?case by (simp add: password_run_def password_inv_def new_password_page_def)
next
  case (snoc e es)
  with password_step_inv show ?case by (simp add: password_run_def)
qed

theorem password_change_needs_everything:
  "let s = password_run es new_password_page
   in list_all (\<lambda>(current, new, code). current \<noteq> [] \<and> all_checks (getPasswordChecks new) \<and> code \<noteq> []) (pp_calls s)
     \<and> (pp_calls s = [] \<or> pp_codeSent s)
     \<and> (\<not> pp_done s \<or> pp_current s = [] \<and> pp_new s = [] \<and> pp_confirm s = [])"
  using password_run_inv [of es] by (auto simp: password_inv_def list_all_iff Let_def)

text \<open>A restricted account is kept out: when the cached profile is not fresh and the backend answers that
  the account is banned or suspended, every guarded page redirects to the page that says so, which finds
  the backend's explanation, and the sign-in page does not redirect.\<close>

theorem restricted_kept_out:
  assumes "isRestriction e" "\<not> ws_fresh s"
  shows "fst (auth_beforeLoad (Inl e) s) = Some ToSuspended
    \<and> ws_restriction (snd (auth_beforeLoad (Inl e) s)) = Some (api_body e)
    \<and> fst (login_beforeLoad (Inl e) s) = None"
  using assms
  by (cases "ws_me s")
     (simp_all add: auth_beforeLoad_def login_beforeLoad_def validateAuth_def fetch_me_def storeRestriction_def)

definition banned_answer :: api_exn where
  "banned_answer = ApiError 403 (JStr ''banned'') (JObj [(''error'', JStr ''banned'')]) None"

lemma banned_restriction: "isRestriction banned_answer"
  by (simp add: isRestriction_def banned_answer_def body_error_def)

theorem restricted_kept_out_witness:
  "fst (auth_beforeLoad (Inl banned_answer) (new_tab [])) = Some ToSuspended"
  using restricted_kept_out [OF banned_restriction, of "new_tab []"] by (simp add: new_tab_def)

lemma drop_cache_simps [simp]:
  "ws_me (drop_cache s) = None" "ws_fresh (drop_cache s) = False" "ws_shown (drop_cache s) = None"
  "ws_impersonated (drop_cache s) = ws_impersonated s"
  by (simp_all add: drop_cache_def clear_queries_def set_me_null_def observe_def)

lemma unknown_asks:
  assumes "ws_me s = None"
  shows "auth_beforeLoad answer s =
    (case answer of Inr u \<Rightarrow> (None, s\<lparr>ws_me := Some (Some u), ws_fresh := True\<rparr>)
     | Inl e \<Rightarrow> if isRestriction e then (Some ToSuspended, storeRestriction e s) else (Some ToLogin, s))"
  using assms by (simp add: auth_beforeLoad_def validateAuth_def fetch_me_def split: sum.split)

text \<open>A visitor who opens one guarded page after the other, the provider rendering in between.\<close>

fun visits :: "(api_exn + user) list \<Rightarrow> web_session \<Rightarrow> route_target option list \<times> web_session" where
  "visits [] s = ([], s)"
| "visits (a # as) s =
     (let v = auth_beforeLoad a s; vs = visits as (observe (snd v)) in (fst v # fst vs, snd vs))"

definition refused_target :: "api_exn \<Rightarrow> route_target" where
  "refused_target e = (if isRestriction e then ToSuspended else ToLogin)"

lemma refused_visits:
  assumes "ws_me s = None"
  shows "fst (visits (map Inl es @ as) s) = map (\<lambda>e. Some (refused_target e)) es
      @ fst (visits as (snd (visits (map Inl es) s)))
    \<and> ws_me (snd (visits (map Inl es) s)) = None \<and> ws_shown (snd (visits (map Inl es) s)) = ws_shown s"
  using assms
proof (induction es arbitrary: s)
  case (Cons e es)
  let ?s1 = "snd (auth_beforeLoad (Inl e) s)"
  from Cons.prems have 1: "auth_beforeLoad (Inl e) s = (Some (refused_target e), ?s1)" "ws_me ?s1 = None"
      "ws_shown ?s1 = ws_shown s" "observe ?s1 = ?s1"
    by (simp_all add: unknown_asks refused_target_def storeRestriction_def observe_def)
  then have "fst (auth_beforeLoad (Inl e) s) = Some (refused_target e)" by (metis fst_conv)
  with Cons.IH [OF 1(2)] 1(2-4) show ?case by (simp add: Let_def)
qed simp

text \<open>C18. Signing out closes the guarded pages. However the session was left (the layout, the notice, the page of
  a restricted account, the context, or its expiry), from then on the guards go by the answers of the
  backend alone: as long as it refuses, every guarded page leads away, to the page of a restricted account
  when the refusal says so and to the sign-in page otherwise, and nothing is shown as signed in; the first
  page it answers with a profile opens, without a redirect. The sign-in page itself lets a refused visitor in.\<close>

theorem signed_out_pages_closed:
  assumes "s' \<in> {snd (layout_logout s), notice_logout s, snd (suspended_logout s), snd (context_logout (Inr ()) s)} \<or>
      ws_wasAuthenticated s \<and> path \<noteq> ''/login'' \<and> s' = snd (handleSessionExpired path s)"
  shows "\<not> isAuthenticated s'
    \<and> fst (visits (map Inl es) s') = map (\<lambda>e. Some (refused_target e)) es
    \<and> \<not> isAuthenticated (snd (visits (map Inl es) s'))
    \<and> fst (visits (map Inl es @ [Inr u]) s') = map (\<lambda>e. Some (refused_target e)) es @ [None]
    \<and> fst (login_beforeLoad (Inl e) (snd (visits (map Inl es) s'))) = None"
proof -
  have "\<exists>t. s' = drop_cache t"
    using assms by (auto simp: layout_logout_def notice_logout_def suspended_logout_def context_logout_def handleSessionExpired_def)
  then obtain t where t: "s' = drop_cache t" ..
  then have me: "ws_me s' = None" by simp
  let ?v = "snd (visits (map Inl es) s')"
  from refused_visits [OF me, of es] have v: "ws_me ?v = None" "ws_shown ?v = None" by (simp_all add: t)
  have "fst (visits [Inr u] ?v) = [None]" by (simp add: unknown_asks [OF v(1)])
  with refused_visits [OF me, of es "[]"] refused_visits [OF me, of es "[Inr u]"] v show ?thesis
    by (simp add: t isAuthenticated_def login_beforeLoad_def validateAuth_def fetch_me_def)
qed

definition signed_in_tab :: web_session where
  "signed_in_tab = (new_tab [])\<lparr>ws_wasAuthenticated := True\<rparr>"

theorem signed_out_pages_closed_witness:
  "fst (visits [Inl TypeError, Inl banned_answer] (snd (handleSessionExpired ''/client'' signed_in_tab)))
    = [Some ToLogin, Some ToSuspended]"
  using signed_out_pages_closed [of "snd (handleSessionExpired ''/client'' signed_in_tab)" signed_in_tab "''/client''"
      "[TypeError, banned_answer]"]
  by (simp add: refused_target_def banned_restriction signed_in_tab_def isRestriction_def [of TypeError])

text \<open>Both steps are needed. Emptying the cache alone leaves the components with the profile they have, and writing
  \<open>null\<close> alone leaves an answer fresh enough for the guard not to ask.\<close>

theorem both_steps_needed:
  "isAuthenticated (clear_queries s) = isAuthenticated s"
  "auth_beforeLoad (Inr u) (set_me_null s) = (Some ToLogin, set_me_null s)"
  by (simp_all add: clear_queries_def isAuthenticated_def set_me_null_def observe_def auth_beforeLoad_def
      validateAuth_def fetch_me_def)

text \<open>A banned user who signs in with the right password is told that the password is wrong, although the
  session has the explanation at hand.\<close>

theorem restricted_told_bad_credentials:
  assumes "isRestriction e"
  shows "fst (signin_handleSubmit (fst (sign_in (Inr ()) (Inl e) again s)) f) = f\<lparr>sf_error := Some BAD_CREDENTIALS, sf_pending := False\<rparr>
    \<and> snd (signin_handleSubmit (fst (sign_in (Inr ()) (Inl e) again s)) f) = None
    \<and> ws_restriction (snd (sign_in (Inr ()) (Inl e) again s)) = Some (api_body e)"
  using assms
  by (cases "ws_me s")
     (simp_all add: sign_in_def fetch_me_def signin_handleSubmit_def restricted_result_def storeRestriction_def)

theorem restricted_told_bad_credentials_witness:
  "sf_error (fst (signin_handleSubmit (fst (sign_in (Inr ()) (Inl banned_answer) (Inl TypeError) (new_tab []))) \<lparr>sf_error = None, sf_pending = True\<rparr>))
     = Some BAD_CREDENTIALS"
  using restricted_told_bad_credentials [OF banned_restriction, of "Inl TypeError" "new_tab []" "\<lparr>sf_error = None, sf_pending = True\<rparr>"] by simp

text \<open>Signing out does not end an impersonation: the next user of the tab still views the files page as
  the user the administrator had chosen.\<close>

theorem impersonation_survives_sign_out:
  "ws_impersonated (snd (layout_logout (impersonate u s))) = Some u
    \<and> ws_impersonated (snd (handleSessionExpired path (impersonate u s))) = Some u
    \<and> ws_impersonated (snd (sign_in ans me again (snd (layout_logout (impersonate u s))))) = Some u"
  by (auto simp: layout_logout_def impersonate_def handleSessionExpired_def sign_in_def fetch_me_def
      invalidate_me_def storeRestriction_def split: sum.splits option.splits)

end
