(* ===== verification/MobileAuth.thy ===== *)
theory MobileAuth
  imports TokenRefresh
begin

text \<open>
  Signing in on the phone: \<open>mobile/src/api/auth.ts\<close> and \<open>mobile/src/api/oidc.ts\<close> (password and
  brokered logins), \<open>mobile/src/context/AuthContext.tsx\<close> (the profile of the session), and the handlers
  of \<open>LoginScreen.tsx\<close> and \<open>RegisterScreen.tsx\<close>. What the backend answers to a body, what the system
  browser returns and which accesses the encrypted storage refuses are parameters. A request goes
  through the interceptors of the client, which may change the stored tokens while it runs (a rotation,
  or a refresh after a 401), so it takes the storage and returns it.
\<close>

section \<open>The session\<close>

text \<open>A rejected request: the status and \<open>response.data.error\<close> when there was a response, and the message.\<close>

record axios_error =
  ax_status :: "nat option"
  ax_error :: "string option"
  ax_message :: string

text \<open>The keys the encrypted storage refuses to write and to remove, and the message of its rejection.\<close>

record storage_faults =
  wf_write :: "string \<Rightarrow> bool"
  wf_remove :: "string \<Rightarrow> bool"
  wf_message :: string

definition storage_error :: "storage_faults \<Rightarrow> axios_error" where
  "storage_error fl = \<lparr>ax_status = None, ax_error = None, ax_message = wf_message fl\<rparr>"

record mobile_session =
  mo_storage :: local_storage
  mo_profile :: "string option"      \<comment> \<open>the user name of the loaded profile\<close>
  mo_isLoading :: bool
  mo_loading :: bool                  \<comment> \<open>of the form\<close>
  mo_alerts :: "(string \<times> string) list"

definition app_start :: "local_storage \<Rightarrow> mobile_session" where
  "app_start st = \<lparr>mo_storage = st, mo_profile = None, mo_isLoading = True, mo_loading = False, mo_alerts = []\<rparr>"

definition mo_isAuthenticated :: "mobile_session \<Rightarrow> bool" where
  "mo_isAuthenticated s \<longleftrightarrow> mo_profile s \<noteq> None"

text \<open>\<open>me\<close> is the answer of \<open>getMe\<close>; the storage may fail to be read.\<close>

definition loadSession :: "bool \<Rightarrow> axios_error + string \<Rightarrow> mobile_session \<Rightarrow> mobile_session" where
  "loadSession readable me s =
     s\<lparr>mo_isLoading := False,
       mo_profile := (if \<not> readable \<or> truthy (fst (getStoredTokens (mo_storage s))) = None then None
                      else case me of Inl _ \<Rightarrow> None | Inr u \<Rightarrow> Some u)\<rparr>"

definition auth_failure :: "mobile_session \<Rightarrow> mobile_session" where
  "auth_failure s = s\<lparr>mo_profile := None\<rparr>"

definition signOut :: "storage_faults \<Rightarrow> mobile_session \<Rightarrow> mobile_session" where
  "signOut fl s = s\<lparr>mo_storage := clearTokens (wf_remove fl) (mo_storage s), mo_profile := None\<rparr>"

definition refreshProfile :: "axios_error + string \<Rightarrow> mobile_session \<Rightarrow> mobile_session" where
  "refreshProfile me s = s\<lparr>mo_profile := (case me of Inl _ \<Rightarrow> None | Inr u \<Rightarrow> Some u)\<rparr>"

section \<open>Requests\<close>

type_synonym token_pair = "string \<times> string"

text \<open>A body is the list of its string fields.\<close>

type_synonym auth_body = "(string \<times> string) list"

definition login_body :: "string \<Rightarrow> string \<Rightarrow> auth_body" where
  "login_body email password = [(''email'', email), (''password'', password)]"

type_synonym 'a post = "auth_body \<Rightarrow> local_storage \<Rightarrow> (axios_error + 'a) \<times> local_storage"

text \<open>The tokens are kept, or the storage throws.\<close>

definition keep_tokens ::
  "storage_faults \<Rightarrow> auth_method \<Rightarrow> token_pair \<Rightarrow> local_storage \<Rightarrow> (axios_error + unit) \<times> local_storage" where
  "keep_tokens fl m tokens st =
     (let stored = storeTokens (wf_write fl) (fst tokens) (snd tokens) (Some m) st
      in (if fst stored then Inr () else Inl (storage_error fl), snd stored))"

definition mobile_login ::
  "storage_faults \<Rightarrow> token_pair post \<Rightarrow> string \<Rightarrow> string \<Rightarrow> local_storage \<Rightarrow> (axios_error + unit) \<times> local_storage" where
  "mobile_login fl send email password st =
     (case send (login_body email password) st of
        (Inl e, st1) \<Rightarrow> (Inl e, st1)
      | (Inr tokens, st1) \<Rightarrow> keep_tokens fl Password tokens st1)"

definition session_body :: "string option \<Rightarrow> auth_body" where
  "session_body inviteToken = (case truthy inviteToken of None \<Rightarrow> [] | Some t \<Rightarrow> [(''invite_token'', t)])"

text \<open>The tokens of the browser are written before the \<open>try\<close> that rolls them back.\<close>

definition loginWithIdp ::
  "storage_faults \<Rightarrow> axios_error + token_pair \<Rightarrow> unit post \<Rightarrow> string option \<Rightarrow> local_storage
     \<Rightarrow> (axios_error + unit) \<times> local_storage" where
  "loginWithIdp fl browser send inviteToken st =
     (case browser of
        Inl e \<Rightarrow> (Inl e, st)
      | Inr tokens \<Rightarrow>
          (case keep_tokens fl Broker tokens st of
             (Inl e, st1) \<Rightarrow> (Inl e, st1)
           | (Inr _, st1) \<Rightarrow>
               (case send (session_body inviteToken) st1 of
                  (Inr _, st2) \<Rightarrow> (Inr (), st2)
                | (Inl e, st2) \<Rightarrow> (Inl e, clearTokens (wf_remove fl) st2))))"

section \<open>Screens\<close>

definition say :: "string \<Rightarrow> string \<Rightarrow> mobile_session \<Rightarrow> mobile_session" where
  "say title msg s = s\<lparr>mo_alerts := mo_alerts s @ [(title, msg)]\<rparr>"

definition handleLogin ::
  "storage_faults \<Rightarrow> token_pair post \<Rightarrow> axios_error + string \<Rightarrow> string \<Rightarrow> string \<Rightarrow> mobile_session \<Rightarrow> mobile_session" where
  "handleLogin fl send me email password s =
     (if trim email = [] \<or> password = [] then s
      else case mobile_login fl send (trim email) password (mo_storage s) of
             (Inl e, st) \<Rightarrow>
               (say ''Login failed'' ''Invalid email or password.'' (s\<lparr>mo_storage := st\<rparr>))\<lparr>mo_loading := False\<rparr>
           | (Inr _, st) \<Rightarrow> (refreshProfile me (s\<lparr>mo_storage := st\<rparr>))\<lparr>mo_loading := False\<rparr>)"

definition was_cancelled :: "axios_error \<Rightarrow> bool" where
  "was_cancelled e = has_part ''cancel'' (to_lower (ax_message e))"

text \<open>The brokered sign-in of the login screen; \<open>name\<close> is the provider's name.\<close>

definition idp_signIn ::
  "storage_faults \<Rightarrow> string \<Rightarrow> axios_error + token_pair \<Rightarrow> unit post \<Rightarrow> axios_error + string \<Rightarrow> mobile_session \<Rightarrow> mobile_session" where
  "idp_signIn fl name browser send me s =
     (case loginWithIdp fl browser send None (mo_storage s) of
        (Inr _, st) \<Rightarrow> refreshProfile me (s\<lparr>mo_storage := st\<rparr>)
      | (Inl e, st) \<Rightarrow>
          let s1 = s\<lparr>mo_storage := st\<rparr>
          in if was_cancelled e then s1
             else if ax_status e = Some 403
             then say ''No account yet'' (''Sign up with your invitation code first, then sign in with '' @ name @ ''.'') s1
             else say (name @ '' sign-in failed'') (ax_message e) s1)"

definition register_body :: "string \<Rightarrow> string \<Rightarrow> string \<Rightarrow> string \<Rightarrow> auth_body" where
  "register_body username email password inviteToken =
     [(''username'', trim username), (''email'', trim email), (''password'', password), (''invite_token'', trim inviteToken)]"

text \<open>The login that follows the registration.\<close>

definition first_login_body :: "string \<Rightarrow> string \<Rightarrow> auth_body" where
  "first_login_body username password = [(''username'', trim username), (''password'', password)]"

definition handleRegister ::
  "storage_faults \<Rightarrow> unit post \<Rightarrow> token_pair post \<Rightarrow> axios_error + string
     \<Rightarrow> string \<Rightarrow> string \<Rightarrow> string \<Rightarrow> string \<Rightarrow> mobile_session \<Rightarrow> mobile_session" where
  "handleRegister fl sendRegister sendLogin me username email password inviteToken s =
     (if trim username = [] \<or> trim email = [] \<or> password = [] \<or> trim inviteToken = []
      then say ''Missing fields'' ''All fields including the invite token are required.'' s
      else
        let failed_with = (\<lambda>e st. (say ''Registration failed'' (or_else (ax_error e) (ax_message e))
              (s\<lparr>mo_storage := st\<rparr>))\<lparr>mo_loading := False\<rparr>)
        in case sendRegister (register_body username email password inviteToken) (mo_storage s) of
             (Inl e, st) \<Rightarrow> failed_with e st
           | (Inr _, st) \<Rightarrow>
               (case sendLogin (first_login_body username password) st of
                  (Inl e, st1) \<Rightarrow> failed_with e st1
                | (Inr tokens, st1) \<Rightarrow>
                    (case keep_tokens fl Password tokens st1 of
                       (Inl e, st2) \<Rightarrow> failed_with e st2
                     | (Inr _, st2) \<Rightarrow> (refreshProfile me (s\<lparr>mo_storage := st2\<rparr>))\<lparr>mo_loading := False\<rparr>)))"

definition idp_signUp ::
  "storage_faults \<Rightarrow> string \<Rightarrow> axios_error + token_pair \<Rightarrow> unit post \<Rightarrow> axios_error + string \<Rightarrow> string
     \<Rightarrow> mobile_session \<Rightarrow> mobile_session" where
  "idp_signUp fl name browser send me inviteToken s =
     (if trim inviteToken = []
      then say ''Invitation required'' (''Enter your invitation code before signing up with '' @ name @ ''.'') s
      else case loginWithIdp fl browser send (Some (trim inviteToken)) (mo_storage s) of
             (Inr _, st) \<Rightarrow> refreshProfile me (s\<lparr>mo_storage := st\<rparr>)
           | (Inl e, st) \<Rightarrow>
               let s1 = s\<lparr>mo_storage := st\<rparr>
               in if was_cancelled e then s1
                  else say ''Sign-up failed''
                    (if ax_status e = Some 403 then ''That invitation is invalid, expired, or for a different email.''
                     else or_else (ax_error e) (ax_message e)) s1)"

section \<open>Properties\<close>

lemmas token_defs = storeTokens_def clearTokens_def set_item_def remove_item_def getStoredTokens_def getAuthMethod_def
  method_name_def STORE_KEY_ACCESS_def STORE_KEY_REFRESH_def STORE_KEY_METHOD_def

definition session_keys :: "string list" where
  "session_keys = [STORE_KEY_ACCESS, STORE_KEY_REFRESH, STORE_KEY_METHOD]"

lemma stored_pair: "fst (storeTokens fails a r (Some m) st) \<Longrightarrow>
    getStoredTokens (snd (storeTokens fails a r (Some m) st)) = (Some a, Some r)
    \<and> getAuthMethod (snd (storeTokens fails a r (Some m) st)) = m"
  by (cases m) (auto simp: token_defs Let_def)

lemma cleared_keys: "k \<in> set session_keys \<Longrightarrow> clearTokens fails st k = (if fails k then st k else None)"
  by (auto simp: session_keys_def token_defs)

lemma all_cleared: "list_all (\<lambda>k. \<not> fails k) session_keys \<Longrightarrow>
    getStoredTokens (clearTokens fails st) = (None, None) \<and> request_headers (clearTokens fails st) = []"
  by (simp add: session_keys_def token_defs request_headers_def truthy_def)

text \<open>C19. A brokered login is all or nothing as far as the storage lets it. When it returns, the tokens of the
  browser were all written, to be refreshed through the broker, before the provisioning request was sent,
  that request was accepted, and the storage is as it left it. When it throws there are three cases: the
  browser gave nothing and the storage is untouched; a write was refused, so nothing was sent and exactly
  the other keys hold the new values; or the provisioning was refused with that very error, and of the
  tokens, those the request itself rotated included, only keys whose removal the storage refused are
  left. So with a storage that refuses nothing, a login that throws changes nothing or leaves no token,
  and the next request carries none.\<close>

theorem idp_login_all_or_nothing:
  "case loginWithIdp fl browser send inviteToken st of
     (Inr _, st') \<Rightarrow> \<exists>a r st1. browser = Inr (a, r) \<and> storeTokens (wf_write fl) a r (Some Broker) st = (True, st1)
        \<and> getStoredTokens st1 = (Some a, Some r) \<and> getAuthMethod st1 = Broker
        \<and> send (session_body inviteToken) st1 = (Inr (), st')
   | (Inl e, st') \<Rightarrow>
        (browser = Inl e \<and> st' = st)
      \<or> (\<exists>a r. browser = Inr (a, r) \<and> list_ex (wf_write fl) session_keys \<and> e = storage_error fl
          \<and> st' = set_item (wf_write fl) STORE_KEY_METHOD ''broker'' (set_item (wf_write fl) STORE_KEY_REFRESH r
                (set_item (wf_write fl) STORE_KEY_ACCESS a st)))
      \<or> (\<exists>a r st1 st2. browser = Inr (a, r) \<and> storeTokens (wf_write fl) a r (Some Broker) st = (True, st1)
          \<and> send (session_body inviteToken) st1 = (Inl e, st2)
          \<and> (\<forall>k \<in> set session_keys. st' k = (if wf_remove fl k then st2 k else None))
          \<and> (list_all (\<lambda>k. \<not> wf_remove fl k) session_keys \<longrightarrow> getStoredTokens st' = (None, None) \<and> request_headers st' = []))"
proof (cases browser)
  case (Inl e)
  then show ?thesis by (simp add: loginWithIdp_def)
next
  case (Inr p)
  obtain a r where p: "p = (a, r)" by fastforce
  obtain ok st1 where st1: "storeTokens (wf_write fl) a r (Some Broker) st = (ok, st1)" by fastforce
  show ?thesis
  proof (cases ok)
    case False
    with st1 have "list_ex (wf_write fl) session_keys"
      "st1 = set_item (wf_write fl) STORE_KEY_METHOD ''broker'' (set_item (wf_write fl) STORE_KEY_REFRESH r
                (set_item (wf_write fl) STORE_KEY_ACCESS a st))"
      by (auto simp: storeTokens_def session_keys_def method_name_def Let_def)
    with Inr p st1 False show ?thesis by (simp add: loginWithIdp_def keep_tokens_def Let_def)
  next
    case True
    with st1 stored_pair [of "wf_write fl" a r Broker st]
    have pair: "getStoredTokens st1 = (Some a, Some r)" "getAuthMethod st1 = Broker" by simp_all
    obtain x st2 where x: "send (session_body inviteToken) st1 = (x, st2)" by fastforce
    with Inr p st1 True have run: "loginWithIdp fl browser send inviteToken st =
        (case x of Inr _ \<Rightarrow> (Inr (), st2) | Inl e \<Rightarrow> (Inl e, clearTokens (wf_remove fl) st2))"
      by (simp add: loginWithIdp_def keep_tokens_def Let_def)
    show ?thesis
    proof (cases x)
      case (Inr u)
      with run p \<open>browser = Inr p\<close> st1 True x pair show ?thesis by simp
    next
      case (Inl e)
      with run p \<open>browser = Inr p\<close> st1 True x cleared_keys [of _ "wf_remove fl" st2] all_cleared [of "wf_remove fl" st2]
      show ?thesis by auto
    qed
  qed
qed

definition healthy :: storage_faults where
  "healthy = \<lparr>wf_write = \<lambda>k. False, wf_remove = \<lambda>k. False, wf_message = []\<rparr>"

definition refusal :: axios_error where
  "refusal = \<lparr>ax_status = Some 403, ax_error = Some ''invitation required'', ax_message = ''403''\<rparr>"

definition refusing :: "unit post" where
  "refusing body st = (Inl refusal, st)"

theorem idp_login_all_or_nothing_witness:
  "case loginWithIdp healthy (Inr (''a'', ''r'')) refusing None Map.empty of
     (Inr _, st) \<Rightarrow> False
   | (Inl e, st) \<Rightarrow> e = refusal \<and> getStoredTokens st = (None, None)"
  using idp_login_all_or_nothing [where fl = healthy and browser = "Inr (''a'', ''r'')" and send = refusing
      and inviteToken = None and st = Map.empty]
  by (auto simp: healthy_def refusing_def session_keys_def split: sum.splits)

text \<open>A login of which one write fails throws, and is not rolled back: the access token stays, so the next start of
  the app is signed in with it, although the account was never provisioned.\<close>

theorem half_stored_login_stays:
  assumes "wf_write fl STORE_KEY_METHOD" "\<not> wf_write fl STORE_KEY_ACCESS" "a \<noteq> []"
  shows "\<exists>e st'. loginWithIdp fl (Inr (a, r)) send inviteToken st = (Inl e, st')
    \<and> mo_isAuthenticated (loadSession True (Inr u) (app_start st'))"
  using assms
  by (auto simp: loginWithIdp_def keep_tokens_def token_defs loadSession_def app_start_def mo_isAuthenticated_def
      truthy_def Let_def)

text \<open>And a sign-out whose removal fails is a sign-out until the next start only.\<close>

theorem unremoved_tokens_sign_in_again:
  assumes "wf_remove fl STORE_KEY_ACCESS" "truthy (mo_storage s STORE_KEY_ACCESS) \<noteq> None"
  shows "\<not> mo_isAuthenticated (signOut fl s)
    \<and> mo_isAuthenticated (loadSession True (Inr u) (app_start (mo_storage (signOut fl s))))"
  using assms
  by (auto simp: signOut_def token_defs loadSession_def app_start_def mo_isAuthenticated_def)

text \<open>The registration of the phone never signs the user in, since the backend demands an address in the
  body of a login (\<open>api/routes/auth/mobile.go\<close>) and the body carries the user name instead: the account
  may exist, and still the user reads that the registration failed, and no token is stored.\<close>

theorem mobile_register_never_signs_in:
  assumes "\<And>body st. map_of body ''email'' = None \<Longrightarrow> sendLogin body st = (Inl e, st)"
    and "\<And>body st. snd (sendRegister body st) = st"
  shows "mo_storage (handleRegister fl sendRegister sendLogin me username email password inviteToken s) = mo_storage s
    \<and> mo_profile (handleRegister fl sendRegister sendLogin me username email password inviteToken s) = mo_profile s
    \<and> length (mo_alerts (handleRegister fl sendRegister sendLogin me username email password inviteToken s)) = length (mo_alerts s) + 1"
proof -
  obtain x where x: "sendRegister (register_body username email password inviteToken) (mo_storage s) = (x, mo_storage s)"
    using assms(2) by (metis prod.collapse)
  have "sendLogin (first_login_body username password) (mo_storage s) = (Inl e, mo_storage s)"
    using assms(1) by (simp add: first_login_body_def)
  with x show ?thesis by (cases x) (simp_all add: handleRegister_def say_def Let_def)
qed

definition accepting :: "unit post" where
  "accepting body st = (Inr (), st)"

definition strict_login :: "token_pair post" where
  "strict_login body st =
     (if map_of body ''email'' = None \<or> map_of body ''password'' = None
      then Inl \<lparr>ax_status = Some 400, ax_error = Some ''email and password are required'', ax_message = ''400''\<rparr>
      else Inr (''access'', ''refresh''), st)"

theorem mobile_register_never_signs_in_witness:
  "mo_storage (handleRegister healthy accepting strict_login (Inr ''me'') ''me'' ''me@a.b'' ''pw'' ''tok'' (app_start Map.empty)) = Map.empty"
  using mobile_register_never_signs_in [of strict_login _ accepting healthy "Inr ''me''" "''me''" "''me@a.b''" "''pw''" "''tok''"
      "app_start Map.empty"]
  by (simp add: strict_login_def accepting_def app_start_def)

text \<open>Nor does the registration pass a backend that demands the answer to the captcha
  (\<open>api/routes/auth/register.go\<close>): the phone sends none, so no account is created either.\<close>

theorem mobile_register_sends_no_captcha:
  assumes "\<And>body st. map_of body ''captcha_token'' = None \<Longrightarrow> fst (sendRegister body st) = Inl e"
    and "trim username \<noteq> []" "trim email \<noteq> []" "password \<noteq> []" "trim inviteToken \<noteq> []"
  shows "mo_alerts (handleRegister fl sendRegister sendLogin me username email password inviteToken s)
    = mo_alerts s @ [(''Registration failed'', or_else (ax_error e) (ax_message e))]"
proof -
  have "fst (sendRegister (register_body username email password inviteToken) (mo_storage s)) = Inl e"
    using assms(1) by (simp add: register_body_def)
  then obtain st where "sendRegister (register_body username email password inviteToken) (mo_storage s) = (Inl e, st)"
    by (metis prod.collapse)
  with assms(2-) show ?thesis by (simp add: handleRegister_def say_def Let_def)
qed

definition captcha_backend :: "unit post" where
  "captcha_backend body st = (if map_of body ''captcha_token'' = None then Inl refusal else Inr (), st)"

theorem mobile_register_sends_no_captcha_witness:
  "mo_alerts (handleRegister healthy captcha_backend
     strict_login (Inr ''me'') ''me'' ''me@a.b'' ''pw'' ''tok'' (app_start Map.empty)) =
       [(''Registration failed'', ''invitation required'')]"
  using mobile_register_sends_no_captcha [of captcha_backend refusal "''me''" "''me@a.b''" "''pw''" "''tok''" healthy strict_login
     "Inr ''me''" "app_start Map.empty"]
  by (simp add: app_start_def trim_def is_space_def captcha_backend_def refusal_def)

text \<open>The app is signed in only with a profile the backend gave: after a start without a stored token, a
  sign-out or a failed refresh it is not, and after a sign-out whose removals succeed no request carries a
  token.\<close>

theorem signed_in_needs_profile:
  "\<not> mo_isAuthenticated (signOut fl s) \<and> \<not> mo_isAuthenticated (auth_failure s) \<and>
   (mo_isAuthenticated (loadSession readable me s) \<longleftrightarrow>
      readable \<and> truthy (mo_storage s STORE_KEY_ACCESS) \<noteq> None \<and> (\<exists>u. me = Inr u)) \<and>
   (list_all (\<lambda>k. \<not> wf_remove fl k) session_keys \<longrightarrow> request_headers (mo_storage (signOut fl s)) = [])"
  using all_cleared [of "wf_remove fl" "mo_storage s"]
  by (auto simp: signOut_def auth_failure_def loadSession_def mo_isAuthenticated_def getStoredTokens_def split: sum.split)

end
