(* ===== verification/Decimals.thy ===== *)
theory Decimals
  imports JsNumber
begin

text \<open>
  Decimal fractions: \<open>toFixed\<close> and the rendering \<open>String(x)\<close> of a multiple of one hundredth, with
  what \<open>parseFloat\<close> makes of them.
\<close>

text \<open>\<open>toFixed(n)\<close> of a number that is not negative: the nearest multiple, the larger one of two.\<close>

definition pad_digits :: "nat \<Rightarrow> string \<Rightarrow> string" where
  "pad_digits n s = replicate (n - length s) (CHR ''0'') @ s"

definition to_fixed :: "nat \<Rightarrow> rat \<Rightarrow> string" where
  "to_fixed n x =
     (let m = nat \<lfloor>x * 10 ^ n + 1 / 2\<rfloor>
      in if n = 0 then show_nat m
         else show_nat (m div 10 ^ n) @ ''.'' @ pad_digits n (show_nat (m mod 10 ^ n)))"

lemma to_fixed_cents:
  "to_fixed 2 (of_nat n / 100) = show_nat (n div 100) @ ''.'' @ pad_digits 2 (show_nat (n mod 100))"
proof -
  have "\<lfloor>of_nat n / 100 * 10 ^ 2 + 1 / 2 :: rat\<rfloor> = int n"
    by (rule floor_unique) simp_all
  then show ?thesis by (simp add: to_fixed_def)
qed

text \<open>\<open>String(m / 100)\<close>\<close>

definition show_hundredths :: "nat \<Rightarrow> string" where
  "show_hundredths m =
     (if m mod 100 = 0 then show_nat (m div 100)
      else if m mod 10 = 0 then show_nat (m div 100) @ ''.'' @ show_nat (m mod 100 div 10)
      else show_nat (m div 100) @ ''.'' @ pad_digits 2 (show_nat (m mod 100)))"

section \<open>Reading back\<close>

lemma digits_val_append: "digits_val (ds @ es) = digits_val ds * 10 ^ length es + digits_val es"
proof (induction es rule: rev_induct)
  case Nil
  then show ?case by (simp add: digits_val_def)
next
  case (snoc c es)
  then show ?case by (simp only: append_assoc [symmetric] digits_val_snoc) (simp add: algebra_simps)
qed

lemma digits_val_zeros: "digits_val (replicate n (CHR ''0'')) = 0"
  by (induction n) (simp_all add: replicate_append_same [symmetric] digits_val_snoc digit_val_def digits_val_def [of "[]"])

lemma pad_digits_facts:
  "length s \<le> n \<Longrightarrow> length (pad_digits n s) = n" "digits_val (pad_digits n s) = digits_val s"
  "\<forall>c \<in> set s. is_digit c \<Longrightarrow> \<forall>c \<in> set (pad_digits n s). is_digit c"
  by (auto simp: pad_digits_def digits_val_append digits_val_zeros is_digit_def)

lemma show_nat_short: "n < 100 \<Longrightarrow> length (show_nat n) \<le> 2"
proof -
  assume "n < 100"
  then have "n div 10 < 10" by simp
  then show ?thesis using show_nat.simps [of n] show_nat.simps [of "n div 10"] by (cases "n < 10") simp_all
qed

lemma scan_unsigned_decimal:
  assumes "\<forall>c \<in> set ds. is_digit c" "\<forall>c \<in> set fs. is_digit c" "ds \<noteq> []" "fs \<noteq> []"
  shows "scan_unsigned (ds @ ''.'' @ fs) = Some (of_nat (digits_val (ds @ fs)) / 10 ^ length fs, [])"
proof -
  have d: "\<not> is_digit (CHR ''.'')" by (simp add: is_digit_def)
  have "takeWhile is_digit (ds @ ''.'' @ fs) = ds" "dropWhile is_digit (ds @ ''.'' @ fs) = ''.'' @ fs"
    using assms(1) d by (simp_all add: takeWhile_append2 dropWhile_append2)
  then show ?thesis
    using assms by (simp add: scan_unsigned_def takeWhile_digits dropWhile_digits scan_exponent_def scale10_def)
qed

lemma parseFloat_decimal:
  assumes "\<forall>c \<in> set ds. is_digit c" "\<forall>c \<in> set fs. is_digit c" "ds \<noteq> []" "fs \<noteq> []"
  shows "parseFloat (ds @ ''.'' @ fs) = Fin (of_nat (digits_val (ds @ fs)) / 10 ^ length fs)"
proof -
  from assms(1,3) obtain c cs where s: "ds = c # cs" "is_digit c" by (cases ds) auto
  then have "dropWhile is_space (ds @ ''.'' @ fs) = ds @ ''.'' @ fs" by (simp add: digit_facts)
  moreover have "scan_signed (ds @ ''.'' @ fs) = Some (Fin (of_nat (digits_val (ds @ fs)) / 10 ^ length fs), [])"
  proof -
    from s have "\<not> starts_with ''Infinity'' (ds @ ''.'' @ fs)" by (auto simp: starts_with_def digit_facts)
    with s scan_unsigned_decimal [OF assms] show ?thesis by (simp add: scan_signed_def digit_facts)
  qed
  ultimately show ?thesis by (simp add: parseFloat_def)
qed

lemma parseFloat_show_nat: "parseFloat (show_nat n) = Fin (of_nat n)"
proof -
  note digits = show_nat_digits [of n] show_nat_nonempty [of n]
  then obtain c cs where "show_nat n = c # cs" "is_digit c" by (cases "show_nat n") auto
  then have "dropWhile is_space (show_nat n) = show_nat n" by (simp add: digit_facts)
  with scan_signed_digits [OF digits] show ?thesis by (simp add: parseFloat_def digits_val_show_nat)
qed

lemma parseFloat_hundredth_digits:
  "parseFloat (show_nat (m div 100) @ ''.'' @ pad_digits 2 (show_nat (m mod 100))) = Fin (of_nat m / 100)"
proof -
  let ?fs = "pad_digits 2 (show_nat (m mod 100))"
  have l: "length ?fs = 2" by (simp add: pad_digits_facts show_nat_short)
  then have ne: "?fs \<noteq> []" by auto
  have "digits_val (show_nat (m div 100) @ ?fs) = m"
    by (simp add: digits_val_append l digits_val_show_nat pad_digits_facts)
  with parseFloat_decimal [OF show_nat_digits pad_digits_facts(3) [OF show_nat_digits] show_nat_nonempty ne]
  show ?thesis by (simp add: l)
qed

lemma parseFloat_to_fixed: "parseFloat (to_fixed 2 (of_nat n / 100)) = Fin (of_nat n / 100)"
  by (simp only: to_fixed_cents parseFloat_hundredth_digits)

lemma parseFloat_show_hundredths: "parseFloat (show_hundredths m) = Fin (of_nat m / 100)"
proof -
  consider "m mod 100 = 0" | "m mod 100 \<noteq> 0" "m mod 10 = 0" | "m mod 10 \<noteq> 0" "m mod 100 \<noteq> 0" by auto
  then show ?thesis
  proof cases
    case 1
    then obtain k where "m = 100 * k" by (auto simp: mod_eq_0_iff_dvd elim: dvdE)
    then show ?thesis by (simp add: show_hundredths_def parseFloat_show_nat)
  next
    case 2
    then obtain k where k: "m = 10 * k" by (auto simp: mod_eq_0_iff_dvd elim: dvdE)
    have kk: "m mod 100 div 10 = k mod 10" "m div 100 = k div 10"
      using k by (simp_all add: mult_mod_right [of 10 k 10, simplified, symmetric] div_mult2_eq [of "10 * k" 10 10, simplified])
    have l: "length (show_nat (k mod 10)) = 1" by (subst show_nat.simps) simp
    have "digits_val (show_nat (k div 10) @ show_nat (k mod 10)) = k"
      by (simp add: digits_val_append l digits_val_show_nat)
    with parseFloat_decimal [OF show_nat_digits show_nat_digits show_nat_nonempty show_nat_nonempty, of "k div 10" "k mod 10"]
    have "parseFloat (show_nat (k div 10) @ ''.'' @ show_nat (k mod 10)) = Fin (of_nat k / 10)" by (simp add: l)
    with 2 k kk show ?thesis by (simp add: show_hundredths_def)
  next
    case 3
    then have "show_hundredths m = show_nat (m div 100) @ ''.'' @ pad_digits 2 (show_nat (m mod 100))"
      by (simp add: show_hundredths_def)
    then show ?thesis by (simp only: parseFloat_hundredth_digits)
  qed
qed

text \<open>\<open>Number\<close> reads a decimal fraction like \<open>parseFloat\<close>.\<close>

lemma trim_no_space: "\<forall>c \<in> set s. \<not> is_space c \<Longrightarrow> trim s = s"
proof -
  have d: "dropWhile is_space t = t" if "\<forall>c \<in> set t. \<not> is_space c" for t
    using that by (cases t) auto
  assume "\<forall>c \<in> set s. \<not> is_space c"
  then show ?thesis by (simp add: trim_def d)
qed

lemma trim_nonempty: assumes "c \<in> set s" "\<not> is_space c" shows "trim s \<noteq> []"
proof -
  have "c \<in> set (dropWhile is_space s)" using assms by (induction s) auto
  then have "dropWhile is_space (rev (dropWhile is_space s)) \<noteq> []" using assms(2) by (auto simp: dropWhile_eq_Nil_conv)
  then show ?thesis by (simp add: trim_def)
qed

lemma trim_idem: "trim (trim s) = trim s"
proof -
  have d: "dropWhile P (dropWhile P x) = dropWhile P x" for P and x :: string
    by (induction x) auto
  have "dropWhile is_space (trim s) = trim s"
  proof (cases "dropWhile is_space s")
    case Nil
    show ?thesis by (simp only: trim_def Nil rev.simps dropWhile.simps)
  next
    case (Cons c cs)
    then have "\<not> is_space c" by (metis dropWhile_eq_Cons_conv)
    have "dropWhile is_space (rev (c # cs)) = dropWhile is_space (rev cs @ [c])" by simp
    also have "\<dots> = (if \<forall>x \<in> set (rev cs). is_space x then [c] else dropWhile is_space (rev cs) @ [c])"
      using \<open>\<not> is_space c\<close> by (auto simp: dropWhile_append)
    finally show ?thesis using \<open>\<not> is_space c\<close> by (simp add: trim_def Cons)
  qed
  then show ?thesis by (simp add: trim_def d)
qed

lemma js_Number_decimal:
  assumes "\<forall>c \<in> set ds. is_digit c" "\<forall>c \<in> set fs. is_digit c" "ds \<noteq> []" "fs \<noteq> []"
  shows "js_Number (ds @ ''.'' @ fs) = Fin (of_nat (digits_val (ds @ fs)) / 10 ^ length fs)"
proof -
  from assms(1,3) obtain c cs where s: "ds = c # cs" "is_digit c" by (cases ds) auto
  have "\<forall>x \<in> set (ds @ ''.'' @ fs). \<not> is_space x"
    using assms(1,2) digit_facts by (auto simp: is_space_def)
  then have t: "trim (ds @ ''.'' @ fs) = ds @ ''.'' @ fs" by (rule trim_no_space)
  have r: "radix_of (ds @ ''.'' @ fs) = None"
  proof -
    obtain e rest where "cs @ ''.'' @ fs = e # rest" "is_digit e \<or> e = CHR ''.''"
      using s assms(1) by (cases cs) auto
    then show ?thesis using s by (auto simp: radix_of_def is_digit_def Let_def)
  qed
  have "scan_signed (ds @ ''.'' @ fs) = Some (Fin (of_nat (digits_val (ds @ fs)) / 10 ^ length fs), [])"
  proof -
    from s have "\<not> starts_with ''Infinity'' (ds @ ''.'' @ fs)" by (auto simp: starts_with_def digit_facts)
    with s scan_unsigned_decimal [OF assms] show ?thesis by (simp add: scan_signed_def digit_facts)
  qed
  with t r s show ?thesis by (simp add: js_Number_def)
qed

lemma js_Number_to_fixed: "js_Number (to_fixed 2 (of_nat m / 100)) = Fin (of_nat m / 100)"
proof -
  let ?fs = "pad_digits 2 (show_nat (m mod 100))"
  have l: "length ?fs = 2" by (simp add: pad_digits_facts show_nat_short)
  then have ne: "?fs \<noteq> []" by auto
  have "digits_val (show_nat (m div 100) @ ?fs) = m"
    by (simp add: digits_val_append l digits_val_show_nat pad_digits_facts)
  with js_Number_decimal [OF show_nat_digits pad_digits_facts(3) [OF show_nat_digits] show_nat_nonempty ne]
  show ?thesis by (simp add: l to_fixed_cents)
qed

end
