(* ===== verification/Checkout.thy ===== *)
theory Checkout
  imports Orders Decimals
begin

text \<open>
  The payment buttons every checkout shares: Google Pay (\<open>components/PayPalGooglePayButton.tsx\<close>), Apple
  Pay (\<open>PayPalApplePayButton.tsx\<close>), the redirect to PayPal (\<open>PayPalWalletRedirectButton.tsx\<close>) and the
  card form (\<open>HostedCardFields.tsx\<close>), with the terms of a recurring charge (\<open>recurringTerms.ts\<close>). What
  the payment libraries answer is a parameter, and so is what happens to the page while a call is
  awaited (\<open>between\<close>). The state of the page around a button is a type parameter: a button only
  reaches it through the handlers it was given.
\<close>

section \<open>Rejections\<close>

text \<open>A thrown value the way the handlers read it: \<open>instanceof ApiError\<close> (which is an \<open>Error\<close>),
  \<open>instanceof Error\<close>, \<open>message\<close> and \<open>statusCode\<close>.\<close>

record thrown =
  th_api :: bool
  th_error :: bool
  th_message :: string
  th_code :: "string option"

definition js_error :: "string \<Rightarrow> thrown" where
  "js_error m = \<lparr>th_api = False, th_error = True, th_message = m, th_code = None\<rparr>"

definition api_rejection :: "string \<Rightarrow> thrown" where
  "api_rejection m = \<lparr>th_api = True, th_error = True, th_message = m, th_code = None\<rparr>"

definition api_text :: "thrown \<Rightarrow> string \<Rightarrow> string" where
  "api_text e d = (if th_api e then th_message e else d)"

definition error_text :: "thrown \<Rightarrow> string \<Rightarrow> string" where
  "error_text e d = (if th_error e then th_message e else d)"

definition to_upper_char :: "char \<Rightarrow> char" where
  "to_upper_char c = (if is_lower c then char_of ((of_char c :: nat) - 32) else c)"

definition to_upper :: "string \<Rightarrow> string" where
  "to_upper s = map to_upper_char s"

section \<open>The terms of a recurring charge\<close>

datatype interval_unit = Day | Month | Year

definition unit_name :: "interval_unit \<Rightarrow> string" where
  "unit_name u = (case u of Day \<Rightarrow> ''day'' | Month \<Rightarrow> ''month'' | Year \<Rightarrow> ''year'')"

text \<open>A \<open>Date\<close> is its time in milliseconds.\<close>

record recurring_terms =
  rt_description :: string
  rt_itemLabel :: string
  rt_intervalUnit :: interval_unit
  rt_intervalCount :: nat
  rt_managementUrl :: string
  rt_billingAgreement :: "string option"
  rt_startDate :: "int option"

definition subscriptionManagementUrl :: "string \<Rightarrow> string" where
  "subscriptionManagementUrl origin = origin @ ''/client/profile''"

definition billingAgreementText :: "string \<Rightarrow> interval_unit \<Rightarrow> string" where
  "billingAgreementText priceLabel u =
     (let cadence = (if u = Year then ''year'' else ''month'')
      in ''You authorise Apollo SFS to charge this payment method '' @ priceLabel @ '' every '' @ cadence
         @ '' until you cancel. Cancel any time from your profile page.'')"

definition json_nat :: "nat \<Rightarrow> json" where "json_nat n = JNum (of_nat n)"

definition agreement_field :: "recurring_terms \<Rightarrow> (string \<times> json option) list" where
  "agreement_field t =
     (case rt_billingAgreement t of
        None \<Rightarrow> []
      | Some a \<Rightarrow> if a = [] then [] else [(''billingAgreement'', Some (JStr a))])"

definition buildGooglePayTransaction ::
  "string \<Rightarrow> string \<Rightarrow> string \<Rightarrow> recurring_terms option \<Rightarrow> json" where
  "buildGooglePayTransaction countryCode currencyCode amount recurring =
     (case recurring of
        None \<Rightarrow> json_object
          [(''transactionInfo'', Some (json_object
             [(''countryCode'', Some (JStr countryCode)), (''currencyCode'', Some (JStr currencyCode)),
              (''totalPriceStatus'', Some (JStr ''FINAL'')), (''totalPrice'', Some (JStr amount))]))]
      | Some t \<Rightarrow> json_object
          [(''recurringTransactionInfo'', Some (json_object
             ([(''countryCode'', Some (JStr countryCode)), (''currencyCode'', Some (JStr currencyCode)),
               (''label'', Some (JStr (rt_description t))), (''managementUrl'', Some (JStr (rt_managementUrl t)))]
              @ agreement_field t
              @ [(''recurrenceItems'', Some (JArr [json_object
                   [(''label'', Some (JStr (rt_itemLabel t))), (''price'', Some (JStr amount)),
                    (''priceStatus'', Some (JStr ''FINAL'')),
                    (''recurrencePeriod'', Some (json_object
                       [(''unit'', Some (JStr (to_upper (unit_name (rt_intervalUnit t))))),
                        (''count'', Some (json_nat (rt_intervalCount t)))]))]]))])))])"

text \<open>What PayPal says of the merchant; a field may be missing.\<close>

record apple_config =
  ac_countryCode :: "string option"
  ac_merchantCapabilities :: "json option"
  ac_supportedNetworks :: "json option"

definition recurringLineItem :: "int \<Rightarrow> recurring_terms \<Rightarrow> string \<Rightarrow> json" where
  "recurringLineItem now t amount = json_object
     [(''label'', Some (JStr (rt_itemLabel t))), (''amount'', Some (JStr amount)), (''type'', Some (JStr ''final'')),
      (''paymentTiming'', Some (JStr ''recurring'')),
      (''recurringPaymentStartDate'', Some (JNum (of_int (or_else (rt_startDate t) now)))),
      (''recurringPaymentIntervalUnit'', Some (JStr (unit_name (rt_intervalUnit t)))),
      (''recurringPaymentIntervalCount'', Some (json_nat (rt_intervalCount t)))]"

definition buildApplePayPaymentRequest ::
  "int \<Rightarrow> apple_config option \<Rightarrow> string \<Rightarrow> string \<Rightarrow> recurring_terms option \<Rightarrow> json" where
  "buildApplePayPaymentRequest now config currencyCode amount recurring = json_object
     ([(''countryCode'', Some (JStr (or_else (Option.bind config ac_countryCode) ''US''))),
       (''currencyCode'', Some (JStr currencyCode)),
       (''merchantCapabilities'', Option.bind config ac_merchantCapabilities),
       (''supportedNetworks'', Option.bind config ac_supportedNetworks),
       (''requiredBillingContactFields'', Some (JArr [JStr ''name'', JStr ''postalAddress''])),
       (''total'', Some (json_object
          [(''label'', Some (JStr ''Apollo SFS'')), (''amount'', Some (JStr amount)), (''type'', Some (JStr ''final''))]))]
      @ (case recurring of
           None \<Rightarrow> []
         | Some t \<Rightarrow>
             [(''recurringPaymentRequest'', Some (json_object
                 ([(''paymentDescription'', Some (JStr (rt_description t))),
                   (''regularBilling'', Some (recurringLineItem now t amount)),
                   (''managementURL'', Some (JStr (rt_managementUrl t)))]
                  @ agreement_field t))),
              (''lineItems'', Some (JArr [recurringLineItem now t amount]))]))"

section \<open>What a button is given\<close>

text \<open>The props of a wallet button, one record per render of the page. A button keeps the latest ones in
  a ref, and a click works with those it finds there.\<close>

record 's pay_props =
  pr_currency :: string
  pr_amount :: string
  pr_createOrder :: "'s \<Rightarrow> (thrown + string) \<times> 's"
  pr_onApprove :: "string \<Rightarrow> 's \<Rightarrow> (thrown + unit) \<times> 's"
  pr_onError :: "string \<Rightarrow> 's \<Rightarrow> 's"
  pr_enabled :: bool
  pr_recurring :: "recurring_terms option"

section \<open>Google Pay\<close>

text \<open>The effect that shows the button: what each step of it finds.\<close>

record google_probe =
  gb_resolved :: bool            \<comment> \<open>the PayPal script\<close>
  gb_js_loaded :: bool           \<comment> \<open>\<open>loadGooglePayJs\<close>\<close>
  gb_has_apis :: bool
  gb_config :: "bool option"     \<comment> \<open>\<open>isEligible\<close>; \<open>None\<close> when \<open>config()\<close> rejects\<close>
  gb_ready :: "bool option"      \<comment> \<open>\<open>isReadyToPay\<close>\<close>
  gb_cancelled :: bool

definition blockedForRecurring :: "recurring_terms option \<Rightarrow> bool \<Rightarrow> bool" where
  "blockedForRecurring recurring subscriptionsEnabled \<longleftrightarrow> recurring \<noteq> None \<and> \<not> subscriptionsEnabled"

definition google_visible :: "google_probe \<Rightarrow> recurring_terms option \<Rightarrow> bool \<Rightarrow> bool" where
  "google_visible p recurring subscriptionsEnabled \<longleftrightarrow>
     gb_resolved p \<and> \<not> blockedForRecurring recurring subscriptionsEnabled \<and> gb_js_loaded p
     \<and> \<not> gb_cancelled p \<and> gb_has_apis p \<and> gb_config p = Some True \<and> gb_ready p = Some True"

record google_sdk =
  gs_country :: string
  gs_load :: "json \<Rightarrow> thrown + json"                    \<comment> \<open>\<open>loadPaymentData\<close>: the payment method\<close>
  gs_confirm :: "string \<Rightarrow> json \<Rightarrow> thrown + string option"  \<comment> \<open>\<open>confirmOrder\<close>: its status\<close>
  gs_payer :: "string \<Rightarrow> thrown + unit"                 \<comment> \<open>\<open>initiatePayerAction\<close>\<close>

definition google_fail :: "'s pay_props \<Rightarrow> thrown \<Rightarrow> 's \<Rightarrow> 's" where
  "google_fail cur e s =
     (if th_code e = Some ''CANCELED'' then s else pr_onError cur (error_text e ''Google Pay payment failed'') s)"

definition google_finish :: "'s pay_props \<Rightarrow> string \<Rightarrow> 's \<Rightarrow> 's" where
  "google_finish cur orderId s =
     (case pr_onApprove cur orderId s of (Inl e, s') \<Rightarrow> google_fail cur e s' | (Inr _, s') \<Rightarrow> s')"

definition google_confirm :: "'s pay_props \<Rightarrow> google_sdk \<Rightarrow> (nat \<Rightarrow> 's \<Rightarrow> 's) \<Rightarrow> string \<Rightarrow> json \<Rightarrow> 's \<Rightarrow> 's" where
  "google_confirm cur sdk between orderId pay s =
     (case gs_confirm sdk orderId pay of
        Inl e \<Rightarrow> google_fail cur e (between 1 s)
      | Inr st \<Rightarrow>
          if st = Some ''PAYER_ACTION_REQUIRED'' then
            (case gs_payer sdk orderId of
               Inl e \<Rightarrow> google_fail cur e (between 2 (between 1 s))
             | Inr _ \<Rightarrow> google_finish cur orderId (between 2 (between 1 s)))
          else if st \<noteq> Some ''APPROVED'' then
            pr_onError cur (''Google Pay could not be approved '' @ em_dash @ '' please try another method.'') (between 1 s)
          else google_finish cur orderId (between 1 s))"

definition google_transaction :: "'s pay_props \<Rightarrow> google_sdk \<Rightarrow> json" where
  "google_transaction cur sdk =
     buildGooglePayTransaction (if gs_country sdk = [] then ''US'' else gs_country sdk) (pr_currency cur)
       (pr_amount cur) (pr_recurring cur)"

definition runPayment :: "'s pay_props \<Rightarrow> google_sdk \<Rightarrow> (nat \<Rightarrow> 's \<Rightarrow> 's) \<Rightarrow> 's \<Rightarrow> 's" where
  "runPayment cur sdk between s =
     (if \<not> pr_enabled cur then s
      else case gs_load sdk (google_transaction cur sdk) of
        Inl e \<Rightarrow> google_fail cur e (between 0 s)
      | Inr pay \<Rightarrow>
          (case pr_createOrder cur (between 0 s) of
             (Inl e, s1) \<Rightarrow> google_fail cur e s1
           | (Inr orderId, s1) \<Rightarrow> google_confirm cur sdk between orderId pay s1))"

section \<open>Apple Pay\<close>

text \<open>The effect that makes the button eligible. A sheet with recurring terms needs version 14 of the
  interface.\<close>

definition APPLE_PAY_VERSION_ONE_TIME :: nat where "APPLE_PAY_VERSION_ONE_TIME = 4"
definition APPLE_PAY_VERSION_RECURRING :: nat where "APPLE_PAY_VERSION_RECURRING = 14"

record apple_probe =
  ap_canMakePayments :: bool
  ap_version :: nat               \<comment> \<open>the newest version the browser supports\<close>
  ap_scripts :: bool              \<comment> \<open>both SDKs load, the token and the session are given\<close>
  ap_isEligible :: "bool option"  \<comment> \<open>of the merchant's configuration\<close>
  ap_cancelled :: bool

definition apple_eligible :: "apple_probe \<Rightarrow> recurring_terms option \<Rightarrow> bool" where
  "apple_eligible p recurring \<longleftrightarrow>
     ap_canMakePayments p \<and> \<not> (recurring \<noteq> None \<and> ap_version p < APPLE_PAY_VERSION_RECURRING)
     \<and> ap_scripts p \<and> \<not> ap_cancelled p \<and> ap_isEligible p \<noteq> Some False"

datatype sheet_outcome = SheetOpen | SheetSuccess | SheetFailure | SheetAborted

record 's apple_sheet =
  as_cur :: "'s pay_props"
  as_request :: json
  as_version :: nat
  as_update :: "json option"
  as_outcome :: sheet_outcome

record 's apple_button =
  ab_latest :: "'s pay_props"
  ab_eligible :: bool
  ab_config :: "apple_config option"
  ab_busy :: bool
  ab_sheet :: "'s apple_sheet option"

definition open_sheet :: "int \<Rightarrow> 's apple_button \<Rightarrow> 's apple_button" where
  "open_sheet now b =
     (let cur = ab_latest b
      in if \<not> pr_enabled cur \<or> ab_busy b \<or> \<not> ab_eligible b then b
         else b\<lparr>ab_busy := True,
           ab_sheet := Some \<lparr>as_cur = cur,
             as_request = buildApplePayPaymentRequest now (ab_config b) (pr_currency cur) (pr_amount cur) (pr_recurring cur),
             as_version = (if pr_recurring cur \<noteq> None then APPLE_PAY_VERSION_RECURRING else APPLE_PAY_VERSION_ONE_TIME),
             as_update = None, as_outcome = SheetOpen\<rparr>\<rparr>)"

text \<open>The answer to the choice of a card repeats the total and the line items of the request.\<close>

definition object_field :: "string \<Rightarrow> json \<Rightarrow> json option" where
  "object_field k j = (case j of JObj fs \<Rightarrow> map_of fs k | _ \<Rightarrow> None)"

definition method_selected :: "json \<Rightarrow> json" where
  "method_selected request =
     json_object [(''newTotal'', object_field ''total'' request), (''newLineItems'', object_field ''lineItems'' request)]"

text \<open>\<open>onpaymentauthorized\<close>: whether the sheet shows the check mark, and the page.\<close>

definition apple_authorize ::
  "'s pay_props \<Rightarrow> (string \<Rightarrow> thrown + unit) \<Rightarrow> ('s \<Rightarrow> 's) \<Rightarrow> 's \<Rightarrow> bool \<times> 's" where
  "apple_authorize cur confirm between s =
     (let failed = (\<lambda>e s'. (False, pr_onError cur (error_text e ''Apple Pay payment failed'') s'))
      in case pr_createOrder cur s of
           (Inl e, s1) \<Rightarrow> failed e s1
         | (Inr orderId, s1) \<Rightarrow>
             (case confirm orderId of
                Inl e \<Rightarrow> failed e (between s1)
              | Inr _ \<Rightarrow>
                  (case pr_onApprove cur orderId (between s1) of
                     (Inl e, s2) \<Rightarrow> failed e s2
                   | (Inr _, s2) \<Rightarrow> (True, s2))))"

datatype 's apple_event =
    AppleRender "'s pay_props"
  | AppleClick int
  | MerchantAnswer bool
  | MethodSelected
  | PaymentAuthorized "string \<Rightarrow> thrown + unit" "'s \<Rightarrow> 's"
  | SheetCancelled

fun apple_step :: "'s apple_event \<Rightarrow> 's apple_button \<times> 's \<Rightarrow> 's apple_button \<times> 's" where
  "apple_step (AppleRender p) (b, s) = (b\<lparr>ab_latest := p\<rparr>, s)"
| "apple_step (AppleClick now) (b, s) = (open_sheet now b, s)"
| "apple_step (MerchantAnswer ok) (b, s) =
     (case ab_sheet b of
        None \<Rightarrow> (b, s)
      | Some sh \<Rightarrow>
          if ok then (b, s)
          else (b\<lparr>ab_sheet := Some (sh\<lparr>as_outcome := SheetAborted\<rparr>), ab_busy := False\<rparr>,
                pr_onError (as_cur sh) ''Apple Pay merchant validation failed.'' s))"
| "apple_step MethodSelected (b, s) =
     (b\<lparr>ab_sheet := map_option (\<lambda>sh. sh\<lparr>as_update := Some (method_selected (as_request sh))\<rparr>) (ab_sheet b)\<rparr>, s)"
| "apple_step (PaymentAuthorized confirm between) (b, s) =
     (case ab_sheet b of
        None \<Rightarrow> (b, s)
      | Some sh \<Rightarrow>
          if as_outcome sh \<noteq> SheetOpen then (b, s)
          else
            let (ok, s') = apple_authorize (as_cur sh) confirm between s
            in (b\<lparr>ab_sheet := Some (sh\<lparr>as_outcome := if ok then SheetSuccess else SheetFailure\<rparr>), ab_busy := False\<rparr>, s'))"
| "apple_step SheetCancelled (b, s) = (b\<lparr>ab_busy := False, ab_sheet := None\<rparr>, s)"

section \<open>The redirect to PayPal\<close>

record redirect_button =
  rb_loading :: bool
  rb_location :: "string option"

definition redirect_click ::
  "bool \<Rightarrow> ('s \<Rightarrow> (thrown + string) \<times> 's) \<Rightarrow> (string \<Rightarrow> 's \<Rightarrow> 's) \<Rightarrow> redirect_button \<times> 's \<Rightarrow> redirect_button \<times> 's" where
  "redirect_click disabled getApprovalUrl onError bs =
     (let (b, s) = bs
      in if disabled \<or> rb_loading b then (b, s)
         else case getApprovalUrl s of
           (Inl e, s') \<Rightarrow> (b\<lparr>rb_loading := False\<rparr>, onError (error_text e ''Could not start checkout'') s')
         | (Inr url, s') \<Rightarrow>
             if url = [] then (b\<lparr>rb_loading := False\<rparr>, onError ''Could not start PayPal checkout'' s')
             else (b\<lparr>rb_loading := True, rb_location := Some url\<rparr>, s'))"

section \<open>The card form\<close>

record card_address =
  ca_line1 :: string
  ca_line2 :: string
  ca_city :: string
  ca_state :: string
  ca_postal :: string

record card_form =
  cd_address :: card_address
  cd_submitting :: bool
  cd_fieldError :: "string option"

definition type_state :: "string \<Rightarrow> card_form \<Rightarrow> card_form" where
  "type_state v f = f\<lparr>cd_address := (cd_address f)\<lparr>ca_state := to_upper v\<rparr>\<rparr>"

definition billing_address :: "card_address \<Rightarrow> json" where
  "billing_address a = json_object
     [(''addressLine1'', Some (JStr (trim (ca_line1 a)))),
      (''addressLine2'', if trim (ca_line2 a) = [] then None else Some (JStr (trim (ca_line2 a)))),
      (''adminArea2'', Some (JStr (trim (ca_city a)))),
      (''adminArea1'', Some (JStr (to_upper (trim (ca_state a))))),
      (''postalCode'', Some (JStr (trim (ca_postal a)))),
      (''countryCode'', Some (JStr ''US''))]"

text \<open>\<open>loaded\<close>: the hosted fields are there; \<open>nameEmpty\<close>: the state of the name field; \<open>submit\<close>: what PayPal
  makes of the address and what happens to the page meanwhile (the provider calls \<open>createOrder\<close> and
  \<open>onApprove\<close>). The addresses submitted are kept in the third component.\<close>

definition card_handleSubmit ::
  "bool \<Rightarrow> bool \<Rightarrow> bool \<Rightarrow> (json \<Rightarrow> 's \<Rightarrow> (thrown + unit) \<times> 's) \<Rightarrow> (string \<Rightarrow> 's \<Rightarrow> 's)
    \<Rightarrow> card_form \<times> 's \<times> json list \<Rightarrow> card_form \<times> 's \<times> json list" where
  "card_handleSubmit disabled loaded nameEmpty submit onError fs =
     (let (f, s, sent) = fs; a = cd_address f
      in if disabled \<or> cd_submitting f then (f, s, sent)
         else if \<not> loaded then
           (f, onError (''Card fields are still loading '' @ em_dash @ '' please try again.'') s, sent)
         else if trim (ca_line1 a) = [] \<or> trim (ca_city a) = [] \<or> trim (ca_state a) = [] \<or> trim (ca_postal a) = [] then
           (f\<lparr>cd_fieldError := Some ''Billing address is required.''\<rparr>, s, sent)
         else if nameEmpty then
           (f\<lparr>cd_fieldError := Some ''Name on card is required.''\<rparr>, s, sent)
         else
           (case submit (billing_address a) s of
              (Inl e, s') \<Rightarrow>
                (f\<lparr>cd_fieldError := None, cd_submitting := False\<rparr>,
                 onError (error_text e (''Card payment failed '' @ em_dash @ '' check your details and try again.'')) s',
                 sent @ [billing_address a])
            | (Inr _, s') \<Rightarrow>
                (f\<lparr>cd_fieldError := None, cd_submitting := False\<rparr>, s', sent @ [billing_address a])))"

section \<open>Properties\<close>

text \<open>The contract of a page that settles: its approval handler only resolves once it has settled the order
  it was handed. Under it the check mark of the Apple sheet tells the truth, in every run of the button.\<close>

definition apple_run :: "'s apple_event list \<Rightarrow> 's apple_button \<times> 's \<Rightarrow> 's apple_button \<times> 's" where
  "apple_run es bs = fold apple_step es bs"

definition check_mark :: "'s apple_button \<Rightarrow> bool" where
  "check_mark b \<longleftrightarrow> (case ab_sheet b of None \<Rightarrow> False | Some sh \<Rightarrow> as_outcome sh = SheetSuccess)"

definition new_apple_button :: "'s pay_props \<Rightarrow> apple_config option \<Rightarrow> 's apple_button" where
  "new_apple_button p config =
     \<lparr>ab_latest = p, ab_eligible = True, ab_config = config, ab_busy = False, ab_sheet = None\<rparr>"

text \<open>A sheet that was accepted before the events \<open>es2\<close>: the props of its click, and the events and the state
  before the buyer authorised it.\<close>

definition authorised ::
  "'s apple_event list \<Rightarrow> 's apple_button \<times> 's \<Rightarrow> 's apple_event list \<Rightarrow> (string \<Rightarrow> thrown + unit) \<Rightarrow> ('s \<Rightarrow> 's)
    \<Rightarrow> 's pay_props \<Rightarrow> bool" where
  "authorised es bs es1 confirm between cur \<longleftrightarrow>
     (\<exists>es2. es = es1 @ PaymentAuthorized confirm between # es2)
     \<and> (\<exists>sh. ab_sheet (fst (apple_run es1 bs)) = Some sh \<and> as_cur sh = cur \<and> as_outcome sh = SheetOpen)
     \<and> fst (apple_authorize cur confirm between (snd (apple_run es1 bs)))
     \<and> map_option as_cur (ab_sheet (fst (apple_run es bs))) = Some cur"

lemma apple_run_snoc: "apple_run (es @ [e]) bs = apple_step e (apple_run es bs)"
  by (simp add: apple_run_def)

lemma authorised_later:
  assumes "authorised es bs es1 confirm between cur"
    and "map_option as_cur (ab_sheet (fst (apple_run (es @ [e]) bs))) = Some cur"
  shows "authorised (es @ [e]) bs es1 confirm between cur"
  using assms unfolding authorised_def by fastforce

lemma apple_step_mark:
  assumes "check_mark (fst (apple_step e (b, s)))"
  shows "(check_mark b \<and> map_option as_cur (ab_sheet (fst (apple_step e (b, s)))) = map_option as_cur (ab_sheet b))
    \<or> (\<exists>confirm between sh. e = PaymentAuthorized confirm between \<and> ab_sheet b = Some sh \<and> as_outcome sh = SheetOpen
        \<and> fst (apple_authorize (as_cur sh) confirm between s)
        \<and> map_option as_cur (ab_sheet (fst (apple_step e (b, s)))) = Some (as_cur sh))"
  using assms
  by (cases e; cases "ab_sheet b")
    (auto simp: check_mark_def open_sheet_def Let_def split: prod.splits if_splits)

text \<open>A check mark goes back to one authorisation of the sheet that shows it.\<close>

lemma check_mark_origin:
  assumes "ab_sheet (fst bs) = None" "check_mark (fst (apple_run es bs))"
  shows "\<exists>es1 confirm between cur. authorised es bs es1 confirm between cur"
  using assms(2)
proof (induction es rule: rev_induct)
  case Nil
  with assms(1) show ?case by (simp add: apple_run_def check_mark_def)
next
  case (snoc e es)
  obtain b s where bs: "apple_run es bs = (b, s)" by fastforce
  from snoc.prems have "check_mark (fst (apple_step e (b, s)))" by (simp add: apple_run_snoc bs)
  from apple_step_mark [OF this] consider
      (kept) "check_mark b" "map_option as_cur (ab_sheet (fst (apple_step e (b, s)))) = map_option as_cur (ab_sheet b)"
    | (now) confirm between sh where "e = PaymentAuthorized confirm between" "ab_sheet b = Some sh"
        "as_outcome sh = SheetOpen" "fst (apple_authorize (as_cur sh) confirm between s)"
        "map_option as_cur (ab_sheet (fst (apple_step e (b, s)))) = Some (as_cur sh)"
    by blast
  then show ?case
  proof cases
    case kept
    with snoc.IH bs obtain es1 confirm between cur where a: "authorised es bs es1 confirm between cur" by auto
    then have "map_option as_cur (ab_sheet (fst (apple_run es bs))) = Some cur" by (simp only: authorised_def)
    with kept(2) bs have "map_option as_cur (ab_sheet (fst (apple_run (es @ [e]) bs))) = Some cur"
      by (simp add: apple_run_snoc)
    with a show ?thesis by (blast intro: authorised_later)
  next
    case now
    then have "authorised (es @ [e]) bs es confirm between (as_cur sh)"
      unfolding authorised_def by (simp only: apple_run_snoc bs fst_conv snd_conv) blast
    then show ?thesis by blast
  qed
qed

lemma check_mark_handlers:
  assumes "apple_authorize cur confirm between s = (True, s')"
  obtains i s1 where "pr_createOrder cur s = (Inr i, s1)" "confirm i = Inr ()"
    "pr_onApprove cur i (between s1) = (Inr (), s')"
  using assms by (fastforce simp: apple_authorize_def Let_def split: prod.splits sum.splits)

text \<open>A sheet is given the props of a render before it.\<close>

lemma sheet_props_rendered:
  assumes "ab_sheet (fst bs) = None" "ab_sheet (fst (apple_run es bs)) = Some sh"
  shows "as_cur sh = ab_latest (fst bs) \<or> AppleRender (as_cur sh) \<in> set es"
proof -
  define known where "known es p \<longleftrightarrow> p = ab_latest (fst bs) \<or> AppleRender p \<in> set es" for es p
  have "known es (ab_latest (fst (apple_run es bs)))
      \<and> (\<forall>sh. ab_sheet (fst (apple_run es bs)) = Some sh \<longrightarrow> known es (as_cur sh))"
  proof (induction es rule: rev_induct)
    case Nil
    with assms(1) show ?case by (simp add: apple_run_def known_def)
  next
    case (snoc e es)
    obtain b s where bs: "apple_run es bs = (b, s)" by fastforce
    from snoc bs have "known es (ab_latest b)" "\<And>sh. ab_sheet b = Some sh \<Longrightarrow> known es (as_cur sh)" by simp_all
    then show ?case
      by (cases e; cases "ab_sheet b")
        (auto simp: apple_run_snoc bs known_def open_sheet_def Let_def split: prod.splits if_splits)
  qed
  with assms(2) show ?thesis by (simp add: known_def)
qed

locale settling_checkout =
  fixes page_props_of :: "'r \<Rightarrow> 's pay_props"
    and settled :: "'r \<Rightarrow> string \<Rightarrow> 's \<Rightarrow> 's \<Rightarrow> bool"
  assumes approve_settles: "pr_onApprove (page_props_of r) i s = (Inr u, s') \<Longrightarrow> settled r i s s'"
begin

definition of_page :: "'s pay_props \<Rightarrow> bool" where
  "of_page p \<longleftrightarrow> (\<exists>r. p = page_props_of r)"

definition own_event :: "'s apple_event \<Rightarrow> bool" where
  "own_event e \<longleftrightarrow> (case e of AppleRender p \<Rightarrow> of_page p | _ \<Rightarrow> True)"

text \<open>The order of an accepted sheet is the one its own click created, and it is settled.\<close>

lemma check_mark_settled:
  assumes "of_page p" "list_all own_event es" "check_mark (fst (apple_run es (new_apple_button p config, s)))"
  shows "\<exists>es1 confirm between r i s1 s2.
      authorised es (new_apple_button p config, s) es1 confirm between (page_props_of r)
    \<and> pr_createOrder (page_props_of r) (snd (apple_run es1 (new_apple_button p config, s))) = (Inr i, s1)
    \<and> confirm i = Inr () \<and> settled r i (between s1) s2
    \<and> snd (apple_run (es1 @ [PaymentAuthorized confirm between]) (new_apple_button p config, s)) = s2"
proof -
  let ?bs = "(new_apple_button p config, s)"
  have new: "ab_sheet (fst ?bs) = None" by (simp add: new_apple_button_def)
  from check_mark_origin [OF new assms(3)] obtain es1 confirm between cur where
    a: "authorised es ?bs es1 confirm between cur" by blast
  then obtain es2 sh where es: "es = es1 @ PaymentAuthorized confirm between # es2"
    and sh: "ab_sheet (fst (apple_run es1 ?bs)) = Some sh" "as_cur sh = cur" "as_outcome sh = SheetOpen"
    and ok: "fst (apple_authorize cur confirm between (snd (apple_run es1 ?bs)))"
    unfolding authorised_def by blast
  from sheet_props_rendered [OF new sh(1)] sh(2) have "cur = p \<or> AppleRender cur \<in> set es1"
    by (simp add: new_apple_button_def)
  moreover have "own_event e" if "e \<in> set es1" for e using that assms(2) es by (simp add: list_all_iff)
  ultimately have "of_page cur" using assms(1) by (force simp: own_event_def)
  then obtain r where r: "cur = page_props_of r" by (auto simp: of_page_def)
  obtain s2 where s2: "apple_authorize cur confirm between (snd (apple_run es1 ?bs)) = (True, s2)"
    using ok by (metis prod.collapse)
  from check_mark_handlers [OF s2] obtain i s1 where
    i: "pr_createOrder cur (snd (apple_run es1 ?bs)) = (Inr i, s1)" "confirm i = Inr ()"
      "pr_onApprove cur i (between s1) = (Inr (), s2)" by blast
  have "snd (apple_run (es1 @ [PaymentAuthorized confirm between]) ?bs) = s2"
    using sh s2 by (cases "apple_run es1 ?bs") (simp add: apple_run_snoc)
  with a i r approve_settles show ?thesis by blast
qed

end

text \<open>The contract of a page that keeps the calls it makes: creating an order is one call, and so is settling
  it; reporting an error is none. Under it a payment is one order and at most one attempt to settle it,
  both through the handlers of the click, whatever happens to the page meanwhile.\<close>

locale logged_checkout =
  fixes cur :: "'s pay_props"
    and calls :: "'s \<Rightarrow> 'c list"
    and failing :: "'c \<Rightarrow> bool"
    and opens :: "string \<Rightarrow> 'c"
    and settles :: "string \<Rightarrow> 'o \<Rightarrow> 'c"
  assumes create_ok: "pr_createOrder cur s = (Inr i, s') \<Longrightarrow> calls s' = calls s @ [opens i]"
    and create_fails: "pr_createOrder cur s = (Inl e, s') \<Longrightarrow>
      calls s' = calls s \<or> (\<exists>c. failing c \<and> calls s' = calls s @ [c])"
    and approve_call: "pr_onApprove cur i s = (r, s') \<Longrightarrow> \<exists>ok. calls s' = calls s @ [settles i ok]"
    and report_call: "calls (pr_onError cur msg s) = calls s"
begin

definition one_payment :: "'c list \<Rightarrow> bool" where
  "one_payment cs \<longleftrightarrow> cs = [] \<or> (\<exists>c. failing c \<and> cs = [c]) \<or> (\<exists>i. cs = [opens i]) \<or> (\<exists>i ok. cs = [opens i, settles i ok])"

lemma google_fail_calls: "calls (google_fail cur e s) = calls s"
  by (simp add: google_fail_def report_call)

lemma google_finish_calls: "\<exists>ok. calls (google_finish cur i s) = calls s @ [settles i ok]"
  using approve_call [of i s]
  by (cases "pr_onApprove cur i s") (auto simp: google_finish_def google_fail_calls split: sum.split)

lemma google_confirm_calls:
  assumes "\<And>k t. calls (between k t) = calls t"
  shows "calls (google_confirm cur sdk between i pay s) = calls s
    \<or> (\<exists>ok. calls (google_confirm cur sdk between i pay s) = calls s @ [settles i ok])"
  using google_finish_calls [of i "between 1 s"] google_finish_calls [of i "between 2 (between 1 s)"]
  by (auto simp: google_confirm_def google_fail_calls report_call assms split: sum.split)

lemma google_payment:
  assumes "\<And>k t. calls (between k t) = calls t"
  shows "\<exists>cs. calls (runPayment cur sdk between s) = calls s @ cs \<and> one_payment cs"
proof (cases "pr_enabled cur")
  case True
  show ?thesis
  proof (cases "gs_load sdk (google_transaction cur sdk)")
    case (Inl e)
    then show ?thesis by (simp add: runPayment_def google_fail_calls assms one_payment_def)
  next
    case (Inr pay)
    obtain r s1 where r: "pr_createOrder cur (between 0 s) = (r, s1)" by (meson surj_pair)
    show ?thesis
    proof (cases r)
      case (Inl e)
      with create_fails r assms have "calls s1 = calls s \<or> (\<exists>c. failing c \<and> calls s1 = calls s @ [c])" by metis
      with True Inr r Inl show ?thesis by (auto simp: runPayment_def google_fail_calls one_payment_def)
    next
      case i: (Inr i)
      with create_ok r assms have "calls s1 = calls s @ [opens i]" by metis
      with True Inr r i google_confirm_calls [of between sdk i pay s1] assms show ?thesis
        by (auto simp: runPayment_def one_payment_def)
    qed
  qed
qed (simp add: runPayment_def one_payment_def)

lemma apple_payment:
  assumes "\<And>t. calls (between t) = calls t"
  shows "\<exists>cs. calls (snd (apple_authorize cur confirm between s)) = calls s @ cs \<and> one_payment cs"
proof -
  obtain r s1 where r: "pr_createOrder cur s = (r, s1)" by (meson surj_pair)
  show ?thesis
  proof (cases r)
    case (Inl e)
    with create_fails r have "calls s1 = calls s \<or> (\<exists>c. failing c \<and> calls s1 = calls s @ [c])" by metis
    with r Inl show ?thesis by (auto simp: apple_authorize_def report_call one_payment_def)
  next
    case (Inr i)
    with create_ok r have s1: "calls s1 = calls s @ [opens i]" by metis
    obtain r2 s2 where r2: "pr_onApprove cur i (between s1) = (r2, s2)" by (meson surj_pair)
    with approve_call assms obtain ok where "calls s2 = calls s1 @ [settles i ok]" by metis
    with r Inr r2 s1 show ?thesis
      by (cases "confirm i"; cases r2) (auto simp: apple_authorize_def report_call one_payment_def assms)
  qed
qed

end

text \<open>A subscription is never put to the buyer as a one-off charge: with recurring terms both sheets
  disclose the same interval, count, price and page for cancelling, and neither button shows where its
  sheet could not.\<close>

theorem recurring_terms_disclosed:
  "object_field ''transactionInfo'' (buildGooglePayTransaction country currency amount (Some t)) = None
   \<and> (\<exists>item. Option.bind (object_field ''recurringTransactionInfo''
          (buildGooglePayTransaction country currency amount (Some t))) (object_field ''recurrenceItems'') = Some (JArr [item])
        \<and> object_field ''price'' item = Some (JStr amount)
        \<and> Option.bind (object_field ''recurrencePeriod'' item) (object_field ''unit'')
            = Some (JStr (to_upper (unit_name (rt_intervalUnit t))))
        \<and> Option.bind (object_field ''recurrencePeriod'' item) (object_field ''count'') = Some (json_nat (rt_intervalCount t)))
   \<and> object_field ''lineItems'' (buildApplePayPaymentRequest now config currency amount (Some t))
       = Some (JArr [recurringLineItem now t amount])
   \<and> Option.bind (object_field ''recurringPaymentRequest'' (buildApplePayPaymentRequest now config currency amount (Some t)))
       (object_field ''managementURL'') = Some (JStr (rt_managementUrl t))
   \<and> object_field ''amount'' (recurringLineItem now t amount) = Some (JStr amount)
   \<and> object_field ''recurringPaymentIntervalUnit'' (recurringLineItem now t amount) = Some (JStr (unit_name (rt_intervalUnit t)))
   \<and> (\<not> google_visible probe (Some t) False)
   \<and> (\<not> apple_eligible ap (Some t) \<or> APPLE_PAY_VERSION_RECURRING \<le> ap_version ap)"
  by (cases "rt_billingAgreement t"; cases "Option.bind config ac_merchantCapabilities";
      cases "Option.bind config ac_supportedNetworks")
    (auto simp: buildGooglePayTransaction_def buildApplePayPaymentRequest_def json_object_def object_field_def
      recurringLineItem_def agreement_field_def google_visible_def blockedForRecurring_def apple_eligible_def)

text \<open>The card form submits complete addresses only, and only once the fields are there.\<close>

definition complete_address :: "json \<Rightarrow> bool" where
  "complete_address j \<longleftrightarrow> object_field ''countryCode'' j = Some (JStr ''US'') \<and>
     list_all (\<lambda>k. case object_field k j of Some (JStr v) \<Rightarrow> v \<noteq> [] | _ \<Rightarrow> False)
       [''addressLine1'', ''adminArea2'', ''adminArea1'', ''postalCode'']"

lemma billing_complete:
  assumes "trim (ca_line1 a) \<noteq> []" "trim (ca_city a) \<noteq> []" "trim (ca_state a) \<noteq> []" "trim (ca_postal a) \<noteq> []"
  shows "complete_address (billing_address a)"
  using assms by (simp add: complete_address_def billing_address_def json_object_def object_field_def to_upper_def)

theorem card_addresses_complete:
  "list_all complete_address sent \<Longrightarrow>
   list_all complete_address (snd (snd (card_handleSubmit disabled loaded nameEmpty submit onError (f, s, sent))))
   \<and> \<not> cd_submitting (fst (card_handleSubmit disabled loaded nameEmpty submit onError (f\<lparr>cd_submitting := False\<rparr>, s, sent)))"
  by (auto simp: card_handleSubmit_def Let_def billing_complete split: prod.split sum.split)

end
