(* ===== verification/PremiumCheckout.thy ===== *)
theory PremiumCheckout
  imports Checkout
begin

text \<open>
  Subscribing to Premium: the upgrade window (\<open>components/PremiumUpgradeModal.tsx\<close>), the page of the
  subscription (\<open>routes/_auth.premium.tsx\<close>) and the calls of \<open>api/payments.ts\<close>. A handler is the closure
  of a render, so it takes the page of that render (\<open>m\<close>) next to the page it changes. What the backend
  answers to a call is a parameter; the page keeps the calls it made with their outcome.
\<close>

section \<open>The calls\<close>

datatype premium_plan = Monthly | Annual

datatype checkout_source = ApplePaySource | GooglePaySource | CardSource

datatype premium_call =
    CreateSubscription premium_plan
  | CreateSelfBilled premium_plan checkout_source
  | ConfirmSelfBilled string premium_plan checkout_source
  | ConfirmSubscription string

definition source_name :: "checkout_source \<Rightarrow> string" where
  "source_name x = (case x of ApplePaySource \<Rightarrow> ''apple_pay'' | GooglePaySource \<Rightarrow> ''google_pay'' | CardSource \<Rightarrow> ''card'')"

definition plan_name :: "premium_plan \<Rightarrow> string" where
  "plan_name p = (case p of Monthly \<Rightarrow> ''monthly'' | Annual \<Rightarrow> ''annual'')"

fun premium_request :: "premium_call \<Rightarrow> string \<times> json option" where
  "premium_request (CreateSubscription p) =
     (''/payments/subscriptions'', Some (JObj [(''plan'', JStr (plan_name p))]))"
| "premium_request (CreateSelfBilled p x) =
     (''/payments/subscriptions/wallet/order'',
      Some (JObj [(''plan'', JStr (plan_name p)), (''source'', JStr (source_name x))]))"
| "premium_request (ConfirmSelfBilled i p x) =
     (''/payments/subscriptions/wallet/confirm'',
      Some (JObj [(''order_id'', JStr i), (''plan'', JStr (plan_name p)), (''source'', JStr (source_name x))]))"
| "premium_request (ConfirmSubscription i) = (''/payments/subscriptions/'' @ i @ ''/confirm'', None)"

type_synonym premium_backend = "premium_call \<Rightarrow> thrown + string"   \<comment> \<open>an order id, an approval URL, a status\<close>

section \<open>Prices\<close>

record plan_option =
  po_plan :: premium_plan
  po_price_cents :: nat

definition selectedPrice :: "plan_option list \<Rightarrow> premium_plan \<Rightarrow> nat" where
  "selectedPrice plans plan =
     (case find (\<lambda>p. po_plan p = plan) plans of None \<Rightarrow> 0 | Some p \<Rightarrow> po_price_cents p)"

definition price_amount :: "nat \<Rightarrow> string" where
  "price_amount cents = to_fixed 2 (of_nat cents / 100)"

definition recurringTerms :: "string \<Rightarrow> nat \<Rightarrow> premium_plan \<Rightarrow> recurring_terms" where
  "recurringTerms origin price plan =
     (let u = (if plan = Annual then Year else Month)
      in \<lparr>rt_description = ''Apollo SFS Premium'',
          rt_itemLabel = ''Premium ('' @ plan_name plan @ '')'',
          rt_intervalUnit = u, rt_intervalCount = 1,
          rt_managementUrl = subscriptionManagementUrl origin,
          rt_billingAgreement = Some (billingAgreementText (CHR ''$'' # price_amount price) u),
          rt_startDate = None\<rparr>)"

section \<open>The upgrade window\<close>

record premium_modal =
  pm_plan :: premium_plan
  pm_payError :: "string option"
  pm_showCardForm :: bool
  pm_busy :: bool
  pm_meStale :: bool
  pm_closed :: bool
  pm_location :: "string option"
  pm_calls :: "(premium_call \<times> string option) list"    \<comment> \<open>and what an accepted call returned\<close>

definition accepted :: "thrown + string \<Rightarrow> string option" where
  "accepted a = (case a of Inl _ \<Rightarrow> None | Inr v \<Rightarrow> Some v)"

definition ask ::
  "premium_backend \<Rightarrow> premium_call \<Rightarrow> premium_modal \<Rightarrow> (thrown + string) \<times> premium_modal" where
  "ask backend c s = (backend c, s\<lparr>pm_calls := pm_calls s @ [(c, accepted (backend c))]\<rparr>)"

text \<open>The part the three handlers share: clear the error, call, and name the failure before rethrowing.\<close>

definition asking ::
  "premium_backend \<Rightarrow> premium_call \<Rightarrow> string \<Rightarrow> premium_modal \<Rightarrow> (thrown + string) \<times> premium_modal" where
  "asking backend c fallback s =
     (case ask backend c (s\<lparr>pm_payError := None\<rparr>) of
        (Inl e, s') \<Rightarrow> (Inl e, s'\<lparr>pm_payError := Some (api_text e fallback)\<rparr>)
      | (Inr v, s') \<Rightarrow> (Inr v, s'))"

definition modal_getApprovalUrl ::
  "premium_backend \<Rightarrow> premium_modal \<Rightarrow> premium_modal \<Rightarrow> (thrown + string) \<times> premium_modal" where
  "modal_getApprovalUrl backend m s = asking backend (CreateSubscription (pm_plan m)) ''Could not start checkout'' s"

definition modal_createOrder ::
  "premium_backend \<Rightarrow> premium_modal \<Rightarrow> checkout_source \<Rightarrow> premium_modal \<Rightarrow> (thrown + string) \<times> premium_modal" where
  "modal_createOrder backend m x s = asking backend (CreateSelfBilled (pm_plan m) x) ''Could not start checkout'' s"

definition modal_approve ::
  "premium_backend \<Rightarrow> premium_modal \<Rightarrow> checkout_source \<Rightarrow> string \<Rightarrow> premium_modal \<Rightarrow> (thrown + unit) \<times> premium_modal" where
  "modal_approve backend m x orderId s =
     (case asking backend (ConfirmSelfBilled orderId (pm_plan m) x) ''Payment could not be completed'' (s\<lparr>pm_busy := True\<rparr>) of
        (Inl e, s') \<Rightarrow> (Inl e, s'\<lparr>pm_busy := False\<rparr>)
      | (Inr _, s') \<Rightarrow>
          (Inr (), s'\<lparr>pm_meStale := True, pm_closed := True, pm_location := Some ''/premium?status=approved'',
                     pm_busy := False\<rparr>))"

text \<open>\<open>onError\<close> looks at the error of its own render.\<close>

definition modal_onError :: "premium_modal \<Rightarrow> string \<Rightarrow> premium_modal \<Rightarrow> premium_modal" where
  "modal_onError m msg s =
     (if pm_payError m = None \<or> pm_payError m = Some [] then s\<lparr>pm_payError := Some msg\<rparr> else s)"

text \<open>The props of the wallet buttons.\<close>

definition modal_props ::
  "premium_backend \<Rightarrow> plan_option list \<Rightarrow> string \<Rightarrow> string \<Rightarrow> checkout_source \<Rightarrow> premium_modal \<Rightarrow> premium_modal pay_props" where
  "modal_props backend plans origin currency x m =
     \<lparr>pr_currency = (if currency = [] then ''USD'' else currency),
      pr_amount = price_amount (selectedPrice plans (pm_plan m)),
      pr_createOrder = modal_createOrder backend m x,
      pr_onApprove = modal_approve backend m x,
      pr_onError = modal_onError m,
      pr_enabled = (0 < selectedPrice plans (pm_plan m) \<and> \<not> pm_busy m),
      pr_recurring = Some (recurringTerms origin (selectedPrice plans (pm_plan m)) (pm_plan m))\<rparr>"

definition modal_chooseCard :: "premium_modal \<Rightarrow> premium_modal" where
  "modal_chooseCard s = s\<lparr>pm_showCardForm := True, pm_payError := None\<rparr>"

definition modal_back :: "premium_modal \<Rightarrow> premium_modal" where
  "modal_back s = (if pm_busy s then s else s\<lparr>pm_showCardForm := False, pm_payError := None\<rparr>)"

text \<open>The plan selector is not shown over the card form, and disabled while a payment is confirmed.\<close>

definition select_plan :: "premium_plan \<Rightarrow> premium_modal \<Rightarrow> premium_modal" where
  "select_plan p s = (if pm_showCardForm s \<or> pm_busy s then s else s\<lparr>pm_plan := p\<rparr>)"

definition new_modal :: premium_modal where
  "new_modal = \<lparr>pm_plan = Monthly, pm_payError = None, pm_showCardForm = False, pm_busy = False, pm_meStale = False,
     pm_closed = False, pm_location = None, pm_calls = []\<rparr>"

section \<open>The page\<close>

record premium_search =
  ps_status :: "string option"
  ps_subscription_id :: "string option"

definition premium_validateSearch :: "json option \<Rightarrow> json option \<Rightarrow> premium_search" where
  "premium_validateSearch status subscription_id =
     \<lparr>ps_status = (case status of Some (JStr v) \<Rightarrow> if v = ''approved'' \<or> v = ''cancelled'' then Some v else None | _ \<Rightarrow> None),
      ps_subscription_id = (case subscription_id of Some (JStr v) \<Rightarrow> Some v | _ \<Rightarrow> None)\<rparr>"

datatype confirm_state = ConfirmIdle | ConfirmPending | ConfirmSuccess | ConfirmError

record premium_page =
  pp_modal :: premium_modal       \<comment> \<open>plan, error, card form, busy and calls, as in the window\<close>
  pp_confirm :: confirm_state

text \<open>Rendering confirms a subscription PayPal sent the user back with.\<close>

definition page_render :: "premium_search \<Rightarrow> premium_page \<Rightarrow> premium_page" where
  "page_render q s =
     (case ps_subscription_id q of
        None \<Rightarrow> s
      | Some i \<Rightarrow>
          if ps_status q = Some ''approved'' \<and> i \<noteq> [] \<and> pp_confirm s \<noteq> ConfirmSuccess \<and> pp_confirm s \<noteq> ConfirmPending
          then s\<lparr>pp_confirm := ConfirmPending,
                 pp_modal := (pp_modal s)\<lparr>pm_calls := pm_calls (pp_modal s) @ [(ConfirmSubscription i, None)]\<rparr>\<rparr>
          else s)"

definition accept_last :: "string \<Rightarrow> (premium_call \<times> string option) list \<Rightarrow> (premium_call \<times> string option) list" where
  "accept_last v cs = (if cs = [] then [] else butlast cs @ [(fst (last cs), Some v)])"

definition confirm_answer :: "thrown + string \<Rightarrow> premium_page \<Rightarrow> premium_page" where
  "confirm_answer a s =
     (if pp_confirm s \<noteq> ConfirmPending then s
      else case a of
        Inl e \<Rightarrow> s\<lparr>pp_confirm := ConfirmError,
                 pp_modal := (pp_modal s)\<lparr>pm_payError := Some (error_text e ''Confirmation failed'')\<rparr>\<rparr>
      | Inr v \<Rightarrow> s\<lparr>pp_confirm := ConfirmSuccess,
                 pp_modal := (pp_modal s)\<lparr>pm_calls := accept_last v (pm_calls (pp_modal s)), pm_meStale := True,
                   pm_location := Some ''/settings/api-keys''\<rparr>\<rparr>)"

text \<open>The handlers of the page do what those of the window do, but for where an approved payment leads.\<close>

definition page_approve ::
  "premium_backend \<Rightarrow> premium_modal \<Rightarrow> checkout_source \<Rightarrow> string \<Rightarrow> premium_modal \<Rightarrow> (thrown + unit) \<times> premium_modal" where
  "page_approve backend m x orderId s =
     (case asking backend (ConfirmSelfBilled orderId (pm_plan m) x) ''Payment could not be completed'' (s\<lparr>pm_busy := True\<rparr>) of
        (Inl e, s') \<Rightarrow> (Inl e, s'\<lparr>pm_busy := False\<rparr>)
      | (Inr _, s') \<Rightarrow>
          (Inr (), s'\<lparr>pm_meStale := True, pm_location := Some ''/settings/api-keys'', pm_busy := False\<rparr>))"

definition page_onError :: "string \<Rightarrow> premium_modal \<Rightarrow> premium_modal" where
  "page_onError msg s = s\<lparr>pm_payError := Some msg\<rparr>"

definition page_props ::
  "premium_backend \<Rightarrow> plan_option list \<Rightarrow> string \<Rightarrow> string \<Rightarrow> checkout_source \<Rightarrow> bool \<Rightarrow> premium_modal \<Rightarrow> premium_modal pay_props" where
  "page_props backend plans origin currency x confirming m =
     \<lparr>pr_currency = (if currency = [] then ''USD'' else currency),
      pr_amount = price_amount (selectedPrice plans (pm_plan m)),
      pr_createOrder = modal_createOrder backend m x,
      pr_onApprove = page_approve backend m x,
      pr_onError = page_onError,
      pr_enabled = (\<not> confirming \<and> \<not> pm_busy m \<and> plans \<noteq> []),
      pr_recurring = Some (recurringTerms origin (selectedPrice plans (pm_plan m)) (pm_plan m))\<rparr>"

section \<open>Properties\<close>

text \<open>Both approval handlers rethrow a refused confirmation, so they satisfy the contract of the Apple
  button: it shows its check mark only when the subscription of its order was opened.\<close>

record wallet_render =
  wr_backend :: premium_backend
  wr_plans :: "plan_option list"
  wr_origin :: string
  wr_currency :: string
  wr_source :: checkout_source
  wr_confirming :: bool
  wr_page :: premium_modal


definition page_wallet :: "wallet_render \<Rightarrow> premium_modal pay_props" where
  "page_wallet r =
     page_props (wr_backend r) (wr_plans r) (wr_origin r) (wr_currency r) (wr_source r) (wr_confirming r) (wr_page r)"

definition subscription_opened :: "wallet_render \<Rightarrow> string \<Rightarrow> premium_modal \<Rightarrow> premium_modal \<Rightarrow> bool" where
  "subscription_opened r i s s' \<longleftrightarrow>
     (\<exists>v. pm_calls s' = pm_calls s @ [(ConfirmSelfBilled i (pm_plan (wr_page r)) (wr_source r), Some v)])"

lemma asking_calls:
  "asking backend c t s = (Inr i, s') \<Longrightarrow> pm_calls s' = pm_calls s @ [(c, Some i)]"
  "asking backend c t s = (Inl e, s') \<Longrightarrow> pm_calls s' = pm_calls s @ [(c, None)]"
  by (cases "backend c"; auto simp: asking_def ask_def accepted_def)+


interpretation premium_route: settling_checkout page_wallet subscription_opened
  by unfold_locales
    (auto simp: page_wallet_def page_props_def page_approve_def subscription_opened_def
      dest: asking_calls split: prod.splits sum.splits)









text \<open>A confirmation the backend refuses is sent again by the very next render, without end and without the
  user doing anything.\<close>

definition refused_round :: "premium_search \<Rightarrow> thrown \<Rightarrow> premium_page \<Rightarrow> premium_page" where
  "refused_round q e s = confirm_answer (Inl e) (page_render q s)"

theorem refused_confirmation_repeats:
  assumes "ps_status q = Some ''approved''" "ps_subscription_id q = Some i" "i \<noteq> []"
  shows "pm_calls (pp_modal ((refused_round q e ^^ n) \<lparr>pp_modal = new_modal, pp_confirm = ConfirmIdle\<rparr>))
    = replicate n (ConfirmSubscription i, None)"
proof -
  let ?s = "\<lparr>pp_modal = new_modal, pp_confirm = ConfirmIdle\<rparr>"
  have "pm_calls (pp_modal ((refused_round q e ^^ n) ?s)) = replicate n (ConfirmSubscription i, None)
      \<and> pp_confirm ((refused_round q e ^^ n) ?s) \<in> {ConfirmIdle, ConfirmError}"
  proof (induction n)
    case 0
    then show ?case by (simp add: new_modal_def)
  next
    case (Suc n)
    then show ?case using assms
      by (auto simp: refused_round_def page_render_def confirm_answer_def replicate_append_same)
  qed
  then show ?thesis ..
qed

theorem refused_confirmation_repeats_witness:
  "pm_calls (pp_modal ((refused_round \<lparr>ps_status = Some ''approved'', ps_subscription_id = Some ''I-1''\<rparr> (api_rejection ''gone'') ^^ 1000)
     \<lparr>pp_modal = new_modal, pp_confirm = ConfirmIdle\<rparr>)) = replicate 1000 (ConfirmSubscription ''I-1'', None)"
  by (rule refused_confirmation_repeats) simp_all

definition order_fails :: "premium_modal \<Rightarrow> checkout_source \<Rightarrow> premium_call \<times> string option \<Rightarrow> bool" where
  "order_fails m x c \<longleftrightarrow> c = (CreateSelfBilled (pm_plan m) x, None)"

definition order_opens :: "premium_modal \<Rightarrow> checkout_source \<Rightarrow> string \<Rightarrow> premium_call \<times> string option" where
  "order_opens m x i = (CreateSelfBilled (pm_plan m) x, Some i)"

definition order_settles ::
  "premium_modal \<Rightarrow> checkout_source \<Rightarrow> string \<Rightarrow> string option \<Rightarrow> premium_call \<times> string option" where
  "order_settles m x i a = (ConfirmSelfBilled i (pm_plan m) x, a)"

lemma approve_calls:
  "modal_approve backend m x i s = (r, s') \<Longrightarrow> \<exists>a. pm_calls s' = pm_calls s @ [order_settles m x i a]"
  "page_approve backend m x i s = (r, s') \<Longrightarrow> \<exists>a. pm_calls s' = pm_calls s @ [order_settles m x i a]"
  by (auto simp: modal_approve_def page_approve_def asking_def ask_def order_settles_def split: sum.splits)

interpretation window_payment: logged_checkout "modal_props backend plans origin currency x m" pm_calls
    "order_fails m x" "order_opens m x" "order_settles m x"
  for backend plans origin currency x m
  by unfold_locales
    (auto simp: modal_props_def modal_createOrder_def modal_onError_def order_fails_def order_opens_def
      dest: asking_calls approve_calls)

interpretation route_payment: logged_checkout "page_props backend plans origin currency x confirming m" pm_calls
    "order_fails m x" "order_opens m x" "order_settles m x"
  for backend plans origin currency x confirming m
  by unfold_locales
    (auto simp: page_props_def modal_createOrder_def page_onError_def order_fails_def order_opens_def
      dest: asking_calls approve_calls)

text \<open>A wallet payment for a subscription is one order and at most one confirmation of it, both for the plan
  whose price the sheet showed and with the funding source of the button, whatever the user selects while
  the sheet is open; and the same on the page of the subscription.\<close>

theorem wallet_subscription_consistent:
  assumes "\<And>k t. pm_calls (between k t) = pm_calls t"
    and "cur = modal_props backend plans origin currency x m \<or> cur = page_props backend plans origin currency x confirming m"
  shows "pr_amount cur = price_amount (selectedPrice plans (pm_plan m)) \<and>
     (\<exists>cs. pm_calls (runPayment cur sdk between s) = pm_calls s @ cs \<and>
       (cs = [] \<or> (\<exists>a. cs = [(CreateSelfBilled (pm_plan m) x, a)]) \<or>
        (\<exists>i a. cs = [(CreateSelfBilled (pm_plan m) x, Some i), (ConfirmSelfBilled i (pm_plan m) x, a)])))"
proof -
  have "window_payment.one_payment m x cs \<Longrightarrow> cs = [] \<or> (\<exists>a. cs = [(CreateSelfBilled (pm_plan m) x, a)]) \<or>
        (\<exists>i a. cs = [(CreateSelfBilled (pm_plan m) x, Some i), (ConfirmSelfBilled i (pm_plan m) x, a)])" for cs
    by (auto simp: window_payment.one_payment_def order_fails_def order_opens_def order_settles_def)
  moreover have "\<exists>cs. pm_calls (runPayment cur sdk between s) = pm_calls s @ cs \<and> window_payment.one_payment m x cs"
    using assms(2) window_payment.google_payment [of between] route_payment.google_payment [of between] assms(1) by blast
  moreover have "pr_amount cur = price_amount (selectedPrice plans (pm_plan m))"
    using assms(2) by (auto simp: modal_props_def page_props_def)
  ultimately show ?thesis by blast
qed

text \<open>A failed start of a checkout names the failure, and then names it again in the words of the thrown
  error: the handler asked for a friendly text reads the error of the render before it.\<close>

theorem friendly_text_overwritten:
  assumes "backend (CreateSelfBilled (pm_plan m) x) = Inl (js_error ''Failed to fetch'')" "pm_payError m = None"
    and "0 < selectedPrice plans (pm_plan m)" "\<not> pm_busy m"
  shows "pm_payError (runPayment (modal_props backend plans origin currency x m)
       \<lparr>gs_country = c, gs_load = \<lambda>t. Inr pay, gs_confirm = conf, gs_payer = payer\<rparr> (\<lambda>k t. t) m) = Some ''Failed to fetch''"
  using assms
  by (simp add: runPayment_def modal_props_def modal_createOrder_def asking_def ask_def google_fail_def
      modal_onError_def js_error_def error_text_def)

end
