(* ===== verification/StorageCheckout.thy ===== *)
theory StorageCheckout
  imports Checkout
begin

text \<open>
  Buying storage: \<open>components/StorageUpgradeModal.tsx\<close> with the calls of \<open>api/billing.ts\<close> it makes. The
  server and its tier, the plans shown (managed prices of the server or the fixed ladder), whether a
  purchase is direct or a request for expansion paid by half, the custom capacity, and the handlers of
  the payment buttons. The effects of the component are one function, \<open>settle_modal\<close>, applied after every
  event: each of them changes nothing once its condition is restored, so it does not matter that React
  only runs them when a value they name has changed.
\<close>

section \<open>Servers and plans\<close>

definition MAX_ALLOCATED_PCT :: rat where "MAX_ALLOCATED_PCT = 90"

definition tier_name :: "storage_type \<Rightarrow> string" where
  "tier_name t = (case t of Nvme \<Rightarrow> ''nvme'' | Hdd \<Rightarrow> ''hdd'')"

record public_server =
  ss_id :: string
  ss_name :: string
  ss_total :: int
  ss_available :: int
  ss_drive :: storage_type

record server_row = public_server +
  ss_allocated_pct :: rat
  ss_row_key :: string

definition row_key_of :: "string \<Rightarrow> storage_type \<Rightarrow> string" where
  "row_key_of i t = i @ '':'' @ tier_name t"

definition server_row_of :: "public_server \<Rightarrow> server_row" where
  "server_row_of s =
     \<lparr>ss_id = ss_id s, ss_name = ss_name s, ss_total = ss_total s, ss_available = ss_available s, ss_drive = ss_drive s,
      ss_allocated_pct = (if 0 < ss_total s then of_int (ss_total s - ss_available s) / of_int (ss_total s) * 100 else 0),
      ss_row_key = row_key_of (ss_id s) (ss_drive s)\<rparr>"

definition formatSize :: "nat \<Rightarrow> string" where
  "formatSize b =
     (let unit = (\<lambda>u name. to_fixed (if b mod u = 0 then 0 else 1) (of_nat b / of_nat u) @ name)
      in if 1024 * TIB \<le> b then unit (1024 * TIB) '' PB''
         else if TIB \<le> b then unit TIB '' TB''
         else if GB \<le> b then unit GB '' GB''
         else if 1024 ^ 2 \<le> b then to_fixed 1 (of_nat b / of_nat (1024 ^ 2)) @ '' MB''
         else to_fixed 1 (of_nat b / 1024) @ '' KB'')"

text \<open>A line item of the server, priced for the user, and the plan shown for it.\<close>

record server_plan =
  sv_id :: string
  sv_type :: storage_type
  sv_bytes :: nat
  sv_price_cents :: int
  sv_effective_cents :: int

record display_plan =
  dp_id :: string
  dp_label :: string
  dp_addBytes :: nat
  dp_priceCents :: int
  dp_effectiveCents :: int

definition managed_plan :: "server_plan \<Rightarrow> display_plan" where
  "managed_plan p = \<lparr>dp_id = sv_id p, dp_label = formatSize (sv_bytes p), dp_addBytes = sv_bytes p,
     dp_priceCents = sv_price_cents p, dp_effectiveCents = sv_effective_cents p\<rparr>"

definition fixed_plan :: "storage_type \<Rightarrow> storage_plan \<Rightarrow> display_plan" where
  "fixed_plan t p = \<lparr>dp_id = sp_id p, dp_label = sp_label p, dp_addBytes = sp_addBytes p,
     dp_priceCents = int (sp_priceCents p t), dp_effectiveCents = int (sp_priceCents p t)\<rparr>"

definition display_plans :: "server_plan list option \<Rightarrow> storage_type \<Rightarrow> display_plan list" where
  "display_plans serverPlans t =
     (let managed = filter (\<lambda>p. sv_type p = t) (or_else serverPlans [])
      in if managed \<noteq> [] then map managed_plan managed else map (fixed_plan t) STORAGE_PLANS)"

definition CUSTOM_PLAN_ID :: string where "CUSTOM_PLAN_ID = ''custom''"
definition CUSTOM_TIB_STOPS :: "nat list" where "CUSTOM_TIB_STOPS = buildCustomTibStops"

definition CLOSED_EXPANSION_STATUSES :: "request_status set" where
  "CLOSED_EXPANSION_STATUSES = {Completed, Expired, Refunded, Rejected}"

section \<open>The window\<close>

datatype upgrade_phase = Select | Purchased | ExpansionRequested | CustomSubmitted

datatype billing_call =
    CreateStorageOrder string storage_type string
  | CreateExpansionOrder string storage_type string
  | CaptureStorage string
  | CaptureExpansion string
  | SubmitCustom storage_type string nat

record store_modal =
  sm_servers :: "server_row list option"
  sm_plans :: "string \<Rightarrow> server_plan list option"   \<comment> \<open>the answers kept per server\<close>
  sm_requests :: "expansion_request list"
  sm_override :: bool
  sm_storageType :: storage_type
  sm_selectedPlanId :: "string option"
  sm_customStopIdx :: nat
  sm_selectedServerKey :: "string option"
  sm_phase :: upgrade_phase
  sm_serverListOpen :: bool
  sm_showCardForm :: bool
  sm_busy :: bool
  sm_payError :: "string option"
  sm_expansionResult :: "(string \<times> string) option"   \<comment> \<open>id, date of expiry\<close>
  sm_customResult :: "(string \<times> int) option"           \<comment> \<open>date of the review, estimate\<close>
  sm_newQuota :: "nat option"
  sm_calls :: "(billing_call \<times> bool) list"

definition open_modal :: "(string \<times> storage_type) option \<Rightarrow> store_modal" where
  "open_modal initial =
     \<lparr>sm_servers = None, sm_plans = (\<lambda>i. None), sm_requests = [], sm_override = False,
      sm_storageType = (case initial of None \<Rightarrow> Nvme | Some (i, t) \<Rightarrow> t), sm_selectedPlanId = None, sm_customStopIdx = 0,
      sm_selectedServerKey = map_option (\<lambda>(i, t). row_key_of i t) initial, sm_phase = Select, sm_serverListOpen = False, sm_showCardForm = False,
      sm_busy = False, sm_payError = None, sm_expansionResult = None, sm_customResult = None, sm_newQuota = None, sm_calls = []\<rparr>"

definition rows_of :: "store_modal \<Rightarrow> server_row list" where
  "rows_of s = or_else (sm_servers s) []"

definition selectedServer :: "store_modal \<Rightarrow> server_row option" where
  "selectedServer s = find (\<lambda>r. Some (ss_row_key r) = sm_selectedServerKey s) (rows_of s)"

definition isCustom :: "store_modal \<Rightarrow> bool" where
  "isCustom s \<longleftrightarrow> sm_selectedPlanId s = Some CUSTOM_PLAN_ID"

definition customBytes :: "store_modal \<Rightarrow> nat" where
  "customBytes s = CUSTOM_TIB_STOPS ! sm_customStopIdx s * TIB"

definition displayPlans :: "store_modal \<Rightarrow> display_plan list" where
  "displayPlans s = display_plans (Option.bind (selectedServer s) (\<lambda>r. sm_plans s (ss_id r))) (sm_storageType s)"

definition selectedPlan :: "store_modal \<Rightarrow> display_plan option" where
  "selectedPlan s = find (\<lambda>p. Some (dp_id p) = sm_selectedPlanId s) (displayPlans s)"

definition planBytes :: "store_modal \<Rightarrow> nat" where
  "planBytes s = (if isCustom s then customBytes s else case selectedPlan s of None \<Rightarrow> 0 | Some p \<Rightarrow> dp_addBytes p)"

definition fullPriceCents :: "store_modal \<Rightarrow> int" where
  "fullPriceCents s =
     (if isCustom s then customPriceCents (customBytes s) (sm_storageType s)
      else case selectedPlan s of None \<Rightarrow> 0 | Some p \<Rightarrow> dp_effectiveCents p)"

definition depositCents :: "store_modal \<Rightarrow> int" where
  "depositCents s = \<lceil>of_int (fullPriceCents s) / (2 :: rat)\<rceil>"

definition serverAtCapacity :: "store_modal \<Rightarrow> bool" where
  "serverAtCapacity s \<longleftrightarrow> (case selectedServer s of None \<Rightarrow> False | Some r \<Rightarrow> MAX_ALLOCATED_PCT \<le> ss_allocated_pct r)"

definition serverTypeMismatch :: "store_modal \<Rightarrow> bool" where
  "serverTypeMismatch s \<longleftrightarrow> (case selectedServer s of None \<Rightarrow> False | Some r \<Rightarrow> ss_drive r \<noteq> sm_storageType s)"

definition serverLacksCapacity :: "store_modal \<Rightarrow> bool" where
  "serverLacksCapacity s \<longleftrightarrow> (case selectedServer s of None \<Rightarrow> False | Some r \<Rightarrow> ss_available r < int (planBytes s))"

definition isExpansion :: "store_modal \<Rightarrow> bool" where
  "isExpansion s \<longleftrightarrow> sm_selectedPlanId s \<notin> {None, Some []} \<and> \<not> isCustom s \<and> selectedServer s \<noteq> None
     \<and> (sm_override s \<or> serverAtCapacity s \<or> serverTypeMismatch s \<or> serverLacksCapacity s)"

definition existingCustomRequest :: "store_modal \<Rightarrow> expansion_request option" where
  "existingCustomRequest s = find (\<lambda>r. er_is_custom r \<and> Some (er_server_id r) = map_option ss_id (selectedServer s)
     \<and> er_storage_type r = sm_storageType s \<and> er_status r \<notin> CLOSED_EXPANSION_STATUSES) (sm_requests s)"

definition canPay :: "store_modal \<Rightarrow> bool" where
  "canPay s \<longleftrightarrow> sm_selectedPlanId s \<notin> {None, Some []} \<and> selectedServer s \<noteq> None \<and> sm_phase s = Select \<and> \<not> sm_busy s"

definition amountCents :: "store_modal \<Rightarrow> int" where
  "amountCents s = (if isExpansion s then depositCents s else fullPriceCents s)"

definition usedPct :: "nat \<Rightarrow> nat \<Rightarrow> rat" where
  "usedPct used quota = (if 0 < quota then min (of_nat used / of_nat quota * 100) 100 else 0)"

text \<open>The picker groups the rows of a server.\<close>

record server_group =
  gr_id :: string
  gr_name :: string
  gr_rows :: "server_row list"

definition push_row :: "server_group list \<Rightarrow> server_row \<Rightarrow> server_group list" where
  "push_row gs r =
     (if list_ex (\<lambda>g. gr_id g = ss_id r) gs
      then map (\<lambda>g. if gr_id g = ss_id r then g\<lparr>gr_rows := gr_rows g @ [r]\<rparr> else g) gs
      else gs @ [\<lparr>gr_id = ss_id r, gr_name = ss_name r, gr_rows = [r]\<rparr>])"

definition groupedServers :: "store_modal \<Rightarrow> server_group list" where
  "groupedServers s = foldl push_row [] (rows_of s)"

definition tier_available :: "storage_type \<Rightarrow> store_modal \<Rightarrow> int" where
  "tier_available t s = sum_list (map ss_available (filter (\<lambda>r. ss_drive r = t) (rows_of s)))"

definition preferred_row :: "storage_type \<Rightarrow> server_group \<Rightarrow> server_row" where
  "preferred_row t g = or_else (find (\<lambda>r. ss_drive r = t) (gr_rows g)) (hd (gr_rows g))"

section \<open>Effects\<close>

definition pick_server_key :: "server_row list \<Rightarrow> storage_type \<Rightarrow> string option \<Rightarrow> string option" where
  "pick_server_key rows t prev =
     (case find (\<lambda>r. Some (ss_row_key r) = prev \<and> prev \<noteq> Some []) rows of
        Some r \<Rightarrow> if ss_drive r = t then prev
                  else Some (ss_row_key (or_else (find (\<lambda>r. ss_drive r = t) rows) (hd rows)))
      | None \<Rightarrow> Some (ss_row_key (or_else (find (\<lambda>r. ss_drive r = t) rows) (hd rows))))"

definition pick_server :: "store_modal \<Rightarrow> store_modal" where
  "pick_server s =
     (if rows_of s = [] then s
      else s\<lparr>sm_selectedServerKey := pick_server_key (rows_of s) (sm_storageType s) (sm_selectedServerKey s)\<rparr>)"

definition drop_plan :: "store_modal \<Rightarrow> store_modal" where
  "drop_plan s =
     (if sm_selectedPlanId s \<notin> {None, Some [], Some CUSTOM_PLAN_ID} \<and> selectedPlan s = None
      then s\<lparr>sm_selectedPlanId := None\<rparr> else s)"

definition clear_custom :: "store_modal \<Rightarrow> store_modal" where
  "clear_custom s = (if isCustom s \<and> existingCustomRequest s \<noteq> None then s\<lparr>sm_selectedPlanId := None\<rparr> else s)"

definition settle_modal :: "store_modal \<Rightarrow> store_modal" where
  "settle_modal s = clear_custom (drop_plan (pick_server s))"

section \<open>Handlers\<close>

datatype billing_answer =
    OrderOpened string string      \<comment> \<open>order id, approval URL\<close>
  | QuotaGranted nat
  | RequestOpened string string
  | CustomReceived string int

type_synonym billing_backend = "billing_call \<Rightarrow> thrown + billing_answer"

definition log_call :: "billing_backend \<Rightarrow> billing_call \<Rightarrow> store_modal \<Rightarrow> store_modal" where
  "log_call backend c s = s\<lparr>sm_calls := sm_calls s @ [(c, \<not> isl (backend c))]\<rparr>"

definition order_call :: "store_modal \<Rightarrow> string \<Rightarrow> server_row \<Rightarrow> billing_call" where
  "order_call m p r =
     (if isExpansion m then CreateExpansionOrder p (sm_storageType m) (ss_id r)
      else CreateStorageOrder p (sm_storageType m) (ss_id r))"

text \<open>\<open>handleCreateOrder\<close> and \<open>handleGetApprovalUrl\<close> differ in the field of the answer they return.\<close>

definition open_order ::
  "(string \<Rightarrow> string \<Rightarrow> string) \<Rightarrow> billing_backend \<Rightarrow> store_modal \<Rightarrow> store_modal \<Rightarrow> (thrown + string) \<times> store_modal" where
  "open_order field backend m s =
     (let s0 = s\<lparr>sm_payError := None\<rparr>
      in case (sm_selectedPlanId m, selectedServer m) of
           (Some p, Some r) \<Rightarrow>
             if p = [] then (Inl (js_error ''No plan selected''), s0)
             else
               (let s1 = log_call backend (order_call m p r) s0
                in case backend (order_call m p r) of
                     Inl e \<Rightarrow> (Inl e, s1\<lparr>sm_payError := Some (api_text e ''Could not start checkout'')\<rparr>)
                   | Inr a \<Rightarrow> (Inr (case a of OrderOpened i u \<Rightarrow> field i u | _ \<Rightarrow> ''''), s1))
         | _ \<Rightarrow> (Inl (js_error ''No plan selected''), s0))"

definition handleCreateOrder ::
  "billing_backend \<Rightarrow> store_modal \<Rightarrow> store_modal \<Rightarrow> (thrown + string) \<times> store_modal" where
  "handleCreateOrder = open_order (\<lambda>i u. i)"

definition handleGetApprovalUrl ::
  "billing_backend \<Rightarrow> store_modal \<Rightarrow> store_modal \<Rightarrow> (thrown + string) \<times> store_modal" where
  "handleGetApprovalUrl = open_order (\<lambda>i u. u)"

definition handleSubmitCustom :: "billing_backend \<Rightarrow> store_modal \<Rightarrow> store_modal \<Rightarrow> store_modal" where
  "handleSubmitCustom backend m s =
     (case selectedServer m of
        None \<Rightarrow> s
      | Some r \<Rightarrow>
          if \<not> isCustom m then s
          else
            let c = SubmitCustom (sm_storageType m) (ss_id r) (customBytes m);
                s1 = log_call backend c (s\<lparr>sm_payError := None\<rparr>)
            in case backend c of
                 Inl e \<Rightarrow> s1\<lparr>sm_payError := Some (api_text e ''Could not submit request''), sm_busy := False\<rparr>
               | Inr a \<Rightarrow> s1\<lparr>sm_customResult := (case a of CustomReceived d n \<Rightarrow> Some (d, n) | _ \<Rightarrow> None),
                   sm_phase := CustomSubmitted, sm_busy := False\<rparr>)"

text \<open>\<open>handleApprove\<close> catches what the capture throws, and returns.\<close>

definition capture_call :: "store_modal \<Rightarrow> string \<Rightarrow> billing_call" where
  "capture_call m orderId = (if isExpansion m then CaptureExpansion orderId else CaptureStorage orderId)"

definition handleApprove ::
  "billing_backend \<Rightarrow> store_modal \<Rightarrow> string \<Rightarrow> store_modal \<Rightarrow> (thrown + unit) \<times> store_modal" where
  "handleApprove backend m orderId s =
     (let c = capture_call m orderId;
          s1 = log_call backend c (s\<lparr>sm_payError := None\<rparr>)
      in (Inr (),
          (case backend c of
             Inl e \<Rightarrow> s1\<lparr>sm_payError := Some (api_text e ''Payment capture failed'')\<rparr>
           | Inr a \<Rightarrow>
               if isExpansion m then
                 s1\<lparr>sm_expansionResult := (case a of RequestOpened i d \<Rightarrow> Some (i, d) | _ \<Rightarrow> None), sm_phase := ExpansionRequested\<rparr>
               else s1\<lparr>sm_newQuota := (case a of QuotaGranted q \<Rightarrow> Some q | _ \<Rightarrow> None), sm_phase := Purchased\<rparr>)
            \<lparr>sm_busy := False\<rparr>))"

definition store_onError :: "store_modal \<Rightarrow> string \<Rightarrow> store_modal \<Rightarrow> store_modal" where
  "store_onError m msg s =
     (if sm_payError m = None \<or> sm_payError m = Some [] then s\<lparr>sm_payError := Some msg\<rparr> else s)"

definition sheet_amount :: "int \<Rightarrow> string" where
  "sheet_amount cents = to_fixed 2 (of_int cents / 100)"

definition store_props :: "billing_backend \<Rightarrow> string \<Rightarrow> store_modal \<Rightarrow> store_modal pay_props" where
  "store_props backend currency m =
     \<lparr>pr_currency = (if currency = [] then ''USD'' else currency), pr_amount = sheet_amount (amountCents m),
      pr_createOrder = handleCreateOrder backend m, pr_onApprove = handleApprove backend m,
      pr_onError = store_onError m, pr_enabled = canPay m, pr_recurring = None\<rparr>"

section \<open>The events of the selection\<close>

datatype store_event =
    ServersLoaded "public_server list"
  | PlansLoaded string "server_plan list"
  | RequestsLoaded "expansion_request list"
  | OverrideRead bool
  | ToggleServerList
  | PickGroup string
  | PickRow string
  | PickType storage_type
  | PickPlan string
  | PickCustom
  | MoveSlider nat
  | ChooseCard
  | BackToOptions

text \<open>The selection is on screen while nothing is bought and the card form is closed.\<close>

definition selecting :: "store_modal \<Rightarrow> bool" where
  "selecting s \<longleftrightarrow> sm_phase s = Select \<and> \<not> sm_showCardForm s"

definition choose_row :: "server_row \<Rightarrow> store_modal \<Rightarrow> store_modal" where
  "choose_row r s = s\<lparr>sm_storageType := ss_drive r, sm_selectedServerKey := Some (ss_row_key r), sm_serverListOpen := False\<rparr>"

fun store_event_step :: "store_event \<Rightarrow> store_modal \<Rightarrow> store_modal" where
  "store_event_step (ServersLoaded xs) s = s\<lparr>sm_servers := Some (map server_row_of xs)\<rparr>"
| "store_event_step (PlansLoaded i ps) s = s\<lparr>sm_plans := (sm_plans s)(i \<mapsto> ps)\<rparr>"
| "store_event_step (RequestsLoaded rs) s = s\<lparr>sm_requests := rs\<rparr>"
| "store_event_step (OverrideRead b) s = s\<lparr>sm_override := b\<rparr>"
| "store_event_step ToggleServerList s = (if selecting s then s\<lparr>sm_serverListOpen := \<not> sm_serverListOpen s\<rparr> else s)"
| "store_event_step (PickGroup i) s =
     (case find (\<lambda>g. gr_id g = i) (groupedServers s) of
        Some g \<Rightarrow> if selecting s \<and> sm_serverListOpen s then choose_row (preferred_row (sm_storageType s) g) s else s
      | None \<Rightarrow> s)"
| "store_event_step (PickRow k) s =
     (case find (\<lambda>r. ss_row_key r = k) (rows_of s) of
        Some r \<Rightarrow> if selecting s \<and> sm_serverListOpen s then choose_row r s else s
      | None \<Rightarrow> s)"
| "store_event_step (PickType t) s = (if selecting s then s\<lparr>sm_storageType := t\<rparr> else s)"
| "store_event_step (PickPlan i) s =
     (if selecting s \<and> list_ex (\<lambda>p. dp_id p = i) (displayPlans s) then s\<lparr>sm_selectedPlanId := Some i\<rparr> else s)"
| "store_event_step PickCustom s =
     (if selecting s \<and> existingCustomRequest s = None then s\<lparr>sm_selectedPlanId := Some CUSTOM_PLAN_ID\<rparr> else s)"
| "store_event_step (MoveSlider n) s =
     (if selecting s \<and> isCustom s \<and> n < length CUSTOM_TIB_STOPS then s\<lparr>sm_customStopIdx := n\<rparr> else s)"
| "store_event_step ChooseCard s =
     (if selecting s \<and> \<not> isCustom s \<and> canPay s then s\<lparr>sm_payError := None, sm_showCardForm := True\<rparr> else s)"
| "store_event_step BackToOptions s =
     (if sm_showCardForm s \<and> \<not> sm_busy s then s\<lparr>sm_showCardForm := False, sm_payError := None\<rparr> else s)"

definition store_step :: "store_event \<Rightarrow> store_modal \<Rightarrow> store_modal" where
  "store_step e s = settle_modal (store_event_step e s)"

definition store_run :: "store_event list \<Rightarrow> store_modal \<Rightarrow> store_modal" where
  "store_run es s = fold store_step es s"

section \<open>Properties\<close>

lemmas store_defs = rows_of_def selectedServer_def isCustom_def displayPlans_def selectedPlan_def existingCustomRequest_def

text \<open>The key of a row tells its tier.\<close>

lemma key_tells_tier: "row_key_of i t = row_key_of j u \<Longrightarrow> t = u"
proof -
  assume "row_key_of i t = row_key_of j u"
  then have "last (row_key_of i t) = last (row_key_of j u)" by simp
  then show "t = u" by (cases t; cases u) (simp_all add: row_key_of_def tier_name_def)
qed

definition keyed_rows :: "store_modal \<Rightarrow> bool" where
  "keyed_rows s \<longleftrightarrow> list_all (\<lambda>r. ss_row_key r = row_key_of (ss_id r) (ss_drive r)) (rows_of s)"

definition plan_settled :: "store_modal \<Rightarrow> bool" where
  "plan_settled s \<longleftrightarrow> (case sm_selectedPlanId s of None \<Rightarrow> True
     | Some i \<Rightarrow> i = [] \<or> (if i = CUSTOM_PLAN_ID then existingCustomRequest s = None else selectedPlan s \<noteq> None))"

definition server_settled :: "store_modal \<Rightarrow> bool" where
  "server_settled s \<longleftrightarrow> rows_of s = [] \<or> (case selectedServer s of None \<Rightarrow> False
     | Some r \<Rightarrow> ss_drive r = sm_storageType s \<or> \<not> list_ex (\<lambda>x. ss_drive x = sm_storageType s) (rows_of s))"

lemma found: "find P xs = Some x \<Longrightarrow> x \<in> set xs \<and> P x"
  by (induction xs) (auto split: if_splits)

lemma picked_row:
  assumes "rows \<noteq> []"
  obtains r where "r \<in> set rows" "pick_server_key rows t prev = Some (ss_row_key r)"
    "ss_drive r = t \<or> \<not> list_ex (\<lambda>x. ss_drive x = t) rows"
proof -
  let ?m = "or_else (find (\<lambda>r. ss_drive r = t) rows) (hd rows)"
  have m: "?m \<in> set rows" "ss_drive ?m = t \<or> \<not> list_ex (\<lambda>x. ss_drive x = t) rows"
  proof (atomize (full), cases "find (\<lambda>r. ss_drive r = t) rows")
    case None
    then have "\<not> list_ex (\<lambda>x. ss_drive x = t) rows" by (auto simp: find_None_iff list_ex_iff)
    with None assms show "?m \<in> set rows \<and> (ss_drive ?m = t \<or> \<not> list_ex (\<lambda>x. ss_drive x = t) rows)" by simp
  next
    case (Some r)
    with found [OF Some] show "?m \<in> set rows \<and> (ss_drive ?m = t \<or> \<not> list_ex (\<lambda>x. ss_drive x = t) rows)" by simp
  qed
  show ?thesis
  proof (cases "find (\<lambda>r. Some (ss_row_key r) = prev \<and> prev \<noteq> Some []) rows")
    case None
    with m that show ?thesis by (simp add: pick_server_key_def)
  next
    case (Some r)
    then have r: "r \<in> set rows" "prev = Some (ss_row_key r)" using found [OF Some] by auto
    show ?thesis
    proof (cases "ss_drive r = t")
      case True
      with Some r that show ?thesis by (simp add: pick_server_key_def)
    next
      case False
      with Some m that show ?thesis by (simp add: pick_server_key_def)
    qed
  qed
qed

lemma effect_fields [simp]:
  "rows_of (drop_plan s) = rows_of s" "rows_of (clear_custom s) = rows_of s" "rows_of (pick_server s) = rows_of s"
  "selectedServer (drop_plan s) = selectedServer s" "selectedServer (clear_custom s) = selectedServer s"
  "sm_storageType (drop_plan s) = sm_storageType s" "sm_storageType (clear_custom s) = sm_storageType s"
  "sm_storageType (pick_server s) = sm_storageType s"
  by (simp_all add: drop_plan_def clear_custom_def pick_server_def store_defs)

lemma pick_settles: "keyed_rows s \<Longrightarrow> server_settled (pick_server s)"
proof (cases "rows_of s = []")
  case True
  then show ?thesis by (simp add: server_settled_def)
next
  case False
  assume k: "keyed_rows s"
  from False obtain r where r: "r \<in> set (rows_of s)"
    "pick_server_key (rows_of s) (sm_storageType s) (sm_selectedServerKey s) = Some (ss_row_key r)"
    "ss_drive r = sm_storageType s \<or> \<not> list_ex (\<lambda>x. ss_drive x = sm_storageType s) (rows_of s)"
    by (rule picked_row)
  have sel: "selectedServer (pick_server s) = find (\<lambda>x. ss_row_key x = ss_row_key r) (rows_of s)"
    using False r(2) by (simp add: pick_server_def selectedServer_def rows_of_def)
  obtain x where x: "find (\<lambda>x. ss_row_key x = ss_row_key r) (rows_of s) = Some x"
    using r(1) by (cases "find (\<lambda>x. ss_row_key x = ss_row_key r) (rows_of s)") (auto simp: find_None_iff)
  then have "x \<in> set (rows_of s)" "ss_row_key x = ss_row_key r" by (auto dest: found)
  with k r(1) have "ss_drive x = ss_drive r"
    by (auto simp: keyed_rows_def list_all_iff intro: key_tells_tier)
  with x sel r(3) show ?thesis by (simp add: server_settled_def)
qed

lemma settle_plan: "plan_settled (settle_modal s)"
proof -
  have d: "plan_settled (drop_plan t) \<or> isCustom (drop_plan t)" for t
    by (auto simp: drop_plan_def plan_settled_def isCustom_def split: option.splits)
  have "plan_settled (clear_custom t)" if "plan_settled t \<or> isCustom t" for t
    using that by (auto simp: clear_custom_def plan_settled_def isCustom_def split: option.splits if_splits)
  with d show ?thesis by (simp add: settle_modal_def)
qed

lemma settle_server: "keyed_rows s \<Longrightarrow> server_settled (settle_modal s)"
  using pick_settles [of s] by (simp add: settle_modal_def server_settled_def cong: option.case_cong)

lemma server_key: "ss_row_key (server_row_of x) = row_key_of (ss_id (server_row_of x)) (ss_drive (server_row_of x))"
  by (simp add: server_row_of_def)

lemma keyed_step: "keyed_rows s \<Longrightarrow> keyed_rows (store_step e s)"
proof -
  assume "keyed_rows s"
  then have "keyed_rows (store_event_step e s)"
    by (cases e) (auto simp: keyed_rows_def rows_of_def choose_row_def list_all_iff server_key split: option.splits)
  then show ?thesis by (simp add: store_step_def settle_modal_def keyed_rows_def)
qed

lemma store_run_settled:
  "keyed_rows (store_run es (open_modal initial)) \<and> plan_settled (store_run es (open_modal initial))
   \<and> server_settled (store_run es (open_modal initial))"
proof (induction es rule: rev_induct)
  case Nil
  then show ?case
    by (simp add: store_run_def open_modal_def keyed_rows_def plan_settled_def server_settled_def rows_of_def)
next
  case (snoc e es)
  then have k: "keyed_rows (store_event_step e (store_run es (open_modal initial)))"
    using keyed_step [of "store_run es (open_modal initial)" e]
    by (simp add: store_step_def settle_modal_def keyed_rows_def)
  show ?case
    using settle_plan settle_server [OF k] keyed_step snoc
    by (simp add: store_run_def store_step_def)
qed

text \<open>The selection never dangles: whatever loads, reloads and is clicked in any order, a selected plan is one
  of those shown (or the custom one, while no custom request is open for the server and tier), and a server of
  the chosen tier is selected whenever there is one.\<close>

theorem selection_never_dangles:
  "plan_settled (store_run es (open_modal initial)) \<and> server_settled (store_run es (open_modal initial))"
  using store_run_settled by blast

lemma deposit_half: "fullPriceCents s \<le> 2 * depositCents s" "2 * depositCents s \<le> fullPriceCents s + 1"
proof -
  let ?c = "depositCents s"
  have "of_int (fullPriceCents s) / (2 :: rat) \<le> of_int ?c" "of_int ?c < of_int (fullPriceCents s) / (2 :: rat) + 1"
    unfolding depositCents_def by linarith+
  then have "of_int (fullPriceCents s) \<le> (of_int (2 * ?c) :: rat)" "(of_int (2 * ?c) :: rat) < of_int (fullPriceCents s + 2)"
    by simp_all
  then show "fullPriceCents s \<le> 2 * ?c" "2 * ?c \<le> fullPriceCents s + 1" by linarith+
qed

text \<open>C13. An order fits the server it is made for. When the selection can be paid, the order is for a plan shown
  and a server listed; it is a direct purchase only if the server is of the tier, less than 90 percent
  allocated, and has room for the plan, and then it costs the price shown; otherwise it is a request for
  expansion, for half of that price rounded up.\<close>

theorem order_fits_server:
  assumes "m = store_run es (open_modal initial)" and "canPay m" and "\<not> isCustom m"
  shows "\<exists>r p. r \<in> set (rows_of m) \<and> p \<in> set (displayPlans m) \<and>
    (let c = (if isExpansion m then CreateExpansionOrder (dp_id p) (sm_storageType m) (ss_id r)
              else CreateStorageOrder (dp_id p) (sm_storageType m) (ss_id r))
     in sm_calls (snd (handleCreateOrder backend m s)) = sm_calls s @ [(c, \<not> isl (backend c))])
    \<and> (if isExpansion m then dp_effectiveCents p \<le> 2 * amountCents m \<and> 2 * amountCents m \<le> dp_effectiveCents p + 1
       else ss_drive r = sm_storageType m \<and> ss_allocated_pct r < 90 \<and> int (dp_addBytes p) \<le> ss_available r
         \<and> amountCents m = dp_effectiveCents p)"
proof -
  from assms(2) obtain i r where i: "sm_selectedPlanId m = Some i" "i \<noteq> []" and r: "selectedServer m = Some r"
    by (auto simp: canPay_def)
  from assms(3) i have ic: "i \<noteq> CUSTOM_PLAN_ID" by (simp add: isCustom_def)
  have "plan_settled m" using store_run_settled assms(1) by blast
  with i ic obtain p where p: "selectedPlan m = Some p" by (auto simp: plan_settled_def)
  then have pin: "p \<in> set (displayPlans m)" "dp_id p = i" using i by (auto simp: selectedPlan_def dest: found)
  have rin: "r \<in> set (rows_of m)" using r by (auto simp: selectedServer_def dest: found)
  have full: "fullPriceCents m = dp_effectiveCents p" "planBytes m = dp_addBytes p"
    using p assms(3) by (simp_all add: fullPriceCents_def planBytes_def)
  have "sm_calls (snd (handleCreateOrder backend m s)) =
      sm_calls s @ [(order_call m i r, \<not> isl (backend (order_call m i r)))]"
    using i r by (simp add: handleCreateOrder_def open_order_def log_call_def Let_def split: sum.split)
  moreover have "if isExpansion m then dp_effectiveCents p \<le> 2 * amountCents m \<and> 2 * amountCents m \<le> dp_effectiveCents p + 1
       else ss_drive r = sm_storageType m \<and> ss_allocated_pct r < 90 \<and> int (dp_addBytes p) \<le> ss_available r
         \<and> amountCents m = dp_effectiveCents p"
    using deposit_half [of m] i ic r assms(3) full
    by (auto simp: amountCents_def isExpansion_def serverAtCapacity_def serverTypeMismatch_def serverLacksCapacity_def
        MAX_ALLOCATED_PCT_def)
  ultimately show ?thesis
    using rin pin by (auto simp: order_call_def Let_def intro!: exI [of _ r] exI [of _ p])
qed

definition nas :: public_server where
  "nas = \<lparr>ss_id = ''s1'', ss_name = ''NH-0001'', ss_total = 2 ^ 41, ss_available = 2 ^ 40, ss_drive = Nvme\<rparr>"

definition bought :: store_modal where
  "bought = store_run [ServersLoaded [nas], PickPlan ''64gb''] (open_modal None)"

lemma bought_evals:
  "canPay bought" "\<not> isCustom bought" "\<not> isExpansion bought" "sm_phase bought = Select" "sm_storageType bought = Nvme"
  "displayPlans bought = map (fixed_plan Nvme) STORAGE_PLANS" "rows_of bought = [server_row_of nas]"
  "sm_selectedPlanId bought = Some ''64gb''" "selectedServer bought = Some (server_row_of nas)"
  by (simp_all add: bought_def store_run_def store_step_def open_modal_def settle_modal_def pick_server_def drop_plan_def
      clear_custom_def pick_server_key_def store_defs selecting_def display_plans_def fixed_plan_def STORAGE_PLANS_def
      CUSTOM_PLAN_ID_def canPay_def isExpansion_def serverAtCapacity_def serverTypeMismatch_def serverLacksCapacity_def
      planBytes_def server_row_of_def nas_def MAX_ALLOCATED_PCT_def GB_def by_type_def)

theorem order_fits_server_witness:
  "\<exists>p. p \<in> set (map (fixed_plan Nvme) STORAGE_PLANS) \<and> amountCents bought = dp_effectiveCents p"
  using order_fits_server [of bought "[ServersLoaded [nas], PickPlan ''64gb'']" None "\<lambda>c. Inr (QuotaGranted 0)" bought] bought_evals
  by (auto simp: bought_def [symmetric])

definition order_of :: "store_modal \<Rightarrow> billing_call option" where
  "order_of m =
     (case (sm_selectedPlanId m, selectedServer m) of
        (Some p, Some r) \<Rightarrow> if p = [] then None else Some (order_call m p r)
      | _ \<Rightarrow> None)"

definition store_fails :: "store_modal \<Rightarrow> billing_call \<times> bool \<Rightarrow> bool" where
  "store_fails m c \<longleftrightarrow> (\<exists>k. order_of m = Some k \<and> c = (k, False))"

definition store_opens :: "store_modal \<Rightarrow> string \<Rightarrow> billing_call \<times> bool" where
  "store_opens m i = (the (order_of m), True)"

definition store_settles :: "store_modal \<Rightarrow> string \<Rightarrow> bool \<Rightarrow> billing_call \<times> bool" where
  "store_settles m i ok = (capture_call m i, ok)"

lemma open_order_cases:
  "open_order field backend m s =
    (case order_of m of
       None \<Rightarrow> (Inl (js_error ''No plan selected''), s\<lparr>sm_payError := None\<rparr>)
     | Some k \<Rightarrow>
         (case backend k of
            Inl e \<Rightarrow> (Inl e, (log_call backend k (s\<lparr>sm_payError := None\<rparr>))\<lparr>sm_payError := Some (api_text e ''Could not start checkout'')\<rparr>)
          | Inr a \<Rightarrow> (Inr (case a of OrderOpened i u \<Rightarrow> field i u | _ \<Rightarrow> ''''), log_call backend k (s\<lparr>sm_payError := None\<rparr>))))"
  by (cases "sm_selectedPlanId m"; cases "selectedServer m") (simp_all add: open_order_def order_of_def Let_def)

lemma open_order_calls:
  "open_order field backend m s = (Inr i, s') \<Longrightarrow> sm_calls s' = sm_calls s @ [store_opens m i]"
  "open_order field backend m s = (Inl e, s') \<Longrightarrow>
    sm_calls s' = sm_calls s \<or> (\<exists>c. store_fails m c \<and> sm_calls s' = sm_calls s @ [c])"
  by (cases "order_of m"; cases "backend (the (order_of m))";
      auto simp: open_order_cases store_opens_def store_fails_def log_call_def)+

lemma handleApprove_calls:
  "handleApprove backend m i s = (r, s') \<Longrightarrow> sm_calls s' = sm_calls s @ [store_settles m i (\<not> isl (backend (capture_call m i)))]"
  by (cases "backend (capture_call m i)"; cases "isExpansion m") (auto simp: handleApprove_def log_call_def store_settles_def Let_def)

interpretation storage_payment: logged_checkout "store_props backend currency m" sm_calls
    "store_fails m" "store_opens m" "store_settles m"
  for backend currency m
  by unfold_locales
    (auto simp: store_props_def handleCreateOrder_def store_onError_def dest: open_order_calls handleApprove_calls)

text \<open>The payment of a wallet: one order, settled at most once, through the pair of endpoints that belong
  together and for the amount on the sheet, whatever is selected or reloaded while the sheet is open.\<close>

theorem storage_payment_consistent:
  assumes "\<And>k t. sm_calls (between k t) = sm_calls t"
  shows "pr_amount (store_props backend currency m) = sheet_amount (if isExpansion m then depositCents m else fullPriceCents m) \<and>
    (\<exists>cs. sm_calls (runPayment (store_props backend currency m) sdk between s) = sm_calls s @ cs \<and>
      (cs = [] \<or> (\<exists>k ok. order_of m = Some k \<and> cs = [(k, ok)]) \<or>
       (\<exists>i ok. cs = [(the (order_of m), True), (if isExpansion m then CaptureExpansion i else CaptureStorage i, ok)]) \<or>
       cs = [(the (order_of m), True)]))"
proof -
  have "cs = [] \<or> (\<exists>k ok. order_of m = Some k \<and> cs = [(k, ok)]) \<or>
       (\<exists>i ok. cs = [(the (order_of m), True), (if isExpansion m then CaptureExpansion i else CaptureStorage i, ok)]) \<or>
       cs = [(the (order_of m), True)]" if "storage_payment.one_payment m cs" for cs
    using that by (auto simp: storage_payment.one_payment_def store_fails_def store_opens_def store_settles_def capture_call_def)
  moreover have "\<exists>cs. sm_calls (runPayment (store_props backend currency m) sdk between s) = sm_calls s @ cs
      \<and> storage_payment.one_payment m cs"
    using storage_payment.google_payment [of between] assms by blast
  ultimately show ?thesis by (auto simp: store_props_def amountCents_def)
qed

text \<open>The check mark of the Apple sheet says nothing here: \<open>handleApprove\<close> catches the refusal of the capture,
  so the sheet shows success for a purchase that failed, over a window that shows the error.\<close>

theorem check_mark_without_purchase:
  assumes "canPay m" and "order_of m = Some k" and "backend k = Inr (OrderOpened i u)"
    and "backend (capture_call m i) = Inl e"
  shows "check_mark (fst (apple_run [AppleClick now, PaymentAuthorized (\<lambda>q. Inr ()) id]
            (new_apple_button (store_props backend currency m) config, m)))
    \<and> sm_phase (snd (apple_run [AppleClick now, PaymentAuthorized (\<lambda>q. Inr ()) id]
            (new_apple_button (store_props backend currency m) config, m))) = Select
    \<and> sm_payError (snd (apple_run [AppleClick now, PaymentAuthorized (\<lambda>q. Inr ()) id]
            (new_apple_button (store_props backend currency m) config, m))) = Some (api_text e ''Payment capture failed'')"
proof -
  from assms(1) obtain p r where p: "sm_selectedPlanId m = Some p" "p \<noteq> []" "selectedServer m = Some r"
    by (auto simp: canPay_def)
  with assms(2) have k: "order_call m p r = k" by (simp add: order_of_def)
  have "open_order (\<lambda>i u. i) backend m m = (Inr i, log_call backend k (m\<lparr>sm_payError := None\<rparr>))"
    using p k assms(3) by (simp add: open_order_def Let_def)
  then show ?thesis
    using assms(1,4)
    by (simp add: apple_run_def new_apple_button_def open_sheet_def store_props_def apple_authorize_def handleCreateOrder_def
        handleApprove_def check_mark_def log_call_def Let_def canPay_def)
qed

definition failing_capture :: billing_backend where
  "failing_capture c = (case c of CreateStorageOrder p t i \<Rightarrow> Inr (OrderOpened ''o1'' ''u'') | _ \<Rightarrow> Inl (api_rejection ''declined''))"

theorem check_mark_without_purchase_witness:
  "check_mark (fst (apple_run [AppleClick 0, PaymentAuthorized (\<lambda>q. Inr ()) id]
     (new_apple_button (store_props failing_capture [] bought) None, bought)))"
  using check_mark_without_purchase [of bought "CreateStorageOrder ''64gb'' Nvme ''s1''" failing_capture "''o1''" "''u''" "api_rejection ''declined''"]
    bought_evals
  by (simp add: order_of_def order_call_def server_row_of_def nas_def failing_capture_def capture_call_def)

text \<open>The picker groups the rows without losing one: a server is listed once, with all its rows.\<close>

lemma push_row_mset: "mset (concat (map gr_rows (push_row gs r))) = mset (concat (map gr_rows gs)) + {#r#}"
  if "distinct (map gr_id gs)"
  using that
proof (induction gs)
  case Nil
  then show ?case by (simp add: push_row_def)
next
  case (Cons g gs)
  show ?case
  proof (cases "gr_id g = ss_id r")
    case True
    with Cons.prems have "map (\<lambda>g. if gr_id g = ss_id r then g\<lparr>gr_rows := gr_rows g @ [r]\<rparr> else g) gs = gs"
      by (intro map_idI) force
    with True show ?thesis by (simp add: push_row_def)
  next
    case False
    with Cons show ?thesis by (simp add: push_row_def split: if_splits)
  qed
qed

lemma push_row_ids: "distinct (map gr_id gs) \<Longrightarrow> distinct (map gr_id (push_row gs r))"
proof -
  assume d: "distinct (map gr_id gs)"
  have m: "map gr_id (map (\<lambda>g. if gr_id g = ss_id r then g\<lparr>gr_rows := gr_rows g @ [r]\<rparr> else g) gs) = map gr_id gs"
    by (induction gs) simp_all
  show ?thesis
  proof (cases "list_ex (\<lambda>g. gr_id g = ss_id r) gs")
    case True
    with d m show ?thesis by (simp only: push_row_def if_True)
  next
    case False
    with d show ?thesis by (auto simp: push_row_def list_ex_iff)
  qed
qed

theorem servers_grouped_once:
  "distinct (map gr_id (groupedServers s)) \<and> mset (concat (map gr_rows (groupedServers s))) = mset (rows_of s)"
proof -
  have "distinct (map gr_id (foldl push_row gs rows)) \<and>
      mset (concat (map gr_rows (foldl push_row gs rows))) = mset (concat (map gr_rows gs)) + mset rows"
    if "distinct (map gr_id gs)" for gs rows
    using that by (induction rows arbitrary: gs) (simp_all add: push_row_mset push_row_ids)
  from this [of "[]" "rows_of s"] show ?thesis by (simp add: groupedServers_def)
qed

end
