(* ===== verification/InterestForm.thy ===== *)
theory InterestForm
  imports Checkout
begin

text \<open>
  The public request for access, \<open>frontend/src/routes/interest.tsx\<close> with the calls of
  \<open>api/interest.ts\<close>: a form whose deposit is paid first, through the payment buttons or by a redirect to
  PayPal that the page resumes from, and whose request is submitted once the deposit is captured. A
  handler takes the page of its render (\<open>m\<close>) next to the page it changes, but the submission reads the
  page of its own moment, as a mutation does. The events are the user's and the answers of the backend,
  in any order.
\<close>

section \<open>Plans and deposits\<close>

record interest_plan =
  ip_id :: string
  ip_label :: string
  ip_storageGB :: nat
  ip_amount :: "storage_type \<Rightarrow> string"

definition amounts :: "string \<Rightarrow> string \<Rightarrow> storage_type \<Rightarrow> string" where
  "amounts nvme hdd t = (case t of Nvme \<Rightarrow> nvme | Hdd \<Rightarrow> hdd)"

definition PLANS :: "interest_plan list" where
  "PLANS =
     [\<lparr>ip_id = ''64gb'', ip_label = ''64 GB'', ip_storageGB = 64, ip_amount = amounts ''30.00'' ''20.00''\<rparr>,
      \<lparr>ip_id = ''128gb'', ip_label = ''128 GB'', ip_storageGB = 128, ip_amount = amounts ''50.00'' ''30.00''\<rparr>,
      \<lparr>ip_id = ''256gb'', ip_label = ''256 GB'', ip_storageGB = 256, ip_amount = amounts ''80.00'' ''50.00''\<rparr>,
      \<lparr>ip_id = ''512gb'', ip_label = ''512 GB'', ip_storageGB = 512, ip_amount = amounts ''150.00'' ''80.00''\<rparr>,
      \<lparr>ip_id = ''1tb'', ip_label = ''1 TB'', ip_storageGB = 1024, ip_amount = amounts ''250.00'' ''120.00''\<rparr>]"

definition depositAmt :: "interest_plan \<Rightarrow> storage_type \<Rightarrow> string" where
  "depositAmt p t =
     (case parseFloat (ip_amount p t) of
        Fin x \<Rightarrow> to_fixed 2 (of_int (js_round (x * 100 / 2)) / 100)
      | _ \<Rightarrow> ''NaN'')"

section \<open>The page\<close>

datatype form_step = Form | PendingStep | Submitted

record saved_interest =
  si_name :: string
  si_email :: string
  si_storageType :: storage_type
  si_selectedPlanId :: string
  si_useCase :: string

record interest_payload =
  iy_name :: string
  iy_email :: string
  iy_desired_storage_gb :: nat
  iy_storage_type :: storage_type
  iy_plan_id :: string
  iy_use_case :: string
  iy_captcha_token :: "string option"
  iy_deposit_order_id :: string

datatype interest_call =
    CreateDeposit string storage_type string
  | CaptureDeposit string
  | SubmitInterest interest_payload

record interest_page =
  in_captchaRequired :: bool         \<comment> \<open>the public configuration has a site key\<close>
  in_configLoaded :: bool
  in_name :: string
  in_email :: string
  in_storageType :: storage_type
  in_selectedPlanId :: "string option"
  in_useCase :: string
  in_captchaToken :: "string option"
  in_step :: form_step
  in_error :: "string option"
  in_showCardForm :: bool
  in_resumeOrderId :: "string option"
  in_resumeTriggered :: bool
  in_saved :: "saved_interest option"   \<comment> \<open>the entry of the session storage\<close>
  in_url :: "string option"             \<comment> \<open>the approval page the browser was sent to\<close>
  in_captchaResets :: nat
  in_calls :: "(interest_call \<times> bool) list"

definition open_form :: interest_page where
  "open_form = \<lparr>in_captchaRequired = False, in_configLoaded = False, in_name = [], in_email = [], in_storageType = Nvme,
     in_selectedPlanId = None, in_useCase = [], in_captchaToken = None, in_step = Form, in_error = None,
     in_showCardForm = False, in_resumeOrderId = None, in_resumeTriggered = False, in_saved = None, in_url = None,
     in_captchaResets = 0, in_calls = []\<rparr>"

definition selectedPlanOf :: "interest_page \<Rightarrow> interest_plan option" where
  "selectedPlanOf s = find (\<lambda>p. Some (ip_id p) = in_selectedPlanId s) PLANS"

definition blank :: "string option \<Rightarrow> bool" where
  "blank x \<longleftrightarrow> x = None \<or> x = Some []"

definition validationError :: "interest_page \<Rightarrow> string option" where
  "validationError s =
     (if in_captchaRequired s \<and> blank (in_captchaToken s) then Some ''Please complete the security check.''
      else if blank (in_selectedPlanId s) then Some ''Please select a storage plan.''
      else None)"

definition log_interest :: "interest_call \<Rightarrow> bool \<Rightarrow> interest_page \<Rightarrow> interest_page" where
  "log_interest c ok s = s\<lparr>in_calls := in_calls s @ [(c, ok)]\<rparr>"

text \<open>Creating the deposit order; \<open>answer\<close> is the order id and the approval URL. The wallets and the redirect
  send \<open>paypal\<close> for the payment method, the card form \<open>card\<close>.\<close>

definition create_deposit ::
  "(string \<Rightarrow> string \<Rightarrow> string) \<Rightarrow> string \<Rightarrow> (interest_call \<Rightarrow> thrown + string \<times> string)
    \<Rightarrow> interest_page \<Rightarrow> interest_page \<Rightarrow> (thrown + string) \<times> interest_page" where
  "create_deposit field payment_method backend m s =
     (let s0 = s\<lparr>in_error := None\<rparr>
      in case validationError m of
           Some e \<Rightarrow> (Inl (js_error e), s0\<lparr>in_error := Some e\<rparr>)
         | None \<Rightarrow>
             (let c = CreateDeposit (the (in_selectedPlanId m)) (in_storageType m) payment_method
              in case backend c of
                   Inl e \<Rightarrow> (Inl e, (log_interest c False s0)\<lparr>in_error := Some (api_text e ''Could not start checkout'')\<rparr>)
                 | Inr (i, u) \<Rightarrow> (Inr (field i u), log_interest c True s0)))"

definition interest_createOrder ::
  "(interest_call \<Rightarrow> thrown + string \<times> string) \<Rightarrow> interest_page \<Rightarrow> interest_page \<Rightarrow> (thrown + string) \<times> interest_page" where
  "interest_createOrder = create_deposit (\<lambda>i u. i) ''paypal''"

definition createCardOrder ::
  "(interest_call \<Rightarrow> thrown + string \<times> string) \<Rightarrow> interest_page \<Rightarrow> interest_page \<Rightarrow> (thrown + string) \<times> interest_page" where
  "createCardOrder = create_deposit (\<lambda>i u. i) ''card''"

text \<open>The redirect keeps the fields the order cannot hold.\<close>

definition interest_getApprovalUrl ::
  "(interest_call \<Rightarrow> thrown + string \<times> string) \<Rightarrow> interest_page \<Rightarrow> interest_page \<Rightarrow> (thrown + string) \<times> interest_page" where
  "interest_getApprovalUrl backend m s =
     (case create_deposit (\<lambda>i u. u) ''paypal'' backend m s of
        (Inl e, s') \<Rightarrow> (Inl e, s')
      | (Inr u, s') \<Rightarrow>
          (Inr u, s'\<lparr>in_saved := Some \<lparr>si_name = in_name m, si_email = in_email m, si_storageType = in_storageType m,
             si_selectedPlanId = the (in_selectedPlanId m), si_useCase = in_useCase m\<rparr>\<rparr>))"

text \<open>The request the mutation sends, read off the page at that moment. A plan that is not one of \<open>PLANS\<close>
  makes the mutation throw before a call.\<close>

definition interest_payload_of :: "interest_page \<Rightarrow> string \<Rightarrow> interest_payload option" where
  "interest_payload_of s orderId =
     map_option (\<lambda>p. \<lparr>iy_name = trim (in_name s), iy_email = trim (in_email s), iy_desired_storage_gb = ip_storageGB p,
       iy_storage_type = in_storageType s, iy_plan_id = ip_id p, iy_use_case = trim (in_useCase s),
       iy_captcha_token = in_captchaToken s, iy_deposit_order_id = orderId\<rparr>) (selectedPlanOf s)"

definition submit_fails :: "string \<Rightarrow> interest_page \<Rightarrow> interest_page" where
  "submit_fails msg s =
     s\<lparr>in_error := Some msg, in_step := Form, in_captchaResets := in_captchaResets s + 1, in_captchaToken := None\<rparr>"

definition submit_interest :: "thrown + unit \<Rightarrow> string \<Rightarrow> interest_page \<Rightarrow> interest_page" where
  "submit_interest answer orderId s =
     (let general = ''Something went wrong '' @ em_dash @ '' please try again.''
      in case interest_payload_of s orderId of
           None \<Rightarrow> submit_fails general s
         | Some y \<Rightarrow>
             (case answer of
                Inl e \<Rightarrow> submit_fails (api_text e general) (log_interest (SubmitInterest y) False s)
              | Inr _ \<Rightarrow> (log_interest (SubmitInterest y) True s)\<lparr>in_step := Submitted\<rparr>))"

text \<open>\<open>handleDepositApprove\<close> resolves in any case; the submission runs on its own. \<open>between\<close>: what the user
  does while the capture is awaited.\<close>

definition handleDepositApprove ::
  "thrown + unit \<Rightarrow> (interest_page \<Rightarrow> interest_page) \<Rightarrow> thrown + unit \<Rightarrow> string \<Rightarrow> interest_page \<Rightarrow> (thrown + unit) \<times> interest_page" where
  "handleDepositApprove captured between submitted orderId s =
     (let s1 = between (s\<lparr>in_step := PendingStep\<rparr>)
      in (Inr (),
          case captured of
            Inl e \<Rightarrow> (log_interest (CaptureDeposit orderId) False s1)
                       \<lparr>in_error := Some (''Payment could not be completed '' @ em_dash @ '' please try again.''), in_step := Form\<rparr>
          | Inr _ \<Rightarrow> submit_interest submitted orderId (log_interest (CaptureDeposit orderId) True s1)))"

definition handleChooseCard :: "interest_page \<Rightarrow> interest_page" where
  "handleChooseCard s =
     (case validationError s of
        Some e \<Rightarrow> s\<lparr>in_error := Some e\<rparr>
      | None \<Rightarrow> s\<lparr>in_error := None, in_showCardForm := True\<rparr>)"

section \<open>Coming back from PayPal\<close>

definition resume_mount :: "string option \<Rightarrow> string option \<Rightarrow> interest_page \<Rightarrow> interest_page" where
  "resume_mount token cancelled s =
     (if blank token \<and> blank cancelled then s
      else if \<not> blank cancelled then s\<lparr>in_saved := None\<rparr>
      else case in_saved s of
        None \<Rightarrow> s\<lparr>in_error := Some (''Your payment may have gone through, but we couldn't recover your request. ''
          @ ''Please contact support with this reference: '' @ the token)\<rparr>
      | Some v \<Rightarrow> s\<lparr>in_saved := None, in_name := si_name v, in_email := si_email v, in_storageType := si_storageType v,
          in_selectedPlanId := Some (si_selectedPlanId v), in_useCase := si_useCase v, in_resumeOrderId := token\<rparr>)"

definition resume_ready :: "interest_page \<Rightarrow> bool" where
  "resume_ready s \<longleftrightarrow> in_configLoaded s \<and> \<not> blank (in_resumeOrderId s) \<and> \<not> in_resumeTriggered s
     \<and> \<not> (in_captchaRequired s \<and> blank (in_captchaToken s))"

definition resume_effect ::
  "thrown + unit \<Rightarrow> (interest_page \<Rightarrow> interest_page) \<Rightarrow> thrown + unit \<Rightarrow> interest_page \<Rightarrow> interest_page" where
  "resume_effect captured between submitted s =
     (if \<not> resume_ready s then s
      else snd (handleDepositApprove captured between submitted (the (in_resumeOrderId s))
        (s\<lparr>in_resumeTriggered := True, in_resumeOrderId := None\<rparr>)))"

section \<open>Events\<close>

datatype interest_event =
    InterestConfig bool
  | TypeName string
  | TypeEmail string
  | TypeUseCase string
  | ChooseType storage_type
  | ChoosePlan string
  | CaptchaSolved string
  | CaptchaGone
  | OrderCreated bool interest_page "thrown + string \<times> string"   \<comment> \<open>by card or wallet, in the closure of a render\<close>
  | Redirected interest_page "thrown + string \<times> string"
  | ReportError string
  | DepositApproved string "thrown + unit" "thrown + unit"
  | ChooseCard
  | CloseCard
  | Resume "thrown + unit" "thrown + unit"

fun interest_step :: "interest_event \<Rightarrow> interest_page \<Rightarrow> interest_page" where
  "interest_step (InterestConfig b) s = s\<lparr>in_configLoaded := True, in_captchaRequired := b\<rparr>"
| "interest_step (TypeName v) s = s\<lparr>in_name := v\<rparr>"
| "interest_step (TypeEmail v) s = s\<lparr>in_email := v\<rparr>"
| "interest_step (TypeUseCase v) s = s\<lparr>in_useCase := v\<rparr>"
| "interest_step (ChooseType t) s = s\<lparr>in_storageType := t\<rparr>"
| "interest_step (ChoosePlan i) s = (if list_ex (\<lambda>p. ip_id p = i) PLANS then s\<lparr>in_selectedPlanId := Some i\<rparr> else s)"
| "interest_step (CaptchaSolved t) s = s\<lparr>in_captchaToken := Some t\<rparr>"
| "interest_step CaptchaGone s = s\<lparr>in_captchaToken := None\<rparr>"
| "interest_step (OrderCreated byCard m a) s =
     snd (if byCard then createCardOrder (\<lambda>c. a) m s else interest_createOrder (\<lambda>c. a) m s)"
| "interest_step (Redirected m a) s = snd (interest_getApprovalUrl (\<lambda>c. a) m s)"
| "interest_step (ReportError msg) s = s\<lparr>in_error := Some msg\<rparr>"
| "interest_step (DepositApproved i captured submitted) s = snd (handleDepositApprove captured id submitted i s)"
| "interest_step ChooseCard s = handleChooseCard s"
| "interest_step CloseCard s = (if in_step s = PendingStep then s else s\<lparr>in_showCardForm := False, in_error := None\<rparr>)"
| "interest_step (Resume captured submitted) s = resume_effect captured id submitted s"

definition interest_run :: "interest_event list \<Rightarrow> interest_page \<Rightarrow> interest_page" where
  "interest_run es s = fold interest_step es s"

section \<open>Properties\<close>

definition is_submission :: "interest_call \<Rightarrow> bool" where
  "is_submission c \<longleftrightarrow> (case c of SubmitInterest y \<Rightarrow> True | _ \<Rightarrow> False)"

definition paid_by :: "(interest_call \<times> bool) option \<Rightarrow> interest_call \<Rightarrow> bool" where
  "paid_by prev c \<longleftrightarrow>
     (case c of SubmitInterest y \<Rightarrow> prev = Some (CaptureDeposit (iy_deposit_order_id y), True) | _ \<Rightarrow> True)"

fun deposits_first :: "(interest_call \<times> bool) option \<Rightarrow> (interest_call \<times> bool) list \<Rightarrow> bool" where
  "deposits_first prev [] \<longleftrightarrow> True"
| "deposits_first prev (c # cs) \<longleftrightarrow> paid_by prev (fst c) \<and> deposits_first (Some c) cs"

lemma deposits_first_append: "deposits_first prev (cs @ [c]) \<longleftrightarrow>
    deposits_first prev cs \<and> paid_by (if cs = [] then prev else Some (last cs)) (fst c)"
  by (induction cs arbitrary: prev) auto

lemma not_submission [simp]:
  "\<not> is_submission (CreateDeposit p t x)" "\<not> is_submission (CaptureDeposit i)" "is_submission (SubmitInterest y)"
  "paid_by prev (CreateDeposit p t x)" "paid_by prev (CaptureDeposit i)"
  by (simp_all add: is_submission_def paid_by_def)

definition deposit_inv :: "interest_page \<Rightarrow> bool" where
  "deposit_inv s \<longleftrightarrow> deposits_first None (in_calls s)
     \<and> (in_step s = Submitted \<longrightarrow> list_ex (\<lambda>(c, ok). ok \<and> is_submission c) (in_calls s))"

lemma create_deposit_inv: "deposit_inv s \<Longrightarrow> deposit_inv (snd (create_deposit field pm backend m s))"
  by (auto simp: create_deposit_def deposit_inv_def log_interest_def deposits_first_append Let_def
      split: option.split sum.split prod.split)

lemma submit_interest_inv:
  assumes "deposits_first None (in_calls s)" "in_calls s \<noteq> []" "last (in_calls s) = (CaptureDeposit i, True)" "in_step s \<noteq> Submitted"
  shows "deposit_inv (submit_interest a i s)"
proof (cases "interest_payload_of s i")
  case None
  with assms show ?thesis by (simp add: submit_interest_def submit_fails_def deposit_inv_def Let_def)
next
  case (Some y)
  then have "paid_by (Some (last (in_calls s))) (SubmitInterest y)"
    using assms(3) by (auto simp: interest_payload_of_def paid_by_def)
  with Some assms show ?thesis
    by (cases a) (simp_all add: submit_interest_def submit_fails_def deposit_inv_def deposits_first_append log_interest_def Let_def)
qed

lemma approve_inv: "deposit_inv s \<Longrightarrow> deposit_inv (snd (handleDepositApprove captured id submitted i s))"
proof -
  assume s: "deposit_inv s"
  show ?thesis
  proof (cases captured)
    case (Inl e)
    with s show ?thesis by (simp add: handleDepositApprove_def deposit_inv_def log_interest_def deposits_first_append Let_def)
  next
    case (Inr u)
    have "deposit_inv (submit_interest submitted i (log_interest (CaptureDeposit i) True (s\<lparr>in_step := PendingStep\<rparr>)))"
      by (rule submit_interest_inv) (use s in \<open>simp_all add: deposit_inv_def log_interest_def deposits_first_append\<close>)
    with Inr show ?thesis by (simp add: handleDepositApprove_def Let_def)
  qed
qed

lemma interest_step_inv: "deposit_inv s \<Longrightarrow> deposit_inv (interest_step e s)"
proof (cases e)
  case (OrderCreated byCard m a)
  assume "deposit_inv s"
  with OrderCreated show ?thesis by (simp add: createCardOrder_def interest_createOrder_def create_deposit_inv)
next
  case (Redirected m a)
  assume "deposit_inv s"
  with create_deposit_inv [of s "\<lambda>i u. u" "''paypal''" "\<lambda>c. a" m] Redirected show ?thesis
    by (auto simp: interest_getApprovalUrl_def deposit_inv_def split: prod.split sum.split)
next
  case (DepositApproved i captured submitted)
  assume "deposit_inv s"
  with DepositApproved show ?thesis by (simp add: approve_inv)
next
  case (Resume captured submitted)
  assume "deposit_inv s"
  then have "deposit_inv (s\<lparr>in_resumeTriggered := True, in_resumeOrderId := None\<rparr>)" by (simp add: deposit_inv_def)
  with \<open>deposit_inv s\<close> Resume show ?thesis by (simp add: resume_effect_def approve_inv)
qed (auto simp: deposit_inv_def handleChooseCard_def split: option.split)

lemma interest_run_inv: "deposit_inv (interest_run es open_form)"
proof -
  have "deposit_inv s \<Longrightarrow> deposit_inv (fold interest_step es s)" for s
    by (induction es arbitrary: s) (simp_all add: interest_step_inv)
  then show ?thesis by (simp add: interest_run_def open_form_def deposit_inv_def)
qed

text \<open>C16. No request without its deposit: in every run each request that is sent follows, immediately, an accepted
  capture of the very order it names; and the page says that the request was received only when the backend
  accepted one.\<close>

theorem no_request_without_deposit:
  "deposits_first None (in_calls (interest_run es open_form))
   \<and> (in_step (interest_run es open_form) \<noteq> Submitted \<or>
      list_ex (\<lambda>(c, ok). ok \<and> is_submission c) (in_calls (interest_run es open_form)))"
  using interest_run_inv [of es] by (auto simp: deposit_inv_def)

text \<open>Coming back from PayPal restores the form: what the redirect kept is what the page shows again, and the
  deposit is captured and the request sent with exactly those fields once the security check is solved.\<close>

theorem redirect_resumes:
  assumes "interest_getApprovalUrl backend m s = (Inr u, s')" "i \<noteq> []"
  shows "let r = resume_mount (Some i) None (open_form\<lparr>in_saved := in_saved s'\<rparr>)
    in in_name r = in_name m \<and> in_email r = in_email m \<and> in_storageType r = in_storageType m
       \<and> in_selectedPlanId r = in_selectedPlanId m \<and> in_useCase r = in_useCase m
       \<and> in_resumeOrderId r = Some i \<and> in_saved r = None"
proof -
  from assms have "validationError m = None" and
    s: "in_saved s' = Some \<lparr>si_name = in_name m, si_email = in_email m, si_storageType = in_storageType m,
             si_selectedPlanId = the (in_selectedPlanId m), si_useCase = in_useCase m\<rparr>"
    by (auto simp: interest_getApprovalUrl_def create_deposit_def Let_def split: option.splits sum.splits prod.splits)
  then have "in_selectedPlanId m = Some (the (in_selectedPlanId m))"
    by (auto simp: validationError_def blank_def split: if_splits)
  with s assms(2) show ?thesis by (simp add: resume_mount_def blank_def Let_def)
qed

definition filled_form :: interest_page where
  "filled_form = interest_run [InterestConfig False, TypeName ''Jane'', TypeEmail ''j@x.y'', ChoosePlan ''64gb'', TypeUseCase ''docs''] open_form"

lemma filled_evals:
  "validationError filled_form = None" "in_name filled_form = ''Jane''" "in_email filled_form = ''j@x.y''"
  "in_selectedPlanId filled_form = Some ''64gb''" "in_storageType filled_form = Nvme" "in_useCase filled_form = ''docs''"
  by code_simp+

theorem redirect_resumes_witness:
  "in_email (resume_mount (Some ''o1'') None (open_form\<lparr>in_saved :=
     in_saved (snd (interest_getApprovalUrl (\<lambda>c. Inr (''o1'', ''u'')) filled_form filled_form))\<rparr>)) = ''j@x.y''"
proof -
  have "interest_getApprovalUrl (\<lambda>c. Inr (''o1'', ''u'')) filled_form filled_form
      = (Inr ''u'', snd (interest_getApprovalUrl (\<lambda>c. Inr (''o1'', ''u'')) filled_form filled_form))"
    by (simp add: interest_getApprovalUrl_def create_deposit_def filled_evals Let_def)
  from redirect_resumes [OF this, of "''o1''"] show ?thesis by (simp add: Let_def filled_evals)
qed

text \<open>The deposit of a form without a name is captured, and the request then refused by a backend that demands
  one: nothing checks the required fields before the payment, and the form that comes back can only be
  submitted with another deposit.\<close>

definition nameless_run :: interest_page where
  "nameless_run = (let m = interest_run [InterestConfig False, ChoosePlan ''64gb''] open_form
     in interest_run [OrderCreated False m (Inr (''o1'', ''u'')), DepositApproved ''o1'' (Inr ()) (Inl (api_rejection ''invalid request''))] m)"

theorem nameless_request_takes_deposit:
  "map snd (in_calls nameless_run) = [True, True, False] \<and> in_step nameless_run = Form
   \<and> in_error nameless_run = Some ''invalid request'' \<and> in_resumeOrderId nameless_run = None
   \<and> (case fst (last (in_calls nameless_run)) of SubmitInterest y \<Rightarrow> iy_name y = [] \<and> iy_use_case y = [] | _ \<Rightarrow> False)"
  by code_simp

definition paid_events :: "interest_event list" where
  "paid_events = [InterestConfig False, TypeName ''Jane'', TypeEmail ''j@x.y'', ChoosePlan ''64gb'', TypeUseCase ''docs'',
     OrderCreated False filled_form (Inr (''o1'', ''u'')), DepositApproved ''o1'' (Inr ()) (Inr ())]"

theorem no_request_without_deposit_witness:
  "list_ex (\<lambda>(c, ok). ok \<and> is_submission c) (in_calls (interest_run paid_events open_form))"
proof -
  have "in_step (interest_run paid_events open_form) = Submitted" by code_simp
  with no_request_without_deposit [of paid_events] show ?thesis by simp
qed

text \<open>The request names the plan of its own moment: a plan chosen while the deposit is captured is requested
  with the deposit of another one.\<close>

definition switched_run :: interest_page where
  "switched_run = snd (handleDepositApprove (Inr ()) (interest_step (ChoosePlan ''1tb'')) (Inr ()) ''o1''
     (interest_step (OrderCreated False filled_form (Inr (''o1'', ''u''))) filled_form))"

theorem deposit_of_another_plan:
  "map fst (in_calls switched_run) =
     [CreateDeposit ''64gb'' Nvme ''paypal'', CaptureDeposit ''o1'',
      SubmitInterest \<lparr>iy_name = ''Jane'', iy_email = ''j@x.y'', iy_desired_storage_gb = 1024, iy_storage_type = Nvme,
        iy_plan_id = ''1tb'', iy_use_case = ''docs'', iy_captcha_token = None, iy_deposit_order_id = ''o1''\<rparr>]"
  by code_simp

text \<open>The deposit shown is half the price of the plan, to the cent.\<close>

lemmas parse_defs = parseFloat_def scan_signed_def scan_unsigned_def scan_exponent_def is_digit_def is_space_def
  starts_with_def digits_val_def digit_val_def scale10_def

lemma prices_parse:
  "parseFloat ''30.00'' = Fin 30" "parseFloat ''20.00'' = Fin 20" "parseFloat ''50.00'' = Fin 50"
  "parseFloat ''80.00'' = Fin 80" "parseFloat ''150.00'' = Fin 150" "parseFloat ''250.00'' = Fin 250"
  "parseFloat ''120.00'' = Fin 120"
  by (simp_all add: parse_defs)

lemma deposit_cents: "parseFloat (ip_amount p t) = Fin (of_nat (2 * n)) \<Longrightarrow>
    depositAmt p t = show_nat (n * 100 div 100) @ ''.'' @ pad_digits 2 (show_nat (n * 100 mod 100))"
proof -
  assume a: "parseFloat (ip_amount p t) = Fin (of_nat (2 * n))"
  have "js_round (of_nat (2 * n) * 100 / 2) = int (n * 100)"
    using js_round_of_int [of "int (n * 100)"] by (simp add: mult.commute)
  with a to_fixed_cents [of "n * 100"] show ?thesis by (simp add: depositAmt_def)
qed

theorem deposits_are_half:
  "map (\<lambda>p. (depositAmt p Nvme, depositAmt p Hdd)) PLANS =
     [(''15.00'', ''10.00''), (''25.00'', ''15.00''), (''40.00'', ''25.00''), (''75.00'', ''40.00''), (''125.00'', ''60.00'')]"
  by (simp add: PLANS_def amounts_def prices_parse deposit_cents [where n = 15] deposit_cents [where n = 10]
      deposit_cents [where n = 25] deposit_cents [where n = 40] deposit_cents [where n = 75]
      deposit_cents [where n = 125] deposit_cents [where n = 60] pad_digits_def show_nat.simps char_of_def bit_0)

end
