(* ===== verification/AdminPricing.thy ===== *)
theory AdminPricing
  imports Pricing Decimals
begin

text \<open>
  The administrator's price list, \<open>frontend/src/routes/_auth.admin/pricing.tsx\<close>: the editor of a line
  item, which shows a quantity and a price as texts and saves what they parse to, the form for a new
  item, the controls that propose a discount, and the window that confirms it with its expiry and the
  groups to notify. Sizes and prices are exact numbers. The days of a calendar are numbered, \<open>end_of_day\<close>
  is the time stamp of the last millisecond of one.
\<close>

section \<open>Quantities\<close>

definition GB_BYTES :: nat where "GB_BYTES = 1024 ^ 3"
definition TB_BYTES :: nat where "TB_BYTES = 1024 ^ 4"

datatype qty_unit = UnitGB | UnitTB

definition unit_bytes :: "qty_unit \<Rightarrow> nat" where
  "unit_bytes u = (case u of UnitGB \<Rightarrow> GB_BYTES | UnitTB \<Rightarrow> TB_BYTES)"

record qty_draft =
  qd_qty :: string
  qd_unit :: qty_unit
  qd_price :: string

text \<open>The trailing zeros, and a point they leave, are cut by \<open>replace(/\.?0+$/, '')\<close>.\<close>

definition cut_zeros :: "string \<Rightarrow> string" where
  "cut_zeros s =
     (let r = dropWhile (\<lambda>c. c = CHR ''0'') (rev s)
      in if r = rev s then s
         else rev (case r of c # cs \<Rightarrow> if c = CHR ''.'' then cs else r | [] \<Rightarrow> []))"

definition formatBytesLabel :: "nat \<Rightarrow> string" where
  "formatBytesLabel b =
     (if TB_BYTES \<le> b then
        (if b mod TB_BYTES = 0 then show_nat (b div TB_BYTES)
         else cut_zeros (to_fixed 2 (of_nat b / of_nat TB_BYTES))) @ '' TB''
      else show_nat (nat (js_round (of_nat b / of_nat GB_BYTES))) @ '' GB'')"

text \<open>\<open>String(Number.isInteger(q) ? q : Number(q.toFixed(2)))\<close>: the rounding to hundredths is that of
  \<open>toFixed\<close>.\<close>

definition qty_text :: "nat \<Rightarrow> qty_unit \<Rightarrow> string" where
  "qty_text b u =
     (if b mod unit_bytes u = 0 then show_nat (b div unit_bytes u)
      else show_hundredths (nat \<lfloor>of_nat b / of_nat (unit_bytes u) * 100 + 1 / 2 :: rat\<rfloor>))"

definition unit_for :: "nat \<Rightarrow> qty_unit" where
  "unit_for b = (if TB_BYTES \<le> b then UnitTB else UnitGB)"

definition draftFromItem :: "pricing_item \<Rightarrow> qty_draft" where
  "draftFromItem item =
     \<lparr>qd_qty = qty_text (pi_bytes item) (unit_for (pi_bytes item)), qd_unit = unit_for (pi_bytes item),
      qd_price = to_fixed 2 (of_int (pi_price_cents item) / 100)\<rparr>"

definition draftBytes :: "qty_draft \<Rightarrow> int" where
  "draftBytes d =
     (case parseFloat (qd_qty d) of
        Fin n \<Rightarrow> if n \<le> 0 then 0 else js_round (n * of_nat (unit_bytes (qd_unit d)))
      | _ \<Rightarrow> 0)"

definition draftCents :: "qty_draft \<Rightarrow> int" where
  "draftCents d =
     (case parseFloat (qd_price d) of
        Fin n \<Rightarrow> if n < 0 then - 1 else js_round (n * 100)
      | _ \<Rightarrow> - 1)"

section \<open>The row of an item\<close>

record item_update =
  iu_bytes :: int
  iu_price_cents :: int
  iu_sort_order :: int

definition draft_dirty :: "pricing_item \<Rightarrow> qty_draft \<Rightarrow> bool" where
  "draft_dirty item d \<longleftrightarrow> draftBytes d \<noteq> int (pi_bytes item) \<or> draftCents d \<noteq> pi_price_cents item"

definition draft_valid :: "qty_draft \<Rightarrow> bool" where
  "draft_valid d \<longleftrightarrow> 0 < draftBytes d \<and> 0 \<le> draftCents d"

text \<open>The save button shows for a changed draft; its request, when it is enabled.\<close>

definition save_item :: "pricing_item \<Rightarrow> qty_draft \<Rightarrow> bool \<Rightarrow> item_update option" where
  "save_item item d saving =
     (if draft_dirty item d \<and> draft_valid d \<and> \<not> saving
      then Some \<lparr>iu_bytes = draftBytes d, iu_price_cents = draftCents d, iu_sort_order = pi_sort_order item\<rparr>
      else None)"

record new_item =
  nw_server_id :: string
  nw_storage_type :: string
  nw_bytes :: int
  nw_price_cents :: int
  nw_sort_order :: nat

record tier_section =
  tn_adding :: bool
  tn_draft :: qty_draft
  tn_creating :: bool
  tn_toast :: "(bool \<times> string) option"

definition empty_draft :: qty_draft where
  "empty_draft = \<lparr>qd_qty = [], qd_unit = UnitGB, qd_price = []\<rparr>"

definition add_item :: "string \<Rightarrow> string \<Rightarrow> pricing_item list \<Rightarrow> tier_section \<Rightarrow> new_item option \<times> tier_section" where
  "add_item serverId tier tier_items s =
     (if tn_adding s \<and> draft_valid (tn_draft s) \<and> \<not> tn_creating s
      then (Some \<lparr>nw_server_id = serverId, nw_storage_type = tier, nw_bytes = draftBytes (tn_draft s),
              nw_price_cents = draftCents (tn_draft s), nw_sort_order = length tier_items\<rparr>, s\<lparr>tn_creating := True\<rparr>)
      else (None, s))"

definition item_added :: "string + unit \<Rightarrow> tier_section \<Rightarrow> tier_section" where
  "item_added answer s =
     (case answer of
        Inr _ \<Rightarrow> s\<lparr>tn_adding := False, tn_draft := empty_draft, tn_creating := False, tn_toast := Some (True, ''Line item added'')\<rparr>
      | Inl m \<Rightarrow> s\<lparr>tn_creating := False, tn_toast := Some (False, if m = [] then ''Failed to add line item'' else m)\<rparr>)"

section \<open>Proposing a discount\<close>

record pending_discount =
  pn_scope :: discount_scope
  pn_storageType :: "string option"
  pn_itemId :: "string option"
  pn_mode :: discount_mode
  pn_value :: int

record discount_control =
  dc_percent :: int
  dc_price :: string

definition control_value :: "discount_mode \<Rightarrow> discount_control \<Rightarrow> int option" where
  "control_value m c =
     (if m = PercentMode then (if 1 \<le> dc_percent c \<and> dc_percent c \<le> 99 then Some (dc_percent c) else None)
      else (case parseFloat (if dc_price c = [] then ''NaN'' else dc_price c) of
              Fin n \<Rightarrow> if 0 \<le> js_round (n * 100) then Some (js_round (n * 100)) else None
            | _ \<Rightarrow> None))"

text \<open>The three places a control stands in.\<close>

datatype control_place = WholeServer | WholeTier string | OneItem pricing_item

definition propose :: "control_place \<Rightarrow> discount_mode \<Rightarrow> int \<Rightarrow> pending_discount" where
  "propose place m v =
     (case place of
        WholeServer \<Rightarrow> \<lparr>pn_scope = ServerScope, pn_storageType = None, pn_itemId = None, pn_mode = m, pn_value = v\<rparr>
      | WholeTier t \<Rightarrow> \<lparr>pn_scope = TierScope, pn_storageType = Some t, pn_itemId = None, pn_mode = m, pn_value = v\<rparr>
      | OneItem i \<Rightarrow> \<lparr>pn_scope = ItemScope, pn_storageType = Some (pi_storage_type i), pn_itemId = Some (pi_id i),
                      pn_mode = m, pn_value = v\<rparr>)"

definition tiers_shown :: "string list \<Rightarrow> pricing_item list \<Rightarrow> string list" where
  "tiers_shown server_tiers items' =
     filter (\<lambda>t. t \<in> set server_tiers \<or> list_ex (\<lambda>i. pi_storage_type i = t) items') [''nvme'', ''hdd'']"

section \<open>Confirming it\<close>

datatype notify_group = NotifyAll | NotifyServer | NotifyServerTier

record discount_confirm =
  cf_pending :: pending_discount
  cf_expiry :: "int option"
  cf_notifyAll :: bool
  cf_notifyServer :: bool
  cf_notifyTier :: bool
  cf_premiumOnly :: bool
  cf_creating :: bool

definition open_confirm :: "pending_discount \<Rightarrow> discount_confirm" where
  "open_confirm p = \<lparr>cf_pending = p, cf_expiry = None, cf_notifyAll = False, cf_notifyServer = False,
     cf_notifyTier = False, cf_premiumOnly = False, cf_creating = False\<rparr>"

definition serverChecked :: "discount_confirm \<Rightarrow> bool" where
  "serverChecked s \<longleftrightarrow> cf_notifyAll s \<or> cf_notifyServer s"

definition tierChecked :: "discount_confirm \<Rightarrow> bool" where
  "tierChecked s \<longleftrightarrow> cf_notifyAll s \<or> cf_notifyServer s \<or> cf_notifyTier s"

definition notifyGroup :: "discount_confirm \<Rightarrow> notify_group option" where
  "notifyGroup s =
     (if cf_notifyAll s then Some NotifyAll
      else if cf_notifyServer s then Some NotifyServer
      else if cf_notifyTier s then Some NotifyServerTier
      else None)"

definition hasTier :: "discount_confirm \<Rightarrow> bool" where
  "hasTier s \<longleftrightarrow> pn_scope (cf_pending s) \<noteq> ServerScope"

definition affected :: "pending_discount \<Rightarrow> pricing_item list \<Rightarrow> pricing_item list" where
  "affected p items' =
     filter (\<lambda>i. if pn_scope p = ItemScope then Some (pi_id i) = pn_itemId p
                 else if pn_scope p = TierScope then Some (pi_storage_type i) = pn_storageType p
                 else True) items'"

definition fakeDiscount :: "string \<Rightarrow> discount_confirm \<Rightarrow> pricing_discount" where
  "fakeDiscount server_id s =
     (let p = cf_pending s
      in \<lparr>pd_id = [], pd_scope = pn_scope p, pd_server_id = server_id, pd_storage_type = pn_storageType p,
          pd_item_id = pn_itemId p, pd_mode = pn_mode p,
          pd_percent_off = (if pn_mode p = PercentMode then Some (of_int (pn_value p)) else None),
          pd_price_cents = (if pn_mode p = PriceMode then Some (pn_value p) else None),
          pd_premium_only = cf_premiumOnly s, pd_expires_at = None, pd_notify_group = None, pd_created_by = [],
          pd_created_at = []\<rparr>)"

definition preview_cents :: "string \<Rightarrow> discount_confirm \<Rightarrow> pricing_item \<Rightarrow> int" where
  "preview_cents server_id s i = discountedCents (fakeDiscount server_id s) (pi_price_cents i)"

definition priceTooHigh :: "pending_discount \<Rightarrow> pricing_item list \<Rightarrow> bool" where
  "priceTooHigh p items' \<longleftrightarrow>
     pn_scope p = ItemScope \<and> pn_mode p = PriceMode \<and> affected p items' \<noteq> []
     \<and> pi_price_cents (hd (affected p items')) \<le> pn_value p"

record discount_input =
  dn_scope :: discount_scope
  dn_server_id :: "string option"
  dn_storage_type :: "string option"
  dn_item_id :: "string option"
  dn_mode :: discount_mode
  dn_percent_off :: "int option"
  dn_price_cents :: "int option"
  dn_premium_only :: bool
  dn_expires_at :: "int option"
  dn_notify :: "notify_group option"

definition discount_input_of :: "string \<Rightarrow> discount_confirm \<Rightarrow> discount_input" where
  "discount_input_of server_id s =
     (let p = cf_pending s
      in \<lparr>dn_scope = pn_scope p,
          dn_server_id = (if pn_scope p = ItemScope then None else Some server_id),
          dn_storage_type = (if pn_scope p = TierScope then pn_storageType p else None),
          dn_item_id = (if pn_scope p = ItemScope then pn_itemId p else None),
          dn_mode = pn_mode p,
          dn_percent_off = (if pn_mode p = PercentMode then Some (pn_value p) else None),
          dn_price_cents = (if pn_mode p = PercentMode then None else Some (pn_value p)),
          dn_premium_only = cf_premiumOnly s, dn_expires_at = cf_expiry s, dn_notify = notifyGroup s\<rparr>)"

definition confirm_enabled :: "pricing_item list \<Rightarrow> discount_confirm \<Rightarrow> bool" where
  "confirm_enabled items' s \<longleftrightarrow>
     \<not> cf_creating s \<and> \<not> priceTooHigh (cf_pending s) items' \<and> affected (cf_pending s) items' \<noteq> []"

datatype confirm_event =
    CheckAll bool
  | CheckServer bool
  | CheckTier bool
  | CheckPremium bool
  | PickDay nat
  | ClearExpiry

text \<open>The calendar disables the days before \<open>today\<close>.\<close>

fun confirm_step :: "(nat \<Rightarrow> int) \<Rightarrow> nat \<Rightarrow> confirm_event \<Rightarrow> discount_confirm \<Rightarrow> discount_confirm" where
  "confirm_step end_of_day today (CheckAll b) s = s\<lparr>cf_notifyAll := b\<rparr>"
| "confirm_step end_of_day today (CheckServer b) s = (if cf_notifyAll s then s else s\<lparr>cf_notifyServer := b\<rparr>)"
| "confirm_step end_of_day today (CheckTier b) s =
     (if \<not> hasTier s \<or> cf_notifyAll s \<or> cf_notifyServer s then s else s\<lparr>cf_notifyTier := b\<rparr>)"
| "confirm_step end_of_day today (CheckPremium b) s = s\<lparr>cf_premiumOnly := b\<rparr>"
| "confirm_step end_of_day today (PickDay d) s = (if d < today then s else s\<lparr>cf_expiry := Some (end_of_day d)\<rparr>)"
| "confirm_step end_of_day today ClearExpiry s = s\<lparr>cf_expiry := None\<rparr>"

definition confirm_run :: "(nat \<Rightarrow> int) \<Rightarrow> nat \<Rightarrow> confirm_event list \<Rightarrow> discount_confirm \<Rightarrow> discount_confirm" where
  "confirm_run end_of_day today es s = fold (confirm_step end_of_day today) es s"

definition created_toast :: "nat \<Rightarrow> string" where
  "created_toast notified =
     (if 0 < notified
      then ''Discount created '' @ em_dash @ '' '' @ show_nat notified @ '' user'' @ (if notified = 1 then '''' else ''s'') @ '' notified''
      else ''Discount created'')"

text \<open>The cells of a month: blanks up to its first weekday, then its days.\<close>

definition calendar_cells :: "nat \<Rightarrow> nat \<Rightarrow> nat option list" where
  "calendar_cells firstDay daysInMonth = replicate firstDay None @ map Some [1..<daysInMonth + 1]"

section \<open>Properties\<close>

lemma unit_pos: "0 < unit_bytes u"
  by (cases u) (simp_all add: unit_bytes_def GB_BYTES_def TB_BYTES_def)

lemma qty_text_parses:
  assumes "100 * b = k * unit_bytes u"
  shows "parseFloat (qty_text b u) = Fin (of_nat k / 100)"
proof -
  have u: "(of_nat (unit_bytes u) :: rat) \<noteq> 0" using unit_pos [of u] by simp
  have "(100 * of_nat b :: rat) = of_nat k * of_nat (unit_bytes u)" using arg_cong [OF assms, of "of_nat :: nat \<Rightarrow> rat"] by simp
  with u have q: "of_nat b / of_nat (unit_bytes u) * 100 = (of_nat k :: rat)" by (simp add: field_simps)
  have "\<lfloor>of_nat k + 1 / 2 :: rat\<rfloor> = int k" by (rule floor_unique) simp_all
  with q have f: "nat \<lfloor>of_nat b / of_nat (unit_bytes u) * 100 + 1 / 2 :: rat\<rfloor> = k" by simp
  show ?thesis
  proof (cases "b mod unit_bytes u = 0")
    case True
    then obtain j where "b = unit_bytes u * j" by (auto simp: mod_eq_0_iff_dvd elim: dvdE)
    then have j: "b = j * unit_bytes u" by simp
    with assms unit_pos [of u] have "k = 100 * j" by simp
    with True j unit_pos [of u] show ?thesis by (simp add: qty_text_def parseFloat_show_nat)
  next
    case False
    with f show ?thesis by (simp add: qty_text_def parseFloat_show_hundredths)
  qed
qed

lemma draft_bytes_exact:
  assumes "100 * pi_bytes item = k * unit_bytes (unit_for (pi_bytes item))"
  shows "draftBytes (draftFromItem item) = int (pi_bytes item)"
proof (cases "pi_bytes item = 0")
  case True
  with assms have "k = 0" using unit_pos [of "unit_for (pi_bytes item)"] by simp
  then show ?thesis using qty_text_parses [OF assms] True by (simp add: draftBytes_def draftFromItem_def)
next
  case False
  let ?u = "unit_bytes (unit_for (pi_bytes item))"
  from False assms have k: "0 < k" by (cases k) auto
  have "of_nat k / 100 * of_nat ?u = (of_nat (pi_bytes item) :: rat)"
    using arg_cong [OF assms, of "of_nat :: nat \<Rightarrow> rat"] by simp
  then show ?thesis
    using qty_text_parses [OF assms] k js_round_of_int [of "int (pi_bytes item)"]
    by (simp add: draftBytes_def draftFromItem_def)
qed

lemma draft_cents_exact:
  assumes "0 \<le> pi_price_cents item"
  shows "draftCents (draftFromItem item) = pi_price_cents item"
proof -
  obtain n where n: "pi_price_cents item = int n" using assms by (metis zero_le_imp_eq_int)
  then show ?thesis
    using js_round_of_int [of "int n"] by (simp add: draftCents_def draftFromItem_def parseFloat_to_fixed)
qed

text \<open>Editing an item loses nothing it can show: when its size is a whole number of hundredths of the unit
  it is shown in, the row starts clean, and after the price alone is edited the saved size is the old one.\<close>

theorem price_edit_keeps_size:
  assumes "100 * pi_bytes item = k * unit_bytes (unit_for (pi_bytes item))" and "0 \<le> pi_price_cents item"
  shows "\<not> draft_dirty item (draftFromItem item) \<and>
    (case save_item item ((draftFromItem item)\<lparr>qd_price := typed\<rparr>) saving of
       None \<Rightarrow> True | Some u \<Rightarrow> iu_bytes u = int (pi_bytes item) \<and> iu_sort_order u = pi_sort_order item)"
proof -
  have "draftBytes ((draftFromItem item)\<lparr>qd_price := typed\<rparr>) = int (pi_bytes item)"
    using draft_bytes_exact [OF assms(1)] by (simp add: draftBytes_def cong: jsnum.case_cong if_cong)
  then show ?thesis
    using draft_bytes_exact [OF assms(1)] draft_cents_exact [OF assms(2)]
    by (simp add: draft_dirty_def save_item_def)
qed

definition plan_of_bytes :: "nat \<Rightarrow> pricing_item" where
  "plan_of_bytes b = \<lparr>pi_id = ''i'', pi_server_id = ''s'', pi_storage_type = ''nvme'', pi_bytes = b, pi_price_cents = 1999,
     pi_sort_order = 0, pi_created_at = [], pi_updated_at = []\<rparr>"

theorem price_edit_keeps_size_witness:
  "\<not> draft_dirty (plan_of_bytes (TB_BYTES + TB_BYTES div 4)) (draftFromItem (plan_of_bytes (TB_BYTES + TB_BYTES div 4)))"
  using price_edit_keeps_size [of "plan_of_bytes (TB_BYTES + TB_BYTES div 4)" 125]
  by (simp add: plan_of_bytes_def unit_for_def unit_bytes_def TB_BYTES_def)

text \<open>Of 1100 GB the row shows 1.07 TB: it is dirty as soon as it is shown, and saving a new price for it makes
  the plan 4.32 GB smaller.\<close>

theorem price_edit_shrinks_plan:
  "draftBytes (draftFromItem (plan_of_bytes (1100 * GB_BYTES))) = 1176477441720 \<and> int (1100 * GB_BYTES) = 1181116006400"
proof -
  have "\<lfloor>6907 / 64 :: rat\<rfloor> = 107" by (simp add: floor_eq_iff)
  then have "qty_text (1100 * GB_BYTES) UnitTB = show_hundredths 107"
    by (simp add: qty_text_def unit_bytes_def GB_BYTES_def TB_BYTES_def)
  then have "parseFloat (qd_qty (draftFromItem (plan_of_bytes (1100 * GB_BYTES)))) = Fin (107 / 100)"
    using parseFloat_show_hundredths [of 107]
    by (simp add: draftFromItem_def plan_of_bytes_def unit_for_def GB_BYTES_def TB_BYTES_def)
  then show ?thesis
    by (simp add: draftBytes_def draftFromItem_def plan_of_bytes_def unit_for_def unit_bytes_def GB_BYTES_def TB_BYTES_def
        js_round_def floor_eq_iff)
qed

text \<open>What the window previews is what the discount does: the items it lists are exactly those of the server
  the created discount applies to, none gets dearer, and the request names the scope's own key and value only.\<close>

theorem preview_matches_discount:
  assumes "list_all (\<lambda>i. pi_server_id i = server_id) items'"
    and "s = confirm_run end_of_day today es (open_confirm (propose place m v))"
    and "control_value m c = Some v" and "list_all (\<lambda>i. 0 \<le> pi_price_cents i) items'"
  shows "affected (cf_pending s) items' = filter (discountAppliesTo (fakeDiscount server_id s)) items'
    \<and> list_all (\<lambda>i. 0 \<le> preview_cents server_id s i \<and> preview_cents server_id s i \<le> pi_price_cents i) items'
    \<and> (dn_percent_off (discount_input_of server_id s) = None \<longleftrightarrow> dn_price_cents (discount_input_of server_id s) \<noteq> None)
    \<and> (dn_item_id (discount_input_of server_id s) = None \<longleftrightarrow> dn_server_id (discount_input_of server_id s) \<noteq> None)
    \<and> (dn_storage_type (discount_input_of server_id s) \<noteq> None \<longleftrightarrow> dn_scope (discount_input_of server_id s) = TierScope)"
proof -
  have p: "cf_pending s = propose place m v"
  proof -
    have "cf_pending (fold (confirm_step end_of_day today) es t) = cf_pending t" for t
    proof (induction es arbitrary: t)
      case (Cons e es)
      have "cf_pending (confirm_step end_of_day today e t) = cf_pending t" by (cases e) simp_all
      with Cons show ?case by simp
    qed simp
    then show ?thesis by (simp add: assms(2) confirm_run_def open_confirm_def)
  qed
  have v: "if m = PercentMode then 1 \<le> v \<and> v \<le> 99 else 0 \<le> v"
    using assms(3) by (auto simp: control_value_def split: if_splits jsnum.splits)
  have d: "sane_discount (fakeDiscount server_id s)"
    using v by (cases m; cases place) (simp_all add: p sane_discount_def fakeDiscount_def propose_def Let_def)
  have a: "affected (cf_pending s) items' = filter (discountAppliesTo (fakeDiscount server_id s)) items'"
    unfolding affected_def
    by (rule filter_cong) (use assms(1) in \<open>cases place; auto simp: p propose_def fakeDiscount_def discountAppliesTo_def list_all_iff Let_def\<close>)+
  have b: "list_all (\<lambda>i. 0 \<le> preview_cents server_id s i \<and> preview_cents server_id s i \<le> pi_price_cents i) items'"
    using sane_cents_bounds [OF d] assms(4) by (simp add: preview_cents_def list_all_iff)
  have "dn_percent_off (discount_input_of server_id s) = None \<longleftrightarrow> dn_price_cents (discount_input_of server_id s) \<noteq> None"
    "dn_item_id (discount_input_of server_id s) = None \<longleftrightarrow> dn_server_id (discount_input_of server_id s) \<noteq> None"
    "dn_storage_type (discount_input_of server_id s) \<noteq> None \<longleftrightarrow> dn_scope (discount_input_of server_id s) = TierScope"
    by (cases place; simp add: p propose_def discount_input_of_def Let_def)+
  with a b show ?thesis by blast
qed

theorem preview_matches_discount_witness:
  "affected (propose WholeServer PercentMode 25) [plan_of_bytes GB_BYTES] = [plan_of_bytes GB_BYTES]"
  using preview_matches_discount [of "''s''" "[plan_of_bytes GB_BYTES]" "open_confirm (propose WholeServer PercentMode 25)"
      "\<lambda>d. 0" 0 "[]" WholeServer PercentMode 25 "\<lparr>dc_percent = 25, dc_price = []\<rparr>"]
  by (simp add: plan_of_bytes_def confirm_run_def control_value_def open_confirm_def propose_def fakeDiscount_def
      discountAppliesTo_def Let_def)

text \<open>The groups contain each other: a broader one checks the narrower ones, whose boxes are then disabled;
  the group of one tier is never asked for when the discount is for a whole server.\<close>

lemma server_discount_no_tier:
  "pn_scope p = ServerScope \<Longrightarrow> notifyGroup (confirm_run end_of_day today es (open_confirm p)) \<noteq> Some NotifyServerTier"
proof -
  assume p: "pn_scope p = ServerScope"
  have t: "cf_notifyTier s \<longrightarrow> hasTier s \<Longrightarrow>
      cf_notifyTier (fold (confirm_step end_of_day today) es s) \<longrightarrow> hasTier (fold (confirm_step end_of_day today) es s)" for s
  proof (induction es arbitrary: s)
    case (Cons e es)
    have "cf_notifyTier (confirm_step end_of_day today e s) \<longrightarrow> hasTier (confirm_step end_of_day today e s)"
      using Cons.prems by (cases e) (auto simp: hasTier_def)
    with Cons.IH show ?case by simp
  qed simp
  have q: "cf_pending (fold (confirm_step end_of_day today) es s) = cf_pending s" for s
  proof (induction es arbitrary: s)
    case (Cons e es)
    then show ?case by (cases e) simp_all
  qed simp
  have "\<not> cf_notifyTier (confirm_run end_of_day today es (open_confirm p))"
    using t [of "open_confirm p"] q [of "open_confirm p"] p by (simp add: confirm_run_def open_confirm_def hasTier_def)
  then show ?thesis by (simp add: notifyGroup_def)
qed

end
