(* ===== verification/Infrastructure.thy ===== *)
theory Infrastructure
  imports Decimals "HOL-Library.Multiset"
begin

text \<open>
  The infrastructure part of the metrics page, \<open>frontend/src/routes/_auth.admin/metrics.tsx\<close>: the tree of
  servers, nodes and drives built from the two flat lists of the backend, the totals of the two tiers,
  the bars of drives and disks, the totals of the donut and the editor of a server's name. The tree is built by
  mutating groups that are shared between a map and the servers' lists: groups live in a store, a
  server holds their addresses.
\<close>

section \<open>Data\<close>

record node_summary =
  ns_node_id :: string
  ns_server_id :: string
  ns_server_name :: string
  ns_server_is_active :: bool
  ns_hostname :: string
  ns_role :: string
  ns_address :: string
  ns_is_active :: bool

datatype drive_type = NvmeDrive | HddDrive

record drive_summary =
  ds_drive_id :: string
  ds_server_id :: string
  ds_server_name :: string
  ds_node_id :: "string option"
  ds_drive_label :: string
  ds_drive_type :: drive_type
  ds_capacity_bytes :: nat
  ds_allocated_quota_bytes :: nat
  ds_used_bytes :: nat
  ds_drive_is_active :: bool
  ds_server_is_active :: bool

record node_disk =
  nd_id :: string
  nd_node_id :: string
  nd_label :: string
  nd_capacity_bytes :: nat
  nd_used_bytes :: nat
  nd_temp_celsius :: "rat option"

record node_group =
  ng_node :: node_summary
  ng_drives :: "drive_summary list"

record server_group =
  sg_serverId :: string
  sg_name :: string
  sg_isActive :: bool
  sg_nodes :: "nat list"   \<comment> \<open>addresses of groups\<close>
  sg_unassigned :: "drive_summary list"

record infra_tree =
  tr_servers :: "server_group list"   \<comment> \<open>the map in insertion order\<close>
  tr_groups :: "node_group list"      \<comment> \<open>the store\<close>
  tr_nodeMap :: "string \<Rightarrow> nat option"

section \<open>The tree\<close>

definition ensureServer :: "string \<Rightarrow> string \<Rightarrow> bool \<Rightarrow> infra_tree \<Rightarrow> infra_tree" where
  "ensureServer i name active t =
     (if list_ex (\<lambda>s. sg_serverId s = i) (tr_servers t) then t
      else t\<lparr>tr_servers := tr_servers t @ [\<lparr>sg_serverId = i, sg_name = name, sg_isActive = active, sg_nodes = [], sg_unassigned = []\<rparr>]\<rparr>)"

definition in_server :: "string \<Rightarrow> (server_group \<Rightarrow> server_group) \<Rightarrow> infra_tree \<Rightarrow> infra_tree" where
  "in_server i f t = t\<lparr>tr_servers := map (\<lambda>s. if sg_serverId s = i then f s else s) (tr_servers t)\<rparr>"

definition add_node :: "node_summary \<Rightarrow> infra_tree \<Rightarrow> infra_tree" where
  "add_node n t =
     (let t1 = ensureServer (ns_server_id n) (ns_server_name n) (ns_server_is_active n) t;
          a = length (tr_groups t1)
      in in_server (ns_server_id n) (\<lambda>s. s\<lparr>sg_nodes := sg_nodes s @ [a]\<rparr>)
           (t1\<lparr>tr_groups := tr_groups t1 @ [\<lparr>ng_node = n, ng_drives = []\<rparr>], tr_nodeMap := (tr_nodeMap t1)(ns_node_id n \<mapsto> a)\<rparr>))"

definition drive_home :: "drive_summary \<Rightarrow> infra_tree \<Rightarrow> nat option" where
  "drive_home d t = (case ds_node_id d of None \<Rightarrow> None | Some i \<Rightarrow> if i = [] then None else tr_nodeMap t i)"

definition add_drive :: "drive_summary \<Rightarrow> infra_tree \<Rightarrow> infra_tree" where
  "add_drive d t =
     (let t1 = ensureServer (ds_server_id d) (ds_server_name d) (ds_server_is_active d) t
      in case drive_home d t1 of
           Some a \<Rightarrow> t1\<lparr>tr_groups := (tr_groups t1)[a := (tr_groups t1 ! a)\<lparr>ng_drives := ng_drives (tr_groups t1 ! a) @ [d]\<rparr>]\<rparr>
         | None \<Rightarrow> in_server (ds_server_id d) (\<lambda>s. s\<lparr>sg_unassigned := sg_unassigned s @ [d]\<rparr>) t1)"

definition empty_tree :: infra_tree where
  "empty_tree = \<lparr>tr_servers = [], tr_groups = [], tr_nodeMap = Map.empty\<rparr>"

definition build_tree :: "node_summary list \<Rightarrow> drive_summary list \<Rightarrow> infra_tree" where
  "build_tree nodes drives = fold add_drive drives (fold add_node nodes empty_tree)"

text \<open>What the page renders below one server.\<close>

definition shown_groups :: "infra_tree \<Rightarrow> server_group \<Rightarrow> node_group list" where
  "shown_groups t s = map (\<lambda>a. tr_groups t ! a) (sg_nodes s)"

definition disksByNode :: "node_disk list \<Rightarrow> string \<Rightarrow> node_disk list" where
  "disksByNode ds i = fold (\<lambda>d m. m(nd_node_id d := m (nd_node_id d) @ [d])) ds (\<lambda>_. []) i"

section \<open>Tiers, bars and capacities\<close>

record donut_tier =
  dt_capacity :: nat
  dt_allocated :: nat

definition tier_of :: "drive_type \<Rightarrow> drive_summary list \<Rightarrow> donut_tier" where
  "tier_of ty ds =
     (let mine = filter (\<lambda>d. ds_drive_type d = ty) ds
      in \<lparr>dt_capacity = fold (\<lambda>d s. s + ds_capacity_bytes d) mine 0,
          dt_allocated = fold (\<lambda>d s. s + ds_allocated_quota_bytes d) mine 0\<rparr>)"

definition percent_of :: "nat \<Rightarrow> nat \<Rightarrow> rat" where
  "percent_of part whole = (if 0 < whole then of_nat part / of_nat whole * 100 else 0)"

definition allocPct :: "donut_tier \<Rightarrow> rat" where
  "allocPct t = percent_of (dt_allocated t) (dt_capacity t)"

text \<open>The lengths of the two arcs, on a circle of length \<open>c\<close>.\<close>

definition donut_arcs :: "rat \<Rightarrow> donut_tier \<Rightarrow> donut_tier \<Rightarrow> rat \<times> rat" where
  "donut_arcs c fast standard =
     (let total = dt_capacity fast + dt_capacity standard;
          f = (if 0 < total then of_nat (dt_capacity fast) / of_nat total else 0);
          s = (if 0 < total then of_nat (dt_capacity standard) / of_nat total else 0)
      in (max 0 (f * c - (if 0 < s then 3 else 0)), max 0 (s * c - (if 0 < f then 3 else 0))))"

definition GIB :: nat where "GIB = 1024 ^ 3"

definition fmtCapacity :: "nat \<Rightarrow> string" where
  "fmtCapacity b =
     (let gb = of_nat b / of_nat GIB :: rat
      in if 1024 \<le> gb then to_fixed 1 (gb / 1024) @ '' TB'' else to_fixed 0 gb @ '' GB'')"

record drive_stat =
  st_total_bytes :: nat
  st_used_bytes :: nat
  st_free_bytes :: nat
  st_temp_celsius :: "rat option"
  st_online :: bool

record drive_bar =
  db_syncRequired :: bool
  db_overAllocated :: bool
  db_totalBytes :: nat
  db_usedBytes :: nat
  db_allocPct :: rat
  db_usedPct :: rat

definition DriveBar :: "drive_summary \<Rightarrow> drive_stat option \<Rightarrow> drive_bar" where
  "DriveBar d stat =
     (let syncRequired = ds_capacity_bytes d = 0;
          live = (case stat of None \<Rightarrow> False | Some s \<Rightarrow> st_online s);
          total = (if live then st_total_bytes (the stat) else ds_capacity_bytes d);
          used = (if live then st_used_bytes (the stat) else ds_used_bytes d);
          cap = (if total = 0 then 1 else total)
      in \<lparr>db_syncRequired = syncRequired,
          db_overAllocated = (\<not> syncRequired \<and> ds_capacity_bytes d < ds_allocated_quota_bytes d),
          db_totalBytes = total, db_usedBytes = used,
          db_allocPct = min 100 (of_nat (ds_allocated_quota_bytes d) / of_nat cap * 100),
          db_usedPct = min 100 (of_nat used / of_nat cap * 100)\<rparr>)"

record disk_frame =
  df_disk_id :: string
  df_label :: string
  df_device :: string
  df_temp_celsius :: "rat option"
  df_total_bytes :: nat
  df_used_bytes :: nat
  df_read_bytes :: int
  df_write_bytes :: int

record disk_row =
  dr_total :: nat
  dr_used :: nat
  dr_temp :: "rat option"
  dr_pct :: rat
  dr_online :: bool

text \<open>A disk under its node: \<open>liveDisks\<close> is empty unless the node's agent is online.\<close>

definition DiskRow :: "disk_frame list \<Rightarrow> node_disk \<Rightarrow> disk_row" where
  "DiskRow liveDisks k =
     (case find (\<lambda>f. df_disk_id f = nd_id k) liveDisks of
        Some f \<Rightarrow> \<lparr>dr_total = df_total_bytes f, dr_used = df_used_bytes f, dr_temp = df_temp_celsius f,
                    dr_pct = percent_of (df_used_bytes f) (df_total_bytes f), dr_online = True\<rparr>
      | None \<Rightarrow> \<lparr>dr_total = nd_capacity_bytes k, dr_used = nd_used_bytes k, dr_temp = nd_temp_celsius k,
                  dr_pct = percent_of (nd_used_bytes k) (nd_capacity_bytes k), dr_online = False\<rparr>)"

section \<open>The name of a server\<close>

record name_editor =
  ne_editing :: bool
  ne_value :: string
  ne_saving :: "string option"

datatype name_event =
    Pencil
  | TypeValue string
  | Enter
  | EscapeKey
  | SaveClick
  | CancelClick
  | NameChanged      \<comment> \<open>the effect on the \<open>name\<close> prop\<close>
  | Renamed bool

definition save_name :: "string \<Rightarrow> name_editor \<Rightarrow> name_editor" where
  "save_name name s =
     (let v = trim (ne_value s)
      in if v = [] \<or> v = name then s\<lparr>ne_editing := False, ne_value := name\<rparr> else s\<lparr>ne_saving := Some v\<rparr>)"

text \<open>The input and the buttons are there while editing and disabled while a name is saved.\<close>

fun name_step :: "string \<Rightarrow> name_event \<Rightarrow> name_editor \<Rightarrow> name_editor" where
  "name_step name Pencil s = (if ne_editing s then s else s\<lparr>ne_value := name, ne_editing := True\<rparr>)"
| "name_step name (TypeValue v) s = (if ne_editing s \<and> ne_saving s = None then s\<lparr>ne_value := v\<rparr> else s)"
| "name_step name Enter s = (if ne_editing s \<and> ne_saving s = None then save_name name s else s)"
| "name_step name EscapeKey s = (if ne_editing s \<and> ne_saving s = None then s\<lparr>ne_editing := False, ne_value := name\<rparr> else s)"
| "name_step name SaveClick s = (if ne_editing s \<and> ne_saving s = None then save_name name s else s)"
| "name_step name CancelClick s = (if ne_editing s \<and> ne_saving s = None then s\<lparr>ne_editing := False, ne_value := name\<rparr> else s)"
| "name_step name NameChanged s = s\<lparr>ne_value := name\<rparr>"
| "name_step name (Renamed ok) s =
     (if ne_saving s = None then s else if ok then s\<lparr>ne_saving := None, ne_editing := False\<rparr> else s\<lparr>ne_saving := None\<rparr>)"

definition syncInfra_text :: "nat \<Rightarrow> nat \<Rightarrow> nat \<Rightarrow> string" where
  "syncInfra_text ns ds ss =
     ''Synced '' @ show_nat ns @ '' node'' @ (if ns \<noteq> 1 then ''s'' else []) @ '' and '' @ show_nat ds @ '' drive''
     @ (if ds \<noteq> 1 then ''s'' else []) @ '' across '' @ show_nat ss @ '' server'' @ (if ss \<noteq> 1 then ''s'' else [])"

section \<open>Properties of the tree\<close>

definition all_nodes :: "infra_tree \<Rightarrow> nat list" where
  "all_nodes t = concat (map sg_nodes (tr_servers t))"

definition all_unassigned :: "infra_tree \<Rightarrow> drive_summary list" where
  "all_unassigned t = concat (map sg_unassigned (tr_servers t))"

definition tree_inv :: "infra_tree \<Rightarrow> bool" where
  "tree_inv t \<longleftrightarrow>
     distinct (map sg_serverId (tr_servers t)) \<and> mset (all_nodes t) = mset [0..<length (tr_groups t)]
     \<and> (\<forall>i a. tr_nodeMap t i = Some a \<longrightarrow> a < length (tr_groups t) \<and> ns_node_id (ng_node (tr_groups t ! a)) = i)
     \<and> (\<forall>g \<in> set (tr_groups t). ns_node_id (ng_node g) \<in> dom (tr_nodeMap t))
     \<and> (\<forall>s \<in> set (tr_servers t). \<forall>a \<in> set (sg_nodes s). ns_server_id (ng_node (tr_groups t ! a)) = sg_serverId s)
     \<and> (\<forall>s \<in> set (tr_servers t). \<forall>d \<in> set (sg_unassigned s). ds_server_id d = sg_serverId s)
     \<and> (\<forall>g \<in> set (tr_groups t). \<forall>d \<in> set (ng_drives g). ds_node_id d = Some (ns_node_id (ng_node g)))"


lemma concat_update_one:
  assumes "distinct (map k xs)" and "list_ex (\<lambda>s. k s = i) xs" and "\<And>s. g (f s) = g s @ e"
  shows "mset (concat (map (\<lambda>s. g (if k s = i then f s else s)) xs)) = mset (concat (map g xs)) + mset e"
  using assms(1,2)
proof (induction xs)
  case (Cons x xs)
  show ?case
  proof (cases "k x = i")
    case True
    with Cons.prems have "\<forall>s \<in> set xs. k s \<noteq> i" by (auto simp: image_iff)
    then have "concat (map (\<lambda>s. g (if k s = i then f s else s)) xs) = concat (map g xs)" by (simp cong: map_cong)
    with True show ?thesis by (simp only: list.map concat.simps if_True refl assms(3) mset_append ac_simps)
  qed (use Cons in simp)
qed simp

lemma ensureServer_simps [simp]:
  "tr_groups (ensureServer i n a t) = tr_groups t" "tr_nodeMap (ensureServer i n a t) = tr_nodeMap t"
  "all_nodes (ensureServer i n a t) = all_nodes t" "all_unassigned (ensureServer i n a t) = all_unassigned t"
  "list_ex (\<lambda>s. sg_serverId s = i) (tr_servers (ensureServer i n a t))"
  by (simp_all add: ensureServer_def all_nodes_def all_unassigned_def)

lemma ensureServer_inv: "tree_inv t \<Longrightarrow> tree_inv (ensureServer i n a t)"
  by (auto simp: tree_inv_def ensureServer_def all_nodes_def list_ex_iff)

lemma add_node_facts:
  assumes "tree_inv t"
  shows "tr_groups (add_node n t) = tr_groups t @ [\<lparr>ng_node = n, ng_drives = []\<rparr>]"
    and "all_unassigned (add_node n t) = all_unassigned t" and "tree_inv (add_node n t)"
proof -
  let ?t1 = "ensureServer (ns_server_id n) (ns_server_name n) (ns_server_is_active n) t"
  let ?a = "length (tr_groups t)"
  have g: "tr_groups (add_node n t) = tr_groups t @ [\<lparr>ng_node = n, ng_drives = []\<rparr>]"
    and m: "tr_nodeMap (add_node n t) = (tr_nodeMap t)(ns_node_id n \<mapsto> ?a)"
    and s: "tr_servers (add_node n t) =
      map (\<lambda>s. if sg_serverId s = ns_server_id n then s\<lparr>sg_nodes := sg_nodes s @ [?a]\<rparr> else s) (tr_servers ?t1)"
    by (simp_all add: add_node_def in_server_def Let_def)
  have i: "tree_inv ?t1" using assms by (rule ensureServer_inv)
  then have d: "distinct (map sg_serverId (tr_servers ?t1))" by (simp add: tree_inv_def)
  have ids: "map sg_serverId (tr_servers (add_node n t)) = map sg_serverId (tr_servers ?t1)"
    by (simp add: s)
  have "mset (all_nodes (add_node n t)) = mset (all_nodes ?t1) + mset [?a]"
    unfolding all_nodes_def s map_map comp_def
    by (rule concat_update_one [where k = sg_serverId and f = "\<lambda>s. s\<lparr>sg_nodes := sg_nodes s @ [?a]\<rparr>", OF d]) simp_all
  then have n: "mset (all_nodes (add_node n t)) = mset [0..<length (tr_groups (add_node n t))]"
    using i by (simp add: g tree_inv_def)
  have below: "a < ?a" if "s \<in> set (tr_servers ?t1)" "a \<in> set (sg_nodes s)" for s a
  proof -
    have "a \<in># mset (all_nodes ?t1)" using that by (auto simp: all_nodes_def)
    with i have "a \<in># mset [0..<?a]" by (simp only: tree_inv_def ensureServer_simps)
    then show ?thesis by simp
  qed
  show "all_unassigned (add_node n t) = all_unassigned t"
    unfolding all_unassigned_def s map_map comp_def
    using ensureServer_simps(4) [of "ns_server_id n" "ns_server_name n" "ns_server_is_active n" t, unfolded all_unassigned_def]
    by (simp add: if_distrib [of sg_unassigned] cong: if_cong)
  show "tree_inv (add_node n t)"
    unfolding tree_inv_def
  proof (intro conjI)
    show "distinct (map sg_serverId (tr_servers (add_node n t)))" using d by (simp only: ids)
    show "mset (all_nodes (add_node n t)) = mset [0..<length (tr_groups (add_node n t))]" by (rule n)
    show "\<forall>i a. tr_nodeMap (add_node n t) i = Some a \<longrightarrow> a < length (tr_groups (add_node n t)) \<and>
        ns_node_id (ng_node (tr_groups (add_node n t) ! a)) = i"
      using i by (auto simp: g m tree_inv_def nth_append less_Suc_eq)
    show "\<forall>g \<in> set (tr_groups (add_node n t)). ns_node_id (ng_node g) \<in> dom (tr_nodeMap (add_node n t))"
      using i by (auto simp: g m tree_inv_def)
    show "\<forall>s \<in> set (tr_servers (add_node n t)). \<forall>a \<in> set (sg_nodes s).
        ns_server_id (ng_node (tr_groups (add_node n t) ! a)) = sg_serverId s"
      using i below by (auto simp: s g tree_inv_def nth_append)
    show "\<forall>s \<in> set (tr_servers (add_node n t)). \<forall>d \<in> set (sg_unassigned s). ds_server_id d = sg_serverId s"
      using i by (auto simp: s tree_inv_def)
    show "\<forall>g \<in> set (tr_groups (add_node n t)). \<forall>d \<in> set (ng_drives g). ds_node_id d = Some (ns_node_id (ng_node g))"
      using i by (auto simp: g tree_inv_def)
  qed
  show "tr_groups (add_node n t) = tr_groups t @ [\<lparr>ng_node = n, ng_drives = []\<rparr>]" by (rule g)
qed

lemma update_drives_mset:
  "a < length gs \<Longrightarrow> mset (concat (map ng_drives (gs[a := (gs ! a)\<lparr>ng_drives := ng_drives (gs ! a) @ [d]\<rparr>])))
     = mset (concat (map ng_drives gs)) + {#d#}"
  by (induction gs arbitrary: a) (auto simp: nth_Cons split: nat.splits)

lemma add_drive_facts:
  assumes "tree_inv t"
  shows "map ng_node (tr_groups (add_drive d t)) = map ng_node (tr_groups t)"
    and "mset (concat (map ng_drives (tr_groups (add_drive d t)))) + mset (all_unassigned (add_drive d t))
      = mset (concat (map ng_drives (tr_groups t))) + mset (all_unassigned t) + {#d#}"
    and "tree_inv (add_drive d t)"
proof -
  let ?t1 = "ensureServer (ds_server_id d) (ds_server_name d) (ds_server_is_active d) t"
  have i: "tree_inv ?t1" using assms by (rule ensureServer_inv)
  have "map ng_node (tr_groups (add_drive d t)) = map ng_node (tr_groups t) \<and>
    mset (concat (map ng_drives (tr_groups (add_drive d t)))) + mset (all_unassigned (add_drive d t))
      = mset (concat (map ng_drives (tr_groups t))) + mset (all_unassigned t) + {#d#} \<and> tree_inv (add_drive d t)"
  proof (cases "drive_home d ?t1")
    case None
    then have a: "add_drive d t = in_server (ds_server_id d) (\<lambda>s. s\<lparr>sg_unassigned := sg_unassigned s @ [d]\<rparr>) ?t1"
      by (simp add: add_drive_def)
    have "mset (all_unassigned (add_drive d t)) = mset (all_unassigned ?t1) + mset [d]"
      unfolding a all_unassigned_def in_server_def
      using concat_update_one [where k = sg_serverId and f = "\<lambda>s. s\<lparr>sg_unassigned := sg_unassigned s @ [d]\<rparr>"
          and g = sg_unassigned and xs = "tr_servers ?t1" and i = "ds_server_id d" and e = "[d]"] i
      by (simp add: tree_inv_def comp_def)
    moreover have "all_nodes (add_drive d t) = all_nodes ?t1"
      by (simp add: a all_nodes_def in_server_def comp_def if_distrib [of sg_nodes] cong: if_cong)
    then have "tree_inv (add_drive d t)"
      using i by (auto simp: a tree_inv_def in_server_def comp_def if_distrib [of sg_serverId] cong: if_cong)
    ultimately show ?thesis by (simp add: a in_server_def)
  next
    case (Some b)
    then have a: "add_drive d t = ?t1\<lparr>tr_groups := (tr_groups t)[b := (tr_groups t ! b)\<lparr>ng_drives := ng_drives (tr_groups t ! b) @ [d]\<rparr>]\<rparr>"
      by (simp add: add_drive_def)
    from Some obtain j where j: "ds_node_id d = Some j" "tr_nodeMap t j = Some b"
      by (auto simp: drive_home_def split: option.splits if_splits)
    with assms have b: "b < length (tr_groups t)" "ns_node_id (ng_node (tr_groups t ! b)) = j"
      unfolding tree_inv_def by blast+
    have dr: "ds_node_id e = Some j" if "e \<in> set (ng_drives (tr_groups t ! b))" for e
    proof -
      have "\<forall>g \<in> set (tr_groups t). \<forall>e \<in> set (ng_drives g). ds_node_id e = Some (ns_node_id (ng_node g))"
        using i by (simp add: tree_inv_def)
      then have "\<forall>e \<in> set (ng_drives (tr_groups t ! b)). ds_node_id e = Some (ns_node_id (ng_node (tr_groups t ! b)))"
        by (rule bspec [OF _ nth_mem [OF b(1)]])
      with that b(2) show ?thesis by simp
    qed
    have nodes: "ng_node (tr_groups (add_drive d t) ! c) = ng_node (tr_groups t ! c)" for c
      using b by (cases "c = b") (simp_all add: a)
    have "tree_inv (add_drive d t)"
      unfolding tree_inv_def
    proof (intro conjI)
      show "\<forall>g \<in> set (tr_groups (add_drive d t)). \<forall>e \<in> set (ng_drives g). ds_node_id e = Some (ns_node_id (ng_node g))"
        using i b j by (auto simp: a tree_inv_def dr dest!: subsetD [OF set_update_subset_insert])
      show "\<forall>g \<in> set (tr_groups (add_drive d t)). ns_node_id (ng_node g) \<in> dom (tr_nodeMap (add_drive d t))"
        using i b j nth_mem [OF b(1)] by (auto simp: a tree_inv_def dest!: subsetD [OF set_update_subset_insert])
      show "\<forall>i c. tr_nodeMap (add_drive d t) i = Some c \<longrightarrow> c < length (tr_groups (add_drive d t)) \<and>
          ns_node_id (ng_node (tr_groups (add_drive d t) ! c)) = i"
        using i unfolding nodes by (simp add: a tree_inv_def)
      show "\<forall>s \<in> set (tr_servers (add_drive d t)). \<forall>c \<in> set (sg_nodes s).
          ns_server_id (ng_node (tr_groups (add_drive d t) ! c)) = sg_serverId s"
        using i unfolding nodes by (simp add: a tree_inv_def)
    qed (use i in \<open>simp_all add: a tree_inv_def all_nodes_def\<close>)
    moreover have "map ng_node (tr_groups (add_drive d t)) = map ng_node (tr_groups t)"
      using nodes by (intro nth_equalityI) (auto simp: a)
    moreover have "all_unassigned (add_drive d t) = all_unassigned t"
      using ensureServer_simps(4) [of "ds_server_id d" "ds_server_name d" "ds_server_is_active d" t]
      by (simp add: a all_unassigned_def)
    ultimately show ?thesis using update_drives_mset [OF b(1), of d] by (simp add: a)
  qed
  then show "map ng_node (tr_groups (add_drive d t)) = map ng_node (tr_groups t)"
    and "mset (concat (map ng_drives (tr_groups (add_drive d t)))) + mset (all_unassigned (add_drive d t))
      = mset (concat (map ng_drives (tr_groups t))) + mset (all_unassigned t) + {#d#}"
    and "tree_inv (add_drive d t)" by blast+
qed

lemma nodes_built:
  assumes "tree_inv t"
  shows "tree_inv (fold add_node ns t) \<and> tr_groups (fold add_node ns t) = tr_groups t @ map (\<lambda>n. \<lparr>ng_node = n, ng_drives = []\<rparr>) ns
    \<and> all_unassigned (fold add_node ns t) = all_unassigned t"
  using assms
proof (induction ns arbitrary: t)
  case (Cons n ns)
  with Cons.IH [OF add_node_facts(3) [OF Cons.prems]] add_node_facts [OF Cons.prems] show ?case by simp
qed simp

lemma drives_built:
  assumes "tree_inv t"
  shows "tree_inv (fold add_drive ds t) \<and> map ng_node (tr_groups (fold add_drive ds t)) = map ng_node (tr_groups t)
    \<and> mset (concat (map ng_drives (tr_groups (fold add_drive ds t)))) + mset (all_unassigned (fold add_drive ds t))
      = mset (concat (map ng_drives (tr_groups t))) + mset (all_unassigned t) + mset ds"
  using assms
proof (induction ds arbitrary: t)
  case (Cons d ds)
  with Cons.IH [OF add_drive_facts(3) [OF Cons.prems]] add_drive_facts [OF Cons.prems] show ?case by simp
qed simp

lemma tree_built:
  "tree_inv (build_tree nodes drives)" "map ng_node (tr_groups (build_tree nodes drives)) = nodes"
  "mset (concat (map ng_drives (tr_groups (build_tree nodes drives)))) + mset (all_unassigned (build_tree nodes drives)) = mset drives"
proof -
  have e: "tree_inv empty_tree" by (simp add: tree_inv_def empty_tree_def all_nodes_def)
  let ?t = "fold add_node nodes empty_tree"
  have t: "tree_inv ?t" "tr_groups ?t = map (\<lambda>n. \<lparr>ng_node = n, ng_drives = []\<rparr>) nodes" "all_unassigned ?t = []"
    using nodes_built [OF e, of nodes] by (simp_all add: empty_tree_def all_unassigned_def)
  show "tree_inv (build_tree nodes drives)" "map ng_node (tr_groups (build_tree nodes drives)) = nodes"
    "mset (concat (map ng_drives (tr_groups (build_tree nodes drives)))) + mset (all_unassigned (build_tree nodes drives)) = mset drives"
    using drives_built [OF t(1), of drives] by (simp_all add: build_tree_def t(2,3) comp_def)
qed

text \<open>C37. Nothing of the infrastructure is hidden or shown twice: the groups below all servers are those of the nodes,
  each once, and every drive stands once, below its node or among a server's unassigned ones.\<close>

theorem tree_shows_everything_once:
  "let t = build_tree nodes drives; shown = concat (map (shown_groups t) (tr_servers t))
   in mset (map ng_node shown) = mset nodes
      \<and> mset (concat (map ng_drives shown)) + mset (concat (map sg_unassigned (tr_servers t))) = mset drives
      \<and> distinct (map sg_serverId (tr_servers t))"
proof -
  let ?t = "build_tree nodes drives"
  let ?shown = "concat (map (shown_groups ?t) (tr_servers ?t))"
  have s: "?shown = map ((!) (tr_groups ?t)) (all_nodes ?t)"
    by (simp add: shown_groups_def [abs_def] all_nodes_def map_concat comp_def)
  have "mset ?shown = image_mset ((!) (tr_groups ?t)) (mset [0..<length (tr_groups ?t)])"
    using tree_built(1) [of nodes drives] by (simp add: s tree_inv_def)
  also have "\<dots> = mset (map ((!) (tr_groups ?t)) [0..<length (tr_groups ?t)])" by simp
  finally have g: "mset ?shown = mset (tr_groups ?t)" by (simp only: map_nth)
  then have "mset (map ng_node ?shown) = mset nodes"
    using tree_built(2) [of nodes drives] by (metis mset_map)
  moreover have "mset (concat (map ng_drives ?shown)) = mset (concat (map ng_drives (tr_groups ?t)))"
  proof -
    have "mset (concat (map ng_drives xs)) = \<Sum>\<^sub># (image_mset (mset \<circ> ng_drives) (mset xs))" for xs :: "node_group list"
      by (induction xs) simp_all
    with g show ?thesis by simp
  qed
  ultimately show ?thesis
    using tree_built(1,3) [of nodes drives] by (simp add: Let_def all_unassigned_def tree_inv_def)
qed

text \<open>And each stands where it belongs.\<close>

theorem tree_places_right:
  "let t = build_tree nodes drives in
   list_all (\<lambda>s. list_all (\<lambda>g. ns_server_id (ng_node g) = sg_serverId s
        \<and> list_all (\<lambda>d. ds_node_id d = Some (ns_node_id (ng_node g))) (ng_drives g)) (shown_groups t s)
      \<and> list_all (\<lambda>d. ds_server_id d = sg_serverId s) (sg_unassigned s)) (tr_servers t)"
proof -
  let ?t = "build_tree nodes drives"
  have i: "tree_inv ?t" by (rule tree_built)
  have "a < length (tr_groups ?t)" if "s \<in> set (tr_servers ?t)" "a \<in> set (sg_nodes s)" for s a
  proof -
    have "a \<in># mset (all_nodes ?t)" using that by (auto simp: all_nodes_def)
    with i show ?thesis by (simp add: tree_inv_def)
  qed
  with i show ?thesis
    unfolding tree_inv_def Let_def list_all_iff shown_groups_def by auto
qed


lemma disksByNode_filter: "disksByNode ds i = filter (\<lambda>d. nd_node_id d = i) ds"
proof -
  have "fold (\<lambda>d m. m(nd_node_id d := m (nd_node_id d) @ [d])) ds m i = m i @ filter (\<lambda>d. nd_node_id d = i) ds" for m
    by (induction ds arbitrary: m) auto
  then show ?thesis by (simp add: disksByNode_def)
qed

section \<open>Properties of the numbers\<close>

lemma fold_sum: "fold (\<lambda>d s. s + (g d :: nat)) ds a = a + sum_list (map g ds)"
  by (induction ds arbitrary: a) simp_all

text \<open>Every drive counts in exactly one of the two tiers.\<close>

theorem tiers_cover_all_drives:
  "dt_capacity (tier_of NvmeDrive ds) + dt_capacity (tier_of HddDrive ds) = sum_list (map ds_capacity_bytes ds)
   \<and> dt_allocated (tier_of NvmeDrive ds) + dt_allocated (tier_of HddDrive ds) = sum_list (map ds_allocated_quota_bytes ds)"
proof -
  have "sum_list (map g (filter (\<lambda>d. ds_drive_type d = NvmeDrive) ds)) + sum_list (map g (filter (\<lambda>d. ds_drive_type d = HddDrive) ds))
      = sum_list (map g ds)" for g :: "drive_summary \<Rightarrow> nat"
  proof (induction ds)
    case (Cons d ds)
    then show ?case by (cases "ds_drive_type d") simp_all
  qed simp
  then show ?thesis by (simp add: tier_of_def fold_sum Let_def)
qed

text \<open>The two arcs of the donut fit on its circle, with their gaps.\<close>

theorem donut_arcs_fit:
  assumes "6 \<le> c"
  shows "case donut_arcs c fast standard of (f, s) \<Rightarrow> 0 \<le> f \<and> 0 \<le> s \<and> f + s \<le> c"
proof (cases "dt_capacity fast + dt_capacity standard = 0")
  case True
  then show ?thesis using assms by (simp add: donut_arcs_def Let_def)
next
  case False
  let ?t = "of_nat (dt_capacity fast + dt_capacity standard) :: rat"
  let ?f = "of_nat (dt_capacity fast) / ?t" and ?s = "of_nat (dt_capacity standard) / ?t"
  from False have pos: "0 < ?t" by linarith
  then have one: "?f + ?s = 1" by (simp add: add_divide_distrib [symmetric])
  have nn: "0 \<le> ?f" "0 \<le> ?s" using pos by simp_all
  have m: "?f * c + ?s * c = c" using one by (metis distrib_right mult_1)
  have z: "0 \<le> ?f * c" "0 \<le> ?s * c" using nn assms by (meson mult_nonneg_nonneg order_trans zero_le_numeral)+
  have e: "donut_arcs c fast standard =
      (max 0 (?f * c - (if 0 < ?s then 3 else 0)), max 0 (?s * c - (if 0 < ?f then 3 else 0)))"
    using False by (simp add: donut_arcs_def Let_def)
  show ?thesis using m z unfolding e by (auto simp: max_def)
qed

theorem donut_arcs_fit_witness:
  "case donut_arcs 440 \<lparr>dt_capacity = 1, dt_allocated = 0\<rparr> \<lparr>dt_capacity = 999, dt_allocated = 0\<rparr> of
     (f, s) \<Rightarrow> f + s \<le> 440"
  using donut_arcs_fit [of 440 "\<lparr>dt_capacity = 1, dt_allocated = 0\<rparr>" "\<lparr>dt_capacity = 999, dt_allocated = 0\<rparr>"]
  by (simp split: prod.splits)

text \<open>The bars of a drive stay in their track, also for a drive that is allocated twice over or not yet synced.\<close>

theorem drive_bar_bounded:
  "0 \<le> db_allocPct (DriveBar d stat) \<and> db_allocPct (DriveBar d stat) \<le> 100
   \<and> 0 \<le> db_usedPct (DriveBar d stat) \<and> db_usedPct (DriveBar d stat) \<le> 100
   \<and> \<not> (db_syncRequired (DriveBar d stat) \<and> db_overAllocated (DriveBar d stat))"
  by (auto simp: DriveBar_def Let_def)

text \<open>The name that is sent is never blank, never the old one, and without surrounding blanks; a name can only
  be typed or sent again once the answer is there.\<close>

theorem renames_are_real:
  "ne_saving (fold (name_step name) es \<lparr>ne_editing = False, ne_value = name, ne_saving = None\<rparr>) \<in>
     {None} \<union> Some ` {v. v \<noteq> [] \<and> v \<noteq> name \<and> trim v = v}"
proof -
  have step: "ne_saving (name_step name e s) \<in> {None} \<union> Some ` {v. v \<noteq> [] \<and> v \<noteq> name \<and> trim v = v}"
    if "ne_saving s \<in> {None} \<union> Some ` {v. v \<noteq> [] \<and> v \<noteq> name \<and> trim v = v}" for e s
    using that by (cases e) (auto simp: save_name_def Let_def trim_idem split: if_splits)
  have "ne_saving (fold (name_step name) es s) \<in> {None} \<union> Some ` {v. v \<noteq> [] \<and> v \<noteq> name \<and> trim v = v}"
    if "ne_saving s \<in> {None} \<union> Some ` {v. v \<noteq> [] \<and> v \<noteq> name \<and> trim v = v}" for s
    using that
  proof (induction es arbitrary: s)
    case (Cons e es)
    show ?case using Cons.IH [OF step [OF Cons.prems]] by simp
  qed simp
  then show ?thesis by simp
qed

end
