(* ===== verification/LiveMetrics.thy ===== *)
theory LiveMetrics
  imports Infrastructure "HOL-Library.Sublist"
begin

text \<open>
  The numbers of the metrics page, \<open>frontend/src/routes/_auth.admin/metrics.tsx\<close>: what is derived from the
  frames of the live stream and from the rows of the history. Series of points, rates as differences
  of counters, the selection of node, drive and disk, and the ping probes of the browser. A time
  stamp is its number of milliseconds.
\<close>

section \<open>Frames\<close>

record cluster_snap =
  cs_at :: int
  cs_quota :: int
  cs_used :: int
  cs_disk_total :: int
  cs_disk_free :: int
  cs_active_users :: nat
  cs_total_users :: nat
  cs_ping :: "rat option"
  cs_loss :: "rat option"
  cs_upload :: "rat option"
  cs_download :: "rat option"
  cs_tested_at :: string
  cs_speed_error :: "string option"

record drive_frame =
  vf_drive_id :: string
  vf_label :: string
  vf_drive_type :: drive_type
  vf_temp_celsius :: "rat option"
  vf_total_bytes :: nat
  vf_used_bytes :: nat
  vf_read_bytes :: int
  vf_write_bytes :: int

record node_frame =
  nf_node_id :: string
  nf_hostname :: string
  nf_role :: string
  nf_online :: bool
  nf_cpu_percent :: rat
  nf_cpu_temp :: "rat option"
  nf_memory_used :: nat
  nf_memory_total :: nat
  nf_sent :: int
  nf_recv :: int
  nf_drives :: "drive_frame list"
  nf_disks :: "disk_frame list"

record metrics_frame =
  mf_cluster :: cluster_snap
  mf_nodes :: "node_frame list"

type_synonym line_point = "int \<times> rat"

definition HOUR_MS :: int where "HOUR_MS = 60 * 60 * 1000"

definition recentFrames :: "int \<Rightarrow> metrics_frame list \<Rightarrow> metrics_frame list" where
  "recentFrames now fs = filter (\<lambda>f. now - HOUR_MS \<le> cs_at (mf_cluster f)) fs"

definition recentSnaps :: "int \<Rightarrow> metrics_frame list \<Rightarrow> cluster_snap list" where
  "recentSnaps now fs = filter (\<lambda>s. now - HOUR_MS \<le> cs_at s) (map mf_cluster fs)"

definition nodeIn :: "string option \<Rightarrow> metrics_frame \<Rightarrow> node_frame option" where
  "nodeIn sel f = find (\<lambda>n. Some (nf_node_id n) = sel) (mf_nodes f)"

section \<open>Series\<close>

text \<open>The \<open>flatMap\<close> over the recent frames: a point where the node is, and has the value.\<close>

definition node_series :: "(node_frame \<Rightarrow> rat option) \<Rightarrow> string option \<Rightarrow> metrics_frame list \<Rightarrow> line_point list" where
  "node_series pick sel fs =
     concat (map (\<lambda>f. case nodeIn sel f of
         Some n \<Rightarrow> (case pick n of Some v \<Rightarrow> [(cs_at (mf_cluster f), v)] | None \<Rightarrow> [])
       | None \<Rightarrow> []) fs)"

definition drive_in :: "string \<Rightarrow> node_frame \<Rightarrow> drive_frame option" where
  "drive_in i n = find (\<lambda>d. vf_drive_id d = i) (nf_drives n)"

definition disk_in :: "string \<Rightarrow> node_frame \<Rightarrow> disk_frame option" where
  "disk_in i n = find (\<lambda>d. df_disk_id d = i) (nf_disks n)"

text \<open>A selected id counts when it is truthy.\<close>

definition given :: "string option \<Rightarrow> string option" where
  "given i = (if i = Some [] then None else i)"

definition wsCpuPoints :: "string option \<Rightarrow> metrics_frame list \<Rightarrow> line_point list" where
  "wsCpuPoints = node_series (\<lambda>n. Some (nf_cpu_percent n))"

definition wsMemoryPoints :: "string option \<Rightarrow> metrics_frame list \<Rightarrow> line_point list" where
  "wsMemoryPoints = node_series (\<lambda>n. Some (of_nat (nf_memory_used n)))"

definition wsDriveTempPoints :: "string option \<Rightarrow> string option \<Rightarrow> metrics_frame list \<Rightarrow> line_point list" where
  "wsDriveTempPoints drive sel fs =
     (case given drive of None \<Rightarrow> []
      | Some i \<Rightarrow> node_series (\<lambda>n. Option.bind (drive_in i n) vf_temp_celsius) sel fs)"

definition wsDiskTempPoints :: "string option \<Rightarrow> string option \<Rightarrow> metrics_frame list \<Rightarrow> line_point list" where
  "wsDiskTempPoints disk sel fs =
     (case given disk of None \<Rightarrow> []
      | Some i \<Rightarrow> node_series (\<lambda>n. Option.bind (disk_in i n) df_temp_celsius) sel fs)"

definition cluster_series :: "(cluster_snap \<Rightarrow> rat option) \<Rightarrow> cluster_snap list \<Rightarrow> line_point list" where
  "cluster_series pick ss = map (\<lambda>s. (cs_at s, the (pick s))) (filter (\<lambda>s. pick s \<noteq> None) ss)"

definition committed_bytes :: "cluster_snap \<Rightarrow> int" where
  "committed_bytes s = (cs_disk_total s - cs_disk_free s) + max 0 (cs_quota s - cs_used s)"

definition disk_points :: "cluster_snap list \<Rightarrow> line_point list" where
  "disk_points ss = map (\<lambda>s. (cs_at s, of_int (committed_bytes s))) ss"

definition diskCommittedPct :: "cluster_snap option \<Rightarrow> rat" where
  "diskCommittedPct latest =
     (case latest of None \<Rightarrow> 0
      | Some s \<Rightarrow> if 0 < cs_disk_total s then of_int (committed_bytes s) / of_int (cs_disk_total s) * 100 else 0)"

text \<open>Within the last hour the pings of the browser stand in for those of the server.\<close>

definition netPingPoints :: "nat \<Rightarrow> cluster_snap list \<Rightarrow> cluster_snap list \<Rightarrow> line_point list \<Rightarrow> line_point list" where
  "netPingPoints hours recent hist client =
     (let server = cluster_series cs_ping (if hours = 1 then recent else hist)
      in if hours = 1 then (if 2 \<le> length server then server else client) else server)"

section \<open>Rates\<close>

record io_sample =
  io_at :: int
  io_read :: int
  io_write :: int

definition per_second :: "int \<Rightarrow> int \<Rightarrow> rat" where
  "per_second amount dt = of_int amount / of_int dt * 1000"

fun diffIORate :: "io_sample list \<Rightarrow> line_point list \<times> line_point list" where
  "diffIORate (prev # cur # rest) =
     (let (rs, ws) = diffIORate (cur # rest); dt = io_at cur - io_at prev;
          r = per_second (io_read cur - io_read prev) dt; w = per_second (io_write cur - io_write prev) dt
      in if dt \<le> 0 \<or> r < 0 \<or> w < 0 then (rs, ws) else ((io_at cur, r) # rs, (io_at cur, w) # ws))"
| "diffIORate _ = ([], [])"

definition wsDriveIOSamples :: "string option \<Rightarrow> string option \<Rightarrow> metrics_frame list \<Rightarrow> io_sample list" where
  "wsDriveIOSamples drive sel fs =
     (case given drive of None \<Rightarrow> []
      | Some i \<Rightarrow> concat (map (\<lambda>f. case Option.bind (nodeIn sel f) (drive_in i) of
            Some d \<Rightarrow> [\<lparr>io_at = cs_at (mf_cluster f), io_read = vf_read_bytes d, io_write = vf_write_bytes d\<rparr>]
          | None \<Rightarrow> []) fs))"

definition wsDiskIOSamples :: "string option \<Rightarrow> string option \<Rightarrow> metrics_frame list \<Rightarrow> io_sample list" where
  "wsDiskIOSamples disk sel fs =
     (case given disk of None \<Rightarrow> []
      | Some i \<Rightarrow> concat (map (\<lambda>f. case Option.bind (nodeIn sel f) (disk_in i) of
            Some d \<Rightarrow> [\<lparr>io_at = cs_at (mf_cluster f), io_read = df_read_bytes d, io_write = df_write_bytes d\<rparr>]
          | None \<Rightarrow> []) fs))"

text \<open>The traffic of a node, first upload, then download: a pair of frames counts when the node is in both.\<close>

fun ws_net_points :: "string option \<Rightarrow> metrics_frame list \<Rightarrow> line_point list \<times> line_point list" where
  "ws_net_points sel (f # g # fs) =
     (let (us, ds) = ws_net_points sel (g # fs); dt = cs_at (mf_cluster g) - cs_at (mf_cluster f)
      in case (nodeIn sel f, nodeIn sel g) of
           (Some p, Some c) \<Rightarrow>
             (let u = per_second (nf_sent c - nf_sent p) dt; d = per_second (nf_recv c - nf_recv p) dt
              in if dt \<le> 0 \<or> u < 0 \<or> d < 0 then (us, ds)
                 else ((cs_at (mf_cluster g), u) # us, (cs_at (mf_cluster g), d) # ds))
         | _ \<Rightarrow> (us, ds))"
| "ws_net_points sel _ = ([], [])"

record node_history_row =
  nh_at :: int
  nh_cpu :: rat
  nh_memory :: nat
  nh_sent :: int
  nh_recv :: int

fun hist_net_points :: "node_history_row list \<Rightarrow> line_point list \<times> line_point list" where
  "hist_net_points (p # c # rest) =
     (let (us, ds) = hist_net_points (c # rest); dt = nh_at c - nh_at p;
          u = per_second (nh_sent c - nh_sent p) dt; d = per_second (nh_recv c - nh_recv p) dt
      in if dt \<le> 0 \<or> u < 0 \<or> d < 0 then (us, ds) else ((nh_at c, u) # us, (nh_at c, d) # ds))"
| "hist_net_points _ = ([], [])"

definition formatBytesPerSec :: "rat \<Rightarrow> string" where
  "formatBytesPerSec b0 =
     (let b = max 0 b0
      in if 1024 * 1024 \<le> b then to_fixed 1 (b / (1024 * 1024)) @ '' MB/s''
         else if 1024 \<le> b then to_fixed 1 (b / 1024) @ '' KB/s''
         else to_fixed 0 b @ '' B/s'')"

text \<open>The two last frames, when both hold the node and time has passed.\<close>

definition last_pair :: "string option \<Rightarrow> metrics_frame list \<Rightarrow> (node_frame \<times> node_frame \<times> int) option" where
  "last_pair sel fs =
     (if length fs < 2 then None
      else let f = fs ! (length fs - 2); g = fs ! (length fs - 1); dt = cs_at (mf_cluster g) - cs_at (mf_cluster f)
           in case (nodeIn sel f, nodeIn sel g) of
                (Some p, Some c) \<Rightarrow> if 0 < dt then Some (p, c, dt) else None
              | _ \<Rightarrow> None)"

definition live_net_rates :: "string option \<Rightarrow> metrics_frame list \<Rightarrow> (string \<times> string) option" where
  "live_net_rates sel fs =
     map_option (\<lambda>(p, c, dt). (formatBytesPerSec (per_second (nf_sent c - nf_sent p) dt),
       formatBytesPerSec (per_second (nf_recv c - nf_recv p) dt))) (last_pair sel fs)"

text \<open>The map built from pairs: a later pair replaces an earlier one.\<close>

definition map_from :: "('k \<times> 'v) list \<Rightarrow> 'k \<Rightarrow> 'v option" where
  "map_from ps = fold (\<lambda>(k, v) m. m(k \<mapsto> v)) ps Map.empty"

definition ioRateByDiskId :: "string option \<Rightarrow> metrics_frame list \<Rightarrow> string \<Rightarrow> (rat \<times> rat) option" where
  "ioRateByDiskId sel fs =
     (case last_pair sel fs of None \<Rightarrow> Map.empty
      | Some (p, c, dt) \<Rightarrow>
          let before = map_from (map (\<lambda>d. (df_disk_id d, d)) (nf_disks p))
          in fold (\<lambda>d m. case before (df_disk_id d) of None \<Rightarrow> m
                | Some q \<Rightarrow> m(df_disk_id d \<mapsto> (max 0 (per_second (df_read_bytes d - df_read_bytes q) dt),
                    max 0 (per_second (df_write_bytes d - df_write_bytes q) dt)))) (nf_disks c) Map.empty)"

definition ioRateByDriveId :: "string option \<Rightarrow> metrics_frame list \<Rightarrow> string \<Rightarrow> (rat \<times> rat) option" where
  "ioRateByDriveId sel fs =
     (case last_pair sel fs of None \<Rightarrow> Map.empty
      | Some (p, c, dt) \<Rightarrow>
          let before = map_from (map (\<lambda>d. (vf_drive_id d, d)) (nf_drives p))
          in fold (\<lambda>d m. case before (vf_drive_id d) of None \<Rightarrow> m
                | Some q \<Rightarrow> m(vf_drive_id d \<mapsto> (max 0 (per_second (vf_read_bytes d - vf_read_bytes q) dt),
                    max 0 (per_second (vf_write_bytes d - vf_write_bytes q) dt)))) (nf_drives c) Map.empty)"

section \<open>Selection\<close>

record node_tab =
  tb_id :: string
  tb_hostname :: string
  tb_role :: string

text \<open>The effect that defaults and re-validates a selection: an id, and the ids there are.\<close>

definition revalidate :: "string list \<Rightarrow> string option \<Rightarrow> string option" where
  "revalidate ids sel =
     (if ids = [] then sel
      else if (case sel of None \<Rightarrow> True | Some i \<Rightarrow> i = [] \<or> i \<notin> set ids) then Some (hd ids) else sel)"

definition nodeTabs :: "node_summary list \<Rightarrow> string option \<Rightarrow> node_frame list \<Rightarrow> node_tab list" where
  "nodeTabs nodes server live =
     (if nodes \<noteq> [] then
        map (\<lambda>n. \<lparr>tb_id = ns_node_id n, tb_hostname = ns_hostname n, tb_role = ns_role n\<rparr>)
          (filter (\<lambda>n. (case server of None \<Rightarrow> True | Some i \<Rightarrow> i = [] \<or> ns_server_id n = i)) nodes)
      else map (\<lambda>n. \<lparr>tb_id = nf_node_id n, tb_hostname = nf_hostname n, tb_role = nf_role n\<rparr>) live)"

text \<open>Both effects after a render.\<close>

definition settle_selection ::
  "node_summary list \<Rightarrow> drive_summary list \<Rightarrow> node_frame list \<Rightarrow> string option \<times> string option \<Rightarrow> string option \<times> string option" where
  "settle_selection nodes drives live sel =
     (revalidate (map sg_serverId (tr_servers (build_tree nodes drives))) (fst sel),
      revalidate (map tb_id (nodeTabs nodes (fst sel) live)) (snd sel))"

definition safe_index :: "nat \<Rightarrow> 'a list \<Rightarrow> nat" where
  "safe_index i xs = (if xs \<noteq> [] then min i (length xs - 1) else 0)"

text \<open>The arrows of a carousel add \<open>1\<close> or \<open>-1\<close>; the index they are given is the safe one.\<close>

definition carousel_step :: "nat \<Rightarrow> int \<Rightarrow> nat \<Rightarrow> nat" where
  "carousel_step n delta index = (if n = 0 then index else nat ((int index + delta + int n) mod int n))"

definition latest_frame :: "metrics_frame list \<Rightarrow> node_frame list" where
  "latest_frame fs = (if fs = [] then [] else mf_nodes (last fs))"

definition node_disks :: "string option \<Rightarrow> metrics_frame list \<Rightarrow> disk_frame list" where
  "node_disks sel fs = (case find (\<lambda>n. Some (nf_node_id n) = sel) (latest_frame fs) of None \<Rightarrow> [] | Some n \<Rightarrow> nf_disks n)"

definition node_drives :: "string option \<Rightarrow> metrics_frame list \<Rightarrow> drive_frame list" where
  "node_drives sel fs = (case find (\<lambda>n. Some (nf_node_id n) = sel) (latest_frame fs) of None \<Rightarrow> [] | Some n \<Rightarrow> nf_drives n)"

definition selected_of :: "nat \<Rightarrow> 'a list \<Rightarrow> 'a option" where
  "selected_of i xs = (let k = safe_index i xs in if k < length xs then Some (xs ! k) else None)"

definition mem_pct :: "node_frame option \<Rightarrow> rat" where
  "mem_pct n = (case n of None \<Rightarrow> 0 | Some f \<Rightarrow> percent_of (nf_memory_used f) (nf_memory_total f))"

definition capacity_card :: "(nat \<times> nat) list \<Rightarrow> nat \<times> nat \<times> rat" where
  "capacity_card xs =
     (let total = fold (\<lambda>d s. s + fst d) xs 0; used = fold (\<lambda>d s. s + snd d) xs 0 in (total, used, percent_of used total))"

datatype shade = Grey | Green | Amber | Red

definition tempColor :: "rat \<Rightarrow> shade" where
  "tempColor c = (if 60 \<le> c then Red else if 45 \<le> c then Amber else Green)"

definition pingColor :: "rat option \<Rightarrow> shade" where
  "pingColor ms = (case ms of None \<Rightarrow> Grey | Some v \<Rightarrow> if 150 \<le> v then Red else if 60 \<le> v then Amber else Green)"

definition lossColor :: "rat option \<Rightarrow> shade" where
  "lossColor p = (case p of None \<Rightarrow> Grey | Some v \<Rightarrow> if 10 \<le> v then Red else if 1 \<le> v then Amber else Green)"

record speed_result =
  sr_upload :: rat
  sr_download :: "rat option"
  sr_tested_at :: string
  sr_error :: "string option"

text \<open>The stream's figures come before the stored ones; a download figure is not checked for.\<close>

definition liveSpeedTest :: "cluster_snap option \<Rightarrow> speed_result option \<Rightarrow> speed_result option" where
  "liveSpeedTest latest stored =
     (case Option.bind latest cs_upload of
        Some u \<Rightarrow> Some \<lparr>sr_upload = u, sr_download = cs_download (the latest), sr_tested_at = cs_tested_at (the latest),
                        sr_error = cs_speed_error (the latest)\<rparr>
      | None \<Rightarrow> stored)"

section \<open>Pings\<close>

record ping_state =
  pg_probes :: "(int \<times> rat option) list"
  pg_pingMs :: "rat option"
  pg_loss :: rat
  pg_history :: "line_point list"

definition ping_start :: ping_state where
  "ping_start = \<lparr>pg_probes = [], pg_pingMs = None, pg_loss = 0, pg_history = []\<rparr>"

text \<open>A probe that came back at \<open>now\<close>, or got lost.\<close>

definition probe_done :: "int \<Rightarrow> rat option \<Rightarrow> ping_state \<Rightarrow> ping_state" where
  "probe_done now rtt s =
     (let probes = filter (\<lambda>p. now - HOUR_MS \<le> fst p) (pg_probes s @ [(now, rtt)]);
          ok = map (\<lambda>(t, r). (t, the r)) (filter (\<lambda>(t, r). r \<noteq> None) probes)
      in \<lparr>pg_probes = probes,
          pg_pingMs = (if ok \<noteq> [] then Some (fold (\<lambda>p s. s + snd p) ok 0 / of_nat (length ok)) else None),
          pg_loss = of_nat (length probes - length ok) / of_nat (length probes) * 100,
          pg_history = ok\<rparr>)"

definition ping_run :: "(int \<times> rat option) list \<Rightarrow> ping_state" where
  "ping_run es = fold (\<lambda>(now, rtt). probe_done now rtt) es ping_start"


section \<open>Properties of rates\<close>

lemma per_second_nonneg: "0 < dt \<Longrightarrow> 0 \<le> per_second x dt \<longleftrightarrow> 0 \<le> x"
  by (simp add: per_second_def zero_le_mult_iff zero_le_divide_iff)

text \<open>Both curves have their points at the same times, times of samples and in their order, and no rate is
  negative.\<close>

theorem rates_are_sound:
  "map fst (fst (diffIORate ss)) = map fst (snd (diffIORate ss))
   \<and> subseq (map fst (fst (diffIORate ss))) (map io_at (tl ss))
   \<and> list_all (\<lambda>p. 0 \<le> snd p) (fst (diffIORate ss) @ snd (diffIORate ss))"
proof (induction ss rule: diffIORate.induct)
  case (1 prev cur rest)
  then show ?case by (auto simp: Let_def split: prod.splits)
qed simp_all

text \<open>The area under a curve that starts at a time.\<close>

fun area :: "int \<Rightarrow> line_point list \<Rightarrow> rat" where
  "area t [] = 0"
| "area t ((x, y) # ps) = y * of_int (x - t) / 1000 + area x ps"

lemma steady_area:
  assumes "ss \<noteq> []" and "sorted_wrt (<) (map io_at ss)" and "sorted (map io_read ss)" and "sorted (map io_write ss)"
  shows "area (io_at (hd ss)) (fst (diffIORate ss)) = of_int (io_read (last ss) - io_read (hd ss))
    \<and> area (io_at (hd ss)) (snd (diffIORate ss)) = of_int (io_write (last ss) - io_write (hd ss))"
  using assms
proof (induction ss rule: diffIORate.induct)
  case (1 prev cur rest)
  let ?dt = "io_at cur - io_at prev"
  have dt: "0 < ?dt" and rd: "0 \<le> io_read cur - io_read prev" and wr: "0 \<le> io_write cur - io_write prev"
    using "1.prems" by auto
  obtain rs ws where d: "diffIORate (cur # rest) = (rs, ws)" by fastforce
  have "\<not> (?dt \<le> 0 \<or> per_second (io_read cur - io_read prev) ?dt < 0 \<or> per_second (io_write cur - io_write prev) ?dt < 0)"
    using dt per_second_nonneg [OF dt] rd wr by (simp add: not_less)
  then have e: "diffIORate (prev # cur # rest) =
      ((io_at cur, per_second (io_read cur - io_read prev) ?dt) # rs,
       (io_at cur, per_second (io_write cur - io_write prev) ?dt) # ws)"
    by (simp add: d Let_def)
  have q: "(of_int ?dt :: rat) \<noteq> 0" using dt by simp
  have k: "per_second x ?dt * of_int ?dt / 1000 = of_int x" for x
    using q unfolding per_second_def by simp
  from "1.prems" have "sorted_wrt (<) (map io_at (cur # rest))" "sorted (map io_read (cur # rest))" "sorted (map io_write (cur # rest))"
    by simp_all
  from "1.IH" [OF _ this] d have ih: "area (io_at cur) rs = of_int (io_read (last (cur # rest)) - io_read cur)"
    "area (io_at cur) ws = of_int (io_write (last (cur # rest)) - io_write cur)" by simp_all
  show ?case unfolding e using ih k by (simp del: of_int_diff add: of_int_diff [symmetric])
qed simp_all

text \<open>An interval between neighbouring samples counts when time has passed in it and neither counter fell; its
  rate is what was transferred by the seconds it took.\<close>

definition counts :: "io_sample \<times> io_sample \<Rightarrow> bool" where
  "counts i \<longleftrightarrow> io_at (fst i) < io_at (snd i) \<and> io_read (fst i) \<le> io_read (snd i) \<and> io_write (fst i) \<le> io_write (snd i)"

definition rate_of :: "(io_sample \<Rightarrow> int) \<Rightarrow> io_sample \<times> io_sample \<Rightarrow> line_point" where
  "rate_of counter i = (io_at (snd i), of_int (counter (snd i) - counter (fst i)) / (of_int (io_at (snd i) - io_at (fst i)) / 1000))"

definition intervals :: "io_sample list \<Rightarrow> (io_sample \<times> io_sample) list" where
  "intervals ss = zip ss (tl ss)"

lemma counts_guard:
  "counts (p, c) \<longleftrightarrow> \<not> (io_at c - io_at p \<le> 0 \<or> per_second (io_read c - io_read p) (io_at c - io_at p) < 0
     \<or> per_second (io_write c - io_write p) (io_at c - io_at p) < 0)"
proof (cases "0 < io_at c - io_at p")
  case True
  with per_second_nonneg [OF True] show ?thesis by (simp add: counts_def flip: not_le)
qed (simp add: counts_def)

lemma rate_of_point: "rate_of f (p, c) = (io_at c, per_second (f c - f p) (io_at c - io_at p))"
  by (simp add: rate_of_def per_second_def)

lemma rates_of_intervals:
  "diffIORate ss = (map (rate_of io_read) (filter counts (intervals ss)), map (rate_of io_write) (filter counts (intervals ss)))"
proof (induction ss rule: diffIORate.induct)
  case (1 p c rest)
  have i: "intervals (p # c # rest) = (p, c) # intervals (c # rest)" by (simp add: intervals_def)
  show ?case
    unfolding diffIORate.simps Let_def "1.IH" i
    using counts_guard [of p c] by (simp add: rate_of_point del: of_int_diff)
qed (simp_all add: intervals_def)

text \<open>C38. The rates are those of the samples. For any samples, both curves have one point for each interval between
  neighbouring samples in which time has passed and neither counter fell, at the time of its later sample
  and with its average rate, in the order of the samples, and no other point: a repeated or earlier time
  stamp, or a counter that was reset, gives none on either curve. And where the times strictly increase and
  the counters never fall, the area under each curve is exactly what was read or written from the first
  sample to the last, so no byte is lost or counted twice between two samples.\<close>

theorem rates_add_up:
  "diffIORate ss = (map (rate_of io_read) (filter counts (intervals ss)), map (rate_of io_write) (filter counts (intervals ss)))
   \<and> (ss \<noteq> [] \<and> sorted_wrt (<) (map io_at ss) \<and> sorted (map io_read ss) \<and> sorted (map io_write ss) \<longrightarrow>
        area (io_at (hd ss)) (fst (diffIORate ss)) = of_int (io_read (last ss) - io_read (hd ss))
      \<and> area (io_at (hd ss)) (snd (diffIORate ss)) = of_int (io_write (last ss) - io_write (hd ss)))"
  using rates_of_intervals [of ss] steady_area [of ss] by blast

definition steady_samples :: "io_sample list" where
  "steady_samples = [\<lparr>io_at = 0, io_read = 10, io_write = 5\<rparr>, \<lparr>io_at = 5000, io_read = 10010, io_write = 5\<rparr>,
     \<lparr>io_at = 9000, io_read = 10020, io_write = 7\<rparr>]"

definition stalled_samples :: "io_sample list" where
  "stalled_samples = [\<lparr>io_at = 0, io_read = 0, io_write = 0\<rparr>, \<lparr>io_at = 0, io_read = 8, io_write = 0\<rparr>,
     \<lparr>io_at = 1000, io_read = 10, io_write = 0\<rparr>, \<lparr>io_at = 2000, io_read = 0, io_write = 4\<rparr>]"

theorem rates_add_up_witness:
  "area 0 (fst (diffIORate steady_samples)) = 10010 \<and> fst (diffIORate stalled_samples) = [(1000, 2)]"
  using rates_add_up [of steady_samples] rates_add_up [of stalled_samples]
  by (simp add: steady_samples_def stalled_samples_def intervals_def counts_def rate_of_def)

text \<open>The traffic of the history is the same difference, and so is the traffic of frames that all hold the node.\<close>

lemma history_traffic_is_difference:
  "hist_net_points rows = prod.swap (diffIORate (map (\<lambda>r. \<lparr>io_at = nh_at r, io_read = nh_recv r, io_write = nh_sent r\<rparr>) rows))"
proof (induction rows rule: hist_net_points.induct)
  case (1 p c rest)
  then show ?case by (auto simp: Let_def prod.swap_def split: prod.splits)
qed simp_all

definition traffic_sample :: "string option \<Rightarrow> metrics_frame \<Rightarrow> io_sample" where
  "traffic_sample sel f = \<lparr>io_at = cs_at (mf_cluster f), io_read = nf_recv (the (nodeIn sel f)), io_write = nf_sent (the (nodeIn sel f))\<rparr>"

theorem live_traffic_is_difference:
  assumes "list_all (\<lambda>f. nodeIn sel f \<noteq> None) fs"
  shows "ws_net_points sel fs = prod.swap (diffIORate (map (traffic_sample sel) fs))"
  using assms
proof (induction sel fs rule: ws_net_points.induct)
  case (1 sel f g fs)
  then show ?case
    by (auto simp: Let_def prod.swap_def traffic_sample_def split: prod.splits option.splits)
qed simp_all

definition probe_node :: "string \<Rightarrow> int \<Rightarrow> node_frame" where
  "probe_node i x = \<lparr>nf_node_id = i, nf_hostname = i, nf_role = ''worker'', nf_online = True, nf_cpu_percent = 1,
     nf_cpu_temp = None, nf_memory_used = 0, nf_memory_total = 0, nf_sent = x, nf_recv = x, nf_drives = [], nf_disks = []\<rparr>"

definition probe_frame :: "int \<Rightarrow> node_frame list \<Rightarrow> metrics_frame" where
  "probe_frame t ns = \<lparr>mf_cluster = \<lparr>cs_at = t, cs_quota = 0, cs_used = 0, cs_disk_total = 0, cs_disk_free = 0,
     cs_active_users = 0, cs_total_users = 0, cs_ping = None, cs_loss = None, cs_upload = None, cs_download = None,
     cs_tested_at = [], cs_speed_error = None\<rparr>, mf_nodes = ns\<rparr>"

theorem live_traffic_is_difference_witness:
  "ws_net_points (Some ''n'') [probe_frame 0 [probe_node ''n'' 0], probe_frame 1000 [probe_node ''n'' 7]] = ([(1000, 7)], [(1000, 7)])"
  using live_traffic_is_difference [of "Some ''n''" "[probe_frame 0 [probe_node ''n'' 0], probe_frame 1000 [probe_node ''n'' 7]]"]
  by (simp add: probe_frame_def probe_node_def nodeIn_def traffic_sample_def per_second_def Let_def prod.swap_def)

text \<open>A frame without the node leaves a hole of two intervals in the traffic, where the speed of a disk, whose
  samples leave such frames out before they are compared, bridges it.\<close>

theorem missing_frame_leaves_hole:
  "let fs = [probe_frame 0 [probe_node ''n'' 0], probe_frame 1000 [], probe_frame 2000 [probe_node ''n'' 8]]
   in ws_net_points (Some ''n'') fs = ([], [])
      \<and> snd (diffIORate (map (traffic_sample (Some ''n'')) (filter (\<lambda>f. nodeIn (Some ''n'') f \<noteq> None) fs))) = [(2000, 4)]"
  by (simp add: probe_frame_def probe_node_def nodeIn_def traffic_sample_def per_second_def Let_def)

text \<open>The live rates of disks are those of disks in both frames, and not negative.\<close>

lemma rate_map_nonneg:
  assumes "\<And>k r. m k = Some r \<Longrightarrow> 0 \<le> (fst r :: rat) \<and> 0 \<le> (snd r :: rat)"
    and "fold (\<lambda>d m. case before (key d) of None \<Rightarrow> m | Some q \<Rightarrow> m(key d \<mapsto> (max 0 (f d q), max 0 (g d q)))) ds m k = Some r"
  shows "0 \<le> fst r \<and> 0 \<le> snd r"
  using assms
proof (induction ds arbitrary: m)
  case (Cons d ds)
  let ?m = "case before (key d) of None \<Rightarrow> m | Some q \<Rightarrow> m(key d \<mapsto> (max 0 (f d q), max 0 (g d q)))"
  have "fold (\<lambda>d m. case before (key d) of None \<Rightarrow> m | Some q \<Rightarrow> m(key d \<mapsto> (max 0 (f d q), max 0 (g d q)))) ds ?m k = Some r"
    using Cons.prems(2) by simp
  moreover have "0 \<le> fst r \<and> 0 \<le> snd r" if "?m k = Some r" for k r
    using that Cons.prems(1) by (auto split: option.splits if_splits)
  ultimately show ?case by (rule Cons.IH [rotated])
qed simp

theorem live_rates_nonneg:
  "(case ioRateByDiskId sel fs i of None \<Rightarrow> True | Some (r, w) \<Rightarrow> 0 \<le> r \<and> 0 \<le> w)
   \<and> (case ioRateByDriveId sel fs i of None \<Rightarrow> True | Some (r, w) \<Rightarrow> 0 \<le> r \<and> 0 \<le> w)"
  by (auto simp: ioRateByDiskId_def ioRateByDriveId_def Let_def split: option.splits dest!: rate_map_nonneg [rotated])

section \<open>Properties of the selection\<close>

lemma revalidate_idem: "revalidate ids (revalidate ids s) = revalidate ids s"
  by (cases ids) (auto simp: revalidate_def split: option.splits)

lemma revalidate_in: "ids \<noteq> [] \<Longrightarrow> revalidate ids s \<in> Some ` set ids"
  by (cases ids) (auto simp: revalidate_def split: option.splits)

text \<open>The two effects settle after two renders, on a server there is and on one of its nodes, if it has any.\<close>

theorem selection_settles:
  assumes "nodes \<noteq> []" and "'''' \<notin> set (map ns_server_id nodes)"
    and "s2 = settle_selection nodes drives live (settle_selection nodes drives live sel)"
  shows "settle_selection nodes drives live s2 = s2
    \<and> fst s2 \<in> Some ` set (map sg_serverId (tr_servers (build_tree nodes drives)))
    \<and> (list_ex (\<lambda>n. Some (ns_server_id n) = fst s2) nodes
        \<longrightarrow> list_ex (\<lambda>n. Some (ns_server_id n) = fst s2 \<and> Some (ns_node_id n) = snd s2) nodes)"
proof -
  let ?ids = "map sg_serverId (tr_servers (build_tree nodes drives))"
  let ?tabs = "\<lambda>server. map tb_id (nodeTabs nodes server live)"
  let ?server = "revalidate ?ids (fst sel)"
  have f: "fst s2 = ?server" by (simp add: assms(3) settle_selection_def revalidate_idem)
  have g: "snd s2 = revalidate (?tabs ?server) (revalidate (?tabs (fst sel)) (snd sel))"
    by (simp add: assms(3) settle_selection_def)
  have stable: "settle_selection nodes drives live s2 = s2"
    by (rule prod_eqI) (simp_all add: settle_selection_def f g revalidate_idem del: map_map)
  have "?ids \<noteq> []"
  proof
    assume "?ids = []"
    then have "all_nodes (build_tree nodes drives) = []" by (simp add: all_nodes_def)
    moreover have "length (all_nodes (build_tree nodes drives)) = length [0..<length (tr_groups (build_tree nodes drives))]"
      using tree_built(1) [of nodes drives] unfolding tree_inv_def by (blast intro: mset_eq_length)
    ultimately have "tr_groups (build_tree nodes drives) = []" by simp
    with tree_built(2) [of nodes drives] assms(1) show False by simp
  qed
  then have s: "?server \<in> Some ` set ?ids" by (rule revalidate_in)
  have "list_ex (\<lambda>n. Some (ns_server_id n) = ?server \<and> Some (ns_node_id n) = snd s2) nodes"
    if e: "list_ex (\<lambda>n. Some (ns_server_id n) = ?server) nodes"
  proof -
    from e obtain n where n: "n \<in> set nodes" "?server = Some (ns_server_id n)" by (auto simp: list_ex_iff)
    with assms(2) have ne: "ns_server_id n \<noteq> []" by force
    have t: "?tabs ?server = map ns_node_id (filter (\<lambda>m. ns_server_id m = ns_server_id n) nodes)"
      using assms(1) n(2) ne by (simp add: nodeTabs_def)
    have "?tabs ?server \<noteq> []" using n(1) by (auto simp: t filter_empty_conv)
    from revalidate_in [OF this, of "revalidate (?tabs (fst sel)) (snd sel)"]
    have "snd s2 \<in> Some ` set (map ns_node_id (filter (\<lambda>m. ns_server_id m = ns_server_id n) nodes))"
      unfolding g t .
    then show ?thesis unfolding n(2) list_ex_iff by auto
  qed
  with stable s f show ?thesis by simp
qed


definition lone_node :: node_summary where
  "lone_node = \<lparr>ns_node_id = ''n'', ns_server_id = ''s'', ns_server_name = ''S'', ns_server_is_active = True,
     ns_hostname = ''h'', ns_role = ''manager'', ns_address = [], ns_is_active = True\<rparr>"

definition lone_drive :: drive_summary where
  "lone_drive = \<lparr>ds_drive_id = ''d'', ds_server_id = ''t'', ds_server_name = ''T'', ds_node_id = None, ds_drive_label = ''D'',
     ds_drive_type = HddDrive, ds_capacity_bytes = 0, ds_allocated_quota_bytes = 0, ds_used_bytes = 0,
     ds_drive_is_active = True, ds_server_is_active = True\<rparr>"

theorem selection_settles_witness:
  "settle_selection [lone_node] [] [] (Some ''s'', Some ''n'') = (Some ''s'', Some ''n'')"
  using selection_settles [of "[lone_node]" "(Some ''s'', Some ''n'')" "[]" "[]" "(None, None)"]
  by (simp add: settle_selection_def build_tree_def add_node_def ensureServer_def in_server_def empty_tree_def
      lone_node_def nodeTabs_def revalidate_def Let_def)

text \<open>On a server that only has unassigned drives the node of the server before stays selected: the cards go on
  to show its hardware under the other server's name.\<close>

theorem nodeless_server_keeps_node:
  "settle_selection [lone_node] [lone_drive] [] (Some ''t'', Some ''n'') = (Some ''t'', Some ''n'')"
  by (simp add: settle_selection_def build_tree_def add_node_def add_drive_def drive_home_def ensureServer_def in_server_def
      empty_tree_def lone_node_def lone_drive_def nodeTabs_def revalidate_def Let_def)

text \<open>The arrows of a carousel stay among its slides, and going on and back leads to the same one; the slide
  shown exists whenever there is one, however the node's disks have changed.\<close>

theorem carousel_in_range:
  assumes "index < n"
  shows "carousel_step n 1 index < n \<and> carousel_step n (- 1) index < n
    \<and> carousel_step n (- 1) (carousel_step n 1 index) = index"
proof -
  have n: "0 < n" using assms by simp
  have b: "int (carousel_step n d index) = (int index + d + int n) mod int n" for d index
    using n by (simp add: carousel_step_def)
  have "int (carousel_step n (- 1) (carousel_step n 1 index)) = int index"
    using assms unfolding b by (simp add: mod_simps)
  moreover have "int (carousel_step n d index) < int n" for d
    using n unfolding b by simp
  ultimately show ?thesis by (metis of_nat_eq_iff of_nat_less_iff)
qed

theorem carousel_in_range_witness: "carousel_step 3 (- 1) (carousel_step 3 1 2) = 2"
  using carousel_in_range [of 2 3] by simp

lemma selected_exists: "selected_of i xs = None \<longleftrightarrow> xs = []"
  by (cases xs) (auto simp: selected_of_def safe_index_def Let_def)

section \<open>Properties of the pings\<close>

lemma fold_plus: "fold (\<lambda>p s. s + (f p :: rat)) xs a = a + sum_list (map f xs)"
  by (induction xs arbitrary: a) simp_all

lemma sum_list_between:
  "list_all (\<lambda>x. lo \<le> x \<and> x \<le> (hi :: rat)) xs \<Longrightarrow> lo * of_nat (length xs) \<le> sum_list xs \<and> sum_list xs \<le> hi * of_nat (length xs)"
  by (induction xs) (auto simp: algebra_simps)

lemma probe_done_probes: "p \<in> set (pg_probes (probe_done now rtt s)) \<Longrightarrow> p = (now, rtt) \<or> p \<in> set (pg_probes s)"
  by (auto simp: probe_done_def Let_def split: if_splits)

lemma ping_probes_from:
  "p \<in> set (pg_probes (fold (\<lambda>(now, rtt). probe_done now rtt) es s)) \<Longrightarrow> p \<in> set (pg_probes s) \<or> p \<in> set es"
proof (induction es arbitrary: s)
  case (Cons e es)
  obtain now rtt where e: "e = (now, rtt)" by fastforce
  have "p \<in> set (pg_probes (probe_done now rtt s)) \<or> p \<in> set es" using Cons.prems by (intro Cons.IH) (simp add: e)
  then show ?case using probe_done_probes [of p now rtt s] by (auto simp: e)
qed simp

text \<open>After any probes the page shows a loss between 0 and 100 percent, which is 100 exactly when no probe of the
  last hour came back; then there is no ping, otherwise one between the fastest and the slowest probe
  that ever came back; and all points of the graph are of the last hour.\<close>

theorem pings_are_sane:
  assumes "es \<noteq> []" and "list_all (\<lambda>e. case snd e of None \<Rightarrow> True | Some r \<Rightarrow> lo \<le> r \<and> r \<le> hi) es"
  shows "let s = ping_run es in
    0 \<le> pg_loss s \<and> pg_loss s \<le> 100 \<and> (pg_loss s = 100 \<longleftrightarrow> pg_history s = []) \<and> (pg_pingMs s = None \<longleftrightarrow> pg_history s = [])
    \<and> (case pg_pingMs s of None \<Rightarrow> True | Some p \<Rightarrow> lo \<le> p \<and> p \<le> hi)
    \<and> list_all (\<lambda>p. fst (last es) - HOUR_MS \<le> fst p) (pg_history s)"
proof -
  obtain before now rtt where es: "es = before @ [(now, rtt)]"
    using assms(1) by (metis append_butlast_last_id surj_pair)
  define ps where "ps = filter (\<lambda>p. now - HOUR_MS \<le> fst p) (pg_probes (ping_run before) @ [(now, rtt)])"
  define ok where "ok = map (\<lambda>(t, r). (t, the r)) (filter (\<lambda>(t, r). r \<noteq> None) ps)"
  have run: "ping_run es = probe_done now rtt (ping_run before)" by (simp add: ping_run_def es)
  have ne: "ps \<noteq> []" by (simp add: ps_def HOUR_MS_def)
  have le: "length ok \<le> length ps" by (simp only: ok_def length_map length_filter_le)
  have loss: "pg_loss (ping_run es) = of_nat (length ps - length ok) / of_nat (length ps) * 100"
    and hist: "pg_history (ping_run es) = ok"
    and ping: "pg_pingMs (ping_run es) = (if ok \<noteq> [] then Some (sum_list (map snd ok) / of_nat (length ok)) else None)"
    unfolding run probe_done_def Let_def ps_def [symmetric] ok_def [symmetric] by (simp_all only: ping_state.simps fold_plus add_0_left)
  have n: "(0 :: rat) < of_nat (length ps)" using ne by simp
  have in_ok: "\<exists>t. (t, Some r) \<in> set ps \<and> t = u" if "(u, r) \<in> set ok" for u r
    using that by (auto simp: ok_def)
  have r: "list_all (\<lambda>x. lo \<le> x \<and> x \<le> hi) (map snd ok)"
  proof -
    have "lo \<le> r \<and> r \<le> hi" if "(t, Some r) \<in> set ps" for t r
    proof -
      from that have "(t, Some r) \<in> set (pg_probes (ping_run before)) \<or> (t, Some r) = (now, rtt)" by (auto simp: ps_def split: if_splits)
      then have "(t, Some r) \<in> set es"
        using ping_probes_from [of "(t, Some r)" before ping_start] by (auto simp: es ping_run_def ping_start_def)
      with assms(2) show ?thesis by (fastforce simp: list_all_iff)
    qed
    with in_ok show ?thesis by (fastforce simp: list_all_iff)
  qed
  have "0 \<le> pg_loss (ping_run es)" "pg_loss (ping_run es) \<le> 100"
    unfolding loss using n le by (simp_all add: divide_le_eq del: of_nat_diff)
  moreover have "pg_loss (ping_run es) = 100 \<longleftrightarrow> pg_history (ping_run es) = []"
  proof -
    have "pg_loss (ping_run es) = 100 \<longleftrightarrow> length ps - length ok = length ps"
      unfolding loss using n by (simp add: divide_eq_eq del: of_nat_diff)
    also have "\<dots> \<longleftrightarrow> length ok = 0" using le ne by (cases "length ok") auto
    finally show ?thesis unfolding hist by simp
  qed
  moreover have "case pg_pingMs (ping_run es) of None \<Rightarrow> True | Some p \<Rightarrow> lo \<le> p \<and> p \<le> hi"
  proof (cases "ok = []")
    case True
    then show ?thesis unfolding ping by simp
  next
    case False
    then have "(0 :: rat) < of_nat (length ok)" by simp
    with sum_list_between [OF r] have "lo \<le> sum_list (map snd ok) / of_nat (length ok) \<and> sum_list (map snd ok) / of_nat (length ok) \<le> hi"
      by (simp add: le_divide_eq divide_le_eq)
    with False show ?thesis unfolding ping by simp
  qed
  moreover have "list_all (\<lambda>p. fst (last es) - HOUR_MS \<le> fst p) (pg_history (ping_run es))"
    unfolding hist by (auto simp: es list_all_iff ok_def ps_def)
  moreover have "pg_pingMs (ping_run es) = None \<longleftrightarrow> pg_history (ping_run es) = []"
    unfolding ping hist by simp
  ultimately show ?thesis by (simp add: Let_def)
qed

theorem pings_are_sane_witness:
  "pg_loss (ping_run [(0, Some 20), (5000, None), (3700000, None)]) = 100"
  using pings_are_sane [of "[(0, Some 20), (5000, None), (3700000, None)]" 10 30]
  by (simp add: ping_run_def probe_done_def ping_start_def HOUR_MS_def Let_def)

end
