(* ===== verification/MetricsPage.thy ===== *)
theory MetricsPage
  imports LiveMetrics
begin

text \<open>
  The metrics page as a whole, \<open>frontend/src/routes/_auth.admin/metrics.tsx\<close>: what is selected, the alarms
  offered for it (\<open>components/AlarmConfig.tsx\<close>), the card of the test run, the drive benchmark with its
  polling, the inactivity timer and the shutdown button.
\<close>

section \<open>What is selected\<close>

datatype metric_key = TotalUsers | ActiveUsers | DiskCommitted | MemoryUsed | Traffic | Speed | Ping | Loss | Cpu
  | DriveTemp | DiskTemp | DriveIO | DiskIO

datatype metric_card = CpuCard | MemoryCard | SpeedCarousel | TempCarousel | NetworkTrafficCard | SpeedTestCard
  | PingCard | PacketLossCard | TotalUsersCard | ActiveUsersCard | DiskCommittedCard

record metrics_page =
  mp_metric :: metric_key
  mp_hours :: nat
  mp_server :: "string option"
  mp_node :: "string option"
  mp_driveIdx :: nat
  mp_diskIdx :: nat
  mp_frames :: "metrics_frame list"
  mp_nodes :: "node_summary list"
  mp_drives :: "drive_summary list"
  mp_shutdownConfirm :: bool
  mp_shuttingDown :: bool
  mp_shutdowns :: nat   \<comment> \<open>requests sent\<close>

definition open_metrics :: metrics_page where
  "open_metrics = \<lparr>mp_metric = Traffic, mp_hours = 12, mp_server = None, mp_node = None, mp_driveIdx = 0, mp_diskIdx = 0,
     mp_frames = [], mp_nodes = [], mp_drives = [], mp_shutdownConfirm = False, mp_shuttingDown = False, mp_shutdowns = 0\<rparr>"

definition page_disks :: "metrics_page \<Rightarrow> disk_frame list" where
  "page_disks s = node_disks (mp_node s) (mp_frames s)"

definition page_drives :: "metrics_page \<Rightarrow> drive_frame list" where
  "page_drives s = node_drives (mp_node s) (mp_frames s)"

definition card_metric :: "bool \<Rightarrow> metric_card \<Rightarrow> metric_key" where
  "card_metric has_disks c =
     (case c of CpuCard \<Rightarrow> Cpu | MemoryCard \<Rightarrow> MemoryUsed
      | SpeedCarousel \<Rightarrow> if has_disks then DiskIO else DriveIO
      | TempCarousel \<Rightarrow> if has_disks then DiskTemp else DriveTemp
      | NetworkTrafficCard \<Rightarrow> Traffic | SpeedTestCard \<Rightarrow> Speed | PingCard \<Rightarrow> Ping | PacketLossCard \<Rightarrow> Loss
      | TotalUsersCard \<Rightarrow> TotalUsers | ActiveUsersCard \<Rightarrow> ActiveUsers | DiskCommittedCard \<Rightarrow> DiskCommitted)"

datatype metrics_event =
    ChooseServer string
  | ChooseNode string
  | ClickCard metric_card
  | DiskArrow int
  | DriveArrow int
  | ClickDisk nat
  | ChooseHours nat
  | FramesArrive "metrics_frame list"
  | InfraArrives "node_summary list" "drive_summary list"
  | ShutdownClick
  | ShutdownYes
  | ShutdownNo
  | ShutdownAnswered

text \<open>The cards are there once a frame is, the tabs of nodes when there are two, the arrows when there are two
  slides and the list of disks when there is one.\<close>

fun metrics_raw :: "metrics_event \<Rightarrow> metrics_page \<Rightarrow> metrics_page" where
  "metrics_raw (ChooseServer v) s = s\<lparr>mp_server := (if v = [] then None else Some v)\<rparr>"
| "metrics_raw (ChooseNode i) s =
     (let tabs = nodeTabs (mp_nodes s) (mp_server s) (latest_frame (mp_frames s))
      in if mp_frames s \<noteq> [] \<and> 1 < length tabs \<and> list_ex (\<lambda>t. tb_id t = i) tabs
         then s\<lparr>mp_node := Some i, mp_driveIdx := 0, mp_diskIdx := 0\<rparr> else s)"
| "metrics_raw (ClickCard c) s = (if mp_frames s = [] then s else s\<lparr>mp_metric := card_metric (page_disks s \<noteq> []) c\<rparr>)"
| "metrics_raw (DiskArrow d) s =
     (let n = length (page_disks s)
      in if 1 < n then s\<lparr>mp_diskIdx := carousel_step n d (safe_index (mp_diskIdx s) (page_disks s))\<rparr> else s)"
| "metrics_raw (DriveArrow d) s =
     (let n = length (page_drives s)
      in if page_disks s = [] \<and> 1 < n then s\<lparr>mp_driveIdx := carousel_step n d (safe_index (mp_driveIdx s) (page_drives s))\<rparr> else s)"
| "metrics_raw (ClickDisk i) s = (if i < length (page_disks s) then s\<lparr>mp_diskIdx := i, mp_metric := DiskTemp\<rparr> else s)"
| "metrics_raw (ChooseHours h) s = (if h \<in> {1, 12, 24, 48, 72} then s\<lparr>mp_hours := h\<rparr> else s)"
| "metrics_raw (FramesArrive fs) s = s\<lparr>mp_frames := fs\<rparr>"
| "metrics_raw (InfraArrives ns ds) s = s\<lparr>mp_nodes := ns, mp_drives := ds\<rparr>"
| "metrics_raw ShutdownClick s = s\<lparr>mp_shutdownConfirm := True\<rparr>"
| "metrics_raw ShutdownYes s =
     (if mp_shutdownConfirm s \<and> \<not> mp_shuttingDown s
      then s\<lparr>mp_shutdowns := mp_shutdowns s + 1, mp_shuttingDown := True, mp_shutdownConfirm := False\<rparr> else s)"
| "metrics_raw ShutdownNo s = s\<lparr>mp_shutdownConfirm := False\<rparr>"
| "metrics_raw ShutdownAnswered s = s\<lparr>mp_shuttingDown := False\<rparr>"

definition run_effects :: "metrics_page \<Rightarrow> metrics_page" where
  "run_effects s =
     (let sel = settle_selection (mp_nodes s) (mp_drives s) (latest_frame (mp_frames s)) (mp_server s, mp_node s)
      in s\<lparr>mp_server := fst sel, mp_node := snd sel\<rparr>)"

text \<open>The effects run after the render and once more after the one they cause.\<close>

definition metrics_step :: "metrics_event \<Rightarrow> metrics_page \<Rightarrow> metrics_page" where
  "metrics_step e s = run_effects (run_effects (metrics_raw e s))"

definition metrics_run :: "metrics_event list \<Rightarrow> metrics_page \<Rightarrow> metrics_page" where
  "metrics_run es s = fold metrics_step es s"

section \<open>Alarms\<close>

datatype alarm_type = CpuUsage | CpuTemp | MemoryAlarm | NetworkTraffic | DriveTempAlarm | DriveLoad | ApiErrorRate

datatype alarm_scope = NodeScope | DriveScope | ClusterScope

fun ALARM_SCOPE :: "alarm_type \<Rightarrow> alarm_scope" where
  "ALARM_SCOPE CpuUsage = NodeScope"
| "ALARM_SCOPE CpuTemp = NodeScope"
| "ALARM_SCOPE MemoryAlarm = NodeScope"
| "ALARM_SCOPE NetworkTraffic = NodeScope"
| "ALARM_SCOPE DriveTempAlarm = DriveScope"
| "ALARM_SCOPE DriveLoad = DriveScope"
| "ALARM_SCOPE ApiErrorRate = ClusterScope"

fun ALARM_DEFAULT_THRESHOLD :: "alarm_type \<Rightarrow> rat" where
  "ALARM_DEFAULT_THRESHOLD CpuUsage = 90"
| "ALARM_DEFAULT_THRESHOLD CpuTemp = 75"
| "ALARM_DEFAULT_THRESHOLD MemoryAlarm = 90"
| "ALARM_DEFAULT_THRESHOLD NetworkTraffic = 90"
| "ALARM_DEFAULT_THRESHOLD DriveTempAlarm = 50"
| "ALARM_DEFAULT_THRESHOLD DriveLoad = 90"
| "ALARM_DEFAULT_THRESHOLD ApiErrorRate = 5"

record alarm_subscription =
  as_id :: string
  as_type :: alarm_type
  as_node :: "string option"
  as_drive :: "string option"
  as_threshold :: rat

text \<open>An alarm with the node and the drive it is for; an empty id is no id.\<close>

type_synonym alarm_target = "alarm_type \<times> string option \<times> string option"

definition truthy :: "string option \<Rightarrow> bool" where
  "truthy i \<longleftrightarrow> (case i of None \<Rightarrow> False | Some s \<Rightarrow> s \<noteq> [])"

definition alarm_rows :: "metric_key \<Rightarrow> string option \<Rightarrow> string option \<Rightarrow> alarm_target list" where
  "alarm_rows metric node drive =
     (if metric = Cpu \<and> truthy node then [(CpuUsage, node, None), (CpuTemp, node, None)]
      else if metric = MemoryUsed \<and> truthy node then [(MemoryAlarm, node, None)]
      else if metric = Traffic \<and> truthy node then [(NetworkTraffic, node, None)]
      else if metric = DriveTemp \<and> truthy drive then [(DriveTempAlarm, None, drive), (DriveLoad, None, drive)]
      else [])"

text \<open>All rows shown: the error rate of the whole cluster is always the last.\<close>

definition alarm_targets :: "metric_key \<Rightarrow> string option \<Rightarrow> string option \<Rightarrow> alarm_target list" where
  "alarm_targets metric node drive = alarm_rows metric node drive @ [(ApiErrorRate, None, None)]"

definition find_subscription :: "alarm_subscription list \<Rightarrow> alarm_target \<Rightarrow> alarm_subscription option" where
  "find_subscription subs t =
     (case t of (ty, n, d) \<Rightarrow> find (\<lambda>s. as_type s = ty \<and> as_node s = n \<and> as_drive s = d) subs)"

text \<open>The text of a threshold: a number shown with \<open>String\<close>, or what was typed.\<close>

datatype threshold_text = Shown rat | Typed string

definition text_number :: "threshold_text \<Rightarrow> jsnum" where
  "text_number t = (case t of Shown x \<Rightarrow> Fin x | Typed s \<Rightarrow> js_Number s)"

datatype alarm_request = Upsert alarm_target rat | Remove alarm_target

definition synced_text :: "alarm_type \<Rightarrow> alarm_subscription option \<Rightarrow> threshold_text" where
  "synced_text ty sub = Shown (case sub of None \<Rightarrow> ALARM_DEFAULT_THRESHOLD ty | Some s \<Rightarrow> as_threshold s)"

definition commitThreshold :: "alarm_target \<Rightarrow> alarm_subscription option \<Rightarrow> threshold_text \<Rightarrow> alarm_request option" where
  "commitThreshold target sub t =
     (case sub of None \<Rightarrow> None
      | Some s \<Rightarrow> (case text_number t of
            Fin v \<Rightarrow> if v \<le> 0 \<or> v = as_threshold s then None else Some (Upsert target v)
          | _ \<Rightarrow> None))"

definition toggle_alarm :: "alarm_target \<Rightarrow> alarm_subscription option \<Rightarrow> threshold_text \<Rightarrow> alarm_request" where
  "toggle_alarm target sub t =
     (case sub of Some s \<Rightarrow> Remove target
      | None \<Rightarrow> Upsert target (case text_number t of Fin v \<Rightarrow> if 0 < v then v else ALARM_DEFAULT_THRESHOLD (fst target)
                             | _ \<Rightarrow> ALARM_DEFAULT_THRESHOLD (fst target)))"

section \<open>The card of the tests\<close>

datatype suite_key = Backend | FrontendUnit | FrontendE2E | MobileSuite | RecognitionSuite

record suite_result =
  su_passed :: bool
  su_duration_ms :: nat
  su_num_tests :: nat
  su_num_passed :: nat
  su_lines_pct :: "rat option"
  su_branches_pct :: "rat option"

record suite_entry =
  se_enabled :: bool
  se_result :: "suite_result option"
  se_message :: "string option"

definition TEST_GROUPS :: "(string \<times> suite_key list) list" where
  "TEST_GROUPS = [(''Frontend'', [FrontendUnit, FrontendE2E]), (''API'', [Backend]), (''Recognition'', [RecognitionSuite]),
     (''Mobile'', [MobileSuite])]"

definition suiteUnits :: "suite_entry \<Rightarrow> nat \<times> nat" where
  "suiteUnits e =
     (case se_result e of None \<Rightarrow> (0, 0)
      | Some r \<Rightarrow> if 0 < su_num_tests r then (su_num_tests r, su_num_passed r) else (1, if su_passed r then 1 else 0))"

definition average :: "rat list \<Rightarrow> rat option" where
  "average xs = (if xs = [] then None else Some (sum_list xs / of_nat (length xs)))"

record group_card =
  gc_total :: nat
  gc_passed :: nat
  gc_duration_ms :: nat
  gc_pct :: "rat option"
  gc_lines :: "rat option"
  gc_branches :: "rat option"

definition group_counts :: "suite_entry list \<Rightarrow> group_card" where
  "group_counts on =
     (let total = sum_list (map (fst \<circ> suiteUnits) on); passed = sum_list (map (snd \<circ> suiteUnits) on);
          rs = List.map_filter se_result on
      in \<lparr>gc_total = total, gc_passed = passed, gc_duration_ms = sum_list (map su_duration_ms rs),
          gc_pct = (if 0 < total then Some (of_nat passed / of_nat total * 100) else None),
          gc_lines = average (List.map_filter su_lines_pct rs),
          gc_branches = average (List.map_filter su_branches_pct rs)\<rparr>)"

definition TestGroupCard :: "(suite_key \<Rightarrow> suite_entry) \<Rightarrow> suite_key list \<Rightarrow> (string + group_card)" where
  "TestGroupCard report suites =
     (let entries = map report suites; on = filter se_enabled entries
      in if on = [] then Inl (case entries of [] \<Rightarrow> ''disabled'' | e # _ \<Rightarrow> (case se_message e of None \<Rightarrow> ''disabled'' | Some m \<Rightarrow> m))
         else Inr (group_counts on))"

definition PercentBar :: "rat option \<Rightarrow> (shade \<times> rat) option" where
  "PercentBar pct =
     (case pct of None \<Rightarrow> None
      | Some p \<Rightarrow> Some (if 100 \<le> p then Green else if 50 \<le> p then Amber else Red, max 0 (min 100 p)))"

definition formatDurationMs :: "nat \<Rightarrow> string" where
  "formatDurationMs ms = (if ms < 1000 then show_nat ms @ '' ms'' else to_fixed 1 (of_nat ms / 1000) @ ''s'')"

datatype suite_status = SuitePending | SuiteRunning | SuitePassed | SuiteFailed | SuiteSkipped

record test_progress =
  tp_current :: "string option"
  tp_order :: "string list option"
  tp_completed :: "string \<Rightarrow> suite_entry option"

definition suiteProgressStatus :: "string \<Rightarrow> test_progress option \<Rightarrow> suite_status" where
  "suiteProgressStatus key progress =
     (case Option.bind progress (\<lambda>p. tp_completed p key) of
        Some e \<Rightarrow> if \<not> se_enabled e then SuiteSkipped
                  else (case se_result e of Some r \<Rightarrow> if su_passed r then SuitePassed else SuiteFailed | None \<Rightarrow> SuitePassed)
      | None \<Rightarrow> if Option.bind progress tp_current = Some key then SuiteRunning else SuitePending)"

definition TestProgressList :: "test_progress option \<Rightarrow> (string \<times> suite_status) list" where
  "TestProgressList progress =
     map (\<lambda>k. (k, suiteProgressStatus k progress))
       (case Option.bind progress tp_order of Some o' \<Rightarrow> o'
        | None \<Rightarrow> [''backend'', ''frontend'', ''frontend_e2e'', ''mobile'', ''recognition''])"

record test_run =
  rn_branch :: string
  rn_version :: string
  rn_report :: "suite_key \<Rightarrow> suite_entry"

record latest_run =
  lr_run :: "test_run option"
  lr_matched :: bool
  lr_branch :: string
  lr_version :: string

record tests_card =
  tc_latest :: "latest_run option"
  tc_pending :: bool
  tc_toasts :: "string list"

definition applyTestRun :: "test_run \<Rightarrow> tests_card \<Rightarrow> tests_card" where
  "applyTestRun r s =
     s\<lparr>tc_latest := Some \<lparr>lr_run = Some r, lr_matched = True, lr_branch = rn_branch r, lr_version = rn_version r\<rparr>\<rparr>"

text \<open>A failing run comes back as the body of an answer 422.\<close>

datatype run_answer = RunOk test_run | RunApiError nat "test_run option" | RunBroken

definition run_answered :: "run_answer \<Rightarrow> tests_card \<Rightarrow> tests_card" where
  "run_answered a s =
     (case a of
        RunOk r \<Rightarrow> (applyTestRun r s)\<lparr>tc_pending := False\<rparr>
      | RunApiError status body \<Rightarrow>
          (case body of
             Some r \<Rightarrow> if status = 422 then (applyTestRun r s)\<lparr>tc_pending := False\<rparr>
                        else s\<lparr>tc_pending := False, tc_toasts := tc_toasts s @ [''Failed to run tests'']\<rparr>
           | None \<Rightarrow> s\<lparr>tc_pending := False, tc_toasts := tc_toasts s @ [''Failed to run tests'']\<rparr>)
      | RunBroken \<Rightarrow> s\<lparr>tc_pending := False, tc_toasts := tc_toasts s @ [''Failed to run tests'']\<rparr>)"

section \<open>The benchmark\<close>

record 'r bench =
  bn_polling :: bool
  bn_timer :: "nat option"        \<comment> \<open>when it stops the polling\<close>
  bn_pending :: bool              \<comment> \<open>the flag of the last answer\<close>
  bn_result :: "'r option"
  bn_triggering :: bool
  bn_toasts :: "string list"

datatype 'r bench_event =
    BenchClick
  | BenchAccepted nat
  | BenchRefused "nat option"     \<comment> \<open>the status of an API error\<close>
  | BenchAnswer bool "'r option"
  | BenchTimer nat

definition bench_running :: "'r bench \<Rightarrow> bool" where
  "bench_running s \<longleftrightarrow> bn_polling s \<or> bn_pending s"

definition refetch_interval :: "'r bench \<Rightarrow> nat option" where
  "refetch_interval s = (if bn_polling s \<or> bn_pending s then Some 3000 else None)"

fun bench_step :: "'r bench_event \<Rightarrow> 'r bench \<Rightarrow> 'r bench" where
  "bench_step BenchClick s = (if bn_triggering s \<or> bench_running s then s else s\<lparr>bn_triggering := True\<rparr>)"
| "bench_step (BenchAccepted t) s =
     (if bn_triggering s then s\<lparr>bn_triggering := False, bn_polling := True, bn_timer := Some (t + 90000)\<rparr> else s)"
| "bench_step (BenchRefused status) s =
     (if bn_triggering s
      then s\<lparr>bn_triggering := False, bn_toasts := bn_toasts s @
             [if status = Some 409 then ''A benchmark run is already in progress'' else ''Failed to start benchmark'']\<rparr> else s)"
| "bench_step (BenchAnswer pending result) s = s\<lparr>bn_pending := pending, bn_result := result\<rparr>"
| "bench_step (BenchTimer now) s =
     (case bn_timer s of Some d \<Rightarrow> if d \<le> now then s\<lparr>bn_polling := False, bn_timer := None\<rparr> else s | None \<Rightarrow> s)"

text \<open>The result is on the page only while nothing runs.\<close>

definition bench_shown :: "'r bench \<Rightarrow> 'r option" where
  "bench_shown s = (if bench_running s then None else bn_result s)"

definition bench_progress :: "nat \<Rightarrow> nat \<Rightarrow> rat" where
  "bench_progress completed all_nodes' =
     max (if 0 < all_nodes' then min 100 (of_nat completed / of_nat all_nodes' * 100) else 0) 6"

section \<open>Inactivity\<close>

definition INACTIVE_MS :: nat where "INACTIVE_MS = 10 * 60 * 1000"

record idle_watch =
  iw_inactive :: bool
  iw_deadline :: "nat option"

datatype idle_event = Activity nat | IdleTimer nat

definition resetTimer :: "nat \<Rightarrow> idle_watch" where
  "resetTimer now = \<lparr>iw_inactive = False, iw_deadline = Some (now + INACTIVE_MS)\<rparr>"

fun idle_step :: "idle_event \<Rightarrow> idle_watch \<Rightarrow> idle_watch" where
  "idle_step (Activity now) s = resetTimer now"
| "idle_step (IdleTimer now) s =
     (case iw_deadline s of Some d \<Rightarrow> if d \<le> now then \<lparr>iw_inactive = True, iw_deadline = None\<rparr> else s | None \<Rightarrow> s)"


section \<open>Properties of the selection\<close>

lemma run_effects_simps [simp]:
  "mp_metric (run_effects s) = mp_metric s" "mp_nodes (run_effects s) = mp_nodes s" "mp_drives (run_effects s) = mp_drives s"
  "mp_frames (run_effects s) = mp_frames s" "mp_shutdownConfirm (run_effects s) = mp_shutdownConfirm s"
  "mp_shuttingDown (run_effects s) = mp_shuttingDown s" "mp_shutdowns (run_effects s) = mp_shutdowns s"
  by (simp_all add: run_effects_def Let_def)

text \<open>After any event the effects come to rest, on a server that is known and, when it has nodes, on one of its own.\<close>

theorem page_comes_to_rest:
  assumes "mp_nodes (metrics_raw e s) \<noteq> []" and "'''' \<notin> set (map ns_server_id (mp_nodes (metrics_raw e s)))"
  shows "let t = metrics_step e s in run_effects t = t
    \<and> mp_server t \<in> Some ` set (map sg_serverId (tr_servers (build_tree (mp_nodes t) (mp_drives t))))
    \<and> (list_ex (\<lambda>n. Some (ns_server_id n) = mp_server t) (mp_nodes t)
        \<longrightarrow> list_ex (\<lambda>n. Some (ns_server_id n) = mp_server t \<and> Some (ns_node_id n) = mp_node t) (mp_nodes t))"
proof -
  let ?r = "metrics_raw e s" and ?t = "metrics_step e s"
  let ?settle = "settle_selection (mp_nodes ?r) (mp_drives ?r) (latest_frame (mp_frames ?r))"
  have t: "(mp_server ?t, mp_node ?t) = ?settle (?settle (mp_server ?r, mp_node ?r))"
    by (simp add: metrics_step_def run_effects_def Let_def)
  have same: "mp_nodes ?t = mp_nodes ?r" "mp_drives ?t = mp_drives ?r" "mp_frames ?t = mp_frames ?r"
    by (simp_all add: metrics_step_def)
  note rest = selection_settles [OF assms t]
  then have "run_effects ?t = ?t" by (simp add: run_effects_def same Let_def)
  with rest show ?thesis by (simp add: Let_def same)
qed

theorem page_comes_to_rest_witness:
  "mp_server (metrics_step (InfraArrives [lone_node] [lone_drive]) open_metrics) = Some ''s''
   \<and> run_effects (metrics_step (InfraArrives [lone_node] [lone_drive]) open_metrics)
     = metrics_step (InfraArrives [lone_node] [lone_drive]) open_metrics"
  using page_comes_to_rest [of "InfraArrives [lone_node] [lone_drive]" open_metrics]
  by (simp add: open_metrics_def lone_node_def Let_def)
    (simp add: metrics_step_def run_effects_def settle_selection_def build_tree_def add_node_def add_drive_def drive_home_def
      ensureServer_def in_server_def empty_tree_def lone_drive_def revalidate_def Let_def)

text \<open>The cluster is powered off only after a click on the button and one on its confirmation, for each request.\<close>

theorem shutdown_needs_two_clicks:
  "mp_shutdowns (metrics_run es open_metrics) \<le> min (count_if (\<lambda>e. e = ShutdownClick) es) (count_if (\<lambda>e. e = ShutdownYes) es)"
proof -
  have step: "mp_shutdowns (metrics_step e s) + (if mp_shutdownConfirm (metrics_step e s) then 1 else 0)
      \<le> mp_shutdowns s + (if mp_shutdownConfirm s then 1 else 0) + (if e = ShutdownClick then 1 else 0)
    \<and> mp_shutdowns (metrics_step e s) \<le> mp_shutdowns s + (if e = ShutdownYes then 1 else 0)" for e s
    by (cases e) (simp_all add: metrics_step_def Let_def)
  have "mp_shutdowns (metrics_run es s) + (if mp_shutdownConfirm (metrics_run es s) then 1 else 0)
      \<le> mp_shutdowns s + (if mp_shutdownConfirm s then 1 else 0) + count_if (\<lambda>e. e = ShutdownClick) es
    \<and> mp_shutdowns (metrics_run es s) \<le> mp_shutdowns s + count_if (\<lambda>e. e = ShutdownYes) es" for s
  proof (induction es arbitrary: s)
    case (Cons e es)
    from Cons.IH [of "metrics_step e s"] step [of e s] show ?case
      by (simp add: metrics_run_def count_if_def split: if_splits)
  qed (simp add: metrics_run_def)
  from this [of open_metrics] show ?thesis by (auto simp: open_metrics_def split: if_splits)
qed

section \<open>Properties of the alarms\<close>

text \<open>Whatever is selected, each alarm offered names the target its scope asks for and nothing else, and no alarm is
  offered twice.\<close>

theorem alarms_fit_scope:
  "list_all (\<lambda>(ty, n, d). case ALARM_SCOPE ty of
       NodeScope \<Rightarrow> truthy n \<and> d = None | DriveScope \<Rightarrow> n = None \<and> truthy d | ClusterScope \<Rightarrow> n = None \<and> d = None)
     (alarm_targets metric node drive)
   \<and> distinct (map fst (alarm_targets metric node drive))"
  by (cases metric) (auto simp: alarm_targets_def alarm_rows_def)

text \<open>A threshold that is sent is positive and, for an alarm that is on, a new one; the switch of an alarm that is
  on only removes it.\<close>

lemma default_pos: "0 < ALARM_DEFAULT_THRESHOLD ty"
  by (cases ty) simp_all

theorem thresholds_stay_positive:
  "(case toggle_alarm target sub t of Upsert x v \<Rightarrow> sub = None \<and> x = target \<and> 0 < v | Remove x \<Rightarrow> sub \<noteq> None \<and> x = target)
   \<and> (case commitThreshold target sub t of None \<Rightarrow> True
      | Some (Upsert x v) \<Rightarrow> x = target \<and> 0 < v \<and> map_option as_threshold sub \<notin> {None, Some v} | Some (Remove x) \<Rightarrow> False)"
  by (auto simp: toggle_alarm_def commitThreshold_def default_pos split: option.splits jsnum.splits)

text \<open>On a node that reports its disks the temperature card selects the temperature of a disk, for which no alarm
  is offered: the alarms of a drive, whose hint says that they are found there, cannot be reached from it.\<close>

theorem temperature_card_offers_no_alarm:
  assumes "mp_frames s \<noteq> []" and "page_disks s \<noteq> []"
  shows "alarm_rows (mp_metric (metrics_step (ClickCard TempCarousel) s)) node drive = []"
  using assms by (simp add: metrics_step_def card_metric_def alarm_rows_def)

definition disk_node :: node_frame where
  "disk_node = (probe_node ''n'' 0)\<lparr>nf_disks := [\<lparr>df_disk_id = ''k'', df_label = ''sda'', df_device = [], df_temp_celsius = Some 71,
     df_total_bytes = 1, df_used_bytes = 1, df_read_bytes = 0, df_write_bytes = 0\<rparr>]\<rparr>"

definition disk_page :: metrics_page where
  "disk_page = open_metrics\<lparr>mp_frames := [probe_frame 0 [disk_node]], mp_node := Some ''n''\<rparr>"

theorem temperature_card_offers_no_alarm_witness:
  "alarm_rows (mp_metric (metrics_step (ClickCard TempCarousel) disk_page)) (Some ''n'') (Some ''d'') = []"
proof (rule temperature_card_offers_no_alarm)
  show "mp_frames disk_page \<noteq> []" by (simp add: disk_page_def)
  show "page_disks disk_page \<noteq> []"
    by (simp add: page_disks_def disk_page_def node_disks_def latest_frame_def probe_frame_def disk_node_def probe_node_def)
qed

section \<open>Properties of the tests\<close>

text \<open>Each suite belongs to exactly one group.\<close>

lemma groups_cover_suites:
  "mset (concat (map snd TEST_GROUPS)) = {#Backend, FrontendUnit, FrontendE2E, MobileSuite, RecognitionSuite#}"
  by (simp add: TEST_GROUPS_def add_mset_commute)

definition sane_entry :: "suite_entry \<Rightarrow> bool" where
  "sane_entry e \<longleftrightarrow> (case se_result e of None \<Rightarrow> True | Some r \<Rightarrow> su_num_passed r \<le> su_num_tests r)"

lemma units_le: "sane_entry e \<Longrightarrow> snd (suiteUnits e) \<le> fst (suiteUnits e)"
  by (auto simp: sane_entry_def suiteUnits_def split: option.splits)

lemma sum_eq_all:
  "list_all (\<lambda>e. g e \<le> (f e :: nat)) es \<Longrightarrow> sum_list (map g es) \<le> sum_list (map f es)
   \<and> (sum_list (map g es) = sum_list (map f es) \<longleftrightarrow> list_all (\<lambda>e. g e = f e) es)"
  by (induction es) auto

text \<open>With sane counts the bar of a group stays in its track, and is full exactly when every counted unit of its
  enabled suites passed.\<close>

theorem group_bar_true:
  assumes "TestGroupCard report suites = Inr g" and "list_all (\<lambda>k. sane_entry (report k)) suites"
  shows "gc_passed g \<le> gc_total g
    \<and> (case gc_pct g of None \<Rightarrow> gc_total g = 0
       | Some p \<Rightarrow> 0 \<le> p \<and> p \<le> 100 \<and> (p = 100 \<longleftrightarrow>
           list_all (\<lambda>e. snd (suiteUnits e) = fst (suiteUnits e)) (filter se_enabled (map report suites))))"
proof -
  let ?on = "filter se_enabled (map report suites)"
  have "g = group_counts ?on" using assms(1) by (auto simp: TestGroupCard_def Let_def split: if_splits)
  then have g: "gc_total g = sum_list (map (fst \<circ> suiteUnits) ?on)" "gc_passed g = sum_list (map (snd \<circ> suiteUnits) ?on)"
    "gc_pct g = (if 0 < gc_total g then Some (of_nat (gc_passed g) / of_nat (gc_total g) * 100) else None)"
    by (simp_all only: group_counts_def Let_def group_card.simps)
  have "list_all (\<lambda>e. (snd \<circ> suiteUnits) e \<le> (fst \<circ> suiteUnits) e) ?on"
    using assms(2) units_le by (auto simp: list_all_iff)
  note both = sum_eq_all [OF this]
  then have le: "gc_passed g \<le> gc_total g" by (simp only: g(1,2))
  show ?thesis
  proof (cases "0 < gc_total g")
    case True
    then have q: "(0 :: rat) < of_nat (gc_total g)" by simp
    have "(of_nat (gc_passed g) / of_nat (gc_total g) * 100 :: rat) = 100 \<longleftrightarrow> gc_passed g = gc_total g"
      using q by (simp add: divide_eq_eq)
    also have "\<dots> \<longleftrightarrow> list_all (\<lambda>e. snd (suiteUnits e) = fst (suiteUnits e)) ?on"
      using both by (simp only: g(1,2) comp_def)
    finally show ?thesis using le q True by (simp add: g(3) divide_le_eq)
  qed (use le in \<open>simp add: g(3)\<close>)
qed

definition report_of :: "suite_entry \<Rightarrow> suite_key \<Rightarrow> suite_entry" where
  "report_of e k = e"

definition entry_of :: "bool \<Rightarrow> nat \<Rightarrow> nat \<Rightarrow> suite_entry" where
  "entry_of ok n p = \<lparr>se_enabled = True, se_result = Some \<lparr>su_passed = ok, su_duration_ms = 1500, su_num_tests = n, su_num_passed = p,
     su_lines_pct = None, su_branches_pct = None\<rparr>, se_message = None\<rparr>"

theorem group_bar_true_witness:
  "gc_pct (\<lparr>gc_total = 8, gc_passed = 6, gc_duration_ms = 3000, gc_pct = Some 75, gc_lines = None, gc_branches = None\<rparr>) \<noteq> Some 100
   \<and> \<not> list_all (\<lambda>e. snd (suiteUnits e) = fst (suiteUnits e)) (map (report_of (entry_of False 4 3)) [FrontendUnit, FrontendE2E])"
proof -
  have "TestGroupCard (report_of (entry_of False 4 3)) [FrontendUnit, FrontendE2E]
      = Inr \<lparr>gc_total = 8, gc_passed = 6, gc_duration_ms = 3000, gc_pct = Some 75, gc_lines = None, gc_branches = None\<rparr>"
    by (simp add: TestGroupCard_def group_counts_def report_of_def entry_of_def suiteUnits_def average_def List.map_filter_def)
  from group_bar_true [OF this] show ?thesis by (simp add: report_of_def entry_of_def sane_entry_def suiteUnits_def)
qed

text \<open>A suite that fails although each of its tests passed (a crash at the end, a coverage limit) fills the bar of
  its group in green.\<close>

theorem failed_suite_full_bar:
  "map_sum id (\<lambda>g. PercentBar (gc_pct g)) (TestGroupCard (report_of (entry_of False 12 12)) [Backend]) = Inr (Some (Green, 100))"
  by (simp add: TestGroupCard_def group_counts_def report_of_def entry_of_def suiteUnits_def PercentBar_def List.map_filter_def)

text \<open>A suite that is enabled and done, but has no result, is listed as passed while the run goes on.\<close>

theorem no_result_counts_as_passed:
  "suiteProgressStatus ''mobile'' (Some \<lparr>tp_current = None, tp_order = None,
     tp_completed = [''mobile'' \<mapsto> \<lparr>se_enabled = True, se_result = None, se_message = Some ''runner crashed''\<rparr>]\<rparr>) = SuitePassed"
  by (simp add: suiteProgressStatus_def)

section \<open>Properties of benchmark and inactivity\<close>

text \<open>From its acceptance on a benchmark counts as running until its timer of ninety seconds, whatever the server
  answers meanwhile: a result that is there after ten is not shown for eighty more.\<close>

theorem result_hidden_until_timer:
  assumes "bn_triggering s" and "list_all (\<lambda>e. case e of BenchTimer now \<Rightarrow> now < t + 90000 | _ \<Rightarrow> True) es"
  shows "bench_shown (fold bench_step es (bench_step (BenchAccepted t) s)) = None"
proof -
  have "bn_polling (fold bench_step es u) \<and> bn_timer (fold bench_step es u) = Some (t + 90000) \<and> \<not> bn_triggering (fold bench_step es u)"
    if "bn_polling u" "bn_timer u = Some (t + 90000)" "\<not> bn_triggering u" for u
    using assms(2) that
  proof (induction es arbitrary: u)
    case (Cons e es)
    have "bn_polling (bench_step e u) \<and> bn_timer (bench_step e u) = Some (t + 90000) \<and> \<not> bn_triggering (bench_step e u)"
      using Cons.prems by (cases e) (auto simp: bench_running_def)
    then show ?case using Cons.IH [of "bench_step e u"] Cons.prems(1) by simp
  qed simp
  from this [of "bench_step (BenchAccepted t) s"] assms(1) show ?thesis by (simp add: bench_shown_def bench_running_def)
qed

definition bench_clicked :: "nat bench" where
  "bench_clicked = bench_step BenchClick \<lparr>bn_polling = False, bn_timer = None, bn_pending = False, bn_result = None,
     bn_triggering = False, bn_toasts = []\<rparr>"

theorem result_hidden_until_timer_witness:
  "bench_shown (fold bench_step [BenchAnswer True None, BenchAnswer False (Some 7), BenchTimer 60000]
     (bench_step (BenchAccepted 1000) bench_clicked)) = None"
  using result_hidden_until_timer [of bench_clicked 1000 "[BenchAnswer True None, BenchAnswer False (Some 7), BenchTimer 60000]"]
  by (simp add: bench_clicked_def bench_running_def)

text \<open>And the result comes: once the timer has fired, an answer without a pending run shows what it brings.\<close>

theorem result_shown_after_timer:
  assumes "bn_timer s = Some d" and "d \<le> now"
  shows "bench_shown (bench_step (BenchAnswer False r) (bench_step (BenchTimer now) s)) = r"
  using assms by (simp add: bench_shown_def bench_running_def)

theorem result_shown_after_timer_witness:
  "bench_shown (bench_step (BenchAnswer False (Some 7)) (bench_step (BenchTimer 91000) (bench_step (BenchAccepted 1000) bench_clicked))) = Some 7"
proof (rule result_shown_after_timer)
  show "bn_timer (bench_step (BenchAccepted 1000) bench_clicked) = Some 91000"
    by (simp add: bench_clicked_def bench_running_def)
qed simp

text \<open>The reference for the timer: since the last activity, at or after \<open>t\<close>, ten minutes have passed at some
  firing.\<close>

fun quiet :: "nat \<Rightarrow> idle_event list \<Rightarrow> bool" where
  "quiet t [] \<longleftrightarrow> False"
| "quiet t (Activity u # es) \<longleftrightarrow> quiet u es"
| "quiet t (IdleTimer u # es) \<longleftrightarrow> (t + INACTIVE_MS \<le> u \<and> list_all (\<lambda>e. \<not> (\<exists>v. e = Activity v)) es) \<or> quiet t es"

lemma idle_stays: "list_all (\<lambda>e. \<not> (\<exists>v. e = Activity v)) es \<Longrightarrow>
    fold idle_step es \<lparr>iw_inactive = True, iw_deadline = None\<rparr> = \<lparr>iw_inactive = True, iw_deadline = None\<rparr>"
proof (induction es)
  case (Cons e es)
  then show ?case by (cases e) simp_all
qed simp

lemma idle_last_activity:
  "\<not> list_all (\<lambda>e. \<not> (\<exists>v. e = Activity v)) es \<Longrightarrow> fold idle_step es s = fold idle_step es s' \<and> quiet t es = quiet t' es"
proof (induction es arbitrary: s s')
  case (Cons e es)
  then show ?case by (cases e) auto
qed simp

theorem inactive_iff_quiet: "iw_inactive (fold idle_step es (resetTimer t)) \<longleftrightarrow> quiet t es"
proof (induction es arbitrary: t)
  case (Cons e es)
  show ?case
  proof (cases e)
    case (IdleTimer u)
    show ?thesis
    proof (cases "t + INACTIVE_MS \<le> u")
      case True
      then show ?thesis
        using Cons.IH [of t] idle_stays [of es] idle_last_activity [of es "\<lparr>iw_inactive = True, iw_deadline = None\<rparr>" "resetTimer t" t t]
        by (cases "list_all (\<lambda>e. \<not> (\<exists>v. e = Activity v)) es") (simp_all add: IdleTimer resetTimer_def)
    next
      case False
      then show ?thesis using Cons.IH [of t] by (simp add: IdleTimer resetTimer_def)
    qed
  qed (use Cons.IH in simp)
qed (simp add: resetTimer_def)

end
