(* ===== verification/MetricsScreen.thy ===== *)
theory MetricsScreen
  imports MetricsPage
begin

text \<open>
  The metrics on the phone, \<open>mobile/src/screens/MetricsScreen.tsx\<close>, next to those of the web: the graph
  of the selected metric as one function, and the history it draws. The web keeps a history under the
  key it was asked for, the phone in one variable per kind; an answer is an event, so every order of
  answers is a list.
\<close>

section \<open>The graph of the web page\<close>

record temp_row =
  tw_at :: int
  tw_celsius :: rat

record histories =
  hy_cluster :: "cluster_snap list"
  hy_node :: "node_history_row list"
  hy_driveTemp :: "temp_row list"
  hy_diskTemp :: "temp_row list"
  hy_driveIO :: "io_sample list"
  hy_diskIO :: "io_sample list"

definition temp_points :: "temp_row list \<Rightarrow> line_point list" where
  "temp_points = map (\<lambda>r. (tw_at r, tw_celsius r))"

text \<open>The points of the one or two graphs the page draws, first to last.\<close>

definition web_graph ::
  "metric_key \<Rightarrow> nat \<Rightarrow> string option \<Rightarrow> string option \<Rightarrow> string option \<Rightarrow> metrics_frame list \<Rightarrow> histories \<Rightarrow> line_point list
   \<Rightarrow> line_point list list" where
  "web_graph metric hours sel drive disk recent h client =
     (let live = (hours = 1); snaps = (if live then map mf_cluster recent else hy_cluster h) in
      case metric of
        Traffic \<Rightarrow> (let p = (if live then ws_net_points sel recent else hist_net_points (hy_node h)) in [fst p, snd p])
      | Speed \<Rightarrow> [cluster_series cs_upload snaps, cluster_series cs_download snaps]
      | Ping \<Rightarrow> [netPingPoints hours (map mf_cluster recent) (hy_cluster h) client]
      | Loss \<Rightarrow> [cluster_series cs_loss snaps]
      | TotalUsers \<Rightarrow> [map (\<lambda>s. (cs_at s, of_nat (cs_total_users s))) snaps]
      | ActiveUsers \<Rightarrow> [map (\<lambda>s. (cs_at s, of_nat (cs_active_users s))) snaps]
      | DiskCommitted \<Rightarrow> [disk_points snaps]
      | MemoryUsed \<Rightarrow> [if live then wsMemoryPoints sel recent else map (\<lambda>r. (nh_at r, of_nat (nh_memory r))) (hy_node h)]
      | Cpu \<Rightarrow> [if live then wsCpuPoints sel recent else map (\<lambda>r. (nh_at r, nh_cpu r)) (hy_node h)]
      | DriveTemp \<Rightarrow> [if live then wsDriveTempPoints drive sel recent else temp_points (hy_driveTemp h)]
      | DiskTemp \<Rightarrow> [if live then wsDiskTempPoints disk sel recent else temp_points (hy_diskTemp h)]
      | DriveIO \<Rightarrow> (let p = diffIORate (if live then wsDriveIOSamples drive sel recent else hy_driveIO h) in [fst p, snd p])
      | DiskIO \<Rightarrow> (let p = diffIORate (if live then wsDiskIOSamples disk sel recent else hy_diskIO h) in [fst p, snd p]))"

section \<open>The graph of the phone\<close>

record graph_series =
  gr_primary :: "line_point list"
  gr_secondary :: "line_point list option"
  gr_labels :: "(string \<times> string) option"

definition graph1 :: "line_point list \<Rightarrow> graph_series" where
  "graph1 ps = \<lparr>gr_primary = ps, gr_secondary = None, gr_labels = None\<rparr>"

definition graph2 :: "string \<Rightarrow> string \<Rightarrow> line_point list \<Rightarrow> line_point list \<Rightarrow> graph_series" where
  "graph2 l1 l2 ps qs = \<lparr>gr_primary = ps, gr_secondary = Some qs, gr_labels = Some (l1, l2)\<rparr>"

definition sampled :: "metrics_frame list \<Rightarrow> (metrics_frame \<Rightarrow> 'a option) \<Rightarrow> (int \<Rightarrow> 'a \<Rightarrow> 'b) \<Rightarrow> 'b list" where
  "sampled fs pick f = concat (map (\<lambda>x. case pick x of None \<Rightarrow> [] | Some v \<Rightarrow> [f (cs_at (mf_cluster x)) v]) fs)"

text \<open>\<open>nodeIn(f)?.drives.find(...)\<close> compares with an id that may be missing: then nothing is found.\<close>

definition drive_frame_in :: "string option \<Rightarrow> string option \<Rightarrow> metrics_frame \<Rightarrow> drive_frame option" where
  "drive_frame_in drive sel f = Option.bind (nodeIn sel f) (\<lambda>n. find (\<lambda>d. Some (vf_drive_id d) = drive) (nf_drives n))"

definition disk_frame_in :: "string option \<Rightarrow> string option \<Rightarrow> metrics_frame \<Rightarrow> disk_frame option" where
  "disk_frame_in disk sel f = Option.bind (nodeIn sel f) (\<lambda>n. find (\<lambda>d. Some (df_disk_id d) = disk) (nf_disks n))"

definition graphSeries ::
  "metric_key \<Rightarrow> nat \<Rightarrow> string option \<Rightarrow> string option \<Rightarrow> string option \<Rightarrow> metrics_frame list \<Rightarrow> histories \<Rightarrow> line_point list
   \<Rightarrow> graph_series" where
  "graphSeries metric hours sel drive disk recent h client =
     (let live = (hours = 1); snaps = (if live then map mf_cluster recent else hy_cluster h);
          node_points = (\<lambda>pick. sampled recent (nodeIn sel) (\<lambda>t n. (t, pick n)));
          io = (\<lambda>(r :: int) w t. \<lparr>io_at = t, io_read = r, io_write = w\<rparr>) in
      case metric of
        Cpu \<Rightarrow> graph1 (if live then node_points nf_cpu_percent else map (\<lambda>r. (nh_at r, nh_cpu r)) (hy_node h))
      | MemoryUsed \<Rightarrow> graph1 (if live then node_points (\<lambda>n. of_nat (nf_memory_used n)) else map (\<lambda>r. (nh_at r, of_nat (nh_memory r))) (hy_node h))
      | Traffic \<Rightarrow>
          (let p = diffIORate (if live then sampled recent (nodeIn sel) (\<lambda>t n. io (nf_recv n) (nf_sent n) t)
                   else map (\<lambda>r. io (nh_recv r) (nh_sent r) (nh_at r)) (hy_node h))
           in graph2 ''Upload'' ''Download'' (snd p) (fst p))
      | DriveTemp \<Rightarrow> graph1 (if live then sampled recent (\<lambda>f. Option.bind (drive_frame_in drive sel f) vf_temp_celsius) Pair
                            else temp_points (hy_driveTemp h))
      | DiskTemp \<Rightarrow> graph1 (if live then sampled recent (\<lambda>f. Option.bind (disk_frame_in disk sel f) df_temp_celsius) Pair
                           else temp_points (hy_diskTemp h))
      | DriveIO \<Rightarrow>
          (let p = diffIORate (if live then sampled recent (drive_frame_in drive sel) (\<lambda>t d. io (vf_read_bytes d) (vf_write_bytes d) t)
                   else hy_driveIO h) in graph2 ''Read'' ''Write'' (fst p) (snd p))
      | DiskIO \<Rightarrow>
          (let p = diffIORate (if live then sampled recent (disk_frame_in disk sel) (\<lambda>t d. io (df_read_bytes d) (df_write_bytes d) t)
                   else hy_diskIO h) in graph2 ''Read'' ''Write'' (fst p) (snd p))
      | Ping \<Rightarrow> (let server = cluster_series cs_ping snaps in graph1 (if live \<and> length server < 2 then client else server))
      | Loss \<Rightarrow> graph1 (cluster_series cs_loss snaps)
      | Speed \<Rightarrow> graph2 ''Upload (Mbps)'' ''Download (Mbps)'' (cluster_series cs_upload snaps) (cluster_series cs_download snaps)
      | TotalUsers \<Rightarrow> graph1 (map (\<lambda>s. (cs_at s, of_nat (cs_total_users s))) snaps)
      | ActiveUsers \<Rightarrow> graph1 (map (\<lambda>s. (cs_at s, of_nat (cs_active_users s))) snaps)
      | DiskCommitted \<Rightarrow> graph1 (map (\<lambda>s. (cs_at s,
            of_int ((cs_disk_total s - cs_disk_free s) + max 0 (cs_quota s - cs_used s)))) snaps))"

definition drawn :: "graph_series \<Rightarrow> line_point list list" where
  "drawn g = (case gr_labels g of None \<Rightarrow> [gr_primary g]
     | Some _ \<Rightarrow> [gr_primary g, case gr_secondary g of None \<Rightarrow> [] | Some ps \<Rightarrow> ps])"

section \<open>Histories and their answers\<close>

text \<open>A kind of history is asked for with the id it is of and the window; on the web the query is enabled when
  there is an id and the window is longer than an hour.\<close>

type_synonym history_key = "string \<times> nat"

datatype 'r history_event =
    SelectKey "string option" nat
  | HistoryAnswer history_key "'r list option"    \<comment> \<open>\<open>None\<close>: the request failed\<close>

record 'r web_history =
  wh_key :: "history_key option"
  wh_cache :: "history_key \<Rightarrow> 'r list option"

definition wanted_key :: "string option \<Rightarrow> nat \<Rightarrow> history_key option" where
  "wanted_key i hours = (case i of None \<Rightarrow> None | Some s \<Rightarrow> if s \<noteq> [] \<and> 1 < hours then Some (s, hours) else None)"

fun web_history_step :: "'r history_event \<Rightarrow> 'r web_history \<Rightarrow> 'r web_history" where
  "web_history_step (SelectKey i h) s = s\<lparr>wh_key := wanted_key i h\<rparr>"
| "web_history_step (HistoryAnswer k a) s = (case a of None \<Rightarrow> s | Some rows \<Rightarrow> s\<lparr>wh_cache := (wh_cache s)(k \<mapsto> rows)\<rparr>)"

definition web_rows :: "'r web_history \<Rightarrow> 'r list" where
  "web_rows s = (case wh_key s of None \<Rightarrow> [] | Some k \<Rightarrow> (case wh_cache s k of None \<Rightarrow> [] | Some rows \<Rightarrow> rows))"

record 'r phone_history =
  ph_key :: "history_key option"
  ph_asked :: "history_key list"
  ph_rows :: "'r list"

text \<open>The effect asks again when the id or the window changes; what is there stays until an answer comes, and any
  answer, also one to an older question, replaces it.\<close>

fun phone_history_step :: "'r history_event \<Rightarrow> 'r phone_history \<Rightarrow> 'r phone_history" where
  "phone_history_step (SelectKey i h) s =
     (case wanted_key i h of None \<Rightarrow> s\<lparr>ph_key := None\<rparr>
      | Some k \<Rightarrow> if ph_key s = Some k then s else s\<lparr>ph_key := Some k, ph_asked := ph_asked s @ [k]\<rparr>)"
| "phone_history_step (HistoryAnswer k a) s =
     (if k \<in> set (ph_asked s) then s\<lparr>ph_asked := remove1 k (ph_asked s), ph_rows := (case a of None \<Rightarrow> [] | Some rows \<Rightarrow> rows)\<rparr> else s)"

section \<open>Alarms and tests on the phone\<close>

definition phone_alarm_rows :: "metric_key \<Rightarrow> string option \<Rightarrow> string option \<Rightarrow> alarm_target list" where
  "phone_alarm_rows metric node drive =
     (if metric = Cpu \<and> truthy node then [(CpuUsage, node, None), (CpuTemp, node, None)]
      else if metric = MemoryUsed \<and> truthy node then [(MemoryAlarm, node, None)]
      else if metric = Traffic \<and> truthy node then [(NetworkTraffic, node, None)]
      else if (metric = DriveTemp \<or> metric = DiskTemp) \<and> truthy drive then [(DriveTempAlarm, None, drive), (DriveLoad, None, drive)]
      else [])"

record phone_alarms =
  pa_subs :: "alarm_subscription list"
  pa_pending :: bool
  pa_alerts :: "string list"
  pa_loads :: nat      \<comment> \<open>reloads asked for\<close>

definition mutate_alarm :: "string + unit \<Rightarrow> phone_alarms \<Rightarrow> phone_alarms" where
  "mutate_alarm answer s =
     (case answer of
        Inr _ \<Rightarrow> s\<lparr>pa_loads := pa_loads s + 1, pa_pending := False\<rparr>
      | Inl m \<Rightarrow> s\<lparr>pa_alerts := pa_alerts s @ [m], pa_pending := False\<rparr>)"

text \<open>\<open>selectDisk\<close> moves both indices.\<close>

definition selectDisk :: "nat \<Rightarrow> nat \<times> nat \<Rightarrow> nat \<times> nat" where
  "selectDisk i idx = (i, i)"

datatype phone_run_answer = PhoneRunOk "suite_key \<Rightarrow> suite_entry" | PhoneRunFailed "(suite_key \<Rightarrow> suite_entry) option" string

definition handleRunTests ::
  "phone_run_answer \<Rightarrow> (suite_key \<Rightarrow> suite_entry) option \<Rightarrow> (suite_key \<Rightarrow> suite_entry) option \<times> string option" where
  "handleRunTests a old =
     (case a of
        PhoneRunOk r \<Rightarrow> (Some r, None)
      | PhoneRunFailed body m \<Rightarrow> (case body of Some r \<Rightarrow> (Some r, None) | None \<Rightarrow> (old, Some m)))"

definition TestSuiteRow :: "suite_entry \<Rightarrow> (string + bool)" where
  "TestSuiteRow e =
     (if \<not> se_enabled e then Inl (case se_message e of None \<Rightarrow> ''disabled'' | Some m \<Rightarrow> m)
      else Inr (case se_result e of None \<Rightarrow> False | Some r \<Rightarrow> su_passed r))"

section \<open>Properties\<close>

lemma find_nothing: "find (\<lambda>d. False) xs = None"
  by (induction xs) simp_all

lemma concat_nothing: "concat (map (\<lambda>x. []) xs) = []"
  by (induction xs) simp_all

lemma bind_nothing: "Option.bind x (\<lambda>y. None) = None"
  by (cases x) simp_all

lemma sampled_node_series: "sampled fs (nodeIn sel) (\<lambda>t n. (t, g n)) = node_series (\<lambda>n. Some (g n)) sel fs"
  unfolding sampled_def node_series_def by (rule arg_cong [where f = concat]) (auto split: option.splits)

lemma sampled_temp:
  "sampled fs (\<lambda>f. Option.bind (nodeIn sel f) (\<lambda>n. Option.bind (find' n) temp)) Pair = node_series (\<lambda>n. Option.bind (find' n) temp) sel fs"
  unfolding sampled_def node_series_def by (rule arg_cong [where f = concat]) (auto split: option.splits)

lemma sampled_none: "sampled fs (\<lambda>f. None) g = []"
  by (simp add: sampled_def)

lemma traffic_samples_eq:
  assumes "list_all (\<lambda>f. nodeIn sel f \<noteq> None) fs"
  shows "sampled fs (nodeIn sel) (\<lambda>t n. \<lparr>io_at = t, io_read = nf_recv n, io_write = nf_sent n\<rparr>) = map (traffic_sample sel) fs"
  using assms by (induction fs) (auto simp: sampled_def traffic_sample_def)

text \<open>C39. From the same data the phone draws exactly the graphs of the web page, for every metric. In the window of the
  last hour that data are the frames and the pings measured on the device, and nothing else: the histories
  the two hold may differ. There the selected node has to be in every frame, for a frame without it leaves
  another hole on the phone, and the ids selected must not be empty. In the longer windows it is the rows of
  the history, whatever the frames are; the two may well hold different rows, as the phone shows the answer
  that came last.\<close>

theorem phone_draws_web_graph:
  assumes "hours = 1 \<Longrightarrow> list_all (\<lambda>f. nodeIn sel f \<noteq> None) recent \<and> drive \<noteq> Some [] \<and> disk \<noteq> Some []"
    and "hours \<noteq> 1 \<Longrightarrow> h' = h"
  shows "drawn (graphSeries metric hours sel drive disk recent h client) = web_graph metric hours sel drive disk recent h' client"
proof (cases "hours = 1")
  case False
  with assms(2) history_traffic_is_difference [of "hy_node h"] show ?thesis
    by (cases metric) (simp_all add: graphSeries_def web_graph_def drawn_def graph1_def graph2_def Let_def prod.swap_def
        disk_points_def committed_bytes_def netPingPoints_def)
next
  case True
  with assms(1) have nodes: "list_all (\<lambda>f. nodeIn sel f \<noteq> None) recent" and ids: "given drive = drive" "given disk = disk"
    by (simp_all add: given_def)
  show ?thesis
  proof (cases metric)
    case Traffic
    then show ?thesis
      using True traffic_samples_eq [OF nodes] live_traffic_is_difference [OF nodes]
      by (simp add: graphSeries_def web_graph_def drawn_def graph2_def Let_def prod.swap_def)
  next
    case DriveTemp
    with True ids show ?thesis
      by (cases drive) (simp_all add: graphSeries_def web_graph_def drawn_def graph1_def Let_def drive_frame_in_def sampled_temp
          wsDriveTempPoints_def drive_in_def find_nothing bind_nothing sampled_none)
  next
    case DiskTemp
    with True ids show ?thesis
      by (cases disk) (simp_all add: graphSeries_def web_graph_def drawn_def graph1_def Let_def disk_frame_in_def sampled_temp
          wsDiskTempPoints_def disk_in_def find_nothing bind_nothing sampled_none)
  next
    case DriveIO
    with True ids show ?thesis
      by (cases drive) (simp_all add: graphSeries_def web_graph_def drawn_def graph2_def Let_def drive_frame_in_def sampled_def
          wsDriveIOSamples_def drive_in_def [abs_def] find_nothing concat_nothing option.case_eq_if)
  next
    case DiskIO
    with True ids show ?thesis
      by (cases disk) (simp_all add: graphSeries_def web_graph_def drawn_def graph2_def Let_def disk_frame_in_def sampled_def
          wsDiskIOSamples_def disk_in_def [abs_def] find_nothing concat_nothing option.case_eq_if)
  qed (use True in \<open>simp_all add: graphSeries_def web_graph_def drawn_def graph1_def graph2_def Let_def sampled_node_series wsCpuPoints_def
      wsMemoryPoints_def disk_points_def committed_bytes_def netPingPoints_def\<close>)
qed

definition no_histories :: histories where
  "no_histories = \<lparr>hy_cluster = [], hy_node = [], hy_driveTemp = [], hy_diskTemp = [], hy_driveIO = [], hy_diskIO = []\<rparr>"

theorem phone_draws_web_graph_witness:
  "drawn (graphSeries Traffic 1 (Some ''n'') None None [probe_frame 0 [probe_node ''n'' 0], probe_frame 1000 [probe_node ''n'' 7]]
     no_histories []) = [[(1000, 7)], [(1000, 7)]]"
proof -
  let ?fs = "[probe_frame 0 [probe_node ''n'' 0], probe_frame 1000 [probe_node ''n'' 7]]"
  have "list_all (\<lambda>f. nodeIn (Some ''n'') f \<noteq> None) ?fs" by (simp add: nodeIn_def probe_frame_def probe_node_def)
  with phone_draws_web_graph [of 1 "Some ''n''" ?fs None None no_histories no_histories Traffic "[]"] show ?thesis
    by (simp add: web_graph_def Let_def probe_frame_def probe_node_def nodeIn_def per_second_def)
qed

text \<open>Both hold the same rows as soon as the answer that came last is one to the question of the moment.\<close>

theorem histories_agree_after_answer:
  assumes "ph_key p = Some k" "k \<in> set (ph_asked p)" "wh_key w = Some k"
  shows "ph_rows (phone_history_step (HistoryAnswer k (Some rows)) p) = rows
    \<and> web_rows (web_history_step (HistoryAnswer k (Some rows)) w) = rows"
  using assms by (simp add: web_rows_def)

text \<open>The web only ever shows a history under the node, drive or disk and the window it was asked for.\<close>

theorem web_history_is_own:
  "web_rows (fold web_history_step es \<lparr>wh_key = None, wh_cache = Map.empty\<rparr>) \<in>
     {[]} \<union> {rows. \<exists>k. wh_key (fold web_history_step es \<lparr>wh_key = None, wh_cache = Map.empty\<rparr>) = Some k
                  \<and> HistoryAnswer k (Some rows) \<in> set es}"
proof -
  have "wh_cache (fold web_history_step es s) k = Some rows \<Longrightarrow> wh_cache s k = Some rows \<or> HistoryAnswer k (Some rows) \<in> set es"
    for s k rows
  proof (induction es arbitrary: s)
    case (Cons e es)
    from Cons.IH [of "web_history_step e s"] Cons.prems show ?case
      by (cases e) (auto split: option.splits if_splits)
  qed simp
  from this [of "\<lparr>wh_key = None, wh_cache = Map.empty\<rparr>"] show ?thesis by (auto simp: web_rows_def split: option.splits)
qed

text \<open>On the phone the answer that comes last wins: the history of the node that was left is drawn for the one that
  is selected.\<close>

theorem phone_shows_other_history:
  "let s = fold phone_history_step [SelectKey (Some ''a'') 12, SelectKey (Some ''b'') 12, HistoryAnswer (''b'', 12) (Some [2]),
       HistoryAnswer (''a'', 12) (Some [1 :: nat])] \<lparr>ph_key = None, ph_asked = [], ph_rows = []\<rparr>
   in ph_key s = Some (''b'', 12) \<and> ph_asked s = [] \<and> ph_rows s = [1]"
  by (simp add: wanted_key_def Let_def)

text \<open>And until the first answer comes it is drawn as well.\<close>

theorem phone_keeps_old_history:
  "let s = fold phone_history_step [SelectKey (Some ''a'') 12, HistoryAnswer (''a'', 12) (Some [1 :: nat]), SelectKey (Some ''b'') 12]
       \<lparr>ph_key = None, ph_asked = [], ph_rows = []\<rparr>
   in ph_key s = Some (''b'', 12) \<and> ph_rows s = [1]"
  by (simp add: wanted_key_def Let_def)

text \<open>The phone offers the alarms of the web, and those of the drive also next to the temperature of a disk.\<close>

theorem phone_offers_drive_alarms:
  "(if metric = DiskTemp \<and> truthy drive
    then alarm_rows metric node drive = [] \<and> phone_alarm_rows metric node drive = alarm_rows DriveTemp node drive
    else phone_alarm_rows metric node drive = alarm_rows metric node drive)"
  by (auto simp: phone_alarm_rows_def alarm_rows_def)

end
