(* ===== verification/PhoneStream.thy ===== *)
theory PhoneStream
  imports MetricsStream
begin

text \<open>
  The live metrics on the phone, \<open>mobile/src/hooks/useMetricsStream.ts\<close>: the machine of the web
  hook, but a connection starts with the read of the stored token, after which the socket is opened
  with it. Connections that wait for the token are counted, timers have numbers.
\<close>

record 'f phone_stream = "'f stream" +
  pt_waiting :: nat
  pt_timers :: "(nat \<times> nat) list"   \<comment> \<open>armed timers with their delays\<close>
  pt_timerRef :: "nat option"
  pt_nextTimer :: nat

definition phone_connect :: "'f phone_stream \<Rightarrow> 'f phone_stream" where
  "phone_connect s = (if sm_cancelled s then s else s\<lparr>pt_waiting := pt_waiting s + 1\<rparr>)"

definition phone_token :: "'f phone_stream \<Rightarrow> 'f phone_stream" where
  "phone_token s =
     (let s1 = s\<lparr>pt_waiting := pt_waiting s - 1\<rparr>
      in if sm_cancelled s1 then s1
         else s1\<lparr>sm_live := sm_live s1 @ [sm_next s1], sm_ref := Some (sm_next s1), sm_next := sm_next s1 + 1\<rparr>)"

definition phone_close_socket :: "nat \<Rightarrow> 'f phone_stream \<Rightarrow> 'f phone_stream" where
  "phone_close_socket w s =
     (if w \<in> set (sm_live s) then s\<lparr>sm_live := remove1 w (sm_live s), sm_closing := sm_closing s @ [w]\<rparr> else s)"

definition phone_close_ref :: "'f phone_stream \<Rightarrow> 'f phone_stream" where
  "phone_close_ref s = (case sm_ref s of None \<Rightarrow> s | Some w \<Rightarrow> (phone_close_socket w s)\<lparr>sm_ref := None\<rparr>)"

text \<open>\<open>timerRef\<close> holds the timer armed last, the only one the clean-up clears. The field \<open>sm_timers\<close> is not used.\<close>

definition phone_cleanup :: "'f phone_stream \<Rightarrow> 'f phone_stream" where
  "phone_cleanup s = phone_close_ref (s\<lparr>sm_cancelled := True, pt_timers := filter (\<lambda>t. Some (fst t) \<noteq> pt_timerRef s) (pt_timers s)\<rparr>)"

definition phone_effect :: "bool \<Rightarrow> 'f phone_stream \<Rightarrow> 'f phone_stream" where
  "phone_effect paused s =
     (if paused then (phone_close_ref (s\<lparr>sm_cancelled := True\<rparr>))\<lparr>sm_connected := False\<rparr>
      else phone_connect (s\<lparr>sm_cancelled := False, sm_delay := 1000\<rparr>))"

definition phone_open :: "'f phone_stream \<Rightarrow> 'f phone_stream" where
  "phone_open s = (if \<not> sm_cancelled s then s\<lparr>sm_connected := True, sm_delay := 1000\<rparr> else s)"

definition phone_message :: "'f option \<Rightarrow> 'f phone_stream \<Rightarrow> 'f phone_stream" where
  "phone_message m s =
     (if sm_cancelled s then s
      else case m of None \<Rightarrow> s
        | Some frame \<Rightarrow>
            let nxt = sm_frames s @ [frame]
            in s\<lparr>sm_frames := (if length nxt > MAX_SNAPSHOTS then drop (length nxt - MAX_SNAPSHOTS) nxt else nxt)\<rparr>)"

definition phone_closed :: "nat \<Rightarrow> 'f phone_stream \<Rightarrow> 'f phone_stream" where
  "phone_closed w s =
     (let s1 = s\<lparr>sm_live := remove1 w (sm_live s), sm_closing := remove1 w (sm_closing s)\<rparr> in
      if \<not> sm_cancelled s1 then
        s1\<lparr>sm_connected := False, sm_delay := min (sm_delay s1 * 2) 30000, pt_timers := pt_timers s1 @ [(pt_nextTimer s1, sm_delay s1)],
           pt_timerRef := Some (pt_nextTimer s1), pt_nextTimer := pt_nextTimer s1 + 1\<rparr>
      else s1)"

definition phone_timer :: "nat \<Rightarrow> 'f phone_stream \<Rightarrow> 'f phone_stream" where
  "phone_timer d s = phone_connect (s\<lparr>pt_timers := filter (\<lambda>t. fst t \<noteq> d) (pt_timers s)\<rparr>)"

datatype 'f phone_event =
    PEffect bool | PUnmount | PToken | POpen nat | PMessage nat "'f option" | PClose nat | PError nat | PTimer nat

fun phone_step :: "'f phone_event \<Rightarrow> 'f phone_stream \<Rightarrow> 'f phone_stream" where
  "phone_step (PEffect b) s = phone_effect b (phone_cleanup s)"
| "phone_step PUnmount s = phone_cleanup s"
| "phone_step PToken s = (if 0 < pt_waiting s then phone_token s else s)"
| "phone_step (POpen w) s = (if w \<in> set (sm_live s) then phone_open s else s)"
| "phone_step (PMessage w m) s = (if w \<in> set (sm_live s) then phone_message m s else s)"
| "phone_step (PClose w) s = (if w \<in> set (sm_live s @ sm_closing s) then phone_closed w s else s)"
| "phone_step (PError w) s = (if w \<in> set (sm_live s) then phone_close_socket w s else s)"
| "phone_step (PTimer d) s = (if d \<in> set (map fst (pt_timers s)) then phone_timer d s else s)"

definition phone_mounted :: "'f phone_stream" where
  "phone_mounted = phone_effect False \<lparr>sm_cancelled = False, sm_delay = 1000, sm_next = 0, sm_live = [], sm_closing = [],
     sm_ref = None, sm_timers = [], sm_frames = [], sm_connected = False, pt_waiting = 0, pt_timers = [], pt_timerRef = None, pt_nextTimer = 0\<rparr>"

lemmas phone_defs = phone_effect_def phone_cleanup_def phone_close_ref_def phone_close_socket_def phone_connect_def
  phone_token_def phone_open_def phone_message_def phone_closed_def phone_timer_def Let_def

text \<open>The window never grows beyond 720 frames, the delay never beyond half a minute.\<close>

theorem phone_window_bounded:
  "length (sm_frames (fold phone_step es phone_mounted)) \<le> MAX_SNAPSHOTS
   \<and> 1000 \<le> sm_delay (fold phone_step es phone_mounted) \<and> sm_delay (fold phone_step es phone_mounted) \<le> 30000"
proof -
  have step: "length (sm_frames (phone_step e s)) \<le> MAX_SNAPSHOTS \<and> 1000 \<le> sm_delay (phone_step e s) \<and> sm_delay (phone_step e s) \<le> 30000"
    if "length (sm_frames s) \<le> MAX_SNAPSHOTS" "1000 \<le> sm_delay s" "sm_delay s \<le> 30000" for e and s :: "'a phone_stream"
    using that by (cases e) (auto simp: phone_defs split: option.splits)
  have "length (sm_frames (fold phone_step es s)) \<le> MAX_SNAPSHOTS \<and> 1000 \<le> sm_delay (fold phone_step es s)
      \<and> sm_delay (fold phone_step es s) \<le> 30000"
    if "length (sm_frames s) \<le> MAX_SNAPSHOTS" "1000 \<le> sm_delay s" "sm_delay s \<le> 30000" for s :: "'a phone_stream"
    using that
  proof (induction es arbitrary: s)
    case (Cons e es)
    with step [of s e] show ?case by simp
  qed simp
  then show ?thesis by (simp add: phone_mounted_def phone_defs MAX_SNAPSHOTS_def)
qed

text \<open>Leaving the screen ends the stream: no frame is taken and no socket opened any more, whatever tokens, timers
  and sockets still report.\<close>

definition after_unmount :: "'f phone_event \<Rightarrow> bool" where
  "after_unmount e \<longleftrightarrow> (case e of PEffect b \<Rightarrow> False | _ \<Rightarrow> True)"

theorem unmount_ends_stream:
  assumes "list_all after_unmount es" and "s' = fold phone_step es (phone_step PUnmount s)"
  shows "sm_frames s' = sm_frames s \<and> sm_next s' = sm_next s \<and> set (sm_live s') \<subseteq> set (sm_live s)"
proof -
  have frames: "sm_frames (phone_cleanup s) = sm_frames s" "sm_next (phone_cleanup s) = sm_next s" "sm_cancelled (phone_cleanup s)"
    "set (sm_live (phone_cleanup s)) \<subseteq> set (sm_live s)"
    using set_remove1_subset [of _ "sm_live s"] by (auto simp: phone_defs split: option.splits)
  have step: "sm_frames (phone_step e t) = sm_frames t \<and> sm_next (phone_step e t) = sm_next t \<and> sm_cancelled (phone_step e t)
      \<and> set (sm_live (phone_step e t)) \<subseteq> set (sm_live t)"
    if "sm_cancelled t" "after_unmount e" for e and t :: "'a phone_stream"
    using that set_remove1_subset [of _ "sm_live t"] by (cases e) (auto simp: phone_defs after_unmount_def split: option.splits)
  have "sm_frames (fold phone_step es t) = sm_frames t \<and> sm_next (fold phone_step es t) = sm_next t
      \<and> set (sm_live (fold phone_step es t)) \<subseteq> set (sm_live t)" if "sm_cancelled t" for t :: "'a phone_stream"
    using assms(1) that
  proof (induction es arbitrary: t)
    case (Cons e es)
    have "sm_frames (phone_step e t) = sm_frames t \<and> sm_next (phone_step e t) = sm_next t \<and> sm_cancelled (phone_step e t)
      \<and> set (sm_live (phone_step e t)) \<subseteq> set (sm_live t)" using Cons.prems by (intro step) simp_all
    with Cons.IH [of "phone_step e t"] Cons.prems(1) show ?case by auto
  qed simp
  from this [OF frames(3)] frames show ?thesis by (auto simp: assms(2))
qed

theorem unmount_ends_stream_witness:
  "sm_live (fold phone_step [PToken, PTimer 0] (phone_step PUnmount (phone_mounted :: nat phone_stream))) = []"
  using unmount_ends_stream [of "[PToken, PTimer 0]" _ "phone_mounted :: nat phone_stream", OF _ refl]
  by (simp add: after_unmount_def phone_mounted_def phone_defs)

text \<open>Pausing and resuming while the token is read leaves two connections waiting: both open a socket, and only the
  second is closed with the screen. (No screen of the app pauses the stream yet.)\<close>

theorem resume_doubles_socket:
  "sm_live (fold phone_step [PEffect True, PEffect False, PToken, PToken] (phone_mounted :: nat phone_stream)) = [0, 1]
   \<and> sm_live (fold phone_step [PEffect True, PEffect False, PToken, PToken, PUnmount] (phone_mounted :: nat phone_stream)) = [0]"
  by (simp add: phone_mounted_def phone_defs)

end
