(* ===== verification/AdminStorage.thy ===== *)
theory AdminStorage
  imports Infrastructure
begin

text \<open>
  The storage of one user in the administrator's list, \<open>StorageDetails\<close> of
  \<open>frontend/src/routes/_auth.admin/users.tsx\<close>: the allocations grouped by server, and the editor whose
  rows are saved in one request. The text of a row is a number of GB; the backend may refuse the
  request with violations that are shown at the rows.
\<close>

section \<open>Data\<close>

record user_allocation =
  al_server_id :: string
  al_server_name :: string
  al_drive_id :: string
  al_drive_type :: drive_type
  al_quota_bytes :: nat
  al_used_bytes :: nat
  al_is_primary :: bool

record draft_allocation =
  dr_driveId :: string
  dr_serverId :: string
  dr_serverName :: string
  dr_driveType :: drive_type
  dr_gbText :: string
  dr_usedBytes :: nat
  dr_isPrimary :: bool

definition fmtGB :: "nat \<Rightarrow> string" where
  "fmtGB b = to_fixed 2 (of_nat b / of_nat GIB) @ '' GB''"

text \<open>The bytes a text stands for: \<open>Math.round(Number(text) * GB)\<close>, if that is a number.\<close>

definition text_bytes :: "string \<Rightarrow> int option" where
  "text_bytes t = (case js_Number t of Fin n \<Rightarrow> Some (js_round (n * of_nat GIB)) | _ \<Rightarrow> None)"

definition localRowError :: "draft_allocation \<Rightarrow> string option" where
  "localRowError d =
     (if trim (dr_gbText d) = [] then Some ''Enter a valid GB amount''
      else case js_Number (dr_gbText d) of
             Fin n \<Rightarrow> if n < 0 then Some ''Enter a valid GB amount''
                      else if js_round (n * of_nat GIB) < int (dr_usedBytes d)
                      then Some (''Must be at least '' @ fmtGB (dr_usedBytes d) @ '' (already used)'')
                      else None
           | _ \<Rightarrow> Some ''Enter a valid GB amount'')"

datatype violation_code = UsedExceedsQuota | InsufficientCapacity | RemovalBlocked | OtherViolation

record allocation_violation =
  vi_drive_id :: string
  vi_code :: violation_code
  vi_used_bytes :: "nat option"
  vi_max_bytes :: "nat option"
  vi_drive_label :: string

definition describeViolation :: "allocation_violation \<Rightarrow> string" where
  "describeViolation v =
     (case vi_code v of
        UsedExceedsQuota \<Rightarrow> ''Must be at least '' @ fmtGB (or_else (vi_used_bytes v) 0) @ '' (already used)''
      | InsufficientCapacity \<Rightarrow>
          ''Only '' @ fmtGB (or_else (vi_max_bytes v) 0) @ '' available''
          @ (if vi_drive_label v \<noteq> [] then '' on '' @ vi_drive_label v else [])
      | RemovalBlocked \<Rightarrow> ''Cannot remove '' @ em_dash @ '' '' @ fmtGB (or_else (vi_used_bytes v) 0) @ '' used''
      | OtherViolation \<Rightarrow> ''Invalid allocation'')"

section \<open>The grouped view\<close>

record allocation_server =
  sv_id :: string
  sv_name :: string
  sv_isPrimary :: bool
  sv_nodes :: "user_allocation list"

definition group_allocation :: "user_allocation \<Rightarrow> allocation_server list \<Rightarrow> allocation_server list" where
  "group_allocation a gs =
     (if list_ex (\<lambda>g. sv_id g = al_server_id a) gs
      then map (\<lambda>g. if sv_id g = al_server_id a
                    then g\<lparr>sv_nodes := sv_nodes g @ [a], sv_isPrimary := (sv_isPrimary g \<or> al_is_primary a)\<rparr> else g) gs
      else gs @ [\<lparr>sv_id = al_server_id a, sv_name = al_server_name a, sv_isPrimary = al_is_primary a, sv_nodes = [a]\<rparr>])"

definition allocation_servers :: "user_allocation list \<Rightarrow> allocation_server list" where
  "allocation_servers as = fold group_allocation as []"

definition usage_percent :: "user_allocation \<Rightarrow> int" where
  "usage_percent a =
     (if 0 < al_quota_bytes a then min 100 (js_round (of_nat (al_used_bytes a) / of_nat (al_quota_bytes a) * 100)) else 0)"

section \<open>The editor\<close>

record allocation_request =
  ar_allocations :: "(string \<times> int) list"
  ar_reason :: "string option"

record storage_editor =
  se_allocations :: "user_allocation list"
  se_editing :: bool
  se_draft :: "draft_allocation list"
  se_reason :: string
  se_rowErrors :: "string \<Rightarrow> string option"
  se_addServerId :: string
  se_addTier :: "drive_type option"
  se_addGb :: string
  se_saving :: "allocation_request option"
  se_toasts :: "(bool \<times> string) list"

definition open_storage :: "user_allocation list \<Rightarrow> storage_editor" where
  "open_storage as = \<lparr>se_allocations = as, se_editing = False, se_draft = [], se_reason = [], se_rowErrors = Map.empty,
     se_addServerId = [], se_addTier = None, se_addGb = [], se_saving = None, se_toasts = []\<rparr>"

definition draft_of :: "user_allocation \<Rightarrow> draft_allocation" where
  "draft_of a =
     \<lparr>dr_driveId = al_drive_id a, dr_serverId = al_server_id a, dr_serverName = al_server_name a,
      dr_driveType = al_drive_type a, dr_gbText = to_fixed 2 (of_nat (al_quota_bytes a) / of_nat GIB),
      dr_usedBytes = al_used_bytes a, dr_isPrimary = al_is_primary a\<rparr>"

definition startEdit :: "storage_editor \<Rightarrow> storage_editor" where
  "startEdit s = s\<lparr>se_draft := map draft_of (se_allocations s), se_reason := [], se_rowErrors := Map.empty,
     se_addServerId := [], se_addTier := None, se_addGb := [], se_editing := True\<rparr>"

definition cancelEdit :: "storage_editor \<Rightarrow> storage_editor" where
  "cancelEdit s = s\<lparr>se_editing := False, se_rowErrors := Map.empty\<rparr>"

definition removeRow :: "string \<Rightarrow> storage_editor \<Rightarrow> storage_editor" where
  "removeRow i s = s\<lparr>se_draft := filter (\<lambda>d. dr_driveId d \<noteq> i) (se_draft s)\<rparr>"

definition updateRowGb :: "string \<Rightarrow> string \<Rightarrow> storage_editor \<Rightarrow> storage_editor" where
  "updateRowGb i t s =
     s\<lparr>se_draft := map (\<lambda>d. if dr_driveId d = i then d\<lparr>dr_gbText := t\<rparr> else d) (se_draft s),
       se_rowErrors := (se_rowErrors s)(i := None)\<rparr>"

definition new_row :: "drive_summary \<Rightarrow> string \<Rightarrow> string \<Rightarrow> draft_allocation" where
  "new_row dv name t = \<lparr>dr_driveId = ds_drive_id dv, dr_serverId = ds_server_id dv, dr_serverName = name,
     dr_driveType = ds_drive_type dv, dr_gbText = t, dr_usedBytes = 0, dr_isPrimary = False\<rparr>"

definition other_tier :: "drive_type \<Rightarrow> drive_type" where
  "other_tier t = (if t = NvmeDrive then HddDrive else NvmeDrive)"

text \<open>The button for the other tier of a server: there for a server with one row and an active drive of it.\<close>

definition missing_tier :: "string \<Rightarrow> storage_editor \<Rightarrow> drive_type option" where
  "missing_tier server s =
     (case filter (\<lambda>d. dr_serverId d = server) (se_draft s) of [d] \<Rightarrow> Some (other_tier (dr_driveType d)) | _ \<Rightarrow> None)"

definition tier_drive :: "drive_summary list \<Rightarrow> string \<Rightarrow> drive_type \<Rightarrow> drive_summary option" where
  "tier_drive infra server t = find (\<lambda>v. ds_server_id v = server \<and> ds_drive_type v = t \<and> ds_drive_is_active v) infra"

definition addOtherTier :: "drive_summary list \<Rightarrow> string \<Rightarrow> string \<Rightarrow> drive_type \<Rightarrow> storage_editor \<Rightarrow> storage_editor" where
  "addOtherTier infra server name t s =
     (case tier_drive infra server t of None \<Rightarrow> s | Some dv \<Rightarrow> s\<lparr>se_draft := se_draft s @ [new_row dv name ''0'']\<rparr>)"

definition eligibleServers :: "drive_summary list \<Rightarrow> storage_editor \<Rightarrow> string list" where
  "eligibleServers infra s =
     rev (remdups (rev (map ds_server_id
       (filter (\<lambda>v. ds_server_is_active v \<and> ds_server_id v \<notin> dr_serverId ` set (se_draft s)) infra))))"

definition eligibleTiers :: "drive_summary list \<Rightarrow> string \<Rightarrow> drive_type list" where
  "eligibleTiers infra server =
     rev (remdups (rev (map ds_drive_type (filter (\<lambda>v. ds_server_id v = server \<and> ds_drive_is_active v) infra))))"

definition confirmAddServer :: "drive_summary list \<Rightarrow> storage_editor \<Rightarrow> storage_editor" where
  "confirmAddServer infra s =
     (case find (\<lambda>v. ds_server_id v = se_addServerId s \<and> Some (ds_drive_type v) = se_addTier s) infra of
        None \<Rightarrow> s
      | Some dv \<Rightarrow> s\<lparr>se_draft := se_draft s @ [new_row dv (ds_server_name dv) (if se_addGb s = [] then ''0'' else se_addGb s)],
                     se_addServerId := [], se_addTier := None, se_addGb := []\<rparr>)"

definition add_enabled :: "storage_editor \<Rightarrow> bool" where
  "add_enabled s \<longleftrightarrow> se_addServerId s \<noteq> [] \<and> se_addTier s \<noteq> None \<and> se_addGb s \<noteq> []
     \<and> (case js_Number (se_addGb s) of Fin n \<Rightarrow> 0 \<le> n | _ \<Rightarrow> False)"

definition row_error :: "storage_editor \<Rightarrow> draft_allocation \<Rightarrow> string option" where
  "row_error s d = (case se_rowErrors s (dr_driveId d) of Some e \<Rightarrow> Some e | None \<Rightarrow> localRowError d)"

definition draftHasError :: "storage_editor \<Rightarrow> bool" where
  "draftHasError s \<longleftrightarrow> se_draft s = [] \<or> list_ex (\<lambda>d. row_error s d \<noteq> None) (se_draft s)"

definition save_request :: "storage_editor \<Rightarrow> allocation_request" where
  "save_request s =
     \<lparr>ar_allocations = map (\<lambda>d. (dr_driveId d, case text_bytes (dr_gbText d) of Some b \<Rightarrow> b | None \<Rightarrow> 0)) (se_draft s),
      ar_reason = (if trim (se_reason s) = [] then None else Some (trim (se_reason s)))\<rparr>"

datatype save_answer = Saved "user_allocation list" | Violated "allocation_violation list" | SaveBroken

definition save_answered :: "save_answer \<Rightarrow> storage_editor \<Rightarrow> storage_editor" where
  "save_answered a s =
     (case a of
        Saved as \<Rightarrow> s\<lparr>se_allocations := as, se_editing := False, se_rowErrors := Map.empty, se_saving := None,
                      se_toasts := se_toasts s @ [(True, ''Storage allocations updated'')]\<rparr>
      | Violated vs \<Rightarrow> s\<lparr>se_rowErrors := fold (\<lambda>v m. m(vi_drive_id v \<mapsto> describeViolation v)) vs Map.empty, se_saving := None\<rparr>
      | SaveBroken \<Rightarrow> s\<lparr>se_saving := None, se_toasts := se_toasts s @ [(False, ''Failed to update storage allocations'')]\<rparr>)"

datatype storage_event =
    StartEdit
  | CancelEdit
  | RemoveRow string
  | UpdateRow string string
  | AddOtherTier string
  | PickServer string
  | PickTier drive_type
  | TypeGb string
  | ConfirmAdd
  | TypeReason string
  | SaveClicked
  | SaveAnswer save_answer

text \<open>What the rendered controls allow.\<close>

fun storage_step :: "drive_summary list \<Rightarrow> storage_event \<Rightarrow> storage_editor \<Rightarrow> storage_editor" where
  "storage_step infra StartEdit s = (if se_editing s then s else startEdit s)"
| "storage_step infra CancelEdit s = (if se_editing s then cancelEdit s else s)"
| "storage_step infra (RemoveRow i) s =
     (if se_editing s \<and> list_ex (\<lambda>d. dr_driveId d = i \<and> dr_usedBytes d = 0) (se_draft s) then removeRow i s else s)"
| "storage_step infra (UpdateRow i t) s = (if se_editing s then updateRowGb i t s else s)"
| "storage_step infra (AddOtherTier server) s =
     (case missing_tier server s of
        None \<Rightarrow> s
      | Some t \<Rightarrow> if se_editing s \<and> tier_drive infra server t \<noteq> None
                  then addOtherTier infra server (dr_serverName (hd (filter (\<lambda>d. dr_serverId d = server) (se_draft s)))) t s
                  else s)"
| "storage_step infra (PickServer i) s =
     (if se_editing s \<and> (i = [] \<or> i \<in> set (eligibleServers infra s))
      then s\<lparr>se_addServerId := i, se_addTier := (case eligibleTiers infra i of [] \<Rightarrow> None | t # _ \<Rightarrow> Some t)\<rparr> else s)"
| "storage_step infra (PickTier t) s =
     (if se_editing s \<and> se_addServerId s \<noteq> [] \<and> t \<in> set (eligibleTiers infra (se_addServerId s)) then s\<lparr>se_addTier := Some t\<rparr> else s)"
| "storage_step infra (TypeGb t) s = (if se_editing s then s\<lparr>se_addGb := t\<rparr> else s)"
| "storage_step infra ConfirmAdd s = (if se_editing s \<and> add_enabled s then confirmAddServer infra s else s)"
| "storage_step infra (TypeReason t) s = (if se_editing s then s\<lparr>se_reason := t\<rparr> else s)"
| "storage_step infra SaveClicked s =
     (if se_editing s \<and> \<not> draftHasError s \<and> se_saving s = None then s\<lparr>se_saving := Some (save_request s)\<rparr> else s)"
| "storage_step infra (SaveAnswer a) s = (if se_saving s = None then s else save_answered a s)"

definition storage_run :: "drive_summary list \<Rightarrow> storage_event list \<Rightarrow> storage_editor \<Rightarrow> storage_editor" where
  "storage_run infra es s = fold (storage_step infra) es s"

section \<open>The breakdown of a change\<close>

record quota_snapshot =
  qs_drive_id :: string
  qs_server_name :: string
  qs_drive_type :: drive_type
  qs_quota_bytes :: nat

record breakdown_row =
  br_id :: string
  br_label :: string
  br_before :: string
  br_after :: string

definition js_set :: "'a list \<Rightarrow> 'a list" where
  "js_set xs = rev (remdups (rev xs))"

definition breakdown_row_of :: "quota_snapshot list \<Rightarrow> quota_snapshot list \<Rightarrow> string \<Rightarrow> breakdown_row option" where
  "breakdown_row_of before after i =
     (let b = find (\<lambda>a. qs_drive_id a = i) before; a = find (\<lambda>a. qs_drive_id a = i) after
      in case (case a of Some x \<Rightarrow> Some x | None \<Rightarrow> b) of
           None \<Rightarrow> None
         | Some l \<Rightarrow> Some \<lparr>br_id = i,
             br_label = qs_server_name l @ '' ('' @ (if qs_drive_type l = NvmeDrive then ''Fast'' else ''Standard'') @ '')'',
             br_before = (case b of Some x \<Rightarrow> fmtGB (qs_quota_bytes x) | None \<Rightarrow> ''added''),
             br_after = (case a of Some x \<Rightarrow> fmtGB (qs_quota_bytes x) | None \<Rightarrow> ''removed'')\<rparr>)"

definition AllocationChangeBreakdown :: "quota_snapshot list \<Rightarrow> quota_snapshot list \<Rightarrow> breakdown_row list" where
  "AllocationChangeBreakdown before after =
     List.map_filter (breakdown_row_of before after) (js_set (map qs_drive_id before @ map qs_drive_id after))"

section \<open>What is saved\<close>

definition row_fits :: "drive_summary list \<Rightarrow> draft_allocation \<Rightarrow> bool" where
  "row_fits infra d \<longleftrightarrow>
     list_all (\<lambda>v. ds_drive_id v = dr_driveId d \<longrightarrow> ds_server_id v = dr_serverId d \<and> ds_drive_type v = dr_driveType d) infra"

text \<open>The allocations the backend sends: one per drive, each on the server and of the type the drive is listed with.\<close>

definition allocations_ok :: "drive_summary list \<Rightarrow> user_allocation list \<Rightarrow> bool" where
  "allocations_ok infra as \<longleftrightarrow> distinct (map al_drive_id as) \<and> list_all (\<lambda>a. row_fits infra (draft_of a)) as"

definition editor_inv :: "drive_summary list \<Rightarrow> storage_editor \<Rightarrow> bool" where
  "editor_inv infra s \<longleftrightarrow>
     distinct (map dr_driveId (se_draft s)) \<and> list_all (row_fits infra) (se_draft s)
     \<and> (se_addServerId s = [] \<or> se_addServerId s \<notin> dr_serverId ` set (se_draft s))
     \<and> allocations_ok infra (se_allocations s)"

definition event_ok :: "drive_summary list \<Rightarrow> storage_event \<Rightarrow> bool" where
  "event_ok infra e \<longleftrightarrow> (case e of SaveAnswer (Saved as) \<Rightarrow> allocations_ok infra as | _ \<Rightarrow> True)"

lemma find_in: "find P xs = Some x \<Longrightarrow> x \<in> set xs \<and> P x"
  by (induction xs) (auto split: if_splits)

lemma new_row_fits:
  assumes "distinct (map ds_drive_id infra)" and "dv \<in> set infra"
  shows "row_fits infra (new_row dv name t)"
  using assms inj_onD [OF distinct_map [THEN iffD1, THEN conjunct2, OF assms(1)]]
  by (auto simp: row_fits_def new_row_def list_all_iff)

lemma fitting_row:
  "row_fits infra d \<Longrightarrow> dv \<in> set infra \<Longrightarrow> ds_drive_id dv = dr_driveId d \<Longrightarrow>
     ds_server_id dv = dr_serverId d \<and> ds_drive_type dv = dr_driveType d"
  by (simp add: row_fits_def list_all_iff)

lemma other_tier_differs: "other_tier t \<noteq> t"
  by (cases t) (simp_all add: other_tier_def)

lemma addOtherTier_inv:
  assumes "editor_inv infra s" and "distinct (map ds_drive_id infra)" and "missing_tier server s = Some t"
  shows "editor_inv infra (addOtherTier infra server name t s)"
proof (cases "tier_drive infra server t")
  case None
  with assms(1) show ?thesis by (simp add: addOtherTier_def)
next
  case (Some dv)
  then have dv: "dv \<in> set infra" "ds_server_id dv = server" "ds_drive_type dv = t"
    by (auto simp: tier_drive_def dest: find_in)
  from assms(3) obtain d where d: "filter (\<lambda>d. dr_serverId d = server) (se_draft s) = [d]" "t = other_tier (dr_driveType d)"
    by (auto simp: missing_tier_def split: list.splits)
  have "ds_drive_id dv \<noteq> dr_driveId e" if e: "e \<in> set (se_draft s)" for e
  proof
    assume same: "ds_drive_id dv = dr_driveId e"
    have "row_fits infra e" using assms(1) e by (simp add: editor_inv_def list_all_iff)
    with fitting_row [OF this dv(1) same] dv have "dr_serverId e = server" "dr_driveType e = t" by simp_all
    with e have "e \<in> set (filter (\<lambda>d. dr_serverId d = server) (se_draft s))" by simp
    with d have "e = d" by simp
    with \<open>dr_driveType e = t\<close> d(2) other_tier_differs show False by metis
  qed
  moreover have "server \<in> dr_serverId ` set (se_draft s)"
  proof -
    have "d \<in> set (filter (\<lambda>d. dr_serverId d = server) (se_draft s))" using d(1) by simp
    then show ?thesis by auto
  qed
  ultimately show ?thesis
    using assms(1) dv new_row_fits [OF assms(2) dv(1)] by (auto simp: addOtherTier_def Some editor_inv_def new_row_def)
qed

lemma confirmAdd_inv:
  assumes "editor_inv infra s" and "distinct (map ds_drive_id infra)" and "se_addServerId s \<noteq> []"
  shows "editor_inv infra (confirmAddServer infra s)"
proof (cases "find (\<lambda>v. ds_server_id v = se_addServerId s \<and> Some (ds_drive_type v) = se_addTier s) infra")
  case None
  with assms(1) show ?thesis by (simp add: confirmAddServer_def)
next
  case (Some dv)
  then have dv: "dv \<in> set infra" "ds_server_id dv = se_addServerId s" by (auto dest: find_in)
  have "ds_drive_id dv \<noteq> dr_driveId e" if e: "e \<in> set (se_draft s)" for e
  proof
    assume same: "ds_drive_id dv = dr_driveId e"
    have "row_fits infra e" using assms(1) e by (simp add: editor_inv_def list_all_iff)
    with fitting_row [OF this dv(1) same] dv have "dr_serverId e = se_addServerId s" by simp
    with e have "se_addServerId s \<in> dr_serverId ` set (se_draft s)" by force
    with assms(1,3) show False by (simp add: editor_inv_def)
  qed
  then show ?thesis
    using assms(1) new_row_fits [OF assms(2) dv(1)] by (auto simp: confirmAddServer_def Some editor_inv_def new_row_def)
qed

lemma distinct_filtered: "distinct (map f xs) \<Longrightarrow> distinct (map f (filter P xs))"
  by (induction xs) auto

lemma storage_step_inv:
  assumes "editor_inv infra s" and "distinct (map ds_drive_id infra)" and "event_ok infra e"
  shows "editor_inv infra (storage_step infra e s)"
proof (cases e)
  case StartEdit
  then show ?thesis
    using assms(1) by (auto simp: startEdit_def editor_inv_def allocations_ok_def draft_of_def comp_def list_all_iff row_fits_def)
next
  case (RemoveRow i)
  then show ?thesis using assms(1) by (auto simp: removeRow_def editor_inv_def distinct_filtered list_all_iff)
next
  case (UpdateRow i t)
  have "map dr_driveId (map (\<lambda>d. if dr_driveId d = i then d\<lparr>dr_gbText := t\<rparr> else d) xs) = map dr_driveId xs"
    "dr_serverId ` set (map (\<lambda>d. if dr_driveId d = i then d\<lparr>dr_gbText := t\<rparr> else d) xs) = dr_serverId ` set xs"
    "list_all (row_fits infra) (map (\<lambda>d. if dr_driveId d = i then d\<lparr>dr_gbText := t\<rparr> else d) xs) = list_all (row_fits infra) xs" for xs
    by (induction xs) (auto simp: row_fits_def)
  then show ?thesis using assms(1) UpdateRow unfolding editor_inv_def by (simp add: updateRowGb_def del: map_map)
next
  case (AddOtherTier server)
  with addOtherTier_inv [OF assms(1,2)] assms(1) show ?thesis by (simp split: option.splits)
next
  case (PickServer i)
  have "i \<notin> dr_serverId ` set (se_draft s)" if "i \<in> set (eligibleServers infra s)" using that by (auto simp: eligibleServers_def)
  with assms(1) PickServer show ?thesis by (auto simp: editor_inv_def)
next
  case ConfirmAdd
  with confirmAdd_inv [OF assms(1,2)] assms(1) show ?thesis by (simp add: add_enabled_def)
next
  case (SaveAnswer a)
  then show ?thesis using assms(1,3)
    by (cases a) (auto simp: save_answered_def editor_inv_def event_ok_def)
qed (use assms(1) in \<open>auto simp: editor_inv_def cancelEdit_def\<close>)

lemma storage_run_inv:
  assumes "editor_inv infra s" and "distinct (map ds_drive_id infra)" and "list_all (event_ok infra) es"
  shows "editor_inv infra (storage_run infra es s)"
  using assms(1,3)
proof (induction es arbitrary: s)
  case (Cons e es)
  then show ?case using storage_step_inv [OF Cons.prems(1) assms(2)] by (simp add: storage_run_def)
qed (simp add: storage_run_def)

text \<open>C25. Whatever was edited before, a save sends at least one allocation, no drive twice, and for no drive less than
  what is used on it.\<close>

theorem save_sends_valid_allocations:
  assumes "distinct (map ds_drive_id infra)" and "allocations_ok infra as" and "list_all (event_ok infra) es"
    and "s = storage_run infra es (open_storage as)" and "se_saving s = None"
    and "se_saving (storage_step infra SaveClicked s) = Some r"
  shows "ar_allocations r \<noteq> [] \<and> distinct (map fst (ar_allocations r))
    \<and> list_all2 (\<lambda>a d. fst a = dr_driveId d \<and> int (dr_usedBytes d) \<le> snd a) (ar_allocations r) (se_draft s)"
proof -
  have "editor_inv infra (open_storage as)" using assms(2) by (simp add: editor_inv_def open_storage_def)
  with storage_run_inv assms(1,3,4) have inv: "editor_inv infra s" by simp
  from assms(5,6) have ok: "\<not> draftHasError s" and r: "r = save_request s" by (auto split: if_splits)
  have used: "\<exists>b. text_bytes (dr_gbText d) = Some b \<and> int (dr_usedBytes d) \<le> b" if "d \<in> set (se_draft s)" for d
  proof -
    have "localRowError d = None"
      using ok that by (fastforce simp: draftHasError_def row_error_def list_ex_iff split: option.splits)
    then show ?thesis by (auto simp: localRowError_def text_bytes_def split: if_splits jsnum.splits)
  qed
  have "list_all2 (\<lambda>a d. fst a = dr_driveId d \<and> int (dr_usedBytes d) \<le> snd a) (ar_allocations r) (se_draft s)"
    unfolding r save_request_def allocation_request.simps list_all2_map1
    by (rule list.rel_refl_strong) (use used in \<open>fastforce split: option.splits\<close>)
  with inv ok show ?thesis by (auto simp: r save_request_def draftHasError_def editor_inv_def comp_def)
qed

definition gb_allocation :: "nat \<Rightarrow> nat \<Rightarrow> user_allocation" where
  "gb_allocation quota used = \<lparr>al_server_id = ''s'', al_server_name = ''S'', al_drive_id = ''d'', al_drive_type = NvmeDrive,
     al_quota_bytes = quota, al_used_bytes = used, al_is_primary = True\<rparr>"

lemma rounded_hundredths: "\<lfloor>of_nat k / 100 * 10 ^ 2 + 1 / 2 :: rat\<rfloor> = int k"
  by (rule floor_unique) simp_all

lemma draft_text_exact:
  assumes "100 * al_quota_bytes a = k * GIB"
  shows "dr_gbText (draft_of a) = to_fixed 2 (of_nat k / 100)" "text_bytes (dr_gbText (draft_of a)) = Some (int (al_quota_bytes a))"
proof -
  have g: "(of_nat GIB :: rat) \<noteq> 0" by (simp add: GIB_def)
  have e: "(100 * of_nat (al_quota_bytes a) :: rat) = of_nat k * of_nat GIB"
    using arg_cong [OF assms, of "of_nat :: nat \<Rightarrow> rat"] by simp
  then have q: "of_nat (al_quota_bytes a) / of_nat GIB = (of_nat k / 100 :: rat)" using g by (simp add: field_simps)
  then show t: "dr_gbText (draft_of a) = to_fixed 2 (of_nat k / 100)" by (simp only: draft_of_def draft_allocation.simps q)
  have "(of_nat k / 100 * of_nat GIB :: rat) = of_int (int (al_quota_bytes a))" using e by simp
  with js_round_of_int [of "int (al_quota_bytes a)"] show "text_bytes (dr_gbText (draft_of a)) = Some (int (al_quota_bytes a))"
    by (simp only: t text_bytes_def js_Number_to_fixed jsnum.case)
qed

text \<open>Opening the editor and saving changes nothing when all quotas are whole hundredths of a GB.\<close>

theorem untouched_editor_saves_same:
  assumes "list_all (\<lambda>a. GIB dvd 100 * al_quota_bytes a) (se_allocations s)"
  shows "ar_allocations (save_request (startEdit s)) = map (\<lambda>a. (al_drive_id a, int (al_quota_bytes a))) (se_allocations s)
    \<and> ar_reason (save_request (startEdit s)) = None"
proof -
  have "text_bytes (dr_gbText (draft_of a)) = Some (int (al_quota_bytes a))" if "a \<in> set (se_allocations s)" for a
  proof -
    from assms that have "GIB dvd 100 * al_quota_bytes a" by (simp add: list_all_iff)
    then obtain k where "100 * al_quota_bytes a = k * GIB" by (metis dvdE mult.commute)
    then show ?thesis by (rule draft_text_exact)
  qed
  then show ?thesis by (simp add: save_request_def startEdit_def trim_def comp_def) (simp add: draft_of_def)
qed

theorem untouched_editor_saves_same_witness:
  "ar_allocations (save_request (startEdit (open_storage [gb_allocation (5 * GIB) 7]))) = [(''d'', 5368709120)]"
  using untouched_editor_saves_same [of "open_storage [gb_allocation (5 * GIB) 7]"]
  by (simp add: open_storage_def gb_allocation_def GIB_def)

text \<open>A quota that is none moves when the editor is opened and saved: 1 GB and one byte become 1 GB. And with all of
  it used its row is an error from the start, which blocks the other rows too.\<close>

theorem untouched_editor_moves_quota:
  "map snd (ar_allocations (save_request (startEdit (open_storage [gb_allocation (GIB + 1) 0])))) = [int GIB]
   \<and> draftHasError (startEdit (open_storage [gb_allocation (GIB + 1) (GIB + 1)]))"
proof -
  have "\<lfloor>of_nat (GIB + 1) / of_nat GIB * 10 ^ 2 + 1 / 2 :: rat\<rfloor> = int 100" by (rule floor_unique) (simp_all add: GIB_def)
  then have "to_fixed 2 (of_nat (GIB + 1) / of_nat GIB) = to_fixed 2 (of_nat 100 / 100)"
    using rounded_hundredths [of 100] by (simp only: to_fixed_def Let_def)
  then have n: "js_Number (to_fixed 2 (of_nat (GIB + 1) / of_nat GIB)) = Fin 1"
    using js_Number_to_fixed [of 100] by simp
  have r: "js_round (of_nat GIB) = int GIB" using js_round_of_int [of "int GIB"] by simp
  have "map snd (ar_allocations (save_request (startEdit (open_storage [gb_allocation (GIB + 1) 0])))) = [int GIB]"
    using n r by (simp add: save_request_def startEdit_def open_storage_def gb_allocation_def draft_of_def text_bytes_def)
  moreover have "localRowError (draft_of (gb_allocation (GIB + 1) (GIB + 1))) \<noteq> None"
    using n r by (simp add: localRowError_def draft_of_def gb_allocation_def)
  ultimately show ?thesis
    by (auto simp: draftHasError_def startEdit_def open_storage_def row_error_def)
qed


definition two_allocations :: "user_allocation list" where
  "two_allocations = [gb_allocation GIB 7, (gb_allocation GIB 0)\<lparr>al_drive_id := ''e'', al_server_id := ''t''\<rparr>]"

theorem save_sends_valid_allocations_witness:
  "distinct (map fst (ar_allocations (save_request (storage_run [] [StartEdit] (open_storage two_allocations)))))"
proof -
  have t: "to_fixed 2 (of_nat GIB / of_nat GIB) = to_fixed 2 (of_nat 100 / 100)" by (simp add: GIB_def)
  have n: "js_Number (to_fixed 2 (of_nat GIB / of_nat GIB)) = Fin 1"
    using js_Number_to_fixed [of 100] by (simp only: t) simp
  have b: "trim (to_fixed 2 (of_nat GIB / of_nat GIB)) \<noteq> []"
  proof
    assume "trim (to_fixed 2 (of_nat GIB / of_nat GIB)) = []"
    then have "js_Number (to_fixed 2 (of_nat GIB / of_nat GIB)) = Fin 0" by (simp add: js_Number_def)
    with n show False by simp
  qed
  have r: "js_round (of_nat GIB) = int GIB" using js_round_of_int [of "int GIB"] by simp
  have ok: "\<not> draftHasError (storage_run [] [StartEdit] (open_storage two_allocations))"
    using n b r by (simp add: storage_run_def open_storage_def startEdit_def draftHasError_def row_error_def localRowError_def
        draft_of_def two_allocations_def gb_allocation_def GIB_def)
  have e: "se_editing (storage_run [] [StartEdit] (open_storage two_allocations))"
    "se_saving (storage_run [] [StartEdit] (open_storage two_allocations)) = None"
    by (simp_all add: storage_run_def open_storage_def startEdit_def)
  have "allocations_ok [] two_allocations"
    by (simp add: allocations_ok_def two_allocations_def gb_allocation_def row_fits_def)
  from save_sends_valid_allocations [OF _ this _ refl e(2), of "save_request (storage_run [] [StartEdit] (open_storage two_allocations))"]
  show ?thesis using ok e by (simp add: event_ok_def)
qed

text \<open>A removal that the backend refuses is answered by nothing: the violation belongs to a row that is gone, and
  no message is shown.\<close>

definition refused_removal :: storage_editor where
  "refused_removal = save_answered (Violated [\<lparr>vi_drive_id = ''e'', vi_code = RemovalBlocked, vi_used_bytes = Some 5, vi_max_bytes = None,
     vi_drive_label = []\<rparr>]) ((storage_run [] [StartEdit, RemoveRow ''e''] (open_storage two_allocations))
       \<lparr>se_saving := Some \<lparr>ar_allocations = [(''d'', int GIB)], ar_reason = None\<rparr>\<rparr>)"

theorem refused_removal_is_silent:
  "map dr_driveId (se_draft refused_removal) = [''d''] \<and> se_rowErrors refused_removal ''e'' \<noteq> None
   \<and> se_rowErrors refused_removal ''d'' = None \<and> se_toasts refused_removal = [] \<and> se_editing refused_removal"
  by (simp add: refused_removal_def save_answered_def storage_run_def open_storage_def startEdit_def removeRow_def draft_of_def
      two_allocations_def gb_allocation_def)

text \<open>The control for another server offers a tier that has an active drive there, but takes the first drive of it,
  active or not.\<close>

definition tier_drives :: "drive_summary list" where
  "tier_drives = map (\<lambda>(i, active). \<lparr>ds_drive_id = i, ds_server_id = ''t'', ds_server_name = ''T'', ds_node_id = None, ds_drive_label = i,
     ds_drive_type = NvmeDrive, ds_capacity_bytes = 0, ds_allocated_quota_bytes = 0, ds_used_bytes = 0,
     ds_drive_is_active = active, ds_server_is_active = True\<rparr>) [(''old'', False), (''new'', True)]"

theorem inactive_drive_allocated:
  "map dr_driveId (se_draft (storage_run tier_drives [StartEdit, PickServer ''t'', TypeGb ''2'', ConfirmAdd] (open_storage [])))
     = [''old'']
   \<and> map_option ds_drive_id (tier_drive tier_drives ''t'' NvmeDrive) = Some ''new''"
proof -
  have "js_Number ''2'' = Fin 2"
    using js_Number_show_nat [of 2] by (simp add: show_nat.simps char_of_def bit_0)
  then show ?thesis
    by (simp add: storage_run_def open_storage_def startEdit_def eligibleServers_def eligibleTiers_def tier_drives_def add_enabled_def
        confirmAddServer_def new_row_def tier_drive_def)
qed

section \<open>What is shown\<close>

lemma js_set_facts: "distinct (js_set xs)" "set (js_set xs) = set xs"
  by (simp_all add: js_set_def)

text \<open>The breakdown has one line for each drive that was or is allocated, and says added and removed for those that
  are only in one of the lists.\<close>

theorem breakdown_lists_each_drive:
  "map br_id (AllocationChangeBreakdown before after) = js_set (map qs_drive_id before @ map qs_drive_id after)
   \<and> list_all (\<lambda>r. (br_before r = ''added'' \<longleftrightarrow> br_id r \<notin> qs_drive_id ` set before)
        \<and> (br_after r = ''removed'' \<longleftrightarrow> br_id r \<notin> qs_drive_id ` set after)) (AllocationChangeBreakdown before after)"
proof -
  have none: "find (\<lambda>a. qs_drive_id a = i) xs = None \<longleftrightarrow> i \<notin> qs_drive_id ` set xs" for i xs
    by (auto simp: find_None_iff)
  have gb: "fmtGB n \<noteq> ''added''" "fmtGB n \<noteq> ''removed''" for n
  proof -
    have "last (fmtGB n) = CHR ''B''" by (simp add: fmtGB_def)
    then show "fmtGB n \<noteq> ''added''" "fmtGB n \<noteq> ''removed''" by auto
  qed
  define good where "good = (\<lambda>r :: breakdown_row. (br_before r = ''added'' \<longleftrightarrow> br_id r \<notin> qs_drive_id ` set before)
      \<and> (br_after r = ''removed'' \<longleftrightarrow> br_id r \<notin> qs_drive_id ` set after))"
  have one: "\<exists>r. breakdown_row_of before after i = Some r \<and> br_id r = i \<and> good r"
    if "i \<in> set (map qs_drive_id before @ map qs_drive_id after)" for i
    using that none [of i before] none [of i after] gb
    by (cases "find (\<lambda>a. qs_drive_id a = i) before"; cases "find (\<lambda>a. qs_drive_id a = i) after")
      (simp_all add: Let_def breakdown_row_of_def good_def)
  have all: "map br_id (List.map_filter (breakdown_row_of before after) is) = is
      \<and> list_all good (List.map_filter (breakdown_row_of before after) is)"
    if "\<forall>i \<in> set is. \<exists>r. breakdown_row_of before after i = Some r \<and> br_id r = i \<and> good r" for "is"
    using that by (induction "is") (auto simp: List.map_filter_def)
  have "\<forall>i \<in> set (js_set (map qs_drive_id before @ map qs_drive_id after)).
      \<exists>r. breakdown_row_of before after i = Some r \<and> br_id r = i \<and> good r"
    using one by (simp only: js_set_facts) blast
  from all [OF this] show ?thesis unfolding AllocationChangeBreakdown_def good_def .
qed

text \<open>The view loses no allocation: the servers list each of them once, under its own server.\<close>

theorem servers_list_each_allocation:
  "mset (concat (map sv_nodes (allocation_servers as))) = mset as \<and> distinct (map sv_id (allocation_servers as))
   \<and> list_all (\<lambda>g. sv_nodes g \<noteq> [] \<and> list_all (\<lambda>a. al_server_id a = sv_id g) (sv_nodes g)
        \<and> (sv_isPrimary g \<longleftrightarrow> list_ex al_is_primary (sv_nodes g))) (allocation_servers as)"
proof -
  let ?P = "\<lambda>g. sv_nodes g \<noteq> [] \<and> list_all (\<lambda>a. al_server_id a = sv_id g) (sv_nodes g)
        \<and> (sv_isPrimary g \<longleftrightarrow> list_ex al_is_primary (sv_nodes g))"
  have step: "mset (concat (map sv_nodes (group_allocation a gs))) = mset (concat (map sv_nodes gs)) + {#a#}
      \<and> distinct (map sv_id (group_allocation a gs)) \<and> list_all ?P (group_allocation a gs)"
    if "distinct (map sv_id gs)" "list_all ?P gs" for a gs
  proof (cases "list_ex (\<lambda>g. sv_id g = al_server_id a) gs")
    case True
    let ?u = "\<lambda>g. g\<lparr>sv_nodes := sv_nodes g @ [a], sv_isPrimary := (sv_isPrimary g \<or> al_is_primary a)\<rparr>"
    have e: "group_allocation a gs = map (\<lambda>g. if sv_id g = al_server_id a then ?u g else g) gs"
      using True by (simp add: group_allocation_def)
    have "mset (concat (map (\<lambda>g. sv_nodes (if sv_id g = al_server_id a then ?u g else g)) gs))
        = mset (concat (map sv_nodes gs)) + mset [a]"
      by (rule concat_update_one [OF that(1) True]) simp
    then have m: "mset (concat (map sv_nodes (group_allocation a gs))) = mset (concat (map sv_nodes gs)) + {#a#}"
      by (simp add: e comp_def)
    have ids: "map sv_id (group_allocation a gs) = map sv_id gs" by (simp add: e)
    have "list_all ?P (group_allocation a gs)" using that(2) by (auto simp: e list_all_iff)
    with m that(1) show ?thesis by (simp only: ids)
  next
    case False
    then show ?thesis using that by (auto simp: group_allocation_def list_ex_iff)
  qed
  have "mset (concat (map sv_nodes (fold group_allocation as gs))) = mset (concat (map sv_nodes gs)) + mset as
      \<and> distinct (map sv_id (fold group_allocation as gs)) \<and> list_all ?P (fold group_allocation as gs)"
    if "distinct (map sv_id gs)" "list_all ?P gs" for gs
    using that
  proof (induction as arbitrary: gs)
    case (Cons a as)
    with step [OF Cons.prems, of a] Cons.IH [of "group_allocation a gs"] show ?case by simp
  qed simp
  from this [of "[]"] show ?thesis by (simp add: allocation_servers_def)
qed

end
