(* ===== verification/AdminUsers.thy ===== *)
theory AdminUsers
  imports AdminStorage
begin

text \<open>
  The administrator's list of users, \<open>frontend/src/routes/_auth.admin/users.tsx\<close>: filters, sorting and
  pages, renaming in place, and the windows that suspend, ban, pardon, change the role of or delete a
  user (\<open>components/BanSuspendModal.tsx\<close>, \<open>RoleAssignModal.tsx\<close>, \<open>DeleteUserModal.tsx\<close>). The requests sent
  are kept in a log; their answers are events, so that they may come late.
\<close>

section \<open>Accounts and their badges\<close>

datatype account_group = AdminGroup | PremiumGroup | UserGroup

record listed_user =
  lu_username :: string
  lu_is_admin :: bool
  lu_is_premium :: bool
  lu_premium_subscribed :: bool
  lu_last_seen :: "int option"
  lu_banned :: bool      \<comment> \<open>an active ban or suspension\<close>

definition accountRole :: "listed_user \<Rightarrow> account_group" where
  "accountRole u = (if lu_is_admin u then AdminGroup else if lu_is_premium u then PremiumGroup else UserGroup)"

definition AccountBadges :: "listed_user \<Rightarrow> account_group list" where
  "AccountBadges u =
     (let showAdmin = lu_is_admin u; showPremium = (lu_is_premium u \<and> (\<not> lu_is_admin u \<or> lu_premium_subscribed u))
      in if \<not> showAdmin \<and> \<not> showPremium then [UserGroup]
         else (if showAdmin then [AdminGroup] else []) @ (if showPremium then [PremiumGroup] else []))"

definition isActive :: "int \<Rightarrow> listed_user \<Rightarrow> bool" where
  "isActive now u = (case lu_last_seen u of None \<Rightarrow> False | Some t \<Rightarrow> now - t < 5 * 60 * 1000)"

section \<open>The three windows\<close>

datatype ban_mode = BanMode | SuspendMode

record ban_form =
  bf_code :: string
  bf_comments :: string
  bf_hours :: jsnum
  bf_error :: string

definition open_ban_form :: ban_form where
  "open_ban_form = \<lparr>bf_code = [], bf_comments = [], bf_hours = Fin 24, bf_error = []\<rparr>"

text \<open>What \<open>handleSubmit\<close> hands on: the code, the comments and, for a suspension, the hours.\<close>

definition submit_ban :: "ban_mode \<Rightarrow> ban_form \<Rightarrow> (string \<times> string \<times> int option) option \<times> ban_form" where
  "submit_ban mode f =
     (if bf_code f = [] then (None, f)
      else if mode = SuspendMode then
        (case bf_hours f of
           Fin h \<Rightarrow> if h = of_int \<lfloor>h\<rfloor> \<and> 1 \<le> h then (Some (bf_code f, bf_comments f, Some \<lfloor>h\<rfloor>), f)
                    else (None, f\<lparr>bf_error := ''Duration must be a positive whole number of hours''\<rparr>)
         | _ \<Rightarrow> (None, f\<lparr>bf_error := ''Duration must be a positive whole number of hours''\<rparr>))
      else (Some (bf_code f, bf_comments f, None), f))"

record role_form =
  rf_role :: account_group
  rf_reason :: string
  rf_premiumExpiresAt :: string
  rf_block :: bool

record role_confirm =
  rc_role :: account_group
  rc_reason :: string
  rc_premiumExpiresAt :: "string option"
  rc_block :: "bool option"

definition losingPremium :: "account_group \<Rightarrow> role_form \<Rightarrow> bool" where
  "losingPremium current f \<longleftrightarrow> current = PremiumGroup \<and> rf_role f \<noteq> PremiumGroup"

definition role_canSubmit :: "account_group \<Rightarrow> role_form \<Rightarrow> bool" where
  "role_canSubmit current f \<longleftrightarrow> trim (rf_reason f) \<noteq> [] \<and> \<not> (rf_role f = current \<and> rf_role f \<noteq> PremiumGroup)"

text \<open>The ISO text of a date is that of the date chosen.\<close>

definition submit_role :: "(string \<Rightarrow> string) \<Rightarrow> account_group \<Rightarrow> role_form \<Rightarrow> role_confirm option" where
  "submit_role to_iso current f =
     (if role_canSubmit current f
      then Some \<lparr>rc_role = rf_role f, rc_reason = trim (rf_reason f),
             rc_premiumExpiresAt = (if rf_role f = PremiumGroup \<and> rf_premiumExpiresAt f \<noteq> [] then Some (to_iso (rf_premiumExpiresAt f)) else None),
             rc_block = (if losingPremium current f \<and> rf_role f = UserGroup then Some (rf_block f) else None)\<rparr>
      else None)"

record delete_form =
  df_reason :: string
  df_acknowledged :: bool

definition submit_delete :: "delete_form \<Rightarrow> string option" where
  "submit_delete f = (if trim (df_reason f) \<noteq> [] \<and> df_acknowledged f then Some (trim (df_reason f)) else None)"

section \<open>The audit log of a user\<close>

record audit_entry =
  ae_id :: string
  ae_action :: string
  ae_actor :: string
  ae_target :: string
  ae_has_details :: bool

definition ACTION_LABELS :: "(string \<times> string) list" where
  "ACTION_LABELS =
     [(''impersonation_access'', ''Account accessed by admin''), (''file_uploaded'', ''File uploaded''),
      (''file_upload_started'', ''File upload started''), (''folder_created'', ''Folder created''),
      (''file_favorited'', ''File favorited''), (''folder_favorited'', ''Folder favorited''),
      (''file_unfavorited'', ''File unfavorited''), (''folder_unfavorited'', ''Folder unfavorited''),
      (''file_deleted'', ''File deleted''), (''file_renamed'', ''File renamed''), (''folder_renamed'', ''Folder renamed''),
      (''storage_allocations_updated'', ''Storage allocations updated'')]"

record audit_row =
  aw_id :: string
  aw_label :: string
  aw_by :: "string option"
  aw_open :: "bool option"       \<comment> \<open>the breakdown: absent, hidden or shown\<close>

definition audit_row_of :: "string list \<Rightarrow> audit_entry \<Rightarrow> audit_row" where
  "audit_row_of expanded e =
     \<lparr>aw_id = ae_id e, aw_label = (case map_of ACTION_LABELS (ae_action e) of Some l \<Rightarrow> l | None \<Rightarrow> ae_action e),
      aw_by = (if ae_actor e \<noteq> ae_target e then Some (ae_actor e) else None),
      aw_open = (if ae_has_details e then Some (ae_id e \<in> set expanded) else None)\<rparr>"

definition toggleBreakdown :: "string \<Rightarrow> string list \<Rightarrow> string list" where
  "toggleBreakdown i expanded = (if i \<in> set expanded then removeAll i expanded else expanded @ [i])"

definition audit_rows :: "string list \<Rightarrow> audit_entry list list \<Rightarrow> audit_row list" where
  "audit_rows expanded pages = map (audit_row_of expanded) (concat pages)"

section \<open>The list\<close>

datatype user_sort = ByUsername | ByEmail | ByRole | ByCreated | ByLastSeen
datatype sort_direction = Ascending | Descending

definition SORT_DEFAULT_DIR :: "user_sort \<Rightarrow> sort_direction" where
  "SORT_DEFAULT_DIR k = (case k of ByUsername \<Rightarrow> Ascending | ByEmail \<Rightarrow> Ascending | _ \<Rightarrow> Descending)"

datatype admin_request =
    RenameUser string string
  | BanUser string string string
  | SuspendUser string string string int
  | PardonUser string
  | ChangeRole string role_confirm
  | DeleteUser string string

record users_page =
  us_me :: "string option"            \<comment> \<open>who is signed in, as far as the page knows\<close>
  us_meReloads :: nat
  us_users :: "listed_user list"
  us_pageCount :: nat
  us_draft :: string                  \<comment> \<open>the search field\<close>
  us_search :: string
  us_role :: "account_group option"
  us_serverId :: string
  us_tiers :: "drive_type list"       \<comment> \<open>the set in insertion order\<close>
  us_sort :: user_sort
  us_dir :: sort_direction
  us_page :: nat
  us_expanded :: "string option"
  us_editing :: "string option"
  us_editValue :: string
  us_editError :: "string option"
  us_banModal :: "(string \<times> ban_mode) option"
  us_banForm :: ban_form
  us_roleModal :: "listed_user option"
  us_deleteModal :: "listed_user option"
  us_log :: "admin_request list"
  us_toasts :: "(bool \<times> string) list"

definition open_users :: "string option \<Rightarrow> string option \<Rightarrow> users_page" where
  "open_users me focus =
     \<lparr>us_me = me, us_meReloads = 0, us_users = [], us_pageCount = 1, us_draft = or_else focus [], us_search = or_else focus [],
      us_role = None, us_serverId = [], us_tiers = [], us_sort = ByCreated, us_dir = Descending, us_page = 1,
      us_expanded = focus, us_editing = None, us_editValue = [], us_editError = None, us_banModal = None,
      us_banForm = open_ban_form, us_roleModal = None, us_deleteModal = None, us_log = [], us_toasts = []\<rparr>"

definition handleSort :: "user_sort \<Rightarrow> users_page \<Rightarrow> users_page" where
  "handleSort k s =
     (if k = us_sort s then s\<lparr>us_dir := (if us_dir s = Ascending then Descending else Ascending), us_page := 1\<rparr>
      else s\<lparr>us_sort := k, us_dir := SORT_DEFAULT_DIR k, us_page := 1\<rparr>)"

definition toggleTier :: "drive_type \<Rightarrow> users_page \<Rightarrow> users_page" where
  "toggleTier t s = s\<lparr>us_tiers := (if t \<in> set (us_tiers s) then removeAll t (us_tiers s) else us_tiers s @ [t]), us_page := 1\<rparr>"

record users_query =
  uq_search :: string
  uq_role :: "account_group option"
  uq_server_id :: "string option"
  uq_tiers :: "drive_type list option"
  uq_sort :: user_sort
  uq_dir :: sort_direction
  uq_page :: nat
  uq_page_size :: nat

definition users_query_of :: "users_page \<Rightarrow> users_query" where
  "users_query_of s =
     \<lparr>uq_search = us_search s, uq_role = us_role s, uq_server_id = (if us_serverId s = [] then None else Some (us_serverId s)),
      uq_tiers = (if us_tiers s = [] then None else Some (us_tiers s)), uq_sort = us_sort s, uq_dir = us_dir s,
      uq_page = us_page s, uq_page_size = 25\<rparr>"

definition page_count :: "nat \<Rightarrow> nat" where
  "page_count n = (n + 24) div 25"

definition show_group :: "account_group \<Rightarrow> string" where
  "show_group g = (case g of AdminGroup \<Rightarrow> ''admin'' | PremiumGroup \<Rightarrow> ''premium'' | UserGroup \<Rightarrow> ''user'')"

definition show_user_sort :: "user_sort \<Rightarrow> string" where
  "show_user_sort k = (case k of ByUsername \<Rightarrow> ''username'' | ByEmail \<Rightarrow> ''email'' | ByRole \<Rightarrow> ''role''
     | ByCreated \<Rightarrow> ''created_at'' | ByLastSeen \<Rightarrow> ''last_seen_at'')"

text \<open>The parameters \<open>searchAdminUsers\<close> sets, in their order.\<close>

definition searchAdminUsers :: "users_query \<Rightarrow> (string \<times> string) list" where
  "searchAdminUsers q =
     (if uq_search q \<noteq> [] then [(''search'', uq_search q)] else [])
     @ (case uq_role q of None \<Rightarrow> [] | Some r \<Rightarrow> [(''role'', show_group r)])
     @ [(''sort'', show_user_sort (uq_sort q)), (''dir'', if uq_dir q = Ascending then ''asc'' else ''desc'')]
     @ (case uq_server_id q of None \<Rightarrow> [] | Some i \<Rightarrow> if i = [] then [] else [(''server_id'', i)])
     @ map (\<lambda>t. (''tier'', if t = NvmeDrive then ''nvme'' else ''hdd'')) (or_else (uq_tiers q) [])
     @ (if uq_page q = 0 then [] else [(''page'', show_nat (uq_page q))])
     @ (if uq_page_size q = 0 then [] else [(''page_size'', show_nat (uq_page_size q))])"

section \<open>Renaming\<close>

definition start_rename :: "string \<Rightarrow> users_page \<Rightarrow> users_page" where
  "start_rename u s = s\<lparr>us_editing := Some u, us_editValue := u, us_editError := None\<rparr>"

definition cancel_rename :: "users_page \<Rightarrow> users_page" where
  "cancel_rename s = s\<lparr>us_editing := None, us_editValue := [], us_editError := None\<rparr>"

definition confirmEdit :: "string \<Rightarrow> users_page \<Rightarrow> users_page" where
  "confirmEdit u s =
     (let v = trim (us_editValue s)
      in if length v < 3 then s else if v = u then cancel_rename s else s\<lparr>us_log := us_log s @ [RenameUser u v]\<rparr>)"

section \<open>Events\<close>

datatype users_event =
    UsersLoading
  | UsersArrive "listed_user list" nat
  | SearchTyped string
  | SearchEnter
  | SearchBlur
  | RoleChosen "account_group option"
  | ServerChosen string
  | TierToggled drive_type
  | SortClicked user_sort
  | PrevPage
  | NextPage
  | ExpandUser string
  | RenameStart string
  | RenameTyped string
  | RenameEnter
  | RenameClick bool                 \<comment> \<open>whether an earlier rename is pending\<close>
  | RenameCancel
  | RenameAnswer string "string + unit"
  | MeArrives "string option"
  | OpenBan string ban_mode
  | BanFormChanged ban_form
  | BanSubmit bool                   \<comment> \<open>whether a request is pending\<close>
  | CloseBan
  | BanAnswer ban_mode bool
  | PardonConfirmed string bool      \<comment> \<open>whether its pardon is pending\<close>
  | PardonAnswer bool
  | OpenRole listed_user
  | RoleSubmit role_form bool
  | CloseRole
  | RoleAnswer "string + unit"
  | OpenDelete listed_user
  | DeleteSubmit delete_form bool
  | CloseDelete
  | DeleteAnswer "string + unit"

definition search_done :: "users_page \<Rightarrow> users_page" where
  "search_done s = s\<lparr>us_search := trim (us_draft s), us_page := 1\<rparr>"

definition shown_user :: "string \<Rightarrow> users_page \<Rightarrow> bool" where
  "shown_user u s \<longleftrightarrow> list_ex (\<lambda>x. lu_username x = u) (us_users s)"

text \<open>The row that shows its name as a field, when its user is in the list.\<close>

definition edited_row :: "users_page \<Rightarrow> string option" where
  "edited_row s = (case us_editing s of None \<Rightarrow> None | Some u \<Rightarrow> if shown_user u s then Some u else None)"

definition handleBanConfirm :: "string \<times> string \<times> int option \<Rightarrow> users_page \<Rightarrow> users_page" where
  "handleBanConfirm c s =
     (case (us_banModal s, c) of
        (Some (u, BanMode), code, comments, hours) \<Rightarrow> s\<lparr>us_log := us_log s @ [BanUser u code comments]\<rparr>
      | (Some (u, SuspendMode), code, comments, hours) \<Rightarrow> s\<lparr>us_log := us_log s @ [SuspendUser u code comments (the hours)]\<rparr>
      | (None, _) \<Rightarrow> s)"

fun users_step :: "(string \<Rightarrow> string) \<Rightarrow> users_event \<Rightarrow> users_page \<Rightarrow> users_page" where
  "users_step to_iso UsersLoading s = s\<lparr>us_users := [], us_pageCount := 1\<rparr>"
| "users_step to_iso (UsersArrive us n) s = s\<lparr>us_users := us, us_pageCount := page_count n\<rparr>"
| "users_step to_iso (SearchTyped t) s = s\<lparr>us_draft := t\<rparr>"
| "users_step to_iso SearchEnter s = search_done s"
| "users_step to_iso SearchBlur s = search_done s"
| "users_step to_iso (RoleChosen r) s = s\<lparr>us_role := r, us_page := 1\<rparr>"
| "users_step to_iso (ServerChosen i) s = s\<lparr>us_serverId := i, us_page := 1\<rparr>"
| "users_step to_iso (TierToggled t) s = toggleTier t s"
| "users_step to_iso (SortClicked k) s = handleSort k s"
| "users_step to_iso PrevPage s = (if us_page s \<le> 1 then s else s\<lparr>us_page := us_page s - 1\<rparr>)"
| "users_step to_iso NextPage s = (if us_pageCount s \<le> us_page s then s else s\<lparr>us_page := us_page s + 1\<rparr>)"
| "users_step to_iso (ExpandUser u) s = s\<lparr>us_expanded := (if us_expanded s = Some u then None else Some u)\<rparr>"
| "users_step to_iso (RenameStart u) s = (if shown_user u s \<and> us_editing s \<noteq> Some u then start_rename u s else s)"
| "users_step to_iso (RenameTyped t) s = (if edited_row s = None then s else s\<lparr>us_editValue := t, us_editError := None\<rparr>)"
| "users_step to_iso RenameEnter s = (case edited_row s of None \<Rightarrow> s | Some u \<Rightarrow> confirmEdit u s)"
| "users_step to_iso (RenameClick pending) s =
     (case edited_row s of None \<Rightarrow> s
      | Some u \<Rightarrow> if length (trim (us_editValue s)) < 3 \<or> pending then s else confirmEdit u s)"
| "users_step to_iso RenameCancel s = (if edited_row s = None then s else cancel_rename s)"
| "users_step to_iso (RenameAnswer u a) s =
     (case a of
        Inr _ \<Rightarrow> (cancel_rename s)\<lparr>us_meReloads := us_meReloads s + (if Some u = us_me s then 1 else 0)\<rparr>
      | Inl m \<Rightarrow> s\<lparr>us_editError := Some m\<rparr>)"
| "users_step to_iso (MeArrives m) s = s\<lparr>us_me := m\<rparr>"
| "users_step to_iso (OpenBan u m) s =
     (if list_ex (\<lambda>x. lu_username x = u \<and> \<not> lu_banned x) (us_users s) \<and> us_banModal s = None
      then s\<lparr>us_banModal := Some (u, m), us_banForm := open_ban_form\<rparr> else s)"
| "users_step to_iso (BanFormChanged f) s = (if us_banModal s = None then s else s\<lparr>us_banForm := f\<rparr>)"
| "users_step to_iso (BanSubmit pending) s =
     (case us_banModal s of None \<Rightarrow> s
      | Some (u, m) \<Rightarrow> if pending then s
          else (case submit_ban m (us_banForm s) of
                  (None, f) \<Rightarrow> s\<lparr>us_banForm := f\<rparr> | (Some c, f) \<Rightarrow> handleBanConfirm c (s\<lparr>us_banForm := f\<rparr>)))"
| "users_step to_iso CloseBan s = s\<lparr>us_banModal := None\<rparr>"
| "users_step to_iso (BanAnswer m ok) s =
     (if ok then s\<lparr>us_banModal := None,
             us_toasts := us_toasts s @ [(True, if m = BanMode then ''User banned and files deleted'' else ''User suspended'')]\<rparr>
      else s\<lparr>us_toasts := us_toasts s @ [(False, if m = BanMode then ''Failed to ban user'' else ''Failed to suspend user'')]\<rparr>)"
| "users_step to_iso (PardonConfirmed u pending) s =
     (if \<not> pending \<and> list_ex (\<lambda>x. lu_username x = u \<and> lu_banned x) (us_users s) then s\<lparr>us_log := us_log s @ [PardonUser u]\<rparr> else s)"
| "users_step to_iso (PardonAnswer ok) s =
     s\<lparr>us_toasts := us_toasts s @ [if ok then (True, ''User pardoned'') else (False, ''Failed to pardon user'')]\<rparr>"
| "users_step to_iso (OpenRole u) s =
     (if u \<in> set (us_users s) \<and> Some (lu_username u) \<noteq> us_me s then s\<lparr>us_roleModal := Some u\<rparr> else s)"
| "users_step to_iso (RoleSubmit f pending) s =
     (case us_roleModal s of None \<Rightarrow> s
      | Some u \<Rightarrow> if pending then s
          else (case submit_role to_iso (accountRole u) f of None \<Rightarrow> s
                | Some c \<Rightarrow> s\<lparr>us_log := us_log s @ [ChangeRole (lu_username u) c]\<rparr>))"
| "users_step to_iso CloseRole s = s\<lparr>us_roleModal := None\<rparr>"
| "users_step to_iso (RoleAnswer a) s =
     (case a of Inr _ \<Rightarrow> s\<lparr>us_roleModal := None, us_toasts := us_toasts s @ [(True, ''Role updated'')]\<rparr>
      | Inl m \<Rightarrow> s\<lparr>us_toasts := us_toasts s @ [(False, m)]\<rparr>)"
| "users_step to_iso (OpenDelete u) s =
     (if u \<in> set (us_users s) \<and> Some (lu_username u) \<noteq> us_me s then s\<lparr>us_deleteModal := Some u\<rparr> else s)"
| "users_step to_iso (DeleteSubmit f pending) s =
     (case us_deleteModal s of None \<Rightarrow> s
      | Some u \<Rightarrow> if pending then s
          else (case submit_delete f of None \<Rightarrow> s
                | Some r \<Rightarrow> s\<lparr>us_log := us_log s @ [DeleteUser (lu_username u) r]\<rparr>))"
| "users_step to_iso CloseDelete s = s\<lparr>us_deleteModal := None\<rparr>"
| "users_step to_iso (DeleteAnswer a) s =
     (case a of Inr _ \<Rightarrow> s\<lparr>us_deleteModal := None, us_toasts := us_toasts s @ [(True, ''User deleted'')]\<rparr>
      | Inl m \<Rightarrow> s\<lparr>us_toasts := us_toasts s @ [(False, m)]\<rparr>)"

definition users_run :: "(string \<Rightarrow> string) \<Rightarrow> users_event list \<Rightarrow> users_page \<Rightarrow> users_page" where
  "users_run to_iso es s = fold (users_step to_iso) es s"

section \<open>What the list keeps\<close>

lemma role_confirm_valid: "submit_role to_iso g f = Some c \<Longrightarrow> rc_reason c \<noteq> [] \<and> trim (rc_reason c) = rc_reason c
    \<and> (rc_premiumExpiresAt c \<noteq> None \<longrightarrow> rc_role c = PremiumGroup) \<and> (rc_role c = g \<longrightarrow> g = PremiumGroup)
    \<and> (rc_block c \<noteq> None \<longrightarrow> g = PremiumGroup \<and> rc_role c = UserGroup)"
  by (auto simp: submit_role_def role_canSubmit_def losingPremium_def trim_idem split: if_splits)

lemma delete_confirm_valid: "submit_delete f = Some r \<Longrightarrow> r \<noteq> [] \<and> trim r = r \<and> df_acknowledged f"
  by (auto simp: submit_delete_def trim_idem split: if_splits)

lemma ban_confirm_valid: "fst (submit_ban m f) = Some (code, cm, h) \<Longrightarrow>
    code \<noteq> [] \<and> (m = SuspendMode \<longrightarrow> (\<exists>n. h = Some n \<and> 1 \<le> n))"
  by (auto simp: submit_ban_def le_floor_iff split: if_splits jsnum.splits ban_mode.splits)

lemma ban_confirm_submitted: "submit_ban m f = (Some (code, cm, h), g) \<Longrightarrow>
    code \<noteq> [] \<and> (m = SuspendMode \<longrightarrow> (\<exists>n. h = Some n \<and> 1 \<le> n))"
  using ban_confirm_valid [of m f code cm h] by simp

text \<open>What a request of the log may be, given who is signed in.\<close>

definition request_ok :: "string option \<Rightarrow> admin_request \<Rightarrow> bool" where
  "request_ok me r =
     (case r of RenameUser u v \<Rightarrow> 3 \<le> length v \<and> trim v = v \<and> v \<noteq> u
      | BanUser u code c \<Rightarrow> code \<noteq> []
      | SuspendUser u code c h \<Rightarrow> code \<noteq> [] \<and> 1 \<le> h
      | PardonUser u \<Rightarrow> True
      | ChangeRole u c \<Rightarrow> Some u \<noteq> me \<and> rc_reason c \<noteq> [] \<and> trim (rc_reason c) = rc_reason c
          \<and> (rc_premiumExpiresAt c \<noteq> None \<longrightarrow> rc_role c = PremiumGroup)
      | DeleteUser u reason \<Rightarrow> Some u \<noteq> me \<and> reason \<noteq> [] \<and> trim reason = reason)"

lemma request_ok_simps [simp]:
  "request_ok me (RenameUser u v) \<longleftrightarrow> 3 \<le> length v \<and> trim v = v \<and> v \<noteq> u"
  "request_ok me (BanUser u code cm) \<longleftrightarrow> code \<noteq> []"
  "request_ok me (SuspendUser u code cm h) \<longleftrightarrow> code \<noteq> [] \<and> 1 \<le> h"
  "request_ok me (PardonUser u)"
  "request_ok me (ChangeRole u c) \<longleftrightarrow> Some u \<noteq> me \<and> rc_reason c \<noteq> [] \<and> trim (rc_reason c) = rc_reason c
          \<and> (rc_premiumExpiresAt c \<noteq> None \<longrightarrow> rc_role c = PremiumGroup)"
  "request_ok me (DeleteUser u reason) \<longleftrightarrow> Some u \<noteq> me \<and> reason \<noteq> [] \<and> trim reason = reason"
  by (simp_all add: request_ok_def)

text \<open>\<open>me\<close> is the administrator when that name stays, and \<open>None\<close> when nothing is assumed of it.\<close>

definition users_inv :: "string option \<Rightarrow> users_page \<Rightarrow> bool" where
  "users_inv me s \<longleftrightarrow> 1 \<le> us_page s \<and> (me \<noteq> None \<longrightarrow> us_me s = me)
     \<and> (\<forall>u. us_roleModal s = Some u \<longrightarrow> Some (lu_username u) \<noteq> me)
     \<and> (\<forall>u. us_deleteModal s = Some u \<longrightarrow> Some (lu_username u) \<noteq> me)
     \<and> (\<forall>r\<in>set (us_log s). request_ok me r)
     \<and> distinct (us_tiers s)"

lemma open_users_inv: "users_inv me (open_users me focus)" "users_inv None (open_users me' focus)"
  by (simp_all add: users_inv_def open_users_def)

lemma confirmEdit_inv: "users_inv me s \<Longrightarrow> users_inv me (confirmEdit u s)"
  by (auto simp: users_inv_def confirmEdit_def cancel_rename_def trim_idem Let_def)

lemma ban_submit_inv: "users_inv me s \<Longrightarrow> users_inv me (users_step to_iso (BanSubmit p) s)"
  by (auto simp: users_inv_def handleBanConfirm_def split: option.splits prod.splits ban_mode.splits
      dest!: ban_confirm_submitted)

lemma users_step_inv:
  assumes "users_inv me s" "\<And>m. e = MeArrives m \<Longrightarrow> me = None \<or> m = me"
  shows "users_inv me (users_step to_iso e s)"
proof (cases e)
  case (BanSubmit p) with assms show ?thesis by (simp only: ban_submit_inv)
next
  case (RoleSubmit f p)
  with assms show ?thesis
    by (auto simp: users_inv_def  split: option.splits dest: role_confirm_valid)
next
  case (DeleteSubmit f p)
  with assms show ?thesis
    by (auto simp: users_inv_def  split: option.splits dest: delete_confirm_valid)
next
  case RenameEnter with assms show ?thesis by (auto simp: confirmEdit_inv split: option.splits)
next
  case (RenameClick p) with assms show ?thesis by (auto simp: confirmEdit_inv split: option.splits)
qed (use assms in \<open>auto simp: users_inv_def  toggleTier_def handleSort_def search_done_def start_rename_def
      cancel_rename_def distinct_removeAll split: option.splits sum.splits\<close>)

lemma users_run_inv:
  "users_inv me s \<Longrightarrow> (\<And>m. MeArrives m \<in> set es \<Longrightarrow> me = None \<or> m = me) \<Longrightarrow> users_inv me (users_run to_iso es s)"
proof (induction es arbitrary: s)
  case (Cons e es)
  have "users_inv me (users_step to_iso e s)" using users_step_inv [OF Cons.prems(1)] Cons.prems(2) by auto
  with Cons.IH [OF this] Cons.prems(2) show ?case by (simp add: users_run_def)
qed (simp add: users_run_def)

text \<open>C14. Whatever is clicked, typed and answered in whatever order: a request of the list for a new role or a
  deletion carries a reason; a ban carries a violation code, a suspension at least one hour; a rename asks for a name of
  three characters that is not the old one. As long as the page knows the administrator who is signed in by the same name,
  no request for a new role or a deletion names that account.\<close>
theorem admin_requests_are_sound:
  "list_all (request_ok None) (us_log (users_run to_iso es (open_users who focus)))
   \<and> ((\<forall>m. MeArrives m \<in> set es \<longrightarrow> m = Some me) \<longrightarrow>
        list_all (request_ok (Some me)) (us_log (users_run to_iso es (open_users (Some me) focus))))"
proof (intro conjI impI)
  have "users_inv None (users_run to_iso es (open_users who focus))" by (rule users_run_inv) (simp_all add: open_users_inv)
  then show "list_all (request_ok None) (us_log (users_run to_iso es (open_users who focus)))"
    by (simp add: users_inv_def list_all_iff)
  assume "\<forall>m. MeArrives m \<in> set es \<longrightarrow> m = Some me"
  then have "users_inv (Some me) (users_run to_iso es (open_users (Some me) focus))"
    by (intro users_run_inv) (simp_all add: open_users_inv)
  then show "list_all (request_ok (Some me)) (us_log (users_run to_iso es (open_users (Some me) focus)))"
    by (simp add: users_inv_def list_all_iff)
qed

definition plain_user :: "string \<Rightarrow> listed_user" where
  "plain_user n = \<lparr>lu_username = n, lu_is_admin = False, lu_is_premium = False, lu_premium_subscribed = False,
     lu_last_seen = None, lu_banned = False\<rparr>"

definition delete_two :: "users_event list" where
  "delete_two = concat (map (\<lambda>n. [OpenDelete (plain_user n), DeleteSubmit \<lparr>df_reason = ''spam'', df_acknowledged = True\<rparr> False])
     [''root'', ''anna''])"

theorem admin_requests_are_sound_witness:
  "list_all (request_ok (Some ''root''))
     (us_log (users_run (\<lambda>d. d) (UsersArrive [plain_user ''root'', plain_user ''anna''] 2 # MeArrives (Some ''root'') # delete_two)
        (open_users (Some ''root'') None)))
   \<and> us_log (users_run (\<lambda>d. d) (UsersArrive [plain_user ''root'', plain_user ''anna''] 2 # MeArrives (Some ''root'') # delete_two)
        (open_users (Some ''root'') None)) = [DeleteUser ''anna'' ''spam'']"
proof
  show "list_all (request_ok (Some ''root''))
     (us_log (users_run (\<lambda>d. d) (UsersArrive [plain_user ''root'', plain_user ''anna''] 2 # MeArrives (Some ''root'') # delete_two)
        (open_users (Some ''root'') None)))"
    by (rule admin_requests_are_sound [THEN conjunct2, rule_format]) (simp add: delete_two_def)
  show "us_log (users_run (\<lambda>d. d) (UsersArrive [plain_user ''root'', plain_user ''anna''] 2 # MeArrives (Some ''root'') # delete_two)
        (open_users (Some ''root'') None)) = [DeleteUser ''anna'' ''spam'']"
    by code_simp
qed

text \<open>The page asked for is never below the first, and no storage class is asked for twice.\<close>
lemma users_query_sound:
  "1 \<le> uq_page (users_query_of (users_run to_iso es (open_users me focus)))
     \<and> distinct (or_else (uq_tiers (users_query_of (users_run to_iso es (open_users me focus)))) [])"
proof -
  have "users_inv None (users_run to_iso es (open_users me focus))" by (rule users_run_inv) (simp_all add: open_users_inv)
  then show ?thesis by (simp add: users_inv_def users_query_of_def)
qed

text \<open>The next page is asked for only when the count says there is one; a filter, a class or a new order starts again
  at the first page.\<close>
lemma next_page_within: "us_page s \<le> us_pageCount s \<Longrightarrow> us_page (users_step to_iso NextPage s) \<le> us_pageCount s"
  by auto

lemma filters_restart:
  "us_page (users_step to_iso (RoleChosen r) s) = 1" "us_page (users_step to_iso (ServerChosen i) s) = 1"
  "us_page (users_step to_iso (TierToggled t) s) = 1" "us_page (users_step to_iso (SortClicked k) s) = 1"
  "us_page (users_step to_iso SearchEnter s) = 1"
  by (simp_all add: toggleTier_def handleSort_def search_done_def)

lemma page_count_fits: "page_count n * 25 \<ge> n" "n \<noteq> 0 \<Longrightarrow> (page_count n - 1) * 25 < n" "page_count 0 = 0"
  by (auto simp: page_count_def)

text \<open>Clicking a column twice ends at the opposite of its default order, wherever one came from, unless it was the
  sorted column before, which ends as it began.\<close>
lemma sort_twice:
  "us_dir (handleSort k (handleSort k s)) = (if us_sort s = k then us_dir s
     else if SORT_DEFAULT_DIR k = Ascending then Descending else Ascending) \<and> us_sort (handleSort k (handleSort k s)) = k"
  by (cases "us_dir s") (auto simp: handleSort_def SORT_DEFAULT_DIR_def split: user_sort.splits)

lemma toggle_tier_involution: "set (us_tiers (toggleTier t (toggleTier t s))) = set (us_tiers s)"
  by (auto simp: toggleTier_def)

text \<open>The badges of an account agree with the group the role window starts from, and there is always one.\<close>
lemma badges_agree: "hd (AccountBadges u) = accountRole u \<and> AccountBadges u \<noteq> [] \<and> distinct (AccountBadges u)"
  by (auto simp: AccountBadges_def accountRole_def Let_def)

text \<open>The parameters of the search name each filter at most once apart from the classes.\<close>
lemma search_params_once: "distinct (filter (\<lambda>k. k \<noteq> ''tier'') (map fst (searchAdminUsers q)))"
  by (auto simp: searchAdminUsers_def filter_map o_def split: option.splits)

lemma focus_search:
  "f \<noteq> [] \<Longrightarrow> (''search'', f) \<in> set (searchAdminUsers (users_query_of (open_users me (Some f))))"
  by (simp add: searchAdminUsers_def users_query_of_def open_users_def)

text \<open>The log shows every entry of every page once and in order; opening a breakdown changes that row alone.\<close>
lemma audit_rows_complete: "map aw_id (audit_rows expanded pages) = map ae_id (concat pages)"
  by (simp add: audit_rows_def audit_row_of_def o_def)

lemma breakdown_toggles_its_row:
  "ae_id e \<noteq> i \<Longrightarrow> audit_row_of (toggleBreakdown i expanded) e = audit_row_of expanded e"
  "aw_open (audit_row_of (toggleBreakdown (ae_id e) expanded) e) = map_option Not (aw_open (audit_row_of expanded e))"
  by (auto simp: audit_row_of_def toggleBreakdown_def)

section \<open>What the list does not guard\<close>

text \<open>An answer to a rename closes whichever name is being edited when it arrives.\<close>
lemma late_rename_closes_other:
  "us_editing (users_run to_iso [UsersArrive [plain_user ''anna'', plain_user ''bert''] 2, RenameStart ''anna'', RenameTyped ''annie'',
       RenameEnter, RenameStart ''bert'', RenameTyped ''bertram''] (open_users (Some ''root'') None)) = Some ''bert''"
  "us_editing (users_run to_iso [UsersArrive [plain_user ''anna'', plain_user ''bert''] 2, RenameStart ''anna'', RenameTyped ''annie'',
       RenameEnter, RenameStart ''bert'', RenameTyped ''bertram'', RenameAnswer ''anna'' (Inr ())] (open_users (Some ''root'') None)) = None"
  by code_simp+

text \<open>Enter is not stopped by a pending rename, as the button is: the same rename goes out twice.\<close>
lemma enter_renames_twice:
  "us_log (users_run to_iso [UsersArrive [plain_user ''anna''] 1, RenameStart ''anna'', RenameTyped ''annie'', RenameEnter, RenameEnter]
     (open_users (Some ''root'') None)) = [RenameUser ''anna'' ''annie'', RenameUser ''anna'' ''annie'']"
  "us_log (users_run to_iso [UsersArrive [plain_user ''anna''] 1, RenameStart ''anna'', RenameTyped ''annie'', RenameClick False, RenameClick True]
     (open_users (Some ''root'') None)) = [RenameUser ''anna'' ''annie'']"
  by code_simp+

text \<open>The answer to a ban closes the window opened for another user since.\<close>
lemma late_ban_closes_other:
  "us_banModal (users_run to_iso [UsersArrive [plain_user ''anna'', plain_user ''bert''] 2, OpenBan ''anna'' BanMode,
       BanFormChanged (open_ban_form\<lparr>bf_code := ''CSAM''\<rparr>), BanSubmit False, CloseBan, OpenBan ''bert'' SuspendMode, BanAnswer BanMode True]
     (open_users (Some ''root'') None)) = None"
  by code_simp

text \<open>Leaving the search field, even with nothing typed, goes back to the first page.\<close>
lemma blur_restarts_pages:
  "us_search s = trim (us_draft s) \<Longrightarrow> users_step to_iso SearchBlur s = s\<lparr>us_page := 1\<rparr>"
  by (simp add: search_done_def)

text \<open>After a rename of one's own row the list and the answer to who is signed in are asked for separately: while only
  the list has arrived, the own row is taken for another's, and its deletion goes out.\<close>
lemma own_row_unlocked_by_rename:
  "us_log (users_run (\<lambda>d. d) [UsersArrive [plain_user ''root''] 1, RenameStart ''root'', RenameTyped ''carl'', RenameEnter,
      RenameAnswer ''root'' (Inr ()), UsersArrive [plain_user ''carl''] 1, OpenDelete (plain_user ''carl''),
      DeleteSubmit \<lparr>df_reason = ''test'', df_acknowledged = True\<rparr> False, MeArrives (Some ''carl'')] (open_users (Some ''root'') None))
   = [RenameUser ''root'' ''carl'', DeleteUser ''carl'' ''test'']"
  by code_simp

text \<open>Only the role and deletion windows spare one's own account: the ban window opens on it.\<close>
lemma own_account_can_be_banned:
  "us_log (users_run to_iso [UsersArrive [plain_user ''root''] 1, OpenBan ''root'' BanMode,
      BanFormChanged (open_ban_form\<lparr>bf_code := ''SPAM''\<rparr>), BanSubmit False] (open_users (Some ''root'') None)) = [BanUser ''root'' ''SPAM'' []]"
  by code_simp

end
