(* ===== verification/AdminOrders.thy ===== *)
theory AdminOrders
  imports Decimals Orders
begin

text \<open>
  The administrator's orders page, \<open>frontend/src/routes/_auth.admin/orders.tsx\<close>: the tabs of orders,
  subscriptions and expansion requests with the windows that refund, revert, cancel, approve and provision,
  and the window that composes an invoice. Dates are read by \<open>date_ms\<close>; the texts the browser makes of a
  date and of an amount are the parameters \<open>day\<close>, \<open>moment\<close> and \<open>usd\<close>.
\<close>

section \<open>Search, order and pages\<close>

record list_controls =
  lc_draft :: string
  lc_search :: string
  lc_sort :: string
  lc_page :: nat
  lc_pageCount :: nat

definition open_controls :: "string \<Rightarrow> list_controls" where
  "open_controls by_key = \<lparr>lc_draft = [], lc_search = [], lc_sort = by_key, lc_page = 1, lc_pageCount = 1\<rparr>"

datatype controls_event =
    DraftTyped string | DraftEntered | DraftLeft | SortPicked string | PageBack | PageOn | ListLoading | ListArrives nat

fun controls_step :: "controls_event \<Rightarrow> list_controls \<Rightarrow> list_controls" where
  "controls_step (DraftTyped t) c = c\<lparr>lc_draft := t\<rparr>"
| "controls_step DraftEntered c = c\<lparr>lc_search := trim (lc_draft c), lc_page := 1\<rparr>"
| "controls_step DraftLeft c = c\<lparr>lc_search := trim (lc_draft c), lc_page := 1\<rparr>"
| "controls_step (SortPicked v) c = c\<lparr>lc_sort := v, lc_page := 1\<rparr>"
| "controls_step PageBack c = (if lc_page c \<le> 1 then c else c\<lparr>lc_page := lc_page c - 1\<rparr>)"
| "controls_step PageOn c = (if lc_pageCount c \<le> lc_page c then c else c\<lparr>lc_page := lc_page c + 1\<rparr>)"
| "controls_step ListLoading c = c\<lparr>lc_pageCount := 1\<rparr>"
| "controls_step (ListArrives n) c = c\<lparr>lc_pageCount := (n + 24) div 25\<rparr>"

text \<open>\<open>listAdminOrders\<close> and \<open>listAdminSubscriptions\<close> set these parameters.\<close>

definition list_query :: "list_controls \<Rightarrow> (string \<times> string) list" where
  "list_query c =
     (if lc_search c \<noteq> [] then [(''search'', lc_search c)] else [])
     @ (if lc_sort c \<noteq> [] then [(''sort'', lc_sort c)] else [])
     @ (if lc_page c = 0 then [] else [(''page'', show_nat (lc_page c))]) @ [(''page_size'', ''25'')]"

definition expansion_query :: "bool \<Rightarrow> list_controls \<Rightarrow> (string \<times> string) list" where
  "expansion_query custom c = (''is_custom'', if custom then ''true'' else ''false'') # list_query c"

section \<open>Sizes\<close>

definition middot :: string where
  "middot = [CHR 0xC2, CHR 0xB7]"

text \<open>\<open>toFixed(1).replace(/\.0$/, '')\<close>\<close>

definition one_decimal :: "rat \<Rightarrow> string" where
  "one_decimal x = (let s = to_fixed 1 x; n = length s - 2 in if drop n s = ''.0'' then take n s else s)"

definition order_capacity :: "nat \<Rightarrow> string" where
  "order_capacity b =
     (if 1024 * TIB \<le> b then one_decimal (of_nat b / of_nat (1024 * TIB)) @ '' PB''
      else if TIB \<le> b then one_decimal (of_nat b / of_nat TIB) @ '' TB''
      else show_nat (nat (js_round (of_nat b / of_nat GB))) @ '' GB'')"

definition ADMIN_METHOD_LABELS :: "(string \<times> string) list" where
  "ADMIN_METHOD_LABELS = [(''paypal'', ''PayPal''), (''card'', ''Card entry''), (''hosted_card'', ''Card entry''),
     (''apple_pay'', ''Apple Pay''), (''google_pay'', ''Google Pay''), (''invoice'', ''Invoice'')]"

section \<open>Orders\<close>

record admin_order =
  ao_id :: string
  ao_premium :: bool
  ao_username :: string
  ao_status :: string
  ao_amount_cents :: int
  ao_currency :: string
  ao_payment_method :: string
  ao_reference :: string
  ao_invoice_number :: string
  ao_created_at :: string
  ao_captured_at :: "string option"
  ao_refund_id :: "string option"
  ao_refunded_at :: "string option"
  ao_allocation_reverted_at :: "string option"
  ao_plan_id :: "string option"
  ao_nvme :: bool
  ao_bytes_added :: "nat option"
  ao_server_name :: string
  ao_sandbox :: bool

definition REFUND_WINDOW_DAYS :: int where "REFUND_WINDOW_DAYS = 90"

definition refundOpen :: "(string \<Rightarrow> int) \<Rightarrow> int \<Rightarrow> admin_order \<Rightarrow> bool" where
  "refundOpen date_ms now q \<longleftrightarrow> ao_status q = ''captured''
     \<and> (case ao_captured_at q of None \<Rightarrow> False
        | Some t \<Rightarrow> t \<noteq> [] \<and> now - date_ms t \<le> REFUND_WINDOW_DAYS * ORDER_DAY_MS)"

definition order_revertOpen :: "admin_order \<Rightarrow> bool" where
  "order_revertOpen q \<longleftrightarrow> ao_sandbox q \<and> ao_status q = ''captured'' \<and> \<not> truthy_text (ao_allocation_reverted_at q)"

definition order_revertTitle :: "(string \<Rightarrow> string) \<Rightarrow> admin_order \<Rightarrow> string" where
  "order_revertTitle day q =
     (if truthy_text (ao_allocation_reverted_at q) then ''Reverted '' @ day (the (ao_allocation_reverted_at q))
      else if \<not> ao_sandbox q then ''Only sandbox orders can have their allocation reverted''
      else if ao_status q \<noteq> ''captured'' then ''Order is not captured''
      else ''Revert the granted quota/premium '' @ em_dash @ '' no PayPal refund'')"

definition refund_title :: "(string \<Rightarrow> int) \<Rightarrow> int \<Rightarrow> admin_order \<Rightarrow> string" where
  "refund_title date_ms now q =
     (if refundOpen date_ms now q then ''Refund this order''
      else if ao_status q = ''refunded'' then ''Already refunded''
      else ''Refund window closed (90 days after capture)'')"

definition refund_body :: "admin_order \<Rightarrow> string" where
  "refund_body q =
     (if ao_premium q
      then ''This refunds the premium payment from '' @ ao_username q @ '' in full and revokes their premium access.''
      else ''This refunds the storage purchase from '' @ ao_username q @ '' in full and removes the purchased ''
           @ order_capacity (or_else (ao_bytes_added q) 0) @ '' from their quota.'')"

text \<open>The badges behind the amount.\<close>

definition order_badges :: "(string \<Rightarrow> int) \<Rightarrow> int \<Rightarrow> admin_order \<Rightarrow> string list" where
  "order_badges date_ms now q =
     (if ao_sandbox q then [''Sandbox''] else [])
     @ (if truthy_text (ao_allocation_reverted_at q) then [''Reverted''] else [])
     @ (case ao_captured_at q of None \<Rightarrow> []
        | Some t \<Rightarrow> if order_revertOpen q \<and> t \<noteq> [] then [''Cleanup in '' @ fmtCountdown (cleanupDueAt date_ms t) now] else [])"

definition dash_day :: "(string \<Rightarrow> string) \<Rightarrow> string option \<Rightarrow> string" where
  "dash_day day t = (if truthy_text t then day (the t) else em_dash)"

definition order_info :: "(string \<Rightarrow> int) \<Rightarrow> (string \<Rightarrow> string) \<Rightarrow> (string \<Rightarrow> string) \<Rightarrow> (int \<Rightarrow> string) \<Rightarrow> (int \<Rightarrow> string)
    \<Rightarrow> int \<Rightarrow> admin_order \<Rightarrow> (string \<times> string) list" where
  "order_info date_ms day moment due_text usd now q =
     [(''Type'', if ao_premium q then ''Premium subscription'' else ''Additional storage purchase''),
      (''User'', ao_username q), (''Status'', ao_status q),
      (''Environment'', if ao_sandbox q then ''Sandbox (test)'' else ''Live''),
      (''Amount'', usd (ao_amount_cents q) @ '' '' @ ao_currency q),
      (''Method'', label_of ADMIN_METHOD_LABELS (ao_payment_method q)),
      (''Reference'', ao_reference q), (''Invoice #'', ao_invoice_number q), (''Created'', moment (ao_created_at q)),
      (''Captured'', if truthy_text (ao_captured_at q) then moment (the (ao_captured_at q)) else em_dash)]
     @ (if truthy_text (ao_refund_id q)
        then [(''Refund'', the (ao_refund_id q) @ '' ('' @ dash_day day (ao_refunded_at q) @ '')'')] else [])
     @ (if truthy_text (ao_allocation_reverted_at q)
        then [(''Allocation reverted'', dash_day day (ao_allocation_reverted_at q))] else [])
     @ (if order_revertOpen q \<and> truthy_text (ao_captured_at q)
        then let due = cleanupDueAt date_ms (the (ao_captured_at q))
             in [(''Auto-revert'', due_text due @ '' (in '' @ fmtCountdown due now @ '')'')] else [])
     @ (if ao_premium q then [(''Grants'', ''Lifetime premium '' @ em_dash @ '' SFS API + per-directory API keys'')]
        else [(''Plan'', or_else (ao_plan_id q) em_dash),
              (''Storage'', order_capacity (or_else (ao_bytes_added q) 0) @ '' '' @ middot @ '' ''
                 @ (if ao_nvme q then ''Fast (NVMe)'' else ''Standard (HDD)'')),
              (''Server'', if ao_server_name q = [] then em_dash else ao_server_name q)])"

datatype order_request = RefundOrder admin_order | RevertOrder admin_order

record orders_tab =
  ot_orders :: "admin_order list"
  ot_info :: "admin_order option"
  ot_refundTarget :: "admin_order option"
  ot_refunding :: "admin_order option"
  ot_revertTarget :: "admin_order option"
  ot_reverting :: "admin_order option"
  ot_log :: "order_request list"
  ot_toasts :: "(bool \<times> string) list"

definition open_orders :: orders_tab where
  "open_orders = \<lparr>ot_orders = [], ot_info = None, ot_refundTarget = None, ot_refunding = None, ot_revertTarget = None,
     ot_reverting = None, ot_log = [], ot_toasts = []\<rparr>"

text \<open>An answer is the result or, for an error of the API, its message (\<open>Inl None\<close> is any other error).\<close>

type_synonym 'a answer = "string option + 'a"

definition answer_toast :: "string \<Rightarrow> string \<Rightarrow> 'a answer \<Rightarrow> bool \<times> string" where
  "answer_toast good bad a = (case a of Inr _ \<Rightarrow> (True, good) | Inl m \<Rightarrow> (False, or_else m bad))"

datatype orders_event =
    OrdersArrive "admin_order list"
  | ShowInfo admin_order
  | HideInfo
  | OpenRefund int admin_order      \<comment> \<open>with the time the row was drawn\<close>
  | ConfirmRefund
  | KeepOrder
  | RefundAnswer "unit answer"
  | OpenRevert admin_order
  | ConfirmRevert
  | KeepAllocation
  | RevertAnswer "unit answer"

fun orders_step :: "(string \<Rightarrow> int) \<Rightarrow> orders_event \<Rightarrow> orders_tab \<Rightarrow> orders_tab" where
  "orders_step date_ms (OrdersArrive qs) s = s\<lparr>ot_orders := qs\<rparr>"
| "orders_step date_ms (ShowInfo q) s = (if q \<in> set (ot_orders s) then s\<lparr>ot_info := Some q\<rparr> else s)"
| "orders_step date_ms HideInfo s = s\<lparr>ot_info := None\<rparr>"
| "orders_step date_ms (OpenRefund now q) s =
     (if q \<in> set (ot_orders s) \<and> refundOpen date_ms now q then s\<lparr>ot_refundTarget := Some q\<rparr> else s)"
| "orders_step date_ms ConfirmRefund s =
     (case (ot_refundTarget s, ot_refunding s) of
        (Some q, None) \<Rightarrow> s\<lparr>ot_refunding := Some q, ot_log := ot_log s @ [RefundOrder q]\<rparr> | _ \<Rightarrow> s)"
| "orders_step date_ms KeepOrder s = s\<lparr>ot_refundTarget := None\<rparr>"
| "orders_step date_ms (RefundAnswer a) s =
     (if ot_refunding s = None then s
      else s\<lparr>ot_refunding := None, ot_refundTarget := (case a of Inr _ \<Rightarrow> None | Inl _ \<Rightarrow> ot_refundTarget s),
             ot_toasts := ot_toasts s @ [answer_toast ''Refund issued'' ''Refund failed'' a]\<rparr>)"
| "orders_step date_ms (OpenRevert q) s =
     (if q \<in> set (ot_orders s) \<and> order_revertOpen q then s\<lparr>ot_revertTarget := Some q\<rparr> else s)"
| "orders_step date_ms ConfirmRevert s =
     (case (ot_revertTarget s, ot_reverting s) of
        (Some q, None) \<Rightarrow> s\<lparr>ot_reverting := Some q, ot_log := ot_log s @ [RevertOrder q]\<rparr> | _ \<Rightarrow> s)"
| "orders_step date_ms KeepAllocation s = s\<lparr>ot_revertTarget := None\<rparr>"
| "orders_step date_ms (RevertAnswer a) s =
     (if ot_reverting s = None then s
      else s\<lparr>ot_reverting := None, ot_revertTarget := (case a of Inr _ \<Rightarrow> None | Inl _ \<Rightarrow> ot_revertTarget s),
             ot_toasts := ot_toasts s @ [answer_toast ''Allocation reverted'' ''Revert failed'' a]\<rparr>)"

definition orders_run :: "(string \<Rightarrow> int) \<Rightarrow> orders_event list \<Rightarrow> orders_tab \<Rightarrow> orders_tab" where
  "orders_run date_ms es s = fold (orders_step date_ms) es s"

section \<open>Subscriptions\<close>

record admin_subscription = subscription +
  sb_username :: string
  sb_currency :: string
  sb_invoice_number :: string
  sb_cancelled_at :: "string option"
  sb_refund_id :: "string option"
  sb_refund_amount_cents :: "int option"
  sb_refunded_at :: "string option"
  sb_cancellation_reason :: "string option"

definition cancelOpen :: "admin_subscription \<Rightarrow> bool" where
  "cancelOpen s \<longleftrightarrow> su_status s = ''active'' \<or> su_status s = ''suspended''"

definition sub_revertOpen :: "admin_subscription \<Rightarrow> bool" where
  "sub_revertOpen s \<longleftrightarrow> su_environment s = ''sandbox'' \<and> cancelOpen s"

definition next_payment :: "(string \<Rightarrow> string) \<Rightarrow> admin_subscription \<Rightarrow> string" where
  "next_payment day s = (if su_status s = ''active'' then dash_day day (su_current_period_end s) else em_dash)"

text \<open>\<open>status.replace('_', ' ')\<close> replaces the first one.\<close>

definition first_space :: "string \<Rightarrow> string" where
  "first_space t = (let a = takeWhile (\<lambda>c. c \<noteq> CHR ''_'') t in if a = t then t else a @ '' '' @ drop (Suc (length a)) t)"

definition subscription_info :: "(string \<Rightarrow> string) \<Rightarrow> (string \<Rightarrow> string) \<Rightarrow> (int \<Rightarrow> string) \<Rightarrow> admin_subscription
    \<Rightarrow> (string \<times> string) list" where
  "subscription_info day moment usd s =
     [(''User'', sb_username s), (''Plan'', label_of PLAN_LABELS (su_plan s)), (''Status'', first_space (su_status s)),
      (''Environment'', if su_environment s = ''sandbox'' then ''Sandbox (test)'' else ''Live''),
      (''Amount'', usd (su_amount_cents s) @ '' '' @ sb_currency s),
      (''Method'', label_of ADMIN_METHOD_LABELS (su_payment_method s)), (''Reference'', su_reference s),
      (''Invoice #'', sb_invoice_number s), (''Created'', moment (su_created_at s)),
      (''Next payment'', if su_status s = ''active'' \<and> truthy_text (su_current_period_end s)
         then moment (the (su_current_period_end s)) else em_dash)]
     @ (if truthy_text (sb_cancelled_at s) then [(''Cancelled'', moment (the (sb_cancelled_at s)))] else [])
     @ (if truthy_text (sb_cancellation_reason s) then [(''Cancellation reason'', the (sb_cancellation_reason s))] else [])
     @ (if truthy_text (sb_refund_id s)
        then [(''Refund'', usd (or_else (sb_refund_amount_cents s) 0) @ '' '' @ middot @ '' '' @ the (sb_refund_id s)
                 @ '' ('' @ dash_day day (sb_refunded_at s) @ '')'')] else [])"

datatype sub_request = CancelSub string string | RevertSub string

record subs_tab =
  sx_subs :: "admin_subscription list"
  sx_cancelTarget :: "admin_subscription option"
  sx_cancelReason :: string
  sx_cancelling :: bool
  sx_revertTarget :: "admin_subscription option"
  sx_reverting :: bool
  sx_log :: "sub_request list"
  sx_toasts :: "(bool \<times> string) list"

definition open_subs :: subs_tab where
  "open_subs = \<lparr>sx_subs = [], sx_cancelTarget = None, sx_cancelReason = [], sx_cancelling = False, sx_revertTarget = None,
     sx_reverting = False, sx_log = [], sx_toasts = []\<rparr>"

definition closeCancelModal :: "subs_tab \<Rightarrow> subs_tab" where
  "closeCancelModal s = s\<lparr>sx_cancelTarget := None, sx_cancelReason := []\<rparr>"

datatype subs_event =
    SubsArrive "admin_subscription list"
  | OpenCancel admin_subscription
  | CancelReasonTyped string
  | ConfirmCancel
  | KeepSubscription
  | CancelAnswer "(string option \<times> int) answer"
  | OpenSubRevert admin_subscription
  | ConfirmSubRevert
  | KeepGrant
  | SubRevertAnswer "unit answer"

fun subs_step :: "(int \<Rightarrow> string) \<Rightarrow> subs_event \<Rightarrow> subs_tab \<Rightarrow> subs_tab" where
  "subs_step usd (SubsArrive xs) s = s\<lparr>sx_subs := xs\<rparr>"
| "subs_step usd (OpenCancel x) s = (if x \<in> set (sx_subs s) \<and> cancelOpen x then s\<lparr>sx_cancelTarget := Some x\<rparr> else s)"
| "subs_step usd (CancelReasonTyped t) s = (if sx_cancelTarget s = None then s else s\<lparr>sx_cancelReason := t\<rparr>)"
| "subs_step usd ConfirmCancel s =
     (case sx_cancelTarget s of None \<Rightarrow> s
      | Some x \<Rightarrow> if trim (sx_cancelReason s) = [] \<or> sx_cancelling s then s
          else s\<lparr>sx_cancelling := True, sx_log := sx_log s @ [CancelSub (su_id x) (trim (sx_cancelReason s))]\<rparr>)"
| "subs_step usd KeepSubscription s = closeCancelModal s"
| "subs_step usd (CancelAnswer a) s =
     (if \<not> sx_cancelling s then s
      else case a of
        Inr (refund, amount) \<Rightarrow> (closeCancelModal s)\<lparr>sx_cancelling := False, sx_toasts := sx_toasts s @
          [(True, if truthy_text refund then ''Subscription cancelled '' @ em_dash @ '' refunded '' @ usd amount
                  else ''Subscription cancelled'')]\<rparr>
      | Inl m \<Rightarrow> s\<lparr>sx_cancelling := False, sx_toasts := sx_toasts s @ [(False, or_else m ''Cancel failed'')]\<rparr>)"
| "subs_step usd (OpenSubRevert x) s = (if x \<in> set (sx_subs s) \<and> sub_revertOpen x then s\<lparr>sx_revertTarget := Some x\<rparr> else s)"
| "subs_step usd ConfirmSubRevert s =
     (case sx_revertTarget s of None \<Rightarrow> s
      | Some x \<Rightarrow> if sx_reverting s then s else s\<lparr>sx_reverting := True, sx_log := sx_log s @ [RevertSub (su_id x)]\<rparr>)"
| "subs_step usd KeepGrant s = s\<lparr>sx_revertTarget := None\<rparr>"
| "subs_step usd (SubRevertAnswer a) s =
     (if \<not> sx_reverting s then s
      else s\<lparr>sx_reverting := False, sx_revertTarget := (case a of Inr _ \<Rightarrow> None | Inl _ \<Rightarrow> sx_revertTarget s),
             sx_toasts := sx_toasts s @ [answer_toast ''Allocation reverted'' ''Revert failed'' a]\<rparr>)"

definition subs_run :: "(int \<Rightarrow> string) \<Rightarrow> subs_event list \<Rightarrow> subs_tab \<Rightarrow> subs_tab" where
  "subs_run usd es s = fold (subs_step usd) es s"

section \<open>Expansion requests\<close>

text \<open>The buttons of a row.\<close>

definition canApprove :: "bool \<Rightarrow> expansion_request \<Rightarrow> bool" where
  "canApprove custom r \<longleftrightarrow> (if custom then er_status r = Accepted else er_status r = Opened)"

definition canProvision :: "bool \<Rightarrow> expansion_request \<Rightarrow> bool" where
  "canProvision custom r \<longleftrightarrow> er_status r = Approved \<or> (\<not> custom \<and> er_status r = Opened \<and> truthy_text (er_paypal_capture_id r))"

definition canInvoice :: "bool \<Rightarrow> expansion_request \<Rightarrow> bool" where
  "canInvoice custom r \<longleftrightarrow> custom \<and> (er_status r = Opened \<or> er_status r = InvoiceSent)"

definition cancellable :: "expansion_request \<Rightarrow> bool" where
  "cancellable r \<longleftrightarrow> er_status r \<notin> TERMINAL_STATUSES"

definition invoiceSent :: "expansion_request \<Rightarrow> bool" where
  "invoiceSent r \<longleftrightarrow> truthy_text (er_invoice_number r) \<and> er_invoice_status r \<noteq> Some ''cancelled''"

datatype urgency = Overdue | Urgent | Calm

definition sla_cell :: "int option \<Rightarrow> (urgency \<times> string) option" where
  "sla_cell days =
     (case days of None \<Rightarrow> None
      | Some d \<Rightarrow> Some (if d < 0 then Overdue else if d \<le> 2 then Urgent else Calm,
                         if d < 0 then show_int (- d) @ ''d overdue'' else show_int d @ ''d''))"

definition deposit_cell :: "(int \<Rightarrow> string) \<Rightarrow> bool \<Rightarrow> expansion_request \<Rightarrow> string" where
  "deposit_cell usd custom r =
     (if 0 < er_deposit_amount_cents r then usd (er_deposit_amount_cents r)
      else if custom then ''est. '' @ usd \<lceil>of_int (er_full_price_cents r) / (2 :: rat)\<rceil> else em_dash)"

datatype expansion_action = ApproveRequest string | ProvisionRequest string | CancelRequest string string

record requests_tab =
  rt_requests :: "expansion_request list"
  rt_invoiceTarget :: "expansion_request option"
  rt_cancelTarget :: "expansion_request option"
  rt_cancelReason :: string
  rt_approving :: bool
  rt_provisioning :: bool
  rt_cancelling :: bool
  rt_log :: "expansion_action list"
  rt_toasts :: "(bool \<times> string) list"

definition open_requests :: requests_tab where
  "open_requests = \<lparr>rt_requests = [], rt_invoiceTarget = None, rt_cancelTarget = None, rt_cancelReason = [],
     rt_approving = False, rt_provisioning = False, rt_cancelling = False, rt_log = [], rt_toasts = []\<rparr>"

datatype requests_event =
    RequestsArrive "expansion_request list"
  | ClickInvoice expansion_request
  | InvoiceClosed                          \<comment> \<open>discarded, or sent\<close>
  | ClickApprove expansion_request
  | ApproveAnswer "unit answer"
  | ClickProvision expansion_request
  | ProvisionAnswer "int answer"           \<comment> \<open>the remaining cents\<close>
  | ClickCancel expansion_request
  | RequestReasonTyped string
  | ConfirmRequestCancel
  | KeepRequest
  | RequestCancelAnswer "unit answer"

fun requests_step :: "bool \<Rightarrow> requests_event \<Rightarrow> requests_tab \<Rightarrow> requests_tab" where
  "requests_step custom (RequestsArrive rs) s = s\<lparr>rt_requests := rs\<rparr>"
| "requests_step custom (ClickInvoice r) s =
     (if r \<in> set (rt_requests s) \<and> canInvoice custom r then s\<lparr>rt_invoiceTarget := Some r\<rparr> else s)"
| "requests_step custom InvoiceClosed s = s\<lparr>rt_invoiceTarget := None\<rparr>"
| "requests_step custom (ClickApprove r) s =
     (if r \<in> set (rt_requests s) \<and> canApprove custom r \<and> \<not> rt_approving s
      then s\<lparr>rt_approving := True, rt_log := rt_log s @ [ApproveRequest (er_id r)]\<rparr> else s)"
| "requests_step custom (ApproveAnswer a) s =
     (if rt_approving s
      then s\<lparr>rt_approving := False, rt_toasts := rt_toasts s @ [answer_toast
          (''Request approved '' @ em_dash @ '' 14 business day expansion SLA started'') ''Approve failed'' a]\<rparr> else s)"
| "requests_step custom (ClickProvision r) s =
     (if r \<in> set (rt_requests s) \<and> canProvision custom r \<and> \<not> rt_provisioning s
      then s\<lparr>rt_provisioning := True, rt_log := rt_log s @ [ProvisionRequest (er_id r)]\<rparr> else s)"
| "requests_step custom (ProvisionAnswer a) s =
     (if rt_provisioning s
      then s\<lparr>rt_provisioning := False, rt_toasts := rt_toasts s @ [case a of
          Inr remaining \<Rightarrow> (True, ''Quota provisioned '' @ em_dash @ (if 0 < remaining then '' remaining balance requested from user''
             else '' request completed''))
        | Inl m \<Rightarrow> (False, or_else m ''Provision failed (does the server have capacity?)'')]\<rparr> else s)"
| "requests_step custom (ClickCancel r) s =
     (if r \<in> set (rt_requests s) \<and> cancellable r then s\<lparr>rt_cancelTarget := Some r\<rparr> else s)"
| "requests_step custom (RequestReasonTyped t) s = (if rt_cancelTarget s = None then s else s\<lparr>rt_cancelReason := t\<rparr>)"
| "requests_step custom ConfirmRequestCancel s =
     (case rt_cancelTarget s of None \<Rightarrow> s
      | Some r \<Rightarrow> if trim (rt_cancelReason s) = [] \<or> rt_cancelling s then s
          else s\<lparr>rt_cancelling := True, rt_log := rt_log s @ [CancelRequest (er_id r) (trim (rt_cancelReason s))]\<rparr>)"
| "requests_step custom KeepRequest s = s\<lparr>rt_cancelTarget := None\<rparr>"
| "requests_step custom (RequestCancelAnswer a) s =
     (if \<not> rt_cancelling s then s
      else case a of
        Inr _ \<Rightarrow> s\<lparr>rt_cancelling := False, rt_cancelTarget := None, rt_cancelReason := [],
                   rt_toasts := rt_toasts s @ [(True, ''Request cancelled'')]\<rparr>
      | Inl m \<Rightarrow> s\<lparr>rt_cancelling := False, rt_toasts := rt_toasts s @ [(False, or_else m ''Cancel failed'')]\<rparr>)"

definition requests_run :: "bool \<Rightarrow> requests_event list \<Rightarrow> requests_tab \<Rightarrow> requests_tab" where
  "requests_run custom es s = fold (requests_step custom) es s"

section \<open>The invoice\<close>

record draft_line =
  dl_description :: string
  dl_amount :: string

record invoice_line =
  il_description :: string
  il_amount_cents :: int

record invoice_draft =
  id_lines :: "draft_line list"
  id_deposit :: string
  id_disclosures :: string
  id_notes :: string
  id_includeLink :: bool
  id_error :: "string option"
  id_sending :: bool

definition DISCLOSURES :: string where
  "DISCLOSURES = ''Capacity is provisioned within 14 business days of approval. The remaining balance is due once provisioned; ''
     @ ''unpaid balances 30 days past due result in the allocation being reverted and the deposit retained.''"

definition open_invoice :: "expansion_request \<Rightarrow> invoice_draft" where
  "open_invoice r =
     \<lparr>id_lines = [\<lparr>dl_description = order_capacity (er_bytes_requested r) @ '' ''
          @ (if er_storage_type r = Nvme then ''Fast (NVMe)'' else ''Standard (HDD)'') @ '' storage on '' @ er_server_name r,
        dl_amount = to_fixed 2 (of_int (er_full_price_cents r) / 100)\<rparr>],
      id_deposit = [], id_disclosures = DISCLOSURES, id_notes = [], id_includeLink = True, id_error = None, id_sending = False\<rparr>"

text \<open>\<open>Math.round((parseFloat(s) || 0) * 100)\<close>; a number field holds no infinite number.\<close>

definition text_cents :: "string \<Rightarrow> int" where
  "text_cents t = (case parseFloat t of Fin x \<Rightarrow> js_round (x * 100) | _ \<Rightarrow> 0)"

definition parsedItems :: "invoice_draft \<Rightarrow> invoice_line list" where
  "parsedItems d = map (\<lambda>l. \<lparr>il_description = dl_description l, il_amount_cents = text_cents (dl_amount l)\<rparr>) (id_lines d)"

definition totalCents :: "invoice_draft \<Rightarrow> int" where
  "totalCents d = sum_list (map il_amount_cents (parsedItems d))"

definition depositCents :: "invoice_draft \<Rightarrow> int" where
  "depositCents d = text_cents (id_deposit d)"

definition invoice_valid :: "invoice_draft \<Rightarrow> bool" where
  "invoice_valid d \<longleftrightarrow> parsedItems d \<noteq> []
     \<and> list_all (\<lambda>l. trim (il_description l) \<noteq> [] \<and> 0 < il_amount_cents l) (parsedItems d)
     \<and> 0 \<le> depositCents d \<and> depositCents d \<le> totalCents d"

record invoice_payload =
  ip_line_items :: "invoice_line list"
  ip_deposit_cents :: int
  ip_disclosures :: string
  ip_notes :: string
  ip_include_review_link :: bool

definition payload_of :: "invoice_draft \<Rightarrow> invoice_payload" where
  "payload_of d = \<lparr>ip_line_items = parsedItems d, ip_deposit_cents = depositCents d, ip_disclosures = id_disclosures d,
     ip_notes = id_notes d, ip_include_review_link = id_includeLink d\<rparr>"

datatype invoice_event =
    LineText nat string
  | LineAmount nat string
  | RemoveLine nat
  | AddLine
  | DepositTyped string
  | NotesTyped string
  | DisclosuresTyped string
  | ToggleLink
  | SendInvoice
  | SendAnswer "string answer"     \<comment> \<open>the number of the invoice\<close>

definition update_line :: "nat \<Rightarrow> (draft_line \<Rightarrow> draft_line) \<Rightarrow> invoice_draft \<Rightarrow> invoice_draft" where
  "update_line i f d = d\<lparr>id_lines := map (\<lambda>(j, x). if j = i then f x else x) (enumerate 0 (id_lines d))\<rparr>"

definition remove_line :: "nat \<Rightarrow> invoice_draft \<Rightarrow> invoice_draft" where
  "remove_line i d = d\<lparr>id_lines := map snd (filter (\<lambda>(j, x). j \<noteq> i) (enumerate 0 (id_lines d)))\<rparr>"

text \<open>A step of the window: the request it sends, if any, and whether the page closes it.\<close>

definition invoice_step :: "invoice_event \<Rightarrow> invoice_draft \<Rightarrow> invoice_payload option \<times> bool \<times> invoice_draft" where
  "invoice_step e d =
     (case e of
        LineText i t \<Rightarrow> (None, False, update_line i (\<lambda>x. x\<lparr>dl_description := t\<rparr>) d)
      | LineAmount i t \<Rightarrow> (None, False, update_line i (\<lambda>x. x\<lparr>dl_amount := t\<rparr>) d)
      | RemoveLine i \<Rightarrow> (None, False, if length (id_lines d) \<le> 1 then d else remove_line i d)
      | AddLine \<Rightarrow> (None, False, d\<lparr>id_lines := id_lines d @ [\<lparr>dl_description = [], dl_amount = []\<rparr>]\<rparr>)
      | DepositTyped t \<Rightarrow> (None, False, d\<lparr>id_deposit := t\<rparr>)
      | NotesTyped t \<Rightarrow> (None, False, d\<lparr>id_notes := t\<rparr>)
      | DisclosuresTyped t \<Rightarrow> (None, False, d\<lparr>id_disclosures := t\<rparr>)
      | ToggleLink \<Rightarrow> (None, False, d\<lparr>id_includeLink := (\<not> id_includeLink d)\<rparr>)
      | SendInvoice \<Rightarrow>
          (if invoice_valid d \<and> \<not> id_sending d then (Some (payload_of d), False, d\<lparr>id_sending := True\<rparr>) else (None, False, d))
      | SendAnswer a \<Rightarrow>
          (if \<not> id_sending d then (None, False, d)
           else case a of
             Inr _ \<Rightarrow> (None, True, d\<lparr>id_sending := False\<rparr>)
           | Inl m \<Rightarrow> (None, False, d\<lparr>id_sending := False, id_error := Some (or_else m ''Failed to send invoice'')\<rparr>)))"

fun invoice_run :: "invoice_event list \<Rightarrow> invoice_draft \<Rightarrow> invoice_payload list" where
  "invoice_run [] d = []"
| "invoice_run (e # es) d =
     (case invoice_step e d of (r, done_now, d') \<Rightarrow>
        (case r of None \<Rightarrow> [] | Some p \<Rightarrow> [p]) @ (if done_now then [] else invoice_run es d'))"

text \<open>The printed invoice, \<open>components/InvoiceDocument.tsx\<close>: its rows of text and amount.\<close>

definition InvoiceDocument :: "(int \<Rightarrow> string) \<Rightarrow> invoice_line list \<Rightarrow> int \<Rightarrow> int \<Rightarrow> (string \<times> string) list" where
  "InvoiceDocument usd ls tot deposit =
     map (\<lambda>l. (if il_description l = [] then em_dash else il_description l, usd (il_amount_cents l))) ls
     @ [(''Total'', usd tot)]
     @ (if 0 < deposit then [(''Deposit due on acceptance'', usd deposit), (''Balance due after provisioning'', usd (tot - deposit))]
        else [])"

definition preview_rows :: "(int \<Rightarrow> string) \<Rightarrow> invoice_draft \<Rightarrow> (string \<times> string) list" where
  "preview_rows usd d = InvoiceDocument usd (parsedItems d) (totalCents d) (depositCents d)"

section \<open>Orders: what is asked of the server\<close>

lemma orders_step_log:
  assumes "\<forall>q. ot_refundTarget s = Some q \<longrightarrow> R q" "\<forall>q. ot_revertTarget s = Some q \<longrightarrow> V q"
    and "\<forall>r\<in>set (ot_log s). case r of RefundOrder q \<Rightarrow> R q | RevertOrder q \<Rightarrow> V q"
    and "\<And>now q. e = OpenRefund now q \<Longrightarrow> refundOpen date_ms now q \<Longrightarrow> R q"
    and "\<And>q. e = OpenRevert q \<Longrightarrow> order_revertOpen q \<Longrightarrow> V q"
  shows "(\<forall>q. ot_refundTarget (orders_step date_ms e s) = Some q \<longrightarrow> R q)
    \<and> (\<forall>q. ot_revertTarget (orders_step date_ms e s) = Some q \<longrightarrow> V q)
    \<and> (\<forall>r\<in>set (ot_log (orders_step date_ms e s)). case r of RefundOrder q \<Rightarrow> R q | RevertOrder q \<Rightarrow> V q)"
  using assms by (cases e) (auto split: option.splits sum.splits)

lemma orders_run_log:
  assumes "\<forall>q. ot_refundTarget s = Some q \<longrightarrow> R q" "\<forall>q. ot_revertTarget s = Some q \<longrightarrow> V q"
    and "\<forall>r\<in>set (ot_log s). case r of RefundOrder q \<Rightarrow> R q | RevertOrder q \<Rightarrow> V q"
    and "\<And>now q. OpenRefund now q \<in> set es \<Longrightarrow> refundOpen date_ms now q \<Longrightarrow> R q"
    and "\<And>q. OpenRevert q \<in> set es \<Longrightarrow> order_revertOpen q \<Longrightarrow> V q"
  shows "\<forall>r\<in>set (ot_log (orders_run date_ms es s)). case r of RefundOrder q \<Rightarrow> R q | RevertOrder q \<Rightarrow> V q"
  using assms
proof (induction es arbitrary: s)
  case (Cons e es)
  have "(\<forall>q. ot_refundTarget (orders_step date_ms e s) = Some q \<longrightarrow> R q)
    \<and> (\<forall>q. ot_revertTarget (orders_step date_ms e s) = Some q \<longrightarrow> V q)
    \<and> (\<forall>r\<in>set (ot_log (orders_step date_ms e s)). case r of RefundOrder q \<Rightarrow> R q | RevertOrder q \<Rightarrow> V q)"
    by (intro orders_step_log Cons.prems(1,2,3)) (metis Cons.prems(4) list.set_intros(1), metis Cons.prems(5) list.set_intros(1))
  then have "\<forall>r\<in>set (ot_log (orders_run date_ms es (orders_step date_ms e s))). case r of RefundOrder q \<Rightarrow> R q | RevertOrder q \<Rightarrow> V q"
    by (intro Cons.IH) (simp_all, (meson Cons.prems(4,5) list.set_intros(2))+)
  then show ?case by (simp add: orders_run_def)
qed (simp add: orders_run_def)

text \<open>Every refund asked for is of an order that was captured no more than ninety days before its row was drawn, every
  reverted allocation of a captured sandbox order that was not reverted before.\<close>
theorem order_requests_are_sound:
  "list_all (\<lambda>r. case r of RefundOrder q \<Rightarrow> list_ex (\<lambda>e. case e of OpenRefund now q' \<Rightarrow> q' = q \<and> refundOpen date_ms now q | _ \<Rightarrow> False) es
      | RevertOrder q \<Rightarrow> order_revertOpen q) (ot_log (orders_run date_ms es open_orders))"
proof -
  have "\<forall>r\<in>set (ot_log (orders_run date_ms es open_orders)). case r of
      RefundOrder q \<Rightarrow> (\<exists>now. OpenRefund now q \<in> set es \<and> refundOpen date_ms now q) | RevertOrder q \<Rightarrow> order_revertOpen q"
    by (rule orders_run_log) (auto simp: open_orders_def)
  then show ?thesis by (force simp: list_all_iff list_ex_iff split: order_request.splits)
qed

text \<open>The button of a row, its text, the badges and the row of the details agree on when an allocation is still to be
  reverted.\<close>
lemma cleanup_shown_consistently:
  "(\<exists>x. (''Auto-revert'', x) \<in> set (order_info date_ms day moment due_text usd now q)) \<longleftrightarrow> order_revertOpen q \<and> truthy_text (ao_captured_at q)"
  by (auto simp: order_info_def Let_def)

lemma revert_excludes_reverted_badge: "order_revertOpen q \<Longrightarrow> ''Reverted'' \<notin> set (order_badges date_ms now q)"
  by (auto simp: order_badges_def order_revertOpen_def split: option.splits)

definition some_order :: "string \<Rightarrow> admin_order" where
  "some_order i = \<lparr>ao_id = i, ao_premium = True, ao_username = ''anna'', ao_status = ''captured'', ao_amount_cents = 900,
     ao_currency = ''USD'', ao_payment_method = ''paypal'', ao_reference = [], ao_invoice_number = [], ao_created_at = ''t'',
     ao_captured_at = Some ''t'', ao_refund_id = None, ao_refunded_at = None, ao_allocation_reverted_at = None,
     ao_plan_id = None, ao_nvme = False, ao_bytes_added = None, ao_server_name = [], ao_sandbox = False\<rparr>"

text \<open>The window of a pending refund can be left; its answer then closes the window of another order.\<close>
lemma late_refund_closes_other:
  "ot_refundTarget (orders_run (\<lambda>_. 0) [OrdersArrive [some_order ''a'', some_order ''b''], OpenRefund 5 (some_order ''a''), ConfirmRefund,
     KeepOrder, OpenRefund 6 (some_order ''b''), RefundAnswer (Inr ())] open_orders) = None"
  by code_simp

text \<open>A created order, which was never captured, is told that its refund window has closed.\<close>
lemma uncaptured_told_window_closed:
  "refund_title date_ms now ((some_order i)\<lparr>ao_status := ''created'', ao_captured_at := None\<rparr>) = ''Refund window closed (90 days after capture)''"
  by (simp add: refund_title_def refundOpen_def some_order_def)

section \<open>Subscriptions and requests: what is asked of the server\<close>

definition subs_inv :: "subs_tab \<Rightarrow> bool" where
  "subs_inv s \<longleftrightarrow> (sx_cancelTarget s = None \<longrightarrow> sx_cancelReason s = [])
     \<and> (\<forall>x. sx_cancelTarget s = Some x \<longrightarrow> cancelOpen x) \<and> (\<forall>x. sx_revertTarget s = Some x \<longrightarrow> sub_revertOpen x)
     \<and> list_all (\<lambda>r. case r of CancelSub i t \<Rightarrow> t \<noteq> [] \<and> trim t = t | RevertSub i \<Rightarrow> True) (sx_log s)"

lemma subs_step_inv: "subs_inv s \<Longrightarrow> subs_inv (subs_step usd e s)"
  by (cases e) (auto simp: subs_inv_def closeCancelModal_def trim_idem split: option.splits sum.splits)

text \<open>A reason is only kept while its window is open: the window of the next subscription starts empty. Every
  cancellation that is sent carries a reason.\<close>
lemma cancellation_needs_own_reason: "subs_inv (subs_run usd es open_subs)"
proof -
  have "subs_inv s \<Longrightarrow> subs_inv (subs_run usd es s)" for s
    by (induction es arbitrary: s) (simp_all add: subs_run_def subs_step_inv)
  from this [of open_subs] show ?thesis by (simp add: subs_inv_def open_subs_def)
qed

definition requests_inv :: "bool \<Rightarrow> requests_tab \<Rightarrow> bool" where
  "requests_inv custom s \<longleftrightarrow> (\<forall>r. rt_cancelTarget s = Some r \<longrightarrow> cancellable r)
     \<and> (\<forall>r. rt_invoiceTarget s = Some r \<longrightarrow> canInvoice custom r)
     \<and> list_all (\<lambda>a. case a of CancelRequest i t \<Rightarrow> t \<noteq> [] \<and> trim t = t | _ \<Rightarrow> True) (rt_log s)"

lemma requests_inv_holds: "requests_inv custom (requests_run custom es open_requests)"
proof -
  have step: "requests_inv custom s \<Longrightarrow> requests_inv custom (requests_step custom e s)" for e s
    by (cases e) (auto simp: requests_inv_def trim_idem split: option.splits sum.splits)
  have "requests_inv custom s \<Longrightarrow> requests_inv custom (requests_run custom es s)" for s
    by (induction es arbitrary: s) (simp_all add: requests_run_def step)
  from this [of open_requests] show ?thesis by (simp add: requests_inv_def open_requests_def)
qed

text \<open>The stages of a custom request: invoiced until it is accepted, then approved, then provisioned, at each stage one
  of the three; nothing after its end. A listed one is approved and, once its deposit was paid, may be provisioned at once.\<close>
theorem buttons_follow_stages:
  "canInvoice True r \<longleftrightarrow> er_status r = Opened \<or> er_status r = InvoiceSent"
  "canApprove True r \<longleftrightarrow> er_status r = Accepted"
  "canProvision True r \<longleftrightarrow> er_status r = Approved"
  "\<not> canInvoice False r"
  "canApprove False r \<longleftrightarrow> er_status r = Opened"
  "canProvision False r \<longleftrightarrow> er_status r = Approved \<or> er_status r = Opened \<and> truthy_text (er_paypal_capture_id r)"
  "canInvoice custom r \<or> canApprove custom r \<or> canProvision custom r \<Longrightarrow> cancellable r"
  "cancellable r \<longleftrightarrow> requestGroup (er_status r) \<noteq> CompletedGroup \<and> requestGroup (er_status r) \<noteq> Closed"
  by (auto simp: canInvoice_def canApprove_def canProvision_def cancellable_def TERMINAL_STATUSES_def requestGroup_def
      split: request_status.splits if_splits)

text \<open>An expanded request can be cancelled but has no other button: it waits for the balance.\<close>
lemma expanded_only_cancels:
  "er_status r = Expanded \<Longrightarrow> cancellable r \<and> \<not> canInvoice custom r \<and> \<not> canApprove custom r \<and> \<not> canProvision custom r"
  by (simp add: canInvoice_def canApprove_def canProvision_def cancellable_def TERMINAL_STATUSES_def)

text \<open>The days that are left bracket the deadline.\<close>
lemma sla_days_bracket:
  assumes "slaDaysRemaining date_ms stamp now r = Some n" "slaDeadline date_ms stamp r = Some d"
  shows "date_ms d - now \<le> n * ORDER_DAY_MS" "n * ORDER_DAY_MS < date_ms d - now + ORDER_DAY_MS"
proof -
  have D: "0 < (of_int ORDER_DAY_MS :: rat)" by (simp add: ORDER_DAY_MS_def)
  from assms have n: "n = \<lceil>of_int (date_ms d - now) / (of_int ORDER_DAY_MS :: rat)\<rceil>"
    by (auto simp: slaDaysRemaining_def split: if_splits)
  have "of_int (date_ms d - now) / of_int ORDER_DAY_MS \<le> (of_int n :: rat)" unfolding n by (rule le_of_int_ceiling)
  with D have "(of_int (date_ms d - now) :: rat) \<le> of_int n * of_int ORDER_DAY_MS" by (simp add: pos_divide_le_eq)
  then show "date_ms d - now \<le> n * ORDER_DAY_MS" by (simp only: of_int_mult [symmetric] of_int_le_iff)
  have "(of_int n :: rat) < of_int (date_ms d - now) / of_int ORDER_DAY_MS + 1" unfolding n using ceiling_correct by linarith
  with D have "(of_int n * of_int ORDER_DAY_MS :: rat) < of_int (date_ms d - now) + of_int ORDER_DAY_MS"
    by (simp add: field_simps)
  then show "n * ORDER_DAY_MS < date_ms d - now + ORDER_DAY_MS"
    by (simp only: of_int_mult [symmetric] of_int_add [symmetric] of_int_less_iff)
qed

text \<open>So a deadline that passed less than a day ago is not shown as overdue but as zero days left.\<close>
lemma fresh_overdue_shown_as_zero:
  assumes "slaDaysRemaining date_ms stamp now r = Some n" "slaDeadline date_ms stamp r = Some d"
    and "date_ms d < now" "now - date_ms d < ORDER_DAY_MS"
  shows "sla_cell (Some n) = Some (Urgent, ''0d'')"
proof -
  have "n * ORDER_DAY_MS < ORDER_DAY_MS" "- ORDER_DAY_MS < n * ORDER_DAY_MS"
    using sla_days_bracket [OF assms(1,2)] assms(3,4) by linarith+
  then have "n = 0" by (simp add: ORDER_DAY_MS_def)
  then show ?thesis by (simp add: sla_cell_def show_int_def) code_simp
qed

definition some_request :: "string \<Rightarrow> expansion_request" where
  "some_request i = \<lparr>er_id = i, er_username = ''anna'', er_server_id = ''s'', er_server_name = ''S'', er_plan_id = [],
     er_storage_type = Hdd, er_bytes_requested = 5, er_deposit_amount_cents = 0, er_full_price_cents = 12345,
     er_currency = ''USD'', er_payment_method = ''invoice'', er_status = Opened, er_is_custom = True, er_expires_at = ''t'',
     er_approval_due_at = None, er_approved_at = None, er_expansion_due_at = None, er_payment_due_at = None,
     er_reminder_sent_at = None, er_created_at = ''t'', er_completed_at = None, er_cancellation_reason = None,
     er_paypal_capture_id = None, er_invoice_number = None, er_invoice_status = None, er_invoice_sent_at = None,
     er_invoice_accept_due_at = None, er_invoice_review_token = None, er_refund_id = None\<rparr>"

text \<open>Keeping a request does not clear the reason typed for it, as the window of subscriptions does: the next request
  is cancelled with it.\<close>
lemma reason_of_another_request:
  "rt_log (requests_run True [RequestsArrive [some_request ''a'', some_request ''b''], ClickCancel (some_request ''a''),
     RequestReasonTyped ''fraud'', KeepRequest, ClickCancel (some_request ''b''), ConfirmRequestCancel] open_requests)
   = [CancelRequest ''b'' ''fraud'']"
  by code_simp

section \<open>Invoices\<close>

text \<open>Whatever is edited and whichever attempts fail: an invoice that is sent has lines, each with a text and a
  positive amount, and asks for a deposit between nothing and their sum.\<close>
theorem invoices_are_sound:
  "list_all (\<lambda>p. ip_line_items p \<noteq> [] \<and> list_all (\<lambda>l. trim (il_description l) \<noteq> [] \<and> 0 < il_amount_cents l) (ip_line_items p)
      \<and> 0 \<le> ip_deposit_cents p \<and> ip_deposit_cents p \<le> sum_list (map il_amount_cents (ip_line_items p))) (invoice_run es d)"
proof (induction es arbitrary: d)
  case (Cons e es)
  have "fst (invoice_step e d) = Some p \<Longrightarrow> invoice_valid d \<and> p = payload_of d" for p
    by (cases e) (auto simp: invoice_step_def split: if_splits sum.splits)
  with Cons.IH show ?case
    by (auto simp: invoice_valid_def payload_of_def totalCents_def split: prod.splits option.splits)
qed simp

text \<open>While one is being sent no second one goes out, and the row shown in the preview are those sent.\<close>
lemma one_invoice_at_a_time:
  "id_sending d \<Longrightarrow> fst (invoice_step e d) = None"
  by (cases e) (auto simp: invoice_step_def split: sum.splits)

lemma preview_is_sent:
  "fst (invoice_step SendInvoice d) = Some p \<Longrightarrow> preview_rows usd d = InvoiceDocument usd (ip_line_items p)
     (sum_list (map il_amount_cents (ip_line_items p))) (ip_deposit_cents p)"
  by (auto simp: invoice_step_def preview_rows_def payload_of_def totalCents_def split: if_splits)

lemma text_cents_to_fixed: "text_cents (to_fixed 2 (of_nat n / 100)) = int n"
  using js_round_of_int [of "int n"] by (simp add: text_cents_def parseFloat_to_fixed)

lemma text_cents_blank: "text_cents [] = 0"
  by code_simp

text \<open>An invoice can be sent as it opens, and then asks for exactly the price of the request and no deposit.\<close>
theorem untouched_invoice_asks_full_price:
  assumes "0 < er_full_price_cents r"
  shows "map_option (\<lambda>p. (map il_amount_cents (ip_line_items p), ip_deposit_cents p)) (fst (invoice_step SendInvoice (open_invoice r)))
      = Some ([er_full_price_cents r], 0)"
proof -
  obtain n where n: "er_full_price_cents r = int n" using assms zero_less_imp_eq_int by blast
  let ?t = "il_description (hd (parsedItems (open_invoice r)))"
  have "CHR ''s'' \<in> set ?t" by (simp add: open_invoice_def parsedItems_def)
  moreover have "\<not> is_space (CHR ''s'')" by code_simp
  ultimately have "trim ?t \<noteq> []" by (rule trim_nonempty)
  with assms n text_cents_to_fixed [of n] show ?thesis
    by (simp add: invoice_step_def open_invoice_def payload_of_def invoice_valid_def parsedItems_def depositCents_def
        totalCents_def text_cents_blank)
qed

text \<open>Removing a line keeps the others.\<close>
lemma remove_line_keeps_others: "id_lines (remove_line i d) = take i (id_lines d) @ drop (Suc i) (id_lines d)"
proof -
  have "map snd (filter (\<lambda>(j, x). j \<noteq> i + k) (enumerate k xs)) = take i xs @ drop (Suc i) xs" for k and xs :: "draft_line list"
  proof (induction i arbitrary: k xs)
    case 0
    have "filter (\<lambda>(j, x). j \<noteq> k) (enumerate (Suc k) ys) = enumerate (Suc k) ys" for ys :: "draft_line list"
      by (auto simp: filter_id_conv in_set_enumerate_eq)
    then show ?case by (cases xs) simp_all
  next
    case (Suc i)
    from Suc.IH [of "Suc k" "tl xs"] show ?case by (cases xs) simp_all
  qed
  from this [of 0 "id_lines d"] show ?thesis by (simp add: remove_line_def)
qed

text \<open>An earlier failure stays on the window during the next attempt.\<close>
lemma old_error_stays:
  "id_error (snd (snd (invoice_step SendInvoice d))) = id_error d"
  by (simp add: invoice_step_def)

end
