(* ===== verification/GroupSlots.thy ===== *)
theory GroupSlots
  imports Infrastructure
begin

text \<open>
  The page that creates or edits a registration group,
  \<open>frontend/src/routes/_auth.admin/group-registration.create.tsx\<close>: the fields of the group, the builder of
  slots with the capacity it leaves on a server, and the requests. What the browser does (the text
  \<open>String\<close> makes of a number, the ISO text of a date, the checks of the native fields) are parameters in
  \<open>group_env\<close>; answers are events.
\<close>

section \<open>Data\<close>

record group_env =
  ge_num_text :: "rat \<Rightarrow> string"        \<comment> \<open>\<open>String(x)\<close>\<close>
  ge_iso :: "string \<Rightarrow> string"         \<comment> \<open>\<open>new Date(x).toISOString()\<close>\<close>
  ge_trial :: string                  \<comment> \<open>\<open>defaultPremiumExpiry()\<close>\<close>
  ge_fields_ok :: "string \<Rightarrow> string \<Rightarrow> bool"  \<comment> \<open>the browser's check of the address and date fields\<close>

record slot_config =
  sc_serverId :: string
  sc_driveType :: drive_type
  sc_quotaBytes :: int
  sc_premium :: bool
  sc_premiumExpiresAt :: string

record draft_slot =
  dg_config :: slot_config
  dg_serverName :: string
  dg_count :: nat

record tier_availability =
  ta_server_id :: string
  ta_server_name :: string
  ta_drive_type :: drive_type
  ta_available :: int

record slot_type =
  ty_slot_id :: string
  ty_server_id :: string
  ty_server_name :: string
  ty_drive_type :: drive_type
  ty_quota_bytes :: int
  ty_premium :: bool
  ty_premium_expires_at :: "string option"
  ty_consumed :: nat
  ty_reserved :: nat
  ty_available :: nat

record group_detail =
  gd_name :: string
  gd_expires_at :: "string option"
  gd_notify_emails :: "string list"
  gd_reminder :: bool
  gd_slot_types :: "slot_type list"

record slot_spec =
  sq_server_id :: string
  sq_drive_type :: drive_type
  sq_quota_bytes :: int
  sq_premium :: bool
  sq_premium_expires_at :: "string option"
  sq_count :: nat

record slot_signature =
  sg_server_id :: string
  sg_drive_type :: drive_type
  sg_quota_bytes :: int
  sg_premium :: bool
  sg_premium_expires_at :: "string option"

definition signatureOf :: "slot_type \<Rightarrow> slot_signature" where
  "signatureOf t = \<lparr>sg_server_id = ty_server_id t, sg_drive_type = ty_drive_type t, sg_quota_bytes = ty_quota_bytes t,
     sg_premium = ty_premium t,
     sg_premium_expires_at = (case ty_premium_expires_at t of Some d \<Rightarrow> if d = [] then None else Some d | None \<Rightarrow> None)\<rparr>"

record group_body =
  gb_name :: string
  gb_expires_at :: "string option"
  gb_notify_emails :: "string list"
  gb_reminder :: bool

datatype group_request =
    CreateGroup group_body "slot_spec list"
  | UpdateGroup group_body
  | AddSlots slot_spec
  | ReplaceSlots slot_signature slot_spec
  | DeleteSlots slot_signature

record group_page =
  gp_edit :: bool
  gp_group :: "group_detail option"
  gp_seeded :: bool
  gp_capacity :: "tier_availability list"
  gp_editing :: "slot_type option"
  gp_actionError :: "string option"
  gp_name :: string
  gp_expiresAt :: string
  gp_emails :: "string list"
  gp_emailInput :: string
  gp_emailError :: "string option"
  gp_reminder :: bool
  gp_slots :: "draft_slot list"
  gp_server :: string
  gp_tier :: "drive_type option"
  gp_capacityGb :: string
  gp_premium :: bool
  gp_premiumExpiry :: string
  gp_count :: string
  gp_createError :: "string option"
  gp_adding :: bool
  gp_replacing :: bool
  gp_deleting :: bool
  gp_saving :: bool
  gp_left :: bool
  gp_log :: "group_request list"
  gp_toasts :: "(bool \<times> string) list"

definition open_group :: "bool \<Rightarrow> group_page" where
  "open_group edit =
     \<lparr>gp_edit = edit, gp_group = None, gp_seeded = False, gp_capacity = [], gp_editing = None, gp_actionError = None,
      gp_name = [], gp_expiresAt = [], gp_emails = [], gp_emailInput = [], gp_emailError = None, gp_reminder = False,
      gp_slots = [], gp_server = [], gp_tier = None, gp_capacityGb = ''10'', gp_premium = False, gp_premiumExpiry = [],
      gp_count = ''1'', gp_createError = None, gp_adding = False, gp_replacing = False, gp_deleting = False,
      gp_saving = False, gp_left = False, gp_log = [], gp_toasts = []\<rparr>"

section \<open>Names and sizes\<close>

definition formatSlotQuota :: "nat \<Rightarrow> string" where
  "formatSlotQuota b =
     (if 1024 * GIB \<le> b
      then to_fixed (if b mod (1024 * GIB) = 0 then 0 else 1) (of_nat b / of_nat (1024 * GIB)) @ '' TB''
      else to_fixed (if b mod GIB = 0 then 0 else 1) (of_nat b / of_nat GIB) @ '' GB'')"

definition tierLabel :: "drive_type \<Rightarrow> string" where
  "tierLabel t = (if t = NvmeDrive then ''Fast (NVMe)'' else ''Standard (HDD)'')"

text \<open>\<open>toLowerCase().replace(/[^a-z0-9]+/g, '-')\<close>: each run of other characters is one hyphen.\<close>

fun hyphens :: "bool \<Rightarrow> string \<Rightarrow> string" where
  "hyphens run [] = []"
| "hyphens run (c # cs) =
     (if is_lower c \<or> is_digit c then c # hyphens False cs else if run then hyphens True cs else CHR ''-'' # hyphens True cs)"

definition strip_hyphens :: "string \<Rightarrow> string" where
  "strip_hyphens s = (let cut = dropWhile (\<lambda>c. c = CHR ''-'') in rev (cut (rev (cut s))))"

definition link_name :: "string \<Rightarrow> string" where
  "link_name name =
     (let base = (if trim name = [] then ''group-name'' else trim name);
          s = strip_hyphens (hyphens False (map to_lower_char base))
      in if s = [] then ''group-name'' else s)"

section \<open>The builder\<close>

text \<open>\<open>servers\<close>: the name of the first row of a server, the space of its last row of a tier.\<close>

definition server_name :: "tier_availability list \<Rightarrow> string \<Rightarrow> string option" where
  "server_name cap i = map_option ta_server_name (find (\<lambda>t. ta_server_id t = i) cap)"

definition tier_space :: "tier_availability list \<Rightarrow> string \<Rightarrow> drive_type \<Rightarrow> int option" where
  "tier_space cap i d = map_option ta_available (find (\<lambda>t. ta_server_id t = i \<and> ta_drive_type t = d) (rev cap))"

definition pending_bytes :: "draft_slot list \<Rightarrow> string \<Rightarrow> drive_type \<Rightarrow> int" where
  "pending_bytes ss i d =
     sum_list (map (\<lambda>s. sc_quotaBytes (dg_config s) * int (dg_count s))
       (filter (\<lambda>s. sc_serverId (dg_config s) = i \<and> sc_driveType (dg_config s) = d) ss))"

definition remainingBytes :: "group_page \<Rightarrow> string \<Rightarrow> drive_type \<Rightarrow> int option" where
  "remainingBytes p i d =
     (case tier_space (gp_capacity p) i d of
        None \<Rightarrow> None
      | Some avail \<Rightarrow>
          let reclaim = (case gp_editing p of
                None \<Rightarrow> 0
              | Some t \<Rightarrow> if ty_server_id t = i \<and> ty_drive_type t = d then int (ty_available t) * ty_quota_bytes t else 0)
          in Some (avail - pending_bytes (gp_slots p) i d + reclaim))"

definition draftQuotaBytes :: "group_page \<Rightarrow> int" where
  "draftQuotaBytes p = (case parseFloat (gp_capacityGb p) of Fin x \<Rightarrow> js_round (x * of_nat GIB) | _ \<Rightarrow> 0)"

definition draftCount :: "group_page \<Rightarrow> nat" where
  "draftCount p = (case js_Number (gp_count p) of Fin x \<Rightarrow> if x = 0 then 1 else nat (max 1 \<lfloor>x\<rfloor>) | _ \<Rightarrow> 1)"

definition selectedRemaining :: "group_page \<Rightarrow> int option" where
  "selectedRemaining p = (if gp_server p = [] then None else
     case gp_tier p of None \<Rightarrow> None | Some d \<Rightarrow> remainingBytes p (gp_server p) d)"

definition draftExceedsCapacity :: "group_page \<Rightarrow> bool" where
  "draftExceedsCapacity p = (case selectedRemaining p of None \<Rightarrow> False | Some r \<Rightarrow> r < draftQuotaBytes p * int (draftCount p))"

definition canAddSlot :: "group_page \<Rightarrow> bool" where
  "canAddSlot p \<longleftrightarrow> server_name (gp_capacity p) (gp_server p) \<noteq> None \<and> gp_tier p \<noteq> None \<and> 0 < draftQuotaBytes p
     \<and> 1 \<le> draftCount p \<and> \<not> draftExceedsCapacity p"

definition builder_config :: "group_page \<Rightarrow> slot_config" where
  "builder_config p = \<lparr>sc_serverId = gp_server p, sc_driveType = the (gp_tier p), sc_quotaBytes = draftQuotaBytes p,
     sc_premium = gp_premium p, sc_premiumExpiresAt = (if gp_premium p then gp_premiumExpiry p else [])\<rparr>"

text \<open>The first row of the same configuration takes the count; otherwise a row is appended.\<close>

fun merge_slot :: "slot_config \<Rightarrow> string \<Rightarrow> nat \<Rightarrow> draft_slot list \<Rightarrow> draft_slot list" where
  "merge_slot c name n [] = [\<lparr>dg_config = c, dg_serverName = name, dg_count = n\<rparr>]"
| "merge_slot c name n (s # ss) =
     (if dg_config s = c then s\<lparr>dg_count := dg_count s + n\<rparr> # ss else s # merge_slot c name n ss)"

definition addSlot :: "group_page \<Rightarrow> group_page" where
  "addSlot p =
     (if canAddSlot p
      then p\<lparr>gp_slots := merge_slot (builder_config p) (the (server_name (gp_capacity p) (gp_server p))) (draftCount p) (gp_slots p)\<rparr>
      else p)"

definition without :: "nat \<Rightarrow> 'a list \<Rightarrow> 'a list" where
  "without i xs = take i xs @ drop (Suc i) xs"

definition load_config :: "group_env \<Rightarrow> slot_config \<Rightarrow> nat \<Rightarrow> group_page \<Rightarrow> group_page" where
  "load_config env c n p =
     p\<lparr>gp_server := sc_serverId c, gp_tier := Some (sc_driveType c),
       gp_capacityGb := ge_num_text env (of_int (sc_quotaBytes c) / of_nat GIB), gp_premium := sc_premium c,
       gp_premiumExpiry := sc_premiumExpiresAt c, gp_count := show_nat n\<rparr>"

definition startEditSlot :: "group_env \<Rightarrow> nat \<Rightarrow> group_page \<Rightarrow> group_page" where
  "startEditSlot env i p =
     (let s = gp_slots p ! i in (load_config env (dg_config s) (dg_count s) p)\<lparr>gp_slots := without i (gp_slots p)\<rparr>)"

definition resetSlotBuilder :: "group_page \<Rightarrow> group_page" where
  "resetSlotBuilder p = p\<lparr>gp_server := [], gp_tier := None, gp_capacityGb := ''10'', gp_premium := False,
     gp_premiumExpiry := [], gp_count := ''1''\<rparr>"

definition startEditExistingSlotType :: "group_env \<Rightarrow> slot_type \<Rightarrow> group_page \<Rightarrow> group_page" where
  "startEditExistingSlotType env t p =
     p\<lparr>gp_editing := Some t, gp_actionError := None, gp_server := ty_server_id t, gp_tier := Some (ty_drive_type t),
       gp_capacityGb := ge_num_text env (of_int (ty_quota_bytes t) / of_nat GIB), gp_premium := ty_premium t,
       gp_premiumExpiry := (case ty_premium_expires_at t of Some d \<Rightarrow> take 10 d | None \<Rightarrow> []), gp_count := show_nat (ty_available t)\<rparr>"

definition cancelEditSlotType :: "group_page \<Rightarrow> group_page" where
  "cancelEditSlotType p = resetSlotBuilder (p\<lparr>gp_editing := None, gp_actionError := None\<rparr>)"

definition builder_spec :: "group_env \<Rightarrow> group_page \<Rightarrow> slot_spec" where
  "builder_spec env p = \<lparr>sq_server_id = gp_server p, sq_drive_type = the (gp_tier p), sq_quota_bytes = draftQuotaBytes p,
     sq_premium = gp_premium p,
     sq_premium_expires_at = (if gp_premium p \<and> gp_premiumExpiry p \<noteq> [] then Some (ge_iso env (gp_premiumExpiry p)) else None),
     sq_count = draftCount p\<rparr>"

definition log_group :: "group_request \<Rightarrow> group_page \<Rightarrow> group_page" where
  "log_group r p = p\<lparr>gp_log := gp_log p @ [r]\<rparr>"

definition handleSlotBuilderSubmit :: "group_env \<Rightarrow> group_page \<Rightarrow> group_page" where
  "handleSlotBuilderSubmit env p =
     (if \<not> canAddSlot p then p
      else if \<not> gp_edit p then addSlot p
      else (case gp_editing p of
              Some t \<Rightarrow> (log_group (ReplaceSlots (signatureOf t) (builder_spec env p)) p)\<lparr>gp_replacing := True\<rparr>
            | None \<Rightarrow> (log_group (AddSlots (builder_spec env p)) p)\<lparr>gp_adding := True\<rparr>))"

section \<open>Addresses and the form\<close>

text \<open>\<open>/^[^\s@]+@[^\s@]+\.[^\s@]+$/\<close>\<close>

definition EMAIL_RE :: "string \<Rightarrow> bool" where
  "EMAIL_RE s =
     (let loc = takeWhile (\<lambda>c. c \<noteq> CHR ''@'') s; dom = drop (Suc (length loc)) s
      in list_all (\<lambda>c. \<not> is_space c) s \<and> loc \<noteq> [] \<and> length loc < length s \<and> CHR ''@'' \<notin> set dom
         \<and> CHR ''.'' \<in> set (butlast (tl dom)))"

definition addEmail :: "group_page \<Rightarrow> group_page" where
  "addEmail p =
     (let email = trim (gp_emailInput p)
      in if email = [] then p
         else if \<not> EMAIL_RE email then p\<lparr>gp_emailError := Some ''Enter a valid email address''\<rparr>
         else p\<lparr>gp_emailError := None,
                gp_emails := (if list_ex (\<lambda>e. map to_lower_char e = map to_lower_char email) (gp_emails p) then gp_emails p
                              else gp_emails p @ [email]),
                gp_emailInput := []\<rparr>)"

definition form_body :: "group_env \<Rightarrow> group_page \<Rightarrow> group_body" where
  "form_body env p = \<lparr>gb_name = trim (gp_name p),
     gb_expires_at = (if gp_expiresAt p = [] then None else Some (ge_iso env (gp_expiresAt p))),
     gb_notify_emails = gp_emails p, gb_reminder = (gp_reminder p \<and> gp_expiresAt p \<noteq> [])\<rparr>"

definition spec_of :: "group_env \<Rightarrow> draft_slot \<Rightarrow> slot_spec" where
  "spec_of env s = (let c = dg_config s in
     \<lparr>sq_server_id = sc_serverId c, sq_drive_type = sc_driveType c, sq_quota_bytes = sc_quotaBytes c, sq_premium = sc_premium c,
      sq_premium_expires_at = (if sc_premium c \<and> sc_premiumExpiresAt c \<noteq> [] then Some (ge_iso env (sc_premiumExpiresAt c)) else None),
      sq_count = dg_count s\<rparr>)"

definition canCreate :: "group_page \<Rightarrow> bool" where
  "canCreate p \<longleftrightarrow> trim (gp_name p) \<noteq> [] \<and> \<not> gp_saving p \<and> (gp_edit p \<or> gp_slots p \<noteq> [])"

text \<open>The browser submits a form only when all its fields pass their own checks, also those of the builder:
  whole numbers from one on (a count of at most 500).\<close>

definition whole_field :: "nat option \<Rightarrow> string \<Rightarrow> bool" where
  "whole_field hi t \<longleftrightarrow> t = [] \<or> (case js_Number t of
     Fin x \<Rightarrow> x = of_int \<lfloor>x\<rfloor> \<and> 1 \<le> x \<and> (case hi of None \<Rightarrow> True | Some m \<Rightarrow> x \<le> of_nat m) | _ \<Rightarrow> False)"

definition form_passes :: "group_env \<Rightarrow> group_page \<Rightarrow> bool" where
  "form_passes env p \<longleftrightarrow> gp_name p \<noteq> [] \<and> ge_fields_ok env (gp_emailInput p) (gp_expiresAt p)
     \<and> whole_field None (gp_capacityGb p) \<and> whole_field (Some 500) (gp_count p)"

definition submit_group :: "group_env \<Rightarrow> group_page \<Rightarrow> group_page" where
  "submit_group env p =
     (if canCreate p \<and> form_passes env p
      then (log_group (if gp_edit p then UpdateGroup (form_body env p)
              else CreateGroup (form_body env p) (map (spec_of env) (gp_slots p))) p)\<lparr>gp_createError := None, gp_saving := True\<rparr>
      else p)"

definition seed_group :: "group_detail \<Rightarrow> group_page \<Rightarrow> group_page" where
  "seed_group g p =
     (if \<not> gp_edit p \<or> gp_seeded p then p
      else p\<lparr>gp_seeded := True, gp_name := gd_name g,
             gp_expiresAt := (case gd_expires_at g of Some d \<Rightarrow> take 10 d | None \<Rightarrow> []),
             gp_emails := gd_notify_emails g, gp_reminder := gd_reminder g\<rparr>)"

section \<open>Events\<close>

datatype group_event =
    CapacityArrives "tier_availability list"
  | GroupArrives group_detail
  | NameTyped string
  | ExpiryPicked string
  | EmailTyped string
  | AddEmailClicked
  | RemoveEmail string
  | ReminderSet bool
  | ServerPicked string
  | TierPicked drive_type
  | CapacityTyped string
  | CountTyped string
  | StatusPicked bool
  | PremiumExpiryPicked string
  | SlotSubmit
  | EditDraft nat
  | RemoveDraft nat
  | EditType slot_type
  | CancelEditType
  | DeleteType slot_type
  | AddAnswer "string option + unit"
  | ReplaceAnswer "string option + unit"
  | DeleteAnswer "string option + unit"
  | SubmitForm
  | SaveAnswer "string option + unit"

definition freeSlotTypes :: "group_page \<Rightarrow> slot_type list" where
  "freeSlotTypes p = (case gp_group p of None \<Rightarrow> [] | Some g \<Rightarrow> filter (\<lambda>t. 0 < ty_available t) (gd_slot_types g))"

definition lockedSlotTypes :: "group_page \<Rightarrow> slot_type list" where
  "lockedSlotTypes p = (case gp_group p of None \<Rightarrow> [] | Some g \<Rightarrow> filter (\<lambda>t. 0 < ty_consumed t \<or> 0 < ty_reserved t) (gd_slot_types g))"

definition slotBuilderBusy :: "group_page \<Rightarrow> bool" where
  "slotBuilderBusy p \<longleftrightarrow> gp_adding p \<or> gp_replacing p"

definition types_enabled :: "slot_type \<Rightarrow> group_page \<Rightarrow> bool" where
  "types_enabled t p \<longleftrightarrow> gp_edit p \<and> t \<in> set (freeSlotTypes p) \<and> \<not> gp_deleting p \<and> \<not> slotBuilderBusy p"

fun group_step :: "group_env \<Rightarrow> group_event \<Rightarrow> group_page \<Rightarrow> group_page" where
  "group_step env (CapacityArrives cap) p = p\<lparr>gp_capacity := cap\<rparr>"
| "group_step env (GroupArrives g) p = (if gp_edit p then seed_group g (p\<lparr>gp_group := Some g\<rparr>) else p)"
| "group_step env (NameTyped t) p = p\<lparr>gp_name := t\<rparr>"
| "group_step env (ExpiryPicked t) p = p\<lparr>gp_expiresAt := t\<rparr>"
| "group_step env (EmailTyped t) p = p\<lparr>gp_emailInput := t, gp_emailError := None\<rparr>"
| "group_step env AddEmailClicked p = addEmail p"
| "group_step env (RemoveEmail e) p = p\<lparr>gp_emails := filter (\<lambda>x. x \<noteq> e) (gp_emails p)\<rparr>"
| "group_step env (ReminderSet b) p = (if gp_expiresAt p = [] then p else p\<lparr>gp_reminder := b\<rparr>)"
| "group_step env (ServerPicked i) p =
     (if i = [] \<or> server_name (gp_capacity p) i \<noteq> None then p\<lparr>gp_server := i, gp_tier := None\<rparr> else p)"
| "group_step env (TierPicked d) p =
     (if server_name (gp_capacity p) (gp_server p) \<noteq> None \<and> tier_space (gp_capacity p) (gp_server p) d \<noteq> None
      then p\<lparr>gp_tier := Some d\<rparr> else p)"
| "group_step env (CapacityTyped t) p = p\<lparr>gp_capacityGb := t\<rparr>"
| "group_step env (CountTyped t) p = p\<lparr>gp_count := t\<rparr>"
| "group_step env (StatusPicked b) p = p\<lparr>gp_premium := b, gp_premiumExpiry := (if b then ge_trial env else [])\<rparr>"
| "group_step env (PremiumExpiryPicked t) p = (if gp_premium p then p\<lparr>gp_premiumExpiry := t\<rparr> else p)"
| "group_step env SlotSubmit p = (if gp_edit p \<and> slotBuilderBusy p then p else handleSlotBuilderSubmit env p)"
| "group_step env (EditDraft i) p = (if \<not> gp_edit p \<and> i < length (gp_slots p) then startEditSlot env i p else p)"
| "group_step env (RemoveDraft i) p = (if gp_edit p then p else p\<lparr>gp_slots := without i (gp_slots p)\<rparr>)"
| "group_step env (EditType t) p = (if types_enabled t p then startEditExistingSlotType env t p else p)"
| "group_step env CancelEditType p = (if gp_editing p = None then p else cancelEditSlotType p)"
| "group_step env (DeleteType t) p =
     (if types_enabled t p
      then (log_group (DeleteSlots (signatureOf t))
             (case gp_editing p of None \<Rightarrow> p
              | Some e \<Rightarrow> if ty_slot_id e = ty_slot_id t then cancelEditSlotType p else p))\<lparr>gp_deleting := True\<rparr>
      else p)"
| "group_step env (AddAnswer a) p =
     (if \<not> gp_adding p then p
      else case a of Inr _ \<Rightarrow> resetSlotBuilder (p\<lparr>gp_adding := False, gp_actionError := None\<rparr>)
           | Inl m \<Rightarrow> p\<lparr>gp_adding := False, gp_actionError := Some (or_else m ''Failed to add these slots'')\<rparr>)"
| "group_step env (ReplaceAnswer a) p =
     (if \<not> gp_replacing p then p
      else case a of Inr _ \<Rightarrow> cancelEditSlotType (p\<lparr>gp_replacing := False\<rparr>)
           | Inl m \<Rightarrow> p\<lparr>gp_replacing := False, gp_actionError := Some (or_else m ''Failed to save these slot changes'')\<rparr>)"
| "group_step env (DeleteAnswer a) p =
     (if \<not> gp_deleting p then p
      else p\<lparr>gp_deleting := False, gp_toasts := gp_toasts p @
        [case a of Inr _ \<Rightarrow> (True, ''Free slots deleted'') | Inl m \<Rightarrow> (False, or_else m ''Failed to delete these slots'')]\<rparr>)"
| "group_step env SubmitForm p = submit_group env p"
| "group_step env (SaveAnswer a) p =
     (if \<not> gp_saving p then p
      else case a of
        Inr _ \<Rightarrow> p\<lparr>gp_saving := False, gp_left := True, gp_toasts := gp_toasts p @
          [(True, if gp_edit p then ''Registration group updated'' else ''Registration group created'')]\<rparr>
      | Inl m \<Rightarrow> p\<lparr>gp_saving := False, gp_createError := Some (or_else m (if gp_edit p
            then ''Failed to update the registration group'' else ''Failed to create the registration group''))\<rparr>)"

definition group_run :: "group_env \<Rightarrow> group_event list \<Rightarrow> group_page \<Rightarrow> group_page" where
  "group_run env es p = fold (group_step env) es p"

section \<open>Space\<close>

lemma pending_merge:
  "pending_bytes (merge_slot c name n ss) i d
    = pending_bytes ss i d + (if sc_serverId c = i \<and> sc_driveType c = d then sc_quotaBytes c * int n else 0)"
  by (induction ss) (auto simp: pending_bytes_def algebra_simps)

lemma merge_configs: "map dg_config (merge_slot c name n ss) = (if c \<in> dg_config ` set ss then map dg_config ss else map dg_config ss @ [c])"
  by (induction ss) auto

lemma merge_new: "c \<notin> dg_config ` set ss \<Longrightarrow> merge_slot c name n ss = ss @ [\<lparr>dg_config = c, dg_serverName = name, dg_count = n\<rparr>]"
  by (induction ss) auto

lemma merge_member:
  "s \<in> set (merge_slot c name n ss) \<Longrightarrow> s \<in> set ss \<or> dg_config s = c \<and> (dg_serverName s = name \<and> dg_count s = n
     \<or> (\<exists>r\<in>set ss. dg_config r = c \<and> dg_serverName s = dg_serverName r \<and> dg_count s = dg_count r + n))"
  by (induction ss) (auto split: if_splits)

text \<open>What a row of the draft is, with the space \<open>cap\<close> that is known.\<close>

definition row_ok :: "tier_availability list \<Rightarrow> draft_slot \<Rightarrow> bool" where
  "row_ok cap s \<longleftrightarrow> 1 \<le> dg_count s \<and> 0 < sc_quotaBytes (dg_config s)
     \<and> server_name cap (sc_serverId (dg_config s)) = Some (dg_serverName s)
     \<and> tier_space cap (sc_serverId (dg_config s)) (sc_driveType (dg_config s)) \<noteq> None
     \<and> (sc_premium (dg_config s) \<or> sc_premiumExpiresAt (dg_config s) = [])"

definition fits :: "tier_availability list \<Rightarrow> draft_slot list \<Rightarrow> bool" where
  "fits cap ss \<longleftrightarrow> (\<forall>s\<in>set ss. case tier_space cap (sc_serverId (dg_config s)) (sc_driveType (dg_config s)) of None \<Rightarrow> False
     | Some a \<Rightarrow> pending_bytes ss (sc_serverId (dg_config s)) (sc_driveType (dg_config s)) \<le> a)"

definition draft_inv :: "tier_availability list \<Rightarrow> group_page \<Rightarrow> bool" where
  "draft_inv cap p \<longleftrightarrow> gp_capacity p = cap \<and> \<not> gp_edit p \<and> gp_editing p = None
     \<and> (\<forall>s\<in>set (gp_slots p). row_ok cap s) \<and> distinct (map dg_config (gp_slots p)) \<and> fits cap (gp_slots p)
     \<and> (\<forall>d. gp_tier p = Some d \<longrightarrow> server_name cap (gp_server p) \<noteq> None \<and> tier_space cap (gp_server p) d \<noteq> None)"

lemma without_split: "i < length xs \<Longrightarrow> \<exists>as bs. xs = as @ xs ! i # bs \<and> without i xs = as @ bs"
  by (metis without_def id_take_nth_drop)

lemma without_set: "set (without i xs) \<subseteq> set xs"
  by (auto simp: without_def dest: in_set_takeD in_set_dropD)

lemma pending_append: "pending_bytes (as @ bs) i d = pending_bytes as i d + pending_bytes bs i d"
  by (simp add: pending_bytes_def)

lemma pending_cons: "pending_bytes (s # ss) i d = (if sc_serverId (dg_config s) = i \<and> sc_driveType (dg_config s) = d
     then sc_quotaBytes (dg_config s) * int (dg_count s) else 0) + pending_bytes ss i d"
  by (simp add: pending_bytes_def)

lemma without_fits:
  assumes "\<forall>s\<in>set ss. row_ok cap s" "fits cap ss" "distinct (map dg_config ss)"
  shows "(\<forall>s\<in>set (without i ss). row_ok cap s) \<and> fits cap (without i ss) \<and> distinct (map dg_config (without i ss))"
proof (cases "i < length ss")
  case True
  then obtain as bs where s: "ss = as @ ss ! i # bs" and w: "without i ss = as @ bs" using without_split by blast
  have q: "0 \<le> sc_quotaBytes (dg_config (ss ! i)) * int (dg_count (ss ! i))"
    using bspec [OF assms(1) nth_mem [OF True]] by (simp add: row_ok_def)
  have le: "pending_bytes (as @ bs) j d \<le> pending_bytes ss j d" for j d
  proof -
    have "pending_bytes ss j d = pending_bytes as j d + pending_bytes (ss ! i # bs) j d"
      by (subst s) (simp only: pending_append)
    with q show ?thesis by (simp add: pending_append pending_cons)
  qed
  have sub: "set (as @ bs) \<subseteq> set ss" by (subst s) auto
  have "fits cap (as @ bs)" unfolding fits_def
  proof
    fix x assume "x \<in> set (as @ bs)"
    with assms(2) sub have "case tier_space cap (sc_serverId (dg_config x)) (sc_driveType (dg_config x)) of None \<Rightarrow> False
     | Some a \<Rightarrow> pending_bytes ss (sc_serverId (dg_config x)) (sc_driveType (dg_config x)) \<le> a" unfolding fits_def by blast
    then show "case tier_space cap (sc_serverId (dg_config x)) (sc_driveType (dg_config x)) of None \<Rightarrow> False
     | Some a \<Rightarrow> pending_bytes (as @ bs) (sc_serverId (dg_config x)) (sc_driveType (dg_config x)) \<le> a"
      using order_trans [OF le] by (auto split: option.splits)
  qed
  moreover have "distinct (map dg_config (as @ ss ! i # bs))" using assms(3) by (simp only: s [symmetric])
  then have "distinct (map dg_config (as @ bs))" by auto
  ultimately show ?thesis unfolding w using assms(1) sub by blast
qed (use assms in \<open>simp add: without_def\<close>)

lemma addSlot_inv:
  assumes inv: "draft_inv cap p" and ids: "[] \<notin> ta_server_id ` set cap"
  shows "draft_inv cap (addSlot p)"
proof (cases "canAddSlot p")
  case True
  from True inv obtain name d where n: "server_name cap (gp_server p) = Some name" and d: "gp_tier p = Some d"
    by (auto simp: canAddSlot_def draft_inv_def)
  from n ids have "gp_server p \<noteq> []" by (force simp: server_name_def find_Some_iff in_set_conv_nth)
  with inv d obtain a where a: "tier_space cap (gp_server p) d = Some a"
    and le: "draftQuotaBytes p * int (draftCount p) \<le> a - pending_bytes (gp_slots p) (gp_server p) d"
    using True by (auto simp: draft_inv_def canAddSlot_def draftExceedsCapacity_def selectedRemaining_def remainingBytes_def)
  let ?c = "builder_config p" and ?ss = "merge_slot (builder_config p) name (draftCount p) (gp_slots p)"
  have c: "sc_serverId ?c = gp_server p" "sc_driveType ?c = d" "sc_quotaBytes ?c = draftQuotaBytes p"
    "sc_premium ?c \<or> sc_premiumExpiresAt ?c = []" using d by (auto simp: builder_config_def)
  have rows: "row_ok cap s" if "s \<in> set ?ss" for s
    using merge_member [OF that] inv True c n a by (auto simp: row_ok_def draft_inv_def canAddSlot_def)
  have dist: "distinct (map dg_config ?ss)"
    using inv by (auto simp: merge_configs draft_inv_def)
  have "fits cap ?ss" unfolding fits_def
  proof
    fix s assume s: "s \<in> set ?ss"
    show "case tier_space cap (sc_serverId (dg_config s)) (sc_driveType (dg_config s)) of None \<Rightarrow> False
       | Some x \<Rightarrow> pending_bytes ?ss (sc_serverId (dg_config s)) (sc_driveType (dg_config s)) \<le> x"
    proof (cases "sc_serverId (dg_config s) = gp_server p \<and> sc_driveType (dg_config s) = d")
      case True
      with a le c show ?thesis by (simp add: pending_merge)
    next
      case False
      with c have "dg_config s \<noteq> ?c" by auto
      with merge_member [OF s] have "s \<in> set (gp_slots p)" by blast
      with inv have "case tier_space cap (sc_serverId (dg_config s)) (sc_driveType (dg_config s)) of None \<Rightarrow> False
       | Some x \<Rightarrow> pending_bytes (gp_slots p) (sc_serverId (dg_config s)) (sc_driveType (dg_config s)) \<le> x"
        by (simp add: draft_inv_def fits_def)
      moreover have "\<not> (sc_serverId ?c = sc_serverId (dg_config s) \<and> sc_driveType ?c = sc_driveType (dg_config s))"
        using False c by auto
      ultimately show ?thesis by (auto simp: pending_merge split: option.splits)
    qed
  qed
  with rows dist inv n True show ?thesis by (simp add: addSlot_def draft_inv_def)
qed (use inv in \<open>simp add: addSlot_def\<close>)

lemma startEditSlot_inv:
  assumes inv: "draft_inv cap p" and i: "i < length (gp_slots p)"
  shows "draft_inv cap (startEditSlot env i p)"
proof -
  from inv i have "row_ok cap (gp_slots p ! i)" by (simp add: draft_inv_def)
  moreover have "(\<forall>s\<in>set (without i (gp_slots p)). row_ok cap s) \<and> fits cap (without i (gp_slots p))
      \<and> distinct (map dg_config (without i (gp_slots p)))"
    using inv by (intro without_fits) (simp_all add: draft_inv_def)
  ultimately show ?thesis
    using inv by (simp add: draft_inv_def startEditSlot_def load_config_def Let_def row_ok_def)
qed

lemma group_step_inv:
  assumes inv: "draft_inv cap p" and ids: "[] \<notin> ta_server_id ` set cap" and e: "\<forall>c. e \<noteq> CapacityArrives c"
  shows "draft_inv cap (group_step env e p)"
proof (cases e)
  case SlotSubmit
  with addSlot_inv [OF inv ids] inv show ?thesis by (simp add: handleSlotBuilderSubmit_def draft_inv_def)
next
  case (EditDraft i)
  with startEditSlot_inv [OF inv] inv show ?thesis by simp
next
  case (RemoveDraft i)
  have "(\<forall>s\<in>set (without i (gp_slots p)). row_ok cap s) \<and> fits cap (without i (gp_slots p))
      \<and> distinct (map dg_config (without i (gp_slots p)))"
    using inv by (intro without_fits) (simp_all add: draft_inv_def)
  with RemoveDraft inv show ?thesis by (simp add: draft_inv_def)
next
  case (SaveAnswer a)
  with inv show ?thesis by (cases a) (auto simp: draft_inv_def)
next
  case AddEmailClicked
  with inv show ?thesis by (simp add: draft_inv_def addEmail_def Let_def)
next
  case SubmitForm
  with inv show ?thesis by (simp add: draft_inv_def submit_group_def log_group_def)
next
  case (AddAnswer a)
  with inv show ?thesis by (cases a) (auto simp: draft_inv_def resetSlotBuilder_def)
next
  case (ReplaceAnswer a)
  with inv show ?thesis by (cases a) (auto simp: draft_inv_def resetSlotBuilder_def cancelEditSlotType_def)
qed (use inv e in \<open>auto simp: draft_inv_def types_enabled_def\<close>)

lemma group_run_inv:
  assumes "draft_inv cap p" "[] \<notin> ta_server_id ` set cap" "list_all (\<lambda>e. \<forall>c. e \<noteq> CapacityArrives c) es"
  shows "draft_inv cap (group_run env es p)"
  using assms(1,3)
proof (induction es arbitrary: p)
  case (Cons e es)
  from Cons.prems have "draft_inv cap (group_step env e p)" by (intro group_step_inv assms(2)) auto
  with Cons.IH [of "group_step env e p"] Cons.prems(2) show ?case by (simp add: group_run_def)
qed (simp add: group_run_def)

lemma open_group_inv: "draft_inv cap ((open_group False)\<lparr>gp_capacity := cap\<rparr>)"
  by (simp add: draft_inv_def open_group_def fits_def)

text \<open>C29. However rows are added, merged, edited and removed: while the capacity does not change, the slots of a draft
  never take more than the space of any server and tier, every row has a positive size and count on a server that
  is known, and no configuration appears twice.\<close>
theorem draft_fits_servers:
  assumes "[] \<notin> ta_server_id ` set cap" and "list_all (\<lambda>e. \<forall>c. e \<noteq> CapacityArrives c) es"
    and "p = group_run env es ((open_group False)\<lparr>gp_capacity := cap\<rparr>)"
  shows "fits cap (gp_slots p) \<and> distinct (map dg_config (gp_slots p))
    \<and> list_all (\<lambda>s. 1 \<le> dg_count s \<and> 0 < sc_quotaBytes (dg_config s) \<and> server_name cap (sc_serverId (dg_config s)) = Some (dg_serverName s)) (gp_slots p)"
  using group_run_inv [OF open_group_inv assms(1,2), of env] assms(3) by (auto simp: draft_inv_def list_all_iff row_ok_def)

definition plain_env :: group_env where
  "plain_env = \<lparr>ge_num_text = (\<lambda>x. show_nat (nat \<lfloor>x\<rfloor>)), ge_iso = (\<lambda>d. d @ ''T00:00:00.000Z''), ge_trial = ''2026-12-03'',
     ge_fields_ok = (\<lambda>a d. True)\<rparr>"

definition one_server :: "tier_availability list" where
  "one_server = [\<lparr>ta_server_id = ''s'', ta_server_name = ''S'', ta_drive_type = HddDrive, ta_available = 100 * int GIB\<rparr>]"

definition add_ten :: "group_event list" where
  "add_ten = [ServerPicked ''s'', TierPicked HddDrive, CapacityTyped ''40'', SlotSubmit, CountTyped ''2'', SlotSubmit]"

theorem draft_fits_servers_witness:
  "fits one_server (gp_slots (group_run plain_env add_ten ((open_group False)\<lparr>gp_capacity := one_server\<rparr>)))"
  using draft_fits_servers [of one_server add_ten _ plain_env] by (simp add: one_server_def add_ten_def)

text \<open>A row that is edited and added again unchanged comes back as it was, at the end. (A number's text reads back as
  that number.)\<close>
theorem edit_returns_row:
  assumes inv: "draft_inv cap p" and ids: "[] \<notin> ta_server_id ` set cap" and i: "i < length (gp_slots p)"
    and num: "parseFloat (ge_num_text env (of_int (sc_quotaBytes (dg_config (gp_slots p ! i))) / of_nat GIB))
      = Fin (of_int (sc_quotaBytes (dg_config (gp_slots p ! i))) / of_nat GIB)"
  shows "gp_slots (group_step env SlotSubmit (group_step env (EditDraft i) p)) = without i (gp_slots p) @ [gp_slots p ! i]"
proof -
  let ?s = "gp_slots p ! i" and ?q = "startEditSlot env i p"
  obtain as bs where s: "gp_slots p = as @ ?s # bs" and w: "without i (gp_slots p) = as @ bs" using without_split [OF i] by blast
  from inv i have row: "row_ok cap ?s" by (simp add: draft_inv_def)
  have qinv: "draft_inv cap ?q" by (rule startEditSlot_inv [OF inv i])
  have slots: "gp_slots ?q = without i (gp_slots p)" by (simp add: startEditSlot_def Let_def)
  have G: "(of_nat GIB :: rat) \<noteq> 0" by (simp add: GIB_def)
  have quota: "draftQuotaBytes ?q = sc_quotaBytes (dg_config ?s)"
    using G js_round_of_int by (simp add: draftQuotaBytes_def startEditSlot_def load_config_def Let_def num)
  from row have cnt: "draftCount ?q = dg_count ?s"
    by (simp add: draftCount_def startEditSlot_def load_config_def Let_def js_Number_show_nat row_ok_def)
  have conf: "builder_config ?q = dg_config ?s"
    using row quota by (auto simp: builder_config_def row_ok_def startEditSlot_def load_config_def Let_def intro: slot_config.equality)
  have new: "dg_config ?s \<notin> dg_config ` set (without i (gp_slots p))"
  proof -
    have "distinct (map dg_config (as @ ?s # bs))" using inv by (simp only: s [symmetric] draft_inv_def)
    then show ?thesis by (auto simp: w)
  qed
  from row inv obtain a where name: "server_name cap (sc_serverId (dg_config ?s)) = Some (dg_serverName ?s)"
    and a: "tier_space cap (sc_serverId (dg_config ?s)) (sc_driveType (dg_config ?s)) = Some a"
    by (auto simp: row_ok_def)
  have fields: "gp_server ?q = sc_serverId (dg_config ?s)" "gp_tier ?q = Some (sc_driveType (dg_config ?s))" "gp_capacity ?q = cap"
    using inv by (simp_all add: startEditSlot_def load_config_def Let_def draft_inv_def)
  have "pending_bytes (gp_slots p) (sc_serverId (dg_config ?s)) (sc_driveType (dg_config ?s)) \<le> a"
    using inv a nth_mem [OF i] unfolding draft_inv_def fits_def by fastforce
  moreover have "pending_bytes (gp_slots p) (sc_serverId (dg_config ?s)) (sc_driveType (dg_config ?s))
      = pending_bytes (as @ bs) (sc_serverId (dg_config ?s)) (sc_driveType (dg_config ?s))
        + sc_quotaBytes (dg_config ?s) * int (dg_count ?s)"
    by (subst s) (simp add: pending_append pending_cons)
  moreover have "gp_editing ?q = None" "\<not> gp_edit ?q" using qinv by (simp_all add: draft_inv_def)
  ultimately have "canAddSlot ?q"
    using name a row quota cnt slots w
    by (simp add: canAddSlot_def fields draftExceedsCapacity_def selectedRemaining_def remainingBytes_def row_ok_def)
  with inv i name fields conf cnt slots new \<open>\<not> gp_edit ?q\<close> show ?thesis
    by (simp add: draft_inv_def handleSlotBuilderSubmit_def addSlot_def merge_new)
qed

definition one_row :: group_page where
  "one_row = (open_group False)\<lparr>gp_capacity := one_server, gp_slots := [\<lparr>dg_config = \<lparr>sc_serverId = ''s'', sc_driveType = HddDrive,
     sc_quotaBytes = 2 * int GIB, sc_premium = False, sc_premiumExpiresAt = []\<rparr>, dg_serverName = ''S'', dg_count = 3\<rparr>]\<rparr>"

theorem edit_returns_row_witness:
  "gp_slots (group_step plain_env SlotSubmit (group_step plain_env (EditDraft 0) one_row)) = gp_slots one_row"
proof -
  have "draft_inv one_server one_row"
    by (simp add: draft_inv_def one_row_def open_group_def row_ok_def fits_def one_server_def server_name_def tier_space_def
        pending_bytes_def GIB_def)
  then have "gp_slots (group_step plain_env SlotSubmit (group_step plain_env (EditDraft 0) one_row))
      = without 0 (gp_slots one_row) @ [gp_slots one_row ! 0]"
    by (rule edit_returns_row) (simp_all add: one_server_def one_row_def plain_env_def GIB_def parseFloat_show_nat [of 2, simplified])
  then show ?thesis by (simp add: one_row_def without_def)
qed

text \<open>Editing a second row before the first was added again loses the first one.\<close>
lemma second_edit_loses_row:
  assumes "gp_slots p = [a, b]" "\<not> gp_edit p"
  shows "gp_slots (group_run env [EditDraft 0, EditDraft 0] p) = []"
  using assms by (simp add: group_run_def startEditSlot_def load_config_def without_def Let_def)

section \<open>Requests\<close>

definition spec_ok :: "slot_spec \<Rightarrow> bool" where
  "spec_ok q \<longleftrightarrow> 1 \<le> sq_count q \<and> 0 < sq_quota_bytes q \<and> (sq_premium q \<or> sq_premium_expires_at q = None)"

definition body_ok :: "group_body \<Rightarrow> bool" where
  "body_ok b \<longleftrightarrow> gb_name b \<noteq> [] \<and> trim (gb_name b) = gb_name b \<and> (gb_reminder b \<longrightarrow> gb_expires_at b \<noteq> None)"

definition group_request_ok :: "group_request \<Rightarrow> bool" where
  "group_request_ok r =
     (case r of CreateGroup b qs \<Rightarrow> body_ok b \<and> qs \<noteq> [] \<and> list_all spec_ok qs
      | UpdateGroup b \<Rightarrow> body_ok b
      | AddSlots q \<Rightarrow> spec_ok q
      | ReplaceSlots g q \<Rightarrow> spec_ok q
      | DeleteSlots g \<Rightarrow> True)"

definition page_inv :: "group_page \<Rightarrow> bool" where
  "page_inv p \<longleftrightarrow> (\<forall>s\<in>set (gp_slots p). 1 \<le> dg_count s \<and> 0 < sc_quotaBytes (dg_config s))
     \<and> (\<forall>r\<in>set (gp_log p). group_request_ok r)"

lemma body_ok_form: "canCreate p \<Longrightarrow> body_ok (form_body env p)"
  by (auto simp: body_ok_def form_body_def canCreate_def trim_idem)

lemma spec_ok_row: "1 \<le> dg_count s \<Longrightarrow> 0 < sc_quotaBytes (dg_config s) \<Longrightarrow> spec_ok (spec_of env s)"
  by (simp add: spec_ok_def spec_of_def Let_def)

lemma spec_ok_builder: "canAddSlot p \<Longrightarrow> spec_ok (builder_spec env p)"
  by (simp add: spec_ok_def builder_spec_def canAddSlot_def)

lemma submit_slots_inv:
  assumes "page_inv p" shows "page_inv (handleSlotBuilderSubmit env p)"
proof (cases "canAddSlot p")
  case True
  show ?thesis
  proof (cases "gp_edit p")
    case True
    with \<open>canAddSlot p\<close> assms show ?thesis
      by (auto simp: handleSlotBuilderSubmit_def page_inv_def log_group_def group_request_ok_def spec_ok_builder split: option.splits)
  next
    case False
    have "1 \<le> dg_count s \<and> 0 < sc_quotaBytes (dg_config s)"
      if "s \<in> set (merge_slot (builder_config p) name (draftCount p) (gp_slots p))" for s name
      using merge_member [OF that] \<open>canAddSlot p\<close> assms
      by (auto simp: page_inv_def canAddSlot_def builder_config_def)
    with False \<open>canAddSlot p\<close> assms show ?thesis by (auto simp: handleSlotBuilderSubmit_def addSlot_def page_inv_def)
  qed
qed (use assms in \<open>simp add: handleSlotBuilderSubmit_def\<close>)

lemma page_step_inv: assumes "page_inv p" shows "page_inv (group_step env e p)"
proof (cases e)
  case SlotSubmit
  with submit_slots_inv [OF assms] assms show ?thesis by simp
next
  case (EditDraft i)
  with assms show ?thesis
    by (auto simp: page_inv_def startEditSlot_def load_config_def Let_def dest: subsetD [OF without_set])
next
  case (RemoveDraft i)
  with assms show ?thesis by (auto simp: page_inv_def dest: subsetD [OF without_set])
next
  case SubmitForm
  have "group_request_ok (if gp_edit p then UpdateGroup (form_body env p)
       else CreateGroup (form_body env p) (map (spec_of env) (gp_slots p)))" if "canCreate p"
    using that assms by (auto simp: group_request_ok_def body_ok_form list_all_iff page_inv_def canCreate_def spec_ok_row)
  with SubmitForm assms show ?thesis by (simp add: submit_group_def log_group_def page_inv_def)
next
  case (DeleteType t)
  with assms show ?thesis
    by (auto simp: page_inv_def log_group_def group_request_ok_def cancelEditSlotType_def resetSlotBuilder_def split: option.splits)
next
  case (GroupArrives g)
  with assms show ?thesis by (simp add: page_inv_def seed_group_def)
next
  case AddEmailClicked
  with assms show ?thesis by (simp add: page_inv_def addEmail_def Let_def)
next
  case (EditType t)
  with assms show ?thesis by (simp add: page_inv_def startEditExistingSlotType_def)
next
  case CancelEditType
  with assms show ?thesis by (simp add: page_inv_def cancelEditSlotType_def resetSlotBuilder_def)
next
  case (AddAnswer a)
  with assms show ?thesis by (cases a) (simp_all add: page_inv_def resetSlotBuilder_def)
next
  case (ReplaceAnswer a)
  with assms show ?thesis by (cases a) (simp_all add: page_inv_def cancelEditSlotType_def resetSlotBuilder_def)
next
  case (SaveAnswer a)
  with assms show ?thesis by (cases a) (simp_all add: page_inv_def)
qed (use assms in \<open>simp_all add: page_inv_def\<close>)

text \<open>Every request of the page is sound, in whatever order fields change, rows are edited and answers come: a group has
  a name without surrounding blanks and asks for a reminder only with an expiry; a new one has slots; all slots have a
  positive size and count, and only premium ones an expiry of their own.\<close>
theorem group_requests_are_sound:
  "list_all group_request_ok (gp_log (group_run env es (open_group edit)))"
proof -
  have "page_inv (group_run env es (open_group edit))" unfolding group_run_def
    by (rule fold_invariant [where Q = "\<lambda>_. True"]) (simp_all add: page_step_inv, simp add: page_inv_def open_group_def)
  then show ?thesis by (simp add: page_inv_def list_all_iff)
qed

section \<open>Addresses, the form and the link\<close>

lemma emails_kept:
  assumes "distinct (map (map to_lower_char) (gp_emails p))" "list_all EMAIL_RE (gp_emails p)"
  shows "distinct (map (map to_lower_char) (gp_emails (addEmail p))) \<and> list_all EMAIL_RE (gp_emails (addEmail p))"
  using assms by (auto simp: addEmail_def Let_def list_ex_iff)

text \<open>The group is loaded into the fields once: later answers of the same query leave them as they are.\<close>
lemma seeded_once: "seed_group g' (seed_group g p) = seed_group g p"
  by (simp add: seed_group_def)

lemma edited_name_survives_refetch:
  "gp_seeded p \<Longrightarrow> gp_name (group_step env (GroupArrives g) p) = gp_name p"
  by (simp add: seed_group_def)

text \<open>The two lists of an edited group show each slot type that has any slots, with both kinds in both lists.\<close>
lemma slot_lists_cover:
  "gp_group p = Some g \<Longrightarrow> t \<in> set (gd_slot_types g) \<Longrightarrow> 0 < ty_available t + ty_consumed t + ty_reserved t \<Longrightarrow>
     t \<in> set (freeSlotTypes p) \<or> t \<in> set (lockedSlotTypes p)"
  by (auto simp: freeSlotTypes_def lockedSlotTypes_def)

text \<open>The space of the slots being replaced counts as free for their own tier.\<close>
lemma replaced_space_is_reclaimed:
  "gp_editing p = Some t \<Longrightarrow> tier_space (gp_capacity p) (ty_server_id t) (ty_drive_type t) = Some a \<Longrightarrow>
     remainingBytes p (ty_server_id t) (ty_drive_type t)
       = Some (a - pending_bytes (gp_slots p) (ty_server_id t) (ty_drive_type t) + int (ty_available t) * ty_quota_bytes t)"
  by (simp add: remainingBytes_def)

text \<open>A slot of one and a half GB can be added, but the size stays in its field, which only admits whole numbers: the
  browser does not submit the form then.\<close>
lemma fractional_size_blocks_form:
  "canAddSlot (group_run plain_env [ServerPicked ''s'', TierPicked HddDrive, CapacityTyped ''1.5'']
      ((open_group False)\<lparr>gp_capacity := one_server, gp_name := ''Club''\<rparr>))"
  "\<not> form_passes env (p\<lparr>gp_capacityGb := ''1.5''\<rparr>)"
proof -
  have n: "parseFloat ''1.5'' = Fin (3 / 2)" "js_Number ''1.5'' = Fin (3 / 2)" by code_simp+
  have "\<lfloor>3 / 2 :: rat\<rfloor> = 1" by (rule floor_unique) simp_all
  with n(2) show "\<not> form_passes env (p\<lparr>gp_capacityGb := ''1.5''\<rparr>)" by (simp add: form_passes_def whole_field_def)
  have "js_round (3 / 2 * of_nat GIB) = 1610612736" using js_round_of_int [of 1610612736] by (simp add: GIB_def)
  moreover have "js_Number ''1'' = Fin 1" by code_simp
  ultimately show "canAddSlot (group_run plain_env [ServerPicked ''s'', TierPicked HddDrive, CapacityTyped ''1.5'']
      ((open_group False)\<lparr>gp_capacity := one_server, gp_name := ''Club''\<rparr>))"
    using n(1) by (simp add: canAddSlot_def group_run_def open_group_def one_server_def server_name_def tier_space_def
        draftQuotaBytes_def draftCount_def draftExceedsCapacity_def selectedRemaining_def remainingBytes_def pending_bytes_def GIB_def)
qed

text \<open>The name in the link is made of small letters, digits and hyphens, and is never empty.\<close>
lemma hyphens_chars: "set (hyphens run s) \<subseteq> {c. is_lower c \<or> is_digit c} \<union> {CHR ''-''}"
  by (induction run s rule: hyphens.induct) auto

lemma strip_hyphens_set: "set (strip_hyphens s) \<subseteq> set s"
  by (auto simp: strip_hyphens_def Let_def dest!: set_dropWhileD)

lemma link_name_ok: "link_name name \<noteq> [] \<and> list_all (\<lambda>c. is_lower c \<or> is_digit c \<or> c = CHR ''-'') (link_name name)"
proof -
  have "list_all (\<lambda>c. is_lower c \<or> is_digit c \<or> c = CHR ''-'') ''group-name''" by code_simp
  moreover have "list_all (\<lambda>c. is_lower c \<or> is_digit c \<or> c = CHR ''-'') (strip_hyphens (hyphens False s))" for s
    using strip_hyphens_set [of "hyphens False s"] hyphens_chars [of False s] by (auto simp: list_all_iff)
  ultimately show ?thesis by (simp add: link_name_def Let_def)
qed

end
