(* ===== verification/AdminRequests.thy ===== *)
theory AdminRequests
  imports GroupSlots SortView Orders "HOL-Library.Product_Lexorder"
begin

text \<open>
  The administrator's page of requests, \<open>frontend/src/routes/_auth.admin/requests.tsx\<close>: invitations with
  their quota, drive and grants, the applications of the access form and their provisioning, and the list of
  registration groups of \<open>components/GroupRegistrationSection.tsx\<close>. Answers are events; the ISO text of a
  date is the parameter \<open>to_iso\<close>.
\<close>

section \<open>The quota picker\<close>

definition QUOTA_OPTIONS :: "(string \<times> nat) list" where
  "QUOTA_OPTIONS = map (\<lambda>p. (sp_label p, sp_addBytes p)) STORAGE_PLANS"

record quota_picker =
  qp_bytes :: int
  qp_useCustom :: bool
  qp_customGb :: string

definition open_picker :: quota_picker where
  "open_picker = \<lparr>qp_bytes = int (snd (hd QUOTA_OPTIONS)), qp_useCustom = False, qp_customGb = []\<rparr>"

datatype picker_event = PickOption nat | PickCustom | TypeCustom string

definition picker_step :: "picker_event \<Rightarrow> quota_picker \<Rightarrow> quota_picker" where
  "picker_step e q =
     (case e of
        PickOption i \<Rightarrow> if i < length QUOTA_OPTIONS then q\<lparr>qp_useCustom := False, qp_bytes := int (snd (QUOTA_OPTIONS ! i))\<rparr> else q
      | PickCustom \<Rightarrow> q\<lparr>qp_useCustom := True\<rparr>
      | TypeCustom t \<Rightarrow> if qp_useCustom q then q\<lparr>qp_customGb := t\<rparr> else q)"

text \<open>A number field holds no infinite number.\<close>

definition effectiveQuota :: "quota_picker \<Rightarrow> int" where
  "effectiveQuota q =
     (if qp_useCustom q then (case parseFloat (qp_customGb q) of Fin x \<Rightarrow> js_round (x * of_nat GIB) | _ \<Rightarrow> 0) else qp_bytes q)"

text \<open>The size an application asks for, on the ladder: the smallest plan that covers it, else the largest.\<close>

definition snap_quota :: "nat \<Rightarrow> int" where
  "snap_quota desired_gb =
     (case find (\<lambda>p. desired_gb * GIB \<le> snd p) QUOTA_OPTIONS of
        Some p \<Rightarrow> int (snd p) | None \<Rightarrow> int (snd (last QUOTA_OPTIONS)))"

definition send_blocked :: "quota_picker \<Rightarrow> int option \<Rightarrow> bool" where
  "send_blocked q available \<longleftrightarrow> (qp_useCustom q \<and> effectiveQuota q \<le> 0)
     \<or> (case available of None \<Rightarrow> False | Some a \<Rightarrow> a < effectiveQuota q)"

section \<open>Invitations\<close>

record invite_drive = drive_summary +
  iv_hostname :: string

definition add_host :: "invite_drive \<Rightarrow> (string \<times> invite_drive list) list \<Rightarrow> (string \<times> invite_drive list) list" where
  "add_host d gs =
     (if list_ex (\<lambda>g. fst g = iv_hostname d) gs then map (\<lambda>g. if fst g = iv_hostname d then (fst g, snd g @ [d]) else g) gs
      else gs @ [(iv_hostname d, [d])])"

definition nodeGroups :: "invite_drive list \<Rightarrow> (string \<times> invite_drive list) list" where
  "nodeGroups ds = fold add_host ds []"

record invitation =
  in_id :: string
  in_accepted :: bool
  in_revoked :: bool
  in_expires_ms :: int
  in_url :: bool

datatype invite_status = InvAccepted | InvRevoked | InvExpired | InvPending

definition invite_status_of :: "int \<Rightarrow> invitation \<Rightarrow> invite_status" where
  "invite_status_of now i =
     (if in_accepted i then InvAccepted else if in_revoked i then InvRevoked
      else if in_expires_ms i < now then InvExpired else InvPending)"

record invite_call =
  ic_email :: string
  ic_quota :: int
  ic_admin :: bool
  ic_premium :: bool
  ic_drive :: "string option"
  ic_premium_expires :: "string option"

datatype invite_request = Invite invite_call | ResendInvite string | RevokeInvite string

record invite_page =
  ip_email :: string
  ip_picker :: quota_picker
  ip_admin :: bool
  ip_premium :: bool
  ip_expires :: string
  ip_drive :: string
  ip_drives :: "invite_drive list"
  ip_capacity :: "int option"
  ip_invitations :: "invitation list"
  ip_creating :: bool
  ip_error :: "string option"
  ip_lastResent :: "string \<Rightarrow> int option"
  ip_pendingResend :: "string option"
  ip_log :: "invite_request list"
  ip_toasts :: "(bool \<times> string) list"

definition open_invites :: invite_page where
  "open_invites = \<lparr>ip_email = [], ip_picker = open_picker, ip_admin = False, ip_premium = False, ip_expires = [], ip_drive = [],
     ip_drives = [], ip_capacity = None, ip_invitations = [], ip_creating = False, ip_error = None,
     ip_lastResent = Map.empty, ip_pendingResend = None, ip_log = [], ip_toasts = []\<rparr>"

definition selectedDrive :: "invite_page \<Rightarrow> invite_drive option" where
  "selectedDrive p = find (\<lambda>d. ds_drive_id d = ip_drive p) (ip_drives p)"

definition maxAvailableBytes :: "invite_page \<Rightarrow> int option" where
  "maxAvailableBytes p =
     (case selectedDrive p of
        Some d \<Rightarrow> Some (max 0 (int (ds_capacity_bytes d) - int (ds_allocated_quota_bytes d)))
      | None \<Rightarrow> ip_capacity p)"

definition RESEND_COOLDOWN_MS :: int where "RESEND_COOLDOWN_MS = 30000"

definition resendCooldownRemaining :: "int \<Rightarrow> invite_page \<Rightarrow> string \<Rightarrow> int" where
  "resendCooldownRemaining now p i =
     (case ip_lastResent p i of None \<Rightarrow> 0 | Some t \<Rightarrow> if t = 0 then 0 else max 0 (RESEND_COOLDOWN_MS - (now - t)))"

definition invite_call_of :: "(string \<Rightarrow> string) \<Rightarrow> invite_page \<Rightarrow> invite_call" where
  "invite_call_of to_iso p =
     \<lparr>ic_email = ip_email p, ic_quota = effectiveQuota (ip_picker p), ic_admin = ip_admin p, ic_premium = ip_premium p,
      ic_drive = (if ip_drive p = [] then None else Some (ip_drive p)),
      ic_premium_expires = (if ip_premium p \<and> \<not> ip_admin p \<and> ip_expires p \<noteq> [] then Some (to_iso (ip_expires p)) else None)\<rparr>"

datatype invite_event =
    InvitesArrive "invitation list"
  | DrivesArrive "invite_drive list"
  | CapacityKnown int
  | InviteEmailTyped string
  | InvitePicker picker_event
  | ToggleDrive string
  | AdminTicked bool
  | PremiumTicked bool
  | TrialPicked string
  | SubmitInvite
  | InviteAnswer "string option + unit"
  | ClickResend int string             \<comment> \<open>at a time\<close>
  | ResendAnswer int string bool
  | RevokeConfirmed int string

fun invite_step :: "(string \<Rightarrow> string) \<Rightarrow> invite_event \<Rightarrow> invite_page \<Rightarrow> invite_page" where
  "invite_step to_iso (InvitesArrive xs) p = p\<lparr>ip_invitations := xs\<rparr>"
| "invite_step to_iso (DrivesArrive ds) p = p\<lparr>ip_drives := ds\<rparr>"
| "invite_step to_iso (CapacityKnown b) p = p\<lparr>ip_capacity := Some b\<rparr>"
| "invite_step to_iso (InviteEmailTyped t) p = p\<lparr>ip_email := t\<rparr>"
| "invite_step to_iso (InvitePicker e) p = p\<lparr>ip_picker := picker_step e (ip_picker p)\<rparr>"
| "invite_step to_iso (ToggleDrive i) p =
     (if i \<in> ds_drive_id ` set (ip_drives p) then p\<lparr>ip_drive := (if i = ip_drive p then [] else i)\<rparr> else p)"
| "invite_step to_iso (AdminTicked b) p = p\<lparr>ip_admin := b, ip_premium := (if b then False else ip_premium p)\<rparr>"
| "invite_step to_iso (PremiumTicked b) p =
     (if ip_admin p then p else p\<lparr>ip_premium := b, ip_expires := (if b then ip_expires p else [])\<rparr>)"
| "invite_step to_iso (TrialPicked t) p = (if ip_premium p \<and> \<not> ip_admin p then p\<lparr>ip_expires := t\<rparr> else p)"
| "invite_step to_iso SubmitInvite p =
     (if ip_email p = [] \<or> ip_creating p \<or> send_blocked (ip_picker p) (maxAvailableBytes p) then p
      else p\<lparr>ip_error := None, ip_creating := True, ip_log := ip_log p @ [Invite (invite_call_of to_iso p)]\<rparr>)"
| "invite_step to_iso (InviteAnswer a) p =
     (if \<not> ip_creating p then p
      else case a of
        Inr _ \<Rightarrow> p\<lparr>ip_creating := False, ip_email := [], ip_admin := False, ip_premium := False, ip_expires := [], ip_drive := [],
                   ip_error := None, ip_toasts := ip_toasts p @ [(True, ''Invitation sent'')]\<rparr>
      | Inl m \<Rightarrow> p\<lparr>ip_creating := False, ip_error := Some (or_else m ''Failed to create invitation'')\<rparr>)"
| "invite_step to_iso (ClickResend now i) p =
     (if list_ex (\<lambda>x. in_id x = i \<and> invite_status_of now x \<in> {InvPending, InvExpired}) (ip_invitations p)
         \<and> resendCooldownRemaining now p i \<le> 0 \<and> ip_pendingResend p \<noteq> Some i
      then p\<lparr>ip_pendingResend := Some i, ip_log := ip_log p @ [ResendInvite i]\<rparr> else p)"
| "invite_step to_iso (ResendAnswer now i ok) p =
     p\<lparr>ip_pendingResend := None, ip_lastResent := (if ok then (ip_lastResent p)(i \<mapsto> now) else ip_lastResent p),
       ip_toasts := ip_toasts p @ [if ok then (True, ''Invitation email resent successfully'') else (False, ''Failed to resend invitation'')]\<rparr>"
| "invite_step to_iso (RevokeConfirmed now i) p =
     (if list_ex (\<lambda>x. in_id x = i \<and> invite_status_of now x \<in> {InvPending, InvExpired}) (ip_invitations p)
      then p\<lparr>ip_log := ip_log p @ [RevokeInvite i]\<rparr> else p)"

definition invite_run :: "(string \<Rightarrow> string) \<Rightarrow> invite_event list \<Rightarrow> invite_page \<Rightarrow> invite_page" where
  "invite_run to_iso es p = fold (invite_step to_iso) es p"

section \<open>Applications\<close>

record application =
  ap_id :: string
  ap_desired_gb :: nat
  ap_provisioned :: bool

record provision_call =
  pc_id :: string
  pc_quota :: int
  pc_admin :: bool

record access_page =
  ac_subs :: "application list"
  ac_capacity :: "int option"
  ac_provisioning :: "string option"
  ac_picker :: quota_picker
  ac_admin :: bool
  ac_pending :: "string option"
  ac_log :: "provision_call list"
  ac_toasts :: "(bool \<times> string) list"

definition open_access :: access_page where
  "open_access = \<lparr>ac_subs = [], ac_capacity = None, ac_provisioning = None, ac_picker = open_picker, ac_admin = False,
     ac_pending = None, ac_log = [], ac_toasts = []\<rparr>"

datatype access_event =
    SubsArrive "application list"
  | AccessCapacity int
  | ClickProvision string
  | AccessPicker picker_event
  | AccessAdmin bool
  | SendProvision
  | CancelProvision
  | ProvisionAnswer "string option + unit"

fun access_step :: "access_event \<Rightarrow> access_page \<Rightarrow> access_page" where
  "access_step (SubsArrive xs) p = p\<lparr>ac_subs := xs\<rparr>"
| "access_step (AccessCapacity b) p = p\<lparr>ac_capacity := Some b\<rparr>"
| "access_step (ClickProvision i) p =
     (case find (\<lambda>a. ap_id a = i \<and> \<not> ap_provisioned a) (ac_subs p) of
        None \<Rightarrow> p
      | Some a \<Rightarrow> p\<lparr>ac_provisioning := Some i, ac_picker := (ac_picker p)\<lparr>qp_bytes := snap_quota (ap_desired_gb a), qp_useCustom := False\<rparr>\<rparr>)"
| "access_step (AccessPicker e) p = (if ac_provisioning p = None then p else p\<lparr>ac_picker := picker_step e (ac_picker p)\<rparr>)"
| "access_step (AccessAdmin b) p = (if ac_provisioning p = None then p else p\<lparr>ac_admin := b\<rparr>)"
| "access_step SendProvision p =
     (case ac_provisioning p of
        None \<Rightarrow> p
      | Some i \<Rightarrow> if ac_pending p = Some i \<or> send_blocked (ac_picker p) (ac_capacity p) then p
          else p\<lparr>ac_pending := Some i,
                 ac_log := ac_log p @ [\<lparr>pc_id = i, pc_quota = effectiveQuota (ac_picker p), pc_admin = ac_admin p\<rparr>]\<rparr>)"
| "access_step CancelProvision p = p\<lparr>ac_provisioning := None\<rparr>"
| "access_step (ProvisionAnswer a) p =
     (case a of
        Inr _ \<Rightarrow> p\<lparr>ac_provisioning := None, ac_pending := None, ac_admin := False, ac_toasts := ac_toasts p @ [(True, ''Invitation sent'')]\<rparr>
      | Inl m \<Rightarrow> p\<lparr>ac_pending := None, ac_toasts := ac_toasts p @ [(False, or_else m ''Failed to provision account'')]\<rparr>)"

definition access_run :: "access_event list \<Rightarrow> access_page \<Rightarrow> access_page" where
  "access_run es p = fold access_step es p"

section \<open>Registration groups\<close>

record group_summary =
  gs_id :: string
  gs_name :: string
  gs_is_active :: bool
  gs_expires :: "int option"
  gs_created :: int
  gs_slots_total :: nat
  gs_slots_consumed :: nat

datatype group_status = GroupActive | GroupInactive | GroupExpired
datatype group_sort = GroupByCreated | GroupByName | GroupByExpiry | GroupByOpen

definition groupStatus :: "int \<Rightarrow> group_summary \<Rightarrow> group_status" where
  "groupStatus now g =
     (if \<not> gs_is_active g then GroupInactive
      else case gs_expires g of Some t \<Rightarrow> if t < now then GroupExpired else GroupActive | None \<Rightarrow> GroupActive)"

definition open_slots :: "group_summary \<Rightarrow> int" where
  "open_slots g = int (gs_slots_total g) - int (gs_slots_consumed g)"

definition group_dir :: "bool \<Rightarrow> int" where
  "group_dir asc = (if asc then 1 else - 1)"

definition cmp_groups :: "(string \<Rightarrow> string \<Rightarrow> int) \<Rightarrow> group_sort \<Rightarrow> bool \<Rightarrow> group_summary \<Rightarrow> group_summary \<Rightarrow> int" where
  "cmp_groups collate k asc a b =
     (case k of
        GroupByName \<Rightarrow> group_dir asc * collate (gs_name a) (gs_name b)
      | GroupByOpen \<Rightarrow> group_dir asc * (open_slots a - open_slots b)
      | GroupByExpiry \<Rightarrow>
          (case (gs_expires a, gs_expires b) of
             (None, None) \<Rightarrow> 0 | (None, Some _) \<Rightarrow> 1 | (Some _, None) \<Rightarrow> - 1
           | (Some x, Some y) \<Rightarrow> group_dir asc * (x - y))
      | GroupByCreated \<Rightarrow> group_dir asc * (gs_created a - gs_created b))"

definition visibleGroups :: "(string \<Rightarrow> string \<Rightarrow> int) \<Rightarrow> int \<Rightarrow> group_status option \<Rightarrow> group_sort \<Rightarrow> bool \<Rightarrow> group_summary list \<Rightarrow> group_summary list" where
  "visibleGroups collate now status k asc gs =
     js_sort (cmp_groups collate k asc) (case status of None \<Rightarrow> gs | Some st \<Rightarrow> filter (\<lambda>g. groupStatus now g = st) gs)"

definition toggleSort :: "group_sort \<Rightarrow> group_sort \<times> bool \<Rightarrow> group_sort \<times> bool" where
  "toggleSort k s = (if fst s = k then (k, \<not> snd s) else (k, k = GroupByName))"

section \<open>Quotas\<close>

lemma options_positive: "p \<in> set QUOTA_OPTIONS \<Longrightarrow> 0 < snd p"
  by (auto simp: QUOTA_OPTIONS_def STORAGE_PLANS_def Orders.GB_def)

lemma options_listed: "map snd QUOTA_OPTIONS = map (\<lambda>n. n * GIB) [64, 128, 256, 512, 1024]"
  by (simp add: QUOTA_OPTIONS_def STORAGE_PLANS_def Orders.GB_def GIB_def)

lemma picker_positive: "0 < qp_bytes q \<Longrightarrow> 0 < qp_bytes (picker_step e q)"
  using options_positive by (auto simp: picker_step_def split: picker_event.splits)

lemma open_picker_positive: "0 < qp_bytes open_picker"
  by (simp add: open_picker_def QUOTA_OPTIONS_def STORAGE_PLANS_def Orders.GB_def)

lemma unblocked_quota:
  assumes "0 < qp_bytes q" "\<not> send_blocked q available"
  shows "0 < effectiveQuota q \<and> (\<forall>a. available = Some a \<longrightarrow> effectiveQuota q \<le> a)"
  using assms by (auto simp: send_blocked_def effectiveQuota_def not_le not_less split: option.splits)

text \<open>An application is given the smallest plan that covers what it asks for.\<close>
theorem snap_is_smallest_cover:
  "desired \<le> 1024 \<Longrightarrow> int (desired * GIB) \<le> snap_quota desired
     \<and> (\<exists>p\<in>set QUOTA_OPTIONS. snap_quota desired = int (snd p))
     \<and> (\<forall>p\<in>set QUOTA_OPTIONS. desired * GIB \<le> snd p \<longrightarrow> snap_quota desired \<le> int (snd p))"
proof -
  assume d: "desired \<le> 1024"
  have G: "0 < GIB" by (simp add: GIB_def)
  let ?P = "\<lambda>p. desired * GIB \<le> snd p"
  have "last QUOTA_OPTIONS \<in> set QUOTA_OPTIONS \<and> ?P (last QUOTA_OPTIONS)"
    using d by (simp add: QUOTA_OPTIONS_def STORAGE_PLANS_def Orders.GB_def GIB_def)
  then obtain p where p: "find ?P QUOTA_OPTIONS = Some p"
    by (metis (mono_tags, lifting) find_None_iff option.exhaust)
  have sorted: "sorted (map snd QUOTA_OPTIONS)" unfolding options_listed by (simp add: GIB_def)
  from p obtain i where i: "i < length QUOTA_OPTIONS" "?P p" "p = QUOTA_OPTIONS ! i" "\<forall>j<i. \<not> ?P (QUOTA_OPTIONS ! j)"
    by (auto simp: find_Some_iff)
  have least: "snd p \<le> snd q" if q: "q \<in> set QUOTA_OPTIONS" "?P q" for q
  proof -
    from q(1) obtain j where j: "j < length QUOTA_OPTIONS" "q = QUOTA_OPTIONS ! j" by (auto simp: in_set_conv_nth)
    with i(4) q(2) have "i \<le> j" by (meson not_le_imp_less)
    then show ?thesis using sorted_nth_mono [OF sorted, of i j] i(3) j by simp
  qed
  have q: "snap_quota desired = int (snd p)" "p \<in> set QUOTA_OPTIONS" using p i(3) nth_mem [OF i(1)] by (simp_all add: snap_quota_def)
  show ?thesis
  proof (intro conjI ballI impI)
    show "int (desired * GIB) \<le> snap_quota desired" unfolding q(1) of_nat_le_iff by (rule i(2))
    show "\<exists>p\<in>set QUOTA_OPTIONS. snap_quota desired = int (snd p)" using q by blast
    show "snap_quota desired \<le> int (snd r)" if "r \<in> set QUOTA_OPTIONS" "desired * GIB \<le> snd r" for r
      unfolding q(1) of_nat_le_iff using that by (rule least)
  qed
qed

text \<open>One that asks for more than the largest plan is silently given that one.\<close>
lemma snap_falls_short: "1024 < desired \<Longrightarrow> snap_quota desired < int (desired * GIB)"
proof -
  assume d: "1024 < desired"
  have "find (\<lambda>p. desired * GIB \<le> snd p) QUOTA_OPTIONS = None"
    using d by (auto simp: find_None_iff QUOTA_OPTIONS_def STORAGE_PLANS_def Orders.GB_def GIB_def)
  moreover have "snd (last QUOTA_OPTIONS) = 1024 * GIB"
    by (simp add: QUOTA_OPTIONS_def STORAGE_PLANS_def Orders.GB_def GIB_def)
  ultimately show ?thesis using d by (simp add: snap_quota_def GIB_def)
qed

section \<open>What is sent\<close>

definition invite_ok :: "invite_request \<Rightarrow> bool" where
  "invite_ok r =
     (case r of
        Invite c \<Rightarrow> ic_email c \<noteq> [] \<and> 0 < ic_quota c \<and> \<not> (ic_admin c \<and> ic_premium c)
          \<and> (ic_premium_expires c \<noteq> None \<longrightarrow> ic_premium c) \<and> ic_drive c \<noteq> Some []
      | _ \<Rightarrow> True)"

definition invite_inv :: "invite_page \<Rightarrow> bool" where
  "invite_inv p \<longleftrightarrow> 0 < qp_bytes (ip_picker p) \<and> \<not> (ip_admin p \<and> ip_premium p) \<and> list_all invite_ok (ip_log p)"

lemma invite_step_inv: assumes "invite_inv p" shows "invite_inv (invite_step to_iso e p)"
proof (cases e)
  case SubmitInvite
  show ?thesis
  proof (cases "send_blocked (ip_picker p) (maxAvailableBytes p)")
    case False
    with assms unblocked_quota [of "ip_picker p" "maxAvailableBytes p"] SubmitInvite show ?thesis
      by (auto simp: invite_inv_def invite_ok_def invite_call_of_def)
  qed (use SubmitInvite assms in simp)
next
  case (InviteAnswer a)
  with assms show ?thesis by (cases a) (simp_all add: invite_inv_def)
qed (use assms in \<open>auto simp: invite_inv_def invite_ok_def picker_positive\<close>)

text \<open>Every invitation that is sent names an address, a positive quota and never both grants, and a trial only for
  premium, whatever the order of ticks, texts, picks and answers.\<close>
theorem invitations_are_sound: "list_all invite_ok (ip_log (invite_run to_iso es open_invites))"
proof -
  have "invite_inv (invite_run to_iso es open_invites)" unfolding invite_run_def
    by (rule fold_invariant [where Q = "\<lambda>_. True"])
      (simp_all add: invite_step_inv, simp add: invite_inv_def open_invites_def open_picker_positive)
  then show ?thesis by (simp add: invite_inv_def)
qed

text \<open>And it fits the drive that is chosen, or else the space that is known.\<close>
lemma invite_fits:
  assumes "0 < qp_bytes (ip_picker p)" "ip_log (invite_step to_iso SubmitInvite p) \<noteq> ip_log p" "maxAvailableBytes p = Some a"
  shows "effectiveQuota (ip_picker p) \<le> a"
  using assms unblocked_quota [of "ip_picker p" "maxAvailableBytes p"] by (auto split: if_splits)

text \<open>After a successful resend the button does nothing for thirty seconds.\<close>
lemma resend_waits:
  assumes "0 < t" "now < t + RESEND_COOLDOWN_MS"
  shows "ip_log (invite_step to_iso (ClickResend now i) (invite_step to_iso (ResendAnswer t i True) p)) = ip_log p"
  using assms by (auto simp: resendCooldownRemaining_def)

text \<open>Only pending and expired invitations can be resent or revoked.\<close>
lemma settled_invitations_keep:
  assumes "\<forall>x\<in>set (ip_invitations p). in_id x = i \<longrightarrow> in_accepted x \<or> in_revoked x"
  shows "invite_step to_iso (ClickResend now i) p = p" "invite_step to_iso (RevokeConfirmed now i) p = p"
  using assms by (auto simp: list_ex_iff invite_status_of_def)

definition access_inv :: "access_page \<Rightarrow> bool" where
  "access_inv p \<longleftrightarrow> 0 < qp_bytes (ac_picker p) \<and> list_all (\<lambda>c. 0 < pc_quota c) (ac_log p)"

lemma snap_positive: "0 < snap_quota n"
proof (cases "find (\<lambda>p. n * GIB \<le> snd p) QUOTA_OPTIONS")
  case None
  have "last QUOTA_OPTIONS \<in> set QUOTA_OPTIONS" by (simp add: QUOTA_OPTIONS_def STORAGE_PLANS_def)
  with None show ?thesis by (simp add: snap_quota_def options_positive)
next
  case (Some p)
  then have "p \<in> set QUOTA_OPTIONS" by (auto simp: find_Some_iff)
  with Some show ?thesis by (simp add: snap_quota_def options_positive)
qed

lemma access_step_inv: assumes "access_inv p" shows "access_inv (access_step e p)"
proof (cases e)
  case SendProvision
  with assms unblocked_quota [of "ac_picker p" "ac_capacity p"] show ?thesis
    by (auto simp: access_inv_def split: option.splits)
next
  case (ProvisionAnswer a)
  with assms show ?thesis by (cases a) (simp_all add: access_inv_def)
next
  case (ClickProvision i)
  with assms show ?thesis by (simp add: access_inv_def snap_positive split: option.splits)
qed (use assms in \<open>auto simp: access_inv_def picker_positive\<close>)

lemma provisioned_quotas_positive: "list_all (\<lambda>c. 0 < pc_quota c) (ac_log (access_run es open_access))"
proof -
  have "access_inv (access_run es open_access)" unfolding access_run_def
    by (rule fold_invariant [where Q = "\<lambda>_. True"])
      (simp_all add: access_step_inv, simp add: access_inv_def open_access_def open_picker_positive)
  then show ?thesis by (simp add: access_inv_def)
qed

section \<open>What is not guarded\<close>

definition two_applications :: "application list" where
  "two_applications = [\<lparr>ap_id = ''a'', ap_desired_gb = 64, ap_provisioned = False\<rparr>, \<lparr>ap_id = ''b'', ap_desired_gb = 64, ap_provisioned = False\<rparr>]"

text \<open>The administrator's grant that was ticked for one application stays ticked for the next when the panel is left or
  another application is chosen.\<close>
theorem admin_tick_carries_over:
  "map (\<lambda>c. (pc_id c, pc_admin c)) (ac_log (access_run [SubsArrive two_applications, ClickProvision ''a'', AccessAdmin True,
     CancelProvision, ClickProvision ''b'', SendProvision] open_access)) = [(''b'', True)]"
  by (simp add: access_run_def open_access_def two_applications_def send_blocked_def)

text \<open>Only the last pending application is remembered: going over another one, the first is provisioned twice.\<close>
lemma provisioned_twice:
  "map pc_id (ac_log (access_run [SubsArrive two_applications, ClickProvision ''a'', SendProvision, ClickProvision ''b'',
     SendProvision, ClickProvision ''a'', SendProvision] open_access)) = [''a'', ''b'', ''a'']"
  by (simp add: access_run_def open_access_def two_applications_def send_blocked_def)

text \<open>The answer for one application closes the panel of another.\<close>
lemma late_provision_closes_other:
  "ac_provisioning (access_run [SubsArrive two_applications, ClickProvision ''a'', SendProvision, ClickProvision ''b'',
     ProvisionAnswer (Inr ())] open_access) = None"
  by (simp add: access_run_def open_access_def two_applications_def send_blocked_def)

text \<open>An invitation that is answered clears the address typed for the next one meanwhile.\<close>
lemma answer_clears_next_address:
  "ip_creating p \<Longrightarrow> ip_email (invite_run to_iso [InviteEmailTyped t, InviteAnswer (Inr ())] p) = []"
  by (simp add: invite_run_def)

section \<open>Drives and groups\<close>

text \<open>The picker shows every drive once, under its host.\<close>
theorem node_groups_show_each_drive:
  "mset (concat (map snd (nodeGroups ds))) = mset ds \<and> distinct (map fst (nodeGroups ds))
   \<and> list_all (\<lambda>g. snd g \<noteq> [] \<and> list_all (\<lambda>d. iv_hostname d = fst g) (snd g)) (nodeGroups ds)"
proof -
  let ?P = "\<lambda>g. snd g \<noteq> [] \<and> list_all (\<lambda>d. iv_hostname d = fst g) (snd g)"
  have step: "mset (concat (map snd (add_host d gs))) = add_mset d (mset (concat (map snd gs)))
      \<and> distinct (map fst (add_host d gs)) \<and> list_all ?P (add_host d gs)"
    if inv: "distinct (map fst gs)" "list_all ?P gs" for d gs
  proof (cases "list_ex (\<lambda>g. fst g = iv_hostname d) gs")
    case True
    have "mset (concat (map (\<lambda>g. snd (if fst g = iv_hostname d then (fst g, snd g @ [d]) else g)) gs))
        = mset (concat (map snd gs)) + mset [d]"
      by (rule concat_update_one [OF inv(1) True]) simp
    then have m: "mset (concat (map snd (add_host d gs))) = add_mset d (mset (concat (map snd gs)))"
      using True by (simp add: add_host_def comp_def)
    have ids: "map fst (add_host d gs) = map fst gs" using True by (auto simp: add_host_def)
    have "list_all ?P (add_host d gs)" using inv True by (auto simp: add_host_def list_all_iff)
    with m inv(1) show ?thesis by (simp only: ids)
  next
    case False
    then show ?thesis using inv by (auto simp: add_host_def list_ex_iff)
  qed
  have "mset (concat (map snd (fold add_host ds gs))) = mset (concat (map snd gs)) + mset ds
      \<and> distinct (map fst (fold add_host ds gs)) \<and> list_all ?P (fold add_host ds gs)"
    if "distinct (map fst gs)" "list_all ?P gs" for gs
    using that
  proof (induction ds arbitrary: gs)
    case (Cons d ds)
    from Cons.IH [of "add_host d gs"] step [OF Cons.prems] show ?case by simp
  qed simp
  from this [of "[]"] show ?thesis by (simp add: nodeGroups_def)
qed

text \<open>The comparators of the group list rank by a key: open slots, the time of creation, and the expiry, in which groups
  without one come last in either direction.\<close>

definition expiry_key :: "bool \<Rightarrow> group_summary \<Rightarrow> nat \<times> int" where
  "expiry_key asc g = (case gs_expires g of None \<Rightarrow> (1, 0) | Some t \<Rightarrow> (0, group_dir asc * t))"

interpretation open_order: ranked "cmp_groups collate GroupByOpen asc" "\<lambda>g. group_dir asc * open_slots g" UNIV
  for collate :: "string \<Rightarrow> string \<Rightarrow> int" and asc :: bool
  by unfold_locales (simp add: cmp_groups_def right_diff_distrib)

interpretation created_order: ranked "cmp_groups collate GroupByCreated asc" "\<lambda>g. group_dir asc * gs_created g" UNIV
  for collate :: "string \<Rightarrow> string \<Rightarrow> int" and asc :: bool
  by unfold_locales (simp add: cmp_groups_def right_diff_distrib)

interpretation expiry_order: ranked "cmp_groups collate GroupByExpiry asc" "expiry_key asc" UNIV
  for collate :: "string \<Rightarrow> string \<Rightarrow> int" and asc :: bool
  by unfold_locales (auto simp: cmp_groups_def expiry_key_def right_diff_distrib less_eq_prod_def split: option.splits)

theorem groups_sorted_stably:
  "visibleGroups collate now status GroupByOpen asc gs
     = sort_key (\<lambda>g. group_dir asc * open_slots g) (case status of None \<Rightarrow> gs | Some st \<Rightarrow> filter (\<lambda>g. groupStatus now g = st) gs)"
  "visibleGroups collate now status GroupByCreated asc gs
     = sort_key (\<lambda>g. group_dir asc * gs_created g) (case status of None \<Rightarrow> gs | Some st \<Rightarrow> filter (\<lambda>g. groupStatus now g = st) gs)"
  "visibleGroups collate now status GroupByExpiry asc gs
     = sort_key (expiry_key asc) (case status of None \<Rightarrow> gs | Some st \<Rightarrow> filter (\<lambda>g. groupStatus now g = st) gs)"
  by (simp_all add: visibleGroups_def open_order.js_sort_key created_order.js_sort_key expiry_order.js_sort_key)

text \<open>So once a group without an expiry is listed, none with one follows.\<close>
lemma endless_groups_last:
  assumes "i < j" "j < length (visibleGroups collate now status GroupByExpiry asc gs)"
    and "gs_expires (visibleGroups collate now status GroupByExpiry asc gs ! i) = None"
  shows "gs_expires (visibleGroups collate now status GroupByExpiry asc gs ! j) = None"
proof -
  let ?v = "visibleGroups collate now status GroupByExpiry asc gs"
  have "sorted (map (expiry_key asc) ?v)" by (simp only: groups_sorted_stably sorted_sort_key)
  from sorted_nth_mono [OF this, of i j] assms have "expiry_key asc (?v ! i) \<le> expiry_key asc (?v ! j)" by simp
  with assms(3) show ?thesis by (auto simp: expiry_key_def less_eq_prod_def split: option.splits)
qed

lemma status_filters_partition:
  "mset gs = mset (filter (\<lambda>g. groupStatus now g = GroupActive) gs) + mset (filter (\<lambda>g. groupStatus now g = GroupInactive) gs)
     + mset (filter (\<lambda>g. groupStatus now g = GroupExpired) gs)"
proof (induction gs)
  case (Cons g gs)
  then show ?case by (cases "groupStatus now g") simp_all
qed simp

lemma toggle_sort_twice: "snd (toggleSort k (toggleSort k s)) = (if fst s = k then snd s else k \<noteq> GroupByName)"
  by (simp add: toggleSort_def)

end
