(* ===== verification/ProfileServers.thy ===== *)
theory ProfileServers
  imports AdminOrders Storage
begin

text \<open>
  The card of the storage servers on the profile page, \<open>frontend/src/routes/_auth.client/profile.tsx\<close>: the sizes
  and bars, the primary server and the default drive, the speed test and its limit. The calls of \<open>api/me.ts\<close> that
  the page makes and \<open>components/LastSyncNote.tsx\<close> are here too. Times are milliseconds; the two readings of the
  clock in one turn of \<open>runSpeed\<close> are taken to be the same.
\<close>

section \<open>Sizes, percentages and times\<close>

definition ellipsis :: string where "ellipsis = [CHR 0xE2, CHR 0x80, CHR 0xA6]"

definition MIB :: nat where "MIB = 1024 ^ 2"

definition profile_size :: "nat \<Rightarrow> string" where
  "profile_size b =
     (if GB \<le> b then to_fixed 2 (of_nat b / of_nat GB) @ '' GB''
      else if MIB \<le> b then to_fixed 1 (of_nat b / of_nat MIB) @ '' MB''
      else if 1024 \<le> b then to_fixed 1 (of_nat b / 1024) @ '' KB''
      else show_nat b @ '' B'')"

definition used_pct :: "nat \<Rightarrow> nat \<Rightarrow> rat" where
  "used_pct used quota = (if 0 < quota then of_nat used / of_nat quota * 100 else 0)"

datatype bar_color = Red | Amber | Green

definition barColor :: "rat \<Rightarrow> bar_color" where
  "barColor p = (if 90 \<le> p then Red else if 50 \<le> p then Amber else Green)"

text \<open>The bars of the tiers and of the servers end at the full width.\<close>

definition tier_pct :: "nat \<Rightarrow> nat \<Rightarrow> rat" where
  "tier_pct bytes quota = (if 0 < quota then min (of_nat bytes / of_nat quota * 100) 100 else 0)"

definition ago :: "int \<Rightarrow> string \<Rightarrow> string" where
  "ago n name = show_int n @ '' '' @ name @ (if n \<noteq> 1 then ''s'' else []) @ '' ago''"

text \<open>\<open>None\<close> is the time of a text that is no date.\<close>

definition formatTimeSince :: "int \<Rightarrow> int option \<Rightarrow> string" where
  "formatTimeSince now moment =
     (case moment of
        None \<Rightarrow> []
      | Some t \<Rightarrow>
          let seconds = max 0 ((now - t) div 1000); minutes = seconds div 60; hours = minutes div 60; days = hours div 24
          in if seconds < 60 then ''moments ago''
             else if minutes < 60 then ago minutes ''minute''
             else if hours < 24 then ago hours ''hour''
             else if days < 60 then ago days ''day''
             else ago (days div 30) ''month'')"

datatype backup_kind = GoogleKind | EmailKind

record last_sync =
  ls_google :: "string option"
  ls_email :: "string option"

text \<open>Whether the note is drawn as a warning, and its text. A time that is no number is never stale.\<close>

definition LastSyncNote :: "(string \<Rightarrow> int option) \<Rightarrow> int \<Rightarrow> backup_kind \<Rightarrow> last_sync option \<Rightarrow> (bool \<times> string) option" where
  "LastSyncNote when_of now k data =
     map_option (\<lambda>x.
       let t = (case k of GoogleKind \<Rightarrow> ls_google x | EmailKind \<Rightarrow> ls_email x)
       in ((case Option.bind t when_of of None \<Rightarrow> False | Some ms \<Rightarrow> 30 * ORDER_DAY_MS < now - ms),
           (case t of None \<Rightarrow> ''No previous backup yet.''
            | Some d \<Rightarrow> ''Last backup completed '' @ formatTimeSince now (when_of d) @ ''.''))) data"

definition lastLine :: "(string \<Rightarrow> int option) \<Rightarrow> int \<Rightarrow> string \<Rightarrow> string option \<Rightarrow> string" where
  "lastLine when_of now name t =
     name @ '': '' @ (if truthy_text t then formatTimeSince now (when_of (the t)) else ''never backed up'')"

section \<open>The calls\<close>

datatype me_call =
    UnlinkProvider string
  | LinkProvider string string
  | UpdateUsername string
  | AutouploadFolder "string option"
  | StorageUi "(string \<times> bool) list"
  | BackupReminder bool
  | DefaultDrive "string option"
  | SandboxPayments bool
  | ExpansionOverride bool
  | PrimaryServer string

datatype http_verb = Post | Put | Patch | Delete

fun me_request :: "me_call \<Rightarrow> http_verb \<times> string \<times> json" where
  "me_request (UnlinkProvider p) = (Delete, ''/me/social/unlink'', JObj [(''provider'', JStr p)])"
| "me_request (LinkProvider p c) = (Post, ''/me/social/link'', JObj [(''provider'', JStr p), (''code'', JStr c)])"
| "me_request (UpdateUsername n) = (Patch, ''/me/username'', JObj [(''new_username'', JStr n)])"
| "me_request (AutouploadFolder f) = (Put, ''/me/preferences'',
     JObj [(''media_autoupload_folder_id'', case f of None \<Rightarrow> JNull | Some i \<Rightarrow> JStr i)])"
| "me_request (StorageUi ps) = (Put, ''/me/preferences/storage-ui'', JObj (map (map_prod id JBool) ps))"
| "me_request (BackupReminder b) = (Put, ''/me/preferences/backup-reminder'', JObj [(''backup_stale_notify'', JBool b)])"
| "me_request (DefaultDrive d) = (Put, ''/me/preferences/default-drive'',
     JObj [(''default_drive_id'', case d of None \<Rightarrow> JNull | Some i \<Rightarrow> JStr i)])"
| "me_request (SandboxPayments b) = (Put, ''/me/sandbox-payments'', JObj [(''enabled'', JBool b)])"
| "me_request (ExpansionOverride b) = (Put, ''/me/expansion-override'', JObj [(''enabled'', JBool b)])"
| "me_request (PrimaryServer i) = (Put, ''/storage/primary-server'', JObj [(''server_id'', JStr i)])"

section \<open>Servers and speed test\<close>

record breakdown =
  bd_quota_bytes :: nat
  bd_nvme_bytes :: nat
  bd_hdd_bytes :: nat
  bd_server :: "(string \<times> string) option"   \<comment> \<open>name and \<open>ping_url\<close>\<close>

definition SPEED_RATE_LIMIT :: int where "SPEED_RATE_LIMIT = 5"

record infra_card =
  ic_breakdown :: "breakdown option"
  ic_servers :: "my_server list"
  ic_primaryPing :: "int option"
  ic_testing :: bool
  ic_pings :: "string list"             \<comment> \<open>the pings under way, by address\<close>
  ic_settingPrimary :: "string option"
  ic_speed :: "speed_metrics option"
  ic_speedLoading :: bool
  ic_speedError :: "string option"
  ic_calls :: "int list"                \<comment> \<open>\<open>speedCallsRef\<close>\<close>
  ic_remaining :: int
  ic_drivePending :: bool
  ic_started :: "(int \<times> string) list"   \<comment> \<open>the speed tests that were begun, with their time and address\<close>
  ic_log :: "me_call list"
  ic_toasts :: "string list"

definition open_infra :: infra_card where
  "open_infra = \<lparr>ic_breakdown = None, ic_servers = [], ic_primaryPing = None, ic_testing = False, ic_pings = [],
     ic_settingPrimary = None, ic_speed = None, ic_speedLoading = False, ic_speedError = None, ic_calls = [],
     ic_remaining = SPEED_RATE_LIMIT, ic_drivePending = False, ic_started = [], ic_log = [], ic_toasts = []\<rparr>"

definition recent_calls :: "int \<Rightarrow> int list \<Rightarrow> int list" where
  "recent_calls now ts = filter (\<lambda>t. now - t < 60000) ts"

definition LIMIT_TEXT :: string where "LIMIT_TEXT = ''Limit reached. Try again in a minute.''"

definition runSpeed :: "int \<Rightarrow> infra_card \<Rightarrow> infra_card" where
  "runSpeed now s =
     (if ic_speedLoading s then s
      else let kept = recent_calls now (ic_calls s); left = SPEED_RATE_LIMIT - int (length kept)
           in if left \<le> 0 then s\<lparr>ic_calls := kept, ic_remaining := left, ic_speedError := Some LIMIT_TEXT\<rparr>
              else s\<lparr>ic_calls := kept @ [now], ic_remaining := SPEED_RATE_LIMIT - int (length (kept @ [now])),
                     ic_speedLoading := True, ic_speedError := None,
                     ic_started := ic_started s @
                       [(now, case Option.bind (ic_breakdown s) bd_server of
                                Some (_, url) \<Rightarrow> url | None \<Rightarrow> ''/api/v1/storage/servers'')]\<rparr>)"

definition speed_done :: "int \<Rightarrow> measure_error + speed_metrics \<Rightarrow> infra_card \<Rightarrow> infra_card" where
  "speed_done now r s =
     (let kept = recent_calls now (ic_calls s);
          s1 = (case r of
                  Inr m \<Rightarrow> s\<lparr>ic_speed := Some m\<rparr>
                | Inl RateLimited \<Rightarrow> s\<lparr>ic_speedError := Some LIMIT_TEXT\<rparr>
                | Inl OtherError \<Rightarrow> s\<lparr>ic_speedError := Some ''Speed test failed. Check your connection.''\<rparr>)
      in s1\<lparr>ic_speedLoading := False, ic_calls := kept, ic_remaining := SPEED_RATE_LIMIT - int (length kept)\<rparr>)"

definition testPrimaryConnection :: "my_server list \<Rightarrow> infra_card \<Rightarrow> infra_card" where
  "testPrimaryConnection servers s =
     (case find ms_is_primary servers of
        None \<Rightarrow> s\<lparr>ic_primaryPing := None\<rparr>
      | Some p \<Rightarrow> s\<lparr>ic_testing := True, ic_pings := ic_pings s @ [ms_ping_url p]\<rparr>)"

definition refresh_disabled :: "infra_card \<Rightarrow> bool" where
  "refresh_disabled s \<longleftrightarrow> ic_speedLoading s \<or> ic_remaining s \<le> 0"

datatype infra_event =
    BreakdownArrives int breakdown              \<comment> \<open>with the time\<close>
  | ServersArrive "my_server list"
  | PingEnds nat "measure_error + int"          \<comment> \<open>the one at this place of those under way\<close>
  | ClickRefresh int
  | SpeedEnds int fetched fetched fetched
  | ClickServer my_server
  | PrimaryAnswer "unit answer"
  | PickDefaultDrive string
  | DefaultDriveAnswer "unit answer"

text \<open>An equal answer of a query keeps the old object, so the effects on it do not run.\<close>

fun infra_step :: "infra_event \<Rightarrow> infra_card \<Rightarrow> infra_card" where
  "infra_step (BreakdownArrives now b) s =
     (if ic_breakdown s = Some b then s
      else let s1 = s\<lparr>ic_breakdown := Some b\<rparr>
           in if ic_speed s1 = None \<and> \<not> ic_speedLoading s1 then runSpeed now s1 else s1)"
| "infra_step (ServersArrive xs) s =
     (if xs = ic_servers s then s
      else let s1 = s\<lparr>ic_servers := xs\<rparr> in if xs \<noteq> [] then testPrimaryConnection xs s1 else s1)"
| "infra_step (PingEnds i r) s =
     (if length (ic_pings s) \<le> i then s
      else s\<lparr>ic_pings := take i (ic_pings s) @ drop (Suc i) (ic_pings s), ic_testing := False,
             ic_primaryPing := (case r of Inr ms \<Rightarrow> Some ms | Inl _ \<Rightarrow> None)\<rparr>)"
| "infra_step (ClickRefresh now) s =
     (if Option.bind (ic_breakdown s) bd_server = None \<or> refresh_disabled s then s else runSpeed now s)"
| "infra_step (SpeedEnds now ping down up) s =
     (if ic_speedLoading s then speed_done now (runSpeedTest ping down up) s else s)"
| "infra_step (ClickServer x) s =
     (if x \<notin> set (ic_servers s) \<or> ms_is_primary x \<or> ic_settingPrimary s \<noteq> None then s
      else s\<lparr>ic_settingPrimary := Some (ms_server_id x), ic_log := ic_log s @ [PrimaryServer (ms_server_id x)]\<rparr>)"
| "infra_step (PrimaryAnswer a) s = s\<lparr>ic_settingPrimary := None\<rparr>"
| "infra_step (PickDefaultDrive v) s =
     (if length (ic_servers s) \<le> 1 \<or> ic_drivePending s \<or> v \<notin> insert [] (ms_drive_id ` set (ic_servers s)) then s
      else s\<lparr>ic_drivePending := True, ic_log := ic_log s @ [DefaultDrive (if v = [] then None else Some v)]\<rparr>)"
| "infra_step (DefaultDriveAnswer a) s =
     s\<lparr>ic_drivePending := False,
       ic_toasts := ic_toasts s @ (case a of Inr _ \<Rightarrow> [] | Inl _ \<Rightarrow> [''Failed to update default view''])\<rparr>"

definition infra_run :: "infra_event list \<Rightarrow> infra_card \<Rightarrow> infra_card" where
  "infra_run es s = fold infra_step es s"

subsection \<open>What the card shows\<close>

definition owns_type :: "drive_type \<Rightarrow> my_server list \<Rightarrow> bool" where
  "owns_type t xs \<longleftrightarrow> xs = [] \<or> list_ex (\<lambda>x. ms_drive_type x = t) xs"

definition tier_rows :: "infra_card \<Rightarrow> (drive_type \<times> string \<times> rat) list" where
  "tier_rows s =
     (case ic_breakdown s of
        None \<Rightarrow> []
      | Some b \<Rightarrow>
          (if owns_type Nvme (ic_servers s) then [(Nvme, profile_size (bd_nvme_bytes b), tier_pct (bd_nvme_bytes b) (bd_quota_bytes b))] else [])
          @ (if owns_type Hdd (ic_servers s) then [(Hdd, profile_size (bd_hdd_bytes b), tier_pct (bd_hdd_bytes b) (bd_quota_bytes b))] else []))"

definition server_line :: "infra_card \<Rightarrow> my_server \<Rightarrow> string" where
  "server_line s x =
     profile_size (ms_used_bytes x) @ '' used of '' @ profile_size (ms_quota_bytes x)
     @ (if \<not> ms_is_primary x then []
        else if ic_testing s then '' '' @ middot @ '' Testing'' @ ellipsis
        else case ic_primaryPing s of None \<Rightarrow> [] | Some ms \<Rightarrow> '' '' @ middot @ '' '' @ show_int ms @ '' ms'')"

datatype server_mark = Busy | Ticked | Blank

definition server_mark_of :: "infra_card \<Rightarrow> my_server \<Rightarrow> server_mark" where
  "server_mark_of s x =
     (if ic_settingPrimary s = Some (ms_server_id x) then Busy else if ms_is_primary x then Ticked else Blank)"

definition refreshes_note :: "infra_card \<Rightarrow> string option" where
  "refreshes_note s =
     (if ic_remaining s < SPEED_RATE_LIMIT \<and> \<not> ic_speedLoading s
      then Some (if 0 < ic_remaining s
                 then show_int (ic_remaining s) @ '' refresh'' @ (if ic_remaining s \<noteq> 1 then ''es'' else []) @ '' remaining this minute''
                 else ''Limit reached '' @ em_dash @ '' try again in a minute'')
      else None)"

text \<open>The ping, and a figure with its unit; the inner \<open>None\<close> is an infinite one.\<close>

definition ping_figure :: "infra_card \<Rightarrow> string \<times> string" where
  "ping_figure s =
     (case (ic_speedLoading s, Option.bind (ic_speed s) sm_ping_ms) of
        (False, Some ms) \<Rightarrow> (show_int ms, ''ms'') | _ \<Rightarrow> (em_dash, []))"

definition speed_figure :: "(speed_metrics \<Rightarrow> rat option option) \<Rightarrow> infra_card \<Rightarrow> string \<times> string" where
  "speed_figure pick s =
     (case (ic_speedLoading s, Option.bind (ic_speed s) pick) of
        (False, Some None) \<Rightarrow> (''Infinity'', ''Gbps'')
      | (False, Some (Some v)) \<Rightarrow>
          if 1000 \<le> v then (to_fixed 1 (v / 1000), ''Gbps'') else (to_fixed 1 v, ''Mbps'')
      | _ \<Rightarrow> (em_dash, []))"

section \<open>The limit of the speed test\<close>

fun infra_time :: "infra_event \<Rightarrow> int option" where
  "infra_time (BreakdownArrives t _) = Some t"
| "infra_time (ClickRefresh t) = Some t"
| "infra_time (SpeedEnds t _ _ _) = Some t"
| "infra_time _ = None"

definition tests_spaced :: "int list \<Rightarrow> bool" where
  "tests_spaced ts \<longleftrightarrow> (\<forall>i < length ts - 5. 60000 \<le> ts ! (i + 5) - ts ! i)"

lemma recent_calls_suffix:
  "sorted ts \<Longrightarrow> \<exists>d. ts = d @ recent_calls now ts \<and> (\<forall>t\<in>set d. 60000 \<le> now - t)"
proof (induction ts)
  case (Cons t ts)
  show ?case
  proof (cases "now - t < 60000")
    case True
    with Cons.prems have "filter (\<lambda>u. now - u < 60000) ts = ts" by (auto intro!: filter_True)
    with True show ?thesis by (simp add: recent_calls_def)
  next
    case False
    from Cons obtain d where "ts = d @ recent_calls now ts" "\<forall>t\<in>set d. 60000 \<le> now - t" by auto
    with False have "t # ts = (t # d) @ recent_calls now (t # ts)" "\<forall>u\<in>set (t # d). 60000 \<le> now - u"
      by (simp_all add: recent_calls_def)
    then show ?thesis by blast
  qed
qed (simp add: recent_calls_def)

lemma tests_spaced_snoc:
  assumes "tests_spaced (d @ k)" "length k \<le> 4" "\<forall>t\<in>set d. 60000 \<le> now - t"
  shows "tests_spaced (d @ k @ [now])"
  unfolding tests_spaced_def
proof (intro allI impI)
  fix i
  assume i: "i < length (d @ k @ [now]) - 5"
  show "60000 \<le> (d @ k @ [now]) ! (i + 5) - (d @ k @ [now]) ! i"
  proof (cases "i + 5 = length (d @ k)")
    case True
    with assms(2) have "i < length d" by simp
    then have "d ! i \<in> set d" by simp
    with assms(3) have "60000 \<le> now - d ! i" by blast
    moreover have "(d @ k @ [now]) ! (i + 5) = now" using True by (simp add: nth_append)
    ultimately show ?thesis using \<open>i < length d\<close> by (simp add: nth_append)
  next
    case False
    with i have "i + 5 < length (d @ k)" by simp
    then have "60000 \<le> (d @ k) ! (i + 5) - (d @ k) ! i" using assms(1) by (simp add: tests_spaced_def)
    moreover have "((d @ k) @ [now]) ! j = (d @ k) ! j" if "j < length (d @ k)" for j
      using that by (simp only: nth_append if_True)
    ultimately show ?thesis using \<open>i + 5 < length (d @ k)\<close> by simp
  qed
qed

text \<open>At time \<open>T\<close>: the tests so far, of which \<open>speedCallsRef\<close> holds a final piece with all of the last minute.\<close>

definition speed_inv :: "int \<Rightarrow> infra_card \<Rightarrow> bool" where
  "speed_inv T s \<longleftrightarrow> (\<exists>d. map fst (ic_started s) = d @ ic_calls s \<and> (\<forall>t\<in>set d. 60000 \<le> T - t))
     \<and> sorted (map fst (ic_started s)) \<and> (\<forall>t\<in>set (map fst (ic_started s)). t \<le> T) \<and> tests_spaced (map fst (ic_started s))"

lemma speed_inv_later: "speed_inv T s \<Longrightarrow> T \<le> T' \<Longrightarrow> speed_inv T' s"
  unfolding speed_inv_def by (meson diff_right_mono order_trans)

lemma speed_inv_cong:
  "ic_started s' = ic_started s \<Longrightarrow> ic_calls s' = ic_calls s \<Longrightarrow> speed_inv T s' = speed_inv T s"
  by (simp add: speed_inv_def)

lemma speed_inv_drop:
  assumes "speed_inv T s" "ic_started s' = ic_started s" "ic_calls s' = recent_calls T (ic_calls s)"
  shows "speed_inv T s'"
proof -
  obtain d where d: "map fst (ic_started s) = d @ ic_calls s" "\<forall>t\<in>set d. 60000 \<le> T - t" "sorted (map fst (ic_started s))"
    using assms(1) by (auto simp: speed_inv_def)
  then have "sorted (ic_calls s)" by (simp add: sorted_append)
  then obtain d' where "ic_calls s = d' @ recent_calls T (ic_calls s)" "\<forall>t\<in>set d'. 60000 \<le> T - t"
    using recent_calls_suffix by blast
  with d have "map fst (ic_started s) = (d @ d') @ ic_calls s'" "\<forall>t\<in>set (d @ d'). 60000 \<le> T - t"
    using assms(3) by auto
  with assms(1,2) show ?thesis unfolding speed_inv_def by metis
qed

lemma speed_inv_start:
  assumes "speed_inv T s" "length (ic_calls s) \<le> 4" "ic_started s' = ic_started s @ [(T, u)]" "ic_calls s' = ic_calls s @ [T]"
  shows "speed_inv T s'"
proof -
  obtain d where d: "map fst (ic_started s) = d @ ic_calls s" "\<forall>t\<in>set d. 60000 \<le> T - t"
    using assms(1) by (auto simp: speed_inv_def)
  with assms(1,2) have "tests_spaced (d @ ic_calls s @ [T])" by (intro tests_spaced_snoc) (simp_all add: speed_inv_def)
  with assms d show ?thesis by (auto simp: speed_inv_def sorted_append)
qed

lemma speed_inv_runSpeed: "speed_inv T s \<Longrightarrow> speed_inv T (runSpeed T s)"
proof -
  assume s: "speed_inv T s"
  let ?s = "s\<lparr>ic_calls := recent_calls T (ic_calls s)\<rparr>"
  have k: "speed_inv T ?s" by (rule speed_inv_drop [OF s]) simp_all
  show ?thesis
  proof (cases "ic_speedLoading s \<or> SPEED_RATE_LIMIT \<le> int (length (recent_calls T (ic_calls s)))")
    case True
    with s k show ?thesis by (auto simp: runSpeed_def Let_def speed_inv_def)
  next
    case False
    then have "length (ic_calls ?s) \<le> 4" by (simp add: SPEED_RATE_LIMIT_def)
    from speed_inv_start [OF k this] False show ?thesis by (simp add: runSpeed_def Let_def SPEED_RATE_LIMIT_def)
  qed
qed

lemma speed_done_simps:
  "ic_started (speed_done now r s) = ic_started s" "ic_calls (speed_done now r s) = recent_calls now (ic_calls s)"
  by (simp_all add: speed_done_def Let_def split: sum.splits measure_error.splits)

lemma testPrimary_simps:
  "ic_started (testPrimaryConnection xs s) = ic_started s" "ic_calls (testPrimaryConnection xs s) = ic_calls s"
  by (simp_all add: testPrimaryConnection_def split: option.splits)

lemma speed_inv_step:
  assumes "speed_inv T s" "\<forall>t. infra_time e = Some t \<longrightarrow> T \<le> t"
  shows "speed_inv (or_else (infra_time e) T) (infra_step e s)"
proof (cases e)
  case (BreakdownArrives now b)
  with assms have "speed_inv now (s\<lparr>ic_breakdown := Some b\<rparr>)" "speed_inv now s"
    using speed_inv_later [of T s now] by (auto simp: speed_inv_def)
  then show ?thesis using BreakdownArrives by (simp add: Let_def speed_inv_runSpeed)
next
  case (ServersArrive xs)
  then have "ic_started (infra_step e s) = ic_started s" "ic_calls (infra_step e s) = ic_calls s"
    by (simp_all add: Let_def testPrimary_simps)
  from speed_inv_cong [OF this] show ?thesis using assms(1) ServersArrive by simp
next
  case (ClickRefresh now)
  with assms have "speed_inv now s" using speed_inv_later by auto
  with ClickRefresh show ?thesis by (simp add: speed_inv_runSpeed)
next
  case (SpeedEnds now a b c)
  with assms have now: "speed_inv now s" using speed_inv_later by auto
  have "speed_inv now (speed_done now r s)" for r
    by (rule speed_inv_drop [OF now]) (simp_all add: speed_done_simps)
  with now SpeedEnds show ?thesis by simp
qed (use assms(1) in \<open>simp_all add: speed_inv_def\<close>)

text \<open>A run whose events carry times, under an invariant that only depends on how late it is.\<close>

locale clocked =
  fixes step :: "'e \<Rightarrow> 's \<Rightarrow> 's"
    and time :: "'e \<Rightarrow> int option"
    and inv :: "int \<Rightarrow> 's \<Rightarrow> bool"
  assumes later: "inv T s \<Longrightarrow> T \<le> T' \<Longrightarrow> inv T' s"
    and stays: "inv T s \<Longrightarrow> time e = None \<Longrightarrow> inv T (step e s)"
    and timed: "inv T s \<Longrightarrow> time e = Some T \<Longrightarrow> inv T (step e s)"
begin

lemma run_inv: "inv T s \<Longrightarrow> sorted (T # List.map_filter time es) \<Longrightarrow> \<exists>T'. inv T' (fold step es s)"
proof (induction es arbitrary: T s)
  case (Cons e es)
  show ?case
  proof (cases "time e")
    case None
    with Cons.prems have "inv T (step e s)" "sorted (T # List.map_filter time es)"
      by (simp_all add: stays List.map_filter_simps)
    with Cons.IH show ?thesis by simp
  next
    case (Some t)
    with Cons.prems(2) have t: "T \<le> t" "sorted (t # List.map_filter time es)" by (simp_all add: List.map_filter_simps)
    with Cons.prems(1) Some have "inv t (step e s)" using later timed by blast
    with Cons.IH t(2) show ?thesis by simp
  qed
qed auto

lemma sorted_run_inv:
  assumes "\<And>T. inv T s" "sorted (List.map_filter time es)"
  shows "\<exists>T. inv T (fold step es s)"
proof -
  have "\<exists>T. sorted (T # List.map_filter time es)" using assms(2) by (cases "List.map_filter time es") auto
  with run_inv assms(1) show ?thesis by blast
qed

end

interpretation web_clock: clocked infra_step infra_time speed_inv
proof
  fix T T' s e
  show "speed_inv T s \<Longrightarrow> T \<le> T' \<Longrightarrow> speed_inv T' s" by (rule speed_inv_later)
  show "speed_inv T s \<Longrightarrow> infra_time e = None \<Longrightarrow> speed_inv T (infra_step e s)"
    "speed_inv T s \<Longrightarrow> infra_time e = Some T \<Longrightarrow> speed_inv T (infra_step e s)"
    using speed_inv_step [of T s e] by auto
qed

text \<open>C33. However the page is used, as long as its clock does not run backwards: among six speed tests in a row the last
  begins at least a minute after the first.\<close>
theorem speed_tests_are_limited:
  assumes "sorted (List.map_filter infra_time es)"
  shows "tests_spaced (map fst (ic_started (infra_run es open_infra)))"
proof -
  have "speed_inv T open_infra" for T by (simp add: speed_inv_def open_infra_def tests_spaced_def)
  from web_clock.sorted_run_inv [OF this assms] show ?thesis by (auto simp: speed_inv_def infra_run_def)
qed

definition some_breakdown :: breakdown where
  "some_breakdown = \<lparr>bd_quota_bytes = 10, bd_nvme_bytes = 4, bd_hdd_bytes = 0, bd_server = Some (''S'', ''/ping'')\<rparr>"

definition quick_test :: "int \<Rightarrow> infra_event" where
  "quick_test t = SpeedEnds t (Answer 200 True 20) (Answer 200 True 40) (Answer 200 True 40)"

definition five_tests :: "infra_event list" where
  "five_tests = [BreakdownArrives 0 some_breakdown, quick_test 1, ClickRefresh 2, quick_test 3, ClickRefresh 4, quick_test 5,
     ClickRefresh 6, quick_test 7, ClickRefresh 8, quick_test 9]"

theorem speed_tests_are_limited_witness:
  "sorted (List.map_filter infra_time (five_tests @ [ClickRefresh 10, ClickRefresh 70000]))
   \<and> tests_spaced (map fst (ic_started (infra_run (five_tests @ [ClickRefresh 10, ClickRefresh 70000]) open_infra)))
   \<and> map fst (ic_started (infra_run (five_tests @ [ClickRefresh 10, ClickRefresh 70000]) open_infra)) = [0, 2, 4, 6, 8]"
proof -
  have srt: "sorted (List.map_filter infra_time (five_tests @ [ClickRefresh 10, ClickRefresh 70000]))"
    by (simp add: five_tests_def quick_test_def List.map_filter_def)
  have "map fst (ic_started (infra_run (five_tests @ [ClickRefresh 10, ClickRefresh 70000]) open_infra)) = [0, 2, 4, 6, 8]"
    by code_simp
  with srt speed_tests_are_limited [OF srt] show ?thesis by blast
qed

text \<open>When the last test that is allowed ends with its minute still full, the button stays off for good: nothing but a
  press of it would count the calls again.\<close>
theorem limit_never_lifts:
  fixes s :: infra_card
  assumes "ic_speed s \<noteq> None" "\<not> ic_speedLoading s" "ic_remaining s \<le> 0"
  shows "ic_started (infra_run es s) = ic_started s \<and> refresh_disabled (infra_run es s)"
proof -
  define P where "P u \<longleftrightarrow> ic_speed u \<noteq> None \<and> \<not> ic_speedLoading u \<and> ic_remaining u \<le> 0 \<and> ic_started u = ic_started s" for u :: infra_card
  have "P (infra_step e u)" if "P u" for e u
    using that by (cases e) (auto simp: P_def Let_def refresh_disabled_def testPrimaryConnection_def split: option.splits)
  then have "P (infra_run es u)" if "P u" for u
    using that by (induction es arbitrary: u) (simp_all add: infra_run_def)
  from this [of s] assms show ?thesis by (simp add: P_def refresh_disabled_def)
qed

theorem limit_never_lifts_witness:
  "refresh_disabled (infra_run [ClickRefresh 3600000] (infra_run five_tests open_infra))
   \<and> refreshes_note (infra_run five_tests open_infra) = Some (''Limit reached '' @ em_dash @ '' try again in a minute'')"
proof -
  have "ic_speed (infra_run five_tests open_infra) \<noteq> None" "\<not> ic_speedLoading (infra_run five_tests open_infra)"
    "ic_remaining (infra_run five_tests open_infra) \<le> 0" by code_simp+
  from limit_never_lifts [OF this] have "refresh_disabled (infra_run [ClickRefresh 3600000] (infra_run five_tests open_infra))" by blast
  moreover have "refreshes_note (infra_run five_tests open_infra) = Some (''Limit reached '' @ em_dash @ '' try again in a minute'')"
    by code_simp
  ultimately show ?thesis by blast
qed


section \<open>Servers: what is asked and what is shown\<close>

text \<open>Only a server of the user that is not the primary one is made primary, and the files open on a drive of the user
  or on none in particular.\<close>
theorem infra_requests_are_sound:
  "list_all (\<lambda>c. case c of
       PrimaryServer i \<Rightarrow> list_ex (\<lambda>e. case e of
           ServersArrive xs \<Rightarrow> list_ex (\<lambda>x. ms_server_id x = i \<and> \<not> ms_is_primary x) xs | _ \<Rightarrow> False) es
     | DefaultDrive (Some d) \<Rightarrow> list_ex (\<lambda>e. case e of
           ServersArrive xs \<Rightarrow> list_ex (\<lambda>x. ms_drive_id x = d) xs | _ \<Rightarrow> False) es
     | DefaultDrive None \<Rightarrow> True
     | _ \<Rightarrow> False) (ic_log (infra_run es open_infra))"
proof -
  define A where "A = {x. \<exists>xs. ServersArrive xs \<in> set es \<and> x \<in> set xs}"
  define G where "G c = (case c of PrimaryServer i \<Rightarrow> (\<exists>x\<in>A. ms_server_id x = i \<and> \<not> ms_is_primary x)
     | DefaultDrive (Some d) \<Rightarrow> (\<exists>x\<in>A. ms_drive_id x = d) | DefaultDrive None \<Rightarrow> True | _ \<Rightarrow> False)" for c
  define P where "P u \<longleftrightarrow> set (ic_servers u) \<subseteq> A \<and> (\<forall>c\<in>set (ic_log u). G c)" for u :: infra_card
  have "P (infra_step e u)" if "P u" "e \<in> set es" for e u
  proof (cases e)
    case (BreakdownArrives now b)
    with that show ?thesis by (auto simp: P_def Let_def runSpeed_def)
  next
    case (ServersArrive xs)
    with that show ?thesis by (auto simp: P_def A_def Let_def testPrimaryConnection_def split: option.splits)
  next
    case (ClickRefresh now)
    with that show ?thesis by (auto simp: P_def Let_def runSpeed_def)
  next
    case (SpeedEnds now a b c)
    have "ic_servers (speed_done now r u) = ic_servers u" "ic_log (speed_done now r u) = ic_log u" for r
      by (simp_all add: speed_done_def Let_def split: sum.splits measure_error.splits)
    with SpeedEnds that show ?thesis by (simp add: P_def)
  next
    case (ClickServer x)
    with that show ?thesis by (auto simp: P_def G_def)
  next
    case (PickDefaultDrive v)
    with that show ?thesis by (auto simp: P_def G_def split: option.splits)
  qed (use that in \<open>simp_all add: P_def\<close>)
  then have "set fs \<subseteq> set es \<Longrightarrow> P u \<Longrightarrow> P (infra_run fs u)" for fs u
    by (induction fs arbitrary: u) (simp_all add: infra_run_def)
  moreover have "P open_infra" by (simp add: P_def open_infra_def)
  ultimately have "P (infra_run es open_infra)" by simp
  then have "\<forall>c\<in>set (ic_log (infra_run es open_infra)). G c" by (simp add: P_def)
  then show ?thesis
    by (force simp: list_all_iff list_ex_iff G_def A_def split: me_call.splits option.splits)
qed

text \<open>A second ping can be under way when the primary server changes: the answer of the first, even when it comes last,
  is shown as the time to the new one.\<close>
definition some_my_server :: "string \<Rightarrow> bool \<Rightarrow> my_server" where
  "some_my_server i p = \<lparr>ms_server_id = i, ms_drive_id = i, ms_name = i, ms_state = ''active'', ms_drive_type = Hdd,
     ms_capacity_bytes = 10, ms_used_bytes = 0, ms_drive_used_pct = 0, ms_quota_bytes = 5, ms_is_primary = p,
     ms_ping_url = ''/ping/'' @ i\<rparr>"

definition two_pings :: infra_card where
  "two_pings = infra_run [ServersArrive [some_my_server ''a'' True, some_my_server ''b'' False],
     ServersArrive [some_my_server ''a'' False, some_my_server ''b'' True]] open_infra"

lemma late_ping_of_former_primary:
  "ic_pings two_pings = [''/ping/a'', ''/ping/b'']"
  "ic_primaryPing (infra_run [PingEnds 1 (Inr 5), PingEnds 0 (Inr 900)] two_pings) = Some 900"
  "find ms_is_primary (ic_servers two_pings) = Some (some_my_server ''b'' True)"
  by (simp_all add: two_pings_def infra_run_def some_my_server_def open_infra_def testPrimaryConnection_def)

lemma tier_pct_bounds: "0 \<le> tier_pct b q \<and> tier_pct b q \<le> 100"
  by (simp add: tier_pct_def)

lemma tier_rows_shown: "fst ` set (tier_rows s) = (if ic_breakdown s = None then {} else {t. owns_type t (ic_servers s)})"
proof (cases "ic_breakdown s")
  case (Some b)
  have "fst ` set (tier_rows s) = {t. owns_type t (ic_servers s) \<and> (t = Nvme \<or> t = Hdd)}"
    by (auto simp: tier_rows_def Some)
  moreover have "t = Nvme \<or> t = Hdd" for t :: drive_type by (cases t) simp_all
  ultimately show ?thesis using Some by simp
qed (simp add: tier_rows_def)

text \<open>Just below a megabyte the size reads as 1024 kilobytes.\<close>
lemma size_below_unit: "profile_size (MIB - 1) = ''1024.0 KB''" "profile_size MIB = ''1.0 MB''"
proof -
  have "\<lfloor>of_nat (MIB - 1) / 1024 * 10 ^ 1 + 1 / 2 :: rat\<rfloor> = 10240" "\<lfloor>of_nat MIB / of_nat MIB * 10 ^ 1 + 1 / 2 :: rat\<rfloor> = 10"
    by (rule floor_unique; simp add: MIB_def)+
  then have "to_fixed 1 (of_nat (MIB - 1) / 1024) = show_nat 1024 @ ''.'' @ pad_digits 1 (show_nat 0)"
    "to_fixed 1 (of_nat MIB / of_nat MIB) = show_nat 1 @ ''.'' @ pad_digits 1 (show_nat 0)"
    by (simp_all add: to_fixed_def)
  moreover have "show_nat 1024 = ''1024''" "show_nat 1 = ''1''" "pad_digits 1 (show_nat 0) = ''0''" by code_simp+
  ultimately show "profile_size (MIB - 1) = ''1024.0 KB''" "profile_size MIB = ''1.0 MB''"
    by (simp_all add: profile_size_def) (simp_all add: MIB_def GB_def)
qed

lemma storage_bar_may_exceed: "0 < quota \<Longrightarrow> quota < used \<Longrightarrow> 100 < used_pct used quota \<and> barColor (used_pct used quota) = Red"
proof -
  assume "0 < quota" "quota < used"
  then have "1 < (of_nat used / of_nat quota :: rat)" by simp
  then have "1 * 100 < (of_nat used / of_nat quota :: rat) * 100" by (rule mult_strict_right_mono) simp
  then have "100 < used_pct used quota" using \<open>0 < quota\<close> by (simp add: used_pct_def)
  then show ?thesis by (simp add: barColor_def)
qed

section \<open>The time since a backup\<close>

definition elapsed_seconds :: "int \<Rightarrow> int \<Rightarrow> int" where
  "elapsed_seconds now t = max 0 ((now - t) div 1000)"

definition ago_units :: "(int \<times> string) list" where
  "ago_units = [(60, ''minute''), (3600, ''hour''), (86400, ''day''), (2592000, ''month'')]"

lemma floor_unit: "0 < u \<Longrightarrow> (e :: int) div u * u \<le> e \<and> e < (e div u + 1) * u"
proof -
  assume "0 < u"
  then have "0 \<le> e mod u" "e mod u < u" by simp_all
  moreover have "e = e div u * u + e mod u" by simp
  ultimately show ?thesis unfolding distrib_right by linarith
qed

text \<open>A backup more than a minute old is told in the unit whose count it is at least once, rounded down.\<close>
theorem time_since_brackets:
  "if elapsed_seconds now t < 60 then formatTimeSince now (Some t) = ''moments ago''
   else list_ex (\<lambda>(u, name). let n = elapsed_seconds now t div u
           in formatTimeSince now (Some t) = ago n name \<and> 1 \<le> n \<and> n * u \<le> elapsed_seconds now t
              \<and> elapsed_seconds now t < (n + 1) * u) ago_units"
proof (cases "elapsed_seconds now t < 60")
  case True
  then show ?thesis by (simp add: formatTimeSince_def elapsed_seconds_def)
next
  case False
  let ?e = "elapsed_seconds now t"
  have divs: "?e div 60 div 60 = ?e div 3600" "?e div 3600 div 24 = ?e div 86400" "?e div 86400 div 30 = ?e div 2592000"
    using zdiv_zmult2_eq [of 60 ?e 60] zdiv_zmult2_eq [of 24 ?e 3600] zdiv_zmult2_eq [of 30 ?e 86400] by simp_all
  have "formatTimeSince now (Some t) =
     (if ?e div 60 < 60 then ago (?e div 60) ''minute'' else if ?e div 3600 < 24 then ago (?e div 3600) ''hour''
      else if ?e div 86400 < 60 then ago (?e div 86400) ''day'' else ago (?e div 2592000) ''month'')"
    using False by (simp add: formatTimeSince_def elapsed_seconds_def [symmetric] divs Let_def)
  with False floor_unit [of 60 ?e] floor_unit [of 3600 ?e] floor_unit [of 86400 ?e] floor_unit [of 2592000 ?e]
  show ?thesis by (simp add: ago_units_def Let_def)
qed

lemma future_backup_just_now: "now < t \<Longrightarrow> formatTimeSince now (Some t) = ''moments ago''"
proof -
  assume "now < t"
  then have "(now - t) div 1000 < 0" by (simp add: neg_imp_zdiv_neg_iff)
  then show ?thesis by (simp add: formatTimeSince_def max_def)
qed

end
