(* ===== verification/Profile.thy ===== *)
theory Profile
  imports ProfileServers FolderApi
begin

text \<open>
  The cards of the account on the profile page, \<open>frontend/src/routes/_auth.client/profile.tsx\<close>: expansion requests,
  linked accounts with the addresses of \<open>utils/socialAuth.ts\<close>, renaming, the premium card and its cancellation,
  the preference cards, and which card a user sees.
\<close>

section \<open>Expansion requests\<close>

definition EXPANSION_STATUS_META :: "request_status \<Rightarrow> string" where
  "EXPANSION_STATUS_META st =
     (case st of
        Opened \<Rightarrow> ''Awaiting review'' | InvoiceSent \<Rightarrow> ''Invoice sent'' | Accepted \<Rightarrow> ''Invoice accepted''
      | Approved \<Rightarrow> ''Approved'' | Expanded \<Rightarrow> ''Balance due'' | Completed \<Rightarrow> ''Completed'' | Expired \<Rightarrow> ''Expired''
      | Refunded \<Rightarrow> ''Refunded'' | Rejected \<Rightarrow> ''Rejected'')"

definition request_deadline :: "expansion_request \<Rightarrow> (string \<times> string option) option" where
  "request_deadline r =
     (case er_status r of
        Opened \<Rightarrow> Some (''Review due'', Some (or_else (er_approval_due_at r) (er_expires_at r)))
      | InvoiceSent \<Rightarrow> Some (''Accept invoice by'', er_invoice_accept_due_at r)
      | Accepted \<Rightarrow> Some (''Approval due'', er_approval_due_at r)
      | Approved \<Rightarrow> Some (''Expansion due'', er_expansion_due_at r)
      | Expanded \<Rightarrow> Some (''Balance due since'', er_payment_due_at r)
      | _ \<Rightarrow> None)"

definition request_line :: "(string \<Rightarrow> string) \<Rightarrow> (int \<Rightarrow> string) \<Rightarrow> expansion_request \<Rightarrow> string" where
  "request_line day usd r =
     er_server_name r @ '' '' @ middot @ '' deposit '' @ usd (er_deposit_amount_cents r) @ '' of '' @ usd (er_full_price_cents r)
     @ '' '' @ middot @ '' requested '' @ day (er_created_at r)
     @ (case request_deadline r of
          Some (name, Some d) \<Rightarrow> if d = [] then [] else '' '' @ middot @ '' '' @ name @ '' '' @ day d
        | _ \<Rightarrow> [])"


section \<open>Linked accounts\<close>

datatype social_provider = Google | Apple | Microsoft

definition provider_key :: "social_provider \<Rightarrow> string" where
  "provider_key p = (case p of Google \<Rightarrow> ''google'' | Apple \<Rightarrow> ''apple'' | Microsoft \<Rightarrow> ''microsoft'')"

definition PROVIDERS :: "(string \<times> string) list" where
  "PROVIDERS = [(''google'', ''Google''), (''apple'', ''Apple''), (''microsoft'', ''Microsoft'')]"

definition providerLabel :: "string \<Rightarrow> string" where
  "providerLabel p = or_else (map_of PROVIDERS p) p"

definition KC_CLIENT_ID :: string where "KC_CLIENT_ID = ''apollo-sfs-api''"

definition authorizeUrl :: "string \<Rightarrow> social_provider \<Rightarrow> string \<Rightarrow> string" where
  "authorizeUrl origin p callbackPath =
     ''https://auth.apollo-sfs.com/realms/apollo-sfs-realm/protocol/openid-connect/auth?''
     @ params_string [(''client_id'', KC_CLIENT_ID), (''redirect_uri'', origin @ callbackPath), (''response_type'', ''code''),
         (''scope'', ''openid''), (''kc_idp_hint'', provider_key p), (''prompt'', ''login''), (''state'', provider_key p)]"

definition socialLoginUrl :: "string \<Rightarrow> social_provider \<Rightarrow> string" where
  "socialLoginUrl origin p = authorizeUrl origin p ''/api/v1/auth/social/callback''"

definition socialLinkUrl :: "string \<Rightarrow> social_provider \<Rightarrow> string" where
  "socialLinkUrl origin p = authorizeUrl origin p ''/client/profile''"

record link_search =
  sr_code :: "string option"
  sr_state :: "string option"
  sr_error :: "string option"

text \<open>\<open>validateSearch\<close> keeps the parameters that are texts.\<close>

definition text_param :: "(string \<times> json) list \<Rightarrow> string \<Rightarrow> string option" where
  "text_param q k = (case map_of q k of Some (JStr t) \<Rightarrow> Some t | _ \<Rightarrow> None)"

definition profile_search :: "(string \<times> json) list \<Rightarrow> link_search" where
  "profile_search q = \<lparr>sr_code = text_param q ''code'', sr_state = text_param q ''state'', sr_error = text_param q ''error''\<rparr>"

definition no_search :: link_search where
  "no_search = \<lparr>sr_code = None, sr_state = None, sr_error = None\<rparr>"

record link_card =
  lk_search :: link_search
  lk_redeemed :: bool
  lk_linked :: "string list"           \<comment> \<open>of the profile that is shown\<close>
  lk_linking :: "string option"
  lk_unlinking :: "string option"
  lk_error :: "string option"
  lk_outcome :: "(bool \<times> string) option"
  lk_left :: "string option"           \<comment> \<open>the address the browser was sent to\<close>
  lk_log :: "me_call list"

definition NOT_CONNECTED :: string where
  "NOT_CONNECTED = ''Could not connect the account. Please try again.''"

text \<open>The effect that ends the round trip.\<close>

definition redeem :: "link_card \<Rightarrow> link_card" where
  "redeem s =
     (let q = lk_search s; prov = or_else (sr_state q) []
      in if (\<not> truthy_text (sr_code q) \<and> \<not> truthy_text (sr_error q)) \<or> lk_redeemed s then s
         else if truthy_text (sr_error q) \<or> \<not> truthy_text (sr_code q) \<or> prov = []
         then s\<lparr>lk_redeemed := True, lk_search := no_search,
                lk_outcome := Some (False, if sr_error q = Some ''access_denied'' then ''Connecting was cancelled.'' else NOT_CONNECTED)\<rparr>
         else s\<lparr>lk_redeemed := True, lk_search := no_search, lk_linking := Some prov,
                lk_log := lk_log s @ [LinkProvider prov (the (sr_code q))]\<rparr>)"

definition open_links :: "link_search \<Rightarrow> string list \<Rightarrow> link_card" where
  "open_links q linked = redeem
     \<lparr>lk_search = q, lk_redeemed = False, lk_linked = linked, lk_linking = None, lk_unlinking = None, lk_error = None,
      lk_outcome = None, lk_left = None, lk_log = []\<rparr>"

datatype link_event =
    ParamsChange link_search
  | EffectAgain                         \<comment> \<open>React runs the effect once more\<close>
  | LinkAnswer "unit answer"
  | ClickRemove social_provider
  | UnlinkAnswer "unit answer"
  | ClickConnect string social_provider \<comment> \<open>with the origin of the page\<close>
  | ProfileArrives "string list"

fun link_step :: "link_event \<Rightarrow> link_card \<Rightarrow> link_card" where
  "link_step (ParamsChange q) s = redeem (s\<lparr>lk_search := q\<rparr>)"
| "link_step EffectAgain s = redeem s"
| "link_step (LinkAnswer a) s =
     (case lk_linking s of
        None \<Rightarrow> s
      | Some p \<Rightarrow> s\<lparr>lk_linking := None, lk_outcome := Some (case a of
            Inr _ \<Rightarrow> (True, providerLabel p @ '' account connected.'')
          | Inl m \<Rightarrow> (False, or_else m NOT_CONNECTED))\<rparr>)"
| "link_step (ClickRemove p) s =
     (if provider_key p \<notin> set (lk_linked s) \<or> lk_unlinking s \<noteq> None then s
      else s\<lparr>lk_unlinking := Some (provider_key p), lk_error := None, lk_log := lk_log s @ [UnlinkProvider (provider_key p)]\<rparr>)"
| "link_step (UnlinkAnswer a) s =
     (if lk_unlinking s = None then s
      else s\<lparr>lk_unlinking := None, lk_error := (case a of
          Inr _ \<Rightarrow> lk_error s | Inl m \<Rightarrow> Some (or_else m ''Failed to unlink account''))\<rparr>)"
| "link_step (ClickConnect origin p) s =
     (if provider_key p \<in> set (lk_linked s) \<or> lk_linking s \<noteq> None then s
      else s\<lparr>lk_left := Some (socialLinkUrl origin p)\<rparr>)"
| "link_step (ProfileArrives ps) s = s\<lparr>lk_linked := ps\<rparr>"

definition link_run :: "link_event list \<Rightarrow> link_card \<Rightarrow> link_card" where
  "link_run es s = fold link_step es s"

section \<open>Renaming\<close>

record rename_row =
  rn_current :: string
  rn_editing :: bool
  rn_value :: string
  rn_error :: "string option"
  rn_pending :: bool
  rn_renamed :: bool                    \<comment> \<open>the rename succeeded and the session is being closed\<close>
  rn_signedOut :: bool                  \<comment> \<open>cached profile dropped, browser at the sign-in page\<close>
  rn_log :: "me_call list"
  rn_toasts :: "string list"

definition open_rename :: "string \<Rightarrow> rename_row" where
  "open_rename u = \<lparr>rn_current = u, rn_editing = False, rn_value = u, rn_error = None, rn_pending = False,
     rn_renamed = False, rn_signedOut = False, rn_log = [], rn_toasts = []\<rparr>"

definition rename_valid :: "rename_row \<Rightarrow> bool" where
  "rename_valid s \<longleftrightarrow> 3 \<le> length (trim (rn_value s)) \<and> length (trim (rn_value s)) \<le> 150 \<and> trim (rn_value s) \<noteq> rn_current s"

definition send_rename :: "rename_row \<Rightarrow> rename_row" where
  "send_rename s =
     (if rename_valid s \<and> \<not> rn_pending s
      then s\<lparr>rn_pending := True, rn_log := rn_log s @ [UpdateUsername (trim (rn_value s))]\<rparr> else s)"

datatype rename_event =
    EditName | NameTyped string | NameEnter | NameEscape | SaveName | CancelEdit
  | RenameAnswer "unit answer"
  | LogoutEnds bool                     \<comment> \<open>whether it succeeded\<close>

text \<open>The field and its buttons are there while the row is edited; the step ignores the other events.\<close>

fun rename_step :: "rename_event \<Rightarrow> rename_row \<Rightarrow> rename_row" where
  "rename_step EditName s = (if rn_editing s then s else s\<lparr>rn_value := rn_current s, rn_error := None, rn_editing := True\<rparr>)"
| "rename_step (NameTyped t) s = (if rn_editing s then s\<lparr>rn_value := t, rn_error := None\<rparr> else s)"
| "rename_step NameEnter s = (if rn_editing s then send_rename s else s)"
| "rename_step NameEscape s = (if rn_editing s then s\<lparr>rn_editing := False, rn_value := rn_current s\<rparr> else s)"
| "rename_step SaveName s = (if rn_editing s then send_rename s else s)"
| "rename_step CancelEdit s = (if rn_editing s then s\<lparr>rn_editing := False, rn_value := rn_current s, rn_error := None\<rparr> else s)"
| "rename_step (RenameAnswer a) s =
     (if \<not> rn_pending s \<or> rn_renamed s then s
      else case a of
        Inr _ \<Rightarrow> s\<lparr>rn_renamed := True, rn_toasts := rn_toasts s @ [''Username updated '' @ em_dash @ '' please sign in again'']\<rparr>
      | Inl m \<Rightarrow> s\<lparr>rn_pending := False, rn_error := Some (or_else m ''Failed to update username'')\<rparr>)"
| "rename_step (LogoutEnds ok) s = (if rn_renamed s then s\<lparr>rn_pending := False, rn_renamed := False, rn_signedOut := True\<rparr> else s)"

definition rename_run :: "rename_event list \<Rightarrow> rename_row \<Rightarrow> rename_row" where
  "rename_run es s = fold rename_step es s"

section \<open>Premium\<close>

record membership =
  mb_isPremium :: bool
  mb_isAdmin :: bool
  mb_sandboxPayments :: bool
  mb_grantedAt :: "string option"
  mb_subscribed :: bool
  mb_environment :: "string option"
  mb_plan :: "string option"
  mb_periodEnd :: "string option"

definition genuinelyPremium :: "membership \<Rightarrow> bool" where
  "genuinelyPremium m \<longleftrightarrow> (if mb_isAdmin m then mb_subscribed m else mb_isPremium m)"

definition shows_member :: "membership \<Rightarrow> bool" where
  "shows_member m \<longleftrightarrow> genuinelyPremium m \<or> (mb_isAdmin m \<and> \<not> mb_sandboxPayments m)"

definition daysLeft :: "(string \<Rightarrow> int) \<Rightarrow> int \<Rightarrow> membership \<Rightarrow> int option" where
  "daysLeft date_ms now m =
     (if truthy_text (mb_periodEnd m)
      then Some (max 0 \<lceil>of_int (date_ms (the (mb_periodEnd m)) - now) / (86400000 :: rat)\<rceil>) else None)"

text \<open>\<open>prices\<close> are the plans of the billing configuration.\<close>

definition member_lines :: "(string \<Rightarrow> int) \<Rightarrow> (string \<Rightarrow> string) \<Rightarrow> (int \<Rightarrow> string) \<Rightarrow> (string \<times> int) list option
    \<Rightarrow> int \<Rightarrow> membership \<Rightarrow> string list" where
  "member_lines date_ms day usd prices now m =
     (if mb_subscribed m
      then (case daysLeft date_ms now m of
              None \<Rightarrow> []
            | Some n \<Rightarrow>
                (''Renews '' @ day (the (mb_periodEnd m)) @ '' ('' @ show_int n @ '' day'' @ (if n = 1 then [] else ''s'') @ '')'')
                # (case (prices, mb_plan m) of
                     (Some ps, Some p) \<Rightarrow> (case map_of ps p of
                         Some c \<Rightarrow> [''Next payment: '' @ usd c @ '' on '' @ day (the (mb_periodEnd m))] | None \<Rightarrow> [])
                   | _ \<Rightarrow> []))
      else [if mb_isAdmin m then ''Included with your admin account.''
            else if truthy_text (mb_grantedAt m) then ''Since '' @ day (the (mb_grantedAt m)) @ ''.'' else ''Active.''])"

record cancel_box =
  cb_confirming :: bool
  cb_pending :: bool
  cb_error :: "string option"
  cb_sent :: nat                        \<comment> \<open>the calls of \<open>cancelPremiumSubscription\<close>\<close>

definition open_cancel :: cancel_box where
  "open_cancel = \<lparr>cb_confirming = False, cb_pending = False, cb_error = None, cb_sent = 0\<rparr>"

datatype cancel_event = AskCancel | ReallyCancel | NeverMind | MembershipAnswer "unit answer"

fun cancel_step :: "membership \<Rightarrow> cancel_event \<Rightarrow> cancel_box \<Rightarrow> cancel_box" where
  "cancel_step m AskCancel c =
     (if shows_member m \<and> mb_subscribed m \<and> \<not> cb_confirming c then c\<lparr>cb_error := None, cb_confirming := True\<rparr> else c)"
| "cancel_step m ReallyCancel c =
     (if shows_member m \<and> mb_subscribed m \<and> cb_confirming c \<and> \<not> cb_pending c
      then c\<lparr>cb_pending := True, cb_sent := cb_sent c + 1\<rparr> else c)"
| "cancel_step m NeverMind c = (if cb_confirming c \<and> \<not> cb_pending c then c\<lparr>cb_confirming := False\<rparr> else c)"
| "cancel_step m (MembershipAnswer a) c =
     (if \<not> cb_pending c then c
      else case a of
        Inr _ \<Rightarrow> c\<lparr>cb_pending := False, cb_confirming := False\<rparr>
      | Inl t \<Rightarrow> c\<lparr>cb_pending := False, cb_error := Some (or_else t ''Could not cancel subscription'')\<rparr>)"

section \<open>Preferences\<close>

record preferences =
  pf_show_storage_buttons :: "bool option"
  pf_storage_prompt_enabled :: "bool option"
  pf_hide_benchmark_promo :: "bool option"
  pf_autoupload_folder :: "string option"
  pf_backup_stale_notify :: "bool option"

definition storage_ui_boxes :: "preferences option \<Rightarrow> (string \<times> bool) list" where
  "storage_ui_boxes p =
     [(''show_storage_buttons'', or_else (Option.bind p pf_show_storage_buttons) True),
      (''storage_prompt_enabled'', or_else (Option.bind p pf_storage_prompt_enabled) True),
      (''hide_benchmark_promo'', or_else (Option.bind p pf_hide_benchmark_promo) False)]"

definition tick_storage_ui :: "string \<Rightarrow> bool \<Rightarrow> me_call" where
  "tick_storage_ui box on = StorageUi [(box, on)]"

text \<open>The folders at the top that are media collections, with the switch and the list.\<close>

definition mediaFolders :: "(string \<times> string) list \<Rightarrow> string list" where
  "mediaFolders xs = map fst (filter (\<lambda>(i, kind). kind = ''media'') xs)"

definition autoupload_on :: "preferences option \<Rightarrow> bool" where
  "autoupload_on p = truthy_text (Option.bind p pf_autoupload_folder)"

definition tick_autoupload :: "(string \<times> string) list \<Rightarrow> bool \<Rightarrow> me_call option" where
  "tick_autoupload xs on =
     (case mediaFolders xs of [] \<Rightarrow> None | f # _ \<Rightarrow> Some (AutouploadFolder (if on then Some f else None)))"

definition pick_autoupload :: "(string \<times> string) list \<Rightarrow> preferences option \<Rightarrow> string \<Rightarrow> me_call option" where
  "pick_autoupload xs p v =
     (if autoupload_on p \<and> v \<in> set (mediaFolders xs) then Some (AutouploadFolder (if v = [] then None else Some v)) else None)"

text \<open>What a preference card says after its answers: the error, the note that it was saved, and the timers that will
  take the note away.\<close>

record saved_note =
  sv_error :: "string option"
  sv_saved :: bool
  sv_timers :: "int list"

definition open_saved :: saved_note where
  "open_saved = \<lparr>sv_error = None, sv_saved = False, sv_timers = []\<rparr>"

datatype saved_event = SavedAnswer int "unit answer" | TimersUntil int

definition saved_step :: "saved_event \<Rightarrow> saved_note \<Rightarrow> saved_note" where
  "saved_step e s =
     (case e of
        SavedAnswer now (Inr _) \<Rightarrow> s\<lparr>sv_error := None, sv_saved := True, sv_timers := sv_timers s @ [now + 3000]\<rparr>
      | SavedAnswer now (Inl m) \<Rightarrow> s\<lparr>sv_error := Some (or_else m ''Failed to save preference'')\<rparr>
      | TimersUntil now \<Rightarrow>
          if list_ex (\<lambda>t. t \<le> now) (sv_timers s)
          then s\<lparr>sv_saved := False, sv_timers := filter (\<lambda>t. now < t) (sv_timers s)\<rparr> else s)"

section \<open>The page\<close>

datatype profile_card =
    IdentityCard | ExpansionCard | InfraCard | LinksCard | PremiumPlanCard | FileServerCard | StorageUiCard | GuidesCard
  | AutouploadCard | ReminderCard | SandboxCard | SandboxRequestCard | PasswordCard | FeedbackCard

record profile_user =
  pu_premium :: bool
  pu_admin :: bool
  pu_sandbox :: bool
  pu_feedback :: bool

definition profile_cards :: "nat \<Rightarrow> profile_user \<Rightarrow> profile_card list" where
  "profile_cards requests u =
     [IdentityCard] @ (if requests = 0 then [] else [ExpansionCard]) @ [InfraCard, LinksCard, PremiumPlanCard]
     @ (if pu_premium u \<or> pu_admin u then [FileServerCard] else []) @ [StorageUiCard, GuidesCard, AutouploadCard]
     @ (if pu_premium u \<or> pu_admin u then [ReminderCard] else [])
     @ (if pu_admin u then [SandboxCard] else []) @ (if pu_admin u \<and> pu_sandbox u then [SandboxRequestCard] else [])
     @ [PasswordCard] @ (if pu_feedback u then [FeedbackCard] else [])"

definition guide_buttons :: "bool \<Rightarrow> string list" where
  "guide_buttons isPremium = ''base'' # (if isPremium then [''premium''] else [])"


section \<open>Linked accounts\<close>

definition redeems :: "me_call list \<Rightarrow> nat" where
  "redeems cs = length (filter (\<lambda>c. case c of LinkProvider _ _ \<Rightarrow> True | _ \<Rightarrow> False) cs)"

definition link_inv :: "link_card \<Rightarrow> bool" where
  "link_inv s \<longleftrightarrow> redeems (lk_log s) \<le> (if lk_redeemed s then 1 else 0)
     \<and> (lk_redeemed s \<or> lk_linking s = None)"

lemma redeems_simps [simp]:
  "redeems [] = 0" "redeems (cs @ [LinkProvider p c]) = Suc (redeems cs)" "redeems (cs @ [UnlinkProvider p]) = redeems cs"
  by (simp_all add: redeems_def)

lemma redeem_inv: "link_inv s \<Longrightarrow> link_inv (redeem s)"
  by (auto simp: link_inv_def redeem_def Let_def)

lemma link_step_inv: "link_inv s \<Longrightarrow> link_inv (link_step e s)"
proof (cases e)
  case (ParamsChange q)
  assume "link_inv s"
  then have "link_inv (s\<lparr>lk_search := q\<rparr>)" by (simp add: link_inv_def)
  with ParamsChange show ?thesis by (simp add: redeem_inv)
next
  case EffectAgain
  assume "link_inv s"
  with EffectAgain show ?thesis by (simp add: redeem_inv)
qed (auto simp: link_inv_def split: option.splits)

text \<open>The code of the round trip is redeemed at most once while the page is open, however often React runs the effect,
  and the address no longer holds it afterwards.\<close>
theorem code_redeemed_once:
  "redeems (lk_log (link_run es (open_links q linked))) \<le> 1"
  "lk_search (open_links q linked) = (if truthy_text (sr_code q) \<or> truthy_text (sr_error q) then no_search else q)"
proof -
  have "link_inv (open_links q linked)" unfolding open_links_def by (rule redeem_inv) (simp add: link_inv_def)
  then have "link_inv (link_run es (open_links q linked))"
    unfolding link_run_def by (rule fold_invariant [where Q = "\<lambda>_. True", rotated]) (simp_all add: link_step_inv)
  then show "redeems (lk_log (link_run es (open_links q linked))) \<le> 1" by (auto simp: link_inv_def split: if_splits)
  show "lk_search (open_links q linked) = (if truthy_text (sr_code q) \<or> truthy_text (sr_error q) then no_search else q)"
    by (simp add: open_links_def redeem_def Let_def)
qed

text \<open>The provider the page links is the one whose button was pressed: it travels as the state of the request, and comes
  back with the code.\<close>
theorem link_round_trip:
  fixes p origin defines "base \<equiv> ''https://auth.apollo-sfs.com/realms/apollo-sfs-realm/protocol/openid-connect/auth?''"
  shows "take (length base) (socialLinkUrl origin p) = base"
    and "map_of (params_parse (drop (length base) (socialLinkUrl origin p))) ''state'' = Some (provider_key p)"
    and "map_of (params_parse (drop (length base) (socialLinkUrl origin p))) ''redirect_uri'' = Some (origin @ ''/client/profile'')"
    and "code \<noteq> [] \<Longrightarrow> lk_log (open_links (profile_search [(''code'', JStr code), (''state'', JStr (provider_key p))]) linked)
      = [LinkProvider (provider_key p) code]"
proof -
  have parts: "socialLinkUrl origin p = base @ params_string [(''client_id'', KC_CLIENT_ID), (''redirect_uri'', origin @ ''/client/profile''),
      (''response_type'', ''code''), (''scope'', ''openid''), (''kc_idp_hint'', provider_key p), (''prompt'', ''login''),
      (''state'', provider_key p)]"
    by (simp add: socialLinkUrl_def authorizeUrl_def base_def)
  show "take (length base) (socialLinkUrl origin p) = base"
    "map_of (params_parse (drop (length base) (socialLinkUrl origin p))) ''state'' = Some (provider_key p)"
    "map_of (params_parse (drop (length base) (socialLinkUrl origin p))) ''redirect_uri'' = Some (origin @ ''/client/profile'')"
    unfolding parts by (simp_all add: params_parse_string)
  assume "code \<noteq> []"
  then show "lk_log (open_links (profile_search [(''code'', JStr code), (''state'', JStr (provider_key p))]) linked)
      = [LinkProvider (provider_key p) code]"
    by (cases p) (simp_all add: open_links_def redeem_def profile_search_def text_param_def truthy_text_def provider_key_def Let_def)
qed

section \<open>Renaming\<close>

definition rename_inv :: "rename_row \<Rightarrow> bool" where
  "rename_inv s \<longleftrightarrow> (rn_renamed s \<longrightarrow> rn_pending s)
     \<and> list_all (\<lambda>c. case c of UpdateUsername n \<Rightarrow> 3 \<le> length n \<and> length n \<le> 150 \<and> n \<noteq> rn_current s \<and> trim n = n | _ \<Rightarrow> False) (rn_log s)"

lemma send_rename_inv: "rename_inv s \<Longrightarrow> rename_inv (send_rename s)"
  by (auto simp: rename_inv_def send_rename_def rename_valid_def trim_idem)

lemma rename_step_inv: "rename_inv s \<Longrightarrow> rename_inv (rename_step e s)"
  by (cases e) (auto simp: send_rename_inv, auto simp: rename_inv_def split: sum.splits)

text \<open>Every name that is sent has 3 to 150 characters without spaces around it and differs from the present one; once
  the server took it, the end of the log-out, successful or not, leaves the page signed out.\<close>
theorem renames_are_valid:
  "rename_inv (rename_run es (open_rename u))"
  "rn_signedOut (rename_run (es @ [LogoutEnds ok]) (open_rename u))
     = (rn_signedOut (rename_run es (open_rename u)) \<or> rn_renamed (rename_run es (open_rename u)))"
proof -
  have "rename_inv s \<Longrightarrow> rename_inv (rename_run es s)" for s
    by (induction es arbitrary: s) (simp_all add: rename_run_def rename_step_inv)
  moreover have "rename_inv (open_rename u)" by (simp add: rename_inv_def open_rename_def)
  ultimately show "rename_inv (rename_run es (open_rename u))" by blast
qed (simp add: rename_run_def)

text \<open>Leaving the row while the rename is on its way does not take it back: the user is signed out all the same.\<close>
lemma escape_does_not_stop_rename:
  "rn_signedOut (rename_run [EditName, NameTyped ''new name'', NameEnter, NameEscape, RenameAnswer (Inr ()), LogoutEnds False]
     (open_rename ''old''))"
  by code_simp

section \<open>Premium\<close>

text \<open>Who is offered the upgrade: a user who is not premium, and an administrator who tests payments without a
  subscription of their own.\<close>
theorem upgrade_offered:
  "\<not> shows_member m \<longleftrightarrow> (if mb_isAdmin m then mb_sandboxPayments m \<and> \<not> mb_subscribed m else \<not> mb_isPremium m)"
  by (auto simp: shows_member_def genuinelyPremium_def)

lemma days_left_bracket:
  assumes "daysLeft date_ms now m = Some n" "mb_periodEnd m = Some d" "now < date_ms d"
  shows "date_ms d - now \<le> n * 86400000" "n * 86400000 < date_ms d - now + 86400000"
proof -
  let ?q = "of_int (date_ms d - now) / (86400000 :: rat)"
  have pos: "0 < ?q" using assms(3) by simp
  then have "0 < \<lceil>?q\<rceil>" by simp
  with assms(1,2) have n: "n = \<lceil>?q\<rceil>" by (auto simp: daysLeft_def split: if_splits)
  have "?q \<le> of_int n" "of_int n < ?q + 1" using ceiling_correct [of ?q] unfolding n by linarith+
  then have "(of_int (date_ms d - now) :: rat) \<le> of_int (n * 86400000)" "(of_int (n * 86400000) :: rat) < of_int (date_ms d - now + 86400000)"
    by (simp_all add: field_simps)
  then show "date_ms d - now \<le> n * 86400000" "n * 86400000 < date_ms d - now + 86400000"
    by (simp_all only: of_int_le_iff of_int_less_iff)
qed

definition membership_run :: "membership \<Rightarrow> cancel_event list \<Rightarrow> cancel_box \<Rightarrow> cancel_box" where
  "membership_run m es c = fold (cancel_step m) es c"

text \<open>Nothing is cancelled without a subscription, nor without the second press.\<close>
lemma cancel_needs_confirmation:
  "ReallyCancel \<notin> set es \<or> \<not> mb_subscribed m \<Longrightarrow> cb_sent (membership_run m es open_cancel) = 0"
proof -
  have "cb_sent c = 0 \<Longrightarrow> ReallyCancel \<notin> set es \<or> \<not> mb_subscribed m \<Longrightarrow> cb_sent (membership_run m es c) = 0" for c
  proof (induction es arbitrary: c)
    case (Cons e es)
    have "cb_sent (cancel_step m e c) = 0"
      using Cons.prems by (cases e) (auto split: sum.splits)
    with Cons have "cb_sent (membership_run m es (cancel_step m e c)) = 0" by auto
    then show ?case by (simp add: membership_run_def)
  qed (simp add: membership_run_def)
  then show "ReallyCancel \<notin> set es \<or> \<not> mb_subscribed m \<Longrightarrow> cb_sent (membership_run m es open_cancel) = 0"
    by (simp add: open_cancel_def)
qed

section \<open>Preference cards\<close>

text \<open>The timer of an earlier save takes away the note of a later one.\<close>
lemma saved_note_cut_short:
  "\<not> sv_saved (fold saved_step [SavedAnswer 0 (Inr ()), SavedAnswer 2900 (Inr ()), TimersUntil 3000] open_saved)"
  by code_simp

text \<open>With no media collection at the top, an auto-upload that is on can no longer be changed here.\<close>
lemma autoupload_stuck_on:
  "mediaFolders xs = [] \<Longrightarrow> tick_autoupload xs on = None \<and> pick_autoupload xs p v = None"
  by (simp add: tick_autoupload_def pick_autoupload_def)

lemma autoupload_targets_media:
  "tick_autoupload xs on = Some (AutouploadFolder (Some f)) \<or> pick_autoupload xs p v = Some (AutouploadFolder (Some f))
     \<Longrightarrow> (f, ''media'') \<in> set xs"
proof -
  have "g \<in> set (mediaFolders xs) \<Longrightarrow> (g, ''media'') \<in> set xs" for g by (auto simp: mediaFolders_def)
  moreover assume "tick_autoupload xs on = Some (AutouploadFolder (Some f)) \<or> pick_autoupload xs p v = Some (AutouploadFolder (Some f))"
  then have "f \<in> set (mediaFolders xs)"
    by (auto simp: tick_autoupload_def pick_autoupload_def split: list.splits if_splits)
  ultimately show ?thesis by blast
qed

lemma cards_by_rights:
  "FileServerCard \<in> set (profile_cards n u) \<longleftrightarrow> pu_premium u \<or> pu_admin u"
  "SandboxRequestCard \<in> set (profile_cards n u) \<Longrightarrow> SandboxCard \<in> set (profile_cards n u)"
  "distinct (profile_cards n u)"
  by (auto simp: profile_cards_def)

end
