(* ===== verification/FileServerLinks.thy ===== *)
theory FileServerLinks
  imports ProfileServers
begin

text \<open>
  The mount links of the file server: \<open>components/FileServerLinksCard.tsx\<close> and \<open>components/FileServerLinkModal.tsx\<close>
  of the web page with the calls of \<open>api/fileServerLinks.ts\<close>, and the card and the window of the phone
  (\<open>mobile/src/screens/ProfileScreen.tsx\<close>). A link belongs to one drive of the user.
\<close>

section \<open>Links and calls\<close>

record server_link =
  fl_id :: string
  fl_drive_id :: string
  fl_server_name :: string
  fl_drive_type :: drive_type
  fl_enhanced :: bool
  fl_created_at :: string
  fl_last_used_at :: "string option"
  fl_mount_url :: string

datatype link_call = CreateLink string bool | UpdateLink string bool | DeleteLink string | VerifyLocation string

fun link_request :: "link_call \<Rightarrow> http_verb \<times> string \<times> json option" where
  "link_request (CreateLink d e) = (Post, ''/me/file-server-links'',
     Some (JObj [(''drive_id'', JStr d), (''enhanced_security'', JBool e)]))"
| "link_request (UpdateLink i e) = (Patch, ''/me/file-server-links/'' @ i, Some (JObj [(''enhanced_security'', JBool e)]))"
| "link_request (DeleteLink i) = (Delete, ''/me/file-server-links/'' @ i, None)"
| "link_request (VerifyLocation t) = (Post, ''/me/file-server-links/verify-location'', Some (JObj [(''token'', JStr t)]))"

text \<open>Whether a drive has no link yet; while the servers load the button stays.\<close>

definition canCreate :: "my_server list option \<Rightarrow> server_link list \<Rightarrow> bool" where
  "canCreate servers links =
     (case servers of None \<Rightarrow> True | Some xs \<Rightarrow> list_ex (\<lambda>s. ms_drive_id s \<notin> fl_drive_id ` set links) xs)"

definition tierLabel :: "drive_type \<Rightarrow> string" where
  "tierLabel t = (case t of Nvme \<Rightarrow> ''Fast'' | Hdd \<Rightarrow> ''Standard'')"

definition link_dates :: "(string \<Rightarrow> string) \<Rightarrow> (string \<Rightarrow> string) \<Rightarrow> server_link \<Rightarrow> string" where
  "link_dates day moment l =
     ''Created '' @ day (fl_created_at l)
     @ (if truthy_text (fl_last_used_at l) then '' '' @ middot @ '' last used '' @ moment (the (fl_last_used_at l))
        else '' '' @ middot @ '' never used'')"

section \<open>The guide\<close>

datatype device_os = Windows | MacOs | Ios | Android | Linux

text \<open>The expressions ignore case; \<open>lower\<close> texts are searched in the lowered user agent.\<close>

definition detectDeviceOS :: "string \<Rightarrow> device_os" where
  "detectDeviceOS agent =
     (let has = (\<lambda>q. has_part q (to_lower agent))
      in if has ''iphone'' \<or> has ''ipad'' \<or> has ''ipod'' then Ios
         else if has ''android'' then Android
         else if has ''windows'' then Windows
         else if has ''macintosh'' \<or> has ''mac os x'' then MacOs
         else Linux)"

definition OS_LABELS :: "device_os \<Rightarrow> string" where
  "OS_LABELS d = (case d of Windows \<Rightarrow> ''Windows'' | MacOs \<Rightarrow> ''macOS'' | Ios \<Rightarrow> ''iPhone / iPad'' | Android \<Rightarrow> ''Android''
     | Linux \<Rightarrow> ''Linux (Ubuntu)'')"

record guide =
  gu_open :: bool
  gu_os :: device_os

definition open_guide :: "string \<Rightarrow> bool \<Rightarrow> guide" where
  "open_guide agent defaultOpen = \<lparr>gu_open = defaultOpen, gu_os = detectDeviceOS agent\<rparr>"

datatype guide_event = FoldGuide | PickOs device_os

definition guide_step :: "guide_event \<Rightarrow> guide \<Rightarrow> guide" where
  "guide_step e g =
     (case e of FoldGuide \<Rightarrow> g\<lparr>gu_open := \<not> gu_open g\<rparr> | PickOs d \<Rightarrow> if gu_open g then g\<lparr>gu_os := d\<rparr> else g)"

section \<open>Creating a link on the web\<close>

record create_form =
  cf_servers :: "my_server list"
  cf_links :: "server_link list"           \<comment> \<open>\<open>existingLinks\<close>\<close>
  cf_selected :: "string option"
  cf_enhanced :: bool
  cf_result :: "(server_link \<times> bool) option"
  cf_copied :: bool
  cf_copying :: bool                       \<comment> \<open>the answer waits for the clipboard\<close>
  cf_error :: "string option"
  cf_pending :: bool
  cf_log :: "link_call list"

definition open_form :: "my_server list \<Rightarrow> server_link list \<Rightarrow> create_form" where
  "open_form xs ls = \<lparr>cf_servers = xs, cf_links = ls, cf_selected = None, cf_enhanced = False, cf_result = None,
     cf_copied = False, cf_copying = False, cf_error = None, cf_pending = False, cf_log = []\<rparr>"

text \<open>\<open>linkByDrive.get\<close>: of two links of one drive the later one.\<close>

definition linkByDrive :: "server_link list \<Rightarrow> string \<Rightarrow> server_link option" where
  "linkByDrive ls d = find (\<lambda>l. fl_drive_id l = d) (rev ls)"

definition existingForSelected :: "create_form \<Rightarrow> server_link option" where
  "existingForSelected f = (case cf_selected f of None \<Rightarrow> None | Some d \<Rightarrow> if d = [] then None else linkByDrive (cf_links f) d)"

definition shows_form :: "create_form \<Rightarrow> bool" where
  "shows_form f \<longleftrightarrow> (case cf_result f of Some (_, True) \<Rightarrow> False | _ \<Rightarrow> True)"

datatype form_event =
    PickDrive string
  | TickEnhanced bool
  | Generate
  | CreateAnswer "(server_link \<times> bool) answer"
  | ClipboardAnswer bool
  | LinksRefetched "server_link list"
  | ServersRefetched "my_server list"

fun form_step :: "form_event \<Rightarrow> create_form \<Rightarrow> create_form" where
  "form_step (PickDrive d) f =
     (if shows_form f \<and> d \<in> ms_drive_id ` set (cf_servers f) then f\<lparr>cf_selected := Some d, cf_error := None\<rparr> else f)"
| "form_step (TickEnhanced b) f = (if shows_form f \<and> existingForSelected f = None then f\<lparr>cf_enhanced := b\<rparr> else f)"
| "form_step Generate f =
     (case cf_selected f of
        None \<Rightarrow> f
      | Some d \<Rightarrow>
          if \<not> shows_form f \<or> existingForSelected f \<noteq> None \<or> cf_pending f \<or> d = [] then f
          else f\<lparr>cf_pending := True, cf_log := cf_log f @ [CreateLink d (cf_enhanced f)]\<rparr>)"
| "form_step (CreateAnswer a) f =
     (if \<not> cf_pending f \<or> cf_copying f then f
      else case a of
        Inr r \<Rightarrow> f\<lparr>cf_result := Some r, cf_error := None, cf_copying := True\<rparr>
      | Inl m \<Rightarrow> f\<lparr>cf_pending := False, cf_error := Some (or_else m ''Failed to create link'')\<rparr>)"
| "form_step (ClipboardAnswer ok) f =
     (if cf_copying f then f\<lparr>cf_copying := False, cf_pending := False, cf_copied := ok\<rparr> else f)"
| "form_step (LinksRefetched ls) f = f\<lparr>cf_links := ls\<rparr>"
| "form_step (ServersRefetched xs) f = f\<lparr>cf_servers := xs\<rparr>"

definition form_run :: "form_event list \<Rightarrow> create_form \<Rightarrow> create_form" where
  "form_run es f = fold form_step es f"

definition created_note :: "create_form \<Rightarrow> string option" where
  "created_note f =
     (if shows_form f then None
      else Some (''Link created'' @ (if cf_copied f then '' and copied to your clipboard'' else [])))"

text \<open>The copy button behind a link: the note goes away when any of its timers ends.\<close>

record copy_button =
  cy_copied :: bool
  cy_timers :: "int list"

datatype copy_event = Copied int | CopyFails | CopyTimers int

definition copy_step :: "copy_event \<Rightarrow> copy_button \<Rightarrow> copy_button" where
  "copy_step e c =
     (case e of
        Copied now \<Rightarrow> c\<lparr>cy_copied := True, cy_timers := cy_timers c @ [now + 2000]\<rparr>
      | CopyFails \<Rightarrow> c
      | CopyTimers now \<Rightarrow>
          if list_ex (\<lambda>t. t \<le> now) (cy_timers c)
          then c\<lparr>cy_copied := False, cy_timers := filter (\<lambda>t. now < t) (cy_timers c)\<rparr> else c)"

section \<open>Deleting\<close>

text \<open>The cards of web and phone do the same: one link is asked about, and the answer, good or bad, closes the
  question that is open.\<close>

record link_list =
  ll_links :: "server_link list"
  ll_confirm :: "string option"
  ll_deleting :: bool
  ll_log :: "link_call list"
  ll_reloads :: nat

definition open_list :: link_list where
  "open_list = \<lparr>ll_links = [], ll_confirm = None, ll_deleting = False, ll_log = [], ll_reloads = 0\<rparr>"

datatype list_event =
    LinksArrive "server_link list"
  | AskDelete string
  | ConfirmDelete string
  | KeepLink
  | DeleteAnswer "unit answer"

fun list_step :: "list_event \<Rightarrow> link_list \<Rightarrow> link_list" where
  "list_step (LinksArrive ls) s = s\<lparr>ll_links := ls\<rparr>"
| "list_step (AskDelete i) s = (if i \<in> fl_id ` set (ll_links s) then s\<lparr>ll_confirm := Some i\<rparr> else s)"
| "list_step (ConfirmDelete i) s =
     (if i \<in> fl_id ` set (ll_links s) \<and> ll_confirm s = Some i \<and> \<not> ll_deleting s
      then s\<lparr>ll_deleting := True, ll_log := ll_log s @ [DeleteLink i]\<rparr> else s)"
| "list_step KeepLink s = s\<lparr>ll_confirm := None\<rparr>"
| "list_step (DeleteAnswer a) s =
     (if ll_deleting s then s\<lparr>ll_deleting := False, ll_confirm := None, ll_reloads := ll_reloads s + 1\<rparr> else s)"

definition list_run :: "list_event list \<Rightarrow> link_list \<Rightarrow> link_list" where
  "list_run es s = fold list_step es s"

section \<open>Creating a link on the phone\<close>

record phone_form =
  pc_servers :: "my_server list"
  pc_links :: "server_link list"
  pc_selected :: "string option"
  pc_enhanced :: bool
  pc_pending :: bool
  pc_result :: "(server_link \<times> bool) option"
  pc_log :: "link_call list"
  pc_alerts :: "(string \<times> string) list"

definition open_phone_form :: "server_link list \<Rightarrow> phone_form" where
  "open_phone_form ls = \<lparr>pc_servers = [], pc_links = ls, pc_selected = None, pc_enhanced = False, pc_pending = False,
     pc_result = None, pc_log = [], pc_alerts = []\<rparr>"

definition first_choice :: "my_server list \<Rightarrow> server_link list \<Rightarrow> string option" where
  "first_choice xs ls =
     (case find (\<lambda>s. \<not> list_ex (\<lambda>l. fl_drive_id l = ms_drive_id s) ls) xs of
        Some s \<Rightarrow> Some (ms_drive_id s)
      | None \<Rightarrow> (case xs of [] \<Rightarrow> None | s # _ \<Rightarrow> Some (ms_drive_id s)))"

datatype phone_form_event =
    PhoneServers "my_server list"
  | TapDrive string
  | SwitchEnhanced bool
  | TapCreate
  | PhoneCreateAnswer "string + (server_link \<times> bool)"   \<comment> \<open>\<open>apiError(e)\<close>, or the link\<close>

fun phone_form_step :: "phone_form_event \<Rightarrow> phone_form \<Rightarrow> phone_form" where
  "phone_form_step (PhoneServers xs) f = f\<lparr>pc_servers := xs, pc_selected := first_choice xs (pc_links f)\<rparr>"
| "phone_form_step (TapDrive d) f =
     (if d \<in> ms_drive_id ` set (pc_servers f) \<and> \<not> pc_pending f \<and> pc_result f = None then f\<lparr>pc_selected := Some d\<rparr> else f)"
| "phone_form_step (SwitchEnhanced b) f = (if pc_pending f \<or> pc_result f \<noteq> None then f else f\<lparr>pc_enhanced := b\<rparr>)"
| "phone_form_step TapCreate f =
     (case pc_selected f of
        None \<Rightarrow> f
      | Some d \<Rightarrow> if d = [] \<or> pc_pending f \<or> pc_result f \<noteq> None then f
                  else f\<lparr>pc_pending := True, pc_log := pc_log f @ [CreateLink d (pc_enhanced f)]\<rparr>)"
| "phone_form_step (PhoneCreateAnswer a) f =
     (if \<not> pc_pending f then f
      else case a of
        Inr r \<Rightarrow> f\<lparr>pc_pending := False, pc_result := Some r\<rparr>
      | Inl m \<Rightarrow> f\<lparr>pc_pending := False, pc_alerts := pc_alerts f @ [(''Could not create link'', m)]\<rparr>)"

definition phone_form_run :: "phone_form_event list \<Rightarrow> phone_form \<Rightarrow> phone_form" where
  "phone_form_run es f = fold phone_form_step es f"

definition result_title :: "phone_form \<Rightarrow> string option" where
  "result_title f = map_option (\<lambda>(_, new). if new then ''Link created'' else ''Link already exists'') (pc_result f)"

section \<open>What is asked of the server\<close>

lemma linkByDrive_none: "linkByDrive ls d = None \<longleftrightarrow> d \<notin> fl_drive_id ` set ls"
  by (auto simp: linkByDrive_def find_None_iff)

text \<open>The button is there exactly when some drive of the user has no link, and then the form can create one for that
  drive; it never asks for a second link of a drive whose link it knows.\<close>
theorem new_link_when_possible:
  "canCreate (Some xs) ls \<longleftrightarrow> (\<exists>s\<in>set xs. linkByDrive ls (ms_drive_id s) = None)"
  by (simp add: canCreate_def list_ex_iff linkByDrive_none)

theorem created_links_are_new:
  "cf_log (form_step e f) = cf_log f
   \<or> (\<exists>d. cf_log (form_step e f) = cf_log f @ [CreateLink d (cf_enhanced f)] \<and> cf_selected f = Some d
        \<and> d \<notin> fl_drive_id ` set (cf_links f) \<and> \<not> cf_pending f)"
  by (cases e) (auto simp: existingForSelected_def linkByDrive_none split: option.splits sum.splits if_splits)

definition form_inv :: "create_form \<Rightarrow> bool" where
  "form_inv f \<longleftrightarrow> (cf_copying f \<longrightarrow> cf_pending f \<and> cf_result f \<noteq> None) \<and> (cf_copied f \<longrightarrow> cf_result f \<noteq> None)"

lemma form_inv_holds: "form_inv (form_run es (open_form xs ls))"
proof -
  have "form_inv f \<Longrightarrow> form_inv (form_step e f)" for e f
    by (cases e) (auto simp: form_inv_def split: option.splits sum.splits if_splits)
  then have "form_inv f \<Longrightarrow> form_inv (form_run es f)" for f
    by (induction es arbitrary: f) (simp_all add: form_run_def)
  moreover have "form_inv (open_form xs ls)" by (simp add: form_inv_def open_form_def)
  ultimately show ?thesis by blast
qed

text \<open>A link that was created ends the form: nothing more is sent.\<close>
lemma created_link_ends_form:
  assumes "\<not> shows_form f" "\<not> cf_pending f \<or> cf_copying f"
  shows "cf_log (form_run es f) = cf_log f"
proof -
  have "(\<not> shows_form g \<and> (\<not> cf_pending g \<or> cf_copying g) \<and> cf_log g = cf_log f)
      \<Longrightarrow> (\<not> shows_form (form_step e g) \<and> (\<not> cf_pending (form_step e g) \<or> cf_copying (form_step e g))
           \<and> cf_log (form_step e g) = cf_log f)" for e g
    by (cases e) (auto simp: shows_form_def split: option.splits sum.splits)
  then have "\<not> shows_form g \<Longrightarrow> \<not> cf_pending g \<or> cf_copying g \<Longrightarrow> cf_log g = cf_log f \<Longrightarrow> cf_log (form_run es g) = cf_log f" for g
    by (induction es arbitrary: g) (simp_all add: form_run_def)
  with assms show ?thesis by blast
qed

text \<open>The phone starts from a drive without a link, if there is one.\<close>
theorem phone_starts_from_free_drive:
  "case first_choice xs ls of
     None \<Rightarrow> xs = []
   | Some d \<Rightarrow> d \<in> ms_drive_id ` set xs \<and> (d \<in> fl_drive_id ` set ls \<longleftrightarrow> \<not> canCreate (Some xs) ls)"
proof (cases "find (\<lambda>s. \<not> list_ex (\<lambda>l. fl_drive_id l = ms_drive_id s) ls) xs")
  case None
  then have all: "\<forall>s\<in>set xs. ms_drive_id s \<in> fl_drive_id ` set ls"
    unfolding find_None_iff list_ex_iff by (metis imageI)
  then have "\<not> canCreate (Some xs) ls" by (simp add: canCreate_def list_ex_iff)
  with None all show ?thesis by (cases xs) (auto simp: first_choice_def)
next
  case (Some s)
  then have "s \<in> set xs" "\<not> list_ex (\<lambda>l. fl_drive_id l = ms_drive_id s) ls" by (auto simp: find_Some_iff)
  then have free: "ms_drive_id s \<notin> fl_drive_id ` set ls" by (auto simp: list_ex_iff)
  with \<open>s \<in> set xs\<close> have "canCreate (Some xs) ls" by (auto simp: canCreate_def list_ex_iff)
  with Some \<open>s \<in> set xs\<close> free show ?thesis by (simp add: first_choice_def)
qed

text \<open>But the phone offers a new link also when every drive has one, and sends the request for the first drive, whose
  link the web page would show instead.\<close>
definition some_link :: "string \<Rightarrow> server_link" where
  "some_link d = \<lparr>fl_id = ''l'' @ d, fl_drive_id = d, fl_server_name = ''S'', fl_drive_type = Hdd, fl_enhanced = True,
     fl_created_at = ''t'', fl_last_used_at = None, fl_mount_url = ''u''\<rparr>"

lemma phone_asks_for_existing_link:
  "\<not> canCreate (Some [some_my_server ''a'' True]) [some_link ''a'']"
  "pc_log (phone_form_run [PhoneServers [some_my_server ''a'' True], TapCreate] (open_phone_form [some_link ''a'']))
     = [CreateLink ''a'' False]"
  "cf_log (form_run [PickDrive ''a'', Generate] (open_form [some_my_server ''a'' True] [some_link ''a''])) = []"
  by (simp_all add: canCreate_def phone_form_run_def open_phone_form_def first_choice_def some_my_server_def some_link_def
      form_run_def open_form_def shows_form_def existingForSelected_def linkByDrive_def)

lemma deletes_confirmed:
  "ll_log (list_step e s) = ll_log s
   \<or> (\<exists>i. e = ConfirmDelete i \<and> ll_confirm s = Some i \<and> \<not> ll_deleting s \<and> ll_log (list_step e s) = ll_log s @ [DeleteLink i])"
  by (cases e) auto

text \<open>The answer to a deletion closes the question about another link that was asked meanwhile.\<close>
lemma delete_answer_closes_other:
  "ll_confirm (list_run [LinksArrive [some_link ''a'', some_link ''b''], AskDelete ''la'', ConfirmDelete ''la'', AskDelete ''lb'',
     DeleteAnswer (Inr ())] open_list) = None"
  by (simp add: list_run_def open_list_def some_link_def)

section \<open>The device\<close>

text \<open>A browser of an iPhone names the Mac it resembles, and Android names Linux: the order of the tests keeps them
  apart. An iPad that asks for desktop pages counts as a Mac.\<close>
lemma device_by_agent:
  "detectDeviceOS ''Mozilla/5.0 (iPhone; CPU iPhone OS 17_0 like Mac OS X)'' = Ios"
  "detectDeviceOS ''Mozilla/5.0 (Linux; Android 14)'' = Android"
  "detectDeviceOS ''Mozilla/5.0 (Windows NT 10.0; Win64)'' = Windows"
  "detectDeviceOS ''Mozilla/5.0 (Macintosh; Intel Mac OS X 10_15)'' = MacOs"
  "detectDeviceOS ''Mozilla/5.0 (X11; Ubuntu; Linux x86_64)'' = Linux"
  by code_simp+

text \<open>Copying again within two seconds: the first timer hides the second note.\<close>
lemma copied_note_cut_short:
  "\<not> cy_copied (fold copy_step [Copied 0, Copied 1500, CopyTimers 2000] \<lparr>cy_copied = False, cy_timers = []\<rparr>)"
  by code_simp

end
