(* ===== verification/PhoneProfile.thy ===== *)
theory PhoneProfile
  imports Profile MobileAuth
begin

text \<open>
  The profile screen of the phone, \<open>mobile/src/screens/ProfileScreen.tsx\<close>, with the speed test of
  \<open>mobile/src/api/storage.ts\<close>: the card of servers, renaming, linking of accounts, the cancellation of premium, the
  preference cards and the auto-upload with the folder it remembers. What it shares with the web page is that of
  \<open>ProfileServers\<close> and \<open>Profile\<close>. An \<open>apiError\<close> or a message is the text of a failed answer.
\<close>

section \<open>The speed test of the phone\<close>

text \<open>The client of the phone rejects an answer outside 200 to 299.\<close>

definition good_status :: "nat \<Rightarrow> bool" where
  "good_status st \<longleftrightarrow> 200 \<le> st \<and> st < 300"

definition phone_pingServer :: "fetched \<Rightarrow> measure_error + int" where
  "phone_pingServer f =
     (case f of Unreachable \<Rightarrow> Inl OtherError | Answer st body ms \<Rightarrow> if good_status st \<and> body then Inr ms else Inl OtherError)"

definition phone_measure :: "rat \<Rightarrow> fetched \<Rightarrow> measure_error + rat option" where
  "phone_measure mb f =
     (case f of
        Unreachable \<Rightarrow> Inl OtherError
      | Answer st body ms \<Rightarrow>
          if st = 429 then Inl RateLimited
          else if \<not> good_status st \<or> \<not> body then Inl OtherError
          else Inr (mbps mb ms))"

definition phone_runSpeedTest :: "fetched \<Rightarrow> fetched \<Rightarrow> fetched \<Rightarrow> measure_error + speed_metrics" where
  "phone_runSpeedTest ping down up =
     (case phone_measure 1 down of
        Inl RateLimited \<Rightarrow> Inl RateLimited
      | d \<Rightarrow> (case phone_measure (1 / 2) up of
                Inl RateLimited \<Rightarrow> Inl RateLimited
              | u \<Rightarrow> Inr \<lparr>sm_ping_ms = (case phone_pingServer ping of Inl _ \<Rightarrow> None | Inr ms \<Rightarrow> Some ms),
                          sm_download_mbps = (case d of Inl _ \<Rightarrow> None | Inr x \<Rightarrow> Some x),
                          sm_upload_mbps = (case u of Inl _ \<Rightarrow> None | Inr x \<Rightarrow> Some x)\<rparr>))"

text \<open>An answer that arrives whole, with a status of success or the limit of calls.\<close>

definition plain_answer :: "fetched \<Rightarrow> bool" where
  "plain_answer f \<longleftrightarrow> (case f of Unreachable \<Rightarrow> True | Answer st body ms \<Rightarrow> body \<and> (good_status st \<or> st = 429))"

text \<open>Phone and web measure the same as long as no error page is served; the phone leaves the figure of an error page
  empty, where the web measures it.\<close>
theorem phone_measures_as_web:
  assumes "plain_answer ping" "plain_answer down" "plain_answer up" "\<And>b ms. ping \<noteq> Answer 429 b ms"
  shows "phone_runSpeedTest ping down up = runSpeedTest ping down up"
proof -
  have "phone_pingServer ping = pingServer ping"
    using assms(1,4) by (auto simp: phone_pingServer_def pingServer_def plain_answer_def split: fetched.splits)
  moreover have "phone_measure 1 down = measureDownloadSpeed down"
    using assms(2) by (auto simp: phone_measure_def measureDownloadSpeed_def plain_answer_def split: fetched.splits)
  moreover have "phone_measure (1 / 2) up = measureUploadSpeed up"
    using assms(3) by (auto simp: phone_measure_def measureUploadSpeed_def plain_answer_def split: fetched.splits)
  ultimately show ?thesis by (simp only: phone_runSpeedTest_def runSpeedTest_def Let_def)
qed

lemma phone_measures_as_web_witness:
  "phone_runSpeedTest (Answer 200 True 20) (Answer 200 True 40) (Answer 204 True 40)
     = runSpeedTest (Answer 200 True 20) (Answer 200 True 40) (Answer 204 True 40)"
  by (rule phone_measures_as_web) (simp_all add: plain_answer_def good_status_def)

lemma phone_skips_error_pages:
  "phone_runSpeedTest (Answer 500 True 20) (Answer 500 True 40) (Answer 503 True 40)
     = Inr \<lparr>sm_ping_ms = None, sm_download_mbps = None, sm_upload_mbps = None\<rparr>"
  by (simp add: phone_runSpeedTest_def phone_measure_def phone_pingServer_def good_status_def)

section \<open>Servers\<close>

text \<open>The screen keeps the state of the card of the web page; \<open>ph_reloading\<close> is the list that is loaded again after the
  primary server was set.\<close>

record phone_infra = infra_card +
  ph_reloading :: bool

definition open_phone_infra :: phone_infra where
  "open_phone_infra = infra_card.extend open_infra \<lparr>ph_reloading = False\<rparr>"

definition phone_runSpeed :: "int \<Rightarrow> phone_infra \<Rightarrow> phone_infra" where
  "phone_runSpeed now s = infra_card.extend (runSpeed now (infra_card.truncate s)) \<lparr>ph_reloading = ph_reloading s\<rparr>"

definition phone_speed_done :: "measure_error + speed_metrics \<Rightarrow> phone_infra \<Rightarrow> phone_infra" where
  "phone_speed_done r s =
     (case r of
        Inr m \<Rightarrow> s\<lparr>ic_speed := Some m, ic_speedLoading := False\<rparr>
      | Inl RateLimited \<Rightarrow> s\<lparr>ic_speedError := Some LIMIT_TEXT, ic_speedLoading := False\<rparr>
      | Inl OtherError \<Rightarrow> s\<lparr>ic_speedError := Some ''Speed test failed. Check your connection.'', ic_speedLoading := False\<rparr>)"

datatype phone_infra_event =
    BreakdownLoads int "breakdown option"    \<comment> \<open>once, when the screen opens; \<open>None\<close>: it failed\<close>
  | ServersLoad "my_server list option"
  | PhonePingEnds nat "measure_error + int"
  | TapRefresh int
  | PhoneSpeedEnds fetched fetched fetched
  | TapServer my_server
  | PrimarySet bool

fun phone_infra_step :: "phone_infra_event \<Rightarrow> phone_infra \<Rightarrow> phone_infra" where
  "phone_infra_step (BreakdownLoads now b) s =
     (case b of None \<Rightarrow> s | Some x \<Rightarrow> phone_runSpeed now (s\<lparr>ic_breakdown := Some x\<rparr>))"
| "phone_infra_step (ServersLoad r) s =
     (let s1 = (case r of
                  None \<Rightarrow> s
                | Some xs \<Rightarrow> (case find ms_is_primary xs of
                     None \<Rightarrow> s\<lparr>ic_servers := xs\<rparr>
                   | Some p \<Rightarrow> s\<lparr>ic_servers := xs, ic_pings := ic_pings s @ [ms_ping_url p]\<rparr>))
      in if ph_reloading s then s1\<lparr>ph_reloading := False, ic_settingPrimary := None\<rparr> else s1)"
| "phone_infra_step (PhonePingEnds i r) s =
     (if length (ic_pings s) \<le> i then s
      else s\<lparr>ic_pings := take i (ic_pings s) @ drop (Suc i) (ic_pings s),
             ic_primaryPing := (case r of Inr ms \<Rightarrow> Some ms | Inl _ \<Rightarrow> None)\<rparr>)"
| "phone_infra_step (TapRefresh now) s =
     (if Option.bind (ic_breakdown s) bd_server = None \<or> ic_speedLoading s \<or> ic_remaining s \<le> 0 then s else phone_runSpeed now s)"
| "phone_infra_step (PhoneSpeedEnds ping down up) s =
     (if ic_speedLoading s then phone_speed_done (phone_runSpeedTest ping down up) s else s)"
| "phone_infra_step (TapServer x) s =
     (if x \<notin> set (ic_servers s) \<or> ms_is_primary x \<or> ic_settingPrimary s \<noteq> None then s
      else s\<lparr>ic_settingPrimary := Some (ms_server_id x), ic_log := ic_log s @ [PrimaryServer (ms_server_id x)]\<rparr>)"
| "phone_infra_step (PrimarySet ok) s =
     (if ic_settingPrimary s = None \<or> ph_reloading s then s
      else if ok then s\<lparr>ph_reloading := True\<rparr> else s\<lparr>ic_settingPrimary := None\<rparr>)"

definition phone_infra_run :: "phone_infra_event list \<Rightarrow> phone_infra \<Rightarrow> phone_infra" where
  "phone_infra_run es s = fold phone_infra_step es s"

text \<open>The line of a server: unlike on the web it is measured against the quota of all drives together.\<close>

definition phone_server_line :: "phone_infra \<Rightarrow> my_server \<Rightarrow> string" where
  "phone_server_line s x =
     profile_size (ms_used_bytes x) @ '' used of ''
     @ profile_size (case ic_breakdown s of None \<Rightarrow> 0 | Some b \<Rightarrow> bd_quota_bytes b)
     @ (case ic_primaryPing s of Some ms \<Rightarrow> if ms_is_primary x then '' '' @ middot @ '' '' @ show_int ms @ '' ms'' else [] | None \<Rightarrow> [])"

definition phone_server_pct :: "phone_infra \<Rightarrow> my_server \<Rightarrow> rat" where
  "phone_server_pct s x = tier_pct (ms_used_bytes x) (case ic_breakdown s of None \<Rightarrow> 0 | Some b \<Rightarrow> bd_quota_bytes b)"

fun phone_infra_time :: "phone_infra_event \<Rightarrow> int option" where
  "phone_infra_time (BreakdownLoads t _) = Some t"
| "phone_infra_time (TapRefresh t) = Some t"
| "phone_infra_time _ = None"

lemma phone_runSpeed_inv:
  "speed_inv T (infra_card.truncate s) \<Longrightarrow> speed_inv T (infra_card.truncate (phone_runSpeed T s))"
  using speed_inv_runSpeed [of T "infra_card.truncate s"]
  by (simp add: phone_runSpeed_def infra_card.defs speed_inv_def)

lemma phone_speed_done_simps:
  "ic_started (phone_speed_done r s) = ic_started s" "ic_calls (phone_speed_done r s) = ic_calls s"
  "ic_remaining (phone_speed_done r s) = ic_remaining s"
  by (simp_all add: phone_speed_done_def split: sum.split measure_error.split)

lemma phone_untimed_step:
  assumes "phone_infra_time e = None"
  shows "ic_started (phone_infra_step e s) = ic_started s" "ic_calls (phone_infra_step e s) = ic_calls s"
    "ic_remaining (phone_infra_step e s) = ic_remaining s"
proof -
  have "ic_started (phone_infra_step e s) = ic_started s \<and> ic_calls (phone_infra_step e s) = ic_calls s
      \<and> ic_remaining (phone_infra_step e s) = ic_remaining s"
  proof (cases e)
    case (ServersLoad r)
    then show ?thesis by (cases r; cases "find ms_is_primary (the r)") (simp_all add: Let_def)
  qed (use assms in \<open>simp_all add: phone_speed_done_simps\<close>)
  then show "ic_started (phone_infra_step e s) = ic_started s" "ic_calls (phone_infra_step e s) = ic_calls s"
    "ic_remaining (phone_infra_step e s) = ic_remaining s" by simp_all
qed

text \<open>The limit of the web page holds on the phone: six tests in a row take at least a minute.\<close>

interpretation phone_clock: clocked phone_infra_step phone_infra_time "\<lambda>T s. speed_inv T (infra_card.truncate s)"
proof
  fix T T' and s :: phone_infra and e
  show "speed_inv T (infra_card.truncate s) \<Longrightarrow> T \<le> T' \<Longrightarrow> speed_inv T' (infra_card.truncate s)" by (rule speed_inv_later)
  have same: "ic_started u = ic_started s \<Longrightarrow> ic_calls u = ic_calls s
      \<Longrightarrow> speed_inv T (infra_card.truncate u) = speed_inv T (infra_card.truncate s)" for u :: phone_infra
    by (rule speed_inv_cong) (simp_all add: infra_card.defs)
  show "speed_inv T (infra_card.truncate s) \<Longrightarrow> phone_infra_time e = None \<Longrightarrow> speed_inv T (infra_card.truncate (phone_infra_step e s))"
    using same [of "phone_infra_step e s"] phone_untimed_step(1,2) [of e s] by blast
  show "speed_inv T (infra_card.truncate s) \<Longrightarrow> phone_infra_time e = Some T \<Longrightarrow> speed_inv T (infra_card.truncate (phone_infra_step e s))"
  proof (cases e)
    case (BreakdownLoads t b)
    assume inv: "speed_inv T (infra_card.truncate s)" "phone_infra_time e = Some T"
    have "speed_inv T (infra_card.truncate (phone_runSpeed T (s\<lparr>ic_breakdown := Some x\<rparr>)))" for x
      using inv(1) same [of "s\<lparr>ic_breakdown := Some x\<rparr>"] by (intro phone_runSpeed_inv) simp
    with inv BreakdownLoads show ?thesis by (simp split: option.splits)
  qed (simp_all add: phone_runSpeed_inv)
qed

theorem phone_speed_tests_are_limited:
  assumes "sorted (List.map_filter phone_infra_time es)"
  shows "tests_spaced (map fst (ic_started (phone_infra_run es open_phone_infra)))"
proof -
  have "speed_inv T (infra_card.truncate open_phone_infra)" for T
    by (simp add: speed_inv_def open_phone_infra_def open_infra_def tests_spaced_def infra_card.defs)
  from phone_clock.sorted_run_inv [OF this assms] show ?thesis
    by (auto simp: speed_inv_def phone_infra_run_def infra_card.defs)
qed

text \<open>The phone counts its calls again only when a test is asked for: right after the fifth press the button is off for
  good, even when the first calls have become old while the tests ran.\<close>
theorem phone_limit_never_lifts:
  assumes "ic_remaining s \<le> 0" "\<forall>t b. BreakdownLoads t b \<notin> set es"
  shows "ic_started (phone_infra_run es s) = ic_started s \<and> ic_remaining (phone_infra_run es s) \<le> 0"
  using assms
proof (induction es arbitrary: s)
  case (Cons e es)
  have "ic_started (phone_infra_step e s) = ic_started s \<and> ic_remaining (phone_infra_step e s) \<le> 0"
  proof (cases e)
    case (BreakdownLoads t b)
    with Cons.prems(2) show ?thesis by auto
  qed (use Cons.prems(1) phone_untimed_step [of e s] in simp_all)
  with Cons show ?case by (auto simp: phone_infra_run_def)
qed (simp add: phone_infra_run_def)

definition slow_tests :: "phone_infra_event list" where
  "slow_tests = (let done = PhoneSpeedEnds (Answer 200 True 20) (Answer 200 True 40) (Answer 200 True 40)
     in [BreakdownLoads 0 (Some some_breakdown), done, TapRefresh 20000, done, TapRefresh 30000, done, TapRefresh 40000, done,
         TapRefresh 59000, done, TapRefresh 119001])"

text \<open>The same presses on the web, with the last test ending after a minute: there the button comes back.\<close>
lemma phone_stricter_than_web:
  "map fst (ic_started (phone_infra_run slow_tests open_phone_infra)) = [0, 20000, 30000, 40000, 59000]"
  "map fst (ic_started (infra_run [BreakdownArrives 0 some_breakdown, quick_test 10, ClickRefresh 20000, quick_test 20010,
     ClickRefresh 30000, quick_test 30010, ClickRefresh 40000, quick_test 40010, ClickRefresh 59000, quick_test 60001,
     ClickRefresh 119001] open_infra)) = [0, 20000, 30000, 40000, 59000, 119001]"
  by code_simp+

text \<open>Each drive is measured against the quota of all drives: a full drive of a tenth of the quota looks nearly empty.\<close>
lemma phone_bar_of_full_drive:
  assumes "ic_breakdown s = Some b" "0 < bd_quota_bytes b" "ms_used_bytes x = ms_quota_bytes x" "10 * ms_quota_bytes x \<le> bd_quota_bytes b"
    "0 < ms_quota_bytes x"
  shows "phone_server_pct s x \<le> 10" "tier_pct (ms_used_bytes x) (ms_quota_bytes x) = 100"
proof -
  have "(of_nat (10 * ms_quota_bytes x) :: rat) \<le> of_nat (bd_quota_bytes b)" using assms(4) by (simp only: of_nat_le_iff)
  with assms show "phone_server_pct s x \<le> 10"
    by (simp add: phone_server_pct_def tier_pct_def field_simps min_def)
  from assms show "tier_pct (ms_used_bytes x) (ms_quota_bytes x) = 100" by (simp add: tier_pct_def)
qed

section \<open>Renaming\<close>

text \<open>As on the web, with a field that is locked while the name is on its way, and without a key to leave it. The answer
  ends the session by \<open>signOut\<close>, which drops the tokens and the profile.\<close>

datatype phone_rename_event =
    TapPencil | PhoneNameTyped string | TapSave | TapDiscard | PhoneRenameAnswer "string + unit"

fun phone_rename_step :: "phone_rename_event \<Rightarrow> rename_row \<Rightarrow> rename_row" where
  "phone_rename_step TapPencil s = (if rn_editing s then s else s\<lparr>rn_value := rn_current s, rn_error := None, rn_editing := True\<rparr>)"
| "phone_rename_step (PhoneNameTyped t) s = (if rn_editing s \<and> \<not> rn_pending s then s\<lparr>rn_value := t, rn_error := None\<rparr> else s)"
| "phone_rename_step TapSave s = (if rn_editing s then send_rename s else s)"
| "phone_rename_step TapDiscard s = (if rn_editing s then s\<lparr>rn_editing := False, rn_value := rn_current s, rn_error := None\<rparr> else s)"
| "phone_rename_step (PhoneRenameAnswer a) s =
     (if \<not> rn_pending s then s
      else case a of
        Inr _ \<Rightarrow> s\<lparr>rn_pending := False, rn_signedOut := True,
                   rn_toasts := rn_toasts s @ [''Username updated: Please sign in again with your new username.'']\<rparr>
      | Inl m \<Rightarrow> s\<lparr>rn_pending := False, rn_error := Some m\<rparr>)"

definition phone_rename_run :: "phone_rename_event list \<Rightarrow> rename_row \<Rightarrow> rename_row" where
  "phone_rename_run es s = fold phone_rename_step es s"

lemma phone_renames_are_valid: "rename_inv (phone_rename_run es (open_rename u))"
proof -
  have send_renamed: "rn_renamed (send_rename s) = rn_renamed s" for s by (simp add: send_rename_def)
  have "rename_inv s \<Longrightarrow> \<not> rn_renamed s \<Longrightarrow> rename_inv (phone_rename_step e s) \<and> \<not> rn_renamed (phone_rename_step e s)" for e s
    by (cases e) (auto simp: send_rename_inv send_renamed, auto simp: rename_inv_def split: sum.splits)
  then have "rename_inv s \<Longrightarrow> \<not> rn_renamed s \<Longrightarrow> rename_inv (phone_rename_run es s)" for s
    by (induction es arbitrary: s) (simp_all add: phone_rename_run_def)
  then show ?thesis by (simp add: rename_inv_def open_rename_def)
qed

section \<open>Linked accounts\<close>

text \<open>What the native sign-in gives: it was cancelled, failed with a message, or gave a token (Apple) or a code (Google), if any.\<close>

datatype native_answer = WasCancelled | NativeFailed string | NativeOk "string option"

datatype social_call = LinkToken string string | LinkServerCode string string | Unlink string

text \<open>The calls, whether the profile is loaded again, and the message that is shown.\<close>

type_synonym link_report = "social_call list \<times> bool \<times> (string \<times> string) option"

definition handleLinkApple :: "bool \<Rightarrow> native_answer \<Rightarrow> string + unit \<Rightarrow> link_report" where
  "handleLinkApple is_ios native backend =
     (if \<not> is_ios then ([], False, None)
      else case native of
        WasCancelled \<Rightarrow> ([], False, None)
      | NativeFailed m \<Rightarrow> ([], False, Some (''Failed to link Apple'', m))
      | NativeOk t \<Rightarrow>
          if \<not> truthy_text t then ([], False, Some (''Failed to link Apple'', ''No token''))
          else ([LinkToken ''apple'' (the t)],
                case backend of Inr _ \<Rightarrow> (True, Some (''Apple linked'', [])) | Inl m \<Rightarrow> (False, Some (''Failed to link Apple'', m))))"

definition handleLinkGoogle :: "native_answer \<Rightarrow> string + unit \<Rightarrow> link_report" where
  "handleLinkGoogle native backend =
     (case native of
        WasCancelled \<Rightarrow> ([], False, None)
      | NativeFailed m \<Rightarrow> ([], False, Some (''Failed to link Google'', m))
      | NativeOk t \<Rightarrow>
          if \<not> truthy_text t then ([], False, Some (''Failed to link Google'', ''No server auth code from Google sign-in''))
          else ([LinkServerCode ''google'' (the t)],
                case backend of Inr _ \<Rightarrow> (True, Some (''Google account linked'', [])) | Inl m \<Rightarrow> (False, Some (''Failed to link Google'', m))))"

definition handleUnlink :: "string \<Rightarrow> string \<Rightarrow> string + unit \<Rightarrow> link_report" where
  "handleUnlink prov good backend =
     ([Unlink prov], case backend of Inr _ \<Rightarrow> (True, Some (good, [])) | Inl m \<Rightarrow> (False, Some (''Failed'', m)))"

text \<open>A cancelled sign-in is silent; every other outcome is told, and the profile is loaded again exactly when the
  server took the link.\<close>
theorem link_outcomes_told:
  "case handleLinkApple True native backend of (calls, reloaded, told) \<Rightarrow>
     (told = None) = (native = WasCancelled) \<and> reloaded = (calls \<noteq> [] \<and> (\<exists>u. backend = Inr u))"
  "case handleLinkGoogle native backend of (calls, reloaded, told) \<Rightarrow>
     (told = None) = (native = WasCancelled) \<and> reloaded = (calls \<noteq> [] \<and> (\<exists>u. backend = Inr u))"
  by (auto simp: handleLinkApple_def handleLinkGoogle_def split: native_answer.splits sum.splits)

section \<open>Premium\<close>

datatype phone_cancel_event = TapCancelPremium | TapReally | TapNeverMind | PhoneCancelAnswer "string + unit" | PhoneRefreshed

text \<open>\<open>cb_pending\<close> lasts until the profile was loaded again; the question is closed before.\<close>

record phone_cancel = cancel_box +
  cb_refreshing :: bool

definition open_phone_cancel :: phone_cancel where
  "open_phone_cancel = cancel_box.extend open_cancel \<lparr>cb_refreshing = False\<rparr>"

fun phone_cancel_step :: "membership \<Rightarrow> phone_cancel_event \<Rightarrow> phone_cancel \<Rightarrow> phone_cancel" where
  "phone_cancel_step m TapCancelPremium c =
     (if shows_member m \<and> mb_subscribed m \<and> \<not> cb_confirming c then c\<lparr>cb_error := None, cb_confirming := True\<rparr> else c)"
| "phone_cancel_step m TapReally c =
     (if shows_member m \<and> mb_subscribed m \<and> cb_confirming c \<and> \<not> cb_pending c
      then c\<lparr>cb_pending := True, cb_error := None, cb_sent := cb_sent c + 1\<rparr> else c)"
| "phone_cancel_step m TapNeverMind c = (if cb_confirming c \<and> \<not> cb_pending c then c\<lparr>cb_confirming := False\<rparr> else c)"
| "phone_cancel_step m (PhoneCancelAnswer a) c =
     (if \<not> cb_pending c \<or> cb_refreshing c then c
      else case a of
        Inr _ \<Rightarrow> c\<lparr>cb_confirming := False, cb_refreshing := True\<rparr>
      | Inl t \<Rightarrow> c\<lparr>cb_pending := False, cb_error := Some t\<rparr>)"
| "phone_cancel_step m PhoneRefreshed c = (if cb_refreshing c then c\<lparr>cb_refreshing := False, cb_pending := False\<rparr> else c)"

text \<open>Until the new profile is there no second cancellation goes out; the web page, whose button is free at once, sends
  one for a membership it has not yet seen end.\<close>
lemma phone_cancels_once:
  assumes "shows_member m" "mb_subscribed m"
  shows "cb_sent (fold (phone_cancel_step m) [TapCancelPremium, TapReally, PhoneCancelAnswer (Inr ()), TapCancelPremium, TapReally] open_phone_cancel) = 1"
    and "cb_sent (membership_run m [AskCancel, ReallyCancel, MembershipAnswer (Inr ()), AskCancel, ReallyCancel] open_cancel) = 2"
  using assms by (simp_all add: open_phone_cancel_def open_cancel_def membership_run_def cancel_box.defs)

section \<open>Preferences\<close>

record ui_prefs_card =
  up_prefs :: "preferences option"
  up_saving :: "(string \<times> bool) option"
  up_log :: "me_call list"
  up_alerts :: "string list"

definition open_ui_prefs :: ui_prefs_card where
  "open_ui_prefs = \<lparr>up_prefs = None, up_saving = None, up_log = [], up_alerts = []\<rparr>"

definition patch_prefs :: "string \<times> bool \<Rightarrow> preferences \<Rightarrow> preferences" where
  "patch_prefs q p =
     (if fst q = ''show_storage_buttons'' then p\<lparr>pf_show_storage_buttons := Some (snd q)\<rparr>
      else if fst q = ''storage_prompt_enabled'' then p\<lparr>pf_storage_prompt_enabled := Some (snd q)\<rparr> else p)"

datatype ui_prefs_event = PrefsLoad preferences | SwitchPref string bool | PrefAnswer "string + unit"

fun ui_prefs_step :: "ui_prefs_event \<Rightarrow> ui_prefs_card \<Rightarrow> ui_prefs_card" where
  "ui_prefs_step (PrefsLoad p) s = s\<lparr>up_prefs := Some p\<rparr>"
| "ui_prefs_step (SwitchPref k b) s =
     (if k \<notin> {''show_storage_buttons'', ''storage_prompt_enabled''} \<or> up_saving s \<noteq> None then s
      else s\<lparr>up_saving := Some (k, b), up_log := up_log s @ [StorageUi [(k, b)]]\<rparr>)"
| "ui_prefs_step (PrefAnswer a) s =
     (case up_saving s of
        None \<Rightarrow> s
      | Some q \<Rightarrow> (case a of
          Inr _ \<Rightarrow> s\<lparr>up_saving := None, up_prefs := map_option (patch_prefs q) (up_prefs s)\<rparr>
        | Inl m \<Rightarrow> s\<lparr>up_saving := None, up_alerts := up_alerts s @ [m]\<rparr>))"

definition phone_switches :: "ui_prefs_card \<Rightarrow> (string \<times> bool) list" where
  "phone_switches s = take 2 (storage_ui_boxes (up_prefs s))"

text \<open>A switch that was saved shows what was saved once the preferences were loaded; when they were not, it jumps back.\<close>
theorem switch_shows_saved:
  assumes "up_prefs s = Some p" "up_saving s = None" "k \<in> {''show_storage_buttons'', ''storage_prompt_enabled''}"
  shows "map_of (phone_switches (fold ui_prefs_step [SwitchPref k b, PrefAnswer (Inr ())] s)) k = Some b"
  using assms by (auto simp: phone_switches_def storage_ui_boxes_def patch_prefs_def)

lemma switch_jumps_back:
  "map_of (phone_switches (fold ui_prefs_step [SwitchPref ''show_storage_buttons'' False, PrefAnswer (Inr ())] open_ui_prefs))
     ''show_storage_buttons'' = Some True"
  by (simp add: open_ui_prefs_def phone_switches_def storage_ui_boxes_def)

subsection \<open>The auto-upload\<close>

text \<open>\<open>au_last\<close> is the folder kept in the storage of the device; a call that is under way carries what it will do.\<close>

datatype reroute_plan = PickFolder "string option" | SwitchOff | SwitchOn string

record reroute_card =
  au_folder :: "string option"
  au_folders :: "(string \<times> string) list"      \<comment> \<open>the media collections at the top: id and name\<close>
  au_last :: "string option"
  au_picker :: bool
  au_saving :: "reroute_plan option"
  au_log :: "me_call list"
  au_alerts :: "(string \<times> string) list"

definition reroute_target :: "reroute_card \<Rightarrow> string option" where
  "reroute_target s =
     (if truthy_text (au_last s) \<and> the (au_last s) \<in> fst ` set (au_folders s) then au_last s
      else case au_folders s of [] \<Rightarrow> None | f # _ \<Rightarrow> Some (fst f))"

datatype reroute_event =
    RerouteLoads "string option" "(string \<times> string) list"
  | OpenFolderPicker
  | CloseFolderPicker
  | TapFolder "string option"
  | FlipReroute bool
  | RerouteAnswer "string + unit"

fun reroute_step :: "reroute_event \<Rightarrow> reroute_card \<Rightarrow> reroute_card" where
  "reroute_step (RerouteLoads f fs) s = s\<lparr>au_folder := f, au_folders := fs\<rparr>"
| "reroute_step OpenFolderPicker s = (if au_folder s \<noteq> None \<and> au_saving s = None then s\<lparr>au_picker := True\<rparr> else s)"
| "reroute_step CloseFolderPicker s = (if au_saving s = None then s\<lparr>au_picker := False\<rparr> else s)"
| "reroute_step (TapFolder f) s =
     (if \<not> au_picker s \<or> au_saving s \<noteq> None \<or> f \<notin> insert None (Some ` fst ` set (au_folders s)) then s
      else s\<lparr>au_saving := Some (PickFolder f), au_log := au_log s @ [AutouploadFolder f]\<rparr>)"
| "reroute_step (FlipReroute on) s =
     (if au_saving s \<noteq> None \<or> on = (au_folder s \<noteq> None) then s
      else if \<not> on
      then s\<lparr>au_last := (if truthy_text (au_folder s) then au_folder s else au_last s), au_saving := Some SwitchOff,
             au_log := au_log s @ [AutouploadFolder None]\<rparr>
      else case reroute_target s of
        None \<Rightarrow> s\<lparr>au_alerts := au_alerts s @ [(''No media collections'', ''Create a media collection in Files first, then enable reroute.'')]\<rparr>
      | Some t \<Rightarrow> s\<lparr>au_saving := Some (SwitchOn t), au_log := au_log s @ [AutouploadFolder (Some t)]\<rparr>)"
| "reroute_step (RerouteAnswer a) s =
     (case (au_saving s, a) of
        (None, _) \<Rightarrow> s
      | (Some _, Inl m) \<Rightarrow> s\<lparr>au_saving := None, au_alerts := au_alerts s @ [(''Failed to update'', m)]\<rparr>
      | (Some (PickFolder f), Inr _) \<Rightarrow> s\<lparr>au_saving := None, au_folder := f, au_picker := False\<rparr>
      | (Some SwitchOff, Inr _) \<Rightarrow> s\<lparr>au_saving := None, au_folder := None\<rparr>
      | (Some (SwitchOn t), Inr _) \<Rightarrow> s\<lparr>au_saving := None, au_folder := Some t\<rparr>)"

definition reroute_run :: "reroute_event list \<Rightarrow> reroute_card \<Rightarrow> reroute_card" where
  "reroute_run es s = fold reroute_step es s"

definition folderLabel :: "reroute_card \<Rightarrow> string" where
  "folderLabel s =
     (case au_folder s of None \<Rightarrow> ''/ (root)'' | Some f \<Rightarrow> or_else (map_of (au_folders s) f) ''/ (root)'')"

text \<open>Switched off and on again, the auto-upload goes to the folder it went to before.\<close>
theorem reroute_off_and_on:
  assumes "au_folder s = Some f" "f \<noteq> []" "f \<in> fst ` set (au_folders s)" "au_saving s = None"
  shows "au_folder (reroute_run [FlipReroute False, RerouteAnswer (Inr ()), FlipReroute True, RerouteAnswer (Inr ())] s) = Some f"
  using assms by (simp add: reroute_run_def reroute_target_def truthy_text_def)

definition some_reroute :: reroute_card where
  "some_reroute = \<lparr>au_folder = Some ''m2'', au_folders = [(''m1'', ''One''), (''m2'', ''Two'')], au_last = None, au_picker = False,
     au_saving = None, au_log = [], au_alerts = []\<rparr>"

theorem reroute_off_and_on_witness:
  "au_folder (reroute_run [FlipReroute False, RerouteAnswer (Inr ()), FlipReroute True, RerouteAnswer (Inr ())] some_reroute) = Some ''m2''"
  by (rule reroute_off_and_on) (simp_all add: some_reroute_def)

text \<open>Switched off through the folder picker, it is not remembered and comes back elsewhere.\<close>
lemma reroute_off_by_picker_forgets:
  "au_folder (reroute_run [OpenFolderPicker, TapFolder None, RerouteAnswer (Inr ()), FlipReroute True, RerouteAnswer (Inr ())] some_reroute)
     = Some ''m1''"
  by (simp add: reroute_run_def some_reroute_def reroute_target_def truthy_text_def)

text \<open>A folder that is not at the top is shown as the root, although the uploads go to it.\<close>
lemma nested_folder_shown_as_root:
  "folderLabel (some_reroute\<lparr>au_folder := Some ''nested''\<rparr>) = ''/ (root)''"
  by (simp add: folderLabel_def some_reroute_def)

fun listed_target :: "(string \<times> string) list set \<Rightarrow> me_call \<Rightarrow> bool" where
  "listed_target F (AutouploadFolder f) = (case f of None \<Rightarrow> True | Some g \<Rightarrow> \<exists>fs\<in>F. g \<in> fst ` set fs)"
| "listed_target F _ = False"

definition reroute_inv :: "(string \<times> string) list set \<Rightarrow> reroute_card \<Rightarrow> bool" where
  "reroute_inv F s \<longleftrightarrow> au_folders s \<in> F \<and> list_all (listed_target F) (au_log s)"

lemma reroute_step_inv:
  assumes inv: "reroute_inv F s" and loads: "\<And>f fs. e = RerouteLoads f fs \<Longrightarrow> fs \<in> F"
  shows "reroute_inv F (reroute_step e s)"
proof (cases e)
  case (FlipReroute on)
  have "reroute_target s = Some t \<Longrightarrow> t \<in> fst ` set (au_folders s)" for t
    by (auto simp: reroute_target_def split: if_splits list.splits)
  with inv FlipReroute show ?thesis by (auto simp: reroute_inv_def split: option.split)
next
  case (TapFolder f)
  with inv show ?thesis by (cases f) (auto simp: reroute_inv_def)
next
  case (RerouteAnswer a)
  with inv show ?thesis by (auto simp: reroute_inv_def split: option.split sum.split reroute_plan.split)
qed (use inv loads in \<open>simp_all add: reroute_inv_def\<close>)

text \<open>Whatever is switched or picked, the uploads are only ever sent to a media collection that was listed, or nowhere.\<close>
theorem reroutes_go_to_listed_folders:
  assumes "au_folders s = []" "au_log s = []"
  shows "reroute_inv (insert [] {fs. \<exists>f. RerouteLoads f fs \<in> set es}) (reroute_run es s)"
proof -
  define F where "F = insert [] {fs. \<exists>f. RerouteLoads f fs \<in> set es}"
  have "set es' \<subseteq> set es \<Longrightarrow> reroute_inv F t \<Longrightarrow> reroute_inv F (reroute_run es' t)" for es' t
  proof (induction es' arbitrary: t)
    case (Cons e es')
    then have "reroute_inv F (reroute_step e t)" by (intro reroute_step_inv) (auto simp: F_def)
    with Cons show ?case by (simp add: reroute_run_def)
  qed (simp add: reroute_run_def)
  moreover have "reroute_inv F s" using assms by (simp add: reroute_inv_def F_def)
  ultimately show ?thesis by (simp add: F_def)
qed

section \<open>The screen\<close>

definition phone_cards :: "profile_user \<Rightarrow> profile_card list" where
  "phone_cards u =
     [IdentityCard, ExpansionCard, InfraCard, LinksCard, PremiumPlanCard]
     @ (if pu_premium u \<or> pu_admin u then [FileServerCard] else []) @ [StorageUiCard, AutouploadCard]
     @ (if pu_admin u then [SandboxCard] else []) @ [PasswordCard]"

definition count_badge :: "nat \<Rightarrow> string option" where
  "count_badge n = (if n = 0 then None else Some (if 9 < n then ''9+'' else show_nat n))"

definition phone_badges :: "bool \<Rightarrow> bool \<Rightarrow> bool \<Rightarrow> string list" where
  "phone_badges admin premium subscribed =
     (if admin then [''Admin''] else []) @ (if subscribed \<or> (premium \<and> \<not> admin) then [''Premium''] else [])
     @ (if \<not> admin \<and> \<not> premium then [''User''] else [])"

text \<open>The phone shows no card that the web would not show.\<close>
lemma phone_cards_on_web: "requests \<noteq> 0 \<Longrightarrow> set (phone_cards u) \<subseteq> set (profile_cards requests u)"
  by (auto simp: phone_cards_def profile_cards_def)

text \<open>A profile that cannot be loaded again, for whatever reason, is dropped: pulling the screen down while offline
  closes it.\<close>
lemma offline_refresh_drops_profile: "mo_profile (refreshProfile (Inl e) s) = None"
  by (simp add: refreshProfile_def)

end
