(* ===== verification/PhoneHome.thy ===== *)
theory PhoneHome
  imports GoogleRun SyncService Decimals
begin

text \<open>
  The home screen of the phone, \<open>mobile/src/screens/HomeScreen.tsx\<close>, with the state of \<open>context/SyncContext.tsx\<close> and
  the chooser \<open>components/GoogleServiceSelectModal.tsx\<close>: the runs of the synchronisation and their estimate, where
  uploads go, cleaning the device, picking files, and the backup of Google files with the deletion of the originals.
\<close>

section \<open>Texts\<close>

definition home_bytes :: "nat \<Rightarrow> string" where
  "home_bytes b =
     (if b < 1024 ^ 3 then to_fixed 0 (of_nat b / 1024 / 1024) @ '' MB'' else to_fixed 1 (of_nat b / 1024 / 1024 / 1024) @ '' GB'')"

definition formatEta :: "nat \<Rightarrow> string" where
  "formatEta seconds =
     (if seconds < 60 then show_nat seconds @ ''s remaining''
      else let m = nat (js_round (of_nat seconds / 60))
           in if m < 60 then ''~'' @ show_nat m @ '' min remaining''
              else let h = m div 60; rem = m mod 60
                   in if 0 < rem then ''~'' @ show_nat h @ ''h '' @ show_nat rem @ ''m remaining''
                      else ''~'' @ show_nat h @ ''h remaining'')"

datatype file_icon = ImageIcon | VideoIcon | MusicIcon | TextIcon

definition fileMimeIcon :: "string \<Rightarrow> file_icon" where
  "fileMimeIcon t =
     (if starts_with ''image/'' t then ImageIcon else if starts_with ''video/'' t then VideoIcon
      else if starts_with ''audio/'' t then MusicIcon else TextIcon)"

datatype home_bar = HomeError | HomeWarning | HomePrimary

definition home_pct :: "nat \<Rightarrow> nat \<Rightarrow> rat" where
  "home_pct used quota = (if 0 < quota then of_nat used / of_nat quota * 100 else 0)"

definition home_barColor :: "rat \<Rightarrow> home_bar" where
  "home_barColor p = (if 90 < p then HomeError else if 70 < p then HomeWarning else HomePrimary)"

text \<open>\<open>localQuotaBytes\<close> is what the last purchase told.\<close>

definition home_quota :: "nat option \<Rightarrow> nat option \<Rightarrow> nat" where
  "home_quota local_quota profile_quota = or_else local_quota (or_else profile_quota 0)"

section \<open>The state of the synchronisation\<close>

record sync_context =
  sc_pending :: nat
  sc_synced :: nat
  sc_files :: "string list"
  sc_last :: "int option"
  sc_syncing :: bool
  sc_error :: "string option"
  sc_eta :: "nat option"
  sc_start :: "(int \<times> nat) option"
  sc_service :: bool
  sc_runs :: nat                      \<comment> \<open>the runs begun\<close>

definition open_sync :: sync_context where
  "open_sync = \<lparr>sc_pending = 0, sc_synced = 0, sc_files = [], sc_last = None, sc_syncing = False, sc_error = None,
     sc_eta = None, sc_start = None, sc_service = False, sc_runs = 0\<rparr>"

text \<open>The effect that estimates the time left.\<close>

definition eta_effect :: "int \<Rightarrow> sync_context \<Rightarrow> sync_context" where
  "eta_effect now s =
     (case (sc_syncing s, sc_start s) of
        (True, Some (t, n)) \<Rightarrow>
          let completed = int (sc_synced s) - int n; elapsed = of_int (now - t) / (1000 :: rat)
          in if completed < 1 \<or> elapsed < 2 then s
             else s\<lparr>sc_eta := Some (nat (js_round (of_nat (sc_pending s) / (of_int completed / elapsed))))\<rparr>
      | _ \<Rightarrow> s\<lparr>sc_eta := None\<rparr>)"

definition begin_run :: "int \<Rightarrow> sync_context \<Rightarrow> sync_context" where
  "begin_run now s =
     (if \<not> sc_service s \<or> sc_syncing s then s
      else s\<lparr>sc_start := Some (now, sc_synced s), sc_eta := None, sc_syncing := True, sc_error := None, sc_runs := sc_runs s + 1\<rparr>)"

datatype sync_event =
    SignedIn nat nat                    \<comment> \<open>a service is made, the rows of the queue are counted\<close>
  | CountsChange int nat nat            \<comment> \<open>time, pending, synced\<close>
  | FileStarts string
  | FileCompletes string
  | RunStarts int                       \<comment> \<open>\<open>triggerSync\<close> or \<open>confirmSync\<close>\<close>
  | RunEnds int "string + unit"

fun sync_step :: "sync_event \<Rightarrow> sync_context \<Rightarrow> sync_context" where
  "sync_step (SignedIn p d) s = s\<lparr>sc_service := True, sc_pending := p, sc_synced := d\<rparr>"
| "sync_step (CountsChange now p d) s = eta_effect now (s\<lparr>sc_pending := p, sc_synced := d\<rparr>)"
| "sync_step (FileStarts f) s = (if f \<in> set (sc_files s) then s else s\<lparr>sc_files := sc_files s @ [f]\<rparr>)"
| "sync_step (FileCompletes f) s = s\<lparr>sc_files := filter (\<lambda>g. g \<noteq> f) (sc_files s)\<rparr>"
| "sync_step (RunStarts now) s = begin_run now s"
| "sync_step (RunEnds now r) s =
     (if \<not> sc_syncing s then s
      else (case r of Inr _ \<Rightarrow> s\<lparr>sc_last := Some now\<rparr> | Inl m \<Rightarrow> s\<lparr>sc_error := Some m\<rparr>)
             \<lparr>sc_syncing := False, sc_files := [], sc_eta := None\<rparr>)"

definition sync_context_run :: "sync_event list \<Rightarrow> sync_context \<Rightarrow> sync_context" where
  "sync_context_run es s = fold sync_step es s"

section \<open>Where uploads go\<close>

datatype picker_mode = CameraMode | FilesMode

record home_dest =
  hd_autoupload :: "string option"
  hd_files :: "string option"             \<comment> \<open>\<open>filesDestFolderID\<close>\<close>
  hd_stored :: "string option"            \<comment> \<open>what the device keeps under \<open>FILES_DEST_KEY\<close>\<close>
  hd_folders :: "(string \<times> string) list"
  hd_mode :: "picker_mode option"
  hd_saving :: "(picker_mode \<times> string option) option"     \<comment> \<open>what is being saved\<close>
  hd_sent :: "string option list"         \<comment> \<open>the folders sent as preference\<close>

definition open_dest :: "string option \<Rightarrow> home_dest" where
  "open_dest stored = \<lparr>hd_autoupload = None, hd_files = None, hd_stored = stored, hd_folders = [], hd_mode = None,
     hd_saving = None, hd_sent = []\<rparr>"

datatype dest_event =
    FocusLoads "string option" "(string \<times> string) list"   \<comment> \<open>preference and collections; the device is read too\<close>
  | OpenPicker picker_mode
  | ClosePicker bool                     \<comment> \<open>by the back key, or by a tap beside it\<close>
  | PickDest "string option"
  | DestAnswer bool

fun dest_step :: "dest_event \<Rightarrow> home_dest \<Rightarrow> home_dest" where
  "dest_step (FocusLoads f fs) s = s\<lparr>hd_autoupload := f, hd_folders := fs, hd_files := hd_stored s\<rparr>"
| "dest_step (OpenPicker m) s = s\<lparr>hd_mode := Some m\<rparr>"
| "dest_step (ClosePicker back_key) s = (if back_key \<or> hd_saving s = None then s\<lparr>hd_mode := None\<rparr> else s)"
| "dest_step (PickDest f) s =
     (case hd_mode s of
        None \<Rightarrow> s
      | Some m \<Rightarrow>
          if hd_saving s \<noteq> None \<or> f \<notin> insert None (Some ` fst ` set (hd_folders s)) then s
          else s\<lparr>hd_saving := Some (m, f), hd_sent := (if m = CameraMode then hd_sent s @ [f] else hd_sent s)\<rparr>)"
| "dest_step (DestAnswer ok) s =
     (case hd_saving s of
        None \<Rightarrow> s
      | Some (m, f) \<Rightarrow>
          if \<not> ok then s\<lparr>hd_saving := None\<rparr>
          else if m = CameraMode then s\<lparr>hd_saving := None, hd_autoupload := f, hd_mode := None\<rparr>
          else s\<lparr>hd_saving := None, hd_stored := Some (or_else f []), hd_files := f, hd_mode := None\<rparr>)"

definition dest_run :: "dest_event list \<Rightarrow> home_dest \<Rightarrow> home_dest" where
  "dest_run es s = fold dest_step es s"

definition destinationLabel :: "home_dest \<Rightarrow> string" where
  "destinationLabel s = (case hd_autoupload s of None \<Rightarrow> ''/'' | Some f \<Rightarrow> or_else (map_of (hd_folders s) f) ''/'')"

definition redirectFolderName :: "home_dest \<Rightarrow> string option" where
  "redirectFolderName s = map_option (\<lambda>f. or_else (map_of (hd_folders s) f) ''Root'') (hd_autoupload s)"

definition filesDestLabel :: "home_dest \<Rightarrow> string" where
  "filesDestLabel s =
     (case hd_files s of None \<Rightarrow> ''/'' | Some f \<Rightarrow> if f = [] then ''/'' else or_else (map_of (hd_folders s) f) ''/'')"

section \<open>Picking files\<close>

text \<open>The types the picker of the system offers: \<open>None\<close> is any file.\<close>

definition picker_types :: "home_dest \<Rightarrow> string list option" where
  "picker_types s = (if hd_files s \<noteq> None then Some [''image/*''] else None)"

record picked_file =
  pk_uri :: string
  pk_copy :: "string option"
  pk_name :: "string option"
  pk_type :: "string option"

record file_upload =
  fu_uri :: string
  fu_name :: string
  fu_type :: string
  fu_folder :: "string option"

text \<open>The form takes a folder that is not the empty text.\<close>

definition file_upload_of :: "home_dest \<Rightarrow> picked_file \<Rightarrow> file_upload" where
  "file_upload_of s f =
     \<lparr>fu_uri = or_else (pk_copy f) (pk_uri f), fu_name = or_else (pk_name f) ''upload'',
      fu_type = or_else (pk_type f) ''application/octet-stream'',
      fu_folder = (case hd_files s of None \<Rightarrow> None | Some d \<Rightarrow> if d = [] then None else Some d)\<rparr>"

text \<open>The uploads, with the progress shown after each; whether one succeeded is the parameter \<open>ok\<close> and is not looked at.\<close>

definition handleFilesAppSync :: "(nat \<Rightarrow> bool) \<Rightarrow> home_dest \<Rightarrow> picked_file list \<Rightarrow> (file_upload \<times> nat \<times> nat) list" where
  "handleFilesAppSync ok s fs = map (\<lambda>(i, f). (file_upload_of s f, i + 1, length fs)) (enumerate 0 fs)"

section \<open>Cleaning the device\<close>

definition cleanup_uris :: "queue_item list \<Rightarrow> string list" where
  "cleanup_uris q = filter (starts_with ''ph://'') (map local_uri (getAllDoneItems q))"

datatype cleanup_offer = NothingToClean | OfferCleanup "string list"

definition handleCleanupSynced :: "queue_item list \<Rightarrow> cleanup_offer" where
  "handleCleanupSynced q = (if cleanup_uris q = [] then NothingToClean else OfferCleanup (cleanup_uris q))"

section \<open>The backup of Google files\<close>

record service_choice =
  sv_photos :: bool
  sv_drive :: bool

definition open_choice :: service_choice where
  "open_choice = \<lparr>sv_photos = True, sv_drive = True\<rparr>"

definition canContinue :: "service_choice \<Rightarrow> bool" where
  "canContinue c \<longleftrightarrow> sv_photos c \<or> sv_drive c"

datatype poll_end = PollDone | PollOver | PollCancelled

text \<open>The polls of the picker: whether there is still time, whether the window was closed during the wait, and the answer
  (whether the items are set). \<open>None\<close> is still polling.\<close>

fun phone_poll :: "(bool \<times> bool \<times> (unit + bool)) list \<Rightarrow> bool \<Rightarrow> poll_end option" where
  "phone_poll rs True = Some PollDone"
| "phone_poll [] False = None"
| "phone_poll ((in_time, closing, answer) # rs) False =
     (if \<not> in_time then Some PollOver else if closing then Some PollCancelled
      else case answer of Inl _ \<Rightarrow> Some PollOver | Inr b \<Rightarrow> phone_poll rs b)"

text \<open>What is picked, and whether the session was deleted; closing the window while the polling is over but the list not
  yet read picks nothing.\<close>

definition pickGooglePhotos :: "unit + bool \<Rightarrow> (bool \<times> bool \<times> (unit + bool)) list \<Rightarrow> bool \<Rightarrow> unit + google_item list
    \<Rightarrow> (google_item list \<times> bool) option" where
  "pickGooglePhotos session rs closed_late picked =
     (case session of
        Inl _ \<Rightarrow> Some ([], False)
      | Inr b \<Rightarrow>
          (case phone_poll rs b of
             None \<Rightarrow> None
           | Some PollCancelled \<Rightarrow> Some ([], False)
           | Some PollOver \<Rightarrow> Some ([], True)
           | Some PollDone \<Rightarrow> (case picked of Inl _ \<Rightarrow> Some ([], False) | Inr xs \<Rightarrow> Some (if closed_late then [] else xs, True))))"

datatype fetch_report = NothingFound | Fetched "google_item list" | FetchFailed string | FetchSilent

text \<open>\<open>signin\<close>: the token, a cancelled sign-in (\<open>None\<close>) or the message of a failure.\<close>

definition handleServiceContinue :: "string option + string \<Rightarrow> service_choice \<Rightarrow> string + google_item list \<Rightarrow> google_item list
    \<Rightarrow> fetch_report" where
  "handleServiceContinue signin c drive photos =
     (case signin of
        Inl None \<Rightarrow> FetchSilent
      | Inl (Some m) \<Rightarrow> FetchFailed m
      | Inr token \<Rightarrow>
          (case (if sv_drive c then drive else Inr []) of
             Inl m \<Rightarrow> FetchFailed m
           | Inr ds \<Rightarrow>
               let ps = (if sv_photos c then photos else [])
               in if length ds + length ps = 0 then NothingFound else Fetched (ds @ ps)))"

record backup_card =
  bc_running :: bool
  bc_done :: nat
  bc_total :: nat
  bc_uploaded :: nat
  bc_duplicates :: nat
  bc_errors :: nat
  bc_driveIds :: "string list"

record google_card =
  gc_items :: "google_item list option"
  gc_backup :: "backup_card option"
  gc_notified :: "(nat \<times> nat \<times> nat) list"
  gc_trashed :: "string list list"
  gc_asking :: "string list option"       \<comment> \<open>the files whose deletion is asked about\<close>

definition open_google :: google_card where
  "open_google = \<lparr>gc_items = None, gc_backup = None, gc_notified = [], gc_trashed = [], gc_asking = None\<rparr>"

definition drive_ids :: "backup_entry list \<Rightarrow> string list" where
  "drive_ids es = map (gi_id \<circ> be_item) (filter (\<lambda>e. gi_source (be_item e) = FromDrive) es)"

definition startBackgroundBackup :: "backup_entry list \<Rightarrow> google_card \<Rightarrow> google_card" where
  "startBackgroundBackup es s = s\<lparr>gc_items := None, gc_backup := Some
     \<lparr>bc_running = True, bc_done = 0, bc_total = length es, bc_uploaded = 0, bc_duplicates = 0, bc_errors = 0,
      bc_driveIds = drive_ids es\<rparr>\<rparr>"

definition backup_summary :: "backup_card \<Rightarrow> string list" where
  "backup_summary b =
     [show_nat (bc_uploaded b) @ '' backed up'']
     @ (if 0 < bc_duplicates b then [show_nat (bc_duplicates b) @ '' duplicate'' @ (if bc_duplicates b \<noteq> 1 then ''s'' else [])] else [])
     @ (if 0 < bc_errors b then [show_nat (bc_errors b) @ '' failed''] else [])"

datatype google_event =
    ItemsFetched "google_item list"
  | ModalClosed
  | BackgroundStarts "backup_entry list"
  | BackupProgress nat nat
  | BackupEnds bool nat nat nat          \<comment> \<open>with the notification wanted\<close>
  | DismissBackup
  | AskCleanup
  | ConfirmTrash
  | KeepOriginals

fun google_card_step :: "google_event \<Rightarrow> google_card \<Rightarrow> google_card" where
  "google_card_step (ItemsFetched xs) s = s\<lparr>gc_items := Some xs\<rparr>"
| "google_card_step ModalClosed s = s\<lparr>gc_items := None\<rparr>"
| "google_card_step (BackgroundStarts es) s = startBackgroundBackup es s"
| "google_card_step (BackupProgress d t) s = s\<lparr>gc_backup := map_option (\<lambda>b. b\<lparr>bc_done := d, bc_total := t\<rparr>) (gc_backup s)\<rparr>"
| "google_card_step (BackupEnds wanted u d e) s =
     s\<lparr>gc_backup := map_option (\<lambda>b. b\<lparr>bc_running := False, bc_uploaded := u, bc_duplicates := d, bc_errors := e\<rparr>) (gc_backup s),
       gc_notified := gc_notified s @ (if wanted then [(u, d, e)] else [])\<rparr>"
| "google_card_step DismissBackup s =
     (case gc_backup s of Some b \<Rightarrow> if bc_running b then s else s\<lparr>gc_backup := None\<rparr> | None \<Rightarrow> s)"
| "google_card_step AskCleanup s =
     (case gc_backup s of
        Some b \<Rightarrow> if bc_running b \<or> bc_driveIds b = [] then s else s\<lparr>gc_asking := Some (bc_driveIds b)\<rparr>
      | None \<Rightarrow> s)"
| "google_card_step ConfirmTrash s =
     (case gc_asking s of None \<Rightarrow> s | Some ids \<Rightarrow> s\<lparr>gc_asking := None, gc_trashed := gc_trashed s @ [ids]\<rparr>)"
| "google_card_step KeepOriginals s = s\<lparr>gc_asking := None\<rparr>"

definition google_card_run :: "google_event list \<Rightarrow> google_card \<Rightarrow> google_card" where
  "google_card_run es s = fold google_card_step es s"

definition trash_note :: "nat \<Rightarrow> nat \<Rightarrow> string" where
  "trash_note n bad =
     (if bad = 0 then show_nat n @ '' file'' @ (if n \<noteq> 1 then ''s'' else []) @ '' moved to Google Drive trash.''
      else show_nat (n - bad) @ '' of '' @ show_nat n @ '' moved to trash. '' @ show_nat bad @ '' failed.'')"

section \<open>Properties of the synchronisation\<close>

definition sync_context_inv :: "sync_context \<Rightarrow> bool" where
  "sync_context_inv s \<longleftrightarrow> distinct (sc_files s) \<and> (sc_eta s \<noteq> None \<longrightarrow> sc_syncing s) \<and> (sc_syncing s \<longrightarrow> sc_start s \<noteq> None \<and> sc_service s)
     \<and> (sc_last s \<noteq> None \<longrightarrow> 0 < sc_runs s)"

lemma sync_context_step_inv: "sync_context_inv s \<Longrightarrow> (sc_syncing s \<Longrightarrow> 0 < sc_runs s) \<Longrightarrow>
   sync_context_inv (sync_step e s) \<and> (sc_syncing (sync_step e s) \<longrightarrow> 0 < sc_runs (sync_step e s))"
proof (cases e)
  case (CountsChange now p d)
  assume inv: "sync_context_inv s" "sc_syncing s \<Longrightarrow> 0 < sc_runs s"
  with CountsChange show ?thesis
    by (cases "sc_syncing s"; cases "sc_start s") (auto simp: sync_context_inv_def eta_effect_def Let_def split: prod.split)
qed (auto simp: sync_context_inv_def begin_run_def split: sum.splits)

text \<open>A time left is only shown while a run is under way, a file is listed once, and a run needs the service and its start.\<close>
lemma sync_context_holds: "sync_context_inv (sync_context_run es open_sync)"
proof -
  have "sync_context_inv s \<Longrightarrow> sc_syncing s \<longrightarrow> 0 < sc_runs s \<Longrightarrow> sync_context_inv (sync_context_run es s)" for s
  proof (induction es arbitrary: s)
    case (Cons e es)
    then show ?case using sync_context_step_inv [of s e] by (simp add: sync_context_run_def)
  qed (simp add: sync_context_run_def)
  then show ?thesis by (simp add: sync_context_inv_def open_sync_def)
qed

text \<open>The estimate is the rest at the rate of the run so far.\<close>
theorem eta_extrapolates:
  assumes "sc_syncing s" "sc_start s = Some (t, n)" "n < sc_synced s" "2000 \<le> now - t"
  shows "sc_eta (eta_effect now s)
      = Some (nat (js_round (of_nat (sc_pending s) * of_int (now - t) / (1000 * of_nat (sc_synced s - n)))))"
proof -
  have "(of_int 2000 :: rat) \<le> of_int (now - t)" using assms(4) by (simp only: of_int_le_iff)
  then have a: "\<not> of_int (now - t) / (1000 :: rat) < 2" by simp
  have b: "(of_int (int (sc_synced s) - int n) :: rat) = of_nat (sc_synced s - n)" using assms(3) by (simp add: of_nat_diff)
  have c: "\<not> int (sc_synced s) - int n < 1" using assms(3) by simp
  have "eta_effect now s = s\<lparr>sc_eta := Some (nat (js_round (of_nat (sc_pending s)
      / (of_int (int (sc_synced s) - int n) / (of_int (now - t) / 1000)))))\<rparr>"
    using a c by (simp only: eta_effect_def assms(1,2) Let_def prod.case option.case bool.case if_False simp_thms)
  then show ?thesis by (simp only: b sync_context.select_convs sync_context.update_convs) (simp add: mult.commute)
qed

section \<open>Properties of the destinations\<close>

text \<open>Choosing the root for files stores an empty text; once the screen was left and is shown again, the choice reads as a
  collection: the picker offers images only, while the label and the upload still mean the root.\<close>
theorem root_reads_as_collection:
  fixes f fs
  assumes "hd_saving s = None"
  defines "t \<equiv> dest_run [OpenPicker FilesMode, PickDest None, DestAnswer True] s"
  defines "u \<equiv> dest_step (FocusLoads f fs) t"
  shows "picker_types t = None" "picker_types u = Some [''image/*'']" "filesDestLabel u = ''/''"
    and "fu_folder (file_upload_of u x) = None"
  using assms(1) by (simp_all add: t_def u_def dest_run_def picker_types_def filesDestLabel_def file_upload_of_def)

definition dest_inv :: "(string \<times> string) list set \<Rightarrow> home_dest \<Rightarrow> bool" where
  "dest_inv F s \<longleftrightarrow> hd_folders s \<in> F \<and> (\<forall>f. Some f \<in> set (hd_sent s) \<longrightarrow> (\<exists>fs\<in>F. f \<in> fst ` set fs))"

text \<open>The camera roll is only ever sent to a media collection that was listed, or to the root.\<close>
lemma camera_goes_to_listed:
  "dest_inv (insert [] {fs. \<exists>f. FocusLoads f fs \<in> set es}) (dest_run es (open_dest stored))"
proof -
  define F where "F = insert [] {fs. \<exists>f. FocusLoads f fs \<in> set es}"
  have step: "dest_inv F s \<Longrightarrow> e \<in> set es \<Longrightarrow> dest_inv F (dest_step e s)" for e s
  proof (cases e)
    case (PickDest f)
    assume inv: "dest_inv F s"
    show ?thesis
    proof (cases "hd_mode s")
      case (Some m)
      have "f = Some g \<Longrightarrow> f \<in> insert None (Some ` fst ` set (hd_folders s)) \<Longrightarrow> g \<in> fst ` set (hd_folders s)" for g by auto
      with inv PickDest Some show ?thesis by (auto simp: dest_inv_def)
    qed (use inv PickDest in simp)
  qed (auto simp: dest_inv_def F_def split: option.split prod.split)
  have "set es' \<subseteq> set es \<Longrightarrow> dest_inv F s \<Longrightarrow> dest_inv F (dest_run es' s)" for es' s
    by (induction es' arbitrary: s) (simp_all add: dest_run_def step)
  from this [of es "open_dest stored"] show ?thesis by (simp add: dest_inv_def F_def open_dest_def)
qed

section \<open>Properties of picked files and of cleaning\<close>

text \<open>Every picked file is tried once, in order, and the progress counts up to their number; but nothing tells which of
  them failed: the run is the same whatever the answers are.\<close>
theorem files_tried_once:
  "map fst (handleFilesAppSync ok s fs) = map (file_upload_of s) fs"
  "map snd (handleFilesAppSync ok s fs) = map (\<lambda>i. (i + 1, length fs)) [0..<length fs]"
  "handleFilesAppSync ok s fs = handleFilesAppSync ok' s fs"
proof -
  have "map (\<lambda>(i, f). file_upload_of s f) (enumerate k fs) = map (file_upload_of s) fs" for k
    by (induction fs arbitrary: k) simp_all
  then show "map fst (handleFilesAppSync ok s fs) = map (file_upload_of s) fs"
    by (simp add: handleFilesAppSync_def case_prod_unfold comp_def)
  have "map fst (enumerate 0 fs) = [0..<length fs]" by simp
  then have "map (\<lambda>i. (i + 1, length fs)) (map fst (enumerate 0 fs)) = map (\<lambda>i. (i + 1, length fs)) [0..<length fs]" by (rule arg_cong)
  then show "map snd (handleFilesAppSync ok s fs) = map (\<lambda>i. (i + 1, length fs)) [0..<length fs]"
    by (simp only: handleFilesAppSync_def map_map comp_def case_prod_unfold snd_conv)
qed (simp add: handleFilesAppSync_def)

text \<open>Only photos whose upload is done are offered for deletion on the device.\<close>
theorem cleaned_photos_are_done:
  "u \<in> set (cleanup_uris q) \<longleftrightarrow> starts_with ''ph://'' u \<and> (\<exists>r\<in>set q. item_status r = Done \<and> local_uri r = u)"
  by (auto simp: cleanup_uris_def getAllDoneItems_def)

text \<open>A photo whose upload was begun but not finished stays, and so does a failed one.\<close>
lemma unfinished_photo_stays:
  assumes "distinct (map local_uri q)" "r \<in> set q" "item_status r \<noteq> Done"
  shows "local_uri r \<notin> set (cleanup_uris q)"
  using assms by (auto simp: cleaned_photos_are_done distinct_map inj_on_def)

text \<open>The button counts every photo that is done, the action only those with an address of the iPhone's library: on
  another phone it never finds one.\<close>
lemma nothing_to_clean_elsewhere:
  "(\<forall>r\<in>set q. \<not> starts_with ''ph://'' (local_uri r)) \<Longrightarrow> handleCleanupSynced q = NothingToClean"
  by (auto simp: handleCleanupSynced_def cleaned_photos_are_done filter_empty_conv cleanup_uris_def getAllDoneItems_def)

section \<open>Properties of the Google backup\<close>

text \<open>Photos are picked only when the user finished and the list could be read, and then the session is deleted; a closed
  window leaves the session.\<close>
theorem picked_only_when_finished:
  assumes "pickGooglePhotos session rs late picked = Some (xs, deleted)"
  shows "xs \<noteq> [] \<Longrightarrow> deleted \<and> picked = Inr xs \<and> \<not> late \<and> (\<exists>b. session = Inr b \<and> phone_poll rs b = Some PollDone)"
    and "session = Inr False \<Longrightarrow> phone_poll rs False = Some PollCancelled \<Longrightarrow> xs = [] \<and> \<not> deleted"
  using assms by (auto simp: pickGooglePhotos_def split: sum.splits option.splits poll_end.splits if_splits)

theorem only_chosen_services:
  assumes "handleServiceContinue signin c drive photos = Fetched xs"
  shows "xs \<noteq> []" "\<not> sv_drive c \<Longrightarrow> xs = photos" "\<not> sv_photos c \<Longrightarrow> drive = Inr xs"
    and "sv_drive c \<Longrightarrow> sv_photos c \<Longrightarrow> \<exists>ds. drive = Inr ds \<and> xs = ds @ photos"
  using assms by (auto simp: handleServiceContinue_def Let_def split: sum.splits option.splits if_splits)

lemma failed_downloads_counted:
  assumes "\<And>i u. me_fetch env i u = Inl (w i u)"
  shows "mobile_counts (mobile_uploadGoogleEntries env es) = (0, 0, length es)"
proof -
  have item: "mobile_item env i e = (OError, [])" for i e using assms by (simp add: mobile_item_def downloadGoogleFile_def)
  have "mobile_counts (mobile_loop env n i es s) = (mr_uploaded s, mr_duplicates s, mr_errors s + length es)" for n i s
    by (induction es arbitrary: i s) (simp_all add: mobile_counts_def mobile_step_def item)
  then show ?thesis by (simp add: mobile_uploadGoogleEntries_def)
qed

text \<open>The card offers to delete every Drive file of the run from Google, saying that they are safely backed up, also when
  none of them was: here each download fails, and the originals go to the trash all the same.\<close>
theorem originals_trashed_unsaved:
  assumes "\<And>i u. me_fetch env i u = Inl (w i u)" "drive_ids es \<noteq> []"
  defines "r \<equiv> mobile_uploadGoogleEntries env es"
  shows "mr_uploaded r = 0 \<and> mr_duplicates r = 0"
    and "gc_trashed (google_card_run [BackgroundStarts es, BackupEnds wanted (mr_uploaded r) (mr_duplicates r) (mr_errors r),
        AskCleanup, ConfirmTrash] open_google) = [drive_ids es]"
  using failed_downloads_counted [OF assms(1), of es] assms(2)
  by (simp_all add: r_def mobile_counts_def google_card_run_def open_google_def startBackgroundBackup_def)

definition broken_phone :: mobile_env where
  "broken_phone = \<lparr>me_fetch = \<lambda>i u. Inl ThrowOther, me_hash = \<lambda>i p. Inr ''ab'', me_check = \<lambda>i h. Inr False, me_upload = \<lambda>i u. Inr ()\<rparr>"

theorem originals_trashed_unsaved_witness:
  "mr_errors (mobile_uploadGoogleEntries broken_phone [demo_entry\<lparr>be_item := (be_item demo_entry)\<lparr>gi_id := ''d'', gi_source := FromDrive\<rparr>\<rparr>]) = 1
   \<and> gc_trashed (google_card_run [BackgroundStarts [demo_entry\<lparr>be_item := (be_item demo_entry)\<lparr>gi_id := ''d'', gi_source := FromDrive\<rparr>\<rparr>],
        BackupEnds True 0 0 1, AskCleanup, ConfirmTrash] open_google) = [[''d'']]"
proof -
  let ?es = "[demo_entry\<lparr>be_item := (be_item demo_entry)\<lparr>gi_id := ''d'', gi_source := FromDrive\<rparr>\<rparr>]"
  have fetch: "me_fetch broken_phone i u = Inl ThrowOther" for i u by (simp add: broken_phone_def)
  have ids: "drive_ids ?es = [''d'']" by (simp add: drive_ids_def)
  have "mobile_counts (mobile_uploadGoogleEntries broken_phone ?es) = (0, 0, 1)"
    using failed_downloads_counted [of broken_phone "\<lambda>_ _. ThrowOther" ?es] fetch by simp
  moreover from this have "mr_errors (mobile_uploadGoogleEntries broken_phone ?es) = 1"
    "mr_uploaded (mobile_uploadGoogleEntries broken_phone ?es) = 0" "mr_duplicates (mobile_uploadGoogleEntries broken_phone ?es) = 0"
    by (simp_all add: mobile_counts_def)
  ultimately show ?thesis
    using originals_trashed_unsaved(2) [of broken_phone "\<lambda>_ _. ThrowOther" ?es True] fetch ids by simp
qed

text \<open>Nothing is deleted without being asked about, and only files of the run the card shows.\<close>
lemma trash_needs_question:
  "gc_trashed (google_card_step e s) = gc_trashed s
   \<or> (e = ConfirmTrash \<and> (\<exists>ids. gc_asking s = Some ids \<and> gc_trashed (google_card_step e s) = gc_trashed s @ [ids]))"
  by (cases e) (auto simp: startBackgroundBackup_def split: option.splits)

lemma google_card_inv:
  "\<forall>ids. gc_asking s = Some ids \<longrightarrow> ids \<noteq> [] \<Longrightarrow> \<forall>ids. gc_asking (google_card_step e s) = Some ids \<longrightarrow> ids \<noteq> []"
  by (cases e) (auto simp: startBackgroundBackup_def split: option.splits)

text \<open>The quota of a purchase hides every later one of the profile.\<close>
lemma stale_quota_after_purchase: "home_quota (Some q) p = q"
  by (simp add: home_quota_def)

end
