(* ===== verification/PhoneGoogle.thy ===== *)
theory PhoneGoogle
  imports GoogleModal Decimals
begin

text \<open>
  The window of a Google backup on the phone, \<open>mobile/src/components/GoogleBackupModal.tsx\<close>, with its persisted
  switches, \<open>mobile/src/services/backupSettings.ts\<close>. The rows, their categories, the sections and the sorted list are
  those of the web window and are taken from \<open>GoogleModal\<close>; the state, the run in the foreground, the quota bar and
  the deletion of the originals are the phone's own. A run goes on when the window is closed, so its progress and its
  end are events of their own and carry the rows they were started with.
\<close>

section \<open>Texts and settings\<close>

definition fmt :: "rat \<Rightarrow> string" where
  "fmt b =
     (if b < 1024 * 1024 then to_fixed 0 (b / 1024) @ '' KB''
      else if b < 1024 ^ 3 then to_fixed 1 (b / 1024 / 1024) @ '' MB''
      else to_fixed 2 (b / 1024 / 1024 / 1024) @ '' GB'')"

definition GBACKUP_BACKGROUND_KEY :: string where "GBACKUP_BACKGROUND_KEY = ''apollo_gbackup_background''"
definition GBACKUP_NOTIFY_KEY :: string where "GBACKUP_NOTIFY_KEY = ''apollo_gbackup_notify''"

definition readFlag :: "string option \<Rightarrow> bool" where
  "readFlag v \<longleftrightarrow> v \<noteq> Some ''false''"

text \<open>\<open>get\<close> is what \<open>AsyncStorage\<close> answers, \<open>Inl\<close> when it throws.\<close>

definition loadBackupSettings :: "(string \<Rightarrow> unit + string option) \<Rightarrow> bool \<times> bool" where
  "loadBackupSettings get =
     (case get GBACKUP_BACKGROUND_KEY of
        Inl _ \<Rightarrow> (True, True)
      | Inr bg \<Rightarrow> (case get GBACKUP_NOTIFY_KEY of Inl _ \<Rightarrow> (True, True) | Inr notify \<Rightarrow> (readFlag bg, readFlag notify)))"

datatype backup_setting = Background | Notify

definition setBackupSetting :: "bool \<Rightarrow> backup_setting \<Rightarrow> bool \<Rightarrow> (string \<rightharpoonup> string) \<Rightarrow> (string \<rightharpoonup> string)" where
  "setBackupSetting throws key v st =
     (let storageKey = (case key of Background \<Rightarrow> GBACKUP_BACKGROUND_KEY | Notify \<Rightarrow> GBACKUP_NOTIFY_KEY)
      in if throws then st else st(storageKey \<mapsto> (if v then ''true'' else ''false'')))"

section \<open>The window\<close>

text \<open>
  \<open>pg_handed\<close> are the entries handed to the parent with the notification wanted, \<open>pg_runs\<close> those of the runs started
  in the foreground, \<open>pg_trashed\<close> the Drive ids whose deletion was asked for, \<open>pg_permissions\<close> counts the requests to
  notify, \<open>pg_alerts\<close> are the messages shown.
\<close>

record phone_google =
  pg_visible :: bool
  pg_entries :: "file_entry list"
  pg_selected :: "nat set"
  pg_sort :: sort_mode
  pg_settingsTab :: bool
  pg_collapsed :: "category set"
  pg_folders :: "folders option"    \<comment> \<open>\<open>None\<close> while they are loading\<close>
  pg_dest :: "dest_target option"
  pg_preview :: "file_entry option"
  pg_uploading :: bool
  pg_progress :: "(nat \<times> nat) option"
  pg_result :: "(nat \<times> nat \<times> nat) option"
  pg_status :: "nat \<rightharpoonup> item_outcome"
  pg_finished :: bool
  pg_cleaning :: bool
  pg_asking :: "string list option"    \<comment> \<open>the deletion asked about\<close>
  pg_upgrade :: bool
  pg_background :: bool
  pg_notify :: bool
  pg_stored :: "string \<rightharpoonup> string"
  pg_handed :: "(backup_entry list \<times> bool) list"
  pg_runs :: "backup_entry list list"
  pg_trashed :: "string list"
  pg_permissions :: nat
  pg_alerts :: "string list"

definition blank_phone :: phone_google where
  "blank_phone = \<lparr>pg_visible = False, pg_entries = [], pg_selected = {}, pg_sort = SortType, pg_settingsTab = False,
     pg_collapsed = {}, pg_folders = Some [], pg_dest = None, pg_preview = None, pg_uploading = False, pg_progress = None,
     pg_result = None, pg_status = Map.empty, pg_finished = False, pg_cleaning = False, pg_asking = None,
     pg_upgrade = False, pg_background = True, pg_notify = True, pg_stored = Map.empty, pg_handed = [], pg_runs = [],
     pg_trashed = [], pg_permissions = 0, pg_alerts = []\<rparr>"

text \<open>The two effects on opening: the rows are reset, the folders and the settings are asked for.\<close>

definition reset_phone :: "google_item list \<Rightarrow> phone_google \<Rightarrow> phone_google" where
  "reset_phone gs s =
     (if gs = [] then s
      else s\<lparr>pg_entries := map to_entry gs, pg_selected := {..<length gs}, pg_sort := SortType, pg_settingsTab := False,
             pg_collapsed := {}, pg_dest := None, pg_preview := None, pg_uploading := False, pg_progress := None,
             pg_result := None, pg_status := Map.empty, pg_finished := False, pg_cleaning := False\<rparr>)"

definition open_phone :: "google_item list \<Rightarrow> phone_google \<Rightarrow> phone_google" where
  "open_phone gs s = (reset_phone gs s)\<lparr>pg_visible := True, pg_folders := None\<rparr>"

subsection \<open>Selection and destinations\<close>

definition phone_indices :: "phone_google \<Rightarrow> nat list" where
  "phone_indices s = filter (\<lambda>i. i \<in> pg_selected s) [0..<length (pg_entries s)]"

definition phone_allSelected :: "phone_google \<Rightarrow> bool" where
  "phone_allSelected s \<longleftrightarrow> card (pg_selected s) = length (pg_entries s)"

definition group_indices :: "category \<Rightarrow> phone_google \<Rightarrow> nat list" where
  "group_indices c s = map snd (filter (\<lambda>p. getCategory (fst p) = c) (indexed (pg_entries s)))"

definition phone_toggleGroup :: "nat list \<Rightarrow> phone_google \<Rightarrow> phone_google" where
  "phone_toggleGroup indices s =
     (let allOn = list_all (\<lambda>i. i \<in> pg_selected s) indices
      in s\<lparr>pg_selected := (if allOn then pg_selected s - set indices else pg_selected s \<union> set indices)\<rparr>)"

definition catRedirected :: "string option \<Rightarrow> category \<Rightarrow> phone_google \<Rightarrow> bool" where
  "catRedirected redirect c s \<longleftrightarrow>
     redirect \<noteq> None \<and> list_all isMediaEntry (filter (\<lambda>e. getCategory e = c) (pg_entries s))"

definition phone_locked :: "string option \<Rightarrow> file_entry \<Rightarrow> bool" where
  "phone_locked redirect e \<longleftrightarrow> redirect \<noteq> None \<and> isMediaEntry e"

definition phone_applyDest :: "string option \<Rightarrow> phone_google \<Rightarrow> phone_google" where
  "phone_applyDest folderId s =
     (case pg_dest s of
        None \<Rightarrow> s
      | Some t \<Rightarrow> s\<lparr>pg_entries := apply_to t folderId (pg_entries s), pg_dest := None\<rparr>)"

text \<open>The destination the sheet ticks: \<open>None\<close> is \<open>undefined\<close>. The row of the root tests \<open>== null\<close>, which
  \<open>undefined\<close> passes too.\<close>

definition phone_activeDest :: "phone_google \<Rightarrow> string option option" where
  "phone_activeDest s =
     (case pg_dest s of
        None \<Rightarrow> None
      | Some (DestFile i) \<Rightarrow> if i < length (pg_entries s) then Some (fe_dest (pg_entries s ! i)) else None
      | Some (DestCategory c) \<Rightarrow>
          (let catEntries = filter (\<lambda>e. getCategory e = c) (pg_entries s);
               first = (case catEntries of [] \<Rightarrow> None | e # _ \<Rightarrow> fe_dest e)
           in if list_all (\<lambda>e. fe_dest e = first) catEntries then Some first else None))"

definition root_ticked :: "phone_google \<Rightarrow> bool" where
  "root_ticked s \<longleftrightarrow> phone_activeDest s = None \<or> phone_activeDest s = Some None"

definition folder_ticked :: "string \<Rightarrow> phone_google \<Rightarrow> bool" where
  "folder_ticked f s \<longleftrightarrow> phone_activeDest s = Some (Some f)"

definition sheetTitle :: "(category \<Rightarrow> string) \<Rightarrow> phone_google \<Rightarrow> string" where
  "sheetTitle name s =
     (case pg_dest s of Some (DestCategory c) \<Rightarrow> ''Destination for all '' @ name c | _ \<Rightarrow> ''Choose destination'')"

subsection \<open>Quota\<close>

definition phone_selectedSize :: "phone_google \<Rightarrow> jsnum" where
  "phone_selectedSize s = foldl (\<lambda>n i. js_plus n (fe_size (pg_entries s ! i))) (Fin 0) (phone_indices s)"

definition phone_isOverQuota :: "nat \<Rightarrow> nat \<Rightarrow> phone_google \<Rightarrow> bool" where
  "phone_isOverQuota quota used s \<longleftrightarrow>
     0 < quota \<and> js_less (Fin (of_nat quota)) (js_plus (Fin (of_nat used)) (phone_selectedSize s))"

definition phone_canBackUp :: "nat \<Rightarrow> nat \<Rightarrow> phone_google \<Rightarrow> bool" where
  "phone_canBackUp quota used s \<longleftrightarrow> 0 < card (pg_selected s) \<and> \<not> phone_isOverQuota quota used s \<and> \<not> pg_uploading s"

text \<open>The three parts of the bar, for a selection of \<open>sel\<close> bytes.\<close>

definition usedPct :: "rat \<Rightarrow> rat \<Rightarrow> rat" where
  "usedPct quota used = (if 0 < quota then min ((used / quota) * 100) 100 else 0)"

definition fitsPct :: "rat \<Rightarrow> rat \<Rightarrow> rat \<Rightarrow> rat" where
  "fitsPct quota used sel = (if 0 < quota then (max 0 (min sel (quota - used)) / quota) * 100 else 0)"

definition overflowPct :: "rat \<Rightarrow> rat \<Rightarrow> rat \<Rightarrow> rat" where
  "overflowPct quota used sel =
     (if 0 < quota \<and> quota < used + sel then max 0 (100 - usedPct quota used - fitsPct quota used sel) else 0)"

definition overflowBytes :: "rat \<Rightarrow> rat \<Rightarrow> rat \<Rightarrow> rat" where
  "overflowBytes quota used sel = (if 0 < quota \<and> quota < used + sel then used + sel - quota else 0)"

definition quota_labels :: "rat \<Rightarrow> rat \<Rightarrow> rat \<Rightarrow> string list" where
  "quota_labels quota used sel =
     [fmt sel, fmt used @ '' before  '' @ [CHR 0xE2, CHR 0x86, CHR 0x92] @ ''  '' @ fmt (used + sel) @ '' after'', fmt quota @ '' quota'']
     @ (if 0 < overflowBytes quota used sel then [fmt (overflowBytes quota used sel) @ '' over quota''] else [])"

definition backup_button :: "nat \<Rightarrow> nat \<Rightarrow> phone_google \<Rightarrow> string" where
  "backup_button quota used s =
     (let n = card (pg_selected s)
      in if phone_isOverQuota quota used s then ''Over quota '' @ em_dash @ '' deselect files or upgrade''
         else if n = 0 then ''No files selected'' else ''Back Up '' @ show_nat n @ '' File'' @ plural n)"

definition selection_line :: "phone_google \<Rightarrow> string" where
  "selection_line s = show_nat (card (pg_selected s)) @ '' of '' @ show_nat (length (pg_entries s)) @ '' file''
     @ plural (length (pg_entries s)) @ '' selected''"

subsection \<open>Lists\<close>

definition showSections :: "phone_google \<Rightarrow> bool" where
  "showSections s \<longleftrightarrow> pg_sort s = SortType \<and> \<not> pg_finished s"

text \<open>The sections with the rows they show and all their rows.\<close>

definition typeSections :: "phone_google \<Rightarrow> (category \<times> (file_entry \<times> nat) list \<times> (file_entry \<times> nat) list) list" where
  "typeSections s = map (\<lambda>(c, xs). (c, if c \<in> pg_collapsed s then [] else xs, xs)) (sections (pg_entries s))"

definition phone_listData :: "(string \<Rightarrow> string \<Rightarrow> int) \<Rightarrow> phone_google \<Rightarrow> (file_entry \<times> nat) list" where
  "phone_listData collate s =
     (if pg_finished s then indexed (pg_entries s) else flatList collate (pg_sort s) (pg_entries s))"

section \<open>The run\<close>

definition phone_upload :: "file_entry \<Rightarrow> backup_entry" where
  "phone_upload e = \<lparr>be_item = fe_item e, be_name = fe_name e, be_type = fe_type e,
     be_destFolderId = fe_dest e, be_destPath = None\<rparr>"

text \<open>\<open>handleBackUp\<close> up to its \<open>await\<close>: the parent closes the window when it takes the run.\<close>

definition start_phone :: "phone_google \<Rightarrow> phone_google" where
  "start_phone s =
     (let toUpload = map (\<lambda>i. phone_upload (pg_entries s ! i)) (phone_indices s)
      in if toUpload = [] then s
         else if pg_background s then s\<lparr>pg_handed := pg_handed s @ [(toUpload, pg_notify s)], pg_visible := False\<rparr>
         else s\<lparr>pg_uploading := True, pg_status := Map.empty, pg_progress := Some (0, length toUpload),
                pg_runs := pg_runs s @ [toUpload]\<rparr>)"

text \<open>\<open>indexOf\<close> finds the row of an entry in the list the run was started from.\<close>

definition phone_progress :: "nat list \<Rightarrow> nat \<Rightarrow> nat \<Rightarrow> item_outcome \<Rightarrow> phone_google \<Rightarrow> phone_google" where
  "phone_progress rows d n r s =
     (let s1 = s\<lparr>pg_progress := Some (d, n)\<rparr>
      in if d - 1 < length rows then s1\<lparr>pg_status := (pg_status s1)(rows ! (d - 1) \<mapsto> r)\<rparr> else s1)"

definition phone_done :: "nat \<times> nat \<times> nat \<Rightarrow> phone_google \<Rightarrow> phone_google" where
  "phone_done res s = s\<lparr>pg_result := Some res, pg_uploading := False, pg_finished := True\<rparr>"

text \<open>A run whose window nothing else touches.\<close>

definition show_effect :: "nat list \<Rightarrow> mobile_effect \<Rightarrow> phone_google \<Rightarrow> phone_google" where
  "show_effect rows x s = (case x of MProgress d n r \<Rightarrow> phone_progress rows d n r s | _ \<Rightarrow> s)"

definition phone_run :: "mobile_env \<Rightarrow> phone_google \<Rightarrow> phone_google" where
  "phone_run env s =
     (let rows = phone_indices s;
          res = mobile_uploadGoogleEntries env (map (\<lambda>i. phone_upload (pg_entries s ! i)) rows)
      in phone_done (mobile_counts res) (fold (show_effect rows) (mr_effects res) (start_phone s)))"

definition status_badge :: "item_outcome \<Rightarrow> string" where
  "status_badge r = (case r of ODuplicate \<Rightarrow> ''Duplicate'' | OError \<Rightarrow> ''Failed'' | ODone \<Rightarrow> ''Backed up'')"

definition result_parts :: "nat \<times> nat \<times> nat \<Rightarrow> string list" where
  "result_parts res =
     (case res of (u, d, e) \<Rightarrow>
        [show_nat u @ '' backed up''] @ (if 0 < d then [show_nat d @ '' duplicate'' @ plural d] else [])
        @ (if 0 < e then [show_nat e @ '' failed''] else []))"

section \<open>Cleaning up\<close>

definition phone_drive :: "phone_google \<Rightarrow> string list" where
  "phone_drive s = map (\<lambda>e. gi_id (fe_item e)) (filter (\<lambda>e. fe_source e = FromDrive) (pg_entries s))"

definition phone_photos :: "phone_google \<Rightarrow> nat" where
  "phone_photos s = count_if (\<lambda>e. fe_source e = FromPhotos) (pg_entries s)"

definition cleanupLabel :: "phone_google \<Rightarrow> string" where
  "cleanupLabel s =
     (let n = length (phone_drive s)
      in if 0 < n then ''Delete '' @ show_nat n @ '' Drive file'' @ plural n @ '' from Google Drive''
         else show_nat (phone_photos s) @ '' photo'' @ plural (phone_photos s) @ '' '' @ em_dash @ '' delete manually in Google Photos'')"

definition phone_photos_note :: "nat \<Rightarrow> string" where
  "phone_photos_note n =
     (if 0 < n then [CHR 0x0A, CHR 0x0A] @ show_nat n @ '' Google Photo'' @ plural n @ '' cannot be deleted via API '' @ em_dash
        @ '' remove them manually from the Google Photos app.'' else [])"

definition drive_question :: "phone_google \<Rightarrow> string" where
  "drive_question s =
     (let n = length (phone_drive s)
      in ''Move '' @ show_nat n @ '' Drive file'' @ plural n
         @ '' to your Google Drive trash? They are safely backed up in Apollo SFS.'' @ phone_photos_note (phone_photos s))"

definition phone_cleanup :: "phone_google \<Rightarrow> phone_google" where
  "phone_cleanup s =
     (if phone_drive s = [] then s\<lparr>pg_alerts := pg_alerts s @ [no_drive_message (phone_photos s)]\<rparr>
      else s\<lparr>pg_asking := Some (phone_drive s), pg_alerts := pg_alerts s @ [drive_question s]\<rparr>)"

definition phone_trash :: "phone_google \<Rightarrow> phone_google" where
  "phone_trash s =
     (case pg_asking s of
        None \<Rightarrow> s
      | Some ids \<Rightarrow> s\<lparr>pg_asking := None, pg_cleaning := True, pg_trashed := pg_trashed s @ ids\<rparr>)"

definition trash_message :: "nat \<Rightarrow> nat \<Rightarrow> string \<Rightarrow> string" where
  "trash_message n bad note =
     (if bad = 0 then show_nat n @ '' file'' @ plural n @ '' moved to Google Drive trash.'' @ note
      else show_nat (n - bad) @ '' of '' @ show_nat n @ '' moved to trash. '' @ show_nat bad @ '' failed.'')"

section \<open>Steps\<close>

datatype phone_google_event =
    GOpen "google_item list"
  | GClose
  | GDone    \<comment> \<open>the button of the finished screen\<close>
  | GRow nat
  | GGroup category
  | GAll
  | GSort sort_mode
  | GTab bool
  | GCollapse category
  | GFileDest nat
  | GCategoryDest category
  | GDismissDest
  | GApply "string option"
  | GPreview nat
  | GClosePreview
  | GBackground bool
  | GNotify bool
  | GLoaded "unit + folders"
  | GSettings
  | GBackUp
  | GProgress "nat list" nat nat item_outcome
  | GRunEnds "nat \<times> nat \<times> nat"
  | GCleanup
  | GTrash
  | GKeep
  | GTrashed nat nat string
  | GUpgrade
  | GPurchased

definition files_shown :: "phone_google \<Rightarrow> bool" where
  "files_shown s \<longleftrightarrow> pg_visible s \<and> \<not> pg_settingsTab s"

text \<open>The step of the window, for a redirected media folder and a quota. The rows are disabled while a run is on,
  the button of a category and \<open>All\<close> are not.\<close>

fun phone_google_step :: "string option \<Rightarrow> nat \<Rightarrow> nat \<Rightarrow> phone_google_event \<Rightarrow> phone_google \<Rightarrow> phone_google" where
  "phone_google_step redirect quota used (GOpen gs) s = open_phone gs s"
| "phone_google_step redirect quota used GClose s = s\<lparr>pg_visible := False\<rparr>"
| "phone_google_step redirect quota used GDone s = (if pg_finished s then s\<lparr>pg_visible := False\<rparr> else s)"
| "phone_google_step redirect quota used (GRow i) s =
     (if files_shown s \<and> i < length (pg_entries s) \<and> \<not> pg_uploading s \<and> \<not> pg_finished s
      then s\<lparr>pg_selected := toggle_set i (pg_selected s)\<rparr> else s)"
| "phone_google_step redirect quota used (GGroup c) s =
     (if files_shown s \<and> showSections s \<and> group_indices c s \<noteq> [] then phone_toggleGroup (group_indices c s) s else s)"
| "phone_google_step redirect quota used GAll s =
     (if pg_visible s \<and> \<not> pg_finished s
      then s\<lparr>pg_selected := (if phone_allSelected s then {} else {..<length (pg_entries s)})\<rparr> else s)"
| "phone_google_step redirect quota used (GSort m) s =
     (if files_shown s \<and> \<not> pg_finished s then s\<lparr>pg_sort := m\<rparr> else s)"
| "phone_google_step redirect quota used (GTab b) s =
     (if pg_visible s \<and> \<not> pg_finished s \<and> \<not> pg_uploading s then s\<lparr>pg_settingsTab := b\<rparr> else s)"
| "phone_google_step redirect quota used (GCollapse c) s =
     (if files_shown s \<and> showSections s then s\<lparr>pg_collapsed := toggle_set c (pg_collapsed s)\<rparr> else s)"
| "phone_google_step redirect quota used (GFileDest i) s =
     (if files_shown s \<and> i < length (pg_entries s) \<and> pg_status s i = None \<and> \<not> phone_locked redirect (pg_entries s ! i)
         \<and> i \<in> pg_selected s \<and> \<not> pg_uploading s \<and> \<not> pg_finished s
      then s\<lparr>pg_dest := Some (DestFile i)\<rparr> else s)"
| "phone_google_step redirect quota used (GCategoryDest c) s =
     (if files_shown s \<and> showSections s \<and> group_indices c s \<noteq> [] \<and> \<not> catRedirected redirect c s
      then s\<lparr>pg_dest := Some (DestCategory c)\<rparr> else s)"
| "phone_google_step redirect quota used GDismissDest s = s\<lparr>pg_dest := None\<rparr>"
| "phone_google_step redirect quota used (GApply f) s = (if pg_visible s then phone_applyDest f s else s)"
| "phone_google_step redirect quota used (GPreview i) s =
     (if files_shown s \<and> i < length (pg_entries s) \<and> \<not> pg_finished s
         \<and> googlePreviewSource (fe_item (pg_entries s ! i)) [] \<noteq> None
      then s\<lparr>pg_preview := Some (pg_entries s ! i)\<rparr> else s)"
| "phone_google_step redirect quota used GClosePreview s = s\<lparr>pg_preview := None\<rparr>"
| "phone_google_step redirect quota used (GBackground v) s =
     (if pg_visible s \<and> pg_settingsTab s
      then s\<lparr>pg_background := v, pg_stored := setBackupSetting False Background v (pg_stored s)\<rparr> else s)"
| "phone_google_step redirect quota used (GNotify v) s =
     (if pg_visible s \<and> pg_settingsTab s
      then s\<lparr>pg_notify := v, pg_stored := setBackupSetting False Notify v (pg_stored s),
             pg_permissions := pg_permissions s + (if v then 1 else 0)\<rparr> else s)"
| "phone_google_step redirect quota used (GLoaded res) s =
     s\<lparr>pg_folders := Some (case res of Inl _ \<Rightarrow> [] | Inr fs \<Rightarrow> fs)\<rparr>"
| "phone_google_step redirect quota used GSettings s =
     (case loadBackupSettings (\<lambda>k. Inr (pg_stored s k)) of (bg, nt) \<Rightarrow> s\<lparr>pg_background := bg, pg_notify := nt\<rparr>)"
| "phone_google_step redirect quota used GBackUp s =
     (if pg_visible s \<and> \<not> pg_finished s \<and> phone_canBackUp quota used s then start_phone s else s)"
| "phone_google_step redirect quota used (GProgress rows d n r) s = phone_progress rows d n r s"
| "phone_google_step redirect quota used (GRunEnds res) s = phone_done res s"
| "phone_google_step redirect quota used GCleanup s =
     (if pg_visible s \<and> pg_finished s \<and> \<not> pg_cleaning s then phone_cleanup s else s)"
| "phone_google_step redirect quota used GTrash s = phone_trash s"
| "phone_google_step redirect quota used GKeep s = s\<lparr>pg_asking := None\<rparr>"
| "phone_google_step redirect quota used (GTrashed n bad note) s =
     s\<lparr>pg_cleaning := False, pg_alerts := pg_alerts s @ [trash_message n bad note]\<rparr>"
| "phone_google_step redirect quota used GUpgrade s =
     (if files_shown s \<and> phone_isOverQuota quota used s then s\<lparr>pg_upgrade := True\<rparr> else s)"
| "phone_google_step redirect quota used GPurchased s = s\<lparr>pg_upgrade := False\<rparr>"

definition phone_google_run :: "string option \<Rightarrow> nat \<Rightarrow> nat \<Rightarrow> phone_google_event list \<Rightarrow> phone_google \<Rightarrow> phone_google" where
  "phone_google_run redirect quota used es s = fold (phone_google_step redirect quota used) es s"

section \<open>The quota bar\<close>

text \<open>The parts of the bar never leave it, and a selection that does not fit fills it to its end.\<close>

lemma fits_part:
  fixes quota used sel :: rat
  assumes "0 < quota" "used \<le> quota" "0 \<le> sel"
  shows "usedPct quota used + fitsPct quota used sel = (used + min sel (quota - used)) / quota * 100"
proof -
  have "used / quota * 100 \<le> 100" using assms by (simp add: field_simps)
  then show ?thesis using assms by (simp add: usedPct_def fitsPct_def add_divide_distrib min_def distrib_right)
qed

theorem phone_quota_bar_fits:
  fixes quota used sel :: rat
  assumes "0 \<le> used" "0 \<le> sel"
  shows "0 \<le> usedPct quota used \<and> 0 \<le> fitsPct quota used sel \<and> 0 \<le> overflowPct quota used sel
    \<and> usedPct quota used + fitsPct quota used sel + overflowPct quota used sel \<le> 100
    \<and> (0 < quota \<and> quota < used + sel \<longrightarrow> usedPct quota used + fitsPct quota used sel + overflowPct quota used sel = 100)"
proof (cases "0 < quota")
  case True
  have pos: "0 \<le> usedPct quota used" "0 \<le> fitsPct quota used sel"
    using True assms by (simp_all add: usedPct_def fitsPct_def)
  have "usedPct quota used + fitsPct quota used sel \<le> 100"
  proof (cases "used \<le> quota")
    case True
    have "(used + min sel (quota - used)) / quota \<le> 1" using \<open>0 < quota\<close> by simp
    then have "(used + min sel (quota - used)) / quota * 100 \<le> 1 * 100" by (rule mult_right_mono) simp
    then have "(used + min sel (quota - used)) / quota * 100 \<le> 100" by (simp only: mult_1)
    with fits_part [OF \<open>0 < quota\<close> True assms(2)] show ?thesis by (simp only:)
  next
    case False
    then have "fitsPct quota used sel = 0" using True assms(2) by (simp add: fitsPct_def min_def)
    then show ?thesis by (simp add: usedPct_def)
  qed
  with pos True show ?thesis by (auto simp: overflowPct_def)
qed (simp add: usedPct_def fitsPct_def overflowPct_def)

section \<open>The settings\<close>

text \<open>A switch that was saved is read back, the other one keeps its value, and nothing saved means both are on.\<close>

theorem phone_settings_saved:
  "loadBackupSettings (\<lambda>k. Inr (setBackupSetting False Background v st k)) = (v, snd (loadBackupSettings (\<lambda>k. Inr (st k))))"
  "loadBackupSettings (\<lambda>k. Inr (setBackupSetting False Notify v st k)) = (fst (loadBackupSettings (\<lambda>k. Inr (st k))), v)"
  "loadBackupSettings (\<lambda>k. Inr None) = (True, True)"
  by (simp_all add: loadBackupSettings_def setBackupSetting_def readFlag_def GBACKUP_BACKGROUND_KEY_def GBACKUP_NOTIFY_KEY_def)

section \<open>What is backed up\<close>

definition entry_size :: "backup_entry \<Rightarrow> jsnum" where
  "entry_size e = or_else (gi_size (be_item e)) (Fin 0)"

definition entries_fit :: "nat \<Rightarrow> nat \<Rightarrow> backup_entry list \<Rightarrow> bool" where
  "entries_fit quota used es \<longleftrightarrow> es \<noteq> [] \<and>
     \<not> (0 < quota \<and> js_less (Fin (of_nat quota))
          (js_plus (Fin (of_nat used)) (foldl (\<lambda>n e. js_plus n (entry_size e)) (Fin 0) es)))"

definition of_item :: "file_entry \<Rightarrow> bool" where
  "of_item e \<longleftrightarrow> e\<lparr>fe_dest := None\<rparr> = to_entry (fe_item e)"

definition rows_inv :: "phone_google \<Rightarrow> bool" where
  "rows_inv s \<longleftrightarrow> pg_selected s \<subseteq> {..<length (pg_entries s)} \<and> list_all of_item (pg_entries s)"

definition phone_google_inv :: "nat \<Rightarrow> nat \<Rightarrow> phone_google \<Rightarrow> bool" where
  "phone_google_inv quota used s \<longleftrightarrow> rows_inv s \<and> list_all (entries_fit quota used) (pg_runs s)
     \<and> list_all (entries_fit quota used \<circ> fst) (pg_handed s)"

lemma of_item_dest [simp]: "of_item (e\<lparr>fe_dest := f\<rparr>) = of_item e"
  by (simp add: of_item_def)

lemma of_item_fields: "of_item e \<Longrightarrow> fe_size e = or_else (gi_size (fe_item e)) (Fin 0)"
  by (drule arg_cong [where f = fe_size, OF of_item_def [THEN iffD1]]) (simp add: to_entry_def)

lemma apply_to_of_item: "list_all of_item es \<Longrightarrow> list_all of_item (apply_to t f es)"
  by (auto simp: list_all_length apply_to_nth)

lemma indices_in_range: "set (group_indices c s) \<subseteq> {..<length (pg_entries s)}"
  by (auto simp: group_indices_def indexed_def dest: set_zip_rightD)

lemma selected_fit:
  assumes "rows_inv s" "phone_canBackUp quota used s"
  shows "entries_fit quota used (map (\<lambda>i. phone_upload (pg_entries s ! i)) (phone_indices s))"
proof -
  have "entry_size (phone_upload (pg_entries s ! i)) = fe_size (pg_entries s ! i)" if "i \<in> set (phone_indices s)" for i
  proof -
    have "of_item (pg_entries s ! i)" using that assms(1) by (simp add: rows_inv_def list_all_length phone_indices_def)
    from of_item_fields [OF this] show ?thesis by (simp add: entry_size_def phone_upload_def)
  qed
  then have size: "foldl (\<lambda>n i. js_plus n (entry_size (phone_upload (pg_entries s ! i)))) (Fin 0) (phone_indices s) = phone_selectedSize s"
    unfolding phone_selectedSize_def by (intro foldl_cong) simp_all
  from assms obtain i where "i \<in> pg_selected s" "i < length (pg_entries s)"
    by (auto simp: phone_canBackUp_def rows_inv_def card_gt_0_iff)
  then have "phone_indices s \<noteq> []" by (auto simp: phone_indices_def filter_empty_conv)
  with assms(2) size show ?thesis
    by (simp add: entries_fit_def phone_canBackUp_def phone_isOverQuota_def foldl_map)
qed

lemma start_phone_inv:
  assumes "phone_google_inv quota used s" "phone_canBackUp quota used s"
  shows "phone_google_inv quota used (start_phone s)"
  using assms selected_fit [of s quota used]
  by (simp add: phone_google_inv_def start_phone_def Let_def rows_inv_def)

lemma inv_frame:
  "phone_google_inv quota used s \<Longrightarrow> pg_runs s' = pg_runs s \<Longrightarrow> pg_handed s' = pg_handed s \<Longrightarrow> rows_inv s' \<Longrightarrow>
     phone_google_inv quota used s'"
  by (simp add: phone_google_inv_def)

lemma rows_inv_select: "rows_inv s \<Longrightarrow> S \<subseteq> {..<length (pg_entries s)} \<Longrightarrow> rows_inv (s\<lparr>pg_selected := S\<rparr>)"
  by (simp add: rows_inv_def)

lemma rows_inv_toggleGroup: "rows_inv s \<Longrightarrow> rows_inv (phone_toggleGroup (group_indices c s) s)"
  using indices_in_range [of c s] by (auto simp: phone_toggleGroup_def rows_inv_def Let_def)

lemma rows_inv_open: "rows_inv s \<Longrightarrow> rows_inv (open_phone gs s)"
  by (auto simp: open_phone_def reset_phone_def rows_inv_def of_item_def to_entry_def list_all_iff)

lemma rows_inv_apply: "rows_inv s \<Longrightarrow> rows_inv (phone_applyDest f s)"
  by (simp add: phone_applyDest_def rows_inv_def apply_to_of_item split: option.split)

lemma toggle_set_range: "S \<subseteq> A \<Longrightarrow> x \<in> A \<Longrightarrow> toggle_set x S \<subseteq> A"
  by (auto simp: toggle_set_def)

lemma phone_step_keeps [simp]:
  "pg_runs (open_phone gs s) = pg_runs s" "pg_handed (open_phone gs s) = pg_handed s"
  "pg_runs (phone_toggleGroup is s) = pg_runs s" "pg_handed (phone_toggleGroup is s) = pg_handed s"
  "pg_runs (phone_applyDest f s) = pg_runs s" "pg_handed (phone_applyDest f s) = pg_handed s"
  "pg_runs (phone_progress rows d n r s) = pg_runs s" "pg_handed (phone_progress rows d n r s) = pg_handed s"
  "pg_entries (phone_progress rows d n r s) = pg_entries s" "pg_selected (phone_progress rows d n r s) = pg_selected s"
  "pg_runs (phone_cleanup s) = pg_runs s" "pg_handed (phone_cleanup s) = pg_handed s"
  "pg_entries (phone_cleanup s) = pg_entries s" "pg_selected (phone_cleanup s) = pg_selected s"
  "pg_runs (phone_trash s) = pg_runs s" "pg_handed (phone_trash s) = pg_handed s"
  "pg_entries (phone_trash s) = pg_entries s" "pg_selected (phone_trash s) = pg_selected s"
  by (simp_all add: open_phone_def reset_phone_def phone_toggleGroup_def phone_applyDest_def phone_progress_def
      phone_cleanup_def phone_trash_def Let_def split: option.split)

lemma rows_inv_same: "rows_inv s \<Longrightarrow> pg_entries s' = pg_entries s \<Longrightarrow> pg_selected s' = pg_selected s \<Longrightarrow> rows_inv s'"
  by (simp add: rows_inv_def)

lemma phone_google_step_inv:
  assumes "phone_google_inv quota used s"
  shows "phone_google_inv quota used (phone_google_step redirect quota used ev s)"
proof -
  have rows: "rows_inv s" using assms by (simp add: phone_google_inv_def)
  note frame = inv_frame [OF assms]
  show ?thesis
  proof (cases ev)
    case (GRow i)
    have "rows_inv (s\<lparr>pg_selected := toggle_set i (pg_selected s)\<rparr>)" if "i < length (pg_entries s)"
      using rows that by (intro rows_inv_select toggle_set_range) (simp_all add: rows_inv_def)
    then show ?thesis using GRow assms by (auto intro: frame)
  next
    case GAll
    have "rows_inv (s\<lparr>pg_selected := (if phone_allSelected s then {} else {..<length (pg_entries s)})\<rparr>)"
      using rows by (intro rows_inv_select) simp_all
    then show ?thesis using GAll assms by (auto intro: frame)
  next
    case GBackUp
    then show ?thesis using assms start_phone_inv [OF assms] by simp
  next
    case (GOpen gs)
    then show ?thesis using rows_inv_open [OF rows] by (auto intro: frame)
  next
    case (GGroup c)
    then show ?thesis using rows_inv_toggleGroup [OF rows] assms by (auto intro: frame)
  next
    case (GApply f)
    then show ?thesis using rows_inv_apply [OF rows] assms by (auto intro: frame)
  qed (use assms rows in \<open>auto intro!: frame elim!: rows_inv_same simp: phone_done_def split: prod.split\<close>)
qed

text \<open>However the window is used, and however its runs end, only rows of the list are selected, and a run, in the
  foreground or handed to the parent, is never started empty nor with files that, as far as their sizes are known,
  do not fit the quota.\<close>

theorem phone_backups_fit_quota:
  "phone_google_inv quota used (phone_google_run redirect quota used evs blank_phone)"
proof -
  have "phone_google_inv quota used (fold (phone_google_step redirect quota used) evs s)" if "phone_google_inv quota used s" for s
    using that by (induction evs arbitrary: s) (simp_all add: phone_google_step_inv)
  moreover have "phone_google_inv quota used blank_phone" by (simp add: phone_google_inv_def rows_inv_def blank_phone_def)
  ultimately show ?thesis by (simp add: phone_google_run_def)
qed

corollary phone_all_label:
  assumes "s = phone_google_run redirect quota used evs blank_phone"
  shows "phone_allSelected s \<longleftrightarrow> pg_selected s = {..<length (pg_entries s)}"
proof -
  have "pg_selected s \<subseteq> {..<length (pg_entries s)}"
    using phone_backups_fit_quota [of _ _ redirect evs] by (simp add: assms phone_google_inv_def rows_inv_def)
  then show ?thesis unfolding phone_allSelected_def
    by (metis card_lessThan card_subset_eq finite_lessThan)
qed

section \<open>Redirected media\<close>

text \<open>Picked photos are media, as \<open>listPickedPhotos\<close> is asked for images and videos.\<close>

definition photos_are_media :: "google_item list \<Rightarrow> bool" where
  "photos_are_media gs \<longleftrightarrow> list_all (\<lambda>g. gi_source g = FromPhotos \<longrightarrow> isMediaEntry (to_entry g)) gs"

definition media_free :: "dest_target \<Rightarrow> file_entry list \<Rightarrow> bool" where
  "media_free t es \<longleftrightarrow> (\<forall>i < length es. in_target t es i \<longrightarrow> \<not> isMediaEntry (es ! i))"

definition media_inv :: "phone_google \<Rightarrow> bool" where
  "media_inv s \<longleftrightarrow> list_all (\<lambda>e. (fe_source e = FromPhotos \<longrightarrow> isMediaEntry e) \<and> (isMediaEntry e \<longrightarrow> fe_dest e = None)) (pg_entries s)
     \<and> (case pg_dest s of None \<Rightarrow> True | Some t \<Rightarrow> media_free t (pg_entries s))"

lemma category_media:
  assumes "fe_source e = FromPhotos \<longrightarrow> isMediaEntry e" "fe_source e' = FromPhotos \<longrightarrow> isMediaEntry e'"
    and "getCategory e = getCategory e'" "isMediaEntry e"
  shows "isMediaEntry e'"
proof -
  have "getCategory e \<in> {Photos, Images, Videos}" using assms(4) by (auto simp: getCategory_def isMediaEntry_def)
  with assms(2, 3) show ?thesis by (auto simp: getCategory_def isMediaEntry_def split: if_splits)
qed

lemma category_free:
  assumes "media_inv s" "\<not> catRedirected (Some r) c s"
  shows "media_free (DestCategory c) (pg_entries s)"
proof -
  from assms(2) obtain e where e: "e \<in> set (pg_entries s)" "getCategory e = c" "\<not> isMediaEntry e"
    by (auto simp: catRedirected_def list_all_iff)
  have photos: "x \<in> set (pg_entries s) \<Longrightarrow> fe_source x = FromPhotos \<longrightarrow> isMediaEntry x" for x
    using assms(1) by (auto simp: media_inv_def list_all_iff)
  show ?thesis unfolding media_free_def
  proof (intro allI impI)
    fix i assume i: "i < length (pg_entries s)" "in_target (DestCategory c) (pg_entries s) i"
    then have "getCategory (pg_entries s ! i) = getCategory e" using e(2) by (simp add: in_target_def)
    from category_media [OF photos [OF nth_mem [OF i(1)]] photos [OF e(1)] this] e(3)
    show "\<not> isMediaEntry (pg_entries s ! i)" by blast
  qed
qed

lemma isMediaEntry_dest [simp]: "isMediaEntry (e\<lparr>fe_dest := f\<rparr>) = isMediaEntry e"
  by (simp add: isMediaEntry_def)

lemma media_inv_apply: "media_inv s \<Longrightarrow> media_inv (phone_applyDest f s)"
  by (cases "pg_dest s") (auto simp: phone_applyDest_def media_inv_def list_all_length apply_to_nth media_free_def)

lemma media_inv_same: "media_inv s \<Longrightarrow> pg_entries s' = pg_entries s \<Longrightarrow> pg_dest s' = pg_dest s \<or> pg_dest s' = None \<Longrightarrow> media_inv s'"
  by (auto simp: media_inv_def split: option.splits)

lemma media_inv_open: "photos_are_media gs \<Longrightarrow> media_inv s \<Longrightarrow> media_inv (open_phone gs s)"
  by (cases "gs = []")
     (simp_all add: open_phone_def reset_phone_def media_inv_def photos_are_media_def list.pred_map list_all_iff,
      simp_all add: to_entry_def split: option.splits)

lemma phone_dest_keeps [simp]:
  "pg_dest (phone_progress rows d n r s) = pg_dest s" "pg_dest (phone_cleanup s) = pg_dest s"
  "pg_dest (phone_trash s) = pg_dest s" "pg_dest (start_phone s) = pg_dest s"
  "pg_dest (phone_toggleGroup is s) = pg_dest s" "pg_entries (phone_toggleGroup is s) = pg_entries s"
  "pg_entries (start_phone s) = pg_entries s"
  by (simp_all add: phone_progress_def phone_cleanup_def phone_trash_def start_phone_def phone_toggleGroup_def Let_def
      split: option.split)

lemma media_step_inv:
  assumes "media_inv s" "\<And>gs. ev = GOpen gs \<Longrightarrow> photos_are_media gs"
  shows "media_inv (phone_google_step (Some r) quota used ev s)"
proof (cases ev)
  case (GFileDest i)
  have "media_inv (s\<lparr>pg_dest := Some (DestFile i)\<rparr>)" if "\<not> phone_locked (Some r) (pg_entries s ! i)"
    using assms(1) that by (simp add: media_inv_def phone_locked_def media_free_def in_target_def)
  then show ?thesis using GFileDest assms(1) by auto
next
  case (GCategoryDest c)
  have "media_inv (s\<lparr>pg_dest := Some (DestCategory c)\<rparr>)" if "\<not> catRedirected (Some r) c s"
    using assms(1) category_free [OF assms(1) that] by (simp add: media_inv_def)
  then show ?thesis using GCategoryDest assms(1) by auto
next
  case (GOpen gs)
  then show ?thesis using media_inv_open [OF assms(2)] assms(1) by simp
next
  case (GApply f)
  then show ?thesis using media_inv_apply assms(1) by simp
qed (use assms(1) in \<open>auto elim!: media_inv_same simp: phone_done_def split: prod.split\<close>)

text \<open>With a redirected media folder no destination can be chosen for an image or a video: every run asks for the root
  and leaves the choice to the backend.\<close>

theorem redirected_media_unrouted:
  assumes "\<And>gs. GOpen gs \<in> set evs \<Longrightarrow> photos_are_media gs"
    and "e \<in> set (pg_entries (phone_google_run (Some r) quota used evs blank_phone))" "isMediaEntry e"
  shows "be_destFolderId (phone_upload e) = None"
proof -
  have "media_inv (fold (phone_google_step (Some r) quota used) evs s)" if "media_inv s" for s
    using that assms(1)
  proof (induction evs arbitrary: s)
    case (Cons ev evs)
    from media_step_inv [OF Cons.prems(1)] Cons.prems(2) have "media_inv (phone_google_step (Some r) quota used ev s)" by simp
    from Cons.IH [OF this] Cons.prems(2) show ?case by simp
  qed simp
  moreover have "media_inv blank_phone" by (simp add: media_inv_def blank_phone_def)
  ultimately have "media_inv (phone_google_run (Some r) quota used evs blank_phone)" by (simp only: phone_google_run_def)
  then have "\<forall>e \<in> set (pg_entries (phone_google_run (Some r) quota used evs blank_phone)). isMediaEntry e \<longrightarrow> fe_dest e = None"
    by (simp add: media_inv_def list_all_iff)
  with assms(2, 3) show ?thesis by (simp add: phone_upload_def)
qed

section \<open>The board of a run\<close>

lemma item_effects_hidden: "fold (show_effect rows) (snd (mobile_item env i e)) s = s"
  by (simp add: mobile_item_def show_effect_def Let_def split: sum.split)

lemma loop_status:
  "i + length es \<le> length rows \<Longrightarrow>
     pg_status (fold (show_effect rows) (mr_effects (mobile_loop env n i es res)) s)
       = (pg_status (fold (show_effect rows) (mr_effects res) s))
           (take (length es) (drop i rows) [\<mapsto>] mrun.outcomes env i es)"
proof (induction es arbitrary: i res)
  case (Cons e es)
  then have i: "i < length rows" by simp
  obtain o' fx where m: "mobile_item env i e = (o', fx)" by force
  have hide: "fold (show_effect rows) fx s' = s'" for s' using item_effects_hidden [of rows env i e s'] m by simp
  have "mr_effects (mobile_step env n i e res) = mr_effects res @ fx @ [MProgress (i + 1) n o']"
    by (simp add: mobile_step_def m split: item_outcome.split)
  then have "pg_status (fold (show_effect rows) (mr_effects (mobile_step env n i e res)) s)
      = (pg_status (fold (show_effect rows) (mr_effects res) s))(rows ! i \<mapsto> o')"
    using i by (simp add: hide show_effect_def phone_progress_def Let_def)
  with Cons i show ?case by (simp add: mrun.outcomes_Cons m Cons_nth_drop_Suc [symmetric] del: fun_upd_apply)
qed (simp add: mrun.outcomes_def)

lemma start_foreground:
  "phone_indices s \<noteq> [] \<Longrightarrow> \<not> pg_background s \<Longrightarrow> pg_status (start_phone s) = Map.empty"
  by (simp add: start_phone_def Let_def)

lemma phone_indices_distinct: "distinct (phone_indices s)"
  by (simp add: phone_indices_def)

lemma map_upds_distinct:
  assumes "distinct xs" "length xs = length ys"
  shows "Map.empty (xs [\<mapsto>] ys) = map_of (zip xs ys)"
proof -
  have "m (xs [\<mapsto>] ys) = m ++ map_of (zip xs ys)" if "distinct xs" for m
    using assms(2) that
  proof (induction xs ys arbitrary: m rule: list_induct2)
    case (Cons x xs y ys)
    then have "map_of (zip xs ys) x = None" by (auto simp: map_of_eq_None_iff dest: set_zip_leftD)
    then have "m(x \<mapsto> y) ++ map_of (zip xs ys) = m ++ (map_of (zip xs ys))(x \<mapsto> y)"
      by (intro ext) (simp add: map_add_def split: option.split)
    with Cons show ?case by (simp del: fun_upd_apply)
  qed simp
  with assms(1) show ?thesis by simp
qed

text \<open>A run nothing interferes with is shown truly: each selected row carries the outcome of its own file, no other
  row carries any, and the counters of the result line are the numbers of rows with each badge.\<close>

theorem phone_board_true:
  assumes "phone_indices s \<noteq> []" "\<not> pg_background s"
    and "es = map (\<lambda>i. phone_upload (pg_entries s ! i)) (phone_indices s)" "s' = phone_run env s"
  shows "dom (pg_status s') = set (phone_indices s)"
    "k < length es \<Longrightarrow> pg_status s' (phone_indices s ! k) = Some (fst (mobile_item env k (es ! k)))"
    "pg_result s' = Some (card {i. pg_status s' i = Some ODone}, card {i. pg_status s' i = Some ODuplicate},
       card {i. pg_status s' i = Some OError})"
proof -
  let ?rows = "phone_indices s" and ?res = "mobile_uploadGoogleEntries env es"
  let ?os = "mrun.outcomes env 0 es"
  have len: "length ?os = length ?rows" "length es = length ?rows" by (simp_all add: mrun.outcomes_def assms(3))
  have "pg_status (fold (show_effect ?rows) (mr_effects ?res) (start_phone s)) = Map.empty (?rows [\<mapsto>] ?os)"
    using loop_status [of 0 es ?rows env "length es"] start_foreground [OF assms(1, 2)] len(2)
    by (simp add: mobile_uploadGoogleEntries_def)
  then have st: "pg_status s' = map_of (zip ?rows ?os)"
    using map_upds_distinct [OF phone_indices_distinct, of s ?os] len
    by (simp add: assms(3, 4) phone_run_def Let_def phone_done_def)
  show "dom (pg_status s') = set ?rows" using len by (simp add: st dom_map_of_zip)
  show "pg_status s' (?rows ! k) = Some (fst (mobile_item env k (es ! k)))" if "k < length es"
    using that len phone_indices_distinct [of s] map_of_zip_nth [of ?rows ?os k]
    by (simp add: st) (simp add: mrun.outcomes_def)
  have count: "count_list ?os v = card {i. pg_status s' i = Some v}" for v
  proof -
    have "{i. pg_status s' i = Some v} = (\<lambda>k. ?rows ! k) ` {k. k < length ?os \<and> v = ?os ! k}"
      using len phone_indices_distinct [of s] by (auto simp: st map_of_zip_nth set_zip)
    moreover have "inj_on (\<lambda>k. ?rows ! k) {k. k < length ?os \<and> v = ?os ! k}"
      using len phone_indices_distinct [of s] by (auto simp: inj_on_def nth_eq_iff_index_eq)
    ultimately show ?thesis
      by (simp add: card_image count_list_eq_length_filter length_filter_conv_card)
  qed
  have "mrun.passed 0 es = length es" by (simp add: mrun.passed_def takeWhile_eq_all_conv [THEN iffD2])
  then have "mobile_counts ?res = (count_list ?os ODone, count_list ?os ODuplicate, count_list ?os OError)"
    using mrun.loop_counts [of "\<lparr>mr_uploaded = 0, mr_duplicates = 0, mr_errors = 0, mr_effects = []\<rparr>" env "length es" 0 es]
    by (cases "mobile_counts ?res") (simp add: mobile_uploadGoogleEntries_def mobile_counts_def)
  then have "pg_result s' = Some (count_list ?os ODone, count_list ?os ODuplicate, count_list ?os OError)"
    by (simp add: assms(3, 4) phone_run_def Let_def phone_done_def)
  then show "pg_result s' = Some (card {i. pg_status s' i = Some ODone}, card {i. pg_status s' i = Some ODuplicate},
       card {i. pg_status s' i = Some OError})"
    by (simp only: count)
qed

section \<open>Behaviours against the intent\<close>

text \<open>The deletion asks for every Drive file of the list, selected or not, backed up or failed, although its question
  says they are safely backed up: after a run in which nothing could be downloaded it deletes them all.\<close>

theorem phone_cleanup_deletes_unsaved:
  assumes "phone_indices s \<noteq> []" "\<not> pg_background s" "phone_drive s \<noteq> []"
    and "\<And>k u. me_fetch env k u = Inl t" and "s' = phone_run env s"
  shows "pg_result s' = Some (0, 0, length (phone_indices s))"
    "pg_trashed (phone_trash (phone_cleanup s')) = pg_trashed s @ phone_drive s"
proof -
  let ?es = "map (\<lambda>i. phone_upload (pg_entries s ! i)) (phone_indices s)"
  have "fst (mobile_item env k e) = OError" for k e
    by (simp add: mobile_item_def downloadGoogleFile_def assms(4))
  then have st: "pg_status s' i = (if i \<in> set (phone_indices s) then Some OError else None)" for i
    using phone_board_true(1, 2) [OF assms(1, 2) refl assms(5)]
    by (auto simp: in_set_conv_nth domIff set_eq_iff)
  have "{i. pg_status s' i = Some OError} = set (phone_indices s)" by (auto simp: st)
  moreover have "{i. pg_status s' i = Some ODone} = {}" "{i. pg_status s' i = Some ODuplicate} = {}" by (auto simp: st)
  ultimately show "pg_result s' = Some (0, 0, length (phone_indices s))"
    using phone_board_true(3) [OF assms(1, 2) refl assms(5)]
    by (simp add: distinct_card [OF phone_indices_distinct])
  have keep: "pg_entries (fold (show_effect rows) fx x) = pg_entries x \<and> pg_trashed (fold (show_effect rows) fx x) = pg_trashed x"
    for rows fx x
    by (induction fx arbitrary: x) (simp_all add: show_effect_def phone_progress_def Let_def split: mobile_effect.split)
  have "pg_trashed (start_phone s) = pg_trashed s" by (simp add: start_phone_def Let_def)
  then have "pg_entries s' = pg_entries s \<and> pg_trashed s' = pg_trashed s"
    using keep by (simp add: assms(5) phone_run_def Let_def phone_done_def)
  moreover from this have "phone_drive s' = phone_drive s" by (simp add: phone_drive_def)
  ultimately show "pg_trashed (phone_trash (phone_cleanup s')) = pg_trashed s @ phone_drive s"
    using assms(3) by (simp add: phone_cleanup_def phone_trash_def)
qed

text \<open>Closing the window does not stop its run: one that ends after the window was opened on other files puts these on
  the finished screen with its own result, and the deletion offered there takes files no run was ever started for.\<close>

theorem late_run_finishes_other_window:
  assumes "phone_drive (open_phone gs s) \<noteq> []"
    and "s' = phone_google_run redirect quota used [GClose, GOpen gs, GRunEnds res, GCleanup, GTrash] s"
    and "gs \<noteq> []"
  shows "pg_finished s' \<and> pg_result s' = Some res \<and> pg_runs s' = pg_runs s \<and> pg_handed s' = pg_handed s
    \<and> pg_entries s' = map to_entry gs \<and> pg_trashed s' = pg_trashed s @ phone_drive s'"
  using assms
  by (simp add: phone_google_run_def open_phone_def reset_phone_def phone_done_def phone_cleanup_def phone_trash_def
      phone_drive_def Let_def)

text \<open>A category whose files go to different folders is shown as going to the root.\<close>

theorem mixed_destinations_tick_root:
  assumes "pg_dest s = Some (DestCategory c)" "e \<in> set (pg_entries s)" "e' \<in> set (pg_entries s)"
    and "getCategory e = c" "getCategory e' = c" "fe_dest e \<noteq> fe_dest e'"
  shows "root_ticked s \<and> \<not> folder_ticked f s"
proof -
  have "\<not> list_all (\<lambda>x. fe_dest x = d) (filter (\<lambda>x. getCategory x = c) (pg_entries s))" for d
    using assms(2-6) by (auto simp: list_all_iff)
  then show ?thesis using assms(1) by (simp add: root_ticked_def folder_ticked_def phone_activeDest_def Let_def)
qed

text \<open>While a run is on the rows are disabled, but \<open>All\<close> is not: the finished screen may mark as chosen what was not.\<close>

lemma selection_changes_during_run:
  "pg_visible s \<Longrightarrow> pg_uploading s \<Longrightarrow> \<not> pg_finished s \<Longrightarrow> pg_selected s \<subset> {..<length (pg_entries s)} \<Longrightarrow>
     pg_selected (phone_google_step redirect quota used GAll s) = {..<length (pg_entries s)}
   \<and> phone_google_step redirect quota used (GRow i) s = s"
  using psubset_card_mono [of "{..<length (pg_entries s)}" "pg_selected s"] by (simp add: phone_allSelected_def)

end
