(* ===== verification/PhoneUpgrade.thy ===== *)
theory PhoneUpgrade
  imports StorageCheckout SortView
begin

text \<open>
  Buying storage on the phone: \<open>mobile/src/components/StorageUpgradeModal.tsx\<close>, the calls of \<open>api/billing.ts\<close> it makes,
  the server list of \<open>api/storage.ts\<close> and the messages of \<open>PayPalCardSheet.tsx\<close>. A handler is cut at its
  \<open>await\<close>s: what remains to be done is a \<open>flight\<close> carrying what the handler captured, and its answer is an event of its
  own, so that the window may be closed and opened again in between. The window is closed by its parent when a purchase
  is reported. The backend, the wallet sheets and the browser answer as they like.
\<close>

section \<open>Plans and amounts\<close>

record phone_plan =
  ph_id :: string
  ph_label :: string
  ph_addBytes :: nat
  ph_price :: "storage_type \<Rightarrow> string"
  ph_amount :: "storage_type \<Rightarrow> string"

definition per_type :: "'a \<Rightarrow> 'a \<Rightarrow> storage_type \<Rightarrow> 'a" where
  "per_type nvme hdd t = (case t of Nvme \<Rightarrow> nvme | Hdd \<Rightarrow> hdd)"

definition PLANS :: "phone_plan list" where
  "PLANS =
     [\<lparr>ph_id = ''64gb'', ph_label = ''64 GB'', ph_addBytes = 64 * 1024 ^ 3, ph_price = per_type ''$30'' ''$20'', ph_amount = per_type ''30.00'' ''20.00''\<rparr>,
      \<lparr>ph_id = ''128gb'', ph_label = ''128 GB'', ph_addBytes = 128 * 1024 ^ 3, ph_price = per_type ''$50'' ''$30'', ph_amount = per_type ''50.00'' ''30.00''\<rparr>,
      \<lparr>ph_id = ''256gb'', ph_label = ''256 GB'', ph_addBytes = 256 * 1024 ^ 3, ph_price = per_type ''$80'' ''$50'', ph_amount = per_type ''80.00'' ''50.00''\<rparr>,
      \<lparr>ph_id = ''512gb'', ph_label = ''512 GB'', ph_addBytes = 512 * 1024 ^ 3, ph_price = per_type ''$150'' ''$80'', ph_amount = per_type ''150.00'' ''80.00''\<rparr>,
      \<lparr>ph_id = ''1tb'', ph_label = ''1 TB'', ph_addBytes = 1024 * 1024 ^ 3, ph_price = per_type ''$250'' ''$120'', ph_amount = per_type ''250.00'' ''120.00''\<rparr>]"

text \<open>\<open>(Math.round(parseFloat(amount) * 100 / 2) / 100).toFixed(2)\<close>; the amounts of the plans are numbers.\<close>

definition half_amount :: "string \<Rightarrow> string" where
  "half_amount amount =
     (case parseFloat amount of Fin x \<Rightarrow> to_fixed 2 (of_int (js_round (x * 100 / 2)) / 100) | _ \<Rightarrow> ''NaN'')"

definition phone_formatBytes :: "nat \<Rightarrow> string" where
  "phone_formatBytes b =
     (if b < 1024 ^ 3 then to_fixed 0 (of_nat b / 1024 / 1024) @ '' MB''
      else if b < 1024 ^ 4 then to_fixed 0 (of_nat b / of_nat (1024 ^ 3)) @ '' GB''
      else to_fixed 1 (of_nat b / of_nat (1024 ^ 4)) @ '' TB'')"

text \<open>What an error of \<open>axios\<close> says: the status, the text or the fields of the body, the message.\<close>

definition apiError :: "nat option \<Rightarrow> string option \<Rightarrow> string option \<Rightarrow> string" where
  "apiError status bodyMsg message =
     (case status of Some c \<Rightarrow> if c = 0 then [] else ''['' @ show_nat c @ ''] '' | None \<Rightarrow> [])
     @ (case bodyMsg of Some m \<Rightarrow> m | None \<Rightarrow> or_else message ''Unknown error'')"

section \<open>Servers\<close>

record phone_server =
  pv_id :: string
  pv_name :: string
  pv_available :: nat
  pv_drive :: storage_type
  pv_ping :: "nat option"

text \<open>The comparison of \<open>listServersWithPing\<close>; \<open>ping\<close> is what the measurement of a server gives.\<close>

definition by_ping :: "phone_server \<Rightarrow> phone_server \<Rightarrow> int" where
  "by_ping a b =
     (case pv_ping a of
        None \<Rightarrow> 1
      | Some x \<Rightarrow> (case pv_ping b of None \<Rightarrow> - 1 | Some y \<Rightarrow> int x - int y))"

definition listServersWithPing :: "(phone_server \<Rightarrow> nat option) \<Rightarrow> phone_server list \<Rightarrow> phone_server list" where
  "listServersWithPing ping servers = js_sort by_ping (map (\<lambda>s. s\<lparr>pv_ping := ping s\<rparr>) servers)"

definition server_line :: "phone_server \<Rightarrow> string" where
  "server_line s =
     (case pv_ping s of Some p \<Rightarrow> show_nat p @ '' ms  '' @ [CHR 0xC2, CHR 0xB7] @ ''  '' | None \<Rightarrow> [])
     @ phone_formatBytes (pv_available s) @ '' available''"

section \<open>The window\<close>

datatype purchase_state = Selecting | CardForm | Processing | Awaiting | Verifying | ExpansionSuccess
datatype wallet = AppleWallet | GoogleWallet

text \<open>What a handler captured: the plan, the type and, when the purchase is an expansion, the server.\<close>

record purchase =
  pu_plan :: phone_plan
  pu_type :: storage_type
  pu_expansion :: "string option"

datatype upgrade_call =
    CreateStorageOrder string storage_type
  | CreateExpansionOrder string storage_type string
  | CaptureStorageOrder string
  | CaptureExpansionOrder string
  | CaptureCardStorage string string storage_type
  | CaptureCardExpansion string string storage_type string
  | WalletStorageOrder wallet string storage_type
  | WalletExpansionOrder wallet string storage_type string

datatype flight =
    WalletSheet wallet purchase
  | WalletCharge wallet purchase
  | CardCapture purchase
  | OrderCreation purchase
  | OrderOpening
  | OrderCapture bool    \<comment> \<open>of an expansion\<close>

record upgrade_modal =
  um_visible :: bool
  um_type :: storage_type
  um_plan :: "string option"
  um_state :: purchase_state
  um_order :: "string option"
  um_servers :: "phone_server list"
  um_server :: "string option"
  um_listOpen :: bool
  um_loading :: bool
  um_error :: "string option"
  um_wallets :: "wallet set"
  um_expires :: "string option"
  um_asking :: bool    \<comment> \<open>the question whether to cancel the checkout\<close>
  um_seen :: bool    \<comment> \<open>whether the purchase is an expansion, as the listener sees it\<close>
  um_flights :: "flight list"
  um_calls :: "upgrade_call list"
  um_sheets :: "(wallet \<times> purchase \<times> string) list"   \<comment> \<open>the sheets shown, with the amount asked for\<close>
  um_marks :: "bool list"                          \<comment> \<open>the outcomes told to the Apple sheet\<close>
  um_purchased :: "nat list"
  um_requested :: "(string \<times> string) list"
  um_alerts :: "(string \<times> string) list"

definition blank_upgrade :: upgrade_modal where
  "blank_upgrade = \<lparr>um_visible = False, um_type = Nvme, um_plan = None, um_state = Selecting, um_order = None,
     um_servers = [], um_server = None, um_listOpen = False, um_loading = False, um_error = None, um_wallets = {},
     um_expires = None, um_asking = False, um_seen = False, um_flights = [], um_calls = [], um_sheets = [], um_marks = [], um_purchased = [],
     um_requested = [], um_alerts = []\<rparr>"

definition open_upgrade :: "upgrade_modal \<Rightarrow> upgrade_modal" where
  "open_upgrade s = s\<lparr>um_visible := True, um_type := Nvme, um_plan := None, um_state := Selecting, um_order := None,
     um_expires := None, um_listOpen := False, um_loading := True, um_error := None\<rparr>"

text \<open>The answer of the server list keeps the server chosen before when it is still there.\<close>

definition servers_answer :: "string + phone_server list \<Rightarrow> upgrade_modal \<Rightarrow> upgrade_modal" where
  "servers_answer res s =
     (case res of
        Inl e \<Rightarrow> s\<lparr>um_error := Some e, um_loading := False\<rparr>
      | Inr xs \<Rightarrow> s\<lparr>um_servers := xs, um_loading := False,
          um_server := (case xs of [] \<Rightarrow> None
                        | x # _ \<Rightarrow> if list_ex (\<lambda>y. Some (pv_id y) = um_server s) xs then um_server s else Some (pv_id x))\<rparr>)"

definition phone_selectedPlan :: "upgrade_modal \<Rightarrow> phone_plan option" where
  "phone_selectedPlan s = find (\<lambda>p. Some (ph_id p) = um_plan s) PLANS"

definition phone_selectedServer :: "upgrade_modal \<Rightarrow> phone_server option" where
  "phone_selectedServer s = find (\<lambda>v. Some (pv_id v) = um_server s) (um_servers s)"

definition phone_typeMismatch :: "upgrade_modal \<Rightarrow> bool" where
  "phone_typeMismatch s \<longleftrightarrow>
     (case phone_selectedServer s of
        None \<Rightarrow> False
      | Some v \<Rightarrow> um_type s = Nvme \<and> pv_drive v \<noteq> Nvme \<or> um_type s = Hdd \<and> pv_drive v \<noteq> Hdd)"

definition phone_isExpansion :: "bool \<Rightarrow> upgrade_modal \<Rightarrow> bool" where
  "phone_isExpansion override s \<longleftrightarrow>
     (case (phone_selectedPlan s, phone_selectedServer s) of
        (Some p, Some v) \<Rightarrow> override \<or> phone_typeMismatch s \<or> pv_available v < ph_addBytes p
      | _ \<Rightarrow> False)"

definition plan_unavailable :: "phone_plan \<Rightarrow> upgrade_modal \<Rightarrow> bool" where
  "plan_unavailable p s \<longleftrightarrow>
     (case phone_selectedServer s of None \<Rightarrow> False | Some v \<Rightarrow> phone_typeMismatch s \<or> pv_available v < ph_addBytes p)"

definition tier_free :: "storage_type \<Rightarrow> upgrade_modal \<Rightarrow> nat" where
  "tier_free t s = sum_list (map pv_available (filter (\<lambda>v. pv_drive v = t) (um_servers s)))"

definition depositDisplay :: "upgrade_modal \<Rightarrow> string" where
  "depositDisplay s =
     (case phone_selectedPlan s of None \<Rightarrow> [] | Some p \<Rightarrow> ''$'' @ half_amount (ph_amount p (um_type s)))"

definition cardLabel :: "bool \<Rightarrow> upgrade_modal \<Rightarrow> string" where
  "cardLabel override s =
     (case phone_selectedPlan s of
        None \<Rightarrow> []
      | Some p \<Rightarrow> if phone_isExpansion override s
                  then ph_label p @ '' Expansion Deposit '' @ em_dash @ '' '' @ depositDisplay s
                  else ph_label p @ '' '' @ em_dash @ '' '' @ ph_price p (um_type s))"

definition purchase_amount :: "purchase \<Rightarrow> string" where
  "purchase_amount u =
     (if pu_expansion u \<noteq> None then half_amount (ph_amount (pu_plan u) (pu_type u)) else ph_amount (pu_plan u) (pu_type u))"

definition cardAmount :: "bool \<Rightarrow> upgrade_modal \<Rightarrow> string" where
  "cardAmount override s =
     (case phone_selectedPlan s of
        None \<Rightarrow> ''0.00''
      | Some p \<Rightarrow> if phone_isExpansion override s then half_amount (ph_amount p (um_type s)) else ph_amount p (um_type s))"

text \<open>The values a handler reads when it is pressed; \<open>None\<close> without a plan. An expansion has a selected server.\<close>

definition current_purchase :: "bool \<Rightarrow> upgrade_modal \<Rightarrow> purchase option" where
  "current_purchase override s =
     map_option (\<lambda>p. \<lparr>pu_plan = p, pu_type = um_type s,
         pu_expansion = (if phone_isExpansion override s then um_server s else None)\<rparr>) (phone_selectedPlan s)"

section \<open>Steps\<close>

datatype upgrade_answer =
    AFail bool string    \<comment> \<open>cancelled by the user, and what \<open>apiError\<close> says\<close>
  | AToken
  | AOrder string
  | AOpened
  | AQuota nat
  | ARequest string string

fun flight_accepts :: "flight \<Rightarrow> upgrade_answer \<Rightarrow> bool" where
  "flight_accepts f (AFail c m) = True"
| "flight_accepts (WalletSheet w u) a = (a = AToken)"
| "flight_accepts (OrderCreation u) (AOrder i) = True"
| "flight_accepts OrderOpening a = (a = AOpened)"
| "flight_accepts (WalletCharge w u) (AQuota n) = (pu_expansion u = None)"
| "flight_accepts (WalletCharge w u) (ARequest i e) = (pu_expansion u \<noteq> None)"
| "flight_accepts (CardCapture u) (AQuota n) = (pu_expansion u = None)"
| "flight_accepts (CardCapture u) (ARequest i e) = (pu_expansion u \<noteq> None)"
| "flight_accepts (OrderCapture ex) (AQuota n) = (\<not> ex)"
| "flight_accepts (OrderCapture ex) (ARequest i e) = ex"
| "flight_accepts _ _ = False"

definition wallet_call :: "wallet \<Rightarrow> purchase \<Rightarrow> upgrade_call" where
  "wallet_call w u =
     (case pu_expansion u of
        Some srv \<Rightarrow> WalletExpansionOrder w (ph_id (pu_plan u)) (pu_type u) srv
      | None \<Rightarrow> WalletStorageOrder w (ph_id (pu_plan u)) (pu_type u))"

definition card_call :: "string \<Rightarrow> purchase \<Rightarrow> upgrade_call" where
  "card_call order u =
     (case pu_expansion u of
        Some srv \<Rightarrow> CaptureCardExpansion order (ph_id (pu_plan u)) (pu_type u) srv
      | None \<Rightarrow> CaptureCardStorage order (ph_id (pu_plan u)) (pu_type u))"

definition paypal_call :: "purchase \<Rightarrow> upgrade_call" where
  "paypal_call u =
     (case pu_expansion u of
        Some srv \<Rightarrow> CreateExpansionOrder (ph_id (pu_plan u)) (pu_type u) srv
      | None \<Rightarrow> CreateStorageOrder (ph_id (pu_plan u)) (pu_type u))"

definition capture_of :: "bool \<Rightarrow> string \<Rightarrow> upgrade_call" where
  "capture_of ex order = (if ex then CaptureExpansionOrder order else CaptureStorageOrder order)"

text \<open>The Apple sheet stays open until it is told the outcome.\<close>

definition mark_of :: "flight \<Rightarrow> bool \<Rightarrow> bool list" where
  "mark_of f ok = (case f of WalletCharge AppleWallet _ \<Rightarrow> [ok] | _ \<Rightarrow> [])"

definition failure_title :: "flight \<Rightarrow> string" where
  "failure_title f =
     (case f of
        WalletSheet w _ \<Rightarrow> (case w of AppleWallet \<Rightarrow> ''Apple Pay failed'' | GoogleWallet \<Rightarrow> ''Google Pay failed'')
      | WalletCharge w _ \<Rightarrow> (case w of AppleWallet \<Rightarrow> ''Apple Pay failed'' | GoogleWallet \<Rightarrow> ''Google Pay failed'')
      | CardCapture _ \<Rightarrow> ''Payment capture failed''
      | OrderCreation _ \<Rightarrow> ''Could not start PayPal checkout''
      | OrderOpening \<Rightarrow> ''Could not start PayPal checkout''
      | OrderCapture _ \<Rightarrow> ''Payment not found'')"

definition quiet_cancel :: "flight \<Rightarrow> bool \<Rightarrow> bool" where
  "quiet_cancel f cancelled \<longleftrightarrow> cancelled \<and> (case f of WalletSheet _ _ \<Rightarrow> True | WalletCharge _ _ \<Rightarrow> True | _ \<Rightarrow> False)"

text \<open>The rest of a handler after its answer; the flight itself has been taken out.\<close>

fun land :: "flight \<Rightarrow> upgrade_answer \<Rightarrow> upgrade_modal \<Rightarrow> upgrade_modal" where
  "land f (AFail c m) s =
     s\<lparr>um_state := (case f of OrderCapture _ \<Rightarrow> Awaiting | _ \<Rightarrow> Selecting), um_marks := um_marks s @ mark_of f False,
       um_alerts := um_alerts s @ (if quiet_cancel f c then [] else [(failure_title f, m)])\<rparr>"
| "land f (AQuota n) s =
     s\<lparr>um_purchased := um_purchased s @ [n], um_marks := um_marks s @ mark_of f True, um_visible := False\<rparr>"
| "land f (ARequest i e) s =
     s\<lparr>um_marks := um_marks s @ mark_of f True, um_expires := Some e, um_state := ExpansionSuccess,
       um_requested := um_requested s @ [(i, e)]\<rparr>"
| "land (WalletSheet w u) AToken s =
     s\<lparr>um_flights := um_flights s @ [WalletCharge w u], um_calls := um_calls s @ [wallet_call w u]\<rparr>"
| "land (OrderCreation u) (AOrder i) s = s\<lparr>um_order := Some i, um_flights := um_flights s @ [OrderOpening]\<rparr>"
| "land OrderOpening AOpened s = s\<lparr>um_state := Awaiting\<rparr>"
| "land _ _ s = s"

definition answer_flight :: "nat \<Rightarrow> upgrade_answer \<Rightarrow> upgrade_modal \<Rightarrow> upgrade_modal" where
  "answer_flight k a s =
     (if k < length (um_flights s) \<and> flight_accepts (um_flights s ! k) a
      then land (um_flights s ! k) a (s\<lparr>um_flights := take k (um_flights s) @ drop (Suc k) (um_flights s)\<rparr>)
      else s)"

definition press_wallet :: "bool \<Rightarrow> wallet \<Rightarrow> upgrade_modal \<Rightarrow> upgrade_modal" where
  "press_wallet override w s =
     (case current_purchase override s of
        None \<Rightarrow> s
      | Some u \<Rightarrow> s\<lparr>um_state := Processing, um_flights := um_flights s @ [WalletSheet w u],
                    um_sheets := um_sheets s @ [(w, u, purchase_amount u)]\<rparr>)"

definition press_paypal :: "bool \<Rightarrow> upgrade_modal \<Rightarrow> upgrade_modal" where
  "press_paypal override s =
     (case current_purchase override s of
        None \<Rightarrow> s
      | Some u \<Rightarrow> s\<lparr>um_state := Processing, um_flights := um_flights s @ [OrderCreation u],
                    um_calls := um_calls s @ [paypal_call u]\<rparr>)"

definition card_approved :: "bool \<Rightarrow> string \<Rightarrow> upgrade_modal \<Rightarrow> upgrade_modal" where
  "card_approved override order s =
     (case current_purchase override s of
        None \<Rightarrow> s
      | Some u \<Rightarrow> s\<lparr>um_state := Verifying, um_flights := um_flights s @ [CardCapture u],
                    um_calls := um_calls s @ [card_call order u]\<rparr>)"

definition verify_paypal :: "bool \<Rightarrow> upgrade_modal \<Rightarrow> upgrade_modal" where
  "verify_paypal ex s =
     (case um_order s of
        None \<Rightarrow> s
      | Some order \<Rightarrow>
          if order = [] then s
          else s\<lparr>um_state := Verifying, um_flights := um_flights s @ [OrderCapture ex],
                 um_calls := um_calls s @ [capture_of ex order]\<rparr>)"

definition close_upgrade :: "upgrade_modal \<Rightarrow> upgrade_modal" where
  "close_upgrade s =
     (if um_state s = Processing \<or> um_state s = Verifying then s
      else if um_state s = Awaiting then s\<lparr>um_asking := True\<rparr>
      else s\<lparr>um_visible := False\<rparr>)"

datatype card_message = CardLog | CardApproved string | CardFatal string

datatype upgrade_event =
    UOpen
  | UClose
  | UAnswerClose bool       \<comment> \<open>whether the checkout is to be cancelled\<close>
  | UServers "string + phone_server list"
  | UCanPay wallet bool
  | UToggleList
  | UPickServer string
  | UType storage_type
  | UPlan phone_plan
  | UWallet wallet
  | UCard
  | UCardMessage card_message
  | UCardBack
  | UPayPal
  | UVerify
  | UForeground             \<comment> \<open>the application comes back to the front\<close>
  | UAnswer nat upgrade_answer

definition can_pay :: "upgrade_modal \<Rightarrow> bool" where
  "can_pay s \<longleftrightarrow> um_visible s \<and> um_state s = Selecting \<and> um_plan s \<noteq> None \<and> um_servers s \<noteq> []"

text \<open>The list of servers is shown when it has been loaded; its rows stay active whatever the state of the purchase is.\<close>

definition list_shown :: "upgrade_modal \<Rightarrow> bool" where
  "list_shown s \<longleftrightarrow> um_visible s \<and> um_state s \<noteq> CardForm \<and> \<not> um_loading s \<and> um_error s = None"

fun upgrade_event_step :: "bool \<Rightarrow> upgrade_event \<Rightarrow> upgrade_modal \<Rightarrow> upgrade_modal" where
  "upgrade_event_step ov UOpen s = open_upgrade s"
| "upgrade_event_step ov UClose s = (if um_visible s then close_upgrade s else s)"
| "upgrade_event_step ov (UAnswerClose yes) s =
     (if um_asking s then s\<lparr>um_asking := False, um_visible := um_visible s \<and> \<not> yes\<rparr> else s)"
| "upgrade_event_step ov (UServers res) s = servers_answer res s"
| "upgrade_event_step ov (UCanPay w b) s = s\<lparr>um_wallets := (if b then insert w (um_wallets s) else um_wallets s - {w})\<rparr>"
| "upgrade_event_step ov UToggleList s =
     (if list_shown s \<and> um_state s = Selecting \<and> um_servers s \<noteq> [] then s\<lparr>um_listOpen := \<not> um_listOpen s\<rparr> else s)"
| "upgrade_event_step ov (UPickServer i) s =
     (if list_shown s \<and> um_listOpen s \<and> i \<in> pv_id ` set (um_servers s)
      then s\<lparr>um_server := Some i, um_listOpen := False\<rparr> else s)"
| "upgrade_event_step ov (UType t) s = (if um_visible s \<and> um_state s = Selecting then s\<lparr>um_type := t\<rparr> else s)"
| "upgrade_event_step ov (UPlan p) s =
     (if um_visible s \<and> um_state s = Selecting \<and> p \<in> set PLANS then s\<lparr>um_plan := Some (ph_id p)\<rparr> else s)"
| "upgrade_event_step ov (UWallet w) s = (if can_pay s \<and> w \<in> um_wallets s then press_wallet ov w s else s)"
| "upgrade_event_step ov UCard s = (if can_pay s then s\<lparr>um_state := CardForm\<rparr> else s)"
| "upgrade_event_step ov (UCardMessage msg) s =
     (if um_visible s \<and> um_state s = CardForm
      then (case msg of
              CardLog \<Rightarrow> s
            | CardApproved order \<Rightarrow> card_approved ov order s
            | CardFatal m \<Rightarrow> s\<lparr>um_state := Selecting, um_alerts := um_alerts s @ [(''Card payment failed'', m)]\<rparr>)
      else s)"
| "upgrade_event_step ov UCardBack s = (if um_visible s \<and> um_state s = CardForm then s\<lparr>um_state := Selecting\<rparr> else s)"
| "upgrade_event_step ov UPayPal s = (if can_pay s then press_paypal ov s else s)"
| "upgrade_event_step ov UVerify s = (if um_visible s \<and> um_state s = Awaiting then verify_paypal (phone_isExpansion ov s) s else s)"
| "upgrade_event_step ov UForeground s = (if um_state s = Awaiting then verify_paypal (um_seen s) s else s)"
| "upgrade_event_step ov (UAnswer k a) s = answer_flight k a s"

text \<open>The listener of the application's state is set up again when the purchase state or the order changes; until then
  it sees what the window was then.\<close>

definition upgrade_step :: "bool \<Rightarrow> upgrade_event \<Rightarrow> upgrade_modal \<Rightarrow> upgrade_modal" where
  "upgrade_step ov ev s =
     (let s' = upgrade_event_step ov ev s
      in if um_state s' = Awaiting \<and> (um_state s \<noteq> Awaiting \<or> um_order s' \<noteq> um_order s)
         then s'\<lparr>um_seen := phone_isExpansion ov s'\<rparr> else s')"

definition upgrade_run :: "bool \<Rightarrow> upgrade_event list \<Rightarrow> upgrade_modal \<Rightarrow> upgrade_modal" where
  "upgrade_run ov es s = fold (upgrade_step ov) es s"

section \<open>Plans, amounts and servers\<close>

lemma whole_amount: "c mod 100 = 0 \<Longrightarrow> to_fixed 2 (of_nat c / 100) = show_nat (c div 100) @ ''.00''"
proof -
  assume "c mod 100 = 0"
  moreover have "show_nat 0 = ''0''" by code_simp
  ultimately show ?thesis unfolding to_fixed_cents by (simp add: pad_digits_def)
qed

lemma price_texts:
  "show_nat 20 = ''20''" "show_nat 30 = ''30''" "show_nat 50 = ''50''" "show_nat 80 = ''80''"
  "show_nat 120 = ''120''" "show_nat 150 = ''150''" "show_nat 250 = ''250''"
  by code_simp+

lemma plan_prices:
  "list_all2 (\<lambda>p q. sp_priceCents q t mod 200 = 0 \<and> ph_price p t = ''$'' @ show_nat (sp_priceCents q t div 100)
     \<and> ph_amount p t = show_nat (sp_priceCents q t div 100) @ ''.00'') PLANS STORAGE_PLANS"
  by (cases t) (simp_all add: PLANS_def STORAGE_PLANS_def per_type_def by_type_def price_texts)

text \<open>The ladder written into the phone is that of the web: same plans, sizes and prices, and the text of a price and the
  amount asked for agree.\<close>

theorem phone_plans_are_web_plans:
  "map (\<lambda>p. (ph_id p, ph_label p, ph_addBytes p)) PLANS = map (\<lambda>p. (sp_id p, sp_label p, sp_addBytes p)) STORAGE_PLANS"
  "list_all2 (\<lambda>p q. ph_price p t = ''$'' @ show_nat (sp_priceCents q t div 100)
     \<and> ph_amount p t = to_fixed 2 (of_nat (sp_priceCents q t) / 100)) PLANS STORAGE_PLANS"
proof -
  show "map (\<lambda>p. (ph_id p, ph_label p, ph_addBytes p)) PLANS = map (\<lambda>p. (sp_id p, sp_label p, sp_addBytes p)) STORAGE_PLANS"
    by (simp add: PLANS_def STORAGE_PLANS_def GB_def)
  have hundred: "c mod 200 = 0 \<Longrightarrow> c mod 100 = 0" for c :: nat by presburger
  show "list_all2 (\<lambda>p q. ph_price p t = ''$'' @ show_nat (sp_priceCents q t div 100)
     \<and> ph_amount p t = to_fixed 2 (of_nat (sp_priceCents q t) / 100)) PLANS STORAGE_PLANS"
    by (rule list_all2_mono [OF plan_prices [of t]]) (simp add: whole_amount hundred)
qed

lemma half_of_even: "half_amount (to_fixed 2 (of_nat (2 * n) / 100)) = to_fixed 2 (of_nat n / 100)"
  using js_round_of_int [of "int n"] by (simp only: half_amount_def parseFloat_to_fixed jsnum.simps) (simp add: field_simps)

text \<open>The deposit for an expansion is exactly one half of the price, for every plan and type.\<close>

theorem phone_deposit_is_half:
  "list_all2 (\<lambda>p q. 2 * (sp_priceCents q t div 2) = sp_priceCents q t
     \<and> half_amount (ph_amount p t) = to_fixed 2 (of_nat (sp_priceCents q t div 2) / 100)) PLANS STORAGE_PLANS"
proof -
  have even: "c mod 200 = 0 \<Longrightarrow> 2 * (c div 2) = c" for c :: nat by presburger
  have hundred: "c mod 200 = 0 \<Longrightarrow> c mod 100 = 0" for c :: nat by presburger
  show ?thesis
  proof (rule list_all2_mono [OF plan_prices [of t]])
    fix p q
    assume q: "sp_priceCents q t mod 200 = 0 \<and> ph_price p t = ''$'' @ show_nat (sp_priceCents q t div 100)
      \<and> ph_amount p t = show_nat (sp_priceCents q t div 100) @ ''.00''"
    then have "ph_amount p t = to_fixed 2 (of_nat (2 * (sp_priceCents q t div 2)) / 100)"
      by (simp only: whole_amount hundred even)
    then have "half_amount (ph_amount p t) = to_fixed 2 (of_nat (sp_priceCents q t div 2) / 100)"
      by (simp only: half_of_even)
    moreover have "2 * (sp_priceCents q t div 2) = sp_priceCents q t" by (rule even) (simp add: q)
    ultimately show "2 * (sp_priceCents q t div 2) = sp_priceCents q t
      \<and> half_amount (ph_amount p t) = to_fixed 2 (of_nat (sp_priceCents q t div 2) / 100)"
      by blast
  qed
qed

definition ping_key :: "phone_server \<Rightarrow> nat option \<Rightarrow> bool" where
  "ping_key a y = (case pv_ping a of None \<Rightarrow> y = None | Some x \<Rightarrow> (case y of None \<Rightarrow> True | Some z \<Rightarrow> x \<le> z))"

definition no_later :: "phone_server \<Rightarrow> phone_server \<Rightarrow> bool" where
  "no_later a b = ping_key a (pv_ping b)"

lemma mset_insert_by: "mset (insert_by cmp x ys) = add_mset x (mset ys)"
  by (induction ys) simp_all

lemma insert_by_ping: "sorted_wrt no_later ys \<Longrightarrow> sorted_wrt no_later (insert_by by_ping x ys)"
proof (induction ys)
  case (Cons y ys)
  have set: "set (insert_by by_ping x ys) = insert x (set ys)"
    using mset_insert_by [of by_ping x ys] by (metis set_mset_add_mset_insert set_mset_mset)
  have le: "by_ping x y \<le> 0 \<Longrightarrow> no_later x y" "\<not> by_ping x y \<le> 0 \<Longrightarrow> no_later y x"
    by (auto simp: by_ping_def no_later_def ping_key_def split: option.splits)
  have trans: "no_later x y \<Longrightarrow> no_later y z \<Longrightarrow> no_later x z" for z
    by (auto simp: no_later_def ping_key_def split: option.splits)
  show ?case using Cons le trans set by auto
qed simp

text \<open>The list of servers is that of the backend with the measured times, those that answered first and the fastest of
  them at the head; the servers that could not be measured come last.\<close>

theorem servers_by_latency:
  "mset (listServersWithPing ping xs) = mset (map (\<lambda>s. s\<lparr>pv_ping := ping s\<rparr>) xs)
   \<and> sorted_wrt no_later (listServersWithPing ping xs)"
proof
  show "mset (listServersWithPing ping xs) = mset (map (\<lambda>s. s\<lparr>pv_ping := ping s\<rparr>) xs)"
    unfolding listServersWithPing_def js_sort_def by (induction xs) (simp_all add: mset_insert_by)
  show "sorted_wrt no_later (listServersWithPing ping xs)"
    unfolding listServersWithPing_def js_sort_def by (induction xs) (simp_all add: insert_by_ping)
qed

section \<open>Purchases\<close>

lemma current_purchase_plan:
  "current_purchase ov s = Some u \<Longrightarrow> pu_plan u \<in> set PLANS \<and> phone_selectedPlan s = Some (pu_plan u) \<and> pu_type u = um_type s"
  by (auto simp: current_purchase_def phone_selectedPlan_def find_Some_iff)

lemma expansion_has_server:
  assumes "current_purchase ov s = Some u"
  shows "pu_expansion u \<noteq> None \<longleftrightarrow> phone_isExpansion ov s"
proof -
  have "phone_isExpansion ov s \<Longrightarrow> um_server s \<noteq> None"
    by (cases "um_server s") (auto simp: phone_isExpansion_def phone_selectedServer_def find_Some_iff split: option.splits)
  with assms show ?thesis by (auto simp: current_purchase_def split: if_splits)
qed

text \<open>What the wallets charge was shown on their sheet: every charge belongs to a sheet that asked for the price of its
  plan, or one half of it for an expansion; and the window never waits for nothing.\<close>

definition charged :: "upgrade_modal \<Rightarrow> wallet \<Rightarrow> purchase \<Rightarrow> bool" where
  "charged s w u \<longleftrightarrow> (w, u, purchase_amount u) \<in> set (um_sheets s)"

definition call_shown :: "upgrade_modal \<Rightarrow> upgrade_call \<Rightarrow> bool" where
  "call_shown s c \<longleftrightarrow>
     (case c of
        WalletStorageOrder w _ _ \<Rightarrow> \<exists>u. charged s w u \<and> wallet_call w u = c
      | WalletExpansionOrder w _ _ _ \<Rightarrow> \<exists>u. charged s w u \<and> wallet_call w u = c
      | _ \<Rightarrow> True)"

definition flight_shown :: "upgrade_modal \<Rightarrow> flight \<Rightarrow> bool" where
  "flight_shown s f \<longleftrightarrow> (case f of WalletSheet w u \<Rightarrow> charged s w u | WalletCharge w u \<Rightarrow> charged s w u | _ \<Rightarrow> True)"

definition upgrade_inv :: "upgrade_modal \<Rightarrow> bool" where
  "upgrade_inv s \<longleftrightarrow> list_all (call_shown s) (um_calls s) \<and> list_all (flight_shown s) (um_flights s)
     \<and> list_all (\<lambda>(w, u, a). pu_plan u \<in> set PLANS \<and> a = purchase_amount u) (um_sheets s)
     \<and> (um_visible s \<and> um_state s \<in> {Processing, Verifying} \<longrightarrow> um_flights s \<noteq> [])"

lemma shown_grows:
  assumes "set (um_sheets s) \<subseteq> set (um_sheets s')"
  shows "call_shown s c \<Longrightarrow> call_shown s' c" "flight_shown s f \<Longrightarrow> flight_shown s' f"
  using assms by (auto simp: call_shown_def flight_shown_def charged_def split: upgrade_call.splits flight.splits)

lemma shown_same:
  "um_sheets s' = um_sheets s \<Longrightarrow> call_shown s' = call_shown s" "um_sheets s' = um_sheets s \<Longrightarrow> flight_shown s' = flight_shown s"
  by (simp_all add: fun_eq_iff call_shown_def flight_shown_def charged_def split: upgrade_call.splits flight.splits)

lemma other_calls_shown [simp]:
  "call_shown s (card_call i u)" "call_shown s (paypal_call u)" "call_shown s (capture_of ex i)"
  by (simp_all add: call_shown_def card_call_def paypal_call_def capture_of_def split: option.split)

lemma wallet_call_shown: "charged s w u \<Longrightarrow> call_shown s (wallet_call w u)"
  by (auto simp: call_shown_def wallet_call_def split: option.split)

text \<open>An event that starts nothing.\<close>

lemma upgrade_inv_quiet:
  assumes "upgrade_inv s" "um_sheets s' = um_sheets s" "um_calls s' = um_calls s" "um_flights s' = um_flights s"
    and "um_visible s' \<and> um_state s' \<in> {Processing, Verifying} \<longrightarrow> um_visible s \<and> um_state s' = um_state s"
  shows "upgrade_inv s'"
  using assms by (auto simp: upgrade_inv_def shown_same [OF assms(2)])

text \<open>One that starts something: it adds a call that need not have been shown, and a flight.\<close>

lemma upgrade_inv_start:
  assumes "upgrade_inv s" "um_sheets s' = um_sheets s" "um_calls s' = um_calls s @ [c]" "call_shown s c"
    and "um_flights s' = um_flights s @ [f]" "flight_shown s f"
  shows "upgrade_inv s'"
  using assms by (simp add: upgrade_inv_def shown_same [OF assms(2)])

lemma press_wallet_inv: "upgrade_inv s \<Longrightarrow> upgrade_inv (press_wallet ov w s)"
proof (cases "current_purchase ov s")
  case (Some u)
  let ?s = "s\<lparr>um_state := Processing, um_flights := um_flights s @ [WalletSheet w u],
       um_sheets := um_sheets s @ [(w, u, purchase_amount u)]\<rparr>"
  assume inv: "upgrade_inv s"
  have "list_all (call_shown ?s) (um_calls s)" "list_all (flight_shown ?s) (um_flights s)"
    using inv shown_grows [of s ?s] by (auto simp: upgrade_inv_def list_all_iff)
  moreover have "flight_shown ?s (WalletSheet w u)" by (simp add: flight_shown_def charged_def)
  ultimately have "upgrade_inv ?s"
    using inv current_purchase_plan [OF Some] by (simp add: upgrade_inv_def)
  with Some show ?thesis by (simp add: press_wallet_def)
qed (simp add: press_wallet_def)

lemma press_paypal_inv: "upgrade_inv s \<Longrightarrow> upgrade_inv (press_paypal ov s)"
  by (cases "current_purchase ov s")
     (auto simp: press_paypal_def flight_shown_def elim!: upgrade_inv_start)

lemma card_approved_inv: "upgrade_inv s \<Longrightarrow> upgrade_inv (card_approved ov i s)"
  by (cases "current_purchase ov s")
     (auto simp: card_approved_def flight_shown_def elim!: upgrade_inv_start)

lemma verify_paypal_inv: "upgrade_inv s \<Longrightarrow> upgrade_inv (verify_paypal ex s)"
  by (cases "um_order s") (auto simp: verify_paypal_def flight_shown_def elim!: upgrade_inv_start)

text \<open>An answer takes its flight away; it leaves the window at rest, or goes on with another flight.\<close>

lemma upgrade_inv_rest:
  assumes "upgrade_inv s" "um_sheets s' = um_sheets s" "um_calls s' = um_calls s"
    and "um_flights s' = take k (um_flights s) @ drop (Suc k) (um_flights s)"
    and "\<not> (um_visible s' \<and> um_state s' \<in> {Processing, Verifying})"
  shows "upgrade_inv s'"
proof -
  have "list_all (flight_shown s) (um_flights s)" using assms(1) by (simp add: upgrade_inv_def)
  then have "list_all (flight_shown s) (take k (um_flights s)) \<and> list_all (flight_shown s) (drop (Suc k) (um_flights s))"
    by (metis append_take_drop_id list_all_append)
  with assms show ?thesis unfolding upgrade_inv_def by (simp add: shown_same [OF assms(2)]) blast
qed

lemma upgrade_inv_onward:
  assumes "upgrade_inv s" "um_sheets s' = um_sheets s" "um_calls s' = um_calls s @ cs" "list_all (call_shown s) cs"
    and "um_flights s' = take k (um_flights s) @ drop (Suc k) (um_flights s) @ [f]" "flight_shown s f"
  shows "upgrade_inv s'"
proof -
  have "list_all (flight_shown s) (um_flights s)" using assms(1) by (simp add: upgrade_inv_def)
  then have "list_all (flight_shown s) (take k (um_flights s)) \<and> list_all (flight_shown s) (drop (Suc k) (um_flights s))"
    by (metis append_take_drop_id list_all_append)
  with assms show ?thesis by (simp add: upgrade_inv_def shown_same [OF assms(2)])
qed

lemma land_inv:
  assumes "upgrade_inv s" "flight_shown s f" "flight_accepts f a"
    and "s' = s\<lparr>um_flights := take k (um_flights s) @ drop (Suc k) (um_flights s)\<rparr>"
  shows "upgrade_inv (land f a s')"
proof (cases a)
  case (AFail c m)
  show ?thesis
    by (rule upgrade_inv_rest [OF assms(1), where k = k]) (simp_all add: AFail assms(4) split: flight.split)
next
  case (AQuota n)
  show ?thesis by (rule upgrade_inv_rest [OF assms(1), where k = k]) (simp_all add: AQuota assms(4))
next
  case (ARequest i e)
  show ?thesis by (rule upgrade_inv_rest [OF assms(1), where k = k]) (simp_all add: ARequest assms(4))
next
  case AOpened
  with assms(3) have f: "f = OrderOpening" by (cases f) simp_all
  show ?thesis by (rule upgrade_inv_rest [OF assms(1), where k = k]) (simp_all add: AOpened f assms(4))
next
  case (AOrder i)
  with assms(3) obtain u where f: "f = OrderCreation u" by (cases f) simp_all
  show ?thesis
    by (rule upgrade_inv_onward [OF assms(1), where k = k and cs = "[]" and f = OrderOpening])
       (simp_all add: AOrder f assms(4) flight_shown_def)
next
  case AToken
  with assms(3) obtain w u where f: "f = WalletSheet w u" by (cases f) simp_all
  show ?thesis
    by (rule upgrade_inv_onward [OF assms(1), where k = k and cs = "[wallet_call w u]" and f = "WalletCharge w u"])
       (use assms(2) wallet_call_shown in \<open>simp_all add: AToken f assms(4) flight_shown_def\<close>)
qed

lemma answer_flight_inv: "upgrade_inv s \<Longrightarrow> upgrade_inv (answer_flight k a s)"
proof -
  assume inv: "upgrade_inv s"
  show ?thesis
  proof (cases "k < length (um_flights s) \<and> flight_accepts (um_flights s ! k) a")
    case True
    then have "flight_shown s (um_flights s ! k)" using inv by (simp add: upgrade_inv_def list_all_length)
    from land_inv [OF inv this conjunct2 [OF True] refl] True show ?thesis by (simp add: answer_flight_def)
  qed (use inv in \<open>simp only: answer_flight_def if_False\<close>)
qed

lemma upgrade_event_inv:
  assumes "upgrade_inv s"
  shows "upgrade_inv (upgrade_event_step ov ev s)"
proof (cases ev)
  case (UAnswer k a)
  then show ?thesis using answer_flight_inv [OF assms] by simp
next
  case (UWallet w)
  then show ?thesis using press_wallet_inv [OF assms] assms by simp
next
  case UPayPal
  then show ?thesis using press_paypal_inv [OF assms] assms by simp
next
  case (UCardMessage m)
  have "upgrade_inv (s\<lparr>um_state := Selecting, um_alerts := al\<rparr>)" for al
    by (rule upgrade_inv_quiet [OF assms]) simp_all
  with UCardMessage show ?thesis using card_approved_inv [OF assms] assms by (simp split: card_message.split)
qed (use assms verify_paypal_inv [OF assms] in
  \<open>auto intro!: upgrade_inv_quiet [OF assms] simp: open_upgrade_def close_upgrade_def servers_answer_def split: sum.split list.split\<close>)

text \<open>However the window is used and whatever the answers are, and in whichever order they come, the wallets are only
  charged what their sheet showed, for a plan of the ladder, and the window is never left waiting for nothing.\<close>

theorem upgrade_charges_shown:
  "upgrade_inv (upgrade_run ov evs blank_upgrade)"
proof -
  have "upgrade_inv (upgrade_step ov ev s)" if "upgrade_inv s" for ev s
  proof -
    have "upgrade_inv (upgrade_event_step ov ev s\<lparr>um_seen := b\<rparr>)" for b
      by (rule upgrade_inv_quiet [OF upgrade_event_inv [OF that, of ov ev]]) auto
    then show ?thesis using upgrade_event_inv [OF that] by (simp add: upgrade_step_def Let_def)
  qed
  then have "upgrade_inv (fold (upgrade_step ov) evs s)" if "upgrade_inv s" for s
    using that by (induction evs arbitrary: s) simp_all
  moreover have "upgrade_inv blank_upgrade" by (simp add: upgrade_inv_def blank_upgrade_def)
  ultimately show ?thesis by (simp add: upgrade_run_def)
qed

section \<open>Direct purchases and expansions\<close>

text \<open>Without the session's override, the note on the card of a plan tells whether choosing it asks for an expansion.\<close>

lemma card_tells_expansion:
  "phone_selectedPlan s = Some p \<Longrightarrow> phone_isExpansion False s \<longleftrightarrow> plan_unavailable p s"
  by (simp add: phone_isExpansion_def plan_unavailable_def split: option.split)

text \<open>While a PayPal checkout is open, with the list of servers closed and not loaded again, nothing changes the kind of the
  purchase, so it is captured as what it was ordered.\<close>

lemma selection_reads [simp]:
  "phone_isExpansion ov (s\<lparr>um_state := x\<rparr>) = phone_isExpansion ov s"
  "phone_isExpansion ov (s\<lparr>um_visible := v\<rparr>) = phone_isExpansion ov s"
  "phone_isExpansion ov (s\<lparr>um_seen := b\<rparr>) = phone_isExpansion ov s"
  by (simp_all add: phone_isExpansion_def phone_selectedPlan_def phone_selectedServer_def phone_typeMismatch_def
      split: option.split)

lemma kind_reads:
  assumes "um_plan s' = um_plan s" "um_type s' = um_type s" "um_server s' = um_server s" "um_servers s' = um_servers s"
  shows "phone_isExpansion ov s' = phone_isExpansion ov s"
  using assms
  by (simp add: phone_isExpansion_def phone_selectedPlan_def phone_selectedServer_def phone_typeMismatch_def split: option.split)

lemma land_keeps:
  "um_plan (land f a s) = um_plan s" "um_type (land f a s) = um_type s" "um_server (land f a s) = um_server s"
  "um_servers (land f a s) = um_servers s" "um_listOpen (land f a s) = um_listOpen s"
  by (cases "(f, a, s)" rule: land.cases; simp)+

theorem open_checkout_keeps_kind:
  assumes "um_state s = Awaiting" "\<not> um_listOpen s" "ev \<noteq> UOpen" "\<And>r. ev \<noteq> UServers r"
  shows "phone_isExpansion ov (upgrade_step ov ev s) = phone_isExpansion ov s \<and> \<not> um_listOpen (upgrade_step ov ev s)"
proof -
  have same: "um_plan (upgrade_event_step ov ev s) = um_plan s \<and> um_type (upgrade_event_step ov ev s) = um_type s
      \<and> um_server (upgrade_event_step ov ev s) = um_server s \<and> um_servers (upgrade_event_step ov ev s) = um_servers s
      \<and> um_listOpen (upgrade_event_step ov ev s) = um_listOpen s"
    using assms
    by (cases ev) (auto simp: close_upgrade_def can_pay_def verify_paypal_def answer_flight_def land_keeps Let_def split: option.split)
  then have "phone_isExpansion ov (upgrade_event_step ov ev s) = phone_isExpansion ov s" by (intro kind_reads) simp_all
  with same assms(2) show ?thesis by (simp add: upgrade_step_def Let_def)
qed

section \<open>Behaviours against the intent\<close>

definition a_server :: "string \<Rightarrow> nat \<Rightarrow> storage_type \<Rightarrow> phone_server" where
  "a_server i free t = \<lparr>pv_id = i, pv_name = i, pv_available = free, pv_drive = t, pv_ping = Some 5\<rparr>"

definition choosing :: "phone_server list \<Rightarrow> upgrade_event list" where
  "choosing xs = [UOpen, UServers (Inr xs), UPlan (hd PLANS)]"

definition TWO :: "phone_server list" where
  "TWO = [a_server ''a'' (1024 ^ 4) Nvme, a_server ''b'' 0 Nvme]"

text \<open>The rows of an open list of servers stay active during a checkout: an order for storage is then captured as one
  for an expansion.\<close>

theorem open_list_changes_capture:
  "um_calls (upgrade_run False (choosing TWO @ [UToggleList, UPayPal, UAnswer 0 (AOrder ''o''), UAnswer 0 AOpened,
       UPickServer ''b'', UVerify]) blank_upgrade)
     = [CreateStorageOrder ''64gb'' Nvme, CaptureExpansionOrder ''o'']"
  by (simp add: upgrade_run_def upgrade_step_def Let_def choosing_def TWO_def a_server_def blank_upgrade_def open_upgrade_def
      servers_answer_def list_shown_def can_pay_def press_paypal_def current_purchase_def phone_selectedPlan_def
      phone_selectedServer_def phone_isExpansion_def phone_typeMismatch_def PLANS_def paypal_call_def answer_flight_def
      verify_paypal_def capture_of_def)

text \<open>Cancelling a checkout hides the window but leaves it waiting: the order is captured when the application comes back
  to the front.\<close>

theorem cancelled_checkout_still_captured:
  assumes "um_state s = Awaiting" "um_order s = Some i" "i \<noteq> []" "um_visible s"
    and "s' = upgrade_run ov [UClose, UAnswerClose True, UForeground] s"
  shows "\<not> um_visible s' \<and> um_calls s' = um_calls s @ [capture_of (um_seen s) i]"
  using assms by (simp add: upgrade_run_def upgrade_step_def Let_def close_upgrade_def verify_paypal_def)

text \<open>A capture that fails after its window was closed and opened again makes the new window wait for an order it does not
  have: neither the button nor coming back does anything.\<close>

theorem late_failure_strands_window:
  assumes "um_flights s = [OrderCapture ex]"
    and "s' = upgrade_run ov [UOpen, UAnswer 0 (AFail c m)] s"
  shows "um_visible s' \<and> um_state s' = Awaiting \<and> upgrade_step ov UVerify s' = s' \<and> upgrade_step ov UForeground s' = s'"
  using assms
  by (simp add: upgrade_run_def upgrade_step_def Let_def open_upgrade_def answer_flight_def verify_paypal_def mark_of_def)

text \<open>A server with both tiers is listed in two rows of the same id. Picking the second selects the first: its tier cannot
  be bought, every plan of it asks for an expansion however much room it has.\<close>

theorem second_tier_unreachable:
  assumes "um_servers s = [a_server i free Hdd, a_server i room Nvme]" "list_shown s" "um_listOpen s" "um_type s = Nvme"
    and "phone_selectedPlan s = Some p" "s' = upgrade_step ov (UPickServer i) s"
  shows "phone_selectedServer s' = Some (a_server i free Hdd) \<and> phone_isExpansion ov s'"
proof -
  let ?s = "s\<lparr>um_server := Some i, um_listOpen := False\<rparr>"
  have "upgrade_event_step ov (UPickServer i) s = ?s" using assms(1-3) by (simp add: a_server_def)
  then have "s' = ?s \<or> s' = ?s\<lparr>um_seen := phone_isExpansion ov ?s\<rparr>" by (simp add: assms(6) upgrade_step_def Let_def)
  with assms(1, 4, 5) show ?thesis
    by (auto simp: phone_selectedServer_def phone_selectedPlan_def phone_isExpansion_def phone_typeMismatch_def a_server_def)
qed

text \<open>The server chosen is not sent with a direct purchase: the same calls are made whichever it is.\<close>

theorem server_choice_not_sent:
  assumes "\<not> phone_isExpansion ov s" "\<not> phone_isExpansion ov (s\<lparr>um_server := v\<rparr>)"
  shows "current_purchase ov (s\<lparr>um_server := v\<rparr>) = current_purchase ov s"
  using assms by (simp add: current_purchase_def phone_selectedPlan_def)

end
