(* ===== verification/JsGroups.thy ===== *)
theory JsGroups
  imports SortView
begin

text \<open>
  Grouping a list by a key in a JavaScript \<open>Map\<close>, which lists its keys in the order they were first set, as
  \<open>SyncPreviewModal.tsx\<close> and \<open>MediaGallery.tsx\<close> do with the days and months of their pictures. Shared by both.
\<close>

fun add_group :: "('a \<Rightarrow> 'k) \<Rightarrow> 'a \<Rightarrow> ('k \<times> 'a list) list \<Rightarrow> ('k \<times> 'a list) list" where
  "add_group key x [] = [(key x, [x])]"
| "add_group key x ((k, ys) # gs) = (if key x = k then (k, ys @ [x]) # gs else (k, ys) # add_group key x gs)"

definition js_groups :: "('a \<Rightarrow> 'k) \<Rightarrow> 'a list \<Rightarrow> ('k \<times> 'a list) list" where
  "js_groups key xs = foldl (\<lambda>gs x. add_group key x gs) [] xs"

lemma js_groups_snoc [simp]: "js_groups key (xs @ [x]) = add_group key x (js_groups key xs)" "js_groups key [] = []"
  by (simp_all add: js_groups_def)

lemma add_group_mset: "mset (concat (map snd (add_group key x gs))) = add_mset x (mset (concat (map snd gs)))"
  by (induction gs rule: add_group.induct) auto

lemma js_groups_mset: "mset (concat (map snd (js_groups key xs))) = mset xs"
  by (induction xs rule: rev_induct) (simp_all add: add_group_mset)

lemma add_group_keys:
  "map fst (add_group key x gs) = (if key x \<in> fst ` set gs then map fst gs else map fst gs @ [key x])"
  by (induction gs rule: add_group.induct) auto

definition groups_ok :: "('a \<Rightarrow> 'k) \<Rightarrow> ('k \<times> 'a list) list \<Rightarrow> bool" where
  "groups_ok key gs \<longleftrightarrow> distinct (map fst gs) \<and> list_all (\<lambda>(k, ys). ys \<noteq> [] \<and> list_all (\<lambda>y. key y = k) ys) gs"

lemma add_group_members:
  "list_all (\<lambda>(k, ys). ys \<noteq> [] \<and> list_all (\<lambda>y. key y = k) ys) gs \<Longrightarrow>
     list_all (\<lambda>(k, ys). ys \<noteq> [] \<and> list_all (\<lambda>y. key y = k) ys) (add_group key x gs)"
  by (induction key x gs rule: add_group.induct) auto

lemma js_groups_ok: "groups_ok key (js_groups key xs)"
proof (induction xs rule: rev_induct)
  case (snoc x xs)
  then show ?case by (auto simp: groups_ok_def add_group_keys add_group_members)
qed (simp add: groups_ok_def)

text \<open>When the keys never grow along the list the groups, read in sequence, are the list itself.\<close>

lemma add_group_last:
  "list_all (\<lambda>(k, ys). key x \<noteq> k) gs \<Longrightarrow> add_group key x gs = gs @ [(key x, [x])]"
  by (induction gs) auto

lemma js_groups_in_order:
  fixes key :: "'a \<Rightarrow> 'k::linorder"
  shows "sorted (rev (map key xs)) \<Longrightarrow>
     concat (map snd (js_groups key xs)) = xs \<and> sorted_wrt (>) (map fst (js_groups key xs))
     \<and> (xs \<noteq> [] \<longrightarrow> js_groups key xs \<noteq> [] \<and> fst (last (js_groups key xs)) = key (last xs))"
proof (induction xs rule: rev_induct)
  case (snoc x xs)
  then have ih: "concat (map snd (js_groups key xs)) = xs" "sorted_wrt (>) (map fst (js_groups key xs))"
      "xs \<noteq> [] \<longrightarrow> js_groups key xs \<noteq> [] \<and> fst (last (js_groups key xs)) = key (last xs)"
    and le: "\<forall>y \<in> set xs. key x \<le> key y" by auto
  show ?case
  proof (cases "xs = []")
    case False
    obtain gs k ys where gs: "js_groups key xs = gs @ [(k, ys)]" "k = key (last xs)"
      using ih(3) False by (metis append_butlast_last_id prod.collapse)
    have gt: "list_all (\<lambda>(k', ys). k' > k) gs" using ih(2) gs(1) by (auto simp: sorted_wrt_append list_all_iff)
    have xk: "key x \<le> k" using le False gs(2) by simp
    have skip: "add_group key x (gs @ hs) = gs @ add_group key x hs" for hs
      using gt xk by (induction gs) auto
    show ?thesis
    proof (cases "key x = k")
      case True
      then show ?thesis using ih(1, 2) by (simp add: gs(1) skip)
    next
      case False
      with xk gt ih(1, 2) show ?thesis
        by (auto simp: gs(1) skip sorted_wrt_append list_all_iff)
    qed
  qed (simp add: js_groups_def)
qed simp

end
