(* ===== verification/SyncPreview.thy ===== *)
theory SyncPreview
  imports SyncService JsGroups Decimals
begin

text \<open>
  What is shown before photos are synchronised, \<open>mobile/src/components/SyncPreviewModal.tsx\<close>: the selection by row, day and
  all at once, the limit a backup may reach with its slider and its cap of three quarters of the quota, the bar, the days
  and the texts. The local calendar is a parameter. Sizes and ratios are exact, where the code computes with doubles.
\<close>

section \<open>Texts\<close>

definition ASSUMED_BYTES_PER_SEC :: rat where "ASSUMED_BYTES_PER_SEC = (5 * 1000000) / 8"
definition SOFT_CAP :: rat where "SOFT_CAP = 3 / 4"
definition QUOTA_PCT :: rat where "QUOTA_PCT = 100 / (1 + 1 / 10)"
definition OVERFLOW_ZONE_PCT :: rat where "OVERFLOW_ZONE_PCT = 100 - QUOTA_PCT"

definition formatUploadEta :: "nat \<Rightarrow> string" where
  "formatUploadEta bytes =
     (let secs = nat \<lceil>of_nat bytes / ASSUMED_BYTES_PER_SEC\<rceil>
      in if secs < 60 then ''~'' @ show_nat secs @ ''s''
         else let m = nat (js_round (of_nat secs / 60))
              in if m < 60 then ''~'' @ show_nat m @ '' min''
                 else let h = m div 60; rem = m mod 60
                      in if 0 < rem then ''~'' @ show_nat h @ ''h '' @ show_nat rem @ ''m'' else ''~'' @ show_nat h @ ''h'')"

definition preview_bytes :: "rat \<Rightarrow> string" where
  "preview_bytes b =
     (if b < 1024 ^ 2 then to_fixed 0 (b / 1024) @ '' KB''
      else if b < 1024 ^ 3 then to_fixed 1 (b / 1024 / 1024) @ '' MB''
      else to_fixed 2 (b / 1024 / 1024 / 1024) @ '' GB'')"

text \<open>\<open>midnight d\<close> is the time at which the local day \<open>d\<close> begins.\<close>

datatype day_label = TodayLabel | YesterdayLabel | DateLabel int

definition dayLabel :: "(int \<Rightarrow> int) \<Rightarrow> int \<Rightarrow> int \<Rightarrow> day_label" where
  "dayLabel midnight now_day d =
     (if midnight d = midnight now_day then TodayLabel
      else if midnight d = midnight now_day - 86400000 then YesterdayLabel
      else DateLabel d)"

section \<open>The window\<close>

record sync_preview =
  syv_visible :: bool
  syv_items :: "preview_item list"
  syv_quota :: nat
  syv_used :: nat
  syv_selected :: "string set"
  syv_limit :: rat
  syv_override :: bool
  syv_bySize :: bool
  syv_nav :: "int option"
  syv_taps :: "int \<rightharpoonup> nat"
  syv_upgrade :: bool
  syv_asking :: "rat list"    \<comment> \<open>the questions open, each with the ratio it asks for\<close>
  syv_confirmed :: "preview_item list option"

definition blank_preview :: sync_preview where
  "blank_preview = \<lparr>syv_visible = False, syv_items = [], syv_quota = 0, syv_used = 0, syv_selected = {}, syv_limit = 0,
     syv_override = False, syv_bySize = False, syv_nav = None, syv_taps = Map.empty, syv_upgrade = False,
     syv_asking = [], syv_confirmed = None\<rparr>"

definition selectedItems :: "sync_preview \<Rightarrow> preview_item list" where
  "selectedItems s = filter (\<lambda>i. pi_uri i \<in> syv_selected s) (syv_items s)"

definition selectedBytes :: "sync_preview \<Rightarrow> nat" where
  "selectedBytes s = sum_list (map pi_sizeBytes (selectedItems s))"

definition projectedUsed :: "sync_preview \<Rightarrow> nat" where
  "projectedUsed s = syv_used s + selectedBytes s"

definition isOverLimit :: "sync_preview \<Rightarrow> bool" where
  "isOverLimit s \<longleftrightarrow> 0 < syv_quota s \<and> syv_limit s < of_nat (projectedUsed s)"

definition preview_overQuota :: "sync_preview \<Rightarrow> bool" where
  "preview_overQuota s \<longleftrightarrow> 0 < syv_quota s \<and> syv_quota s < projectedUsed s"

definition canProceed :: "sync_preview \<Rightarrow> bool" where
  "canProceed s \<longleftrightarrow> \<not> isOverLimit s \<and> selectedItems s \<noteq> []"

definition preview_allSelected :: "sync_preview \<Rightarrow> bool" where
  "preview_allSelected s \<longleftrightarrow> card (syv_selected s) = length (syv_items s)"

text \<open>The effect on the quota, the space used and the override.\<close>

definition reset_limit :: "sync_preview \<Rightarrow> sync_preview" where
  "reset_limit s =
     (if syv_quota s = 0 then s
      else s\<lparr>syv_limit := (if syv_override s then of_nat (syv_quota s)
                           else max (of_nat (syv_quota s) * SOFT_CAP) (of_nat (syv_used s)))\<rparr>)"

section \<open>The bar\<close>

definition qToTrack :: "rat \<Rightarrow> rat" where "qToTrack r = min r 1 * QUOTA_PCT"

definition per_quota :: "sync_preview \<Rightarrow> rat \<Rightarrow> rat" where
  "per_quota s x = (if 0 < syv_quota s then x / of_nat (syv_quota s) else 0)"

definition usedTrackPct :: "sync_preview \<Rightarrow> rat" where
  "usedTrackPct s = qToTrack (per_quota s (of_nat (syv_used s)))"

definition pendingTrackPct :: "sync_preview \<Rightarrow> rat" where
  "pendingTrackPct s =
     (let usedRatio = per_quota s (of_nat (syv_used s))
      in if preview_overQuota s then qToTrack (1 - usedRatio)
         else qToTrack (min (per_quota s (of_nat (selectedBytes s))) (1 - usedRatio)))"

definition overflowTrackPct :: "sync_preview \<Rightarrow> rat" where
  "overflowTrackPct s =
     (if preview_overQuota s
      then min ((of_nat (projectedUsed s) - of_nat (syv_quota s)) / of_nat (syv_quota s)) (1 / 10) else 0) * QUOTA_PCT"

definition limitTrackPct :: "sync_preview \<Rightarrow> rat" where
  "limitTrackPct s =
     qToTrack (if 0 < syv_quota s then min (syv_limit s / of_nat (syv_quota s)) 1 else SOFT_CAP)"

section \<open>The slider\<close>

text \<open>The ratio of the quota that a touch at \<open>pageX\<close> means, on a track that begins at \<open>sx\<close> and is \<open>sw\<close> wide.\<close>

definition quotaRatio :: "rat \<Rightarrow> rat \<Rightarrow> rat \<Rightarrow> rat" where
  "quotaRatio pageX sx sw = min (max 0 (min 1 ((pageX - sx) / sw)) / (QUOTA_PCT / 100)) 1"

definition chosen_limit :: "rat \<Rightarrow> nat \<Rightarrow> rat" where
  "chosen_limit r quota = of_int (js_round (r * of_nat quota))"

definition handleSliderMove :: "rat \<Rightarrow> sync_preview \<Rightarrow> sync_preview" where
  "handleSliderMove r s =
     (if SOFT_CAP < r \<and> \<not> syv_override s then s\<lparr>syv_asking := syv_asking s @ [r]\<rparr>
      else s\<lparr>syv_limit := chosen_limit (min r 1) (syv_quota s)\<rparr>)"

section \<open>The days\<close>

definition newest_first :: "preview_item \<Rightarrow> preview_item \<Rightarrow> int" where
  "newest_first a b = pi_takenAt b - pi_takenAt a"

definition dateSections :: "(int \<Rightarrow> int) \<Rightarrow> preview_item list \<Rightarrow> (int \<times> preview_item list) list" where
  "dateSections day items = js_groups (\<lambda>i. day (pi_takenAt i)) (js_sort newest_first items)"

definition largest_first :: "preview_item \<Rightarrow> preview_item \<Rightarrow> int" where
  "largest_first a b = int (pi_sizeBytes b) - int (pi_sizeBytes a)"

definition sizeSorted :: "preview_item list \<Rightarrow> preview_item list" where
  "sizeSorted items = js_sort largest_first items"

definition selectGroup :: "preview_item list \<Rightarrow> bool \<Rightarrow> sync_preview \<Rightarrow> sync_preview" where
  "selectGroup xs sel s =
     s\<lparr>syv_selected := (if sel then syv_selected s \<union> pi_uri ` set xs else syv_selected s - pi_uri ` set xs)\<rparr>"

text \<open>Two taps on a heading within 350 ms select or clear its day.\<close>

definition handleSectionHeaderPress :: "nat \<Rightarrow> int \<Rightarrow> preview_item list \<Rightarrow> sync_preview \<Rightarrow> sync_preview" where
  "handleSectionHeaderPress now key xs s =
     (let last_tap = (case syv_taps s key of None \<Rightarrow> 0 | Some t \<Rightarrow> t);
          s1 = s\<lparr>syv_taps := (syv_taps s)(key \<mapsto> now)\<rparr>
      in if int now - int last_tap < 350
         then selectGroup xs (\<not> list_all (\<lambda>i. pi_uri i \<in> syv_selected s) xs) s1 else s1)"

section \<open>Steps\<close>

datatype preview_event =
    PvOpen "preview_item list"
  | PvProps nat nat          \<comment> \<open>quota and space used\<close>
  | PvToggle string
  | PvAll
  | PvHeading nat int "preview_item list"
  | PvSort bool
  | PvNav int
  | PvSlide rat rat rat      \<comment> \<open>the touch, where the track begins and its width\<close>
  | PvAnswer bool            \<comment> \<open>of the question asked first\<close>
  | PvCap
  | PvUpgrade
  | PvPurchased
  | PvConfirm
  | PvCancel

fun preview_event_step :: "preview_event \<Rightarrow> sync_preview \<Rightarrow> sync_preview" where
  "preview_event_step (PvOpen xs) s =
     s\<lparr>syv_visible := True, syv_items := xs, syv_selected := pi_uri ` set xs, syv_override := False,
       syv_upgrade := False, syv_nav := None, syv_confirmed := None\<rparr>"
| "preview_event_step (PvProps q u) s = s\<lparr>syv_quota := q, syv_used := u\<rparr>"
| "preview_event_step (PvToggle uri) s =
     s\<lparr>syv_selected := (if uri \<in> syv_selected s then syv_selected s - {uri} else insert uri (syv_selected s))\<rparr>"
| "preview_event_step PvAll s =
     s\<lparr>syv_selected := (if preview_allSelected s then {} else pi_uri ` set (syv_items s))\<rparr>"
| "preview_event_step (PvHeading now key xs) s = handleSectionHeaderPress now key xs s"
| "preview_event_step (PvSort b) s = s\<lparr>syv_bySize := b\<rparr>"
| "preview_event_step (PvNav k) s = s\<lparr>syv_nav := Some k\<rparr>"
| "preview_event_step (PvSlide x sx sw) s = (if 0 < syv_quota s then handleSliderMove (quotaRatio x sx sw) s else s)"
| "preview_event_step (PvAnswer yes) s =
     (case syv_asking s of
        [] \<Rightarrow> s
      | r # rs \<Rightarrow> if yes then s\<lparr>syv_asking := rs, syv_override := True, syv_limit := chosen_limit r (syv_quota s)\<rparr>
                  else s\<lparr>syv_asking := rs\<rparr>)"
| "preview_event_step PvCap s = (if 0 < syv_quota s then s\<lparr>syv_override := \<not> syv_override s\<rparr> else s)"
| "preview_event_step PvUpgrade s = (if preview_overQuota s then s\<lparr>syv_upgrade := True\<rparr> else s)"
| "preview_event_step PvPurchased s = s\<lparr>syv_upgrade := False\<rparr>"
| "preview_event_step PvConfirm s = (if canProceed s then s\<lparr>syv_confirmed := Some (selectedItems s)\<rparr> else s)"
| "preview_event_step PvCancel s = s\<lparr>syv_visible := False\<rparr>"

definition limit_reads :: "sync_preview \<Rightarrow> nat \<times> nat \<times> bool" where
  "limit_reads s = (syv_quota s, syv_used s, syv_override s)"

definition preview_step :: "preview_event \<Rightarrow> sync_preview \<Rightarrow> sync_preview" where
  "preview_step ev s =
     (let s' = preview_event_step ev s in if limit_reads s' = limit_reads s then s' else reset_limit s')"

definition preview_run :: "preview_event list \<Rightarrow> sync_preview \<Rightarrow> sync_preview" where
  "preview_run es s = fold preview_step es s"

section \<open>Properties\<close>

text \<open>The days hold every picture exactly once. When days follow one another in time, they are listed from the latest to
  the earliest and, read in sequence, are the pictures from the newest to the oldest.\<close>

interpretation pics: ranked_down newest_first pi_takenAt UNIV
  by unfold_locales (simp add: newest_first_def)

interpretation sizes: ranked_down largest_first pi_sizeBytes UNIV
  by unfold_locales (simp add: largest_first_def)

theorem days_show_every_picture:
  "mset (concat (map snd (dateSections day items))) = mset items \<and> groups_ok (\<lambda>i. day (pi_takenAt i)) (dateSections day items)"
  using pics.js_sort_down [of items] by (simp add: dateSections_def js_groups_mset js_groups_ok)

theorem days_in_order:
  assumes "mono day"
  shows "concat (map snd (dateSections day items)) = rev (sort_key pi_takenAt (rev items))"
    "sorted_wrt (>) (map fst (dateSections day items))"
proof -
  have "sorted (map pi_takenAt (rev (js_sort newest_first items)))"
    using pics.js_sort_down [of items] by (simp add: rev_map)
  then have "sorted (map (\<lambda>i. day (pi_takenAt i)) (rev (js_sort newest_first items)))"
    using assms by (auto simp: sorted_map monoD elim!: sorted_wrt_mono_rel [rotated])
  then have "sorted (rev (map (\<lambda>i. day (pi_takenAt i)) (js_sort newest_first items)))" by (simp add: rev_map)
  from js_groups_in_order [OF this]
  show "concat (map snd (dateSections day items)) = rev (sort_key pi_takenAt (rev items))"
    "sorted_wrt (>) (map fst (dateSections day items))"
    using pics.js_sort_key [of items] by (simp_all add: dateSections_def)
qed

text \<open>The limit never exceeds what is larger of the quota and the space already used, and a selection is only confirmed
  when it stays within it: what is backed up fits the quota, or nothing with a size is.\<close>

definition preview_inv :: "sync_preview \<Rightarrow> bool" where
  "preview_inv s \<longleftrightarrow> (0 < syv_quota s \<longrightarrow> syv_limit s \<le> of_nat (max (syv_quota s) (syv_used s)))
     \<and> list_all (\<lambda>r. r \<le> 1) (syv_asking s)"

lemma SOFT_CAP_le: "of_nat q * SOFT_CAP \<le> (of_nat q :: rat)"
  by (simp add: SOFT_CAP_def)

lemma reset_limit_inv: "list_all (\<lambda>r. r \<le> 1) (syv_asking s) \<Longrightarrow> preview_inv (reset_limit s)"
proof -
  have "of_nat (syv_quota s) * SOFT_CAP \<le> (of_nat (max (syv_quota s) (syv_used s)) :: rat)"
    using SOFT_CAP_le [of "syv_quota s"] by (rule order_trans) simp
  then show "list_all (\<lambda>r. r \<le> 1) (syv_asking s) \<Longrightarrow> ?thesis" by (simp add: preview_inv_def reset_limit_def)
qed

lemma chosen_limit_le: "r \<le> 1 \<Longrightarrow> chosen_limit r q \<le> of_nat (max q u)"
proof -
  assume "r \<le> 1"
  then have "r * of_nat q \<le> of_int (int q)" using mult_right_mono [of r 1 "of_nat q"] by simp
  from js_round_mono [OF this] have "js_round (r * of_nat q) \<le> int q" by (simp only: js_round_of_int)
  then have "chosen_limit r q \<le> of_int (int q)" unfolding chosen_limit_def by (simp only: of_int_le_iff)
  also have "\<dots> \<le> of_nat (max q u)" by simp
  finally show ?thesis .
qed

lemma quotaRatio_le: "quotaRatio x sx sw \<le> 1"
  by (simp add: quotaRatio_def)

lemma preview_event_asking:
  "list_all (\<lambda>r. r \<le> 1) (syv_asking s) \<Longrightarrow> list_all (\<lambda>r. r \<le> 1) (syv_asking (preview_event_step ev s))"
  by (cases ev) (auto simp: handleSliderMove_def handleSectionHeaderPress_def selectGroup_def quotaRatio_le Let_def split: list.split)

lemma preview_step_inv:
  assumes "preview_inv s"
  shows "preview_inv (preview_step ev s)"
proof (cases "limit_reads (preview_event_step ev s) = limit_reads s")
  case True
  have asking: "list_all (\<lambda>r. r \<le> 1) (syv_asking s)" using assms by (simp add: preview_inv_def)
  have "syv_limit (preview_event_step ev s) = syv_limit s
      \<or> syv_limit (preview_event_step ev s) \<le> of_nat (max (syv_quota s) (syv_used s))"
    using asking
    by (cases ev) (auto simp: handleSliderMove_def handleSectionHeaderPress_def selectGroup_def Let_def chosen_limit_le split: list.split)
  with True assms preview_event_asking [OF asking, of ev] show ?thesis
    by (auto simp: preview_step_def Let_def preview_inv_def limit_reads_def)
next
  case False
  then show ?thesis using assms preview_event_asking [of s ev]
    by (simp add: preview_step_def Let_def reset_limit_inv preview_inv_def [of s])
qed

theorem confirmed_selection_fits:
  assumes "s = preview_run evs blank_preview" "s' = preview_step PvConfirm s" "syv_confirmed s' \<noteq> syv_confirmed s"
  shows "syv_confirmed s' = Some (selectedItems s) \<and> selectedItems s \<noteq> []
    \<and> (0 < syv_quota s \<longrightarrow> projectedUsed s \<le> max (syv_quota s) (syv_used s))"
proof -
  have "preview_inv (fold preview_step evs x)" if "preview_inv x" for x
    using that by (induction evs arbitrary: x) (simp_all add: preview_step_inv)
  then have inv: "preview_inv s" by (simp add: assms(1) preview_run_def preview_inv_def blank_preview_def)
  from assms(2, 3) have go: "canProceed s" "syv_confirmed s' = Some (selectedItems s)"
    by (auto simp: preview_step_def Let_def limit_reads_def split: if_splits)
  have "projectedUsed s \<le> max (syv_quota s) (syv_used s)" if "0 < syv_quota s"
  proof -
    have "of_nat (projectedUsed s) \<le> syv_limit s" using go(1) that by (simp add: canProceed_def isOverLimit_def not_less)
    also have "\<dots> \<le> of_nat (max (syv_quota s) (syv_used s))" using inv that by (simp add: preview_inv_def)
    finally show ?thesis by (simp only: of_nat_le_iff)
  qed
  with go show ?thesis by (simp add: canProceed_def)
qed

text \<open>The parts of the bar stay in their zones as long as the space used does not exceed the quota.\<close>

theorem preview_bar_fits:
  assumes "0 < syv_quota s" "syv_used s \<le> syv_quota s"
  shows "0 \<le> usedTrackPct s \<and> 0 \<le> pendingTrackPct s \<and> usedTrackPct s + pendingTrackPct s \<le> QUOTA_PCT
    \<and> 0 \<le> overflowTrackPct s \<and> overflowTrackPct s \<le> OVERFLOW_ZONE_PCT"
proof -
  let ?u = "per_quota s (of_nat (syv_used s))" and ?p = "per_quota s (of_nat (selectedBytes s))"
  have u: "0 \<le> ?u" "?u \<le> 1" using assms by (simp_all add: per_quota_def)
  have p: "0 \<le> ?p" by (simp add: per_quota_def)
  have split: "qToTrack x + qToTrack y \<le> QUOTA_PCT" if "0 \<le> x" "0 \<le> y" "x + y \<le> 1" for x y
    using that mult_right_mono [OF that(3), of QUOTA_PCT] by (simp add: qToTrack_def QUOTA_PCT_def min_def distrib_right)
  have pos: "0 \<le> qToTrack x" if "0 \<le> x" for x using that by (simp add: qToTrack_def QUOTA_PCT_def)
  have bar: "usedTrackPct s + pendingTrackPct s \<le> QUOTA_PCT"
    unfolding usedTrackPct_def pendingTrackPct_def Let_def
    using split [of ?u "1 - ?u"] split [of ?u "min ?p (1 - ?u)"] u p by simp
  have pend: "0 \<le> pendingTrackPct s"
    unfolding pendingTrackPct_def Let_def using pos [of "1 - ?u"] pos [of "min ?p (1 - ?u)"] u p by simp
  have over: "0 \<le> overflowTrackPct s" using assms by (auto simp: overflowTrackPct_def preview_overQuota_def QUOTA_PCT_def)
  have "(if preview_overQuota s
      then min ((of_nat (projectedUsed s) - of_nat (syv_quota s)) / of_nat (syv_quota s)) (1 / 10) else 0) \<le> (1 / 10 :: rat)"
    by (rule if_split [THEN iffD2]) (intro conjI impI min.cobounded2, simp)
  from mult_right_mono [OF this, of QUOTA_PCT]
  have "overflowTrackPct s \<le> 1 / 10 * QUOTA_PCT" unfolding overflowTrackPct_def by (simp add: QUOTA_PCT_def)
  then have "overflowTrackPct s \<le> OVERFLOW_ZONE_PCT" by (simp add: QUOTA_PCT_def OVERFLOW_ZONE_PCT_def)
  with bar pend over pos [OF u(1)] show ?thesis by (simp add: usedTrackPct_def)
qed

section \<open>Behaviours against the intent\<close>

text \<open>Allowing the slider to pass the cap forgets where it was dragged to: the limit becomes the whole quota.\<close>

theorem override_forgets_chosen_limit:
  assumes "0 < syv_quota s" "\<not> syv_override s" "syv_asking s = [r]"
  shows "syv_limit (preview_step (PvAnswer True) s) = of_nat (syv_quota s)"
  using assms by (simp add: preview_step_def Let_def limit_reads_def reset_limit_def)

text \<open>Dragging past the cap asks again with every move.\<close>

theorem every_move_asks:
  assumes "0 < syv_quota s" "\<not> syv_override s" "list_all (\<lambda>(x, sx, sw). SOFT_CAP < quotaRatio x sx sw) moves"
  shows "length (syv_asking (preview_run (map (\<lambda>(x, sx, sw). PvSlide x sx sw) moves) s)) = length (syv_asking s) + length moves"
  using assms
proof (induction moves arbitrary: s)
  case (Cons m moves)
  obtain x sx sw where m: "m = (x, sx, sw)" by (cases m)
  let ?s = "s\<lparr>syv_asking := syv_asking s @ [quotaRatio x sx sw]\<rparr>"
  have "preview_step (PvSlide x sx sw) s = ?s"
    using Cons.prems m by (simp add: preview_step_def Let_def handleSliderMove_def limit_reads_def)
  with Cons.IH [of ?s] Cons.prems m show ?case by (simp add: preview_run_def)
qed (simp add: preview_run_def)

text \<open>\<open>Yesterday\<close> is found by going back 24 hours from midnight: after a day on which the clocks were changed the
  pictures of the day before are not called so.\<close>

theorem changed_clocks_hide_yesterday:
  assumes "midnight d < midnight t" "midnight t - midnight d \<noteq> 86400000"
  shows "dayLabel midnight t d = DateLabel d"
  using assms by (simp add: dayLabel_def)

text \<open>A picture listed twice is counted twice, so the button stays \<open>All\<close> and never deselects.\<close>

lemma duplicate_never_all:
  "\<not> distinct (map pi_uri (syv_items s)) \<Longrightarrow> syv_selected s \<subseteq> pi_uri ` set (syv_items s) \<Longrightarrow> \<not> preview_allSelected s"
proof -
  assume d: "\<not> distinct (map pi_uri (syv_items s))" and sub: "syv_selected s \<subseteq> pi_uri ` set (syv_items s)"
  have "card (pi_uri ` set (syv_items s)) < length (map pi_uri (syv_items s))"
    using d card_length [of "map pi_uri (syv_items s)"] card_distinct [of "map pi_uri (syv_items s)"] by (simp add: nat_less_le) blast
  moreover have "card (syv_selected s) \<le> card (pi_uri ` set (syv_items s))" using sub by (simp add: card_mono)
  ultimately show ?thesis by (simp add: preview_allSelected_def)
qed

end
