(* ===== verification/PhoneFiles.thy ===== *)
theory PhoneFiles
  imports Decimals
begin

text \<open>
  The files screen of the phone, \<open>mobile/src/screens/FilesScreen.tsx\<close>, with the calls of \<open>api/files.ts\<close> and
  \<open>api/recognition.ts\<close> it makes: the path into the folders and the listing, the search, creating, uploading, deleting.
  A call and its answer are two events; a listing remembers the folder it was asked for, a search its text, so that
  answers may arrive in any order.
\<close>

section \<open>Data\<close>

record api_folder =
  af_id :: string
  af_parent :: "string option"
  af_name :: string
  af_media :: bool
  af_recognition :: bool

record api_file =
  fi_id :: string
  fi_name :: string
  fi_mime :: string
  fi_size :: nat

record folder_contents =
  fc_folder :: "api_folder option"
  fc_subfolders :: "api_folder list"
  fc_files :: "api_file list"

record group_hit =
  gh_id :: string
  gh_collection :: string
  gh_collectionName :: string
  gh_label :: string
  gh_fileCount :: nat

definition file_bytes :: "nat \<Rightarrow> string" where
  "file_bytes b =
     (if b < 1024 then show_nat b @ '' B''
      else if b < 1024 * 1024 then to_fixed 1 (of_nat b / 1024) @ '' KB''
      else if b < 1024 ^ 2 * 1024 then to_fixed 1 (of_nat b / 1024 / 1024) @ '' MB''
      else to_fixed 2 (of_nat b / 1024 / 1024 / 1024) @ '' GB'')"

datatype mime_icon = PictureIcon | FilmIcon | SoundIcon | PaperIcon

definition phone_mimeIcon :: "string \<Rightarrow> mime_icon" where
  "phone_mimeIcon t =
     (if starts_with ''image/'' t then PictureIcon else if starts_with ''video/'' t then FilmIcon
      else if starts_with ''audio/'' t then SoundIcon else PaperIcon)"

section \<open>The screen\<close>

datatype files_call =
    FListing "string option"
  | FSearch string
  | FCreate string "string option" bool     \<comment> \<open>name, parent, media\<close>
  | FUpload "string option"
  | FDelete string
  | FFavorite string
  | FDownload string

record files_screen =
  fs_folder :: "api_folder option"
  fs_subfolders :: "api_folder list"
  fs_files :: "api_file list"
  fs_crumbs :: "(string \<times> string) list"    \<comment> \<open>id and name\<close>
  fs_loading :: bool
  fs_uploading :: bool
  fs_error :: "string option"
  fs_settings :: bool
  fs_groups :: "(string \<times> string option) option"
  fs_query :: string
  fs_results :: "(api_file list \<times> group_hit list) option"
  fs_searching :: bool
  fs_timer :: bool                     \<comment> \<open>the search waiting for its 300 ms\<close>
  fs_cols :: nat
  fs_createOpen :: bool
  fs_createMedia :: bool
  fs_createName :: string
  fs_creating :: bool
  fs_calls :: "files_call list"
  fs_alerts :: "(string \<times> string) list"

definition currentFolderID :: "files_screen \<Rightarrow> string option" where
  "currentFolderID s = (if fs_crumbs s = [] then None else Some (fst (last (fs_crumbs s))))"

definition isAtRoot :: "files_screen \<Rightarrow> bool" where "isAtRoot s \<longleftrightarrow> fs_crumbs s = []"

definition isMediaFolder :: "files_screen \<Rightarrow> bool" where
  "isMediaFolder s \<longleftrightarrow> (case fs_folder s of None \<Rightarrow> False | Some f \<Rightarrow> af_media f)"

definition folder_has_parent :: "api_folder \<Rightarrow> bool" where
  "folder_has_parent f \<longleftrightarrow> (case af_parent f of None \<Rightarrow> False | Some p \<Rightarrow> p \<noteq> [])"

definition isInsideMediaCollection :: "files_screen \<Rightarrow> bool" where
  "isInsideMediaCollection s \<longleftrightarrow> (case fs_folder s of None \<Rightarrow> False | Some f \<Rightarrow> af_media f \<and> \<not> folder_has_parent f)"

definition isInsideSubcollection :: "files_screen \<Rightarrow> bool" where
  "isInsideSubcollection s \<longleftrightarrow> (case fs_folder s of None \<Rightarrow> False | Some f \<Rightarrow> af_media f \<and> folder_has_parent f)"

definition canCreateNew :: "files_screen \<Rightarrow> bool" where "canCreateNew s \<longleftrightarrow> \<not> isInsideSubcollection s"

text \<open>\<open>load\<close> up to its \<open>await\<close>, and its answer. The folder asked for is that of the render the call was made in.\<close>

definition begin_load :: "string option \<Rightarrow> files_screen \<Rightarrow> files_screen" where
  "begin_load asked s = s\<lparr>fs_loading := True, fs_error := None, fs_calls := fs_calls s @ [FListing asked]\<rparr>"

definition end_load :: "string + folder_contents \<Rightarrow> files_screen \<Rightarrow> files_screen" where
  "end_load res s =
     (case res of
        Inl e \<Rightarrow> s\<lparr>fs_error := Some e, fs_loading := False\<rparr>
      | Inr c \<Rightarrow> s\<lparr>fs_folder := fc_folder c, fs_subfolders := fc_subfolders c, fs_files := fc_files c, fs_loading := False\<rparr>)"

text \<open>The effect on the text searched for.\<close>

definition set_query :: "string \<Rightarrow> files_screen \<Rightarrow> files_screen" where
  "set_query q s =
     (if q = fs_query s then s
      else if trim q = [] then s\<lparr>fs_query := q, fs_results := None, fs_searching := False, fs_timer := False\<rparr>
      else s\<lparr>fs_query := q, fs_searching := True, fs_timer := True\<rparr>)"

definition end_search :: "unit + api_file list \<times> group_hit list \<Rightarrow> files_screen \<Rightarrow> files_screen" where
  "end_search res s = s\<lparr>fs_results := Some (case res of Inl _ \<Rightarrow> ([], []) | Inr r \<Rightarrow> r), fs_searching := False\<rparr>"

text \<open>Changing the path asks for a listing when it changes the folder.\<close>

definition set_crumbs :: "(string \<times> string) list \<Rightarrow> files_screen \<Rightarrow> files_screen" where
  "set_crumbs cs s =
     (let s' = s\<lparr>fs_crumbs := cs\<rparr>
      in if currentFolderID s' = currentFolderID s then s' else begin_load (currentFolderID s') s')"

definition enterFolder :: "api_folder \<Rightarrow> files_screen \<Rightarrow> files_screen" where
  "enterFolder f s = set_crumbs (fs_crumbs s @ [(af_id f, af_name f)]) (set_query [] s)"

definition openSearchedGroup :: "group_hit \<Rightarrow> files_screen \<Rightarrow> files_screen" where
  "openSearchedGroup h s =
     (set_crumbs [(gh_collection h, gh_collectionName h)] (set_query [] s))\<lparr>fs_groups := Some (gh_collection h, Some (gh_id h))\<rparr>"

definition navigateToCrumb :: "nat \<Rightarrow> files_screen \<Rightarrow> files_screen" where
  "navigateToCrumb i s = set_crumbs (take i (fs_crumbs s)) s"

definition open_files :: files_screen where
  "open_files = begin_load None \<lparr>fs_folder = None, fs_subfolders = [], fs_files = [], fs_crumbs = [], fs_loading = True,
     fs_uploading = False, fs_error = None, fs_settings = False, fs_groups = None, fs_query = [], fs_results = None,
     fs_searching = False, fs_timer = False, fs_cols = 3, fs_createOpen = False, fs_createMedia = False, fs_createName = [],
     fs_creating = False, fs_calls = [], fs_alerts = []\<rparr>"

text \<open>What is on the screen below the path.\<close>

datatype files_view = SearchView | LoadingView | ErrorView string | GalleryView | ListView

definition files_shown :: "files_screen \<Rightarrow> files_view" where
  "files_shown s =
     (if trim (fs_query s) \<noteq> [] \<and> \<not> isMediaFolder s then SearchView
      else if fs_loading s then LoadingView
      else case fs_error s of
             Some e \<Rightarrow> if e \<noteq> [] then ErrorView e else if isMediaFolder s then GalleryView else ListView
           | None \<Rightarrow> if isMediaFolder s then GalleryView else ListView)"

definition createTitle :: "files_screen \<Rightarrow> string" where
  "createTitle s =
     (if isInsideMediaCollection s then ''New Subcollection''
      else if isAtRoot s then ''New'' @ [CHR 0xE2, CHR 0x80, CHR 0xA6] else ''New Folder'')"

definition create_placeholder :: "files_screen \<Rightarrow> string" where
  "create_placeholder s =
     (if isInsideMediaCollection s then ''Subcollection name'' else if fs_createMedia s then ''Collection name'' else ''Folder name'')"

definition openCreateModal :: "files_screen \<Rightarrow> files_screen" where
  "openCreateModal s = s\<lparr>fs_createMedia := isInsideMediaCollection s, fs_createName := [], fs_createOpen := True\<rparr>"

definition handleCreate :: "files_screen \<Rightarrow> files_screen" where
  "handleCreate s =
     (if trim (fs_createName s) = [] then s
      else s\<lparr>fs_creating := True, fs_calls := fs_calls s @
             [FCreate (trim (fs_createName s)) (currentFolderID s) (isInsideMediaCollection s \<or> fs_createMedia s)]\<rparr>)"

section \<open>Steps\<close>

datatype files_event =
    FoEnter api_folder
  | FoCrumb nat
  | FoRefresh
  | FoListed "string + folder_contents"
  | FoQuery string
  | FoTimer
  | FoFound "unit + api_file list \<times> group_hit list"
  | FoGroup group_hit
  | FoCols
  | FoSettings bool
  | FoGroups
  | FoGroupsClose
  | FoCreateOpen
  | FoCreateKind bool
  | FoCreateName string
  | FoCreateClose
  | FoCreate
  | FoCreated "string option" "string option"    \<comment> \<open>the folder it was made in, and the error\<close>
  | FoCreateSettled                       \<comment> \<open>after its listing\<close>
  | FoUpload                              \<comment> \<open>a file was picked\<close>
  | FoUploaded "string option" "(bool \<times> string) option"   \<comment> \<open>the folder, and the error, cancelled or not\<close>
  | FoUploadSettled
  | FoDelete string
  | FoDeleted string bool
  | FoFavorite string
  | FoDownload string
  | FoDownloadFailed string

fun files_step :: "files_event \<Rightarrow> files_screen \<Rightarrow> files_screen" where
  "files_step (FoEnter f) s = (if files_shown s = ListView \<and> f \<in> set (fs_subfolders s) then enterFolder f s else s)"
| "files_step (FoCrumb i) s = navigateToCrumb i s"
| "files_step FoRefresh s = begin_load (currentFolderID s) s"
| "files_step (FoListed res) s = end_load res s"
| "files_step (FoQuery q) s = (if isMediaFolder s then s else set_query q s)"
| "files_step FoTimer s =
     (if fs_timer s then s\<lparr>fs_timer := False, fs_calls := fs_calls s @ [FSearch (trim (fs_query s))]\<rparr> else s)"
| "files_step (FoFound res) s = end_search res s"
| "files_step (FoGroup h) s =
     (if files_shown s = SearchView \<and> \<not> fs_searching s \<and> (\<exists>r. fs_results s = Some r \<and> h \<in> set (snd r))
      then openSearchedGroup h s else s)"
| "files_step FoCols s = (if isMediaFolder s then s\<lparr>fs_cols := (if 5 \<le> fs_cols s then 1 else fs_cols s + 1)\<rparr> else s)"
| "files_step (FoSettings b) s = (if b \<and> \<not> isMediaFolder s then s else s\<lparr>fs_settings := b\<rparr>)"
| "files_step FoGroups s =
     (case fs_folder s of
        Some f \<Rightarrow> if af_media f \<and> af_recognition f then s\<lparr>fs_groups := Some (af_id f, None)\<rparr> else s
      | None \<Rightarrow> s)"
| "files_step FoGroupsClose s = s\<lparr>fs_groups := None\<rparr>"
| "files_step FoCreateOpen s = (if canCreateNew s then openCreateModal s else s)"
| "files_step (FoCreateKind b) s =
     (if fs_createOpen s \<and> isAtRoot s \<and> \<not> isInsideMediaCollection s then s\<lparr>fs_createMedia := b\<rparr> else s)"
| "files_step (FoCreateName t) s = (if fs_createOpen s then s\<lparr>fs_createName := t\<rparr> else s)"
| "files_step FoCreateClose s = (if fs_creating s then s else s\<lparr>fs_createOpen := False\<rparr>)"
| "files_step FoCreate s = (if fs_createOpen s then handleCreate s else s)"
| "files_step (FoCreated asked err) s =
     (case err of
        None \<Rightarrow> begin_load asked (s\<lparr>fs_createOpen := False, fs_createName := []\<rparr>)
      | Some e \<Rightarrow> s\<lparr>fs_creating := False, fs_alerts := fs_alerts s @ [(''Error'', e)]\<rparr>)"
| "files_step FoCreateSettled s = s\<lparr>fs_creating := False\<rparr>"
| "files_step FoUpload s =
     (if isMediaFolder s \<or> fs_uploading s then s
      else s\<lparr>fs_uploading := True, fs_calls := fs_calls s @ [FUpload (currentFolderID s)]\<rparr>)"
| "files_step (FoUploaded asked err) s =
     (case err of
        None \<Rightarrow> begin_load asked s
      | Some (cancelled, e) \<Rightarrow>
          s\<lparr>fs_uploading := False, fs_alerts := fs_alerts s @ (if cancelled then [] else [(''Upload failed'', e)])\<rparr>)"
| "files_step FoUploadSettled s = s\<lparr>fs_uploading := False\<rparr>"
| "files_step (FoDelete i) s =
     (if files_shown s = ListView \<and> i \<in> fi_id ` set (fs_files s) then s\<lparr>fs_calls := fs_calls s @ [FDelete i]\<rparr> else s)"
| "files_step (FoDeleted i ok) s = (if ok then s\<lparr>fs_files := filter (\<lambda>f. fi_id f \<noteq> i) (fs_files s)\<rparr> else s)"
| "files_step (FoFavorite i) s =
     (if files_shown s = ListView \<and> i \<in> fi_id ` set (fs_files s) then s\<lparr>fs_calls := fs_calls s @ [FFavorite i]\<rparr> else s)"
| "files_step (FoDownload i) s = s\<lparr>fs_calls := fs_calls s @ [FDownload i]\<rparr>"
| "files_step (FoDownloadFailed e) s = s\<lparr>fs_alerts := fs_alerts s @ [(''Download failed'', e)]\<rparr>"

definition files_run :: "files_event list \<Rightarrow> files_screen \<Rightarrow> files_screen" where
  "files_run es s = fold files_step es s"

section \<open>Properties\<close>

lemma load_keeps [simp]:
  "fs_crumbs (begin_load a s) = fs_crumbs s" "fs_crumbs (end_load r s) = fs_crumbs s"
  "fs_calls (begin_load a s) = fs_calls s @ [FListing a]" "fs_calls (end_load r s) = fs_calls s"
  "fs_crumbs (set_query q s) = fs_crumbs s" "fs_calls (set_query q s) = fs_calls s"
  "fs_folder (set_query q s) = fs_folder s" "fs_subfolders (set_query q s) = fs_subfolders s" "fs_files (set_query q s) = fs_files s"
  "fs_loading (set_query q s) = fs_loading s" "fs_error (set_query q s) = fs_error s"
  by (simp_all add: begin_load_def end_load_def set_query_def split: sum.split)

lemma currentFolderID_reads: "fs_crumbs s' = fs_crumbs s \<Longrightarrow> currentFolderID s' = currentFolderID s"
  by (simp add: currentFolderID_def)

text \<open>When each listing is answered before anything else happens, the screen shows the folder its path ends in: \<open>serve\<close> is
  what the backend holds.\<close>

definition shows_folder :: "(string option \<Rightarrow> folder_contents) \<Rightarrow> files_screen \<Rightarrow> bool" where
  "shows_folder serve s \<longleftrightarrow> \<not> fs_loading s \<and> fs_error s = None \<and>
     (case serve (currentFolderID s) of c \<Rightarrow> fs_folder s = fc_folder c \<and> fs_subfolders s = fc_subfolders c \<and> fs_files s = fc_files c)"

definition serve_step :: "(string option \<Rightarrow> folder_contents) \<Rightarrow> files_event \<Rightarrow> files_screen \<Rightarrow> files_screen" where
  "serve_step serve ev s =
     (let s' = files_step ev s
      in case drop (length (fs_calls s)) (fs_calls s') of
           [FListing a] \<Rightarrow> end_load (Inr (serve a)) s'
         | _ \<Rightarrow> s')"

definition own_folder :: "files_event \<Rightarrow> files_screen \<Rightarrow> bool" where
  "own_folder ev s \<longleftrightarrow>
     (case ev of
        FoListed _ \<Rightarrow> False
      | FoDeleted _ _ \<Rightarrow> False
      | FoCreated a _ \<Rightarrow> a = currentFolderID s
      | FoUploaded a _ \<Rightarrow> a = currentFolderID s
      | _ \<Rightarrow> True)"

lemma shows_same:
  assumes "shows_folder serve s" "fs_crumbs s' = fs_crumbs s" "fs_loading s' = fs_loading s" "fs_error s' = fs_error s"
    and "fs_folder s' = fs_folder s" "fs_subfolders s' = fs_subfolders s" "fs_files s' = fs_files s"
  shows "shows_folder serve s'"
  using assms by (simp add: shows_folder_def currentFolderID_def)

lemma shows_loaded: "shows_folder serve (end_load (Inr (serve (currentFolderID s))) (begin_load (currentFolderID s) s))"
proof -
  let ?s = "end_load (Inr (serve (currentFolderID s))) (begin_load (currentFolderID s) s)"
  have "currentFolderID ?s = currentFolderID s" by (rule currentFolderID_reads) simp
  then show ?thesis unfolding shows_folder_def by (simp only:) (simp add: end_load_def begin_load_def)
qed

text \<open>An event either asks for nothing, and leaves the listing alone, or asks for the folder the path ends in.\<close>

definition asks_or_keeps :: "files_screen \<Rightarrow> files_screen \<Rightarrow> bool" where
  "asks_or_keeps s s' \<longleftrightarrow>
     (\<exists>s1. s' = begin_load (currentFolderID s1) s1 \<and> fs_calls s1 = fs_calls s)
     \<or> (\<exists>cs. fs_calls s' = fs_calls s @ cs \<and> (\<forall>a. cs \<noteq> [FListing a]) \<and> fs_loading s' = fs_loading s \<and> fs_error s' = fs_error s
          \<and> fs_folder s' = fs_folder s \<and> fs_subfolders s' = fs_subfolders s \<and> fs_files s' = fs_files s
          \<and> currentFolderID s' = currentFolderID s)"

lemma keeps_call:
  assumes "fs_calls s' = fs_calls s @ cs" "\<And>a. cs \<noteq> [FListing a]" "fs_loading s' = fs_loading s" "fs_error s' = fs_error s"
    "fs_folder s' = fs_folder s" "fs_subfolders s' = fs_subfolders s" "fs_files s' = fs_files s" "fs_crumbs s' = fs_crumbs s"
  shows "asks_or_keeps s s'"
  unfolding asks_or_keeps_def
  by (intro disjI2 exI [of _ cs]) (use assms currentFolderID_reads [OF assms(8)] in simp)

lemma keeps_quiet:
  assumes "fs_calls s' = fs_calls s" "fs_loading s' = fs_loading s" "fs_error s' = fs_error s"
    "fs_folder s' = fs_folder s" "fs_subfolders s' = fs_subfolders s" "fs_files s' = fs_files s" "fs_crumbs s' = fs_crumbs s"
  shows "asks_or_keeps s s'"
  using assms by (intro keeps_call [where cs = "[]"]) simp_all

lemma set_crumbs_asks:
  assumes "fs_calls s0 = fs_calls s" "fs_loading s0 = fs_loading s" "fs_error s0 = fs_error s" "fs_folder s0 = fs_folder s"
    "fs_subfolders s0 = fs_subfolders s" "fs_files s0 = fs_files s" "fs_crumbs s0 = fs_crumbs s"
  shows "asks_or_keeps s (set_crumbs cs s0)"
proof -
  let ?s = "s0\<lparr>fs_crumbs := cs\<rparr>"
  have old: "currentFolderID s0 = currentFolderID s" using assms(7) by (rule currentFolderID_reads)
  show ?thesis
  proof (cases "currentFolderID ?s = currentFolderID s0")
    case True
    have "asks_or_keeps s ?s" unfolding asks_or_keeps_def
      by (intro disjI2 exI [of _ "[]"]) (use assms True old in simp)
    with True show ?thesis by (simp add: set_crumbs_def Let_def)
  next
    case False
    then have "set_crumbs cs s0 = begin_load (currentFolderID ?s) ?s" by (simp add: set_crumbs_def Let_def)
    moreover have "fs_calls ?s = fs_calls s" using assms(1) by simp
    ultimately show ?thesis unfolding asks_or_keeps_def by blast
  qed
qed

lemma handleCreate_call:
  "\<exists>cs. fs_calls (handleCreate s) = fs_calls s @ cs \<and> (\<forall>a. cs \<noteq> [FListing a])"
  by (cases "trim (fs_createName s) = []") (auto simp: handleCreate_def)

lemma files_step_asks:
  assumes "own_folder ev s"
  shows "asks_or_keeps s (files_step ev s)"
proof (cases ev)
  case (FoEnter f)
  have "asks_or_keeps s (enterFolder f s)" unfolding enterFolder_def by (rule set_crumbs_asks) simp_all
  then show ?thesis using FoEnter by (simp add: keeps_quiet)
next
  case (FoCrumb i)
  have "asks_or_keeps s (navigateToCrumb i s)" unfolding navigateToCrumb_def by (rule set_crumbs_asks) simp_all
  then show ?thesis using FoCrumb by simp
next
  case FoRefresh
  then show ?thesis unfolding asks_or_keeps_def by (intro disjI1 exI [of _ s]) simp
next
  case (FoGroup h)
  let ?s0 = "(set_query [] s)\<lparr>fs_groups := Some (gh_collection h, Some (gh_id h))\<rparr>"
  have "openSearchedGroup h s = set_crumbs [(gh_collection h, gh_collectionName h)] ?s0"
    by (simp add: openSearchedGroup_def set_crumbs_def begin_load_def currentFolderID_def Let_def)
  moreover have "asks_or_keeps s (set_crumbs [(gh_collection h, gh_collectionName h)] ?s0)"
    by (rule set_crumbs_asks) simp_all
  ultimately show ?thesis using FoGroup by (simp add: keeps_quiet)
next
  case (FoQuery q)
  then show ?thesis by (auto intro!: keeps_quiet)
next
  case FoTimer
  then show ?thesis
    by (cases "fs_timer s") (simp_all add: keeps_quiet keeps_call [where cs = "[FSearch (trim (fs_query s))]"])
next
  case (FoFound r)
  then show ?thesis by (auto intro!: keeps_quiet simp: end_search_def)
next
  case FoGroups
  then show ?thesis by (auto intro!: keeps_quiet split: option.split)
next
  case FoCreateOpen
  then show ?thesis by (auto intro!: keeps_quiet simp: openCreateModal_def)
next
  case FoCreate
  obtain cs where cs: "fs_calls (handleCreate s) = fs_calls s @ cs" "\<And>a. cs \<noteq> [FListing a]" using handleCreate_call by blast
  have "asks_or_keeps s (handleCreate s)" by (rule keeps_call [OF cs]) (simp_all add: handleCreate_def)
  then show ?thesis using FoCreate by (simp add: keeps_quiet)
next
  case (FoCreated a err)
  let ?s = "s\<lparr>fs_createOpen := False, fs_createName := []\<rparr>"
  have "asks_or_keeps s (begin_load (currentFolderID s) ?s)" unfolding asks_or_keeps_def
    by (intro disjI1 exI [of _ ?s]) (simp add: currentFolderID_def)
  then show ?thesis using FoCreated assms by (auto simp: own_folder_def intro!: keeps_quiet split: option.split)
next
  case (FoUploaded a err)
  have "asks_or_keeps s (begin_load (currentFolderID s) s)" unfolding asks_or_keeps_def
    by (intro disjI1 exI [of _ s]) simp
  then show ?thesis using FoUploaded assms by (auto simp: own_folder_def intro!: keeps_quiet split: option.split)
next
  case FoUpload
  then show ?thesis by (cases "isMediaFolder s \<or> fs_uploading s") (simp_all add: keeps_quiet keeps_call [where cs = "[FUpload (currentFolderID s)]"])
next
  case (FoDelete i)
  then show ?thesis by (cases "files_shown s = ListView \<and> i \<in> fi_id ` set (fs_files s)") (simp_all add: keeps_quiet keeps_call [where cs = "[FDelete i]"])
next
  case (FoFavorite i)
  then show ?thesis by (cases "files_shown s = ListView \<and> i \<in> fi_id ` set (fs_files s)") (simp_all add: keeps_quiet keeps_call [where cs = "[FFavorite i]"])
next
  case (FoDownload i)
  then show ?thesis by (auto intro!: keeps_call [where cs = "[FDownload i]"])
qed (use assms in \<open>auto intro!: keeps_quiet simp: own_folder_def\<close>)

theorem screen_shows_current_folder:
  assumes "shows_folder serve s" "own_folder ev s"
  shows "shows_folder serve (serve_step serve ev s)"
  using files_step_asks [OF assms(2)] unfolding asks_or_keeps_def
proof
  assume "\<exists>s1. files_step ev s = begin_load (currentFolderID s1) s1 \<and> fs_calls s1 = fs_calls s"
  then obtain s1 where s1: "files_step ev s = begin_load (currentFolderID s1) s1" "fs_calls s1 = fs_calls s" by blast
  then have "serve_step serve ev s = end_load (Inr (serve (currentFolderID s1))) (begin_load (currentFolderID s1) s1)"
    by (simp add: serve_step_def)
  then show ?thesis using shows_loaded by simp
next
  assume "\<exists>cs. fs_calls (files_step ev s) = fs_calls s @ cs \<and> (\<forall>a. cs \<noteq> [FListing a]) \<and> fs_loading (files_step ev s) = fs_loading s
      \<and> fs_error (files_step ev s) = fs_error s \<and> fs_folder (files_step ev s) = fs_folder s
      \<and> fs_subfolders (files_step ev s) = fs_subfolders s \<and> fs_files (files_step ev s) = fs_files s
      \<and> currentFolderID (files_step ev s) = currentFolderID s"
  then obtain cs where cs: "fs_calls (files_step ev s) = fs_calls s @ cs" "\<And>a. cs \<noteq> [FListing a]"
    and same: "fs_loading (files_step ev s) = fs_loading s" "fs_error (files_step ev s) = fs_error s"
      "fs_folder (files_step ev s) = fs_folder s" "fs_subfolders (files_step ev s) = fs_subfolders s"
      "fs_files (files_step ev s) = fs_files s" "currentFolderID (files_step ev s) = currentFolderID s" by blast
  have "serve_step serve ev s = files_step ev s"
    using cs by (simp add: serve_step_def Let_def split: list.split files_call.split)
  then show ?thesis using assms(1) same by (simp add: shows_folder_def)
qed

text \<open>What is created has a name without blanks around it, and the columns of the gallery stay between one and five.\<close>

definition requests_ok :: "files_screen \<Rightarrow> bool" where
  "requests_ok s \<longleftrightarrow> list_all (\<lambda>c. case c of FCreate n p m \<Rightarrow> n \<noteq> [] \<and> trim n = n | FSearch q \<Rightarrow> trim q = q | _ \<Rightarrow> True) (fs_calls s)
     \<and> 1 \<le> fs_cols s \<and> fs_cols s \<le> 5"

lemma files_cols [simp]:
  "fs_cols (begin_load a s) = fs_cols s" "fs_cols (end_load r s) = fs_cols s" "fs_cols (set_query q s) = fs_cols s"
  "fs_cols (set_crumbs cs s) = fs_cols s" "fs_cols (handleCreate s) = fs_cols s"
  by (simp_all add: begin_load_def end_load_def set_query_def set_crumbs_def handleCreate_def Let_def split: sum.split)

lemma set_crumbs_calls: "fs_calls (set_crumbs cs s) = fs_calls s \<or> (\<exists>a. fs_calls (set_crumbs cs s) = fs_calls s @ [FListing a])"
  by (simp add: set_crumbs_def Let_def)

lemma set_crumbs_ok: "requests_ok s \<Longrightarrow> requests_ok (set_crumbs cs s)"
  using set_crumbs_calls [of cs s] by (auto simp: requests_ok_def)

lemma ok_reads: "fs_calls s' = fs_calls s \<Longrightarrow> fs_cols s' = fs_cols s \<Longrightarrow> requests_ok s' = requests_ok s"
  by (simp add: requests_ok_def)

theorem files_requests_ok:
  "requests_ok (files_run evs open_files)"
proof -
  have q: "requests_ok (set_query [] s) = requests_ok s" for s by (rule ok_reads) simp_all
  have "requests_ok (files_step ev s)" if "requests_ok s" for ev s
  proof (cases ev)
    case (FoEnter f)
    then show ?thesis using that by (simp add: enterFolder_def set_crumbs_ok q)
  next
    case (FoCrumb i)
    then show ?thesis using that by (simp add: navigateToCrumb_def set_crumbs_ok)
  next
    case (FoGroup h)
    have "requests_ok (openSearchedGroup h s) = requests_ok (set_crumbs [(gh_collection h, gh_collectionName h)] (set_query [] s))"
      unfolding openSearchedGroup_def by (rule ok_reads) simp_all
    then show ?thesis using FoGroup that by (simp add: set_crumbs_ok q)
  qed (use that in \<open>auto simp: requests_ok_def handleCreate_def trim_idem openCreateModal_def end_search_def split: option.split\<close>)
  then have "requests_ok (fold files_step evs s)" if "requests_ok s" for s
    using that by (induction evs arbitrary: s) simp_all
  moreover have "requests_ok open_files" by (simp add: requests_ok_def open_files_def)
  ultimately show ?thesis by (simp add: files_run_def)
qed

section \<open>Behaviours against the intent\<close>

text \<open>Answers are not matched with the path: the listing of a collection left in the meantime is shown under the path of the
  root, and the next folder made there is a collection.\<close>

definition a_collection :: api_folder where
  "a_collection = \<lparr>af_id = ''c'', af_parent = None, af_name = ''C'', af_media = True, af_recognition = False\<rparr>"

definition listing_of :: "api_folder option \<Rightarrow> api_folder list \<Rightarrow> folder_contents" where
  "listing_of f subs = \<lparr>fc_folder = f, fc_subfolders = subs, fc_files = []\<rparr>"

theorem late_listing_of_other_folder:
  assumes "s = files_run [FoListed (Inr (listing_of None [a_collection])), FoEnter a_collection, FoCrumb 0,
       FoListed (Inr (listing_of None [a_collection])), FoListed (Inr (listing_of (Some a_collection) []))] open_files"
  shows "currentFolderID s = None \<and> fs_folder s = Some a_collection
    \<and> last (fs_calls (files_run [FoCreateOpen, FoCreateName ''x'', FoCreate] s)) = FCreate ''x'' None True"
  unfolding assms
  by (simp add: files_run_def open_files_def begin_load_def end_load_def listing_of_def a_collection_def files_shown_def
      isMediaFolder_def enterFolder_def set_query_def set_crumbs_def navigateToCrumb_def currentFolderID_def Let_def
      canCreateNew_def isInsideSubcollection_def folder_has_parent_def openCreateModal_def isInsideMediaCollection_def
      handleCreate_def trim_def is_space_def)

text \<open>In a media collection the gallery takes the place of the list: a subcollection made there cannot be entered.\<close>

theorem subcollections_not_listed:
  assumes "isMediaFolder s"
  shows "files_step (FoEnter f) s = s"
proof -
  have "files_shown s \<noteq> ListView" using assms by (simp add: files_shown_def split: option.split)
  then show ?thesis by simp
qed

text \<open>Searches are not matched with their text either: what an earlier text found is shown, and as finished, under a later.\<close>

theorem late_search_of_other_text:
  assumes "trim q \<noteq> []" "trim q' \<noteq> []" "q \<noteq> q'" "fs_query s = []" "\<not> isMediaFolder s"
    and "s' = files_run [FoQuery q, FoTimer, FoQuery q', FoFound (Inr r)] s"
  shows "fs_query s' = q' \<and> files_shown s' = SearchView \<and> fs_results s' = Some r \<and> \<not> fs_searching s'
    \<and> fs_calls s' = fs_calls s @ [FSearch (trim q)]"
proof -
  have "q \<noteq> []" using assms(1) by (auto simp: trim_def)
  with assms show ?thesis
    by (simp add: files_run_def set_query_def end_search_def files_shown_def isMediaFolder_def)
qed

text \<open>The search is meant to be cleared whenever the user navigates; going back along the path does not.\<close>

lemma path_keeps_search: "fs_query (navigateToCrumb i s) = fs_query s"
  by (simp add: navigateToCrumb_def set_crumbs_def begin_load_def Let_def)

text \<open>A listing that fails leaves the folder shown before: what it was decides on the kind of the next folder.\<close>

lemma failed_load_keeps_folder: "fs_folder (end_load (Inl e) s) = fs_folder s \<and> fs_crumbs (end_load (Inl e) s) = fs_crumbs s"
  by (simp add: end_load_def)

text \<open>A deletion, or a favourite, that fails says nothing.\<close>

lemma failed_deletion_is_silent: "files_step (FoDeleted i False) s = s"
  by simp

end
