(* ===== verification/PhoneGallery.thy ===== *)
theory PhoneGallery
  imports JsGroups Decimals
begin

text \<open>
  The gallery of a media collection on the phone, \<open>mobile/src/components/MediaGallery.tsx\<close>: the months with their rows of
  tiles, a tile with its preview and its touches, the toolbar of one file, the selection with the actions on several
  files, and where they may be moved. \<open>ms\<close> reads a time stamp and \<open>month\<close> numbers the local months. A list stands for the
  \<open>Set\<close> of selected ids, which keeps the order of insertion.
\<close>

section \<open>Files and sections\<close>

record gallery_file =
  ga_id :: string
  ga_name :: string
  ga_mime :: string
  ga_size :: nat
  ga_taken :: "string option"
  ga_created :: string
  ga_hash :: "string option"
  ga_device :: "string option"
  ga_source :: "string option"

record gallery_folder =
  go_id :: string
  go_name :: string
  go_media :: bool

definition file_time :: "(string \<Rightarrow> int) \<Rightarrow> gallery_file \<Rightarrow> int" where
  "file_time ms f = ms (case ga_taken f of Some t \<Rightarrow> t | None \<Rightarrow> ga_created f)"

definition later_first :: "(string \<Rightarrow> int) \<Rightarrow> gallery_file \<Rightarrow> gallery_file \<Rightarrow> int" where
  "later_first ms a b = file_time ms b - file_time ms a"

text \<open>\<open>for (let i = 0; i < items.length; i += cols) rows.push(items.slice(i, i + cols))\<close>\<close>

function slice_rows :: "nat \<Rightarrow> 'a list \<Rightarrow> 'a list list" where
  "slice_rows cols xs = (if xs = [] \<or> cols = 0 then [] else take cols xs # slice_rows cols (drop cols xs))"
  by pat_completeness auto
termination by (relation "measure (length \<circ> snd)") auto

declare slice_rows.simps [simp del]

definition buildSections :: "(string \<Rightarrow> int) \<Rightarrow> (int \<Rightarrow> int) \<Rightarrow> nat \<Rightarrow> gallery_file list \<Rightarrow> (int \<times> gallery_file list list) list" where
  "buildSections ms month cols files =
     map (\<lambda>(k, items). (k, slice_rows cols items)) (js_groups (\<lambda>f. month (file_time ms f)) (js_sort (later_first ms) files))"

definition gallery_cols :: "nat option \<Rightarrow> nat" where
  "gallery_cols c = min 5 (max 1 (case c of Some n \<Rightarrow> n | None \<Rightarrow> 3))"

text \<open>The tiles of a row; \<open>None\<close> pads it to its full width.\<close>

definition padded_row :: "nat \<Rightarrow> 'a list \<Rightarrow> 'a option list" where
  "padded_row cols row = map Some row @ replicate (cols - length row) None"

definition gallery_bytes :: "nat \<Rightarrow> string" where
  "gallery_bytes b =
     (if b < 1024 * 1024 then to_fixed 1 (of_nat b / 1024) @ '' KB''
      else if b < 1024 ^ 3 then to_fixed 1 (of_nat b / 1024 / 1024) @ '' MB''
      else to_fixed 2 (of_nat b / 1024 / 1024 / 1024) @ '' GB'')"

definition uploadSourceLabel :: "string option \<Rightarrow> string" where
  "uploadSourceLabel source =
     (if source = Some ''google_drive'' then ''Backed up from Google Drive''
      else if source = Some ''google_photos'' then ''Backed up from Google Photos''
      else if source = Some ''email_backup_gmail'' then ''Backed up from Gmail''
      else if source = Some ''email_backup_microsoft'' then ''Backed up from Microsoft email''
      else if source = Some ''file_server'' then ''Uploaded via File Server''
      else ''Uploaded from web'')"

definition source_text :: "string option \<Rightarrow> gallery_file \<Rightarrow> string" where
  "source_text thisDevice f =
     (case ga_device f of
        Some d \<Rightarrow> if d = [] then uploadSourceLabel (ga_source f)
                  else if Some d = thisDevice then [CHR 0xE2, CHR 0x9C, CHR 0x93] @ '' Synced from this device''
                  else ''Synced from another device''
      | None \<Rightarrow> uploadSourceLabel (ga_source f))"

definition isSynced :: "string set \<Rightarrow> gallery_file \<Rightarrow> bool" where
  "isSynced hashes f \<longleftrightarrow> (case ga_hash f of Some h \<Rightarrow> h \<noteq> [] \<and> h \<in> hashes | None \<Rightarrow> False)"

section \<open>A tile\<close>

record tile =
  ti_url :: "string option"
  ti_fetching :: bool
  ti_error :: bool
  ti_errorBar :: bool
  ti_longPressed :: bool

text \<open>Mounting takes the preview from the cache or asks for it, whatever the file is.\<close>

definition mount_tile :: "(string \<rightharpoonup> string) \<Rightarrow> string \<Rightarrow> tile \<times> bool" where
  "mount_tile cache i =
     (\<lparr>ti_url = cache i, ti_fetching = (cache i = None), ti_error = False, ti_errorBar = False, ti_longPressed = False\<rparr>,
      cache i = None)"

definition tile_fetched :: "unit + string \<Rightarrow> tile \<Rightarrow> tile" where
  "tile_fetched res t =
     (case res of
        Inr u \<Rightarrow> t\<lparr>ti_url := Some u, ti_fetching := False\<rparr>
      | Inl _ \<Rightarrow> t\<lparr>ti_fetching := False, ti_error := True, ti_errorBar := True\<rparr>)"

definition tile_image :: "gallery_file \<Rightarrow> tile \<Rightarrow> string option" where
  "tile_image f t =
     (case ti_url t of
        Some u \<Rightarrow> if u \<noteq> [] \<and> starts_with ''image/'' (ga_mime f) \<and> \<not> ti_error t then Some u else None
      | None \<Rightarrow> None)"

definition tile_press :: "tile \<Rightarrow> tile \<times> bool" where
  "tile_press t = (if ti_longPressed t then (t\<lparr>ti_longPressed := False\<rparr>, False) else (t, True))"

definition tile_longPress :: "bool \<Rightarrow> tile \<Rightarrow> tile \<times> bool" where
  "tile_longPress selecting t = (if selecting then (t, False) else (t\<lparr>ti_longPressed := True\<rparr>, True))"

section \<open>The gallery\<close>

datatype gallery_call =
    GaDelete string
  | GaMove string string
  | GaFavorite string
  | GaSave string

datatype delete_question = AskOne string | AskMany "string list"

record gallery =
  gl_files :: "gallery_file list"
  gl_folder :: string
  gl_toolbar :: "string option"
  gl_info :: "gallery_file option"
  gl_date :: "int option"
  gl_selected :: "string list"
  gl_moveOpen :: bool
  gl_moveLoading :: bool
  gl_destinations :: "(gallery_folder list \<times> gallery_folder list) option"
  gl_asking :: "delete_question option"
  gl_cache :: "string \<rightharpoonup> string"
  gl_calls :: "gallery_call list"
  gl_alerts :: "(string \<times> string) list"

definition isSelectMode :: "gallery \<Rightarrow> bool" where "isSelectMode s \<longleftrightarrow> gl_selected s \<noteq> []"

definition toggle_list :: "string \<Rightarrow> string list \<Rightarrow> string list" where
  "toggle_list i xs = (if i \<in> set xs then removeAll i xs else xs @ [i])"

text \<open>\<open>ok\<close> tells which of the calls succeed.\<close>

definition drop_file :: "string \<Rightarrow> gallery \<Rightarrow> gallery" where
  "drop_file i s = s\<lparr>gl_files := filter (\<lambda>f. ga_id f \<noteq> i) (gl_files s)\<rparr>"

definition delete_one :: "(gallery_call \<Rightarrow> bool) \<Rightarrow> string \<Rightarrow> gallery \<Rightarrow> gallery" where
  "delete_one ok i s =
     (let s1 = s\<lparr>gl_calls := gl_calls s @ [GaDelete i]\<rparr>
      in if ok (GaDelete i) then (drop_file i s1)\<lparr>gl_cache := (gl_cache s)(i := None)\<rparr> else s1)"

definition move_one :: "(gallery_call \<Rightarrow> bool) \<Rightarrow> string \<Rightarrow> string \<Rightarrow> gallery \<Rightarrow> gallery" where
  "move_one ok target i s =
     (let s1 = s\<lparr>gl_calls := gl_calls s @ [GaMove i target]\<rparr> in if ok (GaMove i target) then drop_file i s1 else s1)"

definition exitSelectMode :: "gallery \<Rightarrow> gallery" where "exitSelectMode s = s\<lparr>gl_selected := []\<rparr>"

definition handleSingleDelete :: "(gallery_call \<Rightarrow> bool) \<Rightarrow> string \<Rightarrow> string \<Rightarrow> gallery \<Rightarrow> gallery" where
  "handleSingleDelete ok message i s =
     (if ok (GaDelete i) then (delete_one ok i s)\<lparr>gl_toolbar := None\<rparr>
      else (delete_one ok i s)\<lparr>gl_alerts := gl_alerts s @ [(''Error'', message)]\<rparr>)"

definition handleBulkDelete :: "(gallery_call \<Rightarrow> bool) \<Rightarrow> string list \<Rightarrow> gallery \<Rightarrow> gallery" where
  "handleBulkDelete ok ids s = exitSelectMode (fold (delete_one ok) ids s)"

definition handleBulkMove :: "(gallery_call \<Rightarrow> bool) \<Rightarrow> string \<Rightarrow> gallery \<Rightarrow> gallery" where
  "handleBulkMove ok target s =
     exitSelectMode (fold (move_one ok target) (gl_selected s) (s\<lparr>gl_moveOpen := False\<rparr>))"

definition handleBulkFavorite :: "gallery \<Rightarrow> gallery" where
  "handleBulkFavorite s = exitSelectMode (s\<lparr>gl_calls := gl_calls s @ map GaFavorite (gl_selected s)\<rparr>)"

definition handleBulkDownload :: "gallery \<Rightarrow> gallery" where
  "handleBulkDownload s =
     exitSelectMode (s\<lparr>gl_calls := gl_calls s @ map GaSave (filter (\<lambda>i. i \<in> ga_id ` set (gl_files s)) (gl_selected s))\<rparr>)"

definition delete_title :: "nat \<Rightarrow> string" where
  "delete_title n = ''Delete '' @ show_nat n @ '' File'' @ (if n \<noteq> 1 then ''s'' else [])"

definition move_destinations ::
  "string \<Rightarrow> (unit + gallery_folder list \<times> gallery_folder list) \<Rightarrow> gallery_folder list \<times> gallery_folder list" where
  "move_destinations current res =
     (case res of
        Inl _ \<Rightarrow> ([], [])
      | Inr (inner, outer) \<Rightarrow> (filter go_media inner, filter (\<lambda>f. go_media f \<and> go_id f \<noteq> current) outer))"

datatype gallery_event =
    GaTap string
  | GaHold string
  | GaToolDownload string "string option"    \<comment> \<open>the error it ends with\<close>
  | GaToolFavorite string
  | GaToolDelete string
  | GaInfo gallery_file
  | GaInfoClose
  | GaDate int
  | GaCancel
  | GaBulkDownload
  | GaBulkFavorite
  | GaBulkDelete
  | GaAnswer bool "gallery_call \<Rightarrow> bool" string
  | GaMoveOpen
  | GaMoveLoaded "unit + gallery_folder list \<times> gallery_folder list"
  | GaMoveTo string "gallery_call \<Rightarrow> bool"
  | GaMoveClose

fun gallery_step :: "gallery_event \<Rightarrow> gallery \<Rightarrow> gallery" where
  "gallery_step (GaTap i) s =
     (if i \<notin> ga_id ` set (gl_files s) then s
      else if isSelectMode s then s\<lparr>gl_selected := toggle_list i (gl_selected s)\<rparr>
      else s\<lparr>gl_toolbar := (if gl_toolbar s = Some i then None else Some i)\<rparr>)"
| "gallery_step (GaHold i) s =
     (if i \<in> ga_id ` set (gl_files s) \<and> \<not> isSelectMode s then s\<lparr>gl_toolbar := None, gl_selected := [i]\<rparr> else s)"
| "gallery_step (GaToolDownload i err) s =
     (if gl_toolbar s = Some i \<and> \<not> isSelectMode s
      then s\<lparr>gl_calls := gl_calls s @ [GaSave i], gl_toolbar := None,
             gl_alerts := gl_alerts s @ (case err of None \<Rightarrow> [] | Some e \<Rightarrow> [(''Download failed'', e)])\<rparr>
      else s)"
| "gallery_step (GaToolFavorite i) s =
     (if gl_toolbar s = Some i \<and> \<not> isSelectMode s
      then s\<lparr>gl_calls := gl_calls s @ [GaFavorite i], gl_toolbar := None\<rparr> else s)"
| "gallery_step (GaToolDelete i) s =
     (if gl_toolbar s = Some i \<and> \<not> isSelectMode s then s\<lparr>gl_asking := Some (AskOne i)\<rparr> else s)"
| "gallery_step (GaInfo f) s =
     (if gl_toolbar s = Some (ga_id f) \<and> \<not> isSelectMode s then s\<lparr>gl_info := Some f, gl_toolbar := None\<rparr> else s)"
| "gallery_step GaInfoClose s = s\<lparr>gl_info := None\<rparr>"
| "gallery_step (GaDate d) s = s\<lparr>gl_date := Some d\<rparr>"
| "gallery_step GaCancel s = exitSelectMode s"
| "gallery_step GaBulkDownload s = (if isSelectMode s then handleBulkDownload s else s)"
| "gallery_step GaBulkFavorite s = (if isSelectMode s then handleBulkFavorite s else s)"
| "gallery_step GaBulkDelete s = (if isSelectMode s then s\<lparr>gl_asking := Some (AskMany (gl_selected s))\<rparr> else s)"
| "gallery_step (GaAnswer yes ok message) s =
     (case gl_asking s of
        None \<Rightarrow> s
      | Some q \<Rightarrow>
          let s1 = s\<lparr>gl_asking := None\<rparr>
          in if \<not> yes then s1
             else case q of AskOne i \<Rightarrow> handleSingleDelete ok message i s1 | AskMany ids \<Rightarrow> handleBulkDelete ok ids s1)"
| "gallery_step GaMoveOpen s =
     (if isSelectMode s then s\<lparr>gl_moveOpen := True, gl_moveLoading := True, gl_destinations := None\<rparr> else s)"
| "gallery_step (GaMoveLoaded res) s =
     s\<lparr>gl_destinations := Some (move_destinations (gl_folder s) res), gl_moveLoading := False\<rparr>"
| "gallery_step (GaMoveTo target ok) s =
     (case gl_destinations s of
        Some (inner, others) \<Rightarrow>
          if gl_moveOpen s \<and> \<not> gl_moveLoading s \<and> target \<in> go_id ` (set inner \<union> set others)
          then handleBulkMove ok target s else s
      | None \<Rightarrow> s)"
| "gallery_step GaMoveClose s = s\<lparr>gl_moveOpen := False\<rparr>"

definition gallery_run :: "gallery_event list \<Rightarrow> gallery \<Rightarrow> gallery" where
  "gallery_run es s = fold gallery_step es s"

section \<open>The sections\<close>

lemma slice_rows_concat: "cols \<noteq> 0 \<Longrightarrow> concat (slice_rows cols xs) = xs"
  by (induction cols xs rule: slice_rows.induct) (subst slice_rows.simps, simp)

lemma slice_rows_sizes: "r \<in> set (slice_rows cols xs) \<Longrightarrow> r \<noteq> [] \<and> length r \<le> cols"
proof (induction cols xs rule: slice_rows.induct)
  case (1 cols xs)
  then show ?case by (subst (asm) (2) slice_rows.simps) (auto split: if_splits)
qed

lemma slice_rows_members: "list_all P xs \<Longrightarrow> list_all (list_all P) (slice_rows cols xs)"
proof (induction cols xs rule: slice_rows.induct)
  case (1 cols xs)
  have "list_all P (take cols xs)" "list_all P (drop cols xs)"
    using "1.prems" by (auto simp: list_all_iff dest: in_set_takeD in_set_dropD)
  with 1 show ?case by (subst slice_rows.simps) simp
qed

lemma rows_padded:
  "list_all (\<lambda>r. r \<noteq> [] \<and> length (padded_row cols r) = cols) (slice_rows cols xs)"
  using slice_rows_sizes [of _ cols xs] by (fastforce simp: list_all_iff padded_row_def)

interpretation by_time: ranked_down "later_first ms" "file_time ms" UNIV
  for ms by unfold_locales (simp add: later_first_def)

lemma rows_of_groups:
  "cols \<noteq> 0 \<Longrightarrow> concat (concat (map snd (map (\<lambda>(k, items). (k, slice_rows cols items)) gs))) = concat (map snd gs)"
  by (induction gs) (auto simp: slice_rows_concat)

text \<open>The grid shows every file of the collection exactly once, in rows that fit the chosen number of columns; when months
  follow one another in time it reads, row after row, from the newest file to the oldest.\<close>

theorem gallery_shows_every_file:
  "mset (concat (concat (map snd (buildSections ms month (gallery_cols c) files)))) = mset files"
  "list_all (\<lambda>(k, rows). list_all (\<lambda>r. r \<noteq> [] \<and> length (padded_row (gallery_cols c) r) = gallery_cols c
     \<and> list_all (\<lambda>f. month (file_time ms f) = k) r) rows) (buildSections ms month (gallery_cols c) files)"
  "mono month \<Longrightarrow> concat (concat (map snd (buildSections ms month (gallery_cols c) files)))
     = rev (sort_key (file_time ms) (rev files))"
proof -
  let ?key = "\<lambda>f. month (file_time ms f)" and ?xs = "js_sort (later_first ms) files"
  have cols: "gallery_cols c \<noteq> 0" by (simp add: gallery_cols_def)
  note all = by_time.js_sort_down [of files ms]
  show "mset (concat (concat (map snd (buildSections ms month (gallery_cols c) files)))) = mset files"
    unfolding buildSections_def rows_of_groups [OF cols] js_groups_mset using all by simp
  have "list_all (\<lambda>(k, ys). ys \<noteq> [] \<and> list_all (\<lambda>y. ?key y = k) ys) (js_groups ?key ?xs)"
    using js_groups_ok [of ?key ?xs] by (simp add: groups_ok_def)
  then show "list_all (\<lambda>(k, rows). list_all (\<lambda>r. r \<noteq> [] \<and> length (padded_row (gallery_cols c) r) = gallery_cols c
     \<and> list_all (\<lambda>f. ?key f = k) r) rows) (buildSections ms month (gallery_cols c) files)"
    unfolding buildSections_def list.pred_map comp_def
  proof (rule list.pred_mono_strong)
    fix g
    assume "case g of (k, ys) \<Rightarrow> ys \<noteq> [] \<and> list_all (\<lambda>y. ?key y = k) ys"
    then have "list_all (\<lambda>y. ?key y = fst g) (snd g)" by (simp add: case_prod_beta)
    from slice_rows_members [OF this, of "gallery_cols c"] rows_padded [of "gallery_cols c" "snd g"]
    show "case (case g of (k, items) \<Rightarrow> (k, slice_rows (gallery_cols c) items)) of
        (k, rows) \<Rightarrow> list_all (\<lambda>r. r \<noteq> [] \<and> length (padded_row (gallery_cols c) r) = gallery_cols c
          \<and> list_all (\<lambda>f. ?key f = k) r) rows"
      by (simp add: case_prod_beta list_all_iff)
  qed
  show "concat (concat (map snd (buildSections ms month (gallery_cols c) files))) = rev (sort_key (file_time ms) (rev files))"
    if "mono month"
  proof -
    have "sorted (map (file_time ms) (rev ?xs))" using all by (simp add: rev_map)
    then have "sorted (map ?key (rev ?xs))" using that by (auto simp: sorted_map monoD elim!: sorted_wrt_mono_rel [rotated])
    then have "sorted (rev (map ?key ?xs))" by (simp add: rev_map)
    from js_groups_in_order [OF this] show ?thesis
      unfolding buildSections_def rows_of_groups [OF cols] using by_time.js_sort_key [of files ms] by simp
  qed
qed

section \<open>Actions on files\<close>

lemma delete_one_fields:
  "gl_files (delete_one ok i s) = (if ok (GaDelete i) then filter (\<lambda>f. ga_id f \<noteq> i) (gl_files s) else gl_files s)"
  "gl_calls (delete_one ok i s) = gl_calls s @ [GaDelete i]" "gl_alerts (delete_one ok i s) = gl_alerts s"
  "gl_cache (delete_one ok i s) = (if ok (GaDelete i) then (gl_cache s)(i := None) else gl_cache s)"
  "gl_selected (delete_one ok i s) = gl_selected s" "gl_toolbar (delete_one ok i s) = gl_toolbar s"
  by (simp_all add: delete_one_def drop_file_def Let_def)

lemma move_one_fields:
  "gl_files (move_one ok d i s) = (if ok (GaMove i d) then filter (\<lambda>f. ga_id f \<noteq> i) (gl_files s) else gl_files s)"
  "gl_calls (move_one ok d i s) = gl_calls s @ [GaMove i d]" "gl_alerts (move_one ok d i s) = gl_alerts s"
  "gl_selected (move_one ok d i s) = gl_selected s" "gl_toolbar (move_one ok d i s) = gl_toolbar s"
  by (simp_all add: move_one_def drop_file_def Let_def)

text \<open>A bulk action asks once for each selected file, in the order of selection, and takes out of the gallery exactly the
  files for which it succeeded; it ends the selection and says nothing, whatever failed.\<close>

theorem bulk_deletes_what_succeeded:
  "gl_files (handleBulkDelete ok ids s) = filter (\<lambda>f. \<not> (ga_id f \<in> set ids \<and> ok (GaDelete (ga_id f)))) (gl_files s)"
  "gl_calls (handleBulkDelete ok ids s) = gl_calls s @ map GaDelete ids"
  "\<And>i. i \<in> set ids \<Longrightarrow> ok (GaDelete i) \<Longrightarrow> gl_cache (handleBulkDelete ok ids s) i = None"
  "gl_selected (handleBulkDelete ok ids s) = [] \<and> gl_alerts (handleBulkDelete ok ids s) = gl_alerts s"
proof -
  have "gl_files (fold (delete_one ok) ids s) = filter (\<lambda>f. \<not> (ga_id f \<in> set ids \<and> ok (GaDelete (ga_id f)))) (gl_files s)
      \<and> gl_calls (fold (delete_one ok) ids s) = gl_calls s @ map GaDelete ids
      \<and> (\<forall>i. gl_cache (fold (delete_one ok) ids s) i = (if i \<in> set ids \<and> ok (GaDelete i) then None else gl_cache s i))
      \<and> gl_alerts (fold (delete_one ok) ids s) = gl_alerts s"
    by (induction ids arbitrary: s) (auto simp: delete_one_fields intro!: filter_cong)
  then show "gl_files (handleBulkDelete ok ids s) = filter (\<lambda>f. \<not> (ga_id f \<in> set ids \<and> ok (GaDelete (ga_id f)))) (gl_files s)"
    "gl_calls (handleBulkDelete ok ids s) = gl_calls s @ map GaDelete ids"
    "\<And>i. i \<in> set ids \<Longrightarrow> ok (GaDelete i) \<Longrightarrow> gl_cache (handleBulkDelete ok ids s) i = None"
    "gl_selected (handleBulkDelete ok ids s) = [] \<and> gl_alerts (handleBulkDelete ok ids s) = gl_alerts s"
    by (simp_all add: handleBulkDelete_def exitSelectMode_def)
qed

theorem bulk_moves_what_succeeded:
  "gl_files (handleBulkMove ok d s)
     = filter (\<lambda>f. \<not> (ga_id f \<in> set (gl_selected s) \<and> ok (GaMove (ga_id f) d))) (gl_files s)"
  "gl_calls (handleBulkMove ok d s) = gl_calls s @ map (\<lambda>i. GaMove i d) (gl_selected s)"
  "gl_selected (handleBulkMove ok d s) = [] \<and> \<not> gl_moveOpen (handleBulkMove ok d s)"
proof -
  have all: "gl_files (fold (move_one ok d) ids s) = filter (\<lambda>f. \<not> (ga_id f \<in> set ids \<and> ok (GaMove (ga_id f) d))) (gl_files s)
      \<and> gl_calls (fold (move_one ok d) ids s) = gl_calls s @ map (\<lambda>i. GaMove i d) ids
      \<and> gl_moveOpen (fold (move_one ok d) ids s) = gl_moveOpen s" for ids s
    by (induction ids arbitrary: s) (auto simp: move_one_fields move_one_def drop_file_def Let_def intro!: filter_cong)
  show "gl_files (handleBulkMove ok d s)
     = filter (\<lambda>f. \<not> (ga_id f \<in> set (gl_selected s) \<and> ok (GaMove (ga_id f) d))) (gl_files s)"
    "gl_calls (handleBulkMove ok d s) = gl_calls s @ map (\<lambda>i. GaMove i d) (gl_selected s)"
    "gl_selected (handleBulkMove ok d s) = [] \<and> \<not> gl_moveOpen (handleBulkMove ok d s)"
    using all [of "gl_selected s" "s\<lparr>gl_moveOpen := False\<rparr>"] by (simp_all add: handleBulkMove_def exitSelectMode_def)
qed

text \<open>No file is selected twice, the toolbar of a single file is closed while several are being selected, and nothing is
  moved into the collection it is in.\<close>

fun leads_elsewhere :: "string \<Rightarrow> gallery_call \<Rightarrow> bool" where
  "leads_elsewhere folder (GaMove i d) = (d \<noteq> folder)"
| "leads_elsewhere folder _ = True"

fun offers_elsewhere :: "string \<Rightarrow> (gallery_folder list \<times> gallery_folder list) option \<Rightarrow> bool" where
  "offers_elsewhere folder None = True"
| "offers_elsewhere folder (Some (inner, others)) = (folder \<notin> go_id ` (set inner \<union> set others))"

definition gallery_inv :: "gallery \<Rightarrow> bool" where
  "gallery_inv s \<longleftrightarrow> distinct (gl_selected s) \<and> (isSelectMode s \<longrightarrow> gl_toolbar s = None)
     \<and> offers_elsewhere (gl_folder s) (gl_destinations s)
     \<and> list_all (leads_elsewhere (gl_folder s)) (gl_calls s)"

lemma gallery_fold_keeps:
  "gl_folder (fold (delete_one ok) ids s) = gl_folder s" "gl_destinations (fold (delete_one ok) ids s) = gl_destinations s"
  "gl_folder (fold (move_one ok d) ids s) = gl_folder s" "gl_destinations (fold (move_one ok d) ids s) = gl_destinations s"
  by (induction ids arbitrary: s) (simp_all add: delete_one_def move_one_def drop_file_def Let_def)

lemma bulk_keeps:
  "gl_folder (handleBulkDelete ok ids s) = gl_folder s" "gl_destinations (handleBulkDelete ok ids s) = gl_destinations s"
  "gl_folder (handleBulkMove ok d s) = gl_folder s" "gl_destinations (handleBulkMove ok d s) = gl_destinations s"
  by (simp_all add: handleBulkDelete_def handleBulkMove_def exitSelectMode_def gallery_fold_keeps)

lemma bulk_delete_inv: "gallery_inv s \<Longrightarrow> gallery_inv (handleBulkDelete ok ids s)"
  using bulk_deletes_what_succeeded(2, 4) [of ok ids s]
  unfolding gallery_inv_def isSelectMode_def bulk_keeps by (auto simp: list_all_iff)

lemma bulk_move_inv: "gallery_inv s \<Longrightarrow> d \<noteq> gl_folder s \<Longrightarrow> gallery_inv (handleBulkMove ok d s)"
  using bulk_moves_what_succeeded(2, 3) [of ok d s]
  unfolding gallery_inv_def isSelectMode_def bulk_keeps by (auto simp: list_all_iff)

lemma single_delete_inv: "gallery_inv s \<Longrightarrow> gallery_inv (handleSingleDelete ok m i s)"
  by (auto simp: gallery_inv_def handleSingleDelete_def delete_one_def drop_file_def isSelectMode_def Let_def)

lemma gallery_inv_same:
  "gallery_inv s \<Longrightarrow> gl_selected s' = gl_selected s \<Longrightarrow> gl_toolbar s' = gl_toolbar s \<or> gl_toolbar s' = None \<or> gl_selected s = [] \<Longrightarrow>
   gl_destinations s' = gl_destinations s \<or> gl_destinations s' = None \<Longrightarrow> gl_folder s' = gl_folder s \<Longrightarrow>
   gl_calls s' = gl_calls s \<or> (\<exists>c. gl_calls s' = gl_calls s @ [c] \<and> leads_elsewhere (gl_folder s) c) \<Longrightarrow> gallery_inv s'"
  by (auto simp: gallery_inv_def isSelectMode_def)

lemma gallery_step_inv:
  assumes "gallery_inv s" "\<And>inner outer. ev = GaMoveLoaded (Inr (inner, outer)) \<Longrightarrow> gl_folder s \<notin> go_id ` set inner"
  shows "gallery_inv (gallery_step ev s)"
proof (cases ev)
  case (GaTap i)
  have "distinct (toggle_list i (gl_selected s))" using assms(1) by (auto simp: toggle_list_def gallery_inv_def distinct_removeAll)
  then have "gallery_inv (s\<lparr>gl_selected := toggle_list i (gl_selected s)\<rparr>)" if "isSelectMode s"
    using assms(1) that by (simp add: gallery_inv_def isSelectMode_def)
  moreover have "gallery_inv (s\<lparr>gl_toolbar := x\<rparr>)" if "\<not> isSelectMode s" for x
    using assms(1) that by (simp add: gallery_inv_def isSelectMode_def)
  ultimately show ?thesis using GaTap assms(1) by simp
next
  case (GaMoveLoaded res)
  then show ?thesis using assms
    by (cases res) (auto simp: gallery_inv_def isSelectMode_def move_destinations_def)
next
  case (GaMoveTo d ok)
  have "gallery_inv (handleBulkMove ok d s)" if "gl_destinations s = Some (inner, others)" "d \<in> go_id ` (set inner \<union> set others)" for inner others
  proof (rule bulk_move_inv [OF assms(1)])
    have "gl_folder s \<notin> go_id ` (set inner \<union> set others)"
      using assms(1) that(1) by (simp only: gallery_inv_def offers_elsewhere.simps) blast
    with that(2) show "d \<noteq> gl_folder s" by metis
  qed
  then show ?thesis using GaMoveTo assms(1) by (simp split: option.split prod.split)
next
  case (GaAnswer yes ok m)
  have "gallery_inv (s\<lparr>gl_asking := None\<rparr>)" using assms(1) by (simp add: gallery_inv_def isSelectMode_def)
  then show ?thesis using GaAnswer assms(1)
    by (simp add: Let_def single_delete_inv bulk_delete_inv split: option.split delete_question.split)
next
  case (GaHold i)
  then show ?thesis using assms(1) by (auto simp: gallery_inv_def isSelectMode_def)
next
  case GaBulkFavorite
  then show ?thesis using assms(1)
    by (auto simp: gallery_inv_def isSelectMode_def handleBulkFavorite_def exitSelectMode_def list_all_iff)
next
  case GaBulkDownload
  then show ?thesis using assms(1)
    by (auto simp: gallery_inv_def isSelectMode_def handleBulkDownload_def exitSelectMode_def list_all_iff)
next
  case GaCancel
  then show ?thesis using assms(1) by (simp add: gallery_inv_def isSelectMode_def exitSelectMode_def)
qed (use assms(1) in \<open>auto intro!: gallery_inv_same [OF assms(1)] simp: isSelectMode_def\<close>)

theorem gallery_actions_sound:
  assumes "gallery_inv s"
    and "\<And>inner outer. GaMoveLoaded (Inr (inner, outer)) \<in> set evs \<Longrightarrow> gl_folder s \<notin> go_id ` set inner"
  shows "gallery_inv (gallery_run evs s)"
proof -
  have folder: "gl_folder (gallery_step ev s) = gl_folder s" for ev s
    by (cases ev) (auto simp: handleBulkDownload_def handleBulkFavorite_def handleBulkMove_def handleBulkDelete_def
      handleSingleDelete_def exitSelectMode_def gallery_fold_keeps delete_one_def drop_file_def Let_def
      split: option.split delete_question.split prod.split)
  show ?thesis using assms unfolding gallery_run_def
  proof (induction evs arbitrary: s)
    case (Cons ev evs)
    have "gallery_inv (gallery_step ev s)"
    proof (rule gallery_step_inv [OF Cons.prems(1)])
      fix inner outer
      assume "ev = GaMoveLoaded (Inr (inner, outer))"
      then have "GaMoveLoaded (Inr (inner, outer)) \<in> set (ev # evs)" by simp
      then show "gl_folder s \<notin> go_id ` set inner" by (rule Cons.prems(2))
    qed
    from Cons.IH [OF this] Cons.prems(2) show ?case by (auto simp: folder)
  qed simp
qed

section \<open>Behaviours against the intent\<close>

text \<open>A long press that starts the selection marks the tile; when the system does not follow it with a press, the next tap
  on that tile, meant to take it out of the selection, is swallowed.\<close>

theorem tap_after_long_press_ignored:
  assumes "(t', True) = tile_longPress False t"
  shows "snd (tile_press t') = False \<and> snd (tile_press (fst (tile_press t'))) = True"
  using assms by (simp add: tile_longPress_def tile_press_def)

text \<open>The tile of a video downloads its file and never shows it.\<close>

theorem videos_fetched_for_nothing:
  assumes "starts_with ''video/'' (ga_mime f)" "cache (ga_id f) = None"
  shows "snd (mount_tile cache (ga_id f)) \<and> tile_image f (tile_fetched res (fst (mount_tile cache (ga_id f)))) = None"
  using assms by (auto simp: mount_tile_def tile_image_def tile_fetched_def starts_with_def split: sum.split)

end
