(* ===== verification/RecognitionGroups.thy ===== *)
theory RecognitionGroups
  imports FolderApi Decimals
begin

text \<open>
  The groups that recognition found in a media collection, \<open>frontend/src/components/RecognitionGroupsModal.tsx\<close> over
  \<open>frontend/src/api/recognition.ts\<close>: the requests, the polling of the index, and the window that lists, renames,
  merges and deletes groups. The answers are events. The lists of groups are kept per tab and kind, as the query
  cache keeps them; a list stands for the \<open>Set\<close> of selected ids, which keeps the order of insertion.
\<close>

section \<open>Groups and requests\<close>

datatype recog_kind = RecFace | RecPet | RecObject

fun kind_name :: "recog_kind \<Rightarrow> string" where
  "kind_name RecFace = ''face''"
| "kind_name RecPet = ''pet''"
| "kind_name RecObject = ''object''"

record recog_group =
  rg_id :: string
  rg_kind :: recog_kind
  rg_class :: "string option"
  rg_auto :: string
  rg_user :: "string option"
  rg_cover_detection :: "string option"
  rg_cover_file :: "string option"

definition group_text :: "recog_group \<Rightarrow> string" where
  "group_text g = or_else (rg_user g) (rg_auto g)"

definition detectionThumbUrl :: "string \<Rightarrow> string" where
  "detectionThumbUrl i = ''/api/v1/recognition/detections/'' @ i @ ''/thumb''"

fun given :: "string option \<Rightarrow> string option" where
  "given None = None"
| "given (Some s) = (if s = [] then None else Some s)"

definition group_cover :: "(string \<Rightarrow> string) \<Rightarrow> recog_group \<Rightarrow> string option" where
  "group_cover previewUrl g =
     (case (if rg_kind g \<noteq> RecObject then given (rg_cover_detection g) else None) of
        Some d \<Rightarrow> Some (detectionThumbUrl d)
      | None \<Rightarrow> map_option previewUrl (given (rg_cover_file g)))"

text \<open>\<open>encode\<close> of the parameters, empty when there are none.\<close>

definition groups_params :: "recog_kind option \<Rightarrow> bool \<Rightarrow> params" where
  "groups_params k labeled =
     (let ps = (case k of Some x \<Rightarrow> params_set ''kind'' (kind_name x) [] | None \<Rightarrow> [])
      in if labeled then params_set ''labeled'' ''true'' ps else ps)"

definition with_query :: "string \<Rightarrow> params \<Rightarrow> string" where
  "with_query path ps = path @ (if params_string ps = [] then [] else ''?'' @ params_string ps)"

definition groups_request :: "string \<Rightarrow> recog_kind option \<Rightarrow> bool \<Rightarrow> string" where
  "groups_request c k labeled = with_query (''/collections/'' @ c @ ''/recognition/groups'') (groups_params k labeled)"

definition group_files_request :: "string \<Rightarrow> string option \<Rightarrow> string" where
  "group_files_request g cursor =
     with_query (''/recognition/groups/'' @ g @ ''/files'')
       (case given cursor of Some x \<Rightarrow> params_set ''file_cursor'' x [] | None \<Rightarrow> [])"

datatype recog_call =
    RcRename string string
  | RcMerge string "string list"
  | RcDelete string

definition recog_send :: "recog_call \<Rightarrow> string \<times> string \<times> json" where
  "recog_send c =
     (case c of
        RcRename i l \<Rightarrow> (''PATCH'', ''/recognition/groups/'' @ i, json_object [(''label'', Some (JStr l))])
      | RcMerge t ss \<Rightarrow> (''POST'', ''/recognition/groups/'' @ t @ ''/merge'', json_object [(''source_group_ids'', Some (JArr (map JStr ss)))])
      | RcDelete i \<Rightarrow> (''DELETE'', ''/recognition/groups/'' @ i, JNull))"

definition enable_body :: "bool \<Rightarrow> bool option \<Rightarrow> json" where
  "enable_body enabled purge =
     json_object [(''enabled'', Some (JBool enabled)), (''purge'', Some (JBool (or_else purge False)))]"

section \<open>The index\<close>

record recog_status =
  rs_pending :: nat
  rs_processing :: nat
  rs_done :: nat
  rs_storage :: nat

definition indexing_of :: "recog_status option \<Rightarrow> nat" where
  "indexing_of st = (case st of Some x \<Rightarrow> rs_pending x + rs_processing x | None \<Rightarrow> 0)"

definition indexed_of :: "recog_status option \<Rightarrow> nat" where
  "indexed_of st = (case st of Some x \<Rightarrow> rs_done x | None \<Rightarrow> 0)"

text \<open>\<open>refetchInterval\<close>: milliseconds, or no further request.\<close>

definition refetchInterval :: "recog_status option \<Rightarrow> nat option" where
  "refetchInterval st =
     (case st of Some x \<Rightarrow> if 0 < rs_pending x + rs_processing x then Some 5000 else None | None \<Rightarrow> None)"

definition status_text :: "recog_status option \<Rightarrow> string" where
  "status_text st =
     (if 0 < indexing_of st
      then ''Indexing '' @ show_nat (indexed_of st) @ ''/'' @ show_nat (indexed_of st + indexing_of st) @ [CHR 0xE2, CHR 0x80, CHR 0xA6]
      else ''Up to date'')"

definition recog_bytes :: "nat \<Rightarrow> string" where
  "recog_bytes n =
     (if n < 1024 then show_nat n @ '' B''
      else if n < 1024 * 1024 then to_fixed 1 (of_nat n / 1024) @ '' KB''
      else if n < 1024 * 1024 * 1024 then to_fixed 1 (of_nat n / (1024 * 1024)) @ '' MB''
      else to_fixed 2 (of_nat n / (1024 * 1024 * 1024)) @ '' GB'')"

definition storage_note :: "recog_status option \<Rightarrow> bool \<Rightarrow> string option" where
  "storage_note st opened =
     (case st of
        Some x \<Rightarrow> if 0 < rs_storage x \<and> \<not> opened
                  then Some (''Recognition data uses '' @ recog_bytes (rs_storage x) @ '' of your storage.'') else None
      | None \<Rightarrow> None)"

definition no_groups_text :: "bool \<Rightarrow> recog_status option \<Rightarrow> string" where
  "no_groups_text labeled st =
     (if labeled then ''No labeled groups yet '' @ em_dash @ '' label a group to make it searchable.''
      else if 0 < indexing_of st then ''No groups yet '' @ em_dash @ '' indexing is still running.''
      else ''No groups found in this collection yet.'')"

section \<open>The window\<close>

record recog_window =
  rw_labeled :: bool
  rw_kind :: "recog_kind option"
  rw_opened :: "string option"
  rw_renaming :: "string option"
  rw_value :: string
  rw_selected :: "string list"
  rw_deleting :: "recog_group option"
  rw_data :: "bool \<times> recog_kind option \<Rightarrow> recog_group list option"
  rw_mergePending :: bool
  rw_deletePending :: bool
  rw_calls :: "recog_call list"
  rw_refetches :: nat
  rw_closed :: bool
  rw_notes :: "(bool \<times> string) list"

definition open_window :: "string option \<Rightarrow> recog_window" where
  "open_window i = \<lparr>rw_labeled = False, rw_kind = None, rw_opened = i, rw_renaming = None, rw_value = [], rw_selected = [],
     rw_deleting = None, rw_data = (\<lambda>_. None), rw_mergePending = False, rw_deletePending = False, rw_calls = [],
     rw_refetches = 0, rw_closed = False, rw_notes = []\<rparr>"

definition rw_key :: "recog_window \<Rightarrow> bool \<times> recog_kind option" where
  "rw_key s = (rw_labeled s, rw_kind s)"

definition rw_groups :: "recog_window \<Rightarrow> recog_group list" where
  "rw_groups s = or_else (rw_data s (rw_key s)) []"

definition openGroup :: "recog_window \<Rightarrow> recog_group option" where
  "openGroup s = find (\<lambda>g. Some (rg_id g) = rw_opened s) (rw_groups s)"

definition on_list :: "string \<Rightarrow> recog_window \<Rightarrow> bool" where
  "on_list i s \<longleftrightarrow> openGroup s = None \<and> i \<in> rg_id ` set (rw_groups s)"

definition toggle_sel :: "string \<Rightarrow> string list \<Rightarrow> string list" where
  "toggle_sel i xs = (if i \<in> set xs then removeAll i xs else xs @ [i])"

definition selectedGroups :: "recog_window \<Rightarrow> recog_group list" where
  "selectedGroups s = filter (\<lambda>g. rg_id g \<in> set (rw_selected s)) (rw_groups s)"

definition merge_kind :: "recog_group \<Rightarrow> string" where
  "merge_kind g = kind_name (rg_kind g) @ '':'' @ or_else (rg_class g) []"

definition canMerge :: "recog_window \<Rightarrow> bool" where
  "canMerge s \<longleftrightarrow> 2 \<le> length (selectedGroups s) \<and> card (set (map merge_kind (selectedGroups s))) = 1"

definition merge_bar :: "recog_window \<Rightarrow> string option" where
  "merge_bar s =
     (if 2 \<le> length (rw_selected s)
      then Some (show_nat (length (rw_selected s)) @ '' groups selected''
        @ (if canMerge s then [] else '' '' @ em_dash @ '' merge needs matching kinds''))
      else None)"

definition merge_call :: "recog_window \<Rightarrow> recog_call list" where
  "merge_call s =
     (if 2 \<le> length (rw_selected s) \<and> openGroup s = None \<and> canMerge s \<and> \<not> rw_mergePending s
      then (case map rg_id (selectedGroups s) of t # ss \<Rightarrow> [RcMerge t ss] | [] \<Rightarrow> []) else [])"

definition startRename :: "recog_group \<Rightarrow> recog_window \<Rightarrow> recog_window" where
  "startRename g s = s\<lparr>rw_renaming := Some (rg_id g), rw_value := or_else (rg_user g) []\<rparr>"

definition send_rename :: "string \<Rightarrow> recog_window \<Rightarrow> recog_window" where
  "send_rename i s = s\<lparr>rw_calls := rw_calls s @ [RcRename i (trim (rw_value s))]\<rparr>"

definition refetch_groups :: "recog_window \<Rightarrow> recog_window" where
  "refetch_groups s = s\<lparr>rw_refetches := Suc (rw_refetches s)\<rparr>"

definition rename_done :: "bool \<Rightarrow> recog_window \<Rightarrow> recog_window" where
  "rename_done ok s =
     (if ok then refetch_groups (s\<lparr>rw_renaming := None\<rparr>)
      else s\<lparr>rw_notes := rw_notes s @ [(False, ''Failed to rename group'')]\<rparr>)"

definition merge_done :: "bool \<Rightarrow> recog_window \<Rightarrow> recog_window" where
  "merge_done ok s =
     (if ok then refetch_groups (s\<lparr>rw_mergePending := False, rw_selected := [], rw_notes := rw_notes s @ [(True, ''Groups merged'')]\<rparr>)
      else s\<lparr>rw_mergePending := False,
             rw_notes := rw_notes s @ [(False, ''Merge failed '' @ em_dash @ '' groups must be the same kind'')]\<rparr>)"

definition delete_done :: "bool \<Rightarrow> recog_window \<Rightarrow> recog_window" where
  "delete_done ok s =
     (if ok then refetch_groups (s\<lparr>rw_deletePending := False, rw_deleting := None,
        rw_opened := (if rw_opened s \<noteq> None \<and> rw_opened s = map_option rg_id (rw_deleting s) then None else rw_opened s),
        rw_notes := rw_notes s @ [(True, ''Group deleted'')]\<rparr>)
      else s\<lparr>rw_deletePending := False, rw_notes := rw_notes s @ [(False, ''Failed to delete group'')]\<rparr>)"

datatype recog_event =
    RgArrive "bool \<times> recog_kind option" "recog_group list"
  | RgTab bool
  | RgKind "recog_kind option"
  | RgOpen string
  | RgBack
  | RgToggle string
  | RgClear
  | RgMerge
  | RgMerged bool
  | RgEdit recog_group
  | RgType string
  | RgEnter string
  | RgSave string
  | RgEscape
  | RgRenamed bool
  | RgAskDelete recog_group
  | RgCancelDelete
  | RgDelete
  | RgDeleted bool
  | RgClose

text \<open>Escape closes the window; in the field of a new name the same key press ends the renaming as well.\<close>

fun recog_step :: "recog_event \<Rightarrow> recog_window \<Rightarrow> recog_window" where
  "recog_step (RgArrive k gs) s = s\<lparr>rw_data := (rw_data s)(k := Some gs)\<rparr>"
| "recog_step (RgTab l) s = (if openGroup s = None then s\<lparr>rw_labeled := l, rw_selected := []\<rparr> else s)"
| "recog_step (RgKind k) s = (if openGroup s = None then s\<lparr>rw_kind := k, rw_selected := []\<rparr> else s)"
| "recog_step (RgOpen i) s = (if on_list i s then s\<lparr>rw_opened := Some i\<rparr> else s)"
| "recog_step RgBack s = s\<lparr>rw_opened := None\<rparr>"
| "recog_step (RgToggle i) s = (if on_list i s then s\<lparr>rw_selected := toggle_sel i (rw_selected s)\<rparr> else s)"
| "recog_step RgClear s = s\<lparr>rw_selected := []\<rparr>"
| "recog_step RgMerge s =
     (if merge_call s = [] then s else s\<lparr>rw_mergePending := True, rw_calls := rw_calls s @ merge_call s\<rparr>)"
| "recog_step (RgMerged ok) s = (if rw_mergePending s then merge_done ok s else s)"
| "recog_step (RgEdit g) s = (if openGroup s = None \<and> g \<in> set (rw_groups s) then startRename g s else s)"
| "recog_step (RgType t) s = (if rw_renaming s = None then s else s\<lparr>rw_value := t\<rparr>)"
| "recog_step (RgEnter i) s = (if on_list i s \<and> rw_renaming s = Some i then send_rename i s else s)"
| "recog_step (RgSave i) s = (if on_list i s \<and> rw_renaming s = Some i then send_rename i s else s)"
| "recog_step RgEscape s = s\<lparr>rw_renaming := None, rw_closed := True\<rparr>"
| "recog_step (RgRenamed ok) s = rename_done ok s"
| "recog_step (RgAskDelete g) s = (if openGroup s = None \<and> g \<in> set (rw_groups s) \<and> rw_labeled s then s\<lparr>rw_deleting := Some g\<rparr> else s)"
| "recog_step RgCancelDelete s = s\<lparr>rw_deleting := None\<rparr>"
| "recog_step RgDelete s =
     (case rw_deleting s of
        Some g \<Rightarrow> if rw_deletePending s then s else s\<lparr>rw_deletePending := True, rw_calls := rw_calls s @ [RcDelete (rg_id g)]\<rparr>
      | None \<Rightarrow> s)"
| "recog_step (RgDeleted ok) s = (if rw_deletePending s then delete_done ok s else s)"
| "recog_step RgClose s = s\<lparr>rw_closed := True\<rparr>"

text \<open>A closed window is gone.\<close>

definition recog_run :: "recog_event list \<Rightarrow> recog_window \<Rightarrow> recog_window" where
  "recog_run es s = fold (\<lambda>e t. if rw_closed t then t else recog_step e t) es s"

section \<open>The files of a group\<close>

record group_page =
  gp_items :: "string list"
  gp_next :: "string option"

definition group_files :: "group_page list \<Rightarrow> string list" where
  "group_files ps = concat (map gp_items ps)"

text \<open>\<open>getNextPageParam\<close> of the last page, and the request it leads to.\<close>

definition next_group_page :: "string \<Rightarrow> group_page list \<Rightarrow> string option" where
  "next_group_page g ps =
     (if ps = [] then Some (group_files_request g None)
      else map_option (\<lambda>t. group_files_request g (Some t)) (given (gp_next (last ps))))"

section \<open>Requests\<close>

text \<open>Different lists have different requests, so the answers of one tab are never kept for another.\<close>

lemma params_string_groups:
  "params_string (groups_params k labeled)
     = (case k of Some x \<Rightarrow> ''kind='' @ kind_name x @ (if labeled then ''&labeled=true'' else [])
        | None \<Rightarrow> if labeled then ''labeled=true'' else [])"
proof (cases k)
  case None
  then show ?thesis by (cases labeled) (simp_all, code_simp+)
next
  case (Some x)
  then show ?thesis by (cases x; cases labeled) (simp_all, code_simp+)
qed

lemma kind_name_inj: "kind_name k = kind_name l \<longleftrightarrow> k = l" "kind_name k @ ''&labeled=true'' \<noteq> kind_name l"
  by (cases k; cases l; simp)+

theorem groups_request_injective:
  "groups_request c k labeled = groups_request c k' labeled' \<longleftrightarrow> k = k' \<and> labeled = labeled'"
proof -
  have "params_string (groups_params k labeled) = params_string (groups_params k' labeled') \<longleftrightarrow> k = k' \<and> labeled = labeled'"
    unfolding params_string_groups by (cases labeled; cases labeled') (auto simp: kind_name_inj kind_name_inj(2) [symmetric] split: option.splits)
  then show ?thesis by (auto simp: groups_request_def with_query_def split: if_splits)
qed

text \<open>The index is polled exactly while the window says that it is being built.\<close>

theorem polls_while_indexing:
  "refetchInterval st = Some 5000 \<longleftrightarrow> status_text st \<noteq> ''Up to date''"
  "refetchInterval st \<in> {None, Some 5000}"
  "no_groups_text False st = ''No groups yet '' @ em_dash @ '' indexing is still running.'' \<longleftrightarrow> refetchInterval st = Some 5000"
  by (auto simp: refetchInterval_def status_text_def indexing_of_def no_groups_text_def split: option.splits)

section \<open>Merging\<close>

lemma merge_kind_eq: "merge_kind g = merge_kind h \<longleftrightarrow> rg_kind g = rg_kind h \<and> or_else (rg_class g) [] = or_else (rg_class h) []"
  by (cases "rg_kind g"; cases "rg_kind h") (auto simp: merge_kind_def)

lemma card_one_map: "xs \<noteq> [] \<Longrightarrow> card (set (map f xs)) = 1 \<longleftrightarrow> (\<forall>x \<in> set xs. f x = f (hd xs))"
proof
  assume "xs \<noteq> []" "card (set (map f xs)) = 1"
  then obtain v where "set (map f xs) = {v}" by (auto simp: card_1_singleton_iff)
  then show "\<forall>x \<in> set xs. f x = f (hd xs)" using \<open>xs \<noteq> []\<close> by (metis hd_in_set image_eqI list.set_map singletonD)
next
  assume "xs \<noteq> []" "\<forall>x \<in> set xs. f x = f (hd xs)"
  then have "set (map f xs) = {f (hd xs)}" by (metis (no_types) image_constant_conv image_cong list.set_map set_empty)
  then show "card (set (map f xs)) = 1" by simp
qed

text \<open>Merging is offered for at least two groups of the tab that are of one kind and one class; the first of them in the
  order of the list takes in the others, whatever the order they were ticked in.\<close>

theorem merge_offered:
  "canMerge s \<longleftrightarrow> 2 \<le> length (selectedGroups s)
     \<and> (\<forall>g \<in> set (selectedGroups s). \<forall>h \<in> set (selectedGroups s).
          rg_kind g = rg_kind h \<and> or_else (rg_class g) [] = or_else (rg_class h) [])"
proof (cases "selectedGroups s = []")
  case False
  then have "card (set (map merge_kind (selectedGroups s))) = 1
    \<longleftrightarrow> (\<forall>g \<in> set (selectedGroups s). \<forall>h \<in> set (selectedGroups s). merge_kind g = merge_kind h)"
    unfolding card_one_map [OF False] by (metis hd_in_set)
  then show ?thesis by (simp only: canMerge_def merge_kind_eq)
qed (simp add: canMerge_def)

theorem merge_in_list_order:
  assumes "distinct (map rg_id (rw_groups s))"
  shows "merge_call s = [] \<or>
      (\<exists>t ss. merge_call s = [RcMerge t ss] \<and> t # ss = filter (\<lambda>i. i \<in> set (rw_selected s)) (map rg_id (rw_groups s))
         \<and> ss \<noteq> [] \<and> distinct (t # ss))"
    and "set xs = set (rw_selected s) \<Longrightarrow> length xs = length (rw_selected s) \<Longrightarrow> merge_call (s\<lparr>rw_selected := xs\<rparr>) = merge_call s"
proof -
  have ids: "map rg_id (selectedGroups s) = filter (\<lambda>i. i \<in> set (rw_selected s)) (map rg_id (rw_groups s))"
    by (simp add: selectedGroups_def filter_map comp_def)
  have "distinct (map rg_id (selectedGroups s))" unfolding ids using assms by simp
  moreover have "2 \<le> length (map rg_id (selectedGroups s))" if "merge_call s \<noteq> []"
    using that by (auto simp: merge_call_def canMerge_def split: if_splits)
  ultimately show "merge_call s = [] \<or>
      (\<exists>t ss. merge_call s = [RcMerge t ss] \<and> t # ss = filter (\<lambda>i. i \<in> set (rw_selected s)) (map rg_id (rw_groups s))
         \<and> ss \<noteq> [] \<and> distinct (t # ss))"
    unfolding ids [symmetric]
    by (cases "map rg_id (selectedGroups s)") (auto simp: merge_call_def)
  show "merge_call (s\<lparr>rw_selected := xs\<rparr>) = merge_call s"
    if "set xs = set (rw_selected s)" "length xs = length (rw_selected s)"
    using that by (simp add: merge_call_def canMerge_def selectedGroups_def openGroup_def rw_groups_def rw_key_def)
qed

section \<open>The window stays consistent\<close>

text \<open>No group is selected twice, no group is merged into itself, and what is being deleted was asked for in the list of
  labeled groups.\<close>

fun sound_call :: "recog_call \<Rightarrow> bool" where
  "sound_call (RcMerge t ss) = (ss \<noteq> [] \<and> distinct (t # ss))"
| "sound_call (RcRename i l) = (trim l = l)"
| "sound_call (RcDelete i) = True"

definition data_ok :: "(bool \<times> recog_kind option \<Rightarrow> recog_group list option) \<Rightarrow> bool" where
  "data_ok d \<longleftrightarrow> (\<forall>k. distinct (map rg_id (or_else (d k) [])))"

definition recog_inv :: "recog_window \<Rightarrow> bool" where
  "recog_inv s \<longleftrightarrow> distinct (rw_selected s) \<and> list_all sound_call (rw_calls s)
     \<and> data_ok (rw_data s)"

lemma drop_while_idem: "dropWhile P (dropWhile P xs) = dropWhile P xs"
  by (induction xs) auto

lemma trim_trim: "trim (trim s) = trim s"
proof -
  have keep: "dropWhile is_space (rev (dropWhile is_space (rev t))) = rev (dropWhile is_space (rev t))"
    if "dropWhile is_space t = t" for t
  proof (cases "rev (dropWhile is_space (rev t))")
    case (Cons c cs)
    have "\<exists>z. t = rev (dropWhile is_space (rev t)) @ z"
      by (metis rev_append rev_rev_ident takeWhile_dropWhile_id)
    with Cons have "\<exists>z. t = c # z" by auto
    with that have "\<not> is_space c" by (metis dropWhile_eq_self_iff list.distinct(1) list.sel(1))
    with Cons show ?thesis by simp
  next
    case Nil
    then show ?thesis by (simp only: dropWhile.simps)
  qed
  show ?thesis unfolding trim_def by (subst keep) (simp_all add: drop_while_idem)
qed

lemma merge_call_sound: "recog_inv s \<Longrightarrow> list_all sound_call (merge_call s)"
proof -
  assume "recog_inv s"
  then have "distinct (map rg_id (rw_groups s))" by (simp add: recog_inv_def data_ok_def rw_groups_def del: split_paired_All)
  from merge_in_list_order(1) [OF this] show ?thesis
  proof
    assume "\<exists>t ss. merge_call s = [RcMerge t ss] \<and> t # ss = filter (\<lambda>i. i \<in> set (rw_selected s)) (map rg_id (rw_groups s))
      \<and> ss \<noteq> [] \<and> distinct (t # ss)"
    then obtain t ss where "merge_call s = [RcMerge t ss]" "ss \<noteq> []" "distinct (t # ss)" by blast
    then show ?thesis by simp
  qed simp
qed

lemma recog_inv_same:
  "recog_inv s \<Longrightarrow> rw_data s' = rw_data s \<Longrightarrow> rw_selected s' = rw_selected s \<or> rw_selected s' = [] \<Longrightarrow>
   rw_calls s' = rw_calls s \<or> (\<exists>c. rw_calls s' = rw_calls s @ [c] \<and> sound_call c) \<Longrightarrow> recog_inv s'"
  by (auto simp: recog_inv_def)

lemma recog_step_inv:
  assumes "recog_inv s" "\<And>k gs. e = RgArrive k gs \<Longrightarrow> distinct (map rg_id gs)"
  shows "recog_inv (recog_step e s)"
proof (cases e)
  case (RgArrive k gs)
  then show ?thesis using assms by (simp add: recog_inv_def data_ok_def)
next
  case (RgToggle i)
  have "distinct (toggle_sel i (rw_selected s))"
    using assms(1) by (auto simp: toggle_sel_def recog_inv_def distinct_removeAll)
  then show ?thesis using RgToggle assms(1) by (simp add: recog_inv_def)
next
  case RgMerge
  then show ?thesis using assms(1) merge_call_sound [OF assms(1)] by (simp add: recog_inv_def)
qed (use assms(1) in \<open>auto intro!: recog_inv_same [OF assms(1)]
       simp: startRename_def send_rename_def trim_trim rename_done_def merge_done_def delete_done_def refetch_groups_def
       split: option.split\<close>)

theorem recog_window_sound:
  assumes "\<And>k gs. RgArrive k gs \<in> set es \<Longrightarrow> distinct (map rg_id gs)"
  shows "recog_inv (recog_run es (open_window i))"
proof -
  have "recog_inv s \<Longrightarrow> \<forall>k gs. RgArrive k gs \<in> set es \<longrightarrow> distinct (map rg_id gs) \<Longrightarrow> recog_inv (recog_run es s)" for s
    unfolding recog_run_def
  proof (induction es arbitrary: s)
    case (Cons e es)
    then show ?case using recog_step_inv [of s e] by auto
  qed simp
  moreover have "recog_inv (open_window i)" by (simp add: recog_inv_def open_window_def data_ok_def)
  ultimately show ?thesis using assms by blast
qed

text \<open>One merge and one deletion at a time: another press sends nothing until the answer.\<close>

theorem merge_and_delete_once:
  "rw_mergePending s \<Longrightarrow> recog_step RgMerge s = s"
  "rw_deletePending s \<Longrightarrow> recog_step RgDelete s = s"
  by (simp_all add: merge_call_def split: option.split)

text \<open>Every group of the list is shown with a picture or the symbol of its kind, and the crop of an object is never asked for.\<close>

theorem cover_of_group:
  "group_cover preview g = None \<longleftrightarrow>
     (rg_kind g = RecObject \<or> given (rg_cover_detection g) = None) \<and> given (rg_cover_file g) = None"
  "rg_kind g = RecObject \<Longrightarrow> group_cover preview g = map_option preview (given (rg_cover_file g))"
  by (auto simp: group_cover_def split: option.splits)

section \<open>Behaviours against the intent\<close>

text \<open>Renaming has no guard against a pending request: Enter and the button send the same name twice.\<close>

theorem recog_renamed_twice:
  assumes "on_list i s" "rw_renaming s = Some i"
  shows "rw_calls (recog_step (RgSave i) (recog_step (RgEnter i) s))
     = rw_calls s @ [RcRename i (trim (rw_value s)), RcRename i (trim (rw_value s))]"
proof -
  have "on_list i (send_rename i s)" using assms(1)
    by (simp add: on_list_def openGroup_def rw_groups_def rw_key_def send_rename_def)
  then show ?thesis using assms by (simp add: send_rename_def)
qed

text \<open>The answer to a renaming closes whichever field is open when it comes.\<close>

theorem recog_late_rename_closes_other:
  assumes "openGroup s = None" "g \<in> set (rw_groups s)" "h \<in> set (rw_groups s)" "rg_id g \<noteq> rg_id h"
  defines "s1 \<equiv> recog_step (RgType ''Anna'') (recog_step (RgEdit h) (recog_step (RgEnter (rg_id g)) (recog_step (RgEdit g) s)))"
  shows "rw_renaming s1 = Some (rg_id h) \<and> rw_value s1 = ''Anna'' \<and> rw_renaming (recog_step (RgRenamed True) s1) = None"
proof -
  have keep: "openGroup (s\<lparr>rw_renaming := a, rw_value := b, rw_calls := c\<rparr>) = openGroup s"
    "rw_groups (s\<lparr>rw_renaming := a, rw_value := b, rw_calls := c\<rparr>) = rw_groups s" for a b c
    by (simp_all add: openGroup_def rw_groups_def rw_key_def)
  have "recog_step (RgEnter (rg_id g)) (recog_step (RgEdit g) s)
      = s\<lparr>rw_renaming := Some (rg_id g), rw_value := or_else (rg_user g) [],
          rw_calls := rw_calls s @ [RcRename (rg_id g) (trim (or_else (rg_user g) []))]\<rparr>"
    using assms(1, 2) keep [where c = "rw_calls s"] by (simp add: startRename_def send_rename_def on_list_def)
  then show ?thesis using assms(1, 3) unfolding s1_def
    by (simp add: keep startRename_def rename_done_def refetch_groups_def)
qed

text \<open>Escape in the field of a name also reaches the listener of the document: the whole window closes.\<close>

theorem escape_in_field_closes_window:
  assumes "rw_renaming s = Some i"
  shows "rw_closed (recog_step RgEscape s) \<and> recog_run es (recog_step RgEscape s) = recog_step RgEscape s"
proof -
  have "rw_closed s' \<Longrightarrow> recog_run es s' = s'" for s' unfolding recog_run_def by (induction es) simp_all
  then show ?thesis by simp
qed

text \<open>A deleted group stays selected: the bar goes on counting it, and offers what it cannot do.\<close>

theorem deleted_group_still_counted:
  assumes "openGroup s = None" "rw_selected s = [rg_id g, rg_id h]" "rg_id g \<noteq> rg_id h" "rw_deleting s = Some g" "rw_deletePending s"
    and "rg_id g \<notin> rg_id ` set gs" "distinct (map rg_id gs)"
  defines "s1 \<equiv> recog_step (RgArrive (rw_key s) gs) (recog_step (RgDeleted True) s)"
  shows "merge_bar s1 = Some (''2 groups selected '' @ em_dash @ '' merge needs matching kinds'')"
proof -
  have groups: "rw_groups s1 = gs" and sel: "rw_selected s1 = [rg_id g, rg_id h]"
    using assms(2, 5) unfolding s1_def by (simp_all add: rw_groups_def rw_key_def delete_done_def refetch_groups_def)
  have "length (filter (\<lambda>x. rg_id x \<in> {rg_id g, rg_id h}) gs) \<le> 1"
  proof -
    have "filter (\<lambda>x. rg_id x \<in> {rg_id g, rg_id h}) gs = filter (\<lambda>x. rg_id x = rg_id h) gs"
      using assms(6) by (intro filter_cong) (auto, metis image_eqI)
    moreover have "length (filter (\<lambda>x. rg_id x = rg_id h) gs) \<le> 1" using assms(7)
    proof (induction gs)
      case (Cons x xs)
      then show ?case by (auto simp: filter_empty_conv image_iff)
    qed simp
    ultimately show ?thesis by simp
  qed
  then have "\<not> canMerge s1" by (simp add: canMerge_def selectedGroups_def groups sel)
  then show ?thesis by (simp add: merge_bar_def sel) code_simp
qed

end
