(* ===== verification/Sharing.thy ===== *)
theory Sharing
  imports ApiClient Decimals
begin

text \<open>
  Sharing: the requests of \<open>frontend/src/api/shares.ts\<close>, the window that makes a share
  (\<open>components/ShareModal.tsx\<close>), the lists of shares (\<open>routes/_auth.client/shared.index.tsx\<close>) and the view of a shared file or
  folder (\<open>routes/_auth.client/shared.$shareId.tsx\<close>). Answers are events; what the clipboard and the server answer are parameters.
\<close>

section \<open>Requests\<close>

record share_input =
  si_file :: "string option"
  si_folder :: "string option"
  si_email :: string
  si_download :: bool
  si_upload :: "bool option"
  si_children :: "bool option"
  si_notify :: bool

definition createShare :: "share_input \<Rightarrow> json" where
  "createShare i = json_object
     [(''file_id'', map_option JStr (si_file i)), (''folder_id'', map_option JStr (si_folder i)),
      (''recipient_email'', Some (JStr (si_email i))), (''can_download'', Some (JBool (si_download i))),
      (''can_upload'', Some (JBool (or_else (si_upload i) False))),
      (''include_children'', Some (JBool (or_else (si_children i) False))), (''notify'', Some (JBool (si_notify i)))]"

text \<open>A query with one id, when there is one that is not empty.\<close>

definition id_query :: "string \<Rightarrow> string option \<Rightarrow> string" where
  "id_query name i = (case i of Some x \<Rightarrow> if x = [] then [] else ''?'' @ name @ ''='' @ x | None \<Rightarrow> [])"

definition sharedContents :: "string \<Rightarrow> string option \<Rightarrow> string" where
  "sharedContents s folder = ''/shares/'' @ s @ ''/contents'' @ id_query ''folder_id'' folder"

definition sharedFile :: "string \<Rightarrow> string option \<Rightarrow> string" where
  "sharedFile s file = ''/shares/'' @ s @ ''/file'' @ id_query ''file_id'' file"

definition sharedPreviewUrl :: "string \<Rightarrow> string option \<Rightarrow> string" where
  "sharedPreviewUrl s file = ''/api/v1/shares/'' @ s @ ''/file/preview'' @ id_query ''file_id'' file"

definition sharedDownloadUrl :: "string \<Rightarrow> string option \<Rightarrow> string" where
  "sharedDownloadUrl s file = ''/api/v1/shares/'' @ s @ ''/file/download'' @ id_query ''file_id'' file"

definition resolveShareToken :: "string \<Rightarrow> string" where
  "resolveShareToken token = ''/shares/resolve/'' @ encodeURIComponent token"

text \<open>The fields of the form of an upload into a share.\<close>

definition upload_form :: "string \<Rightarrow> string option \<Rightarrow> (string \<times> string) list" where
  "upload_form file folder =
     (''file'', file) # (case folder of Some x \<Rightarrow> if x = [] then [] else [(''folder_id'', x)] | None \<Rightarrow> [])"

section \<open>A share\<close>

record share =
  sh_id :: string
  sh_is_folder :: bool
  sh_folder_id :: "string option"
  sh_name :: string
  sh_download :: bool
  sh_upload :: bool
  sh_children :: bool
  sh_mime :: "string option"
  sh_url :: string

definition permission_label :: "share \<Rightarrow> string list" where
  "permission_label s =
     (if sh_is_folder s
      then (if sh_upload s then [''view'', ''upload'', ''download''] else if sh_download s then [''view'', ''download''] else [''view only''])
      else if sh_download s then [''view'', ''download''] else [''view only''])"

definition access_text :: "share \<Rightarrow> string" where
  "access_text s =
     (if sh_upload s then ''You can view, upload and download here.''
      else if sh_download s then ''You can view and download here.'' else ''View-only access.'')"

definition share_bytes :: "nat \<Rightarrow> string" where
  "share_bytes b =
     (if 1024 * 1024 * 1024 \<le> b then to_fixed 1 (of_nat b / (1024 * 1024 * 1024)) @ '' GB''
      else if 1024 * 1024 \<le> b then to_fixed 1 (of_nat b / (1024 * 1024)) @ '' MB''
      else if 1024 \<le> b then to_fixed 1 (of_nat b / 1024) @ '' KB'' else show_nat b @ '' B'')"

section \<open>Making a share\<close>

datatype folder_mode = ViewMode | EditMode

record share_form =
  sf_is_file :: bool
  sf_item :: string
  sf_email :: string
  sf_download :: bool
  sf_mode :: folder_mode
  sf_children :: bool
  sf_notify :: bool
  sf_created :: "share option"
  sf_copied :: bool
  sf_error :: "string option"
  sf_pending :: bool
  sf_sent :: "share_input list"
  sf_refetches :: nat
  sf_closed :: bool

definition open_share :: "bool \<Rightarrow> string \<Rightarrow> share_form" where
  "open_share is_file item =
     \<lparr>sf_is_file = is_file, sf_item = item, sf_email = [], sf_download = False, sf_mode = ViewMode, sf_children = True,
      sf_notify = True, sf_created = None, sf_copied = False, sf_error = None, sf_pending = False, sf_sent = [],
      sf_refetches = 0, sf_closed = False\<rparr>"

definition input_of :: "share_form \<Rightarrow> share_input" where
  "input_of f =
     (if sf_is_file f
      then \<lparr>si_file = Some (sf_item f), si_folder = None, si_email = trim (sf_email f), si_download = sf_download f,
            si_upload = None, si_children = None, si_notify = sf_notify f\<rparr>
      else \<lparr>si_file = None, si_folder = Some (sf_item f), si_email = trim (sf_email f), si_download = (sf_mode f = EditMode),
            si_upload = Some (sf_mode f = EditMode), si_children = Some (sf_children f), si_notify = sf_notify f\<rparr>)"

definition submit_share :: "share_form \<Rightarrow> share_form" where
  "submit_share f =
     (if trim (sf_email f) = [] \<or> sf_pending f then f
      else f\<lparr>sf_pending := True, sf_sent := sf_sent f @ [input_of f]\<rparr>)"

fun failure_text :: "string \<Rightarrow> api_exn \<Rightarrow> string" where
  "failure_text d (ApiError _ (JStr m) _ _) = m"
| "failure_text d _ = d"

definition share_answered :: "api_exn + share \<Rightarrow> share_form \<Rightarrow> share_form" where
  "share_answered r f =
     (case r of
        Inr s \<Rightarrow> f\<lparr>sf_pending := False, sf_created := Some s, sf_error := None, sf_refetches := Suc (sf_refetches f)\<rparr>
      | Inl e \<Rightarrow> f\<lparr>sf_pending := False, sf_error := Some (failure_text ''Failed to create share'' e)\<rparr>)"

datatype share_event =
    ShEmail string
  | ShDownload bool
  | ShMode folder_mode
  | ShChildren bool
  | ShNotify bool
  | ShEnter
  | ShPress
  | ShAnswer "api_exn + share"
  | ShCopy bool
  | ShCopyTimer
  | ShClose

fun form_step :: "share_event \<Rightarrow> share_form \<Rightarrow> share_form" where
  "form_step (ShEmail t) f = (if sf_created f = None then f\<lparr>sf_email := t\<rparr> else f)"
| "form_step (ShDownload b) f = (if sf_created f = None \<and> sf_is_file f then f\<lparr>sf_download := b\<rparr> else f)"
| "form_step (ShMode m) f = (if sf_created f = None \<and> \<not> sf_is_file f then f\<lparr>sf_mode := m\<rparr> else f)"
| "form_step (ShChildren b) f = (if sf_created f = None \<and> \<not> sf_is_file f then f\<lparr>sf_children := b\<rparr> else f)"
| "form_step (ShNotify b) f = (if sf_created f = None then f\<lparr>sf_notify := b\<rparr> else f)"
| "form_step ShEnter f = (if sf_created f = None then submit_share f else f)"
| "form_step ShPress f = (if sf_created f = None then submit_share f else f)"
| "form_step (ShAnswer r) f = (if sf_pending f then share_answered r f else f)"
| "form_step (ShCopy ok) f = (if sf_created f \<noteq> None \<and> ok then f\<lparr>sf_copied := True\<rparr> else f)"
| "form_step ShCopyTimer f = f\<lparr>sf_copied := False\<rparr>"
| "form_step ShClose f = f\<lparr>sf_closed := True\<rparr>"

definition form_run :: "share_event list \<Rightarrow> share_form \<Rightarrow> share_form" where
  "form_run es f = fold (\<lambda>e t. if sf_closed t then t else form_step e t) es f"

section \<open>The lists\<close>

record shares_page =
  sp_by_me :: bool
  sp_with :: "(unit + share list) option"
  sp_mine :: "(unit + share list) option"
  sp_revoking :: bool
  sp_revokes :: "string list"
  sp_reloads :: nat
  sp_notes :: "string list"

definition tab_of :: "string option \<Rightarrow> bool" where
  "tab_of t = (t = Some ''by-me'')"

definition open_shares :: "string option \<Rightarrow> shares_page" where
  "open_shares t = \<lparr>sp_by_me = tab_of t, sp_with = None, sp_mine = None, sp_revoking = False, sp_revokes = [],
     sp_reloads = 0, sp_notes = []\<rparr>"

definition loaded :: "(unit + share list) option \<Rightarrow> share list" where
  "loaded r = (case r of Some (Inr xs) \<Rightarrow> xs | _ \<Rightarrow> [])"

text \<open>What the page shows: nothing yet, a sentence, or the list.\<close>

datatype shares_view = SharesLoading | SharesText string | SharesList "share list"

definition shares_view :: "shares_page \<Rightarrow> shares_view" where
  "shares_view p =
     (if sp_with p = None \<or> sp_mine p = None then SharesLoading
      else if sp_by_me p
        then (if loaded (sp_mine p) = []
              then SharesText ''You haven't shared anything. Use the share icon next to a file or folder.''
              else SharesList (loaded (sp_mine p)))
        else (if loaded (sp_with p) = [] then SharesText ''Nothing has been shared with you yet.'' else SharesList (loaded (sp_with p))))"

definition revoke_press :: "string \<Rightarrow> shares_page \<Rightarrow> shares_page" where
  "revoke_press i p =
     (if sp_revoking p \<or> \<not> sp_by_me p \<or> i \<notin> sh_id ` set (loaded (sp_mine p)) then p
      else p\<lparr>sp_revoking := True, sp_revokes := sp_revokes p @ [i]\<rparr>)"

definition revoke_answer :: "bool \<Rightarrow> shares_page \<Rightarrow> shares_page" where
  "revoke_answer ok p =
     (if ok then p\<lparr>sp_revoking := False, sp_reloads := Suc (sp_reloads p)\<rparr>
      else p\<lparr>sp_revoking := False, sp_notes := sp_notes p @ [''Failed to revoke share'']\<rparr>)"

section \<open>The view of a share\<close>

datatype share_failure = OtherAccount | NoShare

definition share_failure_of :: "api_exn \<Rightarrow> share_failure" where
  "share_failure_of e = (case e of ApiError c _ _ _ \<Rightarrow> if c = 403 then OtherAccount else NoShare | _ \<Rightarrow> NoShare)"

fun failure_title :: "share_failure \<Rightarrow> string" where
  "failure_title OtherAccount = ''This share belongs to a different account''"
| "failure_title NoShare = ''Share not found''"

text \<open>A place: the lists, or a share with the folder and the file of its address.\<close>

datatype share_place = SharesPlace | InShare "string option" "string option"

datatype share_screen = OneFile | FileOf string | FolderOf "string option"

definition filled :: "string option \<Rightarrow> string option" where
  "filled x = (if x = Some [] then None else x)"

definition share_screen :: "share \<Rightarrow> string option \<Rightarrow> string option \<Rightarrow> share_screen" where
  "share_screen s folder file =
     (if \<not> sh_is_folder s then OneFile else case filled file of Some f \<Rightarrow> FileOf f | None \<Rightarrow> FolderOf folder)"

definition atShareRoot :: "share \<Rightarrow> string option \<Rightarrow> bool" where
  "atShareRoot s folder \<longleftrightarrow> filled folder = None \<or> folder = sh_folder_id s"

definition openSubfolder :: "string \<Rightarrow> share_place" where "openSubfolder i = InShare (Some i) None"

definition openSharedFile :: "string option \<Rightarrow> string \<Rightarrow> share_place" where "openSharedFile folder i = InShare folder (Some i)"

definition fileBack :: "string option \<Rightarrow> share_place" where "fileBack folder = InShare folder None"

text \<open>\<open>parent\<close> is what the listing says of the folder that is shown.\<close>

definition goBack :: "share \<Rightarrow> string option \<Rightarrow> string option \<Rightarrow> share_place" where
  "goBack s folder parent =
     (if atShareRoot s folder then SharesPlace
      else InShare (if filled parent \<noteq> None \<and> parent \<noteq> sh_folder_id s then parent else None) None)"

definition downloadUrl :: "share \<Rightarrow> string option \<Rightarrow> string option" where
  "downloadUrl s file = (if sh_download s then Some (sharedDownloadUrl (sh_id s) file) else None)"

text \<open>The rows of a folder: the first page of each list.\<close>

record 'a listing_page =
  lp_items :: "'a list"
  lp_next :: string

definition shared_rows :: "'a listing_page option \<Rightarrow> 'a list" where
  "shared_rows p = (case p of Some x \<Rightarrow> lp_items x | None \<Rightarrow> [])"

section \<open>Uploading into a share\<close>

record share_upload =
  su_uploading :: bool
  su_calls :: "(string \<times> string option) list"
  su_failed :: nat
  su_notes :: "(bool \<times> string) list"
  su_reloads :: nat

definition upload_one ::
  "string option \<Rightarrow> string \<times> api_exn option \<Rightarrow> share_upload \<Rightarrow> share_upload" where
  "upload_one folder p u =
     (let u1 = u\<lparr>su_calls := su_calls u @ [(fst p, folder)]\<rparr>
      in case snd p of
           None \<Rightarrow> u1
         | Some e \<Rightarrow> u1\<lparr>su_failed := Suc (su_failed u1), su_notes := su_notes u1 @ [(False,
             (case e of ApiError _ (JStr m) _ _ \<Rightarrow> fst p @ '': '' @ m | _ \<Rightarrow> ''Failed to upload '' @ fst p))]\<rparr>)"

text \<open>The files chosen, each with the way its upload ends.\<close>

definition handleUpload :: "share \<Rightarrow> string option \<Rightarrow> (string \<times> api_exn option) list \<Rightarrow> share_upload \<Rightarrow> share_upload" where
  "handleUpload s folder selected u =
     (if selected = [] then u
      else let u1 = fold (upload_one (if atShareRoot s folder then None else folder)) selected (u\<lparr>su_uploading := True, su_failed := 0\<rparr>);
               sent = length selected - su_failed u1
           in u1\<lparr>su_uploading := False, su_reloads := Suc (su_reloads u1),
                 su_notes := su_notes u1 @ (if su_failed u1 < length selected
                   then [(True, ''Uploaded '' @ show_nat sent @ '' file'' @ (if sent \<noteq> 1 then ''s'' else []))] else [])\<rparr>)"

section \<open>The preview\<close>

datatype preview_kind = ImageView | PdfView | VideoView | AudioView | TextView | NoView

definition previewKind :: "string \<Rightarrow> preview_kind" where
  "previewKind m =
     (if starts_with ''image/'' m then ImageView else if m = ''application/pdf'' then PdfView
      else if starts_with ''video/'' m then VideoView else if starts_with ''audio/'' m then AudioView
      else if starts_with ''text/'' m \<or> m = ''application/json'' \<or> m = ''application/xml'' then TextView else NoView)"

text \<open>The link under a file that cannot be shown, or the sentence in its place; the header has the same link.\<close>

definition fallback_link :: "preview_kind \<Rightarrow> bool \<Rightarrow> string option \<Rightarrow> string option" where
  "fallback_link k pdfFailed url = (if k = NoView \<or> k = PdfView \<and> pdfFailed then url else None)"

section \<open>What is asked for\<close>

text \<open>Every request names a recipient and exactly the item of the window; a file is never shared for uploading, and uploading
  into a folder is never granted without downloading.\<close>

definition sound_input :: "bool \<Rightarrow> string \<Rightarrow> share_input \<Rightarrow> bool" where
  "sound_input is_file item i \<longleftrightarrow> si_email i \<noteq> [] \<and> si_file i = (if is_file then Some item else None)
     \<and> si_folder i = (if is_file then None else Some item)
     \<and> (if is_file then si_upload i = None \<and> si_children i = None else si_upload i = Some (si_download i) \<and> si_children i \<noteq> None)"

lemma input_sound: "trim (sf_email f) \<noteq> [] \<Longrightarrow> sound_input (sf_is_file f) (sf_item f) (input_of f)"
  by (simp add: sound_input_def input_of_def)

lemma submit_share_facts:
  "sf_is_file (submit_share f) = sf_is_file f" "sf_item (submit_share f) = sf_item f" "sf_created (submit_share f) = sf_created f"
  "list_all (sound_input (sf_is_file f) (sf_item f)) (sf_sent f) \<Longrightarrow>
     list_all (sound_input (sf_is_file f) (sf_item f)) (sf_sent (submit_share f))"
  by (simp_all add: submit_share_def input_sound)

lemma form_step_item: "sf_is_file (form_step e f) = sf_is_file f" "sf_item (form_step e f) = sf_item f"
  by (cases e; simp add: submit_share_facts share_answered_def split: sum.split)+

lemma form_step_sound:
  "list_all (sound_input (sf_is_file f) (sf_item f)) (sf_sent f) \<Longrightarrow>
   list_all (sound_input (sf_is_file f) (sf_item f)) (sf_sent (form_step e f))"
proof (cases "e = ShEnter \<or> e = ShPress")
  case True
  then show "list_all (sound_input (sf_is_file f) (sf_item f)) (sf_sent f) \<Longrightarrow> ?thesis"
    using submit_share_facts(4) [of f] by auto
next
  case False
  then show "list_all (sound_input (sf_is_file f) (sf_item f)) (sf_sent f) \<Longrightarrow> ?thesis"
    by (cases e; cases "sf_is_file f") (simp_all add: share_answered_def split: sum.split)
qed

theorem shares_asked_soundly: "list_all (sound_input is_file item) (sf_sent (form_run es (open_share is_file item)))"
proof -
  have "list_all (sound_input (sf_is_file f) (sf_item f)) (sf_sent f) \<Longrightarrow>
      list_all (sound_input (sf_is_file f) (sf_item f)) (sf_sent (form_run es f))" for f
    unfolding form_run_def
  proof (induction es arbitrary: f)
    case (Cons e es)
    then show ?case using form_step_sound [of f e] Cons.IH [of "form_step e f"] by (simp add: form_step_item)
  qed simp
  from this [of "open_share is_file item"] show ?thesis by (simp add: open_share_def)
qed

text \<open>One request at a time, and none once the share is there.\<close>

theorem share_requested_once:
  "sf_pending f \<Longrightarrow> form_step ShEnter f = f \<and> form_step ShPress f = f"
  "sf_created f \<noteq> None \<Longrightarrow> \<not> sf_pending f \<Longrightarrow> sf_sent (form_run es f) = sf_sent f \<and> sf_created (form_run es f) = sf_created f"
proof -
  show "sf_pending f \<Longrightarrow> form_step ShEnter f = f \<and> form_step ShPress f = f" by (simp add: submit_share_def)
  have step: "sf_created f \<noteq> None \<Longrightarrow> \<not> sf_pending f \<Longrightarrow> sf_sent (form_step e f) = sf_sent f
      \<and> sf_created (form_step e f) = sf_created f \<and> \<not> sf_pending (form_step e f)" for e f
    by (cases e) auto
  show "sf_created f \<noteq> None \<Longrightarrow> \<not> sf_pending f \<Longrightarrow> sf_sent (form_run es f) = sf_sent f \<and> sf_created (form_run es f) = sf_created f"
    unfolding form_run_def
  proof (induction es arbitrary: f)
    case (Cons e es)
    then show ?case using step [of f e] Cons.IH [of "form_step e f"] by auto
  qed simp
qed

text \<open>A share that carries what was asked for says so to both sides: the mode chosen, the label in the lists, the sentence in the
  folder and the links agree.\<close>

theorem permissions_agree:
  assumes "sh_is_folder s = (\<not> sf_is_file f)" "sh_download s = si_download (input_of f)"
    "sh_upload s = or_else (si_upload (input_of f)) False"
  shows "sf_is_file f \<Longrightarrow> permission_label s = (if sf_download f then [''view'', ''download''] else [''view only''])"
    and "\<not> sf_is_file f \<Longrightarrow> permission_label s = (if sf_mode f = EditMode then [''view'', ''upload'', ''download''] else [''view only''])
      \<and> access_text s = (if sf_mode f = EditMode then ''You can view, upload and download here.'' else ''View-only access.'')"
    and "downloadUrl s x \<noteq> None \<longleftrightarrow> (if sf_is_file f then sf_download f else sf_mode f = EditMode)"
  using assms by (simp_all add: input_of_def permission_label_def access_text_def downloadUrl_def)

theorem no_download_without_permission:
  "\<not> sh_download s \<Longrightarrow> downloadUrl s x = None \<and> fallback_link k b (downloadUrl s x) = None"
  by (simp add: downloadUrl_def fallback_link_def)

section \<open>Moving about\<close>

text \<open>The way back, when \<open>par\<close> is the parent the listings name.\<close>

fun back_from :: "share \<Rightarrow> (string \<Rightarrow> string option) \<Rightarrow> share_place \<Rightarrow> share_place" where
  "back_from s par SharesPlace = SharesPlace"
| "back_from s par (InShare folder (Some f)) = fileBack folder"
| "back_from s par (InShare None None) = goBack s None None"
| "back_from s par (InShare (Some c) None) = goBack s (Some c) (par c)"

text \<open>A chain of folders from the deepest to a child of the shared folder \<open>r\<close>.\<close>

fun chain_to :: "string \<Rightarrow> (string \<Rightarrow> string option) \<Rightarrow> string list \<Rightarrow> bool" where
  "chain_to r par [] = True"
| "chain_to r par (c # cs) = (par c = Some (case cs of [] \<Rightarrow> r | d # _ \<Rightarrow> d) \<and> c \<noteq> r \<and> c \<noteq> [] \<and> chain_to r par cs)"

fun place_in :: "string list \<Rightarrow> share_place" where
  "place_in [] = InShare None None"
| "place_in (c # cs) = InShare (Some c) None"

lemma back_one: "chain_to r par (c # cs) \<Longrightarrow> sh_folder_id s = Some r \<Longrightarrow> back_from s par (place_in (c # cs)) = place_in cs"
  by (cases cs) (auto simp: goBack_def atShareRoot_def filled_def)

text \<open>From every folder of the share the back button leads up one folder at a time to the shared folder and then to the lists,
  and leaving a file leads to the folder it was opened from.\<close>

theorem back_leads_up:
  assumes "chain_to r par cs" "sh_folder_id s = Some r" "k \<le> length cs"
  shows "(back_from s par ^^ k) (place_in cs) = place_in (drop k cs)"
    and "(back_from s par ^^ Suc (length cs)) (place_in cs) = SharesPlace"
    and "back_from s par (openSharedFile folder f) = InShare folder None"
proof -
  have up: "(back_from s par ^^ k) (place_in ds) = place_in (drop k ds)" if "chain_to r par ds" "k \<le> length ds" for k ds
    using that
  proof (induction k arbitrary: ds)
    case (Suc k)
    then obtain c cs where ds: "ds = c # cs" by (cases ds) auto
    from back_one [OF _ assms(2)] Suc.prems ds have "back_from s par (place_in ds) = place_in cs" by simp
    moreover have "(back_from s par ^^ k) (place_in cs) = place_in (drop k cs)" using Suc.IH [of cs] Suc.prems ds by simp
    ultimately show ?case using ds by (simp only: funpow_Suc_right comp_def drop_Suc_Cons)
  qed simp
  from up [OF assms(1, 3)] show "(back_from s par ^^ k) (place_in cs) = place_in (drop k cs)" .
  have "(back_from s par ^^ length cs) (place_in cs) = InShare None None" using up [OF assms(1)] by simp
  then show "(back_from s par ^^ Suc (length cs)) (place_in cs) = SharesPlace"
    by (simp add: goBack_def atShareRoot_def filled_def)
  show "back_from s par (openSharedFile folder f) = InShare folder None"
    by (simp add: openSharedFile_def fileBack_def)
qed

section \<open>Uploads\<close>

lemma upload_fold:
  "su_calls (fold (upload_one t) xs u) = su_calls u @ map (\<lambda>p. (fst p, t)) xs"
  "su_failed (fold (upload_one t) xs u) = su_failed u + count_if (\<lambda>p. snd p \<noteq> None) xs"
  "length (su_notes (fold (upload_one t) xs u)) = length (su_notes u) + count_if (\<lambda>p. snd p \<noteq> None) xs"
  by (induction xs arbitrary: u) (auto simp: upload_one_def Let_def split: option.split)

lemma count_if_not_all: "count_if P xs < length xs \<longleftrightarrow> (\<exists>x \<in> set xs. \<not> P x)"
  using count_if_le [of P xs] count_if_all [of xs P] count_if_eq_length [of P xs] by (metis nat_less_le)

text \<open>Every chosen file is sent once, in order and into the folder that was open, whatever happens to the others; each failure is
  told, and the closing note counts the files that arrived.\<close>

theorem upload_into_share:
  assumes "selected \<noteq> []" "bad = count_if (\<lambda>p. snd p \<noteq> None) selected"
  shows "su_calls (handleUpload s folder selected u)
      = su_calls u @ map (\<lambda>p. (fst p, if atShareRoot s folder then None else folder)) selected"
    and "\<not> su_uploading (handleUpload s folder selected u)" "su_failed (handleUpload s folder selected u) = bad"
    and "length (su_notes (handleUpload s folder selected u))
      = length (su_notes u) + bad + (if \<exists>p \<in> set selected. snd p = None then 1 else 0)"
    and "\<exists>p \<in> set selected. snd p = None \<Longrightarrow> last (su_notes (handleUpload s folder selected u))
      = (True, ''Uploaded '' @ show_nat (length selected - bad) @ '' file'' @ (if length selected - bad \<noteq> 1 then ''s'' else []))"
proof -
  show "su_calls (handleUpload s folder selected u)
      = su_calls u @ map (\<lambda>p. (fst p, if atShareRoot s folder then None else folder)) selected"
    "\<not> su_uploading (handleUpload s folder selected u)" "su_failed (handleUpload s folder selected u) = bad"
    using assms(1) by (simp_all add: handleUpload_def Let_def upload_fold assms(2))
  show "length (su_notes (handleUpload s folder selected u))
      = length (su_notes u) + bad + (if \<exists>p \<in> set selected. snd p = None then 1 else 0)"
    using assms(1) count_if_not_all [of "\<lambda>p. snd p \<noteq> None" selected]
    by (simp add: handleUpload_def Let_def upload_fold assms(2))
  show "last (su_notes (handleUpload s folder selected u))
      = (True, ''Uploaded '' @ show_nat (length selected - bad) @ '' file'' @ (if length selected - bad \<noteq> 1 then ''s'' else []))"
    if "\<exists>p \<in> set selected. snd p = None"
    using assms(1) that count_if_not_all [of "\<lambda>p. snd p \<noteq> None" selected]
    by (simp add: handleUpload_def Let_def upload_fold assms(2))
qed

text \<open>The address decides the screen: a shared file shows itself, a folder shows the file of the address, else its content.\<close>

theorem screen_of_address:
  "share_screen s folder file = OneFile \<longleftrightarrow> \<not> sh_is_folder s"
  "share_screen s folder file = FileOf i \<Longrightarrow> sh_is_folder s \<and> file = Some i \<and> i \<noteq> []"
  "sh_is_folder s \<Longrightarrow> share_screen s folder None = FolderOf folder"
  by (auto simp: share_screen_def filled_def split: option.splits if_splits)

text \<open>Only shares of the list are revoked, one at a time.\<close>

theorem revokes_one_of_mine:
  "sp_revokes (revoke_press i p) = sp_revokes p @ [i] \<Longrightarrow> i \<in> sh_id ` set (loaded (sp_mine p)) \<and> \<not> sp_revoking p"
  "sp_revoking p \<Longrightarrow> revoke_press i p = p"
  by (auto simp: revoke_press_def split: if_splits)

section \<open>Behaviours against the intent\<close>

text \<open>A list that could not be loaded reads as an empty one.\<close>

theorem failed_list_reads_empty:
  assumes "sp_with p = Some (Inl ())" "sp_mine p \<noteq> None" "\<not> sp_by_me p"
  shows "shares_view p = SharesText ''Nothing has been shared with you yet.''"
  using assms by (simp add: shares_view_def loaded_def)

text \<open>Every failure but a refusal reads as a share that was revoked, a server error or a broken connection too.\<close>

theorem outage_reads_as_revoked:
  "failure_title (share_failure_of TypeError) = ''Share not found''"
  "c \<noteq> 403 \<Longrightarrow> failure_title (share_failure_of (ApiError c m b r)) = ''Share not found''"
  by (simp_all add: share_failure_of_def)

text \<open>The server pages the content of a shared folder; the view asks for the first page and shows nothing of the others.\<close>

theorem rest_of_shared_folder_hidden:
  assumes "n < length xs" "distinct xs"
  shows "last xs \<notin> set (shared_rows (Some \<lparr>lp_items = take n xs, lp_next = t\<rparr>))"
proof -
  have "last xs \<in> set (drop n xs)" using assms(1) by (metis drop_eq_Nil last_drop last_in_set not_le)
  moreover have "set (take n xs) \<inter> set (drop n xs) = {}" using assms(2) by (rule set_take_disj_set_drop_if_distinct) simp
  ultimately show ?thesis by (auto simp: shared_rows_def)
qed

text \<open>A second copy within two seconds is unmarked by the timer of the first.\<close>

theorem copied_mark_cut_short:
  assumes "sf_created f = Some s"
  shows "sf_copied (form_run [ShCopy True, ShCopy True] (f\<lparr>sf_closed := False\<rparr>))
    \<and> \<not> sf_copied (form_run [ShCopy True, ShCopy True, ShCopyTimer] (f\<lparr>sf_closed := False\<rparr>))"
  using assms by (simp add: form_run_def)

end
