(* ===== verification/Spec2Isabelle.thy ===== *)
theory Spec2Isabelle
  imports ApiClient FileUpload ChunkPool BackupControl GoogleBackup GoogleRun EmailProviders
    Base64 EmailMessage EmailBackup MsSignIn BackgroundBackup UploadQueue SyncService NightSync
    TokenRefresh FileDrag FolderContents MetricsStream VirtualGrid Pricing MathGame SortView
    Storage Favorites FolderApi MediaView Orders ApiKeyScopes
    SelectionSpec SyncLedger FolderView FilesPage EmailRetrieval BackupFlows
    RunBoard RunControls GoogleModal EmailModal SignUp SignIn MobileAuth
    Checkout PremiumCheckout StorageCheckout InterestForm AdminPricing
    MetricsPage MetricsScreen PhoneStream AdminUsers AdminOrders GroupSlots AdminRequests Profile FileServerLinks PhoneProfile PhoneHome PhoneGoogle PhoneUpgrade JsGroups SyncPreview PhoneFiles PhoneGallery RecognitionGroups Sharing
begin

text \<open>
  \<^bold>\<open>The client side of apollo-sfs, a self-hosted encrypted file store.\<close>

  The repository holds a Go backend (\<open>api/\<close>), a React web application (\<open>frontend/\<close>), a
  React Native application (\<open>mobile/\<close>), a recognition service and the deployment files. This
  development models the TypeScript of the two applications: the code that moves the user's data
  (uploads, backups, synchronisation) and the state machines behind the screens. What those parts
  call and cannot see (the backend, the providers' web services, the browser and the phone) is a
  parameter of the definitions that use it.

  \<^bold>\<open>How the parts interact.\<close> All web requests go through \<open>api/client.ts\<close>. A batch of files is
  uploaded by \<open>useFileUpload\<close>, which sends a large file in chunks through the worker pool of
  \<open>api/googleBackup.ts\<close> / \<open>api/files.ts\<close>. A backup lists the provider's items
  (\<open>googleBackup\<close>, \<open>emailProviders\<close>), then uploads them one by one under a
  \<open>BackupControl\<close>, whose gates pause or end the run; the card of a backup in the background
  (\<open>useBackgroundBackup\<close>) folds the run's progress events, and the live sync throttles the cache
  updates they cause. The phone scans its camera roll into an SQLite queue and works the queue off in
  passes, through a client that refreshes its token on a 401. The browser of the stored files lists
  pages, sorts them, renders a window of them and moves items by drag and drop.

  \<^bold>\<open>The theories\<close> (source files under \<open>src/\<close>).
  \<^item> \<open>Prelude\<close>, \<open>JsNumber\<close>: the JavaScript values and library functions the sources use
    (JSON fields, \<open>encodeURIComponent\<close>, \<open>Number\<close>, \<open>parseFloat\<close>, \<open>Math.round\<close>), and the
    shared lemmas on counters and lists (\<open>upd_simps\<close>).
  \<^item> \<open>ApiClient\<close> (\<open>frontend/src/api/client.ts\<close>): \<open>request\<close> and
    \<open>uploadWithProgress\<close> with their retries, \<open>uploadAttempt\<close> as a fold over XHR events with the
    stall timer. The locale \<open>retry_loop\<close> is the contract of both loops.
  \<^item> \<open>FileUpload\<close> (\<open>frontend/src/hooks/useFileUpload.ts\<close>): the rows, the retry loop of each file
    and the final status as a step function over events, the speed window.
  \<^item> \<open>ChunkPool\<close>: slicing, and the interleaved workers of a chunked upload.
  \<^item> \<open>BackupControl\<close> (\<open>api/backupControl.ts\<close>): pause, resume, cancel, gates, listeners.
  \<^item> \<open>Paging\<close>: the locales \<open>token_paging\<close> (a listing that follows page tokens) and
    \<open>gated_run\<close>/\<open>counted_run\<close> (a run over items that stops at a closed gate), interpreted for the
    Drive, Photos and Gmail listings and for the Google, mobile and email runs.
  \<^item> \<open>GoogleBackup\<close>, \<open>GoogleRun\<close> (\<open>api/googleBackup.ts\<close>,
    \<open>mobile/src/services/GoogleBackupService.ts\<close>): listings, the picker session, the upload runs.
  \<^item> \<open>EmailProviders\<close>, \<open>Base64\<close>, \<open>EmailMessage\<close>, \<open>MsSignIn\<close>
    (\<open>api/emailProviders.ts\<close>): mailbox listing under retrieval criteria (locale \<open>mailbox\<close>),
    message download, the Microsoft sign-in.
  \<^item> \<open>EmailBackup\<close> (\<open>api/emailBackup.ts\<close>): the email run, its rollback and settings.
  \<^item> \<open>BackgroundBackup\<close> (\<open>hooks/useBackgroundBackup.ts\<close>, \<open>useBackupLiveSync.ts\<close>).
  \<^item> \<open>UploadQueue\<close>, \<open>SyncService\<close>, \<open>NightSync\<close>, \<open>TokenRefresh\<close> (\<open>mobile/src\<close>): the
    queue table (locale \<open>queue_store\<close>), scan and upload passes, the nightly task, the token refresh
    in the steps between its awaits.
  \<^item> \<open>FolderContents\<close>, \<open>SortView\<close>, \<open>VirtualGrid\<close>, \<open>FileDrag\<close>, \<open>Favorites\<close>,
    \<open>MediaView\<close>, \<open>FolderApi\<close> (\<open>frontend/src\<close>): the file browser and the media collections.
  \<^item> \<open>MetricsStream\<close>, \<open>Storage\<close>, \<open>Pricing\<close>, \<open>Orders\<close>, \<open>ApiKeyScopes\<close>,
    \<open>MathGame\<close> (\<open>frontend/src\<close>): the metrics socket, drives and the speed test, prices and
    discounts, orders and subscriptions, the scopes of API keys, the math game.
  \<^item> \<open>SelectionSpec\<close>, \<open>SyncLedger\<close>: abstract specifications and the refinements that implement them.
    The selection of a media collection with its bulk actions under way refines a machine on sets of ids and
    requests owed; a pass of the mobile sync refines a ledger that gives each asset one state, with exactly
    the requests its answers call for.
  \<^item> \<open>FolderView\<close>, \<open>FilesPage\<close>, \<open>EmailRetrieval\<close>, \<open>BackupFlows\<close>
    (\<open>routes/_auth.client/index.tsx\<close>): the files page. Its folder view with the bulk operations, rename
    and create; navigation by search parameters and the prompts; the retrieval of a mailbox behind the
    open picker; the choice of Google services and the background runs, where the run, its rollback, the
    deletion of the originals and the report of the run meet.
  \<^item> \<open>RunBoard\<close>, \<open>RunControls\<close>, \<open>GoogleModal\<close>, \<open>EmailModal\<close>
    (\<open>components/GoogleBackupModal.tsx\<close>, \<open>components/EmailBackupModal.tsx\<close>): the backup windows. The
    status of each row and the messages of failed ones, the run controls with the cancel dialog, and each
    window's selection, filters, destinations, quota bar, run, retry and clean-up.
  \<^item> \<open>SignUp\<close>, \<open>SignIn\<close>, \<open>MobileAuth\<close> (\<open>routes/register.tsx\<close>, \<open>auth.tsx\<close>,
    \<open>routes/login.tsx\<close>, \<open>mobile/src/api/auth.ts\<close>, \<open>AuthContext\<close>): the registration page as a
    step function over its inputs and answers, the guards of the routes with every way to sign out, the
    change of a password, and the two logins of the phone over a storage that may refuse to write or remove a token.
  \<^item> \<open>Checkout\<close>, \<open>PremiumCheckout\<close>, \<open>StorageCheckout\<close>, \<open>InterestForm\<close> (\<open>components/PayPal*.tsx\<close>,
    \<open>HostedCardFields.tsx\<close>, \<open>PremiumUpgradeModal.tsx\<close>, \<open>routes/_auth.premium.tsx\<close>,
    \<open>StorageUpgradeModal.tsx\<close>, \<open>routes/interest.tsx\<close>): payment. The buttons work through the handlers of
    the page around them; the locale \<open>settling_checkout\<close> is the contract under which a check mark means
    that the order of its sheet is settled, \<open>logged_checkout\<close> the one under which a payment is one order and at most one
    settlement of it. The pages are interpreted where they keep them.
  \<^item> \<open>AdminPricing\<close> (\<open>routes/_auth.admin/pricing.tsx\<close>): the administrator's editor of line items
    and the proposal and confirmation of discounts. \<open>Decimals\<close> holds the round trips between numbers and
    the texts \<open>toFixed\<close> and \<open>String\<close> make of them.
  \<^item> \<open>AdminStorage\<close>, \<open>AdminUsers\<close> (\<open>routes/_auth.admin/users.tsx\<close>, its windows in \<open>components/\<close>): the
    administrator's list of users. Every request that a run of clicks, typing and answers sends is sound
    (reasons and codes present, never one's own role or deletion while the own name stays, a new name of three characters); what the storage editor saves are
    non-negative sizes that hold what is used.
  \<^item> \<open>AdminOrders\<close> (\<open>routes/_auth.admin/orders.tsx\<close>, \<open>components/InvoiceDocument.tsx\<close>): refunds are asked only
    for captured orders inside their ninety days, invoices that go out have positive lines and a deposit within
    their sum, and an untouched one asks for the price of the request.
  \<^item> \<open>GroupSlots\<close> (\<open>routes/_auth.admin/group-registration.create.tsx\<close>): the slots of a group that is being
    composed never take more than the space of any server and tier, an edited row comes back as it was, and every request is sound.
  \<^item> \<open>AdminRequests\<close> (\<open>routes/_auth.admin/requests.tsx\<close>, \<open>components/GroupRegistrationSection.tsx\<close>):
    invitations are sound, applications get the smallest plan that covers them, drives are grouped without loss,
    the groups are a stable sort with the endless ones last.
  \<^item> \<open>ProfileServers\<close>, \<open>Profile\<close> are the profile page: at most five speed tests in any minute (and a button that never comes back after
    the fifth), servers and drives that are asked for are the user's, the code of a linking round trip is redeemed
    once, renames are valid and end the session, and the premium card, preference cards and times since a backup.
  \<^item> \<open>FileServerLinks\<close> (\<open>components/FileServerLinksCard.tsx\<close>, \<open>FileServerLinkModal.tsx\<close>) are the mount links: a
    new one is offered when some drive has none, and none is asked for twice. \<open>PhoneProfile\<close> is
    \<open>mobile/src/screens/ProfileScreen.tsx\<close>: its limit of speed tests through the same locale \<open>clocked\<close> as the web,
    its measurements against those of the web, and the folder the auto-upload remembers.
  \<^item> \<open>PhoneHome\<close> (\<open>mobile/src/screens/HomeScreen.tsx\<close>, \<open>context/SyncContext.tsx\<close>) is the home screen of the phone:
    the state of the synchronisation over \<open>SyncService\<close>, what cleaning the device removes (rows of \<open>UploadQueue\<close> that
    are done), destinations, and the background backup over \<open>GoogleRun\<close> with the deletion of the originals.
  \<^item> \<open>PhoneGoogle\<close> (\<open>mobile/src/components/GoogleBackupModal.tsx\<close>, \<open>services/backupSettings.ts\<close>) is the window of a
    Google backup on the phone: what is backed up fits the quota and stands in the list, the badges and the counters
    agree, redirected media get no destination, and what the deletion of the originals takes.
  \<^item> \<open>PhoneUpgrade\<close> (\<open>mobile/src/components/StorageUpgradeModal.tsx\<close>, \<open>api/storage.ts\<close>) buys storage on the phone:
    its plans are those of the web, the deposit is one half, wallets are charged what their sheet showed whatever order
    the answers come in, an open checkout keeps its kind while the server list is closed, and where it goes wrong.
  \<^item> \<open>SyncPreview\<close> (\<open>mobile/src/components/SyncPreviewModal.tsx\<close>) chooses the photos to synchronise: the days show every
    picture once and in order, what is confirmed stays within the quota, the bar fits. \<open>JsGroups\<close> holds the grouping of a
    list by a key that it shares with the gallery.
  \<^item> \<open>PhoneFiles\<close> (\<open>mobile/src/screens/FilesScreen.tsx\<close>) is the files screen of the phone: with answers in order it
    shows the folder its path ends in, its requests are well formed, and what late answers do. \<open>PhoneGallery\<close>
    (\<open>components/MediaGallery.tsx\<close>) shows every file once in order, and its actions take out what succeeded.
  \<^item> \<open>RecognitionGroups\<close> (\<open>components/RecognitionGroupsModal.tsx\<close>, \<open>api/recognition.ts\<close>): the groups recognition found,
    with their renaming, merging and deletion. \<open>Sharing\<close> (\<open>api/shares.ts\<close>, \<open>components/ShareModal.tsx\<close>,
    \<open>routes/_auth.client/shared.*\<close>): a share is asked for soundly and once, its permissions read the same on both
    sides, the way back leads up to the root of the share, and every chosen file is sent once.
  \<^item> \<open>Infrastructure\<close>, \<open>LiveMetrics\<close>, \<open>MetricsPage\<close> (\<open>routes/_auth.admin/metrics.tsx\<close>,
    \<open>AlarmConfig.tsx\<close>, \<open>StorageDonut.tsx\<close>): the metrics. The tree of servers, nodes and drives over a
    store of groups; series and rates from frames and history, with the area under a rate; selection,
    alarms, test and benchmark cards. \<open>MetricsScreen\<close>, \<open>PhoneStream\<close>
    (\<open>mobile/src/screens/MetricsScreen.tsx\<close>, \<open>mobile/src/hooks/useMetricsStream.ts\<close>): the phone draws
    the same graphs; where it keeps histories and sockets differently.

  \<^bold>\<open>Conventions.\<close> The state a component keeps is a record, one operation is one definition, and a
  concurrent component is a step function or an inductive relation over its events, so that every
  interleaving is a list of events. A rejected promise or an exception is \<open>Inl\<close>, a missing value
  \<open>None\<close>. Numbers are exact: \<open>nat\<close> and \<open>int\<close> where the code counts, \<open>rat\<close> where it
  divides; the rounding of doubles is not modelled.

  \<^bold>\<open>What is shown.\<close> Each component has its invariant and the outcome of its operations on every
  branch: what a finished upload, run or pass reports, that chunks are sent exactly once and
  reassemble to the file, that a listing ends and is complete, that the gates open only while a run
  may go on, what becomes of the requests that wait for a refresh, that counters and windows stay in their
  bounds. Some theorems exhibit a behaviour of the code that contradicts its intent; their text says so.

  \<^bold>\<open>Fuel.\<close> The paging loops take fuel and answer \<open>None\<close> when it runs out. For a provider that
  names finitely many pages without repetition the length of the listing suffices
  (\<open>GoogleBackup.drive_listing_ends\<close>, \<open>EmailProviders.gmail_listing_ends\<close>); a provider that repeats
  a token keeps the code going for ever, which is why the fuel is there. The polling of the picker is
  bounded by the expiry of its session.

  \<^bold>\<open>Not modelled.\<close> The markup of the pages and components, styling and animation; the endpoint
  wrappers that are one call of the client each; the backend, the recognition service and the
  deployment, which are not TypeScript. Time stamps are parsed and rendered, names collated and hashes
  computed by parameters, since the language leaves them to the engine.
\<close>

end
